(* ===== verification/Prelude.thy ===== *)
theory Prelude
  imports Main
begin

text \<open>
  Vocabulary shared by every component: instants and Go strings, the byte-string helpers of the
  \<open>strings\<close> package the sources call, the trailing window of a stream, and keyed rows (the shape
  of an SQL table with a primary key, and of a Go map that is iterated).

  Conventions used throughout. A Go \<open>string\<close> or \<open>[]byte\<close> is a list of characters, one per byte.
  A \<open>time.Time\<close> or \<open>time.Duration\<close> is an integer number of nanoseconds; an instant counts from
  Go's zero time, so \<open>IsZero\<close> is \<open>t = 0\<close>. A Go \<open>error\<close> is its text. A clock reading, a
  fresh UUID and a failure of a driver are arguments of the operation that observes them.
\<close>

named_theorems go_string \<open>evaluation rules of the byte-string helpers\<close>
named_theorems keyed \<open>lookup in an updated table\<close>

type_synonym time = int
type_synonym go_error = string

abbreviation (input) nanosecond :: int where "nanosecond \<equiv> 1"

definition millisecond :: int where "millisecond = 1000000"
definition second :: int where "second = 1000000000"
definition minute :: int where "minute = 60000000000"

lemmas time_units = millisecond_def second_def minute_def

definition time_zero :: time where "time_zero = 0"

section \<open>Byte strings\<close>

definition has_prefix :: "string \<Rightarrow> string \<Rightarrow> bool" where
  "has_prefix p s \<longleftrightarrow> take (length p) s = p"

definition has_suffix :: "string \<Rightarrow> string \<Rightarrow> bool" where
  "has_suffix p s \<longleftrightarrow> length p \<le> length s \<and> drop (length s - length p) s = p"

definition trim_prefix :: "string \<Rightarrow> string \<Rightarrow> string" where
  "trim_prefix p s = (if has_prefix p s then drop (length p) s else s)"

fun str_contains :: "string \<Rightarrow> string \<Rightarrow> bool" where
  "str_contains needle [] \<longleftrightarrow> needle = []"
| "str_contains needle (c # cs) \<longleftrightarrow> has_prefix needle (c # cs) \<or> str_contains needle cs"

definition lower_char :: "char \<Rightarrow> char" where
  "lower_char c = (if 65 \<le> (of_char c :: nat) \<and> (of_char c :: nat) \<le> 90
                   then char_of ((of_char c :: nat) + 32) else c)"

definition to_lower :: "string \<Rightarrow> string" where
  "to_lower s = map lower_char s"

definition is_space :: "char \<Rightarrow> bool" where
  "is_space c \<longleftrightarrow> (of_char c :: nat) \<in> {9, 10, 11, 12, 13, 32}"

definition trim_space :: "string \<Rightarrow> string" where
  "trim_space s = rev (dropWhile is_space (rev (dropWhile is_space s)))"

fun split_on :: "char \<Rightarrow> string \<Rightarrow> string list" where
  "split_on d [] = [[]]"
| "split_on d (c # cs) =
     (if c = d then [] # split_on d cs
      else case split_on d cs of [] \<Rightarrow> [[c]] | w # ws \<Rightarrow> (c # w) # ws)"

text \<open>\<open>strconv.Quote\<close>, the \<open>%q\<close> verb; bytes above 127 are kept as they are.\<close>

definition hex_char :: "nat \<Rightarrow> char" where
  "hex_char d = ''0123456789abcdef'' ! d"

definition quote_char :: "char \<Rightarrow> string" where
  "quote_char c =
     (let n = (of_char c :: nat); bs = CHR 0x5C in
      if n = 34 then [bs, c] else if n = 92 then [bs, bs]
      else if n = 7 then [bs, CHR ''a''] else if n = 8 then [bs, CHR ''b'']
      else if n = 12 then [bs, CHR ''f''] else if n = 10 then [bs, CHR ''n'']
      else if n = 13 then [bs, CHR ''r''] else if n = 9 then [bs, CHR ''t'']
      else if n = 11 then [bs, CHR ''v'']
      else if n < 32 \<or> n = 127 then [bs, CHR ''x'', hex_char (n div 16), hex_char (n mod 16)]
      else [c])"

definition quote :: "string \<Rightarrow> string" where
  "quote s = [CHR 0x22] @ concat (map quote_char s) @ [CHR 0x22]"

lemma has_prefix_append [simp]: "has_prefix p (p @ s)"
  by (simp add: has_prefix_def)

lemma has_prefix_iff: "has_prefix p s \<longleftrightarrow> (\<exists>t. s = p @ t)"
  unfolding has_prefix_def by (metis append_eq_conv_conj append_take_drop_id)

lemma trim_prefix_append [simp]: "trim_prefix p (p @ s) = s"
  by (simp add: trim_prefix_def)

lemma has_prefix_Nil [simp]: "has_prefix [] s"
  by (simp add: has_prefix_def)

lemma str_contains_iff: "str_contains needle s \<longleftrightarrow> (\<exists>u v. s = u @ needle @ v)"
proof (induction s)
  case Nil
  then show ?case by auto
next
  case (Cons c s)
  have "(\<exists>u v. c # s = u @ needle @ v) \<longleftrightarrow>
      (\<exists>v. c # s = needle @ v) \<or> (\<exists>u v. s = u @ needle @ v)"
    (is "?l \<longleftrightarrow> ?a \<or> ?b")
  proof
    assume ?l
    then obtain u v where uv: "c # s = u @ needle @ v" by blast
    then show "?a \<or> ?b" by (cases u) auto
  next
    assume "?a \<or> ?b"
    then show ?l
    proof
      assume ?a
      then show ?l by (metis append_Nil)
    next
      assume ?b
      then obtain u v where "s = u @ needle @ v" by blast
      then have "c # s = (c # u) @ needle @ v" by simp
      then show ?l by blast
    qed
  qed
  then show ?case using Cons.IH by (simp add: has_prefix_iff)
qed

lemma str_contains_append_mid [simp]: "str_contains needle (u @ needle @ v)"
  by (auto simp: str_contains_iff)

lemma str_contains_mono: "str_contains needle s \<Longrightarrow> str_contains needle (u @ s @ v)"
  by (auto simp: str_contains_iff) (metis append.assoc)

lemma split_on_nonempty [simp]: "split_on d s \<noteq> []"
  by (cases s) (auto split: list.splits)

lemma split_on_no_sep: "d \<notin> set s \<Longrightarrow> split_on d s = [s]"
  by (induction s) auto

lemma split_on_append: "d \<notin> set s \<Longrightarrow> split_on d (s @ d # t) = s # split_on d t"
  by (induction s) auto

text \<open>Evaluated on the characters of the names the sources compare.\<close>

lemma lower_char_eval [go_string]:
  "lower_char CHR ''A'' = CHR ''a''" "lower_char CHR ''B'' = CHR ''b''"
  "lower_char CHR ''C'' = CHR ''c''" "lower_char CHR ''D'' = CHR ''d''"
  "lower_char CHR ''E'' = CHR ''e''" "lower_char CHR ''F'' = CHR ''f''"
  "lower_char CHR ''G'' = CHR ''g''" "lower_char CHR ''H'' = CHR ''h''"
  "lower_char CHR ''I'' = CHR ''i''" "lower_char CHR ''J'' = CHR ''j''"
  "lower_char CHR ''K'' = CHR ''k''" "lower_char CHR ''L'' = CHR ''l''"
  "lower_char CHR ''M'' = CHR ''m''" "lower_char CHR ''N'' = CHR ''n''"
  "lower_char CHR ''O'' = CHR ''o''" "lower_char CHR ''P'' = CHR ''p''"
  "lower_char CHR ''Q'' = CHR ''q''" "lower_char CHR ''R'' = CHR ''r''"
  "lower_char CHR ''S'' = CHR ''s''" "lower_char CHR ''T'' = CHR ''t''"
  "lower_char CHR ''U'' = CHR ''u''" "lower_char CHR ''V'' = CHR ''v''"
  "lower_char CHR ''W'' = CHR ''w''" "lower_char CHR ''X'' = CHR ''x''"
  "lower_char CHR ''Y'' = CHR ''y''" "lower_char CHR ''Z'' = CHR ''z''"
  "lower_char CHR ''a'' = CHR ''a''" "lower_char CHR ''b'' = CHR ''b''"
  "lower_char CHR ''c'' = CHR ''c''" "lower_char CHR ''d'' = CHR ''d''"
  "lower_char CHR ''e'' = CHR ''e''" "lower_char CHR ''f'' = CHR ''f''"
  "lower_char CHR ''g'' = CHR ''g''" "lower_char CHR ''h'' = CHR ''h''"
  "lower_char CHR ''i'' = CHR ''i''" "lower_char CHR ''j'' = CHR ''j''"
  "lower_char CHR ''k'' = CHR ''k''" "lower_char CHR ''l'' = CHR ''l''"
  "lower_char CHR ''m'' = CHR ''m''" "lower_char CHR ''n'' = CHR ''n''"
  "lower_char CHR ''o'' = CHR ''o''" "lower_char CHR ''p'' = CHR ''p''"
  "lower_char CHR ''q'' = CHR ''q''" "lower_char CHR ''r'' = CHR ''r''"
  "lower_char CHR ''s'' = CHR ''s''" "lower_char CHR ''t'' = CHR ''t''"
  "lower_char CHR ''u'' = CHR ''u''" "lower_char CHR ''v'' = CHR ''v''"
  "lower_char CHR ''w'' = CHR ''w''" "lower_char CHR ''x'' = CHR ''x''"
  "lower_char CHR ''y'' = CHR ''y''" "lower_char CHR ''z'' = CHR ''z''"
  "lower_char CHR ''_'' = CHR ''_''" "lower_char CHR '':'' = CHR '':''"
  "lower_char CHR ''-'' = CHR ''-''" "lower_char CHR ''.'' = CHR ''.''"
  "lower_char CHR '' '' = CHR '' ''"
  by (simp_all add: lower_char_def char_of_def bit_0)

lemma is_space_eval [go_string]:
  "\<not> is_space CHR ''A''" "\<not> is_space CHR ''B''" "\<not> is_space CHR ''C''"
  "\<not> is_space CHR ''D''" "\<not> is_space CHR ''E''" "\<not> is_space CHR ''F''"
  "\<not> is_space CHR ''G''" "\<not> is_space CHR ''H''" "\<not> is_space CHR ''I''"
  "\<not> is_space CHR ''J''" "\<not> is_space CHR ''K''" "\<not> is_space CHR ''L''"
  "\<not> is_space CHR ''M''" "\<not> is_space CHR ''N''" "\<not> is_space CHR ''O''"
  "\<not> is_space CHR ''P''" "\<not> is_space CHR ''Q''" "\<not> is_space CHR ''R''"
  "\<not> is_space CHR ''S''" "\<not> is_space CHR ''T''" "\<not> is_space CHR ''U''"
  "\<not> is_space CHR ''V''" "\<not> is_space CHR ''W''" "\<not> is_space CHR ''X''"
  "\<not> is_space CHR ''Y''" "\<not> is_space CHR ''Z''" "\<not> is_space CHR ''a''"
  "\<not> is_space CHR ''b''" "\<not> is_space CHR ''c''" "\<not> is_space CHR ''d''"
  "\<not> is_space CHR ''e''" "\<not> is_space CHR ''f''" "\<not> is_space CHR ''g''"
  "\<not> is_space CHR ''h''" "\<not> is_space CHR ''i''" "\<not> is_space CHR ''j''"
  "\<not> is_space CHR ''k''" "\<not> is_space CHR ''l''" "\<not> is_space CHR ''m''"
  "\<not> is_space CHR ''n''" "\<not> is_space CHR ''o''" "\<not> is_space CHR ''p''"
  "\<not> is_space CHR ''q''" "\<not> is_space CHR ''r''" "\<not> is_space CHR ''s''"
  "\<not> is_space CHR ''t''" "\<not> is_space CHR ''u''" "\<not> is_space CHR ''v''"
  "\<not> is_space CHR ''w''" "\<not> is_space CHR ''x''" "\<not> is_space CHR ''y''"
  "\<not> is_space CHR ''z''" "\<not> is_space CHR ''_''" "\<not> is_space CHR '':''"
  "\<not> is_space CHR ''-''" "\<not> is_space CHR ''.''"
  by (simp_all add: is_space_def)

lemmas string_eval = go_string to_lower_def trim_space_def trim_prefix_def has_prefix_def

lemma of_char_lt: "(of_char c :: nat) < 256"
  using of_char_mod_256 [of c, where 'a = nat] by (metis mod_less_divisor zero_less_numeral)

section \<open>The trailing window of a stream\<close>

definition lastn :: "nat \<Rightarrow> 'a list \<Rightarrow> 'a list" where
  "lastn n xs = drop (length xs - n) xs"

lemma length_lastn [simp]: "length (lastn n xs) = min n (length xs)"
  by (simp add: lastn_def)

lemma lastn_all [simp]: "length xs \<le> n \<Longrightarrow> lastn n xs = xs"
  by (simp add: lastn_def)

lemma lastn_lastn_append [simp]: "lastn n (lastn n xs @ ys) = lastn n (xs @ ys)"
  by (cases "length xs \<le> n") (simp_all add: lastn_def add.commute)

lemma lastn_append_long: "n \<le> length ys \<Longrightarrow> lastn n (xs @ ys) = lastn n ys"
  by (simp add: lastn_def)

lemma map_lastn: "map f (lastn n xs) = lastn n (map f xs)"
  by (simp add: lastn_def drop_map)

lemma lastn_suffix: "\<exists>us. xs = us @ lastn n xs"
  unfolding lastn_def by (metis append_take_drop_id)

lemma sort_key_map: "sort_key f (map h xs) = map h (sort_key (\<lambda>x. f (h x)) xs)"
proof (induction xs)
  case (Cons x xs)
  have "insort_key f (h x) (map h ys) = map h (insort_key (\<lambda>x. f (h x)) x ys)" for ys
    by (induction ys) auto
  then show ?case using Cons by simp
qed simp

section \<open>Keyed rows\<close>

text \<open>
  A table is a list of rows; \<open>key\<close> reads the primary key. \<open>upsert\<close> is SQL's
  \<open>INSERT ... ON CONFLICT(key) DO UPDATE\<close>: \<open>merge old new\<close> says which columns the update
  clause overwrites.
\<close>

definition row_get :: "('r \<Rightarrow> 'k) \<Rightarrow> 'k \<Rightarrow> 'r list \<Rightarrow> 'r option" where
  "row_get key k rows = find (\<lambda>r. key r = k) rows"

fun row_upsert :: "('r \<Rightarrow> 'k) \<Rightarrow> ('r \<Rightarrow> 'r \<Rightarrow> 'r) \<Rightarrow> 'r \<Rightarrow> 'r list \<Rightarrow> 'r list" where
  "row_upsert key merge new [] = [new]"
| "row_upsert key merge new (r # rs) =
     (if key r = key new then merge r new # rs else r # row_upsert key merge new rs)"

definition row_delete :: "('r \<Rightarrow> 'k) \<Rightarrow> 'k \<Rightarrow> 'r list \<Rightarrow> 'r list" where
  "row_delete key k rows = filter (\<lambda>r. key r \<noteq> k) rows"

definition keys_distinct :: "('r \<Rightarrow> 'k) \<Rightarrow> 'r list \<Rightarrow> bool" where
  "keys_distinct key rows \<longleftrightarrow> distinct (map key rows)"

lemma row_get_Nil [simp]: "row_get key k [] = None"
  by (simp add: row_get_def)

lemma row_get_Cons [simp]:
  "row_get key k (r # rs) = (if key r = k then Some r else row_get key k rs)"
  by (simp add: row_get_def)

lemma row_get_key: "row_get key k rows = Some r \<Longrightarrow> key r = k \<and> r \<in> set rows"
  by (induction rows) (auto split: if_splits)

lemma row_get_None_iff: "row_get key k rows = None \<longleftrightarrow> k \<notin> key ` set rows"
  by (induction rows) auto

lemma row_get_in_set:
  "keys_distinct key rows \<Longrightarrow> r \<in> set rows \<Longrightarrow> row_get key (key r) rows = Some r"
  by (induction rows) (auto simp: keys_distinct_def image_iff)

lemma row_get_upsert [keyed]:
  assumes "\<And>old. key old = key new \<Longrightarrow> key (merge old new) = key new"
  shows "row_get key k (row_upsert key merge new rows) =
     (if k = key new
      then Some (case row_get key k rows of None \<Rightarrow> new | Some old \<Rightarrow> merge old new)
      else row_get key k rows)"
  by (induction rows) (auto simp: assms)

lemma upsert_keys:
  assumes "\<And>old. key old = key new \<Longrightarrow> key (merge old new) = key new"
  shows "key ` set (row_upsert key merge new rows) = insert (key new) (key ` set rows)"
  by (induction rows) (auto simp: assms image_iff)

lemma upsert_distinct:
  assumes "\<And>old. key old = key new \<Longrightarrow> key (merge old new) = key new"
    and "keys_distinct key rows"
  shows "keys_distinct key (row_upsert key merge new rows)"
  using assms(2)
proof (induction rows)
  case Nil
  then show ?case by (simp add: keys_distinct_def)
next
  case (Cons r rs)
  then show ?case
    using upsert_keys [of key new merge rs] by (auto simp: assms(1) keys_distinct_def)
qed

lemma row_get_delete [keyed]:
  "row_get key k (row_delete key k' rows) = (if k = k' then None else row_get key k rows)"
  by (induction rows) (auto simp: row_delete_def)

lemma delete_distinct: "keys_distinct key rows \<Longrightarrow> keys_distinct key (row_delete key k rows)"
  by (auto simp: keys_distinct_def row_delete_def distinct_map intro: inj_on_subset)

lemma row_delete_absent: "row_get key k rows = None \<Longrightarrow> row_delete key k rows = rows"
  by (induction rows) (auto simp: row_delete_def split: if_splits)

end
