(* ===== verification/Go_Json.thy ===== *)
theory Go_Json
  imports Prelude
begin

text \<open>
  What the sources use of \<open>encoding/json\<close>: values, blobs and struct decoding. A blob
  (\<open>json.RawMessage\<close> or a stored \<open>[]byte\<close>) is empty, text the parser rejects (with the parser's
  message), or a value. Decoding into a struct follows the library: keys match without regard to
  ASCII case, a later duplicate wins, an absent or \<open>null\<close> field keeps its zero value, and a value of
  the wrong type is an error whose message is built by \<open>mismatch\<close> (the offset and struct path the
  library adds to that message are left out). A nil and an empty slice are both the empty list.
  Numbers are integers.
\<close>

named_theorems json_eval \<open>field lookup in encoded objects\<close>

section \<open>Results\<close>

type_synonym 'a result = "go_error + 'a"

definition res_bind :: "'a result \<Rightarrow> ('a \<Rightarrow> 'b result) \<Rightarrow> 'b result" where
  "res_bind r f = (case r of Inl e \<Rightarrow> Inl e | Inr x \<Rightarrow> f x)"

lemma res_bind_simps [simp]: "res_bind (Inl e) f = Inl e" "res_bind (Inr x) f = f x"
  by (simp_all add: res_bind_def)

lemma res_bind_Inr_iff: "res_bind r f = Inr y \<longleftrightarrow> (\<exists>x. r = Inr x \<and> f x = Inr y)"
  by (cases r) auto

fun res_mapM :: "('a \<Rightarrow> 'b result) \<Rightarrow> 'a list \<Rightarrow> 'b list result" where
  "res_mapM f [] = Inr []"
| "res_mapM f (x # xs) = res_bind (f x) (\<lambda>y. res_bind (res_mapM f xs) (\<lambda>ys. Inr (y # ys)))"

lemma res_mapM_map: "(\<And>x. x \<in> set xs \<Longrightarrow> dec (enc x) = Inr x) \<Longrightarrow> res_mapM dec (map enc xs) = Inr xs"
  by (induction xs) auto

section \<open>Values and blobs\<close>

datatype json =
    JNull
  | JBool bool
  | JNum int
  | JStr string
  | JArr "json list"
  | JObj "(string \<times> json) list"

datatype raw = RawEmpty | RawBad go_error | RawJson json

definition json_kind :: "json \<Rightarrow> string" where
  "json_kind j = (case j of JNull \<Rightarrow> ''null'' | JBool _ \<Rightarrow> ''bool'' | JNum _ \<Rightarrow> ''number''
     | JStr _ \<Rightarrow> ''string'' | JArr _ \<Rightarrow> ''array'' | JObj _ \<Rightarrow> ''object'')"

definition mismatch :: "json \<Rightarrow> string \<Rightarrow> go_error" where
  "mismatch j ty = ''json: cannot unmarshal '' @ json_kind j @ '' into Go value of type '' @ ty"

definition fold_eq :: "string \<Rightarrow> string \<Rightarrow> bool" where
  "fold_eq a b \<longleftrightarrow> to_lower a = to_lower b"

fun jlookup :: "string \<Rightarrow> (string \<times> json) list \<Rightarrow> json option" where
  "jlookup n [] = None"
| "jlookup n ((k, v) # fs) =
     (case jlookup n fs of Some w \<Rightarrow> Some w | None \<Rightarrow> if fold_eq n k then Some v else None)"

definition jfields :: "json \<Rightarrow> (string \<times> json) list" where
  "jfields j = (case j of JObj fs \<Rightarrow> fs | _ \<Rightarrow> [])"

definition jget :: "string \<Rightarrow> json \<Rightarrow> json option" where
  "jget n j = (case jlookup n (jfields j) of None \<Rightarrow> None | Some JNull \<Rightarrow> None | Some v \<Rightarrow> Some v)"

section \<open>Decoding\<close>

definition get_str :: "string \<Rightarrow> json \<Rightarrow> string result" where
  "get_str n j = (case jget n j of None \<Rightarrow> Inr [] | Some (JStr s) \<Rightarrow> Inr s
     | Some v \<Rightarrow> Inl (mismatch v ''string''))"

definition get_int :: "string \<Rightarrow> json \<Rightarrow> int result" where
  "get_int n j = (case jget n j of None \<Rightarrow> Inr 0 | Some (JNum i) \<Rightarrow> Inr i
     | Some v \<Rightarrow> Inl (mismatch v ''int''))"

definition get_bool :: "string \<Rightarrow> json \<Rightarrow> bool result" where
  "get_bool n j = (case jget n j of None \<Rightarrow> Inr False | Some (JBool b) \<Rightarrow> Inr b
     | Some v \<Rightarrow> Inl (mismatch v ''bool''))"

definition get_list :: "(json \<Rightarrow> 'a result) \<Rightarrow> string \<Rightarrow> json \<Rightarrow> 'a list result" where
  "get_list dec n j = (case jget n j of None \<Rightarrow> Inr [] | Some (JArr xs) \<Rightarrow> res_mapM dec xs
     | Some v \<Rightarrow> Inl (mismatch v ''slice''))"

definition get_ptr :: "(json \<Rightarrow> 'a result) \<Rightarrow> string \<Rightarrow> json \<Rightarrow> 'a option result" where
  "get_ptr dec n j = (case jget n j of None \<Rightarrow> Inr None
     | Some v \<Rightarrow> res_bind (dec v) (\<lambda>x. Inr (Some x)))"

definition get_raw :: "string \<Rightarrow> json \<Rightarrow> json option" where
  "get_raw n j = jlookup n (jfields j)"

definition dec_str :: "json \<Rightarrow> string result" where
  "dec_str j = (case j of JStr s \<Rightarrow> Inr s | JNull \<Rightarrow> Inr [] | v \<Rightarrow> Inl (mismatch v ''string''))"

text \<open>A struct is decoded from an object or from \<open>null\<close> (which leaves it zero).\<close>

definition struct_ok :: "string \<Rightarrow> json \<Rightarrow> json result" where
  "struct_ok ty j = (case j of JObj fs \<Rightarrow> Inr (JObj fs) | JNull \<Rightarrow> Inr (JObj [])
     | v \<Rightarrow> Inl (mismatch v ty))"

definition unmarshal :: "(json \<Rightarrow> 'a result) \<Rightarrow> raw \<Rightarrow> 'a result" where
  "unmarshal dec b = (case b of RawEmpty \<Rightarrow> Inl ''unexpected end of JSON input''
     | RawBad e \<Rightarrow> Inl e | RawJson j \<Rightarrow> dec j)"

section \<open>Encoding with \<open>omitempty\<close>\<close>

definition omit_str :: "string \<Rightarrow> string \<Rightarrow> (string \<times> json) list" where
  "omit_str n s = (if s = [] then [] else [(n, JStr s)])"

definition omit_opt :: "('a \<Rightarrow> json) \<Rightarrow> string \<Rightarrow> 'a option \<Rightarrow> (string \<times> json) list" where
  "omit_opt enc n x = (case x of None \<Rightarrow> [] | Some y \<Rightarrow> [(n, enc y)])"

definition omit_list :: "('a \<Rightarrow> json) \<Rightarrow> string \<Rightarrow> 'a list \<Rightarrow> (string \<times> json) list" where
  "omit_list enc n xs = (if xs = [] then [] else [(n, JArr (map enc xs))])"

section \<open>Lookup in encoded objects\<close>

lemma jlookup_append [json_eval]:
  "jlookup n (xs @ ys) = (case jlookup n ys of Some w \<Rightarrow> Some w | None \<Rightarrow> jlookup n xs)"
  by (induction xs) (auto split: option.splits)

lemma jlookup_omit_str [json_eval]:
  "jlookup n (omit_str m s) = (if fold_eq n m \<and> s \<noteq> [] then Some (JStr s) else None)"
  by (simp add: omit_str_def)

lemma jlookup_omit_opt [json_eval]:
  "jlookup n (omit_opt enc m x) = (if fold_eq n m then map_option enc x else None)"
  by (simp add: omit_opt_def split: option.splits)

lemma jlookup_omit_list [json_eval]:
  "jlookup n (omit_list enc m xs) =
     (if fold_eq n m \<and> xs \<noteq> [] then Some (JArr (map enc xs)) else None)"
  by (simp add: omit_list_def)

lemma fold_eq_refl [simp]: "fold_eq n n"
  by (simp add: fold_eq_def)

lemmas fold_eq_eval = fold_eq_def to_lower_def lower_char_def

lemma jfields_JObj [simp]: "jfields (JObj fs) = fs"
  by (simp add: jfields_def)

lemma struct_ok_JObj [simp]: "struct_ok ty (JObj fs) = Inr (JObj fs)"
  by (simp add: struct_ok_def)

lemma get_str_value [json_eval]:
  "jlookup n fs = (if s \<noteq> [] then Some (JStr s) else None) \<Longrightarrow> get_str n (JObj fs) = Inr s"
  by (simp add: get_str_def jget_def)

lemma get_str_always: "jlookup n fs = Some (JStr s) \<Longrightarrow> get_str n (JObj fs) = Inr s"
  by (simp add: get_str_def jget_def)

lemma get_list_value:
  assumes "jlookup n fs = (if xs \<noteq> [] then Some (JArr (map enc xs)) else None)"
    and "\<And>x. x \<in> set xs \<Longrightarrow> dec (enc x) = Inr x"
  shows "get_list dec n (JObj fs) = Inr xs"
  using assms by (auto simp: get_list_def jget_def res_mapM_map)

lemma get_list_always:
  assumes "jlookup n fs = Some (JArr (map enc xs))"
    and "\<And>x. x \<in> set xs \<Longrightarrow> dec (enc x) = Inr x"
  shows "get_list dec n (JObj fs) = Inr xs"
  using assms by (auto simp: get_list_def jget_def res_mapM_map)

lemma get_ptr_value:
  assumes "jlookup n fs = map_option enc x"
    and "\<And>y. x = Some y \<Longrightarrow> dec (enc y) = Inr y \<and> enc y \<noteq> JNull"
  shows "get_ptr dec n (JObj fs) = Inr x"
proof (cases x)
  case None
  then show ?thesis using assms(1) by (simp add: get_ptr_def jget_def)
next
  case (Some y)
  then show ?thesis using assms by (cases "enc y") (auto simp: get_ptr_def jget_def)
qed

section \<open>Raw fields and dynamic maps\<close>

definition raw_field :: "string \<Rightarrow> json \<Rightarrow> raw" where
  "raw_field n j = (case get_raw n j of None \<Rightarrow> RawEmpty | Some v \<Rightarrow> RawJson v)"

type_synonym fields = "(string \<times> json) list"

text \<open>A decoded \<open>map[string]any\<close>: a later duplicate wins; type assertions give zero values.\<close>

definition mget :: "string \<Rightarrow> fields \<Rightarrow> json option" where
  "mget k fs = map_of (rev fs) k"

definition as_str :: "json option \<Rightarrow> string" where
  "as_str v = (case v of Some (JStr s) \<Rightarrow> s | _ \<Rightarrow> [])"

definition as_num :: "json option \<Rightarrow> int" where
  "as_num v = (case v of Some (JNum n) \<Rightarrow> n | _ \<Rightarrow> 0)"

definition as_obj :: "json option \<Rightarrow> fields" where
  "as_obj v = (case v of Some (JObj fs) \<Rightarrow> fs | _ \<Rightarrow> [])"

definition as_arr :: "json option \<Rightarrow> json list" where
  "as_arr v = (case v of Some (JArr xs) \<Rightarrow> xs | _ \<Rightarrow> [])"

end
