(* ===== verification/Task_State.thy ===== *)
theory Task_State
  imports Go_Json
begin

text \<open>
  The A2A task state machine: \<open>internal/a2a/state_machine.go\<close> and the \<open>TaskState\<close> constants of
  \<open>internal/a2a/messages.go\<close>. A state is the Go string it is in the code, so a record read
  back from a database may hold any string; the machine's eight states are constants.
\<close>

type_synonym task_state = string

definition TaskStateSubmitted :: task_state where
  "TaskStateSubmitted = ''TASK_STATE_SUBMITTED''"
definition TaskStateWorking :: task_state where
  "TaskStateWorking = ''TASK_STATE_WORKING''"
definition TaskStateInputRequired :: task_state where
  "TaskStateInputRequired = ''TASK_STATE_INPUT_REQUIRED''"
definition TaskStateAuthRequired :: task_state where
  "TaskStateAuthRequired = ''TASK_STATE_AUTH_REQUIRED''"
definition TaskStateCompleted :: task_state where
  "TaskStateCompleted = ''TASK_STATE_COMPLETED''"
definition TaskStateFailed :: task_state where
  "TaskStateFailed = ''TASK_STATE_FAILED''"
definition TaskStateCanceled :: task_state where
  "TaskStateCanceled = ''TASK_STATE_CANCELED''"
definition TaskStateRejected :: task_state where
  "TaskStateRejected = ''TASK_STATE_REJECTED''"

lemmas TaskState_defs =
  TaskStateSubmitted_def TaskStateWorking_def TaskStateInputRequired_def TaskStateAuthRequired_def
  TaskStateCompleted_def TaskStateFailed_def TaskStateCanceled_def TaskStateRejected_def

definition AllStates :: "task_state list" where
  "AllStates = [TaskStateSubmitted, TaskStateWorking, TaskStateInputRequired,
     TaskStateAuthRequired, TaskStateCompleted, TaskStateFailed, TaskStateCanceled,
     TaskStateRejected]"

lemma distinct_AllStates: "distinct AllStates"
  unfolding AllStates_def TaskState_defs by simp

lemmas TaskState_neq [simp] =
  distinct_AllStates [unfolded AllStates_def, simplified distinct.simps list.set insert_iff
    de_Morgan_disj empty_iff not_False_eq_True simp_thms]

lemma distinct_AllStates_rev:
  "distinct [TaskStateRejected, TaskStateCanceled, TaskStateFailed, TaskStateCompleted,
     TaskStateAuthRequired, TaskStateInputRequired, TaskStateWorking, TaskStateSubmitted]"
  unfolding TaskState_defs by simp

lemmas TaskState_neq_rev [simp] =
  distinct_AllStates_rev [simplified distinct.simps list.set insert_iff
    de_Morgan_disj empty_iff not_False_eq_True simp_thms]

lemma TaskState_nonempty [simp]:
  "TaskStateSubmitted \<noteq> []" "TaskStateWorking \<noteq> []" "TaskStateInputRequired \<noteq> []"
  "TaskStateAuthRequired \<noteq> []" "TaskStateCompleted \<noteq> []" "TaskStateFailed \<noteq> []"
  "TaskStateCanceled \<noteq> []" "TaskStateRejected \<noteq> []"
  by (simp_all add: TaskState_defs)

definition IsTerminal :: "task_state \<Rightarrow> bool" where
  "IsTerminal s \<longleftrightarrow> s = TaskStateCompleted \<or> s = TaskStateFailed \<or> s = TaskStateCanceled
     \<or> s = TaskStateRejected"

text \<open>The two-level Go map; a missing inner key reads as \<open>false\<close>.\<close>

definition allowedTransitions :: "task_state \<rightharpoonup> task_state list" where
  "allowedTransitions = map_of
     [(TaskStateSubmitted, [TaskStateWorking, TaskStateRejected]),
      (TaskStateWorking, [TaskStateInputRequired, TaskStateAuthRequired, TaskStateCompleted,
         TaskStateFailed, TaskStateCanceled]),
      (TaskStateInputRequired, [TaskStateWorking, TaskStateCanceled]),
      (TaskStateAuthRequired, [TaskStateWorking, TaskStateCanceled])]"

definition IsValidTransition :: "task_state \<Rightarrow> task_state \<Rightarrow> bool" where
  "IsValidTransition frm to' =
     (if frm = to' then True
      else if IsTerminal frm then False
      else case allowedTransitions frm of
             None \<Rightarrow> False
           | Some allowed \<Rightarrow> to' \<in> set allowed)"

text \<open>\<open>persistence.Task\<close>, the stored record (\<open>internal/persistence/interface.go\<close>).\<close>

record ptask =
  ID :: string
  RunnerSID :: string
  State :: string
  Method :: string
  InputBlob :: raw
  OutputBlob :: raw
  AuthChallenge :: string
  CreatedAt :: time
  UpdatedAt :: time

definition arrow :: string where "arrow = '' '' @ [CHR 0xE2, CHR 0x86, CHR 0x92] @ '' ''"

text \<open>\<open>TransitionTask\<close> writes through the record pointer; \<open>None\<close> is the nil pointer.\<close>

definition TransitionTask ::
    "ptask option \<Rightarrow> task_state \<Rightarrow> string \<Rightarrow> time \<Rightarrow> ptask result" where
  "TransitionTask recp to' reason now =
     (case recp of
        None \<Rightarrow> Inl ''TransitionTask: nil task''
      | Some rec \<Rightarrow>
          let frm = (if State rec = [] then TaskStateSubmitted else State rec) in
          if \<not> IsValidTransition frm to'
          then Inl (''illegal transition: '' @ frm @ arrow @ to' @ '' (reason: '' @ reason @ '')'')
          else Inr (rec\<lparr>State := to', UpdatedAt := now\<rparr>))"

section \<open>The documented machine\<close>

text \<open>The table of the package comment, as a step relation.\<close>

inductive table_step :: "task_state \<Rightarrow> task_state \<Rightarrow> bool" where
  submitted_working: "table_step TaskStateSubmitted TaskStateWorking"
| submitted_rejected: "table_step TaskStateSubmitted TaskStateRejected"
| working_input: "table_step TaskStateWorking TaskStateInputRequired"
| working_auth: "table_step TaskStateWorking TaskStateAuthRequired"
| working_completed: "table_step TaskStateWorking TaskStateCompleted"
| working_failed: "table_step TaskStateWorking TaskStateFailed"
| working_canceled: "table_step TaskStateWorking TaskStateCanceled"
| input_working: "table_step TaskStateInputRequired TaskStateWorking"
| input_canceled: "table_step TaskStateInputRequired TaskStateCanceled"
| auth_working: "table_step TaskStateAuthRequired TaskStateWorking"
| auth_canceled: "table_step TaskStateAuthRequired TaskStateCanceled"

lemmas table_step_rules = table_step.intros
inductive_simps table_step_simps: "table_step a b"

lemma IsTerminal_simps [simp]:
  "IsTerminal TaskStateCompleted" "IsTerminal TaskStateFailed"
  "IsTerminal TaskStateCanceled" "IsTerminal TaskStateRejected"
  "\<not> IsTerminal TaskStateSubmitted" "\<not> IsTerminal TaskStateWorking"
  "\<not> IsTerminal TaskStateInputRequired" "\<not> IsTerminal TaskStateAuthRequired"
  by (simp_all add: IsTerminal_def TaskState_neq_rev)

lemma terminal_no_table_step: "IsTerminal a \<Longrightarrow> \<not> table_step a b"
  by (auto elim!: table_step.cases)

lemma allowed_iff_table:
  "(case allowedTransitions a of None \<Rightarrow> False | Some bs \<Rightarrow> b \<in> set bs) \<longleftrightarrow> table_step a b"
  unfolding table_step_simps allowedTransitions_def
  by (auto split: if_splits)

lemma valid_iff_table: "IsValidTransition a b \<longleftrightarrow> a = b \<or> table_step a b"
  unfolding IsValidTransition_def allowed_iff_table
  using terminal_no_table_step by auto

lemma TransitionTask_Inr:
  "TransitionTask (Some r) to' why now = Inr r' \<longleftrightarrow>
     IsValidTransition (if State r = [] then TaskStateSubmitted else State r) to'
     \<and> r' = r\<lparr>State := to', UpdatedAt := now\<rparr>"
  by (auto simp: TransitionTask_def Let_def)

section \<open>Runs\<close>

text \<open>
  Callers of \<open>TransitionTask\<close> keep the record as it was when the call fails. A run is a sequence
  of calls; \<open>visited\<close> is every state the record was in.
\<close>

fun transition_run :: "ptask \<Rightarrow> (task_state \<times> string \<times> time) list \<Rightarrow> ptask" where
  "transition_run r [] = r"
| "transition_run r ((to', why, now) # cs) =
     transition_run (case TransitionTask (Some r) to' why now of Inl _ \<Rightarrow> r | Inr r' \<Rightarrow> r') cs"

fun visited :: "ptask \<Rightarrow> (task_state \<times> string \<times> time) list \<Rightarrow> task_state list" where
  "visited r [] = [State r]"
| "visited r ((to', why, now) # cs) = State r #
     visited (case TransitionTask (Some r) to' why now of Inl _ \<Rightarrow> r | Inr r' \<Rightarrow> r') cs"

lemma terminal_step_stays:
  assumes "IsTerminal (State r)" "TransitionTask (Some r) to' why now = Inr r'"
  shows "State r' = State r"
proof -
  from assms(1) have "State r \<noteq> []" by (auto simp: IsTerminal_def)
  with assms(2) have "IsValidTransition (State r) to'" and r': "State r' = to'"
    by (auto simp: TransitionTask_Inr)
  with terminal_no_table_step [OF assms(1)] show ?thesis by (auto simp: valid_iff_table)
qed

lemma transition_run_terminal:
  "IsTerminal (State r) \<Longrightarrow> State (transition_run r cs) = State r"
proof (induction r cs rule: transition_run.induct)
  case (2 r to' why now cs)
  show ?case
  proof (cases "TransitionTask (Some r) to' why now")
    case (Inl e)
    then show ?thesis using 2 by simp
  next
    case (Inr r')
    then show ?thesis using 2 terminal_step_stays [OF 2(2) Inr] by simp
  qed
qed simp

definition run_inv :: "bool \<Rightarrow> task_state \<Rightarrow> bool" where
  "run_inv worked s \<longleftrightarrow> (s = [] \<or> s \<in> set AllStates) \<and>
     (worked \<or> s = [] \<or> s = TaskStateSubmitted \<or> s = TaskStateRejected \<or> s = TaskStateWorking)"

lemma table_step_run_inv:
  "table_step a b \<Longrightarrow> worked \<or> a = TaskStateSubmitted \<or> a = TaskStateRejected \<or> a = TaskStateWorking
    \<Longrightarrow> run_inv (worked \<or> a = TaskStateWorking) b"
  by (induction rule: table_step.induct) (auto simp: run_inv_def AllStates_def)

lemma TransitionTask_run_inv:
  assumes inv: "run_inv worked (State r)"
    and step: "TransitionTask (Some r) to' why now = Inr r'"
  shows "run_inv (worked \<or> State r = TaskStateWorking) (State r')"
proof -
  let ?frm = "if State r = [] then TaskStateSubmitted else State r"
  from step have v: "?frm = to' \<or> table_step ?frm to'" and r': "State r' = to'"
    by (simp_all only: TransitionTask_Inr valid_iff_table) simp
  from v show ?thesis
  proof
    assume "?frm = to'"
    with inv r' show ?thesis by (auto simp: run_inv_def AllStates_def split: if_splits)
  next
    assume t: "table_step ?frm to'"
    have "worked \<or> ?frm = TaskStateSubmitted \<or> ?frm = TaskStateRejected \<or> ?frm = TaskStateWorking"
      using inv by (auto simp: run_inv_def)
    from table_step_run_inv [OF t this] r' show ?thesis by (auto simp: run_inv_def split: if_splits)
  qed
qed

lemma run_inv_mono: "run_inv w s \<Longrightarrow> w \<longrightarrow> w' \<Longrightarrow> run_inv w' s"
  by (auto simp: run_inv_def)

lemma transition_run_inv:
  assumes "run_inv worked (State r)"
  shows "run_inv (worked \<or> TaskStateWorking \<in> set (visited r cs)) (State (transition_run r cs))"
  using assms
proof (induction r cs arbitrary: worked rule: transition_run.induct)
  case (1 r)
  show ?case using run_inv_mono [OF 1, of "worked \<or> TaskStateWorking = State r"] by simp
next
  case (2 r to' why now cs)
  show ?case
  proof (cases "TransitionTask (Some r) to' why now")
    case (Inl e)
    have "run_inv (worked \<or> TaskStateWorking \<in> set (visited r cs)) (State (transition_run r cs))"
      using "2.IH" [of worked] 2(2) Inl by simp
    then show ?thesis using Inl by (auto intro: run_inv_mono)
  next
    case (Inr r')
    from TransitionTask_run_inv [OF 2(2) Inr]
    have "run_inv ((worked \<or> State r = TaskStateWorking) \<or> TaskStateWorking \<in> set (visited r' cs))
        (State (transition_run r' cs))"
      using "2.IH" [of "worked \<or> State r = TaskStateWorking"] Inr by simp
    then show ?thesis using Inr by (auto intro: run_inv_mono)
  qed
qed

section \<open>Properties\<close>

text \<open>C1: a task in a terminal state never leaves it, whatever sequence of \<open>TransitionTask\<close> calls
  follows, while every failing call leaves the record as it was.\<close>

theorem terminal_states_absorb:
  assumes "IsTerminal (State r)"
  shows "State (transition_run r cs) = State r"
  using assms by (rule transition_run_terminal)

theorem terminal_states_absorb_witness:
  "State (transition_run
     \<lparr>ID = ''t'', RunnerSID = ''r'', State = TaskStateCompleted, Method = [], InputBlob = RawEmpty,
      OutputBlob = RawEmpty, AuthChallenge = [], CreatedAt = 1, UpdatedAt = 1\<rparr>
     [(TaskStateWorking, ''retry'', 2), (TaskStateCompleted, ''again'', 3)]) = TaskStateCompleted"
  by (rule terminal_states_absorb [THEN trans]) simp_all

text \<open>a task that starts new (empty state or SUBMITTED) only ever reaches the eight defined
  states, and reaches INPUT_REQUIRED, AUTH_REQUIRED, COMPLETED, FAILED or CANCELED only through
  WORKING; so REJECTED is the one outcome of a task that never worked.\<close>

theorem outcome_needs_working:
  assumes "State r = [] \<or> State r = TaskStateSubmitted"
  shows "State (transition_run r cs) \<in> insert [] (set AllStates) \<and>
    (State (transition_run r cs) \<in> {TaskStateInputRequired, TaskStateAuthRequired,
         TaskStateCompleted, TaskStateFailed, TaskStateCanceled}
       \<longrightarrow> TaskStateWorking \<in> set (visited r cs))"
proof -
  have "run_inv False (State r)" using assms by (auto simp: run_inv_def AllStates_def)
  from transition_run_inv [OF this, of cs]
  have "run_inv (TaskStateWorking \<in> set (visited r cs)) (State (transition_run r cs))" by simp
  then show ?thesis by (auto simp: run_inv_def)
qed

theorem outcome_needs_working_witness:
  "TaskStateWorking \<in> set (visited
     \<lparr>ID = ''t'', RunnerSID = ''r'', State = [], Method = [], InputBlob = RawEmpty,
      OutputBlob = RawEmpty, AuthChallenge = [], CreatedAt = 1, UpdatedAt = 1\<rparr>
     [(TaskStateCanceled, ''early'', 2), (TaskStateWorking, ''go'', 3), (TaskStateFailed, ''x'', 4)])"
  (is "_ \<in> set (visited ?r ?cs)")
proof -
  have st: "State (transition_run ?r ?cs) = TaskStateFailed"
    by (simp add: TransitionTask_def IsValidTransition_def allowedTransitions_def)
  have h: "State ?r = [] \<or> State ?r = TaskStateSubmitted" by simp
  show ?thesis using outcome_needs_working [OF h, of ?cs] st by simp
qed

end
