(* ===== verification/Messages.thy ===== *)
theory Messages
  imports Go_Json Task_State
begin

text \<open>
  The A2A wire types of \<open>internal/a2a/messages.go\<close>: \<open>Message\<close>, \<open>Part\<close>, \<open>Task\<close>, \<open>TaskStatus\<close>,
  \<open>Artifact\<close>, their JSON forms (the struct tags, \<open>omitempty\<close> included), and \<open>ExtractText\<close>.
\<close>

section \<open>Data\<close>

record file_payload =
  fp_Name :: string
  fp_MimeType :: string
  fp_Bytes :: string
  fp_URI :: string

record part =
  p_Kind :: string
  p_Text :: string
  p_File :: "file_payload option"
  p_Data :: "json option"

record message =
  m_Role :: string
  m_Parts :: "part list"
  m_MessageID :: string
  m_TaskID :: string
  m_ContextID :: string
  m_Kind :: string
  m_From :: string

record artifact =
  a_ArtifactID :: string
  a_Name :: string
  a_Parts :: "part list"

record task_status_details =
  d_AuthProvider :: string
  d_AuthMessage :: string
  d_AuthURL :: string

record task_status =
  s_State :: task_state
  s_Message :: "message option"
  s_Details :: "task_status_details option"

record a2a_task =
  t_ID :: string
  t_ContextID :: string
  t_Status :: task_status
  t_History :: "message list"
  t_Artifacts :: "artifact list"
  t_Kind :: string

section \<open>JSON forms\<close>

definition enc_file :: "file_payload \<Rightarrow> json" where
  "enc_file f = JObj (omit_str ''name'' (fp_Name f) @ omit_str ''mimeType'' (fp_MimeType f)
     @ omit_str ''bytes'' (fp_Bytes f) @ omit_str ''uri'' (fp_URI f))"

definition dec_file :: "json \<Rightarrow> file_payload result" where
  "dec_file j0 = res_bind (struct_ok ''a2a.FilePayload'' j0) (\<lambda>j.
     res_bind (get_str ''name'' j) (\<lambda>n. res_bind (get_str ''mimeType'' j) (\<lambda>t.
     res_bind (get_str ''bytes'' j) (\<lambda>b. res_bind (get_str ''uri'' j) (\<lambda>u.
     Inr \<lparr>fp_Name = n, fp_MimeType = t, fp_Bytes = b, fp_URI = u\<rparr>)))))"

definition enc_part :: "part \<Rightarrow> json" where
  "enc_part p = JObj ([(''kind'', JStr (p_Kind p))] @ omit_str ''text'' (p_Text p)
     @ omit_opt enc_file ''file'' (p_File p) @ omit_opt id ''data'' (p_Data p))"

definition dec_part :: "json \<Rightarrow> part result" where
  "dec_part j0 = res_bind (struct_ok ''a2a.Part'' j0) (\<lambda>j.
     res_bind (get_str ''kind'' j) (\<lambda>k. res_bind (get_str ''text'' j) (\<lambda>t.
     res_bind (get_ptr dec_file ''file'' j) (\<lambda>f.
     Inr \<lparr>p_Kind = k, p_Text = t, p_File = f, p_Data = get_raw ''data'' j\<rparr>))))"

definition enc_message :: "message \<Rightarrow> json" where
  "enc_message m = JObj ([(''role'', JStr (m_Role m)), (''parts'', JArr (map enc_part (m_Parts m)))]
     @ omit_str ''messageId'' (m_MessageID m) @ omit_str ''taskId'' (m_TaskID m)
     @ omit_str ''contextId'' (m_ContextID m) @ omit_str ''kind'' (m_Kind m)
     @ omit_str ''chepherd_from'' (m_From m))"

definition dec_message :: "json \<Rightarrow> message result" where
  "dec_message j0 = res_bind (struct_ok ''a2a.Message'' j0) (\<lambda>j.
     res_bind (get_str ''role'' j) (\<lambda>r. res_bind (get_list dec_part ''parts'' j) (\<lambda>ps.
     res_bind (get_str ''messageId'' j) (\<lambda>i. res_bind (get_str ''taskId'' j) (\<lambda>t.
     res_bind (get_str ''contextId'' j) (\<lambda>c. res_bind (get_str ''kind'' j) (\<lambda>k.
     res_bind (get_str ''chepherd_from'' j) (\<lambda>f.
     Inr \<lparr>m_Role = r, m_Parts = ps, m_MessageID = i, m_TaskID = t, m_ContextID = c,
          m_Kind = k, m_From = f\<rparr>))))))))"

definition enc_artifact :: "artifact \<Rightarrow> json" where
  "enc_artifact a = JObj ([(''artifactId'', JStr (a_ArtifactID a))] @ omit_str ''name'' (a_Name a)
     @ [(''parts'', JArr (map enc_part (a_Parts a)))])"

definition dec_artifact :: "json \<Rightarrow> artifact result" where
  "dec_artifact j0 = res_bind (struct_ok ''a2a.Artifact'' j0) (\<lambda>j.
     res_bind (get_str ''artifactId'' j) (\<lambda>i. res_bind (get_str ''name'' j) (\<lambda>n.
     res_bind (get_list dec_part ''parts'' j) (\<lambda>ps.
     Inr \<lparr>a_ArtifactID = i, a_Name = n, a_Parts = ps\<rparr>))))"

definition enc_details :: "task_status_details \<Rightarrow> json" where
  "enc_details d = JObj (omit_str ''authProvider'' (d_AuthProvider d)
     @ omit_str ''authMessage'' (d_AuthMessage d) @ omit_str ''authUrl'' (d_AuthURL d))"

definition dec_details :: "json \<Rightarrow> task_status_details result" where
  "dec_details j0 = res_bind (struct_ok ''a2a.TaskStatusDetails'' j0) (\<lambda>j.
     res_bind (get_str ''authProvider'' j) (\<lambda>p. res_bind (get_str ''authMessage'' j) (\<lambda>m.
     res_bind (get_str ''authUrl'' j) (\<lambda>u.
     Inr \<lparr>d_AuthProvider = p, d_AuthMessage = m, d_AuthURL = u\<rparr>))))"

definition enc_status :: "task_status \<Rightarrow> json" where
  "enc_status s = JObj ([(''state'', JStr (s_State s))] @ omit_opt enc_message ''message'' (s_Message s)
     @ omit_opt enc_details ''details'' (s_Details s))"

definition enc_task :: "a2a_task \<Rightarrow> json" where
  "enc_task t = JObj ([(''id'', JStr (t_ID t))] @ omit_str ''contextId'' (t_ContextID t)
     @ [(''status'', enc_status (t_Status t))] @ omit_list enc_message ''history'' (t_History t)
     @ omit_list enc_artifact ''artifacts'' (t_Artifacts t) @ omit_str ''kind'' (t_Kind t))"

section \<open>Round trips\<close>

lemmas json_names = fold_eq_eval

lemma enc_not_null [simp]:
  "enc_file f \<noteq> JNull" "enc_part p \<noteq> JNull" "enc_message m \<noteq> JNull"
  "enc_artifact a \<noteq> JNull" "enc_details d \<noteq> JNull"
  by (simp_all add: enc_file_def enc_part_def enc_message_def enc_artifact_def enc_details_def)

lemma dec_enc_file [simp]: "dec_file (enc_file f) = Inr f"
proof -
  let ?fs = "omit_str ''name'' (fp_Name f) @ omit_str ''mimeType'' (fp_MimeType f)
     @ omit_str ''bytes'' (fp_Bytes f) @ omit_str ''uri'' (fp_URI f)"
  have "get_str ''name'' (JObj ?fs) = Inr (fp_Name f)"
      "get_str ''mimeType'' (JObj ?fs) = Inr (fp_MimeType f)"
      "get_str ''bytes'' (JObj ?fs) = Inr (fp_Bytes f)"
      "get_str ''uri'' (JObj ?fs) = Inr (fp_URI f)"
    by (rule get_str_value, simp add: json_eval json_names)+
  then show ?thesis by (simp add: enc_file_def dec_file_def)
qed

lemma dec_enc_part [simp]: "dec_part (enc_part p) = Inr p"
proof -
  let ?fs = "[(''kind'', JStr (p_Kind p))] @ omit_str ''text'' (p_Text p)
     @ omit_opt enc_file ''file'' (p_File p) @ omit_opt id ''data'' (p_Data p)"
  have "get_str ''kind'' (JObj ?fs) = Inr (p_Kind p)"
    by (rule get_str_always) (simp add: json_eval json_names)
  moreover have "get_str ''text'' (JObj ?fs) = Inr (p_Text p)"
    by (rule get_str_value) (simp add: json_eval json_names)
  moreover have "get_ptr dec_file ''file'' (JObj ?fs) = Inr (p_File p)"
    by (rule get_ptr_value [where enc = enc_file])
      (simp_all add: json_eval json_names split: option.split)
  moreover have "get_raw ''data'' (JObj ?fs) = p_Data p"
    by (simp add: get_raw_def json_eval json_names option.map_id split: option.split)
  ultimately show ?thesis by (simp add: enc_part_def dec_part_def)
qed

lemma dec_enc_message: "dec_message (enc_message m) = Inr m"
proof -
  let ?fs = "[(''role'', JStr (m_Role m)), (''parts'', JArr (map enc_part (m_Parts m)))]
     @ omit_str ''messageId'' (m_MessageID m) @ omit_str ''taskId'' (m_TaskID m)
     @ omit_str ''contextId'' (m_ContextID m) @ omit_str ''kind'' (m_Kind m)
     @ omit_str ''chepherd_from'' (m_From m)"
  have "get_str ''role'' (JObj ?fs) = Inr (m_Role m)"
    by (rule get_str_always) (simp add: json_eval json_names)
  moreover have "get_list dec_part ''parts'' (JObj ?fs) = Inr (m_Parts m)"
    by (rule get_list_always [where enc = enc_part]) (simp_all add: json_eval json_names)
  moreover have "get_str ''messageId'' (JObj ?fs) = Inr (m_MessageID m)"
      "get_str ''taskId'' (JObj ?fs) = Inr (m_TaskID m)"
      "get_str ''contextId'' (JObj ?fs) = Inr (m_ContextID m)"
      "get_str ''kind'' (JObj ?fs) = Inr (m_Kind m)"
      "get_str ''chepherd_from'' (JObj ?fs) = Inr (m_From m)"
    by (rule get_str_value, simp add: json_eval json_names)+
  ultimately show ?thesis by (simp add: enc_message_def dec_message_def)
qed

lemma dec_enc_artifact: "dec_artifact (enc_artifact a) = Inr a"
proof -
  let ?fs = "[(''artifactId'', JStr (a_ArtifactID a))] @ omit_str ''name'' (a_Name a)
     @ [(''parts'', JArr (map enc_part (a_Parts a)))]"
  have "get_str ''artifactId'' (JObj ?fs) = Inr (a_ArtifactID a)"
    by (rule get_str_always) (simp add: json_eval json_names)
  moreover have "get_str ''name'' (JObj ?fs) = Inr (a_Name a)"
    by (rule get_str_value) (simp add: json_eval json_names)
  moreover have "get_list dec_part ''parts'' (JObj ?fs) = Inr (a_Parts a)"
    by (rule get_list_always [where enc = enc_part]) (simp_all add: json_eval json_names)
  ultimately show ?thesis by (simp add: enc_artifact_def dec_artifact_def)
qed

lemma dec_enc_details: "dec_details (enc_details d) = Inr d"
proof -
  let ?fs = "omit_str ''authProvider'' (d_AuthProvider d)
     @ omit_str ''authMessage'' (d_AuthMessage d) @ omit_str ''authUrl'' (d_AuthURL d)"
  have "get_str ''authProvider'' (JObj ?fs) = Inr (d_AuthProvider d)"
      "get_str ''authMessage'' (JObj ?fs) = Inr (d_AuthMessage d)"
      "get_str ''authUrl'' (JObj ?fs) = Inr (d_AuthURL d)"
    by (rule get_str_value, simp add: json_eval json_names)+
  then show ?thesis by (simp add: enc_details_def dec_details_def)
qed

section \<open>Text extraction\<close>

text \<open>\<open>partIndex\<close> prepends one decimal digit per round; the index is a Go slice index.\<close>

definition digit_char :: "nat \<Rightarrow> char" where
  "digit_char d = ''0123456789'' ! d"

fun partIndex_loop :: "nat \<Rightarrow> string \<Rightarrow> string" where
  "partIndex_loop i out =
     (if i > 0 then partIndex_loop (i div 10) (digit_char (i mod 10) # out) else out)"

declare partIndex_loop.simps [simp del]

definition partIndex :: "nat \<Rightarrow> string" where
  "partIndex i = (if i = 0 then ''0'' else partIndex_loop i [])"

fun ExtractText_loop :: "nat \<Rightarrow> part list \<Rightarrow> string \<Rightarrow> string result" where
  "ExtractText_loop i [] out = Inr out"
| "ExtractText_loop i (p # ps) out =
     (if p_Kind p = ''text'' then ExtractText_loop (Suc i) ps (out @ p_Text p)
      else if p_Kind p = ''file'' \<or> p_Kind p = ''data''
      then Inl (''a2a.ExtractText: part '' @ partIndex i @ '' has unsupported Kind '' @ p_Kind p
                @ '' (v0.9.2 scaffold supports TextPart only)'')
      else Inl (''a2a.ExtractText: part '' @ partIndex i @ '' has unknown Kind '' @ p_Kind p))"

definition ExtractText :: "message \<Rightarrow> string result" where
  "ExtractText msg = ExtractText_loop 0 (m_Parts msg) []"

definition digit_value :: "char \<Rightarrow> nat" where
  "digit_value c = of_char c - 48"

definition decimal_value :: "string \<Rightarrow> nat" where
  "decimal_value s = foldl (\<lambda>n c. 10 * n + digit_value c) 0 s"

lemma digit_value_char: "d < 10 \<Longrightarrow> digit_value (digit_char d) = d"
proof -
  assume "d < 10"
  then have "d \<in> {0, 1, 2, 3, 4, 5, 6, 7, 8, 9}" by auto
  then show ?thesis by (auto simp: digit_char_def digit_value_def)
qed

lemma foldl_decimal:
  "foldl (\<lambda>n c. 10 * n + digit_value c) a s = a * 10 ^ length s + decimal_value s"
proof (induction s arbitrary: a)
  case Nil
  then show ?case by (simp add: decimal_value_def)
next
  case (Cons c s)
  have "foldl (\<lambda>n c. 10 * n + digit_value c) a (c # s) =
      (10 * a + digit_value c) * 10 ^ length s + decimal_value s"
    by (simp add: Cons.IH)
  moreover have "decimal_value (c # s) = digit_value c * 10 ^ length s + decimal_value s"
    using Cons.IH [of "digit_value c"] by (simp add: decimal_value_def)
  ultimately show ?case by (simp add: algebra_simps)
qed

lemma decimal_value_Cons: "decimal_value (c # s) = digit_value c * 10 ^ length s + decimal_value s"
  using foldl_decimal [of "digit_value c" s] by (simp add: decimal_value_def)

lemma partIndex_loop_value:
  "decimal_value (partIndex_loop i out) = i * 10 ^ length out + decimal_value out"
proof (induction i out rule: partIndex_loop.induct)
  case (1 i out)
  show ?case
  proof (cases "i > 0")
    case True
    have "decimal_value (partIndex_loop i out) =
        i div 10 * 10 ^ Suc (length out) + decimal_value (digit_char (i mod 10) # out)"
      using "1.IH" [OF True] True by (simp add: partIndex_loop.simps [of i])
    also have "decimal_value (digit_char (i mod 10) # out) =
        i mod 10 * 10 ^ length out + decimal_value out"
      by (simp add: decimal_value_Cons digit_value_char)
    also have "i div 10 * 10 ^ Suc (length out) + (i mod 10 * 10 ^ length out + decimal_value out)
        = (i div 10 * 10 + i mod 10) * 10 ^ length out + decimal_value out"
      by (simp only: power_Suc add_mult_distrib mult.assoc add.assoc)
    also have "i div 10 * 10 + i mod 10 = i" by simp
    finally show ?thesis .
  next
    case False
    then show ?thesis by (simp add: partIndex_loop.simps [of 0])
  qed
qed

lemma ExtractText_loop_Inr:
  "ExtractText_loop i ps out = Inr s \<longleftrightarrow>
     (\<forall>p \<in> set ps. p_Kind p = ''text'') \<and> s = out @ concat (map p_Text ps)"
  by (induction i ps out rule: ExtractText_loop.induct) auto

lemma ExtractText_loop_Inl:
  "ExtractText_loop i ps out = Inl e \<Longrightarrow>
     \<exists>k < length ps. p_Kind (ps ! k) \<noteq> ''text'' \<and> (\<forall>l < k. p_Kind (ps ! l) = ''text'')
       \<and> has_prefix (''a2a.ExtractText: part '' @ partIndex (i + k)) e"
proof (induction i ps out rule: ExtractText_loop.induct)
  case (2 i p ps out)
  show ?case
  proof (cases "p_Kind p = ''text''")
    case True
    with "2.IH" "2.prems" obtain k where k: "k < length ps" "p_Kind (ps ! k) \<noteq> ''text''"
      "\<forall>l < k. p_Kind (ps ! l) = ''text''"
      "has_prefix (''a2a.ExtractText: part '' @ partIndex (Suc i + k)) e" by auto
    have "\<forall>l < Suc k. p_Kind ((p # ps) ! l) = ''text''"
      using k(3) True by (auto simp: nth_Cons split: nat.splits)
    with k show ?thesis by (intro exI [of _ "Suc k"]) simp
  next
    case False
    with "2.prems" have "has_prefix (''a2a.ExtractText: part '' @ partIndex i) e"
      by (auto simp: has_prefix_iff split: if_splits)
    with False show ?thesis by (intro exI [of _ 0]) simp
  qed
qed simp

section \<open>Stored output and \<open>decodeTask\<close>\<close>

record stored_output =
  o_Artifacts :: "artifact list"
  o_History :: "message list"
  o_Details :: "task_status_details option"

definition enc_output :: "stored_output \<Rightarrow> json" where
  "enc_output ob = JObj (omit_list enc_artifact ''artifacts'' (o_Artifacts ob)
     @ omit_list enc_message ''history'' (o_History ob)
     @ omit_opt enc_details ''statusDetails'' (o_Details ob))"

definition dec_output :: "json \<Rightarrow> stored_output result" where
  "dec_output j0 = res_bind (struct_ok ''struct'' j0) (\<lambda>j.
     res_bind (get_list dec_artifact ''artifacts'' j) (\<lambda>as.
     res_bind (get_list dec_message ''history'' j) (\<lambda>hs.
     res_bind (get_ptr dec_details ''statusDetails'' j) (\<lambda>d.
     Inr \<lparr>o_Artifacts = as, o_History = hs, o_Details = d\<rparr>))))"

text \<open>\<open>decodeTask\<close> of \<open>internal/a2a/method_bodies.go\<close>: it never fails.\<close>

definition decodeTask :: "ptask \<Rightarrow> a2a_task" where
  "decodeTask rec =
     (let t0 = \<lparr>t_ID = ID rec, t_ContextID = [],
                t_Status = \<lparr>s_State = State rec, s_Message = None, s_Details = None\<rparr>,
                t_History = [], t_Artifacts = [], t_Kind = ''task''\<rparr>;
          t1 = (case InputBlob rec of RawEmpty \<Rightarrow> t0
                | b \<Rightarrow> (case unmarshal dec_message b of Inl _ \<Rightarrow> t0
                        | Inr msg \<Rightarrow> t0\<lparr>t_ContextID := m_ContextID msg, t_History := [msg]\<rparr>))
      in (case OutputBlob rec of RawEmpty \<Rightarrow> t1
          | b \<Rightarrow> (case unmarshal dec_output b of Inl _ \<Rightarrow> t1
                  | Inr out \<Rightarrow>
                      let t2 = t1\<lparr>t_History := t_History t1 @ o_History out,
                                  t_Artifacts := o_Artifacts out\<rparr>
                      in (case o_Details out of None \<Rightarrow> t2
                          | Some d \<Rightarrow> t2\<lparr>t_Status := (t_Status t2)\<lparr>s_Details := Some d\<rparr>\<rparr>))))"

lemma dec_enc_output [simp]: "dec_output (enc_output ob) = Inr ob"
proof -
  let ?fs = "omit_list enc_artifact ''artifacts'' (o_Artifacts ob)
     @ omit_list enc_message ''history'' (o_History ob)
     @ omit_opt enc_details ''statusDetails'' (o_Details ob)"
  have "get_list dec_artifact ''artifacts'' (JObj ?fs) = Inr (o_Artifacts ob)"
    by (rule get_list_value [where enc = enc_artifact])
      (simp_all add: json_eval json_names dec_enc_artifact split: option.split)
  moreover have "get_list dec_message ''history'' (JObj ?fs) = Inr (o_History ob)"
    by (rule get_list_value [where enc = enc_message])
      (simp_all add: json_eval json_names dec_enc_message split: option.split)
  moreover have "get_ptr dec_details ''statusDetails'' (JObj ?fs) = Inr (o_Details ob)"
    by (rule get_ptr_value [where enc = enc_details])
      (simp_all add: json_eval json_names dec_enc_details split: option.split)
  ultimately show ?thesis by (simp add: enc_output_def dec_output_def)
qed

lemma dec_output_of_task [simp]:
  "dec_output (enc_task t) = Inr \<lparr>o_Artifacts = t_Artifacts t, o_History = t_History t, o_Details = None\<rparr>"
proof -
  let ?fs = "[(''id'', JStr (t_ID t))] @ omit_str ''contextId'' (t_ContextID t)
     @ [(''status'', enc_status (t_Status t))] @ omit_list enc_message ''history'' (t_History t)
     @ omit_list enc_artifact ''artifacts'' (t_Artifacts t) @ omit_str ''kind'' (t_Kind t)"
  have "get_list dec_artifact ''artifacts'' (JObj ?fs) = Inr (t_Artifacts t)"
    by (rule get_list_value [where enc = enc_artifact])
      (simp_all add: json_eval json_names dec_enc_artifact split: option.split)
  moreover have "get_list dec_message ''history'' (JObj ?fs) = Inr (t_History t)"
    by (rule get_list_value [where enc = enc_message])
      (simp_all add: json_eval json_names dec_enc_message split: option.split)
  moreover have "get_ptr dec_details ''statusDetails'' (JObj ?fs) = Inr None"
    by (rule get_ptr_value [where enc = enc_details])
      (simp_all add: json_eval json_names split: option.split)
  ultimately show ?thesis by (simp add: enc_task_def dec_output_def)
qed

lemma decodeTask_state [simp]: "s_State (t_Status (decodeTask rec)) = State rec"
  by (simp add: decodeTask_def Let_def split: raw.splits sum.splits option.splits)

lemma decodeTask_id [simp]: "t_ID (decodeTask rec) = ID rec"
  by (simp add: decodeTask_def Let_def split: raw.splits sum.splits option.splits)

section \<open>Properties\<close>


text \<open>text extraction succeeds exactly on messages made of text parts and then returns their
  texts in order; a failure names, in decimal, the index of the first part of another kind.\<close>

theorem ExtractText_correct:
  "(ExtractText m = Inr s \<longleftrightarrow>
      (\<forall>p \<in> set (m_Parts m). p_Kind p = ''text'') \<and> s = concat (map p_Text (m_Parts m)))
   \<and> (ExtractText m = Inl e \<longrightarrow>
        (\<exists>k < length (m_Parts m). p_Kind (m_Parts m ! k) \<noteq> ''text''
          \<and> (\<forall>l < k. p_Kind (m_Parts m ! l) = ''text'')
          \<and> has_prefix (''a2a.ExtractText: part '' @ partIndex k) e
          \<and> decimal_value (partIndex k) = k))"
proof -
  have "decimal_value (partIndex k) = k" for k
    using partIndex_loop_value [of k "[]"]
    by (simp add: partIndex_def decimal_value_def digit_value_def)
  then show ?thesis
    using ExtractText_loop_Inl [of 0 "m_Parts m" "[]" e]
    by (auto simp: ExtractText_def ExtractText_loop_Inr)
qed

theorem ExtractText_correct_witness:
  "ExtractText \<lparr>m_Role = ''user'',
      m_Parts = [\<lparr>p_Kind = ''text'', p_Text = ''a'', p_File = None, p_Data = None\<rparr>,
                 \<lparr>p_Kind = ''text'', p_Text = ''b'', p_File = None, p_Data = None\<rparr>],
      m_MessageID = [], m_TaskID = [], m_ContextID = ''c'', m_Kind = [], m_From = []\<rparr> = Inr ''ab''
   \<and> (\<exists>k < 2. k = (1::nat) \<and> decimal_value (partIndex k) = k)"
  (is "ExtractText ?m = _ \<and> _")
proof -
  let ?d = "?m\<lparr>m_Parts := [hd (m_Parts ?m), \<lparr>p_Kind = ''data'', p_Text = [], p_File = None, p_Data = None\<rparr>]\<rparr>"
  have "\<exists>e. ExtractText ?d = Inl e" by (simp add: ExtractText_def)
  then obtain e where "ExtractText ?d = Inl e" by blast
  then obtain k where k: "k < length (m_Parts ?d)" "p_Kind (m_Parts ?d ! k) \<noteq> ''text''"
      "decimal_value (partIndex k) = k"
    using ExtractText_correct [of ?d "[]" e] by blast
  then have "k = 1" by (auto simp: less_Suc_eq numeral_2_eq_2)
  with k(3) show ?thesis using ExtractText_correct [of ?m "''ab''" "[]"] by auto
qed

end
