(* ===== verification/Task_Store.thy ===== *)
theory Task_Store
  imports Messages "HOL-Library.Char_ord" "HOL-Library.List_Lexorder" "HOL-Library.Product_Lexorder"
begin

text \<open>
  The SQLite repositories of tasks (\<open>internal/persistence/sqlite/tasks.go\<close>) and of push-notification
  configs (\<open>push_configs.go\<close>). A table is the list of its rows; each operation performs the
  statements in its Go body. \<open>err\<close> arguments are failures reported by the database driver. Text
  columns compare bytewise, as in the default collation.

  The locale \<open>task_repo\<close> is the contract the request handlers and the deliverer rely on; it is
  interpreted on the SQLite operations.
\<close>

section \<open>Tasks\<close>

type_synonym task_rows = "ptask list"

definition task_Get :: "go_error option \<Rightarrow> task_rows \<Rightarrow> string \<Rightarrow> ptask result" where
  "task_Get err rows taskID =
     (if taskID = [] then Inl ''sqlite TaskRepository: empty taskID''
      else case err of
        Some e \<Rightarrow> Inl (''sqlite tasks Get '' @ quote taskID @ '': '' @ e)
      | None \<Rightarrow> (case row_get ID taskID rows of
          None \<Rightarrow> Inl (''sqlite tasks Get '' @ quote taskID @ '': not found'')
        | Some r \<Rightarrow> Inr r))"

text \<open>The columns the \<open>ON CONFLICT\<close> clause sets: all but the key and \<open>created_at\<close>.\<close>

definition task_merge :: "ptask \<Rightarrow> ptask \<Rightarrow> ptask" where
  "task_merge old new = new\<lparr>CreatedAt := CreatedAt old\<rparr>"

text \<open>\<open>Save\<close> returns the table, the record as written through the caller's pointer, and the error.\<close>

definition task_Save ::
    "go_error option \<Rightarrow> time \<Rightarrow> task_rows \<Rightarrow> ptask option \<Rightarrow> task_rows \<times> ptask option \<times> go_error option"
where
  "task_Save err now rows tp =
     (case tp of
        None \<Rightarrow> (rows, tp, Some ''sqlite TaskRepository: nil task'')
      | Some t \<Rightarrow>
          if ID t = [] then (rows, tp, Some ''sqlite TaskRepository: empty task ID'')
          else if RunnerSID t = [] then (rows, tp, Some ''sqlite TaskRepository: empty RunnerSID'')
          else if State t = [] then (rows, tp, Some ''sqlite TaskRepository: empty State'')
          else
            let t1 = (if CreatedAt t = time_zero then t\<lparr>CreatedAt := now\<rparr> else t);
                t2 = t1\<lparr>UpdatedAt := now\<rparr>
            in (case err of
                  Some e \<Rightarrow> (rows, Some t2, Some (''sqlite tasks Save '' @ quote (ID t) @ '': '' @ e))
                | None \<Rightarrow> (row_upsert ID task_merge t2 rows, Some t2, None)))"

record task_list_opts =
  lo_RunnerSID :: string
  lo_State :: string
  lo_SinceID :: string
  lo_Limit :: int
  lo_Newest :: bool

definition task_matches :: "task_list_opts \<Rightarrow> ptask \<Rightarrow> bool" where
  "task_matches opts r \<longleftrightarrow>
     (lo_RunnerSID opts \<noteq> [] \<longrightarrow> RunnerSID r = lo_RunnerSID opts) \<and>
     (lo_State opts \<noteq> [] \<longrightarrow> State r = lo_State opts) \<and>
     (lo_SinceID opts \<noteq> [] \<longrightarrow> lo_SinceID opts < ID r)"

definition task_order :: "bool \<Rightarrow> task_rows \<Rightarrow> task_rows" where
  "task_order newest rows =
     (if newest then rev (sort_key (\<lambda>r. (CreatedAt r, ID r)) rows) else sort_key ID rows)"

definition task_List :: "go_error option \<Rightarrow> task_rows \<Rightarrow> task_list_opts \<Rightarrow> task_rows result" where
  "task_List err rows opts =
     (case err of
        Some e \<Rightarrow> Inl (''sqlite tasks List: '' @ e)
      | None \<Rightarrow>
          let limit = (if lo_Limit opts \<le> 0 then 1000 else lo_Limit opts)
          in Inr (take (nat limit)
               (task_order (lo_Newest opts) (filter (task_matches opts) rows))))"

definition task_Delete :: "go_error option \<Rightarrow> task_rows \<Rightarrow> string \<Rightarrow> task_rows \<times> go_error option" where
  "task_Delete err rows taskID =
     (if taskID = [] then (rows, Some ''sqlite TaskRepository: empty taskID'')
      else case err of
        Some e \<Rightarrow> (rows, Some (''sqlite tasks Delete '' @ quote taskID @ '': '' @ e))
      | None \<Rightarrow> (row_delete ID taskID rows, None))"

definition task_rows_ok :: "task_rows \<Rightarrow> bool" where
  "task_rows_ok rows \<longleftrightarrow> keys_distinct ID rows
     \<and> (\<forall>r \<in> set rows. ID r \<noteq> [] \<and> RunnerSID r \<noteq> [] \<and> State r \<noteq> [])"

definition savable :: "ptask \<Rightarrow> bool" where
  "savable t \<longleftrightarrow> ID t \<noteq> [] \<and> RunnerSID t \<noteq> [] \<and> State t \<noteq> []"

subsection \<open>Invariant and lookup\<close>

lemma task_merge_ID [simp]: "ID (task_merge old new) = ID new"
  by (simp add: task_merge_def)

lemma upsert_set:
  "set (row_upsert key merge new rows) \<subseteq> insert new (set rows \<union> {merge old new |old. old \<in> set rows})"
  by (induction rows) auto

lemma task_rows_ok_Nil [simp]: "task_rows_ok []"
  by (simp add: task_rows_ok_def keys_distinct_def)

definition stamped :: "time \<Rightarrow> ptask \<Rightarrow> ptask" where
  "stamped now t = (if CreatedAt t = time_zero then t\<lparr>CreatedAt := now\<rparr> else t)\<lparr>UpdatedAt := now\<rparr>"

lemma stamped_fields [simp]:
  "ID (stamped now t) = ID t" "RunnerSID (stamped now t) = RunnerSID t"
  "State (stamped now t) = State t" "Method (stamped now t) = Method t"
  "InputBlob (stamped now t) = InputBlob t" "OutputBlob (stamped now t) = OutputBlob t"
  "savable (stamped now t) = savable t"
  by (simp_all add: stamped_def savable_def)

lemma task_Save_eq:
  "fst (task_Save err now rows tp) = (case tp of
     Some t \<Rightarrow> if savable t \<and> err = None then row_upsert ID task_merge (stamped now t) rows else rows
   | None \<Rightarrow> rows)"
  by (cases tp; cases err) (simp_all add: task_Save_def Let_def savable_def stamped_def)

lemma task_rows_ok_upsert:
  assumes "task_rows_ok rows" "savable t"
  shows "task_rows_ok (row_upsert ID task_merge t rows)"
proof -
  have "keys_distinct ID (row_upsert ID task_merge t rows)"
    using assms(1) by (intro upsert_distinct) (simp_all add: task_rows_ok_def)
  moreover have "\<forall>r \<in> set (row_upsert ID task_merge t rows). ID r \<noteq> [] \<and> RunnerSID r \<noteq> [] \<and> State r \<noteq> []"
    using assms upsert_set [of ID task_merge t rows]
    by (auto simp: task_rows_ok_def savable_def task_merge_def dest!: subsetD)
  ultimately show ?thesis by (simp add: task_rows_ok_def)
qed

lemma task_Save_ok: "task_rows_ok rows \<Longrightarrow> task_rows_ok (fst (task_Save err now rows tp))"
  by (simp add: task_Save_eq task_rows_ok_upsert split: option.split)

lemma task_Delete_ok: "task_rows_ok rows \<Longrightarrow> task_rows_ok (fst (task_Delete err rows k))"
  by (auto simp: task_Delete_def task_rows_ok_def delete_distinct row_delete_def keys_distinct_def
      distinct_map split: option.splits intro: inj_on_subset)

lemma task_Get_Inr:
  "task_Get None rows k = Inr r \<longleftrightarrow> k \<noteq> [] \<and> row_get ID k rows = Some r"
  by (auto simp: task_Get_def split: option.splits)

section \<open>The contract of a task repository\<close>

text \<open>
  What clients rely on: a saved record is read back with the state, blobs and method it was saved
  with, and other records are untouched. Clients change a state only through \<open>TransitionTask\<close>.
\<close>

locale task_repo =
  fixes get :: "'s \<Rightarrow> string \<Rightarrow> ptask option"
    and save :: "time \<Rightarrow> 's \<Rightarrow> ptask \<Rightarrow> 's"
    and ok :: "'s \<Rightarrow> bool"
  assumes get_save_same: "ok s \<Longrightarrow> savable r \<Longrightarrow> \<exists>r'. get (save now s r) (ID r) = Some r'
      \<and> ID r' = ID r \<and> State r' = State r \<and> OutputBlob r' = OutputBlob r \<and> InputBlob r' = InputBlob r
      \<and> Method r' = Method r"
    and get_save_other: "ok s \<Longrightarrow> k \<noteq> ID r \<Longrightarrow> get (save now s r) k = get s k"
    and ok_save: "ok s \<Longrightarrow> ok (save now s r)"
    and get_savable: "ok s \<Longrightarrow> get s k = Some r \<Longrightarrow> ID r = k \<and> savable r"
begin

lemma save_state:
  assumes "ok s" "savable r"
  shows "map_option State (get (save now s r) (ID r)) = Some (State r)"
  using get_save_same [OF assms] by auto

text \<open>A client that reads a record, moves it with \<open>TransitionTask\<close> and saves it.\<close>

lemma transition_savable:
  assumes "ok s" "get s k = Some r" "TransitionTask (Some r) to' why now = Inr r'" "to' \<noteq> []"
  shows "savable (r'\<lparr>OutputBlob := b\<rparr>) \<and> ID r' = k \<and> State r' = to'"
  using get_savable [OF assms(1,2)] assms(3,4) by (auto simp: TransitionTask_Inr savable_def)

lemma guarded_update_state:
  assumes "ok s" "get s k = Some r" "TransitionTask (Some r) to' why now = Inr r'" "to' \<noteq> []"
  shows "map_option State (get (save now' s r') k) = Some to'"
proof -
  have "savable r'" "ID r' = k" "State r' = to'"
    using get_savable [OF assms(1,2)] assms(3,4) by (auto simp: TransitionTask_Inr savable_def)
  with save_state [OF assms(1), of r' now'] show ?thesis by simp
qed

lemma guarded_update_terminal:
  assumes "ok s" "get s k = Some r" "IsTerminal (State r)"
    and "TransitionTask (Some r) to' why now = Inr r'"
  shows "map_option State (get (save now' s r') k) = Some (State r)"
proof -
  have st: "State r' = State r" by (rule terminal_step_stays [OF assms(3,4)])
  have "savable r'" "ID r' = k"
    using get_savable [OF assms(1,2)] assms(4) st by (auto simp: TransitionTask_Inr savable_def)
  with save_state [OF assms(1), of r' now'] st show ?thesis by simp
qed

end

definition sq_get :: "task_rows \<Rightarrow> string \<Rightarrow> ptask option" where
  "sq_get rows k = (case task_Get None rows k of Inl _ \<Rightarrow> None | Inr r \<Rightarrow> Some r)"

definition sq_save :: "time \<Rightarrow> task_rows \<Rightarrow> ptask \<Rightarrow> task_rows" where
  "sq_save now rows r = fst (task_Save None now rows (Some r))"

lemma sq_get_iff: "sq_get rows k = Some r \<longleftrightarrow> k \<noteq> [] \<and> row_get ID k rows = Some r"
  by (auto simp: sq_get_def task_Get_def split: option.splits)

lemma sq_save_eq:
  "sq_save now rows r = (if savable r then row_upsert ID task_merge (stamped now r) rows else rows)"
  by (simp add: sq_save_def task_Save_eq)

lemma task_merge_fields [simp]:
  "State (task_merge old new) = State new" "OutputBlob (task_merge old new) = OutputBlob new"
  "InputBlob (task_merge old new) = InputBlob new" "Method (task_merge old new) = Method new"
  "RunnerSID (task_merge old new) = RunnerSID new"
  by (simp_all add: task_merge_def)

lemma sq_get_save_same:
  assumes "savable r"
  shows "\<exists>r'. sq_get (sq_save now rows r) (ID r) = Some r' \<and> ID r' = ID r \<and> State r' = State r
      \<and> OutputBlob r' = OutputBlob r \<and> InputBlob r' = InputBlob r \<and> Method r' = Method r"
proof -
  have "ID r \<noteq> []" using assms by (simp add: savable_def)
  moreover have "row_get ID (ID r) (row_upsert ID task_merge (stamped now r) rows) =
      Some (case row_get ID (ID r) rows of None \<Rightarrow> stamped now r | Some old \<Rightarrow> task_merge old (stamped now r))"
    by (subst row_get_upsert) simp_all
  ultimately show ?thesis using assms by (auto simp: sq_get_iff sq_save_eq split: option.split)
qed

lemma sq_get_save_other: "k \<noteq> ID r \<Longrightarrow> sq_get (sq_save now rows r) k = sq_get rows k"
  by (simp add: sq_get_def task_Get_def sq_save_eq row_get_upsert)

interpretation sqlite: task_repo sq_get sq_save task_rows_ok
proof unfold_locales
  fix rows r now
  show "savable r \<Longrightarrow> \<exists>r'. sq_get (sq_save now rows r) (ID r) = Some r' \<and> ID r' = ID r
      \<and> State r' = State r \<and> OutputBlob r' = OutputBlob r \<and> InputBlob r' = InputBlob r
      \<and> Method r' = Method r"
    by (rule sq_get_save_same)
  fix k
  show "k \<noteq> ID r \<Longrightarrow> sq_get (sq_save now rows r) k = sq_get rows k"
    by (rule sq_get_save_other)
  show "task_rows_ok rows \<Longrightarrow> task_rows_ok (sq_save now rows r)"
    unfolding sq_save_def by (rule task_Save_ok)
  show "task_rows_ok rows \<Longrightarrow> sq_get rows k = Some r \<Longrightarrow> ID r = k \<and> savable r"
    by (auto simp: sq_get_iff task_rows_ok_def savable_def dest!: row_get_key)
qed

section \<open>Cursor pagination\<close>

lemma sorted_distinct_after_take:
  assumes "sorted (map f xs)" "distinct (map f xs)" "0 < n" "xs \<noteq> []"
  shows "filter (\<lambda>r. f (last (take n xs)) < (f r :: 'a::linorder)) xs = drop n xs"
proof -
  let ?p = "take n xs"
  have p: "?p \<noteq> []" using assms by simp
  have split: "xs = ?p @ drop n xs" by simp
  have srt: "sorted_wrt (\<lambda>a b. f a < f b) xs"
    using assms(1,2) by (simp add: sorted_wrt_map [symmetric] strict_sorted_iff)
  then have srt2: "sorted_wrt (\<lambda>a b. f a < f b) (?p @ drop n xs)" by simp
  have lo: "\<not> f (last ?p) < f r" if "r \<in> set ?p" for r
  proof -
    from srt2 have "sorted_wrt (\<lambda>a b. f a < f b) ?p" by (simp only: sorted_wrt_append)
    then have "sorted_wrt (\<lambda>a b. f a < f b) (butlast ?p @ [last ?p])" using p by simp
    moreover have "r \<in> set (butlast ?p @ [last ?p])" using that p by simp
    ultimately show ?thesis by (auto simp: sorted_wrt_append)
  qed
  have hi: "f (last ?p) < f r" if "r \<in> set (drop n xs)" for r
    using srt2 that last_in_set [OF p] by (simp only: sorted_wrt_append)
  have "filter (\<lambda>r. f (last ?p) < f r) (?p @ drop n xs) = drop n xs"
    using lo hi by (simp add: filter_append filter_empty_conv del: append_take_drop_id)
  then show ?thesis by simp
qed

definition matching :: "task_rows \<Rightarrow> task_list_opts \<Rightarrow> task_rows" where
  "matching rows opts = task_order False (filter (task_matches opts) rows)"

lemma matching_after:
  assumes "lo_SinceID opts < c" "c \<noteq> []"
  shows "matching rows (opts\<lparr>lo_SinceID := c\<rparr>) = filter (\<lambda>r. c < ID r) (matching rows opts)"
proof -
  have "filter (task_matches (opts\<lparr>lo_SinceID := c\<rparr>)) rows
      = filter (\<lambda>r. c < ID r) (filter (task_matches opts) rows)"
    using assms by (auto simp: task_matches_def filter_filter intro!: filter_cong)
  then show ?thesis by (simp add: matching_def task_order_def filter_sort)
qed

lemma nil_less_string: "(s::string) \<noteq> [] \<Longrightarrow> [] < s"
  by (cases s) simp_all

section \<open>Push-notification configs\<close>

record push_config =
  pc_ID :: string
  pc_TaskID :: string
  pc_URL :: string
  pc_SigningKey :: string
  pc_Filters :: "string list"
  pc_CreatedAt :: time

text \<open>A stored row keeps the filters as the JSON text column \<open>filters_json\<close>.\<close>

record push_row =
  pr_ID :: string
  pr_TaskID :: string
  pr_URL :: string
  pr_SigningKey :: string
  pr_FiltersJSON :: raw
  pr_CreatedAt :: time

type_synonym push_rows = "push_row list"

definition dec_strings :: "json \<Rightarrow> string list result" where
  "dec_strings j = (case j of JNull \<Rightarrow> Inr [] | JArr xs \<Rightarrow> res_mapM dec_str xs
     | v \<Rightarrow> Inl (mismatch v ''[]string''))"

definition push_of_row :: "push_row \<Rightarrow> push_config result" where
  "push_of_row r =
     (let c = \<lparr>pc_ID = pr_ID r, pc_TaskID = pr_TaskID r, pc_URL = pr_URL r,
               pc_SigningKey = pr_SigningKey r, pc_Filters = [], pc_CreatedAt = pr_CreatedAt r\<rparr>
      in (case pr_FiltersJSON r of
            RawEmpty \<Rightarrow> Inr c
          | b \<Rightarrow> (case unmarshal dec_strings b of
                    Inl e \<Rightarrow> Inl (''unmarshal filters: '' @ e)
                  | Inr fs \<Rightarrow> Inr (c\<lparr>pc_Filters := fs\<rparr>))))"

definition push_Get :: "go_error option \<Rightarrow> push_rows \<Rightarrow> string \<Rightarrow> push_config result" where
  "push_Get err rows k =
     (if k = [] then Inl ''sqlite PushNotificationConfigRepository: empty id''
      else case err of
        Some e \<Rightarrow> Inl (''sqlite push_notification_configs Get '' @ quote k @ '': '' @ e)
      | None \<Rightarrow> (case row_get pr_ID k rows of
          None \<Rightarrow> Inl (''sqlite push_notification_configs Get '' @ quote k @ '': not found'')
        | Some r \<Rightarrow> push_of_row r))"

text \<open>\<open>List\<close> selects the ids and then gets each row; \<open>gerr\<close> is the failure of one such get.\<close>

definition push_List ::
    "go_error option \<Rightarrow> (string \<Rightarrow> go_error option) \<Rightarrow> push_rows \<Rightarrow> string \<Rightarrow> push_config list result"
where
  "push_List qerr gerr rows taskID =
     (case qerr of
        Some e \<Rightarrow> Inl (''sqlite push_notification_configs List: '' @ e)
      | None \<Rightarrow>
          let sel = sort_key pr_CreatedAt
                (if taskID = [] then rows else filter (\<lambda>r. pr_TaskID r = taskID) rows)
          in res_mapM (\<lambda>k. push_Get (gerr k) rows k) (map pr_ID sel))"

definition push_merge :: "push_row \<Rightarrow> push_row \<Rightarrow> push_row" where
  "push_merge old new = new\<lparr>pr_CreatedAt := pr_CreatedAt old\<rparr>"

definition push_row_of :: "push_config \<Rightarrow> push_row" where
  "push_row_of c = \<lparr>pr_ID = pc_ID c, pr_TaskID = pc_TaskID c, pr_URL = pc_URL c,
     pr_SigningKey = pc_SigningKey c, pr_FiltersJSON = RawJson (JArr (map JStr (pc_Filters c))),
     pr_CreatedAt = pc_CreatedAt c\<rparr>"

definition push_Save ::
    "go_error option \<Rightarrow> time \<Rightarrow> push_rows \<Rightarrow> push_config option \<Rightarrow> push_rows \<times> go_error option"
where
  "push_Save err now rows cp =
     (case cp of
        None \<Rightarrow> (rows, Some ''sqlite PushNotificationConfigRepository: nil config'')
      | Some c \<Rightarrow>
          if pc_ID c = [] then (rows, Some ''sqlite PushNotificationConfigRepository: empty ID'')
          else if pc_TaskID c = []
          then (rows, Some ''sqlite PushNotificationConfigRepository: empty TaskID'')
          else if pc_URL c = [] then (rows, Some ''sqlite PushNotificationConfigRepository: empty URL'')
          else
            let c1 = (if pc_CreatedAt c = time_zero then c\<lparr>pc_CreatedAt := now\<rparr> else c)
            in (case err of
                  Some e \<Rightarrow> (rows, Some (''sqlite push_notification_configs Save '' @ quote (pc_ID c)
                                        @ '': '' @ e))
                | None \<Rightarrow> (row_upsert pr_ID push_merge (push_row_of c1) rows, None)))"

definition push_Delete :: "go_error option \<Rightarrow> push_rows \<Rightarrow> string \<Rightarrow> push_rows \<times> go_error option" where
  "push_Delete err rows k =
     (if k = [] then (rows, Some ''sqlite PushNotificationConfigRepository: empty id'')
      else case err of
        Some e \<Rightarrow> (rows, Some (''sqlite push_notification_configs Delete '' @ quote k @ '': '' @ e))
      | None \<Rightarrow> (row_delete pr_ID k rows, None))"

lemma push_merge_ID [simp]: "pr_ID (push_merge old new) = pr_ID new"
  by (simp add: push_merge_def)

lemma dec_strings_enc [simp]: "dec_strings (JArr (map JStr fs)) = Inr fs"
  by (simp add: dec_strings_def res_mapM_map dec_str_def)

lemma push_of_row_of [simp]: "push_of_row (push_row_of c) = Inr c"
  by (simp add: push_of_row_def push_row_of_def unmarshal_def Let_def)

section \<open>Properties\<close>

text \<open>saving a task and reading it back returns the record as saved, stamped with the time of
  the save, except that a task that was already stored keeps its first creation time.\<close>

theorem task_save_then_get:
  assumes "savable t"
  shows "task_Get None (fst (task_Save None now rows (Some t))) (ID t) =
     Inr (t\<lparr>CreatedAt := (case row_get ID (ID t) rows of Some old \<Rightarrow> CreatedAt old
              | None \<Rightarrow> if CreatedAt t = time_zero then now else CreatedAt t),
            UpdatedAt := now\<rparr>)"
proof -
  have "ID t \<noteq> []" using assms by (simp add: savable_def)
  moreover have "row_get ID (ID t) (row_upsert ID task_merge (stamped now t) rows) =
      Some (case row_get ID (ID t) rows of None \<Rightarrow> stamped now t | Some old \<Rightarrow> task_merge old (stamped now t))"
    by (subst row_get_upsert) simp_all
  ultimately show ?thesis using assms
    by (simp add: task_Save_eq task_Get_def stamped_def task_merge_def split: option.split)
qed

theorem task_save_then_get_witness:
  "task_Get None (fst (task_Save None 9 [] (Some
      \<lparr>ID = ''t1'', RunnerSID = ''r'', State = TaskStateWorking, Method = ''message/send'',
       InputBlob = RawEmpty, OutputBlob = RawEmpty, AuthChallenge = [], CreatedAt = 0, UpdatedAt = 0\<rparr>)))
     ''t1'' = Inr
      \<lparr>ID = ''t1'', RunnerSID = ''r'', State = TaskStateWorking, Method = ''message/send'',
       InputBlob = RawEmpty, OutputBlob = RawEmpty, AuthChallenge = [], CreatedAt = 9, UpdatedAt = 9\<rparr>"
proof -
  let ?t = "\<lparr>ID = ''t1'', RunnerSID = ''r'', State = TaskStateWorking, Method = ''message/send'',
       InputBlob = RawEmpty, OutputBlob = RawEmpty, AuthChallenge = [], CreatedAt = 0, UpdatedAt = 0\<rparr>"
  have "savable ?t" by (simp add: savable_def)
  from task_save_then_get [OF this, of 9 "[]"] show ?thesis by (simp add: time_zero_def)
qed

text \<open>cursor pagination loses and repeats nothing: over a well-formed table, a page fetched from
  a cursor followed by everything after the page's last id is exactly everything after the cursor,
  in id order, whatever the page size and filters.\<close>

theorem cursor_pagination:
  assumes ok: "task_rows_ok rows"
    and lim: "0 < lo_Limit opts" and ord: "\<not> lo_Newest opts"
    and page: "task_List None rows opts = Inr page" and ne: "page \<noteq> []"
  shows "matching rows opts = page @ matching rows (opts\<lparr>lo_SinceID := ID (last page)\<rparr>)"
proof -
  let ?m = "matching rows opts" and ?n = "nat (lo_Limit opts)"
  have pg: "page = take ?n ?m"
    using page lim ord by (simp add: task_List_def Let_def matching_def)
  have srt: "sorted (map ID ?m)" by (simp add: matching_def task_order_def)
  have "distinct (map ID (filter (task_matches opts) rows))"
    using ok by (simp add: task_rows_ok_def keys_distinct_def distinct_map_filter)
  then have dst: "distinct (map ID ?m)"
    by (simp add: matching_def task_order_def distinct_map)
  have "last page \<in> set ?m" using pg ne by (metis last_in_set in_set_takeD)
  then have l: "last page \<in> set rows" "task_matches opts (last page)"
    by (auto simp: matching_def task_order_def)
  then have l2: "ID (last page) \<noteq> []" using ok by (auto simp: task_rows_ok_def)
  have "lo_SinceID opts < ID (last page)"
    using l(2) l2 nil_less_string by (cases "lo_SinceID opts") (auto simp: task_matches_def)
  from matching_after [OF this l2]
  have "matching rows (opts\<lparr>lo_SinceID := ID (last page)\<rparr>) = filter (\<lambda>r. ID (last page) < ID r) ?m" .
  also have "\<dots> = drop ?n ?m"
    using sorted_distinct_after_take [OF srt dst, of ?n] lim pg ne by auto
  finally show ?thesis using pg by simp
qed

theorem cursor_pagination_witness:
  "matching
     [\<lparr>ID = ''b'', RunnerSID = ''r'', State = ''s'', Method = [], InputBlob = RawEmpty,
       OutputBlob = RawEmpty, AuthChallenge = [], CreatedAt = 1, UpdatedAt = 1\<rparr>,
      \<lparr>ID = ''a'', RunnerSID = ''r'', State = ''s'', Method = [], InputBlob = RawEmpty,
       OutputBlob = RawEmpty, AuthChallenge = [], CreatedAt = 2, UpdatedAt = 2\<rparr>]
     \<lparr>lo_RunnerSID = [], lo_State = [], lo_SinceID = [], lo_Limit = 1, lo_Newest = False\<rparr>
   = [\<lparr>ID = ''a'', RunnerSID = ''r'', State = ''s'', Method = [], InputBlob = RawEmpty,
       OutputBlob = RawEmpty, AuthChallenge = [], CreatedAt = 2, UpdatedAt = 2\<rparr>,
      \<lparr>ID = ''b'', RunnerSID = ''r'', State = ''s'', Method = [], InputBlob = RawEmpty,
       OutputBlob = RawEmpty, AuthChallenge = [], CreatedAt = 1, UpdatedAt = 1\<rparr>]"
  (is "matching [?b, ?a] ?o = _")
proof -
  have ok: "task_rows_ok [?b, ?a]" by (simp add: task_rows_ok_def keys_distinct_def)
  have page: "task_List None [?b, ?a] ?o = Inr [?a]"
    by (simp add: task_List_def Let_def task_order_def task_matches_def)
  have rest: "matching [?b, ?a] (?o\<lparr>lo_SinceID := ID (last [?a])\<rparr>) = [?b]"
    by (simp add: matching_def task_order_def task_matches_def)
  show ?thesis using cursor_pagination [OF ok _ _ page] rest by simp
qed

text \<open>a push config that is saved is read back unchanged, its filters included.\<close>

theorem push_config_roundtrip:
  assumes "pc_ID c \<noteq> []" "pc_TaskID c \<noteq> []" "pc_URL c \<noteq> []" "pc_CreatedAt c \<noteq> time_zero"
    and "row_get pr_ID (pc_ID c) rows = None"
  shows "push_Get None (fst (push_Save None now rows (Some c))) (pc_ID c) = Inr c"
proof -
  have "pr_ID (push_row_of c) = pc_ID c" by (simp add: push_row_of_def)
  then have "row_get pr_ID (pc_ID c) (row_upsert pr_ID push_merge (push_row_of c) rows) =
      Some (push_row_of c)"
    using assms(5) by (subst row_get_upsert) simp_all
  then show ?thesis using assms(1-4) by (simp add: push_Save_def push_Get_def Let_def)
qed

theorem push_config_roundtrip_witness:
  "push_Get None (fst (push_Save None 5 [] (Some
     \<lparr>pc_ID = ''p'', pc_TaskID = ''t'', pc_URL = ''u'', pc_SigningKey = ''k'',
      pc_Filters = [''state:COMPLETED''], pc_CreatedAt = 3\<rparr>))) ''p''
   = Inr \<lparr>pc_ID = ''p'', pc_TaskID = ''t'', pc_URL = ''u'', pc_SigningKey = ''k'',
      pc_Filters = [''state:COMPLETED''], pc_CreatedAt = 3\<rparr>"
  using push_config_roundtrip [of "\<lparr>pc_ID = ''p'', pc_TaskID = ''t'', pc_URL = ''u'',
      pc_SigningKey = ''k'', pc_Filters = [''state:COMPLETED''], pc_CreatedAt = 3\<rparr>" "[]" 5]
  by (simp add: time_zero_def)

end
