(* ===== verification/Webhook.thy ===== *)
theory Webhook
  imports Task_Store
begin

text \<open>
  Push-notification delivery: filters and retries of \<open>internal/a2a/webhook.go\<close>, the signed
  dispatcher and its verifier of \<open>internal/a2a/push_webhook.go\<close>. A delivery is a trace of POSTs and
  sleeps; the response to attempt \<open>i\<close> is an argument. HMAC-SHA256 is a function argument \<open>hmac key
  body\<close>: nothing proved here depends on which function it is.
\<close>

section \<open>Stream events\<close>

record stream_event =
  ev_Type :: string
  ev_Task :: "a2a_task option"
  ev_Artifact :: "artifact option"

section \<open>Filters\<close>

definition normalizeState :: "string \<Rightarrow> string" where
  "normalizeState s = trim_prefix ''task_state_'' (to_lower (trim_space s))"

definition filter_want :: "string \<Rightarrow> string" where
  "filter_want f =
     trim_prefix ''task_state_'' (trim_prefix ''state:'' (to_lower (trim_space f)))"

definition matchesFilters :: "string list \<Rightarrow> stream_event \<Rightarrow> bool" where
  "matchesFilters filters ev =
     (if filters = [] then True
      else case ev_Task ev of
        None \<Rightarrow> False
      | Some t \<Rightarrow>
          let current = normalizeState (s_State (t_Status t))
          in list_ex (\<lambda>f. let want = filter_want f in
               want \<noteq> [] \<and> (want = current \<or> want = to_lower (ev_Type ev))) filters)"

text \<open>
  \<open>firePushNotifications\<close>: the configs a published event is POSTed to. \<open>lister\<close> is the
  \<open>PushConfigLister\<close>, absent when the broker has no config store.
\<close>

definition firePushNotifications ::
    "(string \<Rightarrow> push_config list result) option \<Rightarrow> stream_event \<Rightarrow> push_config list" where
  "firePushNotifications lister ev =
     (case lister of
        None \<Rightarrow> []
      | Some list \<Rightarrow>
          (case ev_Task ev of
             None \<Rightarrow> []
           | Some t \<Rightarrow>
               if t_ID t = [] then []
               else (case list (t_ID t) of
                       Inl _ \<Rightarrow> []
                     | Inr configs \<Rightarrow> filter (\<lambda>c. matchesFilters (pc_Filters c) ev) configs)))"

section \<open>Delivery with retries\<close>

datatype http_outcome = TransportError | HttpStatus int

text \<open>A POST carries its \<open>Authorization\<close> header, if any.\<close>

datatype wh_action = Post "string option" | Sleep int

definition webhookMaxAttempts :: nat where "webhookMaxAttempts = 3"
definition webhookInitialBackoff :: int where "webhookInitialBackoff = 250 * millisecond"

definition final_outcome :: "http_outcome \<Rightarrow> bool" where
  "final_outcome r = (case r of TransportError \<Rightarrow> False
     | HttpStatus n \<Rightarrow> (200 \<le> n \<and> n < 300) \<or> (400 \<le> n \<and> n < 500))"

definition bearer_header :: "push_config \<Rightarrow> string option" where
  "bearer_header cfg = (if pc_SigningKey cfg \<noteq> [] then Some (''Bearer '' @ pc_SigningKey cfg) else None)"

function deliver_loop :: "string option \<Rightarrow> (nat \<Rightarrow> http_outcome) \<Rightarrow> nat \<Rightarrow> int \<Rightarrow> wh_action list" where
  "deliver_loop auth resp attempt backoff =
     (if attempt < webhookMaxAttempts then
        Post auth #
        (if final_outcome (resp attempt) then []
         else if attempt < webhookMaxAttempts - 1
         then Sleep backoff # deliver_loop auth resp (Suc attempt) (backoff * 2)
         else deliver_loop auth resp (Suc attempt) backoff)
      else [])"
  by pat_completeness auto
termination
  by (relation "measure (\<lambda>(_, _, attempt, _). webhookMaxAttempts - attempt)")
    (auto simp: webhookMaxAttempts_def)

declare deliver_loop.simps [simp del]

text \<open>A URL that \<open>http.NewRequest\<close> rejects ends the delivery at once.\<close>

definition deliverWebhook :: "push_config \<Rightarrow> bool \<Rightarrow> (nat \<Rightarrow> http_outcome) \<Rightarrow> wh_action list" where
  "deliverWebhook cfg url_ok resp =
     (if url_ok then deliver_loop (bearer_header cfg) resp 0 webhookInitialBackoff else [])"

section \<open>Signed dispatch\<close>

definition hex_of_char :: "char \<Rightarrow> string" where
  "hex_of_char c = [hex_char (of_char c div 16), hex_char (of_char c mod 16)]"

definition hex_encode :: "string \<Rightarrow> string" where
  "hex_encode s = concat (map hex_of_char s)"

definition hex_digit_value :: "char \<Rightarrow> nat option" where
  "hex_digit_value c =
     (let n = (of_char c :: nat) in
      if 48 \<le> n \<and> n \<le> 57 then Some (n - 48)
      else if 97 \<le> n \<and> n \<le> 102 then Some (n - 87)
      else if 65 \<le> n \<and> n \<le> 70 then Some (n - 55)
      else None)"

text \<open>\<open>hex.DecodeString\<close>: upper and lower case digits, an error on anything else or an odd length.\<close>

fun hex_decode :: "string \<Rightarrow> string option" where
  "hex_decode [] = Some []"
| "hex_decode [c] = None"
| "hex_decode (a # b # s) =
     (case (hex_digit_value a, hex_digit_value b, hex_decode s) of
        (Some x, Some y, Some r) \<Rightarrow> Some (char_of (16 * x + y) # r)
      | _ \<Rightarrow> None)"

record dispatch_store =
  ds_list :: "string \<Rightarrow> push_config list result"

text \<open>
  One POST of \<open>WebhookDispatcher.deliver\<close>: its signature header, if any, and whether the outcome is
  reported to the error sink.
\<close>

definition signature_header :: "(string \<Rightarrow> string \<Rightarrow> string) \<Rightarrow> push_config \<Rightarrow> string \<Rightarrow> string option" where
  "signature_header hmac cfg body =
     (if pc_SigningKey cfg \<noteq> []
      then Some (''sha256='' @ hex_encode (hmac (pc_SigningKey cfg) body)) else None)"

definition deliver_reports :: "bool \<Rightarrow> http_outcome \<Rightarrow> bool" where
  "deliver_reports url_ok r \<longleftrightarrow> \<not> url_ok \<or>
     (case r of TransportError \<Rightarrow> True | HttpStatus n \<Rightarrow> n < 200 \<or> 300 \<le> n)"

text \<open>\<open>DispatchTaskUpdate\<close>: the POSTs it starts, each with URL and signature.\<close>

definition DispatchTaskUpdate ::
    "(string \<Rightarrow> string \<Rightarrow> string) \<Rightarrow> dispatch_store option \<Rightarrow> string \<Rightarrow> string
       \<Rightarrow> (string \<times> string option) list" where
  "DispatchTaskUpdate hmac store taskID body =
     (case store of
        None \<Rightarrow> []
      | Some d \<Rightarrow>
          if taskID = [] then []
          else (case ds_list d taskID of
                  Inl _ \<Rightarrow> []
                | Inr configs \<Rightarrow> map (\<lambda>c. (pc_URL c, signature_header hmac c body)) configs))"

datatype verify_result = VerifyPanic | VerifyError go_error | VerifyOk

text \<open>\<open>VerifySignature\<close> slices the header at 7 before looking at it: a shorter header panics.\<close>

definition VerifySignature ::
    "(string \<Rightarrow> string \<Rightarrow> string) \<Rightarrow> string \<Rightarrow> string \<Rightarrow> string \<Rightarrow> verify_result" where
  "VerifySignature hmac body signingKey header =
     (if length header < 7 then VerifyPanic
      else if take 7 header \<noteq> ''sha256=''
      then VerifyError ''VerifySignature: header missing 'sha256=' prefix''
      else case hex_decode (drop 7 header) of
        None \<Rightarrow> VerifyError ''VerifySignature: decode hex: ''
      | Some got \<Rightarrow>
          if got \<noteq> hmac signingKey body then VerifyError ''VerifySignature: HMAC mismatch''
          else VerifyOk)"

section \<open>Lemmas\<close>

lemma hex_digits_inverse: "list_all (\<lambda>d. hex_digit_value (hex_char d) = Some d) [0..<16]"
  by code_simp

lemma hex_digit_value_char: "d < 16 \<Longrightarrow> hex_digit_value (hex_char d) = Some d"
  using hex_digits_inverse by (simp add: list_all_iff)

lemma hex_decode_encode [simp]: "hex_decode (hex_encode s) = Some s"
proof (induction s)
  case Nil
  then show ?case by (simp add: hex_encode_def)
next
  case (Cons c s)
  have "hex_digit_value (hex_char (of_char c div 16)) = Some (of_char c div 16)"
    by (rule hex_digit_value_char) (use of_char_lt [of c] in linarith)
  moreover have "hex_digit_value (hex_char (of_char c mod 16)) = Some (of_char c mod 16)"
    by (rule hex_digit_value_char) simp
  moreover have "char_of (16 * (of_char c div 16) + of_char c mod 16 :: nat) = c"
  proof -
    have "16 * (of_char c div 16) + of_char c mod 16 = (of_char c :: nat)"
      by (rule mult_div_mod_eq)
    then show ?thesis by (simp only: char_of_char)
  qed
  ultimately show ?case using Cons.IH
    by (simp only: hex_encode_def hex_of_char_def list.map concat.simps append.simps
        hex_decode.simps option.case prod.case)
qed

definition sleeps :: "wh_action list \<Rightarrow> int" where
  "sleeps tr = sum_list (map (\<lambda>a. case a of Sleep d \<Rightarrow> d | Post _ \<Rightarrow> 0) tr)"

definition posts :: "wh_action list \<Rightarrow> string option list" where
  "posts tr = concat (map (\<lambda>a. case a of Sleep _ \<Rightarrow> [] | Post h \<Rightarrow> [h]) tr)"

lemma deliver_unfold:
  "deliver_loop auth resp 0 d =
     (if final_outcome (resp 0) then [Post auth]
      else if final_outcome (resp 1) then [Post auth, Sleep d, Post auth]
      else [Post auth, Sleep d, Post auth, Sleep (d * 2), Post auth])"
  by (simp add: deliver_loop.simps [of auth resp 0] deliver_loop.simps [of auth resp "Suc 0"]
      deliver_loop.simps [of auth resp "Suc (Suc 0)"]
      deliver_loop.simps [of auth resp "Suc (Suc (Suc 0))"] webhookMaxAttempts_def)

lemma normalized_states:
  "map normalizeState AllStates = [''submitted'', ''working'', ''input_required'',
     ''auth_required'', ''completed'', ''failed'', ''canceled'', ''rejected'']"
  by (simp add: AllStates_def TaskState_defs normalizeState_def string_eval)

lemma event_types_lower [simp]:
  "to_lower ''status'' = ''status''" "to_lower ''artifact'' = ''artifact''"
  "to_lower ''done'' = ''done''"
  by (simp_all add: string_eval)

lemma filter_want_states:
  "map filter_want AllStates = map normalizeState AllStates"
  "map (\<lambda>s. filter_want (''state:'' @ s)) AllStates = map normalizeState AllStates"
  unfolding normalized_states
  by (simp_all add: AllStates_def TaskState_defs filter_want_def string_eval)

lemma filter_want_state:
  "s \<in> set AllStates \<Longrightarrow> pre \<in> {[], ''state:''} \<Longrightarrow> filter_want (pre @ s) = normalizeState s"
proof (elim insertE emptyE)
  assume "s \<in> set AllStates"
  then have "filter_want s = normalizeState s \<and> filter_want (''state:'' @ s) = normalizeState s"
    using filter_want_states by (simp only: map_eq_conv)
  then show "pre = [] \<Longrightarrow> ?thesis" "pre = ''state:'' \<Longrightarrow> ?thesis" by (simp_all only: append.simps)
qed

lemma normalizeState_inj:
  assumes "s \<in> set AllStates" "t \<in> set AllStates" shows "normalizeState s = normalizeState t \<longleftrightarrow> s = t"
proof -
  have "distinct (map normalizeState AllStates)" unfolding normalized_states by simp
  then show ?thesis using assms by (auto simp: distinct_map dest: inj_onD)
qed

section \<open>Properties\<close>

text \<open>a filter that names a task state, as written by clients (with or without \<open>state:\<close>, any of
  the eight constants), lets exactly the events of tasks in that state through.\<close>

theorem state_filter_exact:
  assumes "s \<in> set AllStates" "pre \<in> {[], ''state:''}"
    and "ev_Task ev = Some t" "s_State (t_Status t) \<in> set AllStates"
    and "ev_Type ev \<in> {''status'', ''artifact'', ''done''}"
  shows "matchesFilters [pre @ s] ev \<longleftrightarrow> s_State (t_Status t) = s"
proof -
  have "normalizeState s \<in> set (map normalizeState AllStates)" using assms(1) by simp
  then have "normalizeState s \<noteq> [] \<and> normalizeState s \<noteq> to_lower (ev_Type ev)"
    using assms(5) unfolding normalized_states
    by (elim insertE emptyE) (simp; fastforce)+
  then show ?thesis
    using assms filter_want_state [OF assms(1,2)] normalizeState_inj [OF assms(4,1)]
    by (auto simp: matchesFilters_def Let_def)
qed

theorem state_filter_exact_witness:
  "matchesFilters [''state:'' @ TaskStateCompleted]
     \<lparr>ev_Type = ''done'', ev_Task = Some \<lparr>t_ID = ''t'', t_ContextID = [],
        t_Status = \<lparr>s_State = TaskStateCompleted, s_Message = None, s_Details = None\<rparr>,
        t_History = [], t_Artifacts = [], t_Kind = []\<rparr>, ev_Artifact = None\<rparr>"
  by (subst state_filter_exact [where t = "\<lparr>t_ID = ''t'', t_ContextID = [],
        t_Status = \<lparr>s_State = TaskStateCompleted, s_Message = None, s_Details = None\<rparr>,
        t_History = [], t_Artifacts = [], t_Kind = []\<rparr>"]) (simp_all add: AllStates_def)

text \<open>a webhook is POSTed at most three times: once, plus one more for each leading attempt that
  ended in a transport error or a status that is neither 2xx nor 4xx; the delivery sleeps at most
  750 ms in all, every POST carries the config's signing key itself as its bearer token, and nothing
  is sent to a URL that cannot be parsed.\<close>

theorem webhook_attempts:
  "posts (deliverWebhook cfg True resp) =
     replicate (Suc (length (takeWhile (\<lambda>i. \<not> final_outcome (resp i)) [0, 1]))) (bearer_header cfg)
   \<and> sleeps (deliverWebhook cfg True resp) \<le> 750 * millisecond
   \<and> deliverWebhook cfg False resp = []"
  by (simp add: deliverWebhook_def deliver_unfold sleeps_def posts_def webhookInitialBackoff_def
      millisecond_def)

text \<open>C4: the verifier accepts exactly the headers that carry the HMAC of the body under the shared
  key, so it accepts what the dispatcher signs; it panics on a header shorter than seven bytes.\<close>

theorem signature_verification:
  "(VerifySignature hmac body key header = VerifyOk \<longleftrightarrow>
      has_prefix ''sha256='' header \<and> hex_decode (drop 7 header) = Some (hmac key body))
   \<and> (VerifySignature hmac body key header = VerifyPanic \<longleftrightarrow> length header < 7)
   \<and> (signature_header hmac (c\<lparr>pc_SigningKey := key\<rparr>) body = Some sig
       \<longrightarrow> VerifySignature hmac body key sig = VerifyOk)"
proof -
  have cases: "VerifySignature hmac body key header = VerifyOk \<longleftrightarrow>
      \<not> length header < 7 \<and> take 7 header = ''sha256='' \<and>
      hex_decode (drop 7 header) = Some (hmac key body)"
    "VerifySignature hmac body key header = VerifyPanic \<longleftrightarrow> length header < 7"
    unfolding VerifySignature_def by (simp_all split: option.split)
  have "take 7 header = ''sha256='' \<Longrightarrow> \<not> length header < 7"
    by (drule arg_cong [where f = length]) simp
  moreover have "has_prefix ''sha256='' header \<longleftrightarrow> take 7 header = ''sha256=''"
    by (simp add: has_prefix_def eval_nat_numeral)
  moreover have "VerifySignature hmac body key (''sha256='' @ hex_encode (hmac key body)) = VerifyOk"
    unfolding VerifySignature_def by simp
  ultimately show ?thesis
    unfolding cases signature_header_def by (cases "key = []") auto
qed

theorem signature_verification_witness:
  "VerifySignature (\<lambda>k b. k @ b) ''body'' ''key'' (''sha256='' @ hex_encode ''keybody'') = VerifyOk"
  using signature_verification [of "\<lambda>k b. k @ b" "''body''" "''key''" "[]" undefined
      "''sha256='' @ hex_encode ''keybody''"]
  by (simp add: signature_header_def)

end
