(* ===== verification/Stream_Broker.thy ===== *)
theory Stream_Broker
  imports Webhook Go_Map
begin

text \<open>
  The SSE broker of \<open>internal/a2a/sse.go\<close> with \<open>lookup\<close> and \<open>cleanup\<close> of
  \<open>internal/a2a/streaming.go\<close>. Subscriptions and the per-task maps are shared Go objects, so both live
  in heaps: a pointer is an index, allocation appends. \<open>Publish\<close> takes the lock twice (to send, then to
  reap after a \<open>done\<close> event) and keeps a reference to the per-task map in between; the two sections are
  two operations, and a world holds the publishers that are between them. \<open>None\<close> is a Go panic
  (send on, or close of, a closed channel).
\<close>

section \<open>State\<close>

record subscription =
  sub_streamID :: string
  sub_taskID :: string
  sub_queue :: "stream_event list"
  sub_closed :: bool
  sub_lastSent :: time

record broker =
  b_subs :: "subscription list"
  b_maps :: "(string \<times> nat) list list"
  b_byStreamID :: "(string \<times> nat) list"
  b_byTaskID :: "(string \<times> nat) list"
  b_IdleTimeout :: int

definition NewStreamBroker :: broker where
  "NewStreamBroker = \<lparr>b_subs = [], b_maps = [], b_byStreamID = [], b_byTaskID = [],
     b_IdleTimeout = 10 * minute\<rparr>"

section \<open>Operations\<close>

definition Subscribe :: "broker \<Rightarrow> string \<Rightarrow> string \<Rightarrow> time \<Rightarrow> string result \<times> broker" where
  "Subscribe b taskID fresh now =
     (if taskID = [] then (Inl ''StreamBroker.Subscribe: empty taskID'', b)
      else
        let p = length (b_subs b);
            sub = \<lparr>sub_streamID = fresh, sub_taskID = taskID, sub_queue = [], sub_closed = False,
                   sub_lastSent = now\<rparr>;
            b1 = b\<lparr>b_subs := b_subs b @ [sub],
                   b_byStreamID := AList.update fresh p (b_byStreamID b)\<rparr>;
            b2 = (case map_of (b_byTaskID b1) taskID of
                    Some _ \<Rightarrow> b1
                  | None \<Rightarrow> b1\<lparr>b_maps := b_maps b1 @ [[]],
                              b_byTaskID := AList.update taskID (length (b_maps b1)) (b_byTaskID b1)\<rparr>);
            m = the (map_of (b_byTaskID b2) taskID)
        in (Inr fresh, b2\<lparr>b_maps := (b_maps b2)[m := AList.update fresh p (b_maps b2 ! m)]\<rparr>))"

fun send_all :: "stream_event \<Rightarrow> time \<Rightarrow> nat list \<Rightarrow> subscription list
    \<Rightarrow> (nat \<times> subscription list) option" where
  "send_all ev now [] h = Some (0, h)"
| "send_all ev now (p # ps) h =
     (if sub_closed (h ! p) then None
      else if length (sub_queue (h ! p)) < 16 then
        map_option (\<lambda>(n, h'). (Suc n, h'))
          (send_all ev now ps
             (h[p := (h ! p)\<lparr>sub_queue := sub_queue (h ! p) @ [ev], sub_lastSent := now\<rparr>]))
      else send_all ev now ps h)"

text \<open>First critical section of \<open>Publish\<close>: the number dispatched and, when the task has
  subscribers, the map the second section will use.\<close>

definition publish_send ::
    "broker \<Rightarrow> string \<Rightarrow> stream_event \<Rightarrow> time \<Rightarrow> (nat \<times> nat option \<times> broker) option" where
  "publish_send b taskID ev now =
     (case map_of (b_byTaskID b) taskID of
        None \<Rightarrow> Some (0, None, b)
      | Some m \<Rightarrow>
          map_option (\<lambda>(n, h). (n, Some m, b\<lparr>b_subs := h\<rparr>))
            (send_all ev now (map snd (b_maps b ! m)) (b_subs b)))"

fun reap_all :: "nat \<Rightarrow> (string \<times> nat) list \<Rightarrow> broker \<Rightarrow> broker option" where
  "reap_all m [] b = Some b"
| "reap_all m ((sid, p) # rest) b =
     (if sub_closed (b_subs b ! p) then None
      else reap_all m rest
        (b\<lparr>b_subs := (b_subs b)[p := (b_subs b ! p)\<lparr>sub_closed := True\<rparr>],
           b_byStreamID := AList.delete sid (b_byStreamID b),
           b_maps := (b_maps b)[m := AList.delete sid (b_maps b ! m)]\<rparr>))"

text \<open>Second critical section, run after a \<open>done\<close> event only.\<close>

definition publish_reap :: "broker \<Rightarrow> string \<Rightarrow> nat \<Rightarrow> broker option" where
  "publish_reap b taskID m =
     (case reap_all m (b_maps b ! m) b of
        None \<Rightarrow> None
      | Some b' \<Rightarrow>
          Some (if b_maps b' ! m = [] then b'\<lparr>b_byTaskID := AList.delete taskID (b_byTaskID b')\<rparr>
                else b'))"

definition Publish :: "broker \<Rightarrow> string \<Rightarrow> stream_event \<Rightarrow> time \<Rightarrow> (nat \<times> broker) option" where
  "Publish b taskID ev now =
     (case publish_send b taskID ev now of
        None \<Rightarrow> None
      | Some (n, None, b') \<Rightarrow> Some (n, b')
      | Some (n, Some m, b') \<Rightarrow>
          if ev_Type ev = ''done'' then map_option (\<lambda>b''. (n, b'')) (publish_reap b' taskID m)
          else Some (n, b'))"

definition stream_lookup :: "broker \<Rightarrow> string \<Rightarrow> nat option" where
  "stream_lookup b streamID = map_of (b_byStreamID b) streamID"

text \<open>\<open>cleanup\<close> recovers from closing a closed channel, so it never panics.\<close>

definition stream_cleanup :: "broker \<Rightarrow> string \<Rightarrow> broker" where
  "stream_cleanup b streamID =
     (case map_of (b_byStreamID b) streamID of
        None \<Rightarrow> b
      | Some p \<Rightarrow>
          let b1 = b\<lparr>b_byStreamID := AList.delete streamID (b_byStreamID b)\<rparr>;
              t = sub_taskID (b_subs b ! p);
              b2 = (case map_of (b_byTaskID b1) t of
                      None \<Rightarrow> b1
                    | Some m \<Rightarrow>
                        let subs = AList.delete streamID (b_maps b1 ! m);
                            b1' = b1\<lparr>b_maps := (b_maps b1)[m := subs]\<rparr>
                        in if subs = [] then b1'\<lparr>b_byTaskID := AList.delete t (b_byTaskID b1')\<rparr>
                           else b1')
          in b2\<lparr>b_subs := (b_subs b2)[p := (b_subs b2 ! p)\<lparr>sub_closed := True\<rparr>]\<rparr>)"

definition idleTimeout :: "broker \<Rightarrow> int" where
  "idleTimeout b = (if 0 < b_IdleTimeout b then b_IdleTimeout b else 10 * minute)"

definition SubscriptionCount :: "broker \<Rightarrow> nat" where
  "SubscriptionCount b = length (b_byStreamID b)"

text \<open>A consumer takes the head of its channel.\<close>

definition sub_receive :: "broker \<Rightarrow> nat \<Rightarrow> stream_event option \<times> broker" where
  "sub_receive b p =
     (case sub_queue (b_subs b ! p) of
        [] \<Rightarrow> (None, b)
      | ev # rest \<Rightarrow>
          (Some ev, b\<lparr>b_subs := (b_subs b)[p := (b_subs b ! p)\<lparr>sub_queue := rest\<rparr>]\<rparr>))"

section \<open>Interleavings\<close>

record world =
  w_broker :: broker
  w_pending :: "(string \<times> nat) list"

datatype broker_op =
    OpSubscribe string string time
  | OpSend string stream_event time
  | OpReap nat
  | OpCleanup string
  | OpReceive nat

definition fresh_id :: "broker \<Rightarrow> string \<Rightarrow> bool" where
  "fresh_id b sid \<longleftrightarrow> sid \<notin> sub_streamID ` set (b_subs b)"

definition op_enabled :: "world \<Rightarrow> broker_op \<Rightarrow> bool" where
  "op_enabled w x = (case x of OpSubscribe _ sid _ \<Rightarrow> fresh_id (w_broker w) sid
     | OpReap i \<Rightarrow> i < length (w_pending w) | OpReceive p \<Rightarrow> p < length (b_subs (w_broker w))
     | _ \<Rightarrow> True)"

definition broker_exec :: "broker_op \<Rightarrow> world \<Rightarrow> world option" where
  "broker_exec x w = (let b = w_broker w in case x of
     OpSubscribe t sid now \<Rightarrow> Some (w\<lparr>w_broker := snd (Subscribe b t sid now)\<rparr>)
   | OpSend t ev now \<Rightarrow>
       (case publish_send b t ev now of
          None \<Rightarrow> None
        | Some (n, None, b') \<Rightarrow> Some (w\<lparr>w_broker := b'\<rparr>)
        | Some (n, Some m, b') \<Rightarrow>
            Some (w\<lparr>w_broker := b',
                    w_pending := w_pending w @ (if ev_Type ev = ''done'' then [(t, m)] else [])\<rparr>))
   | OpReap i \<Rightarrow>
       (let (t, m) = w_pending w ! i in
        map_option (\<lambda>b'. w\<lparr>w_broker := b', w_pending := take i (w_pending w) @ drop (Suc i) (w_pending w)\<rparr>)
          (publish_reap b t m))
   | OpCleanup sid \<Rightarrow> Some (w\<lparr>w_broker := stream_cleanup b sid\<rparr>)
   | OpReceive p \<Rightarrow> Some (w\<lparr>w_broker := snd (sub_receive b p)\<rparr>))"

fun broker_run :: "broker_op list \<Rightarrow> world \<Rightarrow> world option" where
  "broker_run [] w = Some w"
| "broker_run (x # xs) w = (case broker_exec x w of None \<Rightarrow> None | Some w' \<Rightarrow> broker_run xs w')"

definition world_init :: world where
  "world_init = \<lparr>w_broker = NewStreamBroker, w_pending = []\<rparr>"

inductive broker_reach :: "world \<Rightarrow> bool" where
  start: "broker_reach world_init"
| step: "broker_reach w \<Longrightarrow> op_enabled w x \<Longrightarrow> broker_exec x w = Some w' \<Longrightarrow> broker_reach w'"

text \<open>Sequential use: a \<open>done\<close> publish finishes before anything else happens.\<close>

inductive broker_seq :: "broker \<Rightarrow> bool" where
  new: "broker_seq NewStreamBroker"
| subscribe: "broker_seq b \<Longrightarrow> fresh_id b sid \<Longrightarrow> broker_seq (snd (Subscribe b t sid now))"
| publish: "broker_seq b \<Longrightarrow> Publish b t ev now = Some (n, b') \<Longrightarrow> broker_seq b'"
| cleanup: "broker_seq b \<Longrightarrow> broker_seq (stream_cleanup b sid)"
| receive: "broker_seq b \<Longrightarrow> p < length (b_subs b) \<Longrightarrow> broker_seq (snd (sub_receive b p))"

section \<open>Invariant of every interleaving\<close>

definition broker_inv :: "broker \<Rightarrow> bool" where
  "broker_inv b \<longleftrightarrow>
     (\<forall>sid p. map_of (b_byStreamID b) sid = Some p \<longrightarrow>
        p < length (b_subs b) \<and> sub_streamID (b_subs b ! p) = sid \<and> \<not> sub_closed (b_subs b ! p))
   \<and> (\<forall>m < length (b_maps b). distinct (map fst (b_maps b ! m)) \<and>
        (\<forall>sid p. map_of (b_maps b ! m) sid = Some p \<longrightarrow>
           p < length (b_subs b) \<and> sub_streamID (b_subs b ! p) = sid))
   \<and> (\<forall>t m. map_of (b_byTaskID b) t = Some m \<longrightarrow> m < length (b_maps b) \<and>
        (\<forall>sid p. map_of (b_maps b ! m) sid = Some p \<longrightarrow>
           sub_taskID (b_subs b ! p) = t \<and> map_of (b_byStreamID b) sid = Some p))
   \<and> (\<forall>m < length (b_maps b). \<forall>m' < length (b_maps b). \<forall>sid.
        map_of (b_maps b ! m) sid \<noteq> None \<longrightarrow> map_of (b_maps b ! m') sid \<noteq> None \<longrightarrow> m = m')
   \<and> (\<forall>t t' m. map_of (b_byTaskID b) t = Some m \<longrightarrow> map_of (b_byTaskID b) t' = Some m \<longrightarrow> t = t')
   \<and> (\<forall>s \<in> set (b_subs b). length (sub_queue s) \<le> 16)"

lemma inv_stream:
  "broker_inv b \<Longrightarrow> map_of (b_byStreamID b) sid = Some p \<Longrightarrow>
     p < length (b_subs b) \<and> sub_streamID (b_subs b ! p) = sid \<and> \<not> sub_closed (b_subs b ! p)"
  unfolding broker_inv_def by blast

lemma inv_map:
  "broker_inv b \<Longrightarrow> m < length (b_maps b) \<Longrightarrow> map_of (b_maps b ! m) sid = Some p \<Longrightarrow>
     p < length (b_subs b) \<and> sub_streamID (b_subs b ! p) = sid"
  unfolding broker_inv_def by blast

lemma inv_map_distinct:
  "broker_inv b \<Longrightarrow> m < length (b_maps b) \<Longrightarrow> distinct (map fst (b_maps b ! m))"
  unfolding broker_inv_def by blast

lemma inv_task:
  "broker_inv b \<Longrightarrow> map_of (b_byTaskID b) t = Some m \<Longrightarrow> m < length (b_maps b)"
  unfolding broker_inv_def by blast

lemma inv_task_entry:
  "broker_inv b \<Longrightarrow> map_of (b_byTaskID b) t = Some m \<Longrightarrow> map_of (b_maps b ! m) sid = Some p \<Longrightarrow>
     sub_taskID (b_subs b ! p) = t \<and> map_of (b_byStreamID b) sid = Some p"
  unfolding broker_inv_def by blast

lemma inv_one_map:
  "broker_inv b \<Longrightarrow> m < length (b_maps b) \<Longrightarrow> m' < length (b_maps b) \<Longrightarrow>
     map_of (b_maps b ! m) sid = Some p \<Longrightarrow> map_of (b_maps b ! m') sid = Some p' \<Longrightarrow> m = m'"
  unfolding broker_inv_def by blast

lemma inv_one_task:
  "broker_inv b \<Longrightarrow> map_of (b_byTaskID b) t = Some m \<Longrightarrow> map_of (b_byTaskID b) t' = Some m \<Longrightarrow> t = t'"
  unfolding broker_inv_def by blast

lemma inv_queue:
  "broker_inv b \<Longrightarrow> p < length (b_subs b) \<Longrightarrow> length (sub_queue (b_subs b ! p)) \<le> 16"
  unfolding broker_inv_def by (meson nth_mem)

lemmas inv_facts = inv_stream inv_map inv_map_distinct inv_task inv_task_entry inv_one_map inv_one_task inv_queue

lemma inv_new: "broker_inv NewStreamBroker"
  by (simp add: broker_inv_def NewStreamBroker_def)

lemma fresh_unused:
  assumes "broker_inv b" "fresh_id b sid"
  shows "map_of (b_byStreamID b) sid = None"
    and "m < length (b_maps b) \<Longrightarrow> map_of (b_maps b ! m) sid = None"
proof -
  have no: "p < length (b_subs b) \<Longrightarrow> sub_streamID (b_subs b ! p) \<noteq> sid" for p
    using assms(2) unfolding fresh_id_def by (metis image_eqI nth_mem)
  show "map_of (b_byStreamID b) sid = None"
    using inv_stream [OF assms(1), of sid] no by (cases "map_of (b_byStreamID b) sid") auto
  show "m < length (b_maps b) \<Longrightarrow> map_of (b_maps b ! m) sid = None"
    using inv_map [OF assms(1), of m sid] no by (cases "map_of (b_maps b ! m) sid") auto
qed

lemma broker_invI:
  assumes "\<And>sid p. map_of (b_byStreamID b) sid = Some p \<Longrightarrow>
      p < length (b_subs b) \<and> sub_streamID (b_subs b ! p) = sid \<and> \<not> sub_closed (b_subs b ! p)"
    and "\<And>m. m < length (b_maps b) \<Longrightarrow> distinct (map fst (b_maps b ! m))"
    and "\<And>m sid p. m < length (b_maps b) \<Longrightarrow> map_of (b_maps b ! m) sid = Some p \<Longrightarrow>
      p < length (b_subs b) \<and> sub_streamID (b_subs b ! p) = sid"
    and "\<And>t m. map_of (b_byTaskID b) t = Some m \<Longrightarrow> m < length (b_maps b)"
    and "\<And>t m sid p. map_of (b_byTaskID b) t = Some m \<Longrightarrow> map_of (b_maps b ! m) sid = Some p \<Longrightarrow>
      sub_taskID (b_subs b ! p) = t \<and> map_of (b_byStreamID b) sid = Some p"
    and "\<And>m m' sid p p'. m < length (b_maps b) \<Longrightarrow> m' < length (b_maps b) \<Longrightarrow>
      map_of (b_maps b ! m) sid = Some p \<Longrightarrow> map_of (b_maps b ! m') sid = Some p' \<Longrightarrow> m = m'"
    and "\<And>t t' m. map_of (b_byTaskID b) t = Some m \<Longrightarrow> map_of (b_byTaskID b) t' = Some m \<Longrightarrow> t = t'"
    and "\<And>p. p < length (b_subs b) \<Longrightarrow> length (sub_queue (b_subs b ! p)) \<le> 16"
  shows "broker_inv b"
  unfolding broker_inv_def
proof (intro conjI allI impI)
  show "\<forall>s\<in>set (b_subs b). length (sub_queue s) \<le> 16"
    using assms(8) by (metis in_set_conv_nth)
  fix m m' sid
  assume "m < length (b_maps b)" "m' < length (b_maps b)" "map_of (b_maps b ! m) sid \<noteq> None"
    "map_of (b_maps b ! m') sid \<noteq> None"
  then show "m = m'" using assms(6) by blast
qed (use assms in \<open>blast+\<close>)

text \<open>\<open>Subscribe\<close> is: make sure the task has a map, then attach the new subscription to it.\<close>

definition attach :: "broker \<Rightarrow> string \<Rightarrow> string \<Rightarrow> time \<Rightarrow> nat \<Rightarrow> broker" where
  "attach b taskID sid now m =
     b\<lparr>b_subs := b_subs b @ [\<lparr>sub_streamID = sid, sub_taskID = taskID, sub_queue = [],
                              sub_closed = False, sub_lastSent = now\<rparr>],
       b_byStreamID := AList.update sid (length (b_subs b)) (b_byStreamID b),
       b_maps := (b_maps b)[m := AList.update sid (length (b_subs b)) (b_maps b ! m)]\<rparr>"

definition with_task_map :: "broker \<Rightarrow> string \<Rightarrow> broker" where
  "with_task_map b t = (case map_of (b_byTaskID b) t of Some _ \<Rightarrow> b
     | None \<Rightarrow> b\<lparr>b_maps := b_maps b @ [[]],
               b_byTaskID := AList.update t (length (b_maps b)) (b_byTaskID b)\<rparr>)"

lemma Subscribe_attach:
  assumes "t \<noteq> []"
  shows "snd (Subscribe b t sid now) =
    attach (with_task_map b t) t sid now (the (map_of (b_byTaskID (with_task_map b t)) t))"
  using assms by (cases "map_of (b_byTaskID b) t")
    (simp_all add: Subscribe_def attach_def with_task_map_def Let_def)

lemma with_task_map_simps [simp]:
  "b_subs (with_task_map b t) = b_subs b" "b_byStreamID (with_task_map b t) = b_byStreamID b"
  "fresh_id (with_task_map b t) sid = fresh_id b sid"
  "\<exists>m. map_of (b_byTaskID (with_task_map b t)) t = Some m"
  by (auto simp: with_task_map_def fresh_id_def split: option.splits)

lemma with_task_map_inv:
  assumes inv: "broker_inv b" shows "broker_inv (with_task_map b t)"
proof (cases "map_of (b_byTaskID b) t")
  case None
  have nth: "(b_maps b @ [[]]) ! m = (if m < length (b_maps b) then b_maps b ! m else [])"
    if "m < Suc (length (b_maps b))" for m
    using that by (auto simp: nth_append)
  have S: "b_byStreamID (with_task_map b t) = b_byStreamID b"
    and T: "map_of (b_byTaskID (with_task_map b t)) = (map_of (b_byTaskID b))(t \<mapsto> length (b_maps b))"
    and M: "b_maps (with_task_map b t) = b_maps b @ [[]]"
    and H: "b_subs (with_task_map b t) = b_subs b"
    using None by (simp_all add: with_task_map_def)
  show ?thesis
  proof (rule broker_invI, goal_cases)
    case (1 sid p)
    then show ?case using inv_stream [OF inv, of sid p] by (simp add: S H)
  next
    case (2 m)
    then show ?case using inv_map_distinct [OF inv] by (simp add: M nth)
  next
    case (3 m sid p)
    then show ?case using inv_map [OF inv, of m sid p] by (simp add: M H nth split: if_splits)
  next
    case (4 t' m)
    then show ?case using inv_task [OF inv, of t' m] by (auto simp: T M split: if_splits)
  next
    case (5 t' m sid p)
    then show ?case using inv_task [OF inv, of t' m] inv_task_entry [OF inv, of t' m sid p]
      by (auto simp: T M S H nth split: if_splits)
  next
    case (6 m m' sid p p')
    then show ?case using inv_one_map [OF inv, of m m' sid p p'] by (simp add: M nth split: if_splits)
  next
    case (7 t' t'' m)
    then show ?case using inv_task [OF inv, of t' m] inv_task [OF inv, of t'' m]
      inv_one_task [OF inv, of t' m t''] by (auto simp: T split: if_splits)
  next
    case (8 p)
    then show ?case using inv_queue [OF inv, of p] by (simp add: H)
  qed
next
  case (Some m)
  then show ?thesis using assms by (simp add: with_task_map_def)
qed

lemma attach_nth:
  "p < Suc (length (b_subs b)) \<Longrightarrow> b_subs (attach b t sid now m) ! p =
     (if p < length (b_subs b) then b_subs b ! p
      else \<lparr>sub_streamID = sid, sub_taskID = t, sub_queue = [], sub_closed = False,
             sub_lastSent = now\<rparr>)"
  by (auto simp: attach_def nth_append)

lemma attach_map:
  "k < length (b_maps b) \<Longrightarrow> b_maps (attach b t sid now m) ! k =
     (if k = m then AList.update sid (length (b_subs b)) (b_maps b ! m) else b_maps b ! k)"
  by (auto simp: attach_def)

lemma attach_simps [simp]:
  "length (b_subs (attach b t sid now m)) = Suc (length (b_subs b))"
  "length (b_maps (attach b t sid now m)) = length (b_maps b)"
  "b_byTaskID (attach b t sid now m) = b_byTaskID b"
  "map_of (b_byStreamID (attach b t sid now m)) =
     (map_of (b_byStreamID b))(sid \<mapsto> length (b_subs b))"
  by (simp_all add: attach_def)

lemma attach_inv:
  assumes inv: "broker_inv b" and fresh: "fresh_id b sid" and m: "map_of (b_byTaskID b) t = Some m"
  shows "broker_inv (attach b t sid now m)"
proof -
  note [simp] = fresh_unused [OF inv fresh] attach_nth attach_map
  have [simp]: "m < length (b_maps b)" using inv_task [OF inv m] .
  show ?thesis
  proof (rule broker_invI, goal_cases)
    case (1 sid' p)
    then show ?case using inv_stream [OF inv, of sid' p] by (auto split: if_splits)
  next
    case (2 k)
    then show ?case using inv_map_distinct [OF inv] by (auto simp: distinct_update)
  next
    case (3 k sid' p)
    then show ?case using inv_map [OF inv, of k sid' p] by (auto split: if_splits)
  next
    case (4 t' k)
    then show ?case using inv_task [OF inv, of t'] by auto
  next
    case (5 t' k sid' p)
    show ?case
    proof (cases "k = m \<and> sid' = sid")
      case True
      then show ?thesis using 5 inv_one_task [OF inv m, of t'] by simp
    next
      case False
      moreover have k: "k < length (b_maps b)" using 5 inv_task [OF inv, of t' k] by simp
      ultimately have "map_of (b_maps b ! k) sid' = Some p" using 5 by (auto split: if_splits)
      moreover from this k have "sid' \<noteq> sid" using fresh_unused(2) [OF inv fresh] by auto
      ultimately show ?thesis
        using 5 inv_task_entry [OF inv, of t' k sid' p] inv_map [OF inv k, of sid' p] by simp
    qed
  next
    case (6 k k' sid' p p')
    then show ?case using inv_one_map [OF inv, of k k' sid' p p'] by (auto split: if_splits)
  next
    case (7 t' t'' k)
    then show ?case using inv_one_task [OF inv, of t' k t''] by simp
  next
    case (8 p)
    then show ?case using inv_queue [OF inv, of p] by (auto split: if_splits)
  qed
qed

lemma Subscribe_inv:
  assumes "broker_inv b" "fresh_id b sid" shows "broker_inv (snd (Subscribe b t sid now))"
proof (cases "t = []")
  case True
  then show ?thesis using assms by (simp add: Subscribe_def)
next
  case False
  obtain m where "map_of (b_byTaskID (with_task_map b t)) t = Some m"
    using with_task_map_simps(4) by blast
  then show ?thesis
    using attach_inv [OF with_task_map_inv [OF assms(1), of t], of sid t m] assms(2)
    by (simp add: Subscribe_attach [OF False])
qed

text \<open>Changes that touch only queues and \<open>lastSent\<close>.\<close>

definition same_subs :: "subscription list \<Rightarrow> subscription list \<Rightarrow> bool" where
  "same_subs h h' \<longleftrightarrow> length h' = length h \<and> (\<forall>p < length h.
     sub_streamID (h' ! p) = sub_streamID (h ! p) \<and> sub_taskID (h' ! p) = sub_taskID (h ! p) \<and>
     sub_closed (h' ! p) = sub_closed (h ! p))"

lemma same_subs_refl: "same_subs h h"
  by (simp add: same_subs_def)

lemma same_subs_trans: "same_subs h h' \<Longrightarrow> same_subs h' h'' \<Longrightarrow> same_subs h h''"
  by (auto simp: same_subs_def)

lemma queue_change_inv:
  assumes inv: "broker_inv b" and "same_subs (b_subs b) h"
    and "\<And>p. p < length h \<Longrightarrow> length (sub_queue (h ! p)) \<le> 16"
  shows "broker_inv (b\<lparr>b_subs := h\<rparr>)"
proof (rule broker_invI, goal_cases)
  case (5 t m sid p)
  then show ?case using assms inv_task_entry [OF inv, of t m sid p]
    inv_map [OF inv inv_task [OF inv], of t m sid p] by (auto simp: same_subs_def)
qed (use assms inv_facts [OF inv] in \<open>auto simp: same_subs_def\<close>)

definition receives :: "stream_event \<Rightarrow> time \<Rightarrow> subscription \<Rightarrow> subscription" where
  "receives ev now s =
     (if length (sub_queue s) < 16 then s\<lparr>sub_queue := sub_queue s @ [ev], sub_lastSent := now\<rparr> else s)"

lemma receives_simps [simp]:
  "sub_streamID (receives ev now s) = sub_streamID s"
  "sub_taskID (receives ev now s) = sub_taskID s"
  "sub_closed (receives ev now s) = sub_closed s"
  by (simp_all add: receives_def)

text \<open>Sending to distinct open subscriptions reaches each that has room and no other.\<close>

lemma send_all_open:
  assumes "distinct ps" "\<And>p. p \<in> set ps \<Longrightarrow> p < length h \<and> \<not> sub_closed (h ! p)"
  shows "\<exists>h'. send_all ev now ps h =
      Some (length (filter (\<lambda>p. length (sub_queue (h ! p)) < 16) ps), h')
    \<and> length h' = length h
    \<and> (\<forall>p < length h. h' ! p = (if p \<in> set ps then receives ev now (h ! p) else h ! p))"
  using assms
proof (induction ps arbitrary: h)
  case Nil
  then show ?case by simp
next
  case (Cons p ps)
  define h1 where "h1 = h[p := receives ev now (h ! p)]"
  have pre: "p < length h" "\<not> sub_closed (h ! p)" "p \<notin> set ps" using Cons.prems by auto
  have nth: "q < length h \<Longrightarrow> h1 ! q = (if q = p then receives ev now (h ! p) else h ! q)" for q
    by (simp add: h1_def nth_list_update)
  have len: "length h1 = length h" by (simp add: h1_def)
  have unfold: "send_all ev now (p # ps) h =
      map_option (\<lambda>(n, h'). ((if length (sub_queue (h ! p)) < 16 then Suc n else n), h'))
        (send_all ev now ps h1)"
    using pre(2) by (auto simp: h1_def receives_def case_prod_beta option.map_ident id_def)
  have "q \<in> set ps \<Longrightarrow> q < length h1 \<and> \<not> sub_closed (h1 ! q)" for q
    using Cons.prems(2) [of q] nth [of q] pre by (auto simp: len)
  then obtain h' where h': "send_all ev now ps h1 =
        Some (length (filter (\<lambda>p. length (sub_queue (h1 ! p)) < 16) ps), h')"
      "length h' = length h1"
      "\<forall>q < length h1. h' ! q = (if q \<in> set ps then receives ev now (h1 ! q) else h1 ! q)"
    using Cons.IH [of h1] Cons.prems(1) by auto
  have "filter (\<lambda>p. length (sub_queue (h1 ! p)) < 16) ps =
      filter (\<lambda>p. length (sub_queue (h ! p)) < 16) ps"
    using pre(3) Cons.prems(2) nth by (intro filter_cong) auto
  then show ?case unfolding unfold h'(1) using h'(2,3) pre nth by (auto simp: len)
qed

lemma entry_facts:
  assumes inv: "broker_inv b" and m: "m < length (b_maps b)"
  shows "distinct (map snd (b_maps b ! m))"
    and "(sid, p) \<in> set (b_maps b ! m) \<longleftrightarrow> map_of (b_maps b ! m) sid = Some p"
proof -
  have d: "distinct (map fst (b_maps b ! m))" using inv_map_distinct [OF inv m] .
  show iff: "(sid, p) \<in> set (b_maps b ! m) \<longleftrightarrow> map_of (b_maps b ! m) sid = Some p" for sid p
    using d by (metis map_of_eq_Some_iff)
  have "map fst (b_maps b ! m) = map (\<lambda>p. sub_streamID (b_subs b ! p)) (map snd (b_maps b ! m))"
    using inv_map [OF inv m] iff by auto
  then show "distinct (map snd (b_maps b ! m))" using d by (metis distinct_map)
qed

lemma publish_send_Some:
  assumes inv: "broker_inv b" and t: "map_of (b_byTaskID b) t = Some m"
  shows "\<exists>h'. publish_send b t ev now =
      Some (length (filter (\<lambda>p. length (sub_queue (b_subs b ! p)) < 16) (map snd (b_maps b ! m))),
        Some m, b\<lparr>b_subs := h'\<rparr>)
    \<and> length h' = length (b_subs b)
    \<and> (\<forall>p < length (b_subs b). h' ! p =
         (if p \<in> snd ` set (b_maps b ! m) then receives ev now (b_subs b ! p) else b_subs b ! p))"
proof -
  have m: "m < length (b_maps b)" using inv_task [OF inv t] .
  have "p < length (b_subs b) \<and> \<not> sub_closed (b_subs b ! p)"
    if "p \<in> set (map snd (b_maps b ! m))" for p
  proof -
    obtain sid where "map_of (b_maps b ! m) sid = Some p"
      using \<open>p \<in> set (map snd (b_maps b ! m))\<close> entry_facts(2) [OF inv m] by auto
    then show ?thesis using inv_task_entry [OF inv t] inv_stream [OF inv] by blast
  qed
  from send_all_open [OF entry_facts(1) [OF inv m] this, of ev now]
  obtain h' where "send_all ev now (map snd (b_maps b ! m)) (b_subs b) =
      Some (length (filter (\<lambda>p. length (sub_queue (b_subs b ! p)) < 16) (map snd (b_maps b ! m))), h')"
    "length h' = length (b_subs b)"
    "\<forall>p < length (b_subs b). h' ! p =
      (if p \<in> set (map snd (b_maps b ! m)) then receives ev now (b_subs b ! p) else b_subs b ! p)"
    by blast
  then show ?thesis using t by (intro exI [of _ h']) (simp add: publish_send_def)
qed

lemma receives_room: "length (sub_queue s) \<le> 16 \<Longrightarrow> length (sub_queue (receives ev now s)) \<le> 16"
  by (simp add: receives_def)

lemma publish_send_inv:
  assumes inv: "broker_inv b" and "publish_send b t ev now = Some (n, r, b')"
  shows "broker_inv b' \<and> (\<forall>m. r = Some m \<longrightarrow> m < length (b_maps b'))"
proof (cases "map_of (b_byTaskID b) t")
  case None
  then show ?thesis using assms by (simp add: publish_send_def)
next
  case (Some m)
  obtain h' where h': "publish_send b t ev now = Some (length (filter (\<lambda>p.
        length (sub_queue (b_subs b ! p)) < 16) (map snd (b_maps b ! m))), Some m, b\<lparr>b_subs := h'\<rparr>)"
      "length h' = length (b_subs b)"
      "\<forall>p < length (b_subs b). h' ! p =
         (if p \<in> snd ` set (b_maps b ! m) then receives ev now (b_subs b ! p) else b_subs b ! p)"
    using publish_send_Some [OF inv Some] by blast
  have "broker_inv (b\<lparr>b_subs := h'\<rparr>)"
    by (rule queue_change_inv [OF inv])
      (use h' inv_queue [OF inv] receives_room in \<open>auto simp: same_subs_def\<close>)
  then show ?thesis using assms(2) h'(1) inv_task [OF inv Some] by auto
qed

text \<open>One iteration of the reaping loop.\<close>

definition reap_one :: "nat \<Rightarrow> string \<Rightarrow> nat \<Rightarrow> broker \<Rightarrow> broker" where
  "reap_one m sid p b =
     b\<lparr>b_subs := (b_subs b)[p := (b_subs b ! p)\<lparr>sub_closed := True\<rparr>],
       b_byStreamID := AList.delete sid (b_byStreamID b),
       b_maps := (b_maps b)[m := AList.delete sid (b_maps b ! m)]\<rparr>"

lemma reap_one_inv:
  assumes inv: "broker_inv b" and m: "m < length (b_maps b)"
    and e: "map_of (b_maps b ! m) sid = Some p"
  shows "broker_inv (reap_one m sid p b)"
proof -
  have p: "p < length (b_subs b)" "sub_streamID (b_subs b ! p) = sid" using inv_map [OF inv m e] by auto
  have subs: "sub_streamID (b_subs (reap_one m sid p b) ! q) = sub_streamID (b_subs b ! q)"
    "sub_taskID (b_subs (reap_one m sid p b) ! q) = sub_taskID (b_subs b ! q)"
    "sub_queue (b_subs (reap_one m sid p b) ! q) = sub_queue (b_subs b ! q)"
    "q \<noteq> p \<Longrightarrow> sub_closed (b_subs (reap_one m sid p b) ! q) = sub_closed (b_subs b ! q)"
    if "q < length (b_subs b)" for q
    using that p by (simp_all add: reap_one_def nth_list_update)
  have maps: "map_of (b_maps (reap_one m sid p b) ! k) s =
      (if k = m \<and> s = sid then None else map_of (b_maps b ! k) s)" if "k < length (b_maps b)" for k s
    using that m by (auto simp: reap_one_def nth_list_update)
  have len [simp]: "length (b_subs (reap_one m sid p b)) = length (b_subs b)"
    "length (b_maps (reap_one m sid p b)) = length (b_maps b)"
    "b_byTaskID (reap_one m sid p b) = b_byTaskID b"
    "map_of (b_byStreamID (reap_one m sid p b)) = (map_of (b_byStreamID b))(sid := None)"
    by (simp_all add: reap_one_def)
  show ?thesis
  proof (rule broker_invI, goal_cases)
    case (1 s q)
    then have "map_of (b_byStreamID b) s = Some q" "s \<noteq> sid" by (auto split: if_splits)
    moreover from this have "q \<noteq> p" using inv_stream [OF inv, of s q] p by auto
    ultimately show ?case using inv_stream [OF inv, of s q] subs [of q] by simp
  next
    case (2 k)
    then show ?case using inv_map_distinct [OF inv, of k]
      by (cases "k = m") (simp_all add: reap_one_def distinct_delete)
  next
    case (3 k s q)
    then show ?case using inv_map [OF inv, of k s q] maps [of k s] subs [of q] by (auto split: if_splits)
  next
    case (4 t k)
    then show ?case using inv_task [OF inv] by simp
  next
    case (5 t k s q)
    then have k: "k < length (b_maps b)" and t: "map_of (b_byTaskID b) t = Some k"
      using inv_task [OF inv] by auto
    with 5 have s: "map_of (b_maps b ! k) s = Some q" "\<not> (k = m \<and> s = sid)"
      using maps [OF k] by (auto split: if_splits)
    then have "s \<noteq> sid" using inv_one_map [OF inv k m _ e] by auto
    then show ?case using inv_task_entry [OF inv t s(1)] inv_map [OF inv k s(1)] subs by simp
  next
    case (6 k k' s q q')
    then show ?case using inv_one_map [OF inv, of k k' s q q'] maps by (auto split: if_splits)
  next
    case (7 t t' k)
    then show ?case using inv_one_task [OF inv] by simp
  next
    case (8 q)
    then show ?case using inv_queue [OF inv] subs by simp
  qed
qed

lemma reap_all_step:
  "reap_all m ((sid, p) # rest) b =
     (if sub_closed (b_subs b ! p) then None else reap_all m rest (reap_one m sid p b))"
  by (simp add: reap_one_def)

lemma reap_one_rest:
  assumes "broker_inv b" "m < length (b_maps b)" "b_maps b ! m = (sid, p) # rest"
  shows "b_maps (reap_one m sid p b) ! m = rest" "length (b_maps (reap_one m sid p b)) = length (b_maps b)"
    "b_byTaskID (reap_one m sid p b) = b_byTaskID b"
  using assms inv_map_distinct [OF assms(1,2)]
  by (auto simp: reap_one_def AList.delete_eq filter_id_conv image_iff split: if_splits)

lemma reap_all_inv:
  assumes "broker_inv b" "m < length (b_maps b)" "reap_all m (b_maps b ! m) b = Some b'"
  shows "broker_inv b' \<and> b_maps b' ! m = [] \<and> length (b_maps b') = length (b_maps b)
    \<and> b_byTaskID b' = b_byTaskID b"
  using assms
proof (induction "b_maps b ! m" arbitrary: b)
  case Nil
  then show ?case by auto
next
  case (Cons e rest)
  obtain sid p where e: "e = (sid, p)" by (cases e)
  note row = Cons.hyps(2) [unfolded e, symmetric]
  note r = reap_one_rest [OF Cons.prems(1,2) row]
  have "map_of (b_maps b ! m) sid = Some p" by (simp add: row)
  then have "broker_inv (reap_one m sid p b)" using reap_one_inv Cons.prems(1,2) by blast
  moreover have "reap_all m rest (reap_one m sid p b) = Some b'"
    using Cons.prems(3) unfolding row reap_all_step by (simp split: if_splits)
  ultimately show ?case
    using Cons.hyps(1) [of "reap_one m sid p b"] Cons.prems(2) r by simp
qed

lemma delete_task_inv:
  assumes inv: "broker_inv b" shows "broker_inv (b\<lparr>b_byTaskID := AList.delete t (b_byTaskID b)\<rparr>)"
proof (rule broker_invI, goal_cases)
  case (4 t' m)
  then show ?case using inv_task [OF inv, of t' m] by (simp split: if_splits)
next
  case (5 t' m sid p)
  then show ?case using inv_task_entry [OF inv, of t' m sid p] by (simp split: if_splits)
next
  case (7 t' t'' m)
  then show ?case using inv_one_task [OF inv, of t' m t''] by (simp split: if_splits)
next
  case (1 sid p)
  then show ?case using inv_stream [OF inv, of sid p] by simp
next
  case (2 m)
  then show ?case using inv_map_distinct [OF inv, of m] by simp
next
  case (3 m sid p)
  then show ?case using inv_map [OF inv, of m sid p] by simp
next
  case (6 m m' sid p p')
  then show ?case using inv_one_map [OF inv, of m m' sid p p'] by simp
next
  case (8 p)
  then show ?case using inv_queue [OF inv, of p] by simp
qed

lemma publish_reap_inv:
  assumes "broker_inv b" "m < length (b_maps b)" "publish_reap b t m = Some b'"
  shows "broker_inv b' \<and> length (b_maps b') = length (b_maps b)"
proof -
  obtain b1 where b1: "reap_all m (b_maps b ! m) b = Some b1"
    using assms(3) by (auto simp: publish_reap_def split: option.splits)
  note r = reap_all_inv [OF assms(1,2) b1]
  then have "b' = b1\<lparr>b_byTaskID := AList.delete t (b_byTaskID b1)\<rparr>"
    using assms(3) by (simp add: publish_reap_def b1)
  then show ?thesis using r delete_task_inv [of b1 t] by simp
qed

definition close_stream :: "string \<Rightarrow> nat \<Rightarrow> broker \<Rightarrow> broker" where
  "close_stream sid p b =
     b\<lparr>b_subs := (b_subs b)[p := (b_subs b ! p)\<lparr>sub_closed := True\<rparr>],
       b_byStreamID := AList.delete sid (b_byStreamID b)\<rparr>"

lemma close_stream_inv:
  assumes inv: "broker_inv b" and p: "map_of (b_byStreamID b) sid = Some p"
    and orphan: "\<And>m. map_of (b_byTaskID b) (sub_taskID (b_subs b ! p)) = Some m
      \<Longrightarrow> map_of (b_maps b ! m) sid = None"
  shows "broker_inv (close_stream sid p b)"
proof -
  note pp = inv_stream [OF inv p]
  have subs: "sub_streamID (b_subs (close_stream sid p b) ! q) = sub_streamID (b_subs b ! q)"
    "sub_taskID (b_subs (close_stream sid p b) ! q) = sub_taskID (b_subs b ! q)"
    "sub_queue (b_subs (close_stream sid p b) ! q) = sub_queue (b_subs b ! q)"
    "q \<noteq> p \<Longrightarrow> sub_closed (b_subs (close_stream sid p b) ! q) = sub_closed (b_subs b ! q)"
    if "q < length (b_subs b)" for q
    using that pp by (simp_all add: close_stream_def nth_list_update)
  have len [simp]: "length (b_subs (close_stream sid p b)) = length (b_subs b)"
    "b_maps (close_stream sid p b) = b_maps b" "b_byTaskID (close_stream sid p b) = b_byTaskID b"
    "map_of (b_byStreamID (close_stream sid p b)) = (map_of (b_byStreamID b))(sid := None)"
    by (simp_all add: close_stream_def)
  show ?thesis
  proof (rule broker_invI, goal_cases)
    case (1 s q)
    then have "map_of (b_byStreamID b) s = Some q" "s \<noteq> sid" by (auto split: if_splits)
    moreover from this have "q \<noteq> p" using inv_stream [OF inv, of s q] pp by auto
    ultimately show ?case using inv_stream [OF inv, of s q] subs [of q] by simp
  next
    case (3 m s q)
    then show ?case using inv_map [OF inv, of m s q] subs [of q] by simp
  next
    case (5 t m s q)
    then have q: "map_of (b_byTaskID b) t = Some m" "map_of (b_maps b ! m) s = Some q" by simp_all
    note e = inv_task_entry [OF inv q]
    have "s \<noteq> sid" using e p q orphan [of m] by auto
    then show ?case using e inv_map [OF inv inv_task [OF inv q(1)] q(2)] subs by simp
  next
    case (8 q)
    then show ?case using inv_queue [OF inv] subs by simp
  next
    case (2 m)
    then show ?case using inv_map_distinct [OF inv, of m] by simp
  next
    case (4 t m)
    then show ?case using inv_task [OF inv, of t m] by simp
  next
    case (6 m m' s q q')
    then show ?case using inv_one_map [OF inv, of m m' s q q'] by simp
  next
    case (7 t t' m)
    then show ?case using inv_one_task [OF inv, of t m t'] by simp
  qed
qed

lemma delete_absent [simp]: "map_of xs k = None \<Longrightarrow> AList.delete k xs = xs"
  by (rule delete_id) (simp add: map_of_eq_None_iff)

lemma stream_cleanup_unfold:
  assumes inv: "broker_inv b" and p: "map_of (b_byStreamID b) sid = Some p"
  shows "stream_cleanup b sid =
     (case map_of (b_byTaskID b) (sub_taskID (b_subs b ! p)) of
        None \<Rightarrow> close_stream sid p b
      | Some m \<Rightarrow>
          let b' = (if map_of (b_maps b ! m) sid = None then close_stream sid p b
                    else reap_one m sid p b)
          in if b_maps b' ! m = []
             then b'\<lparr>b_byTaskID := AList.delete (sub_taskID (b_subs b ! p)) (b_byTaskID b')\<rparr>
             else b')"
proof (cases "map_of (b_byTaskID b) (sub_taskID (b_subs b ! p))")
  case None
  then show ?thesis by (simp add: stream_cleanup_def p close_stream_def)
next
  case (Some m)
  have "b_maps b ! m = [] \<Longrightarrow> (b_maps b)[m := []] = b_maps b" by (metis list_update_id)
  then show ?thesis using Some inv_task [OF inv Some]
    by (simp add: stream_cleanup_def p close_stream_def reap_one_def Let_def)
qed

lemma cleanup_inv:
  assumes inv: "broker_inv b" shows "broker_inv (stream_cleanup b sid)"
proof (cases "map_of (b_byStreamID b) sid")
  case None
  then show ?thesis using inv by (simp add: stream_cleanup_def)
next
  case (Some p)
  show ?thesis
  proof (cases "map_of (b_byTaskID b) (sub_taskID (b_subs b ! p))")
    case None
    then show ?thesis using close_stream_inv [OF inv Some] stream_cleanup_unfold [OF inv Some] by simp
  next
    case (Some m)
    define b' where "b' = (if map_of (b_maps b ! m) sid = None then close_stream sid p b
        else reap_one m sid p b)"
    have "broker_inv b'"
    proof (cases "map_of (b_maps b ! m) sid")
      case None
      then show ?thesis
        using close_stream_inv [OF inv \<open>map_of (b_byStreamID b) sid = Some p\<close>] Some by (simp add: b'_def)
    next
      case q: (Some q)
      then have "q = p" using inv_task_entry [OF inv Some q] \<open>map_of (b_byStreamID b) sid = Some p\<close> by simp
      then show ?thesis using reap_one_inv [OF inv inv_task [OF inv Some]] q by (simp add: b'_def)
    qed
    then show ?thesis
      using stream_cleanup_unfold [OF inv \<open>map_of (b_byStreamID b) sid = Some p\<close>] Some delete_task_inv
      by (simp add: b'_def [symmetric] Let_def)
  qed
qed

lemma receive_inv:
  assumes inv: "broker_inv b" and "p < length (b_subs b)" shows "broker_inv (snd (sub_receive b p))"
proof (cases "sub_queue (b_subs b ! p)")
  case Nil
  then show ?thesis using inv by (simp add: sub_receive_def)
next
  case (Cons ev rest)
  have "broker_inv (b\<lparr>b_subs := (b_subs b)[p := (b_subs b ! p)\<lparr>sub_queue := rest\<rparr>]\<rparr>)"
  proof (rule queue_change_inv [OF inv])
    show "same_subs (b_subs b) ((b_subs b)[p := (b_subs b ! p)\<lparr>sub_queue := rest\<rparr>])"
      using assms(2) by (simp add: same_subs_def nth_list_update)
    show "length (sub_queue ((b_subs b)[p := (b_subs b ! p)\<lparr>sub_queue := rest\<rparr>] ! q)) \<le> 16"
      if "q < length ((b_subs b)[p := (b_subs b ! p)\<lparr>sub_queue := rest\<rparr>])" for q
      using that inv_queue [OF inv, of q] inv_queue [OF inv assms(2)] Cons assms(2)
      by (simp add: nth_list_update)
  qed
  then show ?thesis using Cons by (simp add: sub_receive_def)
qed

definition world_inv :: "world \<Rightarrow> bool" where
  "world_inv w \<longleftrightarrow> broker_inv (w_broker w)
     \<and> (\<forall>(t, m) \<in> set (w_pending w). m < length (b_maps (w_broker w)))"

lemma maps_grow:
  "length (b_maps b) \<le> length (b_maps (snd (Subscribe b t sid now)))"
  "length (b_maps (stream_cleanup b sid)) = length (b_maps b)"
  "length (b_maps (snd (sub_receive b p))) = length (b_maps b)"
  by (auto simp: Subscribe_def stream_cleanup_def sub_receive_def Let_def split: option.splits list.splits)

lemma publish_send_maps:
  "publish_send b t ev now = Some (n, r, b') \<Longrightarrow> b_maps b' = b_maps b"
  by (auto simp: publish_send_def split: option.splits)

lemma exec_inv:
  assumes inv: "world_inv w" and en: "op_enabled w x" and ex: "broker_exec x w = Some w'"
  shows "world_inv w'"
proof (cases x)
  case (OpSubscribe t sid now)
  then show ?thesis
    using assms Subscribe_inv [of "w_broker w" sid t now] maps_grow(1) [of "w_broker w" t sid now]
    by (fastforce simp: world_inv_def op_enabled_def broker_exec_def Let_def)
next
  case (OpSend t ev now)
  then obtain n r b' where send: "publish_send (w_broker w) t ev now = Some (n, r, b')"
    using ex by (auto simp: broker_exec_def Let_def split: option.splits)
  show ?thesis
    using ex OpSend send inv publish_send_inv [OF _ send] publish_send_maps [OF send]
    by (auto simp: world_inv_def broker_exec_def split: option.splits if_splits)
next
  case (OpReap i)
  obtain t m where tm: "w_pending w ! i = (t, m)" by (cases "w_pending w ! i")
  have i: "i < length (w_pending w)" using en OpReap by (simp add: op_enabled_def)
  then have "m < length (b_maps (w_broker w))"
    using inv tm nth_mem [OF i] by (fastforce simp: world_inv_def)
  moreover obtain b' where b': "publish_reap (w_broker w) t m = Some b'"
    and w': "w' = w\<lparr>w_broker := b', w_pending := take i (w_pending w) @ drop (Suc i) (w_pending w)\<rparr>"
    using ex OpReap tm by (auto simp: broker_exec_def)
  ultimately show ?thesis
    using inv publish_reap_inv [of "w_broker w" m t b'] set_take_subset [of i "w_pending w"]
      set_drop_subset [of "Suc i" "w_pending w"]
    by (auto simp: world_inv_def w')
next
  case (OpCleanup sid)
  then show ?thesis
    using inv ex cleanup_inv [of "w_broker w" sid] maps_grow(2) [of "w_broker w" sid]
    by (auto simp: world_inv_def broker_exec_def)
next
  case (OpReceive p)
  then show ?thesis
    using assms receive_inv [of "w_broker w" p] maps_grow(3) [of "w_broker w" p]
    by (auto simp: world_inv_def op_enabled_def broker_exec_def)
qed

lemma reach_inv: "broker_reach w \<Longrightarrow> world_inv w"
proof (induction rule: broker_reach.induct)
  case start
  show ?case by (simp add: world_inv_def world_init_def inv_new)
next
  case (step w x w')
  then show ?case using exec_inv by blast
qed

lemma publish_send_total:
  assumes "broker_inv b" shows "publish_send b t ev now \<noteq> None"
proof (cases "map_of (b_byTaskID b) t")
  case None
  then show ?thesis by (simp add: publish_send_def)
next
  case (Some m)
  then show ?thesis using publish_send_Some [OF assms Some, of ev now] by fastforce
qed

section \<open>Sequential use\<close>

definition seq_inv :: "broker \<Rightarrow> bool" where
  "seq_inv b \<longleftrightarrow> broker_inv b \<and> (\<forall>sid p. map_of (b_byStreamID b) sid = Some p \<longrightarrow>
     (\<exists>m. map_of (b_byTaskID b) (sub_taskID (b_subs b ! p)) = Some m \<and>
        map_of (b_maps b ! m) sid = Some p))"

lemma seq_inv_D: "seq_inv b \<Longrightarrow> broker_inv b"
  by (simp add: seq_inv_def)

lemma seq_entry:
  "seq_inv b \<Longrightarrow> map_of (b_byStreamID b) sid = Some p \<Longrightarrow>
     \<exists>m. map_of (b_byTaskID b) (sub_taskID (b_subs b ! p)) = Some m \<and> map_of (b_maps b ! m) sid = Some p"
  by (simp add: seq_inv_def)

text \<open>In sequential use the task's map holds exactly the live subscriptions of the task.\<close>

lemma task_map_iff:
  assumes "seq_inv b" "map_of (b_byTaskID b) t = Some m"
  shows "map_of (b_maps b ! m) sid = Some p \<longleftrightarrow>
     map_of (b_byStreamID b) sid = Some p \<and> sub_taskID (b_subs b ! p) = t"
  using seq_entry [OF assms(1), of sid p] inv_task_entry [OF seq_inv_D [OF assms(1)] assms(2), of sid p]
    assms(2) by auto

lemma no_task_no_sub:
  "seq_inv b \<Longrightarrow> map_of (b_byTaskID b) t = None \<Longrightarrow> map_of (b_byStreamID b) sid = Some p \<Longrightarrow>
     sub_taskID (b_subs b ! p) \<noteq> t"
  using seq_entry by fastforce

lemma reap_all_done:
  assumes "broker_inv b" "map_of (b_byTaskID b) t = Some m"
  shows "\<exists>b'. reap_all m (b_maps b ! m) b = Some b'
    \<and> (\<forall>sid. map_of (b_byStreamID b') sid =
          (if map_of (b_maps b ! m) sid = None then map_of (b_byStreamID b) sid else None))
    \<and> (\<forall>k < length (b_maps b). k \<noteq> m \<longrightarrow> b_maps b' ! k = b_maps b ! k)
    \<and> length (b_subs b') = length (b_subs b)
    \<and> (\<forall>p < length (b_subs b). sub_taskID (b_subs b' ! p) = sub_taskID (b_subs b ! p)
          \<and> sub_streamID (b_subs b' ! p) = sub_streamID (b_subs b ! p)
          \<and> sub_queue (b_subs b' ! p) = sub_queue (b_subs b ! p))"
  using assms
proof (induction "b_maps b ! m" arbitrary: b)
  case Nil
  then show ?case by (intro exI [of _ b]) simp
next
  case (Cons e rest)
  obtain sid p where e: "e = (sid, p)" by (cases e)
  note row = Cons.hyps(2) [unfolded e, symmetric]
  have m: "m < length (b_maps b)" using inv_task [OF Cons.prems] .
  have ent: "map_of (b_maps b ! m) sid = Some p" by (simp add: row)
  have p: "p < length (b_subs b)" using inv_map [OF Cons.prems(1) m ent] by simp
  have "\<not> sub_closed (b_subs b ! p)"
    using inv_task_entry [OF Cons.prems ent] inv_stream [OF Cons.prems(1)] by blast
  then have unfold: "reap_all m (b_maps b ! m) b = reap_all m rest (reap_one m sid p b)"
    unfolding row reap_all_step by simp
  define b1 where "b1 = reap_one m sid p b"
  note r = reap_one_rest [OF Cons.prems(1) m row, folded b1_def]
  have inv1: "broker_inv b1" unfolding b1_def using reap_one_inv Cons.prems(1) m ent by blast
  obtain b' where b': "reap_all m rest b1 = Some b'"
      "\<forall>s. map_of (b_byStreamID b') s =
          (if map_of rest s = None then map_of (b_byStreamID b1) s else None)"
      "\<forall>k < length (b_maps b1). k \<noteq> m \<longrightarrow> b_maps b' ! k = b_maps b1 ! k"
      "length (b_subs b') = length (b_subs b1)"
      "\<forall>p < length (b_subs b1). sub_taskID (b_subs b' ! p) = sub_taskID (b_subs b1 ! p)
          \<and> sub_streamID (b_subs b' ! p) = sub_streamID (b_subs b1 ! p)
          \<and> sub_queue (b_subs b' ! p) = sub_queue (b_subs b1 ! p)"
    using Cons.hyps(1) [OF _ inv1] r Cons.prems(2) by auto
  show ?case
  proof (intro exI [of _ b'] conjI allI impI)
    show "reap_all m (b_maps b ! m) b = Some b'" using unfold b'(1) by (simp add: b1_def)
    show "map_of (b_byStreamID b') s =
        (if map_of (b_maps b ! m) s = None then map_of (b_byStreamID b) s else None)" for s
      using b'(2) by (cases "map_of rest s") (simp_all add: row b1_def reap_one_def)
    show "b_maps b' ! k = b_maps b ! k" if "k < length (b_maps b)" "k \<noteq> m" for k
      using b'(3) that by (simp add: b1_def reap_one_def)
    show "length (b_subs b') = length (b_subs b)" using b'(4) by (simp add: b1_def reap_one_def)
  qed (use b'(5) p in \<open>auto simp: b1_def reap_one_def nth_list_update\<close>)
qed

lemma seq_new: "seq_inv NewStreamBroker"
  by (simp add: seq_inv_def inv_new) (simp add: NewStreamBroker_def)

lemma seq_with_task_map:
  assumes "seq_inv b" shows "seq_inv (with_task_map b t)"
proof (cases "map_of (b_byTaskID b) t")
  case None
  show ?thesis
    unfolding seq_inv_def
  proof (intro conjI allI impI)
    show "broker_inv (with_task_map b t)" using with_task_map_inv seq_inv_D [OF assms] .
    fix sid p assume "map_of (b_byStreamID (with_task_map b t)) sid = Some p"
    then have p: "map_of (b_byStreamID b) sid = Some p" by simp
    obtain m where m: "map_of (b_byTaskID b) (sub_taskID (b_subs b ! p)) = Some m"
      "map_of (b_maps b ! m) sid = Some p" using seq_entry [OF assms p] by blast
    then have "m < length (b_maps b)" using inv_task seq_inv_D [OF assms] by blast
    then show "\<exists>m. map_of (b_byTaskID (with_task_map b t)) (sub_taskID (b_subs (with_task_map b t) ! p))
        = Some m \<and> map_of (b_maps (with_task_map b t) ! m) sid = Some p"
      using m None by (intro exI [of _ m]) (auto simp: with_task_map_def nth_append)
  qed
next
  case (Some m)
  then show ?thesis using assms by (simp add: with_task_map_def)
qed

lemma seq_attach:
  assumes seq: "seq_inv b" and fresh: "fresh_id b sid" and m: "map_of (b_byTaskID b) t = Some m"
  shows "seq_inv (attach b t sid now m)"
  unfolding seq_inv_def
proof (intro conjI allI impI)
  note inv = seq_inv_D [OF seq]
  note ml = inv_task [OF inv m]
  show "broker_inv (attach b t sid now m)" using attach_inv [OF inv fresh m] .
  fix s p assume s: "map_of (b_byStreamID (attach b t sid now m)) s = Some p"
  show "\<exists>m'. map_of (b_byTaskID (attach b t sid now m)) (sub_taskID (b_subs (attach b t sid now m) ! p))
        = Some m' \<and> map_of (b_maps (attach b t sid now m) ! m') s = Some p"
  proof (cases "s = sid")
    case True
    then show ?thesis using s m ml by (intro exI [of _ m]) (simp add: attach_nth attach_map)
  next
    case False
    then have p: "map_of (b_byStreamID b) s = Some p" using s by simp
    obtain m' where m': "map_of (b_byTaskID b) (sub_taskID (b_subs b ! p)) = Some m'"
      "map_of (b_maps b ! m') s = Some p" using seq_entry [OF seq p] by blast
    then show ?thesis using inv_task [OF inv m'(1)] inv_stream [OF inv p] False
      by (intro exI [of _ m']) (auto simp: attach_nth attach_map)
  qed
qed

lemma seq_Subscribe:
  assumes "seq_inv b" "fresh_id b sid" shows "seq_inv (snd (Subscribe b t sid now))"
proof (cases "t = []")
  case True
  then show ?thesis using assms by (simp add: Subscribe_def)
next
  case False
  obtain m where "map_of (b_byTaskID (with_task_map b t)) t = Some m"
    using with_task_map_simps(4) by blast
  then show ?thesis using seq_attach [OF seq_with_task_map [OF assms(1)]] assms(2)
    by (simp add: Subscribe_attach [OF False])
qed

lemma seq_queue_change:
  assumes "seq_inv b" "same_subs (b_subs b) h" "broker_inv (b\<lparr>b_subs := h\<rparr>)"
  shows "seq_inv (b\<lparr>b_subs := h\<rparr>)"
  using assms seq_entry [OF assms(1)] inv_stream [OF seq_inv_D [OF assms(1)]]
  by (fastforce simp: seq_inv_def same_subs_def)

text \<open>What a publish does when nothing is interleaved with it.\<close>

definition live_for :: "broker \<Rightarrow> string \<Rightarrow> nat set" where
  "live_for b t = {p. p < length (b_subs b) \<and>
     map_of (b_byStreamID b) (sub_streamID (b_subs b ! p)) = Some p \<and> sub_taskID (b_subs b ! p) = t}"

lemma live_for_map:
  assumes "seq_inv b" "map_of (b_byTaskID b) t = Some m"
  shows "snd ` set (b_maps b ! m) = live_for b t"
proof -
  note inv = seq_inv_D [OF assms(1)]
  note e = entry_facts(2) [OF inv inv_task [OF inv assms(2)]]
  show ?thesis
  proof (rule set_eqI)
    fix p
    have "p \<in> snd ` set (b_maps b ! m) \<longleftrightarrow> (\<exists>sid. map_of (b_maps b ! m) sid = Some p)"
      using e by (force simp: image_iff)
    also have "\<dots> \<longleftrightarrow> p \<in> live_for b t"
      using task_map_iff [OF assms] inv_stream [OF inv] by (auto simp: live_for_def)
    finally show "p \<in> snd ` set (b_maps b ! m) \<longleftrightarrow> p \<in> live_for b t" .
  qed
qed

lemma live_for_none: "seq_inv b \<Longrightarrow> map_of (b_byTaskID b) t = None \<Longrightarrow> live_for b t = {}"
  using no_task_no_sub [of b t] by (auto simp: live_for_def)

lemma seq_send:
  assumes seq: "seq_inv b"
  shows "\<exists>r b'. publish_send b t ev now =
      Some (card {p \<in> live_for b t. length (sub_queue (b_subs b ! p)) < 16}, r, b')
    \<and> r = map_of (b_byTaskID b) t \<and> seq_inv b'
    \<and> b_byTaskID b' = b_byTaskID b \<and> b_byStreamID b' = b_byStreamID b \<and> b_maps b' = b_maps b
    \<and> length (b_subs b') = length (b_subs b)
    \<and> (\<forall>p < length (b_subs b). b_subs b' ! p =
         (if p \<in> live_for b t then receives ev now (b_subs b ! p) else b_subs b ! p))"
proof (cases "map_of (b_byTaskID b) t")
  case None
  then show ?thesis using seq live_for_none [OF seq None] by (simp add: publish_send_def)
next
  case (Some m)
  note inv = seq_inv_D [OF seq]
  let ?ps = "map snd (b_maps b ! m)"
  let ?room = "\<lambda>p. length (sub_queue (b_subs b ! p)) < 16"
  obtain h' where h': "publish_send b t ev now = Some (length (filter ?room ?ps), Some m, b\<lparr>b_subs := h'\<rparr>)"
      "length h' = length (b_subs b)"
      "\<forall>p < length (b_subs b). h' ! p =
         (if p \<in> snd ` set (b_maps b ! m) then receives ev now (b_subs b ! p) else b_subs b ! p)"
    using publish_send_Some [OF inv Some] by blast
  have "length (filter ?room ?ps) = card (set (filter ?room ?ps))"
    using entry_facts(1) [OF inv inv_task [OF inv Some]] by (simp only: distinct_card distinct_filter)
  also have "set (filter ?room ?ps) = {p \<in> live_for b t. ?room p}"
    using live_for_map [OF seq Some] by auto
  finally have n: "length (filter ?room ?ps) = card {p \<in> live_for b t. ?room p}" .
  have "same_subs (b_subs b) h'" using h' by (auto simp: same_subs_def)
  moreover have "broker_inv (b\<lparr>b_subs := h'\<rparr>)" using publish_send_inv [OF inv h'(1)] by simp
  ultimately have "seq_inv (b\<lparr>b_subs := h'\<rparr>)" by (rule seq_queue_change [OF seq])
  then show ?thesis using h' n Some live_for_map [OF seq Some] by simp
qed

lemma seq_reap:
  assumes seq: "seq_inv b" and t: "map_of (b_byTaskID b) t = Some m"
  shows "\<exists>b'. publish_reap b t m = Some b' \<and> seq_inv b'
    \<and> (\<forall>sid. stream_lookup b' sid = (case stream_lookup b sid of None \<Rightarrow> None
         | Some p \<Rightarrow> if sub_taskID (b_subs b ! p) = t then None else Some p))
    \<and> length (b_subs b') = length (b_subs b)
    \<and> (\<forall>p < length (b_subs b). sub_queue (b_subs b' ! p) = sub_queue (b_subs b ! p))"
proof -
  note inv = seq_inv_D [OF seq]
  note ml = inv_task [OF inv t]
  obtain b1 where b1: "reap_all m (b_maps b ! m) b = Some b1"
      "\<forall>sid. map_of (b_byStreamID b1) sid =
          (if map_of (b_maps b ! m) sid = None then map_of (b_byStreamID b) sid else None)"
      "\<forall>k < length (b_maps b). k \<noteq> m \<longrightarrow> b_maps b1 ! k = b_maps b ! k"
      "length (b_subs b1) = length (b_subs b)"
      "\<forall>p < length (b_subs b). sub_taskID (b_subs b1 ! p) = sub_taskID (b_subs b ! p)
          \<and> sub_streamID (b_subs b1 ! p) = sub_streamID (b_subs b ! p)
          \<and> sub_queue (b_subs b1 ! p) = sub_queue (b_subs b ! p)"
    using reap_all_done [OF inv t] by blast
  note r = reap_all_inv [OF inv ml b1(1)]
  define b' where "b' = b1\<lparr>b_byTaskID := AList.delete t (b_byTaskID b1)\<rparr>"
  have res: "publish_reap b t m = Some b'" using r by (simp add: publish_reap_def b1(1) b'_def)
  have look: "map_of (b_byStreamID b') sid = (case map_of (b_byStreamID b) sid of None \<Rightarrow> None
      | Some p \<Rightarrow> if sub_taskID (b_subs b ! p) = t then None else Some p)" for sid
  proof (cases "map_of (b_byStreamID b) sid")
    case None
    then show ?thesis using b1(2) by (simp add: b'_def)
  next
    case (Some p)
    then have "map_of (b_maps b ! m) sid = None \<longleftrightarrow> sub_taskID (b_subs b ! p) \<noteq> t"
      using task_map_iff [OF seq t, of sid] by (metis not_None_eq option.inject)
    then show ?thesis using b1(2) Some by (simp add: b'_def)
  qed
  have "seq_inv b'"
    unfolding seq_inv_def
  proof (intro conjI allI impI)
    show "broker_inv b'" using publish_reap_inv [OF inv ml res] by simp
    fix sid p assume "map_of (b_byStreamID b') sid = Some p"
    then have p: "map_of (b_byStreamID b) sid = Some p" "sub_taskID (b_subs b ! p) \<noteq> t"
      using look [of sid] by (auto split: option.splits if_splits)
    obtain k where k: "map_of (b_byTaskID b) (sub_taskID (b_subs b ! p)) = Some k"
      "map_of (b_maps b ! k) sid = Some p" using seq_entry [OF seq p(1)] by blast
    have "k \<noteq> m" using inv_one_task [OF inv t, of "sub_taskID (b_subs b ! p)"] k(1) p(2) by auto
    then show "\<exists>k. map_of (b_byTaskID b') (sub_taskID (b_subs b' ! p)) = Some k \<and>
        map_of (b_maps b' ! k) sid = Some p"
      using k p b1(3,5) r inv_task [OF inv k(1)] inv_stream [OF inv p(1)]
      by (intro exI [of _ k]) (simp add: b'_def)
  qed
  then show ?thesis using res look b1(4,5) by (intro exI [of _ b']) (simp add: stream_lookup_def b'_def)
qed

lemma seq_cleanup:
  assumes seq: "seq_inv b" shows "seq_inv (stream_cleanup b sid)"
proof (cases "map_of (b_byStreamID b) sid")
  case None
  then show ?thesis using seq by (simp add: stream_cleanup_def)
next
  case p: (Some p)
  note inv = seq_inv_D [OF seq]
  obtain m where m: "map_of (b_byTaskID b) (sub_taskID (b_subs b ! p)) = Some m"
    "map_of (b_maps b ! m) sid = Some p" using seq_entry [OF seq p] by blast
  note ml = inv_task [OF inv m(1)]
  have pl: "p < length (b_subs b)" using inv_stream [OF inv p] by simp
  define b1 where "b1 = reap_one m sid p b"
  have cl: "stream_cleanup b sid = (if b_maps b1 ! m = []
      then b1\<lparr>b_byTaskID := AList.delete (sub_taskID (b_subs b ! p)) (b_byTaskID b1)\<rparr> else b1)"
    using stream_cleanup_unfold [OF inv p] m by (simp add: b1_def Let_def)
  show ?thesis
    unfolding seq_inv_def
  proof (intro conjI allI impI)
    show "broker_inv (stream_cleanup b sid)" using cleanup_inv [OF inv] .
    fix s q assume "map_of (b_byStreamID (stream_cleanup b sid)) s = Some q"
    then have q: "map_of (b_byStreamID b) s = Some q" "s \<noteq> sid"
      by (auto simp: cl b1_def reap_one_def split: if_splits)
    obtain k where k: "map_of (b_byTaskID b) (sub_taskID (b_subs b ! q)) = Some k"
      "map_of (b_maps b ! k) s = Some q" using seq_entry [OF seq q(1)] by blast
    note kl = inv_task [OF inv k(1)]
    have ent: "map_of (b_maps b1 ! k) s = Some q"
      using k(2) q(2) kl by (cases "k = m") (simp_all add: b1_def reap_one_def)
    have tq: "sub_taskID (b_subs b1 ! q) = sub_taskID (b_subs b ! q)"
      using pl by (cases "q = p") (simp_all add: b1_def reap_one_def)
    have kept: "b_maps b1 ! m = [] \<Longrightarrow> sub_taskID (b_subs b ! q) \<noteq> sub_taskID (b_subs b ! p)"
      using k(1) m(1) ent by auto
    show "\<exists>k. map_of (b_byTaskID (stream_cleanup b sid)) (sub_taskID (b_subs (stream_cleanup b sid) ! q))
        = Some k \<and> map_of (b_maps (stream_cleanup b sid) ! k) s = Some q"
      using ent tq k(1) kept by (intro exI [of _ k]) (simp add: cl, simp add: b1_def reap_one_def)
  qed
qed

lemma seq_receive:
  assumes seq: "seq_inv b" and p: "p < length (b_subs b)" shows "seq_inv (snd (sub_receive b p))"
proof (cases "sub_queue (b_subs b ! p)")
  case Nil
  then show ?thesis using seq by (simp add: sub_receive_def)
next
  case (Cons ev rest)
  then have r: "snd (sub_receive b p) = b\<lparr>b_subs := (b_subs b)[p := (b_subs b ! p)\<lparr>sub_queue := rest\<rparr>]\<rparr>"
    by (simp add: sub_receive_def)
  have "same_subs (b_subs b) ((b_subs b)[p := (b_subs b ! p)\<lparr>sub_queue := rest\<rparr>])"
    using p by (simp add: same_subs_def nth_list_update)
  then show ?thesis
    using seq_queue_change [OF seq] receive_inv [OF seq_inv_D [OF seq] p] unfolding r by blast
qed

lemma Publish_done:
  assumes seq: "seq_inv b" and "ev_Type ev = ''done''"
  shows "\<exists>b'. Publish b t ev now = Some (card {p \<in> live_for b t. length (sub_queue (b_subs b ! p)) < 16}, b')
    \<and> seq_inv b'
    \<and> (\<forall>sid. stream_lookup b' sid = (case stream_lookup b sid of None \<Rightarrow> None
         | Some p \<Rightarrow> if sub_taskID (b_subs b ! p) = t then None else Some p))
    \<and> (\<forall>p < length (b_subs b). sub_queue (b_subs b' ! p) =
         sub_queue (if p \<in> live_for b t then receives ev now (b_subs b ! p) else b_subs b ! p))"
proof -
  let ?n = "card {p \<in> live_for b t. length (sub_queue (b_subs b ! p)) < 16}"
  obtain b1 where b1: "publish_send b t ev now = Some (?n, map_of (b_byTaskID b) t, b1)" "seq_inv b1"
     "b_byTaskID b1 = b_byTaskID b" "b_byStreamID b1 = b_byStreamID b"
     "length (b_subs b1) = length (b_subs b)"
     "\<forall>p < length (b_subs b). b_subs b1 ! p =
         (if p \<in> live_for b t then receives ev now (b_subs b ! p) else b_subs b ! p)"
    using seq_send [OF seq, of t ev now] by blast
  have task: "p < length (b_subs b) \<Longrightarrow> sub_taskID (b_subs b1 ! p) = sub_taskID (b_subs b ! p)" for p
    using b1(6) by simp
  have live: "stream_lookup b sid = Some p \<Longrightarrow> p < length (b_subs b)" for sid p
    using inv_stream [OF seq_inv_D [OF seq]] by (auto simp: stream_lookup_def)
  show ?thesis
  proof (cases "map_of (b_byTaskID b) t")
    case None
    then have "Publish b t ev now = Some (?n, b1)" by (simp add: Publish_def b1(1))
    moreover have "stream_lookup b sid = Some p \<Longrightarrow> sub_taskID (b_subs b ! p) \<noteq> t" for sid p
      using no_task_no_sub [OF seq None] by (simp add: stream_lookup_def)
    then have "stream_lookup b1 sid = (case stream_lookup b sid of None \<Rightarrow> None
         | Some p \<Rightarrow> if sub_taskID (b_subs b ! p) = t then None else Some p)" for sid
      using b1(4) by (simp add: stream_lookup_def split: option.splits)
    ultimately show ?thesis using b1 by (intro exI [of _ b1]) simp
  next
    case (Some m)
    then have "map_of (b_byTaskID b1) t = Some m" using b1(3) by simp
    from seq_reap [OF b1(2) this] obtain b' where b': "publish_reap b1 t m = Some b'" "seq_inv b'"
      "\<forall>sid. stream_lookup b' sid = (case stream_lookup b1 sid of None \<Rightarrow> None
         | Some p \<Rightarrow> if sub_taskID (b_subs b1 ! p) = t then None else Some p)"
      "\<forall>p < length (b_subs b1). sub_queue (b_subs b' ! p) = sub_queue (b_subs b1 ! p)" by blast
    have "Publish b t ev now = Some (?n, b')"
      using Some assms(2) b'(1) by (simp add: Publish_def b1(1))
    moreover have "stream_lookup b' sid = (case stream_lookup b sid of None \<Rightarrow> None
         | Some p \<Rightarrow> if sub_taskID (b_subs b ! p) = t then None else Some p)" for sid
      using b'(3) task live [of sid] b1(4)
      by (auto simp: stream_lookup_def split: option.splits)
    ultimately show ?thesis using b' b1(5,6) by (intro exI [of _ b']) simp
  qed
qed

lemma Publish_other:
  assumes seq: "seq_inv b" and "ev_Type ev \<noteq> ''done''"
  shows "\<exists>b'. Publish b t ev now = Some (card {p \<in> live_for b t. length (sub_queue (b_subs b ! p)) < 16}, b')
    \<and> seq_inv b' \<and> stream_lookup b' = stream_lookup b
    \<and> (\<forall>p < length (b_subs b). sub_queue (b_subs b' ! p) =
         sub_queue (if p \<in> live_for b t then receives ev now (b_subs b ! p) else b_subs b ! p))"
proof -
  obtain b1 where b1: "publish_send b t ev now = Some (card {p \<in> live_for b t.
       length (sub_queue (b_subs b ! p)) < 16}, map_of (b_byTaskID b) t, b1)" "seq_inv b1"
     "b_byStreamID b1 = b_byStreamID b"
     "\<forall>p < length (b_subs b). b_subs b1 ! p =
         (if p \<in> live_for b t then receives ev now (b_subs b ! p) else b_subs b ! p)"
    using seq_send [OF seq, of t ev now] by blast
  then have "Publish b t ev now = Some (card {p \<in> live_for b t. length (sub_queue (b_subs b ! p)) < 16}, b1)"
    using assms(2) by (cases "map_of (b_byTaskID b) t") (simp_all add: Publish_def)
  then show ?thesis using b1 by (intro exI [of _ b1]) (simp add: stream_lookup_def fun_eq_iff)
qed

lemma seq_reach: "broker_seq b \<Longrightarrow> seq_inv b"
proof (induction rule: broker_seq.induct)
  case (publish b t ev now n b')
  then show ?case
    using Publish_done [OF publish.IH, of ev t now] Publish_other [OF publish.IH, of ev t now]
    by (cases "ev_Type ev = ''done''") auto
qed (simp_all add: seq_new seq_Subscribe seq_cleanup seq_receive)

section \<open>Serving a stream\<close>

text \<open>
  What the select loops of \<open>Handler\<close> and \<open>tailSubscription\<close> observe, each with the outcome of the
  write it causes. \<open>Handler\<close> forwards until the channel closes and leaves the subscription in place;
  \<open>tailSubscription\<close> also stops after a \<open>done\<close> event and always cleans up.
\<close>

datatype tail_input = TCancelled | TIdle bool | TEvent stream_event bool | TClosed

datatype sse_frame = SseComment string | SseData stream_event

fun handler_loop :: "tail_input list \<Rightarrow> sse_frame list" where
  "handler_loop [] = []"
| "handler_loop (TCancelled # _) = []"
| "handler_loop (TClosed # _) = []"
| "handler_loop (TIdle ok # xs) =
     SseComment ''idle-ping'' # (if ok then handler_loop xs else [])"
| "handler_loop (TEvent ev ok # xs) = SseData ev # (if ok then handler_loop xs else [])"

fun tail_loop :: "tail_input list \<Rightarrow> sse_frame list" where
  "tail_loop [] = []"
| "tail_loop (TCancelled # _) = []"
| "tail_loop (TClosed # _) = []"
| "tail_loop (TIdle ok # xs) = SseComment ''idle-ping'' # (if ok then tail_loop xs else [])"
| "tail_loop (TEvent ev ok # xs) =
     SseData ev # (if ok \<and> ev_Type ev \<noteq> ''done'' then tail_loop xs else [])"

datatype handler_reply = HttpError nat string | Stream "sse_frame list"

definition stream_handler :: "broker \<Rightarrow> string \<Rightarrow> bool \<Rightarrow> tail_input list \<Rightarrow> handler_reply" where
  "stream_handler b path flushable inputs =
     (let streamID = trim_prefix ''/a2a/stream/'' path in
      if streamID = [] then HttpError 400 ''missing streamID''
      else case stream_lookup b streamID of
        None \<Rightarrow> HttpError 404 ''stream not found''
      | Some _ \<Rightarrow>
          if \<not> flushable then HttpError 500 ''SSE requires a flushable ResponseWriter''
          else Stream (SseComment (''connected to stream '' @ streamID) # handler_loop inputs))"

definition tailSubscription :: "broker \<Rightarrow> string \<Rightarrow> tail_input list \<Rightarrow> sse_frame list \<times> broker" where
  "tailSubscription b streamID inputs = (tail_loop inputs, stream_cleanup b streamID)"

lemma tail_loop_done:
  "tail_loop xs = ys @ SseData ev # zs \<Longrightarrow> ev_Type ev = ''done'' \<Longrightarrow> zs = []"
  by (induction xs arbitrary: ys rule: tail_loop.induct)
    (auto simp: Cons_eq_append_conv split: if_splits)

section \<open>Properties\<close>

text \<open>C5: however publishers, subscribers, disconnects and consumers interleave, a stream that can be
  looked up is open and belongs to the id it is found under, no channel holds more than 16 events, and
  the sending half of \<open>Publish\<close> never panics.\<close>

theorem broker_interleaving_safe:
  assumes "broker_reach w"
  shows "(\<forall>sid p. stream_lookup (w_broker w) sid = Some p \<longrightarrow>
        p < length (b_subs (w_broker w)) \<and> sub_streamID (b_subs (w_broker w) ! p) = sid
        \<and> \<not> sub_closed (b_subs (w_broker w) ! p))
    \<and> (\<forall>s \<in> set (b_subs (w_broker w)). length (sub_queue s) \<le> 16)
    \<and> (\<forall>t ev now. broker_exec (OpSend t ev now) w \<noteq> None)"
proof -
  have inv: "broker_inv (w_broker w)" using reach_inv [OF assms] by (simp add: world_inv_def)
  have "broker_exec (OpSend t ev now) w \<noteq> None" for t ev now
    using publish_send_total [OF inv, of t ev now]
    by (auto simp: broker_exec_def Let_def split: option.splits)
  then show ?thesis
    using inv_stream [OF inv] inv by (simp add: stream_lookup_def broker_inv_def)
qed

definition demo_world :: world where
  "demo_world = the (broker_run [OpSubscribe ''t'' ''s1'' 0] world_init)"

lemma demo_world_exec: "broker_exec (OpSubscribe ''t'' ''s1'' 0) world_init = Some demo_world"
  by (simp add: demo_world_def broker_exec_def Let_def)

theorem broker_interleaving_safe_witness:
  "\<forall>ev now. broker_exec (OpSend ''t'' ev now) demo_world \<noteq> None"
proof -
  have "broker_reach demo_world"
    by (rule broker_reach.step [OF broker_reach.start _ demo_world_exec])
      (simp add: op_enabled_def fresh_id_def world_init_def NewStreamBroker_def)
  from broker_interleaving_safe [OF this] show ?thesis by blast
qed

text \<open>C6: in sequential use a \<open>done\<close> publish always returns; it counts and reaches exactly the live
  subscriptions of its task that have room, then removes every subscription of that task and none of
  another task.\<close>

theorem done_publish_reaps_task:
  assumes "broker_seq b" "ev_Type ev = ''done''"
  shows "\<exists>b'. Publish b t ev now = Some (card {p \<in> live_for b t. length (sub_queue (b_subs b ! p)) < 16}, b')
    \<and> (\<forall>sid. stream_lookup b' sid = (case stream_lookup b sid of None \<Rightarrow> None
         | Some p \<Rightarrow> if sub_taskID (b_subs b ! p) = t then None else Some p))
    \<and> (\<forall>p < length (b_subs b). sub_queue (b_subs b' ! p) =
         sub_queue (if p \<in> live_for b t then receives ev now (b_subs b ! p) else b_subs b ! p))"
  using Publish_done [OF seq_reach [OF assms(1)] assms(2), of t now] by blast

theorem done_publish_reaps_task_witness:
  "\<exists>b'. Publish NewStreamBroker ''t'' \<lparr>ev_Type = ''done'', ev_Task = None, ev_Artifact = None\<rparr> 0 =
     Some (0, b')"
  using done_publish_reaps_task [OF broker_seq.new,
      of "\<lparr>ev_Type = ''done'', ev_Task = None, ev_Artifact = None\<rparr>" "''t''" 0]
  by (auto simp: live_for_def NewStreamBroker_def)

definition done_ev :: stream_event where
  "done_ev = \<lparr>ev_Type = ''done'', ev_Task = None, ev_Artifact = None\<rparr>"

definition race_prefix :: "broker_op list" where
  "race_prefix = [OpSubscribe ''t'' ''s1'' 0, OpSend ''t'' done_ev 0, OpCleanup ''s1'',
     OpSubscribe ''t'' ''s2'' 0]"

text \<open>the two critical sections of \<open>Publish\<close> are not one. A \<open>done\<close> publish that is overtaken by a
  disconnect and a new subscriber drops the new subscriber's map: the stream stays open and can be
  looked up, but a later publish reaches nobody. With a second \<open>done\<close> publish in flight, a channel is
  closed twice and the broker panics.\<close>

theorem publish_race_orphans:
  "(case broker_run (race_prefix @ [OpReap 0]) world_init of
      None \<Rightarrow> False
    | Some w \<Rightarrow> stream_lookup (w_broker w) ''s2'' = Some 1
        \<and> \<not> sub_closed (b_subs (w_broker w) ! 1)
        \<and> map_option fst (publish_send (w_broker w) ''t'' done_ev 0) = Some 0)
   \<and> broker_run (race_prefix @ [OpSend ''t'' done_ev 0, OpReap 0, OpCleanup ''s2'', OpReap 0]) world_init
       = None"
  by (simp add: race_prefix_def world_init_def NewStreamBroker_def broker_exec_def Subscribe_def
      publish_send_def publish_reap_def stream_cleanup_def stream_lookup_def done_ev_def)

end
