(* ===== verification/Rpc_Router.thy ===== *)
theory Rpc_Router
  imports Messages
begin

text \<open>
  The JSON-RPC envelope and router of \<open>internal/a2a/jsonrpc.go\<close>: error codes, method names and their
  slash aliases, registration, and the decision \<open>ServeHTTP\<close> takes for a request. Handlers are values of
  a type variable; \<open>Method_Bodies\<close> instantiates them.
\<close>

section \<open>Envelopes\<close>

record rpc_request =
  rq_JSONRPC :: string
  rq_ID :: raw
  rq_Method :: string
  rq_Params :: raw
  rq_AuthSubject :: string

record rpc_error =
  re_Code :: int
  re_Message :: string

record 'r rpc_response =
  rs_ID :: raw
  rs_Body :: "rpc_error + 'r"

definition ErrCodeParseError :: int where "ErrCodeParseError = -32700"
definition ErrCodeInvalidRequest :: int where "ErrCodeInvalidRequest = -32600"
definition ErrCodeMethodNotFound :: int where "ErrCodeMethodNotFound = -32601"
definition ErrCodeInvalidParams :: int where "ErrCodeInvalidParams = -32602"
definition ErrCodeInternalError :: int where "ErrCodeInternalError = -32603"
definition ErrCodeTaskNotFound :: int where "ErrCodeTaskNotFound = -32001"
definition ErrCodeTaskNotCancelable :: int where "ErrCodeTaskNotCancelable = -32002"
definition ErrCodeUnsupportedOperation :: int where "ErrCodeUnsupportedOperation = -32004"
definition ErrCodeAuthRequired :: int where "ErrCodeAuthRequired = -32011"

lemmas ErrCode_defs = ErrCodeParseError_def ErrCodeInvalidRequest_def ErrCodeMethodNotFound_def
  ErrCodeInvalidParams_def ErrCodeInternalError_def ErrCodeTaskNotFound_def
  ErrCodeTaskNotCancelable_def ErrCodeUnsupportedOperation_def ErrCodeAuthRequired_def

definition errorResp :: "raw \<Rightarrow> int \<Rightarrow> string \<Rightarrow> 'r rpc_response" where
  "errorResp i code msg = \<lparr>rs_ID = i, rs_Body = Inl \<lparr>re_Code = code, re_Message = msg\<rparr>\<rparr>"

definition okResp :: "raw \<Rightarrow> 'r \<Rightarrow> 'r rpc_response" where
  "okResp i r = \<lparr>rs_ID = i, rs_Body = Inr r\<rparr>"

definition dec_request :: "json \<Rightarrow> rpc_request result" where
  "dec_request j0 = res_bind (struct_ok ''a2a.JSONRPCRequest'' j0) (\<lambda>j.
     res_bind (get_str ''jsonrpc'' j) (\<lambda>v.
     res_bind (get_str ''method'' j) (\<lambda>m.
     Inr \<lparr>rq_JSONRPC = v, rq_ID = raw_field ''id'' j, rq_Method = m,
          rq_Params = raw_field ''params'' j, rq_AuthSubject = []\<rparr>)))"

section \<open>Method names\<close>

definition A2AMethodNames :: "string list" where
  "A2AMethodNames =
     [''SendMessage'', ''SendStreamingMessage'', ''GetTask'', ''ListTasks'', ''CancelTask'',
      ''SubscribeToTask'', ''CreateTaskPushNotificationConfig'', ''GetTaskPushNotificationConfig'',
      ''ListTaskPushNotificationConfigs'', ''DeleteTaskPushNotificationConfig'',
      ''GetExtendedAgentCard'']"

definition MethodAliases :: "(string \<times> string) list" where
  "MethodAliases =
     [(''message/send'', ''SendMessage''),
      (''message/stream'', ''SendStreamingMessage''),
      (''tasks/get'', ''GetTask''),
      (''tasks/list'', ''ListTasks''),
      (''tasks/cancel'', ''CancelTask''),
      (''tasks/resubscribe'', ''SubscribeToTask''),
      (''tasks/pushNotificationConfig/set'', ''CreateTaskPushNotificationConfig''),
      (''tasks/pushNotificationConfig/get'', ''GetTaskPushNotificationConfig''),
      (''tasks/pushNotificationConfig/list'', ''ListTaskPushNotificationConfigs''),
      (''tasks/pushNotificationConfig/delete'', ''DeleteTaskPushNotificationConfig''),
      (''agent/getAuthenticatedExtendedCard'', ''GetExtendedAgentCard'')]"

definition canonicalizeMethod :: "string \<Rightarrow> string" where
  "canonicalizeMethod m = (case map_of MethodAliases m of Some c \<Rightarrow> c | None \<Rightarrow> m)"

section \<open>Router\<close>

record 'h router =
  rt_handlers :: "string \<rightharpoonup> 'h"
  rt_streaming :: bool

definition NewRouter :: "(string \<Rightarrow> 'h) \<Rightarrow> 'h router" where
  "NewRouter stub = \<lparr>rt_handlers = map_of (map (\<lambda>n. (n, stub n)) A2AMethodNames),
     rt_streaming = False\<rparr>"

definition Register :: "'h router \<Rightarrow> string \<Rightarrow> 'h \<Rightarrow> 'h router result" where
  "Register r meth h =
     (let canonical = canonicalizeMethod meth in
      case rt_handlers r canonical of
        None \<Rightarrow> Inl (''a2a: unknown method '' @ meth)
      | Some _ \<Rightarrow> Inr (r\<lparr>rt_handlers := (rt_handlers r)(canonical \<mapsto> h)\<rparr>))"

text \<open>The outcome of \<open>ServeHTTP\<close> before any handler runs: an error envelope, the streaming handler, or a
  method handler with the request it gets.\<close>

datatype 'h route = RouteError raw int string | RouteStream rpc_request | RouteHandle 'h rpc_request

definition ServeHTTP ::
    "'h router \<Rightarrow> string \<Rightarrow> go_error option \<Rightarrow> raw \<Rightarrow> string \<Rightarrow> 'h route" where
  "ServeHTTP r httpMethod readErr body subject =
     (if httpMethod \<noteq> ''POST'' then RouteError RawEmpty ErrCodeInvalidRequest ''method must be POST''
      else case readErr of
        Some e \<Rightarrow> RouteError RawEmpty ErrCodeParseError (''read body: '' @ e)
      | None \<Rightarrow>
        (case unmarshal dec_request body of
           Inl e \<Rightarrow> RouteError RawEmpty ErrCodeParseError (''parse JSON: '' @ e)
         | Inr rq \<Rightarrow>
             if rq_JSONRPC rq \<noteq> ''2.0''
             then RouteError (rq_ID rq) ErrCodeInvalidRequest (''jsonrpc must be '' @ quote ''2.0'')
             else
               let canonicalMethod = canonicalizeMethod (rq_Method rq);
                   rq' = rq\<lparr>rq_AuthSubject := subject, rq_Method := canonicalMethod\<rparr>
               in if rt_streaming r
                     \<and> (canonicalMethod = ''SendStreamingMessage'' \<or> canonicalMethod = ''SubscribeToTask'')
                  then RouteStream rq'
                  else (case rt_handlers r canonicalMethod of
                          None \<Rightarrow> RouteError (rq_ID rq) ErrCodeMethodNotFound
                                    (''unknown method: '' @ canonicalMethod)
                        | Some h \<Rightarrow> RouteHandle h rq')))"

section \<open>Lemmas\<close>

lemma canonical_names: "map canonicalizeMethod A2AMethodNames = A2AMethodNames"
  by (simp add: A2AMethodNames_def canonicalizeMethod_def MethodAliases_def)

lemma alias_targets:
  "map (canonicalizeMethod \<circ> fst) MethodAliases = map snd MethodAliases"
  "map snd MethodAliases = A2AMethodNames"
  by (simp_all add: A2AMethodNames_def canonicalizeMethod_def MethodAliases_def)

lemma map_fixed: "map f xs = xs \<Longrightarrow> x \<in> set xs \<Longrightarrow> f x = x"
  by (induction xs) auto

lemma canonical_fixed: "m \<in> set A2AMethodNames \<Longrightarrow> canonicalizeMethod m = m"
  using map_fixed [OF canonical_names] .

lemma alias_canonical:
  assumes "(a, m) \<in> set MethodAliases" shows "canonicalizeMethod a = m \<and> m \<in> set A2AMethodNames"
proof -
  have "\<forall>x \<in> set MethodAliases. (canonicalizeMethod \<circ> fst) x = snd x"
    using alias_targets(1) by (simp only: map_eq_conv)
  then have "canonicalizeMethod a = m" using assms by force
  moreover have "m \<in> set (map snd MethodAliases)" using assms by force
  ultimately show ?thesis using alias_targets(2) by simp
qed

lemma canonicalize_idem: "canonicalizeMethod (canonicalizeMethod m) = canonicalizeMethod m"
proof (cases "map_of MethodAliases m")
  case None
  then show ?thesis by (simp add: canonicalizeMethod_def)
next
  case (Some c)
  then have "c \<in> set A2AMethodNames" using alias_canonical map_of_SomeD by metis
  then show ?thesis using Some canonical_fixed by (simp add: canonicalizeMethod_def [of m])
qed

lemma NewRouter_dom: "dom (rt_handlers (NewRouter stub)) = set A2AMethodNames"
  by (simp add: NewRouter_def dom_map_of_conv_image_fst image_image)

lemma Register_Inr:
  "Register r m h = Inr r' \<longleftrightarrow> canonicalizeMethod m \<in> dom (rt_handlers r) \<and>
     r' = r\<lparr>rt_handlers := (rt_handlers r)(canonicalizeMethod m \<mapsto> h)\<rparr>"
  by (auto simp: Register_def Let_def domIff split: option.splits)

lemma Register_dom: "Register r m h = Inr r' \<Longrightarrow> dom (rt_handlers r') = dom (rt_handlers r)"
  by (auto simp: Register_Inr)

lemma canonical_unknown: "canonicalizeMethod m \<notin> set A2AMethodNames \<Longrightarrow> canonicalizeMethod m = m"
proof (cases "map_of MethodAliases m")
  case None
  then show ?thesis by (simp add: canonicalizeMethod_def)
next
  case (Some c)
  then have "canonicalizeMethod m \<in> set A2AMethodNames"
    using alias_canonical [OF map_of_SomeD [OF Some]] by simp
  then show "canonicalizeMethod m \<notin> set A2AMethodNames \<Longrightarrow> ?thesis" by simp
qed

end
