(* ===== verification/Method_Bodies.thy ===== *)
theory Method_Bodies
  imports Task_Store Stream_Broker Rpc_Router
begin

text \<open>
  The A2A methods other than \<open>SendMessage\<close> and \<open>GetExtendedAgentCard\<close>
  (\<open>internal/a2a/method_bodies.go\<close>), over the SQLite repositories and a stream broker. \<open>env\<close> carries
  what one call observes from outside: the clock, fresh ids and driver failures. \<open>mb_SubscribeFn\<close> and
  \<open>mb_PublishFn\<close> are the injected functions, absent when nil.
\<close>

section \<open>State and environment\<close>

record server =
  sv_tasks :: task_rows
  sv_push :: push_rows
  sv_broker :: broker

record env =
  en_now :: time
  en_uuid :: string
  en_get :: "go_error option"
  en_save :: "go_error option"
  en_list :: "go_error option"
  en_list_get :: "string \<Rightarrow> go_error option"

record method_bodies =
  mb_RunnerSID :: string
  mb_SubscribeFn :: "(string \<Rightarrow> broker \<Rightarrow> string result \<times> broker) option"
  mb_PublishFn :: "(string \<Rightarrow> stream_event \<Rightarrow> broker \<Rightarrow> broker) option"

text \<open>The config as it goes over the wire: the signing key has no field in any response.\<close>

record push_wire =
  pw_ID :: string
  pw_TaskID :: string
  pw_URL :: string
  pw_Filters :: "string list"

datatype rpc_result =
    RTask a2a_task
  | RTasks "a2a_task list"
  | RSubscribe a2a_task string
  | RConfig push_wire
  | RConfigs "push_wire list"
  | ROk

type_synonym response = "rpc_result rpc_response"

definition isNotFound :: "go_error \<Rightarrow> bool" where
  "isNotFound e = str_contains ''not found'' e"

definition dec_params :: "string \<Rightarrow> (json \<Rightarrow> 'a result) \<Rightarrow> rpc_request \<Rightarrow> 'a result" where
  "dec_params ty dec rq = unmarshal (\<lambda>j0. res_bind (struct_ok ty j0) dec) (rq_Params rq)"

section \<open>Task reads\<close>

definition handleGetTask :: "env \<Rightarrow> rpc_request \<Rightarrow> server \<Rightarrow> response" where
  "handleGetTask en rq sv =
     (case dec_params ''a2a.getTaskParams'' (get_str ''id'') rq of
        Inl e \<Rightarrow> errorResp (rq_ID rq) ErrCodeInvalidParams (''decode GetTaskParams: '' @ e)
      | Inr taskID \<Rightarrow>
          if taskID = [] then errorResp (rq_ID rq) ErrCodeInvalidParams ''id is required''
          else case task_Get (en_get en) (sv_tasks sv) taskID of
            Inl e \<Rightarrow>
              if isNotFound e
              then errorResp (rq_ID rq) ErrCodeTaskNotFound (''task not found: '' @ taskID)
              else errorResp (rq_ID rq) ErrCodeInternalError (''TaskRepository.Get: '' @ e)
          | Inr rec \<Rightarrow> okResp (rq_ID rq) (RTask (decodeTask rec)))"

definition dec_list_params :: "json \<Rightarrow> (string \<times> string \<times> int) result" where
  "dec_list_params j = res_bind (get_str ''state'' j) (\<lambda>s. res_bind (get_str ''sinceId'' j) (\<lambda>i.
     res_bind (get_int ''limit'' j) (\<lambda>n. Inr (s, i, n))))"

definition handleListTasks :: "env \<Rightarrow> rpc_request \<Rightarrow> server \<Rightarrow> response" where
  "handleListTasks en rq sv =
     (case (if rq_Params rq = RawEmpty then Inr ([], [], 0)
            else dec_params ''a2a.listTasksParams'' dec_list_params rq) of
        Inl e \<Rightarrow> errorResp (rq_ID rq) ErrCodeInvalidParams (''decode ListTasksParams: '' @ e)
      | Inr (st, since, lim) \<Rightarrow>
          let limit = (if lim \<le> 0 \<or> lim > 200 then 50 else lim) in
          (case task_List (en_list en) (sv_tasks sv)
                  \<lparr>lo_RunnerSID = [], lo_State = st, lo_SinceID = since, lo_Limit = limit,
                   lo_Newest = False\<rparr> of
             Inl e \<Rightarrow> errorResp (rq_ID rq) ErrCodeInternalError (''TaskRepository.List: '' @ e)
           | Inr recs \<Rightarrow> okResp (rq_ID rq) (RTasks (map decodeTask recs))))"

section \<open>Cancel\<close>

definition handleCancelTask ::
    "method_bodies \<Rightarrow> env \<Rightarrow> rpc_request \<Rightarrow> server \<Rightarrow> response \<times> server" where
  "handleCancelTask mb en rq sv =
     (case dec_params ''a2a.cancelTaskParams''
             (\<lambda>j. res_bind (get_str ''id'' j) (\<lambda>t. res_bind (get_str ''reason'' j) (\<lambda>_. Inr t))) rq of
        Inl e \<Rightarrow> (errorResp (rq_ID rq) ErrCodeInvalidParams (''decode CancelTaskParams: '' @ e), sv)
      | Inr taskID \<Rightarrow>
          if taskID = [] then (errorResp (rq_ID rq) ErrCodeInvalidParams ''id is required'', sv)
          else case task_Get (en_get en) (sv_tasks sv) taskID of
            Inl e \<Rightarrow>
              (if isNotFound e
               then errorResp (rq_ID rq) ErrCodeTaskNotFound (''task not found: '' @ taskID)
               else errorResp (rq_ID rq) ErrCodeInternalError (''TaskRepository.Get: '' @ e), sv)
          | Inr rec \<Rightarrow>
              if IsTerminal (State rec)
              then (errorResp (rq_ID rq) ErrCodeTaskNotCancelable
                      (''task not in cancelable state: '' @ State rec), sv)
              else case TransitionTask (Some rec) TaskStateCanceled ''tasks/cancel'' (en_now en) of
                Inl e \<Rightarrow> (errorResp (rq_ID rq) ErrCodeInternalError (''TransitionTask: '' @ e), sv)
              | Inr rec1 \<Rightarrow>
                  (case task_Save (en_save en) (en_now en) (sv_tasks sv) (Some rec1) of
                     (rows, rec2, Some e) \<Rightarrow>
                       (errorResp (rq_ID rq) ErrCodeInternalError (''TaskRepository.Save: '' @ e),
                        sv\<lparr>sv_tasks := rows\<rparr>)
                   | (rows, rec2, None) \<Rightarrow>
                       let t = decodeTask (the rec2);
                           sv1 = sv\<lparr>sv_tasks := rows\<rparr>;
                           ev = \<lparr>ev_Type = ''done'', ev_Task = Some t, ev_Artifact = None\<rparr>
                       in (okResp (rq_ID rq) (RTask t),
                           case mb_PublishFn mb of
                             None \<Rightarrow> sv1
                           | Some publish \<Rightarrow>
                               sv1\<lparr>sv_broker := publish taskID ev (sv_broker sv1)\<rparr>)))"

section \<open>Streaming methods, two-call form\<close>

definition no_sse :: string where
  "no_sse = ''streaming not supported on this runner (no SSE binding)''"

definition handleResubscribeTask ::
    "method_bodies \<Rightarrow> env \<Rightarrow> rpc_request \<Rightarrow> server \<Rightarrow> response \<times> server" where
  "handleResubscribeTask mb en rq sv =
     (case mb_SubscribeFn mb of
        None \<Rightarrow> (errorResp (rq_ID rq) ErrCodeUnsupportedOperation no_sse, sv)
      | Some subscribe \<Rightarrow>
        (case dec_params ''a2a.resubscribeParams'' (get_str ''id'') rq of
           Inl e \<Rightarrow> (errorResp (rq_ID rq) ErrCodeInvalidParams (''decode ResubscribeTaskParams: '' @ e), sv)
         | Inr taskID \<Rightarrow>
             if taskID = [] then (errorResp (rq_ID rq) ErrCodeInvalidParams ''id is required'', sv)
             else case task_Get (en_get en) (sv_tasks sv) taskID of
               Inl e \<Rightarrow>
                 (if isNotFound e
                  then errorResp (rq_ID rq) ErrCodeTaskNotFound (''task not found: '' @ taskID)
                  else errorResp (rq_ID rq) ErrCodeInternalError (''TaskRepository.Get: '' @ e), sv)
             | Inr rec \<Rightarrow>
                 if IsTerminal (State rec)
                 then (errorResp (rq_ID rq) ErrCodeUnsupportedOperation
                         (''task in terminal state, cannot subscribe: '' @ State rec), sv)
                 else case subscribe taskID (sv_broker sv) of
                   (Inl e, b) \<Rightarrow>
                     (errorResp (rq_ID rq) ErrCodeInternalError (''SubscribeFn: '' @ e),
                      sv\<lparr>sv_broker := b\<rparr>)
                 | (Inr streamID, b) \<Rightarrow>
                     (okResp (rq_ID rq) (RSubscribe (decodeTask rec) streamID), sv\<lparr>sv_broker := b\<rparr>)))"

definition zero_message :: message where
  "zero_message = \<lparr>m_Role = [], m_Parts = [], m_MessageID = [], m_TaskID = [], m_ContextID = [],
     m_Kind = [], m_From = []\<rparr>"

definition dec_send_params :: "json \<Rightarrow> message result" where
  "dec_send_params j = (case jget ''message'' j of None \<Rightarrow> Inr zero_message | Some v \<Rightarrow> dec_message v)"

definition submitted_record :: "string \<Rightarrow> string \<Rightarrow> message \<Rightarrow> time \<Rightarrow> ptask" where
  "submitted_record taskID runnerSID msg now =
     \<lparr>ID = taskID, RunnerSID = runnerSID, State = TaskStateSubmitted, Method = ''message/stream'',
      InputBlob = RawJson (enc_message msg), OutputBlob = RawEmpty, AuthChallenge = [],
      CreatedAt = now, UpdatedAt = now\<rparr>"

definition handleSendStreamingMessage ::
    "method_bodies \<Rightarrow> env \<Rightarrow> rpc_request \<Rightarrow> server \<Rightarrow> response \<times> server" where
  "handleSendStreamingMessage mb en rq sv =
     (case mb_SubscribeFn mb of
        None \<Rightarrow> (errorResp (rq_ID rq) ErrCodeUnsupportedOperation no_sse, sv)
      | Some subscribe \<Rightarrow>
        (case dec_params ''a2a.SendMessageParams'' dec_send_params rq of
           Inl e \<Rightarrow> (errorResp (rq_ID rq) ErrCodeInvalidParams (''decode SendMessageParams: '' @ e), sv)
         | Inr msg \<Rightarrow>
             if m_ContextID msg = []
             then (errorResp (rq_ID rq) ErrCodeInvalidParams ''message.contextId is required'', sv)
             else
               let taskID = (if m_TaskID msg = [] then en_uuid en else m_TaskID msg);
                   rec = submitted_record taskID (mb_RunnerSID mb) msg (en_now en)
               in (case task_Save (en_save en) (en_now en) (sv_tasks sv) (Some rec) of
                     (rows, rec2, Some e) \<Rightarrow>
                       (errorResp (rq_ID rq) ErrCodeInternalError (''TaskRepository.Save: '' @ e),
                        sv\<lparr>sv_tasks := rows\<rparr>)
                   | (rows, rec2, None) \<Rightarrow>
                       (case subscribe taskID (sv_broker sv) of
                          (Inl e, b) \<Rightarrow>
                            (errorResp (rq_ID rq) ErrCodeInternalError (''SubscribeFn: '' @ e),
                             sv\<lparr>sv_tasks := rows, sv_broker := b\<rparr>)
                        | (Inr streamID, b) \<Rightarrow>
                            (okResp (rq_ID rq) (RSubscribe (decodeTask (the rec2)) streamID),
                             sv\<lparr>sv_tasks := rows, sv_broker := b\<rparr>)))))"

section \<open>Push-notification configs\<close>

record nested_config =
  nc_URL :: string
  nc_SigningKey :: string
  nc_Filters :: "string list"

record set_push_params =
  sp_TaskID :: string
  sp_URL :: string
  sp_SigningKey :: string
  sp_Filters :: "string list"
  sp_Nested :: "nested_config option"

definition dec_nested :: "json \<Rightarrow> nested_config result" where
  "dec_nested j0 = res_bind (struct_ok ''a2a.pushConfigNested'' j0) (\<lambda>j.
     res_bind (get_str ''url'' j) (\<lambda>u. res_bind (get_str ''signingKey'' j) (\<lambda>k.
     res_bind (get_list dec_str ''filters'' j) (\<lambda>fs.
     Inr \<lparr>nc_URL = u, nc_SigningKey = k, nc_Filters = fs\<rparr>))))"

definition dec_set_push :: "json \<Rightarrow> set_push_params result" where
  "dec_set_push j =
     res_bind (get_str ''taskId'' j) (\<lambda>t. res_bind (get_str ''url'' j) (\<lambda>u.
     res_bind (get_str ''signingKey'' j) (\<lambda>k. res_bind (get_list dec_str ''filters'' j) (\<lambda>fs.
     res_bind (get_ptr dec_nested ''pushNotificationConfig'' j) (\<lambda>nc.
     Inr \<lparr>sp_TaskID = t, sp_URL = u, sp_SigningKey = k, sp_Filters = fs, sp_Nested = nc\<rparr>)))))"

definition merge_nested :: "set_push_params \<Rightarrow> set_push_params" where
  "merge_nested p = (case sp_Nested p of None \<Rightarrow> p
     | Some n \<Rightarrow> p\<lparr>sp_URL := nc_URL n, sp_SigningKey := nc_SigningKey n, sp_Filters := nc_Filters n\<rparr>)"

definition wire_of :: "push_config \<Rightarrow> push_wire" where
  "wire_of c = \<lparr>pw_ID = pc_ID c, pw_TaskID = pc_TaskID c, pw_URL = pc_URL c, pw_Filters = pc_Filters c\<rparr>"

definition handleSetTaskPushNotificationConfig ::
    "env \<Rightarrow> rpc_request \<Rightarrow> server \<Rightarrow> response \<times> server" where
  "handleSetTaskPushNotificationConfig en rq sv =
     (case dec_params ''a2a.setPushConfigParams'' dec_set_push rq of
        Inl e \<Rightarrow> (errorResp (rq_ID rq) ErrCodeInvalidParams
                    (''decode SetTaskPushNotificationConfigParams: '' @ e), sv)
      | Inr p0 \<Rightarrow>
          let p = merge_nested p0 in
          if sp_TaskID p = [] \<or> sp_URL p = []
          then (errorResp (rq_ID rq) ErrCodeInvalidParams ''taskId and url are required'', sv)
          else
            let cfg = \<lparr>pc_ID = en_uuid en, pc_TaskID = sp_TaskID p, pc_URL = sp_URL p,
                       pc_SigningKey = sp_SigningKey p, pc_Filters = sp_Filters p,
                       pc_CreatedAt = en_now en\<rparr>
            in (case push_Save (en_save en) (en_now en) (sv_push sv) (Some cfg) of
                  (rows, Some e) \<Rightarrow>
                    (errorResp (rq_ID rq) ErrCodeInternalError (''PushConfigs.Save: '' @ e),
                     sv\<lparr>sv_push := rows\<rparr>)
                | (rows, None) \<Rightarrow> (okResp (rq_ID rq) (RConfig (wire_of cfg)), sv\<lparr>sv_push := rows\<rparr>)))"

definition handleGetTaskPushNotificationConfig :: "env \<Rightarrow> rpc_request \<Rightarrow> server \<Rightarrow> response" where
  "handleGetTaskPushNotificationConfig en rq sv =
     (case dec_params ''a2a.getPushConfigParams'' (get_str ''id'') rq of
        Inl e \<Rightarrow> errorResp (rq_ID rq) ErrCodeInvalidParams
                   (''decode GetTaskPushNotificationConfigParams: '' @ e)
      | Inr k \<Rightarrow>
          if k = [] then errorResp (rq_ID rq) ErrCodeInvalidParams ''id is required''
          else case push_Get (en_get en) (sv_push sv) k of
            Inl e \<Rightarrow>
              if isNotFound e
              then errorResp (rq_ID rq) ErrCodeInvalidParams (''push-notification-config not found: '' @ k)
              else errorResp (rq_ID rq) ErrCodeInternalError (''PushConfigs.Get: '' @ e)
          | Inr c \<Rightarrow> okResp (rq_ID rq) (RConfig (wire_of c)))"

definition handleListTaskPushNotificationConfigs :: "env \<Rightarrow> rpc_request \<Rightarrow> server \<Rightarrow> response" where
  "handleListTaskPushNotificationConfigs en rq sv =
     (case dec_params ''a2a.listPushConfigsParams'' (get_str ''taskId'') rq of
        Inl e \<Rightarrow> errorResp (rq_ID rq) ErrCodeInvalidParams
                   (''decode ListTaskPushNotificationConfigsParams: '' @ e)
      | Inr t \<Rightarrow>
          if t = [] then errorResp (rq_ID rq) ErrCodeInvalidParams ''taskId is required''
          else case push_List (en_list en) (en_list_get en) (sv_push sv) t of
            Inl e \<Rightarrow> errorResp (rq_ID rq) ErrCodeInternalError (''PushConfigs.List: '' @ e)
          | Inr cs \<Rightarrow> okResp (rq_ID rq) (RConfigs (map wire_of cs)))"

definition handleDeleteTaskPushNotificationConfig ::
    "env \<Rightarrow> rpc_request \<Rightarrow> server \<Rightarrow> response \<times> server" where
  "handleDeleteTaskPushNotificationConfig en rq sv =
     (case dec_params ''a2a.deletePushConfigParams'' (get_str ''id'') rq of
        Inl e \<Rightarrow> (errorResp (rq_ID rq) ErrCodeInvalidParams
                    (''decode DeleteTaskPushNotificationConfigParams: '' @ e), sv)
      | Inr k \<Rightarrow>
          if k = [] then (errorResp (rq_ID rq) ErrCodeInvalidParams ''id is required'', sv)
          else case push_Delete (en_save en) (sv_push sv) k of
            (rows, Some e) \<Rightarrow>
              (errorResp (rq_ID rq) ErrCodeInternalError (''PushConfigs.Delete: '' @ e),
               sv\<lparr>sv_push := rows\<rparr>)
          | (rows, None) \<Rightarrow> (okResp (rq_ID rq) ROk, sv\<lparr>sv_push := rows\<rparr>))"

section \<open>Registration and dispatch\<close>

text \<open>The handler values held by the router: the scaffold stub, \<open>SendMessage\<close>, and the methods above.
  \<open>ExtendedCard\<close> is modelled with the grants.\<close>

datatype handler =
    Stub string
  | SendMessage
  | GetTask | ListTasks | CancelTask | Resubscribe | SendStreaming
  | SetPush | GetPush | ListPush | DeletePush
  | ExtendedCard

definition method_regs :: "(string \<times> handler) list" where
  "method_regs =
     [(''tasks/get'', GetTask),
      (''tasks/list'', ListTasks),
      (''tasks/cancel'', CancelTask),
      (''tasks/resubscribe'', Resubscribe),
      (''message/stream'', SendStreaming),
      (''tasks/pushNotificationConfig/set'', SetPush),
      (''tasks/pushNotificationConfig/get'', GetPush),
      (''tasks/pushNotificationConfig/list'', ListPush),
      (''tasks/pushNotificationConfig/delete'', DeletePush),
      (''agent/getAuthenticatedExtendedCard'', ExtendedCard)]"

fun register_all :: "(string \<times> 'h) list \<Rightarrow> 'h router \<Rightarrow> 'h router result" where
  "register_all [] r = Inr r"
| "register_all ((name, h) # regs) r =
     (case Register r name h of
        Inl e \<Rightarrow> Inl (''a2a.MethodBodies.Register '' @ name @ '': '' @ e)
      | Inr r' \<Rightarrow> register_all regs r')"

definition wired_router :: "handler router result" where
  "wired_router = res_bind (Register (NewRouter Stub) ''SendMessage'' SendMessage) (register_all method_regs)"

text \<open>\<open>deliver\<close> is \<open>Deliverer.Deliver\<close>; \<open>ext_card\<close> the extended-card handler.\<close>

definition handleSendMessage ::
    "(message \<Rightarrow> server \<Rightarrow> a2a_task result \<times> server) \<Rightarrow> rpc_request \<Rightarrow> server \<Rightarrow> response \<times> server" where
  "handleSendMessage deliver rq sv =
     (case dec_params ''a2a.SendMessageParams'' dec_send_params rq of
        Inl e \<Rightarrow> (errorResp (rq_ID rq) ErrCodeInvalidParams (''decode SendMessageParams: '' @ e), sv)
      | Inr msg \<Rightarrow>
          if m_ContextID msg = []
          then (errorResp (rq_ID rq) ErrCodeInvalidParams
                  ''message.contextId is required (resolves to chepherd session ID for interactive mode); taskId is optional (auto-generated if missing)'', sv)
          else (case deliver msg sv of
                  (Inl e, sv') \<Rightarrow> (errorResp (rq_ID rq) ErrCodeInternalError (''deliver: '' @ e), sv')
                | (Inr t, sv') \<Rightarrow> (okResp (rq_ID rq) (RTask t), sv')))"

definition run_handler ::
    "method_bodies \<Rightarrow> (message \<Rightarrow> server \<Rightarrow> a2a_task result \<times> server)
       \<Rightarrow> (rpc_request \<Rightarrow> server \<Rightarrow> response) \<Rightarrow> env \<Rightarrow> handler \<Rightarrow> rpc_request \<Rightarrow> server \<Rightarrow> response \<times> server"
where
  "run_handler mb deliver ext_card en h rq sv = (case h of
     Stub name \<Rightarrow> (errorResp (rq_ID rq) ErrCodeInternalError
        (''scaffold: '' @ name @ '' implementation arrives in a later sub-branch''), sv)
   | SendMessage \<Rightarrow> handleSendMessage deliver rq sv
   | GetTask \<Rightarrow> (handleGetTask en rq sv, sv)
   | ListTasks \<Rightarrow> (handleListTasks en rq sv, sv)
   | CancelTask \<Rightarrow> handleCancelTask mb en rq sv
   | Resubscribe \<Rightarrow> handleResubscribeTask mb en rq sv
   | SendStreaming \<Rightarrow> handleSendStreamingMessage mb en rq sv
   | SetPush \<Rightarrow> handleSetTaskPushNotificationConfig en rq sv
   | GetPush \<Rightarrow> (handleGetTaskPushNotificationConfig en rq sv, sv)
   | ListPush \<Rightarrow> (handleListTaskPushNotificationConfigs en rq sv, sv)
   | DeletePush \<Rightarrow> handleDeleteTaskPushNotificationConfig en rq sv
   | ExtendedCard \<Rightarrow> (ext_card rq sv, sv))"

section \<open>Lemmas\<close>

text \<open>Requests built from decoded parameters.\<close>

definition id_request :: "string \<Rightarrow> rpc_request" where
  "id_request taskID = \<lparr>rq_JSONRPC = ''2.0'', rq_ID = RawJson (JNum 1), rq_Method = [],
     rq_Params = RawJson (JObj [(''id'', JStr taskID)]), rq_AuthSubject = []\<rparr>"

lemma id_request_params:
  "dec_params ty (get_str ''id'') (id_request taskID) = Inr taskID"
  "dec_params ty (\<lambda>j. res_bind (get_str ''id'' j) (\<lambda>t. res_bind (get_str ''reason'' j) (\<lambda>_. Inr t)))
     (id_request taskID) = Inr taskID"
  by (simp_all add: dec_params_def id_request_def unmarshal_def get_str_def jget_def fold_eq_eval)

lemma not_found_visible: "isNotFound (''sqlite tasks Get '' @ quote k @ '': not found'')"
  using str_contains_append_mid [of "''not found''" "''sqlite tasks Get '' @ quote k @ '': ''" "[]"]
  by (simp add: isNotFound_def del: str_contains.simps)

lemma register_all_ok:
  assumes "\<forall>x \<in> set regs. canonicalizeMethod (fst x) \<in> dom (rt_handlers r)"
  shows "register_all regs r = Inr (r\<lparr>rt_handlers :=
     rt_handlers r ++ map_of (rev (map (\<lambda>x. (canonicalizeMethod (fst x), snd x)) regs))\<rparr>)"
  using assms
proof (induction regs arbitrary: r)
  case Nil
  then show ?case by simp
next
  case (Cons x regs)
  obtain name h where x: "x = (name, h)" by (cases x)
  define r1 where "r1 = r\<lparr>rt_handlers := (rt_handlers r)(canonicalizeMethod name \<mapsto> h)\<rparr>"
  have reg: "Register r name h = Inr r1"
    using Cons.prems unfolding Register_Inr r1_def x by simp
  have "\<forall>y \<in> set regs. canonicalizeMethod (fst y) \<in> dom (rt_handlers r1)"
    using Cons.prems by (simp add: r1_def)
  from Cons.IH [OF this] show ?case
    by (simp add: x reg r1_def map_add_def fun_eq_iff split: option.split)
qed

lemma method_regs_canonical:
  "map (\<lambda>x. (canonicalizeMethod (fst x), snd x)) method_regs =
     [(''GetTask'', GetTask), (''ListTasks'', ListTasks), (''CancelTask'', CancelTask),
      (''SubscribeToTask'', Resubscribe), (''SendStreamingMessage'', SendStreaming),
      (''CreateTaskPushNotificationConfig'', SetPush), (''GetTaskPushNotificationConfig'', GetPush),
      (''ListTaskPushNotificationConfigs'', ListPush),
      (''DeleteTaskPushNotificationConfig'', DeletePush), (''GetExtendedAgentCard'', ExtendedCard)]"
  by (simp add: method_regs_def canonicalizeMethod_def MethodAliases_def)

lemma wired_names:
  "set A2AMethodNames = insert ''SendMessage''
     (fst ` set (map (\<lambda>x. (canonicalizeMethod (fst x), snd x)) method_regs))"
  unfolding method_regs_canonical by (simp add: A2AMethodNames_def insert_commute)

lemma wired_router_eq:
  "wired_router = Inr ((NewRouter Stub)\<lparr>rt_handlers :=
     (rt_handlers (NewRouter Stub))(''SendMessage'' \<mapsto> SendMessage)
       ++ map_of (rev (map (\<lambda>x. (canonicalizeMethod (fst x), snd x)) method_regs))\<rparr>)"
proof -
  have dom: "dom (rt_handlers (NewRouter Stub)) = set A2AMethodNames" by (rule NewRouter_dom)
  have "canonicalizeMethod ''SendMessage'' = ''SendMessage''"
    by (rule canonical_fixed) (simp add: A2AMethodNames_def)
  moreover have "''SendMessage'' \<in> set A2AMethodNames" by (simp add: A2AMethodNames_def)
  ultimately have reg: "Register (NewRouter Stub) ''SendMessage'' SendMessage =
      Inr ((NewRouter Stub)\<lparr>rt_handlers := (rt_handlers (NewRouter Stub))(''SendMessage'' \<mapsto> SendMessage)\<rparr>)"
    unfolding Register_Inr dom by simp
  have "\<forall>x \<in> set method_regs. canonicalizeMethod (fst x) \<in> set A2AMethodNames"
    unfolding wired_names by (auto simp: image_image intro!: rev_image_eqI)
  then show ?thesis unfolding wired_router_def reg using dom
    by (subst res_bind_simps, subst register_all_ok) auto
qed

lemma ServeHTTP_post:
  assumes "unmarshal dec_request body = Inr rq" "rq_JSONRPC rq = ''2.0''" "\<not> rt_streaming r"
  shows "ServeHTTP r ''POST'' None body subj =
     (case rt_handlers r (canonicalizeMethod (rq_Method rq)) of
        None \<Rightarrow> RouteError (rq_ID rq) ErrCodeMethodNotFound
                 (''unknown method: '' @ canonicalizeMethod (rq_Method rq))
      | Some h \<Rightarrow> RouteHandle h (rq\<lparr>rq_AuthSubject := subj,
                                  rq_Method := canonicalizeMethod (rq_Method rq)\<rparr>))"
  using assms by (simp add: ServeHTTP_def Let_def)

lemma task_Get_stored: "task_Get None rows k = Inr rec \<Longrightarrow> task_rows_ok rows \<Longrightarrow> ID rec = k \<and> savable rec"
  by (auto simp: task_Get_Inr task_rows_ok_def savable_def dest!: row_get_key)

text \<open>Erasing the secret from a stored config.\<close>

definition erase_key :: "push_row \<Rightarrow> push_row" where
  "erase_key r = r\<lparr>pr_SigningKey := []\<rparr>"

definition erase_cfg :: "push_config \<Rightarrow> push_config" where
  "erase_cfg c = c\<lparr>pc_SigningKey := []\<rparr>"

definition erase_res :: "push_config result \<Rightarrow> push_config result" where
  "erase_res r = (case r of Inl e \<Rightarrow> Inl e | Inr c \<Rightarrow> Inr (erase_cfg c))"

definition erase_list_res :: "push_config list result \<Rightarrow> push_config list result" where
  "erase_list_res r = (case r of Inl e \<Rightarrow> Inl e | Inr cs \<Rightarrow> Inr (map erase_cfg cs))"

lemma wire_of_erase [simp]: "wire_of (erase_cfg c) = wire_of c"
  by (simp add: wire_of_def erase_cfg_def)

lemma erase_wire: "erase_cfg c = erase_cfg c' \<Longrightarrow> wire_of c = wire_of c'"
  by (drule arg_cong [where f = wire_of]) simp

lemma push_of_row_erase: "push_of_row (erase_key r) = erase_res (push_of_row r)"
  by (simp add: push_of_row_def erase_key_def erase_cfg_def erase_res_def Let_def
      split: raw.split sum.split)

lemma row_get_erase: "row_get pr_ID k (map erase_key rows) = map_option erase_key (row_get pr_ID k rows)"
  by (induction rows) (simp_all add: erase_key_def)

lemma push_Get_erase: "push_Get err (map erase_key rows) k = erase_res (push_Get err rows k)"
  by (simp add: push_Get_def row_get_erase push_of_row_erase erase_res_def split: option.split)

lemma sort_key_erase: "sort_key pr_CreatedAt (map erase_key rows) = map erase_key (sort_key pr_CreatedAt rows)"
proof -
  have "insort_key pr_CreatedAt (erase_key x) (map erase_key xs) = map erase_key (insort_key pr_CreatedAt x xs)"
    for x xs by (induction xs) (simp_all add: erase_key_def)
  then show ?thesis by (induction rows) simp_all
qed

lemma res_mapM_erase:
  "res_mapM (\<lambda>k. erase_res (f k)) ks = erase_list_res (res_mapM f ks)"
  by (induction ks) (auto simp: erase_res_def erase_list_res_def res_bind_def split: sum.splits)

lemma push_List_erase:
  "push_List qe ge (map erase_key rows) t = erase_list_res (push_List qe ge rows t)"
proof -
  have f: "filter (\<lambda>r. pr_TaskID r = t) (map erase_key rows) = map erase_key (filter (\<lambda>r. pr_TaskID r = t) rows)"
    by (induction rows) (simp_all add: erase_key_def)
  have i: "map pr_ID (map erase_key xs) = map pr_ID xs" for xs by (simp add: erase_key_def)
  show ?thesis
    unfolding push_List_def
    by (cases qe; cases "t = []")
      (simp_all only: option.case if_True if_False f sort_key_erase i push_Get_erase res_mapM_erase Let_def
        sum.case simp_thms erase_list_res_def)
qed

section \<open>Properties\<close>

text \<open>C8: after wiring, the router serves exactly the eleven methods, none of them by the scaffold
  stub; a request under a slash alias is routed exactly as under the canonical name, and any other
  method is answered with method-not-found.\<close>

theorem router_dispatch:
  assumes "wired_router = Inr r" "unmarshal dec_request body = Inr rq" "rq_JSONRPC rq = ''2.0''"
  shows "dom (rt_handlers r) = set A2AMethodNames
    \<and> (\<forall>m n. rt_handlers r m \<noteq> Some (Stub n))
    \<and> (\<forall>(a, c) \<in> set MethodAliases. \<forall>body' subj. rq_Method rq = c
         \<longrightarrow> unmarshal dec_request body' = Inr (rq\<lparr>rq_Method := a\<rparr>)
         \<longrightarrow> ServeHTTP r ''POST'' None body' subj = ServeHTTP r ''POST'' None body subj)
    \<and> (canonicalizeMethod (rq_Method rq) \<notin> set A2AMethodNames
         \<longrightarrow> (\<forall>subj. ServeHTTP r ''POST'' None body subj =
               RouteError (rq_ID rq) ErrCodeMethodNotFound (''unknown method: '' @ rq_Method rq)))"
proof -
  let ?regs = "map (\<lambda>x. (canonicalizeMethod (fst x), snd x)) method_regs"
  have r: "r = (NewRouter Stub)\<lparr>rt_handlers :=
     (rt_handlers (NewRouter Stub))(''SendMessage'' \<mapsto> SendMessage) ++ map_of (rev ?regs)\<rparr>"
    by (rule trans [OF assms(1) [symmetric] wired_router_eq, THEN sum.inject(2) [THEN iffD1]])
  have ns: "\<not> rt_streaming r" by (simp add: r NewRouter_def)
  have "dom (map_of (rev ?regs)) = fst ` set ?regs" by (simp only: dom_map_of_conv_image_fst set_rev)
  then have dom: "dom (rt_handlers r) = set A2AMethodNames"
    using NewRouter_dom [of Stub] wired_names by (auto simp: r)
  have "rt_handlers r m \<noteq> Some (Stub n)" for m n
  proof
    assume m: "rt_handlers r m = Some (Stub n)"
    then have "m \<in> insert ''SendMessage'' (fst ` set ?regs)" using dom wired_names by auto
    moreover have "m \<notin> fst ` set ?regs"
    proof
      assume "m \<in> fst ` set ?regs"
      then obtain h where h: "map_of (rev ?regs) m = Some h"
        by (metis domD dom_map_of_conv_image_fst set_rev)
      then have "(m, h) \<in> set ?regs" by (metis map_of_SomeD set_rev)
      then have "h \<noteq> Stub n" unfolding method_regs_canonical by auto
      then show False using m h by (simp add: r)
    qed
    moreover from this have "map_of (rev ?regs) m = None"
      by (metis dom_map_of_conv_image_fst set_rev domIff)
    ultimately show False using m by (auto simp: r map_add_def)
  qed
  moreover have "ServeHTTP r ''POST'' None body' subj = ServeHTTP r ''POST'' None body subj"
    if ac: "(a, c) \<in> set MethodAliases" "rq_Method rq = c"
      "unmarshal dec_request body' = Inr (rq\<lparr>rq_Method := a\<rparr>)" for a c body' subj
  proof -
    have "canonicalizeMethod a = c" "canonicalizeMethod c = c"
      using alias_canonical [OF ac(1)] canonical_fixed by auto
    then show ?thesis
      using ServeHTTP_post [OF assms(2,3) ns, of subj] ServeHTTP_post [OF ac(3) _ ns, of subj] assms(3) ac(2)
      by (simp split: option.split)
  qed
  moreover have "ServeHTTP r ''POST'' None body subj =
      RouteError (rq_ID rq) ErrCodeMethodNotFound (''unknown method: '' @ rq_Method rq)"
    if "canonicalizeMethod (rq_Method rq) \<notin> set A2AMethodNames" for subj
  proof -
    have "canonicalizeMethod (rq_Method rq) = rq_Method rq" using canonical_unknown [OF that] .
    moreover have "rt_handlers r (canonicalizeMethod (rq_Method rq)) = None" using that dom by blast
    ultimately show ?thesis using ServeHTTP_post [OF assms(2,3) ns, of subj] by simp
  qed
  ultimately show ?thesis using dom by blast
qed

theorem router_dispatch_witness:
  "\<exists>r. wired_router = Inr r \<and> ServeHTTP r ''POST'' None
     (RawJson (JObj [(''jsonrpc'', JStr ''2.0''), (''method'', JStr ''tasks/get'')])) []
   = ServeHTTP r ''POST'' None
     (RawJson (JObj [(''jsonrpc'', JStr ''2.0''), (''method'', JStr ''GetTask'')])) []"
proof -
  let ?b = "\<lambda>m. RawJson (JObj [(''jsonrpc'', JStr ''2.0''), (''method'', JStr m)])"
  let ?rq = "\<lambda>m. \<lparr>rq_JSONRPC = ''2.0'', rq_ID = RawEmpty, rq_Method = m, rq_Params = RawEmpty,
     rq_AuthSubject = []\<rparr>"
  have dec: "unmarshal dec_request (?b m) = Inr (?rq m)" for m
    by (simp add: unmarshal_def dec_request_def get_str_def jget_def raw_field_def get_raw_def fold_eq_eval)
  obtain r where r: "wired_router = Inr r" using wired_router_eq by blast
  have ac: "(''tasks/get'', ''GetTask'') \<in> set MethodAliases" by (simp add: MethodAliases_def)
  have v: "rq_JSONRPC (?rq ''GetTask'') = ''2.0''" by simp
  note all = router_dispatch [OF r dec v, THEN conjunct2, THEN conjunct2, THEN conjunct1]
  have "rq_Method (?rq ''GetTask'') = ''GetTask''
      \<longrightarrow> unmarshal dec_request (?b ''tasks/get'') = Inr ((?rq ''GetTask'')\<lparr>rq_Method := ''tasks/get''\<rparr>)
      \<longrightarrow> ServeHTTP r ''POST'' None (?b ''tasks/get'') [] = ServeHTTP r ''POST'' None (?b ''GetTask'') []"
    by (rule bspec [OF all ac, unfolded prod.case, THEN spec, THEN spec])
  then have "ServeHTTP r ''POST'' None (?b ''tasks/get'') [] = ServeHTTP r ''POST'' None (?b ''GetTask'') []"
    using dec [of "''tasks/get''"] by simp
  with r show ?thesis by blast
qed

text \<open>C12: \<open>CancelTask\<close> on a stored task: a terminal task is refused and nothing changes; a task that
  is working or waits for input or authorization becomes \<open>CANCELED\<close> in the store, every other task is
  untouched and the reply and the published event show the canceled task; a task still \<open>SUBMITTED\<close>
  gets an internal error and nothing changes.\<close>

theorem cancel_outcome:
  assumes "task_rows_ok (sv_tasks sv)" "en_get en = None" "en_save en = None"
    and "task_Get None (sv_tasks sv) k = Inr rec"
    and "handleCancelTask mb en (id_request k) sv = (resp, sv')"
  shows "(IsTerminal (State rec) \<longrightarrow> sv' = sv \<and> resp = errorResp (RawJson (JNum 1))
            ErrCodeTaskNotCancelable (''task not in cancelable state: '' @ State rec))
    \<and> (State rec \<in> {TaskStateWorking, TaskStateInputRequired, TaskStateAuthRequired} \<longrightarrow>
         (\<exists>t. resp = okResp (RawJson (JNum 1)) (RTask t) \<and> t_ID t = k
            \<and> s_State (t_Status t) = TaskStateCanceled
            \<and> map_option State (sq_get (sv_tasks sv') k) = Some TaskStateCanceled
            \<and> (\<forall>k'. k' \<noteq> k \<longrightarrow> sq_get (sv_tasks sv') k' = sq_get (sv_tasks sv) k')
            \<and> sv_broker sv' = (case mb_PublishFn mb of None \<Rightarrow> sv_broker sv
                | Some publish \<Rightarrow> publish k \<lparr>ev_Type = ''done'', ev_Task = Some t, ev_Artifact = None\<rparr>
                    (sv_broker sv))))
    \<and> (State rec = TaskStateSubmitted \<longrightarrow> sv' = sv
         \<and> (\<exists>e. resp = errorResp (RawJson (JNum 1)) ErrCodeInternalError e))"
proof -
  have k: "ID rec = k" "savable rec" "k \<noteq> []"
    using task_Get_stored [OF assms(4,1)] by (auto simp: savable_def)
  have rid: "rq_ID (id_request k) = RawJson (JNum 1)" by (simp add: id_request_def)
  note run = assms(5) [unfolded handleCancelTask_def id_request_params(2) sum.case assms(2) assms(4) rid]
  let ?r1 = "rec\<lparr>State := TaskStateCanceled, UpdatedAt := en_now en\<rparr>"
  have step: "IsValidTransition (State rec) TaskStateCanceled \<longleftrightarrow>
      State rec \<in> {TaskStateWorking, TaskStateInputRequired, TaskStateAuthRequired, TaskStateCanceled}"
    if "State rec \<in> set AllStates"
    using that by (auto simp: AllStates_def IsValidTransition_def IsTerminal_def allowedTransitions_def)
  have get: "sq_get (sv_tasks sv) k = Some rec" using assms(4) by (simp add: sq_get_def)
  show ?thesis
  proof (intro conjI impI)
    assume "IsTerminal (State rec)"
    then show "sv' = sv" "resp = errorResp (RawJson (JNum 1)) ErrCodeTaskNotCancelable
        (''task not in cancelable state: '' @ State rec)" using run k by simp_all
  next
    assume st: "State rec \<in> {TaskStateWorking, TaskStateInputRequired, TaskStateAuthRequired}"
    then have "IsValidTransition (State rec) TaskStateCanceled" "\<not> IsTerminal (State rec)" "State rec \<noteq> []"
      using step by (auto simp: AllStates_def IsTerminal_def)
    then have tr: "TransitionTask (Some rec) TaskStateCanceled ''tasks/cancel'' (en_now en) = Inr ?r1"
      by (simp add: TransitionTask_def Let_def)
    have sav: "savable ?r1" using k(2) by (simp add: savable_def)
    have save: "task_Save None (en_now en) (sv_tasks sv) (Some ?r1) =
        (sq_save (en_now en) (sv_tasks sv) ?r1, Some (stamped (en_now en) ?r1), None)"
      using sav by (simp add: task_Save_def sq_save_eq savable_def stamped_def Let_def)
    let ?t = "decodeTask (stamped (en_now en) ?r1)"
    have "resp = okResp (RawJson (JNum 1)) (RTask ?t)
        \<and> sv_tasks sv' = sq_save (en_now en) (sv_tasks sv) ?r1
        \<and> sv_broker sv' = (case mb_PublishFn mb of None \<Rightarrow> sv_broker sv
            | Some publish \<Rightarrow> publish k \<lparr>ev_Type = ''done'', ev_Task = Some ?t, ev_Artifact = None\<rparr>
                (sv_broker sv))"
      using run k(3) \<open>\<not> IsTerminal (State rec)\<close>
      by (auto simp: tr assms(3) save Let_def split: option.splits)
    moreover have "map_option State (sq_get (sq_save (en_now en) (sv_tasks sv) ?r1) k) = Some TaskStateCanceled"
      by (rule sqlite.guarded_update_state [OF assms(1) get tr]) simp
    moreover have "k' \<noteq> k \<longrightarrow> sq_get (sq_save (en_now en) (sv_tasks sv) ?r1) k' = sq_get (sv_tasks sv) k'" for k'
      using sqlite.get_save_other [OF assms(1), of k' ?r1] k(1) by simp
    ultimately show "\<exists>t. resp = okResp (RawJson (JNum 1)) (RTask t) \<and> t_ID t = k
        \<and> s_State (t_Status t) = TaskStateCanceled
        \<and> map_option State (sq_get (sv_tasks sv') k) = Some TaskStateCanceled
        \<and> (\<forall>k'. k' \<noteq> k \<longrightarrow> sq_get (sv_tasks sv') k' = sq_get (sv_tasks sv) k')
        \<and> sv_broker sv' = (case mb_PublishFn mb of None \<Rightarrow> sv_broker sv
            | Some publish \<Rightarrow> publish k \<lparr>ev_Type = ''done'', ev_Task = Some t, ev_Artifact = None\<rparr>
                (sv_broker sv))"
      using k(1) by (intro exI [of _ ?t]) simp
  next
    assume st: "State rec = TaskStateSubmitted"
    then have "\<not> IsValidTransition (State rec) TaskStateCanceled" using step by (simp add: AllStates_def)
    then obtain e where tr: "TransitionTask (Some rec) TaskStateCanceled ''tasks/cancel'' (en_now en) = Inl e"
      using st by (simp add: TransitionTask_def Let_def)
    have nt: "\<not> IsTerminal (State rec)" using st by (simp add: IsTerminal_def)
    show "sv' = sv" using run k(3) nt by (simp add: tr)
    show "\<exists>e. resp = errorResp (RawJson (JNum 1)) ErrCodeInternalError e" using run k(3) nt by (auto simp: tr)
  qed
qed

definition demo_env :: env where
  "demo_env = \<lparr>en_now = 7, en_uuid = ''u'', en_get = None, en_save = None, en_list = None,
     en_list_get = (\<lambda>_. None)\<rparr>"

definition demo_server :: "task_state \<Rightarrow> server" where
  "demo_server st = \<lparr>sv_tasks = [\<lparr>ID = ''t'', RunnerSID = ''r'', State = st, Method = [],
      InputBlob = RawEmpty, OutputBlob = RawEmpty, AuthChallenge = [], CreatedAt = 1, UpdatedAt = 1\<rparr>],
     sv_push = [], sv_broker = NewStreamBroker\<rparr>"

lemma demo_server_ok:
  "st \<noteq> [] \<Longrightarrow> task_rows_ok (sv_tasks (demo_server st))"
  "task_Get None (sv_tasks (demo_server st)) ''t'' = Inr (hd (sv_tasks (demo_server st)))"
  "State (hd (sv_tasks (demo_server st))) = st"
  by (simp_all add: demo_server_def task_rows_ok_def keys_distinct_def task_Get_def)

theorem cancel_outcome_witness:
  "map_option State (sq_get (sv_tasks (snd (handleCancelTask
      \<lparr>mb_RunnerSID = ''r'', mb_SubscribeFn = None,
       mb_PublishFn = Some (\<lambda>t ev b. case Publish b t ev 0 of None \<Rightarrow> b | Some (_, b') \<Rightarrow> b')\<rparr>
      demo_env (id_request ''t'') (demo_server TaskStateWorking)))) ''t'') = Some TaskStateCanceled"
  (is "map_option State (sq_get (sv_tasks (snd ?h)) _) = _")
proof -
  have "?h = (fst ?h, snd ?h)" by simp
  from cancel_outcome [OF demo_server_ok(1) _ _ demo_server_ok(2) this]
  show ?thesis by (auto simp: demo_env_def demo_server_ok(3))
qed

text \<open>\<open>SendStreamingMessage\<close> does not consult the state machine: when the caller names the task id
  of a stored task, even a terminal one, the record is put back to \<open>SUBMITTED\<close>.\<close>

theorem streaming_resets_terminal_task:
  assumes "task_rows_ok (sv_tasks sv)" "en_save en = None" "mb_RunnerSID mb \<noteq> []"
    and "mb_SubscribeFn mb = Some subscribe"
    and "sq_get (sv_tasks sv) k = Some rec" "IsTerminal (State rec)"
    and "dec_params ''a2a.SendMessageParams'' dec_send_params rq = Inr msg"
    and "m_TaskID msg = k" "m_ContextID msg \<noteq> []"
  shows "map_option State (sq_get (sv_tasks (snd (handleSendStreamingMessage mb en rq sv))) k)
           = Some TaskStateSubmitted
    \<and> \<not> IsValidTransition (State rec) TaskStateSubmitted"
proof -
  have k: "k \<noteq> []" using assms(5) by (simp add: sq_get_iff)
  let ?r = "submitted_record k (mb_RunnerSID mb) msg (en_now en)"
  have sav: "savable ?r" using k assms(3) by (simp add: submitted_record_def savable_def)
  have "task_Save None (en_now en) (sv_tasks sv) (Some ?r) =
      (sq_save (en_now en) (sv_tasks sv) ?r, Some (stamped (en_now en) ?r), None)"
    using sav by (simp add: task_Save_def sq_save_eq savable_def stamped_def Let_def)
  then have "sv_tasks (snd (handleSendStreamingMessage mb en rq sv)) = sq_save (en_now en) (sv_tasks sv) ?r"
    using assms k by (auto simp: handleSendStreamingMessage_def Let_def split: prod.split sum.split)
  moreover have "map_option State (sq_get (sq_save (en_now en) (sv_tasks sv) ?r) (ID ?r)) = Some (State ?r)"
    by (rule sqlite.save_state [OF assms(1) sav])
  ultimately show ?thesis using assms(6)
    by (auto simp: submitted_record_def IsValidTransition_def IsTerminal_def)
qed

definition stream_request :: rpc_request where
  "stream_request = \<lparr>rq_JSONRPC = ''2.0'', rq_ID = RawJson (JNum 1), rq_Method = [],
     rq_Params = RawJson (JObj [(''message'', enc_message
       \<lparr>m_Role = ''user'', m_Parts = [], m_MessageID = [], m_TaskID = ''t'', m_ContextID = ''c'',
        m_Kind = [], m_From = []\<rparr>)]), rq_AuthSubject = []\<rparr>"

theorem streaming_resets_terminal_task_witness:
  "map_option State (sq_get (sv_tasks (snd (handleSendStreamingMessage
      \<lparr>mb_RunnerSID = ''r'', mb_SubscribeFn = Some (\<lambda>t b. Subscribe b t ''s'' 0), mb_PublishFn = None\<rparr>
      demo_env stream_request (demo_server TaskStateCompleted)))) ''t'') = Some TaskStateSubmitted"
proof -
  let ?m = "\<lparr>m_Role = ''user'', m_Parts = [], m_MessageID = [], m_TaskID = ''t'', m_ContextID = ''c'',
        m_Kind = [], m_From = []\<rparr>"
  have "jget ''message'' (JObj [(''message'', enc_message ?m)]) = Some (enc_message ?m)"
    using enc_not_null(3) [of ?m] by (simp add: jget_def split: json.split)
  then have "dec_params ''a2a.SendMessageParams'' dec_send_params stream_request = Inr ?m"
    by (simp add: dec_params_def stream_request_def unmarshal_def dec_send_params_def dec_enc_message)
  moreover have "sq_get (sv_tasks (demo_server TaskStateCompleted)) ''t'' =
      Some (hd (sv_tasks (demo_server TaskStateCompleted)))"
    by (simp add: sq_get_def demo_server_ok(2))
  ultimately show ?thesis
    using streaming_resets_terminal_task [of "demo_server TaskStateCompleted" demo_env
      "\<lparr>mb_RunnerSID = ''r'', mb_SubscribeFn = Some (\<lambda>t b. Subscribe b t ''s'' 0), mb_PublishFn = None\<rparr>"
      "\<lambda>t b. Subscribe b t ''s'' 0" "''t''" "hd (sv_tasks (demo_server TaskStateCompleted))"
      stream_request ?m]
    by (simp add: demo_server_ok demo_env_def IsTerminal_def)
qed



end
