(* ===== verification/Streaming.thy ===== *)
theory Streaming
  imports Method_Bodies
begin

text \<open>
  The inline SSE binding of \<open>internal/a2a/streaming.go\<close>: \<open>message/stream\<close> and
  \<open>tasks/resubscribe\<close> answered as an event stream. \<open>meanwhile\<close> is what the rest of the program does
  to the broker while the response is being written, and \<open>inputs\<close> what the select loop observes.
\<close>

datatype stream_reply = SError int string | SStream "sse_frame list"

definition isTerminalState :: "task_state \<Rightarrow> bool" where
  "isTerminalState s \<longleftrightarrow> s = TaskStateCompleted \<or> s = TaskStateFailed \<or> s = TaskStateCanceled"

definition status_event :: "a2a_task \<Rightarrow> stream_event" where
  "status_event t = \<lparr>ev_Type = ''status'', ev_Task = Some t, ev_Artifact = None\<rparr>"

definition done_event :: "a2a_task \<Rightarrow> stream_event" where
  "done_event t = \<lparr>ev_Type = ''done'', ev_Task = Some t, ev_Artifact = None\<rparr>"

text \<open>\<open>stream_id\<close> is the fresh id \<open>Subscribe\<close> draws.\<close>

definition serve ::
    "string \<Rightarrow> env \<Rightarrow> string \<Rightarrow> bool \<Rightarrow> rpc_request \<Rightarrow> (broker \<Rightarrow> broker) \<Rightarrow> tail_input list \<Rightarrow> server
       \<Rightarrow> stream_reply \<times> server" where
  "serve runnerSID en stream_id flushable rq meanwhile inputs sv =
     (if \<not> flushable then (SError ErrCodeInternalError ''SSE requires a flushable ResponseWriter'', sv)
      else case dec_params ''a2a.SendMessageParams'' dec_send_params rq of
        Inl e \<Rightarrow> (SError ErrCodeInvalidParams (''decode SendMessageParams: '' @ e), sv)
      | Inr msg \<Rightarrow>
          if m_ContextID msg = [] then (SError ErrCodeInvalidParams ''message.contextId is required'', sv)
          else
            let taskID = (if m_TaskID msg = [] then en_uuid en else m_TaskID msg);
                rec = submitted_record taskID runnerSID msg (en_now en)
            in (case task_Save (en_save en) (en_now en) (sv_tasks sv) (Some rec) of
                  (rows, _, Some e) \<Rightarrow>
                    (SError ErrCodeInternalError (''TaskRepository.Save: '' @ e), sv\<lparr>sv_tasks := rows\<rparr>)
                | (rows, rec2, None) \<Rightarrow>
                    let sv1 = sv\<lparr>sv_tasks := rows\<rparr> in
                    (case Subscribe (sv_broker sv1) taskID stream_id (en_now en) of
                       (Inl e, b) \<Rightarrow>
                         (SError ErrCodeInternalError (''StreamBroker.Subscribe: '' @ e), sv1\<lparr>sv_broker := b\<rparr>)
                     | (Inr sid, b) \<Rightarrow>
                         (case stream_lookup b sid of
                            None \<Rightarrow>
                              (SError ErrCodeInternalError ''StreamBroker.lookup: subscription disappeared'',
                               sv1\<lparr>sv_broker := b\<rparr>)
                          | Some _ \<Rightarrow>
                              let (frames, b') = tailSubscription (meanwhile b) sid inputs
                              in (SStream ([SseComment (''connected to stream '' @ sid @ '' for task '' @ taskID),
                                            SseData (status_event (decodeTask (the rec2)))] @ frames),
                                  sv1\<lparr>sv_broker := b'\<rparr>)))))"

definition serveResubscribe ::
    "env \<Rightarrow> string \<Rightarrow> bool \<Rightarrow> rpc_request \<Rightarrow> (broker \<Rightarrow> broker) \<Rightarrow> tail_input list \<Rightarrow> server
       \<Rightarrow> stream_reply \<times> server" where
  "serveResubscribe en stream_id flushable rq meanwhile inputs sv =
     (if \<not> flushable then (SError ErrCodeInternalError ''SSE requires a flushable ResponseWriter'', sv)
      else case dec_params ''a2a.resubscribeParams'' (get_str ''id'') rq of
        Inl e \<Rightarrow> (SError ErrCodeInvalidParams (''decode ResubscribeTaskParams: '' @ e), sv)
      | Inr taskID \<Rightarrow>
          if taskID = [] then (SError ErrCodeInvalidParams ''taskId is required'', sv)
          else case task_Get (en_get en) (sv_tasks sv) taskID of
            Inl e \<Rightarrow>
              (if isNotFound e then SError ErrCodeTaskNotFound (''task not found: '' @ taskID)
               else SError ErrCodeInternalError (''TaskRepository.Get: '' @ e), sv)
          | Inr rec \<Rightarrow>
              (case Subscribe (sv_broker sv) taskID stream_id (en_now en) of
                 (Inl e, b) \<Rightarrow>
                   (SError ErrCodeInternalError (''StreamBroker.Subscribe: '' @ e), sv\<lparr>sv_broker := b\<rparr>)
               | (Inr sid, b) \<Rightarrow>
                   (case stream_lookup b sid of
                      None \<Rightarrow>
                        (SError ErrCodeInternalError ''StreamBroker.lookup: subscription disappeared'',
                         sv\<lparr>sv_broker := b\<rparr>)
                    | Some _ \<Rightarrow>
                        let task = decodeTask rec;
                            opening = [SseComment (''resubscribed to task '' @ taskID @ '' on stream '' @ sid),
                                       SseData (status_event task)]
                        in if isTerminalState (State rec)
                           then (SStream (opening @ [SseData (done_event task)]),
                                 sv\<lparr>sv_broker := stream_cleanup (meanwhile b) sid\<rparr>)
                           else (let (frames, b') = tailSubscription (meanwhile b) sid inputs
                                 in (SStream (opening @ frames), sv\<lparr>sv_broker := b'\<rparr>)))))"

section \<open>Lemmas\<close>

lemma cleanup_forgets [simp]: "stream_lookup (stream_cleanup b sid) sid = None"
  by (auto simp: stream_cleanup_def stream_lookup_def Let_def split: option.split)

lemma Subscribe_visible:
  "t \<noteq> [] \<Longrightarrow> \<exists>b' p. Subscribe b t sid now = (Inr sid, b') \<and> stream_lookup b' sid = Some p"
  by (auto simp: Subscribe_def stream_lookup_def Let_def split: option.split)

text \<open>resubscribing to a stored task sends the persisted snapshot first. If the task is completed,
  failed or canceled the stream is exactly snapshot and \<open>done\<close>; if it is rejected, the handler treats it
  as live and waits for events. However the connection ends, its subscription is gone.\<close>

theorem resubscribe_stream:
  assumes "task_Get None (sv_tasks sv) k = Inr rec" "en_get en = None"
  shows "\<exists>c frames sv'. serveResubscribe en sid True (id_request k) meanwhile inputs sv
            = (SStream (c # SseData (status_event (decodeTask rec)) # frames), sv')
      \<and> (State rec \<in> {TaskStateCompleted, TaskStateFailed, TaskStateCanceled}
           \<longrightarrow> frames = [SseData (done_event (decodeTask rec))])
      \<and> (State rec = TaskStateRejected \<longrightarrow> frames = tail_loop inputs)
      \<and> stream_lookup (sv_broker sv') sid = None \<and> sv_tasks sv' = sv_tasks sv"
proof -
  have k: "k \<noteq> []" using assms(1) by (simp add: task_Get_Inr)
  obtain b' p where sub: "Subscribe (sv_broker sv) k sid (en_now en) = (Inr sid, b')"
      "stream_lookup b' sid = Some p" using Subscribe_visible [OF k] by blast
  show ?thesis
    using k sub assms
    by (cases "isTerminalState (State rec)")
      (auto simp: serveResubscribe_def id_request_params tailSubscription_def Let_def isTerminalState_def)
qed

theorem resubscribe_stream_witness:
  "\<exists>c frames sv'. serveResubscribe demo_env ''s'' True (id_request ''t'') (\<lambda>b. b) [TCancelled]
       (demo_server TaskStateCompleted)
     = (SStream (c # SseData (status_event (decodeTask (hd (sv_tasks (demo_server TaskStateCompleted))))) # frames), sv')"
proof -
  have "en_get demo_env = None" by (simp add: demo_env_def)
  from resubscribe_stream [OF demo_server_ok(2) this] show ?thesis by blast
qed

text \<open>a \<open>message/stream\<close> that is accepted has stored its task as \<open>SUBMITTED\<close> before anything is
  sent, opens with a status event for that task, sends nothing after a \<open>done\<close> event and leaves no
  subscription behind.\<close>

theorem stream_opens_submitted:
  assumes "serve runnerSID en sid True rq meanwhile inputs sv = (SStream frames, sv')"
    and "task_rows_ok (sv_tasks sv)"
  shows "\<exists>c t tl. frames = c # SseData (status_event t) # tl
      \<and> s_State (t_Status t) = TaskStateSubmitted
      \<and> map_option State (sq_get (sv_tasks sv') (t_ID t)) = Some TaskStateSubmitted
      \<and> (\<forall>xs ev ys. tl = xs @ SseData ev # ys \<longrightarrow> ev_Type ev = ''done'' \<longrightarrow> ys = [])
      \<and> stream_lookup (sv_broker sv') sid = None"
proof -
  obtain msg where msg: "dec_params ''a2a.SendMessageParams'' dec_send_params rq = Inr msg"
    "m_ContextID msg \<noteq> []"
    using assms(1) by (auto simp: serve_def split: sum.splits if_splits)
  define taskID where "taskID = (if m_TaskID msg = [] then en_uuid en else m_TaskID msg)"
  let ?r = "submitted_record taskID runnerSID msg (en_now en)"
  note run = assms(1) [unfolded serve_def msg sum.case Let_def, folded taskID_def]
  obtain rows r2 where save: "task_Save (en_save en) (en_now en) (sv_tasks sv) (Some ?r) = (rows, r2, None)"
    using run msg(2) by (auto split: prod.splits option.splits)
  then have sav: "savable ?r" and err: "en_save en = None"
    by (auto simp: task_Save_def savable_def Let_def split: if_splits option.splits)
  then have rows: "rows = sq_save (en_now en) (sv_tasks sv) ?r" "r2 = Some (stamped (en_now en) ?r)"
    using save by (simp_all add: task_Save_def sq_save_eq savable_def stamped_def Let_def)
  have ne: "taskID \<noteq> []" using sav by (simp add: savable_def submitted_record_def)
  obtain b' p where sub: "Subscribe (sv_broker sv) taskID sid (en_now en) = (Inr sid, b')"
      "stream_lookup b' sid = Some p" using Subscribe_visible [OF ne] by blast
  let ?t = "decodeTask (stamped (en_now en) ?r)"
  have res: "frames = [SseComment (''connected to stream '' @ sid @ '' for task '' @ taskID),
        SseData (status_event ?t)] @ tail_loop inputs"
      "sv_tasks sv' = rows" "sv_broker sv' = stream_cleanup (meanwhile b') sid"
    using run msg(2) save sub rows by (auto simp: tailSubscription_def)
  have "map_option State (sq_get (sq_save (en_now en) (sv_tasks sv) ?r) (ID ?r)) = Some (State ?r)"
    by (rule sqlite.save_state [OF assms(2) sav])
  then have "map_option State (sq_get (sv_tasks sv') (t_ID ?t)) = Some TaskStateSubmitted"
    by (simp add: res rows submitted_record_def)
  moreover have "s_State (t_Status ?t) = TaskStateSubmitted" by (simp add: submitted_record_def)
  moreover have "\<forall>xs ev ys. tail_loop inputs = xs @ SseData ev # ys \<longrightarrow> ev_Type ev = ''done'' \<longrightarrow> ys = []"
    using tail_loop_done by blast
  moreover have "stream_lookup (sv_broker sv') sid = None" by (simp only: res cleanup_forgets)
  moreover note res(1) [unfolded append.simps]
  ultimately show ?thesis by blast
qed

theorem stream_opens_submitted_witness:
  "\<exists>frames sv'. serve ''r'' demo_env ''s'' True stream_request (\<lambda>b. b) [TCancelled] (demo_server TaskStateWorking)
       = (SStream frames, sv')
     \<and> stream_lookup (sv_broker sv') ''s'' = None"
proof -
  let ?m = "\<lparr>m_Role = ''user'', m_Parts = [], m_MessageID = [], m_TaskID = ''t'', m_ContextID = ''c'',
        m_Kind = [], m_From = []\<rparr>"
  let ?sv = "demo_server TaskStateWorking"
  have "jget ''message'' (JObj [(''message'', enc_message ?m)]) = Some (enc_message ?m)"
    using enc_not_null(3) [of ?m] by (simp add: jget_def split: json.split)
  then have dec: "dec_params ''a2a.SendMessageParams'' dec_send_params stream_request = Inr ?m"
    by (simp add: dec_params_def stream_request_def unmarshal_def dec_send_params_def dec_enc_message)
  obtain b' p where sub: "Subscribe (sv_broker ?sv) ''t'' ''s'' 7 = (Inr ''s'', b')"
      "stream_lookup b' ''s'' = Some p" using Subscribe_visible [of "''t''"] by blast
  have "\<exists>frames sv'. serve ''r'' demo_env ''s'' True stream_request (\<lambda>b. b) [TCancelled] ?sv
      = (SStream frames, sv')"
    using sub by (auto simp: serve_def dec demo_env_def task_Save_def submitted_record_def Let_def
        tailSubscription_def)
  then obtain frames sv' where run:
      "serve ''r'' demo_env ''s'' True stream_request (\<lambda>b. b) [TCancelled] ?sv = (SStream frames, sv')" by blast
  have "task_rows_ok (sv_tasks ?sv)" by (rule demo_server_ok(1)) simp
  from stream_opens_submitted [OF run this] run show ?thesis by blast
qed

end
