(* ===== verification/Knock.thy ===== *)
theory Knock
  imports Prelude
begin

text \<open>
  The knock marker of \<open>internal/runtime/knock/knock.go\<close>: formatting, the unanchored matcher of
  \<open>ParseKnock\<close> and the substring pre-check. The regular expression is a literal, a run of UUID
  characters, a literal, a run of identifier characters and a bracket; neither run can swallow the
  literal that follows it, so greedy matching needs no backtracking.
\<close>

definition MarkerPrefix :: string where
  "MarkerPrefix = ''[chepherd-knock ''"

definition newline :: string where "newline = [CHR 0x0A]"

definition FormatKnock :: "string \<Rightarrow> string \<Rightarrow> string" where
  "FormatKnock taskID from' =
     ''[chepherd-knock taskID='' @ taskID @ '' from='' @ from' @ '']'' @ newline"

definition in_range :: "nat \<Rightarrow> nat \<Rightarrow> char \<Rightarrow> bool" where
  "in_range a b c \<longleftrightarrow> a \<le> (of_char c :: nat) \<and> (of_char c :: nat) \<le> b"

text \<open>\<open>[0-9a-fA-F-]\<close> and \<open>[A-Za-z0-9_-]\<close>.\<close>

definition uuid_char :: "char \<Rightarrow> bool" where
  "uuid_char c \<longleftrightarrow> in_range 48 57 c \<or> in_range 97 102 c \<or> in_range 65 70 c \<or> c = CHR ''-''"

definition ident_char :: "char \<Rightarrow> bool" where
  "ident_char c \<longleftrightarrow> in_range 65 90 c \<or> in_range 97 122 c \<or> in_range 48 57 c
     \<or> c = CHR ''_'' \<or> c = CHR ''-''"

definition knock_at :: "string \<Rightarrow> (string \<times> string) option" where
  "knock_at s =
     (let lit1 = ''[chepherd-knock taskID='' in
      if \<not> has_prefix lit1 s then None
      else
        let s1 = drop (length lit1) s; t = takeWhile uuid_char s1; s2 = dropWhile uuid_char s1;
            lit2 = '' from=''
        in if t = [] \<or> \<not> has_prefix lit2 s2 then None
           else
             let s3 = drop (length lit2) s2; f = takeWhile ident_char s3; s4 = dropWhile ident_char s3
             in if f = [] \<or> \<not> has_prefix '']'' s4 then None else Some (t, f))"

text \<open>The leftmost match.\<close>

fun ParseKnock :: "string \<Rightarrow> (string \<times> string) option" where
  "ParseKnock [] = None"
| "ParseKnock (c # s) = (case knock_at (c # s) of Some r \<Rightarrow> Some r | None \<Rightarrow> ParseKnock s)"

definition ContainsKnock :: "string \<Rightarrow> bool" where
  "ContainsKnock line = str_contains MarkerPrefix line"

section \<open>Lemmas\<close>

lemma knock_at_prefix: "knock_at s = Some r \<Longrightarrow> has_prefix MarkerPrefix s"
proof -
  assume "knock_at s = Some r"
  then have "has_prefix ''[chepherd-knock taskID='' s" by (auto simp: knock_at_def Let_def split: if_splits)
  then obtain u where "s = ''[chepherd-knock taskID='' @ u" by (auto simp: has_prefix_iff)
  then have "s = MarkerPrefix @ (''taskID='' @ u)" by (simp add: MarkerPrefix_def)
  then show ?thesis by (metis has_prefix_append)
qed

lemma parse_implies_contains: "ParseKnock s = Some r \<Longrightarrow> ContainsKnock s"
  unfolding ContainsKnock_def
  by (induction s rule: ParseKnock.induct) (auto dest: knock_at_prefix split: option.splits)

text \<open>The marker prefix cannot straddle the point where a marker starts: its bracket is its first
  character only.\<close>

lemma prefix_not_straddling:
  assumes "has_prefix MarkerPrefix (u @ CHR ''['' # v)" "u \<noteq> []"
  shows "str_contains MarkerPrefix u"
proof -
  obtain w where w: "u @ CHR ''['' # v = MarkerPrefix @ w" using assms(1) by (auto simp: has_prefix_iff)
  show ?thesis
  proof (cases "length u < length MarkerPrefix")
    case True
    then have "MarkerPrefix ! length u = CHR ''[''"
      using arg_cong [OF w, of "\<lambda>x. x ! length u"] by (simp add: nth_append)
    moreover have "MarkerPrefix ! length u \<in> set (tl MarkerPrefix)"
    proof (cases u)
      case (Cons a u')
      then have "MarkerPrefix ! length u = tl MarkerPrefix ! length u'"
        using True by (simp add: nth_tl)
      moreover have "length u' < length (tl MarkerPrefix)" using True Cons by simp
      ultimately show ?thesis by simp
    qed (use assms(2) in simp)
    moreover have "CHR ''['' \<notin> set (tl MarkerPrefix)" by (simp add: MarkerPrefix_def)
    ultimately show ?thesis by simp
  next
    case False
    then have "has_prefix MarkerPrefix u" using assms(1) by (simp add: has_prefix_def)
    then show ?thesis unfolding str_contains_iff has_prefix_iff by (metis append_Nil)
  qed
qed

lemma knock_at_marker:
  assumes "t \<noteq> []" "\<forall>c \<in> set t. uuid_char c" "f \<noteq> []" "\<forall>c \<in> set f. ident_char c"
  shows "knock_at (''[chepherd-knock taskID='' @ t @ '' from='' @ f @ '']'' @ rest) = Some (t, f)"
proof -
  have u: "takeWhile uuid_char (t @ CHR '' '' # x) = t" "dropWhile uuid_char (t @ CHR '' '' # x) = CHR '' '' # x"
    for x using assms(2) by (simp_all add: takeWhile_append dropWhile_append uuid_char_def in_range_def)
  have i: "takeWhile ident_char (f @ CHR '']'' # x) = f" "dropWhile ident_char (f @ CHR '']'' # x) = CHR '']'' # x"
    for x using assms(4) by (simp_all add: takeWhile_append dropWhile_append ident_char_def in_range_def)
  show ?thesis
    using assms(1,3) by (simp add: knock_at_def has_prefix_def u i Let_def)
qed

lemma ParseKnock_skip:
  assumes "\<not> str_contains MarkerPrefix noise"
  shows "ParseKnock (noise @ CHR ''['' # v) = ParseKnock (CHR ''['' # v)"
  using assms
proof (induction noise)
  case Nil
  then show ?case by simp
next
  case (Cons c noise)
  have "\<not> has_prefix MarkerPrefix ((c # noise) @ CHR ''['' # v)"
    using prefix_not_straddling [of "c # noise" v] Cons.prems by blast
  then have "knock_at ((c # noise) @ CHR ''['' # v) = None"
    using knock_at_prefix by (cases "knock_at ((c # noise) @ CHR ''['' # v)") blast+
  then show ?case using Cons by simp
qed

section \<open>Properties\<close>

text \<open>a knock is recovered from the middle of a terminal stream: whatever bytes surround the marker,
  escape sequences included, the parser returns its task id and sender, provided the id is made of UUID
  characters, the sender of identifier characters, and the preceding bytes contain no marker prefix;
  and the fast check accepts every stream that parses.\<close>

theorem knock_roundtrip:
  assumes "t \<noteq> []" "\<forall>c \<in> set t. uuid_char c" "f \<noteq> []" "\<forall>c \<in> set f. ident_char c"
    and "\<not> str_contains MarkerPrefix noise"
  shows "ParseKnock (noise @ FormatKnock t f @ rest) = Some (t, f)
    \<and> ContainsKnock (noise @ FormatKnock t f @ rest)"
proof -
  obtain v where v: "FormatKnock t f @ rest = CHR ''['' # v" by (simp add: FormatKnock_def)
  have "ParseKnock (noise @ FormatKnock t f @ rest) = ParseKnock (FormatKnock t f @ rest)"
    unfolding v by (rule ParseKnock_skip [OF assms(5)])
  also have "\<dots> = Some (t, f)"
    using knock_at_marker [OF assms(1-4), of "newline @ rest"] v by (simp add: FormatKnock_def)
  finally show ?thesis using parse_implies_contains by blast
qed

theorem knock_roundtrip_witness:
  "ParseKnock ([CHR 0x1B] @ ''[31m'' @ FormatKnock ''0a-1F'' ''dev_1'' @ ''x'') = Some (''0a-1F'', ''dev_1'')"
  using knock_roundtrip [of "''0a-1F''" "''dev_1''" "[CHR 0x1B] @ ''[31m''" "''x''"]
  by (simp add: uuid_char_def ident_char_def in_range_def MarkerPrefix_def has_prefix_def)

end
