(* ===== verification/Deliverer.thy ===== *)
theory Deliverer
  imports Method_Bodies Knock
begin

text \<open>
  Delivery of an A2A message into a session (\<open>internal/runtime/a2a_deliverer.go\<close>) and the re-knock
  watchdog (\<open>a2a_reknock.go\<close>). A delivery is a function of what it observes (\<open>obs\<close>: clock, fresh ids,
  driver and terminal errors) that updates the task table and the broker and appends its externally
  visible effects to a log. The session lookup, the agent catalog and the per-agent output patterns are
  arguments.
\<close>

section \<open>State\<close>

datatype deliver_effect =
    EPersist string task_state
  | EPublish string stream_event
  | EInject string
  | EWatch string string

record deliverer =
  dv_store :: bool
  dv_runnerSID :: string
  dv_grantCheck :: "(string \<Rightarrow> string \<Rightarrow> bool \<times> string) option"
  dv_publish :: "(string \<Rightarrow> stream_event \<Rightarrow> broker \<Rightarrow> broker) option"

record dworld =
  dw_rows :: task_rows
  dw_broker :: broker
  dw_log :: "deliver_effect list"

record obs =
  ob_now :: time
  ob_id :: "nat \<Rightarrow> string"
  ob_save :: "go_error option"
  ob_inject :: "nat \<Rightarrow> go_error option"

section \<open>Task values\<close>

definition taskIDOrGenerate :: "string \<Rightarrow> string \<Rightarrow> string" where
  "taskIDOrGenerate fresh taskID = (if taskID \<noteq> [] then taskID else fresh)"

definition workingTask :: "string \<Rightarrow> message \<Rightarrow> a2a_task" where
  "workingTask fresh msg = \<lparr>t_ID = taskIDOrGenerate fresh (m_TaskID msg), t_ContextID = m_ContextID msg,
     t_Status = \<lparr>s_State = TaskStateWorking, s_Message = None, s_Details = None\<rparr>,
     t_History = [], t_Artifacts = [], t_Kind = ''task''\<rparr>"

definition agent_text :: "string \<Rightarrow> message" where
  "agent_text s = \<lparr>m_Role = ''agent'',
     m_Parts = [\<lparr>p_Kind = ''text'', p_Text = s, p_File = None, p_Data = None\<rparr>],
     m_MessageID = [], m_TaskID = [], m_ContextID = [], m_Kind = ''message'', m_From = []\<rparr>"

definition failedTask :: "string \<Rightarrow> message \<Rightarrow> string \<Rightarrow> a2a_task" where
  "failedTask fresh msg reason = (workingTask fresh msg)\<lparr>t_Status :=
     \<lparr>s_State = TaskStateFailed, s_Message = Some (agent_text reason), s_Details = None\<rparr>\<rparr>"

definition rejectedTask :: "string \<Rightarrow> message \<Rightarrow> string \<Rightarrow> a2a_task" where
  "rejectedTask fresh msg reason = (workingTask fresh msg)\<lparr>t_Status :=
     \<lparr>s_State = TaskStateRejected, s_Message = Some (agent_text reason), s_Details = None\<rparr>\<rparr>"

definition task_row :: "deliverer \<Rightarrow> obs \<Rightarrow> message \<Rightarrow> a2a_task \<Rightarrow> string \<Rightarrow> ptask" where
  "task_row dv ob msg t meth =
     \<lparr>ID = t_ID t, RunnerSID = dv_runnerSID dv, State = s_State (t_Status t), Method = meth,
      InputBlob = RawJson (enc_message msg), OutputBlob = RawJson (enc_task t), AuthChallenge = [],
      CreatedAt = ob_now ob, UpdatedAt = ob_now ob\<rparr>"

text \<open>A failed save is dropped.\<close>

definition persistTask :: "deliverer \<Rightarrow> obs \<Rightarrow> message \<Rightarrow> a2a_task \<Rightarrow> string \<Rightarrow> dworld \<Rightarrow> dworld" where
  "persistTask dv ob msg t meth w =
     (if \<not> dv_store dv then w
      else w\<lparr>dw_rows := fst (task_Save (ob_save ob) (ob_now ob) (dw_rows w) (Some (task_row dv ob msg t meth))),
             dw_log := dw_log w @ [EPersist (t_ID t) (s_State (t_Status t))]\<rparr>)"

section \<open>Injection\<close>

definition carriage_return :: string where "carriage_return = [CHR 0x0D]"

definition submitSequenceFor :: "(string \<rightharpoonup> string) \<Rightarrow> string \<Rightarrow> string" where
  "submitSequenceFor catalog slug =
     (case catalog slug of None \<Rightarrow> carriage_return
      | Some seq \<Rightarrow> if seq = [] then carriage_return else seq)"

definition trim_newlines :: "string \<Rightarrow> string" where
  "trim_newlines s = rev (dropWhile (\<lambda>c. c = CHR 0x0A) (rev s))"

definition directive :: "string \<Rightarrow> string \<Rightarrow> string" where
  "directive taskID from' =
     '' '' @ [CHR 0xE2, CHR 0x80, CHR 0x94]
     @ '' ACTION REQUIRED: immediately call the chepherd.get_task tool with taskID '' @ [CHR 0x22] @ taskID
     @ [CHR 0x22] @ '' to read this message, then reply by calling chepherd.send_to_session to '' @ [CHR 0x22]
     @ from' @ [CHR 0x22]
     @ ''. Do this now as your first tool call; do not read files, list directories, or plan first.''"

definition knock_bytes :: "string \<Rightarrow> string \<Rightarrow> string \<Rightarrow> string" where
  "knock_bytes slug taskID from' =
     trim_newlines (FormatKnock taskID from')
     @ (if slug \<noteq> [] \<and> slug \<noteq> ''claude-code'' then directive taskID from' else [])"

text \<open>The bytes written and the error, if any; the second write happens only after the first.\<close>

definition injectKnock ::
    "(string \<rightharpoonup> string) \<Rightarrow> (nat \<Rightarrow> go_error option) \<Rightarrow> string \<Rightarrow> string \<Rightarrow> string
       \<Rightarrow> string list \<times> go_error option" where
  "injectKnock catalog err slug taskID from' =
     (case err 0 of
        Some e \<Rightarrow> ([], Some (''PTY knock write: '' @ e))
      | None \<Rightarrow>
          (case err 1 of
             Some e \<Rightarrow> ([knock_bytes slug taskID from'], Some (''PTY knock submit: '' @ e))
           | None \<Rightarrow> ([knock_bytes slug taskID from', submitSequenceFor catalog slug], None)))"

section \<open>Deliver\<close>

text \<open>\<open>callerSIDFromMessage\<close> returns the empty string for every message.\<close>

definition callerSIDFromMessage :: "message \<Rightarrow> string" where
  "callerSIDFromMessage msg = []"

definition publish_to :: "deliverer \<Rightarrow> string \<Rightarrow> stream_event \<Rightarrow> dworld \<Rightarrow> dworld" where
  "publish_to dv taskID ev w = (case dv_publish dv of None \<Rightarrow> w
     | Some publish \<Rightarrow> w\<lparr>dw_broker := publish taskID ev (dw_broker w), dw_log := dw_log w @ [EPublish taskID ev]\<rparr>)"

definition log_injections :: "string list \<Rightarrow> dworld \<Rightarrow> dworld" where
  "log_injections bs w = w\<lparr>dw_log := dw_log w @ map EInject bs\<rparr>"

definition Deliver ::
    "deliverer \<Rightarrow> (string \<rightharpoonup> string) \<Rightarrow> (string \<rightharpoonup> string) \<Rightarrow> obs \<Rightarrow> message \<Rightarrow> dworld
       \<Rightarrow> (a2a_task option \<times> go_error option) \<times> dworld" where
  "Deliver dv sessions catalog ob msg w =
     (if m_ContextID msg = []
      then ((None, Some ''A2ADeliverer: msg.ContextID required (chepherd session ID)''), w)
      else
        case (case dv_grantCheck dv of None \<Rightarrow> None
              | Some check \<Rightarrow>
                  (case check (callerSIDFromMessage msg) (m_ContextID msg) of
                     (True, _) \<Rightarrow> None | (False, reason) \<Rightarrow> Some reason)) of
          Some reason \<Rightarrow>
            let rejected = rejectedTask (ob_id ob 0) msg reason;
                ev = \<lparr>ev_Type = ''done'', ev_Task = Some rejected, ev_Artifact = None\<rparr>
            in ((Some rejected, None),
                publish_to dv (t_ID rejected) ev (persistTask dv ob msg rejected ''message/send'' w))
        | None \<Rightarrow>
          (case sessions (m_ContextID msg) of
             None \<Rightarrow>
               let failed = failedTask (ob_id ob 0) msg ''target session not found''
               in ((Some failed, Some (''a2a.SendMessage: target session '' @ quote (m_ContextID msg) @ '' not found'')),
                   persistTask dv ob msg failed ''message/send'' w)
           | Some slug \<Rightarrow>
             (case ExtractText msg of
                Inl e \<Rightarrow>
                  let failed = failedTask (ob_id ob 0) msg e
                  in ((Some failed, Some e), persistTask dv ob msg failed ''message/send'' w)
              | Inr _ \<Rightarrow>
                  let task = workingTask (ob_id ob 0) msg;
                      w1 = persistTask dv ob msg task ''message/send'' w;
                      from' = (if m_From msg = [] then ''daemon'' else m_From msg);
                      (bs, err) = injectKnock catalog (ob_inject ob) slug (t_ID task) from';
                      w2 = log_injections bs w1
                  in (case err of
                        Some e \<Rightarrow>
                          let failed = failedTask (ob_id ob 1) msg e
                          in ((Some failed, Some e), persistTask dv ob msg failed ''message/send'' w2)
                      | None \<Rightarrow>
                          ((Some task, None),
                           if slug \<noteq> [] \<and> slug \<noteq> ''claude-code''
                           then w2\<lparr>dw_log := dw_log w2 @ [EWatch (t_ID task) from']\<rparr> else w2)))))"

section \<open>Completion after silence\<close>

record flavor =
  fl_auth :: "string \<Rightarrow> bool"
  fl_input :: "string \<Rightarrow> bool"
  fl_challenge :: "string \<Rightarrow> task_status_details option"

definition decideState :: "flavor \<Rightarrow> string \<Rightarrow> task_state" where
  "decideState fl buf =
     (if fl_auth fl buf then TaskStateAuthRequired
      else if fl_input fl buf then TaskStateInputRequired else TaskStateCompleted)"

definition empty_output :: stored_output where
  "empty_output = \<lparr>o_Artifacts = [], o_History = [], o_Details = None\<rparr>"

text \<open>The blobs are written by \<open>persistTask\<close> and \<open>taskCompleter\<close>, which decode as a whole. On a blob that
  does not, the library keeps the fields it could decode; the model starts from an empty output.\<close>

definition stored_out :: "ptask \<Rightarrow> stored_output" where
  "stored_out rec = (case OutputBlob rec of RawEmpty \<Rightarrow> empty_output
     | b \<Rightarrow> (case unmarshal dec_output b of Inl _ \<Rightarrow> empty_output | Inr out \<Rightarrow> out))"

definition taskCompleter ::
    "flavor \<Rightarrow> (string \<Rightarrow> string) \<Rightarrow> string \<Rightarrow> time \<Rightarrow> go_error option \<Rightarrow> go_error option
       \<Rightarrow> string \<Rightarrow> string \<Rightarrow> task_rows \<Rightarrow> task_rows" where
  "taskCompleter fl stripANSI slug now gerr serr taskID response rows =
     (case task_Get gerr rows taskID of
        Inl _ \<Rightarrow> rows
      | Inr rec \<Rightarrow>
          if IsTerminal (State rec) then rows
          else
            let out0 = stored_out rec;
                out1 = out0\<lparr>o_History := o_History out0 @ [agent_text (stripANSI response)]\<rparr>;
                next_state = decideState fl response;
                out2 = (if fl_auth fl response
                        then (case fl_challenge fl response of None \<Rightarrow> out1
                              | Some d \<Rightarrow> out1\<lparr>o_Details := Some d\<rparr>)
                        else out1)
            in (case TransitionTask (Some (rec\<lparr>OutputBlob := RawJson (enc_output out2)\<rparr>)) next_state
                       (''silence-finalize via '' @ slug) now of
                  Inl _ \<Rightarrow> rows
                | Inr rec' \<Rightarrow> fst (task_Save serr now rows (Some rec'))))"

section \<open>Re-knock watchdog\<close>

text \<open>\<open>strconv.Atoi\<close> on a 64-bit platform.\<close>

definition is_digit :: "char \<Rightarrow> bool" where
  "is_digit c = in_range 48 57 c"

definition atoi :: "string \<Rightarrow> int option" where
  "atoi s =
     (let neg = has_prefix ''-'' s; body = (if neg \<or> has_prefix ''+'' s then tl s else s);
          v = (if neg then - int (decimal_value body) else int (decimal_value body))
      in if body = [] \<or> \<not> list_all is_digit body \<or> v < - (2 ^ 63) \<or> 2 ^ 63 \<le> v then None else Some v)"

definition parseNonNegInt :: "string \<Rightarrow> int option" where
  "parseNonNegInt s = (case atoi s of None \<Rightarrow> None | Some n \<Rightarrow> if n < 0 then None else Some n)"

definition reKnockMax :: "string \<Rightarrow> int" where
  "reKnockMax v = (if v \<noteq> [] then (case parseNonNegInt v of Some n \<Rightarrow> n | None \<Rightarrow> 2) else 2)"

type_synonym fetched_set = "string list"

definition MarkTaskFetched :: "string \<Rightarrow> fetched_set \<Rightarrow> fetched_set" where
  "MarkTaskFetched taskID fs = (if taskID = [] then fs else List.insert taskID fs)"

definition taskFetched :: "string \<Rightarrow> fetched_set \<Rightarrow> bool" where
  "taskFetched taskID fs \<longleftrightarrow> taskID \<in> set fs"

definition forgetTask :: "string \<Rightarrow> fetched_set \<Rightarrow> fetched_set" where
  "forgetTask taskID fs = removeAll taskID fs"

definition taskTerminalOrGone :: "bool \<Rightarrow> go_error option \<Rightarrow> string \<Rightarrow> task_rows \<Rightarrow> bool" where
  "taskTerminalOrGone has_store err taskID rows =
     (if \<not> has_store then False
      else case task_Get err rows taskID of Inl _ \<Rightarrow> False | Inr rec \<Rightarrow> IsTerminal (State rec))"

text \<open>What the watchdog finds when attempt \<open>i\<close> wakes up, and what its injection does.\<close>

record wake =
  wk_fetched :: fetched_set
  wk_rows :: task_rows
  wk_get :: "go_error option"
  wk_inject :: "nat \<Rightarrow> go_error option"

fun reKnock_loop ::
    "(string \<rightharpoonup> string) \<Rightarrow> bool \<Rightarrow> string \<Rightarrow> string \<Rightarrow> string \<Rightarrow> (nat \<Rightarrow> wake) \<Rightarrow> nat \<Rightarrow> nat \<Rightarrow> string list list"
where
  "reKnock_loop catalog store slug taskID from' wk attempt 0 = []"
| "reKnock_loop catalog store slug taskID from' wk attempt (Suc left) =
     (let k = wk attempt in
      if taskFetched taskID (wk_fetched k) then []
      else if taskTerminalOrGone store (wk_get k) taskID (wk_rows k) then []
      else (case injectKnock catalog (wk_inject k) slug taskID from' of
              (bs, Some _) \<Rightarrow> [bs]
            | (bs, None) \<Rightarrow> bs # reKnock_loop catalog store slug taskID from' wk (Suc attempt) left))"

definition reKnockWatch ::
    "(string \<rightharpoonup> string) \<Rightarrow> bool \<Rightarrow> string \<Rightarrow> string \<Rightarrow> string \<Rightarrow> string \<Rightarrow> (nat \<Rightarrow> wake) \<Rightarrow> string list list"
where
  "reKnockWatch catalog store envMax slug taskID from' wk =
     (if reKnockMax envMax \<le> 0 then []
      else reKnock_loop catalog store slug taskID from' wk 1 (nat (reKnockMax envMax)))"

section \<open>Lemmas\<close>

lemma trim_newlines_marker: "trim_newlines (FormatKnock t f) = ''[chepherd-knock taskID='' @ t @ '' from='' @ f @ '']''"
  by (simp add: trim_newlines_def FormatKnock_def newline_def)

lemma persist_rows:
  "dw_rows (persistTask dv ob msg t meth w) =
     (if dv_store dv \<and> ob_save ob = None then sq_save (ob_now ob) (dw_rows w) (task_row dv ob msg t meth)
      else dw_rows w)"
  by (simp add: persistTask_def sq_save_def task_Save_eq)

lemma persist_log:
  "dw_log (persistTask dv ob msg t meth w) =
     dw_log w @ (if dv_store dv then [EPersist (t_ID t) (s_State (t_Status t))] else [])"
  by (simp add: persistTask_def)

lemma task_row_savable:
  "savable (task_row dv ob msg t meth) \<longleftrightarrow> t_ID t \<noteq> [] \<and> dv_runnerSID dv \<noteq> [] \<and> s_State (t_Status t) \<noteq> []"
  by (simp add: savable_def task_row_def)

lemma working_fields [simp]:
  "t_ID (workingTask i msg) = taskIDOrGenerate i (m_TaskID msg)"
  "s_State (t_Status (workingTask i msg)) = TaskStateWorking"
  "t_ID (failedTask i msg r) = taskIDOrGenerate i (m_TaskID msg)"
  "s_State (t_Status (failedTask i msg r)) = TaskStateFailed"
  "t_ID (rejectedTask i msg r) = taskIDOrGenerate i (m_TaskID msg)"
  "s_State (t_Status (rejectedTask i msg r)) = TaskStateRejected"
  by (simp_all add: workingTask_def failedTask_def rejectedTask_def)

text \<open>A persisted task is read back in the state it was persisted with.\<close>

lemma persist_state:
  assumes "task_rows_ok (dw_rows w)" "dv_store dv" "ob_save ob = None" "dv_runnerSID dv \<noteq> []"
    and "t_ID t \<noteq> []" "s_State (t_Status t) \<noteq> []"
  shows "map_option State (sq_get (dw_rows (persistTask dv ob msg t meth w)) (t_ID t))
      = Some (s_State (t_Status t))"
proof -
  have "savable (task_row dv ob msg t meth)" using assms by (simp add: task_row_savable)
  from sqlite.save_state [OF assms(1) this, of "ob_now ob"] show ?thesis
    using assms(2,3) by (simp add: persist_rows) (simp add: task_row_def)
qed

lemma knock_parses:
  assumes "t \<noteq> []" "\<forall>c \<in> set t. uuid_char c" "f \<noteq> []" "\<forall>c \<in> set f. ident_char c"
  shows "ParseKnock (knock_bytes slug t f) = Some (t, f)"
proof -
  have "\<exists>d. knock_bytes slug t f = ''[chepherd-knock taskID='' @ t @ '' from='' @ f @ '']'' @ d"
    by (simp add: knock_bytes_def trim_newlines_marker)
  then obtain d where d: "knock_bytes slug t f = ''[chepherd-knock taskID='' @ t @ '' from='' @ f @ '']'' @ d"
    by blast
  show ?thesis using knock_at_marker [OF assms, of d] unfolding d by simp
qed

section \<open>Properties\<close>

text \<open>a caller the grant check denies learns nothing about sessions and reaches no terminal: the
  outcome does not depend on which sessions exist, the task is \<open>REJECTED\<close> with the reason and stored
  so, and the only effects are the stored row and one \<open>done\<close> event.\<close>

theorem denied_delivery:
  assumes "m_ContextID msg \<noteq> []" "dv_grantCheck dv = Some check" "check [] (m_ContextID msg) = (False, reason)"
    and "task_rows_ok (dw_rows w)" "dv_store dv" "ob_save ob = None" "dv_runnerSID dv \<noteq> []" "ob_id ob 0 \<noteq> []"
    and "Deliver dv sessions catalog ob msg w = ((res, err), w')"
  shows "Deliver dv sessions' catalog' ob msg w = ((res, err), w')
    \<and> err = None
    \<and> (\<exists>t. res = Some t \<and> s_State (t_Status t) = TaskStateRejected
         \<and> s_Message (t_Status t) = Some (agent_text reason)
         \<and> map_option State (sq_get (dw_rows w') (t_ID t)) = Some TaskStateRejected
         \<and> dw_log w' = dw_log w @ [EPersist (t_ID t) TaskStateRejected]
             @ (if dv_publish dv = None then []
                else [EPublish (t_ID t) \<lparr>ev_Type = ''done'', ev_Task = Some t, ev_Artifact = None\<rparr>]))"
proof -
  let ?t = "rejectedTask (ob_id ob 0) msg reason"
  let ?ev = "\<lparr>ev_Type = ''done'', ev_Task = Some ?t, ev_Artifact = None\<rparr>"
  let ?w1 = "persistTask dv ob msg ?t ''message/send'' w"
  have run: "Deliver dv ss cat ob msg w = ((Some ?t, None), publish_to dv (t_ID ?t) ?ev ?w1)" for ss cat
    using assms(1-3) by (simp add: Deliver_def callerSIDFromMessage_def Let_def)
  have "t_ID ?t \<noteq> []" using assms(8) by (simp add: taskIDOrGenerate_def)
  from persist_state [OF assms(4-7) this, of msg "''message/send''"]
  have "map_option State (sq_get (dw_rows ?w1) (t_ID ?t)) = Some TaskStateRejected" by simp
  moreover have "dw_rows (publish_to dv (t_ID ?t) ?ev ?w1) = dw_rows ?w1"
    by (simp add: publish_to_def split: option.split)
  moreover have "dw_log (publish_to dv (t_ID ?t) ?ev ?w1) = dw_log w @ [EPersist (t_ID ?t) TaskStateRejected]
      @ (if dv_publish dv = None then [] else [EPublish (t_ID ?t) ?ev])"
    using assms(5) by (simp add: publish_to_def persist_log split: option.split)
  moreover have "s_Message (t_Status ?t) = Some (agent_text reason)" by (simp add: rejectedTask_def)
  ultimately show ?thesis using assms(9) unfolding run by auto
qed

definition demo_deliverer :: deliverer where
  "demo_deliverer = \<lparr>dv_store = True, dv_runnerSID = ''r'', dv_grantCheck = Some (\<lambda>_ _. (False, ''no grant'')),
     dv_publish = None\<rparr>"

definition demo_obs :: obs where
  "demo_obs = \<lparr>ob_now = 5, ob_id = (\<lambda>i. if i = 0 then ''0a'' else ''0b''), ob_save = None,
     ob_inject = (\<lambda>_. None)\<rparr>"

definition demo_msg :: message where
  "demo_msg = \<lparr>m_Role = ''user'', m_Parts = [], m_MessageID = [], m_TaskID = [], m_ContextID = ''s'',
     m_Kind = [], m_From = []\<rparr>"

definition demo_dworld :: dworld where
  "demo_dworld = \<lparr>dw_rows = [], dw_broker = NewStreamBroker, dw_log = []\<rparr>"

theorem denied_delivery_witness:
  "Deliver demo_deliverer [''s'' \<mapsto> ''claude-code''] Map.empty demo_obs demo_msg demo_dworld
     = Deliver demo_deliverer Map.empty Map.empty demo_obs demo_msg demo_dworld"
proof -
  obtain res err w' where d:
    "Deliver demo_deliverer [''s'' \<mapsto> ''claude-code''] Map.empty demo_obs demo_msg demo_dworld = ((res, err), w')"
    by (metis surj_pair)
  show ?thesis
    using denied_delivery [OF _ _ _ _ _ _ _ _ d, of "\<lambda>_ _. (False, ''no grant'')" "''no grant''" Map.empty Map.empty] d
    by (simp add: demo_deliverer_def demo_obs_def demo_msg_def demo_dworld_def)
qed

text \<open>C24: a delivery that succeeds has stored its task as \<open>WORKING\<close> before the first byte reached the
  terminal, wrote the knock and then the submit sequence, and nothing else; the knock parses back to
  the task's id and the sender whenever those are made of the marker's characters.\<close>

theorem successful_delivery:
  assumes "Deliver dv sessions catalog ob msg w = ((Some t, None), w')"
    and "s_State (t_Status t) \<noteq> TaskStateRejected"
    and "task_rows_ok (dw_rows w)" "dv_store dv" "ob_save ob = None" "dv_runnerSID dv \<noteq> []"
    and "ob_id ob 0 \<noteq> []"
  shows "\<exists>slug from'. sessions (m_ContextID msg) = Some slug
      \<and> from' = (if m_From msg = [] then ''daemon'' else m_From msg)
      \<and> dw_log w' = dw_log w @ [EPersist (t_ID t) TaskStateWorking,
           EInject (knock_bytes slug (t_ID t) from'), EInject (submitSequenceFor catalog slug)]
           @ (if slug \<noteq> [] \<and> slug \<noteq> ''claude-code'' then [EWatch (t_ID t) from'] else [])
      \<and> map_option State (sq_get (dw_rows w') (t_ID t)) = Some TaskStateWorking
      \<and> ((\<forall>c \<in> set (t_ID t). uuid_char c) \<and> (\<forall>c \<in> set from'. ident_char c)
           \<longrightarrow> ParseKnock (knock_bytes slug (t_ID t) from') = Some (t_ID t, from'))"
proof -
  define check where "check = (case dv_grantCheck dv of None \<Rightarrow> None
      | Some check \<Rightarrow> (case check (callerSIDFromMessage msg) (m_ContextID msg) of
           (True, _) \<Rightarrow> None | (False, reason) \<Rightarrow> Some reason))"
  have ctx: "m_ContextID msg \<noteq> []" using assms(1) by (auto simp: Deliver_def split: if_splits)
  note run = assms(1) [unfolded Deliver_def, folded check_def]
  have "check = None"
    using run ctx assms(2) by (cases check) (auto simp: Let_def)
  moreover obtain slug where slug: "sessions (m_ContextID msg) = Some slug"
    using run ctx \<open>check = None\<close> by (cases "sessions (m_ContextID msg)") (auto simp: Let_def)
  moreover obtain body where body: "ExtractText msg = Inr body"
    using run ctx \<open>check = None\<close> slug by (cases "ExtractText msg") (auto simp: Let_def)
  moreover define from' where "from' = (if m_From msg = [] then ''daemon'' else m_From msg)"
  moreover obtain bs e where inj: "injectKnock catalog (ob_inject ob) slug
      (t_ID (workingTask (ob_id ob 0) msg)) from' = (bs, e)" by (metis surj_pair)
  ultimately have e: "e = None" using run ctx by (auto simp: Let_def split: option.splits)
  let ?t = "workingTask (ob_id ob 0) msg"
  let ?w1 = "persistTask dv ob msg ?t ''message/send'' w"
  have bs: "bs = [knock_bytes slug (t_ID ?t) from', submitSequenceFor catalog slug]"
    using inj e by (auto simp: injectKnock_def split: option.splits)
  have res: "t = ?t" "w' = (if slug \<noteq> [] \<and> slug \<noteq> ''claude-code''
      then (log_injections bs ?w1)\<lparr>dw_log := dw_log (log_injections bs ?w1) @ [EWatch (t_ID ?t) from']\<rparr>
      else log_injections bs ?w1)"
    using run ctx \<open>check = None\<close> slug body inj e unfolding from'_def by (auto simp: Let_def)
  have rows: "dw_rows w' = dw_rows ?w1" by (simp add: res(2) log_injections_def)
  have log: "dw_log w' = dw_log w @ [EPersist (t_ID ?t) TaskStateWorking] @ map EInject bs
      @ (if slug \<noteq> [] \<and> slug \<noteq> ''claude-code'' then [EWatch (t_ID ?t) from'] else [])"
    using assms(4) by (simp add: res(2) log_injections_def persist_log)
  have id: "t_ID ?t \<noteq> []" using assms(7) by (simp add: taskIDOrGenerate_def)
  have "map_option State (sq_get (dw_rows w') (t_ID ?t)) = Some TaskStateWorking"
    using persist_state [OF assms(3-6) id, of msg "''message/send''"] by (simp add: rows)
  moreover have "from' \<noteq> []" by (simp add: from'_def)
  ultimately show ?thesis
    using slug log bs res(1) id knock_parses [of "t_ID ?t" from' slug] from'_def
    by (intro exI [of _ slug] exI [of _ from']) auto
qed

theorem successful_delivery_witness:
  "ParseKnock (knock_bytes ''claude-code'' ''0a'' ''daemon'') = Some (''0a'', ''daemon'')"
proof -
  let ?dv = "demo_deliverer\<lparr>dv_grantCheck := None\<rparr>"
  let ?t = "workingTask ''0a'' demo_msg"
  have "\<exists>w'. Deliver ?dv [''s'' \<mapsto> ''claude-code''] Map.empty demo_obs demo_msg demo_dworld = ((Some ?t, None), w')"
    by (simp add: Deliver_def demo_deliverer_def demo_obs_def demo_msg_def ExtractText_def injectKnock_def
        Let_def)
  then obtain w' where d:
    "Deliver ?dv [''s'' \<mapsto> ''claude-code''] Map.empty demo_obs demo_msg demo_dworld = ((Some ?t, None), w')"
    by blast
  have "t_ID ?t = ''0a''" by (simp add: taskIDOrGenerate_def demo_msg_def)
  then show ?thesis using successful_delivery [OF d]
    by (simp add: demo_deliverer_def demo_obs_def demo_msg_def demo_dworld_def
        uuid_char_def ident_char_def in_range_def split: if_splits)
qed

text \<open>when the terminal write fails and the caller gave no task id, the failure is stored under a
  second fresh id: the task the knock named stays \<open>WORKING\<close> in the store.\<close>

theorem failed_injection_leaves_working:
  assumes "m_ContextID msg \<noteq> []" "m_TaskID msg = []" "dv_grantCheck dv = None"
    and "sessions (m_ContextID msg) = Some slug" "ExtractText msg = Inr txt"
    and "ob_inject ob 0 = Some e"
    and "task_rows_ok (dw_rows w)" "dv_store dv" "ob_save ob = None" "dv_runnerSID dv \<noteq> []"
    and "ob_id ob 0 \<noteq> []" "ob_id ob 1 \<noteq> []" "ob_id ob 0 \<noteq> ob_id ob 1"
  shows "\<exists>t w'. Deliver dv sessions catalog ob msg w = ((Some t, Some (''PTY knock write: '' @ e)), w')
      \<and> t_ID t = ob_id ob 1
      \<and> map_option State (sq_get (dw_rows w') (ob_id ob 1)) = Some TaskStateFailed
      \<and> map_option State (sq_get (dw_rows w') (ob_id ob 0)) = Some TaskStateWorking"
proof -
  let ?e = "''PTY knock write: '' @ e"
  let ?t = "workingTask (ob_id ob 0) msg" and ?f = "failedTask (ob_id ob 1) msg ?e"
  let ?w1 = "log_injections [] (persistTask dv ob msg ?t ''message/send'' w)"
  let ?w2 = "persistTask dv ob msg ?f ''message/send'' ?w1"
  have run: "Deliver dv sessions catalog ob msg w = ((Some ?f, Some ?e), ?w2)"
    using assms(1,3-6) by (simp add: Deliver_def injectKnock_def Let_def)
  have ids: "t_ID ?t = ob_id ob 0" "t_ID ?f = ob_id ob 1" using assms(2) by (simp_all add: taskIDOrGenerate_def)
  have rows1: "dw_rows ?w1 = sq_save (ob_now ob) (dw_rows w) (task_row dv ob msg ?t ''message/send'')"
    using assms(8,9) by (simp add: log_injections_def persist_rows)
  have ok1: "task_rows_ok (dw_rows ?w1)" unfolding rows1 by (rule sqlite.ok_save [OF assms(7)])
  have "map_option State (sq_get (dw_rows ?w2) (t_ID ?f)) = Some TaskStateFailed"
    using persist_state [OF ok1 assms(8-10), of ?f msg "''message/send''"] ids(2) assms(12) by simp
  moreover have "dw_rows ?w2 = sq_save (ob_now ob) (dw_rows ?w1) (task_row dv ob msg ?f ''message/send'')"
    using assms(8,9) by (simp add: persist_rows)
  then have "sq_get (dw_rows ?w2) (ob_id ob 0) = sq_get (dw_rows ?w1) (ob_id ob 0)"
    using sqlite.get_save_other [OF ok1, of "ob_id ob 0" "task_row dv ob msg ?f ''message/send''"] assms(13) ids(2)
    by (simp add: task_row_def)
  moreover have "map_option State (sq_get (dw_rows ?w1) (ob_id ob 0)) = Some TaskStateWorking"
    using persist_state [OF assms(7-10), of ?t msg "''message/send''"] ids(1) assms(11)
    by (simp add: log_injections_def)
  ultimately show ?thesis using run ids(2) by simp
qed

theorem failed_injection_leaves_working_witness:
  "\<exists>t w'. Deliver (demo_deliverer\<lparr>dv_grantCheck := None\<rparr>) [''s'' \<mapsto> ''claude-code''] Map.empty
       (demo_obs\<lparr>ob_inject := (\<lambda>_. Some ''closed'')\<rparr>) demo_msg demo_dworld
     = ((Some t, Some ''PTY knock write: closed''), w')
     \<and> map_option State (sq_get (dw_rows w') ''0a'') = Some TaskStateWorking"
  using failed_injection_leaves_working [of demo_msg "demo_deliverer\<lparr>dv_grantCheck := None\<rparr>"
      "[''s'' \<mapsto> ''claude-code'']" "''claude-code''" "[]" "demo_obs\<lparr>ob_inject := (\<lambda>_. Some ''closed'')\<rparr>"
      "''closed''" demo_dworld Map.empty]
  by (auto simp: demo_deliverer_def demo_obs_def demo_msg_def demo_dworld_def ExtractText_def)

text \<open>the completer writes the agent's answer into a task that was \<open>WORKING\<close>: the stored state is
  the one the patterns decide (authorization before input before completed), the decoded history ends
  with the cleaned answer, and earlier history is kept. A task that waits for input or authorization is
  not completed by a later answer: the record stays as it was.\<close>

theorem silence_completion:
  assumes "task_rows_ok rows" "sq_get rows k = Some rec"
    and "State rec \<in> {TaskStateWorking, TaskStateInputRequired, TaskStateAuthRequired}"
    and "decideState fl response \<noteq> State rec"
  shows "State rec = TaskStateWorking \<longrightarrow>
       (\<exists>r'. sq_get (taskCompleter fl strip slug now None None k response rows) k = Some r'
          \<and> State r' = decideState fl response
          \<and> o_History (stored_out r') = o_History (stored_out rec) @ [agent_text (strip response)]
          \<and> o_Artifacts (stored_out r') = o_Artifacts (stored_out rec))
    \<and> (State rec \<noteq> TaskStateWorking \<longrightarrow> taskCompleter fl strip slug now None None k response rows = rows)"
proof -
  have get: "task_Get None rows k = Inr rec"
    using assms(2) by (simp add: sq_get_iff task_Get_def)
  have nt: "\<not> IsTerminal (State rec)" using assms(3) by (auto simp: IsTerminal_def)
  have sid: "ID rec = k" "savable rec"
    using sqlite.get_savable [OF assms(1,2)] by auto
  define out1 where "out1 = (stored_out rec)\<lparr>o_History := o_History (stored_out rec) @ [agent_text (strip response)]\<rparr>"
  define out where "out = (if fl_auth fl response then (case fl_challenge fl response of None \<Rightarrow> out1
      | Some d \<Rightarrow> out1\<lparr>o_Details := Some d\<rparr>) else out1)"
  let ?rec = "rec\<lparr>OutputBlob := RawJson (enc_output out)\<rparr>"
  have unfold: "taskCompleter fl strip slug now None None k response rows =
      (case TransitionTask (Some ?rec) (decideState fl response) (''silence-finalize via '' @ slug) now of
         Inl _ \<Rightarrow> rows | Inr r' \<Rightarrow> sq_save now rows r')"
    using get nt by (simp add: taskCompleter_def out_def out1_def Let_def sq_save_def split: option.split sum.split)
  have dec: "decideState fl response \<in> {TaskStateAuthRequired, TaskStateInputRequired, TaskStateCompleted}"
    by (simp add: decideState_def)
  show ?thesis
  proof (intro conjI impI)
    assume w: "State rec = TaskStateWorking"
    let ?r' = "?rec\<lparr>State := decideState fl response, UpdatedAt := now\<rparr>"
    have tr: "TransitionTask (Some ?rec) (decideState fl response) (''silence-finalize via '' @ slug) now = Inr ?r'"
      using w dec by (auto simp: TransitionTask_def Let_def IsValidTransition_def allowedTransitions_def IsTerminal_def)
    have "savable ?r'" using sid dec by (auto simp: savable_def)
    from sqlite.get_save_same [OF assms(1) this, of now] obtain r' where r':
        "sq_get (sq_save now rows ?r') k = Some r'" "State r' = decideState fl response"
        "OutputBlob r' = RawJson (enc_output out)" using sid by auto
    then have "stored_out r' = out" by (simp add: stored_out_def unmarshal_def)
    moreover have "o_History out = o_History out1" "o_Artifacts out = o_Artifacts out1"
      by (simp_all add: out_def split: option.split)
    ultimately show "\<exists>r'. sq_get (taskCompleter fl strip slug now None None k response rows) k = Some r'
          \<and> State r' = decideState fl response
          \<and> o_History (stored_out r') = o_History (stored_out rec) @ [agent_text (strip response)]
          \<and> o_Artifacts (stored_out r') = o_Artifacts (stored_out rec)"
      using r' tr unfold by (simp add: out1_def)
  next
    assume "State rec \<noteq> TaskStateWorking"
    then have "\<not> IsValidTransition (State rec) (decideState fl response)"
      using assms(3,4) dec by (auto simp: IsValidTransition_def allowedTransitions_def)
    then have "\<exists>e. TransitionTask (Some ?rec) (decideState fl response) (''silence-finalize via '' @ slug) now = Inl e"
      using assms(3) by (auto simp: TransitionTask_def Let_def)
    then show "taskCompleter fl strip slug now None None k response rows = rows" using unfold by auto
  qed
qed

theorem silence_completion_witness:
  "map_option State (sq_get (taskCompleter \<lparr>fl_auth = (\<lambda>_. False), fl_input = (\<lambda>_. False), fl_challenge = (\<lambda>_. None)\<rparr>
      (\<lambda>s. s) ''claude-code'' 9 None None ''t'' ''ok'' (sv_tasks (demo_server TaskStateWorking))) ''t'')
    = Some TaskStateCompleted"
proof -
  let ?fl = "\<lparr>fl_auth = (\<lambda>_. False), fl_input = (\<lambda>_. False), fl_challenge = (\<lambda>_. None)\<rparr>"
  have "task_rows_ok (sv_tasks (demo_server TaskStateWorking))" by (rule demo_server_ok(1)) simp
  moreover have "sq_get (sv_tasks (demo_server TaskStateWorking)) ''t'' =
      Some (hd (sv_tasks (demo_server TaskStateWorking)))"
    by (simp add: sq_get_def demo_server_ok(2))
  moreover have "decideState ?fl ''ok'' = TaskStateCompleted" by (simp add: decideState_def)
  ultimately show ?thesis
    using silence_completion [of "sv_tasks (demo_server TaskStateWorking)" "''t''"
      "hd (sv_tasks (demo_server TaskStateWorking))" ?fl "''ok''" "\<lambda>s. s" "''claude-code''" 9]
    by (auto simp: demo_server_ok(3))
qed

end
