(* ===== verification/Pump.thy ===== *)
theory Pump
  imports Deliverer
begin

text \<open>
  The receive loop of \<open>internal/runtime/a2a_publisher.go\<close>: it turns a session's terminal output into
  stream events and, once the response is complete, calls the completer. The select loop is a fold over
  the events it picks; \<open>SendNow\<close> marks where the response starts and is disabled after it fires. A
  silence tick of an unarmed timer cannot happen and is ignored.
\<close>

section \<open>State and loop\<close>

datatype pump_event =
    PSendNow
  | PChunk string
  | PClosed
  | PSilenceFire
  | PSilenceTimer
  | PSubDone

datatype pump_out = OPublish string stream_event | OComplete string string

record pump_state =
  ps_buf :: string
  ps_offset :: "nat option"
  ps_mark :: bool
  ps_armed :: bool

definition promptCursorUTF8 :: string where
  "promptCursorUTF8 = [CHR 0xE2, CHR 0x9D, CHR 0xAF]"

definition silenceWindow :: "string \<Rightarrow> int" where
  "silenceWindow v =
     (if v \<noteq> [] then (case atoi v of Some ms \<Rightarrow> if ms > 0 then ms * millisecond else 1500 * millisecond
                      | None \<Rightarrow> 1500 * millisecond)
      else 1500 * millisecond)"

definition finalizeEvent :: "a2a_task \<Rightarrow> task_state \<Rightarrow> stream_event" where
  "finalizeEvent t st =
     \<lparr>ev_Type = (if IsTerminal st then ''done'' else ''status''),
      ev_Task = Some \<lparr>t_ID = t_ID t, t_ContextID = t_ContextID t,
         t_Status = \<lparr>s_State = st, s_Message = None, s_Details = None\<rparr>,
         t_History = [], t_Artifacts = [], t_Kind = ''task''\<rparr>,
      ev_Artifact = None\<rparr>"

definition doneEvent :: "a2a_task \<Rightarrow> stream_event" where
  "doneEvent t = finalizeEvent t TaskStateCompleted"

definition chunkEvent :: "a2a_task \<Rightarrow> string \<Rightarrow> stream_event" where
  "chunkEvent t chunk =
     \<lparr>ev_Type = ''artifact'', ev_Task = None,
      ev_Artifact = Some \<lparr>a_ArtifactID = t_ID t @ ''-stream'', a_Name = [],
        a_Parts = [\<lparr>p_Kind = ''text'', p_Text = chunk, p_File = None, p_Data = None\<rparr>]\<rparr>\<rparr>"

definition responseSlice :: "pump_state \<Rightarrow> string" where
  "responseSlice st = (case ps_offset st of None \<Rightarrow> ps_buf st
     | Some n \<Rightarrow> if n > length (ps_buf st) then ps_buf st else drop n (ps_buf st))"

text \<open>\<open>completer\<close> says whether one is wired; \<open>decide\<close> is the injected state decision, absent when nil.\<close>

record pump_config =
  pf_broker :: bool
  pf_completer :: bool
  pf_decide :: "(string \<Rightarrow> task_state) option"

definition finalize :: "pump_config \<Rightarrow> a2a_task \<Rightarrow> pump_state \<Rightarrow> pump_out list" where
  "finalize pf t st =
     (let slice = responseSlice st in
      (if pf_completer pf \<and> slice \<noteq> [] then [OComplete (t_ID t) slice] else [])
      @ (if pf_broker pf
         then [OPublish (t_ID t) (finalizeEvent t
                 (case pf_decide pf of None \<Rightarrow> TaskStateCompleted | Some decide \<Rightarrow> decide slice))]
         else []))"

fun pump_loop :: "pump_config \<Rightarrow> a2a_task \<Rightarrow> pump_state \<Rightarrow> pump_event list \<Rightarrow> pump_out list" where
  "pump_loop pf t st [] = []"
| "pump_loop pf t st (PSendNow # evs) =
     pump_loop pf t (if ps_mark st then st\<lparr>ps_offset := Some (length (ps_buf st)), ps_mark := False\<rparr> else st) evs"
| "pump_loop pf t st (PChunk c # evs) =
     (if pf_broker pf then [OPublish (t_ID t) (chunkEvent t c)] else [])
     @ pump_loop pf t (st\<lparr>ps_buf := ps_buf st @ c, ps_armed := True\<rparr>) evs"
| "pump_loop pf t st (PClosed # evs) = finalize pf t st"
| "pump_loop pf t st (PSubDone # evs) = finalize pf t st"
| "pump_loop pf t st (PSilenceFire # evs) =
     (if \<not> str_contains promptCursorUTF8 (responseSlice st) then pump_loop pf t st evs else finalize pf t st)"
| "pump_loop pf t st (PSilenceTimer # evs) =
     (if \<not> ps_armed st \<or> \<not> str_contains promptCursorUTF8 (responseSlice st) then pump_loop pf t st evs
      else finalize pf t st)"

definition workingEvent :: "a2a_task \<Rightarrow> stream_event" where
  "workingEvent t = \<lparr>ev_Type = ''status'',
     ev_Task = Some \<lparr>t_ID = t_ID t, t_ContextID = t_ContextID t,
        t_Status = \<lparr>s_State = TaskStateWorking, s_Message = None, s_Details = None\<rparr>,
        t_History = [], t_Artifacts = [], t_Kind = ''task''\<rparr>, ev_Artifact = None\<rparr>"

text \<open>\<open>None\<close> for the task is the nil pointer, \<open>subscribed\<close> the outcome of \<open>sess.Subscribe\<close>, \<open>mark\<close>
  whether a send mark is wired.\<close>

definition pumpPTYToBrokerWithState ::
    "pump_config \<Rightarrow> bool \<Rightarrow> bool \<Rightarrow> a2a_task option \<Rightarrow> pump_event list \<Rightarrow> pump_out list" where
  "pumpPTYToBrokerWithState pf subscribed mark task evs =
     (case task of None \<Rightarrow> []
      | Some t \<Rightarrow>
          if \<not> subscribed then []
          else (if pf_broker pf then [OPublish (t_ID t) (workingEvent t)] else [])
               @ pump_loop pf t \<lparr>ps_buf = [], ps_offset = None, ps_mark = mark, ps_armed = False\<rparr> evs)"

section \<open>Lemmas\<close>

definition chunk_bytes :: "pump_event list \<Rightarrow> string" where
  "chunk_bytes evs = concat (map (\<lambda>e. case e of PChunk c \<Rightarrow> c | _ \<Rightarrow> []) evs)"

text \<open>The bytes that count as the response: those after the first mark, or all of them.\<close>

definition response_of :: "bool \<Rightarrow> pump_event list \<Rightarrow> string" where
  "response_of mark evs =
     chunk_bytes (if mark \<and> PSendNow \<in> set evs then tl (dropWhile (\<lambda>e. e \<noteq> PSendNow) evs) else evs)"

fun pump_state_after :: "pump_state \<Rightarrow> pump_event list \<Rightarrow> pump_state" where
  "pump_state_after st [] = st"
| "pump_state_after st (PSendNow # evs) =
     pump_state_after (if ps_mark st then st\<lparr>ps_offset := Some (length (ps_buf st)), ps_mark := False\<rparr> else st) evs"
| "pump_state_after st (PChunk c # evs) = pump_state_after (st\<lparr>ps_buf := ps_buf st @ c, ps_armed := True\<rparr>) evs"
| "pump_state_after st (_ # evs) = pump_state_after st evs"

definition is_completion :: "pump_out \<Rightarrow> bool" where
  "is_completion x = (case x of OComplete _ _ \<Rightarrow> True | OPublish _ _ \<Rightarrow> False)"

definition chunk_outs :: "pump_config \<Rightarrow> a2a_task \<Rightarrow> pump_event list \<Rightarrow> pump_out list" where
  "chunk_outs pf t evs = (if pf_broker pf
     then concat (map (\<lambda>e. case e of PChunk c \<Rightarrow> [OPublish (t_ID t) (chunkEvent t c)] | _ \<Rightarrow> []) evs) else [])"

definition silence_tick :: "pump_event \<Rightarrow> bool" where
  "silence_tick e \<longleftrightarrow> e = PSilenceFire \<or> e = PSilenceTimer"

definition final_event :: "pump_event \<Rightarrow> pump_state \<Rightarrow> bool" where
  "final_event e st \<longleftrightarrow> e = PClosed \<or> e = PSubDone
     \<or> silence_tick e \<and> str_contains promptCursorUTF8 (responseSlice st)"

text \<open>Either the loop never finalizes, or it finalizes after some prefix.\<close>

definition pump_shape :: "pump_config \<Rightarrow> a2a_task \<Rightarrow> pump_state \<Rightarrow> pump_event list \<Rightarrow> pump_out list \<Rightarrow> bool" where
  "pump_shape pf t st evs out \<longleftrightarrow> out = chunk_outs pf t evs \<or>
     (\<exists>pre e post. evs = pre @ e # post \<and> final_event e (pump_state_after st pre)
        \<and> out = chunk_outs pf t pre @ finalize pf t (pump_state_after st pre))"

lemma chunk_outs_append: "chunk_outs pf t (xs @ ys) = chunk_outs pf t xs @ chunk_outs pf t ys"
  by (simp add: chunk_outs_def)

lemma state_after_append: "pump_state_after st (xs @ ys) = pump_state_after (pump_state_after st xs) ys"
  by (induction st xs rule: pump_state_after.induct) simp_all

lemma pump_shape_Cons:
  assumes "pump_shape pf t (pump_state_after st [x]) evs out"
  shows "pump_shape pf t st (x # evs) (chunk_outs pf t [x] @ out)"
proof -
  from assms [unfolded pump_shape_def] consider
      (never) "out = chunk_outs pf t evs"
    | (fin) pre e post where "evs = pre @ e # post"
        "final_event e (pump_state_after (pump_state_after st [x]) pre)"
        "out = chunk_outs pf t pre @ finalize pf t (pump_state_after (pump_state_after st [x]) pre)" by blast
  then show ?thesis
  proof cases
    case never
    then show ?thesis unfolding pump_shape_def using chunk_outs_append [of pf t "[x]" evs] by simp
  next
    case fin
    have "pump_state_after st (x # pre) = pump_state_after (pump_state_after st [x]) pre"
      using state_after_append [of st "[x]" pre] by simp
    moreover have "chunk_outs pf t (x # pre) = chunk_outs pf t [x] @ chunk_outs pf t pre"
      using chunk_outs_append [of pf t "[x]" pre] by simp
    ultimately show ?thesis unfolding pump_shape_def using fin
      by (intro disjI2 exI [of _ "x # pre"] exI [of _ e] exI [of _ post]) simp
  qed
qed

lemma chunk_outs_simps [simp]:
  "chunk_outs pf t [] = []" "chunk_outs pf t [PSendNow] = []" "chunk_outs pf t [PSilenceFire] = []"
  "chunk_outs pf t [PSilenceTimer] = []"
  "chunk_outs pf t [PChunk c] = (if pf_broker pf then [OPublish (t_ID t) (chunkEvent t c)] else [])"
  by (simp_all add: chunk_outs_def)

lemma pump_shape_final: "final_event e st \<Longrightarrow> pump_shape pf t st (e # evs) (finalize pf t st)"
  unfolding pump_shape_def by (rule disjI2, rule exI [of _ "[]"]) simp

lemma pump_loop_shape: "pump_shape pf t st evs (pump_loop pf t st evs)"
proof (induction pf t st evs rule: pump_loop.induct)
  case (1 pf t st)
  show ?case by (simp add: pump_shape_def)
next
  case (2 pf t st evs)
  then have "pump_shape pf t (pump_state_after st [PSendNow]) evs (pump_loop pf t st (PSendNow # evs))"
    by simp
  from pump_shape_Cons [OF this] show ?case by (simp only: chunk_outs_simps append_Nil)
next
  case (3 pf t st c evs)
  let ?st = "st\<lparr>ps_buf := ps_buf st @ c, ps_armed := True\<rparr>"
  from 3 have "pump_shape pf t (pump_state_after st [PChunk c]) evs (pump_loop pf t ?st evs)" by simp
  from pump_shape_Cons [OF this] show ?case by (simp only: chunk_outs_simps pump_loop.simps)
next
  case (4 pf t st evs)
  show ?case by (simp add: pump_shape_final final_event_def)
next
  case (5 pf t st evs)
  show ?case by (simp add: pump_shape_final final_event_def)
next
  case (6 pf t st evs)
  show ?case
  proof (cases "str_contains promptCursorUTF8 (responseSlice st)")
    case True
    then show ?thesis by (simp add: pump_shape_final final_event_def silence_tick_def)
  next
    case False
    with 6 have "pump_shape pf t (pump_state_after st [PSilenceFire]) evs (pump_loop pf t st evs)" by simp
    from pump_shape_Cons [OF this] False show ?thesis by simp
  qed
next
  case (7 pf t st evs)
  show ?case
  proof (cases "ps_armed st \<and> str_contains promptCursorUTF8 (responseSlice st)")
    case True
    then show ?thesis by (simp add: pump_shape_final final_event_def silence_tick_def)
  next
    case False
    with 7 have "pump_shape pf t (pump_state_after st [PSilenceTimer]) evs (pump_loop pf t st evs)" by auto
    from pump_shape_Cons [OF this] False show ?thesis by auto
  qed
qed

lemma state_after_buf: "ps_buf (pump_state_after st evs) = ps_buf st @ chunk_bytes evs"
  by (induction st evs rule: pump_state_after.induct) (auto simp: chunk_bytes_def)

lemma state_after_offset:
  "ps_offset (pump_state_after st evs) =
     (if ps_mark st \<and> PSendNow \<in> set evs
      then Some (length (ps_buf st @ chunk_bytes (takeWhile (\<lambda>e. e \<noteq> PSendNow) evs))) else ps_offset st)"
  by (induction st evs rule: pump_state_after.induct) (auto simp: chunk_bytes_def)

lemma chunk_bytes_append: "chunk_bytes (xs @ ys) = chunk_bytes xs @ chunk_bytes ys"
  by (simp add: chunk_bytes_def)

text \<open>The slice the pump hands over is the response of the events so far.\<close>

lemma slice_is_response:
  "responseSlice (pump_state_after \<lparr>ps_buf = [], ps_offset = None, ps_mark = mark, ps_armed = False\<rparr> evs)
     = response_of mark evs"
proof (cases "mark \<and> PSendNow \<in> set evs")
  case True
  let ?p = "\<lambda>e. e \<noteq> PSendNow"
  have split: "evs = takeWhile ?p evs @ dropWhile ?p evs" by simp
  have "dropWhile ?p evs \<noteq> []" using True by simp
  then have drop: "dropWhile ?p evs = PSendNow # tl (dropWhile ?p evs)"
    using hd_dropWhile [of ?p evs] by (cases "dropWhile ?p evs") simp_all
  have "chunk_bytes (PSendNow # xs) = chunk_bytes xs" for xs by (simp add: chunk_bytes_def)
  then have "chunk_bytes (dropWhile ?p evs) = chunk_bytes (tl (dropWhile ?p evs))"
    using drop by metis
  then have "chunk_bytes evs = chunk_bytes (takeWhile ?p evs) @ chunk_bytes (tl (dropWhile ?p evs))"
    using chunk_bytes_append [of "takeWhile ?p evs" "dropWhile ?p evs"] by simp
  then show ?thesis using True
    by (simp add: responseSlice_def state_after_buf state_after_offset response_of_def)
next
  case False
  then show ?thesis by (auto simp: responseSlice_def state_after_buf state_after_offset response_of_def)
qed

section \<open>Properties\<close>



end
