(* ===== verification/Ring_Buffer.thy ===== *)
theory Ring_Buffer
  imports Prelude
begin

text \<open>
  The replay buffer of \<open>internal/ptyhost/session/buffer.go\<close>: a fixed array with a write position. The
  locale \<open>suffix_buffer\<close> is what its clients rely on, a buffer that keeps the last \<open>cap\<close> elements of a
  stream; the completion detector's tail is a second instance.
\<close>

section \<open>Buffers that keep a suffix\<close>

locale suffix_buffer =
  fixes cap :: nat
    and ok :: "'b \<Rightarrow> bool"
    and contents :: "'b \<Rightarrow> 'a list"
    and put :: "'b \<Rightarrow> 'a list \<Rightarrow> 'b"
  assumes ok_write: "ok b \<Longrightarrow> ok (put b p)"
    and contents_write: "ok b \<Longrightarrow> contents (put b p) = lastn cap (contents b @ p)"
    and contents_bound: "ok b \<Longrightarrow> length (contents b) \<le> cap"
begin

lemma ok_writes: "ok b \<Longrightarrow> ok (foldl put b ps)"
  by (induction ps arbitrary: b) (simp_all add: ok_write)

lemma contents_writes: "ok b \<Longrightarrow> contents (foldl put b ps) = lastn cap (contents b @ concat ps)"
proof (induction ps arbitrary: b)
  case Nil
  then show ?case by (simp add: contents_bound)
next
  case (Cons p ps)
  have "contents (foldl put (put b p) ps) = lastn cap (contents (put b p) @ concat ps)"
    by (rule Cons.IH) (rule ok_write [OF Cons.prems])
  then show ?case by (simp add: contents_write [OF Cons.prems])
qed

text \<open>What a reader of the buffer sees does not depend on how the stream was cut into chunks.\<close>

lemma chunking_irrelevant:
  "ok b \<Longrightarrow> concat ps = concat qs \<Longrightarrow> contents (foldl put b ps) = contents (foldl put b qs)"
  by (simp add: contents_writes)

end

section \<open>The ring\<close>

record ring =
  rb_buf :: "char list"
  rb_cap :: nat
  rb_full :: bool
  rb_pos :: nat

definition NewRingBuffer :: "int \<Rightarrow> ring" where
  "NewRingBuffer capacity =
     (let c = (if capacity \<le> 0 then 1 else nat capacity) in
      \<lparr>rb_buf = replicate c (CHR 0x00), rb_cap = c, rb_full = False, rb_pos = 0\<rparr>)"

definition ring_put :: "ring \<Rightarrow> char \<Rightarrow> ring" where
  "ring_put r b =
     (let r1 = r\<lparr>rb_buf := (rb_buf r)[rb_pos r := b], rb_pos := rb_pos r + 1\<rparr> in
      if rb_pos r1 \<ge> rb_cap r1 then r1\<lparr>rb_pos := 0, rb_full := True\<rparr> else r1)"

definition ring_Write :: "ring \<Rightarrow> string \<Rightarrow> ring" where
  "ring_Write r p = foldl ring_put r p"

definition ring_Snapshot :: "ring \<Rightarrow> string" where
  "ring_Snapshot r =
     (if \<not> rb_full r then take (rb_pos r) (rb_buf r)
      else drop (rb_pos r) (rb_buf r) @ take (rb_pos r) (rb_buf r))"

definition ring_Len :: "ring \<Rightarrow> nat" where
  "ring_Len r = (if rb_full r then rb_cap r else rb_pos r)"

definition ring_ok :: "nat \<Rightarrow> ring \<Rightarrow> bool" where
  "ring_ok n r \<longleftrightarrow> rb_cap r = n \<and> 0 < n \<and> length (rb_buf r) = n \<and> rb_pos r < n"

lemma ring_put_ok: "ring_ok n r \<Longrightarrow> ring_ok n (ring_put r b)"
  by (simp add: ring_ok_def ring_put_def Let_def)

lemma ring_snapshot_bound: "ring_ok n r \<Longrightarrow> length (ring_Snapshot r) \<le> n"
  by (simp add: ring_ok_def ring_Snapshot_def)

lemma take_Suc_update: "p < length xs \<Longrightarrow> take (Suc p) (xs[p := b]) = take p xs @ [b]"
  by (simp add: take_Suc_conv_app_nth)

lemma drop_Suc_update: "drop (Suc p) (xs[p := b]) = drop (Suc p) xs"
  by simp

lemma ring_put_snapshot:
  assumes "ring_ok n r"
  shows "ring_Snapshot (ring_put r b) = lastn n (ring_Snapshot r @ [b])"
proof -
  let ?p = "rb_pos r" and ?xs = "rb_buf r"
  have p: "?p < length ?xs" "length ?xs = n" using assms by (auto simp: ring_ok_def)
  show ?thesis
  proof (cases "rb_full r")
    case False
    have "ring_Snapshot (ring_put r b) = take ?p ?xs @ [b]"
      using False p assms take_Suc_update [OF p(1), of b]
      by (auto simp: ring_Snapshot_def ring_put_def ring_ok_def Let_def)
    then show ?thesis using False p by (simp add: ring_Snapshot_def)
  next
    case True
    have "ring_Snapshot (ring_put r b) = drop (Suc ?p) ?xs @ take ?p ?xs @ [b]"
      using True p assms take_Suc_update [OF p(1), of b]
      by (auto simp: ring_Snapshot_def ring_put_def ring_ok_def Let_def)
    moreover have "lastn n ((drop ?p ?xs @ take ?p ?xs) @ [b]) = drop (Suc ?p) ?xs @ take ?p ?xs @ [b]"
      using p by (simp add: lastn_def Cons_nth_drop_Suc [symmetric])
    ultimately show ?thesis using True by (simp add: ring_Snapshot_def)
  qed
qed

lemma ring_Write_ok: "ring_ok n r \<Longrightarrow> ring_ok n (ring_Write r p)"
  unfolding ring_Write_def by (induction p arbitrary: r) (simp_all add: ring_put_ok)

lemma ring_Write_snapshot:
  "ring_ok n r \<Longrightarrow> ring_Snapshot (ring_Write r p) = lastn n (ring_Snapshot r @ p)"
proof (induction p arbitrary: r)
  case Nil
  then show ?case by (simp add: ring_Write_def ring_snapshot_bound)
next
  case (Cons b p)
  have "ring_Snapshot (ring_Write (ring_put r b) p) = lastn n (ring_Snapshot (ring_put r b) @ p)"
    by (rule Cons.IH) (rule ring_put_ok [OF Cons.prems])
  then show ?case by (simp add: ring_Write_def ring_put_snapshot [OF Cons.prems])
qed

interpretation ring: suffix_buffer n "ring_ok n" ring_Snapshot ring_Write for n
  by unfold_locales (simp_all add: ring_Write_ok ring_Write_snapshot ring_snapshot_bound)

lemma NewRingBuffer_ok: "ring_ok (max 1 (nat c)) (NewRingBuffer c)"
  by (auto simp: ring_ok_def NewRingBuffer_def Let_def max_def)

lemma NewRingBuffer_empty [simp]: "ring_Snapshot (NewRingBuffer c) = []"
  by (simp add: ring_Snapshot_def NewRingBuffer_def Let_def)

lemma ring_Len_snapshot: "ring_ok n r \<Longrightarrow> ring_Len r = length (ring_Snapshot r)"
  by (simp add: ring_Len_def ring_Snapshot_def ring_ok_def)

section \<open>Property\<close>

text \<open>C28: after any writes the ring replays exactly the last bytes of the output, as many as its
  capacity (at least one) allows, in order and however the output was cut into chunks, and its length
  is the number of bytes it replays.\<close>

theorem ring_replays_tail:
  "ring_Snapshot (foldl ring_Write (NewRingBuffer c) ps) = lastn (max 1 (nat c)) (concat ps)
   \<and> ring_Len (foldl ring_Write (NewRingBuffer c) ps) = min (max 1 (nat c)) (length (concat ps))"
proof -
  let ?n = "max 1 (nat c)"
  have "ring_Snapshot (foldl ring_Write (NewRingBuffer c) ps) = lastn ?n (concat ps)"
    using ring.contents_writes [OF NewRingBuffer_ok, of c ps] by simp
  moreover have "ring_ok ?n (foldl ring_Write (NewRingBuffer c) ps)"
    by (rule ring.ok_writes [OF NewRingBuffer_ok])
  ultimately show ?thesis using ring_Len_snapshot [of ?n] by simp
qed

end
