(* ===== verification/Pty_Session.thy ===== *)
theory Pty_Session
  imports Ring_Buffer Deliverer Go_Map
begin

text \<open>
  A terminal session (\<open>internal/ptyhost/session/session.go\<close>) and the registry of sessions
  (\<open>manager.go\<close>). The read loop writes a chunk to the ring, then collects the subscribers, then sends:
  three steps between which other goroutines run, so the loop's position is part of the state. A
  subscriber is an index into the heap of subscribers ever made. The operating system (spawning, exit,
  file writes) appears as arguments.
\<close>

section \<open>Configuration\<close>

definition MaxRingBytes :: int where "MaxRingBytes = 16 * 1048576"

definition DefaultRingBytes0 :: int where "DefaultRingBytes0 = 1048576"

text \<open>The new value of the package variable, the effective size and whether it was clamped.\<close>

definition LoadDefaultRingBytesFromEnv :: "string \<Rightarrow> int \<Rightarrow> int \<times> int \<times> bool" where
  "LoadDefaultRingBytesFromEnv env dflt =
     (let raw = trim_space env in
      if raw = [] then (dflt, dflt, False)
      else case atoi raw of
        None \<Rightarrow> (dflt, dflt, False)
      | Some n \<Rightarrow>
          if n \<le> 0 then (dflt, dflt, False)
          else if n > MaxRingBytes then (MaxRingBytes, MaxRingBytes, True)
          else (n, n, False))"

section \<open>Session\<close>

record subscriber =
  su_queue :: "string list"
  su_depth :: nat
  su_done :: bool

datatype read_phase = RIdle | RRung string | RSending string "nat list"

record session =
  se_ring :: ring
  se_heap :: "subscriber list"
  se_subs :: "nat list"
  se_closed :: bool
  se_exitErr :: "go_error option"
  se_phase :: read_phase
  se_stdin :: string
  se_lastOperatorWrite :: time

definition ErrClosed :: go_error where "ErrClosed = ''session: closed''"

definition New :: "string list \<Rightarrow> int \<Rightarrow> int \<Rightarrow> go_error option \<Rightarrow> session result" where
  "New command ringBytes dflt startErr =
     (if command = [] then Inl ''session: empty Command''
      else let size = (if ringBytes = 0 then dflt else ringBytes) in
      case startErr of Some e \<Rightarrow> Inl e
      | None \<Rightarrow> Inr \<lparr>se_ring = NewRingBuffer size, se_heap = [], se_subs = [], se_closed = False,
                     se_exitErr = None, se_phase = RIdle, se_stdin = [], se_lastOperatorWrite = time_zero\<rparr>)"

definition read_chunk :: "string \<Rightarrow> session \<Rightarrow> session" where
  "read_chunk c s = (case se_phase s of
     RIdle \<Rightarrow> s\<lparr>se_ring := ring_Write (se_ring s) c, se_phase := RRung c\<rparr> | _ \<Rightarrow> s)"

definition fan_collect :: "session \<Rightarrow> session" where
  "fan_collect s = (case se_phase s of RRung c \<Rightarrow> s\<lparr>se_phase := RSending c (se_subs s)\<rparr> | _ \<Rightarrow> s)"

definition offer :: "string \<Rightarrow> subscriber \<Rightarrow> subscriber" where
  "offer c su = (if length (su_queue su) < su_depth su then su\<lparr>su_queue := su_queue su @ [c]\<rparr> else su)"

definition fan_send :: "session \<Rightarrow> session" where
  "fan_send s = (case se_phase s of
     RSending c ts \<Rightarrow>
       s\<lparr>se_heap := foldl (\<lambda>h t. h[t := offer c (h ! t)]) (se_heap s) ts, se_phase := RIdle\<rparr>
   | _ \<Rightarrow> s)"

definition session_Subscribe :: "int \<Rightarrow> session \<Rightarrow> (nat \<times> string) result \<times> session" where
  "session_Subscribe bufferDepth s =
     (if se_closed s then (Inl ErrClosed, s)
      else
        let depth = (if bufferDepth \<le> 0 then 64 else nat bufferDepth);
            p = length (se_heap s)
        in (Inr (p, ring_Snapshot (se_ring s)),
            s\<lparr>se_heap := se_heap s @ [\<lparr>su_queue = [], su_depth = depth, su_done = False\<rparr>],
              se_subs := se_subs s @ [p]\<rparr>))"

definition session_Unsubscribe :: "nat \<Rightarrow> session \<Rightarrow> session" where
  "session_Unsubscribe p s = s\<lparr>se_subs := removeAll p (se_subs s)\<rparr>"

text \<open>\<open>Write\<close> records the time of operator input, \<open>Inject\<close> does not; \<open>werr\<close> is the file's error.\<close>

definition session_Write :: "string \<Rightarrow> time \<Rightarrow> go_error option \<Rightarrow> session \<Rightarrow> go_error option \<times> session" where
  "session_Write p now werr s =
     (if se_closed s then (Some ErrClosed, s)
      else let s1 = s\<lparr>se_lastOperatorWrite := now\<rparr> in
      (case werr of Some e \<Rightarrow> (Some e, s1) | None \<Rightarrow> (None, s1\<lparr>se_stdin := se_stdin s1 @ p\<rparr>)))"

definition session_Inject :: "string \<Rightarrow> go_error option \<Rightarrow> session \<Rightarrow> go_error option \<times> session" where
  "session_Inject p werr s =
     (if se_closed s then (Some ErrClosed, s)
      else case werr of Some e \<Rightarrow> (Some e, s) | None \<Rightarrow> (None, s\<lparr>se_stdin := se_stdin s @ p\<rparr>))"

text \<open>The critical section of \<open>waitLoop\<close> after the child exited.\<close>

definition wait_reap :: "go_error option \<Rightarrow> session \<Rightarrow> session" where
  "wait_reap err s =
     (if se_closed s then s
      else s\<lparr>se_closed := True, se_exitErr := err,
             se_heap := foldl (\<lambda>h t. h[t := (h ! t)\<lparr>su_done := True\<rparr>]) (se_heap s) (se_subs s)\<rparr>)"

definition session_ExitError :: "session \<Rightarrow> go_error option" where
  "session_ExitError s = (if \<not> se_closed s then None else se_exitErr s)"

datatype session_op =
    SRead string
  | SCollect
  | SSend
  | SSubscribe int
  | SUnsubscribe nat
  | SReap "go_error option"
  | SInject string "go_error option"
  | SWrite string time "go_error option"

fun session_step :: "session_op \<Rightarrow> session \<Rightarrow> session" where
  "session_step (SRead c) s = read_chunk c s"
| "session_step SCollect s = fan_collect s"
| "session_step SSend s = fan_send s"
| "session_step (SSubscribe d) s = snd (session_Subscribe d s)"
| "session_step (SUnsubscribe p) s = session_Unsubscribe p s"
| "session_step (SReap e) s = wait_reap e s"
| "session_step (SInject p e) s = snd (session_Inject p e s)"
| "session_step (SWrite p now e) s = snd (session_Write p now e s)"

definition session_run :: "session_op list \<Rightarrow> session \<Rightarrow> session" where
  "session_run ops s = foldl (\<lambda>s x. session_step x s) s ops"

text \<open>The chunks the read loop reads during a run.\<close>

fun chunks_read :: "session_op list \<Rightarrow> session \<Rightarrow> string list" where
  "chunks_read [] s = []"
| "chunks_read (x # xs) s =
     (case x of SRead c \<Rightarrow> (if se_phase s = RIdle then [c] else []) | _ \<Rightarrow> [])
     @ chunks_read xs (session_step x s)"

text \<open>A chunk the loop holds that subscriber \<open>p\<close> will still be offered.\<close>

definition upcoming :: "nat \<Rightarrow> session \<Rightarrow> string list" where
  "upcoming p s = (case se_phase s of RIdle \<Rightarrow> [] | RRung c \<Rightarrow> if p \<in> set (se_subs s) then [c] else []
     | RSending c ts \<Rightarrow> if p \<in> set ts then [c] else [])"

definition session_ok :: "session \<Rightarrow> bool" where
  "session_ok s \<longleftrightarrow> distinct (se_subs s) \<and> (\<forall>p \<in> set (se_subs s). p < length (se_heap s))
     \<and> (case se_phase s of RSending c ts \<Rightarrow> distinct ts \<and> (\<forall>p \<in> set ts. p < length (se_heap s)) | _ \<Rightarrow> True)"

lemma foldl_update_other:
  "p \<notin> set ts \<Longrightarrow> foldl (\<lambda>h t. h[t := f (h ! t)]) h ts ! p = h ! p"
  by (induction ts arbitrary: h) auto

lemma foldl_update_length [simp]: "length (foldl (\<lambda>h t. h[t := f (h ! t)]) h ts) = length h"
  by (induction ts arbitrary: h) auto

lemma foldl_update_in:
  "distinct ts \<Longrightarrow> p \<in> set ts \<Longrightarrow> \<forall>t \<in> set ts. t < length h \<Longrightarrow>
     foldl (\<lambda>h t. h[t := f (h ! t)]) h ts ! p = f (h ! p)"
proof (induction ts arbitrary: h)
  case (Cons t ts)
  show ?case
  proof (cases "p = t")
    case True
    then show ?thesis using Cons.prems foldl_update_other [of t ts f "h[t := f (h ! t)]"] by simp
  next
    case False
    then show ?thesis using Cons by simp
  qed
qed simp

lemma session_step_ok: "session_ok s \<Longrightarrow> session_ok (session_step x s)"
  by (cases x) (auto simp: session_ok_def read_chunk_def fan_collect_def fan_send_def session_Subscribe_def
      session_Unsubscribe_def wait_reap_def session_Inject_def session_Write_def Let_def distinct_removeAll
      split: read_phase.splits option.splits)

definition seen :: "nat \<Rightarrow> session \<Rightarrow> string list" where
  "seen p s = su_queue (se_heap s ! p) @ upcoming p s"

definition op_chunk :: "session_op \<Rightarrow> session \<Rightarrow> string list" where
  "op_chunk x s = (case x of SRead c \<Rightarrow> (if se_phase s = RIdle then [c] else []) | _ \<Rightarrow> [])"

lemma chunks_read_Cons [simp]: "chunks_read (x # xs) s = op_chunk x s @ chunks_read xs (session_step x s)"
  by (simp add: op_chunk_def)

declare chunks_read.simps(2) [simp del]

lemma fan_send_seen:
  assumes ok: "session_ok s" and p: "p \<in> set (se_subs s)"
    and room: "length (seen p s) \<le> su_depth (se_heap s ! p)"
  shows "seen p (fan_send s) = seen p s \<and> su_depth (se_heap (fan_send s) ! p) = su_depth (se_heap s ! p)"
proof (cases "se_phase s")
  case (RSending c ts)
  then have ts: "distinct ts" "\<forall>t \<in> set ts. t < length (se_heap s)" using ok by (simp_all add: session_ok_def)
  show ?thesis
  proof (cases "p \<in> set ts")
    case True
    have "length (su_queue (se_heap s ! p)) < su_depth (se_heap s ! p)"
      using room True RSending by (simp add: seen_def upcoming_def)
    then show ?thesis
      using foldl_update_in [OF ts(1) True ts(2), of "offer c"] True RSending
      by (simp add: fan_send_def seen_def upcoming_def offer_def)
  next
    case False
    then show ?thesis using foldl_update_other [OF False, of "offer c"] RSending
      by (simp add: fan_send_def seen_def upcoming_def)
  qed
qed (simp_all add: fan_send_def)

lemma reap_queue:
  "session_ok s \<Longrightarrow> p < length (se_heap s) \<Longrightarrow>
     su_queue (se_heap (wait_reap e s) ! p) = su_queue (se_heap s ! p)
     \<and> su_depth (se_heap (wait_reap e s) ! p) = su_depth (se_heap s ! p)"
  using foldl_update_in [of "se_subs s" p "se_heap s" "\<lambda>u. u\<lparr>su_done := True\<rparr>"]
    foldl_update_other [of p "se_subs s" "\<lambda>u. u\<lparr>su_done := True\<rparr>" "se_heap s"]
  by (cases "p \<in> set (se_subs s)") (auto simp: wait_reap_def session_ok_def)

lemma session_step_seen:
  assumes ok: "session_ok s" and p: "p \<in> set (se_subs s)" and x: "x \<noteq> SUnsubscribe p"
    and room: "length (seen p s) \<le> su_depth (se_heap s ! p)"
  shows "seen p (session_step x s) = seen p s @ op_chunk x s
    \<and> su_depth (se_heap (session_step x s) ! p) = su_depth (se_heap s ! p)
    \<and> p \<in> set (se_subs (session_step x s))"
proof -
  have pl: "p < length (se_heap s)" using ok p by (simp add: session_ok_def)
  show ?thesis
  proof (cases x)
    case (SRead c)
    then show ?thesis using p
      by (simp add: op_chunk_def read_chunk_def seen_def upcoming_def split: read_phase.split)
  next
    case SCollect
    then show ?thesis using p
      by (simp add: op_chunk_def fan_collect_def seen_def upcoming_def split: read_phase.split)
  next
    case SSend
    moreover have "se_subs (fan_send s) = se_subs s" by (simp add: fan_send_def split: read_phase.split)
    ultimately show ?thesis using fan_send_seen [OF ok p room] p by (simp add: op_chunk_def)
  next
    case (SSubscribe d)
    then show ?thesis using p pl
      by (simp add: op_chunk_def session_Subscribe_def seen_def upcoming_def nth_append Let_def
          split: read_phase.split)
  next
    case (SUnsubscribe q)
    then show ?thesis using p x
      by (simp add: op_chunk_def session_Unsubscribe_def seen_def upcoming_def split: read_phase.split)
  next
    case (SReap e)
    moreover have "upcoming p (wait_reap e s) = upcoming p s" "se_subs (wait_reap e s) = se_subs s"
      by (simp_all add: wait_reap_def upcoming_def split: read_phase.split)
    ultimately show ?thesis using reap_queue [OF ok pl, of e] p by (simp add: op_chunk_def seen_def)
  next
    case (SInject b e)
    then show ?thesis using p
      by (cases e; cases "se_phase s") (simp_all add: op_chunk_def session_Inject_def seen_def upcoming_def)
  next
    case (SWrite b now e)
    then show ?thesis using p
      by (cases e; cases "se_phase s") (simp_all add: op_chunk_def session_Write_def seen_def upcoming_def Let_def)
  qed
qed

lemma session_run_seen:
  assumes "session_ok s" "p \<in> set (se_subs s)" "SUnsubscribe p \<notin> set xs"
    and "length (seen p s) + length (chunks_read xs s) \<le> su_depth (se_heap s ! p)"
  shows "seen p (session_run xs s) = seen p s @ chunks_read xs s"
  using assms
proof (induction xs arbitrary: s)
  case Nil
  then show ?case by (simp add: session_run_def)
next
  case (Cons x xs)
  have st: "seen p (session_step x s) = seen p s @ op_chunk x s"
    "su_depth (se_heap (session_step x s) ! p) = su_depth (se_heap s ! p)"
    "p \<in> set (se_subs (session_step x s))"
    using session_step_seen [OF Cons.prems(1,2), of x] Cons.prems(3,4) by auto
  have "session_ok (session_step x s)" by (rule session_step_ok [OF Cons.prems(1)])
  from Cons.IH [OF this st(3)] have "seen p (session_run xs (session_step x s))
      = seen p (session_step x s) @ chunks_read xs (session_step x s)"
    using Cons.prems(3,4) st by simp
  then show ?case by (simp add: session_run_def st(1))
qed

section \<open>Registry of sessions\<close>

text \<open>Sessions are numbered as they are created. \<open>mg_waiting\<close> holds the eviction goroutines: one per
  session, with the id it was registered under, that runs once the session is done.\<close>

record manager =
  mg_sessions :: "(string \<times> nat) list"
  mg_next :: nat
  mg_done :: "nat list"
  mg_waiting :: "(string \<times> nat) list"
  mg_lastActivity :: time

definition NewManager :: "time \<Rightarrow> manager" where
  "NewManager now = \<lparr>mg_sessions = [], mg_next = 0, mg_done = [], mg_waiting = [], mg_lastActivity = now\<rparr>"

definition manager_Touch :: "time \<Rightarrow> manager \<Rightarrow> manager" where
  "manager_Touch now m = m\<lparr>mg_lastActivity := now\<rparr>"

text \<open>The check \<open>CreateWithID\<close> makes under the read lock.\<close>

definition create_check :: "string \<Rightarrow> manager \<Rightarrow> go_error option" where
  "create_check i m = (if i = [] then Some ''session: empty id''
     else if map_of (mg_sessions m) i \<noteq> None then Some ''session: id already exists'' else None)"

text \<open>\<open>createWithID\<close> after \<open>New\<close> succeeded: register, touch, start the eviction goroutine.\<close>

definition create_insert :: "string \<Rightarrow> time \<Rightarrow> manager \<Rightarrow> manager" where
  "create_insert i now m = manager_Touch now
     (m\<lparr>mg_sessions := AList.update i (mg_next m) (mg_sessions m), mg_next := mg_next m + 1,
        mg_waiting := mg_waiting m @ [(i, mg_next m)]\<rparr>)"

definition CreateWithID :: "string \<Rightarrow> go_error option \<Rightarrow> time \<Rightarrow> manager \<Rightarrow> nat result \<times> manager" where
  "CreateWithID i spawnErr now m =
     (case create_check i m of Some e \<Rightarrow> (Inl e, m)
      | None \<Rightarrow> (case spawnErr of Some e \<Rightarrow> (Inl e, m)
          | None \<Rightarrow> (Inr (mg_next m), create_insert i now m)))"

definition manager_Get :: "string \<Rightarrow> manager \<Rightarrow> nat result" where
  "manager_Get i m = (case map_of (mg_sessions m) i of None \<Rightarrow> Inl ''session: not found'' | Some n \<Rightarrow> Inr n)"

definition session_exits :: "nat \<Rightarrow> manager \<Rightarrow> manager" where
  "session_exits n m = m\<lparr>mg_done := List.insert n (mg_done m)\<rparr>"

text \<open>\<open>Stop\<close> removes the entry and closes the session, which ends it.\<close>

definition manager_Stop :: "string \<Rightarrow> time \<Rightarrow> manager \<Rightarrow> go_error option \<times> manager" where
  "manager_Stop i now m =
     (case map_of (mg_sessions m) i of
        None \<Rightarrow> (Some ''session: not found'', m)
      | Some n \<Rightarrow> (None, session_exits n (manager_Touch now
            (m\<lparr>mg_sessions := AList.delete i (mg_sessions m)\<rparr>))))"

definition evict :: "nat \<Rightarrow> time \<Rightarrow> manager \<Rightarrow> manager" where
  "evict k now m =
     (if k < length (mg_waiting m) \<and> snd (mg_waiting m ! k) \<in> set (mg_done m)
      then manager_Touch now
        (m\<lparr>mg_sessions := AList.delete (fst (mg_waiting m ! k)) (mg_sessions m),
           mg_waiting := take k (mg_waiting m) @ drop (Suc k) (mg_waiting m)\<rparr>)
      else m)"

definition manager_Count :: "manager \<Rightarrow> nat" where
  "manager_Count m = length (mg_sessions m)"

definition manager_List :: "manager \<Rightarrow> string list" where
  "manager_List m = map fst (mg_sessions m)"

definition manager_Shutdown :: "manager \<Rightarrow> manager" where
  "manager_Shutdown m = m\<lparr>mg_sessions := [],
     mg_done := fold List.insert (map snd (mg_sessions m)) (mg_done m)\<rparr>"

datatype manager_op =
    MCreate string time
  | MStop string time
  | MExit nat
  | MEvict nat time
  | MTouch time

fun manager_step :: "manager_op \<Rightarrow> manager \<Rightarrow> manager" where
  "manager_step (MCreate i now) m = snd (CreateWithID i None now m)"
| "manager_step (MStop i now) m = snd (manager_Stop i now m)"
| "manager_step (MExit n) m = (if n < mg_next m then session_exits n m else m)"
| "manager_step (MEvict k now) m = evict k now m"
| "manager_step (MTouch now) m = manager_Touch now m"

definition created_ids :: "manager_op list \<Rightarrow> string list" where
  "created_ids xs = concat (map (\<lambda>x. case x of MCreate i _ \<Rightarrow> [i] | _ \<Rightarrow> []) xs)"

definition manager_run :: "manager_op list \<Rightarrow> manager \<Rightarrow> manager" where
  "manager_run xs m = foldl (\<lambda>m x. manager_step x m) m xs"

definition manager_inv :: "string set \<Rightarrow> manager \<Rightarrow> bool" where
  "manager_inv used m \<longleftrightarrow>
     fst ` set (mg_waiting m) \<subseteq> used \<and> distinct (map fst (mg_waiting m))
   \<and> (\<forall>i n. map_of (mg_sessions m) i = Some n \<longrightarrow> (i, n) \<in> set (mg_waiting m))
   \<and> (\<forall>(i, n) \<in> set (mg_waiting m). n \<notin> set (mg_done m) \<longrightarrow> map_of (mg_sessions m) i = Some n)
   \<and> (\<forall>(i, n) \<in> set (mg_waiting m). n < mg_next m) \<and> (\<forall>n \<in> set (mg_done m). n < mg_next m)"

lemma manager_invI:
  assumes "fst ` set (mg_waiting m) \<subseteq> used" "distinct (map fst (mg_waiting m))"
    and "\<And>i n. map_of (mg_sessions m) i = Some n \<Longrightarrow> (i, n) \<in> set (mg_waiting m)"
    and "\<And>i n. (i, n) \<in> set (mg_waiting m) \<Longrightarrow> n \<notin> set (mg_done m) \<Longrightarrow> map_of (mg_sessions m) i = Some n"
    and "\<And>i n. (i, n) \<in> set (mg_waiting m) \<Longrightarrow> n < mg_next m"
    and "\<And>n. n \<in> set (mg_done m) \<Longrightarrow> n < mg_next m"
  shows "manager_inv used m"
  unfolding manager_inv_def by (intro conjI assms(1,2)) (auto intro: assms(3-6))

lemma manager_invD:
  assumes "manager_inv used m"
  shows "fst ` set (mg_waiting m) \<subseteq> used" "distinct (map fst (mg_waiting m))"
    and "map_of (mg_sessions m) i = Some n \<Longrightarrow> (i, n) \<in> set (mg_waiting m)"
    and "(i, n) \<in> set (mg_waiting m) \<Longrightarrow> n \<notin> set (mg_done m) \<Longrightarrow> map_of (mg_sessions m) i = Some n"
    and "(i, n) \<in> set (mg_waiting m) \<Longrightarrow> n < mg_next m"
    and "n \<in> set (mg_done m) \<Longrightarrow> n < mg_next m"
  using assms by (auto simp: manager_inv_def)

lemma manager_inv_mono: "manager_inv used m \<Longrightarrow> used \<subseteq> used' \<Longrightarrow> manager_inv used' m"
  by (auto simp: manager_inv_def)

lemma manager_inv_new: "manager_inv {} (NewManager now)"
  by (simp add: manager_inv_def NewManager_def)

lemma evict_inv:
  assumes inv: "manager_inv used m" shows "manager_inv used (evict k now m)"
proof (cases "k < length (mg_waiting m) \<and> snd (mg_waiting m ! k) \<in> set (mg_done m)")
  case True
  obtain i n where e: "mg_waiting m ! k = (i, n)" by (cases "mg_waiting m ! k")
  let ?rest = "take k (mg_waiting m) @ drop (Suc k) (mg_waiting m)"
  have split: "mg_waiting m = take k (mg_waiting m) @ (i, n) # drop (Suc k) (mg_waiting m)"
    using True e by (metis id_take_nth_drop)
  have set: "set (mg_waiting m) = insert (i, n) (set ?rest)" by (subst split) auto
  have "distinct (map fst (take k (mg_waiting m) @ (i, n) # drop (Suc k) (mg_waiting m)))"
    using inv split by (simp add: manager_inv_def)
  then have fresh: "i \<notin> fst ` set ?rest" "distinct (map fst ?rest)" by auto
  have ev: "evict k now m = manager_Touch now (m\<lparr>mg_sessions := AList.delete i (mg_sessions m), mg_waiting := ?rest\<rparr>)"
    using True e by (simp add: evict_def)
  have sub: "set ?rest \<subseteq> set (mg_waiting m)" using set by blast
  show ?thesis
    unfolding ev manager_Touch_def
  proof (rule manager_invI, goal_cases)
    case 1
    then show ?case using manager_invD(1) [OF inv] sub by auto
  next
    case 2
    then show ?case using fresh(2) by simp
  next
    case (3 j n')
    then have j: "map_of (mg_sessions m) j = Some n'" "j \<noteq> i" by (auto split: if_splits)
    from manager_invD(3) [OF inv j(1)] set j(2) show ?case by auto
  next
    case (4 j n')
    then have j: "(j, n') \<in> set ?rest" "n' \<notin> set (mg_done m)" by simp_all
    then have "j \<noteq> i" using fresh(1) by force
    moreover have "map_of (mg_sessions m) j = Some n'" using manager_invD(4) [OF inv] j sub by blast
    ultimately show ?case by simp
  next
    case (5 j n')
    then have "(j, n') \<in> set (mg_waiting m)" using sub by auto
    from manager_invD(5) [OF inv this] show ?case by simp
  next
    case (6 n')
    then show ?case using manager_invD(6) [OF inv, of n'] by simp
  qed
next
  case False
  then show ?thesis using inv by (auto simp: evict_def)
qed

lemma manager_step_inv:
  assumes inv: "manager_inv used m" and fresh: "\<And>i now. x = MCreate i now \<Longrightarrow> i \<notin> used"
  shows "manager_inv (used \<union> set (created_ids [x])) (manager_step x m)"
proof (cases x)
  case (MCreate i now)
  have i: "i \<notin> used" using fresh MCreate .
  then have new: "i \<notin> fst ` set (mg_waiting m)" using manager_invD(1) [OF inv] by blast
  then have none: "map_of (mg_sessions m) i = None"
    using manager_invD(3) [OF inv, of i] by (cases "map_of (mg_sessions m) i") force+
  have ids: "set (created_ids [x]) = {i}" using MCreate by (simp add: created_ids_def)
  show ?thesis
  proof (cases "i = []")
    case True
    then have "manager_step x m = m" using MCreate by (simp add: CreateWithID_def create_check_def)
    then show ?thesis using manager_inv_mono [OF inv] by auto
  next
    case False
    then have st: "manager_step x m = create_insert i now m"
      using none MCreate by (simp add: CreateWithID_def create_check_def)
    have nd: "mg_next m \<notin> set (mg_done m)" using manager_invD(6) [OF inv] by blast
    show ?thesis
      unfolding st ids create_insert_def manager_Touch_def
    proof (rule manager_invI, goal_cases)
      case 1
      then show ?case using manager_invD(1) [OF inv] by auto
    next
      case 2
      then show ?case using manager_invD(2) [OF inv] new by auto
    next
      case (3 j n)
      then show ?case using manager_invD(3) [OF inv, of j n] by (auto split: if_splits)
    next
      case (4 j n)
      then show ?case using manager_invD(4) [OF inv, of j n] new by force
    next
      case (5 j n)
      then show ?case using manager_invD(5) [OF inv, of j n] by auto
    next
      case (6 n)
      then show ?case using manager_invD(6) [OF inv, of n] by simp
    qed
  qed
next
  case (MStop i now)
  have ids: "set (created_ids [x]) = {}" using MStop by (simp add: created_ids_def)
  show ?thesis
  proof (cases "map_of (mg_sessions m) i")
    case None
    then show ?thesis using inv MStop ids by (simp add: manager_Stop_def)
  next
    case (Some n)
    then have st: "manager_step x m = session_exits n (manager_Touch now
        (m\<lparr>mg_sessions := AList.delete i (mg_sessions m)\<rparr>))" using MStop by (simp add: manager_Stop_def)
    note w = manager_invD(3) [OF inv Some]
    show ?thesis
      unfolding st ids session_exits_def manager_Touch_def
    proof (rule manager_invI, goal_cases)
      case 1
      then show ?case using manager_invD(1) [OF inv] by simp
    next
      case 2
      then show ?case using manager_invD(2) [OF inv] by simp
    next
      case (3 j n')
      then show ?case using manager_invD(3) [OF inv, of j n'] by (auto split: if_splits)
    next
      case (4 j n')
      then have j: "(j, n') \<in> set (mg_waiting m)" "n' \<notin> set (mg_done m)" "n' \<noteq> n" by auto
      from manager_invD(4) [OF inv j(1,2)] Some j(3) show ?case by auto
    next
      case (5 j n')
      then show ?case using manager_invD(5) [OF inv, of j n'] by simp
    next
      case (6 n')
      then show ?case using manager_invD(6) [OF inv, of n'] manager_invD(5) [OF inv w] by auto
    qed
  qed
next
  case (MExit n)
  have ids: "set (created_ids [x]) = {}" using MExit by (simp add: created_ids_def)
  show ?thesis
  proof (cases "n < mg_next m")
    case True
    then have st: "manager_step x m = session_exits n m" using MExit by simp
    show ?thesis
      unfolding st ids session_exits_def
    proof (rule manager_invI, goal_cases)
      case (4 j n')
      then show ?case using manager_invD(4) [OF inv, of j n'] by simp
    next
      case (6 n')
      then show ?case using manager_invD(6) [OF inv, of n'] True by auto
    qed (use manager_invD(1-3,5) [OF inv] in simp_all)
  next
    case False
    then show ?thesis using inv MExit ids by simp
  qed
next
  case (MEvict k now)
  then show ?thesis using evict_inv [OF inv] by (simp add: created_ids_def)
next
  case (MTouch now)
  then show ?thesis using inv by (simp add: manager_Touch_def created_ids_def manager_inv_def)
qed

lemma manager_run_inv:
  assumes "manager_inv used m" "distinct (created_ids xs)" "set (created_ids xs) \<inter> used = {}"
  shows "\<exists>used'. manager_inv used' (manager_run xs m)"
  using assms
proof (induction xs arbitrary: used m)
  case Nil
  then show ?case by (auto simp: manager_run_def)
next
  case (Cons x xs)
  have ids: "created_ids (x # xs) = created_ids [x] @ created_ids xs" by (simp add: created_ids_def)
  have "manager_inv (used \<union> set (created_ids [x])) (manager_step x m)"
    by (rule manager_step_inv [OF Cons.prems(1)])
      (use Cons.prems(3) in \<open>auto simp: created_ids_def\<close>)
  moreover have "set (created_ids xs) \<inter> (used \<union> set (created_ids [x])) = {}" "distinct (created_ids xs)"
    using Cons.prems(2,3) unfolding ids by auto
  ultimately show ?case using Cons.IH by (fastforce simp: manager_run_def)
qed

section \<open>Properties\<close>

text \<open>C29: a new subscriber gets the replay of the ring and from then on, in order and without loss, every
  chunk read while its channel has room; a chunk that was already written to the ring but not yet
  fanned out when it subscribed is delivered to it a second time.\<close>

theorem subscriber_stream:
  assumes "session_ok s" "session_Subscribe d s = (Inr (p, snap), s1)" "SUnsubscribe p \<notin> set xs"
    and "length (chunks_read xs s1) < (if d \<le> 0 then 64 else nat d)"
  shows "snap = ring_Snapshot (se_ring s)
    \<and> su_queue (se_heap (session_run xs s1) ! p) @ upcoming p (session_run xs s1)
        = (case se_phase s of RRung c \<Rightarrow> [c] | _ \<Rightarrow> []) @ chunks_read xs s1"
proof -
  have s1: "p = length (se_heap s)" "snap = ring_Snapshot (se_ring s)"
      "s1 = s\<lparr>se_heap := se_heap s @ [\<lparr>su_queue = [], su_depth = (if d \<le> 0 then 64 else nat d), su_done = False\<rparr>],
              se_subs := se_subs s @ [p]\<rparr>"
    using assms(2) by (auto simp: session_Subscribe_def Let_def split: if_splits)
  have ok: "session_ok s1" using session_step_ok [OF assms(1), of "SSubscribe d"] assms(2) by simp
  have "p \<notin> set ts" if "se_phase s = RSending c ts" for c ts
    using assms(1) that s1(1) by (auto simp: session_ok_def)
  then have start: "seen p s1 = (case se_phase s of RRung c \<Rightarrow> [c] | _ \<Rightarrow> [])"
    using s1 by (auto simp: seen_def upcoming_def split: read_phase.split)
  have p: "p \<in> set (se_subs s1)" by (simp add: s1(3))
  have room: "length (seen p s1) + length (chunks_read xs s1) \<le> su_depth (se_heap s1 ! p)"
    using start assms(4) s1(1,3) by (simp split: read_phase.splits if_splits)
  from session_run_seen [OF ok p assms(3) room] start s1(2) show ?thesis by (simp add: seen_def)
qed

definition idle_session :: session where
  "idle_session = \<lparr>se_ring = NewRingBuffer 8, se_heap = [], se_subs = [], se_closed = False,
     se_exitErr = None, se_phase = RRung ''x'', se_stdin = [], se_lastOperatorWrite = 0\<rparr>"

theorem subscriber_stream_witness:
  "su_queue (se_heap (session_run [SCollect, SSend, SRead ''y'', SCollect, SSend]
      (snd (session_Subscribe 4 idle_session))) ! 0) = [''x'', ''y'']"
proof -
  let ?s1 = "snd (session_Subscribe 4 idle_session)"
  let ?xs = "[SCollect, SSend, SRead ''y'', SCollect, SSend]"
  have "session_ok idle_session" by (simp add: session_ok_def idle_session_def)
  moreover have "session_Subscribe 4 idle_session = (Inr (0, ring_Snapshot (se_ring idle_session)), ?s1)"
    by (simp add: session_Subscribe_def idle_session_def Let_def)
  moreover have ch: "chunks_read ?xs ?s1 = [''y'']" "upcoming 0 (session_run ?xs ?s1) = []"
    by (simp_all add: op_chunk_def session_Subscribe_def idle_session_def fan_collect_def fan_send_def
        read_chunk_def upcoming_def session_run_def Let_def)
  ultimately show ?thesis using subscriber_stream [of idle_session 4 0 _ ?s1 ?xs]
    by (simp add: idle_session_def)
qed

text \<open>as long as ids are not reused, the registry is exact: a session is listed under its id until it
  is stopped or has exited, and once the eviction goroutines of exited sessions have run, the listed
  sessions are precisely the ones still running.\<close>

theorem registry_exact:
  assumes "distinct (created_ids xs)" and "m = manager_run xs (NewManager now)"
  shows "(\<forall>(i, n) \<in> set (mg_waiting m). n \<notin> set (mg_done m) \<longrightarrow> manager_Get i m = Inr n)
    \<and> ((\<forall>(i, n) \<in> set (mg_waiting m). n \<notin> set (mg_done m)) \<longrightarrow>
         (\<forall>i n. manager_Get i m = Inr n \<longleftrightarrow> (i, n) \<in> set (mg_waiting m)))"
proof -
  obtain used where inv: "manager_inv used m"
    using manager_run_inv [OF manager_inv_new assms(1)] assms(2) by auto
  have get: "manager_Get i m = Inr n \<longleftrightarrow> map_of (mg_sessions m) i = Some n" for i n
    by (simp add: manager_Get_def split: option.split)
  show ?thesis using inv unfolding get manager_inv_def by blast
qed

theorem registry_exact_witness:
  "manager_Get ''b'' (manager_run [MCreate ''a'' 1, MCreate ''b'' 2, MStop ''a'' 3, MEvict 0 4] (NewManager 0)) = Inr 1"
proof -
  let ?xs = "[MCreate ''a'' 1, MCreate ''b'' 2, MStop ''a'' 3, MEvict 0 4]"
  have "distinct (created_ids ?xs)" by (simp add: created_ids_def)
  from registry_exact [OF this refl, of 0] show ?thesis
    by (simp add: manager_run_def NewManager_def CreateWithID_def create_check_def create_insert_def
        manager_Touch_def manager_Stop_def session_exits_def evict_def)
qed

text \<open>Reusing an id after \<open>Stop\<close> and before the old eviction goroutine has run loses the new session:
  it runs, but no lookup finds it.\<close>

lemma id_reuse_loses_session:
  "let m = manager_run [MCreate ''a'' 1, MStop ''a'' 2, MCreate ''a'' 3, MEvict 0 4] (NewManager 0)
   in manager_Get ''a'' m = Inl ''session: not found'' \<and> mg_waiting m = [(''a'', 1)] \<and> 1 \<notin> set (mg_done m)"
  by (simp add: manager_run_def NewManager_def CreateWithID_def create_check_def create_insert_def
      manager_Touch_def manager_Stop_def session_exits_def evict_def manager_Get_def)

end
