(* ===== verification/Completion_Detector.thy ===== *)
theory Completion_Detector
  imports Ring_Buffer
begin

text \<open>
  The prompt and idle detector of \<open>internal/completion/detector.go\<close>. It keeps the last 256 bytes of
  output only; the specification machine at the end of this theory keeps all of it, and the detector
  refines it.
\<close>

section \<open>Detector\<close>

datatype det_state = StateWorking | StateInputRequired | StateCompleted | StateFailed

record detector =
  dt_state :: det_state
  dt_lastChunk :: time
  dt_idleThresh :: int
  dt_promptMarkers :: "string list"
  dt_promptShortThresh :: int
  dt_tail :: string
  dt_promptMatched :: bool
  dt_exitObserved :: bool

definition maxTail :: nat where "maxTail = 256"

definition nl :: string where "nl = [CHR 0x0A]"

definition box_prompt :: string where
  "box_prompt = [CHR 0xE2, CHR 0x94, CHR 0x82] @ '' > ''"

text \<open>The per-agent profile: idle threshold, short threshold and prompt markers.\<close>

definition profile :: "string \<Rightarrow> int \<times> int \<times> string list" where
  "profile slug =
     (if slug \<in> {''claude-code'', ''claude''}
      then (10 * second, 250 * millisecond, [box_prompt, nl @ ''> ''])
      else if slug = ''aider''
      then (15 * second, 250 * millisecond, [nl @ ''> '', ''aider> ''])
      else if slug \<in> {''qwen-code'', ''gemini-cli'', ''opencode'', ''cursor-agent'', ''little-coder''}
      then (20 * second, 500 * millisecond, [nl @ ''> ''])
      else (30 * second, 500 * millisecond, [nl @ ''$ '', nl @ ''# '']))"

definition detector_New :: "string \<Rightarrow> time \<Rightarrow> detector" where
  "detector_New slug startedAt =
     (let (idle, short, markers) = profile slug in
      \<lparr>dt_state = StateWorking, dt_lastChunk = startedAt, dt_idleThresh = idle,
       dt_promptMarkers = markers, dt_promptShortThresh = short, dt_tail = [],
       dt_promptMatched = False, dt_exitObserved = False\<rparr>)"

definition appendTail :: "string \<Rightarrow> string \<Rightarrow> string" where
  "appendTail tail chunk =
     (if length chunk \<ge> maxTail then drop (length chunk - maxTail) chunk
      else
        let t = tail @ chunk in
        if length t > maxTail then drop (length t - maxTail) t else t)"

definition recomputeTail :: "detector \<Rightarrow> detector" where
  "recomputeTail d = d\<lparr>dt_promptMatched := list_ex (\<lambda>m. has_suffix m (dt_tail d)) (dt_promptMarkers d)\<rparr>"

definition OnChunk :: "time \<Rightarrow> string \<Rightarrow> detector \<Rightarrow> detector" where
  "OnChunk now chunk d =
     (if dt_exitObserved d then d
      else
        let d1 = recomputeTail (d\<lparr>dt_lastChunk := now, dt_tail := appendTail (dt_tail d) chunk\<rparr>)
        in if \<not> dt_promptMatched d1 \<and> dt_state d1 = StateInputRequired
           then d1\<lparr>dt_state := StateWorking\<rparr> else d1)"

definition OnExit :: "int \<Rightarrow> detector \<Rightarrow> detector" where
  "OnExit code d = d\<lparr>dt_exitObserved := True, dt_state := (if code = 0 then StateCompleted else StateFailed)\<rparr>"

definition Tick :: "time \<Rightarrow> detector \<Rightarrow> detector" where
  "Tick now d =
     (if dt_exitObserved d then d
      else if dt_state d \<noteq> StateWorking then d
      else
        let idle = now - dt_lastChunk d;
            thresh = (if dt_promptMatched d then dt_promptShortThresh d else dt_idleThresh d)
        in if idle \<ge> thresh then d\<lparr>dt_state := StateInputRequired\<rparr> else d)"

datatype det_op = Chunk time string | Exit int | TickAt time

fun det_step :: "det_op \<Rightarrow> detector \<Rightarrow> detector" where
  "det_step (Chunk now c) d = OnChunk now c d"
| "det_step (Exit code) d = OnExit code d"
| "det_step (TickAt now) d = Tick now d"

section \<open>The tail is a suffix buffer\<close>

lemma appendTail_lastn: "length tail \<le> maxTail \<Longrightarrow> appendTail tail chunk = lastn maxTail (tail @ chunk)"
  by (auto simp: appendTail_def lastn_def Let_def)

interpretation tail: suffix_buffer maxTail "\<lambda>t. length t \<le> maxTail" "\<lambda>t. t" appendTail
  by unfold_locales (simp_all add: appendTail_lastn)

lemma has_suffix_lastn:
  assumes "length m \<le> n" shows "has_suffix m (lastn n s) \<longleftrightarrow> has_suffix m s"
proof -
  have "drop (length (lastn n s) - length m) (lastn n s) = drop (length s - length m) s"
    if "length m \<le> length s" using that assms by (simp add: lastn_def)
  moreover have "length m \<le> length (lastn n s) \<longleftrightarrow> length m \<le> length s" using assms by auto
  ultimately show ?thesis by (auto simp: has_suffix_def simp del: length_lastn)
qed

section \<open>Specification\<close>

text \<open>The machine that remembers all output.\<close>

record spec =
  sp_out :: string
  sp_last :: time
  sp_state :: det_state
  sp_exit :: bool

definition at_prompt :: "string \<Rightarrow> string \<Rightarrow> bool" where
  "at_prompt slug out = (let (_, _, markers) = profile slug in list_ex (\<lambda>m. has_suffix m out) markers)"

definition threshold :: "string \<Rightarrow> string \<Rightarrow> int" where
  "threshold slug out = (let (idle, short, _) = profile slug in if at_prompt slug out then short else idle)"

fun spec_step :: "string \<Rightarrow> det_op \<Rightarrow> spec \<Rightarrow> spec" where
  "spec_step slug (Chunk now c) s =
     (if sp_exit s then s
      else s\<lparr>sp_out := sp_out s @ c, sp_last := now,
             sp_state := (if sp_state s = StateInputRequired \<and> \<not> at_prompt slug (sp_out s @ c)
                          then StateWorking else sp_state s)\<rparr>)"
| "spec_step slug (Exit code) s =
     s\<lparr>sp_exit := True, sp_state := (if code = 0 then StateCompleted else StateFailed)\<rparr>"
| "spec_step slug (TickAt now) s =
     (if \<not> sp_exit s \<and> sp_state s = StateWorking \<and> now - sp_last s \<ge> threshold slug (sp_out s)
      then s\<lparr>sp_state := StateInputRequired\<rparr> else s)"

definition spec_New :: "time \<Rightarrow> spec" where
  "spec_New t = \<lparr>sp_out = [], sp_last = t, sp_state = StateWorking, sp_exit = False\<rparr>"

definition refines :: "string \<Rightarrow> detector \<Rightarrow> spec \<Rightarrow> bool" where
  "refines slug d s \<longleftrightarrow> dt_state d = sp_state s \<and> dt_lastChunk d = sp_last s \<and> dt_exitObserved d = sp_exit s
     \<and> dt_tail d = lastn maxTail (sp_out s) \<and> dt_promptMatched d = at_prompt slug (sp_out s)
     \<and> (dt_idleThresh d, dt_promptShortThresh d, dt_promptMarkers d) = profile slug"

lemma markers_short: "m \<in> set (snd (snd (profile slug))) \<Longrightarrow> length m \<le> maxTail \<and> m \<noteq> []"
  by (auto simp: profile_def maxTail_def box_prompt_def nl_def split: if_splits)

lemma prompt_of_tail:
  "list_ex (\<lambda>m. has_suffix m (lastn maxTail out)) (snd (snd (profile slug))) \<longleftrightarrow> at_prompt slug out"
  using markers_short [of _ slug]
  by (auto simp: at_prompt_def list_ex_iff has_suffix_lastn case_prod_beta)

lemma refines_New: "refines slug (detector_New slug t) (spec_New t)"
proof -
  have "\<not> has_suffix m []" if "m \<in> set (snd (snd (profile slug)))" for m
    using markers_short [OF that] by (auto simp: has_suffix_def)
  then have "\<not> at_prompt slug []" by (auto simp: at_prompt_def list_ex_iff case_prod_beta)
  then show ?thesis by (simp add: refines_def detector_New_def spec_New_def case_prod_beta)
qed

lemma refines_step: "refines slug d s \<Longrightarrow> refines slug (det_step x d) (spec_step slug x s)"
proof (cases x)
  case (Chunk now c)
  assume r: "refines slug d s"
  then have prof: "dt_promptMarkers d = snd (snd (profile slug))"
    unfolding refines_def by (metis snd_conv)
  have "appendTail (dt_tail d) c = lastn maxTail (sp_out s @ c)"
    using r by (simp add: refines_def appendTail_lastn)
  then show ?thesis using r Chunk prompt_of_tail [of "sp_out s @ c" slug] prof
    by (simp add: OnChunk_def recomputeTail_def refines_def Let_def)
next
  case (Exit code)
  assume "refines slug d s"
  then show ?thesis using Exit by (simp add: OnExit_def refines_def)
next
  case (TickAt now)
  assume r: "refines slug d s"
  then have "threshold slug (sp_out s) = (if dt_promptMatched d then dt_promptShortThresh d else dt_idleThresh d)"
    by (auto simp: threshold_def refines_def case_prod_beta dest: sym)
  then show ?thesis using r TickAt by (auto simp: Tick_def refines_def Let_def)
qed

lemma refines_run:
  "refines slug (foldl (\<lambda>d x. det_step x d) (detector_New slug t) xs)
     (foldl (\<lambda>s x. spec_step slug x s) (spec_New t) xs)"
  by (induction xs rule: rev_induct) (simp_all add: refines_New refines_step)

section \<open>Property\<close>

text \<open>C33: the detector, which keeps 256 bytes, behaves as the machine that keeps all output: after any
  sequence of chunks, ticks and exits both are in the same state and agree on whether the whole output
  ends in a prompt of the agent. In particular an exit is final.\<close>

theorem detector_refines_spec:
  "dt_state (foldl (\<lambda>d x. det_step x d) (detector_New slug t) xs) =
      sp_state (foldl (\<lambda>s x. spec_step slug x s) (spec_New t) xs)
   \<and> dt_promptMatched (foldl (\<lambda>d x. det_step x d) (detector_New slug t) xs) =
      at_prompt slug (sp_out (foldl (\<lambda>s x. spec_step slug x s) (spec_New t) xs))
   \<and> length (dt_tail (foldl (\<lambda>d x. det_step x d) (detector_New slug t) xs)) \<le> maxTail"
  using refines_run [of slug t xs] by (simp add: refines_def)

end
