(* ===== verification/Ttl_Directory.thy ===== *)
theory Ttl_Directory
  imports Prelude
begin

text \<open>
  The contract of a presence directory: entries are announced with a value, are dropped by sweeps once
  stale, and are listed while fresh. The hub's registry provides it; the runtime's peer registry
  provides the extended contract in which an entry is also refreshed and withdrawn. Clients rely on
  \<open>listed_run\<close> and \<open>registry_run\<close>: when the directory sweeps does not matter, what it lists is a
  function of the announcements alone.
\<close>

section \<open>Announcements and sweeps\<close>

datatype ('k, 'v) dir_op = Announced 'k 'v time | Swept time

fun last_announced :: "('k, 'v) dir_op list \<Rightarrow> 'k \<Rightarrow> ('v \<times> time) option" where
  "last_announced [] k = None"
| "last_announced (x # xs) k =
     (case last_announced xs k of Some e \<Rightarrow> Some e
      | None \<Rightarrow> (case x of Announced k' v t \<Rightarrow> if k' = k then Some (v, t) else None | Swept _ \<Rightarrow> None))"

lemma last_announced_snoc:
  "last_announced (xs @ [x]) k =
     (case x of Announced k' v t \<Rightarrow> if k' = k then Some (v, t) else last_announced xs k
      | Swept _ \<Rightarrow> last_announced xs k)"
  by (induction xs) (auto split: dir_op.splits option.splits)

locale ttl_directory =
  fixes announce :: "'k \<Rightarrow> 'v \<Rightarrow> time \<Rightarrow> 's \<Rightarrow> 's"
    and sweep :: "time \<Rightarrow> 's \<Rightarrow> 's"
    and listed :: "time \<Rightarrow> 's \<Rightarrow> ('k \<times> 'v \<times> time) set"
    and seen :: "'s \<Rightarrow> 'k \<Rightarrow> ('v \<times> time) option"
    and fresh :: "time \<Rightarrow> time \<Rightarrow> bool"
    and ok :: "'s \<Rightarrow> bool"
  assumes seen_announce: "seen (announce k v now s) = (seen s)(k \<mapsto> (v, now))"
    and seen_sweep: "ok s \<Longrightarrow> seen (sweep now s) k =
      (case seen s k of None \<Rightarrow> None | Some (v, t) \<Rightarrow> if fresh now t then Some (v, t) else None)"
    and listed_iff: "ok s \<Longrightarrow> (k, v, t) \<in> listed now s \<longleftrightarrow> seen s k = Some (v, t) \<and> fresh now t"
    and fresh_mono: "fresh now t \<Longrightarrow> now' \<le> now \<Longrightarrow> fresh now' t"
    and ok_announce: "ok s \<Longrightarrow> ok (announce k v now s)"
    and ok_sweep: "ok s \<Longrightarrow> ok (sweep now s)"
begin

text \<open>A sweep changes nothing a later listing shows.\<close>

lemma sweep_invisible: "ok s \<Longrightarrow> t \<le> now \<Longrightarrow> listed now (sweep t s) = listed now s"
  using fresh_mono [of now _ t]
  by (auto simp: set_eq_iff listed_iff seen_sweep ok_sweep split: option.splits if_splits)

fun apply_op :: "('k, 'v) dir_op \<Rightarrow> 's \<Rightarrow> 's" where
  "apply_op (Announced k v t) s = announce k v t s"
| "apply_op (Swept t) s = sweep t s"

definition run :: "('k, 'v) dir_op list \<Rightarrow> 's \<Rightarrow> 's" where
  "run xs s = foldl (\<lambda>s x. apply_op x s) s xs"

lemma run_snoc [simp]: "run (xs @ [x]) s = apply_op x (run xs s)"
  by (simp add: run_def)

lemma run_Nil [simp]: "run [] s = s"
  by (simp add: run_def)

lemma ok_run: "ok s \<Longrightarrow> ok (run xs s)"
proof (induction xs rule: rev_induct)
  case (snoc x xs)
  then show ?case by (cases x) (auto simp: ok_announce ok_sweep)
qed simp

lemma seen_run:
  assumes "ok s" "\<And>k. seen s k = None"
  shows "(seen (run xs s) k = Some e \<longrightarrow> last_announced xs k = Some e)
    \<and> (last_announced xs k = Some e \<longrightarrow> (\<forall>u. Swept u \<in> set xs \<longrightarrow> fresh u (snd e))
        \<longrightarrow> seen (run xs s) k = Some e)"
proof (induction xs rule: rev_induct)
  case Nil
  then show ?case by (simp add: assms(2))
next
  case (snoc x xs)
  show ?case
  proof (cases x)
    case (Announced k' v' t')
    then show ?thesis using snoc by (auto simp: last_announced_snoc seen_announce)
  next
    case (Swept t')
    have "seen (run (xs @ [x]) s) k = Some e \<longleftrightarrow> seen (run xs s) k = Some e \<and> fresh t' (snd e)"
      using Swept by (cases e) (auto simp: seen_sweep ok_run assms(1) split: option.splits if_splits)
    then show ?thesis using snoc Swept by (auto simp: last_announced_snoc)
  qed
qed

lemma listed_run:
  assumes "ok s" "\<And>k. seen s k = None" "\<forall>u. Swept u \<in> set xs \<longrightarrow> u \<le> now"
  shows "(k, v, t) \<in> listed now (run xs s) \<longleftrightarrow> last_announced xs k = Some (v, t) \<and> fresh now t"
proof -
  note r = seen_run [OF assms(1,2), of xs k "(v, t)"]
  show ?thesis unfolding listed_iff [OF ok_run [OF assms(1)]]
    using r assms(3) fresh_mono [of now t] by auto
qed

end

section \<open>Refreshing and withdrawing\<close>

datatype ('k, 'v) reg_op =
    RAnnounced 'k 'v time
  | RSwept time
  | RTouched 'k time
  | RDropped 'k time

fun op_time :: "('k, 'v) reg_op \<Rightarrow> time" where
  "op_time (RAnnounced _ _ t) = t"
| "op_time (RSwept t) = t"
| "op_time (RTouched _ t) = t"
| "op_time (RDropped _ t) = t"

text \<open>What the directory would hold if it never swept.\<close>

fun ideal_step :: "('k, 'v) reg_op \<Rightarrow> ('k \<Rightarrow> ('v \<times> time) option) \<Rightarrow> 'k \<Rightarrow> ('v \<times> time) option" where
  "ideal_step (RAnnounced k v t) m = m(k \<mapsto> (v, t))"
| "ideal_step (RSwept t) m = m"
| "ideal_step (RTouched k t) m = (case m k of None \<Rightarrow> m | Some (v, _) \<Rightarrow> m(k \<mapsto> (v, t)))"
| "ideal_step (RDropped k t) m = m(k := None)"

definition ideal :: "('k, 'v) reg_op list \<Rightarrow> 'k \<Rightarrow> ('v \<times> time) option" where
  "ideal xs = foldl (\<lambda>m x. ideal_step x m) Map.empty xs"

lemma ideal_snoc [simp]: "ideal (xs @ [x]) = ideal_step x (ideal xs)"
  by (simp add: ideal_def)

lemma ideal_Nil [simp]: "ideal [] = Map.empty"
  by (simp add: ideal_def)

text \<open>Every refresh finds its entry fresh (or never announced).\<close>

definition touch_live :: "(time \<Rightarrow> time \<Rightarrow> bool) \<Rightarrow> ('k \<Rightarrow> ('v \<times> time) option) \<Rightarrow> ('k, 'v) reg_op \<Rightarrow> bool" where
  "touch_live fresh m x = (case x of
     RTouched k t \<Rightarrow> (case m k of None \<Rightarrow> True | Some (_, t') \<Rightarrow> fresh t t') | _ \<Rightarrow> True)"

definition touches_live :: "(time \<Rightarrow> time \<Rightarrow> bool) \<Rightarrow> ('k, 'v) reg_op list \<Rightarrow> bool" where
  "touches_live fresh xs \<longleftrightarrow> (\<forall>i < length xs. touch_live fresh (ideal (take i xs)) (xs ! i))"

lemma touches_live_snoc [simp]:
  "touches_live fresh (xs @ [x]) \<longleftrightarrow> touches_live fresh xs \<and> touch_live fresh (ideal xs) x"
  by (auto simp: touches_live_def nth_append All_less_Suc)

lemma touches_live_Nil [simp]: "touches_live fresh []"
  by (simp add: touches_live_def)

locale ttl_registry = ttl_directory announce sweep listed seen fresh ok
  for announce :: "'k \<Rightarrow> 'v \<Rightarrow> time \<Rightarrow> 's \<Rightarrow> 's" and sweep listed seen fresh ok +
  fixes touch :: "'k \<Rightarrow> time \<Rightarrow> 's \<Rightarrow> 's"
    and withdraw :: "'k \<Rightarrow> 's \<Rightarrow> 's"
  assumes seen_touch: "seen (touch k now s) =
      (case seen s k of None \<Rightarrow> seen s | Some (v, _) \<Rightarrow> (seen s)(k \<mapsto> (v, now)))"
    and seen_withdraw: "seen (withdraw k s) = (seen s)(k := None)"
    and ok_touch: "ok s \<Longrightarrow> ok (touch k now s)"
    and ok_withdraw: "ok s \<Longrightarrow> ok (withdraw k s)"
begin

fun apply_reg :: "('k, 'v) reg_op \<Rightarrow> 's \<Rightarrow> 's" where
  "apply_reg (RAnnounced k v t) s = announce k v t s"
| "apply_reg (RSwept t) s = sweep t s"
| "apply_reg (RTouched k t) s = touch k t s"
| "apply_reg (RDropped k t) s = withdraw k s"

definition run_reg :: "('k, 'v) reg_op list \<Rightarrow> 's \<Rightarrow> 's" where
  "run_reg xs s = foldl (\<lambda>s x. apply_reg x s) s xs"

lemma run_reg_snoc [simp]: "run_reg (xs @ [x]) s = apply_reg x (run_reg xs s)"
  by (simp add: run_reg_def)

lemma run_reg_Nil [simp]: "run_reg [] s = s"
  by (simp add: run_reg_def)

lemma ok_run_reg: "ok s \<Longrightarrow> ok (run_reg xs s)"
proof (induction xs rule: rev_induct)
  case (snoc x xs)
  then show ?case by (cases x) (auto simp: ok_announce ok_sweep ok_touch ok_withdraw)
qed simp

text \<open>The entries that are really there agree with the ideal ones; those missing are stale for good.\<close>

lemma seen_ideal:
  assumes "ok s" "\<And>k. seen s k = None" "sorted (map op_time xs)" "touches_live fresh xs"
    "\<forall>x \<in> set xs. op_time x \<le> now"
  shows "seen (run_reg xs s) k = ideal xs k
    \<or> (seen (run_reg xs s) k = None \<and> (\<exists>v t. ideal xs k = Some (v, t) \<and> \<not> fresh now t))"
  using assms(3-)
proof (induction xs arbitrary: now k rule: rev_induct)
  case Nil
  then show ?case by (simp add: assms(2))
next
  case (snoc x xs)
  let ?t = "op_time x"
  have srt: "sorted (map op_time xs)" "\<forall>y \<in> set xs. op_time y \<le> ?t"
    and live: "touches_live fresh xs" and le: "?t \<le> now"
    using snoc.prems by (auto simp: sorted_append)
  have IH: "seen (run_reg xs s) j = ideal xs j
    \<or> (seen (run_reg xs s) j = None \<and> (\<exists>v t. ideal xs j = Some (v, t) \<and> \<not> fresh ?t t))" for j
    using snoc.IH [OF srt(1) live srt(2)] .
  note stale = fresh_mono [OF _ le]
  note okx = ok_run_reg [OF assms(1), of xs]
  show ?case
  proof (cases x)
    case (RAnnounced k' v' t')
    then show ?thesis using IH [of k] stale by (auto simp: seen_announce)
  next
    case (RSwept t')
    show ?thesis
    proof (cases "seen (run_reg xs s) k")
      case None
      then show ?thesis using IH [of k] stale RSwept by (auto simp: seen_sweep [OF okx])
    next
      case (Some e)
      then have "ideal xs k = Some e" using IH [of k] by auto
      then show ?thesis using Some stale [of "snd e"] RSwept
        by (cases e) (auto simp: seen_sweep [OF okx])
    qed
  next
    case (RTouched k' t')
    have "case ideal xs k' of None \<Rightarrow> True | Some (_, u) \<Rightarrow> fresh t' u"
      using snoc.prems(2) RTouched by (simp add: touch_live_def)
    then have same: "seen (run_reg xs s) k' = ideal xs k'"
      using IH [of k'] RTouched by (auto split: option.splits)
    then show ?thesis using RTouched IH [of k] stale
      by (cases "ideal xs k'") (auto simp: seen_touch)
  next
    case (RDropped k' t')
    then show ?thesis using IH [of k] stale by (auto simp: seen_withdraw)
  qed
qed

lemma registry_run:
  assumes "ok s" "\<And>k. seen s k = None" "sorted (map op_time xs)" "touches_live fresh xs"
    "\<forall>x \<in> set xs. op_time x \<le> now"
  shows "(k, v, t) \<in> listed now (run_reg xs s) \<longleftrightarrow> ideal xs k = Some (v, t) \<and> fresh now t"
  using seen_ideal [OF assms, of k] by (auto simp: listed_iff ok_run_reg assms(1))

end

end
