(* ===== verification/Hub_Directory.thy ===== *)
theory Hub_Directory
  imports Ttl_Directory Go_Json Go_Map "HOL-Library.Sublist"
begin

text \<open>
  The hub's two mailrooms (\<open>cmd/chepherd-hub/registry.go\<close> and \<open>signaling.go\<close>): the presence
  directory with its 120 s time to live, and the per-recipient signaling queues with their 10 min one.
  A request carries what the handlers read of it; identity comes from the client certificate or else
  from a header. Each handler is one step (it takes its lock once); the clock is an argument.
\<close>

section \<open>Requests and replies\<close>

record hub_request =
  hq_meth :: string
  hq_cert :: "(string \<times> string list) option"
  hq_org :: string
  hq_query :: "string \<Rightarrow> string"
  hq_body :: raw

record signaling_frame =
  fr_Kind :: string
  fr_FromOrgID :: string
  fr_ToOrgID :: string
  fr_SessionID :: string
  fr_Payload :: "json option"
  fr_CreatedAt :: time

record registry_peer =
  rp_OrgID :: string
  rp_Card :: "json option"
  rp_LastSeen :: time

datatype hub_body =
    HErr "(string \<times> string) list"
  | HAnnounced string
  | HPeers "registry_peer list"
  | HAccepted string string string
  | HPending string "signaling_frame list"

type_synonym hub_reply = "int \<times> hub_body"

record hub =
  hb_allowedOrgs :: string
  hb_peers :: "(string \<times> registry_peer) list"
  hb_frames :: "(string \<times> signaling_frame list) list"

definition SignalingOffer :: string where "SignalingOffer = ''offer''"
definition SignalingAnswer :: string where "SignalingAnswer = ''answer''"
definition SignalingICE :: string where "SignalingICE = ''ice''"

definition registryTTL :: int where "registryTTL = 120 * second"
definition signalingFrameTTL :: int where "signalingFrameTTL = 10 * minute"

section \<open>Identity\<close>

definition authenticatedOrg :: "hub_request \<Rightarrow> string" where
  "authenticatedOrg rq =
     (let header = trim_space (hq_org rq) in
      case hq_cert rq of
        None \<Rightarrow> header
      | Some (cn, names) \<Rightarrow>
          if trim_space cn \<noteq> [] then trim_space cn
          else (case find (\<lambda>n. n \<noteq> []) names of Some n \<Rightarrow> n | None \<Rightarrow> header))"

definition orgAllowed :: "string \<Rightarrow> string \<Rightarrow> bool" where
  "orgAllowed allowedOrgs org \<longleftrightarrow>
     allowedOrgs = [] \<or> list_ex (\<lambda>a. trim_space a = org) (split_on CHR '','' allowedOrgs)"

text \<open>\<open>json.Decoder.Decode\<close> on the request body.\<close>

definition decode_body :: "string \<Rightarrow> (json \<Rightarrow> 'a result) \<Rightarrow> raw \<Rightarrow> 'a result" where
  "decode_body ty dec b = (case b of RawEmpty \<Rightarrow> Inl ''EOF'' | RawBad e \<Rightarrow> Inl e
     | RawJson j \<Rightarrow> res_bind (struct_ok ty j) dec)"

section \<open>Presence directory\<close>

definition Announce :: "string \<Rightarrow> json option \<Rightarrow> time \<Rightarrow> hub \<Rightarrow> hub" where
  "Announce org jcard now h = h\<lparr>hb_peers :=
     AList.update org \<lparr>rp_OrgID = org, rp_Card = jcard, rp_LastSeen = now\<rparr> (hb_peers h)\<rparr>"

definition ListLive :: "time \<Rightarrow> hub \<Rightarrow> registry_peer list" where
  "ListLive now h = filter (\<lambda>p. rp_LastSeen p > now - registryTTL) (map snd (hb_peers h))"

definition registry_gcOnce :: "time \<Rightarrow> hub \<Rightarrow> hub" where
  "registry_gcOnce now h = h\<lparr>hb_peers :=
     filter (\<lambda>(_, p). rp_LastSeen p > now - registryTTL) (hb_peers h)\<rparr>"

definition no_identity :: string where
  "no_identity = ''no authenticated org identity (mTLS cert subject or X-Chepherd-Org header required)''"

text \<open>What the handler makes of a request: an error reply, or the record to announce.\<close>

definition announce_parse :: "string \<Rightarrow> hub_request \<Rightarrow> hub_reply + (string \<times> json option)" where
  "announce_parse allowed rq =
     (if hq_meth rq \<noteq> ''POST'' then Inl (405, HErr [(''error'', ''POST only'')])
      else let authOrg = authenticatedOrg rq in
      if authOrg = [] then Inl (401, HErr [(''error'', no_identity)])
      else if \<not> orgAllowed allowed authOrg
      then Inl (403, HErr [(''error'', ''org not in --allowed-orgs allowlist''), (''org'', authOrg)])
      else case decode_body ''main.registryAnnounceRequest''
                  (\<lambda>j. res_bind (get_str ''orgId'' j) (\<lambda>claimed. Inr (claimed, get_raw ''card'' j)))
                  (hq_body rq) of
        Inl e \<Rightarrow> Inl (400, HErr [(''error'', ''decode body: '' @ e)])
      | Inr (claimed, jcard) \<Rightarrow>
          if claimed \<noteq> [] \<and> claimed \<noteq> authOrg
          then Inl (403, HErr [(''error'', ''orgId doesn't match authenticated org identity''),
                               (''auth_org'', authOrg), (''claimed_org'', claimed)])
          else Inr (authOrg, jcard))"

definition handleRegistryAnnounce :: "hub_request \<Rightarrow> time \<Rightarrow> hub \<Rightarrow> hub_reply \<times> hub" where
  "handleRegistryAnnounce rq now h =
     (case announce_parse (hb_allowedOrgs h) rq of
        Inl r \<Rightarrow> (r, h)
      | Inr (org, jcard) \<Rightarrow> ((200, HAnnounced org), Announce org jcard now h))"

definition handleRegistryPeers :: "hub_request \<Rightarrow> time \<Rightarrow> hub \<Rightarrow> hub_reply" where
  "handleRegistryPeers rq now h =
     (if hq_meth rq \<noteq> ''GET'' then (405, HErr [(''error'', ''GET only'')])
      else let authOrg = authenticatedOrg rq in
      if authOrg = [] then (401, HErr [(''error'', no_identity)])
      else if \<not> orgAllowed (hb_allowedOrgs h) authOrg
      then (403, HErr [(''error'', ''org not in --allowed-orgs allowlist''), (''org'', authOrg)])
      else (200, HPeers (ListLive now h)))"

section \<open>Signaling queues\<close>

definition queued :: "string \<Rightarrow> hub \<Rightarrow> signaling_frame list" where
  "queued org h = (case map_of (hb_frames h) org of None \<Rightarrow> [] | Some fs \<Rightarrow> fs)"

definition frame_error :: "signaling_frame \<Rightarrow> go_error option" where
  "frame_error f =
     (if fr_ToOrgID f = [] then Some ''signaling: empty toOrgId''
      else if fr_SessionID f = [] then Some ''signaling: empty sessionId''
      else if fr_Kind f \<noteq> SignalingOffer \<and> fr_Kind f \<noteq> SignalingAnswer \<and> fr_Kind f \<noteq> SignalingICE
      then Some (''signaling: unknown kind '' @ fr_Kind f)
      else if fr_Payload f = None then Some ''signaling: empty payload'' else None)"

definition Enqueue :: "signaling_frame \<Rightarrow> time \<Rightarrow> hub \<Rightarrow> go_error option \<times> hub" where
  "Enqueue f now h = (case frame_error f of Some e \<Rightarrow> (Some e, h)
     | None \<Rightarrow> (None, h\<lparr>hb_frames := AList.update (fr_ToOrgID f)
                  (queued (fr_ToOrgID f) h @ [f\<lparr>fr_CreatedAt := now\<rparr>]) (hb_frames h)\<rparr>))"

definition DrainPending :: "string \<Rightarrow> hub \<Rightarrow> signaling_frame list \<times> hub" where
  "DrainPending org h = (queued org h, h\<lparr>hb_frames := AList.delete org (hb_frames h)\<rparr>)"

definition signaling_gcOnce :: "time \<Rightarrow> hub \<Rightarrow> hub" where
  "signaling_gcOnce now h = h\<lparr>hb_frames := filter (\<lambda>(_, fs). fs \<noteq> [])
     (map (\<lambda>(org, fs). (org, filter (\<lambda>f. fr_CreatedAt f > now - signalingFrameTTL) fs)) (hb_frames h))\<rparr>"

record signaling_request =
  sg_FromOrgID :: string
  sg_ToOrgID :: string
  sg_SessionID :: string
  sg_Payload :: "json option"

definition dec_signaling :: "json \<Rightarrow> signaling_request result" where
  "dec_signaling j =
     res_bind (get_str ''fromOrgId'' j) (\<lambda>f. res_bind (get_str ''toOrgId'' j) (\<lambda>t.
     res_bind (get_str ''sessionId'' j) (\<lambda>s.
       Inr \<lparr>sg_FromOrgID = f, sg_ToOrgID = t, sg_SessionID = s, sg_Payload = get_raw ''payload'' j\<rparr>)))"

text \<open>What the handler makes of a request: an error reply, or the frame to queue.\<close>

definition signaling_parse :: "string \<Rightarrow> string \<Rightarrow> hub_request \<Rightarrow> hub_reply + signaling_frame" where
  "signaling_parse allowed kind rq =
     (if hq_meth rq \<noteq> ''POST'' then Inl (405, HErr [(''error'', ''POST only'')])
      else let authOrg = authenticatedOrg rq in
      if authOrg = [] then Inl (401, HErr [(''error'', no_identity)])
      else if \<not> orgAllowed allowed authOrg
      then Inl (403, HErr [(''error'', ''org not in --allowed-orgs allowlist''), (''org'', authOrg)])
      else case decode_body ''main.signalingRequest'' dec_signaling (hq_body rq) of
        Inl e \<Rightarrow> Inl (400, HErr [(''error'', ''decode body: '' @ e)])
      | Inr sg \<Rightarrow>
          if sg_FromOrgID sg \<noteq> [] \<and> sg_FromOrgID sg \<noteq> authOrg
          then Inl (403, HErr [(''error'', ''fromOrgId doesn't match authenticated org identity''),
                               (''auth_org'', authOrg), (''claimed_org'', sg_FromOrgID sg)])
          else if sg_ToOrgID sg = [] \<or> sg_SessionID sg = []
          then Inl (400, HErr [(''error'', ''toOrgId and sessionId required'')])
          else if \<not> orgAllowed allowed (sg_ToOrgID sg)
          then Inl (403, HErr [(''error'', ''toOrgId not in allowlist''), (''org'', sg_ToOrgID sg)])
          else Inr \<lparr>fr_Kind = kind, fr_FromOrgID = authOrg, fr_ToOrgID = sg_ToOrgID sg,
                    fr_SessionID = sg_SessionID sg, fr_Payload = sg_Payload sg, fr_CreatedAt = time_zero\<rparr>)"

definition makeSignalingHandler :: "string \<Rightarrow> hub_request \<Rightarrow> time \<Rightarrow> hub \<Rightarrow> hub_reply \<times> hub" where
  "makeSignalingHandler kind rq now h =
     (case signaling_parse (hb_allowedOrgs h) kind rq of
        Inl r \<Rightarrow> (r, h)
      | Inr f \<Rightarrow>
          (case Enqueue f now h of
             (Some e, h') \<Rightarrow> ((400, HErr [(''error'', e)]), h')
           | (None, h') \<Rightarrow> ((202, HAccepted kind (fr_ToOrgID f) (fr_SessionID f)), h')))"

definition handleSignalingPending :: "hub_request \<Rightarrow> hub \<Rightarrow> hub_reply \<times> hub" where
  "handleSignalingPending rq h =
     (if hq_meth rq \<noteq> ''GET'' then ((405, HErr [(''error'', ''GET only'')]), h)
      else let authOrg = authenticatedOrg rq in
      if authOrg = [] then ((401, HErr [(''error'', ''no authenticated org identity'')]), h)
      else if \<not> orgAllowed (hb_allowedOrgs h) authOrg
      then ((403, HErr [(''error'', ''org not in allowlist''), (''org'', authOrg)]), h)
      else
        let q1 = hq_query rq ''orgId''; claimed = (if q1 = [] then hq_query rq ''orgID'' else q1) in
        if claimed \<noteq> [] \<and> claimed \<noteq> authOrg
        then ((403, HErr [(''error'', ''orgId query param doesn't match authenticated org identity''),
                          (''auth_org'', authOrg), (''claimed_org'', claimed)]), h)
        else
          let (fs, h') = DrainPending authOrg h in ((200, HPending authOrg fs), h'))"

section \<open>Runs of the hub\<close>

datatype hub_event =
    EvAnnounce hub_request time
  | EvPeers hub_request time
  | EvSweep time
  | EvSignal string hub_request time
  | EvPending hub_request
  | EvGC time

fun hub_step :: "hub_event \<Rightarrow> hub \<Rightarrow> hub_reply option \<times> hub" where
  "hub_step (EvAnnounce rq now) h = (let (r, h') = handleRegistryAnnounce rq now h in (Some r, h'))"
| "hub_step (EvPeers rq now) h = (Some (handleRegistryPeers rq now h), h)"
| "hub_step (EvSweep now) h = (None, registry_gcOnce now h)"
| "hub_step (EvSignal kind rq now) h = (let (r, h') = makeSignalingHandler kind rq now h in (Some r, h'))"
| "hub_step (EvPending rq) h = (let (r, h') = handleSignalingPending rq h in (Some r, h'))"
| "hub_step (EvGC now) h = (None, signaling_gcOnce now h)"

definition newServer :: "string \<Rightarrow> hub" where
  "newServer allowed = \<lparr>hb_allowedOrgs = allowed, hb_peers = [], hb_frames = []\<rparr>"

definition hub_run :: "hub_event list \<Rightarrow> hub \<Rightarrow> hub" where
  "hub_run xs h = foldl (\<lambda>h x. snd (hub_step x h)) h xs"

text \<open>What the directory was told, the frames accepted for an organisation, and the frames its polls
  returned, in order.\<close>

definition announcements :: "string \<Rightarrow> hub_event list \<Rightarrow> (string, json option) dir_op list" where
  "announcements allowed xs = concat (map (\<lambda>x. case x of
     EvAnnounce rq now \<Rightarrow>
       (case announce_parse allowed rq of Inr (org, jcard) \<Rightarrow> [Announced org jcard now] | Inl _ \<Rightarrow> [])
   | EvSweep now \<Rightarrow> [Swept now] | _ \<Rightarrow> []) xs)"

definition accepted :: "string \<Rightarrow> string \<Rightarrow> hub_event list \<Rightarrow> signaling_frame list" where
  "accepted allowed org xs = concat (map (\<lambda>x. case x of
     EvSignal kind rq now \<Rightarrow>
       (case signaling_parse allowed kind rq of
          Inr f \<Rightarrow> if frame_error f = None \<and> fr_ToOrgID f = org then [f\<lparr>fr_CreatedAt := now\<rparr>] else []
        | Inl _ \<Rightarrow> [])
   | _ \<Rightarrow> []) xs)"

fun delivered :: "string \<Rightarrow> hub_event list \<Rightarrow> hub \<Rightarrow> signaling_frame list" where
  "delivered org [] h = []"
| "delivered org (x # xs) h =
     (case x of
        EvPending rq \<Rightarrow>
          (if authenticatedOrg rq = org
           then (case hub_step x h of (Some (_, HPending _ fs), _) \<Rightarrow> fs | _ \<Rightarrow> []) else [])
      | _ \<Rightarrow> [])
     @ delivered org xs (snd (hub_step x h))"

section \<open>The directory meets its contract\<close>

definition peers_ok :: "hub \<Rightarrow> bool" where
  "peers_ok h \<longleftrightarrow> distinct (map fst (hb_peers h)) \<and> (\<forall>(org, p) \<in> set (hb_peers h). rp_OrgID p = org)"

definition peer_seen :: "hub \<Rightarrow> string \<Rightarrow> (json option \<times> time) option" where
  "peer_seen h org = map_option (\<lambda>p. (rp_Card p, rp_LastSeen p)) (map_of (hb_peers h) org)"

definition peer_listed :: "time \<Rightarrow> hub \<Rightarrow> (string \<times> json option \<times> time) set" where
  "peer_listed now h = (\<lambda>p. (rp_OrgID p, rp_Card p, rp_LastSeen p)) ` set (ListLive now h)"

definition peer_fresh :: "time \<Rightarrow> time \<Rightarrow> bool" where
  "peer_fresh now t \<longleftrightarrow> t > now - registryTTL"

lemma peer_listed_iff:
  assumes "peers_ok h"
  shows "(k, v, t) \<in> peer_listed now h \<longleftrightarrow> peer_seen h k = Some (v, t) \<and> peer_fresh now t"
proof
  assume "(k, v, t) \<in> peer_listed now h"
  then obtain p where p: "p \<in> snd ` set (hb_peers h)" "rp_LastSeen p > now - registryTTL"
      "k = rp_OrgID p" "v = rp_Card p" "t = rp_LastSeen p"
    by (auto simp: peer_listed_def ListLive_def)
  then have "map_of (hb_peers h) k = Some p" using assms by (auto simp: peers_ok_def)
  then show "peer_seen h k = Some (v, t) \<and> peer_fresh now t"
    using p by (simp add: peer_seen_def peer_fresh_def)
next
  assume a: "peer_seen h k = Some (v, t) \<and> peer_fresh now t"
  then obtain p where p: "map_of (hb_peers h) k = Some p" "v = rp_Card p" "t = rp_LastSeen p"
    by (auto simp: peer_seen_def)
  have "(k, p) \<in> set (hb_peers h)" using p(1) by (rule map_of_SomeD)
  moreover have "rp_OrgID p = k" using calculation assms by (auto simp: peers_ok_def)
  ultimately show "(k, v, t) \<in> peer_listed now h"
    using p a by (force simp: peer_listed_def ListLive_def peer_fresh_def)
qed

interpretation hub_dir: ttl_directory Announce registry_gcOnce peer_listed peer_seen peer_fresh peers_ok
proof (unfold_locales, goal_cases)
  case (1 k v now h)
  then show ?case by (auto simp: fun_eq_iff peer_seen_def Announce_def update_conv)
next
  case (2 h now k)
  then show ?case
    by (auto simp: peer_seen_def registry_gcOnce_def peers_ok_def peer_fresh_def map_of_filter_val
        split: option.splits)
next
  case (3 h k v t now)
  then show ?case by (rule peer_listed_iff)
next
  case (4 now t now')
  then show ?case by (simp add: peer_fresh_def)
next
  case (5 h k v now)
  then show ?case by (auto simp: peers_ok_def Announce_def distinct_update dest!: subsetD [OF set_aupdate])
next
  case (6 h now)
  then show ?case by (auto simp: peers_ok_def registry_gcOnce_def distinct_map_filter)
qed

section \<open>Who is listed\<close>

lemma hub_run_snoc [simp]: "hub_run (xs @ [x]) h = snd (hub_step x (hub_run xs h))"
  by (simp add: hub_run_def)

lemma hub_run_Nil [simp]: "hub_run [] h = h"
  by (simp add: hub_run_def)

lemma Enqueue_frame_fields [simp]:
  "hb_peers (snd (Enqueue f now h)) = hb_peers h"
  "hb_allowedOrgs (snd (Enqueue f now h)) = hb_allowedOrgs h"
  by (auto simp: Enqueue_def split: option.splits)

lemma signal_fields [simp]:
  "hb_peers (snd (makeSignalingHandler kind rq now h)) = hb_peers h"
  "hb_allowedOrgs (snd (makeSignalingHandler kind rq now h)) = hb_allowedOrgs h"
proof -
  have *: "snd (makeSignalingHandler kind rq now h) = (case signaling_parse (hb_allowedOrgs h) kind rq of
      Inl _ \<Rightarrow> h | Inr f \<Rightarrow> snd (Enqueue f now h))"
    by (auto simp: makeSignalingHandler_def split: sum.splits prod.splits option.splits)
  show "hb_peers (snd (makeSignalingHandler kind rq now h)) = hb_peers h"
    "hb_allowedOrgs (snd (makeSignalingHandler kind rq now h)) = hb_allowedOrgs h"
    unfolding * by (auto split: sum.splits)
qed

lemma pending_fields [simp]:
  "hb_peers (snd (handleSignalingPending rq h)) = hb_peers h"
  "hb_allowedOrgs (snd (handleSignalingPending rq h)) = hb_allowedOrgs h"
  by (auto simp: handleSignalingPending_def DrainPending_def Let_def)

lemma announce_step:
  "snd (handleRegistryAnnounce rq now h) = (case announce_parse (hb_allowedOrgs h) rq of
     Inl _ \<Rightarrow> h | Inr (org, jcard) \<Rightarrow> Announce org jcard now h)"
  by (auto simp: handleRegistryAnnounce_def split: sum.splits prod.splits)

lemma hub_allowed_run [simp]: "hb_allowedOrgs (hub_run xs h) = hb_allowedOrgs h"
proof (induction xs rule: rev_induct)
  case (snoc x xs)
  then show ?case
    by (cases x) (auto simp: split_beta announce_step Announce_def registry_gcOnce_def
        signaling_gcOnce_def split: sum.splits prod.splits)
qed simp

lemma peers_run:
  "hb_peers (hub_run xs h) = hb_peers (hub_dir.run (announcements (hb_allowedOrgs h) xs) h)"
proof (induction xs rule: rev_induct)
  case Nil
  then show ?case by (simp add: announcements_def)
next
  case (snoc x xs)
  have cong: "hb_peers h1 = hb_peers h2 \<Longrightarrow> hb_peers (Announce org jcard now h1) = hb_peers (Announce org jcard now h2)"
    "hb_peers h1 = hb_peers h2 \<Longrightarrow> hb_peers (registry_gcOnce now h1) = hb_peers (registry_gcOnce now h2)"
    for h1 h2 org jcard now by (simp_all add: Announce_def registry_gcOnce_def)
  have app: "announcements a (xs @ [x]) = announcements a xs @ announcements a [x]" for a
    by (simp add: announcements_def)
  show ?case
  proof (cases x)
    case (EvAnnounce rq now)
    show ?thesis
    proof (cases "announce_parse (hb_allowedOrgs h) rq")
      case (Inl r)
      then show ?thesis using snoc EvAnnounce by (simp add: app announcements_def split_beta announce_step)
    next
      case (Inr e)
      obtain org jcard where e: "e = (org, jcard)" by (cases e)
      have "announcements (hb_allowedOrgs h) [x] = [Announced org jcard now]"
        using Inr e EvAnnounce by (simp add: announcements_def)
      then have "hub_dir.run (announcements (hb_allowedOrgs h) (xs @ [x])) h
          = Announce org jcard now (hub_dir.run (announcements (hb_allowedOrgs h) xs) h)"
        by (simp add: app)
      moreover have "hub_run (xs @ [x]) h = Announce org jcard now (hub_run xs h)"
        using Inr e EvAnnounce by (simp add: split_beta announce_step)
      ultimately show ?thesis using cong(1) [OF snoc] by simp
    qed
  next
    case (EvSweep now)
    then have "announcements (hb_allowedOrgs h) [x] = [Swept now]" by (simp add: announcements_def)
    then have "hub_dir.run (announcements (hb_allowedOrgs h) (xs @ [x])) h
        = registry_gcOnce now (hub_dir.run (announcements (hb_allowedOrgs h) xs) h)"
      by (simp add: app)
    moreover have "hub_run (xs @ [x]) h = registry_gcOnce now (hub_run xs h)"
      using EvSweep by simp
    ultimately show ?thesis using cong(2) [OF snoc] by simp
  next
    case (EvGC now)
    then show ?thesis using snoc by (simp add: app announcements_def signaling_gcOnce_def)
  qed (use snoc in \<open>simp_all add: app announcements_def split_beta\<close>)
qed

lemma swept_announcements: "Swept u \<in> set (announcements a xs) \<Longrightarrow> EvSweep u \<in> set xs"
proof (induction xs)
  case (Cons x xs)
  then show ?case by (cases x) (auto simp: announcements_def split: sum.splits prod.splits)
qed (simp add: announcements_def)

text \<open>Whatever requests reached the hub and whenever it swept, an allowed caller of the peers endpoint
  gets each organisation at most once, and exactly those whose last accepted announcement is younger than
  120 seconds, with the card and the time of that announcement.\<close>

theorem hub_directory_exact:
  assumes "\<forall>u. EvSweep u \<in> set xs \<longrightarrow> u \<le> now"
    and "hq_meth rq = ''GET''" "authenticatedOrg rq \<noteq> []" "orgAllowed allowed (authenticatedOrg rq)"
  shows "\<exists>ps. handleRegistryPeers rq now (hub_run xs (newServer allowed)) = (200, HPeers ps)
    \<and> distinct (map rp_OrgID ps)
    \<and> (\<forall>p. p \<in> set ps \<longleftrightarrow>
          last_announced (announcements allowed xs) (rp_OrgID p) = Some (rp_Card p, rp_LastSeen p)
          \<and> now - rp_LastSeen p < 120 * second)"
proof -
  let ?init = "newServer allowed" and ?ops = "announcements allowed xs"
  let ?h = "hub_run xs ?init" and ?d = "hub_dir.run ?ops ?init"
  have ok0: "peers_ok ?init" and none: "\<And>k. peer_seen ?init k = None"
    by (simp_all add: newServer_def peers_ok_def peer_seen_def)
  have same: "hb_peers ?h = hb_peers ?d" using peers_run [of xs ?init] by (simp add: newServer_def)
  have ok: "peers_ok ?h" using hub_dir.ok_run [OF ok0, of ?ops] same by (simp add: peers_ok_def)
  have listed: "peer_listed now ?h = peer_listed now ?d"
    by (simp add: peer_listed_def ListLive_def same)
  have swept: "\<forall>u. Swept u \<in> set ?ops \<longrightarrow> u \<le> now" using assms(1) swept_announcements by blast
  have mem: "p \<in> set (ListLive now ?h) \<longleftrightarrow> (rp_OrgID p, rp_Card p, rp_LastSeen p) \<in> peer_listed now ?h"
    for p
  proof -
    have "inj (\<lambda>p :: registry_peer. (rp_OrgID p, rp_Card p, rp_LastSeen p))"
      by (rule injI) (rule registry_peer.equality; simp)
    from inj_image_mem_iff [OF this, of p "set (ListLive now ?h)"]
    show ?thesis by (simp add: peer_listed_def)
  qed
  have dist: "distinct (map rp_OrgID (ListLive now ?h))"
  proof -
    have keys: "map rp_OrgID (map snd (hb_peers ?h)) = map fst (hb_peers ?h)"
      using ok by (auto simp: peers_ok_def)
    then have "distinct (map rp_OrgID (map snd (hb_peers ?h)))"
      using ok unfolding keys by (simp add: peers_ok_def)
    then show ?thesis unfolding ListLive_def by (rule distinct_map_filter)
  qed
  have "handleRegistryPeers rq now ?h = (200, HPeers (ListLive now ?h))"
    using assms(2-4) by (simp add: handleRegistryPeers_def newServer_def)
  then show ?thesis
    using dist hub_dir.listed_run [OF ok0 none swept]
    by (auto simp: mem listed peer_fresh_def registryTTL_def)
qed

text \<open>On a run: an organisation announced once, swept before it expired and asked for after.\<close>

definition dev_request :: "string \<Rightarrow> string \<Rightarrow> json \<Rightarrow> hub_request" where
  "dev_request meth org body = \<lparr>hq_meth = meth, hq_cert = None, hq_org = org,
     hq_query = (\<lambda>_. []), hq_body = RawJson body\<rparr>"

theorem hub_directory_exact_witness:
  "\<exists>ps. handleRegistryPeers (dev_request ''GET'' ''a'' JNull) (200 * second)
     (hub_run [EvAnnounce (dev_request ''POST'' ''a'' JNull) 0, EvSweep (100 * second)] (newServer [])) = (200, HPeers ps)
    \<and> distinct (map rp_OrgID ps)
    \<and> (\<forall>p. p \<in> set ps \<longleftrightarrow>
          last_announced (announcements [] [EvAnnounce (dev_request ''POST'' ''a'' JNull) 0, EvSweep (100 * second)])
            (rp_OrgID p) = Some (rp_Card p, rp_LastSeen p)
          \<and> 200 * second - rp_LastSeen p < 120 * second)"
  by (rule hub_directory_exact)
    (simp_all add: dev_request_def authenticatedOrg_def string_eval second_def orgAllowed_def)

section \<open>Who receives a frame\<close>

definition frames_ok :: "hub \<Rightarrow> bool" where
  "frames_ok h \<longleftrightarrow> distinct (map fst (hb_frames h))"

lemma queued_empty: "queued org (newServer allowed) = []"
  by (simp add: queued_def newServer_def)

lemma queued_Enqueue:
  "queued org (snd (Enqueue f now h)) =
     queued org h @ (if frame_error f = None \<and> fr_ToOrgID f = org then [f\<lparr>fr_CreatedAt := now\<rparr>] else [])"
  by (auto simp: queued_def Enqueue_def update_conv' split: option.splits)

lemma queued_delete:
  "queued org (h\<lparr>hb_frames := AList.delete org' (hb_frames h)\<rparr>) = (if org = org' then [] else queued org h)"
  by (auto simp: queued_def)

lemma queued_gc:
  assumes "frames_ok h"
  shows "queued org (signaling_gcOnce now h) = filter (\<lambda>f. fr_CreatedAt f > now - signalingFrameTTL) (queued org h)"
proof -
  let ?keep = "filter (\<lambda>f. fr_CreatedAt f > now - signalingFrameTTL)"
  have m: "map (\<lambda>(org, fs). (org, ?keep fs)) xs = map (\<lambda>(k, v). (k, ?keep v)) xs" for xs by simp
  have d: "distinct (map fst (map (\<lambda>(k, v). (k, ?keep v)) (hb_frames h)))"
    using assms by (simp add: frames_ok_def comp_def split_beta)
  show ?thesis
    using map_of_filter_val [OF d, of "\<lambda>fs. fs \<noteq> []" org] map_of_map [of ?keep "hb_frames h"]
    by (auto simp: queued_def signaling_gcOnce_def split: option.splits)
qed

lemma frames_ok_step: "frames_ok h \<Longrightarrow> frames_ok (snd (hub_step x h))"
proof (cases x)
  case (EvSignal kind rq now)
  assume "frames_ok h"
  then show ?thesis using EvSignal
    by (auto simp: frames_ok_def makeSignalingHandler_def Enqueue_def distinct_update
        split: sum.splits prod.splits option.splits if_splits)
next
  case (EvPending rq)
  assume "frames_ok h"
  then show ?thesis using EvPending
    by (auto simp: frames_ok_def handleSignalingPending_def DrainPending_def distinct_delete Let_def)
next
  case (EvGC now)
  assume "frames_ok h"
  then have "distinct (map fst (map (\<lambda>(org, fs). (org, filter (\<lambda>f. fr_CreatedAt f > now - signalingFrameTTL) fs))
      (hb_frames h)))" by (simp add: frames_ok_def comp_def split_beta)
  then show ?thesis using EvGC
    by (simp add: frames_ok_def signaling_gcOnce_def distinct_map_filter del: map_map)
qed (auto simp: frames_ok_def split_beta announce_step Announce_def registry_gcOnce_def
       split: sum.splits prod.splits)

lemma queued_signal:
  "queued org (snd (makeSignalingHandler kind rq now h)) =
     queued org h @ accepted (hb_allowedOrgs h) org [EvSignal kind rq now]"
proof (cases "signaling_parse (hb_allowedOrgs h) kind rq")
  case (Inl r)
  then show ?thesis by (simp add: makeSignalingHandler_def accepted_def)
next
  case (Inr f)
  then have "snd (makeSignalingHandler kind rq now h) = snd (Enqueue f now h)"
    by (auto simp: makeSignalingHandler_def split: prod.splits option.splits)
  then show ?thesis using Inr by (simp add: queued_Enqueue accepted_def)
qed

text \<open>What one poll hands over leaves the queue.\<close>

lemma poll_moves:
  "delivered org [EvPending rq] h @ queued org (snd (handleSignalingPending rq h)) = queued org h"
  by (auto simp: handleSignalingPending_def Let_def DrainPending_def queued_delete)

lemma delivered_snoc: "delivered org (xs @ [x]) h = delivered org xs h @ delivered org [x] (hub_run xs h)"
  by (induction xs arbitrary: h) (auto simp: hub_run_def)

lemma accepted_append [simp]: "accepted a org (xs @ ys) = accepted a org xs @ accepted a org ys"
  by (simp add: accepted_def)

lemma accepted_Nil [simp]: "accepted a org [] = []"
  by (simp add: accepted_def)

lemma other_events_queue:
  assumes "\<And>kind rq now. x \<noteq> EvSignal kind rq now" "\<And>rq. x \<noteq> EvPending rq" "\<And>now. x \<noteq> EvGC now"
  shows "queued org (snd (hub_step x h)) = queued org h" "delivered org [x] h = []"
    "accepted a org [x] = []"
  using assms by (cases x; auto simp: queued_def accepted_def split_beta announce_step Announce_def
      registry_gcOnce_def split: sum.splits)+

lemma mailbox_flow:
  assumes "frames_ok h" "queued org h = []"
  shows "frames_ok (hub_run xs h)"
    "subseq (delivered org xs h @ queued org (hub_run xs h)) (accepted (hb_allowedOrgs h) org xs)"
    "(\<forall>u f. EvGC u \<in> set xs \<longrightarrow> f \<in> set (accepted (hb_allowedOrgs h) org xs)
        \<longrightarrow> u - fr_CreatedAt f < signalingFrameTTL)
     \<Longrightarrow> delivered org xs h @ queued org (hub_run xs h) = accepted (hb_allowedOrgs h) org xs"
proof (induction xs rule: rev_induct)
  case Nil
  {
    case 1
    then show ?case using assms by simp
  next
    case 2
    then show ?case using assms by simp
  next
    case 3
    then show ?case using assms by simp
  }
next
  case (snoc x xs)
  let ?h = "hub_run xs h" and ?a = "hb_allowedOrgs h"
  have step: "delivered org [x] ?h @ queued org (snd (hub_step x ?h)) =
      (case x of EvGC now \<Rightarrow> filter (\<lambda>f. fr_CreatedAt f > now - signalingFrameTTL) (queued org ?h)
       | _ \<Rightarrow> queued org ?h @ accepted ?a org [x])"
  proof (cases x)
    case (EvSignal kind rq now)
    then show ?thesis by (simp add: split_beta queued_signal)
  next
    case (EvPending rq)
    have "accepted ?a org [x] = []" using EvPending by (simp add: accepted_def)
    then show ?thesis using EvPending poll_moves [of org rq ?h] by (simp add: split_beta)
  next
    case (EvGC now)
    then show ?thesis using snoc.IH(1) by (simp add: queued_gc)
  qed (use other_events_queue [of x] in simp_all)
  {
    case 1
    then show ?case using snoc.IH(1) by (simp add: frames_ok_step)
  next
    case 2
    show ?case
    proof (cases "\<exists>now. x = EvGC now")
      case True
      then obtain now where x: "x = EvGC now" by blast
      have "subseq (filter P (queued org ?h)) (queued org ?h)" for P by (rule subseq_filter_left)
      then have "subseq (delivered org xs h @ filter P (queued org ?h)) (delivered org xs h @ queued org ?h)" for P
        by (simp add: subseq_append')
      then show ?thesis using x step snoc.IH(2)
        by (auto simp: delivered_snoc accepted_def intro: subseq_order.trans)
    next
      case False
      then have "delivered org (xs @ [x]) h @ queued org (hub_run (xs @ [x]) h)
          = (delivered org xs h @ queued org ?h) @ accepted ?a org [x]"
        using step by (simp add: delivered_snoc split: hub_event.splits)
      then show ?thesis using list_emb_append_mono [OF snoc.IH(2) subseq_order.refl [of "accepted ?a org [x]"]]
        by simp
    qed
  next
    case 3
    then have eq: "delivered org xs h @ queued org ?h = accepted ?a org xs"
      using snoc.IH(3) by auto
    show ?case
    proof (cases "\<exists>now. x = EvGC now")
      case True
      then obtain now where x: "x = EvGC now" by blast
      have "set (queued org ?h) \<subseteq> set (accepted ?a org xs)" using eq by (metis set_append sup_ge2)
      then have "\<forall>f \<in> set (queued org ?h). fr_CreatedAt f > now - signalingFrameTTL"
        using 3 x by fastforce
      then show ?thesis using x step eq by (simp add: delivered_snoc accepted_def filter_id_conv)
    next
      case False
      then show ?thesis using step eq by (simp add: delivered_snoc split: hub_event.splits)
    qed
  }
qed

lemma accepted_origin:
  assumes "f \<in> set (accepted allowed org xs)"
  shows "\<exists>kind rq now. EvSignal kind rq now \<in> set xs \<and> fr_FromOrgID f = authenticatedOrg rq
    \<and> orgAllowed allowed (fr_FromOrgID f) \<and> orgAllowed allowed org \<and> fr_ToOrgID f = org
    \<and> fr_Kind f = kind \<and> fr_CreatedAt f = now"
proof -
  obtain kind rq now g where g: "EvSignal kind rq now \<in> set xs" "signaling_parse allowed kind rq = Inr g"
      "fr_ToOrgID g = org" "f = g\<lparr>fr_CreatedAt := now\<rparr>"
  proof -
    obtain x where x: "x \<in> set xs" "f \<in> set (accepted allowed org [x])"
    proof -
      have "set (accepted allowed org xs) = (\<Union>x \<in> set xs. set (accepted allowed org [x]))"
        by (simp add: accepted_def)
      then show thesis using assms that by blast
    qed
    then show thesis
      by (cases x) (auto simp: accepted_def intro!: that split: sum.splits if_splits)
  qed
  have "fr_FromOrgID g = authenticatedOrg rq \<and> orgAllowed allowed (authenticatedOrg rq)
      \<and> orgAllowed allowed (fr_ToOrgID g) \<and> fr_Kind g = kind"
    using g(2) by (auto simp: signaling_parse_def Let_def split: if_splits sum.splits)
  then show ?thesis using g by auto
qed

text \<open>The signaling relay neither leaks, forges, duplicates nor reorders: over any run of requests
  and sweeps, what the polls of an organisation returned followed by what still waits for it is a
  subsequence of the frames accepted for it, and all of them when no sweep came ten minutes after a frame;
  each accepted frame was posted, with that kind and at that time, by a request authenticated as its
  sender, both ends being on the allowlist.\<close>

theorem signaling_mailbox:
  fixes allowed :: string and xs :: "hub_event list"
  defines "init \<equiv> newServer allowed"
  shows "subseq (delivered org xs init @ queued org (hub_run xs init)) (accepted allowed org xs)
    \<and> ((\<forall>u f. EvGC u \<in> set xs \<longrightarrow> f \<in> set (accepted allowed org xs) \<longrightarrow> u - fr_CreatedAt f < 10 * minute)
        \<longrightarrow> delivered org xs init @ queued org (hub_run xs init) = accepted allowed org xs)
    \<and> (\<forall>f \<in> set (accepted allowed org xs).
         \<exists>kind rq now. EvSignal kind rq now \<in> set xs \<and> fr_FromOrgID f = authenticatedOrg rq
           \<and> orgAllowed allowed (fr_FromOrgID f) \<and> orgAllowed allowed org \<and> fr_ToOrgID f = org
           \<and> fr_Kind f = kind \<and> fr_CreatedAt f = now)"
proof (intro conjI)
  have ok: "frames_ok init" "queued org init = []" "hb_allowedOrgs init = allowed"
    by (simp_all add: init_def frames_ok_def queued_empty) (simp_all add: newServer_def)
  note flow = mailbox_flow [OF ok(1,2), of xs, unfolded ok(3) signalingFrameTTL_def]
  show "subseq (delivered org xs init @ queued org (hub_run xs init)) (accepted allowed org xs)"
    by (rule flow(2))
  show "(\<forall>u f. EvGC u \<in> set xs \<longrightarrow> f \<in> set (accepted allowed org xs) \<longrightarrow> u - fr_CreatedAt f < 10 * minute)
      \<longrightarrow> delivered org xs init @ queued org (hub_run xs init) = accepted allowed org xs"
    using flow(3) by blast
qed (use accepted_origin in blast)

text \<open>On a run: an offer from one organisation to another, handed over once.\<close>

definition offer_body :: json where
  "offer_body = JObj [(''toOrgId'', JStr ''b''), (''sessionId'', JStr ''s''), (''payload'', JStr ''sdp'')]"

definition exchange :: "hub_event list" where
  "exchange = [EvSignal SignalingOffer (dev_request ''POST'' ''a'' offer_body) (1 * minute),
     EvGC (2 * minute), EvPending (dev_request ''GET'' ''b'' JNull), EvPending (dev_request ''GET'' ''b'' JNull)]"

lemma exchange_accepted:
  "accepted [] ''b'' exchange = [\<lparr>fr_Kind = ''offer'', fr_FromOrgID = ''a'', fr_ToOrgID = ''b'',
     fr_SessionID = ''s'', fr_Payload = Some (JStr ''sdp''), fr_CreatedAt = 1 * minute\<rparr>]"
  by (simp add: accepted_def exchange_def signaling_parse_def dev_request_def authenticatedOrg_def string_eval
      orgAllowed_def decode_body_def offer_body_def dec_signaling_def get_str_def get_raw_def jget_def
      frame_error_def SignalingOffer_def fold_eq_eval struct_ok_def)

theorem signaling_mailbox_witness:
  "delivered ''b'' exchange (newServer []) @ queued ''b'' (hub_run exchange (newServer []))
     = accepted [] ''b'' exchange \<and> length (accepted [] ''b'' exchange) = 1"
proof -
  have "\<forall>u f. EvGC u \<in> set exchange \<longrightarrow> f \<in> set (accepted [] ''b'' exchange) \<longrightarrow> u - fr_CreatedAt f < 10 * minute"
    unfolding exchange_accepted by (simp add: exchange_def minute_def)
  then show ?thesis
    using signaling_mailbox [of "''b''" exchange "[]"] by (simp add: exchange_accepted)
qed

text \<open>Without a client certificate the header alone is the identity, whatever the allowlist: any caller
  empties the mailbox of an allowed organisation by naming it.\<close>

lemma header_reads_any_mailbox:
  assumes "orgAllowed (hb_allowedOrgs h) victim" "trim_space victim = victim" "victim \<noteq> []"
  shows "handleSignalingPending \<lparr>hq_meth = ''GET'', hq_cert = None, hq_org = victim, hq_query = (\<lambda>_. []),
      hq_body = RawEmpty\<rparr> h
    = ((200, HPending victim (queued victim h)), snd (DrainPending victim h))"
  using assms by (simp add: handleSignalingPending_def authenticatedOrg_def DrainPending_def Let_def)

end
