(* ===== verification/Hub_Tunnel.thy ===== *)
theory Hub_Tunnel
  imports Hub_Directory
begin

text \<open>
  The hub's reverse-proxy tunnels (\<open>cmd/chepherd-hub/tunnel.go\<close>): one WebSocket per organisation, over
  which concurrent HTTP requests are forwarded and their responses matched by request id. Handlers, the
  read pumps and \<open>close\<close> interleave, so each critical section is a step: \<open>dispatch\<close> looks a waiter up and
  later sends to its channel, \<open>close\<close> takes the pending table and later closes the channels one by one.
  A waiter and its channel (capacity one) are made together and share an index; tunnels are indexed in
  the order of registration.
\<close>

section \<open>State\<close>

record relay_frame =
  rf_RequestID :: string
  rf_Direction :: string
  rf_Method :: string
  rf_Path :: string
  rf_Headers :: "(string \<times> string) list"
  rf_Status :: int
  rf_Body :: string

record tunnel =
  tn_org :: string
  tn_pending :: "(string \<times> nat) list"
  tn_closed :: bool
  tn_closing :: "nat list"
  tn_pump :: "(nat \<times> relay_frame) option"

record waiter =
  wt_tunnel :: nat
  wt_req :: string
  wt_buf :: "relay_frame option"
  wt_chclosed :: bool
  wt_result :: "(go_error + relay_frame) option"

record tunnel_manager =
  tm_tunnels :: "(string \<times> nat) list"
  tm_heap :: "tunnel list"
  tm_waiters :: "waiter list"
  tm_panic :: bool

definition newTunnelManager :: tunnel_manager where
  "newTunnelManager = \<lparr>tm_tunnels = [], tm_heap = [], tm_waiters = [], tm_panic = False\<rparr>"

definition upd_tunnel :: "nat \<Rightarrow> (tunnel \<Rightarrow> tunnel) \<Rightarrow> tunnel_manager \<Rightarrow> tunnel_manager" where
  "upd_tunnel t f m = m\<lparr>tm_heap := (tm_heap m)[t := f (tm_heap m ! t)]\<rparr>"

definition upd_waiter :: "nat \<Rightarrow> (waiter \<Rightarrow> waiter) \<Rightarrow> tunnel_manager \<Rightarrow> tunnel_manager" where
  "upd_waiter w f m = m\<lparr>tm_waiters := (tm_waiters m)[w := f (tm_waiters m ! w)]\<rparr>"

section \<open>Tunnel\<close>

text \<open>The critical section of \<open>close\<close>, and one turn of the loop that follows it.\<close>

definition close_mark :: "tunnel \<Rightarrow> tunnel" where
  "close_mark t = (if tn_closed t then t
     else t\<lparr>tn_closed := True, tn_closing := map snd (tn_pending t), tn_pending := []\<rparr>)"

definition close_next :: "nat \<Rightarrow> tunnel_manager \<Rightarrow> tunnel_manager" where
  "close_next t m = (case tn_closing (tm_heap m ! t) of [] \<Rightarrow> m
     | w # ws \<Rightarrow> upd_waiter w (\<lambda>x. x\<lparr>wt_chclosed := True\<rparr>)
         (upd_tunnel t (\<lambda>x. x\<lparr>tn_closing := ws\<rparr>) m))"

text \<open>\<open>roundTrip\<close> up to the registration of its slot, and its three ways to return; each return drops the
  slot.\<close>

definition rt_open :: "nat \<Rightarrow> string \<Rightarrow> tunnel_manager \<Rightarrow> tunnel_manager" where
  "rt_open t rid m =
     (let w = length (tm_waiters m); closed = tn_closed (tm_heap m ! t);
          new = \<lparr>wt_tunnel = t, wt_req = rid, wt_buf = None, wt_chclosed = False,
                 wt_result = (if closed then Some (Inl ''tunnel closed'') else None)\<rparr>;
          m1 = m\<lparr>tm_waiters := tm_waiters m @ [new]\<rparr>
      in if closed then m1 else upd_tunnel t (\<lambda>x. x\<lparr>tn_pending := AList.update rid w (tn_pending x)\<rparr>) m1)"

definition rt_return :: "nat \<Rightarrow> (go_error + relay_frame) \<Rightarrow> tunnel_manager \<Rightarrow> tunnel_manager" where
  "rt_return w r m =
     (let x = tm_waiters m ! w in
      upd_tunnel (wt_tunnel x) (\<lambda>t. t\<lparr>tn_pending := AList.delete (wt_req x) (tn_pending t)\<rparr>)
        (upd_waiter w (\<lambda>y. y\<lparr>wt_result := Some r, wt_buf := None\<rparr>) m))"

definition rt_recv :: "nat \<Rightarrow> tunnel_manager \<Rightarrow> tunnel_manager" where
  "rt_recv w m =
     (let x = tm_waiters m ! w in
      case wt_buf x of
        Some f \<Rightarrow> rt_return w (Inr f) m
      | None \<Rightarrow> if wt_chclosed x then rt_return w (Inl ''tunnel closed while awaiting response'') m else m)"

text \<open>The read pump: a message is decoded and handed to \<open>dispatch\<close>, which looks the waiter up and then
  sends. Sending on a closed channel panics.\<close>

definition dispatch_lookup :: "nat \<Rightarrow> relay_frame \<Rightarrow> tunnel_manager \<Rightarrow> tunnel_manager" where
  "dispatch_lookup t f m =
     (if rf_Direction f \<noteq> ''to-hub'' then m
      else case map_of (tn_pending (tm_heap m ! t)) (rf_RequestID f) of None \<Rightarrow> m
        | Some w \<Rightarrow> upd_tunnel t (\<lambda>x. x\<lparr>tn_pump := Some (w, f)\<rparr>) m)"

text \<open>The non-blocking send to a channel of capacity one.\<close>

definition fill_slot :: "relay_frame \<Rightarrow> waiter \<Rightarrow> waiter" where
  "fill_slot f x = (case wt_buf x of None \<Rightarrow> x\<lparr>wt_buf := Some f\<rparr> | Some _ \<Rightarrow> x)"

definition dispatch_send :: "nat \<Rightarrow> tunnel_manager \<Rightarrow> tunnel_manager" where
  "dispatch_send t m = (case tn_pump (tm_heap m ! t) of None \<Rightarrow> m
     | Some (w, f) \<Rightarrow>
         let m1 = upd_tunnel t (\<lambda>x. x\<lparr>tn_pump := None\<rparr>) m in
         if wt_chclosed (tm_waiters m ! w) then m1\<lparr>tm_panic := True\<rparr>
         else upd_waiter w (fill_slot f) m1)"

section \<open>Manager\<close>

definition tunnel_register :: "string \<Rightarrow> tunnel_manager \<Rightarrow> tunnel_manager" where
  "tunnel_register org m =
     (let t = length (tm_heap m);
          m1 = (case map_of (tm_tunnels m) org of None \<Rightarrow> m | Some old \<Rightarrow> upd_tunnel old close_mark m)
      in m1\<lparr>tm_heap := tm_heap m1 @ [\<lparr>tn_org = org, tn_pending = [], tn_closed = False, tn_closing = [],
                                      tn_pump = None\<rparr>],
            tm_tunnels := AList.update org t (tm_tunnels m1)\<rparr>)"

definition tunnel_deregister :: "string \<Rightarrow> nat \<Rightarrow> tunnel_manager \<Rightarrow> tunnel_manager" where
  "tunnel_deregister org t m =
     (if map_of (tm_tunnels m) org = Some t then m\<lparr>tm_tunnels := AList.delete org (tm_tunnels m)\<rparr> else m)"

definition tunnel_lookup :: "string \<Rightarrow> tunnel_manager \<Rightarrow> nat option" where
  "tunnel_lookup org m = map_of (tm_tunnels m) org"

definition tunnels_active :: "tunnel_manager \<Rightarrow> nat" where
  "tunnels_active m = length (tm_tunnels m)"

definition closeAll :: "tunnel_manager \<Rightarrow> tunnel_manager" where
  "closeAll m = foldl (\<lambda>m t. upd_tunnel t close_mark m) (m\<lparr>tm_tunnels := []\<rparr>) (map snd (tm_tunnels m))"

text \<open>The end of a read pump (\<open>handleRelayTunnel\<close>'s deferred calls).\<close>

definition pump_exit :: "nat \<Rightarrow> tunnel_manager \<Rightarrow> tunnel_manager" where
  "pump_exit t m = upd_tunnel t close_mark (tunnel_deregister (tn_org (tm_heap m ! t)) t m)"

datatype tunnel_op =
    TRegister string
  | TPumpExit nat
  | TCloseAll
  | TCloseNext nat
  | TOpen nat string
  | TSendFails nat go_error
  | TCancel nat go_error
  | TRecv nat
  | TLookup nat relay_frame
  | TSend nat

definition waiting :: "nat \<Rightarrow> tunnel_manager \<Rightarrow> bool" where
  "waiting w m \<longleftrightarrow> w < length (tm_waiters m) \<and> wt_result (tm_waiters m ! w) = None"

text \<open>A step that its goroutine cannot take in this state does nothing.\<close>

fun tunnel_step :: "tunnel_op \<Rightarrow> tunnel_manager \<Rightarrow> tunnel_manager" where
  "tunnel_step (TRegister org) m = tunnel_register org m"
| "tunnel_step (TPumpExit t) m =
     (if t < length (tm_heap m) \<and> tn_pump (tm_heap m ! t) = None then pump_exit t m else m)"
| "tunnel_step TCloseAll m = closeAll m"
| "tunnel_step (TCloseNext t) m = (if t < length (tm_heap m) then close_next t m else m)"
| "tunnel_step (TOpen t rid) m = (if t < length (tm_heap m) then rt_open t rid m else m)"
| "tunnel_step (TSendFails w e) m = (if waiting w m then rt_return w (Inl e) m else m)"
| "tunnel_step (TCancel w e) m = (if waiting w m then rt_return w (Inl e) m else m)"
| "tunnel_step (TRecv w) m = (if waiting w m then rt_recv w m else m)"
| "tunnel_step (TLookup t f) m =
     (if t < length (tm_heap m) \<and> tn_pump (tm_heap m ! t) = None then dispatch_lookup t f m else m)"
| "tunnel_step (TSend t) m = (if t < length (tm_heap m) then dispatch_send t m else m)"

definition tunnel_run :: "tunnel_op list \<Rightarrow> tunnel_manager \<Rightarrow> tunnel_manager" where
  "tunnel_run xs m = foldl (\<lambda>m x. tunnel_step x m) m xs"

section \<open>Invariant\<close>

definition arrived :: "tunnel_op list \<Rightarrow> nat \<Rightarrow> relay_frame \<Rightarrow> bool" where
  "arrived xs t f \<longleftrightarrow> TLookup t f \<in> set xs \<and> rf_Direction f = ''to-hub''"

definition tun_ok :: "tunnel_op list \<Rightarrow> waiter list \<Rightarrow> nat \<Rightarrow> tunnel \<Rightarrow> bool" where
  "tun_ok xs ws t tn \<longleftrightarrow>
     (\<forall>(rid, w) \<in> set (tn_pending tn). w < length ws \<and> wt_tunnel (ws ! w) = t \<and> wt_req (ws ! w) = rid)
     \<and> (\<forall>w \<in> set (tn_closing tn). w < length ws \<and> wt_tunnel (ws ! w) = t \<and> tn_closed tn)
     \<and> (\<forall>w f. tn_pump tn = Some (w, f) \<longrightarrow>
           w < length ws \<and> wt_tunnel (ws ! w) = t \<and> wt_req (ws ! w) = rf_RequestID f \<and> arrived xs t f)"

definition wtr_ok :: "tunnel_op list \<Rightarrow> tunnel list \<Rightarrow> waiter \<Rightarrow> bool" where
  "wtr_ok xs hp x \<longleftrightarrow> wt_tunnel x < length hp
     \<and> (\<forall>f. wt_buf x = Some f \<longrightarrow> rf_RequestID f = wt_req x \<and> arrived xs (wt_tunnel x) f)
     \<and> (\<forall>f. wt_result x = Some (Inr f) \<longrightarrow> rf_RequestID f = wt_req x \<and> arrived xs (wt_tunnel x) f)"

text \<open>Somebody will still wake the waiter: its slot is registered, or its channel is or will be closed.\<close>

definition served :: "tunnel list \<Rightarrow> nat \<Rightarrow> waiter \<Rightarrow> bool" where
  "served hp w x \<longleftrightarrow>
     (if tn_closed (hp ! wt_tunnel x) then wt_chclosed x \<or> w \<in> set (tn_closing (hp ! wt_tunnel x))
      else map_of (tn_pending (hp ! wt_tunnel x)) (wt_req x) = Some w)"

definition tun_inv :: "tunnel_op list \<Rightarrow> tunnel_manager \<Rightarrow> bool" where
  "tun_inv xs m \<longleftrightarrow>
     (\<forall>t < length (tm_heap m). tun_ok xs (tm_waiters m) t (tm_heap m ! t))
     \<and> (\<forall>w < length (tm_waiters m). wtr_ok xs (tm_heap m) (tm_waiters m ! w))
     \<and> (\<forall>w. waiting w m \<longrightarrow> served (tm_heap m) w (tm_waiters m ! w))
     \<and> distinct (map wt_req (tm_waiters m))
     \<and> (\<forall>t < length (tm_heap m). \<not> tn_closed (tm_heap m ! t) \<longrightarrow>
           map_of (tm_tunnels m) (tn_org (tm_heap m ! t)) = Some t)
     \<and> (\<forall>org t. map_of (tm_tunnels m) org = Some t \<longrightarrow>
           t < length (tm_heap m) \<and> tn_org (tm_heap m ! t) = org \<and> \<not> tn_closed (tm_heap m ! t))"

lemma tun_invI:
  assumes "\<And>t. t < length (tm_heap m) \<Longrightarrow> tun_ok xs (tm_waiters m) t (tm_heap m ! t)"
    "\<And>w. w < length (tm_waiters m) \<Longrightarrow> wtr_ok xs (tm_heap m) (tm_waiters m ! w)"
    "\<And>w. waiting w m \<Longrightarrow> served (tm_heap m) w (tm_waiters m ! w)"
    "distinct (map wt_req (tm_waiters m))"
    "\<And>t. t < length (tm_heap m) \<Longrightarrow> \<not> tn_closed (tm_heap m ! t) \<Longrightarrow>
       map_of (tm_tunnels m) (tn_org (tm_heap m ! t)) = Some t"
    "\<And>org t. map_of (tm_tunnels m) org = Some t \<Longrightarrow>
       t < length (tm_heap m) \<and> tn_org (tm_heap m ! t) = org \<and> \<not> tn_closed (tm_heap m ! t)"
  shows "tun_inv xs m"
  using assms unfolding tun_inv_def by blast

lemma tun_invD:
  assumes "tun_inv xs m"
  shows "t < length (tm_heap m) \<Longrightarrow> tun_ok xs (tm_waiters m) t (tm_heap m ! t)"
    "w < length (tm_waiters m) \<Longrightarrow> wtr_ok xs (tm_heap m) (tm_waiters m ! w)"
    "waiting w m \<Longrightarrow> served (tm_heap m) w (tm_waiters m ! w)"
    "distinct (map wt_req (tm_waiters m))"
    "t < length (tm_heap m) \<Longrightarrow> \<not> tn_closed (tm_heap m ! t) \<Longrightarrow>
       map_of (tm_tunnels m) (tn_org (tm_heap m ! t)) = Some t"
    "map_of (tm_tunnels m) org = Some t \<Longrightarrow>
       t < length (tm_heap m) \<and> tn_org (tm_heap m ! t) = org \<and> \<not> tn_closed (tm_heap m ! t)"
  using assms unfolding tun_inv_def by blast+

lemma upd_fields [simp]:
  "tm_tunnels (upd_tunnel t f m) = tm_tunnels m" "tm_waiters (upd_tunnel t f m) = tm_waiters m"
  "tm_heap (upd_tunnel t f m) = (tm_heap m)[t := f (tm_heap m ! t)]" "tm_panic (upd_tunnel t f m) = tm_panic m"
  "tm_tunnels (upd_waiter w g m) = tm_tunnels m" "tm_heap (upd_waiter w g m) = tm_heap m"
  "tm_waiters (upd_waiter w g m) = (tm_waiters m)[w := g (tm_waiters m ! w)]" "tm_panic (upd_waiter w g m) = tm_panic m"
  by (simp_all add: upd_tunnel_def upd_waiter_def)

lemma arrived_mono: "arrived xs t f \<Longrightarrow> arrived (xs @ ys) t f"
  by (simp add: arrived_def)

lemma tun_inv_mono:
  assumes "tun_inv xs m" shows "tun_inv (xs @ ys) m"
proof (rule tun_invI, goal_cases)
  case (1 t)
  then show ?case using tun_invD(1) [OF assms 1] arrived_mono by (fastforce simp: tun_ok_def)
next
  case (2 w)
  then show ?case using tun_invD(2) [OF assms 2] arrived_mono by (simp add: wtr_ok_def)
qed (use tun_invD(3-6) [OF assms] in blast)+

text \<open>An update of one tunnel that keeps its organisation and never reopens it.\<close>

lemma inv_upd_tunnel:
  assumes I: "tun_inv xs m" and t: "t < length (tm_heap m)"
    and org: "tn_org (f (tm_heap m ! t)) = tn_org (tm_heap m ! t)"
    and open': "tn_closed (f (tm_heap m ! t)) = tn_closed (tm_heap m ! t)"
    and ok: "tun_ok xs (tm_waiters m) t (f (tm_heap m ! t))"
    and srv: "\<And>w. waiting w m \<Longrightarrow> wt_tunnel (tm_waiters m ! w) = t \<Longrightarrow>
       served ((tm_heap m)[t := f (tm_heap m ! t)]) w (tm_waiters m ! w)"
  shows "tun_inv xs (upd_tunnel t f m)"
proof (rule tun_invI, goal_cases)
  case (1 t')
  then show ?case using tun_invD(1) [OF I, of t'] ok by (cases "t' = t") auto
next
  case (2 w)
  then show ?case using tun_invD(2) [OF I, of w] by (simp add: wtr_ok_def)
next
  case (3 w)
  then have w: "waiting w m" by (simp add: waiting_def)
  then show ?case using tun_invD(3) [OF I w] srv [OF w]
    by (cases "wt_tunnel (tm_waiters m ! w) = t") (simp_all add: served_def)
next
  case 4
  then show ?case using tun_invD(4) [OF I] by simp
next
  case (5 t')
  then show ?case using tun_invD(5) [OF I, of t'] org open' by (cases "t' = t") auto
next
  case (6 org' t')
  then show ?case using tun_invD(6) [OF I, of org' t'] org open' by (cases "t' = t") auto
qed

lemma inv_upd_waiter:
  assumes I: "tun_inv xs m" and w: "w < length (tm_waiters m)"
    and same: "wt_tunnel (g (tm_waiters m ! w)) = wt_tunnel (tm_waiters m ! w)"
      "wt_req (g (tm_waiters m ! w)) = wt_req (tm_waiters m ! w)"
    and ok: "wtr_ok xs (tm_heap m) (g (tm_waiters m ! w))"
    and srv: "wt_result (g (tm_waiters m ! w)) = None \<Longrightarrow> served (tm_heap m) w (g (tm_waiters m ! w))"
  shows "tun_inv xs (upd_waiter w g m)"
proof (rule tun_invI, goal_cases)
  case (1 t)
  have "tun_ok xs (tm_waiters m) t (tm_heap m ! t)" using 1 tun_invD(1) [OF I] by simp
  moreover have "wt_tunnel ((tm_waiters m)[w := g (tm_waiters m ! w)] ! v) = wt_tunnel (tm_waiters m ! v)"
      "wt_req ((tm_waiters m)[w := g (tm_waiters m ! w)] ! v) = wt_req (tm_waiters m ! v)" for v
    using same w by (cases "v = w"; simp)+
  ultimately show ?case by (simp add: tun_ok_def)
next
  case (2 v)
  then show ?case using tun_invD(2) [OF I, of v] ok w by (cases "v = w") auto
next
  case (3 v)
  show ?case
  proof (cases "v = w")
    case True
    then show ?thesis using 3 srv w by (simp add: waiting_def)
  next
    case False
    then have "waiting v m" using 3 by (simp add: waiting_def)
    then show ?thesis using tun_invD(3) [OF I] False by simp
  qed
next
  case 4
  have "map wt_req ((tm_waiters m)[w := g (tm_waiters m ! w)]) = map wt_req (tm_waiters m)"
    using same w by (simp add: map_update list_update_same_conv)
  then show ?case using tun_invD(4) [OF I] by simp
next
  case (5 t)
  then show ?case using tun_invD(5) [OF I] by simp
next
  case (6 org t)
  then show ?case using tun_invD(6) [OF I] by simp
qed

section \<open>Preservation\<close>

lemma inv_tunnelD:
  assumes "tun_inv xs m" "t < length (tm_heap m)"
  shows "(rid, w) \<in> set (tn_pending (tm_heap m ! t)) \<Longrightarrow>
      w < length (tm_waiters m) \<and> wt_tunnel (tm_waiters m ! w) = t \<and> wt_req (tm_waiters m ! w) = rid"
    "w \<in> set (tn_closing (tm_heap m ! t)) \<Longrightarrow>
      w < length (tm_waiters m) \<and> wt_tunnel (tm_waiters m ! w) = t \<and> tn_closed (tm_heap m ! t)"
    "tn_pump (tm_heap m ! t) = Some (w, f) \<Longrightarrow> w < length (tm_waiters m) \<and> wt_tunnel (tm_waiters m ! w) = t
      \<and> wt_req (tm_waiters m ! w) = rf_RequestID f \<and> arrived xs t f"
  using tun_invD(1) [OF assms] unfolding tun_ok_def by blast+

lemma inv_return:
  assumes I: "tun_inv xs m" and w: "waiting w m"
    and r: "\<And>f. r = Inr f \<Longrightarrow> rf_RequestID f = wt_req (tm_waiters m ! w) \<and> arrived xs (wt_tunnel (tm_waiters m ! w)) f"
  shows "tun_inv xs (rt_return w r m)"
proof -
  let ?x = "tm_waiters m ! w" and ?g = "\<lambda>y :: waiter. y\<lparr>wt_result := Some r, wt_buf := None\<rparr>"
  let ?m1 = "upd_waiter w ?g m"
  have lw: "w < length (tm_waiters m)" using w by (simp add: waiting_def)
  have tl: "wt_tunnel ?x < length (tm_heap m)" using tun_invD(2) [OF I lw] by (simp add: wtr_ok_def)
  have I1: "tun_inv xs ?m1"
    by (rule inv_upd_waiter [OF I lw]) (use tun_invD(2) [OF I lw] r in \<open>auto simp: wtr_ok_def\<close>)
  have "tun_inv xs (upd_tunnel (wt_tunnel ?x) (\<lambda>t. t\<lparr>tn_pending := AList.delete (wt_req ?x) (tn_pending t)\<rparr>) ?m1)"
  proof (rule inv_upd_tunnel [OF I1], goal_cases)
    case 4
    have "tun_ok xs (tm_waiters ?m1) (wt_tunnel ?x) (tm_heap ?m1 ! wt_tunnel ?x)"
      using tun_invD(1) [OF I1] tl by simp
    then show ?case using set_adelete [of "wt_req ?x" "tn_pending (tm_heap ?m1 ! wt_tunnel ?x)"]
      unfolding tun_ok_def by fastforce
  next
    case (5 v)
    have "v \<noteq> w" using 5(1) lw by (auto simp: waiting_def)
    then have v: "v \<noteq> w" "waiting v m" using 5(1) by (simp_all add: waiting_def)
    then have "wt_req (tm_waiters m ! v) \<noteq> wt_req ?x"
      using tun_invD(4) [OF I] lw by (simp add: waiting_def distinct_conv_nth)
    then show ?case using tun_invD(3) [OF I1 5(1)] v 5(2) tl by (auto simp: served_def delete_conv')
  qed (use tl in simp_all)
  then show ?thesis by (simp add: rt_return_def Let_def)
qed

lemma inv_recv:
  assumes I: "tun_inv xs m" and w: "waiting w m"
  shows "tun_inv xs (rt_recv w m)"
proof (cases "wt_buf (tm_waiters m ! w)")
  case None
  then show ?thesis using I inv_return [OF I w, of "Inl _"] by (simp add: rt_recv_def Let_def)
next
  case (Some f)
  have "tun_inv xs (rt_return w (Inr f) m)"
    using tun_invD(2) [OF I, of w] w Some
    by (intro inv_return [OF I w]) (auto simp: wtr_ok_def waiting_def)
  then show ?thesis using Some by (simp add: rt_recv_def Let_def)
qed

lemma inv_lookup:
  assumes I: "tun_inv xs m" and t: "t < length (tm_heap m)" and x: "TLookup t f \<in> set xs"
  shows "tun_inv xs (dispatch_lookup t f m)"
proof (cases "rf_Direction f = ''to-hub'' \<and> map_of (tn_pending (tm_heap m ! t)) (rf_RequestID f) \<noteq> None")
  case False
  then show ?thesis using I by (auto simp: dispatch_lookup_def)
next
  case True
  then obtain w where w: "map_of (tn_pending (tm_heap m ! t)) (rf_RequestID f) = Some w" by blast
  note slot = inv_tunnelD(1) [OF I t map_of_SomeD [OF w]]
  have "tun_inv xs (upd_tunnel t (\<lambda>x. x\<lparr>tn_pump := Some (w, f)\<rparr>) m)"
  proof (rule inv_upd_tunnel [OF I t], goal_cases)
    case 3
    then show ?case using tun_invD(1) [OF I t] slot True x by (auto simp: tun_ok_def arrived_def)
  next
    case (4 v)
    then show ?case using tun_invD(3) [OF I 4(1)] t 4(2) by (auto simp: served_def split: if_splits)
  qed simp_all
  then show ?thesis using True w by (simp add: dispatch_lookup_def)
qed

lemma inv_panic: "tun_inv xs m \<Longrightarrow> tun_inv xs (m\<lparr>tm_panic := b\<rparr>)"
  by (simp add: tun_inv_def waiting_def)

lemma fill_slot_fields [simp]:
  "wt_tunnel (fill_slot f x) = wt_tunnel x" "wt_req (fill_slot f x) = wt_req x"
  "wt_chclosed (fill_slot f x) = wt_chclosed x" "wt_result (fill_slot f x) = wt_result x"
  by (simp_all add: fill_slot_def split: option.splits)

lemma wtr_ok_fill:
  "wtr_ok xs hp x \<Longrightarrow> rf_RequestID f = wt_req x \<Longrightarrow> arrived xs (wt_tunnel x) f \<Longrightarrow> wtr_ok xs hp (fill_slot f x)"
  by (simp add: wtr_ok_def fill_slot_def split: option.splits)

lemma inv_send:
  assumes I: "tun_inv xs m" and t: "t < length (tm_heap m)"
  shows "tun_inv xs (dispatch_send t m)"
proof (cases "tn_pump (tm_heap m ! t)")
  case None
  then show ?thesis using I by (simp add: dispatch_send_def)
next
  case (Some wf)
  obtain w f where wf: "wf = (w, f)" by (cases wf)
  note pump = inv_tunnelD(3) [OF I t Some [unfolded wf]]
  let ?m1 = "upd_tunnel t (\<lambda>x. x\<lparr>tn_pump := None\<rparr>) m"
  have I1: "tun_inv xs ?m1"
  proof (rule inv_upd_tunnel [OF I t], goal_cases)
    case 3
    then show ?case using tun_invD(1) [OF I t] by (simp add: tun_ok_def)
  next
    case (4 v)
    then show ?case using tun_invD(3) [OF I 4(1)] t 4(2) by (auto simp: served_def split: if_splits)
  qed simp_all
  have "tun_inv xs (upd_waiter w (fill_slot f) ?m1)"
  proof (rule inv_upd_waiter [OF I1], goal_cases)
    case 4
    have "wtr_ok xs (tm_heap ?m1) (tm_waiters m ! w)" using tun_invD(2) [OF I1, of w] pump by simp
    from wtr_ok_fill [OF this] show ?case using pump by simp
  next
    case 5
    then have "waiting w ?m1" using pump by (simp add: waiting_def)
    from tun_invD(3) [OF I1 this] show ?case by (simp add: served_def)
  qed (use pump in simp_all)
  then show ?thesis using Some wf inv_panic [OF I1] by (simp add: dispatch_send_def Let_def)
qed

lemma inv_close_next:
  assumes I: "tun_inv xs m" and t: "t < length (tm_heap m)"
  shows "tun_inv xs (close_next t m)"
proof (cases "tn_closing (tm_heap m ! t)")
  case Nil
  then show ?thesis using I by (simp add: close_next_def)
next
  case (Cons w ws)
  then have w: "w < length (tm_waiters m)" "wt_tunnel (tm_waiters m ! w) = t" "tn_closed (tm_heap m ! t)"
    using inv_tunnelD(2) [OF I t, of w] by simp_all
  let ?m1 = "upd_waiter w (\<lambda>x. x\<lparr>wt_chclosed := True\<rparr>) m"
  have I1: "tun_inv xs ?m1"
    by (rule inv_upd_waiter [OF I w(1)]) (use tun_invD(2) [OF I w(1)] w in \<open>simp_all add: wtr_ok_def served_def\<close>)
  have "tun_inv xs (upd_tunnel t (\<lambda>x. x\<lparr>tn_closing := ws\<rparr>) ?m1)"
  proof (rule inv_upd_tunnel [OF I1], goal_cases)
    case 4
    have "tun_ok xs (tm_waiters ?m1) t (tm_heap ?m1 ! t)" using tun_invD(1) [OF I1, of t] t by simp
    then show ?case using Cons by (auto simp: tun_ok_def)
  next
    case (5 v)
    then show ?case using tun_invD(3) [OF I1 5(1)] Cons t w by (cases "v = w") (auto simp: served_def)
  qed (use t in simp_all)
  moreover have "close_next t m = upd_tunnel t (\<lambda>x. x\<lparr>tn_closing := ws\<rparr>) ?m1"
    using Cons by (intro tunnel_manager.equality) (simp_all add: close_next_def)
  ultimately show ?thesis by simp
qed

lemma tun_ok_extend:
  assumes "tun_ok xs ws t tn" "tn_closing tn' = tn_closing tn" "tn_closed tn' = tn_closed tn"
    "tn_pump tn' = tn_pump tn"
    and "\<And>r v. (r, v) \<in> set (tn_pending tn') \<Longrightarrow>
      v < length (ws @ [x]) \<and> wt_tunnel ((ws @ [x]) ! v) = t \<and> wt_req ((ws @ [x]) ! v) = r"
  shows "tun_ok xs (ws @ [x]) t tn'"
  unfolding tun_ok_def
proof (intro conjI)
  show "\<forall>(r, v) \<in> set (tn_pending tn'). v < length (ws @ [x]) \<and> wt_tunnel ((ws @ [x]) ! v) = t \<and> wt_req ((ws @ [x]) ! v) = r"
    using assms(5) by blast
  show "\<forall>w \<in> set (tn_closing tn'). w < length (ws @ [x]) \<and> wt_tunnel ((ws @ [x]) ! w) = t \<and> tn_closed tn'"
    using assms(1) by (auto simp: assms(2,3) tun_ok_def nth_append)
  show "\<forall>w f. tn_pump tn' = Some (w, f) \<longrightarrow> w < length (ws @ [x]) \<and> wt_tunnel ((ws @ [x]) ! w) = t
      \<and> wt_req ((ws @ [x]) ! w) = rf_RequestID f \<and> arrived xs t f"
    using assms(1) by (auto simp: assms(4) tun_ok_def nth_append)
qed

lemma inv_open:
  assumes I: "tun_inv xs m" and t: "t < length (tm_heap m)"
    and fresh: "rid \<notin> wt_req ` set (tm_waiters m)"
  shows "tun_inv xs (rt_open t rid m)"
proof -
  let ?w = "length (tm_waiters m)"
  let ?closed = "tn_closed (tm_heap m ! t)"
  let ?new = "\<lparr>wt_tunnel = t, wt_req = rid, wt_buf = None, wt_chclosed = False,
    wt_result = (if ?closed then Some (Inl ''tunnel closed'') else None)\<rparr> :: waiter"
  let ?hp = "if ?closed then tm_heap m
    else (tm_heap m)[t := (tm_heap m ! t)\<lparr>tn_pending := AList.update rid ?w (tn_pending (tm_heap m ! t))\<rparr>]"
  have eq: "rt_open t rid m = m\<lparr>tm_heap := ?hp, tm_waiters := tm_waiters m @ [?new]\<rparr>"
    by (intro tunnel_manager.equality) (simp_all add: rt_open_def Let_def)
  have hp: "length ?hp = length (tm_heap m)" "tn_org (?hp ! u) = tn_org (tm_heap m ! u)"
    "tn_closed (?hp ! u) = tn_closed (tm_heap m ! u)" "tn_closing (?hp ! u) = tn_closing (tm_heap m ! u)"
    "tn_pump (?hp ! u) = tn_pump (tm_heap m ! u)" for u
    using t by (cases "u = t"; simp)+
  have pend: "tn_pending (?hp ! u) = (if u = t \<and> \<not> ?closed
      then AList.update rid ?w (tn_pending (tm_heap m ! u)) else tn_pending (tm_heap m ! u))" for u
    using t by auto
  have old: "v < ?w \<Longrightarrow> (tm_waiters m @ [?new]) ! v = tm_waiters m ! v" for v by (simp add: nth_append)
  show ?thesis unfolding eq
  proof (rule tun_invI, goal_cases)
    case (1 u)
    then have ok: "tun_ok xs (tm_waiters m) u (tm_heap m ! u)" using tun_invD(1) [OF I] hp by simp
    have slot: "(r, v) \<in> set (tn_pending (?hp ! u)) \<Longrightarrow>
        (r, v) \<in> set (tn_pending (tm_heap m ! u)) \<or> r = rid \<and> v = ?w \<and> u = t" for r v
      unfolding pend using set_aupdate [of rid ?w "tn_pending (tm_heap m ! u)"] by (auto split: if_splits)
    have ul: "u < length (tm_heap m)" using 1 hp(1) by simp
    have "v < Suc ?w \<and> wt_tunnel ((tm_waiters m @ [?new]) ! v) = u \<and> wt_req ((tm_waiters m @ [?new]) ! v) = r"
      if rv: "(r, v) \<in> set (tn_pending (?hp ! u))" for r v
    proof (cases "(r, v) \<in> set (tn_pending (tm_heap m ! u))")
      case True
      from inv_tunnelD(1) [OF I ul this] show ?thesis by (simp add: nth_append)
    next
      case False
      then show ?thesis using slot [OF rv] by simp
    qed
    then have "tun_ok xs (tm_waiters m @ [?new]) u (?hp ! u)"
      by (intro tun_ok_extend [OF ok hp(4) hp(3) hp(5)]) simp
    then show ?case by simp
  next
    case (2 v)
    then show ?case using tun_invD(2) [OF I, of v] t hp(1)
      by (cases "v = ?w") (simp_all add: wtr_ok_def nth_append)
  next
    case (3 v)
    show ?case
    proof (cases "v = ?w")
      case True
      then show ?thesis using 3 t by (auto simp: waiting_def served_def update_conv' split: if_splits)
    next
      case False
      then have v: "waiting v m" "v < ?w" using 3 by (auto simp: waiting_def nth_append)
      then have "wt_req (tm_waiters m ! v) \<noteq> rid" using fresh by auto
      then show ?thesis using tun_invD(3) [OF I v(1)] old [OF v(2)]
        unfolding served_def by (auto simp: hp pend update_conv' split: if_splits)
    qed
  next
    case 4
    then show ?case using tun_invD(4) [OF I] fresh by simp
  next
    case (5 u)
    then show ?case using tun_invD(5) [OF I, of u] hp by simp
  next
    case (6 org u)
    then show ?case using tun_invD(6) [OF I, of org u] hp by simp
  qed
qed

text \<open>Closing some tunnels and replacing the map of tunnels accordingly.\<close>

lemma close_mark_fields [simp]:
  "tn_org (close_mark t) = tn_org t" "tn_closed (close_mark t)" "tn_pump (close_mark t) = tn_pump t"
  "close_mark (close_mark t) = close_mark t" "tn_closed t \<Longrightarrow> close_mark t = t"
  by (simp_all add: close_mark_def)

lemma tun_ok_close: "tun_ok xs ws t tn \<Longrightarrow> tun_ok xs ws t (close_mark tn)"
  by (auto simp: tun_ok_def close_mark_def)

lemma served_close:
  assumes "served hp w x" "hp' ! wt_tunnel x = hp ! wt_tunnel x \<or> hp' ! wt_tunnel x = close_mark (hp ! wt_tunnel x)"
  shows "served hp' w x"
proof -
  let ?t = "hp ! wt_tunnel x"
  consider "hp' ! wt_tunnel x = ?t" | "hp' ! wt_tunnel x = close_mark ?t" "\<not> tn_closed ?t"
    using assms(2) by fastforce
  then show ?thesis
  proof cases
    case 1
    then show ?thesis using assms(1) by (simp add: served_def)
  next
    case 2
    then have "map_of (tn_pending ?t) (wt_req x) = Some w" using assms(1) by (simp add: served_def)
    then have "w \<in> set (map snd (tn_pending ?t))" by (metis list.set_map image_eqI map_of_SomeD snd_conv)
    then show ?thesis using 2 by (simp add: served_def close_mark_def)
  qed
qed

lemma inv_marks:
  assumes I: "tun_inv xs m" and len: "length hp = length (tm_heap m)"
    and hp: "\<And>t. t < length hp \<Longrightarrow> hp ! t = tm_heap m ! t \<or> hp ! t = close_mark (tm_heap m ! t)"
    and live: "\<And>t. t < length hp \<Longrightarrow> \<not> tn_closed (hp ! t) \<Longrightarrow> map_of T (tn_org (hp ! t)) = Some t"
    and known: "\<And>org t. map_of T org = Some t \<Longrightarrow> t < length hp \<and> tn_org (hp ! t) = org \<and> \<not> tn_closed (hp ! t)"
  shows "tun_inv xs (m\<lparr>tm_heap := hp, tm_tunnels := T\<rparr>)"
proof (rule tun_invI, goal_cases)
  case (1 t)
  then show ?case using tun_invD(1) [OF I, of t] tun_ok_close hp [of t] len by auto
next
  case (2 w)
  then show ?case using tun_invD(2) [OF I, of w] len by (simp add: wtr_ok_def)
next
  case (3 w)
  then have w: "waiting w m" by (simp add: waiting_def)
  then have "wt_tunnel (tm_waiters m ! w) < length hp"
    using tun_invD(2) [OF I, of w] len by (simp add: waiting_def wtr_ok_def)
  from served_close [OF tun_invD(3) [OF I w] hp [OF this]] show ?case by simp
next
  case 4
  then show ?case using tun_invD(4) [OF I] by simp
next
  case (5 t)
  then show ?case using live by simp
next
  case (6 org t)
  then show ?case using known by simp
qed

lemma inv_pump_exit:
  assumes I: "tun_inv xs m" and t: "t < length (tm_heap m)"
  shows "tun_inv xs (pump_exit t m)"
proof -
  let ?org = "tn_org (tm_heap m ! t)"
  let ?hp = "(tm_heap m)[t := close_mark (tm_heap m ! t)]"
  let ?T = "if map_of (tm_tunnels m) ?org = Some t then AList.delete ?org (tm_tunnels m) else tm_tunnels m"
  have eq: "pump_exit t m = m\<lparr>tm_heap := ?hp, tm_tunnels := ?T\<rparr>"
    by (intro tunnel_manager.equality) (simp_all add: pump_exit_def tunnel_deregister_def)
  show ?thesis unfolding eq
  proof (rule inv_marks [OF I], goal_cases)
    case (2 u)
    then show ?case using t by (cases "u = t") auto
  next
    case (3 u)
    then have u: "u < length (tm_heap m)" "u \<noteq> t" "\<not> tn_closed (tm_heap m ! u)"
      using t by (auto simp: nth_list_update split: if_splits)
    then have "map_of (tm_tunnels m) (tn_org (tm_heap m ! u)) = Some u" using tun_invD(5) [OF I] by simp
    then show ?case using u by (auto simp: delete_conv')
  next
    case (4 org u)
    then have "map_of (tm_tunnels m) org = Some u" by (auto simp: delete_conv' split: if_splits)
    note u = tun_invD(6) [OF I this]
    have "u \<noteq> t" using 4 u by (auto simp: delete_conv' split: if_splits)
    then show ?case using u by simp
  qed simp
qed

lemma foldl_close:
  "foldl (\<lambda>m t. upd_tunnel t close_mark m) m ts
   = m\<lparr>tm_heap := foldl (\<lambda>h t. h[t := close_mark (h ! t)]) (tm_heap m) ts\<rparr>"
  by (induction ts arbitrary: m) (simp_all add: upd_tunnel_def)

lemma foldl_marks_length [simp]: "length (foldl (\<lambda>h t. h[t := close_mark (h ! t)]) h ts) = length h"
  by (induction ts arbitrary: h) simp_all

lemma foldl_marks:
  "u < length h \<Longrightarrow> foldl (\<lambda>h t. h[t := close_mark (h ! t)]) h ts ! u
     = (if u \<in> set ts then close_mark (h ! u) else h ! u)"
proof (induction ts arbitrary: h)
  case (Cons a ts)
  have "close_mark (h[a := close_mark (h ! a)] ! u) = close_mark (h ! u)"
    using Cons.prems by (cases "u = a") auto
  then show ?case using Cons by auto
qed simp_all

lemma inv_closeAll:
  assumes I: "tun_inv xs m" shows "tun_inv xs (closeAll m)"
proof -
  let ?hp = "foldl (\<lambda>h t. h[t := close_mark (h ! t)]) (tm_heap m) (map snd (tm_tunnels m))"
  have eq: "closeAll m = m\<lparr>tm_heap := ?hp, tm_tunnels := []\<rparr>"
    by (simp add: closeAll_def foldl_close)
  show ?thesis unfolding eq
  proof (rule inv_marks [OF I], goal_cases)
    case 1
    show ?case by simp
  next
    case (2 t)
    then show ?case by (simp add: foldl_marks)
  next
    case (3 t)
    then have t: "t < length (tm_heap m)" "t \<notin> snd ` set (tm_tunnels m)" "\<not> tn_closed (tm_heap m ! t)"
      by (auto simp: foldl_marks split: if_splits)
    then have "map_of (tm_tunnels m) (tn_org (tm_heap m ! t)) = Some t" using tun_invD(5) [OF I] by simp
    then show ?case using t(2) by (metis image_eqI map_of_SomeD snd_conv)
  qed simp
qed

lemma inv_append_tunnel:
  assumes I: "tun_inv xs m" and free: "map_of (tm_tunnels m) org = None"
    and T: "map_of T = (map_of (tm_tunnels m))(org \<mapsto> length (tm_heap m))"
  shows "tun_inv xs (m\<lparr>tm_heap := tm_heap m @ [\<lparr>tn_org = org, tn_pending = [], tn_closed = False,
      tn_closing = [], tn_pump = None\<rparr>], tm_tunnels := T\<rparr>)"
proof (rule tun_invI, goal_cases)
  case (1 t)
  then show ?case using tun_invD(1) [OF I, of t]
    by (cases "t = length (tm_heap m)") (simp_all add: nth_append tun_ok_def)
next
  case (2 w)
  then show ?case using tun_invD(2) [OF I, of w] by (simp add: wtr_ok_def)
next
  case (3 w)
  then have w: "waiting w m" by (simp add: waiting_def)
  then have "wt_tunnel (tm_waiters m ! w) < length (tm_heap m)"
    using tun_invD(2) [OF I, of w] by (simp add: waiting_def wtr_ok_def)
  then show ?case using tun_invD(3) [OF I w] by (simp add: served_def nth_append)
next
  case 4
  then show ?case using tun_invD(4) [OF I] by simp
next
  case (5 t)
  show ?case
  proof (cases "t = length (tm_heap m)")
    case False
    then have "t < length (tm_heap m)" "map_of (tm_tunnels m) (tn_org (tm_heap m ! t)) = Some t"
      using 5 tun_invD(5) [OF I, of t] by (simp_all add: nth_append)
    then show ?thesis using T free by (auto simp: nth_append)
  qed (simp add: T)
next
  case (6 o' t)
  show ?case
  proof (cases "o' = org")
    case False
    then have "map_of (tm_tunnels m) o' = Some t" using 6 T by simp
    from tun_invD(6) [OF I this] show ?thesis by (simp add: nth_append)
  qed (use 6 in \<open>auto simp: T\<close>)
qed

lemma inv_register:
  assumes I: "tun_inv xs m" shows "tun_inv xs (tunnel_register org m)"
proof (cases "map_of (tm_tunnels m) org")
  case None
  then show ?thesis using inv_append_tunnel [OF I None, of "AList.update org (length (tm_heap m)) (tm_tunnels m)"]
    by (simp add: tunnel_register_def Let_def update_conv')
next
  case (Some old)
  note t = tun_invD(6) [OF I Some]
  have I1: "tun_inv xs (pump_exit old m)" using inv_pump_exit [OF I] t by simp
  have fields: "tm_heap (pump_exit old m) = (tm_heap m)[old := close_mark (tm_heap m ! old)]"
    "tm_tunnels (pump_exit old m) = AList.delete org (tm_tunnels m)"
    using t Some by (simp_all add: pump_exit_def tunnel_deregister_def)
  have T: "map_of (AList.update org (length (tm_heap m)) (tm_tunnels m))
      = (map_of (tm_tunnels (pump_exit old m)))(org \<mapsto> length (tm_heap (pump_exit old m)))"
    by (simp add: fields update_conv' delete_conv')
  have "map_of (tm_tunnels (pump_exit old m)) org = None" by (simp add: fields delete_conv')
  from inv_append_tunnel [OF I1 this T] show ?thesis
    using Some t
    by (simp add: tunnel_register_def Let_def fields pump_exit_def tunnel_deregister_def upd_tunnel_def)
qed

section \<open>Runs\<close>

definition opened :: "tunnel_op list \<Rightarrow> string list" where
  "opened xs = concat (map (\<lambda>x. case x of TOpen _ rid \<Rightarrow> [rid] | _ \<Rightarrow> []) xs)"

lemma opened_snoc: "opened (xs @ [x]) = opened xs @ (case x of TOpen _ rid \<Rightarrow> [rid] | _ \<Rightarrow> [])"
  by (simp add: opened_def)

lemma req_update [simp]:
  "wt_req y = wt_req (ws ! w) \<Longrightarrow> map wt_req (ws[w := y]) = map wt_req ws"
  by (simp add: map_update) (metis list_update_id map_update)

lemma close_waiters [simp]: "tm_waiters (closeAll m) = tm_waiters m"
  by (simp add: closeAll_def foldl_close)

lemma step_reqs:
  "map wt_req (tm_waiters (tunnel_step x m)) = map wt_req (tm_waiters m)
   \<or> (\<exists>t rid. x = TOpen t rid \<and> map wt_req (tm_waiters (tunnel_step x m)) = map wt_req (tm_waiters m) @ [rid])"
  by (cases x) (auto simp: tunnel_register_def pump_exit_def tunnel_deregister_def close_next_def rt_open_def
      rt_return_def rt_recv_def dispatch_lookup_def dispatch_send_def Let_def split: list.splits option.splits)

lemma run_reqs: "wt_req ` set (tm_waiters (tunnel_run xs newTunnelManager)) \<subseteq> set (opened xs)"
proof (induction xs rule: rev_induct)
  case Nil
  then show ?case by (simp add: tunnel_run_def newTunnelManager_def)
next
  case (snoc x xs)
  have "tunnel_run (xs @ [x]) newTunnelManager = tunnel_step x (tunnel_run xs newTunnelManager)"
    by (simp add: tunnel_run_def)
  note run = this
  from step_reqs [of x "tunnel_run xs newTunnelManager"] show ?case
  proof (elim disjE exE conjE)
    assume "map wt_req (tm_waiters (tunnel_step x (tunnel_run xs newTunnelManager)))
      = map wt_req (tm_waiters (tunnel_run xs newTunnelManager))"
    from arg_cong [OF this, of set] show ?thesis using snoc run by (auto simp: opened_snoc)
  next
    fix t rid
    assume "x = TOpen t rid" and "map wt_req (tm_waiters (tunnel_step x (tunnel_run xs newTunnelManager)))
      = map wt_req (tm_waiters (tunnel_run xs newTunnelManager)) @ [rid]"
    from this(1) arg_cong [OF this(2), of set] show ?thesis using snoc run by (auto simp: opened_snoc)
  qed
qed

lemma inv_step:
  assumes "tun_inv xs m" "x \<in> set xs"
    "\<And>t rid. x = TOpen t rid \<Longrightarrow> rid \<notin> wt_req ` set (tm_waiters m)"
  shows "tun_inv xs (tunnel_step x m)"
  using assms by (cases x) (auto intro: inv_register inv_pump_exit inv_closeAll inv_close_next inv_open
      inv_return inv_recv inv_lookup inv_send)

lemma run_inv: "distinct (opened xs) \<Longrightarrow> tun_inv xs (tunnel_run xs newTunnelManager)"
proof (induction xs rule: rev_induct)
  case Nil
  then show ?case by (simp add: tunnel_run_def newTunnelManager_def tun_inv_def waiting_def)
next
  case (snoc x xs)
  then have I: "tun_inv (xs @ [x]) (tunnel_run xs newTunnelManager)"
    by (intro tun_inv_mono snoc.IH) (simp add: opened_snoc)
  have "tun_inv (xs @ [x]) (tunnel_step x (tunnel_run xs newTunnelManager))"
  proof (rule inv_step [OF I])
    fix t rid assume "x = TOpen t rid"
    then show "rid \<notin> wt_req ` set (tm_waiters (tunnel_run xs newTunnelManager))"
      using snoc.prems run_reqs [of xs] by (auto simp: opened_snoc)
  qed simp
  then show ?case by (simp add: tunnel_run_def)
qed


text \<open>C34 on a run: the reply to the second of two concurrent requests comes first, then the tunnel goes.\<close>

definition reply_frame :: "string \<Rightarrow> relay_frame" where
  "reply_frame rid = \<lparr>rf_RequestID = rid, rf_Direction = ''to-hub'', rf_Method = [], rf_Path = [],
     rf_Headers = [], rf_Status = 200, rf_Body = ''ok''\<rparr>"

definition two_requests :: "tunnel_op list" where
  "two_requests = [TRegister ''a'', TOpen 0 ''r1'', TOpen 0 ''r2'', TLookup 0 (reply_frame ''r2''), TSend 0,
     TRecv 1, TPumpExit 0, TCloseNext 0]"


text \<open>The lookup and the send of \<open>dispatch\<close> are not one critical section: a close that falls between them
  makes the send panic.\<close>

lemma dispatch_close_race_panics:
  "tm_panic (tunnel_run [TRegister ''a'', TOpen 0 ''r1'', TLookup 0 (reply_frame ''r1''), TRegister ''a'',
     TCloseNext 0, TSend 0] newTunnelManager)"
  by (simp add: tunnel_run_def newTunnelManager_def tunnel_register_def rt_open_def
      dispatch_lookup_def reply_frame_def dispatch_send_def close_mark_def close_next_def
      upd_tunnel_def upd_waiter_def Let_def)

section \<open>The reverse proxy\<close>

definition isHopByHop :: "string \<Rightarrow> bool" where
  "isHopByHop nm \<longleftrightarrow> to_lower nm \<in> {''connection'', ''keep-alive'', ''proxy-authenticate'',
     ''proxy-authorization'', ''te'', ''trailer'', ''transfer-encoding'', ''upgrade'', ''host''}"

text \<open>\<open>strings.SplitN(s, "/", 2)\<close>: the part before the first slash, and what follows it, if any.\<close>

definition split2 :: "string \<Rightarrow> string \<times> string option" where
  "split2 s = (let a = takeWhile (\<lambda>c. c \<noteq> CHR ''/'') s in
     (a, if length a = length s then None else Some (drop (Suc (length a)) s)))"

datatype relay_reply = RelayError hub_reply | RelayReply int "(string \<times> string) list" string

text \<open>What \<open>roundTrip\<close> may return: the context's error, another error, or a frame.\<close>

datatype rt_outcome = RTContext go_error | RTError go_error | RTFrame relay_frame

definition forward_headers :: "(string \<times> string list) list \<Rightarrow> (string \<times> string) list" where
  "forward_headers hs = map (\<lambda>(k, vs). (k, hd vs)) (filter (\<lambda>(k, vs). \<not> isHopByHop k \<and> vs \<noteq> []) hs)"

definition tunnel_unauthorized :: "string \<Rightarrow> hub_request \<Rightarrow> hub_reply option" where
  "tunnel_unauthorized allowed rq =
     (let authOrg = authenticatedOrg rq in
      if authOrg = [] then Some (401, HErr [(''error'', ''no authenticated org identity'')])
      else if \<not> orgAllowed allowed authOrg
      then Some (403, HErr [(''error'', ''org not in allowlist''), (''org'', authOrg)])
      else None)"

definition handleRelayInbound ::
    "string \<Rightarrow> hub_request \<Rightarrow> string \<Rightarrow> (string \<times> string list) list \<Rightarrow> go_error + string \<Rightarrow> string
     \<Rightarrow> (relay_frame \<Rightarrow> rt_outcome) \<Rightarrow> tunnel_manager \<Rightarrow> relay_reply \<times> (nat \<times> relay_frame) option" where
  "handleRelayInbound allowed rq path hdrs body uuid roundTrip m =
     (let callerOrg = authenticatedOrg rq in
      if callerOrg = [] then (RelayError (401, HErr [(''error'', ''no authenticated org identity'')]), None)
      else if \<not> orgAllowed allowed callerOrg
      then (RelayError (403, HErr [(''error'', ''caller org not in allowlist'')]), None)
      else
        let (targetOrg, rest) = split2 (trim_prefix ''/v1/relay/'' path) in
        if targetOrg = []
        then (RelayError (400, HErr [(''error'', ''path must be /v1/relay/{orgID}/{path}'')]), None)
        else if \<not> orgAllowed allowed targetOrg
        then (RelayError (403, HErr [(''error'', ''target org not in allowlist'')]), None)
        else case tunnel_lookup targetOrg m of
          None \<Rightarrow> (RelayError (502, HErr [(''error'', ''no tunnel for org''), (''org'', targetOrg)]), None)
        | Some t \<Rightarrow>
            (case body of
               Inl e \<Rightarrow> (RelayError (400, HErr [(''error'', ''read body: '' @ e)]), None)
             | Inr bytes \<Rightarrow>
                 let subPath = (case rest of None \<Rightarrow> ''/'' | Some p \<Rightarrow> ''/'' @ p);
                     f = \<lparr>rf_RequestID = uuid, rf_Direction = ''to-runner'', rf_Method = hq_meth rq,
                          rf_Path = subPath, rf_Headers = forward_headers hdrs, rf_Status = 0, rf_Body = bytes\<rparr>
                 in (case roundTrip f of
                       RTContext e \<Rightarrow> RelayError (504, HErr [(''error'', ''tunnel response: '' @ e)])
                     | RTError e \<Rightarrow> RelayError (502, HErr [(''error'', ''tunnel send: '' @ e)])
                     | RTFrame resp \<Rightarrow>
                         RelayReply (if rf_Status resp = 0 then 200 else rf_Status resp)
                           (filter (\<lambda>(k, v). \<not> isHopByHop k) (rf_Headers resp)) (rf_Body resp),
                     Some (t, f))))"

lemma split2_first: "CHR ''/'' \<notin> set a \<Longrightarrow> split2 (a @ ''/'' @ b) = (a, Some b)"
proof -
  assume a: "CHR ''/'' \<notin> set a"
  have "takeWhile (\<lambda>c. c \<noteq> CHR ''/'') (a @ ''/'' @ b) = a"
    using a by (induction a) auto
  then show ?thesis by (simp add: split2_def Let_def)
qed

text \<open>A request for a path of an organisation is forwarded only for an authenticated, allowed caller to
  the open tunnel of that, allowed, organisation; method, sub-path and body pass unchanged, hop-by-hop
  headers pass in neither direction, and the runner's status and body are mirrored.\<close>

theorem relay_forwarding:
  assumes "CHR ''/'' \<notin> set org" "org \<noteq> []"
  shows "case handleRelayInbound allowed rq (''/v1/relay/'' @ org @ ''/'' @ sub) hdrs body uuid roundTrip m of
    (reply, None) \<Rightarrow> (\<exists>code e. reply = RelayError (code, e) \<and> code \<in> {400, 401, 403, 502})
      \<and> (authenticatedOrg rq = [] \<or> \<not> orgAllowed allowed (authenticatedOrg rq)
         \<or> \<not> orgAllowed allowed org \<or> tunnel_lookup org m = None \<or> (\<exists>e. body = Inl e))
  | (reply, Some (t, f)) \<Rightarrow>
      authenticatedOrg rq \<noteq> [] \<and> orgAllowed allowed (authenticatedOrg rq) \<and> orgAllowed allowed org
      \<and> tunnel_lookup org m = Some t
      \<and> rf_Method f = hq_meth rq \<and> rf_Path f = ''/'' @ sub \<and> body = Inr (rf_Body f) \<and> rf_RequestID f = uuid
      \<and> (\<forall>(k, v) \<in> set (rf_Headers f). \<not> isHopByHop k \<and> (\<exists>vs. (k, v # vs) \<in> set hdrs))
      \<and> (case roundTrip f of
           RTFrame resp \<Rightarrow> (\<exists>hs. reply = RelayReply (if rf_Status resp = 0 then 200 else rf_Status resp) hs (rf_Body resp)
             \<and> (\<forall>(k, v) \<in> set hs. \<not> isHopByHop k \<and> (k, v) \<in> set (rf_Headers resp)))
         | RTContext e \<Rightarrow> reply = RelayError (504, HErr [(''error'', ''tunnel response: '' @ e)])
         | RTError e \<Rightarrow> reply = RelayError (502, HErr [(''error'', ''tunnel send: '' @ e)]))"
proof -
  have path: "split2 (trim_prefix ''/v1/relay/'' (''/v1/relay/'' @ org @ ''/'' @ sub)) = (org, Some sub)"
    by (simp only: trim_prefix_append split2_first [OF assms(1)])
  have hs: "\<forall>(k, v) \<in> set (forward_headers hdrs). \<not> isHopByHop k \<and> (\<exists>vs. (k, v # vs) \<in> set hdrs)"
    unfolding forward_headers_def by (auto simp: neq_Nil_conv)
  show ?thesis
    unfolding handleRelayInbound_def path Let_def using assms(2) hs
    by (auto split: option.splits sum.splits rt_outcome.splits)
qed

text \<open>On a request of organisation a for a path of organisation b, which has a tunnel.\<close>

theorem relay_forwarding_witness:
  "\<exists>reply f. handleRelayInbound [] (dev_request ''POST'' ''a'' JNull) (''/v1/relay/'' @ ''b'' @ ''/'' @ ''x'')
      [(''Connection'', [''close'']), (''X'', [''1''])] (Inr ''body'') ''u'' (\<lambda>f. RTFrame (reply_frame (rf_RequestID f)))
      (tunnel_run [TRegister ''b''] newTunnelManager) = (reply, Some (0, f))
    \<and> rf_Path f = ''/x'' \<and> rf_Body f = ''body'' \<and> (\<exists>hs. reply = RelayReply 200 hs ''ok'')"
proof -
  let ?m = "tunnel_run [TRegister ''b''] newTunnelManager"
  let ?r = "handleRelayInbound [] (dev_request ''POST'' ''a'' JNull) (''/v1/relay/'' @ ''b'' @ ''/'' @ ''x'')
      [(''Connection'', [''close'']), (''X'', [''1''])] (Inr ''body'') ''u'' (\<lambda>f. RTFrame (reply_frame (rf_RequestID f))) ?m"
  have m: "tunnel_lookup ''b'' ?m = Some 0"
    by (simp add: tunnel_run_def newTunnelManager_def tunnel_register_def tunnel_lookup_def Let_def)
  have who: "authenticatedOrg (dev_request ''POST'' ''a'' JNull) = ''a''"
    by (simp add: dev_request_def authenticatedOrg_def string_eval)
  have "CHR ''/'' \<notin> set ''b''" "''b'' \<noteq> []" by simp_all
  note fwd = relay_forwarding [OF this, where allowed = "[]" and rq = "dev_request ''POST'' ''a'' JNull"
      and sub = "''x''" and hdrs = "[(''Connection'', [''close'']), (''X'', [''1''])]" and body = "Inr ''body''"
      and uuid = "''u''" and roundTrip = "\<lambda>f. RTFrame (reply_frame (rf_RequestID f))" and m = ?m]
  obtain reply sent where r: "?r = (reply, sent)" by (cases ?r)
  show ?thesis
  proof (cases sent)
    case None
    then show ?thesis using fwd r m who by (simp add: orgAllowed_def)
  next
    case (Some tf)
    obtain t f where "tf = (t, f)" by (cases tf)
    then show ?thesis using fwd r m who Some by (auto simp: reply_frame_def)
  qed
qed

end
