(* ===== verification/Peer_Registry.thy ===== *)
theory Peer_Registry
  imports Ttl_Directory Go_Map
begin

text \<open>
  The registry of external peers (\<open>internal/runtime/peer_registry.go\<close>): registration, heartbeats,
  withdrawal and the reads that sweep expired entries first. Every method runs under one lock and reads
  the clock inside it.
\<close>

section \<open>State and operations\<close>

definition PeerTTL :: int where "PeerTTL = 90 * second"

record peer_info =
  pi_Name :: string
  pi_Team :: string
  pi_AgentCardURL :: string
  pi_JSONRPCURL :: string
  pi_JoinedAt :: time
  pi_LastHeartbeatAt :: time

type_synonym peer_registry = "(string \<times> peer_info) list"

definition NewPeerRegistry :: peer_registry where "NewPeerRegistry = []"

definition peer_Register ::
    "string \<Rightarrow> string \<Rightarrow> string \<Rightarrow> string \<Rightarrow> time \<Rightarrow> peer_registry \<Rightarrow> peer_info \<times> peer_registry" where
  "peer_Register nm team agentCardURL jsonrpcURL now r =
     (let joined = (case map_of r nm of Some existing \<Rightarrow> pi_JoinedAt existing | None \<Rightarrow> now);
          p = \<lparr>pi_Name = nm, pi_Team = team, pi_AgentCardURL = agentCardURL, pi_JSONRPCURL = jsonrpcURL,
               pi_JoinedAt = joined, pi_LastHeartbeatAt = now\<rparr>
      in (p, AList.update nm p r))"

definition peer_Heartbeat :: "string \<Rightarrow> time \<Rightarrow> peer_registry \<Rightarrow> bool \<times> peer_registry" where
  "peer_Heartbeat nm now r =
     (case map_of r nm of None \<Rightarrow> (False, r)
      | Some p \<Rightarrow> (True, AList.update nm (p\<lparr>pi_LastHeartbeatAt := now\<rparr>) r))"

definition peer_Deregister :: "string \<Rightarrow> peer_registry \<Rightarrow> bool \<times> peer_registry" where
  "peer_Deregister nm r =
     (case map_of r nm of None \<Rightarrow> (False, r) | Some _ \<Rightarrow> (True, AList.delete nm r))"

definition sweepLocked :: "time \<Rightarrow> peer_registry \<Rightarrow> peer_registry" where
  "sweepLocked now r = filter (\<lambda>(_, p). \<not> pi_LastHeartbeatAt p < now - PeerTTL) r"

definition peer_Get :: "string \<Rightarrow> time \<Rightarrow> peer_registry \<Rightarrow> peer_info option \<times> peer_registry" where
  "peer_Get nm now r = (let r' = sweepLocked now r in (map_of r' nm, r'))"

definition peer_List :: "time \<Rightarrow> peer_registry \<Rightarrow> peer_info list \<times> peer_registry" where
  "peer_List now r = (let r' = sweepLocked now r in (map snd r', r'))"

definition ListByTeam :: "string \<Rightarrow> time \<Rightarrow> peer_registry \<Rightarrow> peer_info list \<times> peer_registry" where
  "ListByTeam team now r =
     (let r' = sweepLocked now r in (filter (\<lambda>p. pi_Team p = team) (map snd r'), r'))"

datatype peer_op =
    PRegister string string string string time
  | PHeartbeat string time
  | PDeregister string time
  | PGet string time
  | PList time
  | PTeam string time

fun peer_step :: "peer_op \<Rightarrow> peer_registry \<Rightarrow> peer_registry" where
  "peer_step (PRegister nm team card_url rpc_url now) r = snd (peer_Register nm team card_url rpc_url now r)"
| "peer_step (PHeartbeat nm now) r = snd (peer_Heartbeat nm now r)"
| "peer_step (PDeregister nm now) r = snd (peer_Deregister nm r)"
| "peer_step (PGet nm now) r = snd (peer_Get nm now r)"
| "peer_step (PList now) r = snd (peer_List now r)"
| "peer_step (PTeam team now) r = snd (ListByTeam team now r)"

definition peer_run :: "peer_op list \<Rightarrow> peer_registry \<Rightarrow> peer_registry" where
  "peer_run xs r = foldl (\<lambda>r x. peer_step x r) r xs"

section \<open>The registry meets the extended contract\<close>

type_synonym peer_value = "string \<times> string \<times> string"

definition registry_ok :: "peer_registry \<Rightarrow> bool" where
  "registry_ok r \<longleftrightarrow> distinct (map fst r) \<and> (\<forall>(k, p) \<in> set r. pi_Name p = k)"

definition value_of :: "peer_info \<Rightarrow> peer_value" where
  "value_of p = (pi_Team p, pi_AgentCardURL p, pi_JSONRPCURL p)"

definition reg_seen :: "peer_registry \<Rightarrow> string \<Rightarrow> (peer_value \<times> time) option" where
  "reg_seen r k = map_option (\<lambda>p. (value_of p, pi_LastHeartbeatAt p)) (map_of r k)"

definition reg_fresh :: "time \<Rightarrow> time \<Rightarrow> bool" where
  "reg_fresh now t \<longleftrightarrow> \<not> t < now - PeerTTL"

definition reg_announce :: "string \<Rightarrow> peer_value \<Rightarrow> time \<Rightarrow> peer_registry \<Rightarrow> peer_registry" where
  "reg_announce k v now r = (case v of (team, c, u) \<Rightarrow> snd (peer_Register k team c u now r))"

definition reg_listed :: "time \<Rightarrow> peer_registry \<Rightarrow> (string \<times> peer_value \<times> time) set" where
  "reg_listed now r = (\<lambda>p. (pi_Name p, value_of p, pi_LastHeartbeatAt p)) ` set (fst (peer_List now r))"

lemma ok_update: "registry_ok r \<Longrightarrow> pi_Name p = k \<Longrightarrow> registry_ok (AList.update k p r)"
  by (auto simp: registry_ok_def distinct_update dest!: subsetD [OF set_aupdate])

lemma ok_delete: "registry_ok r \<Longrightarrow> registry_ok (AList.delete k r)"
  by (auto simp: registry_ok_def distinct_map_filter AList.delete_eq)

lemma set_sweep: "(k, p) \<in> set (sweepLocked now r) \<longleftrightarrow> (k, p) \<in> set r \<and> reg_fresh now (pi_LastHeartbeatAt p)"
  by (auto simp: sweepLocked_def reg_fresh_def)

lemma ok_sweep: "registry_ok r \<Longrightarrow> registry_ok (sweepLocked now r)"
  by (auto simp: registry_ok_def sweepLocked_def distinct_map_filter)

lemma map_of_sweep:
  assumes "registry_ok r"
  shows "map_of (sweepLocked now r) k =
    (case map_of r k of None \<Rightarrow> None | Some p \<Rightarrow> if reg_fresh now (pi_LastHeartbeatAt p) then Some p else None)"
proof -
  have "map_of (sweepLocked now r) k = Some p \<longleftrightarrow> map_of r k = Some p \<and> reg_fresh now (pi_LastHeartbeatAt p)" for p
    using assms ok_sweep [OF assms, of now] set_sweep [of k p now r] by (simp add: registry_ok_def)
  note iff = this
  have none: "map_of (sweepLocked now r) k = None" if "\<And>p. map_of (sweepLocked now r) k \<noteq> Some p"
    using that by (cases "map_of (sweepLocked now r) k") auto
  show ?thesis
  proof (cases "map_of r k")
    case None
    then show ?thesis using none iff by simp
  next
    case (Some p)
    then show ?thesis using none iff [of p] iff by (cases "reg_fresh now (pi_LastHeartbeatAt p)") auto
  qed
qed

interpretation peer_reg: ttl_registry reg_announce sweepLocked reg_listed reg_seen reg_fresh registry_ok
  "\<lambda>k now r. snd (peer_Heartbeat k now r)" "\<lambda>k r. snd (peer_Deregister k r)"
proof (unfold_locales, goal_cases)
  case (1 k v now r)
  then show ?case
    by (auto simp: fun_eq_iff reg_seen_def reg_announce_def peer_Register_def update_conv value_of_def
        Let_def split: prod.splits)
next
  case (2 r now k)
  then show ?case by (auto simp: reg_seen_def map_of_sweep split: option.splits)
next
  case (3 r k v t now)
  have names: "(j, p) \<in> set (sweepLocked now r) \<Longrightarrow> pi_Name p = j" for j p
    using ok_sweep [OF 3] by (auto simp: registry_ok_def)
  have "(k, v, t) \<in> reg_listed now r \<longleftrightarrow>
      (\<exists>j p. (j, p) \<in> set (sweepLocked now r) \<and> pi_Name p = k \<and> value_of p = v \<and> pi_LastHeartbeatAt p = t)"
    unfolding reg_listed_def peer_List_def Let_def by force
  also have "\<dots> \<longleftrightarrow>
      (\<exists>p. (k, p) \<in> set (sweepLocked now r) \<and> value_of p = v \<and> pi_LastHeartbeatAt p = t)"
    using names by blast
  also have "\<dots> \<longleftrightarrow> (\<exists>p. map_of (sweepLocked now r) k = Some p \<and> value_of p = v \<and> pi_LastHeartbeatAt p = t)"
    using ok_sweep [OF 3] by (simp add: registry_ok_def)
  finally show ?case using 3 by (auto simp: reg_seen_def map_of_sweep split: option.splits if_splits)
next
  case (4 now t now')
  then show ?case by (simp add: reg_fresh_def)
next
  case (5 r k v now)
  then show ?case by (auto simp: reg_announce_def peer_Register_def Let_def intro: ok_update split: prod.splits)
next
  case (6 r now)
  then show ?case by (rule ok_sweep)
next
  case (7 k now r)
  then show ?case
    by (auto simp: fun_eq_iff reg_seen_def peer_Heartbeat_def update_conv value_of_def split: option.splits)
next
  case (8 k r)
  then show ?case by (auto simp: fun_eq_iff reg_seen_def peer_Deregister_def delete_conv' split: option.splits)
next
  case (9 r k now)
  show ?case
  proof (cases "map_of r k")
    case (Some p)
    then have "pi_Name p = k" using 9 map_of_SomeD [OF Some] by (auto simp: registry_ok_def)
    then show ?thesis using Some ok_update [OF 9, of "p\<lparr>pi_LastHeartbeatAt := now\<rparr>" k]
      by (simp add: peer_Heartbeat_def)
  qed (use 9 in \<open>simp add: peer_Heartbeat_def\<close>)
next
  case (10 r k)
  then show ?case by (simp add: peer_Deregister_def ok_delete split: option.splits)
qed

section \<open>Who is listed\<close>

fun reg_op_of :: "peer_op \<Rightarrow> (string, peer_value) reg_op" where
  "reg_op_of (PRegister nm team c u now) = RAnnounced nm (team, c, u) now"
| "reg_op_of (PHeartbeat nm now) = RTouched nm now"
| "reg_op_of (PDeregister nm now) = RDropped nm now"
| "reg_op_of (PGet nm now) = RSwept now"
| "reg_op_of (PList now) = RSwept now"
| "reg_op_of (PTeam team now) = RSwept now"

lemma reg_announce_pair: "reg_announce k (team, c, u) now r = snd (peer_Register k team c u now r)"
  by (simp add: reg_announce_def)

lemma peer_run_reg: "peer_run xs r = peer_reg.run_reg (map reg_op_of xs) r"
proof (induction xs rule: rev_induct)
  case (snoc x xs)
  have "peer_step x s = peer_reg.apply_reg (reg_op_of x) s" for s
    by (cases x) (simp_all add: reg_announce_pair peer_Get_def peer_List_def ListByTeam_def Let_def)
  then show ?case using snoc by (simp add: peer_run_def)
qed (simp add: peer_run_def)

text \<open>After any history of registrations, heartbeats, withdrawals and reads in which no heartbeat
  comes after its peer has expired, the list shows each peer once, and exactly the peers whose last
  registration or heartbeat, since any withdrawal, is at most 90 seconds old, with the data of the last
  registration; how often the registry was read (and so swept) makes no difference.\<close>

theorem peer_list_exact:
  assumes "sorted (map (\<lambda>x. op_time (reg_op_of x)) xs)" "\<forall>x \<in> set xs. op_time (reg_op_of x) \<le> now"
    and "touches_live (\<lambda>now t. now - t \<le> 90 * second) (map reg_op_of xs)"
  shows "distinct (map pi_Name (fst (peer_List now (peer_run xs NewPeerRegistry))))
    \<and> ((\<exists>p \<in> set (fst (peer_List now (peer_run xs NewPeerRegistry))).
           pi_Name p = nm \<and> pi_Team p = team \<and> pi_AgentCardURL p = c \<and> pi_JSONRPCURL p = u
           \<and> pi_LastHeartbeatAt p = t)
         \<longleftrightarrow> ideal (map reg_op_of xs) nm = Some ((team, c, u), t) \<and> now - t \<le> 90 * second)"
proof
  let ?r = "peer_run xs NewPeerRegistry"
  have init: "registry_ok []" "\<And>k. reg_seen [] k = None" by (simp_all add: registry_ok_def reg_seen_def)
  have run: "?r = peer_reg.run_reg (map reg_op_of xs) []"
    using peer_run_reg [of xs "[]"] by (simp add: NewPeerRegistry_def)
  have ok: "registry_ok (sweepLocked now ?r)" unfolding run by (intro ok_sweep peer_reg.ok_run_reg init)
  have "map pi_Name (fst (peer_List now ?r)) = map fst (sweepLocked now ?r)"
    using ok by (auto simp: peer_List_def Let_def registry_ok_def)
  then show "distinct (map pi_Name (fst (peer_List now ?r)))"
    using ok by (simp add: registry_ok_def)
  have fresh: "reg_fresh = (\<lambda>now t. now - t \<le> 90 * second)"
    by (auto simp: fun_eq_iff reg_fresh_def PeerTTL_def)
  have "(nm, (team, c, u), t) \<in> reg_listed now ?r \<longleftrightarrow>
      ideal (map reg_op_of xs) nm = Some ((team, c, u), t) \<and> reg_fresh now t"
    unfolding run
    by (rule peer_reg.registry_run [OF init]) (use assms in \<open>simp_all add: comp_def fresh\<close>)
  moreover have "(nm, (team, c, u), t) \<in> reg_listed now ?r \<longleftrightarrow> (\<exists>p \<in> set (fst (peer_List now ?r)).
      pi_Name p = nm \<and> pi_Team p = team \<and> pi_AgentCardURL p = c \<and> pi_JSONRPCURL p = u
      \<and> pi_LastHeartbeatAt p = t)"
    unfolding reg_listed_def value_of_def by blast
  ultimately show "(\<exists>p \<in> set (fst (peer_List now ?r)).
      pi_Name p = nm \<and> pi_Team p = team \<and> pi_AgentCardURL p = c \<and> pi_JSONRPCURL p = u
      \<and> pi_LastHeartbeatAt p = t)
    \<longleftrightarrow> ideal (map reg_op_of xs) nm = Some ((team, c, u), t) \<and> now - t \<le> 90 * second"
    by (simp add: fresh)
qed

text \<open>On a run: a heartbeat keeps one peer listed while the other expires.\<close>

definition peer_history :: "peer_op list" where
  "peer_history = [PRegister ''a'' ''t'' ''c'' ''u'' 0, PRegister ''b'' ''t'' ''d'' ''v'' (10 * second),
     PHeartbeat ''a'' (60 * second), PList (100 * second)]"

theorem peer_list_exact_witness:
  "\<exists>p \<in> set (fst (peer_List (120 * second) (peer_run peer_history NewPeerRegistry))).
     pi_Name p = ''a'' \<and> pi_Team p = ''t'' \<and> pi_AgentCardURL p = ''c'' \<and> pi_JSONRPCURL p = ''u''
     \<and> pi_LastHeartbeatAt p = 60 * second"
proof -
  have live: "touches_live (\<lambda>now t. now - t \<le> 90 * second) (map reg_op_of peer_history)"
    by (simp add: touches_live_def touch_live_def peer_history_def ideal_def All_less_Suc second_def
        numeral_eq_Suc split: reg_op.splits)
  have "ideal (map reg_op_of peer_history) ''a'' = Some ((''t'', ''c'', ''u''), 60 * second)"
    by (simp add: peer_history_def ideal_def)
  then show ?thesis
    using peer_list_exact [of peer_history "120 * second" "''a''" "''t''" "''c''" "''u''" "60 * second"] live
    by (simp add: peer_history_def second_def)
qed

text \<open>Outside that hypothesis reads matter: a heartbeat that comes after expiry revives the peer if nothing
  was read in between, and is refused if something was.\<close>

lemma late_heartbeat_depends_on_reads:
  "fst (peer_Heartbeat ''a'' (1000 * second) (peer_run [PRegister ''a'' ''t'' ''c'' ''u'' 0] NewPeerRegistry))"
  "\<not> fst (peer_Heartbeat ''a'' (1000 * second)
      (peer_run [PRegister ''a'' ''t'' ''c'' ''u'' 0, PList (999 * second)] NewPeerRegistry))"
  by (simp_all add: peer_Heartbeat_def peer_run_def peer_Register_def NewPeerRegistry_def peer_List_def
      sweepLocked_def PeerTTL_def second_def Let_def)

end
