(* ===== verification/Relay_Registry.thy ===== *)
theory Relay_Registry
  imports Go_Map
begin

text \<open>
  The relay's ledger of bastions (\<open>relay/internal/registry/registry.go\<close>). The two Go maps hold
  pointers to the same records, so the model keeps the records in \<open>rl_byID\<close> and lets \<open>rl_byToken\<close>
  point to them by id (a record is never removed). A call that mints a token takes what
  \<open>mintToken\<close> returned: a fresh token or an error.
\<close>

section \<open>State and operations\<close>

record bastion =
  ba_ID :: string
  ba_UserID :: string
  ba_DaemonToken :: string
  ba_LastSeenAt :: time
  ba_CreatedAt :: time
  ba_ChepherdVersion :: string
  ba_Capabilities :: "string list"
  ba_Hostname :: string

record ledger =
  rl_byID :: "(string \<times> bastion) list"
  rl_byToken :: "(string \<times> string) list"

definition ErrUnknownBastion :: go_error where "ErrUnknownBastion = ''registry: unknown bastion''"
definition ErrUnknownToken :: go_error where "ErrUnknownToken = ''registry: unknown daemon token''"
definition ErrTakenByOther :: go_error where
  "ErrTakenByOther = ''registry: bastion_id taken by another user''"

definition NewMemory :: ledger where "NewMemory = \<lparr>rl_byID = [], rl_byToken = []\<rparr>"

definition ledger_Register ::
    "bastion \<Rightarrow> go_error + string \<Rightarrow> time \<Rightarrow> ledger \<Rightarrow> (go_error + string) \<times> ledger" where
  "ledger_Register b minted now m =
     (if ba_ID b = [] \<or> ba_UserID b = [] then (Inl ''registry: ID and UserID required'', m)
      else case map_of (rl_byID m) (ba_ID b) of
        Some existing \<Rightarrow>
          if ba_UserID existing \<noteq> ba_UserID b then (Inl ErrTakenByOther, m)
          else
            let m1 = m\<lparr>rl_byToken := AList.delete (ba_DaemonToken existing) (rl_byToken m)\<rparr> in
            (case minted of
               Inl e \<Rightarrow> (Inl e, m1)
             | Inr tok \<Rightarrow>
                 (Inr tok,
                  m1\<lparr>rl_byID := AList.update (ba_ID b)
                       (existing\<lparr>ba_DaemonToken := tok, ba_LastSeenAt := now,
                          ba_Capabilities := ba_Capabilities b, ba_ChepherdVersion := ba_ChepherdVersion b,
                          ba_Hostname := ba_Hostname b\<rparr>) (rl_byID m1),
                     rl_byToken := AList.update tok (ba_ID b) (rl_byToken m1)\<rparr>))
      | None \<Rightarrow>
          (case minted of
             Inl e \<Rightarrow> (Inl e, m)
           | Inr tok \<Rightarrow>
               (Inr tok,
                m\<lparr>rl_byID := AList.update (ba_ID b)
                     (b\<lparr>ba_DaemonToken := tok, ba_CreatedAt := now, ba_LastSeenAt := now\<rparr>) (rl_byID m),
                  rl_byToken := AList.update tok (ba_ID b) (rl_byToken m)\<rparr>)))"

definition ledger_Touch :: "string \<Rightarrow> time \<Rightarrow> ledger \<Rightarrow> go_error option \<times> ledger" where
  "ledger_Touch i now m = (case map_of (rl_byID m) i of None \<Rightarrow> (Some ErrUnknownBastion, m)
     | Some b \<Rightarrow> (None, m\<lparr>rl_byID := AList.update i (b\<lparr>ba_LastSeenAt := now\<rparr>) (rl_byID m)\<rparr>))"

definition ledger_Get :: "string \<Rightarrow> ledger \<Rightarrow> go_error + bastion" where
  "ledger_Get i m = (case map_of (rl_byID m) i of None \<Rightarrow> Inl ErrUnknownBastion
     | Some b \<Rightarrow> Inr (b\<lparr>ba_DaemonToken := []\<rparr>))"

definition VerifyDaemonToken :: "string \<Rightarrow> ledger \<Rightarrow> go_error + bastion" where
  "VerifyDaemonToken token m =
     (if token = [] then Inl ErrUnknownToken
      else case map_of (rl_byToken m) token of None \<Rightarrow> Inl ErrUnknownToken
        | Some i \<Rightarrow> (case map_of (rl_byID m) i of None \<Rightarrow> Inl ErrUnknownToken
            | Some b \<Rightarrow> Inr (b\<lparr>ba_DaemonToken := []\<rparr>)))"

definition ListByUser :: "string \<Rightarrow> ledger \<Rightarrow> bastion list" where
  "ListByUser userID m = map (\<lambda>b. b\<lparr>ba_DaemonToken := []\<rparr>)
     (filter (\<lambda>b. ba_UserID b = userID) (map snd (rl_byID m)))"

datatype ledger_op = LRegister bastion "go_error + string" time | LTouch string time

fun ledger_step :: "ledger_op \<Rightarrow> ledger \<Rightarrow> ledger" where
  "ledger_step (LRegister b minted now) m = snd (ledger_Register b minted now m)"
| "ledger_step (LTouch i now) m = snd (ledger_Touch i now m)"

definition ledger_run :: "ledger_op list \<Rightarrow> ledger \<Rightarrow> ledger" where
  "ledger_run xs m = foldl (\<lambda>m x. ledger_step x m) m xs"

section \<open>Who holds which token\<close>

text \<open>The specification: who owns a bastion, and its token while it has a valid one.\<close>

record grant_spec =
  gs_owner :: "string \<Rightarrow> string option"
  gs_token :: "string \<Rightarrow> string option"

fun spec_register :: "ledger_op \<Rightarrow> grant_spec \<Rightarrow> grant_spec" where
  "spec_register (LTouch i now) s = s"
| "spec_register (LRegister b minted now) s =
     (if ba_ID b = [] \<or> ba_UserID b = [] then s
      else case gs_owner s (ba_ID b) of
        Some u \<Rightarrow> if u \<noteq> ba_UserID b then s
                  else s\<lparr>gs_token := (gs_token s)(ba_ID b := (case minted of Inl _ \<Rightarrow> None | Inr t \<Rightarrow> Some t))\<rparr>
      | None \<Rightarrow> (case minted of Inl _ \<Rightarrow> s
          | Inr t \<Rightarrow> s\<lparr>gs_owner := (gs_owner s)(ba_ID b \<mapsto> ba_UserID b),
                      gs_token := (gs_token s)(ba_ID b \<mapsto> t)\<rparr>))"

definition spec_run :: "ledger_op list \<Rightarrow> grant_spec" where
  "spec_run xs = foldl (\<lambda>s x. spec_register x s) \<lparr>gs_owner = Map.empty, gs_token = Map.empty\<rparr> xs"

definition minted_tokens :: "ledger_op list \<Rightarrow> string list" where
  "minted_tokens xs = concat (map (\<lambda>x. case x of LRegister _ (Inr t) _ \<Rightarrow> [t] | _ \<Rightarrow> []) xs)"

definition ledger_refines :: "string set \<Rightarrow> ledger \<Rightarrow> grant_spec \<Rightarrow> bool" where
  "ledger_refines used m s \<longleftrightarrow>
     (\<forall>i. map_option ba_UserID (map_of (rl_byID m) i) = gs_owner s i)
     \<and> (\<forall>i b. map_of (rl_byID m) i = Some b \<longrightarrow> ba_ID b = i \<and> ba_DaemonToken b \<in> used)
     \<and> (\<forall>i t. gs_token s i = Some t \<longrightarrow> (\<exists>b. map_of (rl_byID m) i = Some b \<and> ba_DaemonToken b = t))
     \<and> (\<forall>i b. map_of (rl_byID m) i = Some b \<longrightarrow> gs_token s i = None
           \<longrightarrow> map_of (rl_byToken m) (ba_DaemonToken b) = None)
     \<and> (\<forall>t i. map_of (rl_byToken m) t = Some i \<longleftrightarrow> gs_token s i = Some t)"

lemma ledger_refines_init: "ledger_refines {} NewMemory (spec_run [])"
  by (simp add: ledger_refines_def NewMemory_def spec_run_def)

lemma ledger_refinesI:
  assumes "\<And>i. map_option ba_UserID (map_of (rl_byID m) i) = gs_owner s i"
    "\<And>i b. map_of (rl_byID m) i = Some b \<Longrightarrow> ba_ID b = i \<and> ba_DaemonToken b \<in> used"
    "\<And>i t. gs_token s i = Some t \<Longrightarrow> \<exists>b. map_of (rl_byID m) i = Some b \<and> ba_DaemonToken b = t"
    "\<And>i b. map_of (rl_byID m) i = Some b \<Longrightarrow> gs_token s i = None
       \<Longrightarrow> map_of (rl_byToken m) (ba_DaemonToken b) = None"
    "\<And>t i. map_of (rl_byToken m) t = Some i \<longleftrightarrow> gs_token s i = Some t"
  shows "ledger_refines used m s"
  using assms unfolding ledger_refines_def by blast

lemma ledger_refinesD:
  assumes "ledger_refines used m s"
  shows "map_option ba_UserID (map_of (rl_byID m) i) = gs_owner s i"
    "map_of (rl_byID m) i = Some b \<Longrightarrow> ba_ID b = i \<and> ba_DaemonToken b \<in> used"
    "gs_token s i = Some t \<Longrightarrow> \<exists>b. map_of (rl_byID m) i = Some b \<and> ba_DaemonToken b = t"
    "map_of (rl_byID m) i = Some b \<Longrightarrow> gs_token s i = None
       \<Longrightarrow> map_of (rl_byToken m) (ba_DaemonToken b) = None"
    "map_of (rl_byToken m) t = Some i \<longleftrightarrow> gs_token s i = Some t"
  using assms unfolding ledger_refines_def by blast+

text \<open>A bastion that lost its token to a failed rotation keeps the old token in its record; since minted
  tokens are fresh, nobody else ever gets that token.\<close>

lemma token_unique:
  assumes "ledger_refines used m s" "gs_token s i = Some t" "gs_token s j = Some t"
  shows "i = j"
  using ledger_refinesD(5) [OF assms(1)] assms(2,3) by (metis option.inject)

lemma revoked_tokens:
  assumes R: "ledger_refines used m s" and b: "map_of (rl_byID m) i = Some b"
  shows "map_of (AList.delete (ba_DaemonToken b) (rl_byToken m)) t = Some j
    \<longleftrightarrow> ((gs_token s)(i := None)) j = Some t"
proof (cases "gs_token s i")
  case None
  then have "map_of (rl_byToken m) (ba_DaemonToken b) = None" using ledger_refinesD(4) [OF R b] by simp
  then show ?thesis using ledger_refinesD(5) [OF R, of t j] ledger_refinesD(5) [OF R, of "ba_DaemonToken b" j] None
    by (auto simp: delete_conv')
next
  case (Some t')
  then have "ba_DaemonToken b = t'" using ledger_refinesD(3) [OF R Some] b by auto
  moreover have "map_of (rl_byToken m) t' = Some i" using ledger_refinesD(5) [OF R] Some by simp
  ultimately show ?thesis
    using ledger_refinesD(5) [OF R, of t j] Some by (auto simp: delete_conv')
qed

lemma rotate_refines:
  assumes R: "ledger_refines used m s" and b: "map_of (rl_byID m) i = Some b"
    and new: "tok \<notin> used"
    and b': "ba_ID b' = i" "ba_UserID b' = ba_UserID b" "ba_DaemonToken b' = tok"
  shows "ledger_refines (insert tok used)
    (m\<lparr>rl_byID := AList.update i b' (rl_byID m),
       rl_byToken := AList.update tok i (AList.delete (ba_DaemonToken b) (rl_byToken m))\<rparr>)
    (s\<lparr>gs_token := (gs_token s)(i \<mapsto> tok)\<rparr>)"
proof (rule ledger_refinesI, goal_cases)
  case (1 j)
  then show ?case using ledger_refinesD(1) [OF R, of j] b b' by (auto simp: update_conv')
next
  case (2 j c)
  then show ?case using ledger_refinesD(2) [OF R, of j c] b' by (auto simp: update_conv' split: if_splits)
next
  case (3 j t)
  then show ?case using ledger_refinesD(3) [OF R, of j t] b' by (auto simp: update_conv' split: if_splits)
next
  case (4 j c)
  then have j: "j \<noteq> i" "map_of (rl_byID m) j = Some c" "gs_token s j = None"
    by (auto simp: update_conv' split: if_splits)
  then have "map_of (rl_byToken m) (ba_DaemonToken c) = None" "ba_DaemonToken c \<noteq> tok"
    using ledger_refinesD(4) [OF R j(2,3)] ledger_refinesD(2) [OF R j(2)] new by auto
  then show ?case by (auto simp: update_conv' delete_conv')
next
  case (5 t j)
  have "gs_token s k \<noteq> Some tok" for k
    using ledger_refinesD(3) [OF R, of k tok] ledger_refinesD(2) [OF R] new by blast
  then show ?case using revoked_tokens [OF R b, of t j] by (auto simp: update_conv')
qed

lemma revoke_refines:
  assumes R: "ledger_refines used m s" and b: "map_of (rl_byID m) i = Some b"
  shows "ledger_refines used (m\<lparr>rl_byToken := AList.delete (ba_DaemonToken b) (rl_byToken m)\<rparr>)
    (s\<lparr>gs_token := (gs_token s)(i := None)\<rparr>)"
proof (rule ledger_refinesI, goal_cases)
  case (1 j)
  then show ?case using ledger_refinesD(1) [OF R] by simp
next
  case (2 j c)
  then show ?case using ledger_refinesD(2) [OF R] by simp
next
  case (3 j t)
  then show ?case using ledger_refinesD(3) [OF R] by (auto split: if_splits)
next
  case (4 j c)
  show ?case
  proof (cases "j = i")
    case True
    then show ?thesis using 4 b by (simp add: delete_conv')
  next
    case False
    then show ?thesis using 4 ledger_refinesD(4) [OF R, of j c] by (simp add: delete_conv')
  qed
next
  case (5 t j)
  then show ?case using revoked_tokens [OF R b, of t j] by simp
qed

lemma new_refines:
  assumes R: "ledger_refines used m s" and b: "map_of (rl_byID m) i = None"
    and new: "tok \<notin> used" and b': "ba_ID b' = i" "ba_UserID b' = u" "ba_DaemonToken b' = tok"
  shows "ledger_refines (insert tok used)
    (m\<lparr>rl_byID := AList.update i b' (rl_byID m), rl_byToken := AList.update tok i (rl_byToken m)\<rparr>)
    (s\<lparr>gs_owner := (gs_owner s)(i \<mapsto> u), gs_token := (gs_token s)(i \<mapsto> tok)\<rparr>)"
proof (rule ledger_refinesI, goal_cases)
  case (1 j)
  then show ?case using ledger_refinesD(1) [OF R, of j] b' by (auto simp: update_conv')
next
  case (2 j c)
  then show ?case using ledger_refinesD(2) [OF R, of j c] b' by (auto simp: update_conv' split: if_splits)
next
  case (3 j t)
  then show ?case using ledger_refinesD(3) [OF R, of j t] b' by (auto simp: update_conv' split: if_splits)
next
  case (4 j c)
  then have j: "j \<noteq> i" "map_of (rl_byID m) j = Some c" "gs_token s j = None"
    by (auto simp: update_conv' split: if_splits)
  then have "map_of (rl_byToken m) (ba_DaemonToken c) = None" "ba_DaemonToken c \<noteq> tok"
    using ledger_refinesD(4) [OF R j(2,3)] ledger_refinesD(2) [OF R j(2)] new by auto
  then show ?case by (auto simp: update_conv')
next
  case (5 t j)
  have "gs_token s k \<noteq> Some tok" for k
    using ledger_refinesD(3) [OF R, of k tok] ledger_refinesD(2) [OF R] new by blast
  moreover have "gs_token s i = None"
    using ledger_refinesD(3) [OF R, of i] b by (cases "gs_token s i") auto
  ultimately show ?case using ledger_refinesD(5) [OF R, of t j] by (auto simp: update_conv')
qed

lemma register_refines:
  assumes R: "ledger_refines used m s" and new: "\<And>t. minted = Inr t \<Longrightarrow> t \<notin> used"
  shows "ledger_refines (used \<union> set (minted_tokens [LRegister b minted now]))
    (snd (ledger_Register b minted now m)) (spec_register (LRegister b minted now) s)"
proof (cases "ba_ID b = [] \<or> ba_UserID b = []")
  case True
  have "ledger_refines (used \<union> x) m s" for x
    using R unfolding ledger_refines_def by blast
  then show ?thesis using True by (auto simp: ledger_Register_def)
next
  case False
  note owner = ledger_refinesD(1) [OF R, of "ba_ID b", symmetric]
  have mono: "ledger_refines (used \<union> x) m s" for x
    using R unfolding ledger_refines_def by blast
  show ?thesis
  proof (cases "map_of (rl_byID m) (ba_ID b)")
    case None
    then show ?thesis
    proof (cases minted)
      case (Inl e)
      then show ?thesis using None owner R False by (auto simp: ledger_Register_def minted_tokens_def)
    next
      case (Inr tok)
      show ?thesis
        using new_refines [OF R None new [OF Inr], of
            "b\<lparr>ba_DaemonToken := tok, ba_CreatedAt := now, ba_LastSeenAt := now\<rparr>" "ba_UserID b"]
          None owner Inr False by (auto simp: ledger_Register_def minted_tokens_def)
    qed
  next
    case (Some c)
    have id: "ba_ID c = ba_ID b" using ledger_refinesD(2) [OF R Some] by simp
    show ?thesis
    proof (cases "ba_UserID c = ba_UserID b")
      case other: False
      have "spec_register (LRegister b minted now) s = s" using other Some owner False by (auto split: option.splits)
      moreover have "snd (ledger_Register b minted now m) = m" using other Some False by (auto simp: ledger_Register_def)
      ultimately show ?thesis using mono by (simp only:)
    next
      case same: True
      show ?thesis
      proof (cases minted)
        case (Inl e)
        then show ?thesis using revoke_refines [OF R Some] Some owner same False
          by (auto simp: ledger_Register_def minted_tokens_def)
      next
        case (Inr tok)
        show ?thesis
          using rotate_refines [OF R Some new [OF Inr], of "c\<lparr>ba_DaemonToken := tok, ba_LastSeenAt := now,
              ba_Capabilities := ba_Capabilities b, ba_ChepherdVersion := ba_ChepherdVersion b,
              ba_Hostname := ba_Hostname b\<rparr>"] Some owner same Inr False id
          by (auto simp: ledger_Register_def minted_tokens_def Let_def)
      qed
    qed
  qed
qed

lemma touch_refines:
  assumes R: "ledger_refines used m s"
  shows "ledger_refines used (snd (ledger_Touch i now m)) s"
proof (cases "map_of (rl_byID m) i")
  case None
  then show ?thesis using R by (simp add: ledger_Touch_def)
next
  case (Some b)
  have "map_of (rl_byID (snd (ledger_Touch i now m))) j =
      (if j = i then Some (b\<lparr>ba_LastSeenAt := now\<rparr>) else map_of (rl_byID m) j)" for j
    using Some by (simp add: ledger_Touch_def update_conv')
  note this [simp]
  have [simp]: "rl_byToken (snd (ledger_Touch i now m)) = rl_byToken m"
    using Some by (simp add: ledger_Touch_def)
  show ?thesis
  proof (rule ledger_refinesI, goal_cases)
    case (1 j)
    then show ?case using ledger_refinesD(1) [OF R, of j] Some by auto
  next
    case (2 j c)
    then show ?case using ledger_refinesD(2) [OF R, of j] Some by (auto split: if_splits)
  next
    case (3 j t)
    then show ?case using ledger_refinesD(3) [OF R, of j t] Some by (auto split: if_splits)
  next
    case (4 j c)
    then show ?case using ledger_refinesD(4) [OF R, of j] Some by (auto split: if_splits)
  next
    case (5 t j)
    then show ?case using ledger_refinesD(5) [OF R] by simp
  qed
qed

lemma minted_tokens_append [simp]: "minted_tokens (xs @ ys) = minted_tokens xs @ minted_tokens ys"
  by (simp add: minted_tokens_def)

lemma ledger_run_refines:
  assumes "distinct (minted_tokens xs)"
  shows "ledger_refines (set (minted_tokens xs)) (ledger_run xs NewMemory) (spec_run xs)"
  using assms
proof (induction xs rule: rev_induct)
  case Nil
  then show ?case using ledger_refines_init by (simp add: ledger_run_def minted_tokens_def)
next
  case (snoc x xs)
  then have IH: "ledger_refines (set (minted_tokens xs)) (ledger_run xs NewMemory) (spec_run xs)" by simp
  have run: "ledger_run (xs @ [x]) NewMemory = ledger_step x (ledger_run xs NewMemory)"
    "spec_run (xs @ [x]) = spec_register x (spec_run xs)" by (simp_all add: ledger_run_def spec_run_def)
  show ?case
  proof (cases x)
    case (LRegister b minted now)
    then have fresh: "minted = Inr t \<Longrightarrow> t \<notin> set (minted_tokens xs)" for t
      using snoc.prems by (simp add: minted_tokens_def)
    have "ledger_refines (set (minted_tokens xs) \<union> set (minted_tokens [LRegister b minted now]))
        (snd (ledger_Register b minted now (ledger_run xs NewMemory)))
        (spec_register (LRegister b minted now) (spec_run xs))"
      by (rule register_refines [OF IH fresh])
    then show ?thesis
      unfolding run minted_tokens_append set_append unfolding LRegister by (simp only: ledger_step.simps)
  next
    case (LTouch i now)
    then show ?thesis using touch_refines [OF IH] run by (simp add: minted_tokens_def)
  qed
qed

text \<open>Over any history of registrations and touches in which minted tokens are non-empty and never
  repeat, a daemon token verifies exactly as the bastion it was last issued to (a rotation revokes the
  previous token, also when minting the new one fails), a bastion id stays with its first user, and no
  answer contains a token.\<close>

theorem daemon_tokens_exact:
  assumes "distinct (minted_tokens xs)" "[] \<notin> set (minted_tokens xs)"
  defines "m \<equiv> ledger_run xs NewMemory"
  shows "((\<exists>b. VerifyDaemonToken token m = Inr b \<and> ba_ID b = i) \<longleftrightarrow> gs_token (spec_run xs) i = Some token)
    \<and> (case ledger_Get i m of Inl _ \<Rightarrow> gs_owner (spec_run xs) i = None
        | Inr b \<Rightarrow> gs_owner (spec_run xs) i = Some (ba_UserID b) \<and> ba_DaemonToken b = [])
    \<and> (case VerifyDaemonToken token m of Inl _ \<Rightarrow> True | Inr b \<Rightarrow> ba_DaemonToken b = [])
    \<and> (\<forall>b \<in> set (ListByUser u m). ba_DaemonToken b = [] \<and> ba_UserID b = u)"
proof (intro conjI)
  note R = ledger_run_refines [OF assms(1), folded m_def]
  have nonempty: "gs_token (spec_run xs) i \<noteq> Some []"
    using ledger_refinesD(3) [OF R, of i "[]"] ledger_refinesD(2) [OF R] assms(2) by metis
  show "(\<exists>b. VerifyDaemonToken token m = Inr b \<and> ba_ID b = i) \<longleftrightarrow> gs_token (spec_run xs) i = Some token"
  proof (cases "token = [] \<or> map_of (rl_byToken m) token = None")
    case True
    then show ?thesis using nonempty ledger_refinesD(5) [OF R, of token i] by (auto simp: VerifyDaemonToken_def)
  next
    case False
    then obtain j where j: "map_of (rl_byToken m) token = Some j" "token \<noteq> []" by auto
    then have "gs_token (spec_run xs) j = Some token" using ledger_refinesD(5) [OF R] by simp
    then obtain b where "map_of (rl_byID m) j = Some b" "ba_ID b = j"
      using ledger_refinesD(2,3) [OF R] by blast
    then show ?thesis using j ledger_refinesD(5) [OF R, of token i] by (auto simp: VerifyDaemonToken_def)
  qed
  show "case ledger_Get i m of Inl _ \<Rightarrow> gs_owner (spec_run xs) i = None
        | Inr b \<Rightarrow> gs_owner (spec_run xs) i = Some (ba_UserID b) \<and> ba_DaemonToken b = []"
    using ledger_refinesD(1) [OF R, of i] by (auto simp: ledger_Get_def split: option.splits)
  show "case VerifyDaemonToken token m of Inl _ \<Rightarrow> True | Inr b \<Rightarrow> ba_DaemonToken b = []"
    by (auto simp: VerifyDaemonToken_def split: option.splits)
  show "\<forall>b \<in> set (ListByUser u m). ba_DaemonToken b = [] \<and> ba_UserID b = u"
    by (auto simp: ListByUser_def)
qed

text \<open>On a history: a rotation that fails, then one that succeeds.\<close>

definition demo_bastion :: "string \<Rightarrow> bastion" where
  "demo_bastion u = \<lparr>ba_ID = ''b1'', ba_UserID = u, ba_DaemonToken = [], ba_LastSeenAt = 0, ba_CreatedAt = 0,
     ba_ChepherdVersion = [], ba_Capabilities = [], ba_Hostname = []\<rparr>"

definition demo_ledger :: "ledger_op list" where
  "demo_ledger = [LRegister (demo_bastion ''u'') (Inr ''chep_1'') 1, LRegister (demo_bastion ''v'') (Inr ''chep_x'') 2,
     LRegister (demo_bastion ''u'') (Inl ''rand'') 3, LRegister (demo_bastion ''u'') (Inr ''chep_2'') 4]"

theorem daemon_tokens_exact_witness:
  "(\<exists>b. VerifyDaemonToken ''chep_2'' (ledger_run demo_ledger NewMemory) = Inr b \<and> ba_ID b = ''b1'')
   \<and> \<not> (\<exists>b. VerifyDaemonToken ''chep_1'' (ledger_run demo_ledger NewMemory) = Inr b \<and> ba_ID b = ''b1'')
   \<and> \<not> (\<exists>b. VerifyDaemonToken ''chep_x'' (ledger_run demo_ledger NewMemory) = Inr b \<and> ba_ID b = ''b1'')"
proof -
  have "distinct (minted_tokens demo_ledger)" "[] \<notin> set (minted_tokens demo_ledger)"
    "gs_token (spec_run demo_ledger) ''b1'' = Some ''chep_2''"
    by (simp_all add: demo_ledger_def minted_tokens_def spec_run_def demo_bastion_def)
  then show ?thesis
    using daemon_tokens_exact [of demo_ledger "''chep_2''" "''b1''"]
      daemon_tokens_exact [of demo_ledger "''chep_1''" "''b1''"]
      daemon_tokens_exact [of demo_ledger "''chep_x''" "''b1''"] by simp
qed

text \<open>Until the next successful registration, a failed rotation leaves the bastion without any valid token.\<close>

lemma failed_rotation_locks_out:
  assumes "ba_ID b \<noteq> []" "ba_UserID b \<noteq> []"
  shows "gs_token (spec_run [LRegister b (Inr t) n1, LRegister b (Inl e) n2]) (ba_ID b) = None"
  using assms by (simp add: spec_run_def)

end
