(* ===== verification/Event_Log.thy ===== *)
theory Event_Log
  imports Ring_Buffer
begin

text \<open>
  The runtime's event log (\<open>internal/runtime/events.go\<close>) and the human inbox of
  \<open>internal/runtime/runtime.go\<close>: two bounded windows over an unbounded history. Both are instances of
  the locale \<open>suffix_buffer\<close>. A subscriber's channel is its buffer of at most 64 events; a channel that
  \<open>unsubscribe\<close> closed is no longer in \<open>el_subs\<close>.
\<close>

section \<open>The event log\<close>

record event =
  e_ID :: string
  e_At :: time
  e_Kind :: string
  e_Actor :: string
  e_Body :: string

record event_buffer =
  el_items :: "event list"
  el_max :: nat
  el_subs :: "(nat \<times> event list) list"
  el_next :: nat

definition newEventBuffer :: "nat \<Rightarrow> event_buffer" where
  "newEventBuffer n = \<lparr>el_items = [], el_max = n, el_subs = [], el_next = 0\<rparr>"

definition eventChanCap :: nat where "eventChanCap = 64"

definition stamp_event :: "string \<Rightarrow> time \<Rightarrow> event \<Rightarrow> event" where
  "stamp_event freshID now e =
     e\<lparr>e_ID := (if e_ID e = [] then freshID else e_ID e),
       e_At := (if e_At e = time_zero then now else e_At e)\<rparr>"

definition fan_event :: "event \<Rightarrow> nat \<times> event list \<Rightarrow> nat \<times> event list" where
  "fan_event e c = (if length (snd c) < eventChanCap then (fst c, snd c @ [e]) else c)"

definition push_event :: "string \<Rightarrow> time \<Rightarrow> event \<Rightarrow> event_buffer \<Rightarrow> event_buffer" where
  "push_event freshID now e0 b =
     (let e = stamp_event freshID now e0;
          items = el_items b @ [e];
          kept = (if length items > el_max b then drop (length items - el_max b) items else items)
      in b\<lparr>el_items := kept, el_subs := map (fan_event e) (el_subs b)\<rparr>)"

definition event_snapshot :: "int \<Rightarrow> event_buffer \<Rightarrow> event list" where
  "event_snapshot limit b =
     (let n = length (el_items b) in
      if limit > 0 \<and> limit < int n then take (nat limit) (drop (n - nat limit) (el_items b))
      else el_items b)"

definition event_subscribe :: "event_buffer \<Rightarrow> nat \<times> event_buffer" where
  "event_subscribe b =
     (el_next b, b\<lparr>el_subs := el_subs b @ [(el_next b, [])], el_next := el_next b + 1\<rparr>)"

definition event_unsubscribe :: "nat \<Rightarrow> event_buffer \<Rightarrow> event_buffer" where
  "event_unsubscribe c b = b\<lparr>el_subs := filter (\<lambda>s. fst s \<noteq> c) (el_subs b)\<rparr>"

lemma push_event_items [simp]:
  "el_items (push_event i now e b) = lastn (el_max b) (el_items b @ [stamp_event i now e])"
  by (simp add: push_event_def Let_def lastn_def)

lemma push_event_max [simp]: "el_max (push_event i now e b) = el_max b"
  by (simp add: push_event_def Let_def)

lemma event_snapshot_lastn:
  "event_snapshot limit b = (if 0 < limit then lastn (nat limit) (el_items b) else el_items b)"
  by (auto simp: event_snapshot_def Let_def lastn_def)

text \<open>Several events at once, each with the identity and the instant the runtime gave it.\<close>

definition push_events :: "event_buffer \<Rightarrow> event list \<Rightarrow> event_buffer" where
  "push_events b es = foldl (\<lambda>b e. push_event (e_ID e) (e_At e) e b) b es"

lemma stamp_stamped [simp]: "stamp_event (e_ID e) (e_At e) e = e"
  by (simp add: stamp_event_def)

lemma push_events_max [simp]: "el_max (push_events b es) = el_max b"
  unfolding push_events_def by (induction es arbitrary: b) simp_all

lemma push_events_items:
  "length (el_items b) \<le> el_max b \<Longrightarrow> el_items (push_events b es) = lastn (el_max b) (el_items b @ es)"
proof (induction es arbitrary: b)
  case (Cons e es)
  have "el_items (push_events (push_event (e_ID e) (e_At e) e b) es)
      = lastn (el_max b) (lastn (el_max b) (el_items b @ [e]) @ es)"
    using Cons.IH [of "push_event (e_ID e) (e_At e) e b"] by simp
  then show ?case by (simp add: push_events_def)
qed (simp add: push_events_def)

interpretation event_log: suffix_buffer n "\<lambda>b. el_max b = n \<and> length (el_items b) \<le> n" el_items push_events
  for n
  by unfold_locales (auto simp: push_events_items)

lemma event_log_window:
  "event_snapshot limit (foldl push_events (newEventBuffer n) ess)
     = (if 0 < limit then lastn (nat limit) (lastn n (concat ess)) else lastn n (concat ess))"
  using event_log.contents_writes [of "newEventBuffer n" n ess]
  by (simp add: event_snapshot_lastn newEventBuffer_def)

text \<open>A slow subscriber misses events but never blocks the log, and never holds more than its channel.\<close>

lemma fan_event_bound: "length (snd c) \<le> eventChanCap \<Longrightarrow> length (snd (fan_event e c)) \<le> eventChanCap"
  by (auto simp: fan_event_def)

section \<open>The human inbox\<close>

record inbox_entry =
  in_ID :: string
  in_From :: string
  in_Body :: string
  in_At :: time
  in_Read :: bool

definition inboxCap :: nat where "inboxCap = 500"

definition HumanInbox :: "string \<Rightarrow> time \<Rightarrow> string \<Rightarrow> string \<Rightarrow> inbox_entry list \<Rightarrow> inbox_entry list" where
  "HumanInbox freshID now from' body xs =
     (let ys = xs @ [\<lparr>in_ID = freshID, in_From = from', in_Body = body, in_At = now, in_Read = False\<rparr>] in
      if length ys > inboxCap then drop (length ys - inboxCap) ys else ys)"

fun MarkInboxRead :: "string \<Rightarrow> inbox_entry list \<Rightarrow> bool \<times> inbox_entry list" where
  "MarkInboxRead i [] = (False, [])"
| "MarkInboxRead i (m # ms) =
     (if in_ID m = i then (True, m\<lparr>in_Read := True\<rparr> # ms)
      else (let (found, ms') = MarkInboxRead i ms in (found, m # ms')))"

definition MarkAllInboxRead :: "inbox_entry list \<Rightarrow> nat \<times> inbox_entry list" where
  "MarkAllInboxRead xs =
     (length (filter (\<lambda>m. \<not> in_Read m) xs), map (\<lambda>m. if in_Read m then m else m\<lparr>in_Read := True\<rparr>) xs)"

lemma HumanInbox_lastn:
  "HumanInbox i now f b xs = lastn inboxCap
     (xs @ [\<lparr>in_ID = i, in_From = f, in_Body = b, in_At = now, in_Read = False\<rparr>])"
  by (simp add: HumanInbox_def Let_def lastn_def)

lemma MarkInboxRead_found: "fst (MarkInboxRead i xs) \<longleftrightarrow> (\<exists>m \<in> set xs. in_ID m = i)"
  by (induction xs) (auto split: prod.splits)

lemma MarkInboxRead_length [simp]: "length (snd (MarkInboxRead i xs)) = length xs"
  by (induction xs) (auto split: prod.splits)

lemma MarkAllInboxRead_all: "list_all in_Read (snd (MarkAllInboxRead xs))"
  by (auto simp: MarkAllInboxRead_def list_all_iff)

lemma MarkAllInboxRead_again: "fst (MarkAllInboxRead (snd (MarkAllInboxRead xs))) = 0"
  by (auto simp: MarkAllInboxRead_def filter_empty_conv)

text \<open>
  What an entry says, the read mark aside: the inbox keeps the last 500 of what it was told, whatever
  was marked read in between.
\<close>

definition entry_text :: "inbox_entry \<Rightarrow> string \<times> time \<times> string \<times> string" where
  "entry_text m = (in_ID m, in_At m, in_From m, in_Body m)"

definition deliver_inbox :: "inbox_entry list \<Rightarrow> (string \<times> time \<times> string \<times> string) list \<Rightarrow> inbox_entry list" where
  "deliver_inbox xs ms = foldl (\<lambda>xs (i, now, f, b). HumanInbox i now f b xs) xs ms"

lemma deliver_inbox_text:
  "length xs \<le> inboxCap \<Longrightarrow>
     map entry_text (deliver_inbox xs ms) = lastn inboxCap (map entry_text xs @ ms)
     \<and> length (deliver_inbox xs ms) \<le> inboxCap"
proof (induction ms arbitrary: xs)
  case (Cons m ms)
  obtain i now f b where m: "m = (i, now, f, b)" by (cases m)
  have one: "map entry_text (HumanInbox i now f b xs) = lastn inboxCap (map entry_text xs @ [m])"
    by (simp add: HumanInbox_lastn map_lastn entry_text_def m)
  have "length (HumanInbox i now f b xs) \<le> inboxCap" by (simp add: HumanInbox_lastn)
  from Cons.IH [OF this] show ?case by (simp add: deliver_inbox_def one m)
qed (simp add: deliver_inbox_def)

interpretation inbox: suffix_buffer inboxCap "\<lambda>xs. length xs \<le> inboxCap" "map entry_text" deliver_inbox
  by unfold_locales (simp_all add: deliver_inbox_text)

lemma MarkInboxRead_text [simp]: "map entry_text (snd (MarkInboxRead i xs)) = map entry_text xs"
  by (induction xs) (auto simp: entry_text_def split: prod.splits)

lemma MarkAllInboxRead_text [simp]: "map entry_text (snd (MarkAllInboxRead xs)) = map entry_text xs"
  by (auto simp: MarkAllInboxRead_def entry_text_def)

end
