(* ===== verification/Team_Registry.thy ===== *)
theory Team_Registry
  imports Complex_Main Go_Map Event_Log Messages
begin

text \<open>
  The state authority of \<open>internal/runtime/runtime.go\<close>: the sessions by name and by id, the teams
  (\<open>team.go\<close>), the memberships (\<open>membership.go\<close>), the per-axis reviews and the team events
  (\<open>team_events.go\<close>). \<open>Spawn\<close> takes the lock twice, to reserve the name and to register the session,
  so it is two operations here; so is \<open>markExited\<close>. A score is a rational number: a finite
  \<open>float64\<close>, which is all JSON can carry.

  The mutex \<open>r.mu\<close>: operations that hold it with \<open>defer Unlock\<close> release it when they panic; the
  others leave it locked for good, which is \<open>rt_wedged\<close>, and every later operation blocks.
\<close>

section \<open>Trust bands\<close>

record scorecard =
  sc_Goal :: rat
  sc_Velocity :: rat
  sc_Focus :: rat
  sc_EndState :: rat
  sc_Discipline :: rat
  sc_Note :: string
  sc_At :: time

definition TrustBandTrusted :: string where "TrustBandTrusted = ''trusted''"
definition TrustBandStandard :: string where "TrustBandStandard = ''standard''"
definition TrustBandConcerned :: string where "TrustBandConcerned = ''concerned''"
definition TrustBandCrisis :: string where "TrustBandCrisis = ''crisis''"

lemmas trust_bands = TrustBandTrusted_def TrustBandStandard_def TrustBandConcerned_def TrustBandCrisis_def

definition BandFromScorecard :: "scorecard option \<Rightarrow> string" where
  "BandFromScorecard s = (case s of None \<Rightarrow> TrustBandStandard
     | Some sc \<Rightarrow> if sc_Discipline sc \<ge> 8 then TrustBandTrusted
         else if sc_Discipline sc \<ge> 6 then TrustBandStandard
         else if sc_Discipline sc \<ge> 4 then TrustBandConcerned else TrustBandCrisis)"

definition BandTickInterval :: "string \<Rightarrow> int" where
  "BandTickInterval b =
     (if b = TrustBandTrusted then 30 * minute
      else if b = TrustBandConcerned then 5 * minute
      else if b = TrustBandCrisis then 2 * minute
      else 10 * minute)"

definition urgency :: "string \<Rightarrow> nat" where
  "urgency b = (if b = TrustBandStandard then 1 else if b = TrustBandConcerned then 2
     else if b = TrustBandCrisis then 3 else 0)"

section \<open>State\<close>

record stat_sheet =
  ss_ContextBudget :: int
  ss_ModelTier :: string
  ss_DisciplineWeight :: rat
  ss_VelocityExpect :: string
  ss_TokenBudgetUSD :: rat
  ss_ToolAllowlist :: "string list option"

definition RoleShepherd :: string where "RoleShepherd = ''shepherd''"

record session_info =
  si_ID :: string
  si_Name :: string
  si_AgentSlug :: string
  si_Team :: string
  si_Role :: string
  si_Paused :: bool
  si_Icon :: string
  si_Shepherding :: "string list"
  si_Exited :: bool
  si_ExitCode :: int
  si_LastOutput :: string
  si_Scorecard :: "scorecard option"
  si_TrustBand :: string
  si_InterventionCount :: nat
  si_LastVerdict :: string
  si_LastVerdictAt :: time
  si_LastVerdictMsg :: string
  si_SystemPrompt :: string
  si_StatSheet :: stat_sheet
  si_GitHubURL :: string

record team =
  te_Name :: string
  te_CanonPath :: string
  te_Topology :: string
  te_CreatedAt :: time

record membership =
  ms_AgentName :: string
  ms_TeamName :: string
  ms_Role :: string
  ms_BriefOverride :: string
  ms_JoinedAt :: time

record axis_review =
  ar_Reviewer :: string
  ar_Axis :: string
  ar_Score :: rat
  ar_Note :: string
  ar_At :: time

record team_event =
  tv_Kind :: string
  tv_Agent :: string
  tv_Team :: string
  tv_OldRole :: string
  tv_NewRole :: string
  tv_At :: time

record runtime =
  rt_stateDir :: string
  rt_byName :: "(string \<times> string) list"
  rt_info :: "(string \<times> session_info) list"
  rt_teams :: "(string \<times> team) list"
  rt_members :: "(string \<times> membership) list"
  rt_reviews :: "(string \<times> (string \<times> axis_review) list) list"
  rt_grants :: "(string \<times> string \<times> string) list"
  rt_inbox :: "inbox_entry list"
  rt_events :: event_buffer
  rt_teamEvents :: "team_event list"
  rt_eventsClosed :: bool
  rt_wedged :: bool
  rt_spawning :: "string list"
  rt_exiting :: "string list"

text \<open>
  \<open>rt_spawning\<close> and \<open>rt_exiting\<close> are the goroutines between the two critical sections of \<open>Spawn\<close> and
  of \<open>markExited\<close> (clean exits only).
\<close>

datatype 'a rt_res = Ret 'a | Panic | Blocked

definition sentinel :: string where "sentinel = ''__pending__''"

section \<open>Paths\<close>

text \<open>\<open>filepath.Clean\<close> and \<open>filepath.Join\<close> on a Unix system.\<close>

fun clean_parts :: "bool \<Rightarrow> string list \<Rightarrow> string list \<Rightarrow> string list" where
  "clean_parts rooted acc [] = rev acc"
| "clean_parts rooted acc (p # ps) =
     (if p = [] \<or> p = ''.'' then clean_parts rooted acc ps
      else if p = ''..'' then
        (case acc of
           a # as \<Rightarrow> if a = ''..'' then clean_parts rooted (p # acc) ps else clean_parts rooted as ps
         | [] \<Rightarrow> if rooted then clean_parts rooted [] ps else clean_parts rooted [p] ps)
      else clean_parts rooted (p # acc) ps)"

fun join_slash :: "string list \<Rightarrow> string" where
  "join_slash [] = []"
| "join_slash [p] = p"
| "join_slash (p # ps) = p @ ''/'' @ join_slash ps"

definition path_clean :: "string \<Rightarrow> string" where
  "path_clean s =
     (if s = [] then ''.''
      else let rooted = has_prefix ''/'' s; parts = clean_parts rooted [] (split_on (CHR ''/'') s) in
        if rooted then ''/'' @ join_slash parts
        else if parts = [] then ''.'' else join_slash parts)"

definition path_join :: "string list \<Rightarrow> string" where
  "path_join ps = (let qs = filter (\<lambda>p. p \<noteq> []) ps in if qs = [] then [] else path_clean (join_slash qs))"

definition canon_path :: "runtime \<Rightarrow> string \<Rightarrow> string" where
  "canon_path rt nm = path_join [rt_stateDir rt, ''teams'', nm, ''CLAUDE.md'']"

section \<open>Events\<close>

definition teamEventCap :: nat where "teamEventCap = 64"

definition emitTeamEvent :: "team_event \<Rightarrow> runtime \<Rightarrow> runtime" where
  "emitTeamEvent ev rt =
     (if rt_eventsClosed rt then rt
      else if length (rt_teamEvents rt) < teamEventCap
      then rt\<lparr>rt_teamEvents := rt_teamEvents rt @ [ev]\<rparr> else rt)"

definition RecordEvent :: "event \<Rightarrow> runtime \<Rightarrow> runtime" where
  "RecordEvent e rt = rt\<lparr>rt_events := push_event (e_ID e) (e_At e) e (rt_events rt)\<rparr>"

definition new_event :: "string \<Rightarrow> time \<Rightarrow> string \<Rightarrow> string \<Rightarrow> string \<Rightarrow> event" where
  "new_event freshID now kind actor body =
     \<lparr>e_ID = freshID, e_At = now, e_Kind = kind, e_Actor = actor, e_Body = body\<rparr>"

definition close_events :: "runtime \<Rightarrow> runtime" where
  "close_events rt = (if rt_wedged rt then rt else rt\<lparr>rt_eventsClosed := True\<rparr>)"

text \<open>The fan-out loop receives the next team event.\<close>

definition take_event :: "runtime \<Rightarrow> runtime" where
  "take_event rt = rt\<lparr>rt_teamEvents := tl (rt_teamEvents rt)\<rparr>"

definition int_text :: "int \<Rightarrow> string" where
  "int_text i = (if i < 0 then ''-'' @ partIndex (nat (- i)) else partIndex (nat i))"

text \<open>The \<open>%.1f\<close> verb: one decimal, the exact value rounded half to even.\<close>

definition half_even :: "rat \<Rightarrow> int" where
  "half_even q =
     (let f = \<lfloor>q\<rfloor>; r = q - of_int f in
      if r < 1 / 2 then f else if r > 1 / 2 then f + 1 else if even f then f else f + 1)"

definition fmt_1f :: "rat \<Rightarrow> string" where
  "fmt_1f q =
     (let n = nat (half_even (10 * \<bar>q\<bar>)) in
      (if q < 0 then ''-'' else []) @ partIndex (n div 10) @ ''.'' @ partIndex (n mod 10))"

definition em_dash :: string where
  "em_dash = '' '' @ [CHR 0xE2, CHR 0x80, CHR 0x94] @ '' ''"

section \<open>Spawn\<close>

definition spawn_reserve :: "string \<Rightarrow> string \<Rightarrow> runtime \<Rightarrow> go_error option rt_res \<times> runtime" where
  "spawn_reserve nm slug rt =
     (if nm = [] then (Ret (Some ''runtime.Spawn: Name required''), rt)
      else if slug = [] then (Ret (Some ''runtime.Spawn: AgentSlug required''), rt)
      else if rt_wedged rt then (Blocked, rt)
      else case map_of (rt_byName rt) nm of
        Some existing \<Rightarrow>
          (Ret (Some (if existing \<noteq> sentinel
             then ''runtime.Spawn: name '' @ quote nm @ '' already in use''
             else ''runtime.Spawn: name '' @ quote nm @ '' spawn already in progress'')), rt)
      | None \<Rightarrow>
          (Ret None, rt\<lparr>rt_byName := AList.update nm sentinel (rt_byName rt),
                        rt_spawning := nm # rt_spawning rt\<rparr>))"

text \<open>The deferred \<open>clearReservation\<close> of a spawn that fails.\<close>

definition spawn_abort :: "string \<Rightarrow> runtime \<Rightarrow> unit rt_res \<times> runtime" where
  "spawn_abort nm rt =
     (if rt_wedged rt then (Blocked, rt)
      else (Ret (), rt\<lparr>rt_byName := (if map_of (rt_byName rt) nm = Some sentinel
                                 then AList.delete nm (rt_byName rt) else rt_byName rt),
                    rt_spawning := remove1 nm (rt_spawning rt)\<rparr>))"

definition spawn_register :: "string \<Rightarrow> session_info \<Rightarrow> runtime \<Rightarrow> unit rt_res \<times> runtime" where
  "spawn_register i info rt =
     (if rt_wedged rt then (Blocked, rt)
      else (Ret (), rt\<lparr>rt_byName := AList.update (si_Name info) i (rt_byName rt),
                    rt_info := AList.update i info (rt_info rt),
                    rt_spawning := remove1 (si_Name info) (rt_spawning rt)\<rparr>))"

definition spawn_announce :: "string \<Rightarrow> time \<Rightarrow> session_info \<Rightarrow> runtime \<Rightarrow> unit rt_res \<times> runtime" where
  "spawn_announce freshID now info rt0 =
     (let rt = RecordEvent (new_event freshID now ''spawn'' ''runtime''
            (''agent '' @ quote (si_Name info) @ '' spawned ('' @ si_AgentSlug info @ '', team='' @
             si_Team info @ '', role='' @ si_Role info @ '')'')) rt0
      in if rt_wedged rt then (Blocked, rt)
         else (Ret (), emitTeamEvent \<lparr>tv_Kind = ''join'', tv_Agent = si_Name info, tv_Team = si_Team info,
                 tv_OldRole = [], tv_NewRole = si_Role info, tv_At = now\<rparr> rt))"

section \<open>The end of a session\<close>

definition lastOutputCap :: nat where "lastOutputCap = 8192"

text \<open>\<open>sess\<close> is the exit code and the ring snapshot of the session, when it is still registered.\<close>

definition exit_mark :: "(int \<times> string) option \<Rightarrow> session_info \<Rightarrow> session_info" where
  "exit_mark sess info =
     (case sess of
        None \<Rightarrow> info\<lparr>si_Exited := True\<rparr>
      | Some (code, snap) \<Rightarrow>
          let info1 = info\<lparr>si_Exited := True, si_ExitCode := code\<rparr> in
          if length snap > 0
          then info1\<lparr>si_LastOutput := (if length snap > lastOutputCap
                 then drop (length snap - lastOutputCap) snap else snap)\<rparr>
          else info1)"

definition markExited_flip ::
    "string \<Rightarrow> string \<Rightarrow> time \<Rightarrow> (int \<times> string) option \<Rightarrow> runtime \<Rightarrow> unit rt_res \<times> runtime" where
  "markExited_flip i freshID now sess rt =
     (if rt_wedged rt then (Blocked, rt)
      else case map_of (rt_info rt) i of
        None \<Rightarrow> (Ret (), rt)
      | Some info \<Rightarrow>
          if si_Exited info then (Ret (), rt)
          else
            let info1 = exit_mark sess info; code = si_ExitCode info1;
                what = ''agent '' @ quote (si_Name info1) @ '' exited (code '' @ int_text code @ '')'';
                rt1 = RecordEvent (new_event freshID now ''exit'' ''runtime'' what)
                        (rt\<lparr>rt_info := AList.update i info1 (rt_info rt)\<rparr>)
            in (Ret (), if code \<noteq> 0
                  then rt1\<lparr>rt_inbox := HumanInbox freshID now ''runtime'' (''[failure] '' @ what) (rt_inbox rt1)\<rparr>
                  else rt1\<lparr>rt_exiting := i # rt_exiting rt1\<rparr>))"

definition markExited_drop :: "string \<Rightarrow> runtime \<Rightarrow> unit rt_res \<times> runtime" where
  "markExited_drop i rt =
     (if rt_wedged rt then (Blocked, rt)
      else
        let rt1 = rt\<lparr>rt_exiting := remove1 i (rt_exiting rt)\<rparr> in
        case map_of (rt_info rt1) i of
          None \<Rightarrow> (Ret (), rt1)
        | Some cur \<Rightarrow>
            if si_Exited cur
            then (Ret (), rt1\<lparr>rt_info := AList.delete i (rt_info rt1),
                            rt_byName := AList.delete (si_Name cur) (rt_byName rt1)\<rparr>)
            else (Ret (), rt1))"

definition rt_Stop :: "string \<Rightarrow> time \<Rightarrow> runtime \<Rightarrow> go_error option rt_res \<times> runtime" where
  "rt_Stop nm now rt =
     (if rt_wedged rt then (Blocked, rt)
      else case map_of (rt_byName rt) nm of
        None \<Rightarrow> (Ret (Some (''runtime.Stop: unknown session '' @ quote nm)), rt)
      | Some i \<Rightarrow>
          let (leaveTeam, leaveRole) =
                (case map_of (rt_info rt) i of None \<Rightarrow> ([], []) | Some info \<Rightarrow> (si_Team info, si_Role info))
          in (Ret None,
              emitTeamEvent \<lparr>tv_Kind = ''leave'', tv_Agent = nm, tv_Team = leaveTeam,
                             tv_OldRole = leaveRole, tv_NewRole = [], tv_At = now\<rparr>
                (rt\<lparr>rt_byName := AList.delete nm (rt_byName rt), rt_info := AList.delete i (rt_info rt)\<rparr>)))"

section \<open>Operations on one session\<close>

text \<open>
  The shape the operations on a named session share: an unknown name is an error; a name whose spawn is
  in progress has no \<open>SessionInfo\<close>, so the operation panics, and \<open>deferred\<close> says whether the mutex is
  then released.
\<close>

definition agent_op ::
    "bool \<Rightarrow> string \<Rightarrow> string \<Rightarrow> (session_info \<Rightarrow> session_info) \<Rightarrow> runtime \<Rightarrow> go_error option rt_res \<times> runtime" where
  "agent_op deferred what nm f rt =
     (if rt_wedged rt then (Blocked, rt)
      else case map_of (rt_byName rt) nm of
        None \<Rightarrow> (Ret (Some (''runtime.'' @ what @ '': unknown session '' @ quote nm)), rt)
      | Some i \<Rightarrow>
          (case map_of (rt_info rt) i of
             None \<Rightarrow> (Panic, if deferred then rt else rt\<lparr>rt_wedged := True\<rparr>)
           | Some info \<Rightarrow> (Ret None, rt\<lparr>rt_info := AList.update i (f info) (rt_info rt)\<rparr>)))"

text \<open>An event recorded after the operation, when it succeeded.\<close>

definition then_record :: "event \<Rightarrow> go_error option rt_res \<times> runtime \<Rightarrow> go_error option rt_res \<times> runtime" where
  "then_record e r = (if fst r = Ret None then (fst r, RecordEvent e (snd r)) else r)"

definition Assign :: "string \<Rightarrow> string \<Rightarrow> string \<Rightarrow> runtime \<Rightarrow> go_error option rt_res \<times> runtime" where
  "Assign nm tm role = agent_op True ''Assign'' nm
     (\<lambda>info. let info1 = info\<lparr>si_Team := tm, si_Role := role\<rparr> in
       if role = RoleShepherd \<and> tm \<notin> set (si_Shepherding info1)
       then info1\<lparr>si_Shepherding := si_Shepherding info1 @ [tm]\<rparr> else info1)"

definition SetScorecard ::
    "string \<Rightarrow> time \<Rightarrow> string \<Rightarrow> string \<Rightarrow> scorecard \<Rightarrow> runtime \<Rightarrow> go_error option rt_res \<times> runtime" where
  "SetScorecard freshID now caller nm sc rt =
     (let sc1 = sc\<lparr>sc_At := now\<rparr> in
      then_record (new_event freshID now ''scorecard'' (if caller = [] then ''shepherd'' else caller)
          (''scorecard for '' @ quote nm @ '': G='' @ fmt_1f (sc_Goal sc) @ '' V='' @ fmt_1f (sc_Velocity sc)
           @ '' F='' @ fmt_1f (sc_Focus sc) @ '' E='' @ fmt_1f (sc_EndState sc)
           @ '' D='' @ fmt_1f (sc_Discipline sc)))
        (agent_op False ''SetScorecard'' nm
           (\<lambda>info. info\<lparr>si_Scorecard := Some sc1, si_TrustBand := BandFromScorecard (Some sc1)\<rparr>) rt))"

definition RecordVerdict ::
    "string \<Rightarrow> time \<Rightarrow> string \<Rightarrow> string \<Rightarrow> string \<Rightarrow> string \<Rightarrow> runtime \<Rightarrow> go_error option rt_res \<times> runtime" where
  "RecordVerdict freshID now caller nm verdict msg rt =
     then_record (new_event freshID now ''verdict'' (if caller = [] then ''shepherd'' else caller)
         (''verdict for '' @ quote nm @ '': '' @ verdict @ em_dash @ msg))
       (agent_op False ''RecordVerdict'' nm
          (\<lambda>info. info\<lparr>si_LastVerdict := verdict, si_LastVerdictAt := now, si_LastVerdictMsg := msg,
             si_InterventionCount := si_InterventionCount info +
               (if verdict = ''coach'' \<or> verdict = ''intervene'' then 1 else 0)\<rparr>) rt)"

definition UpdateStatSheet :: "string \<Rightarrow> stat_sheet \<Rightarrow> runtime \<Rightarrow> go_error option rt_res \<times> runtime" where
  "UpdateStatSheet nm patch = agent_op True ''UpdateStatSheet'' nm
     (\<lambda>info. let cur = si_StatSheet info in info\<lparr>si_StatSheet :=
        \<lparr>ss_ContextBudget =
           (if ss_ContextBudget patch \<noteq> 0 then ss_ContextBudget patch else ss_ContextBudget cur),
         ss_ModelTier = (if ss_ModelTier patch \<noteq> [] then ss_ModelTier patch else ss_ModelTier cur),
         ss_DisciplineWeight =
           (if ss_DisciplineWeight patch \<noteq> 0 then ss_DisciplineWeight patch else ss_DisciplineWeight cur),
         ss_VelocityExpect =
           (if ss_VelocityExpect patch \<noteq> [] then ss_VelocityExpect patch else ss_VelocityExpect cur),
         ss_TokenBudgetUSD =
           (if ss_TokenBudgetUSD patch \<noteq> 0 then ss_TokenBudgetUSD patch else ss_TokenBudgetUSD cur),
         ss_ToolAllowlist =
           (if ss_ToolAllowlist patch \<noteq> None then ss_ToolAllowlist patch else ss_ToolAllowlist cur)\<rparr>\<rparr>)"

text \<open>\<open>live\<close> says whether the session still has a PTY; without one the new prompt is stored all the same.\<close>

definition PokePrompt ::
    "string \<Rightarrow> time \<Rightarrow> bool \<Rightarrow> string \<Rightarrow> string \<Rightarrow> runtime \<Rightarrow> go_error option rt_res \<times> runtime" where
  "PokePrompt freshID now live nm body rt =
     (case agent_op False ''PokePrompt'' nm (\<lambda>info. info\<lparr>si_SystemPrompt := body\<rparr>) rt of
        (Ret None, rt1) \<Rightarrow>
          if \<not> live
          then (Ret (Some (''runtime.PokePrompt: session '' @ quote nm @ '' has no live PTY'')), rt1)
          else (Ret None, RecordEvent (new_event freshID now ''prompt_poke'' ''operator''
                  (''operator updated prompt for '' @ quote nm @ '' ('' @ partIndex (length body) @ '' chars)'')) rt1)
      | r \<Rightarrow> r)"

definition Pause :: "string \<Rightarrow> bool \<Rightarrow> runtime \<Rightarrow> go_error option rt_res \<times> runtime" where
  "Pause nm paused = agent_op True ''Pause'' nm (\<lambda>info. info\<lparr>si_Paused := paused\<rparr>)"

definition SetIcon :: "string \<Rightarrow> string \<Rightarrow> runtime \<Rightarrow> go_error option rt_res \<times> runtime" where
  "SetIcon nm icon = agent_op True ''SetIcon'' nm (\<lambda>info. info\<lparr>si_Icon := icon\<rparr>)"

definition rt_Get :: "string \<Rightarrow> runtime \<Rightarrow> session_info option rt_res" where
  "rt_Get nm rt =
     (if rt_wedged rt then Blocked
      else case map_of (rt_byName rt) nm of None \<Rightarrow> Ret None | Some i \<Rightarrow> Ret (map_of (rt_info rt) i))"

definition GetByContextID :: "string \<Rightarrow> runtime \<Rightarrow> session_info option rt_res" where
  "GetByContextID c rt =
     (if rt_wedged rt then Blocked
      else case map_of (rt_info rt) c of Some info \<Rightarrow> Ret (Some info)
        | None \<Rightarrow> (case map_of (rt_byName rt) c of None \<Rightarrow> Ret None | Some i \<Rightarrow> Ret (map_of (rt_info rt) i)))"

definition TeamWorstBand :: "string list \<Rightarrow> runtime \<Rightarrow> string" where
  "TeamWorstBand teams rt =
     foldl (\<lambda>worst (_, info).
        if si_Role info = RoleShepherd \<or> si_Exited info then worst
        else if teams \<noteq> [] \<and> si_Team info \<notin> set teams then worst
        else let band = (if si_TrustBand info = [] then TrustBandStandard else si_TrustBand info) in
          if urgency band > urgency worst then band else worst)
       TrustBandTrusted (rt_info rt)"

section \<open>Teams and memberships\<close>

text \<open>
  A range over a Go map whose body renames keys: each selected entry is rewritten and moved. Keys the
  loop adds are not visited, and an entry a previous round removed is not.
\<close>

definition rekey :: "('v \<Rightarrow> bool) \<Rightarrow> ('v \<Rightarrow> 'v) \<Rightarrow> ('v \<Rightarrow> 'k) \<Rightarrow> ('k \<times> 'v) list \<Rightarrow> ('k \<times> 'v) list" where
  "rekey sel upd newkey xs =
     foldl (\<lambda>acc k. case map_of acc k of
        None \<Rightarrow> acc
      | Some v \<Rightarrow> if sel v then AList.update (newkey v) (upd v) (AList.delete k acc) else acc)
       xs (map fst xs)"

definition member_key :: "string \<Rightarrow> string \<Rightarrow> string" where
  "member_key agent tm = agent @ ''|'' @ tm"

definition Rename :: "string \<Rightarrow> time \<Rightarrow> string \<Rightarrow> string \<Rightarrow> runtime \<Rightarrow> go_error option rt_res \<times> runtime" where
  "Rename freshID now old new rt =
     (if old = [] \<or> new = [] then (Ret (Some ''runtime.Rename: oldName and newName required''), rt)
      else if old = new then (Ret None, rt)
      else if rt_wedged rt then (Blocked, rt)
      else case map_of (rt_byName rt) old of
        None \<Rightarrow> (Ret (Some (''runtime.Rename: unknown session '' @ quote old)), rt)
      | Some i \<Rightarrow>
          if map_of (rt_byName rt) new \<noteq> None
          then (Ret (Some (''runtime.Rename: name '' @ quote new @ '' already in use'')), rt)
          else case map_of (rt_info rt) i of
            None \<Rightarrow> (Panic, rt)
          | Some info \<Rightarrow>
              (Ret None,
               RecordEvent (new_event freshID now ''agent_renamed'' ''operator''
                   (''agent '' @ quote old @ '' renamed'' @ arrow @ quote new))
                 (rt\<lparr>rt_info := AList.update i (info\<lparr>si_Name := new\<rparr>) (rt_info rt),
                    rt_byName := AList.update new i (AList.delete old (rt_byName rt)),
                    rt_members := rekey (\<lambda>m. ms_AgentName m = old) (\<lambda>m. m\<lparr>ms_AgentName := new\<rparr>)
                      (\<lambda>m. member_key new (ms_TeamName m)) (rt_members rt)\<rparr>)))"

definition new_team :: "runtime \<Rightarrow> time \<Rightarrow> string \<Rightarrow> string \<Rightarrow> string \<Rightarrow> team" where
  "new_team rt now nm canon topology =
     \<lparr>te_Name = nm, te_CanonPath = (if canon = [] then canon_path rt nm else canon),
      te_Topology = (if topology = [] then ''hub'' else topology), te_CreatedAt = now\<rparr>"

definition CreateTeam ::
    "time \<Rightarrow> string \<Rightarrow> string \<Rightarrow> string \<Rightarrow> runtime \<Rightarrow> (team \<times> bool) rt_res \<times> runtime" where
  "CreateTeam now nm canon topology rt =
     (if rt_wedged rt then (Blocked, rt)
      else case map_of (rt_teams rt) nm of
        Some existing \<Rightarrow> (Ret (existing, False), rt)
      | None \<Rightarrow> let t = new_team rt now nm canon topology in
          (Ret (t, True), rt\<lparr>rt_teams := AList.update nm t (rt_teams rt)\<rparr>))"

definition JoinTeam ::
    "time \<Rightarrow> string \<Rightarrow> string \<Rightarrow> string \<Rightarrow> string \<Rightarrow> runtime \<Rightarrow> (go_error + membership) rt_res \<times> runtime" where
  "JoinTeam now agent tm role brief rt =
     (if rt_wedged rt then (Blocked, rt)
      else if map_of (rt_byName rt) agent = None
      then (Ret (Inl (''runtime.JoinTeam: unknown agent '' @ quote agent)), rt)
      else
        let rt1 = (if map_of (rt_teams rt) tm = None
               then rt\<lparr>rt_teams := AList.update tm (new_team rt now tm [] []) (rt_teams rt)\<rparr> else rt);
            k = member_key agent tm; existing = map_of (rt_members rt1) k;
            m = \<lparr>ms_AgentName = agent, ms_TeamName = tm, ms_Role = role, ms_BriefOverride = brief,
                 ms_JoinedAt = now\<rparr>;
            joined = (\<lambda>kind oldRole.
              (Ret (Inr m), emitTeamEvent \<lparr>tv_Kind = kind, tv_Agent = agent, tv_Team = tm,
                   tv_OldRole = oldRole, tv_NewRole = role, tv_At = now\<rparr>
                 (rt1\<lparr>rt_members := AList.update k m (rt_members rt1)\<rparr>)))
        in case existing of
             Some ex \<Rightarrow> if ms_Role ex = role then (Ret (Inr ex), rt1)
               else joined ''role-change'' (ms_Role ex)
           | None \<Rightarrow> joined ''join'' [])"

definition DeleteTeam :: "string \<Rightarrow> runtime \<Rightarrow> go_error option rt_res \<times> runtime" where
  "DeleteTeam nm rt =
     (if nm = ''default'' then (Ret (Some ''runtime.DeleteTeam: refusing to delete the default team''), rt)
      else if rt_wedged rt then (Blocked, rt)
      else if map_of (rt_teams rt) nm = None
      then (Ret (Some (''runtime.DeleteTeam: unknown team '' @ quote nm)), rt)
      else case find (\<lambda>(_, info). si_Team info = nm \<and> \<not> si_Exited info) (rt_info rt) of
        Some (_, info) \<Rightarrow>
          (Ret (Some (''runtime.DeleteTeam: agent '' @ quote (si_Name info) @ '' still rooted in team '' @
             quote nm @ em_dash @ ''move or stop the agent first'')), rt)
      | None \<Rightarrow>
          (Ret None, rt\<lparr>rt_members := filter (\<lambda>(_, m). ms_TeamName m \<noteq> nm) (rt_members rt),
                        rt_teams := AList.delete nm (rt_teams rt)\<rparr>))"

definition retag_info :: "string \<Rightarrow> string \<Rightarrow> session_info \<Rightarrow> session_info" where
  "retag_info old new info =
     info\<lparr>si_Team := (if si_Team info = old then new else si_Team info),
          si_Shepherding := map (\<lambda>t. if t = old then new else t) (si_Shepherding info)\<rparr>"

definition UpdateTeam :: "string \<Rightarrow> string \<Rightarrow> string \<Rightarrow> runtime \<Rightarrow> go_error option rt_res \<times> runtime" where
  "UpdateTeam nm new topology rt =
     (if rt_wedged rt then (Blocked, rt)
      else case map_of (rt_teams rt) nm of
        None \<Rightarrow> (Ret (Some (''runtime.UpdateTeam: unknown team '' @ quote nm)), rt)
      | Some t0 \<Rightarrow>
          let t = (if topology \<noteq> [] then t0\<lparr>te_Topology := topology\<rparr> else t0);
              rt1 = rt\<lparr>rt_teams := AList.update nm t (rt_teams rt)\<rparr>
          in if new \<noteq> [] \<and> new \<noteq> nm then
               (if map_of (rt_teams rt1) new \<noteq> None
                then (Ret (Some (''runtime.UpdateTeam: name '' @ quote new @ '' already in use'')), rt1)
                else (Ret None, rt1\<lparr>
                  rt_teams := AList.update new (t\<lparr>te_Name := new\<rparr>) (AList.delete nm (rt_teams rt1)),
                  rt_members := rekey (\<lambda>m. ms_TeamName m = nm) (\<lambda>m. m\<lparr>ms_TeamName := new\<rparr>)
                    (\<lambda>m. member_key (ms_AgentName m) new) (rt_members rt1),
                  rt_info := map (\<lambda>(i, info). (i, retag_info nm new info)) (rt_info rt1)\<rparr>))
             else (Ret None, rt1))"

definition LeaveTeam :: "time \<Rightarrow> string \<Rightarrow> string \<Rightarrow> runtime \<Rightarrow> bool rt_res \<times> runtime" where
  "LeaveTeam now agent tm rt =
     (if rt_wedged rt then (Blocked, rt)
      else case map_of (rt_members rt) (member_key agent tm) of
        None \<Rightarrow> (Ret False, rt)
      | Some ex \<Rightarrow>
          (Ret True, emitTeamEvent \<lparr>tv_Kind = ''leave'', tv_Agent = agent, tv_Team = tm,
               tv_OldRole = ms_Role ex, tv_NewRole = [], tv_At = now\<rparr>
             (rt\<lparr>rt_members := AList.delete (member_key agent tm) (rt_members rt)\<rparr>)))"

definition ListTeams :: "runtime \<Rightarrow> team list" where
  "ListTeams rt = map snd (rt_teams rt)"

definition ListMemberships :: "string \<Rightarrow> string \<Rightarrow> runtime \<Rightarrow> membership list" where
  "ListMemberships agent tm rt =
     filter (\<lambda>m. (agent \<noteq> [] \<longrightarrow> ms_AgentName m = agent) \<and> (tm \<noteq> [] \<longrightarrow> ms_TeamName m = tm))
       (map snd (rt_members rt))"

definition SetReviewAxis ::
    "time \<Rightarrow> string \<Rightarrow> string \<Rightarrow> string \<Rightarrow> rat \<Rightarrow> string \<Rightarrow> runtime \<Rightarrow> go_error option rt_res \<times> runtime" where
  "SetReviewAxis now reviewer target axis score note rt =
     (if rt_wedged rt then (Blocked, rt)
      else if map_of (rt_byName rt) target = None
      then (Ret (Some (''runtime.SetReviewAxis: unknown target agent '' @ quote target)), rt)
      else
        let axes = (case map_of (rt_reviews rt) target of None \<Rightarrow> [] | Some xs \<Rightarrow> xs);
            rev' = \<lparr>ar_Reviewer = reviewer, ar_Axis = axis, ar_Score = score, ar_Note = note, ar_At = now\<rparr>
        in (Ret None, rt\<lparr>rt_reviews := AList.update target (AList.update axis rev' axes) (rt_reviews rt)\<rparr>))"

definition ListReviews :: "string \<Rightarrow> runtime \<Rightarrow> axis_review list" where
  "ListReviews target rt = (case map_of (rt_reviews rt) target of None \<Rightarrow> [] | Some xs \<Rightarrow> map snd xs)"

text \<open>The first grant for the pair is updated; a new pair is appended.\<close>

fun grant_channel :: "string \<Rightarrow> string \<Rightarrow> string \<Rightarrow> (string \<times> string \<times> string) list
    \<Rightarrow> (string \<times> string \<times> string) list" where
  "grant_channel f t sc [] = [(f, t, sc)]"
| "grant_channel f t sc (g # gs) =
     (if fst g = f \<and> fst (snd g) = t then (f, t, sc) # gs else g # grant_channel f t sc gs)"

definition GrantChannel :: "string \<Rightarrow> string \<Rightarrow> string \<Rightarrow> runtime \<Rightarrow> unit rt_res \<times> runtime" where
  "GrantChannel f t sc rt =
     (if rt_wedged rt then (Blocked, rt)
      else (Ret (), rt\<lparr>rt_grants := grant_channel f t sc (rt_grants rt)\<rparr>))"

end
