(* ===== verification/Team_Directory.thy ===== *)
theory Team_Directory
  imports Team_Registry
begin

text \<open>
  Runs of the runtime's operations, with what they answered, and the invariant of its directory: names
  and registered sessions correspond, memberships are keyed by agent and team, and the teams they name
  exist. The memberships are what the history of successful operations says.
\<close>

section \<open>Runs\<close>

datatype rt_call =
    CReserve string string
  | CAbort string
  | CRegister string session_info
  | CAnnounce string time session_info
  | CFlip string string time "(int \<times> string) option"
  | CDrop string
  | CStop string time
  | CAssign string string string
  | CScore string time string string scorecard
  | CVerdict string time string string string string
  | CStat string stat_sheet
  | CPoke string time bool string string
  | CPause string bool
  | CIcon string string
  | CRename string time string string
  | CCreate time string string string
  | CJoin time string string string string
  | CDelete string
  | CUpdate string string string
  | CLeave time string string
  | CReview time string string string rat string
  | CGrant string string string
  | CClose
  | CTake

datatype rt_out =
    OUnit "unit rt_res"
  | OErr "go_error option rt_res"
  | OTeam "(team \<times> bool) rt_res"
  | OJoin "(go_error + membership) rt_res"
  | OBool "bool rt_res"

fun exec :: "rt_call \<Rightarrow> runtime \<Rightarrow> rt_out \<times> runtime" where
  "exec (CReserve nm slug) rt = map_prod OErr id (spawn_reserve nm slug rt)"
| "exec (CAbort nm) rt = map_prod OUnit id (spawn_abort nm rt)"
| "exec (CRegister i info) rt = map_prod OUnit id (spawn_register i info rt)"
| "exec (CAnnounce fid now info) rt = map_prod OUnit id (spawn_announce fid now info rt)"
| "exec (CFlip i fid now sess) rt = map_prod OUnit id (markExited_flip i fid now sess rt)"
| "exec (CDrop i) rt = map_prod OUnit id (markExited_drop i rt)"
| "exec (CStop nm now) rt = map_prod OErr id (rt_Stop nm now rt)"
| "exec (CAssign nm tm role) rt = map_prod OErr id (Assign nm tm role rt)"
| "exec (CScore fid now caller nm sc) rt = map_prod OErr id (SetScorecard fid now caller nm sc rt)"
| "exec (CVerdict fid now caller nm v msg) rt = map_prod OErr id (RecordVerdict fid now caller nm v msg rt)"
| "exec (CStat nm patch) rt = map_prod OErr id (UpdateStatSheet nm patch rt)"
| "exec (CPoke fid now live nm body) rt = map_prod OErr id (PokePrompt fid now live nm body rt)"
| "exec (CPause nm b) rt = map_prod OErr id (Pause nm b rt)"
| "exec (CIcon nm icon) rt = map_prod OErr id (SetIcon nm icon rt)"
| "exec (CRename fid now old new) rt = map_prod OErr id (Rename fid now old new rt)"
| "exec (CCreate now nm canon topo) rt = map_prod OTeam id (CreateTeam now nm canon topo rt)"
| "exec (CJoin now a tm role brief) rt = map_prod OJoin id (JoinTeam now a tm role brief rt)"
| "exec (CDelete nm) rt = map_prod OErr id (DeleteTeam nm rt)"
| "exec (CUpdate nm new topo) rt = map_prod OErr id (UpdateTeam nm new topo rt)"
| "exec (CLeave now a tm) rt = map_prod OBool id (LeaveTeam now a tm rt)"
| "exec (CReview now by' target axis score note) rt =
     map_prod OErr id (SetReviewAxis now by' target axis score note rt)"
| "exec (CGrant f t sc) rt = map_prod OUnit id (GrantChannel f t sc rt)"
| "exec CClose rt = (OUnit (Ret ()), close_events rt)"
| "exec CTake rt = (OUnit (Ret ()), take_event rt)"

definition newRuntime :: "string \<Rightarrow> runtime" where
  "newRuntime dir = \<lparr>rt_stateDir = dir, rt_byName = [], rt_info = [], rt_teams = [], rt_members = [],
     rt_reviews = [], rt_grants = [], rt_inbox = [], rt_events = newEventBuffer 1000, rt_teamEvents = [],
     rt_eventsClosed = False, rt_wedged = False, rt_spawning = [], rt_exiting = []\<rparr>"

fun rt_trace :: "rt_call list \<Rightarrow> runtime \<Rightarrow> (rt_call \<times> rt_out) list" where
  "rt_trace [] rt = []"
| "rt_trace (c # cs) rt = (c, fst (exec c rt)) # rt_trace cs (snd (exec c rt))"

fun rt_run :: "rt_call list \<Rightarrow> runtime \<Rightarrow> runtime" where
  "rt_run [] rt = rt"
| "rt_run (c # cs) rt = rt_run cs (snd (exec c rt))"

text \<open>
  The runs considered: an agent name has no vertical bar, a session id is fresh, the second halves of
  \<open>Spawn\<close> follow the first, and \<open>Stop\<close> is not called on a name whose spawn is in progress.
\<close>

definition bar_free :: "string \<Rightarrow> bool" where
  "bar_free s \<longleftrightarrow> CHR ''|'' \<notin> set s"

fun call_ok :: "runtime \<Rightarrow> rt_call \<Rightarrow> bool" where
  "call_ok rt (CReserve nm slug) \<longleftrightarrow> bar_free nm"
| "call_ok rt (CRename fid now old new) \<longleftrightarrow> bar_free new"
| "call_ok rt (CAbort nm) \<longleftrightarrow> nm \<in> set (rt_spawning rt)"
| "call_ok rt (CRegister i info) \<longleftrightarrow>
     si_Name info \<in> set (rt_spawning rt) \<and> map_of (rt_info rt) i = None \<and> i \<noteq> sentinel"
| "call_ok rt (CStop nm now) \<longleftrightarrow> nm \<notin> set (rt_spawning rt)"
| "call_ok rt (CLeave now a tm) \<longleftrightarrow> bar_free a"
| "call_ok rt _ \<longleftrightarrow> True"

fun rt_valid :: "rt_call list \<Rightarrow> runtime \<Rightarrow> bool" where
  "rt_valid [] rt \<longleftrightarrow> True"
| "rt_valid (c # cs) rt \<longleftrightarrow> call_ok rt c \<and> rt_valid cs (snd (exec c rt))"

section \<open>What the history says\<close>

type_synonym roles = "string \<times> string \<Rightarrow> membership option"

fun succeeded :: "rt_out \<Rightarrow> bool" where
  "succeeded (OUnit r) \<longleftrightarrow> r = Ret ()"
| "succeeded (OErr r) \<longleftrightarrow> r = Ret None"
| "succeeded (OTeam r) \<longleftrightarrow> r \<noteq> Blocked \<and> r \<noteq> Panic"
| "succeeded (OJoin r) \<longleftrightarrow> (case r of Ret (Inr _) \<Rightarrow> True | _ \<Rightarrow> False)"
| "succeeded (OBool r) \<longleftrightarrow> r = Ret True"

definition join_role :: "string \<Rightarrow> string \<Rightarrow> string \<Rightarrow> string \<Rightarrow> time \<Rightarrow> membership option \<Rightarrow> membership" where
  "join_role a tm role brief now old =
     (case old of
        Some ex \<Rightarrow> if ms_Role ex = role then ex else
          \<lparr>ms_AgentName = a, ms_TeamName = tm, ms_Role = role, ms_BriefOverride = brief, ms_JoinedAt = now\<rparr>
      | None \<Rightarrow>
          \<lparr>ms_AgentName = a, ms_TeamName = tm, ms_Role = role, ms_BriefOverride = brief, ms_JoinedAt = now\<rparr>)"

fun roles_apply :: "rt_call \<Rightarrow> roles \<Rightarrow> roles" where
  "roles_apply (CJoin now a tm role brief) f = f((a, tm) \<mapsto> join_role a tm role brief now (f (a, tm)))"
| "roles_apply (CLeave now a tm) f = f((a, tm) := None)"
| "roles_apply (CDelete nm) f = (\<lambda>(a, t). if t = nm then None else f (a, t))"
| "roles_apply (CUpdate nm new topo) f =
     (if new \<noteq> [] \<and> new \<noteq> nm
      then (\<lambda>(a, t). if t = new then map_option (\<lambda>m. m\<lparr>ms_TeamName := new\<rparr>) (f (a, nm))
              else if t = nm then None else f (a, t))
      else f)"
| "roles_apply (CRename fid now old new) f =
     (if old \<noteq> new
      then (\<lambda>(a, t). if a = new then
                (case f (old, t) of Some m \<Rightarrow> Some (m\<lparr>ms_AgentName := new\<rparr>) | None \<Rightarrow> f (new, t))
              else if a = old then None else f (a, t))
      else f)"
| "roles_apply _ f = f"

fun teams_apply :: "rt_call \<Rightarrow> string set \<Rightarrow> string set" where
  "teams_apply (CJoin now a tm role brief) T = insert tm T"
| "teams_apply (CCreate now nm canon topo) T = insert nm T"
| "teams_apply (CDelete nm) T = T - {nm}"
| "teams_apply (CUpdate nm new topo) T =
     (if new \<noteq> [] \<and> new \<noteq> nm then insert new (T - {nm}) else T)"
| "teams_apply _ T = T"

definition roles_step :: "roles \<Rightarrow> rt_call \<times> rt_out \<Rightarrow> roles" where
  "roles_step f x = (if succeeded (snd x) then roles_apply (fst x) f else f)"

definition teams_step :: "string set \<Rightarrow> rt_call \<times> rt_out \<Rightarrow> string set" where
  "teams_step T x = (if succeeded (snd x) then teams_apply (fst x) T else T)"

definition roles_after :: "(rt_call \<times> rt_out) list \<Rightarrow> roles" where
  "roles_after h = foldl roles_step (\<lambda>_. None) h"

definition teams_after :: "(rt_call \<times> rt_out) list \<Rightarrow> string set" where
  "teams_after h = foldl teams_step {} h"

section \<open>Moving keys\<close>

definition chosen :: "('v \<Rightarrow> bool) \<Rightarrow> ('k \<Rightarrow> 'v option) \<Rightarrow> 'k \<Rightarrow> bool" where
  "chosen sel f k \<longleftrightarrow> (\<exists>v. f k = Some v \<and> sel v)"

definition moved ::
    "('v \<Rightarrow> bool) \<Rightarrow> ('v \<Rightarrow> 'v) \<Rightarrow> ('v \<Rightarrow> 'k) \<Rightarrow> ('k \<Rightarrow> 'v option) \<Rightarrow> 'k set \<Rightarrow> ('k \<Rightarrow> 'v option) \<Rightarrow> bool" where
  "moved sel upd nk f P g \<longleftrightarrow>
     (\<forall>k v. k \<in> P \<and> f k = Some v \<and> sel v \<longrightarrow> g (nk v) = Some (upd v)) \<and>
     (\<forall>q. (\<forall>k v. k \<in> P \<and> f k = Some v \<and> sel v \<longrightarrow> nk v \<noteq> q) \<longrightarrow>
        g q = (if q \<in> P \<and> chosen sel f q then None else f q))"

lemma movedD1: "moved sel upd nk f P g \<Longrightarrow> k \<in> P \<Longrightarrow> f k = Some v \<Longrightarrow> sel v \<Longrightarrow> g (nk v) = Some (upd v)"
  unfolding moved_def by blast

lemma movedD2:
  "moved sel upd nk f P g \<Longrightarrow> (\<And>k v. k \<in> P \<Longrightarrow> f k = Some v \<Longrightarrow> sel v \<Longrightarrow> nk v \<noteq> q) \<Longrightarrow>
     g q = (if q \<in> P \<and> chosen sel f q then None else f q)"
  unfolding moved_def by blast

lemma moved_cong:
  assumes "\<And>k. chosen sel f k \<Longrightarrow> k \<in> P \<longleftrightarrow> k \<in> Q"
  shows "moved sel upd nk f P g = moved sel upd nk f Q g"
proof -
  have "(k \<in> P \<and> f k = Some v \<and> sel v) = (k \<in> Q \<and> f k = Some v \<and> sel v)" for k v
    using assms by (auto simp: chosen_def)
  moreover have "(q \<in> P \<and> chosen sel f q) = (q \<in> Q \<and> chosen sel f q)" for q
    using assms by auto
  ultimately show ?thesis unfolding moved_def by simp
qed

lemma moved_step:
  assumes m: "moved sel upd nk f P g" and k: "k \<notin> P"
    and off: "\<And>k v. f k = Some v \<Longrightarrow> sel v \<Longrightarrow> \<not> chosen sel f (nk v)"
    and inj: "\<And>k v k' v'. f k = Some v \<Longrightarrow> sel v \<Longrightarrow> f k' = Some v' \<Longrightarrow> sel v' \<Longrightarrow> nk v = nk v' \<Longrightarrow> k = k'"
    and done': "\<And>v. sel v \<Longrightarrow> \<not> sel (upd v)"
  shows "moved sel upd nk f (insert k P)
    (case g k of None \<Rightarrow> g | Some v \<Rightarrow> if sel v then (g(k := None))(nk v \<mapsto> upd v) else g)"
proof (cases "chosen sel f k")
  case True
  then obtain v where v: "f k = Some v" "sel v" by (auto simp: chosen_def)
  have "g k = Some v"
    using movedD2 [OF m, of k] off True k v by force
  have ne: "nk v \<noteq> k" using off [OF v] True by auto
  have 1: "((g(k := None))(nk v \<mapsto> upd v)) (nk v') = Some (upd v')"
    if "k' = k \<or> k' \<in> P" "f k' = Some v'" "sel v'" for k' v'
  proof (cases "k' = k")
    case True
    then show ?thesis using that v by simp
  next
    case False
    then have "nk v' \<noteq> nk v" using inj [OF that(2,3) v] by auto
    moreover have "nk v' \<noteq> k" using off [OF that(2,3)] True by auto
    ultimately show ?thesis using movedD1 [OF m _ that(2,3)] that(1) False by simp
  qed
  have 2: "((g(k := None))(nk v \<mapsto> upd v)) q = (if q \<in> insert k P \<and> chosen sel f q then None else f q)"
    if "\<And>k' v'. k' \<in> insert k P \<Longrightarrow> f k' = Some v' \<Longrightarrow> sel v' \<Longrightarrow> nk v' \<noteq> q" for q
  proof -
    have "nk v \<noteq> q" using that [of k v] v by simp
    moreover have "g q = (if q \<in> P \<and> chosen sel f q then None else f q)"
      by (rule movedD2 [OF m]) (use that in auto)
    ultimately show ?thesis using True by auto
  qed
  show ?thesis
    unfolding \<open>g k = Some v\<close> option.case using v(2) 1 2 by (simp only: if_True moved_def) blast
next
  case False
  have "\<not> sel v" if "g k = Some v" for v
  proof (cases "\<exists>k' v'. k' \<in> P \<and> f k' = Some v' \<and> sel v' \<and> nk v' = k")
    case True
    then obtain k' v' where "k' \<in> P" "f k' = Some v'" "sel v'" "nk v' = k" by blast
    then show ?thesis using movedD1 [OF m, of k' v'] that done' [of v'] by simp
  next
    case no: False
    have "g k = (if k \<in> P \<and> chosen sel f k then None else f k)"
      by (rule movedD2 [OF m]) (use no in blast)
    then show ?thesis using that k False by (auto simp: chosen_def)
  qed
  then have eq: "(case g k of None \<Rightarrow> g | Some v \<Rightarrow> if sel v then (g(k := None))(nk v \<mapsto> upd v) else g) = g"
    by (auto split: option.split)
  have "moved sel upd nk f (insert k P) g = moved sel upd nk f P g"
    by (rule moved_cong) (use False in auto)
  then show ?thesis unfolding eq using m by simp
qed

lemma rekey_fold:
  assumes "moved sel upd nk f P (map_of acc)" "distinct ks" "P \<inter> set ks = {}"
    and off: "\<And>k v. f k = Some v \<Longrightarrow> sel v \<Longrightarrow> \<not> chosen sel f (nk v)"
    and inj: "\<And>k v k' v'. f k = Some v \<Longrightarrow> sel v \<Longrightarrow> f k' = Some v' \<Longrightarrow> sel v' \<Longrightarrow> nk v = nk v' \<Longrightarrow> k = k'"
    and done': "\<And>v. sel v \<Longrightarrow> \<not> sel (upd v)"
  shows "moved sel upd nk f (P \<union> set ks)
    (map_of (foldl (\<lambda>acc k. case map_of acc k of None \<Rightarrow> acc
        | Some v \<Rightarrow> if sel v then AList.update (nk v) (upd v) (AList.delete k acc) else acc) acc ks))"
  using assms(1-3)
proof (induction ks arbitrary: P acc)
  case (Cons k ks)
  let ?acc = "case map_of acc k of None \<Rightarrow> acc
        | Some v \<Rightarrow> if sel v then AList.update (nk v) (upd v) (AList.delete k acc) else acc"
  have "map_of ?acc = (case map_of acc k of None \<Rightarrow> map_of acc
      | Some v \<Rightarrow> if sel v then ((map_of acc)(k := None))(nk v \<mapsto> upd v) else map_of acc)"
    by (auto split: option.split)
  then have "moved sel upd nk f (insert k P) (map_of ?acc)"
    using moved_step [OF Cons.prems(1) _ off inj done', of k] Cons.prems(3) by simp
  from Cons.IH [OF this] Cons.prems show ?case by simp
qed simp

lemma rekey_moved:
  assumes "distinct (map fst xs)"
    and "\<And>k v. map_of xs k = Some v \<Longrightarrow> sel v \<Longrightarrow> \<not> chosen sel (map_of xs) (nk v)"
    and "\<And>k v k' v'. map_of xs k = Some v \<Longrightarrow> sel v \<Longrightarrow> map_of xs k' = Some v' \<Longrightarrow> sel v' \<Longrightarrow> nk v = nk v' \<Longrightarrow> k = k'"
    and "\<And>v. sel v \<Longrightarrow> \<not> sel (upd v)"
  shows "moved sel upd nk (map_of xs) UNIV (map_of (rekey sel upd nk xs))"
proof -
  have 0: "moved sel upd nk (map_of xs) {} (map_of xs)" by (simp add: moved_def)
  have 1: "moved sel upd nk (map_of xs) (set (map fst xs)) (map_of (rekey sel upd nk xs))"
    unfolding rekey_def using rekey_fold [OF 0 assms(1) _ assms(2-4)] by simp
  have "chosen sel (map_of xs) k \<Longrightarrow> k \<in> set (map fst xs) \<longleftrightarrow> k \<in> UNIV" for k
    unfolding chosen_def by (auto dest!: map_of_SomeD intro!: image_eqI)
  from moved_cong [OF this] show ?thesis using 1 by blast
qed

lemma rekey_distinct: "distinct (map fst xs) \<Longrightarrow> distinct (map fst (rekey sel upd nk xs))"
proof -
  have "distinct (map fst acc) \<Longrightarrow> distinct (map fst (foldl (\<lambda>acc k. case map_of acc k of None \<Rightarrow> acc
      | Some v \<Rightarrow> if sel v then AList.update (nk v) (upd v) (AList.delete k acc) else acc) acc ks))" for acc ks
    by (induction ks arbitrary: acc)
      (simp_all add: distinct_update distinct_delete split: option.split)
  then show "distinct (map fst xs) \<Longrightarrow> ?thesis" unfolding rekey_def .
qed

section \<open>Names and sessions\<close>

definition names_inv ::
    "(string \<Rightarrow> string option) \<Rightarrow> (string \<Rightarrow> session_info option) \<Rightarrow> string list \<Rightarrow> bool" where
  "names_inv bn si sp \<longleftrightarrow>
     distinct sp \<and>
     (\<forall>nm i. bn nm = Some i \<longrightarrow> bar_free nm \<and>
        (if i = sentinel then nm \<in> set sp else \<exists>info. si i = Some info \<and> si_Name info = nm)) \<and>
     (\<forall>i info. si i = Some info \<longrightarrow> i \<noteq> sentinel \<and> bn (si_Name info) = Some i) \<and>
     (\<forall>nm. nm \<in> set sp \<longrightarrow> bn nm = Some sentinel)"

lemma names_invI:
  assumes "distinct sp"
    and "\<And>nm i. bn nm = Some i \<Longrightarrow> bar_free nm"
    and "\<And>nm. bn nm = Some sentinel \<Longrightarrow> nm \<in> set sp"
    and "\<And>nm i. bn nm = Some i \<Longrightarrow> i \<noteq> sentinel \<Longrightarrow> \<exists>info. si i = Some info \<and> si_Name info = nm"
    and "\<And>i info. si i = Some info \<Longrightarrow> i \<noteq> sentinel \<and> bn (si_Name info) = Some i"
    and "\<And>nm. nm \<in> set sp \<Longrightarrow> bn nm = Some sentinel"
  shows "names_inv bn si sp"
  using assms unfolding names_inv_def by auto

lemma names_invD:
  assumes "names_inv bn si sp"
  shows "distinct sp"
    and "bn nm = Some i \<Longrightarrow> bar_free nm"
    and "bn nm = Some sentinel \<Longrightarrow> nm \<in> set sp"
    and "bn nm = Some i \<Longrightarrow> i \<noteq> sentinel \<Longrightarrow> \<exists>info. si i = Some info \<and> si_Name info = nm"
    and "si i = Some info \<Longrightarrow> i \<noteq> sentinel \<and> bn (si_Name info) = Some i"
    and "nm \<in> set sp \<Longrightarrow> bn nm = Some sentinel"
  using assms unfolding names_inv_def by (blast, blast, metis, metis, blast, blast)

lemma names_reserve:
  assumes "names_inv bn si sp" "bn nm = None" "bar_free nm"
  shows "names_inv (bn(nm \<mapsto> sentinel)) si (nm # sp)"
proof (rule names_invI, goal_cases)
  case 1
  then show ?case using names_invD [OF assms(1)] assms(2) by force
next
  case (5 i info)
  then show ?case using names_invD(5) [OF assms(1) 5] assms(2) by auto
qed (use names_invD [OF assms(1)] assms(2,3) in \<open>auto split: if_splits\<close>)

lemma names_abort:
  assumes "names_inv bn si sp" "nm \<in> set sp"
  shows "names_inv (bn(nm := None)) si (remove1 nm sp)"
proof (rule names_invI, goal_cases)
  case (5 i info)
  then show ?case using names_invD(5) [OF assms(1) 5] names_invD(6) [OF assms] by auto
qed (use names_invD [OF assms(1)] in \<open>auto split: if_splits\<close>)

lemma names_register:
  assumes "names_inv bn si sp" "si_Name info \<in> set sp" "si i = None" "i \<noteq> sentinel"
  shows "names_inv (bn(si_Name info \<mapsto> i)) (si(i \<mapsto> info)) (remove1 (si_Name info) sp)"
proof (rule names_invI, goal_cases)
  case (4 nm j)
  show ?case
  proof (cases "nm = si_Name info")
    case False
    then have "bn nm = Some j" using 4 by simp
    then obtain old_si where "si j = Some old_si" "si_Name old_si = nm" using names_invD(4) [OF assms(1) _ 4(2)] by blast
    then show ?thesis using assms(3) by auto
  qed (use 4 in auto)
next
  case (5 j info')
  show ?case
  proof (cases "j = i")
    case False
    then have "si j = Some info'" using 5 by simp
    from names_invD(5) [OF assms(1) this] show ?thesis using names_invD(6) [OF assms(1,2)] by auto
  qed (use 5 assms(4) in auto)
qed (use names_invD [OF assms(1)] names_invD(2) [OF assms(1) names_invD(6) [OF assms(1,2)]] assms(4) in \<open>auto split: if_splits\<close>)

lemma names_update:
  assumes "names_inv bn si sp" "si i = Some info" "si_Name info' = si_Name info"
  shows "names_inv bn (si(i \<mapsto> info')) sp"
proof (rule names_invI, goal_cases)
  case (4 nm j)
  then show ?case using names_invD(4) [OF assms(1) 4] assms(2,3) by auto
next
  case (5 j info'')
  then show ?case using names_invD(5) [OF assms(1)] assms(2,3) by (auto split: if_splits)
qed (use names_invD [OF assms(1)] in auto)

lemma names_delete:
  assumes "names_inv bn si sp" "bn nm = Some i" "i \<noteq> sentinel"
  shows "names_inv (bn(nm := None)) (si(i := None)) sp"
proof -
  obtain info where info: "si i = Some info" "si_Name info = nm"
    using names_invD(4) [OF assms] by blast
  show ?thesis
  proof (rule names_invI, goal_cases)
    case (4 nm' j)
    then have b: "bn nm' = Some j" "nm' \<noteq> nm" by (auto split: if_splits)
    obtain old_si where j: "si j = Some old_si" "si_Name old_si = nm'" using names_invD(4) [OF assms(1) b(1) 4(2)] by blast
    then have "j \<noteq> i" using info b(2) by auto
    then show ?case using j by simp
  next
    case (5 j info')
    then have j: "si j = Some info'" "j \<noteq> i" by (auto split: if_splits)
    have "si_Name info' \<noteq> nm" using names_invD(5) [OF assms(1) j(1)] assms(2) j(2) by auto
    then show ?case using names_invD(5) [OF assms(1) j(1)] by simp
  next
    case (6 nm')
    then show ?case using names_invD(6) [OF assms(1) 6] assms(2,3) by auto
  qed (use names_invD [OF assms(1)] in \<open>auto split: if_splits\<close>)
qed

lemma names_rename:
  assumes "names_inv bn si sp" "bn old = Some i" "si i = Some info" "bn new = None" "bar_free new"
  shows "names_inv (bn(old := None, new \<mapsto> i)) (si(i \<mapsto> info\<lparr>si_Name := new\<rparr>)) sp"
proof -
  have i: "i \<noteq> sentinel" "bn (si_Name info) = Some i" using names_invD(5) [OF assms(1,3)] by auto
  have nm: "si_Name info = old" using names_invD(4) [OF assms(1,2) i(1)] assms(3) by auto
  show ?thesis
  proof (rule names_invI, goal_cases)
    case (4 nm' j)
    show ?case
    proof (cases "nm' = new")
      case False
      then have b: "bn nm' = Some j" "nm' \<noteq> old" using 4 by (auto split: if_splits)
      obtain old_si where j: "si j = Some old_si" "si_Name old_si = nm'" using names_invD(4) [OF assms(1) b(1) 4(2)] by blast
      then have "j \<noteq> i" using assms(3) nm b(2) by auto
      then show ?thesis using j by simp
    qed (use 4 in auto)
  next
    case (5 j info')
    show ?case
    proof (cases "j = i")
      case False
      then have j: "si j = Some info'" using 5 by simp
      have b: "bn (si_Name info') = Some j" using names_invD(5) [OF assms(1) j] by simp
      then have "si_Name info' \<noteq> old" "si_Name info' \<noteq> new" using assms(2,4) False by auto
      then show ?thesis using names_invD(5) [OF assms(1) j] by simp
    qed (use 5 i in auto)
  next
    case (6 nm')
    then show ?case using names_invD(6) [OF assms(1) 6] assms(2,4) i(1) by auto
  qed (use names_invD [OF assms(1)] assms(5) i(1) in \<open>auto split: if_splits\<close>)
qed

lemma names_map:
  assumes "names_inv bn si sp" "\<And>info. si_Name (g info) = si_Name info"
  shows "names_inv bn (map_option g \<circ> si) sp"
proof (rule names_invI, goal_cases)
  case (4 nm i)
  then show ?case using names_invD(4) [OF assms(1) 4] assms(2) by auto
next
  case (5 i info)
  then obtain info0 where "si i = Some info0" "info = g info0" by auto
  then show ?case using names_invD(5) [OF assms(1)] assms(2) by simp
qed (use names_invD [OF assms(1)] in auto)

section \<open>Teams and memberships\<close>

lemma member_key_inj:
  assumes "bar_free a" "bar_free b" "member_key a t = member_key b u"
  shows "a = b \<and> t = u"
proof -
  have "hd (split_on (CHR ''|'') (member_key x y)) = x" if "bar_free x" for x y
    using split_on_append [of "CHR ''|''" x y] that by (simp add: bar_free_def member_key_def)
  from this [OF assms(1)] this [OF assms(2)] have "a = b" using assms(3) by metis
  then show ?thesis using assms(3) by (simp add: member_key_def)
qed

definition teams_inv :: "(string \<Rightarrow> team option) \<Rightarrow> (string \<Rightarrow> membership option) \<Rightarrow> bool" where
  "teams_inv te me \<longleftrightarrow>
     (\<forall>n t. te n = Some t \<longrightarrow> te_Name t = n) \<and>
     (\<forall>k m. me k = Some m \<longrightarrow> k = member_key (ms_AgentName m) (ms_TeamName m) \<and>
        bar_free (ms_AgentName m) \<and> te (ms_TeamName m) \<noteq> None)"

lemma teams_invI:
  assumes "\<And>n t. te n = Some t \<Longrightarrow> te_Name t = n"
    and "\<And>k m. me k = Some m \<Longrightarrow> k = member_key (ms_AgentName m) (ms_TeamName m)"
    and "\<And>k m. me k = Some m \<Longrightarrow> bar_free (ms_AgentName m)"
    and "\<And>k m. me k = Some m \<Longrightarrow> te (ms_TeamName m) \<noteq> None"
  shows "teams_inv te me"
  using assms unfolding teams_inv_def by blast

lemma teams_invD:
  assumes "teams_inv te me"
  shows "te n = Some t \<Longrightarrow> te_Name t = n"
    and "me k = Some m \<Longrightarrow> k = member_key (ms_AgentName m) (ms_TeamName m)"
    and "me k = Some m \<Longrightarrow> bar_free (ms_AgentName m)"
    and "me k = Some m \<Longrightarrow> te (ms_TeamName m) \<noteq> None"
  using assms unfolding teams_inv_def by blast+

definition roles_of :: "(string \<Rightarrow> membership option) \<Rightarrow> roles" where
  "roles_of me = (\<lambda>(a, t). if bar_free a then me (member_key a t) else None)"

lemma roles_of_apply: "roles_of me (a, t) = (if bar_free a then me (member_key a t) else None)"
  by (simp add: roles_of_def)

lemma roles_of_Some:
  "teams_inv te me \<Longrightarrow> roles_of me (a, t) = Some m \<Longrightarrow>
     ms_AgentName m = a \<and> ms_TeamName m = t \<and> bar_free a \<and> me (member_key a t) = Some m"
  by (metis member_key_inj option.distinct(1) roles_of_apply teams_invD(2,3))

lemma member_at:
  "teams_inv te me \<Longrightarrow> bar_free a \<Longrightarrow> me (member_key a t) = Some m \<Longrightarrow> ms_AgentName m = a"
  "teams_inv te me \<Longrightarrow> bar_free a \<Longrightarrow> me (member_key a t) = Some m \<Longrightarrow> ms_TeamName m = t"
  by (rule roles_of_Some [where t = t, THEN conjunct1], assumption, simp add: roles_of_apply)
    (rule roles_of_Some [where a = a, THEN conjunct2, THEN conjunct1], assumption, simp add: roles_of_apply)

lemma roles_of_member:
  "teams_inv te me \<Longrightarrow> me k = Some m \<Longrightarrow> roles_of me (ms_AgentName m, ms_TeamName m) = Some m"
  using teams_invD(2,3) by (auto simp: roles_of_apply)

lemma roles_of_upd:
  assumes "bar_free a"
  shows "roles_of (me(member_key a t := x)) = (roles_of me)((a, t) := x)"
proof
  fix p :: "string \<times> string"
  obtain b u where p: "p = (b, u)" by (cases p)
  show "roles_of (me(member_key a t := x)) p = ((roles_of me)((a, t) := x)) p"
    using assms member_key_inj [of b a u t] by (auto simp: p roles_of_apply)
qed

lemma teams_add:
  "teams_inv te me \<Longrightarrow> te_Name t = n \<Longrightarrow> teams_inv (te(n \<mapsto> t)) me"
  unfolding teams_inv_def by auto

lemma teams_join:
  "teams_inv te me \<Longrightarrow> ms_AgentName m = a \<Longrightarrow> ms_TeamName m = t \<Longrightarrow> bar_free a \<Longrightarrow> te t \<noteq> None \<Longrightarrow>
     teams_inv te (me(member_key a t \<mapsto> m))"
  unfolding teams_inv_def by auto

lemma teams_leave: "teams_inv te me \<Longrightarrow> teams_inv te (me(k := None))"
  unfolding teams_inv_def by auto

definition without_team :: "string \<Rightarrow> (string \<Rightarrow> membership option) \<Rightarrow> string \<Rightarrow> membership option" where
  "without_team t me k = (case me k of None \<Rightarrow> None | Some m \<Rightarrow> if ms_TeamName m \<noteq> t then Some m else None)"

lemma teams_delete: "teams_inv te me \<Longrightarrow> teams_inv (te(t := None)) (without_team t me)"
  unfolding teams_inv_def by (auto simp: without_team_def split: option.splits if_splits)

lemma roles_of_delete:
  assumes "teams_inv te me"
  shows "roles_of (without_team t me) = (\<lambda>(a, u). if u = t then None else roles_of me (a, u))"
proof
  fix p :: "string \<times> string"
  obtain a u where p: "p = (a, u)" by (cases p)
  show "roles_of (without_team t me) p = (\<lambda>(a, u). if u = t then None else roles_of me (a, u)) p"
  proof (cases "roles_of me (a, u)")
    case None
    then show ?thesis by (auto simp: p roles_of_apply without_team_def split: if_splits)
  next
    case (Some m)
    with roles_of_Some [OF assms this] show ?thesis by (auto simp: p roles_of_apply without_team_def)
  qed
qed

text \<open>Renaming a team that no membership of the new name can collide with.\<close>

lemma team_moved:
  assumes inv: "teams_inv te (map_of xs)" and d: "distinct (map fst xs)"
    and new: "te new = None" "new \<noteq> nm"
  defines "ys \<equiv> rekey (\<lambda>m. ms_TeamName m = nm) (\<lambda>m. m\<lparr>ms_TeamName := new\<rparr>)
     (\<lambda>m. member_key (ms_AgentName m) new) xs"
  shows "moved (\<lambda>m. ms_TeamName m = nm) (\<lambda>m. m\<lparr>ms_TeamName := new\<rparr>)
     (\<lambda>m. member_key (ms_AgentName m) new) (map_of xs) UNIV (map_of ys)"
  unfolding ys_def
proof (rule rekey_moved [OF d], goal_cases)
  case (1 k m)
  show ?case
  proof
    assume "chosen (\<lambda>m. ms_TeamName m = nm) (map_of xs) (member_key (ms_AgentName m) new)"
    then obtain m' where m': "map_of xs (member_key (ms_AgentName m) new) = Some m'" "ms_TeamName m' = nm"
      by (auto simp: chosen_def)
    then show False
      using teams_invD(2,3) [OF inv m'(1)] member_key_inj [OF teams_invD(3) [OF inv 1(1)] teams_invD(3) [OF inv m'(1)]]
        new(2) by metis
  qed
next
  case (2 k m k' m')
  then show ?case
    using member_key_inj [OF teams_invD(3) [OF inv 2(1)] teams_invD(3) [OF inv 2(3)]] teams_invD(2) [OF inv] by metis
qed (use new in simp)

lemma agent_moved:
  assumes inv: "teams_inv te (map_of xs)" and d: "distinct (map fst xs)"
    and new: "bar_free new" "new \<noteq> old"
  defines "ys \<equiv> rekey (\<lambda>m. ms_AgentName m = old) (\<lambda>m. m\<lparr>ms_AgentName := new\<rparr>)
     (\<lambda>m. member_key new (ms_TeamName m)) xs"
  shows "moved (\<lambda>m. ms_AgentName m = old) (\<lambda>m. m\<lparr>ms_AgentName := new\<rparr>)
     (\<lambda>m. member_key new (ms_TeamName m)) (map_of xs) UNIV (map_of ys)"
  unfolding ys_def
proof (rule rekey_moved [OF d], goal_cases)
  case (1 k m)
  show ?case
  proof
    assume "chosen (\<lambda>m. ms_AgentName m = old) (map_of xs) (member_key new (ms_TeamName m))"
    then obtain m' where m': "map_of xs (member_key new (ms_TeamName m)) = Some m'" "ms_AgentName m' = old"
      by (auto simp: chosen_def)
    then show False
      using teams_invD(2) [OF inv m'(1)] member_key_inj [OF new(1) teams_invD(3) [OF inv m'(1)]] new(2) by metis
  qed
next
  case (2 k m k' m')
  then show ?case
    using member_key_inj [OF new(1) new(1)] teams_invD(2) [OF inv] by metis
qed (use new in simp)

lemma movedE:
  assumes "moved sel upd nk f UNIV g" "g q = Some w"
  obtains k v where "f k = Some v" "sel v" "nk v = q" "w = upd v"
  | "f q = Some w" "\<not> sel w"
proof (cases "\<exists>k v. f k = Some v \<and> sel v \<and> nk v = q")
  case True
  then obtain k v where "f k = Some v" "sel v" "nk v = q" by blast
  then show ?thesis using movedD1 [OF assms(1) UNIV_I] assms(2) that(1) by force
next
  case False
  then have "g q = (if q \<in> UNIV \<and> chosen sel f q then None else f q)"
    by (intro movedD2 [OF assms(1)]) blast
  then show ?thesis using assms(2) that(2) by (auto simp: chosen_def split: if_splits)
qed

lemma moved_other:
  assumes "moved sel upd nk f UNIV g" "\<And>k v. f k = Some v \<Longrightarrow> sel v \<Longrightarrow> nk v \<noteq> q"
  shows "g q = (case f q of None \<Rightarrow> None | Some v \<Rightarrow> if sel v then None else Some v)"
  using movedD2 [OF assms(1), of q] assms(2) by (auto simp: chosen_def split: option.split)

lemma teams_rename_team:
  assumes inv: "teams_inv te me" and new: "te new = None" "new \<noteq> nm" "te_Name t' = new"
    and mv: "moved (\<lambda>m. ms_TeamName m = nm) (\<lambda>m. m\<lparr>ms_TeamName := new\<rparr>)
     (\<lambda>m. member_key (ms_AgentName m) new) me UNIV g"
  shows "teams_inv (te(nm := None, new \<mapsto> t')) g"
proof (rule teams_invI, goal_cases)
  case (1 n t)
  then show ?case using teams_invD(1) [OF inv] new by (auto split: if_splits)
next
  case (2 k m)
  from mv 2 show ?case
    by (rule movedE) (use teams_invD(2) [OF inv] in auto)
next
  case (3 k m)
  from mv 3 show ?case
    by (rule movedE) (use teams_invD(3) [OF inv] in auto)
next
  case (4 k m)
  from mv 4 show ?case
    by (rule movedE) (use teams_invD(4) [OF inv] in auto)
qed

lemma roles_rename_team:
  assumes inv: "teams_inv te me" and new: "te new = None" "new \<noteq> nm"
    and mv: "moved (\<lambda>m. ms_TeamName m = nm) (\<lambda>m. m\<lparr>ms_TeamName := new\<rparr>)
     (\<lambda>m. member_key (ms_AgentName m) new) me UNIV g"
  shows "roles_of g = (\<lambda>(a, t). if t = new then map_option (\<lambda>m. m\<lparr>ms_TeamName := new\<rparr>) (roles_of me (a, nm))
              else if t = nm then None else roles_of me (a, t))"
proof
  fix p :: "string \<times> string"
  obtain a t where p: "p = (a, t)" by (cases p)
  have src: "k = member_key (ms_AgentName m) nm" if "me k = Some m" "ms_TeamName m = nm" for k m
    using teams_invD(2) [OF inv that(1)] that(2) by simp
  show "roles_of g p = (\<lambda>(a, t). if t = new then map_option (\<lambda>m. m\<lparr>ms_TeamName := new\<rparr>) (roles_of me (a, nm))
              else if t = nm then None else roles_of me (a, t)) p"
  proof (cases "bar_free a")
    case False
    then show ?thesis by (simp add: p roles_of_apply)
  next
    case bf: True
    have off: "member_key (ms_AgentName m) new \<noteq> member_key a u" if "me k = Some m" "u \<noteq> new" for k m u
      using member_key_inj [OF teams_invD(3) [OF inv that(1)] bf] that(2) by auto
    consider (new) "t = new" | (old) "t = nm" "t \<noteq> new" | (other) "t \<noteq> new" "t \<noteq> nm" by blast
    then show ?thesis
    proof cases
      case new_t: new
      show ?thesis
      proof (cases "me (member_key a nm)")
        case (Some m)
        note an = member_at(1) [OF inv bf Some] and tn = member_at(2) [OF inv bf Some]
        have "g (member_key a new) = Some (m\<lparr>ms_TeamName := new\<rparr>)"
          using movedD1 [OF mv UNIV_I Some tn] unfolding an .
        then show ?thesis unfolding p new_t by (simp only: prod.case roles_of_apply bf Some if_True option.map refl)
      next
        case None
        have "g (member_key a new) = (case me (member_key a new) of None \<Rightarrow> None
            | Some v \<Rightarrow> if ms_TeamName v = nm then None else Some v)"
        proof (rule moved_other [OF mv])
          fix k v assume v: "me k = Some v" "ms_TeamName v = nm"
          show "member_key (ms_AgentName v) new \<noteq> member_key a new"
          proof
            assume "member_key (ms_AgentName v) new = member_key a new"
            then have "k = member_key a nm"
              using member_key_inj [OF teams_invD(3) [OF inv v(1)] bf] src [OF v] by metis
            then show False using v(1) None by simp
          qed
        qed
        moreover have "me (member_key a new) = None"
          using member_at(2) [OF inv bf, of new] teams_invD(4) [OF inv, of "member_key a new"] new(1)
          by (cases "me (member_key a new)") auto
        ultimately show ?thesis using None bf by (simp add: p new_t roles_of_apply)
      qed
    next
      case old
      have "g (member_key a nm) = (case me (member_key a nm) of None \<Rightarrow> None
            | Some v \<Rightarrow> if ms_TeamName v = nm then None else Some v)"
        by (rule moved_other [OF mv]) (use off old in auto)
      moreover have "ms_TeamName m = nm" if "me (member_key a nm) = Some m" for m
        by (rule member_at(2) [OF inv bf that])
      ultimately show ?thesis using old bf by (auto simp: p roles_of_apply split: option.split)
    next
      case other
      have "g (member_key a t) = (case me (member_key a t) of None \<Rightarrow> None
            | Some v \<Rightarrow> if ms_TeamName v = nm then None else Some v)"
        by (rule moved_other [OF mv]) (use off other in auto)
      moreover have "ms_TeamName m = t" if "me (member_key a t) = Some m" for m
        by (rule member_at(2) [OF inv bf that])
      ultimately show ?thesis using other bf by (auto simp: p roles_of_apply split: option.split)
    qed
  qed
qed

lemma teams_rename_agent:
  assumes inv: "teams_inv te me" and new: "bar_free new"
    and mv: "moved (\<lambda>m. ms_AgentName m = old) (\<lambda>m. m\<lparr>ms_AgentName := new\<rparr>)
     (\<lambda>m. member_key new (ms_TeamName m)) me UNIV g"
  shows "teams_inv te g"
proof (rule teams_invI, goal_cases)
  case (1 n t)
  then show ?case using teams_invD(1) [OF inv] by simp
next
  case (2 k m)
  from mv 2 show ?case by (rule movedE) (use teams_invD(2) [OF inv] in auto)
next
  case (3 k m)
  from mv 3 show ?case by (rule movedE) (use teams_invD(3) [OF inv] new in auto)
next
  case (4 k m)
  from mv 4 show ?case by (rule movedE) (use teams_invD(4) [OF inv] in auto)
qed

lemma roles_rename_agent:
  assumes inv: "teams_inv te me" and new: "bar_free new" "bar_free old" "new \<noteq> old"
    and mv: "moved (\<lambda>m. ms_AgentName m = old) (\<lambda>m. m\<lparr>ms_AgentName := new\<rparr>)
     (\<lambda>m. member_key new (ms_TeamName m)) me UNIV g"
  shows "roles_of g = (\<lambda>(a, t). if a = new then
                (case roles_of me (old, t) of Some m \<Rightarrow> Some (m\<lparr>ms_AgentName := new\<rparr>)
                 | None \<Rightarrow> roles_of me (new, t))
              else if a = old then None else roles_of me (a, t))"
proof
  fix p :: "string \<times> string"
  obtain a t where p: "p = (a, t)" by (cases p)
  have other: "g (member_key a t) = (case me (member_key a t) of None \<Rightarrow> None
            | Some v \<Rightarrow> if ms_AgentName v = old then None else Some v)"
    if "bar_free a" "a \<noteq> new \<or> me (member_key old t) = None"
  proof (rule moved_other [OF mv])
    fix k v assume v: "me k = Some v" "ms_AgentName v = old"
    show "member_key new (ms_TeamName v) \<noteq> member_key a t"
    proof
      assume "member_key new (ms_TeamName v) = member_key a t"
      then have "new = a \<and> ms_TeamName v = t" by (rule member_key_inj [OF new(1) that(1)])
      then show False using teams_invD(2) [OF inv v(1)] v that(2) by simp
    qed
  qed
  have who: "ms_AgentName m = a" if "me (member_key a t) = Some m" "bar_free a" for m
    by (rule member_at(1) [OF inv that(2) that(1)])
  show "roles_of g p = (\<lambda>(a, t). if a = new then
                (case roles_of me (old, t) of Some m \<Rightarrow> Some (m\<lparr>ms_AgentName := new\<rparr>)
                 | None \<Rightarrow> roles_of me (new, t))
              else if a = old then None else roles_of me (a, t)) p"
  proof (cases "a = new")
    case a: True
    show ?thesis
    proof (cases "me (member_key old t)")
      case (Some m)
      note an = member_at(1) [OF inv new(2) Some] and tn = member_at(2) [OF inv new(2) Some]
      have "g (member_key new t) = Some (m\<lparr>ms_AgentName := new\<rparr>)"
        using movedD1 [OF mv UNIV_I Some an] unfolding tn .
      then show ?thesis
        unfolding p a by (simp only: prod.case roles_of_apply new(1,2) Some if_True option.case refl)
    next
      case None
      then show ?thesis using other who new a by (auto simp: p roles_of_apply split: option.split)
    qed
  next
    case False
    then show ?thesis using other who by (cases "bar_free a") (auto simp: p roles_of_apply split: option.split)
  qed
qed

section \<open>Every operation keeps the invariant\<close>

named_theorems dir_fields \<open>what an operation leaves of the directory\<close>

definition names_ok :: "runtime \<Rightarrow> bool" where
  "names_ok rt \<longleftrightarrow> distinct (map fst (rt_byName rt)) \<and> distinct (map fst (rt_info rt)) \<and>
     names_inv (map_of (rt_byName rt)) (map_of (rt_info rt)) (rt_spawning rt)"

definition teams_ok :: "runtime \<Rightarrow> bool" where
  "teams_ok rt \<longleftrightarrow> distinct (map fst (rt_teams rt)) \<and> distinct (map fst (rt_members rt)) \<and>
     teams_inv (map_of (rt_teams rt)) (map_of (rt_members rt))"

lemma names_okD: "names_ok rt \<Longrightarrow> names_inv (map_of (rt_byName rt)) (map_of (rt_info rt)) (rt_spawning rt)"
  by (simp add: names_ok_def)

lemma teams_okD: "teams_ok rt \<Longrightarrow> teams_inv (map_of (rt_teams rt)) (map_of (rt_members rt))"
  by (simp add: teams_ok_def)

lemma names_ok_cong:
  "rt_byName rt' = rt_byName rt \<Longrightarrow> rt_info rt' = rt_info rt \<Longrightarrow> rt_spawning rt' = rt_spawning rt \<Longrightarrow>
     names_ok rt' = names_ok rt"
  by (simp add: names_ok_def)

lemma teams_ok_cong:
  "rt_teams rt' = rt_teams rt \<Longrightarrow> rt_members rt' = rt_members rt \<Longrightarrow> teams_ok rt' = teams_ok rt"
  by (simp add: teams_ok_def)

lemma emit_fields [dir_fields]:
  "rt_byName (emitTeamEvent e rt) = rt_byName rt" "rt_info (emitTeamEvent e rt) = rt_info rt"
  "rt_spawning (emitTeamEvent e rt) = rt_spawning rt" "rt_teams (emitTeamEvent e rt) = rt_teams rt"
  "rt_members (emitTeamEvent e rt) = rt_members rt" "rt_wedged (emitTeamEvent e rt) = rt_wedged rt"
  by (simp_all add: emitTeamEvent_def)

lemma record_fields [dir_fields]:
  "rt_byName (RecordEvent e rt) = rt_byName rt" "rt_info (RecordEvent e rt) = rt_info rt"
  "rt_spawning (RecordEvent e rt) = rt_spawning rt" "rt_teams (RecordEvent e rt) = rt_teams rt"
  "rt_members (RecordEvent e rt) = rt_members rt" "rt_wedged (RecordEvent e rt) = rt_wedged rt"
  by (simp_all add: RecordEvent_def)

lemma then_record_fields [dir_fields]:
  "rt_byName (snd (then_record e r)) = rt_byName (snd r)" "rt_info (snd (then_record e r)) = rt_info (snd r)"
  "rt_spawning (snd (then_record e r)) = rt_spawning (snd r)" "rt_teams (snd (then_record e r)) = rt_teams (snd r)"
  "rt_members (snd (then_record e r)) = rt_members (snd r)"
  by (simp_all add: then_record_def dir_fields)

lemma agent_op_fields [dir_fields]:
  "rt_byName (snd (agent_op d w nm f rt)) = rt_byName rt" "rt_teams (snd (agent_op d w nm f rt)) = rt_teams rt"
  "rt_members (snd (agent_op d w nm f rt)) = rt_members rt" "rt_spawning (snd (agent_op d w nm f rt)) = rt_spawning rt"
  by (simp_all add: agent_op_def split: option.split)

lemma agent_op_names:
  assumes "names_ok rt" "\<And>info. si_Name (f info) = si_Name info"
  shows "names_ok (snd (agent_op d w nm f rt))"
  using assms names_update [of _ _ _ _ _ "f _"]
  by (auto simp: agent_op_def names_ok_def distinct_update split: option.split)

lemma poke_snd:
  "rt_byName (snd (PokePrompt fid now live nm body rt)) = rt_byName rt"
  "rt_teams (snd (PokePrompt fid now live nm body rt)) = rt_teams rt"
  "rt_members (snd (PokePrompt fid now live nm body rt)) = rt_members rt"
  "rt_spawning (snd (PokePrompt fid now live nm body rt)) = rt_spawning rt"
  "rt_info (snd (PokePrompt fid now live nm body rt))
     = rt_info (snd (agent_op False ''PokePrompt'' nm (\<lambda>info. info\<lparr>si_SystemPrompt := body\<rparr>) rt))"
  by (auto simp: PokePrompt_def agent_op_def dir_fields split: option.split)

lemmas agent_op_defs = Assign_def SetScorecard_def RecordVerdict_def UpdateStatSheet_def Pause_def SetIcon_def

lemma session_ops_teams [dir_fields]:
  "rt_teams (snd (Assign nm tm role rt)) = rt_teams rt"
  "rt_teams (snd (SetScorecard fid now caller nm sc rt)) = rt_teams rt"
  "rt_teams (snd (RecordVerdict fid now caller nm v msg rt)) = rt_teams rt"
  "rt_teams (snd (UpdateStatSheet nm patch rt)) = rt_teams rt"
  "rt_teams (snd (Pause nm b rt)) = rt_teams rt" "rt_teams (snd (SetIcon nm icon rt)) = rt_teams rt"
  "rt_members (snd (Assign nm tm role rt)) = rt_members rt"
  "rt_members (snd (SetScorecard fid now caller nm sc rt)) = rt_members rt"
  "rt_members (snd (RecordVerdict fid now caller nm v msg rt)) = rt_members rt"
  "rt_members (snd (UpdateStatSheet nm patch rt)) = rt_members rt"
  "rt_members (snd (Pause nm b rt)) = rt_members rt" "rt_members (snd (SetIcon nm icon rt)) = rt_members rt"
  by (simp_all add: agent_op_defs Let_def dir_fields)

lemma spawn_ops_teams [dir_fields]:
  "rt_teams (snd (spawn_reserve nm slug rt)) = rt_teams rt" "rt_teams (snd (spawn_abort nm rt)) = rt_teams rt"
  "rt_teams (snd (spawn_register i info rt)) = rt_teams rt"
  "rt_teams (snd (spawn_announce fid now info rt)) = rt_teams rt"
  "rt_teams (snd (markExited_flip i fid now sess rt)) = rt_teams rt"
  "rt_teams (snd (markExited_drop i rt)) = rt_teams rt" "rt_teams (snd (rt_Stop nm now rt)) = rt_teams rt"
  "rt_members (snd (spawn_reserve nm slug rt)) = rt_members rt" "rt_members (snd (spawn_abort nm rt)) = rt_members rt"
  "rt_members (snd (spawn_register i info rt)) = rt_members rt"
  "rt_members (snd (spawn_announce fid now info rt)) = rt_members rt"
  "rt_members (snd (markExited_flip i fid now sess rt)) = rt_members rt"
  "rt_members (snd (markExited_drop i rt)) = rt_members rt" "rt_members (snd (rt_Stop nm now rt)) = rt_members rt"
  by (simp_all add: spawn_reserve_def spawn_abort_def spawn_register_def spawn_announce_def markExited_flip_def
      markExited_drop_def rt_Stop_def Let_def dir_fields split: option.split)

lemma other_ops_fields [dir_fields]:
  "rt_teams (snd (SetReviewAxis now by' target axis score note rt)) = rt_teams rt"
  "rt_members (snd (SetReviewAxis now by' target axis score note rt)) = rt_members rt"
  "rt_teams (snd (GrantChannel f t sc rt)) = rt_teams rt" "rt_members (snd (GrantChannel f t sc rt)) = rt_members rt"
  "rt_teams (close_events rt) = rt_teams rt" "rt_members (close_events rt) = rt_members rt"
  "rt_teams (take_event rt) = rt_teams rt" "rt_members (take_event rt) = rt_members rt"
  by (simp_all add: SetReviewAxis_def GrantChannel_def close_events_def take_event_def Let_def)

subsection \<open>Names\<close>

lemma names_ok_upd_info:
  "names_ok rt \<Longrightarrow> map_of (rt_info rt) i = Some info \<Longrightarrow> si_Name info' = si_Name info \<Longrightarrow>
     names_ok (rt\<lparr>rt_info := AList.update i info' (rt_info rt)\<rparr>)"
  by (auto simp: names_ok_def distinct_update names_update)

lemma reserve_names: "names_ok rt \<Longrightarrow> bar_free nm \<Longrightarrow> names_ok (snd (spawn_reserve nm slug rt))"
  by (auto simp: spawn_reserve_def names_ok_def distinct_update names_reserve split: option.split)

lemma abort_names:
  assumes "names_ok rt" "nm \<in> set (rt_spawning rt)"
  shows "names_ok (snd (spawn_abort nm rt))"
proof -
  have "map_of (rt_byName rt) nm = Some sentinel"
    by (rule names_invD(6) [OF names_okD [OF assms(1)] assms(2)])
  then show ?thesis using assms by (simp add: spawn_abort_def names_ok_def distinct_delete names_abort)
qed

lemma register_names:
  "names_ok rt \<Longrightarrow> call_ok rt (CRegister i info) \<Longrightarrow> names_ok (snd (spawn_register i info rt))"
  by (simp add: spawn_register_def names_ok_def distinct_update names_register)

lemma exit_mark_name [simp]: "si_Name (exit_mark sess info) = si_Name info"
  by (auto simp: exit_mark_def Let_def split: option.split prod.split)

lemma flip_names: "names_ok rt \<Longrightarrow> names_ok (snd (markExited_flip i fid now sess rt))"
proof (cases "map_of (rt_info rt) i")
  case (Some info)
  assume "names_ok rt"
  then have 1: "names_ok (rt\<lparr>rt_info := AList.update i (exit_mark sess info) (rt_info rt)\<rparr>)"
    by (rule names_ok_upd_info [OF _ Some]) simp
  show ?thesis
    using Some 1 \<open>names_ok rt\<close>
    by (simp add: markExited_flip_def Let_def names_ok_def dir_fields)
qed (simp add: markExited_flip_def)

lemma names_ok_delete:
  assumes "names_ok rt" "map_of (rt_byName rt) nm = Some i" "i \<noteq> sentinel"
  shows "names_ok (rt\<lparr>rt_byName := AList.delete nm (rt_byName rt), rt_info := AList.delete i (rt_info rt)\<rparr>)"
  using assms by (simp add: names_ok_def distinct_delete names_delete)

lemma drop_names: "names_ok rt \<Longrightarrow> names_ok (snd (markExited_drop i rt))"
proof (cases "map_of (rt_info rt) i")
  case (Some info)
  assume ok: "names_ok rt"
  then have "map_of (rt_byName rt) (si_Name info) = Some i \<and> i \<noteq> sentinel"
    using names_invD(5) [OF names_okD [OF ok] Some] by simp
  then have "names_ok (rt\<lparr>rt_byName := AList.delete (si_Name info) (rt_byName rt),
      rt_info := AList.delete i (rt_info rt)\<rparr>)"
    using names_ok_delete [OF ok] by blast
  then show ?thesis using Some ok by (simp add: markExited_drop_def Let_def names_ok_def)
qed (simp add: markExited_drop_def names_ok_def Let_def)

lemma stop_names:
  assumes "names_ok rt" "nm \<notin> set (rt_spawning rt)"
  shows "names_ok (snd (rt_Stop nm now rt))"
proof (cases "map_of (rt_byName rt) nm")
  case (Some i)
  then have "i \<noteq> sentinel" using assms(2) names_invD(3) [OF names_okD [OF assms(1)], of nm] by auto
  then have "names_ok (rt\<lparr>rt_byName := AList.delete nm (rt_byName rt), rt_info := AList.delete i (rt_info rt)\<rparr>)"
    by (rule names_ok_delete [OF assms(1) Some])
  then show ?thesis using Some assms by (simp add: rt_Stop_def names_ok_def dir_fields split: option.split prod.split)
qed (simp add: rt_Stop_def assms)

lemma rename_names:
  assumes "names_ok rt" "bar_free new"
  shows "names_ok (snd (Rename fid now old new rt))"
  using assms
  by (auto simp: Rename_def names_ok_def dir_fields distinct_update distinct_delete names_rename
      simp del: map_of_eq_Some_iff map_of_eq_None_iff split: option.split)

lemma update_team_names:
  assumes "names_ok rt"
  shows "names_ok (snd (UpdateTeam nm new topo rt))"
proof -
  have 1: "map_of (map (\<lambda>(i, info). (i, retag_info nm new info)) xs)
      = map_option (retag_info nm new) \<circ> map_of xs" for xs :: "(string \<times> session_info) list"
    by (induction xs) auto
  have 2: "map fst (map (\<lambda>(i, info). (i, retag_info nm new info)) xs) = map fst xs"
    for xs :: "(string \<times> session_info) list"
    by (induction xs) auto
  have "names_inv bn (map_option (retag_info nm new) \<circ> si) sp" if "names_inv bn si sp" for bn si sp
    by (rule names_map [OF that]) (simp add: retag_info_def)
  then show ?thesis
    using assms by (simp add: UpdateTeam_def Let_def names_ok_def 1 2 del: map_map split: option.split)
qed

lemma names_untouched [dir_fields]:
  "names_ok (snd (spawn_announce fid now info rt)) = names_ok rt"
  "names_ok (snd (CreateTeam now nm canon topo rt)) = names_ok rt"
  "names_ok (snd (JoinTeam now a tm role brief rt)) = names_ok rt"
  "names_ok (snd (DeleteTeam nm rt)) = names_ok rt"
  "names_ok (snd (LeaveTeam now a tm rt)) = names_ok rt"
  "names_ok (snd (SetReviewAxis now by' target axis score note rt)) = names_ok rt"
  "names_ok (snd (GrantChannel f t sc rt)) = names_ok rt"
  "names_ok (close_events rt) = names_ok rt" "names_ok (take_event rt) = names_ok rt"
  by (simp_all add: names_ok_def spawn_announce_def CreateTeam_def JoinTeam_def DeleteTeam_def LeaveTeam_def
      SetReviewAxis_def GrantChannel_def close_events_def take_event_def Let_def dir_fields
      split: option.split)

lemma session_ops_names:
  assumes "names_ok rt"
  shows "names_ok (snd (Assign nm tm role rt))" "names_ok (snd (SetScorecard fid now caller nm sc rt))"
    "names_ok (snd (RecordVerdict fid now caller nm v msg rt))" "names_ok (snd (UpdateStatSheet nm patch rt))"
    "names_ok (snd (PokePrompt fid now live nm body rt))" "names_ok (snd (Pause nm b rt))"
    "names_ok (snd (SetIcon nm icon rt))"
proof -
  have rec_eq: "names_ok (snd (then_record e r)) = names_ok (snd r)" for e r
    by (rule names_ok_cong) (simp_all add: dir_fields)
  have poke: "names_ok (snd (PokePrompt fid now live nm body rt))
      = names_ok (snd (agent_op False ''PokePrompt'' nm (\<lambda>info. info\<lparr>si_SystemPrompt := body\<rparr>) rt))"
    by (rule names_ok_cong) (simp_all add: poke_snd dir_fields)
  show "names_ok (snd (Assign nm tm role rt))"
    unfolding Assign_def by (rule agent_op_names [OF assms]) (simp add: Let_def)
  show "names_ok (snd (SetScorecard fid now caller nm sc rt))"
    unfolding SetScorecard_def Let_def rec_eq by (rule agent_op_names [OF assms]) simp
  show "names_ok (snd (RecordVerdict fid now caller nm v msg rt))"
    unfolding RecordVerdict_def rec_eq by (rule agent_op_names [OF assms]) simp
  show "names_ok (snd (UpdateStatSheet nm patch rt))"
    unfolding UpdateStatSheet_def by (rule agent_op_names [OF assms]) (simp add: Let_def)
  show "names_ok (snd (PokePrompt fid now live nm body rt))"
    unfolding poke by (rule agent_op_names [OF assms]) simp
  show "names_ok (snd (Pause nm b rt))"
    unfolding Pause_def by (rule agent_op_names [OF assms]) simp
  show "names_ok (snd (SetIcon nm icon rt))"
    unfolding SetIcon_def by (rule agent_op_names [OF assms]) simp
qed

lemma exec_names:
  assumes "names_ok rt" "call_ok rt c"
  shows "names_ok (snd (exec c rt))"
proof (cases c)
  case (CRegister i info)
  then show ?thesis using register_names assms by simp
qed (use assms in \<open>simp_all add: dir_fields reserve_names abort_names flip_names drop_names stop_names
    rename_names update_team_names session_ops_names\<close>)

subsection \<open>Teams and roles\<close>

definition run_roles :: "runtime \<Rightarrow> roles" where
  "run_roles rt = roles_of (map_of (rt_members rt))"

definition run_teams :: "runtime \<Rightarrow> string set" where
  "run_teams rt = dom (map_of (rt_teams rt))"

text \<open>What every operation must do to the teams and the memberships, given what it answered.\<close>

definition refines :: "rt_call \<Rightarrow> runtime \<Rightarrow> bool" where
  "refines c rt \<longleftrightarrow>
     (let (out, rt') = exec c rt in
      teams_ok rt' \<and> run_roles rt' = roles_step (run_roles rt) (c, out) \<and>
      run_teams rt' = teams_step (run_teams rt) (c, out))"

lemma refinesI:
  assumes "exec c rt = (out, rt')" "teams_ok rt'"
    and "succeeded out \<Longrightarrow> run_roles rt' = roles_apply c (run_roles rt) \<and> run_teams rt' = teams_apply c (run_teams rt)"
    and "\<not> succeeded out \<Longrightarrow> run_roles rt' = run_roles rt \<and> run_teams rt' = run_teams rt"
  shows "refines c rt"
  using assms by (simp add: refines_def roles_step_def teams_step_def)

text \<open>An operation that touches neither the teams nor the memberships.\<close>

lemma refines_untouched:
  assumes "teams_ok rt" "rt_teams (snd (exec c rt)) = rt_teams rt" "rt_members (snd (exec c rt)) = rt_members rt"
    "\<And>f. roles_apply c f = f" "\<And>T. teams_apply c T = T"
  shows "refines c rt"
  using assms by (cases "exec c rt") (simp add: refines_def roles_step_def teams_step_def run_roles_def
      run_teams_def teams_ok_def)

lemma refines_create:
  assumes "teams_ok rt"
  shows "refines (CCreate now nm canon topo) rt"
proof (cases "rt_wedged rt")
  case True
  then show ?thesis using assms
    by (intro refinesI [where out = "OTeam Blocked" and rt' = rt]) (simp_all add: CreateTeam_def)
next
  case False
  show ?thesis
  proof (cases "map_of (rt_teams rt) nm")
    case (Some t)
    then show ?thesis using assms False
      by (intro refinesI [where out = "OTeam (Ret (t, False))" and rt' = rt])
        (auto simp: CreateTeam_def run_teams_def)
  next
    case None
    let ?t = "new_team rt now nm canon topo"
    have "teams_ok (rt\<lparr>rt_teams := AList.update nm ?t (rt_teams rt)\<rparr>)"
      using assms teams_add [OF teams_okD [OF assms], of ?t nm]
      by (simp add: teams_ok_def distinct_update new_team_def)
    then show ?thesis using None False
      by (intro refinesI [where out = "OTeam (Ret (?t, True))" and
            rt' = "rt\<lparr>rt_teams := AList.update nm ?t (rt_teams rt)\<rparr>"])
        (simp_all add: CreateTeam_def run_teams_def run_roles_def Let_def)
  qed
qed

lemma refines_leave:
  assumes "teams_ok rt" "bar_free a"
  shows "refines (CLeave now a tm) rt"
proof (cases "rt_wedged rt")
  case True
  then show ?thesis using assms
    by (intro refinesI [where out = "OBool Blocked" and rt' = rt]) (simp_all add: LeaveTeam_def)
next
  case False
  let ?k = "member_key a tm"
  show ?thesis
  proof (cases "map_of (rt_members rt) ?k")
    case None
    then show ?thesis using assms False
      by (intro refinesI [where out = "OBool (Ret False)" and rt' = rt]) (simp_all add: LeaveTeam_def)
  next
    case (Some m)
    have "teams_ok (rt\<lparr>rt_members := AList.delete ?k (rt_members rt)\<rparr>)"
      using assms(1) teams_leave [OF teams_okD [OF assms(1)]] by (simp add: teams_ok_def distinct_delete)
    then show ?thesis using Some False roles_of_upd [OF assms(2)]
      by (intro refinesI [where out = "OBool (Ret True)" and rt' = "snd (LeaveTeam now a tm rt)"])
        (simp_all add: LeaveTeam_def run_teams_def run_roles_def teams_ok_def dir_fields)
  qed
qed

definition with_team :: "time \<Rightarrow> string \<Rightarrow> runtime \<Rightarrow> runtime" where
  "with_team now tm rt =
     (if map_of (rt_teams rt) tm = None
      then rt\<lparr>rt_teams := AList.update tm (new_team rt now tm [] []) (rt_teams rt)\<rparr> else rt)"

lemma with_team_fields:
  "rt_members (with_team now tm rt) = rt_members rt" "run_roles (with_team now tm rt) = run_roles rt"
  "run_teams (with_team now tm rt) = insert tm (run_teams rt)"
  by (auto simp: with_team_def run_roles_def run_teams_def)

lemma with_team_ok: "teams_ok rt \<Longrightarrow> teams_ok (with_team now tm rt)"
  using teams_add [OF teams_okD, of rt "new_team rt now tm [] []" tm]
  by (auto simp: with_team_def teams_ok_def distinct_update new_team_def)

lemma with_team_has: "map_of (rt_teams (with_team now tm rt)) tm \<noteq> None"
  by (auto simp: with_team_def)

lemma refines_join:
  assumes ok: "teams_ok rt" "names_ok rt"
  shows "refines (CJoin now a tm role brief) rt"
proof (cases "rt_wedged rt")
  case True
  then show ?thesis using assms
    by (intro refinesI [where out = "OJoin Blocked" and rt' = rt]) (simp_all add: JoinTeam_def)
next
  case up: False
  show ?thesis
  proof (cases "map_of (rt_byName rt) a")
    case None
    then show ?thesis using ok(1) up
      by (intro refinesI [where out = "OJoin (Ret (Inl (''runtime.JoinTeam: unknown agent '' @ quote a)))" and rt' = rt])
        (simp_all add: JoinTeam_def)
  next
    case (Some i)
    have bf: "bar_free a" by (rule names_invD(2) [OF names_okD [OF ok(2)] Some])
    let ?rt1 = "with_team now tm rt" and ?k = "member_key a tm"
    let ?new = "\<lparr>ms_AgentName = a, ms_TeamName = tm, ms_Role = role, ms_BriefOverride = brief, ms_JoinedAt = now\<rparr>"
    have at: "run_roles rt (a, tm) = map_of (rt_members rt) ?k"
      using bf by (simp add: run_roles_def roles_of_apply)
    have moved': "teams_ok (rt'\<lparr>rt_members := AList.update ?k ?new (rt_members ?rt1)\<rparr>)
        \<and> run_roles (rt'\<lparr>rt_members := AList.update ?k ?new (rt_members ?rt1)\<rparr>) = (run_roles rt)((a, tm) \<mapsto> ?new)
        \<and> run_teams (rt'\<lparr>rt_members := AList.update ?k ?new (rt_members ?rt1)\<rparr>) = insert tm (run_teams rt)"
      if "rt' = ?rt1" for rt'
    proof -
      have "teams_inv (map_of (rt_teams ?rt1)) ((map_of (rt_members ?rt1))(?k \<mapsto> ?new))"
        by (rule teams_join [OF teams_okD [OF with_team_ok [OF ok(1)]] _ _ bf with_team_has]) simp_all
      then show ?thesis
        using that with_team_ok [OF ok(1), of now tm] roles_of_upd [OF bf] with_team_fields(3) [of now tm rt]
        by (simp add: teams_ok_def distinct_update run_roles_def with_team_fields(1) run_teams_def)
    qed
    have JT: "JoinTeam now a tm role brief rt =
        (case map_of (rt_members ?rt1) ?k of
           Some ex \<Rightarrow> if ms_Role ex = role then (Ret (Inr ex), ?rt1)
             else (Ret (Inr ?new), emitTeamEvent \<lparr>tv_Kind = ''role-change'', tv_Agent = a, tv_Team = tm,
                     tv_OldRole = ms_Role ex, tv_NewRole = role, tv_At = now\<rparr>
                   (?rt1\<lparr>rt_members := AList.update ?k ?new (rt_members ?rt1)\<rparr>))
         | None \<Rightarrow> (Ret (Inr ?new), emitTeamEvent \<lparr>tv_Kind = ''join'', tv_Agent = a, tv_Team = tm,
                     tv_OldRole = [], tv_NewRole = role, tv_At = now\<rparr>
                   (?rt1\<lparr>rt_members := AList.update ?k ?new (rt_members ?rt1)\<rparr>)))"
      by (simp only: JoinTeam_def Some up if_False option.distinct Let_def with_team_def [symmetric] simp_thms)
    have emitted: "teams_ok (emitTeamEvent e r) = teams_ok r" "run_roles (emitTeamEvent e r) = run_roles r"
      "run_teams (emitTeamEvent e r) = run_teams r" for e r
      by (simp_all add: teams_ok_def run_roles_def run_teams_def dir_fields)
    show ?thesis
    proof (cases "\<exists>ex. map_of (rt_members rt) ?k = Some ex \<and> ms_Role ex = role")
      case True
      then obtain ex where ex: "map_of (rt_members rt) ?k = Some ex" "ms_Role ex = role" by blast
      have same: "(run_roles rt)((a, tm) \<mapsto> ex) = run_roles rt"
        using at ex by (auto simp: fun_upd_idem_iff)
      show ?thesis
        by (rule refinesI [where out = "OJoin (Ret (Inr ex))" and rt' = ?rt1])
          (simp_all add: JT ex at same with_team_fields join_role_def with_team_ok ok)
    next
      case False
      then have out: "fst (exec (CJoin now a tm role brief) rt) = OJoin (Ret (Inr ?new))"
        by (auto simp: JT with_team_fields split: option.split)
      have st: "teams_ok (snd (exec (CJoin now a tm role brief) rt))
          \<and> run_roles (snd (exec (CJoin now a tm role brief) rt)) = (run_roles rt)((a, tm) \<mapsto> ?new)
          \<and> run_teams (snd (exec (CJoin now a tm role brief) rt)) = insert tm (run_teams rt)"
        using False moved' [OF refl] by (auto simp: JT with_team_fields(1) emitted split: option.split)
      have jr: "join_role a tm role brief now (run_roles rt (a, tm)) = ?new"
        using False by (auto simp: at join_role_def split: option.split)
      show ?thesis
        by (rule refinesI [where out = "OJoin (Ret (Inr ?new))" and rt' = "snd (exec (CJoin now a tm role brief) rt)"])
          (use out st jr in \<open>simp_all add: prod_eq_iff\<close>)
    qed
  qed
qed

lemma map_of_without:
  "distinct (map fst xs) \<Longrightarrow> map_of (filter (\<lambda>(_, m). ms_TeamName m \<noteq> nm) xs) = without_team nm (map_of xs)"
  by (rule ext) (simp add: map_of_filter_val without_team_def split: option.split)

lemma refines_delete:
  assumes ok: "teams_ok rt"
  shows "refines (CDelete nm) rt"
proof (cases "DeleteTeam nm rt")
  case (Pair r rt')
  show ?thesis
  proof (cases "r = Ret None")
    case False
    then have "rt' = rt"
      using Pair by (auto simp: DeleteTeam_def split: if_splits option.splits prod.splits)
    then show ?thesis using Pair False ok
      by (intro refinesI [where out = "OErr r" and rt' = rt]) simp_all
  next
    case True
    then have rt': "rt' = rt\<lparr>rt_members := filter (\<lambda>(_, m). ms_TeamName m \<noteq> nm) (rt_members rt),
        rt_teams := AList.delete nm (rt_teams rt)\<rparr>"
      using Pair by (auto simp: DeleteTeam_def split: if_splits option.splits prod.splits)
    have d: "distinct (map fst (rt_members rt))" using ok by (simp add: teams_ok_def)
    have tok: "teams_ok rt'"
      using ok teams_delete [OF teams_okD [OF ok], of nm]
      by (simp add: rt' teams_ok_def distinct_delete distinct_map_filter map_of_without [OF d])
    moreover have "run_roles rt' = (\<lambda>(a, t). if t = nm then None else run_roles rt (a, t))"
      using roles_of_delete [OF teams_okD [OF ok], of nm]
      unfolding run_roles_def rt' by (simp add: map_of_without [OF d])
    moreover have "run_teams rt' = run_teams rt - {nm}"
      by (auto simp: run_teams_def rt')
    ultimately show ?thesis using Pair True
      by (intro refinesI [where out = "OErr (Ret None)" and rt' = rt']) simp_all
  qed
qed

lemma refines_update:
  assumes ok: "teams_ok rt"
  shows "refines (CUpdate nm new topo) rt"
proof (cases "rt_wedged rt \<or> map_of (rt_teams rt) nm = None")
  case True
  show ?thesis
  proof (cases "rt_wedged rt")
    case True
    then show ?thesis using ok
      by (intro refinesI [where out = "OErr Blocked" and rt' = rt]) (simp_all add: UpdateTeam_def)
  next
    case False
    then have "map_of (rt_teams rt) nm = None" using True by simp
    then show ?thesis using ok False
      by (intro refinesI [where out = "OErr (Ret (Some (''runtime.UpdateTeam: unknown team '' @ quote nm)))"
            and rt' = rt]) (simp_all add: UpdateTeam_def del: map_of_eq_None_iff)
  qed
next
  case False
  then obtain t0 where t0: "map_of (rt_teams rt) nm = Some t0" and up: "\<not> rt_wedged rt" by blast
  define t where "t = (if topo \<noteq> [] then t0\<lparr>te_Topology := topo\<rparr> else t0)"
  define rt1 where "rt1 = rt\<lparr>rt_teams := AList.update nm t (rt_teams rt)\<rparr>"
  have nm: "te_Name t = nm" using teams_invD(1) [OF teams_okD [OF ok] t0] by (simp add: t_def)
  have inv1: "teams_inv ((map_of (rt_teams rt))(nm \<mapsto> t)) (map_of (rt_members rt))"
    by (rule teams_add [OF teams_okD [OF ok] nm])
  have ok1: "teams_ok rt1"
    using ok inv1 by (simp add: rt1_def teams_ok_def distinct_update)
  have same: "run_roles rt1 = run_roles rt" "run_teams rt1 = run_teams rt"
    using t0 by (auto simp: rt1_def run_roles_def run_teams_def)
  consider (keep) "new = [] \<or> new = nm" | (taken) "new \<noteq> []" "new \<noteq> nm" "map_of (rt_teams rt1) new \<noteq> None"
    | (move) "new \<noteq> []" "new \<noteq> nm" "map_of (rt_teams rt1) new = None" by blast
  then show ?thesis
  proof cases
    case keep
    then show ?thesis using ok1 same up t0
      by (intro refinesI [where out = "OErr (Ret None)" and rt' = rt1])
        (auto simp: UpdateTeam_def Let_def t_def rt1_def)
  next
    case taken
    have "UpdateTeam nm new topo rt = (Ret (Some (''runtime.UpdateTeam: name '' @ quote new @ '' already in use'')), rt1)"
      using taken up by (simp only: UpdateTeam_def t0 option.case Let_def t_def [symmetric] rt1_def [symmetric]
          if_True if_False simp_thms not_None_eq)
    then show ?thesis using ok1 same
      by (intro refinesI [where out = "OErr (Ret (Some (''runtime.UpdateTeam: name '' @ quote new @ '' already in use'')))"
            and rt' = rt1]) simp_all
  next
    case move
    let ?ms = "rekey (\<lambda>m. ms_TeamName m = nm) (\<lambda>m. m\<lparr>ms_TeamName := new\<rparr>)
      (\<lambda>m. member_key (ms_AgentName m) new) (rt_members rt1)"
    let ?rt2 = "rt1\<lparr>rt_teams := AList.update new (t\<lparr>te_Name := new\<rparr>) (AList.delete nm (rt_teams rt1)),
      rt_members := ?ms, rt_info := map (\<lambda>(i, info). (i, retag_info nm new info)) (rt_info rt1)\<rparr>"
    have U: "UpdateTeam nm new topo rt = (Ret None, ?rt2)"
      using move up by (simp only: UpdateTeam_def t0 option.case Let_def t_def [symmetric] rt1_def [symmetric]
          if_True if_False simp_thms)
    have d: "distinct (map fst (rt_members rt1))" using ok1 by (simp add: teams_ok_def)
    note mv = team_moved [OF teams_okD [OF ok1] d move(3) move(2)]
    have "teams_inv ((map_of (rt_teams rt1))(nm := None, new \<mapsto> t\<lparr>te_Name := new\<rparr>)) (map_of ?ms)"
      by (rule teams_rename_team [OF teams_okD [OF ok1] move(3,2) _ mv]) simp
    then have ok2: "teams_ok ?rt2"
      using ok1 by (simp add: teams_ok_def distinct_update distinct_delete rekey_distinct)
    have roles2: "run_roles ?rt2 = roles_apply (CUpdate nm new topo) (run_roles rt)"
      using roles_rename_team [OF teams_okD [OF ok1] move(3,2) mv] move
      unfolding same(1) [symmetric] unfolding run_roles_def by simp
    have teams2: "run_teams ?rt2 = teams_apply (CUpdate nm new topo) (run_teams rt)"
      using move unfolding same(2) [symmetric] by (auto simp: run_teams_def)
    show ?thesis
      by (rule refinesI [where out = "OErr (Ret None)" and rt' = ?rt2])
        (use U ok2 roles2 teams2 in \<open>simp_all del: roles_apply.simps teams_apply.simps\<close>)
  qed
qed

lemma refines_rename:
  assumes ok: "teams_ok rt" "names_ok rt" and new: "bar_free new"
  shows "refines (CRename fid now old new) rt"
proof (cases "Rename fid now old new rt")
  case (Pair r rt')
  show ?thesis
  proof (cases "rt' = rt")
    case True
    have "r \<noteq> Ret None \<or> old = new"
    proof (rule ccontr)
      assume "\<not> (r \<noteq> Ret None \<or> old = new)"
      then have "rt_byName rt' \<noteq> rt_byName rt"
        using Pair
        by (auto simp: Rename_def dir_fields split: if_splits option.splits dest!: arg_cong [where f = map_of] fun_cong [of _ _ new])
      then show False using True by simp
    qed
    then show ?thesis using Pair True ok(1)
      by (intro refinesI [where out = "OErr r" and rt' = rt]) auto
  next
    case False
    then obtain i where i: "map_of (rt_byName rt) old = Some i"
      and r: "r = Ret None" "old \<noteq> new"
      and me: "rt_members rt' = rekey (\<lambda>m. ms_AgentName m = old) (\<lambda>m. m\<lparr>ms_AgentName := new\<rparr>)
           (\<lambda>m. member_key new (ms_TeamName m)) (rt_members rt)"
      and te: "rt_teams rt' = rt_teams rt"
      using Pair by (auto simp: Rename_def dir_fields split: if_splits option.splits)
    have bo: "bar_free old" by (rule names_invD(2) [OF names_okD [OF ok(2)] i])
    have d: "distinct (map fst (rt_members rt))" using ok(1) by (simp add: teams_ok_def)
    note mv = agent_moved [OF teams_okD [OF ok(1)] d new r(2) [symmetric]]
    have "teams_inv (map_of (rt_teams rt')) (map_of (rt_members rt'))"
      unfolding te me by (rule teams_rename_agent [OF teams_okD [OF ok(1)] new mv])
    then have ok2: "teams_ok rt'" using ok(1) by (simp add: teams_ok_def te me rekey_distinct)
    have "run_roles rt' = roles_apply (CRename fid now old new) (run_roles rt)"
      using roles_rename_agent [OF teams_okD [OF ok(1)] new bo r(2) [symmetric] mv] r(2)
      unfolding run_roles_def me by simp
    then show ?thesis
      by (intro refinesI [where out = "OErr (Ret None)" and rt' = rt'])
        (use Pair r ok2 te in \<open>simp_all add: run_teams_def\<close>)
  qed
qed

lemma exec_refines:
  assumes "teams_ok rt" "names_ok rt" "call_ok rt c"
  shows "refines c rt"
proof (cases c)
  case (CCreate now nm canon topo)
  then show ?thesis using refines_create assms by simp
next
  case (CJoin now a tm role brief)
  then show ?thesis using refines_join assms by simp
next
  case (CDelete nm)
  then show ?thesis using refines_delete assms by simp
next
  case (CUpdate nm new topo)
  then show ?thesis using refines_update assms by simp
next
  case (CLeave now a tm)
  then show ?thesis using refines_leave assms by simp
next
  case (CRename fid now old new)
  then show ?thesis using refines_rename assms by simp
qed (use assms in \<open>intro refines_untouched; simp add: dir_fields poke_snd\<close>)+

lemma run_refines:
  assumes "teams_ok rt" "names_ok rt" "rt_valid cs rt"
  shows "teams_ok (rt_run cs rt) \<and> names_ok (rt_run cs rt)
    \<and> run_roles (rt_run cs rt) = foldl roles_step (run_roles rt) (rt_trace cs rt)
    \<and> run_teams (rt_run cs rt) = foldl teams_step (run_teams rt) (rt_trace cs rt)"
  using assms
proof (induction cs arbitrary: rt)
  case (Cons c cs)
  have ok: "call_ok rt c" and rest: "rt_valid cs (snd (exec c rt))" using Cons.prems(3) by simp_all
  have r: "teams_ok (snd (exec c rt))"
    "run_roles (snd (exec c rt)) = roles_step (run_roles rt) (c, fst (exec c rt))"
    "run_teams (snd (exec c rt)) = teams_step (run_teams rt) (c, fst (exec c rt))"
    using exec_refines [OF Cons.prems(1,2) ok] by (simp_all add: refines_def split_beta)
  from Cons.IH [OF r(1) exec_names [OF Cons.prems(2) ok] rest] show ?case by (simp add: r)
qed simp

lemma new_runtime_ok: "teams_ok (newRuntime dir)" "names_ok (newRuntime dir)"
  by (simp_all add: newRuntime_def teams_ok_def names_ok_def teams_inv_def names_inv_def)

lemma new_runtime_empty: "run_roles (newRuntime dir) = (\<lambda>_. None)" "run_teams (newRuntime dir) = {}"
  by (auto simp: newRuntime_def run_roles_def run_teams_def roles_of_def)

lemma members_listed:
  assumes ok: "teams_ok rt"
  shows "m \<in> set (ListMemberships fa ft rt) \<longleftrightarrow>
      (\<exists>a t. run_roles rt (a, t) = Some m \<and> (fa \<noteq> [] \<longrightarrow> a = fa) \<and> (ft \<noteq> [] \<longrightarrow> t = ft))"
    (is "?l \<longleftrightarrow> ?r")
proof
  assume ?l
  then obtain k where "(k, m) \<in> set (rt_members rt)"
    and f: "fa \<noteq> [] \<longrightarrow> ms_AgentName m = fa" "ft \<noteq> [] \<longrightarrow> ms_TeamName m = ft"
    by (auto simp: ListMemberships_def)
  then have "map_of (rt_members rt) k = Some m" using ok by (simp add: teams_ok_def)
  from roles_of_member [OF teams_okD [OF ok] this] f show ?r by (auto simp: run_roles_def)
next
  assume ?r
  then obtain a t where r: "run_roles rt (a, t) = Some m" "fa \<noteq> [] \<longrightarrow> a = fa" "ft \<noteq> [] \<longrightarrow> t = ft" by blast
  have "ms_AgentName m = a \<and> ms_TeamName m = t \<and> bar_free a \<and>
      map_of (rt_members rt) (member_key a t) = Some m"
    by (rule roles_of_Some [OF teams_okD [OF ok]]) (use r(1) in \<open>simp add: run_roles_def\<close>)
  then have "ms_AgentName m = a" "ms_TeamName m = t" "(member_key a t, m) \<in> set (rt_members rt)"
    by (auto dest: map_of_SomeD)
  then show ?l using r(2,3) by (force simp: ListMemberships_def)
qed

lemma members_distinct:
  assumes ok: "teams_ok rt"
  shows "distinct (ListMemberships fa ft rt)"
proof -
  have "inj_on snd (set (rt_members rt))"
  proof (rule inj_onI)
    fix x y assume xy: "x \<in> set (rt_members rt)" "y \<in> set (rt_members rt)" "snd x = snd y"
    have d: "distinct (map fst (rt_members rt))" using ok by (simp add: teams_ok_def)
    have "fst z = member_key (ms_AgentName (snd z)) (ms_TeamName (snd z))" if "z \<in> set (rt_members rt)" for z
      by (rule teams_invD(2) [OF teams_okD [OF ok]]) (use d that in simp)
    from this [OF xy(1)] this [OF xy(2)] xy(3) show "x = y" by (simp add: prod_eq_iff)
  qed
  then have "distinct (map snd (rt_members rt))"
    using ok by (simp add: teams_ok_def distinct_map)
  then show ?thesis by (simp add: ListMemberships_def)
qed

lemma teams_listed:
  assumes ok: "teams_ok rt"
  shows "te_Name ` set (ListTeams rt) = run_teams rt"
proof -
  have d: "distinct (map fst (rt_teams rt))" using ok by (simp add: teams_ok_def)
  have "te_Name t = n" if "(n, t) \<in> set (rt_teams rt)" for n t
    by (rule teams_invD(1) [OF teams_okD [OF ok]]) (use d that in simp)
  then have "te_Name ` set (ListTeams rt) = fst ` set (rt_teams rt)"
    by (force simp: ListTeams_def image_iff)
  then show ?thesis by (simp add: run_teams_def dom_map_of_conv_image_fst)
qed

section \<open>Property\<close>


definition example_info :: "string \<Rightarrow> string \<Rightarrow> session_info" where
  "example_info i nm = \<lparr>si_ID = i, si_Name = nm, si_AgentSlug = ''claude-code'', si_Team = ''default'',
     si_Role = ''worker'', si_Paused = False, si_Icon = [], si_Shepherding = [], si_Exited = False,
     si_ExitCode = 0, si_LastOutput = [], si_Scorecard = None, si_TrustBand = [], si_InterventionCount = 0,
     si_LastVerdict = [], si_LastVerdictAt = 0, si_LastVerdictMsg = [], si_SystemPrompt = [],
     si_StatSheet = \<lparr>ss_ContextBudget = 0, ss_ModelTier = [], ss_DisciplineWeight = 0, ss_VelocityExpect = [],
       ss_TokenBudgetUSD = 0, ss_ToolAllowlist = None\<rparr>, si_GitHubURL = []\<rparr>"

definition example_calls :: "rt_call list" where
  "example_calls =
     [CReserve ''ann'' ''claude-code'', CRegister ''ann-1'' (example_info ''ann-1'' ''ann''),
      CJoin 1 ''ann'' ''web'' ''worker'' [], CUpdate ''web'' ''site'' [],
      CRename ''ev-1'' 2 ''ann'' ''eve'', CJoin 3 ''bob'' ''site'' ''worker'' []]"


section \<open>What the directory does not protect\<close>

text \<open>Stopping an agent keeps its memberships: the next agent of that name has its roles.\<close>

lemma stop_keeps_roles: "run_roles (snd (rt_Stop nm now rt)) = run_roles rt"
  by (simp add: run_roles_def dir_fields)

text \<open>A membership key does not say where the agent's name ends.\<close>

lemma barred_name_leaves_for_another:
  assumes "\<not> rt_wedged rt" "map_of (rt_members rt) (member_key a (b @ ''|'' @ c)) = Some m"
  shows "fst (LeaveTeam now (a @ ''|'' @ b) c rt) = Ret True
    \<and> map_of (rt_members (snd (LeaveTeam now (a @ ''|'' @ b) c rt))) (member_key a (b @ ''|'' @ c)) = None"
  using assms by (simp add: LeaveTeam_def member_key_def dir_fields)

text \<open>A failed rename of a team has already changed its topology.\<close>

lemma failed_team_rename_sets_topology:
  assumes "\<not> rt_wedged rt" "map_of (rt_teams rt) nm = Some t" "map_of (rt_teams rt) new = Some u"
    "new \<noteq> []" "new \<noteq> nm" "topo \<noteq> []"
  shows "fst (UpdateTeam nm new topo rt) \<noteq> Ret None
    \<and> map_of (rt_teams (snd (UpdateTeam nm new topo rt))) nm = Some (t\<lparr>te_Topology := topo\<rparr>)"
  using assms by (simp add: UpdateTeam_def Let_def)

section \<open>A panic under the lock\<close>

definition same_directory :: "runtime \<Rightarrow> runtime \<Rightarrow> bool" where
  "same_directory rt rt' \<longleftrightarrow> rt_byName rt' = rt_byName rt \<and> rt_info rt' = rt_info rt \<and>
     rt_teams rt' = rt_teams rt \<and> rt_members rt' = rt_members rt"

lemma wedged_ops:
  assumes "rt_wedged rt"
  shows "agent_op d w nm f rt = (Blocked, rt)"
    and "then_record e (Blocked, rt) = (Blocked, rt)"
  using assms by (simp_all add: agent_op_def then_record_def)

lemma wedged_exec:
  assumes "rt_wedged rt"
  shows "rt_wedged (snd (exec c rt)) \<and> same_directory rt (snd (exec c rt))"
  using assms
  by (cases c) (simp_all add: same_directory_def agent_op_defs PokePrompt_def wedged_ops Let_def
      spawn_reserve_def spawn_abort_def spawn_register_def spawn_announce_def markExited_flip_def
      markExited_drop_def rt_Stop_def Rename_def CreateTeam_def JoinTeam_def DeleteTeam_def UpdateTeam_def
      LeaveTeam_def SetReviewAxis_def GrantChannel_def close_events_def take_event_def dir_fields)

lemma wedged_run: "rt_wedged rt \<Longrightarrow> rt_wedged (rt_run cs rt) \<and> same_directory rt (rt_run cs rt)"
proof (induction cs arbitrary: rt)
  case (Cons c cs)
  from Cons.IH [of "snd (exec c rt)"] wedged_exec [OF Cons.prems, of c] show ?case
    by (simp add: same_directory_def)
qed (simp add: same_directory_def)

text \<open>The operations that record a judgement and release the mutex by hand.\<close>

fun judges :: "string \<Rightarrow> rt_call \<Rightarrow> bool" where
  "judges nm (CScore fid now caller nm' sc) \<longleftrightarrow> nm' = nm"
| "judges nm (CVerdict fid now caller nm' v msg) \<longleftrightarrow> nm' = nm"
| "judges nm (CPoke fid now live nm' body) \<longleftrightarrow> nm' = nm"
| "judges nm _ \<longleftrightarrow> False"

lemma judge_panics:
  assumes "judges nm c" "\<not> rt_wedged rt" "map_of (rt_byName rt) nm = Some i" "map_of (rt_info rt) i = None"
  shows "exec c rt = (OErr Panic, rt\<lparr>rt_wedged := True\<rparr>)"
proof -
  have "agent_op False w nm f rt = (Panic, rt\<lparr>rt_wedged := True\<rparr>)" for w f
    using assms(2-4) by (simp add: agent_op_def)
  then show ?thesis
    using assms(1)
    by (cases c) (simp_all add: SetScorecard_def RecordVerdict_def PokePrompt_def then_record_def Let_def)
qed

text \<open>after any run from the start, a scorecard, a verdict or a new prompt for an agent whose spawn
  is in progress panics with the runtime's mutex held, and from then on nothing the runtime is asked
  ever takes effect: every lookup, spawn and join blocks and the directory never changes again.\<close>

theorem judging_a_pending_spawn_wedges:
  assumes "rt_valid cs (newRuntime dir)"
    and "nm \<in> set (rt_spawning (rt_run cs (newRuntime dir)))" "\<not> rt_wedged (rt_run cs (newRuntime dir))"
    and "judges nm c"
  defines "rt \<equiv> rt_run cs (newRuntime dir)"
  shows "fst (exec c rt) = OErr Panic
    \<and> (\<forall>ds. let rt' = rt_run ds (snd (exec c rt)) in
         same_directory rt rt' \<and> rt_Get x rt' = Blocked
         \<and> (y \<noteq> [] \<and> slug \<noteq> [] \<longrightarrow> fst (spawn_reserve y slug rt') = Blocked)
         \<and> fst (JoinTeam now a tm role brief rt') = Blocked)"
proof -
  have ok: "names_ok rt" using run_refines [OF new_runtime_ok assms(1)] by (simp add: rt_def)
  have b: "map_of (rt_byName rt) nm = Some sentinel"
    by (rule names_invD(6) [OF names_okD [OF ok]]) (use assms(2) in \<open>simp add: rt_def\<close>)
  have "map_of (rt_info rt) sentinel = None"
    using names_invD(5) [OF names_okD [OF ok], of sentinel] by (cases "map_of (rt_info rt) sentinel") auto
  from judge_panics [OF assms(4) _ b this] assms(3)
  have e: "exec c rt = (OErr Panic, rt\<lparr>rt_wedged := True\<rparr>)" by (simp add: rt_def)
  have "rt_wedged (rt_run ds (rt\<lparr>rt_wedged := True\<rparr>)) \<and> same_directory rt (rt_run ds (rt\<lparr>rt_wedged := True\<rparr>))" for ds
    using wedged_run [of "rt\<lparr>rt_wedged := True\<rparr>" ds] by (simp add: same_directory_def)
  then show ?thesis
    unfolding e by (simp add: Let_def rt_Get_def spawn_reserve_def JoinTeam_def)
qed

lemma judging_a_pending_spawn_wedges_witness:
  "fst (exec (CVerdict ''ev-1'' 5 [] ''ann'' ''coach'' [])
     (rt_run [CReserve ''ann'' ''claude-code''] (newRuntime ''d''))) = OErr Panic"
  by (rule judging_a_pending_spawn_wedges [where nm = "''ann''", THEN conjunct1]) code_simp+

end
