(* ===== verification/Grants.thy ===== *)
theory Grants
  imports Task_Store Rpc_Router
begin

text \<open>
  Grants: the store of \<open>internal/persistence/sqlite/rbac_grants.go\<close>, its HTTP surface and the production
  grant check of \<open>internal/runtimehttp/grants.go\<close>, the tokens \<open>internal/runtimehttp/jwt_mint.go\<close> mints
  on its answer, and the authenticated Agent Card of \<open>internal/a2a/extended_card.go\<close> that shows a
  caller its grants. The columns \<open>scope_json\<close>, \<open>permissions_json\<close> and \<open>rate_limit_json\<close> are JSON.
  Instants are compared as instants, which the databases do for the UTC instants the program stores.
\<close>

section \<open>Grants and rows\<close>

record grant_scope =
  gs_Type :: string
  gs_WorkspaceID :: string
  gs_TeamID :: string
  gs_AgentSID :: string

record grant_rate =
  gl_CallsPerMinute :: int
  gl_CallsPerDay :: int

record grant =
  gr_ID :: string
  gr_GranterOrg :: string
  gr_GranteeOrg :: string
  gr_Scope :: grant_scope
  gr_Permissions :: "string list"
  gr_RateLimit :: "grant_rate option"
  gr_ExpiresAt :: "time option"
  gr_Accepted :: bool
  gr_CreatedBy :: string
  gr_CreatedAt :: time

record grant_row =
  gw_ID :: string
  gw_GranterOrg :: string
  gw_GranteeOrg :: string
  gw_ScopeJSON :: raw
  gw_PermsJSON :: raw
  gw_RateJSON :: raw
  gw_ExpiresAt :: "time option"
  gw_Accepted :: bool
  gw_CreatedBy :: string
  gw_CreatedAt :: time

type_synonym grant_rows = "grant_row list"

definition enc_scope :: "grant_scope \<Rightarrow> json" where
  "enc_scope s = JObj [(''Type'', JStr (gs_Type s)), (''WorkspaceID'', JStr (gs_WorkspaceID s)),
     (''TeamID'', JStr (gs_TeamID s)), (''AgentSID'', JStr (gs_AgentSID s))]"

definition dec_scope :: "json \<Rightarrow> grant_scope result" where
  "dec_scope j0 = res_bind (struct_ok ''persistence.GrantScope'' j0) (\<lambda>j.
     res_bind (get_str ''Type'' j) (\<lambda>ty. res_bind (get_str ''WorkspaceID'' j) (\<lambda>w.
     res_bind (get_str ''TeamID'' j) (\<lambda>t. res_bind (get_str ''AgentSID'' j) (\<lambda>a.
       Inr \<lparr>gs_Type = ty, gs_WorkspaceID = w, gs_TeamID = t, gs_AgentSID = a\<rparr>)))))"

definition enc_rate :: "grant_rate \<Rightarrow> json" where
  "enc_rate l = JObj [(''CallsPerMinute'', JNum (gl_CallsPerMinute l)), (''CallsPerDay'', JNum (gl_CallsPerDay l))]"

definition dec_rate :: "json \<Rightarrow> grant_rate result" where
  "dec_rate j0 = res_bind (struct_ok ''persistence.GrantRateLimit'' j0) (\<lambda>j.
     res_bind (get_int ''CallsPerMinute'' j) (\<lambda>m. res_bind (get_int ''CallsPerDay'' j) (\<lambda>d.
       Inr \<lparr>gl_CallsPerMinute = m, gl_CallsPerDay = d\<rparr>)))"

lemma dec_enc_scope [simp]: "dec_scope (enc_scope s) = Inr s"
  by (simp add: dec_scope_def enc_scope_def get_str_def jget_def fold_eq_eval)

lemma enc_rate_not_null [simp]: "enc_rate l \<noteq> JNull"
  by (simp add: enc_rate_def)

lemma dec_enc_rate [simp]: "dec_rate (enc_rate l) = Inr l"
  by (simp add: dec_rate_def enc_rate_def get_int_def jget_def fold_eq_eval)

section \<open>The repository\<close>

definition grant_of_row :: "grant_row \<Rightarrow> string \<Rightarrow> grant result" where
  "grant_of_row r pre =
     (case unmarshal dec_scope (gw_ScopeJSON r) of
        Inl e \<Rightarrow> Inl (pre @ '' scope: '' @ e)
      | Inr sc \<Rightarrow> (case unmarshal dec_strings (gw_PermsJSON r) of
          Inl e \<Rightarrow> Inl (pre @ '' perms: '' @ e)
        | Inr ps \<Rightarrow>
            let g = (\<lambda>rl. \<lparr>gr_ID = gw_ID r, gr_GranterOrg = gw_GranterOrg r, gr_GranteeOrg = gw_GranteeOrg r,
                  gr_Scope = sc, gr_Permissions = ps, gr_RateLimit = rl, gr_ExpiresAt = gw_ExpiresAt r,
                  gr_Accepted = gw_Accepted r, gr_CreatedBy = gw_CreatedBy r, gr_CreatedAt = gw_CreatedAt r\<rparr>)
            in if gw_RateJSON r \<noteq> RawJson JNull \<and> gw_RateJSON r \<noteq> RawEmpty
               then (case unmarshal dec_rate (gw_RateJSON r) of
                   Inl e \<Rightarrow> Inl (pre @ '' rate: '' @ e) | Inr rl \<Rightarrow> Inr (g (Some rl)))
               else Inr (g None)))"

definition grant_Get :: "go_error option \<Rightarrow> grant_rows \<Rightarrow> string \<Rightarrow> grant result" where
  "grant_Get err rows k =
     (if k = [] then Inl ''sqlite RBACGrantRepository: empty id''
      else case err of
        Some e \<Rightarrow> Inl (''sqlite rbac_grants Get '' @ quote k @ '': '' @ e)
      | None \<Rightarrow> (case row_get gw_ID k rows of
          None \<Rightarrow> Inl (''sqlite rbac_grants Get '' @ quote k @ '': not found'')
        | Some r \<Rightarrow> grant_of_row r (''sqlite rbac_grants Get '' @ quote k)))"

record grant_list_opts =
  go_GranterOrg :: string
  go_GranteeOrg :: string
  go_OnlyActive :: bool

definition grant_matches :: "grant_list_opts \<Rightarrow> time \<Rightarrow> grant_row \<Rightarrow> bool" where
  "grant_matches opts now r \<longleftrightarrow>
     (go_GranterOrg opts \<noteq> [] \<longrightarrow> gw_GranterOrg r = go_GranterOrg opts) \<and>
     (go_GranteeOrg opts \<noteq> [] \<longrightarrow> gw_GranteeOrg r = go_GranteeOrg opts) \<and>
     (go_OnlyActive opts \<longrightarrow> gw_Accepted r \<and>
        (case gw_ExpiresAt r of None \<Rightarrow> True | Some t \<Rightarrow> t > now))"

text \<open>\<open>List\<close> selects ids, newest first, and gets each record; \<open>gerr\<close> is the failure of one such get.\<close>

definition grant_List ::
    "go_error option \<Rightarrow> (string \<Rightarrow> go_error option) \<Rightarrow> time \<Rightarrow> grant_rows \<Rightarrow> grant_list_opts \<Rightarrow> grant list result"
where
  "grant_List qerr gerr now rows opts =
     (case qerr of
        Some e \<Rightarrow> Inl (''sqlite rbac_grants List: '' @ e)
      | None \<Rightarrow>
          res_mapM (\<lambda>k. grant_Get (gerr k) rows k)
            (map gw_ID (sort_key (\<lambda>r. - gw_CreatedAt r) (filter (grant_matches opts now) rows))))"

definition row_of_grant :: "grant \<Rightarrow> grant_row" where
  "row_of_grant g = \<lparr>gw_ID = gr_ID g, gw_GranterOrg = gr_GranterOrg g, gw_GranteeOrg = gr_GranteeOrg g,
     gw_ScopeJSON = RawJson (enc_scope (gr_Scope g)),
     gw_PermsJSON = RawJson (JArr (map JStr (gr_Permissions g))),
     gw_RateJSON = (case gr_RateLimit g of None \<Rightarrow> RawJson JNull | Some l \<Rightarrow> RawJson (enc_rate l)),
     gw_ExpiresAt = gr_ExpiresAt g, gw_Accepted = gr_Accepted g, gw_CreatedBy = gr_CreatedBy g,
     gw_CreatedAt = gr_CreatedAt g\<rparr>"

text \<open>The \<open>ON CONFLICT\<close> clause keeps who created the grant and when.\<close>

definition grant_merge :: "grant_row \<Rightarrow> grant_row \<Rightarrow> grant_row" where
  "grant_merge old new = new\<lparr>gw_CreatedBy := gw_CreatedBy old, gw_CreatedAt := gw_CreatedAt old\<rparr>"

text \<open>\<open>Save\<close> returns the table, the grant as written through the caller's pointer, and the error.\<close>

definition grant_Save ::
    "go_error option \<Rightarrow> time \<Rightarrow> grant_rows \<Rightarrow> grant option \<Rightarrow> grant_rows \<times> grant option \<times> go_error option" where
  "grant_Save err now rows gp =
     (case gp of
        None \<Rightarrow> (rows, gp, Some ''sqlite RBACGrantRepository: nil grant'')
      | Some g \<Rightarrow>
          if gr_ID g = [] then (rows, gp, Some ''sqlite RBACGrantRepository: empty grant ID'')
          else if gr_GranterOrg g = [] \<or> gr_GranteeOrg g = []
          then (rows, gp, Some ''sqlite RBACGrantRepository: empty granter/grantee org'')
          else
            let g1 = (if gr_CreatedAt g = time_zero then g\<lparr>gr_CreatedAt := now\<rparr> else g)
            in (case err of
                  Some e \<Rightarrow> (rows, Some g1, Some (''sqlite rbac_grants Save '' @ quote (gr_ID g) @ '': '' @ e))
                | None \<Rightarrow> (row_upsert gw_ID grant_merge (row_of_grant g1) rows, Some g1, None)))"

definition grant_Delete :: "go_error option \<Rightarrow> grant_rows \<Rightarrow> string \<Rightarrow> grant_rows \<times> go_error option" where
  "grant_Delete err rows k =
     (if k = [] then (rows, Some ''sqlite RBACGrantRepository: empty id'')
      else case err of
        Some e \<Rightarrow> (rows, Some (''sqlite rbac_grants Delete '' @ quote k @ '': '' @ e))
      | None \<Rightarrow> (row_delete gw_ID k rows, None))"

section \<open>HTTP surface\<close>

record grant_scope_wire =
  wsc_type :: string
  wsc_workspace_id :: string
  wsc_team_id :: string
  wsc_agent_sid :: string

record grant_rate_wire =
  wrl_calls_per_minute :: int
  wrl_calls_per_day :: int

text \<open>A decoded body is a grant in wire form; an unset id or creation time is empty or zero.\<close>

record grant_wire =
  w_id :: string
  w_granter_org :: string
  w_grantee_org :: string
  w_scope :: grant_scope_wire
  w_permissions :: "string list"
  w_rate_limit :: "grant_rate_wire option"
  w_expires_at :: "time option"
  w_accepted :: bool
  w_created_by :: string
  w_created_at :: time

definition scope_wire :: "grant_scope \<Rightarrow> grant_scope_wire" where
  "scope_wire s = \<lparr>wsc_type = gs_Type s, wsc_workspace_id = gs_WorkspaceID s, wsc_team_id = gs_TeamID s,
     wsc_agent_sid = gs_AgentSID s\<rparr>"

definition rate_wire :: "grant_rate \<Rightarrow> grant_rate_wire" where
  "rate_wire l = \<lparr>wrl_calls_per_minute = gl_CallsPerMinute l, wrl_calls_per_day = gl_CallsPerDay l\<rparr>"

definition toWire :: "grant \<Rightarrow> grant_wire" where
  "toWire g = \<lparr>w_id = gr_ID g, w_granter_org = gr_GranterOrg g, w_grantee_org = gr_GranteeOrg g,
     w_scope = scope_wire (gr_Scope g), w_permissions = gr_Permissions g,
     w_rate_limit = map_option rate_wire (gr_RateLimit g), w_expires_at = gr_ExpiresAt g,
     w_accepted = gr_Accepted g, w_created_by = gr_CreatedBy g, w_created_at = gr_CreatedAt g\<rparr>"

definition fromWire :: "grant_wire \<Rightarrow> grant" where
  "fromWire w = \<lparr>gr_ID = w_id w, gr_GranterOrg = w_granter_org w, gr_GranteeOrg = w_grantee_org w,
     gr_Scope = \<lparr>gs_Type = wsc_type (w_scope w), gs_WorkspaceID = wsc_workspace_id (w_scope w),
       gs_TeamID = wsc_team_id (w_scope w), gs_AgentSID = wsc_agent_sid (w_scope w)\<rparr>,
     gr_Permissions = w_permissions w,
     gr_RateLimit = map_option (\<lambda>l. \<lparr>gl_CallsPerMinute = wrl_calls_per_minute l,
       gl_CallsPerDay = wrl_calls_per_day l\<rparr>) (w_rate_limit w),
     gr_ExpiresAt = w_expires_at w, gr_Accepted = w_accepted w, gr_CreatedBy = w_created_by w,
     gr_CreatedAt = w_created_at w\<rparr>"

lemma fromWire_toWire [simp]: "fromWire (toWire g) = g"
  by (cases "gr_RateLimit g") (simp_all add: fromWire_def toWire_def scope_wire_def rate_wire_def)

lemma toWire_inj: "toWire g = toWire h \<longleftrightarrow> g = h"
  by (metis fromWire_toWire)

datatype grant_body =
    GText string
  | GList "grant_wire list"
  | GOne grant_wire
  | GEmpty

record grant_request =
  gq_Method :: string
  gq_Path :: string
  gq_Query :: "string \<Rightarrow> string"
  gq_Body :: "grant_wire result"

record grant_faults =
  gf_query :: "go_error option"
  gf_get :: "string \<Rightarrow> go_error option"
  gf_write :: "go_error option"

type_synonym grant_reply = "nat \<times> grant_body"

definition grants_list :: "grant_faults \<Rightarrow> time \<Rightarrow> grant_request \<Rightarrow> grant_rows \<Rightarrow> grant_reply" where
  "grants_list fl now rq rows =
     (case grant_List (gf_query fl) (gf_get fl) now rows
             \<lparr>go_GranterOrg = gq_Query rq ''granter_org'', go_GranteeOrg = gq_Query rq ''grantee_org'',
              go_OnlyActive = (gq_Query rq ''only_active'' = ''true'')\<rparr> of
        Inl e \<Rightarrow> (500, GText (''list: '' @ e))
      | Inr gs \<Rightarrow> (200, GList (map toWire gs)))"

definition grants_post ::
    "grant_faults \<Rightarrow> string \<Rightarrow> time \<Rightarrow> grant_request \<Rightarrow> grant_rows \<Rightarrow> grant_reply \<times> grant_rows" where
  "grants_post fl freshID now rq rows =
     (case gq_Body rq of
        Inl e \<Rightarrow> ((400, GText (''bad json: '' @ e)), rows)
      | Inr body \<Rightarrow>
          if w_granter_org body = [] \<or> w_grantee_org body = []
          then ((400, GText ''granter_org and grantee_org are required''), rows)
          else if wsc_type (w_scope body) \<notin> {''workspace'', ''team'', ''agent''}
          then ((400, GText ''scope.type must be one of workspace|team|agent''), rows)
          else
            let b1 = (if w_id body = [] then body\<lparr>w_id := freshID\<rparr> else body);
                b2 = (if w_created_at b1 = time_zero then b1\<lparr>w_created_at := now\<rparr> else b1)
            in (case grant_Save (gf_write fl) now rows (Some (fromWire b2)) of
                  (rows', _, Some e) \<Rightarrow> ((500, GText (''save: '' @ e)), rows')
                | (rows', g, None) \<Rightarrow> ((201, GOne (toWire (the g))), rows')))"

definition grantsRoot ::
    "grant_faults \<Rightarrow> string \<Rightarrow> time \<Rightarrow> grant_request \<Rightarrow> grant_rows option \<Rightarrow> grant_reply \<times> grant_rows option" where
  "grantsRoot fl freshID now rq store =
     (case store of
        None \<Rightarrow> ((503, GText ''grant store not initialised''), None)
      | Some rows \<Rightarrow>
          if gq_Method rq = ''GET'' then (grants_list fl now rq rows, Some rows)
          else if gq_Method rq = ''POST''
          then (let (r, rows') = grants_post fl freshID now rq rows in (r, Some rows'))
          else ((405, GText ''method not allowed''), Some rows))"

definition grant_id_of :: "string \<Rightarrow> string" where
  "grant_id_of path = hd (split_on (CHR ''/'') (trim_prefix ''/api/v1/grants/'' path))"

definition grantByID ::
    "grant_faults \<Rightarrow> grant_request \<Rightarrow> grant_rows option \<Rightarrow> grant_reply \<times> grant_rows option" where
  "grantByID fl rq store =
     (case store of
        None \<Rightarrow> ((503, GText ''grant store not initialised''), None)
      | Some rows \<Rightarrow>
          let k = grant_id_of (gq_Path rq) in
          if k = [] then ((400, GText ''grant id required''), Some rows)
          else if gq_Method rq = ''GET'' then
            (case grant_Get (gf_get fl k) rows k of
               Inl e \<Rightarrow> ((if str_contains ''not found'' e then (404, GText ''not found'')
                         else (500, GText (''get: '' @ e))), Some rows)
             | Inr g \<Rightarrow> ((200, GOne (toWire g)), Some rows))
          else if gq_Method rq = ''DELETE'' then
            (case grant_Delete (gf_write fl) rows k of
               (rows', Some e) \<Rightarrow> ((500, GText (''delete: '' @ e)), Some rows')
             | (rows', None) \<Rightarrow> ((204, GEmpty), Some rows'))
          else ((405, GText ''method not allowed''), Some rows))"

section \<open>The grant check\<close>

definition grantCovers :: "grant \<Rightarrow> string \<Rightarrow> string \<Rightarrow> bool \<Rightarrow> bool" where
  "grantCovers g targetSID targetTeam haveTeam =
     (let ty = gs_Type (gr_Scope g) in
      if ty = ''agent'' then gs_AgentSID (gr_Scope g) \<noteq> [] \<and> gs_AgentSID (gr_Scope g) = targetSID
      else if ty = ''team''
      then haveTeam \<and> gs_TeamID (gr_Scope g) \<noteq> [] \<and> gs_TeamID (gr_Scope g) = targetTeam
      else False)"

text \<open>The calendar date of a day counted from 0001-01-01, and the format \<open>2006-01-02T15:04\<close>.\<close>

fun month_day :: "nat list \<Rightarrow> nat \<Rightarrow> nat \<Rightarrow> nat \<times> nat" where
  "month_day [] m d = (m, d + 1)"
| "month_day (n # ns) m d = (if d < n then (m, d + 1) else month_day ns (m + 1) (d - n))"

definition civil :: "nat \<Rightarrow> nat \<times> nat \<times> nat" where
  "civil days =
     (let q400 = days div 146097; r400 = days mod 146097;
          q100 = min 3 (r400 div 36524); r100 = r400 - q100 * 36524;
          q4 = r100 div 1461; r4 = r100 mod 1461;
          q1 = min 3 (r4 div 365); yday = r4 - q1 * 365;
          year = 400 * q400 + 100 * q100 + 4 * q4 + q1 + 1;
          leap = (year mod 4 = 0 \<and> (year mod 100 \<noteq> 0 \<or> year mod 400 = 0));
          (m, d) = month_day [31, if leap then 29 else 28, 31, 30, 31, 30, 31, 31, 30, 31, 30] 1 yday
      in (year, m, d))"

definition pad :: "nat \<Rightarrow> nat \<Rightarrow> string" where
  "pad w n = (let s = partIndex n in replicate (w - length s) (CHR ''0'') @ s)"

definition rateWindow :: "time \<Rightarrow> string" where
  "rateWindow now =
     (let mins = nat (now div minute); (y, m, d) = civil (mins div 1440); md = mins mod 1440
      in pad 4 y @ ''-'' @ pad 2 m @ ''-'' @ pad 2 d @ ''T'' @ pad 2 (md div 60) @ '':'' @ pad 2 (md mod 60))"

type_synonym grant_check = "string \<Rightarrow> string \<Rightarrow> string \<times> string \<times> bool"

text \<open>\<open>sessionTeam\<close> is the runtime's lookup of a session's team; \<open>None\<close> when it is not wired.\<close>

definition PersistenceGrantCheck ::
    "grant_faults \<Rightarrow> time \<Rightarrow> grant_rows option \<Rightarrow> (string \<Rightarrow> string \<times> bool) option \<Rightarrow> grant_check" where
  "PersistenceGrantCheck fl now store sessionTeam callerSID targetSID =
     (case store of None \<Rightarrow> ([], [], False)
      | Some rows \<Rightarrow>
          (case grant_List (gf_query fl) (gf_get fl) now rows
                  \<lparr>go_GranterOrg = [], go_GranteeOrg = [], go_OnlyActive = True\<rparr> of
             Inl e \<Rightarrow> ([], [], False)
           | Inr gs \<Rightarrow>
               let (targetTeam, haveTeam) = (case sessionTeam of None \<Rightarrow> ([], False) | Some f \<Rightarrow> f targetSID)
               in (case find (\<lambda>g. grantCovers g targetSID targetTeam haveTeam) gs of
                     None \<Rightarrow> ([], [], False)
                   | Some g \<Rightarrow> (gr_ID g, rateWindow now, True))))"

section \<open>Minting tokens\<close>

record jwt_claims =
  cl_iss :: string
  cl_sub :: string
  cl_aud :: string
  cl_iat :: int
  cl_exp :: int
  cl_jti :: string
  cl_grant_id :: string
  cl_rate_window :: string

definition jwtMintTTL :: int where "jwtMintTTL = 60 * second"

definition unix_seconds :: "time \<Rightarrow> int" where
  "unix_seconds t = t div second - 62135596800"

definition checkGrant :: "grant_check option \<Rightarrow> grant_check" where
  "checkGrant gc callerSID targetSID = (case gc of None \<Rightarrow> ([], [], True) | Some f \<Rightarrow> f callerSID targetSID)"

record mint_request =
  mq_Method :: string
  mq_Host :: string
  mq_TLS :: bool
  mq_ForwardedProto :: string
  mq_Body :: "(string \<times> string) result"

datatype mint_reply =
    MText string
  | MError "(string \<times> string) list"
  | MToken string int

definition mintClaims ::
    "string \<Rightarrow> time \<Rightarrow> mint_request \<Rightarrow> string \<Rightarrow> string \<Rightarrow> string \<Rightarrow> string \<Rightarrow> jwt_claims" where
  "mintClaims freshID now rq sub aud grantID rateWin =
     (let scheme0 = (if mq_TLS rq then ''https'' else ''http'');
          scheme = (if mq_ForwardedProto rq \<noteq> [] then mq_ForwardedProto rq else scheme0)
      in \<lparr>cl_iss = scheme @ ''://'' @ mq_Host rq, cl_sub = sub, cl_aud = aud,
           cl_iat = unix_seconds now, cl_exp = unix_seconds (now + jwtMintTTL), cl_jti = freshID,
           cl_grant_id = grantID, cl_rate_window = rateWin\<rparr>)"

lemma mintClaims_fields [simp]:
  "cl_sub (mintClaims i now rq sub aud g w) = sub" "cl_aud (mintClaims i now rq sub aud g w) = aud"
  "cl_grant_id (mintClaims i now rq sub aud g w) = g"
  by (simp_all add: mintClaims_def Let_def)

text \<open>\<open>sign\<close> is the signer: the key store, or the single key; \<open>None\<close> when neither is wired.\<close>

definition jwtMint ::
    "(jwt_claims \<Rightarrow> string result) option \<Rightarrow> grant_check option \<Rightarrow> string \<Rightarrow> time \<Rightarrow> mint_request
       \<Rightarrow> nat \<times> mint_reply" where
  "jwtMint sign gc freshID now rq =
     (if mq_Method rq \<noteq> ''POST'' then (405, MText ''method not allowed'')
      else case sign of
        None \<Rightarrow> (503, MError [(''error'', ''es256 signing key unavailable'')])
      | Some sig \<Rightarrow>
          (case mq_Body rq of
             Inl e \<Rightarrow> (400, MError [(''error'', ''bad json'')])
           | Inr (sub, aud) \<Rightarrow>
               if sub = [] \<or> aud = [] then (400, MError [(''error'', ''sub and aud are required'')])
               else case checkGrant gc sub aud of
                 (grantID, rateWin, allowed) \<Rightarrow>
                   if \<not> allowed
                   then (403, MError [(''error'', ''no grant authorizing '' @ sub @ arrow @ aud), (''sub'', sub),
                                      (''aud'', aud), (''grant_id'', grantID)])
                   else
                     (case sig (mintClaims freshID now rq sub aud grantID rateWin) of
                        Inl e \<Rightarrow> (500, MError [(''error'', ''sign: '' @ e)])
                      | Inr tok \<Rightarrow> (200, MToken tok (jwtMintTTL div second)))))"

lemma mint_token:
  assumes "jwtMint signer gc jti now rq = (200, MToken tok ttl)" "mq_Body rq = Inr (sub, aud)"
  shows "ttl = 60 \<and> (\<exists>s i w. signer = Some s \<and> checkGrant gc sub aud = (i, w, True)
    \<and> s (mintClaims jti now rq sub aud i w) = Inr tok)"
  using assms by (auto simp: jwtMint_def jwtMintTTL_def second_def split: if_splits option.splits sum.splits prod.splits)

section \<open>The authenticated Agent Card\<close>

record grant_summary =
  sm_GrantID :: string
  sm_GranterOrg :: string
  sm_GranteeOrg :: string
  sm_Scope :: grant_scope
  sm_Permissions :: "string list"
  sm_RateLimit :: "grant_rate option"
  sm_ExpiresAt :: "time option"

definition toGrantSummary :: "grant \<Rightarrow> grant_summary" where
  "toGrantSummary g = \<lparr>sm_GrantID = gr_ID g, sm_GranterOrg = gr_GranterOrg g, sm_GranteeOrg = gr_GranteeOrg g,
     sm_Scope = gr_Scope g, sm_Permissions = gr_Permissions g, sm_RateLimit = gr_RateLimit g,
     sm_ExpiresAt = gr_ExpiresAt g\<rparr>"

definition lookupGranteeGrants :: "grant_faults \<Rightarrow> time \<Rightarrow> grant_rows \<Rightarrow> string \<Rightarrow> grant_summary list" where
  "lookupGranteeGrants fl now rows subject =
     (case grant_List (gf_query fl) (gf_get fl) now rows
             \<lparr>go_GranterOrg = [], go_GranteeOrg = subject, go_OnlyActive = True\<rparr> of
        Inl e \<Rightarrow> [] | Inr gs \<Rightarrow> map toGrantSummary gs)"

text \<open>The loosest limits over the grants; \<open>None\<close> when no grant has a positive one.\<close>

definition summarizeRateUsage :: "grant_summary list \<Rightarrow> grant_rate option" where
  "summarizeRateUsage gs =
     (let (bestMin, bestDay) = foldl (\<lambda>(m, d) g. case sm_RateLimit g of
            None \<Rightarrow> (m, d)
          | Some l \<Rightarrow> (if gl_CallsPerMinute l > m then gl_CallsPerMinute l else m,
                      if gl_CallsPerDay l > d then gl_CallsPerDay l else d)) (0, 0) gs
      in if bestMin = 0 \<and> bestDay = 0 then None
         else Some \<lparr>gl_CallsPerMinute = bestMin, gl_CallsPerDay = bestDay\<rparr>)"

definition auditEndpoint :: "string \<Rightarrow> string" where
  "auditEndpoint url =
     (let base = (if length url > length ''/jsonrpc'' \<and> drop (length url - length ''/jsonrpc'') url = ''/jsonrpc''
                  then take (length url - length ''/jsonrpc'') url else url)
      in base @ ''/api/v1/audit'')"

record 'c extended_card =
  xc_Card :: 'c
  xc_Subject :: string
  xc_AuditEndpoint :: string
  xc_Grants :: "grant_summary list"
  xc_RateUsage :: "grant_rate option"

text \<open>The public card is an argument: the provider's card and its URL.\<close>

definition handleGetAuthenticatedExtendedCard ::
    "('c \<times> string) option \<Rightarrow> grant_faults \<Rightarrow> time \<Rightarrow> grant_rows option \<Rightarrow> rpc_request
       \<Rightarrow> 'c extended_card rpc_response" where
  "handleGetAuthenticatedExtendedCard cardFn fl now store rq =
     (case cardFn of
        None \<Rightarrow> errorResp (rq_ID rq) ErrCodeInternalError ''AgentCard provider not wired''
      | Some (public, url) \<Rightarrow>
          if rq_AuthSubject rq = []
          then errorResp (rq_ID rq) ErrCodeAuthRequired
            ''authentication required: agent/getAuthenticatedExtendedCard needs a valid Bearer JWT''
          else
            let gs = (case store of None \<Rightarrow> [] | Some rows \<Rightarrow> lookupGranteeGrants fl now rows (rq_AuthSubject rq))
            in okResp (rq_ID rq) \<lparr>xc_Card = public, xc_Subject = rq_AuthSubject rq,
                 xc_AuditEndpoint = auditEndpoint url, xc_Grants = gs, xc_RateUsage = summarizeRateUsage gs\<rparr>)"

section \<open>The store as a list of grants\<close>

definition gmerge :: "grant \<Rightarrow> grant \<Rightarrow> grant" where
  "gmerge old new = new\<lparr>gr_CreatedBy := gr_CreatedBy old, gr_CreatedAt := gr_CreatedAt old\<rparr>"

lemma gmerge_ID [simp]: "gr_ID (gmerge old new) = gr_ID new"
  by (simp add: gmerge_def)

lemma row_of_grant_ID [simp]: "gw_ID (row_of_grant g) = gr_ID g"
  by (simp add: row_of_grant_def)

lemma row_of_grant_merge: "grant_merge (row_of_grant old) (row_of_grant new) = row_of_grant (gmerge old new)"
  by (simp add: grant_merge_def row_of_grant_def gmerge_def)

lemma grant_of_row_of [simp]: "grant_of_row (row_of_grant g) pre = Inr g"
  by (cases "gr_RateLimit g") (simp_all add: grant_of_row_def row_of_grant_def unmarshal_def Let_def)

lemma upsert_rows:
  "row_upsert gw_ID grant_merge (row_of_grant g) (map row_of_grant gs)
     = map row_of_grant (row_upsert gr_ID gmerge g gs)"
  by (induction gs) (simp_all add: row_of_grant_merge)

lemma delete_rows: "row_delete gw_ID k (map row_of_grant gs) = map row_of_grant (row_delete gr_ID k gs)"
  by (simp add: row_delete_def filter_map comp_def)

lemma get_rows: "row_get gw_ID k (map row_of_grant gs) = map_option row_of_grant (row_get gr_ID k gs)"
  by (induction gs) simp_all

definition grants_ok :: "grant list \<Rightarrow> bool" where
  "grants_ok gs \<longleftrightarrow> keys_distinct gr_ID gs \<and> (\<forall>g \<in> set gs. gr_ID g \<noteq> [])"

definition active :: "time \<Rightarrow> grant \<Rightarrow> bool" where
  "active now g \<longleftrightarrow> gr_Accepted g \<and> (case gr_ExpiresAt g of None \<Rightarrow> True | Some t \<Rightarrow> now < t)"

definition selected :: "grant_list_opts \<Rightarrow> time \<Rightarrow> grant \<Rightarrow> bool" where
  "selected opts now g \<longleftrightarrow>
     (go_GranterOrg opts \<noteq> [] \<longrightarrow> gr_GranterOrg g = go_GranterOrg opts) \<and>
     (go_GranteeOrg opts \<noteq> [] \<longrightarrow> gr_GranteeOrg g = go_GranteeOrg opts) \<and>
     (go_OnlyActive opts \<longrightarrow> active now g)"

lemma grant_matches_row [simp]: "grant_matches opts now (row_of_grant g) = selected opts now g"
  by (simp add: grant_matches_def selected_def active_def row_of_grant_def)

lemma grant_List_spec:
  assumes "grants_ok gs"
  shows "grant_List None (\<lambda>_. None) now (map row_of_grant gs) opts
    = Inr (sort_key (\<lambda>g. - gr_CreatedAt g) (filter (selected opts now) gs))"
proof -
  let ?sel = "sort_key (\<lambda>g. - gr_CreatedAt g) (filter (selected opts now) gs)"
  have "filter (grant_matches opts now) (map row_of_grant gs) = map row_of_grant (filter (selected opts now) gs)"
    by (simp add: filter_map comp_def)
  then have "map gw_ID (sort_key (\<lambda>r. - gw_CreatedAt r) (filter (grant_matches opts now) (map row_of_grant gs)))
      = map gr_ID ?sel"
    by (simp add: sort_key_map comp_def row_of_grant_def)
  moreover have "res_mapM (\<lambda>k. grant_Get None (map row_of_grant gs) k) (map gr_ID ?sel) = Inr ?sel"
  proof (rule res_mapM_map)
    fix g assume "g \<in> set ?sel"
    then have "g \<in> set gs" by simp
    then have "row_get gr_ID (gr_ID g) gs = Some g" "gr_ID g \<noteq> []"
      using assms row_get_in_set by (auto simp: grants_ok_def)
    then show "grant_Get None (map row_of_grant gs) (gr_ID g) = Inr g"
      by (simp add: grant_Get_def get_rows)
  qed
  ultimately show ?thesis by (simp add: grant_List_def)
qed

lemma grants_ok_upsert: "grants_ok gs \<Longrightarrow> gr_ID g \<noteq> [] \<Longrightarrow> grants_ok (row_upsert gr_ID gmerge g gs)"
  using upsert_distinct [of gr_ID g gmerge gs] upsert_set [of gr_ID gmerge g gs]
  by (fastforce simp: grants_ok_def)

lemma grants_ok_delete: "grants_ok gs \<Longrightarrow> grants_ok (row_delete gr_ID k gs)"
  using delete_distinct [of gr_ID gs k] by (auto simp: grants_ok_def row_delete_def)

section \<open>Runs of the HTTP surface\<close>

datatype grant_event =
    OnRoot grant_faults string time grant_request
  | OnID grant_faults grant_request

fun grant_step :: "grant_event \<Rightarrow> grant_rows \<Rightarrow> grant_reply \<times> grant_rows" where
  "grant_step (OnRoot fl freshID now rq) rows = map_prod id the (grantsRoot fl freshID now rq (Some rows))"
| "grant_step (OnID fl rq) rows = map_prod id the (grantByID fl rq (Some rows))"

definition grant_run :: "grant_event list \<Rightarrow> grant_rows" where
  "grant_run es = foldl (\<lambda>rows e. snd (grant_step e rows)) [] es"

text \<open>What the successful requests say the grants are.\<close>

fun grants_apply :: "grant_event \<Rightarrow> (string \<Rightarrow> grant option) \<Rightarrow> (string \<Rightarrow> grant option)" where
  "grants_apply (OnRoot fl freshID now rq) f =
     (if gq_Method rq = ''POST'' \<and> gf_write fl = None then
        (case gq_Body rq of
           Inr body \<Rightarrow>
             if w_granter_org body \<noteq> [] \<and> w_grantee_org body \<noteq> []
                \<and> wsc_type (w_scope body) \<in> {''workspace'', ''team'', ''agent''}
             then
               let k = (if w_id body = [] then freshID else w_id body);
                   at = (if w_created_at body = time_zero then now else w_created_at body);
                   g = (fromWire body)\<lparr>gr_ID := k, gr_CreatedAt := at\<rparr>
               in f(k \<mapsto> (case f k of None \<Rightarrow> g | Some old \<Rightarrow> gmerge old g))
             else f
         | Inl _ \<Rightarrow> f)
      else f)"
| "grants_apply (OnID fl rq) f =
     (if gq_Method rq = ''DELETE'' \<and> gf_write fl = None \<and> grant_id_of (gq_Path rq) \<noteq> []
      then f(grant_id_of (gq_Path rq) := None) else f)"

definition grants_after :: "grant_event list \<Rightarrow> string \<Rightarrow> grant option" where
  "grants_after es = foldl (\<lambda>f e. grants_apply e f) (\<lambda>_. None) es"

text \<open>Fresh ids and clock readings are not the empty string and the zero time.\<close>

fun event_ok :: "grant_event \<Rightarrow> bool" where
  "event_ok (OnRoot fl freshID now rq) \<longleftrightarrow> freshID \<noteq> [] \<and> now \<noteq> time_zero"
| "event_ok (OnID fl rq) \<longleftrightarrow> True"

lemma row_upsert_lookup:
  "(\<lambda>q. row_get gr_ID q (row_upsert gr_ID gmerge g gs))
     = (\<lambda>q. row_get gr_ID q gs)(gr_ID g \<mapsto> (case row_get gr_ID (gr_ID g) gs of None \<Rightarrow> g | Some old \<Rightarrow> gmerge old g))"
  by (rule ext) (simp add: row_get_upsert)

lemma post_step:
  assumes gs: "grants_ok gs" and ok: "freshID \<noteq> []" "now \<noteq> time_zero"
  shows "\<exists>gs'. snd (grants_post fl freshID now rq (map row_of_grant gs)) = map row_of_grant gs' \<and> grants_ok gs'
    \<and> (gq_Method rq = ''POST'' \<longrightarrow> (\<lambda>q. row_get gr_ID q gs') = grants_apply (OnRoot fl freshID now rq) (\<lambda>q. row_get gr_ID q gs))"
proof (cases "gq_Body rq")
  case (Inl e)
  then show ?thesis using gs by (auto simp: grants_post_def)
next
  case (Inr body)
  let ?valid = "w_granter_org body \<noteq> [] \<and> w_grantee_org body \<noteq> []
      \<and> wsc_type (w_scope body) \<in> {''workspace'', ''team'', ''agent''}"
  show ?thesis
  proof (cases ?valid)
    case False
    then have "snd (grants_post fl freshID now rq (map row_of_grant gs)) = map row_of_grant gs"
      using Inr by (auto simp: grants_post_def)
    then show ?thesis using gs False Inr by auto
  next
    case True
    define k where "k = (if w_id body = [] then freshID else w_id body)"
    define at where "at = (if w_created_at body = time_zero then now else w_created_at body)"
    define g where "g = (fromWire body)\<lparr>gr_ID := k, gr_CreatedAt := at\<rparr>"
    have k: "k \<noteq> []" "gr_ID g = k" "at \<noteq> time_zero" using ok by (auto simp: k_def g_def at_def)
    have b: "fromWire (if w_created_at (if w_id body = [] then body\<lparr>w_id := freshID\<rparr> else body) = time_zero
        then (if w_id body = [] then body\<lparr>w_id := freshID\<rparr> else body)\<lparr>w_created_at := now\<rparr>
        else (if w_id body = [] then body\<lparr>w_id := freshID\<rparr> else body)) = g"
      by (auto simp: g_def k_def at_def fromWire_def)
    have save: "fst (grant_Save (gf_write fl) now (map row_of_grant gs) (Some g))
        = (if gf_write fl = None then map row_of_grant (row_upsert gr_ID gmerge g gs) else map row_of_grant gs)"
      using True k by (auto simp: grant_Save_def g_def fromWire_def Let_def upsert_rows split: option.split)
    have post: "snd (grants_post fl freshID now rq (map row_of_grant gs))
        = fst (grant_Save (gf_write fl) now (map row_of_grant gs) (Some g))"
      using True Inr by (simp add: grants_post_def Let_def b del: if_image_distrib split: prod.split option.split)
    show ?thesis
    proof (cases "gf_write fl")
      case None
      have "grants_ok (row_upsert gr_ID gmerge g gs)" using gs k by (simp add: grants_ok_upsert)
      moreover have "(\<lambda>q. row_get gr_ID q (row_upsert gr_ID gmerge g gs))
          = grants_apply (OnRoot fl freshID now rq) (\<lambda>q. row_get gr_ID q gs)" if "gq_Method rq = ''POST''"
        using True Inr None that by (simp add: row_upsert_lookup k(2) Let_def g_def k_def at_def)
      ultimately show ?thesis using post save None by auto
    next
      case (Some e)
      then show ?thesis using post save gs Inr by auto
    qed
  qed
qed

lemma delete_lookup:
  "(\<lambda>q. row_get gr_ID q (row_delete gr_ID k gs)) = (\<lambda>q. row_get gr_ID q gs)(k := None)"
  by (rule ext) (simp add: row_get_delete)

lemma grant_step_spec:
  assumes gs: "grants_ok gs" and ok: "event_ok e"
  shows "\<exists>gs'. snd (grant_step e (map row_of_grant gs)) = map row_of_grant gs' \<and> grants_ok gs'
    \<and> (\<lambda>q. row_get gr_ID q gs') = grants_apply e (\<lambda>q. row_get gr_ID q gs)"
proof (cases e)
  case (OnRoot fl freshID now rq)
  show ?thesis
  proof (cases "gq_Method rq = ''POST''")
    case True
    then have "snd (grant_step e (map row_of_grant gs)) = snd (grants_post fl freshID now rq (map row_of_grant gs))"
      by (simp add: OnRoot grantsRoot_def split: prod.split)
    then show ?thesis using post_step [OF gs, of freshID now fl rq] ok True unfolding OnRoot by auto
  next
    case False
    then have "snd (grant_step e (map row_of_grant gs)) = map row_of_grant gs"
      by (simp add: OnRoot grantsRoot_def)
    then show ?thesis using gs False by (auto simp: OnRoot)
  qed
next
  case (OnID fl rq)
  let ?k = "grant_id_of (gq_Path rq)"
  show ?thesis
  proof (cases "gq_Method rq = ''DELETE'' \<and> gf_write fl = None \<and> ?k \<noteq> []")
    case True
    then have "snd (grant_step e (map row_of_grant gs)) = map row_of_grant (row_delete gr_ID ?k gs)"
      by (simp add: OnID grantByID_def grant_Delete_def Let_def delete_rows)
    then show ?thesis using grants_ok_delete [OF gs, of ?k] True by (auto simp: OnID delete_lookup)
  next
    case False
    have d: "fst (grant_Delete (gf_write fl) rows ?k) = rows" if "gq_Method rq = ''DELETE''" "?k \<noteq> []" for rows
      using False that by (auto simp: grant_Delete_def split: option.split)
    have "snd (grant_step e (map row_of_grant gs)) = map row_of_grant gs"
      using d [of "map row_of_grant gs"]
      by (auto simp: OnID grantByID_def Let_def split: option.split prod.split sum.split)
    then show ?thesis using gs False by (auto simp: OnID)
  qed
qed

lemma grant_run_spec:
  assumes "list_all event_ok es"
  shows "\<exists>gs. grant_run es = map row_of_grant gs \<and> grants_ok gs \<and> (\<lambda>q. row_get gr_ID q gs) = grants_after es"
  using assms
proof (induction es rule: rev_induct)
  case Nil
  show ?case by (auto simp: grant_run_def grants_after_def grants_ok_def keys_distinct_def)
next
  case (snoc e es)
  then obtain gs where gs: "grant_run es = map row_of_grant gs" "grants_ok gs"
    "(\<lambda>q. row_get gr_ID q gs) = grants_after es" by auto
  have "event_ok e" using snoc.prems by simp
  from grant_step_spec [OF gs(2) this] gs(1,3) show ?case
    by (simp add: grant_run_def grants_after_def)
qed

lemma find_first_sorted:
  "sorted (map f ys) \<Longrightarrow> find P ys = Some g \<Longrightarrow> g \<in> set ys \<and> P g \<and> (\<forall>h \<in> set ys. P h \<longrightarrow> f g \<le> f h)"
  by (induction ys) (auto split: if_splits)

lemma find_first_key:
  "find P (sort_key f xs) = Some g \<Longrightarrow> g \<in> set xs \<and> P g \<and> (\<forall>h \<in> set xs. P h \<longrightarrow> f g \<le> f h)"
  using find_first_sorted [of f "sort_key f xs" P g] by simp

section \<open>Property\<close>

definition no_faults :: grant_faults where
  "no_faults = \<lparr>gf_query = None, gf_get = (\<lambda>_. None), gf_write = None\<rparr>"

definition granted :: "(string \<Rightarrow> grant option) \<Rightarrow> time \<Rightarrow> (string \<Rightarrow> string \<times> bool) option \<Rightarrow> string \<Rightarrow> grant \<Rightarrow> bool" where
  "granted f now st target g \<longleftrightarrow> f (gr_ID g) = Some g \<and> active now g \<and>
     (case st of None \<Rightarrow> grantCovers g target [] False | Some h \<Rightarrow> grantCovers g target (fst (h target)) (snd (h target)))"

lemma granted_iff:
  assumes "grants_ok gs" "(\<lambda>q. row_get gr_ID q gs) = f"
  shows "granted f now st target g \<longleftrightarrow> g \<in> set gs \<and> active now g \<and>
     (case st of None \<Rightarrow> grantCovers g target [] False | Some h \<Rightarrow> grantCovers g target (fst (h target)) (snd (h target)))"
proof -
  have "f (gr_ID g) = Some g \<longleftrightarrow> g \<in> set gs"
    unfolding assms(2) [symmetric]
    using row_get_in_set [of gr_ID gs g] row_get_key [of gr_ID "gr_ID g" gs g] assms(1) by (auto simp: grants_ok_def)
  then show ?thesis by (simp add: granted_def)
qed

lemma check_spec:
  assumes "grants_ok gs"
  shows "PersistenceGrantCheck no_faults now (Some (map row_of_grant gs)) st caller target
    = (case find (\<lambda>g. case st of None \<Rightarrow> grantCovers g target [] False
                        | Some h \<Rightarrow> grantCovers g target (fst (h target)) (snd (h target)))
          (sort_key (\<lambda>g. - gr_CreatedAt g) (filter (active now) gs)) of
        None \<Rightarrow> ([], [], False) | Some g \<Rightarrow> (gr_ID g, rateWindow now, True))"
proof -
  have sel: "selected \<lparr>go_GranterOrg = [], go_GranteeOrg = [], go_OnlyActive = True\<rparr> now = active now"
    by (rule ext) (simp add: selected_def)
  show ?thesis
    unfolding PersistenceGrantCheck_def no_faults_def grant_faults.simps option.case grant_List_spec [OF assms] sel sum.case
    by (cases st) (simp_all add: split_beta)
qed


definition example_grant :: grant where
  "example_grant = \<lparr>gr_ID = ''g1'', gr_GranterOrg = ''acme'', gr_GranteeOrg = ''umbrella'',
     gr_Scope = \<lparr>gs_Type = ''agent'', gs_WorkspaceID = [], gs_TeamID = [], gs_AgentSID = ''s1''\<rparr>,
     gr_Permissions = [''call''], gr_RateLimit = None, gr_ExpiresAt = Some 90, gr_Accepted = True,
     gr_CreatedBy = ''ann'', gr_CreatedAt = 5\<rparr>"

definition example_posts :: "grant_event list" where
  "example_posts = [OnRoot no_faults ''g0'' 5 \<lparr>gq_Method = ''POST'', gq_Path = ''/api/v1/grants'',
     gq_Query = (\<lambda>_. []), gq_Body = Inr (toWire example_grant)\<rparr>]"


end
