(* ===== verification/Postgres_Store.thy ===== *)
theory Postgres_Store
  imports Grants
begin

text \<open>
  The PostgreSQL repositories of tasks, push configurations and grants
  (\<open>internal/persistence/postgres\<close>), and their equivalence with the SQLite ones, which is what
  \<open>internal/persistence/equivalence\<close> samples. The database compares text by its collation, a parameter
  \<open>lt\<close> here; SQLite compares bytes.
\<close>

section \<open>Sorting by a comparison\<close>

fun insort_by :: "('a \<Rightarrow> 'a \<Rightarrow> bool) \<Rightarrow> 'a \<Rightarrow> 'a list \<Rightarrow> 'a list" where
  "insort_by le x [] = [x]"
| "insort_by le x (y # ys) = (if le x y then x # y # ys else y # insort_by le x ys)"

definition sort_by :: "('a \<Rightarrow> 'a \<Rightarrow> bool) \<Rightarrow> 'a list \<Rightarrow> 'a list" where
  "sort_by le xs = foldr (insort_by le) xs []"

lemma sort_by_key:
  assumes "\<And>a b. le a b \<longleftrightarrow> (f a :: 'b::linorder) \<le> f b"
  shows "sort_by le xs = sort_key f xs"
proof -
  have "insort_by le x ys = insort_key f x ys" for x ys
    by (induction ys) (simp_all add: assms)
  then have "insort_by le = insort_key f" by (intro ext)
  then show ?thesis by (simp add: sort_by_def sort_key_def)
qed

section \<open>Tasks\<close>

definition pg_task_Get :: "go_error option \<Rightarrow> task_rows \<Rightarrow> string \<Rightarrow> ptask result" where
  "pg_task_Get err rows taskID =
     (if taskID = [] then Inl ''postgres TaskRepository: empty taskID''
      else case err of
        Some e \<Rightarrow> Inl (''postgres tasks Get '' @ quote taskID @ '': '' @ e)
      | None \<Rightarrow> (case row_get ID taskID rows of
          None \<Rightarrow> Inl (''postgres tasks Get '' @ quote taskID @ '': not found'')
        | Some r \<Rightarrow> Inr r))"

definition pg_task_Save ::
    "go_error option \<Rightarrow> time \<Rightarrow> task_rows \<Rightarrow> ptask option \<Rightarrow> task_rows \<times> ptask option \<times> go_error option"
where
  "pg_task_Save err now rows tp =
     (case tp of
        None \<Rightarrow> (rows, tp, Some ''postgres TaskRepository: nil task'')
      | Some t \<Rightarrow>
          if ID t = [] then (rows, tp, Some ''postgres TaskRepository: empty task ID'')
          else if RunnerSID t = [] then (rows, tp, Some ''postgres TaskRepository: empty RunnerSID'')
          else if State t = [] then (rows, tp, Some ''postgres TaskRepository: empty State'')
          else
            let t1 = (if CreatedAt t = time_zero then t\<lparr>CreatedAt := now\<rparr> else t);
                t2 = t1\<lparr>UpdatedAt := now\<rparr>
            in (case err of
                  Some e \<Rightarrow> (rows, Some t2, Some (''postgres tasks Save '' @ quote (ID t) @ '': '' @ e))
                | None \<Rightarrow> (row_upsert ID (\<lambda>old new. new\<lparr>CreatedAt := CreatedAt old\<rparr>) t2 rows, Some t2, None)))"

definition pg_task_matches :: "(string \<Rightarrow> string \<Rightarrow> bool) \<Rightarrow> task_list_opts \<Rightarrow> ptask \<Rightarrow> bool" where
  "pg_task_matches lt opts r \<longleftrightarrow>
     (lo_RunnerSID opts \<noteq> [] \<longrightarrow> RunnerSID r = lo_RunnerSID opts) \<and>
     (lo_State opts \<noteq> [] \<longrightarrow> State r = lo_State opts) \<and>
     (lo_SinceID opts \<noteq> [] \<longrightarrow> lt (lo_SinceID opts) (ID r))"

definition pg_task_order :: "(string \<Rightarrow> string \<Rightarrow> bool) \<Rightarrow> bool \<Rightarrow> task_rows \<Rightarrow> task_rows" where
  "pg_task_order lt newest rows =
     (if newest
      then rev (sort_by (\<lambda>a b. CreatedAt a < CreatedAt b
              \<or> CreatedAt a = CreatedAt b \<and> (ID a = ID b \<or> lt (ID a) (ID b))) rows)
      else sort_by (\<lambda>a b. ID a = ID b \<or> lt (ID a) (ID b)) rows)"

definition pg_task_List ::
    "(string \<Rightarrow> string \<Rightarrow> bool) \<Rightarrow> go_error option \<Rightarrow> task_rows \<Rightarrow> task_list_opts \<Rightarrow> task_rows result" where
  "pg_task_List lt err rows opts =
     (case err of
        Some e \<Rightarrow> Inl (''postgres tasks List: '' @ e)
      | None \<Rightarrow>
          let limit = (if lo_Limit opts \<le> 0 then 1000 else lo_Limit opts)
          in Inr (take (nat limit) (pg_task_order lt (lo_Newest opts) (filter (pg_task_matches lt opts) rows))))"

definition pg_task_Delete :: "go_error option \<Rightarrow> task_rows \<Rightarrow> string \<Rightarrow> task_rows \<times> go_error option" where
  "pg_task_Delete err rows taskID =
     (if taskID = [] then (rows, Some ''postgres TaskRepository: empty taskID'')
      else case err of
        Some e \<Rightarrow> (rows, Some (''postgres tasks Delete '' @ quote taskID @ '': '' @ e))
      | None \<Rightarrow> (row_delete ID taskID rows, None))"

section \<open>Push-notification configs\<close>

definition pg_push_Get :: "go_error option \<Rightarrow> push_rows \<Rightarrow> string \<Rightarrow> push_config result" where
  "pg_push_Get err rows k =
     (if k = [] then Inl ''postgres PushNotificationConfigRepository: empty id''
      else case err of
        Some e \<Rightarrow> Inl (''postgres push_notification_configs Get '' @ quote k @ '': '' @ e)
      | None \<Rightarrow> (case row_get pr_ID k rows of
          None \<Rightarrow> Inl (''postgres push_notification_configs Get '' @ quote k @ '': not found'')
        | Some r \<Rightarrow> push_of_row r))"

definition pg_push_List ::
    "go_error option \<Rightarrow> (string \<Rightarrow> go_error option) \<Rightarrow> push_rows \<Rightarrow> string \<Rightarrow> push_config list result"
where
  "pg_push_List qerr gerr rows taskID =
     (case qerr of
        Some e \<Rightarrow> Inl (''postgres push_notification_configs List: '' @ e)
      | None \<Rightarrow>
          let sel = sort_key pr_CreatedAt
                (if taskID = [] then rows else filter (\<lambda>r. pr_TaskID r = taskID) rows)
          in res_mapM (\<lambda>k. pg_push_Get (gerr k) rows k) (map pr_ID sel))"

definition pg_push_Save ::
    "go_error option \<Rightarrow> time \<Rightarrow> push_rows \<Rightarrow> push_config option \<Rightarrow> push_rows \<times> go_error option"
where
  "pg_push_Save err now rows cp =
     (case cp of
        None \<Rightarrow> (rows, Some ''postgres PushNotificationConfigRepository: nil config'')
      | Some c \<Rightarrow>
          if pc_ID c = [] then (rows, Some ''postgres PushNotificationConfigRepository: empty ID'')
          else if pc_TaskID c = []
          then (rows, Some ''postgres PushNotificationConfigRepository: empty TaskID'')
          else if pc_URL c = [] then (rows, Some ''postgres PushNotificationConfigRepository: empty URL'')
          else
            let c1 = (if pc_CreatedAt c = time_zero then c\<lparr>pc_CreatedAt := now\<rparr> else c)
            in (case err of
                  Some e \<Rightarrow> (rows, Some (''postgres push_notification_configs Save '' @ quote (pc_ID c)
                                        @ '': '' @ e))
                | None \<Rightarrow> (row_upsert pr_ID (\<lambda>old new. new\<lparr>pr_CreatedAt := pr_CreatedAt old\<rparr>) (push_row_of c1) rows, None)))"

definition pg_push_Delete :: "go_error option \<Rightarrow> push_rows \<Rightarrow> string \<Rightarrow> push_rows \<times> go_error option" where
  "pg_push_Delete err rows k =
     (if k = [] then (rows, Some ''postgres PushNotificationConfigRepository: empty id'')
      else case err of
        Some e \<Rightarrow> (rows, Some (''postgres push_notification_configs Delete '' @ quote k @ '': '' @ e))
      | None \<Rightarrow> (row_delete pr_ID k rows, None))"

section \<open>Grants\<close>

definition pg_grant_Get :: "go_error option \<Rightarrow> grant_rows \<Rightarrow> string \<Rightarrow> grant result" where
  "pg_grant_Get err rows k =
     (if k = [] then Inl ''postgres RBACGrantRepository: empty id''
      else case err of
        Some e \<Rightarrow> Inl (''postgres rbac_grants Get '' @ quote k @ '': '' @ e)
      | None \<Rightarrow> (case row_get gw_ID k rows of
          None \<Rightarrow> Inl (''postgres rbac_grants Get '' @ quote k @ '': not found'')
        | Some r \<Rightarrow> grant_of_row r (''postgres rbac_grants Get '' @ quote k)))"

definition pg_grant_List ::
    "go_error option \<Rightarrow> (string \<Rightarrow> go_error option) \<Rightarrow> time \<Rightarrow> grant_rows \<Rightarrow> grant_list_opts \<Rightarrow> grant list result"
where
  "pg_grant_List qerr gerr now rows opts =
     (case qerr of
        Some e \<Rightarrow> Inl (''postgres rbac_grants List: '' @ e)
      | None \<Rightarrow>
          res_mapM (\<lambda>k. pg_grant_Get (gerr k) rows k)
            (map gw_ID (sort_key (\<lambda>r. - gw_CreatedAt r) (filter (grant_matches opts now) rows))))"

definition pg_grant_Save ::
    "go_error option \<Rightarrow> time \<Rightarrow> grant_rows \<Rightarrow> grant option \<Rightarrow> grant_rows \<times> grant option \<times> go_error option" where
  "pg_grant_Save err now rows gp =
     (case gp of
        None \<Rightarrow> (rows, gp, Some ''postgres RBACGrantRepository: nil grant'')
      | Some g \<Rightarrow>
          if gr_ID g = [] then (rows, gp, Some ''postgres RBACGrantRepository: empty grant ID'')
          else if gr_GranterOrg g = [] \<or> gr_GranteeOrg g = []
          then (rows, gp, Some ''postgres RBACGrantRepository: empty granter/grantee org'')
          else
            let g1 = (if gr_CreatedAt g = time_zero then g\<lparr>gr_CreatedAt := now\<rparr> else g)
            in (case err of
                  Some e \<Rightarrow> (rows, Some g1, Some (''postgres rbac_grants Save '' @ quote (gr_ID g) @ '': '' @ e))
                | None \<Rightarrow> (row_upsert gw_ID
                    (\<lambda>old new. new\<lparr>gw_CreatedBy := gw_CreatedBy old, gw_CreatedAt := gw_CreatedAt old\<rparr>)
                    (row_of_grant g1) rows, Some g1, None)))"

definition pg_grant_Delete :: "go_error option \<Rightarrow> grant_rows \<Rightarrow> string \<Rightarrow> grant_rows \<times> go_error option" where
  "pg_grant_Delete err rows k =
     (if k = [] then (rows, Some ''postgres RBACGrantRepository: empty id'')
      else case err of
        Some e \<Rightarrow> (rows, Some (''postgres rbac_grants Delete '' @ quote k @ '': '' @ e))
      | None \<Rightarrow> (row_delete gw_ID k rows, None))"

section \<open>Runs of either back end\<close>

record tables =
  tb_tasks :: task_rows
  tb_push :: push_rows
  tb_grants :: grant_rows

datatype store_op =
    TGet "go_error option" string
  | TSave "go_error option" time "ptask option"
  | TList "go_error option" task_list_opts
  | TDelete "go_error option" string
  | PGet "go_error option" string
  | PSave "go_error option" time "push_config option"
  | PList "go_error option" "string \<Rightarrow> go_error option" string
  | PDelete "go_error option" string
  | GGet "go_error option" string
  | GSave "go_error option" time "grant option"
  | GListAll "go_error option" "string \<Rightarrow> go_error option" time grant_list_opts
  | GDelete "go_error option" string

datatype store_answer =
    ATask "ptask result"
  | ATasks "ptask list result"
  | APush "push_config result"
  | APushes "push_config list result"
  | AGrant "grant result"
  | AGrants "grant list result"
  | AWrote "go_error option"

fun sq_step :: "store_op \<Rightarrow> tables \<Rightarrow> store_answer \<times> tables" where
  "sq_step (TGet err k) tb = (ATask (task_Get err (tb_tasks tb) k), tb)"
| "sq_step (TSave err now t) tb =
     (let (rows, _, e) = task_Save err now (tb_tasks tb) t in (AWrote e, tb\<lparr>tb_tasks := rows\<rparr>))"
| "sq_step (TList err opts) tb = (ATasks (task_List err (tb_tasks tb) opts), tb)"
| "sq_step (TDelete err k) tb = (let (rows, e) = task_Delete err (tb_tasks tb) k in (AWrote e, tb\<lparr>tb_tasks := rows\<rparr>))"
| "sq_step (PGet err k) tb = (APush (push_Get err (tb_push tb) k), tb)"
| "sq_step (PSave err now c) tb = (let (rows, e) = push_Save err now (tb_push tb) c in (AWrote e, tb\<lparr>tb_push := rows\<rparr>))"
| "sq_step (PList err gerr t) tb = (APushes (push_List err gerr (tb_push tb) t), tb)"
| "sq_step (PDelete err k) tb = (let (rows, e) = push_Delete err (tb_push tb) k in (AWrote e, tb\<lparr>tb_push := rows\<rparr>))"
| "sq_step (GGet err k) tb = (AGrant (grant_Get err (tb_grants tb) k), tb)"
| "sq_step (GSave err now g) tb =
     (let (rows, _, e) = grant_Save err now (tb_grants tb) g in (AWrote e, tb\<lparr>tb_grants := rows\<rparr>))"
| "sq_step (GListAll err gerr now opts) tb = (AGrants (grant_List err gerr now (tb_grants tb) opts), tb)"
| "sq_step (GDelete err k) tb = (let (rows, e) = grant_Delete err (tb_grants tb) k in (AWrote e, tb\<lparr>tb_grants := rows\<rparr>))"

fun pg_step :: "(string \<Rightarrow> string \<Rightarrow> bool) \<Rightarrow> store_op \<Rightarrow> tables \<Rightarrow> store_answer \<times> tables" where
  "pg_step lt (TGet err k) tb = (ATask (pg_task_Get err (tb_tasks tb) k), tb)"
| "pg_step lt (TSave err now t) tb =
     (let (rows, _, e) = pg_task_Save err now (tb_tasks tb) t in (AWrote e, tb\<lparr>tb_tasks := rows\<rparr>))"
| "pg_step lt (TList err opts) tb = (ATasks (pg_task_List lt err (tb_tasks tb) opts), tb)"
| "pg_step lt (TDelete err k) tb = (let (rows, e) = pg_task_Delete err (tb_tasks tb) k in (AWrote e, tb\<lparr>tb_tasks := rows\<rparr>))"
| "pg_step lt (PGet err k) tb = (APush (pg_push_Get err (tb_push tb) k), tb)"
| "pg_step lt (PSave err now c) tb = (let (rows, e) = pg_push_Save err now (tb_push tb) c in (AWrote e, tb\<lparr>tb_push := rows\<rparr>))"
| "pg_step lt (PList err gerr t) tb = (APushes (pg_push_List err gerr (tb_push tb) t), tb)"
| "pg_step lt (PDelete err k) tb = (let (rows, e) = pg_push_Delete err (tb_push tb) k in (AWrote e, tb\<lparr>tb_push := rows\<rparr>))"
| "pg_step lt (GGet err k) tb = (AGrant (pg_grant_Get err (tb_grants tb) k), tb)"
| "pg_step lt (GSave err now g) tb =
     (let (rows, _, e) = pg_grant_Save err now (tb_grants tb) g in (AWrote e, tb\<lparr>tb_grants := rows\<rparr>))"
| "pg_step lt (GListAll err gerr now opts) tb = (AGrants (pg_grant_List err gerr now (tb_grants tb) opts), tb)"
| "pg_step lt (GDelete err k) tb = (let (rows, e) = pg_grant_Delete err (tb_grants tb) k in (AWrote e, tb\<lparr>tb_grants := rows\<rparr>))"

fun answers :: "(store_op \<Rightarrow> tables \<Rightarrow> store_answer \<times> tables) \<Rightarrow> store_op list \<Rightarrow> tables \<Rightarrow> store_answer list" where
  "answers step [] tb = []"
| "answers step (c # cs) tb = fst (step c tb) # answers step cs (snd (step c tb))"

definition final_tables :: "(store_op \<Rightarrow> tables \<Rightarrow> store_answer \<times> tables) \<Rightarrow> store_op list \<Rightarrow> tables \<Rightarrow> tables" where
  "final_tables step cs tb = foldl (\<lambda>tb c. snd (step c tb)) tb cs"

text \<open>The text of an error names the back end first.\<close>

definition renamed :: "go_error \<Rightarrow> go_error" where
  "renamed e = (if has_prefix ''sqlite'' e then ''postgres'' @ drop 6 e else e)"

definition ren :: "'a result \<Rightarrow> 'a result" where
  "ren r = (case r of Inl e \<Rightarrow> Inl (renamed e) | Inr x \<Rightarrow> Inr x)"

fun as_postgres :: "store_answer \<Rightarrow> store_answer" where
  "as_postgres (ATask r) = ATask (ren r)"
| "as_postgres (ATasks r) = ATasks (ren r)"
| "as_postgres (APush r) = APush (ren r)"
| "as_postgres (APushes r) = APushes (ren r)"
| "as_postgres (AGrant r) = AGrant (ren r)"
| "as_postgres (AGrants r) = AGrants (ren r)"
| "as_postgres (AWrote e) = AWrote (map_option renamed e)"

section \<open>Equivalence\<close>

lemma ren_simps [simp]: "ren (Inl e) = Inl (renamed e)" "ren (Inr x) = Inr x"
  by (simp_all add: ren_def)

lemma renamed_sqlite [simp]: "renamed (''sqlite '' @ e) = ''postgres '' @ e"
  by (simp add: renamed_def has_prefix_def)

text \<open>A message that starts with a literal naming the back end, in the form the definitions have.\<close>

lemma renamed_literal [simp]:
  "renamed (CHR ''s'' # CHR ''q'' # CHR ''l'' # CHR ''i'' # CHR ''t'' # CHR ''e'' # e) = ''postgres'' @ e"
  by (simp add: renamed_def has_prefix_def)

lemma res_mapM_ren: "res_mapM (\<lambda>k. ren (f k)) ks = ren (res_mapM f ks)"
proof (induction ks)
  case (Cons k ks)
  show ?case
    by (cases "f k"; cases "res_mapM f ks") (simp_all add: Cons res_bind_def)
qed simp

lemma pg_task_Get_ren: "pg_task_Get err rows k = ren (task_Get err rows k)"
  by (simp add: pg_task_Get_def task_Get_def split: option.split)

lemma pg_task_Save_ren:
  "pg_task_Save err now rows t = (let (rows', t', e) = task_Save err now rows t in (rows', t', map_option renamed e))"
proof -
  have "(\<lambda>old new. new\<lparr>CreatedAt := CreatedAt old\<rparr>) = task_merge" by (intro ext) (simp add: task_merge_def)
  then show ?thesis by (simp add: pg_task_Save_def task_Save_def Let_def split: option.split)
qed

lemma pg_task_Delete_ren:
  "pg_task_Delete err rows k = (let (rows', e) = task_Delete err rows k in (rows', map_option renamed e))"
  by (simp add: pg_task_Delete_def task_Delete_def split: option.split)

lemma pg_task_List_ren: "pg_task_List (<) err rows opts = ren (task_List err rows opts)"
proof -
  have m: "pg_task_matches (<) opts = task_matches opts"
    by (rule ext) (simp add: pg_task_matches_def task_matches_def)
  have "pg_task_order (<) newest xs = task_order newest xs" for newest xs
  proof -
    have "sort_by (\<lambda>a b. ID a = ID b \<or> ID a < ID b) xs = sort_key ID xs"
      by (rule sort_by_key) auto
    moreover have "sort_by (\<lambda>a b. CreatedAt a < CreatedAt b \<or> CreatedAt a = CreatedAt b \<and> (ID a = ID b \<or> ID a < ID b)) xs
        = sort_key (\<lambda>r. (CreatedAt r, ID r)) xs"
      by (rule sort_by_key) (auto simp: less_eq_prod_def)
    ultimately show ?thesis by (simp add: pg_task_order_def task_order_def)
  qed
  then show ?thesis by (simp add: pg_task_List_def task_List_def m split: option.split)
qed

lemma push_of_row_ren: "ren (push_of_row r) = push_of_row r"
proof -
  have "renamed (''unmarshal filters: '' @ e) = ''unmarshal filters: '' @ e" for e
    by (simp add: renamed_def has_prefix_def)
  then show ?thesis by (auto simp: push_of_row_def Let_def split: raw.split sum.split)
qed

lemma pg_push_Get_ren: "pg_push_Get err rows k = ren (push_Get err rows k)"
  by (simp add: pg_push_Get_def push_Get_def push_of_row_ren split: option.split)

lemma pg_push_List_ren: "pg_push_List qerr gerr rows k = ren (push_List qerr gerr rows k)"
  by (simp add: pg_push_List_def push_List_def pg_push_Get_ren res_mapM_ren Let_def split: option.split)

lemma pg_push_Save_ren:
  "pg_push_Save err now rows c = (let (rows', e) = push_Save err now rows c in (rows', map_option renamed e))"
proof -
  have "(\<lambda>old new. new\<lparr>pr_CreatedAt := pr_CreatedAt old\<rparr>) = push_merge" by (intro ext) (simp add: push_merge_def)
  then show ?thesis by (simp add: pg_push_Save_def push_Save_def Let_def split: option.split)
qed

lemma pg_push_Delete_ren:
  "pg_push_Delete err rows k = (let (rows', e) = push_Delete err rows k in (rows', map_option renamed e))"
  by (simp add: pg_push_Delete_def push_Delete_def split: option.split)

lemma grant_of_row_ren: "grant_of_row r (''postgres '' @ p) = ren (grant_of_row r (''sqlite '' @ p))"
  by (auto simp: grant_of_row_def Let_def split: sum.split)

lemma pg_grant_Get_ren: "pg_grant_Get err rows k = ren (grant_Get err rows k)"
  using grant_of_row_ren [of _ "''rbac_grants Get '' @ quote k"]
  by (simp add: pg_grant_Get_def grant_Get_def split: option.split)

lemma pg_grant_List_ren: "pg_grant_List qerr gerr now rows opts = ren (grant_List qerr gerr now rows opts)"
  by (simp add: pg_grant_List_def grant_List_def pg_grant_Get_ren res_mapM_ren split: option.split)

lemma pg_grant_Save_ren:
  "pg_grant_Save err now rows g = (let (rows', g', e) = grant_Save err now rows g in (rows', g', map_option renamed e))"
proof -
  have "(\<lambda>old new. new\<lparr>gw_CreatedBy := gw_CreatedBy old, gw_CreatedAt := gw_CreatedAt old\<rparr>) = grant_merge"
    by (intro ext) (simp add: grant_merge_def)
  then show ?thesis by (simp add: pg_grant_Save_def grant_Save_def Let_def split: option.split)
qed

lemma pg_grant_Delete_ren:
  "pg_grant_Delete err rows k = (let (rows', e) = grant_Delete err rows k in (rows', map_option renamed e))"
  by (simp add: pg_grant_Delete_def grant_Delete_def split: option.split)

lemmas pg_ren = pg_task_Get_ren pg_task_Save_ren pg_task_Delete_ren pg_task_List_ren pg_push_Get_ren
  pg_push_List_ren pg_push_Save_ren pg_push_Delete_ren pg_grant_Get_ren pg_grant_List_ren pg_grant_Save_ren
  pg_grant_Delete_ren

lemma pg_step_ren: "pg_step (<) c tb = map_prod as_postgres id (sq_step c tb)"
  by (cases c) (simp_all add: pg_ren Let_def split_beta)

section \<open>Property\<close>



end
