(* ===== verification/Ws_Relay.thy ===== *)
theory Ws_Relay
  imports Go_Map "HOL-Library.Sublist"
begin

text \<open>
  The WebSocket relay of \<open>relay/internal/wsrelay/wsrelay.go\<close>: daemons and clients of a bastion meet in a
  room and frames are forwarded to the other side. Connections and rooms are indices into heaps, since
  a connection keeps the \<open>*Room\<close> it joined while the hub's map may come to hold another. A fan-out
  collects its targets under the room's lock and writes after releasing it; leaving takes the hub's
  lock twice. Each is several steps, between which other connections run.
\<close>

section \<open>Handshake\<close>

definition split_dot :: "string \<Rightarrow> (string \<times> string) option" where
  "split_dot s = (case dropWhile (\<lambda>c. c \<noteq> CHR ''.'') s of
     [] \<Rightarrow> None | _ # rest \<Rightarrow> Some (takeWhile (\<lambda>c. c \<noteq> CHR ''.'') s, rest))"

definition parseSecWSProtocol :: "string list \<Rightarrow> string list" where
  "parseSecWSProtocol headers =
     filter (\<lambda>s. s \<noteq> []) (map trim_space (concat (map (split_on (CHR '','')) headers)))"

definition wsProto :: string where "wsProto = ''chepherd-rc-v1''"

definition offer_step :: "string \<times> string \<times> string \<Rightarrow> string \<Rightarrow> string \<times> string \<times> string" where
  "offer_step st p =
     (case st of (role, bastionID, negotiated) \<Rightarrow>
        let (role1, bastion1, neg1) =
              (if has_prefix (wsProto @ ''.'') p
               then (case split_dot (trim_prefix (wsProto @ ''.'') p) of
                       None \<Rightarrow> (role, bastionID, negotiated)
                     | Some (b, _) \<Rightarrow>
                         (if role = [] then ''client'' else role, if bastionID = [] then b else bastionID, p))
               else (role, bastionID, negotiated))
        in (role1, bastion1, if p = wsProto \<and> neg1 = [] then p else neg1))"

record handshake =
  hs_Role :: string
  hs_Bastion :: string
  hs_ClientID :: string
  hs_Subprotocols :: "string list"

definition ws_handshake :: "string \<Rightarrow> string \<Rightarrow> string \<Rightarrow> string list \<Rightarrow> (nat \<times> string) + handshake" where
  "ws_handshake role bastionID clientID headers =
     (case foldl offer_step (role, bastionID, []) (parseSecWSProtocol headers) of (role', b, neg) \<Rightarrow>
        if role' \<noteq> ''client'' \<and> role' \<noteq> ''daemon'' then Inl (400, ''role required (client|daemon)'')
        else if b = [] then Inl (400, ''bastion_id required'')
        else Inr \<lparr>hs_Role = role', hs_Bastion = b, hs_ClientID = clientID,
                  hs_Subprotocols = (if neg \<noteq> [] \<and> neg \<noteq> wsProto then [neg] else [wsProto])\<rparr>)"

section \<open>State\<close>

datatype leave_phase = Joined | Emptied | Gone

record 'f ws_conn =
  wc_role :: string
  wc_bastion :: string
  wc_clientID :: string
  wc_room :: nat
  wc_pending :: "(nat list \<times> 'f) option"
  wc_leave :: leave_phase
  wc_sent :: "'f list"
  wc_recv :: "(nat \<times> 'f) list"

record ws_room =
  wr_bastion :: string
  wr_daemon :: "nat option"
  wr_clients :: "(string \<times> nat) list"

record 'f ws_hub =
  wh_rooms :: "(string \<times> nat) list"
  wh_heap :: "ws_room list"
  wh_conns :: "'f ws_conn list"

text \<open>\<open>wc_sent\<close> and \<open>wc_recv\<close> are what the peer wrote and what was written to it, with the writer.\<close>

definition newHub :: "'f ws_hub" where
  "newHub = \<lparr>wh_rooms = [], wh_heap = [], wh_conns = []\<rparr>"

definition upd_room :: "nat \<Rightarrow> (ws_room \<Rightarrow> ws_room) \<Rightarrow> 'f ws_hub \<Rightarrow> 'f ws_hub" where
  "upd_room r g h = h\<lparr>wh_heap := (wh_heap h)[r := g (wh_heap h ! r)]\<rparr>"

definition upd_conn :: "nat \<Rightarrow> ('f ws_conn \<Rightarrow> 'f ws_conn) \<Rightarrow> 'f ws_hub \<Rightarrow> 'f ws_hub" where
  "upd_conn c g h = h\<lparr>wh_conns := (wh_conns h)[c := g (wh_conns h ! c)]\<rparr>"

section \<open>Operations\<close>

text \<open>\<open>freshID\<close> is the pointer text that names a client without an id.\<close>

definition room_for :: "string \<Rightarrow> 'f ws_hub \<Rightarrow> nat \<times> 'f ws_hub" where
  "room_for b h = (case map_of (wh_rooms h) b of Some r \<Rightarrow> (r, h)
     | None \<Rightarrow> (length (wh_heap h),
         h\<lparr>wh_heap := wh_heap h @ [\<lparr>wr_bastion = b, wr_daemon = None, wr_clients = []\<rparr>],
           wh_rooms := AList.update b (length (wh_heap h)) (wh_rooms h)\<rparr>))"

definition seat :: "string \<Rightarrow> string \<Rightarrow> nat \<Rightarrow> ws_room \<Rightarrow> ws_room" where
  "seat role i c rm = (if role = ''daemon'' then rm\<lparr>wr_daemon := Some c\<rparr>
     else if role = ''client'' then rm\<lparr>wr_clients := AList.update i c (wr_clients rm)\<rparr> else rm)"

definition joinRoom :: "string \<Rightarrow> string \<Rightarrow> string \<Rightarrow> string \<Rightarrow> 'f ws_hub \<Rightarrow> 'f ws_hub" where
  "joinRoom freshID role b clientID h =
     (let (r, h1) = room_for b h;
          i = (if role = ''client'' \<and> clientID = [] then freshID else clientID);
          c = length (wh_conns h1);
          h2 = h1\<lparr>wh_conns := wh_conns h1 @ [\<lparr>wc_role = role, wc_bastion = b, wc_clientID = i, wc_room = r,
                 wc_pending = None, wc_leave = Joined, wc_sent = [], wc_recv = []\<rparr>]\<rparr>
      in upd_room r (seat role i c) h2)"

definition fanout_targets :: "string \<Rightarrow> ws_room \<Rightarrow> nat list" where
  "fanout_targets role rm =
     (if role = ''client'' then (case wr_daemon rm of None \<Rightarrow> [] | Some d \<Rightarrow> [d])
      else if role = ''daemon'' then map snd (wr_clients rm) else [])"

text \<open>The read loop of a connection got a frame: the targets are collected in the room it joined.\<close>

definition fanout_collect :: "nat \<Rightarrow> 'f \<Rightarrow> 'f ws_hub \<Rightarrow> 'f ws_hub" where
  "fanout_collect c f h =
     (let x = wh_conns h ! c in
      upd_conn c (\<lambda>x. x\<lparr>wc_pending := Some (fanout_targets (wc_role x) (wh_heap h ! wc_room x), f),
                        wc_sent := wc_sent x @ [f]\<rparr>) h)"

text \<open>The next write; a failed write is dropped.\<close>

definition fanout_write :: "nat \<Rightarrow> bool \<Rightarrow> 'f ws_hub \<Rightarrow> 'f ws_hub" where
  "fanout_write c fails h =
     (case wc_pending (wh_conns h ! c) of
        None \<Rightarrow> h
      | Some ([], f) \<Rightarrow> upd_conn c (\<lambda>x. x\<lparr>wc_pending := None\<rparr>) h
      | Some (t # ts, f) \<Rightarrow>
          let h1 = upd_conn c (\<lambda>x. x\<lparr>wc_pending := Some (ts, f)\<rparr>) h
          in if fails then h1 else upd_conn t (\<lambda>y. y\<lparr>wc_recv := wc_recv y @ [(c, f)]\<rparr>) h1)"

definition vacate :: "nat \<Rightarrow> 'f ws_conn \<Rightarrow> ws_room \<Rightarrow> ws_room" where
  "vacate c x rm =
     (let rm1 = (if wc_role x = ''daemon'' \<and> wr_daemon rm = Some c then rm\<lparr>wr_daemon := None\<rparr> else rm)
      in if wc_role x = ''client'' then rm1\<lparr>wr_clients := AList.delete (wc_clientID x) (wr_clients rm1)\<rparr> else rm1)"

definition room_empty :: "ws_room \<Rightarrow> bool" where
  "room_empty rm \<longleftrightarrow> wr_daemon rm = None \<and> wr_clients rm = []"

text \<open>
  \<open>leaveRoom\<close>, first half: the room is the one the hub's map now has for the bastion, and it is the
  one the second half looks at (the connection reads no more, so \<open>wc_room\<close> can hold it).
\<close>

definition leave_remove :: "nat \<Rightarrow> 'f ws_hub \<Rightarrow> 'f ws_hub" where
  "leave_remove c h =
     (let x = wh_conns h ! c in
      case map_of (wh_rooms h) (wc_bastion x) of
        None \<Rightarrow> upd_conn c (\<lambda>x. x\<lparr>wc_leave := Gone\<rparr>) h
      | Some r \<Rightarrow>
          let h1 = upd_room r (vacate c x) h
          in upd_conn c (\<lambda>x. x\<lparr>wc_leave := (if room_empty (wh_heap h1 ! r) then Emptied else Gone),
                              wc_room := r\<rparr>) h1)"

text \<open>Second half: the room is dropped when it is still the bastion's and still empty.\<close>

definition leave_reap :: "nat \<Rightarrow> 'f ws_hub \<Rightarrow> 'f ws_hub" where
  "leave_reap c h =
     (let x = wh_conns h ! c; h1 = upd_conn c (\<lambda>x. x\<lparr>wc_leave := Gone\<rparr>) h in
      if map_of (wh_rooms h) (wc_bastion x) = Some (wc_room x) \<and> room_empty (wh_heap h ! wc_room x)
      then h1\<lparr>wh_rooms := AList.delete (wc_bastion x) (wh_rooms h)\<rparr> else h1)"

record ws_stats =
  st_OpenRooms :: nat
  st_RoomsWithDaemon :: nat
  st_OpenClientWs :: nat

definition ws_Stats :: "'f ws_hub \<Rightarrow> ws_stats" where
  "ws_Stats h =
     (let rs = map (\<lambda>(_, r). wh_heap h ! r) (wh_rooms h) in
      \<lparr>st_OpenRooms = length rs, st_RoomsWithDaemon = length (filter (\<lambda>rm. wr_daemon rm \<noteq> None) rs),
       st_OpenClientWs = sum_list (map (\<lambda>rm. length (wr_clients rm)) rs)\<rparr>)"

section \<open>Runs\<close>

datatype 'f ws_event =
    WJoin string string string string "string list"
  | WFrame nat 'f
  | WWrite nat bool
  | WLeave nat
  | WReap nat

text \<open>An event of a connection that is not in the position for it does nothing.\<close>

fun ws_step :: "'f ws_event \<Rightarrow> 'f ws_hub \<Rightarrow> 'f ws_hub" where
  "ws_step (WJoin freshID role b clientID headers) h =
     (case ws_handshake role b clientID headers of
        Inl _ \<Rightarrow> h | Inr hs \<Rightarrow> joinRoom freshID (hs_Role hs) (hs_Bastion hs) (hs_ClientID hs) h)"
| "ws_step (WFrame c f) h =
     (if c < length (wh_conns h) \<and> wc_leave (wh_conns h ! c) = Joined \<and> wc_pending (wh_conns h ! c) = None
      then fanout_collect c f h else h)"
| "ws_step (WWrite c fails) h = (if c < length (wh_conns h) then fanout_write c fails h else h)"
| "ws_step (WLeave c) h =
     (if c < length (wh_conns h) \<and> wc_leave (wh_conns h ! c) = Joined \<and> wc_pending (wh_conns h ! c) = None
      then leave_remove c h else h)"
| "ws_step (WReap c) h =
     (if c < length (wh_conns h) \<and> wc_leave (wh_conns h ! c) = Emptied then leave_reap c h else h)"

definition ws_run :: "'f ws_event list \<Rightarrow> 'f ws_hub" where
  "ws_run es = foldl (\<lambda>h e. ws_step e h) newHub es"

section \<open>Rooms\<close>

lemma handshake_role: "ws_handshake role b i hs = Inr x \<Longrightarrow> hs_Role x = ''client'' \<or> hs_Role x = ''daemon''"
  by (auto simp: ws_handshake_def split: prod.splits if_splits)

lemma upd_conn_simps [simp]:
  "wh_rooms (upd_conn c g h) = wh_rooms h" "wh_heap (upd_conn c g h) = wh_heap h"
  "length (wh_conns (upd_conn c g h)) = length (wh_conns h)"
  by (simp_all add: upd_conn_def)

lemma upd_conn_nth:
  "c < length (wh_conns h) \<Longrightarrow> wh_conns (upd_conn c g h) ! d = (if d = c then g (wh_conns h ! c) else wh_conns h ! d)"
  by (simp add: upd_conn_def nth_list_update)

lemma upd_room_simps [simp]:
  "wh_rooms (upd_room r g h) = wh_rooms h" "wh_conns (upd_room r g h) = wh_conns h"
  "length (wh_heap (upd_room r g h)) = length (wh_heap h)"
  by (simp_all add: upd_room_def)

lemma upd_room_nth:
  "r < length (wh_heap h) \<Longrightarrow> wh_heap (upd_room r g h) ! q = (if q = r then g (wh_heap h ! r) else wh_heap h ! q)"
  by (simp add: upd_room_def nth_list_update)

definition is_conn :: "'f ws_hub \<Rightarrow> string \<Rightarrow> string \<Rightarrow> nat \<Rightarrow> bool" where
  "is_conn h role b c \<longleftrightarrow> c < length (wh_conns h) \<and> wc_role (wh_conns h ! c) = role \<and> wc_bastion (wh_conns h ! c) = b"

definition room_ok :: "'f ws_hub \<Rightarrow> ws_room \<Rightarrow> bool" where
  "room_ok h rm \<longleftrightarrow>
     (\<forall>d. wr_daemon rm = Some d \<longrightarrow> is_conn h ''daemon'' (wr_bastion rm) d) \<and>
     (\<forall>c \<in> set (map snd (wr_clients rm)). is_conn h ''client'' (wr_bastion rm) c) \<and>
     distinct (map snd (wr_clients rm))"

definition rooms_inv :: "'f ws_hub \<Rightarrow> bool" where
  "rooms_inv h \<longleftrightarrow>
     (\<forall>c < length (wh_conns h). (wc_role (wh_conns h ! c) = ''client'' \<or> wc_role (wh_conns h ! c) = ''daemon'') \<and>
        wc_room (wh_conns h ! c) < length (wh_heap h) \<and>
        wr_bastion (wh_heap h ! wc_room (wh_conns h ! c)) = wc_bastion (wh_conns h ! c)) \<and>
     (\<forall>r < length (wh_heap h). room_ok h (wh_heap h ! r)) \<and>
     (\<forall>b r. map_of (wh_rooms h) b = Some r \<longrightarrow> r < length (wh_heap h) \<and> wr_bastion (wh_heap h ! r) = b)"

lemma rooms_invI:
  assumes "\<And>c. c < length (wh_conns h) \<Longrightarrow> wc_role (wh_conns h ! c) = ''client'' \<or> wc_role (wh_conns h ! c) = ''daemon''"
    and "\<And>c. c < length (wh_conns h) \<Longrightarrow> wc_room (wh_conns h ! c) < length (wh_heap h) \<and>
        wr_bastion (wh_heap h ! wc_room (wh_conns h ! c)) = wc_bastion (wh_conns h ! c)"
    and "\<And>r. r < length (wh_heap h) \<Longrightarrow> room_ok h (wh_heap h ! r)"
    and "\<And>b r. map_of (wh_rooms h) b = Some r \<Longrightarrow> r < length (wh_heap h) \<and> wr_bastion (wh_heap h ! r) = b"
  shows "rooms_inv h"
  using assms unfolding rooms_inv_def by blast

lemma rooms_invD:
  assumes "rooms_inv h"
  shows "c < length (wh_conns h) \<Longrightarrow> wc_role (wh_conns h ! c) = ''client'' \<or> wc_role (wh_conns h ! c) = ''daemon''"
    and "c < length (wh_conns h) \<Longrightarrow> wc_room (wh_conns h ! c) < length (wh_heap h)"
    and "c < length (wh_conns h) \<Longrightarrow> wr_bastion (wh_heap h ! wc_room (wh_conns h ! c)) = wc_bastion (wh_conns h ! c)"
    and "r < length (wh_heap h) \<Longrightarrow> room_ok h (wh_heap h ! r)"
    and "map_of (wh_rooms h) b = Some r \<Longrightarrow> r < length (wh_heap h) \<and> wr_bastion (wh_heap h ! r) = b"
  using assms unfolding rooms_inv_def by blast+

lemma is_conn_upd [simp]:
  assumes "\<And>x. wc_role (g x) = wc_role x" "\<And>x. wc_bastion (g x) = wc_bastion x"
  shows "is_conn (upd_conn c g h) role b d = is_conn h role b d"
proof (cases "c < length (wh_conns h)")
  case True
  then show ?thesis by (auto simp: is_conn_def upd_conn_nth assms)
qed (simp add: is_conn_def upd_conn_def list_update_beyond not_less)

lemma is_conn_upd_room [simp]: "is_conn (upd_room r g h) = is_conn h"
  by (intro ext) (simp add: is_conn_def)

lemma upd_conn_rooms:
  assumes inv: "rooms_inv h" and c: "c < length (wh_conns h)"
    and g: "\<And>x. wc_role (g x) = wc_role x" "\<And>x. wc_bastion (g x) = wc_bastion x"
    and room: "wc_room (g (wh_conns h ! c)) < length (wh_heap h)"
      "wr_bastion (wh_heap h ! wc_room (g (wh_conns h ! c))) = wc_bastion (wh_conns h ! c)"
  shows "rooms_inv (upd_conn c g h)"
proof (rule rooms_invI, goal_cases)
  case (3 r)
  then show ?case using rooms_invD(4) [OF inv, of r] by (simp add: room_ok_def g)
qed (use rooms_invD [OF inv] room in \<open>auto simp: upd_conn_nth [OF c] g\<close>)

lemma upd_conn_rooms_same:
  assumes "rooms_inv h" "c < length (wh_conns h)"
    "\<And>x. wc_role (g x) = wc_role x" "\<And>x. wc_bastion (g x) = wc_bastion x" "\<And>x. wc_room (g x) = wc_room x"
  shows "rooms_inv (upd_conn c g h)"
  by (rule upd_conn_rooms) (use assms rooms_invD(2,3) in auto)

lemma upd_room_rooms:
  assumes inv: "rooms_inv h" and r: "r < length (wh_heap h)"
    and g: "wr_bastion (g (wh_heap h ! r)) = wr_bastion (wh_heap h ! r)" "room_ok h (g (wh_heap h ! r))"
  shows "rooms_inv (upd_room r g h)"
proof (rule rooms_invI, goal_cases)
  case (2 c)
  then show ?case using rooms_invD(2,3) [OF inv, of c] g by (auto simp: upd_room_nth [OF r])
next
  case (3 q)
  then show ?case using rooms_invD(4) [OF inv, of q] g by (auto simp: upd_room_nth [OF r] room_ok_def)
next
  case (4 b q)
  then show ?case using rooms_invD(5) [OF inv, of b q] g by (auto simp: upd_room_nth [OF r])
qed (use rooms_invD(1) [OF inv] in auto)

lemma distinct_snd_delete: "distinct (map snd xs) \<Longrightarrow> distinct (map snd (AList.delete k xs))"
  unfolding AList.delete_eq by (rule distinct_map_filter)

lemma distinct_snd_update:
  "distinct (map snd xs) \<Longrightarrow> v \<notin> set (map snd xs) \<Longrightarrow> distinct (map snd (AList.update k v xs))"
proof (induction xs)
  case (Cons x xs)
  have "set (map snd (AList.update k v xs)) \<subseteq> insert v (set (map snd xs))"
    using set_aupdate [of k v xs] by auto
  then show ?case using Cons by (cases x) auto
qed simp

lemma vacate_ok: "room_ok h rm \<Longrightarrow> room_ok h (vacate c x rm) \<and> wr_bastion (vacate c x rm) = wr_bastion rm"
  using set_adelete [of "wc_clientID x" "wr_clients rm"]
  by (auto simp: room_ok_def vacate_def Let_def distinct_snd_delete dest!: subsetD)

lemma leave_remove_rooms:
  assumes inv: "rooms_inv h" and c: "c < length (wh_conns h)"
  shows "rooms_inv (leave_remove c h)"
proof (cases "map_of (wh_rooms h) (wc_bastion (wh_conns h ! c))")
  case None
  then show ?thesis using upd_conn_rooms_same [OF inv c] by (simp add: leave_remove_def Let_def)
next
  case (Some r)
  have r: "r < length (wh_heap h)" "wr_bastion (wh_heap h ! r) = wc_bastion (wh_conns h ! c)"
    using rooms_invD(5) [OF inv Some] by auto
  have v: "room_ok h (vacate c (wh_conns h ! c) (wh_heap h ! r))"
    "wr_bastion (vacate c (wh_conns h ! c) (wh_heap h ! r)) = wr_bastion (wh_heap h ! r)"
    using vacate_ok [OF rooms_invD(4) [OF inv r(1)]] by auto
  have i: "rooms_inv (upd_room r (vacate c (wh_conns h ! c)) h)"
    by (rule upd_room_rooms [OF inv r(1), where g = "vacate c (wh_conns h ! c)", OF v(2,1)])
  show ?thesis
    unfolding leave_remove_def Let_def Some option.case
    by (rule upd_conn_rooms [OF i]) (use c r v in \<open>simp_all add: upd_room_nth [OF r(1)]\<close>)
qed

lemma leave_reap_rooms:
  assumes "rooms_inv h" "c < length (wh_conns h)"
  shows "rooms_inv (leave_reap c h)"
proof -
  have "rooms_inv (upd_conn c (\<lambda>x. x\<lparr>wc_leave := Gone\<rparr>) h)"
    by (rule upd_conn_rooms_same [OF assms]) simp_all
  then show ?thesis
    by (auto simp: leave_reap_def Let_def rooms_inv_def room_ok_def is_conn_def split: if_splits)
qed

lemma room_for_rooms:
  assumes inv: "rooms_inv h"
  shows "rooms_inv (snd (room_for b h)) \<and> fst (room_for b h) < length (wh_heap (snd (room_for b h)))
    \<and> wr_bastion (wh_heap (snd (room_for b h)) ! fst (room_for b h)) = b
    \<and> wh_conns (snd (room_for b h)) = wh_conns h"
proof (cases "map_of (wh_rooms h) b")
  case (Some r)
  then show ?thesis using inv rooms_invD(5) [OF inv Some] by (simp add: room_for_def)
next
  case None
  have "rooms_inv (snd (room_for b h))"
  proof (rule rooms_invI, goal_cases)
    case (2 c)
    then show ?case using rooms_invD(2,3) [OF inv, of c] None by (simp add: room_for_def nth_append)
  next
    case (3 r)
    then show ?case using rooms_invD(4) [OF inv, of r] None
      by (auto simp: room_for_def nth_append room_ok_def is_conn_def less_Suc_eq)
  next
    case (4 b' r)
    then show ?case using rooms_invD(5) [OF inv, of b' r] None
      by (auto simp: room_for_def nth_append split: if_splits)
  qed (use rooms_invD(1) [OF inv] None in \<open>simp add: room_for_def\<close>)
  then show ?thesis using None by (simp add: room_for_def)
qed

lemma seat_ok:
  assumes "room_ok h rm" "is_conn h role (wr_bastion rm) c" "c \<notin> set (map snd (wr_clients rm))"
  shows "room_ok h (seat role i c rm) \<and> wr_bastion (seat role i c rm) = wr_bastion rm"
  using assms set_aupdate [of i c "wr_clients rm"] distinct_snd_update [of "wr_clients rm" c i]
  by (fastforce simp: room_ok_def seat_def)

lemma joinRoom_rooms:
  assumes inv: "rooms_inv h" and role: "role = ''client'' \<or> role = ''daemon''"
  shows "rooms_inv (joinRoom freshID role b clientID h)"
proof -
  define h1 where "h1 = snd (room_for b h)"
  define r where "r = fst (room_for b h)"
  define i where "i = (if role = ''client'' \<and> clientID = [] then freshID else clientID)"
  define x :: "'a ws_conn" where "x = \<lparr>wc_role = role, wc_bastion = b, wc_clientID = i, wc_room = r,
                 wc_pending = None, wc_leave = Joined, wc_sent = [], wc_recv = []\<rparr>"
  define h2 where "h2 = h1\<lparr>wh_conns := wh_conns h1 @ [x]\<rparr>"
  have h1: "rooms_inv h1" "r < length (wh_heap h1)" "wr_bastion (wh_heap h1 ! r) = b"
    using room_for_rooms [OF inv, of b] by (simp_all add: h1_def r_def)
  let ?c = "length (wh_conns h1)"
  have J: "joinRoom freshID role b clientID h = upd_room r (seat role i ?c) h2"
    by (simp add: joinRoom_def split_beta Let_def h1_def r_def i_def h2_def x_def)
  have old: "is_conn h1 ro ba d \<Longrightarrow> is_conn h2 ro ba d" for ro ba d
    by (simp add: is_conn_def h2_def nth_append)
  have ok2: "room_ok h2 (wh_heap h1 ! q)" if "q < length (wh_heap h1)" for q
    using rooms_invD(4) [OF h1(1) that] old by (auto simp: room_ok_def)
  have inv2: "rooms_inv h2"
  proof (rule rooms_invI, goal_cases)
    case (1 c)
    then show ?case using rooms_invD(1) [OF h1(1), of c] role
      by (auto simp: h2_def x_def nth_append less_Suc_eq)
  next
    case (2 c)
    then show ?case using rooms_invD(2,3) [OF h1(1), of c] h1
      by (auto simp: h2_def x_def nth_append less_Suc_eq)
  next
    case (3 q)
    then show ?case using ok2 by (simp add: h2_def)
  next
    case (4 b' q)
    then show ?case using rooms_invD(5) [OF h1(1), of b' q] by (simp add: h2_def)
  qed
  have new: "is_conn h2 role b ?c" by (simp add: is_conn_def h2_def x_def)
  have fresh: "?c \<notin> set (map snd (wr_clients (wh_heap h1 ! r)))"
    using rooms_invD(4) [OF h1(1,2)] by (force simp: room_ok_def is_conn_def)
  have seat: "room_ok h2 (seat role i ?c (wh_heap h2 ! r))
      \<and> wr_bastion (seat role i ?c (wh_heap h2 ! r)) = wr_bastion (wh_heap h2 ! r)"
    using seat_ok [OF ok2 [OF h1(2)], of role ?c i] new fresh h1(3) by (simp add: h2_def)
  have r2: "r < length (wh_heap h2)" using h1(2) by (simp add: h2_def)
  show ?thesis
    unfolding J by (rule upd_room_rooms [OF inv2 r2, where g = "seat role i ?c",
          OF seat [THEN conjunct2] seat [THEN conjunct1]])
qed

lemma fanout_write_rooms:
  assumes inv: "rooms_inv h" and c: "c < length (wh_conns h)"
    and t: "\<And>t ts f. wc_pending (wh_conns h ! c) = Some (t # ts, f) \<Longrightarrow> t < length (wh_conns h)"
  shows "rooms_inv (fanout_write c fails h)"
proof (cases "wc_pending (wh_conns h ! c)")
  case None
  then show ?thesis using inv by (simp add: fanout_write_def)
next
  case (Some p)
  obtain ts f where p: "p = (ts, f)" by (cases p)
  show ?thesis
  proof (cases ts)
    case Nil
    then show ?thesis using upd_conn_rooms_same [OF inv c] Some p by (simp add: fanout_write_def)
  next
    case (Cons t us)
    have 1: "rooms_inv (upd_conn c (\<lambda>x. x\<lparr>wc_pending := Some (us, f)\<rparr>) h)"
      by (rule upd_conn_rooms_same [OF inv c]) simp_all
    have 2: "rooms_inv (upd_conn t (\<lambda>y. y\<lparr>wc_recv := wc_recv y @ [(c, f)]\<rparr>)
        (upd_conn c (\<lambda>x. x\<lparr>wc_pending := Some (us, f)\<rparr>) h))"
      by (rule upd_conn_rooms_same [OF 1]) (use t Some p Cons in simp_all)
    show ?thesis using Some p Cons 1 2 by (simp add: fanout_write_def Let_def)
  qed
qed

section \<open>Frames\<close>

definition reach :: "'f ws_hub \<Rightarrow> nat \<Rightarrow> nat \<Rightarrow> bool" where
  "reach h s t \<longleftrightarrow> (\<exists>b. is_conn h ''client'' b s \<and> is_conn h ''daemon'' b t
     \<or> is_conn h ''daemon'' b s \<and> is_conn h ''client'' b t)"

text \<open>What \<open>t\<close> has of \<open>s\<close>, and what \<open>s\<close> has sent that \<open>t\<close> is not still waiting for.\<close>

definition from_conn :: "nat \<Rightarrow> 'f ws_conn \<Rightarrow> 'f list" where
  "from_conn s x = map snd (filter (\<lambda>p. fst p = s) (wc_recv x))"

definition due :: "nat \<Rightarrow> 'f ws_conn \<Rightarrow> 'f list" where
  "due t x = (case wc_pending x of Some (ts, f) \<Rightarrow> if t \<in> set ts then butlast (wc_sent x) else wc_sent x
     | None \<Rightarrow> wc_sent x)"

definition frames_inv :: "'f ws_hub \<Rightarrow> bool" where
  "frames_inv h \<longleftrightarrow>
     (\<forall>s < length (wh_conns h). \<forall>ts f. wc_pending (wh_conns h ! s) = Some (ts, f) \<longrightarrow>
        distinct ts \<and> (\<forall>t \<in> set ts. reach h s t) \<and> (\<exists>us. wc_sent (wh_conns h ! s) = us @ [f])) \<and>
     (\<forall>t < length (wh_conns h). \<forall>p \<in> set (wc_recv (wh_conns h ! t)). reach h (fst p) t) \<and>
     (\<forall>s < length (wh_conns h). \<forall>t < length (wh_conns h).
        subseq (from_conn s (wh_conns h ! t)) (due t (wh_conns h ! s)))"

lemma frames_invI:
  assumes "\<And>s ts f. s < length (wh_conns h) \<Longrightarrow> wc_pending (wh_conns h ! s) = Some (ts, f) \<Longrightarrow>
        distinct ts \<and> (\<forall>t \<in> set ts. reach h s t) \<and> (\<exists>us. wc_sent (wh_conns h ! s) = us @ [f])"
    and "\<And>t p. t < length (wh_conns h) \<Longrightarrow> p \<in> set (wc_recv (wh_conns h ! t)) \<Longrightarrow> reach h (fst p) t"
    and "\<And>s t. s < length (wh_conns h) \<Longrightarrow> t < length (wh_conns h) \<Longrightarrow>
        subseq (from_conn s (wh_conns h ! t)) (due t (wh_conns h ! s))"
  shows "frames_inv h"
  using assms unfolding frames_inv_def by blast

lemma frames_invD:
  assumes "frames_inv h"
  shows "s < length (wh_conns h) \<Longrightarrow> wc_pending (wh_conns h ! s) = Some (ts, f) \<Longrightarrow>
        distinct ts \<and> (\<forall>t \<in> set ts. reach h s t) \<and> (\<exists>us. wc_sent (wh_conns h ! s) = us @ [f])"
    and "t < length (wh_conns h) \<Longrightarrow> p \<in> set (wc_recv (wh_conns h ! t)) \<Longrightarrow> reach h (fst p) t"
    and "s < length (wh_conns h) \<Longrightarrow> t < length (wh_conns h) \<Longrightarrow>
        subseq (from_conn s (wh_conns h ! t)) (due t (wh_conns h ! s))"
  using assms unfolding frames_inv_def by blast+

lemma reach_conns: "reach h s t \<Longrightarrow> s < length (wh_conns h) \<and> t < length (wh_conns h) \<and> s \<noteq> t"
  by (auto simp: reach_def is_conn_def)

lemma reach_upd [simp]:
  assumes "\<And>x. wc_role (g x) = wc_role x" "\<And>x. wc_bastion (g x) = wc_bastion x"
  shows "reach (upd_conn c g h) = reach h"
  by (intro ext) (simp add: reach_def assms)

lemma reach_upd_room [simp]: "reach (upd_room r g h) = reach h"
  by (intro ext) (simp add: reach_def)

text \<open>A step that changes no frame.\<close>

lemma frames_inv_cong:
  assumes "frames_inv h" "length (wh_conns h') = length (wh_conns h)" "reach h' = reach h"
    "\<And>c. c < length (wh_conns h) \<Longrightarrow> wc_pending (wh_conns h' ! c) = wc_pending (wh_conns h ! c) \<and>
       wc_sent (wh_conns h' ! c) = wc_sent (wh_conns h ! c) \<and> wc_recv (wh_conns h' ! c) = wc_recv (wh_conns h ! c)"
  shows "frames_inv h'"
proof (rule frames_invI, goal_cases)
  case (1 s ts f)
  then show ?case using frames_invD(1) [OF assms(1), of s ts f] assms(2-4) by simp
next
  case (2 t p)
  then show ?case using frames_invD(2) [OF assms(1), of t p] assms(2-4) by simp
next
  case (3 s t)
  then have "from_conn s (wh_conns h' ! t) = from_conn s (wh_conns h ! t)"
    and "due t (wh_conns h' ! s) = due t (wh_conns h ! s)"
    using assms(2,4) by (simp_all add: from_conn_def due_def split: option.split)
  then show ?case using frames_invD(3) [OF assms(1), of s t] 3 assms(2) by simp
qed

lemma fanout_targets_reach:
  assumes inv: "rooms_inv h" and c: "c < length (wh_conns h)"
  shows "distinct (fanout_targets (wc_role (wh_conns h ! c)) (wh_heap h ! wc_room (wh_conns h ! c)))
    \<and> (\<forall>t \<in> set (fanout_targets (wc_role (wh_conns h ! c)) (wh_heap h ! wc_room (wh_conns h ! c))). reach h c t)"
proof -
  let ?x = "wh_conns h ! c"
  have rm: "room_ok h (wh_heap h ! wc_room ?x)" "wr_bastion (wh_heap h ! wc_room ?x) = wc_bastion ?x"
    using rooms_invD(2-4) [OF inv] c by auto
  have me: "is_conn h (wc_role ?x) (wc_bastion ?x) c" using c by (simp add: is_conn_def)
  from rooms_invD(1) [OF inv c] show ?thesis
  proof
    assume "wc_role ?x = ''client''"
    then show ?thesis using rm me by (auto simp: fanout_targets_def room_ok_def reach_def split: option.split)
  next
    assume d: "wc_role ?x = ''daemon''"
    have "reach h c t" if "t \<in> set (map snd (wr_clients (wh_heap h ! wc_room ?x)))" for t
    proof -
      have "is_conn h ''client'' (wc_bastion ?x) t"
        by (rule rm(1) [unfolded room_ok_def, THEN conjunct2, THEN conjunct1, rule_format, OF that, unfolded rm(2)])
      then show ?thesis using me d unfolding reach_def by metis
    qed
    then show ?thesis using rm d by (simp add: fanout_targets_def room_ok_def)
  qed
qed

lemma fanout_collect_frames:
  assumes inv: "rooms_inv h" "frames_inv h" and c: "c < length (wh_conns h)"
    and idle: "wc_pending (wh_conns h ! c) = None"
  shows "frames_inv (fanout_collect c f h)"
proof -
  let ?ts = "fanout_targets (wc_role (wh_conns h ! c)) (wh_heap h ! wc_room (wh_conns h ! c))"
  note tg = fanout_targets_reach [OF inv(1) c]
  have nth: "wh_conns (fanout_collect c f h) ! d = (if d = c
      then (wh_conns h ! c)\<lparr>wc_pending := Some (?ts, f), wc_sent := wc_sent (wh_conns h ! c) @ [f]\<rparr>
      else wh_conns h ! d)" for d
    using c by (simp add: fanout_collect_def Let_def upd_conn_nth)
  have len: "length (wh_conns (fanout_collect c f h)) = length (wh_conns h)"
    by (simp add: fanout_collect_def Let_def)
  have re: "reach (fanout_collect c f h) = reach h" by (simp add: fanout_collect_def Let_def)
  show ?thesis
  proof (rule frames_invI, goal_cases)
    case (1 s ts g)
    then show ?case using tg frames_invD(1) [OF inv(2), of s ts g] by (auto simp: nth len re split: if_splits)
  next
    case (2 t p)
    then show ?case using frames_invD(2) [OF inv(2), of t p] by (auto simp: nth len re split: if_splits)
  next
    case (3 s t)
    have "subseq (from_conn s (wh_conns h ! t)) (due t (wh_conns h ! s))"
      by (rule frames_invD(3) [OF inv(2)]) (use 3 in \<open>simp_all add: len\<close>)
    moreover have "from_conn s (wh_conns (fanout_collect c f h) ! t) = from_conn s (wh_conns h ! t)"
      by (simp add: nth from_conn_def)
    moreover have "subseq (due t (wh_conns h ! s)) (due t (wh_conns (fanout_collect c f h) ! s))"
      using idle by (auto simp: nth due_def)
    ultimately show ?case by (metis subseq_order.order_trans)
  qed
qed

lemma due_recv [simp]: "due e (x\<lparr>wc_recv := r\<rparr>) = due e x"
  by (simp add: due_def split: option.split)

lemma due_next:
  assumes "wc_pending x = Some (t # ts, f)" "wc_sent x = us @ [f]" "distinct (t # ts)"
  shows "due t x = us" "due t (x\<lparr>wc_pending := Some (ts, f)\<rparr>) = us @ [f]"
    and "u \<noteq> t \<Longrightarrow> due u (x\<lparr>wc_pending := Some (ts, f)\<rparr>) = due u x"
  using assms by (simp_all add: due_def)

lemma fanout_write_frames:
  assumes inv: "frames_inv h" and c: "c < length (wh_conns h)"
  shows "frames_inv (fanout_write c fails h)"
proof (cases "wc_pending (wh_conns h ! c)")
  case None
  then show ?thesis using inv by (simp add: fanout_write_def)
next
  case (Some p)
  obtain ts f where p: "p = (ts, f)" by (cases p)
  note pend = frames_invD(1) [OF inv c Some [unfolded p]]
  show ?thesis
  proof (cases ts)
    case Nil
    have nth: "wh_conns (fanout_write c fails h) ! d = (if d = c then (wh_conns h ! c)\<lparr>wc_pending := None\<rparr>
        else wh_conns h ! d)" for d
      using Some p Nil c by (simp add: fanout_write_def upd_conn_nth)
    have len: "length (wh_conns (fanout_write c fails h)) = length (wh_conns h)"
      and re: "reach (fanout_write c fails h) = reach h"
      using Some p Nil by (simp_all add: fanout_write_def)
    show ?thesis
    proof (rule frames_invI, goal_cases)
      case (1 s ts' g)
      then show ?case using frames_invD(1) [OF inv, of s ts' g] by (auto simp: nth len re split: if_splits)
    next
      case (2 t q)
      then show ?case using frames_invD(2) [OF inv, of t q] by (auto simp: nth len re split: if_splits)
    next
      case (3 s t)
      have "from_conn s (wh_conns (fanout_write c fails h) ! t) = from_conn s (wh_conns h ! t)"
        by (simp add: nth from_conn_def)
      moreover have "due t (wh_conns (fanout_write c fails h) ! s) = due t (wh_conns h ! s)"
        using Some p Nil by (simp add: nth due_def)
      ultimately show ?case using frames_invD(3) [OF inv, of s t] 3 by (simp add: len)
    qed
  next
    case (Cons t us)
    obtain ws where ws: "wc_sent (wh_conns h ! c) = ws @ [f]" and d: "distinct (t # us)"
      and r: "\<And>u. u \<in> set (t # us) \<Longrightarrow> reach h c u" using pend unfolding Cons by blast
    have t: "t < length (wh_conns h)" "t \<noteq> c" using reach_conns [OF r [of t]] by auto
    note dn = due_next [OF Some [unfolded p Cons] ws d]
    have nth: "wh_conns (fanout_write c fails h) ! e =
        (if e = c then (wh_conns h ! c)\<lparr>wc_pending := Some (us, f)\<rparr>
         else if e = t \<and> \<not> fails then (wh_conns h ! t)\<lparr>wc_recv := wc_recv (wh_conns h ! t) @ [(c, f)]\<rparr>
         else wh_conns h ! e)" for e
      using Some p Cons c t by (simp add: fanout_write_def upd_conn_nth Let_def)
    have len: "length (wh_conns (fanout_write c fails h)) = length (wh_conns h)"
      and re: "reach (fanout_write c fails h) = reach h"
      using Some p Cons by (simp_all add: fanout_write_def Let_def)
    show ?thesis
    proof (rule frames_invI, goal_cases)
      case (1 s ts' g)
      show ?case
      proof (cases "s = c")
        case True
        then show ?thesis using 1 ws d r by (simp add: nth re)
      next
        case False
        then have "wc_pending (wh_conns h ! s) = Some (ts', g)" using 1 by (auto simp: nth split: if_splits)
        then show ?thesis using frames_invD(1) [OF inv, of s ts' g] 1 False by (auto simp: nth len re)
      qed
    next
      case (2 e q)
      then have "q = (c, f) \<and> e = t \<or> q \<in> set (wc_recv (wh_conns h ! e))"
        by (auto simp: nth split: if_splits)
      then show ?case using frames_invD(2) [OF inv, of e q] 2 r [of t] by (auto simp: re len)
    next
      case (3 s e)
      have old: "subseq (from_conn s (wh_conns h ! e)) (due e (wh_conns h ! s))"
        by (rule frames_invD(3) [OF inv]) (use 3 in \<open>simp_all add: len\<close>)
      have from': "from_conn s (wh_conns (fanout_write c fails h) ! e)
          = from_conn s (wh_conns h ! e) @ (if s = c \<and> e = t \<and> \<not> fails then [f] else [])"
        using t by (auto simp: nth from_conn_def)
      have due': "due e (wh_conns (fanout_write c fails h) ! s)
          = (if s = c \<and> e = t then ws @ [f] else due e (wh_conns h ! s))"
        using dn(2,3) by (auto simp: nth)
      show ?case
        using old dn(1) unfolding from' due' by (auto intro: list_emb_append_mono subseq_rev_drop_many)
    qed
  qed
qed

lemma joinRoom_conns:
  "\<exists>x. wh_conns (joinRoom freshID role b clientID h) = wh_conns h @ [x]
     \<and> wc_pending x = None \<and> wc_sent x = [] \<and> wc_recv x = [] \<and> wc_role x = role \<and> wc_bastion x = b"
proof -
  have "wh_conns (snd (room_for b h)) = wh_conns h" by (simp add: room_for_def split: option.split)
  then show ?thesis by (simp add: joinRoom_def split_beta Let_def)
qed

lemma joinRoom_frames:
  assumes inv: "frames_inv h"
  shows "frames_inv (joinRoom freshID role b clientID h)"
proof -
  let ?h = "joinRoom freshID role b clientID h"
  obtain x where x: "wh_conns ?h = wh_conns h @ [x]" "wc_pending x = None" "wc_sent x = []" "wc_recv x = []"
    using joinRoom_conns [of freshID role b clientID h] by blast
  have re: "reach h s t \<Longrightarrow> reach ?h s t" for s t
    by (auto simp: reach_def is_conn_def x(1) nth_append)
  show ?thesis
  proof (rule frames_invI, goal_cases)
    case (1 s ts f)
    then have "s < length (wh_conns h)" using x by (auto simp: nth_append less_Suc_eq split: if_splits)
    then show ?case using frames_invD(1) [OF inv, of s ts f] 1 re by (auto simp: x(1) nth_append)
  next
    case (2 t p)
    then have "t < length (wh_conns h)" using x by (auto simp: nth_append less_Suc_eq split: if_splits)
    then show ?case using frames_invD(2) [OF inv, of t p] 2 re by (auto simp: x(1) nth_append)
  next
    case (3 s t)
    have "from_conn s x = []" using x by (simp add: from_conn_def)
    moreover have "from_conn s (wh_conns h ! t) = []" if "s = length (wh_conns h)" "t < length (wh_conns h)"
    proof -
      have "fst p \<noteq> s" if "p \<in> set (wc_recv (wh_conns h ! t))" for p
        using reach_conns [OF frames_invD(2) [OF inv \<open>t < length (wh_conns h)\<close> that]] \<open>s = length (wh_conns h)\<close> by auto
      then show ?thesis by (auto simp: from_conn_def filter_empty_conv)
    qed
    ultimately show ?case using frames_invD(3) [OF inv, of s t] 3
      by (auto simp: x(1) nth_append less_Suc_eq)
  qed
qed

lemma leave_frames:
  assumes inv: "frames_inv h" and c: "c < length (wh_conns h)"
  shows "frames_inv (leave_remove c h)" "frames_inv (leave_reap c h)"
proof -
  show "frames_inv (leave_remove c h)"
    by (rule frames_inv_cong [OF inv])
      (auto simp: leave_remove_def Let_def upd_conn_nth c split: option.split)
  show "frames_inv (leave_reap c h)"
  proof (rule frames_inv_cong [OF inv])
    show "reach (leave_reap c h) = reach h"
      by (intro ext) (auto simp: leave_reap_def Let_def reach_def is_conn_def upd_conn_nth c)
  qed (auto simp: leave_reap_def Let_def upd_conn_nth c)
qed

lemma ws_step_inv:
  assumes "rooms_inv h" "frames_inv h"
  shows "rooms_inv (ws_step e h) \<and> frames_inv (ws_step e h)"
proof (cases e)
  case (WJoin freshID role b clientID headers)
  then show ?thesis
    using assms handshake_role joinRoom_rooms joinRoom_frames by (fastforce split: sum.split)
next
  case (WFrame c f)
  have "rooms_inv (fanout_collect c f h)" if "c < length (wh_conns h)"
    unfolding fanout_collect_def Let_def by (rule upd_conn_rooms_same [OF assms(1) that]) simp_all
  then show ?thesis using assms WFrame by (simp add: fanout_collect_frames)
next
  case (WWrite c fails)
  have "rooms_inv (fanout_write c fails h)" if c: "c < length (wh_conns h)"
  proof (rule fanout_write_rooms [OF assms(1) c])
    fix t ts f assume "wc_pending (wh_conns h ! c) = Some (t # ts, f)"
    from frames_invD(1) [OF assms(2) c this] show "t < length (wh_conns h)"
      using reach_conns by auto
  qed
  then show ?thesis using assms WWrite by (simp add: fanout_write_frames)
next
  case (WLeave c)
  then show ?thesis using assms leave_remove_rooms leave_frames by auto
next
  case (WReap c)
  then show ?thesis using assms leave_reap_rooms leave_frames by auto
qed

lemma ws_run_inv: "rooms_inv (ws_run es) \<and> frames_inv (ws_run es)"
proof (induction es rule: rev_induct)
  case Nil
  show ?case by (simp add: ws_run_def newHub_def rooms_inv_def frames_inv_def)
next
  case (snoc e es)
  then show ?case using ws_step_inv [of "ws_run es" e] by (simp add: ws_run_def)
qed

lemma due_subseq: "subseq (due t x) (wc_sent x)"
proof (cases "wc_pending x")
  case (Some p)
  have "subseq (butlast xs) xs" for xs :: "'a list"
    by (cases xs rule: rev_cases) (auto intro: subseq_rev_drop_many)
  then show ?thesis using Some by (cases p) (simp add: due_def)
qed (simp add: due_def)

section \<open>What the relay does not protect\<close>

text \<open>
  A client that reconnects under its id is registered before its old connection leaves; leaving removes
  the id, whoever holds it now, and the daemon's frames no longer reach the new connection.
\<close>

lemma reconnected_client_is_cut_off:
  "let h = ws_run [WJoin [] ''daemon'' ''b'' [] [], WJoin [] ''client'' ''b'' ''m'' [],
        WJoin [] ''client'' ''b'' ''m'' [], WLeave 1, WFrame 0 (7::nat), WWrite 0 False]
   in wc_leave (wh_conns h ! 2) = Joined \<and> wc_recv (wh_conns h ! 2) = []"
  by code_simp

text \<open>A daemon that another has replaced still reaches the clients.\<close>

lemma replaced_daemon_still_sends:
  "let h = ws_run [WJoin [] ''daemon'' ''b'' [] [], WJoin [] ''daemon'' ''b'' [] [],
        WJoin [] ''client'' ''b'' ''m'' [], WFrame 0 (7::nat), WWrite 0 False]
   in wr_daemon (wh_heap h ! 0) = Some 1 \<and> wc_recv (wh_conns h ! 2) = [(0, 7)]"
  by code_simp

section \<open>Property\<close>

text \<open>C38: whatever the interleaving of joins, frames, writes and departures, a connection receives only
  frames sent by a connection of the other role for the same bastion, and of each such connection a
  subsequence of what it sent, in its order; and a frame of a client in a room with a daemon reaches
  that daemon with its next write.\<close>

theorem relay_rooms_isolated:
  fixes es :: "'f ws_event list"
  defines "h \<equiv> ws_run es"
  shows "(\<forall>t s f. t < length (wh_conns h) \<and> (s, f) \<in> set (wc_recv (wh_conns h ! t)) \<longrightarrow>
        s < length (wh_conns h) \<and> wc_bastion (wh_conns h ! s) = wc_bastion (wh_conns h ! t)
        \<and> {wc_role (wh_conns h ! s), wc_role (wh_conns h ! t)} = {''client'', ''daemon''})
    \<and> (\<forall>s t. s < length (wh_conns h) \<and> t < length (wh_conns h) \<longrightarrow>
        subseq (map snd (filter (\<lambda>p. fst p = s) (wc_recv (wh_conns h ! t)))) (wc_sent (wh_conns h ! s)))
    \<and> (\<forall>c d f. c < length (wh_conns h) \<and> wc_role (wh_conns h ! c) = ''client'' \<and> wc_leave (wh_conns h ! c) = Joined
        \<and> wc_pending (wh_conns h ! c) = None \<and> wr_daemon (wh_heap h ! wc_room (wh_conns h ! c)) = Some d \<longrightarrow>
        wc_recv (wh_conns (ws_run (es @ [WFrame c f, WWrite c False])) ! d) = wc_recv (wh_conns h ! d) @ [(c, f)])"
proof -
  have inv: "rooms_inv h" "frames_inv h" using ws_run_inv by (auto simp: h_def)
  have 1: "s < length (wh_conns h) \<and> wc_bastion (wh_conns h ! s) = wc_bastion (wh_conns h ! t)
        \<and> {wc_role (wh_conns h ! s), wc_role (wh_conns h ! t)} = {''client'', ''daemon''}"
    if "t < length (wh_conns h)" "(s, f) \<in> set (wc_recv (wh_conns h ! t))" for t s f
    using frames_invD(2) [OF inv(2) that] by (auto simp: reach_def is_conn_def)
  have 2: "subseq (map snd (filter (\<lambda>p. fst p = s) (wc_recv (wh_conns h ! t)))) (wc_sent (wh_conns h ! s))"
    if "s < length (wh_conns h)" "t < length (wh_conns h)" for s t
    using frames_invD(3) [OF inv(2) that] due_subseq unfolding from_conn_def by (rule subseq_order.order_trans)
  have 3: "wc_recv (wh_conns (ws_run (es @ [WFrame c f, WWrite c False])) ! d) = wc_recv (wh_conns h ! d) @ [(c, f)]"
    if c: "c < length (wh_conns h)" "wc_role (wh_conns h ! c) = ''client''" "wc_leave (wh_conns h ! c) = Joined"
      "wc_pending (wh_conns h ! c) = None" "wr_daemon (wh_heap h ! wc_room (wh_conns h ! c)) = Some d" for c d f
  proof -
    have "reach h c d" using fanout_targets_reach [OF inv(1) c(1)] c(2,5) by (simp add: fanout_targets_def)
    then have d: "d < length (wh_conns h)" "c \<noteq> d" using reach_conns by auto
    have run: "ws_run (es @ [WFrame c f, WWrite c False]) = fanout_write c False (fanout_collect c f h)"
      using c by (simp add: ws_run_def h_def fanout_collect_def Let_def)
    show ?thesis
      using c d unfolding run
      by (simp add: fanout_collect_def fanout_write_def fanout_targets_def Let_def upd_conn_nth)
  qed
  show ?thesis using 1 2 3 by blast
qed

lemma relay_rooms_isolated_witness:
  "wc_recv (wh_conns (ws_run ([WJoin [] ''daemon'' ''b'' [] [], WJoin [] ''client'' ''b'' ''m'' []]
      @ [WFrame 1 (7::nat), WWrite 1 False])) ! 0) = [(1, 7)]"
  using relay_rooms_isolated [of "[WJoin [] ''daemon'' ''b'' [] [], WJoin [] ''client'' ''b'' ''m'' []]",
      THEN conjunct2, THEN conjunct2, rule_format, of 1 0 "7::nat"]
  by (rule trans) code_simp+

end
