(* ===== verification/Jose.thy ===== *)
theory Jose
  imports Grants Go_Map
begin

text \<open>
  Compact signed tokens as \<open>internal/auth/es256.go\<close> and \<open>keystore.go\<close> write and check them: unpadded
  URL-safe base64 (the part of \<open>encoding/base64\<close> the sources use), big-endian integers of fixed width,
  the three dot-separated parts, and the key documents peers publish. The elliptic-curve primitives and
  the text form of JSON are the fields of a record: a private key has a public point, signing draws a
  seed, and \<open>js_print\<close>, \<open>js_parse\<close> are \<open>json.Marshal\<close> and the parser behind \<open>json.Unmarshal\<close>.
\<close>

section \<open>Base64\<close>

definition b64_char :: "nat \<Rightarrow> char" where
  "b64_char n = ''ABCDEFGHIJKLMNOPQRSTUVWXYZabcdefghijklmnopqrstuvwxyz0123456789-_'' ! n"

definition b64_value :: "char \<Rightarrow> nat option" where
  "b64_value c =
     (let n = (of_char c :: nat) in
      if 65 \<le> n \<and> n \<le> 90 then Some (n - 65)
      else if 97 \<le> n \<and> n \<le> 122 then Some (n - 71)
      else if 48 \<le> n \<and> n \<le> 57 then Some (n + 4)
      else if n = 45 then Some 62 else if n = 95 then Some 63 else None)"

definition b64_first :: "nat \<Rightarrow> nat \<Rightarrow> char" where "b64_first p q = char_of (p * 4 + q div 16)"
definition b64_second :: "nat \<Rightarrow> nat \<Rightarrow> char" where "b64_second q r = char_of ((q mod 16) * 16 + r div 4)"
definition b64_third :: "nat \<Rightarrow> nat \<Rightarrow> char" where "b64_third r s = char_of ((r mod 4) * 64 + s)"

text \<open>\<open>RawURLEncoding.EncodeToString\<close>.\<close>

fun b64_encode :: "string \<Rightarrow> string" where
  "b64_encode [] = []"
| "b64_encode [x] = (let a = (of_char x :: nat) in [b64_char (a div 4), b64_char (a mod 4 * 16)])"
| "b64_encode [x, y] =
     (let a = (of_char x :: nat); b = (of_char y :: nat) in
      [b64_char (a div 4), b64_char (a mod 4 * 16 + b div 16), b64_char (b mod 16 * 4)])"
| "b64_encode (x # y # z # s) =
     (let a = (of_char x :: nat); b = (of_char y :: nat); c = (of_char z :: nat) in
      b64_char (a div 4) # b64_char (a mod 4 * 16 + b div 16) # b64_char (b mod 16 * 4 + c div 64)
      # b64_char (c mod 64) # b64_encode s)"

definition corrupt :: "nat \<Rightarrow> 'a result" where
  "corrupt i = Inl (''illegal base64 data at input byte '' @ partIndex i)"

definition is_newline :: "char \<Rightarrow> bool" where
  "is_newline c \<longleftrightarrow> (of_char c :: nat) = 10 \<or> (of_char c :: nat) = 13"

text \<open>
  \<open>DecodeString\<close>: line breaks are skipped, the unused bits of a last group are ignored; \<open>i\<close> is the position
  of the next byte and \<open>ds\<close> the digits of the group so far.
\<close>

fun b64_loop :: "nat \<Rightarrow> nat list \<Rightarrow> string \<Rightarrow> string result" where
  "b64_loop i ds [] =
     (case ds of
        [] \<Rightarrow> Inr []
      | [p, q] \<Rightarrow> Inr [b64_first p q]
      | [p, q, r] \<Rightarrow> Inr [b64_first p q, b64_second q r]
      | _ \<Rightarrow> corrupt (i - length ds))"
| "b64_loop i ds (c # cs) =
     (if is_newline c then b64_loop (Suc i) ds cs
      else case b64_value c of
        None \<Rightarrow> corrupt i
      | Some s \<Rightarrow>
          (case ds of
             [p, q, r] \<Rightarrow>
               res_bind (b64_loop (Suc i) [] cs)
                 (\<lambda>bs. Inr (b64_first p q # b64_second q r # b64_third r s # bs))
           | _ \<Rightarrow> b64_loop (Suc i) (ds @ [s]) cs))"

definition b64_decode :: "string \<Rightarrow> string result" where
  "b64_decode s = b64_loop 0 [] s"

lemma b64_alphabet:
  "list_all2 (\<lambda>n c. b64_value c = Some n \<and> \<not> is_newline c \<and> c \<noteq> CHR ''.'' \<and> c \<noteq> CHR ''=''
      \<and> \<not> is_space c) [0..<64]
     ''ABCDEFGHIJKLMNOPQRSTUVWXYZabcdefghijklmnopqrstuvwxyz0123456789-_''"
  by code_simp

lemma b64_digit [simp]:
  assumes "n < 64"
  shows "b64_value (b64_char n) = Some n" "\<not> is_newline (b64_char n)" "b64_char n \<noteq> CHR ''.''"
    "b64_char n \<noteq> CHR ''=''" "\<not> is_space (b64_char n)"
  using list_all2_nthD [OF b64_alphabet, of n] assms by (simp_all add: b64_char_def)

lemma byte_groups [simp]:
  "b64_first (of_char x div 4) (of_char x mod 4 * 16 + of_char y div 16) = x"
  "b64_first (of_char x div 4) (of_char x mod 4 * 16) = x"
  "b64_second (of_char x mod 4 * 16 + of_char y div 16) (of_char y mod 16 * 4 + of_char z div 64) = y"
  "b64_second (of_char x mod 4 * 16 + of_char y div 16) (of_char y mod 16 * 4) = y"
  "b64_third (of_char y mod 16 * 4 + of_char z div 64) (of_char z mod 64) = z"
proof -
  have g: "(m * 16 + k) div 16 = m" "(m * 16 + k) mod 16 = k" if "k < 16" for m k :: nat
    using that by simp_all
  have h: "(m * 4 + k) div 4 = m" "(m * 4 + k) mod 4 = k" if "k < 4" for m k :: nat
    using that by simp_all
  have 1: "a div 4 * 4 + (a mod 4 * 16 + b div 16) div 16 = a"
    and 3: "(a mod 4 * 16 + b div 16) mod 16 * 16 + (b mod 16 * 4 + c div 64) div 4 = b"
    and 5: "(b mod 16 * 4 + c div 64) mod 4 * 64 + c mod 64 = c"
    if "a < 256" "b < 256" "c < 256" for a b c :: nat
    using that g [of "b div 16" "a mod 4"] h [of "c div 64" "b mod 16"] by simp_all
  have 2: "a div 4 * 4 + (a mod 4 * 16) div 16 = a"
    and 4: "(a mod 4 * 16 + b div 16) mod 16 * 16 + (b mod 16 * 4) div 4 = b"
    if "a < 256" "b < 256" for a b :: nat
    using that 1 [of a 0 0] 3 [of a b 0] by simp_all
  show "b64_first (of_char x div 4) (of_char x mod 4 * 16 + of_char y div 16) = x"
    "b64_first (of_char x div 4) (of_char x mod 4 * 16) = x"
    "b64_second (of_char x mod 4 * 16 + of_char y div 16) (of_char y mod 16 * 4 + of_char z div 64) = y"
    "b64_second (of_char x mod 4 * 16 + of_char y div 16) (of_char y mod 16 * 4) = y"
    "b64_third (of_char y mod 16 * 4 + of_char z div 64) (of_char z mod 64) = z"
    unfolding b64_first_def b64_second_def b64_third_def
    using 1 [of "of_char x" "of_char y" 0] 2 [of "of_char x" 0] 3 [of "of_char x" "of_char y" "of_char z"]
      4 [of "of_char x" "of_char y"] 5 [of 0 "of_char y" "of_char z"]
    by (simp_all only: of_char_lt char_of_char zero_less_numeral)
qed

lemma digit_bounds [simp]:
  "(of_char x :: nat) div 4 < 64" "(of_char x :: nat) mod 4 * 16 + of_char y div 16 < 64"
  "(of_char x :: nat) mod 4 * 16 < 64" "(of_char y :: nat) mod 16 * 4 + of_char z div 64 < 64"
  "(of_char y :: nat) mod 16 * 4 < 64" "(of_char z :: nat) mod 64 < 64"
  using of_char_lt [of x] of_char_lt [of y] of_char_lt [of z] by linarith+

lemma b64_loop_encode: "b64_loop i [] (b64_encode s) = Inr s"
  by (induction s arbitrary: i rule: b64_encode.induct) (simp_all add: Let_def)

lemma b64_round_trip [simp]: "b64_decode (b64_encode s) = Inr s"
  by (simp add: b64_decode_def b64_loop_encode)

lemma b64_no_dot [simp]: "CHR ''.'' \<notin> set (b64_encode s)"
  by (induction s rule: b64_encode.induct) (simp_all add: Let_def eq_commute [of "CHR ''.''"])

lemma b64_no_pad: "CHR ''='' \<notin> set (b64_encode s)"
  by (induction s rule: b64_encode.induct) (simp_all add: Let_def eq_commute [of "CHR ''=''"])

lemma b64_no_space: "c \<in> set (b64_encode s) \<Longrightarrow> \<not> is_space c"
  by (induction s rule: b64_encode.induct) (auto simp: Let_def)

section \<open>Integers of fixed width\<close>

text \<open>\<open>big.Int\<close>'s \<open>SetBytes\<close> and \<open>Bytes\<close>, and \<open>paddedBigEndian\<close>.\<close>

definition be_nat :: "string \<Rightarrow> nat" where
  "be_nat s = foldl (\<lambda>n c. 256 * n + of_char c) 0 s"

fun be_loop :: "nat \<Rightarrow> string \<Rightarrow> string" where
  "be_loop n out = (if n = 0 then out else be_loop (n div 256) (char_of (n mod 256) # out))"

declare be_loop.simps [simp del]

definition be_bytes :: "nat \<Rightarrow> string" where
  "be_bytes n = be_loop n []"

definition paddedBigEndian :: "nat \<Rightarrow> nat \<Rightarrow> string" where
  "paddedBigEndian n len =
     (let b = be_bytes n in if length b \<ge> len then b else replicate (len - length b) (char_of (0::nat)) @ b)"

lemma be_nat_append: "be_nat (s @ t) = be_nat s * 256 ^ length t + be_nat t"
proof (induction t rule: rev_induct)
  case (snoc c t)
  have "be_nat (s @ t @ [c]) = 256 * be_nat (s @ t) + of_char c" by (simp add: be_nat_def)
  also have "\<dots> = 256 * (be_nat s * 256 ^ length t + be_nat t) + of_char c" by (simp add: snoc)
  finally show ?case by (simp add: be_nat_def algebra_simps)
qed (simp add: be_nat_def)

lemma be_nat_zeros [simp]: "be_nat (replicate k (char_of (0::nat)) @ s) = be_nat s"
proof -
  have "be_nat (replicate k (char_of (0::nat))) = 0"
    by (induction k) (simp_all add: be_nat_def of_char_of flip: replicate_append_same)
  then show ?thesis by (simp add: be_nat_append)
qed

lemma be_loop_value: "be_nat (be_loop n out) = n * 256 ^ length out + be_nat out"
proof (induction n out rule: be_loop.induct)
  case (1 n out)
  show ?case
  proof (cases "n = 0")
    case False
    have "be_nat (be_loop n out) = be_nat (be_loop (n div 256) (char_of (n mod 256) # out))"
      by (subst be_loop.simps) (simp add: False)
    also have "\<dots> = n div 256 * 256 ^ Suc (length out) + be_nat ([char_of (n mod 256)] @ out)"
      using 1 [OF False] by simp
    also have "be_nat ([char_of (n mod 256)] @ out) = n mod 256 * 256 ^ length out + be_nat out"
      by (subst be_nat_append) (simp add: be_nat_def of_char_of)
    also have "n div 256 * 256 ^ Suc (length out) + (n mod 256 * 256 ^ length out + be_nat out)
        = (n div 256 * 256 + n mod 256) * 256 ^ length out + be_nat out"
      by (simp only: power_Suc distrib_right mult.assoc mult.left_commute [of 256] mult.commute [of 256])
    finally show ?thesis by (simp only: div_mult_mod_eq)
  qed (simp add: be_loop.simps [of 0])
qed

lemma be_loop_length: "n < 256 ^ w \<Longrightarrow> length (be_loop n out) \<le> w + length out"
proof (induction w arbitrary: n out)
  case (Suc w)
  show ?case
  proof (cases "n = 0")
    case False
    have "n div 256 < 256 ^ w" using Suc.prems by (simp add: less_mult_imp_div_less mult.commute)
    from Suc.IH [OF this, of "char_of (n mod 256) # out"] show ?thesis
      by (subst be_loop.simps) (simp add: False)
  qed (simp add: be_loop.simps [of 0])
qed (simp add: be_loop.simps [of 0])

lemma padded_value [simp]: "be_nat (paddedBigEndian n len) = n"
proof -
  have "be_nat (be_bytes n) = n"
    using be_loop_value [of n "[]"] by (simp add: be_bytes_def) (simp add: be_nat_def)
  then show ?thesis by (simp add: paddedBigEndian_def Let_def)
qed

lemma padded_length: "n < 256 ^ len \<Longrightarrow> length (paddedBigEndian n len) = len"
  using be_loop_length [of n len "[]"] by (simp add: paddedBigEndian_def be_bytes_def Let_def)

section \<open>Signing and verifying\<close>

type_synonym point = "nat \<times> nat"

text \<open>
  \<open>js_sign key input seed\<close> is \<open>ecdsa.Sign\<close> of the hash of the input, \<open>js_verify\<close> is \<open>ecdsa.Verify\<close>,
  \<open>js_pem\<close> and \<open>js_unpem\<close> are \<open>encodeES256PEM\<close> and \<open>parseES256PEM\<close>.
\<close>

record 'k jose =
  js_print :: "json \<Rightarrow> string"
  js_parse :: "string \<Rightarrow> raw"
  js_pub :: "'k \<Rightarrow> point"
  js_sign :: "'k \<Rightarrow> string \<Rightarrow> string \<Rightarrow> point result"
  js_verify :: "point \<Rightarrow> string \<Rightarrow> nat \<Rightarrow> nat \<Rightarrow> bool"
  js_pem :: "'k \<Rightarrow> string result"
  js_unpem :: "string \<Rightarrow> 'k result"

definition ES256KID :: string where "ES256KID = ''chepherd-a2a-es256''"

definition jose_header :: "string \<Rightarrow> json" where
  "jose_header kid = JObj [(''alg'', JStr ''ES256''), (''kid'', JStr kid), (''typ'', JStr ''JWT'')]"

definition with_iat :: "time \<Rightarrow> (string \<times> json) list \<Rightarrow> (string \<times> json) list" where
  "with_iat now claims =
     (if map_of claims ''iat'' = None then claims @ [(''iat'', JNum (unix_seconds now))] else claims)"

definition signing_input :: "'k jose \<Rightarrow> string \<Rightarrow> (string \<times> json) list \<Rightarrow> string" where
  "signing_input J kid claims =
     b64_encode (js_print J (jose_header kid)) @ ''.'' @ b64_encode (js_print J (JObj claims))"

definition signature_bytes :: "point \<Rightarrow> string" where
  "signature_bytes p = paddedBigEndian (fst p) 32 @ paddedBigEndian (snd p) 32"

definition signJWSCommon ::
    "'k jose \<Rightarrow> string \<Rightarrow> time \<Rightarrow> 'k \<Rightarrow> string \<Rightarrow> (string \<times> json) list \<Rightarrow> string result" where
  "signJWSCommon J seed now priv kid claims =
     (let input = signing_input J kid (with_iat now claims) in
      case js_sign J priv input seed of
        Inl e \<Rightarrow> Inl (''signJWSCommon: sign: '' @ e)
      | Inr p \<Rightarrow> Inr (input @ ''.'' @ b64_encode (signature_bytes p)))"

definition signJWSWithKID ::
    "'k jose \<Rightarrow> string \<Rightarrow> time \<Rightarrow> 'k option \<Rightarrow> string \<Rightarrow> (string \<times> json) list \<Rightarrow> string result" where
  "signJWSWithKID J seed now priv kid claims =
     (case priv of
        None \<Rightarrow> Inl ''signJWSWithKID: nil key''
      | Some k \<Rightarrow> if kid = [] then Inl ''signJWSWithKID: empty kid''
                  else signJWSCommon J seed now k kid claims)"

definition SignJWS ::
    "'k jose \<Rightarrow> string \<Rightarrow> time \<Rightarrow> 'k option \<Rightarrow> (string \<times> json) list \<Rightarrow> string result" where
  "SignJWS J seed now priv claims =
     (case priv of
        None \<Rightarrow> Inl ''SignJWS: nil key''
      | Some k \<Rightarrow>
          (let input = signing_input J ES256KID (with_iat now claims) in
           case js_sign J k input seed of
             Inl e \<Rightarrow> Inl (''SignJWS: sign: '' @ e)
           | Inr p \<Rightarrow> Inr (input @ ''.'' @ b64_encode (signature_bytes p))))"

definition res_wrap :: "string \<Rightarrow> 'a result \<Rightarrow> 'a result" where
  "res_wrap what r = (case r of Inl e \<Rightarrow> Inl (what @ e) | Inr x \<Rightarrow> Inr x)"

text \<open>\<open>json.Unmarshal\<close> into a \<open>map[string]any\<close>.\<close>

definition dec_map :: "json \<Rightarrow> (string \<times> json) list result" where
  "dec_map j = (case j of JObj fs \<Rightarrow> Inr fs | JNull \<Rightarrow> Inr []
     | v \<Rightarrow> Inl (mismatch v ''map[string]interface {}''))"

definition VerifyJWS :: "'k jose \<Rightarrow> point option \<Rightarrow> string \<Rightarrow> (string \<times> json) list result" where
  "VerifyJWS J pub token =
     (case pub of
        None \<Rightarrow> Inl ''VerifyJWS: nil key''
      | Some q \<Rightarrow>
          (case split_on CHR ''.'' token of
             [h, c, s] \<Rightarrow>
               res_bind (res_wrap ''VerifyJWS: header decode: '' (b64_decode h)) (\<lambda>hb.
               res_bind (res_wrap ''VerifyJWS: header parse: ''
                  (unmarshal (\<lambda>j. res_bind (struct_ok ''struct'' j) (get_str ''alg'')) (js_parse J hb))) (\<lambda>alg.
               if alg \<noteq> ''ES256'' then Inl (''VerifyJWS: unsupported alg '' @ quote alg @ '' (want ES256)'')
               else
               res_bind (res_wrap ''VerifyJWS: claims decode: '' (b64_decode c)) (\<lambda>cb.
               res_bind (res_wrap ''VerifyJWS: sig decode: '' (b64_decode s)) (\<lambda>sb.
               if length sb \<noteq> 64 then Inl (''VerifyJWS: sig len = '' @ partIndex (length sb) @ '', want 64'')
               else if \<not> js_verify J q (h @ ''.'' @ c) (be_nat (take 32 sb)) (be_nat (drop 32 sb))
               then Inl ''VerifyJWS: signature invalid''
               else res_wrap ''VerifyJWS: claims parse: '' (unmarshal dec_map (js_parse J cb))))))
           | _ \<Rightarrow> Inl ''VerifyJWS: token has != 3 parts''))"

text \<open>The parts of a token that was signed.\<close>

definition reads_back :: "'k jose \<Rightarrow> json \<Rightarrow> bool" where
  "reads_back J j \<longleftrightarrow> js_parse J (js_print J j) = RawJson j"

lemma split_token:
  "split_on CHR ''.'' (b64_encode x @ ''.'' @ b64_encode y @ ''.'' @ b64_encode z)
     = [b64_encode x, b64_encode y, b64_encode z]"
proof -
  have "split_on CHR ''.'' (b64_encode x @ CHR ''.'' # b64_encode y @ CHR ''.'' # b64_encode z)
     = [b64_encode x, b64_encode y, b64_encode z]"
    by (simp only: split_on_append split_on_no_sep b64_no_dot not_False_eq_True)
  then show ?thesis by simp
qed

lemma signature_bytes_facts:
  assumes "r < 2 ^ 256" "s < 2 ^ 256"
  shows "length (signature_bytes (r, s)) = 64" "be_nat (take 32 (signature_bytes (r, s))) = r"
    "be_nat (drop 32 (signature_bytes (r, s))) = s"
proof -
  have w: "length (paddedBigEndian n 32) = 32" if "n < 2 ^ 256" for n :: nat
  proof -
    have "(256::nat) ^ 32 = 2 ^ 256" by simp
    with that show ?thesis by (metis padded_length)
  qed
  show "length (signature_bytes (r, s)) = 64" "be_nat (take 32 (signature_bytes (r, s))) = r"
    "be_nat (drop 32 (signature_bytes (r, s))) = s"
    using w [OF assms(1)] w [OF assms(2)] by (simp_all add: signature_bytes_def)
qed

definition jose_token :: "'k jose \<Rightarrow> string \<Rightarrow> (string \<times> json) list \<Rightarrow> point \<Rightarrow> string" where
  "jose_token J kid claims p = signing_input J kid claims @ ''.'' @ b64_encode (signature_bytes p)"

lemma verify_token:
  assumes "reads_back J (jose_header kid)" "reads_back J (JObj claims)"
    "r < 2 ^ 256" "s < 2 ^ 256"
  shows "VerifyJWS J (Some q) (jose_token J kid claims (r, s)) =
    (if js_verify J q (signing_input J kid claims) r s then Inr claims
     else Inl ''VerifyJWS: signature invalid'')"
proof -
  have alg: "res_bind (struct_ok ''struct'' (jose_header kid)) (get_str ''alg'') = Inr ''ES256''"
    by (simp add: jose_header_def get_str_def jget_def fold_eq_eval go_string)
  show ?thesis
    using assms(1,2) unfolding VerifyJWS_def jose_token_def signing_input_def append_assoc split_token reads_back_def
    by (simp add: res_wrap_def unmarshal_def alg dec_map_def signature_bytes_facts [OF assms(3,4)])
qed

section \<open>Published keys\<close>

definition jwk_json :: "string \<Rightarrow> point \<Rightarrow> json" where
  "jwk_json kid p = JObj [(''alg'', JStr ''ES256''), (''crv'', JStr ''P-256''), (''kid'', JStr kid), (''kty'', JStr ''EC''),
     (''use'', JStr ''sig''), (''x'', JStr (b64_encode (paddedBigEndian (fst p) 32))),
     (''y'', JStr (b64_encode (paddedBigEndian (snd p) 32)))]"

definition jwks_json :: "(string \<times> point) list \<Rightarrow> json" where
  "jwks_json ks = JObj [(''keys'', JArr (map (\<lambda>(kid, p). jwk_json kid p) ks))]"

definition PublicJWK :: "'k jose \<Rightarrow> 'k option \<Rightarrow> json result" where
  "PublicJWK J priv =
     (case priv of None \<Rightarrow> Inl ''PublicJWK: nil or unset key'' | Some k \<Rightarrow> Inr (jwks_json [(ES256KID, js_pub J k)]))"

record jwk =
  jk_kty :: string
  jk_alg :: string
  jk_crv :: string
  jk_kid :: string
  jk_x :: string
  jk_y :: string

definition dec_jwk :: "json \<Rightarrow> jwk result" where
  "dec_jwk v = res_bind (struct_ok ''struct'' v) (\<lambda>j.
     res_bind (get_str ''kty'' j) (\<lambda>kty. res_bind (get_str ''alg'' j) (\<lambda>alg.
     res_bind (get_str ''crv'' j) (\<lambda>crv. res_bind (get_str ''kid'' j) (\<lambda>kid.
     res_bind (get_str ''x'' j) (\<lambda>x. res_bind (get_str ''y'' j) (\<lambda>y.
     Inr \<lparr>jk_kty = kty, jk_alg = alg, jk_crv = crv, jk_kid = kid, jk_x = x, jk_y = y\<rparr>)))))))"

definition dec_jwks :: "json \<Rightarrow> jwk list result" where
  "dec_jwks v = res_bind (struct_ok ''struct'' v) (get_list dec_jwk ''keys'')"

text \<open>The key a trust-list validator uses: the first of the document.\<close>

definition parseFirstECKey :: "raw \<Rightarrow> point result" where
  "parseFirstECKey body =
     res_bind (res_wrap ''decode JWKS: '' (unmarshal dec_jwks body)) (\<lambda>keys.
     case keys of
       [] \<Rightarrow> Inl ''empty JWKS''
     | k # _ \<Rightarrow>
         if jk_kty k \<noteq> ''EC'' \<or> jk_crv k \<noteq> ''P-256''
         then Inl (''unsupported kty/crv '' @ quote (jk_kty k) @ ''/'' @ quote (jk_crv k) @ '' (want EC/P-256)'')
         else res_bind (res_wrap ''decode x: '' (b64_decode (jk_x k))) (\<lambda>xb.
              res_bind (res_wrap ''decode y: '' (b64_decode (jk_y k))) (\<lambda>yb.
              Inr (be_nat xb, be_nat yb))))"

record jwks_entry =
  je_keys :: "(string \<times> point) list"
  je_primary :: point
  je_expiresAt :: time

definition trim_right :: "char \<Rightarrow> string \<Rightarrow> string" where
  "trim_right c s = rev (dropWhile (\<lambda>x. x = c) (rev s))"

text \<open>The loop over the keys of the document: keys of another kind are skipped, a malformed one is an error.\<close>

fun jwks_loop :: "nat \<Rightarrow> jwk list \<Rightarrow> (string \<times> point) list \<times> point option
    \<Rightarrow> ((string \<times> point) list \<times> point option) result" where
  "jwks_loop i [] acc = Inr acc"
| "jwks_loop i (k # ks) (m, prim) =
     (if jk_kty k \<noteq> ''EC'' \<or> jk_crv k \<noteq> ''P-256'' \<or> (jk_alg k \<noteq> [] \<and> jk_alg k \<noteq> ''ES256'')
      then jwks_loop (Suc i) ks (m, prim)
      else case b64_decode (trim_right CHR ''='' (jk_x k)) of
        Inl e \<Rightarrow> Inl (''jwks parse key '' @ partIndex i @ '': bad x: '' @ e)
      | Inr xb \<Rightarrow>
          (case b64_decode (trim_right CHR ''='' (jk_y k)) of
             Inl e \<Rightarrow> Inl (''jwks parse key '' @ partIndex i @ '': bad y: '' @ e)
           | Inr yb \<Rightarrow>
               let q = (be_nat xb, be_nat yb) in
               jwks_loop (Suc i) ks
                 (if jk_kid k \<noteq> [] then AList.update (jk_kid k) q m else m,
                  case prim of None \<Rightarrow> Some q | Some p \<Rightarrow> Some p)))"

definition parseJWKS :: "time \<Rightarrow> int \<Rightarrow> raw \<Rightarrow> jwks_entry result" where
  "parseJWKS now ttl body =
     res_bind (res_wrap ''jwks parse: '' (unmarshal dec_jwks body)) (\<lambda>keys.
     if keys = [] then Inl ''jwks parse: no keys in document''
     else res_bind (jwks_loop 0 keys ([], None)) (\<lambda>(m, prim).
       case prim of
         None \<Rightarrow> Inl ''jwks parse: no usable ES256 P-256 keys''
       | Some q \<Rightarrow> Inr \<lparr>je_keys = m, je_primary = q, je_expiresAt = now + ttl\<rparr>))"

definition entry_lookup :: "jwks_entry \<Rightarrow> string \<Rightarrow> point result" where
  "entry_lookup e kid =
     (if kid = [] then Inr (je_primary e)
      else case map_of (je_keys e) kid of
        None \<Rightarrow> Inl (''jwks: kid '' @ quote kid @ '' not found'') | Some q \<Rightarrow> Inr q)"

definition DeriveJWKSURL :: "string \<Rightarrow> string" where
  "DeriveJWKSURL iss = trim_right CHR ''/'' iss @ ''/.well-known/jwks.json''"

text \<open>What the two readers make of a document the key store publishes.\<close>

lemma dec_jwk_json [simp]:
  "dec_jwk (jwk_json kid p) = Inr \<lparr>jk_kty = ''EC'', jk_alg = ''ES256'', jk_crv = ''P-256'', jk_kid = kid,
     jk_x = b64_encode (paddedBigEndian (fst p) 32), jk_y = b64_encode (paddedBigEndian (snd p) 32)\<rparr>"
  by (simp add: dec_jwk_def jwk_json_def get_str_def jget_def fold_eq_eval go_string)

lemma dec_jwks_json [simp]:
  "dec_jwks (jwks_json ks) = Inr (map (\<lambda>(kid, p). \<lparr>jk_kty = ''EC'', jk_alg = ''ES256'', jk_crv = ''P-256'', jk_kid = kid,
     jk_x = b64_encode (paddedBigEndian (fst p) 32), jk_y = b64_encode (paddedBigEndian (snd p) 32)\<rparr>) ks)"
proof -
  have "res_mapM dec_jwk (map (\<lambda>(kid, p). jwk_json kid p) ks) =
    Inr (map (\<lambda>(kid, p). \<lparr>jk_kty = ''EC'', jk_alg = ''ES256'', jk_crv = ''P-256'', jk_kid = kid,
     jk_x = b64_encode (paddedBigEndian (fst p) 32), jk_y = b64_encode (paddedBigEndian (snd p) 32)\<rparr>) ks)"
    by (induction ks) auto
  then show ?thesis by (simp add: dec_jwks_def jwks_json_def get_list_def jget_def)
qed

lemma first_key_of_document: "parseFirstECKey (RawJson (jwks_json ((kid, p) # ks))) = Inr p"
  by (simp add: parseFirstECKey_def unmarshal_def res_wrap_def)

lemma trim_right_absent: "c \<notin> set s \<Longrightarrow> trim_right c s = s"
  by (cases s rule: rev_cases) (auto simp: trim_right_def)

lemma jwks_loop_published:
  "jwks_loop i (map (\<lambda>(kid, p). \<lparr>jk_kty = ''EC'', jk_alg = ''ES256'', jk_crv = ''P-256'', jk_kid = kid,
       jk_x = b64_encode (paddedBigEndian (fst p) 32), jk_y = b64_encode (paddedBigEndian (snd p) 32)\<rparr>) ks) (m, prim) =
   Inr (foldl (\<lambda>m (kid, p). if kid \<noteq> [] then AList.update kid p m else m) m ks,
        case prim of None \<Rightarrow> if ks = [] then None else Some (snd (hd ks)) | Some p \<Rightarrow> Some p)"
proof (induction ks arbitrary: i m prim)
  case (Cons k ks)
  obtain kid p where k: "k = (kid, p)" by (cases k)
  show ?case
    by (simp add: k trim_right_absent b64_no_pad Let_def Cons.IH split: option.splits)
qed (simp split: option.splits)

lemma foldl_update_distinct:
  assumes "distinct (map fst ks)" "[] \<notin> fst ` set ks"
  shows "map_of (foldl (\<lambda>m (kid, p). if kid \<noteq> [] then AList.update kid p m else m) m ks) kid
    = (case map_of ks kid of None \<Rightarrow> map_of m kid | Some p \<Rightarrow> Some p)"
  using assms
proof (induction ks arbitrary: m)
  case (Cons k ks)
  then show ?case
    by (cases k) (auto simp: update_conv' map_of_eq_None_iff image_iff split: option.splits)
qed simp

text \<open>A client that fetched the document finds every published key by its id, and without an id the first.\<close>

lemma parse_published:
  assumes "ks \<noteq> []" "distinct (map fst ks)" "[] \<notin> fst ` set ks"
  shows "\<exists>m. parseJWKS now ttl (RawJson (jwks_json ks)) =
      Inr \<lparr>je_keys = m, je_primary = snd (hd ks), je_expiresAt = now + ttl\<rparr> \<and> map_of m = map_of ks"
proof -
  have "map_of (foldl (\<lambda>m (kid, p). if kid \<noteq> [] then AList.update kid p m else m) [] ks) = map_of ks"
    by (rule ext) (simp add: foldl_update_distinct [OF assms(2,3)] split: option.splits)
  then show ?thesis
    using assms(1) by (simp add: parseJWKS_def unmarshal_def res_wrap_def jwks_loop_published)
qed

end
