(* ===== verification/Keystore.thy ===== *)
theory Keystore
  imports Jose
begin

text \<open>
  The daemon's signing keys (\<open>internal/auth/keystore.go\<close>): one active key, retired keys that stay good for
  an overlap window, the archive in the secret store and the legacy single-key row. A generated key, the
  seed of a signature, the clock and the failures of the secret store are arguments. The archive holds
  the entries \<open>json.Unmarshal\<close> reads from it, or its complaint. \<open>Priv\<close> caches the parsed key in its
  entry, which changes no answer, so the cache is only what \<open>rotateLocked\<close> puts there.
\<close>

section \<open>Entries\<close>

record 'k key_entry =
  ke_KID :: string
  ke_PEM :: string
  ke_CreatedAt :: time
  ke_RetiredAt :: time
  ke_priv :: "'k option"

record 'k keystore =
  ks_entries :: "'k key_entry list"
  ks_overlap :: int

definition DefaultOverlapWindow :: int where "DefaultOverlapWindow = 24 * 60 * minute"

definition Retired :: "'k key_entry \<Rightarrow> bool" where
  "Retired e \<longleftrightarrow> ke_RetiredAt e \<noteq> time_zero"

definition key_Priv :: "'k jose \<Rightarrow> 'k key_entry \<Rightarrow> 'k result" where
  "key_Priv J e =
     (case ke_priv e of
        Some p \<Rightarrow> Inr p
      | None \<Rightarrow> res_wrap (''KeyEntry '' @ quote (ke_KID e) @ '': '') (js_unpem J (ke_PEM e)))"

definition past_overlap :: "int \<Rightarrow> time \<Rightarrow> 'k key_entry \<Rightarrow> bool" where
  "past_overlap overlap now e \<longleftrightarrow> Retired e \<and> now - ke_RetiredAt e > overlap"

definition pruneExpired :: "int \<Rightarrow> time \<Rightarrow> 'k key_entry list \<Rightarrow> 'k key_entry list" where
  "pruneExpired overlap now es = filter (\<lambda>e. \<not> past_overlap overlap now e) es"

definition demote :: "time \<Rightarrow> 'k key_entry \<Rightarrow> 'k key_entry" where
  "demote now e = (if Retired e then e else e\<lparr>ke_RetiredAt := now\<rparr>)"

fun newest_active :: "'k key_entry list \<Rightarrow> 'k key_entry option \<Rightarrow> 'k key_entry option" where
  "newest_active [] best = best"
| "newest_active (e # es) best =
     (if Retired e then newest_active es best
      else newest_active es
        (case best of None \<Rightarrow> Some e | Some b \<Rightarrow> if ke_CreatedAt e > ke_CreatedAt b then Some e else Some b))"

definition ks_Active :: "'k keystore \<Rightarrow> 'k key_entry result" where
  "ks_Active ks =
     (case newest_active (ks_entries ks) None of
        None \<Rightarrow> Inl ''KeyStore: no active key'' | Some e \<Rightarrow> Inr e)"

definition ks_ByKID :: "time \<Rightarrow> string \<Rightarrow> 'k keystore \<Rightarrow> 'k key_entry result" where
  "ks_ByKID now kid ks =
     (case find (\<lambda>e. ke_KID e = kid) (ks_entries ks) of
        None \<Rightarrow> Inl (''KeyStore: unknown kid '' @ quote kid)
      | Some e \<Rightarrow>
          if past_overlap (ks_overlap ks) now e
          then Inl (''KeyStore: kid '' @ quote kid @ '' is past overlap window'')
          else Inr e)"

section \<open>Rotation and the archive\<close>

definition show_int :: "int \<Rightarrow> string" where
  "show_int i = (if i < 0 then ''-'' @ partIndex (nat (- i)) else partIndex (nat i))"

definition unix_nanos :: "time \<Rightarrow> int" where
  "unix_nanos t = t - 62135596800 * second"

definition minted_kid :: "time \<Rightarrow> string" where
  "minted_kid now = ''chepherd-a2a-es256-'' @ show_int (unix_nanos now)"

definition minted_entry :: "time \<Rightarrow> string \<Rightarrow> 'k \<Rightarrow> 'k key_entry" where
  "minted_entry now pem priv =
     \<lparr>ke_KID = minted_kid now, ke_PEM = pem, ke_CreatedAt = now, ke_RetiredAt = time_zero, ke_priv = Some priv\<rparr>"

text \<open>The archive row, if any, and the legacy row (its bytes and its creation time).\<close>

record 'k secret_rows =
  sr_archive :: "('k key_entry list result) option"
  sr_legacy :: "(string \<times> time) option"

definition persistLocked ::
    "go_error option \<Rightarrow> 'k key_entry list \<Rightarrow> 'k secret_rows \<Rightarrow> go_error option \<times> 'k secret_rows" where
  "persistLocked perr es rows =
     (case perr of
        Some e \<Rightarrow> (Some e, rows)
      | None \<Rightarrow> (None, rows\<lparr>sr_archive := Some (Inr (map (\<lambda>e. e\<lparr>ke_priv := None\<rparr>) es))\<rparr>))"

definition rotateLocked ::
    "'k jose \<Rightarrow> 'k result \<Rightarrow> go_error option \<Rightarrow> time \<Rightarrow> 'k keystore \<Rightarrow> 'k secret_rows
       \<Rightarrow> string result \<times> 'k keystore \<times> 'k secret_rows" where
  "rotateLocked J gen perr now ks rows =
     (let es = pruneExpired (ks_overlap ks) now (map (demote now) (ks_entries ks)) in
      case gen of
        Inl e \<Rightarrow> (Inl (''Rotate: generate: '' @ e), ks\<lparr>ks_entries := es\<rparr>, rows)
      | Inr priv \<Rightarrow>
          (case js_pem J priv of
             Inl e \<Rightarrow> (Inl (''Rotate: encode: '' @ e), ks\<lparr>ks_entries := es\<rparr>, rows)
           | Inr pem \<Rightarrow>
               (let es' = es @ [minted_entry now pem priv] in
                case persistLocked perr es' rows of
                  (Some e, rows') \<Rightarrow> (Inl (''Rotate: persist: '' @ e), ks\<lparr>ks_entries := es'\<rparr>, rows')
                | (None, rows') \<Rightarrow> (Inr (minted_kid now), ks\<lparr>ks_entries := es'\<rparr>, rows'))))"

text \<open>
  \<open>aerr\<close>, \<open>lerr\<close> are driver failures of the two reads. A failure that mentions \<open>not found\<close> counts as an
  absent archive, and any failure of the second read as an absent legacy row.
\<close>

definition LoadOrCreateKeyStore ::
    "'k jose \<Rightarrow> go_error option \<Rightarrow> go_error option \<Rightarrow> 'k result \<Rightarrow> go_error option \<Rightarrow> time \<Rightarrow> int \<Rightarrow> 'k secret_rows option
       \<Rightarrow> 'k keystore result \<times> 'k secret_rows option" where
  "LoadOrCreateKeyStore J aerr lerr gen perr now overlap repo =
     (case repo of
        None \<Rightarrow> (Inl ''LoadOrCreateKeyStore: nil repository'', repo)
      | Some rows \<Rightarrow>
          let ks = \<lparr>ks_entries = [], ks_overlap = (if overlap \<le> 0 then DefaultOverlapWindow else overlap)\<rparr>;
              create =
                (case (lerr, sr_legacy rows) of
                   (None, Some (pem, created)) \<Rightarrow>
                     if pem \<noteq> [] then
                       (let e = \<lparr>ke_KID = ES256KID, ke_PEM = pem,
                              ke_CreatedAt = (if created = time_zero then now else created),
                              ke_RetiredAt = time_zero, ke_priv = None\<rparr>
                        in case persistLocked perr [e] rows of
                             (Some er, rows') \<Rightarrow> (Inl (''LoadOrCreateKeyStore: persist migrated archive: '' @ er), Some rows')
                           | (None, rows') \<Rightarrow> (Inr (ks\<lparr>ks_entries := [e]\<rparr>), Some rows'))
                     else (case rotateLocked J gen perr now ks rows of
                             (Inl er, _, rows') \<Rightarrow> (Inl (''LoadOrCreateKeyStore: initial mint: '' @ er), Some rows')
                           | (Inr _, ks', rows') \<Rightarrow> (Inr ks', Some rows'))
                 | _ \<Rightarrow> (case rotateLocked J gen perr now ks rows of
                             (Inl er, _, rows') \<Rightarrow> (Inl (''LoadOrCreateKeyStore: initial mint: '' @ er), Some rows')
                           | (Inr _, ks', rows') \<Rightarrow> (Inr ks', Some rows')))
          in case aerr of
               Some er \<Rightarrow>
                 if str_contains ''not found'' er then create
                 else (Inl (''LoadOrCreateKeyStore: get archive: '' @ er), repo)
             | None \<Rightarrow>
                 (case sr_archive rows of
                    None \<Rightarrow> create
                  | Some (Inl er) \<Rightarrow> (Inl (''LoadOrCreateKeyStore: parse archive: '' @ er), repo)
                  | Some (Inr es) \<Rightarrow>
                      (let es' = pruneExpired (ks_overlap ks) now es in
                       if es' \<noteq> [] then (Inr (ks\<lparr>ks_entries := es'\<rparr>), repo) else create)))"

section \<open>Publishing, signing and verifying\<close>

definition ks_JWKS :: "'k jose \<Rightarrow> 'k keystore \<Rightarrow> json result" where
  "ks_JWKS J ks =
     res_bind (res_mapM (\<lambda>e. res_bind (key_Priv J e) (\<lambda>p. Inr (ke_KID e, js_pub J p))) (ks_entries ks))
       (\<lambda>keys. Inr (jwks_json keys))"

definition ks_Sign :: "'k jose \<Rightarrow> string \<Rightarrow> time \<Rightarrow> (string \<times> json) list \<Rightarrow> 'k keystore \<Rightarrow> string result" where
  "ks_Sign J seed now claims ks =
     res_bind (ks_Active ks) (\<lambda>e. res_bind (key_Priv J e) (\<lambda>p.
       signJWSWithKID J seed now (Some p) (ke_KID e) claims))"

definition cut_at :: "char \<Rightarrow> string \<Rightarrow> (string \<times> string) option" where
  "cut_at d s = (let a = takeWhile (\<lambda>c. c \<noteq> d) s in
     if length a = length s then None else Some (a, drop (Suc (length a)) s))"

definition ks_Verify :: "'k jose \<Rightarrow> time \<Rightarrow> string \<Rightarrow> 'k keystore \<Rightarrow> (string \<times> json) list result" where
  "ks_Verify J now token ks =
     (case cut_at CHR ''.'' token of
        None \<Rightarrow> Inl ''KeyStore.Verify: token has != 3 parts''
      | Some (h, rest) \<Rightarrow>
          if cut_at CHR ''.'' rest = None then Inl ''KeyStore.Verify: token has != 3 parts''
          else
            res_bind (res_wrap ''KeyStore.Verify: header decode: '' (b64_decode h)) (\<lambda>hb.
            res_bind (res_wrap ''KeyStore.Verify: header parse: ''
              (unmarshal (\<lambda>j. res_bind (struct_ok ''struct'' j) (get_str ''kid'')) (js_parse J hb))) (\<lambda>kid.
            if kid = [] then Inl ''KeyStore.Verify: JWS missing kid''
            else res_bind (ks_ByKID now kid ks) (\<lambda>e.
                 res_bind (key_Priv J e) (\<lambda>p. VerifyJWS J (Some (js_pub J p)) token)))))"

section \<open>Histories of rotations\<close>

text \<open>One call of \<open>Rotate\<close>, whatever becomes of it.\<close>

record 'k attempt =
  at_now :: time
  at_gen :: "'k result"
  at_perr :: "go_error option"

definition attempt_step :: "'k jose \<Rightarrow> 'k attempt \<Rightarrow> 'k keystore \<times> 'k secret_rows \<Rightarrow> 'k keystore \<times> 'k secret_rows" where
  "attempt_step J a w = snd (rotateLocked J (at_gen a) (at_perr a) (at_now a) (fst w) (snd w))"

definition attempts ::
    "'k jose \<Rightarrow> 'k attempt list \<Rightarrow> 'k keystore \<times> 'k secret_rows \<Rightarrow> 'k keystore \<times> 'k secret_rows" where
  "attempts J as w = foldl (\<lambda>w a. attempt_step J a w) w as"

definition empty_store :: "int \<Rightarrow> 'k secret_rows \<Rightarrow> 'k keystore \<times> 'k secret_rows" where
  "empty_store ov rows = (\<lparr>ks_entries = [], ks_overlap = ov\<rparr>, rows)"

text \<open>The key an attempt minted, if it got that far.\<close>

definition minted :: "'k jose \<Rightarrow> 'k attempt \<Rightarrow> ('k \<times> string) option" where
  "minted J a = (case at_gen a of Inl _ \<Rightarrow> None
     | Inr k \<Rightarrow> (case js_pem J k of Inl _ \<Rightarrow> None | Inr pem \<Rightarrow> Some (k, pem)))"

definition mint_entries :: "'k jose \<Rightarrow> 'k attempt \<Rightarrow> 'k key_entry list" where
  "mint_entries J a = (case minted J a of None \<Rightarrow> [] | Some (k, pem) \<Rightarrow> [minted_entry (at_now a) pem k])"

text \<open>The ledger: every key ever minted, none pruned.\<close>

definition key_ledger :: "'k jose \<Rightarrow> 'k attempt list \<Rightarrow> 'k key_entry list" where
  "key_ledger J as = foldl (\<lambda>es a. map (demote (at_now a)) es @ mint_entries J a) [] as"

lemma ledger_Nil [simp]: "key_ledger J [] = []"
  by (simp add: key_ledger_def)

lemma ledger_snoc [simp]:
  "key_ledger J (as @ [a]) = map (demote (at_now a)) (key_ledger J as) @ mint_entries J a"
  by (simp add: key_ledger_def)

lemma attempts_snoc [simp]: "attempts J (as @ [a]) w = attempt_step J a (attempts J as w)"
  by (simp add: attempts_def)

lemma attempts_Nil [simp]: "attempts J [] w = w"
  by (simp add: attempts_def)

lemma attempt_entries:
  "ks_entries (fst (attempt_step J a w)) =
     pruneExpired (ks_overlap (fst w)) (at_now a) (map (demote (at_now a)) (ks_entries (fst w))) @ mint_entries J a"
  "ks_overlap (fst (attempt_step J a w)) = ks_overlap (fst w)"
  by (auto simp: attempt_step_def rotateLocked_def mint_entries_def minted_def persistLocked_def Let_def
      split: sum.splits option.splits)

lemma one_attempt [simp]:
  "key_ledger J [a] = mint_entries J a" "attempts J [a] w = attempt_step J a w"
  by (simp_all add: key_ledger_def attempts_def)

lemma overlap_kept [simp]: "ks_overlap (fst (attempts J as w)) = ks_overlap (fst w)"
  by (induction as rule: rev_induct) (simp_all add: attempt_entries)

lemma kid_demote [simp]: "ke_KID \<circ> demote t = ke_KID"
  by (auto simp: demote_def)

lemma demote_fields [simp]:
  "ke_KID (demote t e) = ke_KID e" "ke_priv (demote t e) = ke_priv e" "Retired e \<Longrightarrow> demote t e = e"
  by (simp_all add: demote_def)

lemma minted_entry_fields [simp]:
  "ke_KID (minted_entry t pem k) = minted_kid t" "ke_priv (minted_entry t pem k) = Some k"
  "\<not> Retired (minted_entry t pem k)"
  by (simp_all add: minted_entry_def Retired_def)

lemma past_overlap_mono: "past_overlap ov t e \<Longrightarrow> t \<le> t' \<Longrightarrow> past_overlap ov t' (demote u e)"
  by (auto simp: past_overlap_def)

lemma empty_store_overlap [simp]: "ks_overlap (fst (empty_store ov rows)) = ov"
  by (simp add: empty_store_def)

lemma prune_twice:
  "t \<le> t' \<Longrightarrow> filter (\<lambda>e. \<not> past_overlap ov t' e) (map (demote u) (filter (\<lambda>e. \<not> past_overlap ov t e) es))
     = filter (\<lambda>e. \<not> past_overlap ov t' e) (map (demote u) es)"
  by (induction es) (simp_all add: past_overlap_mono)

lemma mint_entries_kept [simp]: "filter (\<lambda>e. \<not> past_overlap ov t e) (mint_entries J a) = mint_entries J a"
  by (auto simp: mint_entries_def past_overlap_def split: option.splits)

text \<open>What the store keeps of the ledger: the entries not past the overlap at the last attempt.\<close>

lemma store_of_ledger:
  assumes "sorted (map at_now as)" "as \<noteq> []"
  shows "ks_entries (fst (attempts J as (empty_store ov rows))) =
    filter (\<lambda>e. \<not> past_overlap ov (at_now (last as)) e) (key_ledger J as)"
  using assms
proof (induction as rule: rev_induct)
  case (snoc a as)
  show ?case
  proof (cases "as = []")
    case True
    then show ?thesis
      by (simp add: attempt_entries pruneExpired_def) (simp add: empty_store_def)
  next
    case False
    have le: "at_now (last as) \<le> at_now a"
      using snoc.prems(1) False by (auto simp: sorted_append)
    show ?thesis
      using snoc.IH snoc.prems False
      by (simp add: attempt_entries pruneExpired_def sorted_append prune_twice [OF le])
  qed
qed simp

section \<open>Key ids\<close>

lemma partIndex_loop_digits:
  "c \<in> set (partIndex_loop i out) \<Longrightarrow> c \<in> set out \<or> (\<exists>d < 10. c = digit_char d)"
proof (induction i out rule: partIndex_loop.induct)
  case (1 i out)
  show ?case
  proof (cases "i > 0")
    case True
    then have "c \<in> set (partIndex_loop (i div 10) (digit_char (i mod 10) # out))"
      using "1.prems" by (subst (asm) partIndex_loop.simps) simp
    with 1 True have "c \<in> set (digit_char (i mod 10) # out) \<or> (\<exists>d < 10. c = digit_char d)" by blast
    moreover have "\<exists>d < 10. digit_char (i mod 10) = digit_char d" by (rule exI [of _ "i mod 10"]) simp
    ultimately show ?thesis by auto
  next
    case False
    then show ?thesis using "1.prems" by (simp add: partIndex_loop.simps [of 0])
  qed
qed

lemma partIndex_value: "decimal_value (partIndex i) = i"
  using partIndex_loop_value [of i "[]"]
  by (simp add: partIndex_def decimal_value_def digit_value_def)

lemma partIndex_inject: "partIndex i = partIndex j \<Longrightarrow> i = j"
  by (metis partIndex_value)

lemma digit_no_sign: "d < 10 \<Longrightarrow> digit_char d \<noteq> CHR ''-''"
proof -
  have "list_all (\<lambda>c. c \<noteq> CHR ''-'') ''0123456789''" by simp
  then show "d < 10 \<Longrightarrow> digit_char d \<noteq> CHR ''-''"
    unfolding digit_char_def list_all_length by simp
qed

lemma partIndex_no_sign: "partIndex i \<noteq> CHR ''-'' # s"
proof
  assume eq: "partIndex i = CHR ''-'' # s"
  then have "partIndex_loop i [] = CHR ''-'' # s" by (simp add: partIndex_def split: if_splits)
  then have "CHR ''-'' \<in> set (partIndex_loop i [])" by simp
  from partIndex_loop_digits [OF this] obtain d where "d < 10" "CHR ''-'' = digit_char d" by auto
  with digit_no_sign show False by metis
qed

lemma show_int_inject: "show_int i = show_int j \<Longrightarrow> i = j"
  using partIndex_no_sign [of "nat i" "partIndex (nat (- j))"] partIndex_no_sign [of "nat j" "partIndex (nat (- i))"]
  by (auto simp: show_int_def dest!: partIndex_inject split: if_splits)

lemma minted_kid_inject: "minted_kid s = minted_kid t \<Longrightarrow> s = t"
  using show_int_inject [of "unix_nanos s" "unix_nanos t"] by (simp add: minted_kid_def unix_nanos_def)

lemma ledger_kids: "ke_KID ` set (key_ledger J as) \<subseteq> minted_kid ` at_now ` set as"
  by (induction as rule: rev_induct) (auto simp: mint_entries_def split: option.splits)

lemma ledger_distinct:
  "sorted_wrt (<) (map at_now as) \<Longrightarrow> distinct (map ke_KID (key_ledger J as))"
proof (induction as rule: rev_induct)
  case (snoc a as)
  have "minted_kid (at_now a) \<notin> ke_KID ` set (key_ledger J as)"
  proof
    assume "minted_kid (at_now a) \<in> ke_KID ` set (key_ledger J as)"
    then obtain b where "b \<in> set as" "minted_kid (at_now a) = minted_kid (at_now b)"
      using ledger_kids [of J as] by auto
    then have "b \<in> set as" "at_now a = at_now b" using minted_kid_inject by auto
    then show False using snoc.prems by (auto simp: sorted_wrt_append)
  qed
  moreover have "map ke_KID (map (demote (at_now a)) (key_ledger J as)) = map ke_KID (key_ledger J as)"
    by simp
  ultimately show ?case
    using snoc.IH snoc.prems
    by (auto simp: mint_entries_def sorted_wrt_append image_iff split: option.splits)
qed simp

section \<open>The life of a key\<close>

text \<open>An active entry after further attempts: the first of them retires it.\<close>

definition fate :: "'k attempt list \<Rightarrow> 'k key_entry \<Rightarrow> 'k key_entry" where
  "fate later e = (case later of [] \<Rightarrow> e | a # _ \<Rightarrow> e\<lparr>ke_RetiredAt := at_now a\<rparr>)"

definition key_times :: "'k attempt list \<Rightarrow> bool" where
  "key_times as \<longleftrightarrow> sorted_wrt (<) (map at_now as) \<and> (\<forall>a \<in> set as. time_zero < at_now a)"

lemma key_times_append: "key_times (as @ bs) \<Longrightarrow> key_times as \<and> key_times bs"
  by (auto simp: key_times_def sorted_wrt_append)

lemma key_times_sorted: "key_times as \<Longrightarrow> sorted (map at_now as)"
  unfolding key_times_def by (metis (no_types, lifting) less_imp_le sorted_wrt_mono_rel)

lemma newest_active_retired:
  "\<forall>e \<in> set es. Retired e \<Longrightarrow> newest_active (es @ fs) b = newest_active fs b"
  by (induction es) auto

lemma demote_retired: "time_zero < t \<Longrightarrow> Retired (demote t e)"
  by (simp add: demote_def Retired_def)

lemma active_after:
  assumes "key_times as" "as \<noteq> []"
  shows "ks_Active (fst (attempts J as (empty_store ov rows))) =
    (case minted J (last as) of
       None \<Rightarrow> Inl ''KeyStore: no active key''
     | Some (k, pem) \<Rightarrow> Inr (minted_entry (at_now (last as)) pem k))"
proof -
  obtain bs a where as: "as = bs @ [a]" using assms(2) by (cases as rule: rev_cases) auto
  have pos: "time_zero < at_now a" using assms(1) by (simp add: as key_times_def)
  have "ks_entries (fst (attempts J as (empty_store ov rows))) =
      filter (\<lambda>e. \<not> past_overlap ov (at_now a) e) (map (demote (at_now a)) (key_ledger J bs)) @ mint_entries J a"
    using store_of_ledger [OF key_times_sorted [OF assms(1)] assms(2)] by (simp add: as)
  moreover have "\<forall>e \<in> set (filter (\<lambda>e. \<not> past_overlap ov (at_now a) e) (map (demote (at_now a)) (key_ledger J bs))).
      Retired e"
    using demote_retired [OF pos] by auto
  ultimately have "newest_active (ks_entries (fst (attempts J as (empty_store ov rows)))) None
      = newest_active (mint_entries J a) None"
    by (simp only: newest_active_retired)
  then show ?thesis
    by (auto simp: ks_Active_def as mint_entries_def split: option.splits)
qed

lemma fate_in_ledger:
  assumes "e \<in> set (key_ledger J h)" "\<not> Retired e" "\<forall>a \<in> set later. time_zero < at_now a"
  shows "fate later e \<in> set (key_ledger J (h @ later))"
  using assms(3)
proof (induction later rule: rev_induct)
  case (snoc a later)
  then have "demote (at_now a) (fate later e) \<in> set (key_ledger J (h @ later @ [a]))"
    using ledger_snoc [of J "h @ later" a] by simp
  moreover have "demote (at_now a) (fate later e) = fate (later @ [a]) e"
    using assms(2) snoc.prems by (cases later) (simp_all add: fate_def demote_def Retired_def)
  ultimately show ?case by simp
qed (use assms(1) in \<open>simp add: fate_def\<close>)

lemma kid_of_fate [simp]: "ke_KID (fate later e) = ke_KID e" "ke_priv (fate later e) = ke_priv e"
  by (simp_all add: fate_def split: list.splits)

lemma find_kid:
  "distinct (map ke_KID es) \<Longrightarrow> e \<in> set es \<Longrightarrow>
     find (\<lambda>x. ke_KID x = ke_KID e) (filter P es) = (if P e then Some e else None)"
proof -
  assume d: "distinct (map ke_KID es)" and e: "e \<in> set es"
  have "keys_distinct ke_KID (filter P es)" using d by (simp add: keys_distinct_def distinct_map_filter)
  then have "P e \<Longrightarrow> row_get ke_KID (ke_KID e) (filter P es) = Some e" using e by (simp add: row_get_in_set)
  moreover have "\<not> P e \<Longrightarrow> row_get ke_KID (ke_KID e) (filter P es) = None"
    unfolding row_get_None_iff using d e by (auto simp: distinct_map dest: inj_onD)
  ultimately show "find (\<lambda>x. ke_KID x = ke_KID e) (filter P es) = (if P e then Some e else None)"
    by (simp add: row_get_def)
qed

lemma ByKID_after:
  assumes t: "key_times (h @ later)" "h @ later \<noteq> []" "at_now (last (h @ later)) \<le> v"
    and e: "e \<in> set (key_ledger J h)" "\<not> Retired e"
  shows "ks_ByKID v (ke_KID e) (fst (attempts J (h @ later) (empty_store ov rows))) =
    (if past_overlap ov (at_now (last (h @ later))) (fate later e)
     then Inl (''KeyStore: unknown kid '' @ quote (ke_KID e))
     else if past_overlap ov v (fate later e)
     then Inl (''KeyStore: kid '' @ quote (ke_KID e) @ '' is past overlap window'')
     else Inr (fate later e))"
proof -
  have pos: "\<forall>a \<in> set later. time_zero < at_now a" using t(1) by (simp add: key_times_def)
  have "distinct (map ke_KID (key_ledger J (h @ later)))"
    by (rule ledger_distinct) (use t(1) in \<open>simp add: key_times_def\<close>)
  from find_kid [OF this fate_in_ledger [OF e pos], of "\<lambda>x. \<not> past_overlap ov (at_now (last (h @ later))) x"]
  show ?thesis
    using store_of_ledger [OF key_times_sorted [OF t(1)] t(2), of J ov rows]
    by (simp add: ks_ByKID_def)
qed

lemma fate_past_overlap:
  "time_zero < at_now a \<Longrightarrow> past_overlap ov v (fate (a # later) e) \<longleftrightarrow> v - at_now a > ov"
  "\<not> Retired e \<Longrightarrow> \<not> past_overlap ov v (fate [] e)"
  by (simp_all add: past_overlap_def fate_def Retired_def)

section \<open>Tokens\<close>

lemma cut_at_append: "d \<notin> set x \<Longrightarrow> cut_at d (x @ d # y) = Some (x, y)"
proof -
  assume a: "d \<notin> set x"
  have "takeWhile (\<lambda>c. c \<noteq> d) (x @ d # y) = x" using a by (induction x) auto
  then show ?thesis by (simp add: cut_at_def Let_def)
qed

lemma Verify_token:
  assumes "reads_back J (jose_header kid)" "kid \<noteq> []"
  shows "ks_Verify J v (jose_token J kid claims p) ks =
    res_bind (ks_ByKID v kid ks) (\<lambda>e. res_bind (key_Priv J e)
      (\<lambda>k. VerifyJWS J (Some (js_pub J k)) (jose_token J kid claims p)))"
proof -
  let ?h = "b64_encode (js_print J (jose_header kid))"
  let ?c = "b64_encode (js_print J (JObj claims))"
  let ?s = "b64_encode (signature_bytes p)"
  have c1: "cut_at CHR ''.'' (jose_token J kid claims p) = Some (?h, ?c @ CHR ''.'' # ?s)"
    using cut_at_append [OF b64_no_dot, of "js_print J (jose_header kid)" "?c @ CHR ''.'' # ?s"]
    by (simp add: jose_token_def signing_input_def)
  have c2: "cut_at CHR ''.'' (?c @ CHR ''.'' # ?s) = Some (?c, ?s)"
    using cut_at_append [OF b64_no_dot, of "js_print J (JObj claims)" ?s] by simp
  have k: "res_bind (struct_ok ''struct'' (jose_header kid)) (get_str ''kid'') = Inr kid"
    by (simp add: jose_header_def get_str_def jget_def fold_eq_eval go_string)
  show ?thesis
    using assms by (simp add: ks_Verify_def c1 c2 res_wrap_def unmarshal_def reads_back_def k)
qed

text \<open>What \<open>crypto/ecdsa\<close> documents: a signature is a pair of numbers below the group order, and verifies.\<close>

definition ecdsa_ok :: "'k jose \<Rightarrow> bool" where
  "ecdsa_ok J \<longleftrightarrow> (\<forall>k m seed r s. js_sign J k m seed = Inr (r, s) \<longrightarrow>
     r < 2 ^ 256 \<and> s < 2 ^ 256 \<and> js_verify J (js_pub J k) m r s)"

lemma signed_token:
  assumes "signJWSWithKID J seed t (Some k) kid claims = Inr token"
  obtains r s where "token = jose_token J kid (with_iat t claims) (r, s)" "kid \<noteq> []"
    "js_sign J k (signing_input J kid (with_iat t claims)) seed = Inr (r, s)"
  using assms
  by (auto simp: signJWSWithKID_def signJWSCommon_def jose_token_def Let_def split: if_splits sum.splits)

lemma Sign_token:
  assumes "ks_Active ks = Inr e" "ke_priv e = Some k" "ks_Sign J seed t claims ks = Inr token"
  shows "signJWSWithKID J seed t (Some k) (ke_KID e) claims = Inr token"
  using assms by (simp add: ks_Sign_def key_Priv_def)

lemma ledger_priv: "e \<in> set (key_ledger J as) \<Longrightarrow> ke_priv e \<noteq> None"
  by (induction as arbitrary: e rule: rev_induct) (auto simp: mint_entries_def split: option.splits)

text \<open>What is published, as pairs of a key id and a public point, in the order of minting.\<close>

definition published :: "'k jose \<Rightarrow> 'k key_entry list \<Rightarrow> (string \<times> point) list" where
  "published J es = map (\<lambda>e. (ke_KID e, js_pub J (the (ke_priv e)))) es"

lemma published_kids: "fst ` set (published J es) = ke_KID ` set es"
  by (force simp: published_def)

lemma kid_in_filter:
  "distinct (map ke_KID es) \<Longrightarrow> e \<in> set es \<Longrightarrow> ke_KID e \<in> ke_KID ` set (filter P es) \<longleftrightarrow> P e"
  by (auto simp: distinct_map dest: inj_onD)

lemma JWKS_published:
  "\<forall>e \<in> set (ks_entries ks). ke_priv e \<noteq> None \<Longrightarrow> ks_JWKS J ks = Inr (jwks_json (published J (ks_entries ks)))"
proof -
  have "\<forall>e \<in> set es. ke_priv e \<noteq> None \<Longrightarrow>
      res_mapM (\<lambda>e. res_bind (key_Priv J e) (\<lambda>p. Inr (ke_KID e, js_pub J p))) es = Inr (published J es)" for es
    by (induction es) (auto simp: key_Priv_def published_def)
  then show "\<forall>e \<in> set (ks_entries ks). ke_priv e \<noteq> None \<Longrightarrow>
      ks_JWKS J ks = Inr (jwks_json (published J (ks_entries ks)))"
    by (simp add: ks_JWKS_def)
qed

text \<open>The document after a history, and the key of an id in it.\<close>

definition published_after :: "'k jose \<Rightarrow> int \<Rightarrow> 'k attempt list \<Rightarrow> (string \<times> point) list" where
  "published_after J ov as =
     published J (filter (\<lambda>e. \<not> past_overlap ov (at_now (last as)) e) (key_ledger J as))"

lemma JWKS_after:
  assumes "key_times as" "as \<noteq> []"
  shows "ks_JWKS J (fst (attempts J as (empty_store ov rows))) = Inr (jwks_json (published_after J ov as))"
  using JWKS_published [of "fst (attempts J as (empty_store ov rows))" J] ledger_priv [of _ J as]
    store_of_ledger [OF key_times_sorted [OF assms(1)] assms(2), of J ov rows]
  by (simp add: published_after_def)

lemma minted_in_ledger:
  "minted J (last as) = Some (k, pem) \<Longrightarrow> as \<noteq> [] \<Longrightarrow>
     minted_entry (at_now (last as)) pem k \<in> set (key_ledger J as)"
  by (cases as rule: rev_cases) (simp_all add: mint_entries_def)

lemma fate_past:
  assumes "\<not> Retired e" "key_times later"
  shows "past_overlap ov u (fate later e) \<longleftrightarrow> later \<noteq> [] \<and> u - at_now (hd later) > ov"
  using assms by (cases later) (simp_all add: fate_past_overlap key_times_def)

lemma published_after_distinct:
  assumes "key_times as"
  shows "distinct (map fst (published_after J ov as))" "[] \<notin> fst ` set (published_after J ov as)"
proof -
  have "distinct (map ke_KID (key_ledger J as))"
    by (rule ledger_distinct) (use assms in \<open>simp add: key_times_def\<close>)
  then show "distinct (map fst (published_after J ov as))"
    by (simp add: published_after_def published_def o_def distinct_map_filter)
  have "fst ` set (published_after J ov as) \<subseteq> range minted_kid"
    using ledger_kids [of J as] by (auto simp: published_after_def published_def)
  then show "[] \<notin> fst ` set (published_after J ov as)" by (auto simp: minted_kid_def)
qed

lemma published_after_key:
  assumes t: "key_times (h @ later)" "h \<noteq> []" and mint: "minted J (last h) = Some (k, pem)"
  shows "map_of (published_after J ov (h @ later)) (minted_kid (at_now (last h))) =
    (if later = [] \<or> at_now (last later) - at_now (hd later) \<le> ov then Some (js_pub J k) else None)"
proof -
  let ?P = "\<lambda>x. \<not> past_overlap ov (at_now (last (h @ later))) x"
  let ?e = "minted_entry (at_now (last h)) pem k"
  have pos: "\<forall>a \<in> set later. time_zero < at_now a" using t(1) by (simp add: key_times_def)
  have e: "fate later ?e \<in> set (key_ledger J (h @ later))"
    by (rule fate_in_ledger [OF minted_in_ledger [OF mint t(2)] _ pos]) simp
  have d: "distinct (map ke_KID (key_ledger J (h @ later)))"
    by (rule ledger_distinct) (use t(1) in \<open>simp add: key_times_def\<close>)
  have P: "?P (fate later ?e) \<longleftrightarrow> later = [] \<or> at_now (last later) - at_now (hd later) \<le> ov"
    using fate_past [of ?e later ov] key_times_append [OF t(1)] by (cases "later = []") auto
  show ?thesis
  proof (cases "?P (fate later ?e)")
    case True
    then have "(minted_kid (at_now (last h)), js_pub J k) \<in> set (published_after J ov (h @ later))"
      using e by (force simp: published_after_def published_def intro!: image_eqI [of _ _ "fate later ?e"])
    then show ?thesis
      using published_after_distinct(1) [OF t(1)] True P by (simp add: map_of_eq_Some_iff)
  next
    case False
    then have "minted_kid (at_now (last h)) \<notin> fst ` set (published_after J ov (h @ later))"
      using kid_in_filter [OF d e, of ?P]
      by (simp only: published_after_def published_kids kid_of_fate minted_entry_fields simp_thms)
    then show ?thesis using False P by (simp add: map_of_eq_None_iff)
  qed
qed

lemma token_of_store:
  assumes "key_times h" "h \<noteq> []" "ks_Sign J seed t claims (fst (attempts J h (empty_store ov rows))) = Inr token"
  obtains k pem r s where "minted J (last h) = Some (k, pem)"
    "token = jose_token J (minted_kid (at_now (last h))) (with_iat t claims) (r, s)"
    "js_sign J k (signing_input J (minted_kid (at_now (last h))) (with_iat t claims)) seed = Inr (r, s)"
proof -
  have active: "ks_Active (fst (attempts J h (empty_store ov rows))) =
      (case minted J (last h) of None \<Rightarrow> Inl ''KeyStore: no active key''
         | Some (k, pem) \<Rightarrow> Inr (minted_entry (at_now (last h)) pem k))"
    by (rule active_after [OF assms(1,2)])
  with assms(3) obtain k pem where mint: "minted J (last h) = Some (k, pem)"
    by (auto simp: ks_Sign_def split: option.splits)
  from signed_token [OF Sign_token [OF _ _ assms(3)], of "minted_entry (at_now (last h)) pem k" k]
  show ?thesis using that [OF mint] active mint by auto
qed

lemma verify_signed:
  assumes "ecdsa_ok J" "\<forall>kid. reads_back J (jose_header kid)" "reads_back J (JObj claims)"
    "js_sign J k (signing_input J kid claims) seed = Inr (r, s)"
  shows "VerifyJWS J (Some (js_pub J k)) (jose_token J kid claims (r, s)) = Inr claims"
  using assms by (subst verify_token) (auto simp: ecdsa_ok_def)

text \<open>A token the store signs is accepted by the store for ever if nobody tries to rotate the keys, and
  else exactly until the overlap window after the first attempt, successful or not, has passed. The
  published key document goes by the last attempt instead of the clock: it lists the key of the token
  unless an attempt came after the window.\<close>

theorem key_overlap:
  assumes J: "ecdsa_ok J" "\<forall>kid. reads_back J (jose_header kid)" "reads_back J (JObj (with_iat t claims))"
    and times: "key_times (h @ later)" "h \<noteq> []" "at_now (last (h @ later)) \<le> v" and ov: "0 \<le> ov"
    and signed: "ks_Sign J seed t claims (fst (attempts J h (empty_store ov rows))) = Inr token"
  shows "(if later = [] \<or> v - at_now (hd later) \<le> ov
          then ks_Verify J v token (fst (attempts J (h @ later) (empty_store ov rows))) = Inr (with_iat t claims)
          else \<exists>er. ks_Verify J v token (fst (attempts J (h @ later) (empty_store ov rows))) = Inl er)
    \<and> (\<exists>keys. ks_JWKS J (fst (attempts J (h @ later) (empty_store ov rows))) = Inr (jwks_json keys)
        \<and> (minted_kid (at_now (last h)) \<in> fst ` set keys
            \<longleftrightarrow> later = [] \<or> at_now (last later) - at_now (hd later) \<le> ov))"
proof (rule conjI)
  have ht: "key_times h" "key_times later" "h @ later \<noteq> []" using key_times_append [OF times(1)] times(2) by auto
  obtain k pem r s where mint: "minted J (last h) = Some (k, pem)"
    and tok: "token = jose_token J (minted_kid (at_now (last h))) (with_iat t claims) (r, s)"
    and sig: "js_sign J k (signing_input J (minted_kid (at_now (last h))) (with_iat t claims)) seed = Inr (r, s)"
    by (rule token_of_store [OF ht(1) times(2) signed])
  define e where "e = minted_entry (at_now (last h)) pem k"
  have e: "e \<in> set (key_ledger J h)" "\<not> Retired e" "ke_KID e = minted_kid (at_now (last h))" "ke_priv e = Some k"
    using minted_in_ledger [OF mint times(2)] by (simp_all add: e_def)
  have V: "ks_Verify J v token ks = res_bind (ks_ByKID v (ke_KID e) ks)
      (\<lambda>x. res_bind (key_Priv J x) (\<lambda>k. VerifyJWS J (Some (js_pub J k)) token))" for ks
    using Verify_token [of J "ke_KID e"] J(2) tok e(3) by (simp add: minted_kid_def)
  have B: "ks_ByKID v (ke_KID e) (fst (attempts J (h @ later) (empty_store ov rows))) =
      (if later \<noteq> [] \<and> at_now (last (h @ later)) - at_now (hd later) > ov
       then Inl (''KeyStore: unknown kid '' @ quote (ke_KID e))
       else if later \<noteq> [] \<and> v - at_now (hd later) > ov
       then Inl (''KeyStore: kid '' @ quote (ke_KID e) @ '' is past overlap window'')
       else Inr (fate later e))"
    by (simp only: ByKID_after [OF times(1) ht(3) times(3) e(1,2)] fate_past [OF e(2) ht(2)])
  have jws: "VerifyJWS J (Some (js_pub J k)) token = Inr (with_iat t claims)"
    unfolding tok by (rule verify_signed [OF J sig])
  show "if later = [] \<or> v - at_now (hd later) \<le> ov
      then ks_Verify J v token (fst (attempts J (h @ later) (empty_store ov rows))) = Inr (with_iat t claims)
      else \<exists>er. ks_Verify J v token (fst (attempts J (h @ later) (empty_store ov rows))) = Inl er"
    using times(3) by (auto simp: V B key_Priv_def e(4) jws)
  have "minted_kid (at_now (last h)) \<in> fst ` set (published_after J ov (h @ later))
      \<longleftrightarrow> later = [] \<or> at_now (last later) - at_now (hd later) \<le> ov"
    using published_after_key [OF times(1,2) mint, of ov]
    by (metis (no_types, lifting) map_of_eq_None_iff option.distinct(1))
  then show "\<exists>keys. ks_JWKS J (fst (attempts J (h @ later) (empty_store ov rows))) = Inr (jwks_json keys)
        \<and> (minted_kid (at_now (last h)) \<in> fst ` set keys
            \<longleftrightarrow> later = [] \<or> at_now (last later) - at_now (hd later) \<le> ov)"
    by (intro exI [of _ "published_after J ov (h @ later)"] conjI JWKS_after [OF times(1) ht(3)])
qed

text \<open>On a key minted at 10 and replaced at 20, with a window of 5.\<close>

definition demo_jose :: "(string \<times> json) list \<Rightarrow> nat jose" where
  "demo_jose claims = \<lparr>
     js_print = (\<lambda>j. case jlookup ''kid'' (jfields j) of Some (JStr k) \<Rightarrow> CHR ''h'' # k | _ \<Rightarrow> ''c''),
     js_parse = (\<lambda>s. if s = ''c'' then RawJson (JObj claims) else RawJson (jose_header (tl s))),
     js_pub = (\<lambda>k. (k, k)), js_sign = (\<lambda>k m seed. if k < 100 then Inr (k, 1) else Inl ''bad key''),
     js_verify = (\<lambda>q m r s. r = fst q \<and> s = 1), js_pem = (\<lambda>k. Inr ''pem''), js_unpem = (\<lambda>s. Inl ''no block'')\<rparr>"

definition demo_claims :: "(string \<times> json) list" where
  "demo_claims = [(''iss'', JStr ''d''), (''iat'', JNum 7)]"

definition no_rows :: "nat secret_rows" where
  "no_rows = \<lparr>sr_archive = None, sr_legacy = None\<rparr>"

definition demo_attempt :: "time \<Rightarrow> nat \<Rightarrow> nat attempt" where
  "demo_attempt t k = \<lparr>at_now = t, at_gen = Inr k, at_perr = None\<rparr>"

lemma demo_jose_keys:
  "js_sign (demo_jose claims) k m seed = (if k < 100 then Inr (k, 1) else Inl ''bad key'')"
  "js_verify (demo_jose claims) q m r s = (r = fst q \<and> s = 1)" "js_pub (demo_jose claims) k = (k, k)"
  by (simp_all add: demo_jose_def)

lemma demo_jose_ok:
  assumes "jlookup ''kid'' claims = None" "map_of claims ''iat'' \<noteq> None"
  shows "ecdsa_ok (demo_jose claims)" "\<forall>kid. reads_back (demo_jose claims) (jose_header kid)"
    "reads_back (demo_jose claims) (JObj (with_iat t claims))"
  unfolding ecdsa_ok_def reads_back_def using assms
  by (auto simp: demo_jose_def jose_header_def with_iat_def fold_eq_eval go_string split: if_splits)

lemma demo_mint [simp]:
  "minted (demo_jose claims) (demo_attempt t k) = Some (k, ''pem'')" "at_now (demo_attempt t k) = t"
  by (simp_all add: minted_def demo_attempt_def demo_jose_def)

lemma demo_times: "key_times [demo_attempt 10 1, demo_attempt 20 2]" "key_times [demo_attempt 10 1]"
  by (simp_all add: key_times_def time_zero_def)

lemma demo_signs:
  "\<exists>token. ks_Sign (demo_jose claims) [] 12 claims
     (fst (attempts (demo_jose claims) [demo_attempt 10 1] (empty_store 5 no_rows))) = Inr token"
  using active_after [OF demo_times(2), of "demo_jose claims" 5 no_rows]
  by (simp add: ks_Sign_def key_Priv_def signJWSWithKID_def signJWSCommon_def minted_kid_def Let_def)
    (simp add: demo_jose_def)

lemma demo_claims_ok: "jlookup ''kid'' demo_claims = None" "map_of demo_claims ''iat'' \<noteq> None"
  by (simp_all add: demo_claims_def fold_eq_eval go_string)

lemma key_overlap_witness:
  "\<exists>token. ks_Verify (demo_jose demo_claims) 25 token (fst (attempts (demo_jose demo_claims) [demo_attempt 10 1, demo_attempt 20 2] (empty_store 5 no_rows)))
       = Inr demo_claims
     \<and> (\<exists>er. ks_Verify (demo_jose demo_claims) 26 token
          (fst (attempts (demo_jose demo_claims) [demo_attempt 10 1, demo_attempt 20 2] (empty_store 5 no_rows))) = Inl er)"
proof -
  obtain token where "ks_Sign (demo_jose demo_claims) [] 12 demo_claims
      (fst (attempts (demo_jose demo_claims) [demo_attempt 10 1] (empty_store 5 no_rows))) = Inr token"
    using demo_signs by blast
  from key_overlap [OF demo_jose_ok [OF demo_claims_ok], of "[demo_attempt 10 1]" "[demo_attempt 20 2]" 25 5, OF _ _ _ _ this]
    key_overlap [OF demo_jose_ok [OF demo_claims_ok], of "[demo_attempt 10 1]" "[demo_attempt 20 2]" 26 5, OF _ _ _ _ this]
  show ?thesis using demo_times by (auto simp: with_iat_def demo_claims_def)
qed

end
