(* ===== verification/Runner_Auth.thy ===== *)
theory Runner_Auth
  imports Keystore
begin

text \<open>
  The gate in front of a runner's A2A endpoint: the cache of key documents
  (\<open>internal/auth/jwks_client.go\<close>) and the token check with its replay cache
  (\<open>internal/auth/jwt_runner_middleware.go\<close>). The outcome of fetching a key document is an argument; the
  clock is read once per request, as the middleware's seam does (\<open>PublicKey\<close> and \<open>parseJWKS\<close> read it again
  a moment later, which is the argument \<open>now'\<close>). The reason of a refusal is only logged; the one of a wrong
  audience leaves out the rendering of the claim.
\<close>

section \<open>Key documents\<close>

type_synonym jwks_cache = "string \<Rightarrow> jwks_entry option"

datatype fetched = FetchFailed go_error | Fetched int "raw result"

definition jwks_fetch :: "time \<Rightarrow> int \<Rightarrow> string \<Rightarrow> fetched \<Rightarrow> jwks_entry result" where
  "jwks_fetch now' ttl url f =
     (case f of
        FetchFailed e \<Rightarrow> Inl (''jwks fetch '' @ url @ '': '' @ e)
      | Fetched status body \<Rightarrow>
          if status \<noteq> 200 then Inl (''jwks fetch '' @ url @ '': status '' @ show_int status)
          else case body of
            Inl e \<Rightarrow> Inl (''jwks read '' @ url @ '': '' @ e)
          | Inr b \<Rightarrow> parseJWKS now' ttl b)"

text \<open>\<open>web url\<close> is what a GET of the URL returns.\<close>

definition PublicKey ::
    "time \<Rightarrow> int \<Rightarrow> (string \<Rightarrow> fetched) \<Rightarrow> string \<Rightarrow> string \<Rightarrow> jwks_cache \<Rightarrow> point result \<times> jwks_cache" where
  "PublicKey now' ttl web url kid cache =
     (case cache url of
        Some e \<Rightarrow>
          if now' < je_expiresAt e then (entry_lookup e kid, cache)
          else (case jwks_fetch now' ttl url (web url) of
                  Inl er \<Rightarrow> (Inl er, cache)
                | Inr e' \<Rightarrow> (entry_lookup e' kid, cache(url := Some e')))
      | None \<Rightarrow>
          (case jwks_fetch now' ttl url (web url) of
             Inl er \<Rightarrow> (Inl er, cache)
           | Inr e' \<Rightarrow> (entry_lookup e' kid, cache(url := Some e'))))"

section \<open>The replay cache\<close>

record jti_cache =
  jc_seen :: "(string \<times> time) list"
  jc_last :: time

definition new_jti_cache :: jti_cache where
  "new_jti_cache = \<lparr>jc_seen = [], jc_last = time_zero\<rparr>"

definition observeAndCheck :: "int \<Rightarrow> string \<Rightarrow> time \<Rightarrow> jti_cache \<Rightarrow> bool \<times> jti_cache" where
  "observeAndCheck ttl jti now c =
     (let c1 = (if now - jc_last c > ttl
                then \<lparr>jc_seen = filter (\<lambda>(k, t). \<not> now - t > ttl) (jc_seen c), jc_last = now\<rparr> else c)
      in case map_of (jc_seen c1) jti of
           Some t \<Rightarrow> if now - t < ttl then (False, c1)
                     else (True, c1\<lparr>jc_seen := AList.update jti now (jc_seen c1)\<rparr>)
         | None \<Rightarrow> (True, c1\<lparr>jc_seen := AList.update jti now (jc_seen c1)\<rparr>))"

section \<open>The token check\<close>

record runner_config =
  rc_RunnerSID :: string
  rc_JTITTL :: int
  rc_KeyTTL :: int

record runner_gate =
  rg_keys :: jwks_cache
  rg_jti :: jti_cache

definition newRunnerGate :: runner_gate where
  "newRunnerGate = \<lparr>rg_keys = (\<lambda>_. None), rg_jti = new_jti_cache\<rparr>"

text \<open>\<open>strings.SplitN(h, " ", 2)\<close> and the check of the scheme; \<open>h\<close> is the Authorization header.\<close>

definition extractBearerToken :: "string \<Rightarrow> string" where
  "extractBearerToken h =
     (case cut_at CHR '' '' h of
        None \<Rightarrow> []
      | Some (scheme, rest) \<Rightarrow> if fold_eq scheme ''Bearer'' then trim_space rest else [])"

definition audienceMatches :: "json option \<Rightarrow> string \<Rightarrow> bool" where
  "audienceMatches aud sid =
     (let expected = (\<lambda>s. s = sid \<or> s = ''runner://'' @ sid) in
      case aud of
        Some (JStr v) \<Rightarrow> expected v
      | Some (JArr vs) \<Rightarrow> list_ex (\<lambda>v. case v of JStr s \<Rightarrow> expected s | _ \<Rightarrow> False) vs
      | _ \<Rightarrow> False)"

text \<open>A JSON number decoded into an \<open>int64\<close>.\<close>

definition get_int64 :: "string \<Rightarrow> json \<Rightarrow> int result" where
  "get_int64 n j = res_bind (get_int n j) (\<lambda>i.
     if - (2 ^ 63) \<le> i \<and> i < 2 ^ 63 then Inr i else Inl (mismatch (JNum i) ''int64''))"

record runner_claims =
  rn_Iss :: string
  rn_Aud :: "json option"
  rn_Sub :: string
  rn_Exp :: int
  rn_JTI :: string

definition dec_runner_claims :: "json \<Rightarrow> runner_claims result" where
  "dec_runner_claims v = res_bind (struct_ok ''struct'' v) (\<lambda>j.
     res_bind (get_str ''iss'' j) (\<lambda>iss. res_bind (get_str ''sub'' j) (\<lambda>sub.
     res_bind (get_int64 ''exp'' j) (\<lambda>exp. res_bind (get_str ''jti'' j) (\<lambda>jti.
     Inr \<lparr>rn_Iss = iss, rn_Aud = jget ''aud'' j, rn_Sub = sub, rn_Exp = exp, rn_JTI = jti\<rparr>)))))"

definition dec_runner_header :: "json \<Rightarrow> string result" where
  "dec_runner_header v = res_bind (struct_ok ''struct'' v) (\<lambda>j.
     res_bind (get_str ''kid'' j) (\<lambda>kid. res_bind (get_str ''alg'' j) (\<lambda>_. Inr kid)))"

text \<open>The unverified key id and claims of a token.\<close>

definition peekToken :: "'k jose \<Rightarrow> string \<Rightarrow> (string \<times> runner_claims) result" where
  "peekToken J token =
     (if token = [] then Inl ''missing Bearer token''
      else case split_on CHR ''.'' token of
        [h, c, s] \<Rightarrow>
          res_bind (res_wrap ''jwt: header decode: '' (b64_decode h)) (\<lambda>hb.
          res_bind (res_wrap ''jwt: header parse: '' (unmarshal dec_runner_header (js_parse J hb))) (\<lambda>kid.
          res_bind (res_wrap ''jwt: claims decode: '' (b64_decode c)) (\<lambda>cb.
          res_bind (res_wrap ''jwt: claims parse: '' (unmarshal dec_runner_claims (js_parse J cb))) (\<lambda>cl.
          if rn_Iss cl = [] then Inl ''jwt: missing iss claim'' else Inr (kid, cl)))))
      | ps \<Rightarrow> Inl (''jwt: malformed (parts='' @ partIndex (length ps) @ '', want 3)''))"

text \<open>The checks of the claims: expiry, audience, and a replay identifier must be there.\<close>

definition claimFault :: "runner_config \<Rightarrow> time \<Rightarrow> runner_claims \<Rightarrow> go_error option" where
  "claimFault cf now cl =
     (if rn_Exp cl > 0 \<and> unix_seconds now > rn_Exp cl
      then Some (''jwt: expired (exp='' @ show_int (rn_Exp cl) @ '', now='' @ show_int (unix_seconds now) @ '')'')
      else if \<not> audienceMatches (rn_Aud cl) (rc_RunnerSID cf)
      then Some (''jwt: aud doesn't match runner sid '' @ quote (rc_RunnerSID cf))
      else if rn_JTI cl = [] then Some ''jwt: missing jti claim (D2 mint always sets it)''
      else None)"

definition verifyRunnerJWT ::
    "'k jose \<Rightarrow> runner_config \<Rightarrow> (string \<Rightarrow> fetched) \<Rightarrow> time \<Rightarrow> time \<Rightarrow> string \<Rightarrow> runner_gate
       \<Rightarrow> string result \<times> runner_gate" where
  "verifyRunnerJWT J cf web now' now auth g =
     (let token = extractBearerToken auth in
      case peekToken J token of
        Inl e \<Rightarrow> (Inl e, g)
      | Inr (kid, cl) \<Rightarrow>
          let (key, keys) = PublicKey now' (rc_KeyTTL cf) web (DeriveJWKSURL (rn_Iss cl)) kid (rg_keys g);
              g1 = g\<lparr>rg_keys := keys\<rparr>
          in case res_bind (res_wrap ''jwt: jwks fetch: '' key) (\<lambda>pub. res_wrap ''jwt: '' (VerifyJWS J (Some pub) token)) of
               Inl e \<Rightarrow> (Inl e, g1)
             | Inr _ \<Rightarrow>
                 (case claimFault cf now cl of
                    Some e \<Rightarrow> (Inl e, g1)
                  | None \<Rightarrow>
                      let (fresh, c) = observeAndCheck (rc_JTITTL cf) (rn_JTI cl) now (rg_jti g1)
                      in (if fresh then Inr (rn_Sub cl) else Inl (''jwt: jti '' @ quote (rn_JTI cl) @ '' replay''),
                          g1\<lparr>rg_jti := c\<rparr>)))"

text \<open>
  The middleware: a rejected request gets the same reply whatever the reason, an accepted one reaches the
  handler with its subject. Without a key client or a runner id the handler is not guarded.
\<close>

datatype gate_reply = Denied401 | Admitted string | Unguarded

definition JWTRunnerMiddleware ::
    "'k jose \<Rightarrow> runner_config option \<Rightarrow> (string \<Rightarrow> fetched) \<Rightarrow> time \<Rightarrow> time \<Rightarrow> string \<Rightarrow> runner_gate
       \<Rightarrow> gate_reply \<times> runner_gate" where
  "JWTRunnerMiddleware J cf web now' now auth g =
     (case cf of
        None \<Rightarrow> (Unguarded, g)
      | Some c \<Rightarrow>
          if rc_RunnerSID c = [] then (Unguarded, g)
          else
            let c1 = (if rc_JTITTL c = 0 then c\<lparr>rc_JTITTL := 60 * second\<rparr> else c)
            in case verifyRunnerJWT J c1 web now' now auth g of
                 (Inl _, g') \<Rightarrow> (Denied401, g') | (Inr sub, g') \<Rightarrow> (Admitted sub, g'))"

section \<open>Runs of the gate\<close>

record gate_request =
  gq_auth :: string
  gq_web :: "string \<Rightarrow> fetched"
  gq_now :: time
  gq_now' :: time

definition gate_step :: "'k jose \<Rightarrow> runner_config \<Rightarrow> gate_request \<Rightarrow> runner_gate \<Rightarrow> string result \<times> runner_gate" where
  "gate_step J c q g = verifyRunnerJWT J c (gq_web q) (gq_now' q) (gq_now q) (gq_auth q) g"

fun gate_run :: "'k jose \<Rightarrow> runner_config \<Rightarrow> gate_request list \<Rightarrow> runner_gate \<Rightarrow> string result list \<times> runner_gate" where
  "gate_run J c [] g = ([], g)"
| "gate_run J c (q # qs) g =
     (case gate_step J c q g of (r, g1) \<Rightarrow> (case gate_run J c qs g1 of (rs, g2) \<Rightarrow> (r # rs, g2)))"

lemma gate_run_snoc:
  "gate_run J c (qs @ [q]) g =
     (case gate_run J c qs g of (rs, g1) \<Rightarrow> (case gate_step J c q g1 of (r, g2) \<Rightarrow> (rs @ [r], g2)))"
  by (induction qs arbitrary: g) (simp_all split: prod.splits)

lemma gate_run_length [simp]: "length (fst (gate_run J c qs g)) = length qs"
  by (induction qs arbitrary: g) (simp_all split: prod.splits, metis fst_conv)

text \<open>The jti a request names, and the admissions of a run: jti and instant, in order.\<close>

definition token_jti :: "'k jose \<Rightarrow> gate_request \<Rightarrow> string" where
  "token_jti J q = (case peekToken J (extractBearerToken (gq_auth q)) of Inr (_, cl) \<Rightarrow> rn_JTI cl | Inl _ \<Rightarrow> [])"

definition admissions :: "'k jose \<Rightarrow> gate_request list \<Rightarrow> string result list \<Rightarrow> (string \<times> time) list" where
  "admissions J qs rs = map (\<lambda>(q, _). (token_jti J q, gq_now q)) (filter (\<lambda>(_, r). \<exists>sub. r = Inr sub) (zip qs rs))"

text \<open>What the token check asks of a request, apart from the replay cache.\<close>

definition token_good :: "'k jose \<Rightarrow> runner_config \<Rightarrow> gate_request \<Rightarrow> jwks_cache \<Rightarrow> string \<Rightarrow> bool" where
  "token_good J c q keys sub \<longleftrightarrow>
     (\<exists>kid cl pub claims. peekToken J (extractBearerToken (gq_auth q)) = Inr (kid, cl)
        \<and> fst (PublicKey (gq_now' q) (rc_KeyTTL c) (gq_web q) (DeriveJWKSURL (rn_Iss cl)) kid keys) = Inr pub
        \<and> VerifyJWS J (Some pub) (extractBearerToken (gq_auth q)) = Inr claims
        \<and> (rn_Exp cl \<le> 0 \<or> unix_seconds (gq_now q) \<le> rn_Exp cl)
        \<and> audienceMatches (rn_Aud cl) (rc_RunnerSID c)
        \<and> rn_JTI cl \<noteq> [] \<and> sub = rn_Sub cl)"

lemma claimFault_None:
  "claimFault c now cl = None \<longleftrightarrow> (rn_Exp cl \<le> 0 \<or> unix_seconds now \<le> rn_Exp cl)
     \<and> audienceMatches (rn_Aud cl) (rc_RunnerSID c) \<and> rn_JTI cl \<noteq> []"
  by (auto simp: claimFault_def)

lemma res_wrap_Inr [simp]: "res_wrap w r = Inr x \<longleftrightarrow> r = Inr x"
  by (simp add: res_wrap_def split: sum.splits)

text \<open>The step, by whether the token is good.\<close>

lemma gate_step_cases:
  fixes J :: "'k jose" and c :: runner_config and q :: gate_request and g :: runner_gate
  defines "seen \<equiv> observeAndCheck (rc_JTITTL c) (token_jti J q) (gq_now q) (rg_jti g)"
  shows "(\<exists>sub. token_good J c q (rg_keys g) sub \<and>
        fst (gate_step J c q g) = (if fst seen then Inr sub else Inl (''jwt: jti '' @ quote (token_jti J q) @ '' replay''))
        \<and> (\<forall>s. token_good J c q (rg_keys g) s \<longrightarrow> s = sub) \<and> rg_jti (snd (gate_step J c q g)) = snd seen)
    \<or> ((\<nexists>sub. token_good J c q (rg_keys g) sub) \<and> (\<nexists>sub. fst (gate_step J c q g) = Inr sub)
        \<and> rg_jti (snd (gate_step J c q g)) = rg_jti g)"
proof (cases "peekToken J (extractBearerToken (gq_auth q))")
  case (Inl e)
  then show ?thesis by (simp add: gate_step_def verifyRunnerJWT_def token_good_def)
next
  case (Inr p)
  obtain kid cl where p: "peekToken J (extractBearerToken (gq_auth q)) = Inr (kid, cl)" using Inr by (cases p) auto
  obtain key keys where k: "PublicKey (gq_now' q) (rc_KeyTTL c) (gq_web q) (DeriveJWKSURL (rn_Iss cl)) kid (rg_keys g) = (key, keys)"
    by (cases "PublicKey (gq_now' q) (rc_KeyTTL c) (gq_web q) (DeriveJWKSURL (rn_Iss cl)) kid (rg_keys g)")
  define chk where "chk = res_bind (res_wrap ''jwt: jwks fetch: '' key)
      (\<lambda>pub. res_wrap ''jwt: '' (VerifyJWS J (Some pub) (extractBearerToken (gq_auth q))))"
  have good: "token_good J c q (rg_keys g) sub \<longleftrightarrow>
      (\<exists>x. chk = Inr x) \<and> claimFault c (gq_now q) cl = None \<and> sub = rn_Sub cl" for sub
    unfolding token_good_def claimFault_None chk_def res_bind_Inr_iff res_wrap_Inr by (auto simp: p k)
  have j: "token_jti J q = rn_JTI cl" by (simp add: token_jti_def p)
  have st: "gate_step J c q g = (case chk of Inl e \<Rightarrow> (Inl e, g\<lparr>rg_keys := keys\<rparr>) | Inr _ \<Rightarrow>
      (case claimFault c (gq_now q) cl of Some e \<Rightarrow> (Inl e, g\<lparr>rg_keys := keys\<rparr>)
       | None \<Rightarrow> (if fst seen then Inr (rn_Sub cl) else Inl (''jwt: jti '' @ quote (rn_JTI cl) @ '' replay''),
                  g\<lparr>rg_keys := keys, rg_jti := snd seen\<rparr>)))"
    unfolding gate_step_def verifyRunnerJWT_def chk_def seen_def j Let_def p sum.case split_beta fst_conv snd_conv k
    by (simp split: sum.split option.split)
  show ?thesis
    by (cases chk; cases "claimFault c (gq_now q) cl") (simp_all add: good st j)
qed

lemma gate_step_keys:
  "rg_keys (snd (gate_step J c q g)) =
     (case peekToken J (extractBearerToken (gq_auth q)) of
        Inl _ \<Rightarrow> rg_keys g
      | Inr (kid, cl) \<Rightarrow>
          snd (PublicKey (gq_now' q) (rc_KeyTTL c) (gq_web q) (DeriveJWKSURL (rn_Iss cl)) kid (rg_keys g)))"
  unfolding gate_step_def verifyRunnerJWT_def Let_def
  by (simp split: sum.split prod.split option.split)

section \<open>The replay window\<close>

definition last_admission :: "(string \<times> time) list \<Rightarrow> string \<Rightarrow> time option" where
  "last_admission as j = map_of (rev as) j"

text \<open>The cache knows the last admission of every jti it lists, and lists those in the window.\<close>

definition jti_inv :: "int \<Rightarrow> time \<Rightarrow> (string \<times> time) list \<Rightarrow> jti_cache \<Rightarrow> bool" where
  "jti_inv ttl now as c \<longleftrightarrow> distinct (map fst (jc_seen c)) \<and>
     (\<forall>j t. map_of (jc_seen c) j = Some t \<longrightarrow> last_admission as j = Some t) \<and>
     (\<forall>j t. last_admission as j = Some t \<and> now - t \<le> ttl \<longrightarrow> map_of (jc_seen c) j = Some t)"

lemma jti_invI:
  assumes "distinct (map fst (jc_seen c))" "\<And>j t. map_of (jc_seen c) j = Some t \<Longrightarrow> last_admission as j = Some t"
    "\<And>j t. last_admission as j = Some t \<Longrightarrow> now - t \<le> ttl \<Longrightarrow> map_of (jc_seen c) j = Some t"
  shows "jti_inv ttl now as c"
  unfolding jti_inv_def using assms by blast

lemma jti_invD:
  assumes "jti_inv ttl now as c"
  shows "distinct (map fst (jc_seen c))" "map_of (jc_seen c) j = Some t \<Longrightarrow> last_admission as j = Some t"
    "last_admission as j = Some t \<Longrightarrow> now - t \<le> ttl \<Longrightarrow> map_of (jc_seen c) j = Some t"
  using assms unfolding jti_inv_def by blast+

lemma jti_inv_new: "jti_inv ttl now [] new_jti_cache"
  by (simp add: jti_inv_def new_jti_cache_def last_admission_def)

lemma jti_inv_later:
  assumes inv: "jti_inv ttl now as c" and le: "now \<le> now'"
  shows "jti_inv ttl now' as c"
proof (rule jti_invI)
  fix j t assume t: "last_admission as j = Some t" "now' - t \<le> ttl"
  then have "now - t \<le> ttl" using le by linarith
  with t(1) show "map_of (jc_seen c) j = Some t" by (rule jti_invD(3) [OF inv])
qed (rule jti_invD [OF inv], assumption?)+

lemma last_admission_snoc: "last_admission (as @ [(j, t)]) i = (if i = j then Some t else last_admission as i)"
  by (simp add: last_admission_def)

lemma jti_inv_gc:
  "jti_inv ttl now as c \<Longrightarrow>
     jti_inv ttl now as \<lparr>jc_seen = filter (\<lambda>(k, t). \<not> now - t > ttl) (jc_seen c), jc_last = now\<rparr>"
proof -
  assume inv: "jti_inv ttl now as c"
  have d: "distinct (map fst (jc_seen c))" using inv by (simp add: jti_inv_def)
  have f: "map_of (filter (\<lambda>(k, t). \<not> now - t > ttl) (jc_seen c)) j =
      (case map_of (jc_seen c) j of Some t \<Rightarrow> if now - t > ttl then None else Some t | None \<Rightarrow> None)" for j
    using map_of_filter_val [OF d, of "\<lambda>t. \<not> now - t > ttl" j] by (auto split: option.splits)
  have d': "distinct (map fst (filter (\<lambda>(k, t). \<not> now - t > ttl) (jc_seen c)))"
    using d by (rule distinct_map_filter)
  show ?thesis
  proof (rule jti_invI)
    fix j t
    assume "map_of (jc_seen \<lparr>jc_seen = filter (\<lambda>(k, t). \<not> now - t > ttl) (jc_seen c), jc_last = now\<rparr>) j = Some t"
    then have "map_of (jc_seen c) j = Some t" by (simp add: f split: option.splits if_splits)
    then show "last_admission as j = Some t" by (rule jti_invD(2) [OF inv])
  next
    fix j t
    assume t: "last_admission as j = Some t" "now - t \<le> ttl"
    from jti_invD(3) [OF inv this] t(2)
    show "map_of (jc_seen \<lparr>jc_seen = filter (\<lambda>(k, t). \<not> now - t > ttl) (jc_seen c), jc_last = now\<rparr>) j = Some t"
      by (simp add: f)
  qed (simp add: d')
qed

lemma observe_spec:
  assumes inv: "jti_inv ttl now as c" and ttl: "0 < ttl" and past: "\<forall>(j, t) \<in> set as. t \<le> now"
  shows "(fst (observeAndCheck ttl j now c) \<longleftrightarrow> (\<forall>t. last_admission as j = Some t \<longrightarrow> ttl \<le> now - t))
    \<and> jti_inv ttl now (if fst (observeAndCheck ttl j now c) then as @ [(j, now)] else as)
        (snd (observeAndCheck ttl j now c))"
proof -
  define c1 where "c1 = (if now - jc_last c > ttl
                then \<lparr>jc_seen = filter (\<lambda>(k, t). \<not> now - t > ttl) (jc_seen c), jc_last = now\<rparr> else c)"
  have c1: "jti_inv ttl now as c1" unfolding c1_def using inv jti_inv_gc [OF inv] by simp
  have o: "observeAndCheck ttl j now c =
      (case map_of (jc_seen c1) j of
           Some t \<Rightarrow> if now - t < ttl then (False, c1)
                     else (True, c1\<lparr>jc_seen := AList.update j now (jc_seen c1)\<rparr>)
         | None \<Rightarrow> (True, c1\<lparr>jc_seen := AList.update j now (jc_seen c1)\<rparr>))"
    unfolding observeAndCheck_def c1_def Let_def ..
  have u: "jti_inv ttl now (as @ [(j, now)]) (c1\<lparr>jc_seen := AList.update j now (jc_seen c1)\<rparr>)"
  proof (rule jti_invI)
    fix i t
    show "map_of (jc_seen (c1\<lparr>jc_seen := AList.update j now (jc_seen c1)\<rparr>)) i = Some t \<Longrightarrow>
        last_admission (as @ [(j, now)]) i = Some t"
      using jti_invD(2) [OF c1] by (simp add: last_admission_snoc split: if_splits)
    show "last_admission (as @ [(j, now)]) i = Some t \<Longrightarrow> now - t \<le> ttl \<Longrightarrow>
        map_of (jc_seen (c1\<lparr>jc_seen := AList.update j now (jc_seen c1)\<rparr>)) i = Some t"
      using jti_invD(3) [OF c1] by (simp add: last_admission_snoc split: if_splits)
  qed (simp add: distinct_update jti_invD(1) [OF c1])
  show ?thesis
  proof (cases "map_of (jc_seen c1) j")
    case None
    have "ttl \<le> now - t" if "last_admission as j = Some t" for t
      using jti_invD(3) [OF c1 that] None by (cases "now - t \<le> ttl") simp_all
    then show ?thesis using u by (simp add: o None)
  next
    case (Some t)
    then have "last_admission as j = Some t" by (rule jti_invD(2) [OF c1])
    then show ?thesis using u c1 by (simp add: o Some)
  qed
qed

text \<open>The run keeps the invariant: the cache and the admissions.\<close>

lemma admissions_snoc:
  "length rs = length qs \<Longrightarrow> admissions J (qs @ [q]) (rs @ [r]) =
     admissions J qs rs @ (case r of Inr _ \<Rightarrow> [(token_jti J q, gq_now q)] | Inl _ \<Rightarrow> [])"
  by (simp add: admissions_def split: sum.splits)

lemma admissions_times:
  "(j, t) \<in> set (admissions J qs rs) \<Longrightarrow> \<exists>q \<in> set qs. t = gq_now q"
  by (auto simp: admissions_def dest: set_zip_leftD)

lemma gate_run_inv:
  assumes "0 < rc_JTITTL c" "sorted (map gq_now qs)" "\<forall>q \<in> set qs. gq_now q \<le> now"
  shows "jti_inv (rc_JTITTL c) now (admissions J qs (fst (gate_run J c qs newRunnerGate)))
    (rg_jti (snd (gate_run J c qs newRunnerGate)))"
  using assms(2,3)
proof (induction qs arbitrary: now rule: rev_induct)
  case Nil
  then show ?case by (simp add: newRunnerGate_def admissions_def jti_inv_new)
next
  case (snoc q qs)
  define rs where "rs = fst (gate_run J c qs newRunnerGate)"
  define g where "g = snd (gate_run J c qs newRunnerGate)"
  have run: "gate_run J c qs newRunnerGate = (rs, g)" by (simp add: rs_def g_def)
  have le: "\<forall>x \<in> set qs. gq_now x \<le> gq_now q" using snoc.prems(1) by (auto simp: sorted_append)
  have inv: "jti_inv (rc_JTITTL c) (gq_now q) (admissions J qs rs) (rg_jti g)"
    using snoc.IH [of "gq_now q"] snoc.prems(1) le by (simp add: run sorted_append)
  have past: "\<forall>(j, t) \<in> set (admissions J qs rs). t \<le> gq_now q"
    using le by (auto dest: admissions_times)
  have len: "length rs = length qs" by (simp add: rs_def)
  have sp: "gate_run J c (qs @ [q]) newRunnerGate = (rs @ [fst (gate_step J c q g)], snd (gate_step J c q g))"
    by (simp add: gate_run_snoc run split_beta)
  have "jti_inv (rc_JTITTL c) (gq_now q) (admissions J (qs @ [q]) (rs @ [fst (gate_step J c q g)]))
      (rg_jti (snd (gate_step J c q g)))"
  proof (cases "\<exists>sub. token_good J c q (rg_keys g) sub")
    case True
    then obtain sub where "fst (gate_step J c q g) =
          (if fst (observeAndCheck (rc_JTITTL c) (token_jti J q) (gq_now q) (rg_jti g)) then Inr sub
           else Inl (''jwt: jti '' @ quote (token_jti J q) @ '' replay''))"
        "rg_jti (snd (gate_step J c q g)) = snd (observeAndCheck (rc_JTITTL c) (token_jti J q) (gq_now q) (rg_jti g))"
      using gate_step_cases [of J c q g] by metis
    then show ?thesis
      using observe_spec [OF inv assms(1) past, of "token_jti J q", THEN conjunct2]
      unfolding admissions_snoc [OF len] by (simp split: if_splits)
  next
    case False
    then have "\<nexists>sub. fst (gate_step J c q g) = Inr sub" "rg_jti (snd (gate_step J c q g)) = rg_jti g"
      using gate_step_cases [of J c q g] by metis+
    then show ?thesis
      using inv unfolding admissions_snoc [OF len] by (simp split: sum.split)
  qed
  then show ?case using snoc.prems(2) by (simp add: sp jti_inv_later)
qed

lemma admissions_sorted:
  "sorted (map gq_now qs) \<Longrightarrow> length rs = length qs \<Longrightarrow> sorted (map snd (admissions J qs rs))"
proof (induction qs arbitrary: rs rule: rev_induct)
  case (snoc q qs)
  obtain rs' r where rs: "rs = rs' @ [r]" "length rs' = length qs"
    using snoc.prems(2) by (cases rs rule: rev_cases) auto
  have "\<forall>x \<in> set (map snd (admissions J qs rs')). x \<le> gq_now q"
    using snoc.prems(1) by (auto simp: sorted_append dest: admissions_times)
  then show ?case
    using snoc.IH [OF _ rs(2)] snoc.prems(1) by (auto simp: rs admissions_snoc sorted_append split: sum.splits)
qed (simp add: admissions_def)

lemma last_admission_latest:
  "sorted (map snd as) \<Longrightarrow> (j, t) \<in> set as \<Longrightarrow> \<exists>t'. last_admission as j = Some t' \<and> t \<le> t' \<and> (j, t') \<in> set as"
proof (induction as rule: rev_induct)
  case (snoc a as)
  obtain i u where a: "a = (i, u)" by (cases a)
  show ?case
  proof (cases "i = j")
    case True
    then show ?thesis using snoc.prems by (auto simp: a last_admission_snoc sorted_append)
  next
    case False
    then show ?thesis using snoc by (auto simp: a last_admission_snoc sorted_append)
  qed
qed simp

lemma last_admission_in: "last_admission as j = Some t \<Longrightarrow> (j, t) \<in> set as"
  unfolding last_admission_def by (metis map_of_SomeD set_rev)

text \<open>Where the cached documents come from.\<close>

definition keys_from :: "runner_config \<Rightarrow> gate_request list \<Rightarrow> jwks_cache \<Rightarrow> bool" where
  "keys_from c qs keys \<longleftrightarrow> (\<forall>url e. keys url = Some e \<longrightarrow>
     (\<exists>q \<in> set qs. \<exists>body. gq_web q url = Fetched 200 (Inr body)
        \<and> parseJWKS (gq_now' q) (rc_KeyTTL c) body = Inr e))"

lemma jwks_fetch_Inr:
  "jwks_fetch now ttl url f = Inr e \<longleftrightarrow> (\<exists>body. f = Fetched 200 (Inr body) \<and> parseJWKS now ttl body = Inr e)"
  by (auto simp: jwks_fetch_def split: fetched.splits sum.splits if_splits)

lemma PublicKey_cases:
  "PublicKey now' ttl web url kid keys = (res, keys') \<Longrightarrow>
     (keys' = keys \<and> (\<exists>e. keys url = Some e \<and> now' < je_expiresAt e \<and> res = entry_lookup e kid))
     \<or> (\<exists>e. jwks_fetch now' ttl url (web url) = Inr e \<and> keys' = keys(url \<mapsto> e) \<and> res = entry_lookup e kid)
     \<or> (keys' = keys \<and> (\<exists>er. res = Inl er))"
  by (auto simp: PublicKey_def split: option.splits sum.splits if_splits)

lemma keys_from_step:
  assumes "keys_from c qs (rg_keys g)"
  shows "keys_from c (qs @ [q]) (rg_keys (snd (gate_step J c q g)))"
proof (cases "peekToken J (extractBearerToken (gq_auth q))")
  case (Inl e)
  then show ?thesis using assms by (auto simp: gate_step_keys keys_from_def)
next
  case (Inr p)
  obtain kid cl where p: "p = (kid, cl)" by (cases p)
  define r where "r = PublicKey (gq_now' q) (rc_KeyTTL c) (gq_web q) (DeriveJWKSURL (rn_Iss cl)) kid (rg_keys g)"
  have k: "rg_keys (snd (gate_step J c q g)) = snd r" by (simp add: gate_step_keys Inr p r_def)
  have old: "\<exists>q' \<in> set (qs @ [q]). \<exists>body. gq_web q' url = Fetched 200 (Inr body)
      \<and> parseJWKS (gq_now' q') (rc_KeyTTL c) body = Inr e" if "rg_keys g url = Some e" for url e
    using assms that unfolding keys_from_def set_append by blast
  from PublicKey_cases [of "gq_now' q" "rc_KeyTTL c" "gq_web q" "DeriveJWKSURL (rn_Iss cl)" kid "rg_keys g" "fst r" "snd r"]
  consider "snd r = rg_keys g"
    | e where "jwks_fetch (gq_now' q) (rc_KeyTTL c) (DeriveJWKSURL (rn_Iss cl)) (gq_web q (DeriveJWKSURL (rn_Iss cl))) = Inr e"
        "snd r = (rg_keys g)(DeriveJWKSURL (rn_Iss cl) \<mapsto> e)"
    unfolding r_def prod.collapse by blast
  then show ?thesis
  proof cases
    case 1
    then show ?thesis unfolding k keys_from_def using old by simp
  next
    case (2 e)
    show ?thesis
      unfolding k 2(2) keys_from_def
    proof (intro allI impI)
      fix url e'
      assume u: "((rg_keys g)(DeriveJWKSURL (rn_Iss cl) \<mapsto> e)) url = Some e'"
      show "\<exists>q' \<in> set (qs @ [q]). \<exists>body. gq_web q' url = Fetched 200 (Inr body)
          \<and> parseJWKS (gq_now' q') (rc_KeyTTL c) body = Inr e'"
      proof (cases "url = DeriveJWKSURL (rn_Iss cl)")
        case True
        then show ?thesis using 2(1) u unfolding jwks_fetch_Inr by auto
      next
        case False
        then show ?thesis using old u by simp
      qed
    qed
  qed
qed

lemma keys_from_run: "keys_from c qs (rg_keys (snd (gate_run J c qs newRunnerGate)))"
proof (induction qs rule: rev_induct)
  case Nil
  then show ?case by (simp add: keys_from_def newRunnerGate_def)
next
  case (snoc q qs)
  then show ?case using keys_from_step [of c qs "snd (gate_run J c qs newRunnerGate)" q J]
    by (simp add: gate_run_snoc split_beta)
qed

lemma parseJWKS_expiry: "parseJWKS now ttl body = Inr e \<Longrightarrow> je_expiresAt e = now + ttl"
  by (auto simp: parseJWKS_def res_bind_def split: sum.splits if_splits prod.splits option.splits)

text \<open>A good token is signed by a key its issuer published, in a document at most as old as the key cache allows.\<close>

lemma token_good_source:
  assumes "keys_from c qs keys" "token_good J c q keys sub"
  shows "\<exists>kid cl pub claims body e. \<exists>q' \<in> set (qs @ [q]). peekToken J (extractBearerToken (gq_auth q)) = Inr (kid, cl)
    \<and> gq_web q' (DeriveJWKSURL (rn_Iss cl)) = Fetched 200 (Inr body)
    \<and> parseJWKS (gq_now' q') (rc_KeyTTL c) body = Inr e \<and> entry_lookup e kid = Inr pub
    \<and> VerifyJWS J (Some pub) (extractBearerToken (gq_auth q)) = Inr claims
    \<and> (q' = q \<or> gq_now' q < gq_now' q' + rc_KeyTTL c)"
proof -
  obtain kid cl pub claims where t: "peekToken J (extractBearerToken (gq_auth q)) = Inr (kid, cl)"
    "fst (PublicKey (gq_now' q) (rc_KeyTTL c) (gq_web q) (DeriveJWKSURL (rn_Iss cl)) kid keys) = Inr pub"
    "VerifyJWS J (Some pub) (extractBearerToken (gq_auth q)) = Inr claims"
    using assms(2) unfolding token_good_def by blast
  obtain keys' where pk: "PublicKey (gq_now' q) (rc_KeyTTL c) (gq_web q) (DeriveJWKSURL (rn_Iss cl)) kid keys = (Inr pub, keys')"
    using t(2) by (metis prod.collapse)
  from PublicKey_cases [OF pk] show ?thesis
  proof (elim disjE exE conjE)
    fix e
    assume e: "keys (DeriveJWKSURL (rn_Iss cl)) = Some e" "gq_now' q < je_expiresAt e" "Inr pub = entry_lookup e kid"
    then obtain q' body where "q' \<in> set qs" "gq_web q' (DeriveJWKSURL (rn_Iss cl)) = Fetched 200 (Inr body)"
      "parseJWKS (gq_now' q') (rc_KeyTTL c) body = Inr e"
      using assms(1) unfolding keys_from_def by metis
    with e t parseJWKS_expiry [OF this(3)] show ?thesis by (metis Un_iff set_append)
  next
    fix e
    assume "jwks_fetch (gq_now' q) (rc_KeyTTL c) (DeriveJWKSURL (rn_Iss cl)) (gq_web q (DeriveJWKSURL (rn_Iss cl))) = Inr e"
      "Inr pub = entry_lookup e kid"
    with t show ?thesis unfolding jwks_fetch_Inr by (metis in_set_conv_decomp)
  qed simp
qed

section \<open>Properties\<close>

text \<open>C39: After any history of requests, a request is admitted exactly when its token is good and its jti was
  not admitted less than the window ago. A good token was verified with a key from a document its issuer
  published, fetched for this request or within the life of the key cache, is addressed to this runner, and
  is not past a positive expiry.\<close>

theorem runner_gate_exact:
  fixes J :: "'k jose"
  assumes "0 < rc_JTITTL c" "sorted (map gq_now (qs @ [q]))"
  defines "rs \<equiv> fst (gate_run J c qs newRunnerGate)" and "g \<equiv> snd (gate_run J c qs newRunnerGate)"
  shows "(fst (gate_step J c q g) = Inr sub \<longleftrightarrow> token_good J c q (rg_keys g) sub
       \<and> (\<forall>t. (token_jti J q, t) \<in> set (admissions J qs rs) \<longrightarrow> rc_JTITTL c \<le> gq_now q - t))
    \<and> (token_good J c q (rg_keys g) sub \<longrightarrow>
       (\<exists>kid cl pub claims body e. \<exists>q' \<in> set (qs @ [q]). peekToken J (extractBearerToken (gq_auth q)) = Inr (kid, cl)
          \<and> gq_web q' (DeriveJWKSURL (rn_Iss cl)) = Fetched 200 (Inr body)
          \<and> parseJWKS (gq_now' q') (rc_KeyTTL c) body = Inr e \<and> entry_lookup e kid = Inr pub
          \<and> VerifyJWS J (Some pub) (extractBearerToken (gq_auth q)) = Inr claims
          \<and> (q' = q \<or> gq_now' q < gq_now' q' + rc_KeyTTL c)))"
proof -
  have le: "\<forall>x \<in> set qs. gq_now x \<le> gq_now q" and srt: "sorted (map gq_now qs)"
    using assms(2) by (auto simp: sorted_append)
  have inv: "jti_inv (rc_JTITTL c) (gq_now q) (admissions J qs rs) (rg_jti g)"
    unfolding rs_def g_def by (rule gate_run_inv [OF assms(1) srt le])
  have past: "\<forall>(j, t) \<in> set (admissions J qs rs). t \<le> gq_now q"
    using le by (auto dest: admissions_times)
  have as: "sorted (map snd (admissions J qs rs))"
    by (rule admissions_sorted [OF srt]) (simp add: rs_def)
  have seen: "fst (observeAndCheck (rc_JTITTL c) (token_jti J q) (gq_now q) (rg_jti g)) \<longleftrightarrow>
      (\<forall>t. (token_jti J q, t) \<in> set (admissions J qs rs) \<longrightarrow> rc_JTITTL c \<le> gq_now q - t)"
    unfolding observe_spec [OF inv assms(1) past, THEN conjunct1]
    using last_admission_latest [OF as] last_admission_in [of "admissions J qs rs"] by fastforce
  have 1: "fst (gate_step J c q g) = Inr sub \<longleftrightarrow> token_good J c q (rg_keys g) sub
       \<and> fst (observeAndCheck (rc_JTITTL c) (token_jti J q) (gq_now q) (rg_jti g))"
  proof (cases "\<exists>s. token_good J c q (rg_keys g) s")
    case True
    with gate_step_cases [of J c q g] obtain s where s: "token_good J c q (rg_keys g) s"
      "fst (gate_step J c q g) = (if fst (observeAndCheck (rc_JTITTL c) (token_jti J q) (gq_now q) (rg_jti g)) then Inr s
         else Inl (''jwt: jti '' @ quote (token_jti J q) @ '' replay''))"
      "\<forall>s'. token_good J c q (rg_keys g) s' \<longrightarrow> s' = s"
      by metis
    have "token_good J c q (rg_keys g) sub \<longleftrightarrow> s = sub" using s(1,3) by blast
    then show ?thesis
      unfolding s(2)
      by (cases "fst (observeAndCheck (rc_JTITTL c) (token_jti J q) (gq_now q) (rg_jti g))")
        (simp_all only: if_True if_False sum.inject sum.distinct simp_thms)
  next
    case False
    with gate_step_cases [of J c q g] show ?thesis by metis
  qed
  have 2: "keys_from c qs (rg_keys g)" unfolding g_def by (rule keys_from_run)
  show ?thesis
    by (rule conjI) (simp only: 1 seen, rule impI, rule token_good_source [OF 2])
qed

text \<open>C39 on two requests with the same token, half the window apart: the second is a replay.\<close>

definition demo_runner :: runner_config where
  "demo_runner = \<lparr>rc_RunnerSID = ''r'', rc_JTITTL = 60, rc_KeyTTL = 100\<rparr>"

definition demo_runner_claims :: "(string \<times> json) list" where
  "demo_runner_claims = [(''iss'', JStr ''d''), (''aud'', JStr ''runner://r''), (''sub'', JStr ''s''), (''jti'', JStr ''j''), (''iat'', JNum 7)]"

definition demo_request :: "time \<Rightarrow> gate_request" where
  "demo_request t = \<lparr>
     gq_auth = ''Bearer '' @ jose_token (demo_jose demo_runner_claims) ''k'' demo_runner_claims (7, 1),
     gq_web = (\<lambda>_. Fetched 200 (Inr (RawJson (jwks_json [(''k'', (7, 7))])))), gq_now = t, gq_now' = t\<rparr>"

lemma token_no_space: "c \<in> set (jose_token J kid claims p) \<Longrightarrow> \<not> is_space c"
  using b64_no_space by (auto simp: jose_token_def signing_input_def is_space_def)

lemma trim_space_id: "(\<And>c. c \<in> set s \<Longrightarrow> \<not> is_space c) \<Longrightarrow> trim_space s = s"
  unfolding trim_space_def by (metis dropWhile_eq_self_iff hd_in_set rev_is_Nil_conv rev_rev_ident set_rev)

lemma bearer_token [simp]: "extractBearerToken (''Bearer '' @ jose_token J kid claims p) = jose_token J kid claims p"
proof -
  have "cut_at CHR '' '' (''Bearer'' @ CHR '' '' # jose_token J kid claims p) = Some (''Bearer'', jose_token J kid claims p)"
    by (rule cut_at_append) simp
  then show ?thesis
    by (simp add: extractBearerToken_def trim_space_id [OF token_no_space])
qed

lemma peek_token:
  assumes "reads_back J (jose_header kid)" "reads_back J (JObj claims)"
    "dec_runner_claims (JObj claims) = Inr cl" "rn_Iss cl \<noteq> []"
  shows "peekToken J (jose_token J kid claims p) = Inr (kid, cl)"
proof -
  have "dec_runner_header (jose_header kid) = Inr kid"
    by (simp add: dec_runner_header_def jose_header_def get_str_def jget_def fold_eq_eval go_string)
  then show ?thesis
    using assms unfolding peekToken_def jose_token_def signing_input_def append_assoc split_token reads_back_def
    by (simp add: res_wrap_def unmarshal_def)
qed

lemma PublicKey_fetched:
  assumes "keys url = None" "web url = Fetched 200 (Inr (RawJson (jwks_json ks)))"
    "distinct (map fst ks)" "[] \<notin> fst ` set ks" "kid \<noteq> []"
  shows "fst (PublicKey now' ttl web url kid keys) = Inr pub \<longleftrightarrow> map_of ks kid = Some pub"
proof (cases "ks = []")
  case True
  have "parseJWKS now' ttl (RawJson (jwks_json [])) = Inl ''jwks parse: no keys in document''"
    by (simp add: parseJWKS_def unmarshal_def res_wrap_def)
  then show ?thesis using assms True by (simp add: PublicKey_def jwks_fetch_def)
next
  case False
  then show ?thesis
    using parse_published [OF False assms(3,4), of now' ttl] assms
    by (auto simp: PublicKey_def jwks_fetch_def entry_lookup_def split: option.splits)
qed

text \<open>A request that carries a token, answered by an issuer that publishes some keys.\<close>

lemma token_good_fetched:
  assumes q: "gq_auth q = ''Bearer '' @ jose_token J kid claims p"
    and J: "reads_back J (jose_header kid)" "reads_back J (JObj claims)"
    and cl: "dec_runner_claims (JObj claims) = Inr cl" "rn_Iss cl \<noteq> []"
    and web: "keys (DeriveJWKSURL (rn_Iss cl)) = None"
      "gq_web q (DeriveJWKSURL (rn_Iss cl)) = Fetched 200 (Inr (RawJson (jwks_json ks)))"
      "distinct (map fst ks)" "[] \<notin> fst ` set ks" "kid \<noteq> []"
  shows "token_good J c q keys sub \<longleftrightarrow> claimFault c (gq_now q) cl = None \<and> sub = rn_Sub cl
    \<and> (\<exists>pub cl'. map_of ks kid = Some pub \<and> VerifyJWS J (Some pub) (jose_token J kid claims p) = Inr cl')"
  unfolding token_good_def claimFault_None q bearer_token
  using peek_token [OF J cl] PublicKey_fetched [where keys = keys and url = "DeriveJWKSURL (rn_Iss cl)" and web = "gq_web q" and ks = ks and kid = kid, OF web]
  by auto

lemma first_request:
  assumes "token_good J c q (rg_keys newRunnerGate) sub"
  shows "fst (gate_step J c q newRunnerGate) = Inr sub"
proof -
  have "fst (observeAndCheck (rc_JTITTL c) (token_jti J q) (gq_now q) (rg_jti newRunnerGate))"
    by (simp add: observeAndCheck_def newRunnerGate_def new_jti_cache_def Let_def)
  moreover obtain s where "fst (gate_step J c q newRunnerGate) =
      (if fst (observeAndCheck (rc_JTITTL c) (token_jti J q) (gq_now q) (rg_jti newRunnerGate)) then Inr s
       else Inl (''jwt: jti '' @ quote (token_jti J q) @ '' replay''))"
    "token_good J c q (rg_keys newRunnerGate) sub \<longrightarrow> sub = s"
    using assms gate_step_cases [of J c q newRunnerGate] by metis
  ultimately show ?thesis using assms by simp
qed

lemma demo_runner_facts:
  "jlookup ''kid'' demo_runner_claims = None" "map_of demo_runner_claims ''iat'' \<noteq> None"
  "with_iat t demo_runner_claims = demo_runner_claims"
  "dec_runner_claims (JObj demo_runner_claims) =
     Inr \<lparr>rn_Iss = ''d'', rn_Aud = Some (JStr ''runner://r''), rn_Sub = ''s'', rn_Exp = 0, rn_JTI = ''j''\<rparr>"
  by (simp_all add: demo_runner_claims_def fold_eq_eval go_string with_iat_def dec_runner_claims_def
      get_str_def get_int64_def get_int_def jget_def)

lemma demo_runner_good:
  "token_good (demo_jose demo_runner_claims) demo_runner (demo_request t) (\<lambda>_. None) ''s''"
proof -
  note ok = demo_runner_facts(1,2)
  note dec = demo_runner_facts(4)
  have rb: "reads_back (demo_jose demo_runner_claims) (JObj demo_runner_claims)"
    using demo_jose_ok(3) [OF ok] by (simp add: demo_runner_facts(3))
  have ver: "VerifyJWS (demo_jose demo_runner_claims) (Some (7, 7)) (jose_token (demo_jose demo_runner_claims) ''k'' demo_runner_claims (7, 1))
      = Inr demo_runner_claims"
    by (subst verify_token) (use rb demo_jose_ok(2) [OF ok] in \<open>simp_all add: demo_jose_def\<close>)
  have fetched: "gq_web (demo_request t) url = Fetched 200 (Inr (RawJson (jwks_json [(''k'', (7, 7))])))" for url
    by (simp add: demo_request_def)
  show ?thesis
    by (subst token_good_fetched [OF _ demo_jose_ok(2) [OF ok, rule_format] rb dec _ _ fetched, where kid = "''k''" and p = "(7, 1)"])
      (simp_all del: One_nat_def add: demo_request_def ver claimFault_None audienceMatches_def demo_runner_def)
qed

lemma runner_gate_exact_witness:
  "\<exists>r. fst (gate_run (demo_jose demo_runner_claims) demo_runner [demo_request 1000] newRunnerGate) = [Inr ''s'']
     \<and> fst (gate_step (demo_jose demo_runner_claims) demo_runner (demo_request 1030)
          (snd (gate_run (demo_jose demo_runner_claims) demo_runner [demo_request 1000] newRunnerGate))) = r
     \<and> r \<noteq> Inr ''s''"
proof -
  let ?J = "demo_jose demo_runner_claims"
  have one: "fst (gate_step ?J demo_runner (demo_request 1000) newRunnerGate) = Inr ''s''"
    by (rule first_request) (simp add: newRunnerGate_def demo_runner_good)
  have run: "fst (gate_run ?J demo_runner [demo_request 1000] newRunnerGate) = [Inr ''s'']"
    using one by (simp add: split_beta)
  have jti: "token_jti ?J (demo_request t) = token_jti ?J (demo_request 1000)" for t
    by (simp add: token_jti_def demo_request_def)
  have "(token_jti ?J (demo_request 1030), 1000) \<in> set (admissions ?J [demo_request 1000] [Inr ''s''])"
    unfolding jti [of 1030] by (simp add: admissions_def) (simp add: demo_request_def)
  moreover have "0 < rc_JTITTL demo_runner" "sorted (map gq_now ([demo_request 1000] @ [demo_request 1030]))"
    by (simp_all add: demo_runner_def demo_request_def)
  ultimately have "fst (gate_step ?J demo_runner (demo_request 1030)
      (snd (gate_run ?J demo_runner [demo_request 1000] newRunnerGate))) \<noteq> Inr ''s''"
    using runner_gate_exact [of demo_runner "[demo_request 1000]" "demo_request 1030" ?J "''s''"]
    unfolding run by (auto simp: demo_runner_def demo_request_def)
  with run show ?thesis by blast
qed

text \<open>A runner that fetches the daemon's key document admits a token of the daemon, made out to it with a
  replay identifier and not expired, exactly when no attempt to rotate the keys came after the overlap window
  of the first attempt since the token was signed. The clock does not matter, so a runner still admits
  tokens the daemon's own check (\<open>Verify\<close>) refuses.\<close>

theorem runner_follows_document:
  assumes J: "ecdsa_ok J" "\<forall>kid. reads_back J (jose_header kid)" "reads_back J (JObj (with_iat t claims))"
    and times: "key_times (h @ later)" "h \<noteq> []"
    and signed: "ks_Sign J seed t claims (fst (attempts J h (empty_store ov rows))) = Inr token"
    and document: "ks_JWKS J (fst (attempts J (h @ later) (empty_store ov rows))) = Inr doc"
    and cl: "dec_runner_claims (JObj (with_iat t claims)) = Inr cl" "rn_Iss cl \<noteq> []" "claimFault c (gq_now q) cl = None"
    and q: "gq_auth q = ''Bearer '' @ token" "gq_web q (DeriveJWKSURL (rn_Iss cl)) = Fetched 200 (Inr (RawJson doc))"
  shows "if later = [] \<or> at_now (last later) - at_now (hd later) \<le> ov
     then fst (gate_step J c q newRunnerGate) = Inr (rn_Sub cl)
     else \<exists>e. fst (gate_step J c q newRunnerGate) = Inl e"
proof -
  have ht: "key_times h" "h @ later \<noteq> []" using key_times_append [OF times(1)] times(2) by auto
  obtain k pem r s where mint: "minted J (last h) = Some (k, pem)"
    and tok: "token = jose_token J (minted_kid (at_now (last h))) (with_iat t claims) (r, s)"
    and sig: "js_sign J k (signing_input J (minted_kid (at_now (last h))) (with_iat t claims)) seed = Inr (r, s)"
    by (rule token_of_store [OF ht(1) times(2) signed])
  let ?ks = "published_after J ov (h @ later)"
  have doc: "doc = jwks_json ?ks" using document JWKS_after [OF times(1) ht(2), of J ov rows] by simp
  have good: "token_good J c q (rg_keys newRunnerGate) sub \<longleftrightarrow> sub = rn_Sub cl
      \<and> (\<exists>pub cl'. map_of ?ks (minted_kid (at_now (last h))) = Some pub \<and> VerifyJWS J (Some pub) token = Inr cl')" for sub
    using token_good_fetched [OF q(1) [unfolded tok] J(2) [rule_format] J(3) cl(1,2), of "rg_keys newRunnerGate" ?ks c sub]
      published_after_distinct [OF times(1), of J ov] q(2) cl(3) doc
    by (simp add: newRunnerGate_def tok minted_kid_def)
  have "VerifyJWS J (Some (js_pub J k)) token = Inr (with_iat t claims)"
    unfolding tok by (rule verify_signed [OF J sig])
  then have "token_good J c q (rg_keys newRunnerGate) sub \<longleftrightarrow> sub = rn_Sub cl
      \<and> (later = [] \<or> at_now (last later) - at_now (hd later) \<le> ov)" for sub
    unfolding good published_after_key [OF times mint] by (cases "js_pub J k") auto
  then show ?thesis
    using first_request [of J c q "rn_Sub cl"] gate_step_cases [of J c q newRunnerGate]
    by (cases "fst (gate_step J c q newRunnerGate)") auto
qed

text \<open>On the keys minted at 10 and 20 with a window of 5: a token of the first key is still admitted at 1000.\<close>

definition demo_late :: "string \<Rightarrow> gate_request" where
  "demo_late token = \<lparr>gq_auth = ''Bearer '' @ token,
     gq_web = (\<lambda>_. Fetched 200 (Inr (RawJson (jwks_json
        (published_after (demo_jose demo_runner_claims) 5 [demo_attempt 10 1, demo_attempt 20 2]))))),
     gq_now = 1000, gq_now' = 1000\<rparr>"

lemma runner_follows_document_witness:
  "\<exists>token. ks_Sign (demo_jose demo_runner_claims) [] 12 demo_runner_claims
       (fst (attempts (demo_jose demo_runner_claims) [demo_attempt 10 1] (empty_store 5 no_rows))) = Inr token
     \<and> fst (gate_step (demo_jose demo_runner_claims) demo_runner (demo_late token) newRunnerGate) = Inr ''s''"
proof -
  let ?J = "demo_jose demo_runner_claims"
  let ?h = "[demo_attempt 10 1]" let ?later = "[demo_attempt 20 2]"
  obtain token where t: "ks_Sign ?J [] 12 demo_runner_claims (fst (attempts ?J ?h (empty_store 5 no_rows))) = Inr token"
    using demo_signs by blast
  have times: "key_times (?h @ ?later)" "?h \<noteq> []" using demo_times by simp_all
  have doc: "ks_JWKS ?J (fst (attempts ?J (?h @ ?later) (empty_store 5 no_rows))) =
      Inr (jwks_json (published_after ?J 5 (?h @ ?later)))"
    by (rule JWKS_after [OF times(1)]) simp
  have fault: "claimFault demo_runner (gq_now (demo_late token))
      \<lparr>rn_Iss = ''d'', rn_Aud = Some (JStr ''runner://r''), rn_Sub = ''s'', rn_Exp = 0, rn_JTI = ''j''\<rparr> = None"
    by (simp add: claimFault_None audienceMatches_def demo_runner_def)
  have "fst (gate_step ?J demo_runner (demo_late token) newRunnerGate) = Inr ''s''"
    using runner_follows_document [OF demo_jose_ok [OF demo_runner_facts(1,2)] times t doc _ _ fault]
    by (simp add: demo_runner_facts(3,4) demo_late_def)
  with t show ?thesis by blast
qed

end
