(* ===== verification/Validators.thy ===== *)
theory Validators
  imports Runner_Auth Deliverer "HOL-Library.Word"
begin

text \<open>
  The token validators of \<open>internal/auth/validators.go\<close> and the middleware that asks one of them
  (\<open>internal/a2a/routes.go\<close>). A validator takes the state it keeps and returns the subject or an error with
  the new state; the key loader, the answer of the introspection endpoint, HMAC-SHA256 and the secret
  store are arguments. The hand-written \<open>int64\<close> parser wraps around, so it is a function on 64-bit words.
\<close>

type_synonym 's validator = "string \<Rightarrow> 's \<Rightarrow> string result \<times> 's"

section \<open>Trying validators in turn\<close>

fun multi_loop :: "'s validator list \<Rightarrow> string \<Rightarrow> go_error option \<Rightarrow> 's \<Rightarrow> string result \<times> 's" where
  "multi_loop [] token lastErr s =
     (Inl (case lastErr of None \<Rightarrow> ''no validator accepted the token'' | Some e \<Rightarrow> e), s)"
| "multi_loop (v # vs) token lastErr s =
     (case v token s of
        (Inr subject, s') \<Rightarrow> if subject \<noteq> [] then (Inr subject, s') else multi_loop vs token lastErr s'
      | (Inl e, s') \<Rightarrow> multi_loop vs token (Some e) s')"

definition MultiValidate :: "'s validator list \<Rightarrow> 's validator" where
  "MultiValidate vs token s = multi_loop vs token None s"

section \<open>Trusted peers\<close>

record trust_claims =
  tc_Iss :: string
  tc_Sub :: string
  tc_Exp :: int
  tc_Nbf :: int

definition dec_trust_claims :: "json \<Rightarrow> trust_claims result" where
  "dec_trust_claims v = res_bind (struct_ok ''struct'' v) (\<lambda>j.
     res_bind (get_str ''iss'' j) (\<lambda>iss. res_bind (get_str ''sub'' j) (\<lambda>sub.
     res_bind (get_int64 ''exp'' j) (\<lambda>exp. res_bind (get_int64 ''nbf'' j) (\<lambda>nbf.
     Inr \<lparr>tc_Iss = iss, tc_Sub = sub, tc_Exp = exp, tc_Nbf = nbf\<rparr>)))))"

text \<open>\<open>loader\<close> is the peer's key document; \<open>now\<close> is in seconds since the epoch.\<close>

definition TrustListValidate ::
    "'k jose \<Rightarrow> (string \<Rightarrow> raw result) option \<Rightarrow> string list \<Rightarrow> int \<Rightarrow> string \<Rightarrow> string result" where
  "TrustListValidate J loader trusted now token =
     (case loader of
        None \<Rightarrow> Inl ''TrustListValidator: nil PeerJWKLoader''
      | Some load \<Rightarrow>
          (case split_on CHR ''.'' token of
             [h, c, s] \<Rightarrow>
               res_bind (res_wrap ''TrustListValidator: claims decode: '' (b64_decode c)) (\<lambda>cb.
               res_bind (res_wrap ''TrustListValidator: claims parse: '' (unmarshal dec_trust_claims (js_parse J cb))) (\<lambda>cl.
               if tc_Iss cl = [] then Inl ''TrustListValidator: missing iss claim''
               else if tc_Iss cl \<notin> set trusted
               then Inl (''TrustListValidator: issuer '' @ quote (tc_Iss cl) @ '' not in trust list'')
               else
               res_bind (res_wrap (''TrustListValidator: load peer '' @ quote (tc_Iss cl) @ '' JWKS: '') (load (tc_Iss cl))) (\<lambda>body.
               res_bind (res_wrap ''TrustListValidator: parse peer JWKS: '' (parseFirstECKey body)) (\<lambda>pub.
               res_bind (res_wrap ''TrustListValidator: verify: '' (VerifyJWS J (Some pub) token)) (\<lambda>_.
               if tc_Exp cl \<noteq> 0 \<and> now > tc_Exp cl then Inl ''TrustListValidator: token expired''
               else if tc_Nbf cl \<noteq> 0 \<and> now < tc_Nbf cl then Inl ''TrustListValidator: token not yet valid''
               else if tc_Sub cl = [] then Inr (tc_Iss cl) else Inr (tc_Sub cl))))))
           | _ \<Rightarrow> Inl ''TrustListValidator: not a JWS''))"

section \<open>Client certificates\<close>

definition MTLSValidate :: "string list \<Rightarrow> string \<Rightarrow> string result" where
  "MTLSValidate accepted token =
     (if \<not> has_prefix ''mTLS '' token then Inl ''MTLSValidator: token not in `mTLS <subject>` form''
      else let subject = trim_space (trim_prefix ''mTLS '' token) in
        if subject = [] then Inl ''MTLSValidator: empty subject after mTLS prefix''
        else if subject \<notin> set accepted
        then Inl (''MTLSValidator: subject '' @ quote subject @ '' not in accepted list'')
        else Inr (''mtls:'' @ subject))"

section \<open>OAuth2\<close>

text \<open>The introspection endpoint's answer: a failure before the reply, or a status and a body.\<close>

definition introspect :: "(int \<times> raw) result \<Rightarrow> string result" where
  "introspect reply =
     res_bind reply (\<lambda>(status, body).
       if status \<noteq> 200 then Inl (''OAuth2Validator: introspect HTTP '' @ show_int status)
       else res_bind (res_wrap ''OAuth2Validator: decode introspect: ''
              (unmarshal (\<lambda>v. res_bind (struct_ok ''struct'' v) (\<lambda>j.
                 res_bind (case jget ''active'' j of None \<Rightarrow> Inr False | Some (JBool b) \<Rightarrow> Inr b
                           | Some w \<Rightarrow> Inl (mismatch w ''bool'')) (\<lambda>active.
                 res_bind (get_str ''sub'' j) (\<lambda>sub. Inr (active, sub))))) body))
              (\<lambda>(active, sub).
                 if \<not> active then Inl ''OAuth2Validator: token not active''
                 else if sub = [] then Inr ''oauth2:anonymous'' else Inr (''oauth2:'' @ sub)))"

text \<open>\<open>v = v*10 + int64(c-'0')\<close> on an \<open>int64\<close>; any other byte is an error.\<close>

fun atoi_loop :: "string \<Rightarrow> 64 word \<Rightarrow> 64 word option" where
  "atoi_loop [] v = Some v"
| "atoi_loop (c # cs) v =
     (if is_digit c then atoi_loop cs (v * 10 + of_nat (digit_value c)) else None)"

definition strconvAtoiInt64 :: "string \<Rightarrow> int option" where
  "strconvAtoiInt64 s = map_option sint (atoi_loop s 0)"

definition verifyHMAC :: "(string \<Rightarrow> string \<Rightarrow> string) \<Rightarrow> string \<Rightarrow> int \<Rightarrow> string \<Rightarrow> string result" where
  "verifyHMAC hmac secret now token =
     (case split_on CHR ''.'' token of
        [p, q, r] \<Rightarrow>
          res_bind (b64_decode p) (\<lambda>sub. res_bind (b64_decode q) (\<lambda>expBytes. res_bind (b64_decode r) (\<lambda>sigGot.
          if sigGot \<noteq> hmac secret (sub @ ''|'' @ expBytes) then Inl ''OAuth2Validator: HMAC signature mismatch''
          else case strconvAtoiInt64 expBytes of
            Some exp \<Rightarrow> if exp \<noteq> 0 \<and> now > exp then Inl ''OAuth2Validator: HMAC token expired''
                        else Inr (''oauth2:'' @ sub)
          | None \<Rightarrow> Inr (''oauth2:'' @ sub))))
      | _ \<Rightarrow> Inl ''OAuth2Validator: HMAC token not 3 parts'')"

definition OAuth2Validate ::
    "(string \<Rightarrow> string \<Rightarrow> string) \<Rightarrow> string \<Rightarrow> string \<Rightarrow> (string \<Rightarrow> (int \<times> raw) result) \<Rightarrow> int \<Rightarrow> string \<Rightarrow> string result" where
  "OAuth2Validate hmac introspectURL secret endpoint now token =
     (if introspectURL \<noteq> [] then introspect (endpoint token)
      else if secret \<noteq> [] then verifyHMAC hmac secret now token
      else Inl ''OAuth2Validator: neither IntrospectURL nor HMACSecret configured'')"

section \<open>API keys\<close>

text \<open>The secret store as the validator sees it: the bytes under a purpose, an absent row being an error.\<close>

type_synonym secret_store = "string \<Rightarrow> raw option"

record api_cache_entry =
  ac_subject :: string
  ac_loadedAt :: time

type_synonym api_cache = "string \<Rightarrow> api_cache_entry option"

definition api_lookup :: "go_error option \<Rightarrow> secret_store \<Rightarrow> string \<Rightarrow> string result" where
  "api_lookup gerr store token =
     (let purpose = ''apikey:'' @ token in
      res_bind (res_wrap ''APIKeyValidator: lookup: ''
        (case gerr of
           Some e \<Rightarrow> Inl (''sqlite auth_secrets Get '' @ quote purpose @ '': '' @ e)
         | None \<Rightarrow> (case store purpose of
                      None \<Rightarrow> Inl (''sqlite auth_secrets Get '' @ quote purpose @ '': not found'') | Some b \<Rightarrow> Inr b)))
        (\<lambda>b. res_bind (res_wrap ''APIKeyValidator: decode record: ''
           (unmarshal (\<lambda>v. res_bind (struct_ok ''auth.APIKeyRecord'' v) (\<lambda>j.
              res_bind (get_str ''sub'' j) (\<lambda>sub. res_bind (get_list dec_str ''scopes'' j) (\<lambda>_. Inr sub)))) b))
           (\<lambda>sub. if sub = [] then Inl ''APIKeyValidator: record missing sub'' else Inr (''apikey:'' @ sub))))"

text \<open>\<open>now\<close> is the reading of the cache check, \<open>now'\<close> the later one of the cache write.\<close>

definition APIKeyValidate ::
    "int \<Rightarrow> go_error option \<Rightarrow> secret_store \<Rightarrow> time \<Rightarrow> time \<Rightarrow> api_cache validator" where
  "APIKeyValidate cacheTTL gerr store now now' token cache =
     (let ttl = (if cacheTTL = 0 then 5 * minute else cacheTTL);
          miss = (case api_lookup gerr store token of
                    Inl e \<Rightarrow> (Inl e, cache)
                  | Inr subj \<Rightarrow> (Inr subj, cache(token := Some \<lparr>ac_subject = subj, ac_loadedAt = now'\<rparr>)))
      in case cache token of
           Some e \<Rightarrow> if now - ac_loadedAt e < ttl then (Inr (ac_subject e), cache) else miss
         | None \<Rightarrow> miss)"

section \<open>The middleware\<close>

datatype auth_reply = Unauthorized string | PassedOn string

definition AuthMiddleware :: "'s validator \<Rightarrow> string \<Rightarrow> 's \<Rightarrow> auth_reply \<times> 's" where
  "AuthMiddleware v auth s =
     (let token = extractBearerToken auth in
      if token = []
      then (Unauthorized
              ''authentication required: missing or malformed Authorization header (expected 'Bearer <token>')'', s)
      else case v token s of
             (Inl e, s') \<Rightarrow> (Unauthorized (''authentication failed: '' @ e), s')
           | (Inr subject, s') \<Rightarrow>
               if subject = [] then (Unauthorized ''authentication failed'', s') else (PassedOn subject, s'))"

text \<open>Nobody reaches the handler without a non-empty subject the validator vouched for.\<close>

lemma AuthMiddleware_passes:
  "AuthMiddleware v auth s = (PassedOn subject, s') \<longleftrightarrow>
     extractBearerToken auth \<noteq> [] \<and> subject \<noteq> [] \<and> v (extractBearerToken auth) s = (Inr subject, s')"
  by (auto simp: AuthMiddleware_def Let_def split: prod.splits sum.splits if_splits)

text \<open>The list accepts exactly what one of its validators accepts, the first in order.\<close>

lemma multi_loop_accepts:
  "(\<exists>s'. multi_loop vs token le s = (Inr subject, s')) \<Longrightarrow>
     subject \<noteq> [] \<and> (\<exists>v \<in> set vs. \<exists>t t'. v token t = (Inr subject, t'))"
  by (induction vs arbitrary: le s) (fastforce split: prod.splits sum.splits if_splits)+

text \<open>A header is all a client-certificate identity takes.\<close>

lemma mtls_header_suffices:
  assumes "subject \<in> set accepted" "subject \<noteq> []" "\<And>c. c \<in> set subject \<Longrightarrow> \<not> is_space c"
  shows "MTLSValidate accepted (''mTLS '' @ subject) = Inr (''mtls:'' @ subject)"
proof -
  have t: "trim_space subject = subject" by (rule trim_space_id [OF assms(3)])
  show ?thesis
    unfolding MTLSValidate_def trim_prefix_append Let_def t
    using assms(1,2) by (simp only: has_prefix_append simp_thms if_True if_False)
qed

section \<open>Expiry of shared-secret tokens\<close>

lemma atoi_loop_value:
  "atoi_loop s v = (if list_all is_digit s then Some (v * 10 ^ length s + of_nat (decimal_value s)) else None)"
proof (induction s arbitrary: v)
  case Nil
  then show ?case by (simp add: decimal_value_def)
next
  case (Cons c s)
  have "(v * 10 + of_nat (digit_value c)) * 10 ^ length s + of_nat (decimal_value s)
      = v * 10 ^ length (c # s) + (of_nat (decimal_value (c # s)) :: 64 word)"
    by (simp add: decimal_value_Cons algebra_simps)
  then show ?case using Cons.IH [of "v * 10 + of_nat (digit_value c)"] by simp
qed

lemma strconvAtoi_eq:
  "strconvAtoiInt64 s =
     (if list_all is_digit s then Some (sint (of_nat (decimal_value s) :: 64 word)) else None)"
  by (simp add: strconvAtoiInt64_def atoi_loop_value)

lemma digit_char_is_digit: "d < 10 \<Longrightarrow> is_digit (digit_char d)"
proof -
  have "list_all is_digit ''0123456789''" by code_simp
  then show "d < 10 \<Longrightarrow> is_digit (digit_char d)"
    unfolding digit_char_def list_all_length by simp
qed

lemma partIndex_digits: "list_all is_digit (partIndex n)"
proof -
  have "is_digit c" if "c \<in> set (partIndex_loop n [])" for c
    using partIndex_loop_digits [OF that] digit_char_is_digit by auto
  moreover have "is_digit CHR ''0''" by code_simp
  ultimately show ?thesis by (simp add: partIndex_def list_all_iff)
qed

text \<open>A token of the issuer: subject, expiry and the authentication code of both.\<close>

definition hmac_token :: "(string \<Rightarrow> string \<Rightarrow> string) \<Rightarrow> string \<Rightarrow> string \<Rightarrow> string \<Rightarrow> string" where
  "hmac_token hmac secret sub expiry =
     b64_encode sub @ ''.'' @ b64_encode expiry @ ''.'' @ b64_encode (hmac secret (sub @ ''|'' @ expiry))"

lemma verify_hmac_token:
  "verifyHMAC hmac secret now (b64_encode sub @ ''.'' @ b64_encode expiry @ ''.'' @ b64_encode mac) =
     (if mac \<noteq> hmac secret (sub @ ''|'' @ expiry) then Inl ''OAuth2Validator: HMAC signature mismatch''
      else if list_all is_digit expiry \<and> sint (of_nat (decimal_value expiry) :: 64 word) \<noteq> 0
        \<and> now > sint (of_nat (decimal_value expiry) :: 64 word)
      then Inl ''OAuth2Validator: HMAC token expired'' else Inr (''oauth2:'' @ sub))"
  unfolding verifyHMAC_def split_token by (simp add: strconvAtoi_eq)

definition wrap64 :: "nat \<Rightarrow> int" where
  "wrap64 n = (if n mod 2 ^ 64 < 2 ^ 63 then int (n mod 2 ^ 64) else int (n mod 2 ^ 64) - 2 ^ 64)"

lemma sint_of_nat: "sint (of_nat n :: 64 word) = wrap64 n"
proof -
  define k where "k = int (n mod 2 ^ 64)"
  have u: "uint (of_nat n :: 64 word) = k"
    unfolding k_def by (simp only: uint_nat unat_of_nat) simp
  have k: "0 \<le> k" "k < 2 ^ 64" by (simp_all add: k_def)
  have "sint (of_nat n :: 64 word) = (k + 2 ^ 63) mod 2 ^ 64 - 2 ^ 63"
    by (simp add: sint_uint u signed_take_bit_eq_take_bit_shift take_bit_eq_mod)
  also have "\<dots> = (if k < 2 ^ 63 then k else k - 2 ^ 64)"
  proof (cases "k < 2 ^ 63")
    case False
    then have "(k + 2 ^ 63) mod 2 ^ 64 = (k + 2 ^ 63) - 2 ^ 64"
      using k by (simp add: mod_pos_geq)
    then show ?thesis using False by simp
  qed (use k in simp)
  also have "\<dots> = wrap64 n" by (simp add: wrap64_def k_def)
  finally show ?thesis .
qed

text \<open>A shared-secret token issued with expiry n is accepted exactly until n for n below 2^63. Beyond, the
  number wraps: a token that should expire at 2^63 is expired from the start, and one for 2^64 never expires.
  The code covers subject and expiry joined by a bar, so a token of a subject with a bar in it, cut
  at that bar, is a token of the part before, and never expires.\<close>

theorem hmac_expiry:
  "verifyHMAC hmac secret now (hmac_token hmac secret sub (partIndex n)) =
     (if n mod 2 ^ 64 = 0 \<or> (n mod 2 ^ 64 < 2 ^ 63 \<and> now \<le> int (n mod 2 ^ 64))
        \<or> (2 ^ 63 \<le> n mod 2 ^ 64 \<and> now \<le> int (n mod 2 ^ 64) - 2 ^ 64)
      then Inr (''oauth2:'' @ sub) else Inl ''OAuth2Validator: HMAC token expired'')
   \<and> verifyHMAC hmac secret now
       (b64_encode u @ ''.'' @ b64_encode (x @ ''|'' @ expiry) @ ''.''
          @ b64_encode (hmac secret ((u @ ''|'' @ x) @ ''|'' @ expiry))) = Inr (''oauth2:'' @ u)"
proof -
  have e: "sint (of_nat n :: 64 word) = wrap64 n" by (rule sint_of_nat)
  have "wrap64 n \<noteq> 0 \<and> now > wrap64 n \<longleftrightarrow> \<not> (n mod 2 ^ 64 = 0 \<or> (n mod 2 ^ 64 < 2 ^ 63 \<and> now \<le> int (n mod 2 ^ 64))
        \<or> (2 ^ 63 \<le> n mod 2 ^ 64 \<and> now \<le> int (n mod 2 ^ 64) - 2 ^ 64))"
    unfolding wrap64_def by auto
  then have 1: "verifyHMAC hmac secret now (hmac_token hmac secret sub (partIndex n)) =
     (if n mod 2 ^ 64 = 0 \<or> (n mod 2 ^ 64 < 2 ^ 63 \<and> now \<le> int (n mod 2 ^ 64))
        \<or> (2 ^ 63 \<le> n mod 2 ^ 64 \<and> now \<le> int (n mod 2 ^ 64) - 2 ^ 64)
      then Inr (''oauth2:'' @ sub) else Inl ''OAuth2Validator: HMAC token expired'')"
    unfolding hmac_token_def verify_hmac_token by (simp only: partIndex_digits partIndex_value e simp_thms if_False) simp
  have bar: "\<not> list_all is_digit (x @ ''|'' @ expiry)" by (simp add: is_digit_def in_range_def)
  show ?thesis
    using 1 unfolding verify_hmac_token append_assoc by (simp only: bar simp_thms if_False)
qed

section \<open>Revocation of API keys\<close>

record api_request =
  aq_token :: string
  aq_gerr :: "go_error option"
  aq_store :: secret_store
  aq_now :: time
  aq_now' :: time

definition api_step :: "int \<Rightarrow> api_request \<Rightarrow> api_cache \<Rightarrow> string result \<times> api_cache" where
  "api_step ttl q cache = APIKeyValidate ttl (aq_gerr q) (aq_store q) (aq_now q) (aq_now' q) (aq_token q) cache"

definition api_run :: "int \<Rightarrow> api_request list \<Rightarrow> api_cache" where
  "api_run ttl qs = foldl (\<lambda>c q. snd (api_step ttl q c)) (\<lambda>_. None) qs"

lemma api_run_snoc [simp]: "api_run ttl (qs @ [q]) = snd (api_step ttl q (api_run ttl qs))"
  by (simp add: api_run_def)

definition effective_ttl :: "int \<Rightarrow> int" where
  "effective_ttl ttl = (if ttl = 0 then 5 * minute else ttl)"

lemma api_step_cases:
  "(\<exists>e. cache (aq_token q) = Some e \<and> aq_now q - ac_loadedAt e < effective_ttl ttl
      \<and> api_step ttl q cache = (Inr (ac_subject e), cache))
   \<or> (\<not> (\<exists>e. cache (aq_token q) = Some e \<and> aq_now q - ac_loadedAt e < effective_ttl ttl)
      \<and> fst (api_step ttl q cache) = api_lookup (aq_gerr q) (aq_store q) (aq_token q)
      \<and> snd (api_step ttl q cache) =
          (case api_lookup (aq_gerr q) (aq_store q) (aq_token q) of
             Inl _ \<Rightarrow> cache
           | Inr subj \<Rightarrow> cache(aq_token q \<mapsto> \<lparr>ac_subject = subj, ac_loadedAt = aq_now' q\<rparr>)))"
  by (auto simp: api_step_def APIKeyValidate_def effective_ttl_def Let_def split: option.splits sum.splits)

text \<open>Every cached entry was read from the store by a request of the run, at the instant it carries.\<close>

lemma api_run_entries:
  "api_run ttl qs token = Some e \<Longrightarrow> \<exists>q \<in> set qs. aq_token q = token \<and> aq_now' q = ac_loadedAt e
     \<and> api_lookup (aq_gerr q) (aq_store q) token = Inr (ac_subject e)"
proof (induction qs arbitrary: e rule: rev_induct)
  case Nil
  then show ?case by (simp add: api_run_def)
next
  case (snoc q qs)
  show ?case
  proof (cases "api_run ttl qs token = Some e")
    case True
    from snoc.IH [OF this] show ?thesis by auto
  next
    case False
    from api_step_cases [of "api_run ttl qs" q ttl] snoc.prems False
    show ?thesis by (auto split: sum.splits if_splits)
  qed
qed

text \<open>After any history, an API key is accepted with the subject the store had for it at this request, or
  at an earlier request for the same key less than the cache's life ago; and a key read less than that ago
  is accepted without asking the store, so a deleted key goes on working for up to that long, whatever the
  store now says.\<close>

theorem api_key_staleness:
  "(fst (api_step ttl q (api_run ttl qs)) = Inr subj \<longrightarrow>
      (\<exists>r \<in> set (qs @ [q]). aq_token r = aq_token q \<and> api_lookup (aq_gerr r) (aq_store r) (aq_token q) = Inr subj
         \<and> (r = q \<or> aq_now q - aq_now' r < effective_ttl ttl)))
   \<and> (fst (api_step ttl r (api_run ttl qs)) = Inr subj \<longrightarrow> api_run ttl qs (aq_token r) = None \<longrightarrow>
      aq_token q = aq_token r \<longrightarrow> aq_now q - aq_now' r < effective_ttl ttl \<longrightarrow>
      fst (api_step ttl q (api_run ttl (qs @ [r]))) = Inr subj)"
proof (intro conjI impI)
  assume acc: "fst (api_step ttl q (api_run ttl qs)) = Inr subj"
  from api_step_cases [of "api_run ttl qs" q ttl]
  show "\<exists>r \<in> set (qs @ [q]). aq_token r = aq_token q \<and> api_lookup (aq_gerr r) (aq_store r) (aq_token q) = Inr subj
         \<and> (r = q \<or> aq_now q - aq_now' r < effective_ttl ttl)"
  proof (elim disjE exE conjE)
    fix e
    assume e: "api_run ttl qs (aq_token q) = Some e" "aq_now q - ac_loadedAt e < effective_ttl ttl"
      "api_step ttl q (api_run ttl qs) = (Inr (ac_subject e), api_run ttl qs)"
    from api_run_entries [OF e(1)] obtain r where "r \<in> set qs" "aq_token r = aq_token q" "aq_now' r = ac_loadedAt e"
      "api_lookup (aq_gerr r) (aq_store r) (aq_token q) = Inr (ac_subject e)" by blast
    with e acc show ?thesis by auto
  qed (use acc in auto)
next
  assume r: "fst (api_step ttl r (api_run ttl qs)) = Inr subj" "api_run ttl qs (aq_token r) = None"
    and q: "aq_token q = aq_token r" "aq_now q - aq_now' r < effective_ttl ttl"
  from api_step_cases [of "api_run ttl qs" r ttl] r
  have "snd (api_step ttl r (api_run ttl qs)) = (api_run ttl qs)(aq_token r \<mapsto> \<lparr>ac_subject = subj, ac_loadedAt = aq_now' r\<rparr>)"
    by (auto split: sum.splits)
  with q api_step_cases [of "api_run ttl (qs @ [r])" q ttl]
  show "fst (api_step ttl q (api_run ttl (qs @ [r]))) = Inr subj" by auto
qed

text \<open>On a key deleted four minutes after it was used: the store no longer has it, and it is accepted.\<close>

definition demo_key :: "secret_store \<Rightarrow> time \<Rightarrow> api_request" where
  "demo_key store t = \<lparr>aq_token = ''k1'', aq_gerr = None, aq_store = store, aq_now = t, aq_now' = t\<rparr>"

definition demo_key_row :: secret_store where
  "demo_key_row = (\<lambda>p. if p = ''apikey:k1'' then Some (RawJson (JObj [(''sub'', JStr ''ann'')])) else None)"

lemma api_key_staleness_witness:
  "fst (api_step 0 (demo_key (\<lambda>_. None) (240 * second)) (api_run 0 [demo_key demo_key_row 0])) = Inr ''apikey:ann''
   \<and> (\<exists>e. api_lookup None (\<lambda>_. None) ''k1'' = Inl e)"
proof -
  have l: "api_lookup None demo_key_row ''k1'' = Inr ''apikey:ann''"
    by (simp add: api_lookup_def demo_key_row_def unmarshal_def res_wrap_def get_str_def get_list_def jget_def
        fold_eq_eval go_string)
  have "fst (api_step 0 (demo_key demo_key_row 0) (api_run 0 [])) = Inr ''apikey:ann''"
    using api_step_cases [of "api_run 0 []" "demo_key demo_key_row 0" 0]
    by (auto simp: api_run_def demo_key_def l)
  moreover have "effective_ttl 0 = 300 * second" by (simp add: effective_ttl_def time_units)
  ultimately have "fst (api_step 0 (demo_key (\<lambda>_. None) (240 * second)) (api_run 0 [demo_key demo_key_row 0])) = Inr ''apikey:ann''"
    using api_key_staleness [of 0 "demo_key (\<lambda>_. None) (240 * second)" "[]" "''apikey:ann''" "demo_key demo_key_row 0"]
    by (simp add: api_run_def demo_key_def second_def)
  then show ?thesis by (simp add: api_lookup_def res_wrap_def)
qed

section \<open>Rotation as a trusting peer sees it\<close>

lemma ledger_first:
  assumes "minted J a = Some (k, pem)" "\<forall>b \<in> set later. time_zero < at_now b"
  shows "\<exists>xs. key_ledger J (a # later) = fate later (minted_entry (at_now a) pem k) # xs"
  using assms(2)
proof (induction later rule: rev_induct)
  case Nil
  then show ?case using assms(1) by (simp add: mint_entries_def fate_def)
next
  case (snoc b later)
  then obtain xs where "key_ledger J (a # later) = fate later (minted_entry (at_now a) pem k) # xs" by auto
  moreover have "demote (at_now b) (fate later (minted_entry (at_now a) pem k)) =
      fate (later @ [b]) (minted_entry (at_now a) pem k)"
    using snoc.prems by (cases later) (simp_all add: fate_def demote_def Retired_def minted_entry_def)
  ultimately show ?case using ledger_snoc [of J "a # later" b] by simp
qed

lemma published_first:
  assumes "key_times (a # later)" "minted J a = Some (k, pem)"
    "later = [] \<or> at_now (last later) - at_now (hd later) \<le> ov"
  shows "\<exists>ks. published_after J ov (a # later) = (minted_kid (at_now a), js_pub J k) # ks"
proof -
  have pos: "\<forall>b \<in> set later. time_zero < at_now b" and kt: "key_times later"
    using assms(1) by (auto simp: key_times_def)
  obtain xs where l: "key_ledger J (a # later) = fate later (minted_entry (at_now a) pem k) # xs"
    using ledger_first [OF assms(2) pos] by auto
  have "\<not> past_overlap ov (at_now (last (a # later))) (fate later (minted_entry (at_now a) pem k))"
    using fate_past [of "minted_entry (at_now a) pem k" later ov] kt assms(3) by (cases "later = []") auto
  then show ?thesis by (simp add: published_after_def l published_def)
qed

text \<open>What the validator makes of a token of an issuer whose document starts with a key.\<close>

lemma trust_list_first_key:
  assumes "reads_back J (jose_header kid)" "reads_back J (JObj claims)" "r < 2 ^ 256" "s < 2 ^ 256"
    and cl: "dec_trust_claims (JObj claims) = Inr cl" "tc_Iss cl \<noteq> []" "tc_Iss cl \<in> set trusted"
    and load: "load (tc_Iss cl) = Inr (RawJson (jwks_json ((kid0, q) # ks)))"
  shows "TrustListValidate J (Some load) trusted now (jose_token J kid claims (r, s)) =
    (if \<not> js_verify J q (signing_input J kid claims) r s
     then Inl ''TrustListValidator: verify: VerifyJWS: signature invalid''
     else if tc_Exp cl \<noteq> 0 \<and> now > tc_Exp cl then Inl ''TrustListValidator: token expired''
     else if tc_Nbf cl \<noteq> 0 \<and> now < tc_Nbf cl then Inl ''TrustListValidator: token not yet valid''
     else Inr (if tc_Sub cl = [] then tc_Iss cl else tc_Sub cl))"
proof -
  have sp: "split_on CHR ''.'' (jose_token J kid claims (r, s)) =
      [b64_encode (js_print J (jose_header kid)), b64_encode (js_print J (JObj claims)), b64_encode (signature_bytes (r, s))]"
    unfolding jose_token_def signing_input_def append_assoc split_token ..
  show ?thesis
    using assms(2) cl load first_key_of_document [of kid0 q ks]
    unfolding TrustListValidate_def sp reads_back_def
    by (simp add: unmarshal_def verify_token [OF assms(1-4)] res_wrap_def)
qed

text \<open>A peer that trusts a daemon accepts its tokens as long as the daemon never rotates its keys. After a
  rotation it refuses every token of the new key, since it verifies with the first key of the document, the
  oldest: only an attempt to rotate that comes after the overlap window of the first one ends this.\<close>

theorem rotation_locks_out_peers:
  assumes J: "ecdsa_ok J" "\<forall>kid. reads_back J (jose_header kid)" "reads_back J (JObj (with_iat t claims))"
    and times: "key_times (a # later)" "later = [] \<or> at_now (last later) - at_now (hd later) \<le> ov"
    and first: "minted J a = Some (k0, pem0)"
    and signed: "ks_Sign J seed t claims (fst (attempts J (a # later) (empty_store ov rows))) = Inr token"
    and document: "ks_JWKS J (fst (attempts J (a # later) (empty_store ov rows))) = Inr doc"
      "load (tc_Iss cl) = Inr (RawJson doc)"
    and cl: "dec_trust_claims (JObj (with_iat t claims)) = Inr cl" "tc_Iss cl \<noteq> []" "tc_Iss cl \<in> set trusted"
      "tc_Exp cl = 0 \<or> now \<le> tc_Exp cl" "tc_Nbf cl = 0 \<or> tc_Nbf cl \<le> now"
    and others: "\<forall>k m s p. later \<noteq> [] \<longrightarrow> minted J (last later) = Some (k, s) \<longrightarrow> js_sign J k m seed = Inr p \<longrightarrow>
      \<not> js_verify J (js_pub J k0) m (fst p) (snd p)"
  shows "TrustListValidate J (Some load) trusted now token =
    (if later = [] then Inr (if tc_Sub cl = [] then tc_Iss cl else tc_Sub cl)
     else Inl ''TrustListValidator: verify: VerifyJWS: signature invalid'')"
proof -
  obtain k pem r s where mint: "minted J (last (a # later)) = Some (k, pem)"
    and tok: "token = jose_token J (minted_kid (at_now (last (a # later)))) (with_iat t claims) (r, s)"
    and sig: "js_sign J k (signing_input J (minted_kid (at_now (last (a # later)))) (with_iat t claims)) seed = Inr (r, s)"
    by (rule token_of_store [OF times(1) _ signed]) simp
  have rs: "r < 2 ^ 256" "s < 2 ^ 256" "js_verify J (js_pub J k) (signing_input J (minted_kid (at_now (last (a # later)))) (with_iat t claims)) r s"
    using J(1) sig unfolding ecdsa_ok_def by blast+
  obtain ks where ks: "published_after J ov (a # later) = (minted_kid (at_now a), js_pub J k0) # ks"
    using published_first [OF times(1) first times(2)] by auto
  have doc: "load (tc_Iss cl) = Inr (RawJson (jwks_json ((minted_kid (at_now a), js_pub J k0) # ks)))"
    using document JWKS_after [OF times(1), of J ov rows] ks by simp
  have "later = [] \<Longrightarrow> k = k0" using mint first by simp
  moreover have "later \<noteq> [] \<Longrightarrow> \<not> js_verify J (js_pub J k0)
      (signing_input J (minted_kid (at_now (last (a # later)))) (with_iat t claims)) r s"
    using others mint sig by fastforce
  ultimately show ?thesis
    using rs(3) cl(4,5)
    unfolding tok trust_list_first_key [where load = load, OF J(2) [rule_format] J(3) rs(1,2) cl(1-3) doc] by auto
qed

text \<open>On keys minted at 10 and 20: the peer refuses the token signed at 22 with the second key.\<close>

definition demo_peer_claims :: "(string \<times> json) list" where
  "demo_peer_claims = [(''iss'', JStr ''d''), (''sub'', JStr ''s''), (''iat'', JNum 7)]"

lemma demo_peer_facts:
  "jlookup ''kid'' demo_peer_claims = None" "map_of demo_peer_claims ''iat'' \<noteq> None"
  "dec_trust_claims (JObj (with_iat t demo_peer_claims)) =
     Inr \<lparr>tc_Iss = ''d'', tc_Sub = ''s'', tc_Exp = 0, tc_Nbf = 0\<rparr>"
  by (simp_all add: demo_peer_claims_def fold_eq_eval go_string with_iat_def dec_trust_claims_def
      get_str_def get_int64_def get_int_def jget_def)

lemma rotation_locks_out_peers_witness:
  "\<exists>token doc. ks_Sign (demo_jose demo_peer_claims) [] 22 demo_peer_claims
       (fst (attempts (demo_jose demo_peer_claims) [demo_attempt 10 1, demo_attempt 20 2] (empty_store 5 no_rows))) = Inr token
     \<and> TrustListValidate (demo_jose demo_peer_claims) (Some (\<lambda>_. Inr (RawJson doc))) [''d''] 0 token =
         Inl ''TrustListValidator: verify: VerifyJWS: signature invalid''"
proof -
  let ?J = "demo_jose demo_peer_claims"
  let ?h = "[demo_attempt 10 1, demo_attempt 20 2]"
  have "\<exists>token. ks_Sign ?J [] 22 demo_peer_claims (fst (attempts ?J ?h (empty_store 5 no_rows))) = Inr token"
    using active_after [OF demo_times(1), of ?J 5 no_rows]
    by (simp add: ks_Sign_def key_Priv_def signJWSWithKID_def signJWSCommon_def minted_kid_def Let_def)
      (simp add: demo_jose_def)
  then obtain token where token: "ks_Sign ?J [] 22 demo_peer_claims (fst (attempts ?J ?h (empty_store 5 no_rows))) = Inr token" ..
  have doc: "ks_JWKS ?J (fst (attempts ?J ?h (empty_store 5 no_rows))) = Inr (jwks_json (published_after ?J 5 ?h))"
    by (rule JWKS_after [OF demo_times(1)]) simp
  have others: "\<forall>k m s p. [demo_attempt 20 2] \<noteq> [] \<longrightarrow> minted ?J (last [demo_attempt 20 2]) = Some (k, s) \<longrightarrow>
      js_sign ?J k m [] = Inr p \<longrightarrow> \<not> js_verify ?J (js_pub ?J 1) m (fst p) (snd p)"
    by (simp add: demo_jose_keys split: if_split)
  have iss: "tc_Iss \<lparr>tc_Iss = ''d'', tc_Sub = ''s'', tc_Exp = 0, tc_Nbf = 0\<rparr> \<in> set [''d'']" by simp
  have "TrustListValidate ?J (Some (\<lambda>_. Inr (RawJson (jwks_json (published_after ?J 5 ?h))))) [''d''] 0 token =
      Inl ''TrustListValidator: verify: VerifyJWS: signature invalid''"
    using rotation_locks_out_peers [where load = "\<lambda>_. Inr (RawJson (jwks_json (published_after ?J 5 ?h)))" and now = 0,
        OF demo_jose_ok [OF demo_peer_facts(1,2)] demo_times(1) _ demo_mint(1) token doc _ demo_peer_facts(3) _ iss _ _ others]
    by simp
  with token show ?thesis by blast
qed

end
