(* ===== verification/Federation_Jwt.thy ===== *)
theory Federation_Jwt
  imports Runner_Auth Hub_Directory
begin

text \<open>
  Tokens across organisations. A daemon asks the hub for a token of another organisation's daemon
  (\<open>CrossOrgJWTClient\<close>), the hub vouches for the caller and forwards (\<open>cmd/chepherd-hub/federation.go\<close>),
  the other daemon mints (\<open>CrossOrgJWTMinter\<close> of \<open>internal/federation/cross_org_jwt.go\<close>, mounted by
  \<open>runtimehttp/federation_mint.go\<close>). Bodies are texts: \<open>js_print J\<close> is \<open>json.Marshal\<close> and \<open>first\<close> is the
  parser behind \<open>json.NewDecoder\<close>, which reads the first value of a text. The HTTP client is an argument.
\<close>

section \<open>The mint endpoint\<close>

definition newline :: string where "newline = [char_of (10::nat)]"

definition write_json :: "'k jose \<Rightarrow> int \<Rightarrow> json \<Rightarrow> int \<times> string" where
  "write_json J code body = (code, js_print J body @ newline)"

definition error_json :: "string \<Rightarrow> json" where
  "error_json e = JObj [(''error'', JStr e)]"

definition crossOrgJWTTTL :: int where "crossOrgJWTTTL = 60 * second"
definition jwtSafetyMargin :: int where "jwtSafetyMargin = 30 * second"

definition synthesizeGrantID :: "string \<Rightarrow> string \<Rightarrow> string \<Rightarrow> string" where
  "synthesizeGrantID callerOrg targetOrg scope = callerOrg @ ''@'' @ targetOrg @ '':'' @ scope"

definition orgToURL :: "string \<Rightarrow> string" where
  "orgToURL i = (if has_prefix ''http://'' i \<or> has_prefix ''https://'' i then i else ''https://'' @ i)"

record mint_request =
  mq_meth :: string
  mq_callerOrg :: string
  mq_attest :: string
  mq_body :: string

record 'k minter =
  cm_Issuer :: string
  cm_Signer :: "((string \<times> json) list \<Rightarrow> string result) option"
  cm_Grants :: "(string \<Rightarrow> string \<Rightarrow> go_error option) option"
  cm_TTL :: int

definition dec_mint_body :: "json \<Rightarrow> (string \<times> string) result" where
  "dec_mint_body j = res_bind (get_str ''scope'' j) (\<lambda>scope. res_bind (get_str ''audience'' j) (\<lambda>aud. Inr (scope, aud)))"

definition minted_claims :: "string \<Rightarrow> string \<Rightarrow> string \<Rightarrow> string \<Rightarrow> int \<Rightarrow> time \<Rightarrow> string \<Rightarrow> (string \<times> json) list" where
  "minted_claims issuer callerOrg scope aud ttl now uuid =
     [(''iss'', JStr (orgToURL issuer)), (''sub'', JStr (orgToURL callerOrg)),
      (''aud'', JStr (if aud \<noteq> [] then aud else orgToURL issuer)), (''scope'', JStr scope),
      (''nbf'', JNum (unix_seconds now)), (''exp'', JNum (unix_seconds (now + ttl))), (''iat'', JNum (unix_seconds now)),
      (''jti'', JStr uuid), (''chepherd_grant_id'', JStr (synthesizeGrantID callerOrg issuer scope)),
      (''chepherd_rate_window'', JNum (unix_seconds (now - now mod minute)))]"

definition mint_response :: "string \<Rightarrow> string \<Rightarrow> int \<Rightarrow> int \<Rightarrow> json" where
  "mint_response jws issuer nbf exp =
     JObj [(''jwt'', JStr jws), (''iss'', JStr issuer), (''nbf'', JNum nbf), (''exp'', JNum exp)]"

definition minter_ServeHTTP ::
    "'k jose \<Rightarrow> (string \<Rightarrow> raw) \<Rightarrow> 'k minter \<Rightarrow> time \<Rightarrow> string \<Rightarrow> mint_request \<Rightarrow> int \<times> string" where
  "minter_ServeHTTP J first m now uuid rq =
     (let callerOrg = trim_space (mq_callerOrg rq) in
      if mq_meth rq \<noteq> ''POST'' then write_json J 405 (error_json ''POST only'')
      else if callerOrg = [] then write_json J 401 (error_json ''missing X-Chepherd-Caller-Org (hub didn't attest)'')
      else if mq_attest rq \<noteq> ''true'' then write_json J 401 (error_json ''missing X-Chepherd-Hub-Attest:true'')
      else case decode_body ''federation.CrossOrgJWTRequest'' dec_mint_body (first (take (16 * 1024) (mq_body rq))) of
        Inl e \<Rightarrow> write_json J 400 (error_json (''decode: '' @ e))
      | Inr (scope, aud) \<Rightarrow>
          if scope = [] then write_json J 400 (error_json ''scope required'')
          else case (case cm_Grants m of None \<Rightarrow> None | Some check \<Rightarrow> check callerOrg scope) of
            Some e \<Rightarrow> write_json J 403 (error_json (''grant check: '' @ e))
          | None \<Rightarrow>
              (case cm_Signer m of
                 None \<Rightarrow> write_json J 503 (error_json ''signer not configured'')
               | Some sign \<Rightarrow>
                   (let ttl = (if cm_TTL m \<le> 0 then crossOrgJWTTTL else cm_TTL m) in
                    case sign (minted_claims (cm_Issuer m) callerOrg scope aud ttl now uuid) of
                      Inl e \<Rightarrow> write_json J 500 (error_json (''sign: '' @ e))
                    | Inr jws \<Rightarrow> write_json J 200
                        (mint_response jws (orgToURL (cm_Issuer m)) (unix_seconds now) (unix_seconds (now + ttl))))))"

text \<open>The adapter between the daemon's grant store and the minter, and the mounted route.\<close>

definition crossOrgGrantAdapter ::
    "(string \<Rightarrow> string \<Rightarrow> go_error option) option \<Rightarrow> grant_rows option \<Rightarrow> string \<Rightarrow> string \<Rightarrow> go_error option" where
  "crossOrgGrantAdapter check store callerOrg scope =
     (case check of
        Some f \<Rightarrow> f callerOrg scope
      | None \<Rightarrow>
          if store = None then Some ''cross-org grant store not wired: deny all (fail-closed)'' else None)"

definition mountCrossOrgFederationMint ::
    "'k jose \<Rightarrow> (string \<Rightarrow> raw) \<Rightarrow> string \<Rightarrow> 'k keystore option \<Rightarrow> (string \<Rightarrow> string \<Rightarrow> go_error option) option
       \<Rightarrow> grant_rows option \<Rightarrow> time \<Rightarrow> string \<Rightarrow> string \<Rightarrow> mint_request \<Rightarrow> int \<times> string" where
  "mountCrossOrgFederationMint J first orgID keys check store now seed uuid rq =
     (if orgID = [] \<or> keys = None
      then write_json J 503 (JObj [(''error'', JStr ''cross-org federation mint not configured''),
             (''keystore'', JBool (keys \<noteq> None)), (''orgid'', JBool (orgID \<noteq> []))])
      else minter_ServeHTTP J first
             \<lparr>cm_Issuer = orgID, cm_Signer = Some (\<lambda>claims. ks_Sign J seed now claims (the keys)),
              cm_Grants = Some (crossOrgGrantAdapter check store), cm_TTL = 0\<rparr> now uuid rq)"

section \<open>The hub's relay\<close>

record federation_registry =
  fg_targets :: "(string \<times> string) list"
  fg_totalRelays :: int
  fg_totalFails :: int

definition newFederationRegistry :: federation_registry where
  "newFederationRegistry = \<lparr>fg_targets = [], fg_totalRelays = 0, fg_totalFails = 0\<rparr>"

definition setTarget :: "string \<Rightarrow> string \<Rightarrow> federation_registry \<Rightarrow> federation_registry" where
  "setTarget orgID url r = r\<lparr>fg_targets := AList.update orgID url (fg_targets r)\<rparr>"

definition target_lookup :: "federation_registry \<Rightarrow> string \<Rightarrow> string" where
  "target_lookup r orgID = (case map_of (fg_targets r) orgID of None \<Rightarrow> [] | Some url \<Rightarrow> url)"

definition known_targets :: "federation_registry \<Rightarrow> string list" where
  "known_targets r = map fst (fg_targets r)"

definition federationStatus :: "federation_registry option \<Rightarrow> json" where
  "federationStatus r =
     (case r of
        None \<Rightarrow> JObj [(''enabled'', JBool False)]
      | Some g \<Rightarrow> JObj [(''enabled'', JBool True), (''target_orgs'', JArr (map JStr (known_targets g))),
          (''total_relays'', JNum (fg_totalRelays g)), (''total_fails'', JNum (fg_totalFails g))])"

definition add_target_pair :: "string \<Rightarrow> federation_registry \<Rightarrow> federation_registry" where
  "add_target_pair pair0 r =
     (let pair = trim_space pair0 in
      case cut_at CHR ''='' pair of
        None \<Rightarrow> r
      | Some (a, b) \<Rightarrow>
          let org = trim_space a; url = trim_space b
          in if org \<noteq> [] \<and> url \<noteq> [] then setTarget org url r else r)"

definition loadFederationTargets :: "string \<Rightarrow> federation_registry" where
  "loadFederationTargets cfg =
     (if cfg = [] then newFederationRegistry
      else fold add_target_pair (split_on CHR '','' cfg) newFederationRegistry)"

text \<open>The request is encoded with \<open>audience\<close> left out when empty.\<close>

definition relay_body :: "string \<Rightarrow> string \<Rightarrow> string \<Rightarrow> json" where
  "relay_body target scope aud =
     JObj ([(''targetOrgId'', JStr target), (''scope'', JStr scope)] @ omit_str ''audience'' aud)"

text \<open>
  \<open>badurl\<close> is the complaint of \<open>http.NewRequest\<close> about the URL, \<open>send\<close> is \<open>client.Do\<close> with what was read of
  the reply.
\<close>

definition relayFederationToDaemon ::
    "'k jose \<Rightarrow> (string \<Rightarrow> go_error option) \<Rightarrow> (string \<Rightarrow> mint_request \<Rightarrow> (int \<times> string) result)
       \<Rightarrow> string \<Rightarrow> string \<Rightarrow> string \<times> string \<times> string \<Rightarrow> (int \<times> string) result" where
  "relayFederationToDaemon J badurl send targetURL callerOrg = (\<lambda>(target, scope, aud).
     (let endpoint = trim_right CHR ''/'' targetURL @ ''/api/v1/federation/jwt'';
          rq = \<lparr>mq_meth = ''POST'', mq_callerOrg = callerOrg, mq_attest = ''true'',
                mq_body = js_print J (relay_body target scope aud)\<rparr>
      in case badurl endpoint of
           Some e \<Rightarrow> Inl e
         | None \<Rightarrow>
             (case send endpoint rq of
                Inl e \<Rightarrow> Inl (''daemon-'' @ target @ '': '' @ e)
              | Inr (status, body) \<Rightarrow>
                  (let respBody = take (64 * 1024) body in
                   if status \<ge> 500
                   then Inl (''daemon-'' @ target @ '' returned '' @ show_int status @ '': '' @ respBody)
                   else Inr (status, respBody)))))"

definition dec_federation_auth :: "json \<Rightarrow> (string \<times> string \<times> string) result" where
  "dec_federation_auth j = res_bind (get_str ''targetOrgId'' j) (\<lambda>target. res_bind (get_str ''scope'' j) (\<lambda>scope.
     res_bind (get_str ''audience'' j) (\<lambda>aud. Inr (target, scope, aud))))"

definition handleFederationAuth ::
    "'k jose \<Rightarrow> (string \<Rightarrow> go_error option) \<Rightarrow> (string \<Rightarrow> mint_request \<Rightarrow> (int \<times> string) result)
       \<Rightarrow> string \<Rightarrow> hub_request \<Rightarrow> federation_registry \<Rightarrow> (int \<times> string) \<times> federation_registry" where
  "handleFederationAuth J badurl send allowed rq r =
     (let callerOrg = authenticatedOrg rq in
      if hq_meth rq \<noteq> ''POST'' then (write_json J 405 (error_json ''POST only''), r)
      else if callerOrg = [] then (write_json J 401 (error_json ''no authenticated org identity''), r)
      else if \<not> orgAllowed allowed callerOrg then (write_json J 403 (error_json ''caller org not in allowlist''), r)
      else case decode_body ''main.federationAuthRequest'' dec_federation_auth (hq_body rq) of
        Inl e \<Rightarrow> (write_json J 400 (error_json (''decode body: '' @ e)), r)
      | Inr (target, scope, aud) \<Rightarrow>
          if target = [] \<or> scope = [] then (write_json J 400 (error_json ''targetOrgId and scope required''), r)
          else if \<not> orgAllowed allowed target then (write_json J 403 (error_json ''target org not in allowlist''), r)
          else if target_lookup r target = []
          then (write_json J 502 (JObj [(''error'', JStr ''no federation target registered for org''), (''org'', JStr target)]),
                r\<lparr>fg_totalFails := fg_totalFails r + 1\<rparr>)
          else case relayFederationToDaemon J badurl send (target_lookup r target) callerOrg (target, scope, aud) of
            Inl e \<Rightarrow> (write_json J 502 (error_json (''relay: '' @ e)), r\<lparr>fg_totalFails := fg_totalFails r + 1\<rparr>)
          | Inr (status, body) \<Rightarrow> ((status, body), r\<lparr>fg_totalRelays := fg_totalRelays r + 1\<rparr>))"

section \<open>The caching client\<close>

record jwt_client =
  xc_HubURL :: string
  xc_CallerOrg :: string
  xc_cache :: "(string \<times> (string \<times> time)) list"

definition keyOf :: "string \<Rightarrow> string \<Rightarrow> string" where
  "keyOf target scope = target @ ''|'' @ scope"

text \<open>\<open>Get\<close> takes the lock twice: to look in the cache, and to store what the hub answered.\<close>

definition get_cached :: "time \<Rightarrow> string \<Rightarrow> string \<Rightarrow> jwt_client \<Rightarrow> string option" where
  "get_cached now target scope c =
     (case map_of (xc_cache c) (keyOf target scope) of
        Some (jws, exp) \<Rightarrow> if now < exp then Some jws else None
      | None \<Rightarrow> None)"

definition of_unix :: "int \<Rightarrow> time" where
  "of_unix s = (s + 62135596800) * second"

definition store_cached :: "string \<Rightarrow> string \<Rightarrow> string \<Rightarrow> int \<Rightarrow> jwt_client \<Rightarrow> jwt_client" where
  "store_cached target scope jws exp c =
     c\<lparr>xc_cache := AList.update (keyOf target scope) (jws, of_unix exp - jwtSafetyMargin) (xc_cache c)\<rparr>"

definition dec_jwt_response :: "json \<Rightarrow> (string \<times> int) result" where
  "dec_jwt_response j = res_bind (get_str ''jwt'' j) (\<lambda>jws. res_bind (get_str ''iss'' j) (\<lambda>_.
     res_bind (get_int64 ''nbf'' j) (\<lambda>_. res_bind (get_int64 ''exp'' j) (\<lambda>exp. Inr (jws, exp)))))"

record fed_http =
  hr_url :: string
  hr_org :: string
  hr_body :: string

definition fetch_jwt ::
    "'k jose \<Rightarrow> (string \<Rightarrow> raw) \<Rightarrow> (string \<Rightarrow> go_error option) \<Rightarrow> (fed_http \<Rightarrow> (int \<times> string) result)
       \<Rightarrow> string \<Rightarrow> string \<Rightarrow> jwt_client \<Rightarrow> (string \<times> int) result" where
  "fetch_jwt J first badurl web target scope c =
     (let endpoint = trim_right CHR ''/'' (xc_HubURL c) @ ''/v1/federation/auth'';
          body = js_print J (JObj [(''scope'', JStr scope), (''targetOrgId'', JStr target)])
      in case badurl endpoint of
           Some e \<Rightarrow> Inl e
         | None \<Rightarrow>
             res_bind (web \<lparr>hr_url = endpoint, hr_org = xc_CallerOrg c, hr_body = body\<rparr>) (\<lambda>(status, reply).
               if status \<noteq> 200 then Inl (''hub returned '' @ show_int status @ '': '' @ reply)
               else res_bind (decode_body ''federation.CrossOrgJWTResponse'' dec_jwt_response (first reply)) (\<lambda>(jws, exp).
                 if jws = [] then Inl ''hub response had empty JWT'' else Inr (jws, exp))))"

definition jwt_Get ::
    "'k jose \<Rightarrow> (string \<Rightarrow> raw) \<Rightarrow> (string \<Rightarrow> go_error option) \<Rightarrow> (fed_http \<Rightarrow> (int \<times> string) result)
       \<Rightarrow> time \<Rightarrow> string \<Rightarrow> string \<Rightarrow> jwt_client \<Rightarrow> string result \<times> jwt_client" where
  "jwt_Get J first badurl web now target scope c =
     (if xc_HubURL c = [] \<or> target = [] \<or> scope = []
      then (Inl ''CrossOrgJWTClient.Get: empty HubURL/targetOrg/scope'', c)
      else case get_cached now target scope c of
        Some jws \<Rightarrow> (Inr jws, c)
      | None \<Rightarrow>
          (case fetch_jwt J first badurl web target scope c of
             Inl e \<Rightarrow> (Inl e, c)
           | Inr (jws, exp) \<Rightarrow> (Inr jws, store_cached target scope jws exp c)))"

definition jwt_Invalidate :: "string \<Rightarrow> string \<Rightarrow> jwt_client \<Rightarrow> jwt_client" where
  "jwt_Invalidate target scope c = c\<lparr>xc_cache := AList.delete (keyOf target scope) (xc_cache c)\<rparr>"

definition jwt_Len :: "jwt_client \<Rightarrow> nat" where
  "jwt_Len c = length (xc_cache c)"

section \<open>What the cache holds\<close>

text \<open>The writes of any interleaving of \<open>Get\<close> and \<open>Invalidate\<close> calls, in the order of the mutex.\<close>

datatype jwt_event = Answered string string string int | Dropped string string

fun jwt_event_key :: "jwt_event \<Rightarrow> string" where
  "jwt_event_key (Answered target scope _ _) = keyOf target scope"
| "jwt_event_key (Dropped target scope) = keyOf target scope"

fun jwt_event_step :: "jwt_event \<Rightarrow> jwt_client \<Rightarrow> jwt_client" where
  "jwt_event_step (Answered target scope jws exp) c = store_cached target scope jws exp c"
| "jwt_event_step (Dropped target scope) c = jwt_Invalidate target scope c"

definition jwt_events :: "jwt_event list \<Rightarrow> jwt_client \<Rightarrow> jwt_client" where
  "jwt_events evs c = fold jwt_event_step evs c"

lemma jwt_events_snoc [simp]: "jwt_events (evs @ [e]) c = jwt_event_step e (jwt_events evs c)"
  by (simp add: jwt_events_def)

lemma jwt_events_Nil [simp]: "jwt_events [] c = c"
  by (simp add: jwt_events_def)

text \<open>The last element of a kind, when one is appended.\<close>

definition last_of :: "('a \<Rightarrow> bool) \<Rightarrow> 'a list \<Rightarrow> 'a \<Rightarrow> bool" where
  "last_of P xs x \<longleftrightarrow> P x \<and> (\<exists>as bs. xs = as @ x # bs \<and> (\<forall>y \<in> set bs. \<not> P y))"

lemma last_of_Nil [simp]: "\<not> last_of P [] x"
  by (simp add: last_of_def)

lemma last_of_snoc [simp]: "last_of P (xs @ [e]) x \<longleftrightarrow> (if P e then x = e else last_of P xs x)"
proof
  assume "last_of P (xs @ [e]) x"
  then obtain as bs where *: "P x" "xs @ [e] = as @ x # bs" "\<forall>y \<in> set bs. \<not> P y" by (auto simp: last_of_def)
  then show "if P e then x = e else last_of P xs x"
    by (cases bs rule: rev_cases) (auto simp: last_of_def)
next
  assume l: "if P e then x = e else last_of P xs x"
  show "last_of P (xs @ [e]) x"
  proof (cases "P e")
    case True
    then show ?thesis using l unfolding last_of_def by (intro conjI exI [of _ xs] exI [of _ "[]"]) auto
  next
    case False
    then obtain as bs where "P x" "xs = as @ x # bs" "\<forall>y \<in> set bs. \<not> P y" using l by (auto simp: last_of_def)
    then show ?thesis using False unfolding last_of_def by (intro conjI exI [of _ as] exI [of _ "bs @ [e]"]) auto
  qed
qed

text \<open>An entry is the last write under its key.\<close>

lemma cached_entry:
  assumes "xc_cache c = []"
  shows "map_of (xc_cache (jwt_events evs c)) k = Some (jws, t) \<longleftrightarrow>
    (\<exists>target scope exp. last_of (\<lambda>e. jwt_event_key e = k) evs (Answered target scope jws exp)
       \<and> t = of_unix exp - jwtSafetyMargin)"
proof (induction evs rule: rev_induct)
  case (snoc e evs)
  show ?case
  proof (cases "jwt_event_key e = k")
    case True
    have "map_of (xc_cache (jwt_event_step e (jwt_events evs c))) k =
      (case e of Answered _ _ jws exp \<Rightarrow> Some (jws, of_unix exp - jwtSafetyMargin) | Dropped _ _ \<Rightarrow> None)"
      unfolding True [symmetric] by (cases e) (simp_all add: store_cached_def jwt_Invalidate_def)
    moreover have "last_of (\<lambda>e. jwt_event_key e = k) (evs @ [e]) (Answered target scope jws exp) \<longleftrightarrow>
        e = Answered target scope jws exp" for target scope jws exp
      unfolding last_of_snoc using True by auto
    ultimately show ?thesis by (cases e) auto
  next
    case False
    have "map_of (xc_cache (jwt_event_step e (jwt_events evs c))) k = map_of (xc_cache (jwt_events evs c)) k"
      using False by (cases e) (auto simp: store_cached_def jwt_Invalidate_def)
    then show ?thesis using False by (simp add: snoc.IH)
  qed
qed (simp add: assms)

lemma keyOf_inject:
  assumes "CHR ''|'' \<notin> set t" "CHR ''|'' \<notin> set t'" "keyOf t s = keyOf t' s'"
  shows "t = t' \<and> s = s'"
proof -
  have "cut_at CHR ''|'' (keyOf t s) = Some (t, s)" "cut_at CHR ''|'' (keyOf t' s') = Some (t', s')"
    unfolding keyOf_def by (simp_all only: append_Cons append_Nil cut_at_append [OF assms(1)] cut_at_append [OF assms(2)])
  then have "Some (t, s) = Some (t', s')" unfolding assms(3) by (rule trans [OF sym])
  then show ?thesis unfolding option.inject prod.inject .
qed


lemma jwt_Get_cases:
  assumes "xc_HubURL c \<noteq> []" "target \<noteq> []" "scope \<noteq> []"
  shows "jwt_Get J first badurl web now target scope c =
    (case get_cached now target scope c of
       Some jws \<Rightarrow> (Inr jws, c)
     | None \<Rightarrow> (case fetch_jwt J first badurl web target scope c of
         Inl e \<Rightarrow> (Inl e, c) | Inr (jws, exp) \<Rightarrow> (Inr jws, store_cached target scope jws exp c)))"
  using assms by (simp add: jwt_Get_def)

text \<open>What a history of writes leaves in memory: the last answer under the key, while it has 30 seconds to live.\<close>

definition remembered :: "jwt_event list \<Rightarrow> time \<Rightarrow> string \<Rightarrow> string \<Rightarrow> string \<Rightarrow> bool" where
  "remembered evs now target scope jws \<longleftrightarrow> (\<exists>target' scope' exp.
     last_of (\<lambda>e. jwt_event_key e = keyOf target scope) evs (Answered target' scope' jws exp)
     \<and> now + 30 * second < of_unix exp)"

lemma get_cached_remembered:
  assumes "xc_cache c = []"
  shows "get_cached now target scope (jwt_events evs c) = Some jws \<longleftrightarrow> remembered evs now target scope jws"
proof -
  have "get_cached now target scope (jwt_events evs c) = Some jws \<longleftrightarrow>
    (\<exists>t. map_of (xc_cache (jwt_events evs c)) (keyOf target scope) = Some (jws, t) \<and> now < t)"
    by (auto simp: get_cached_def split: option.splits)
  then show ?thesis
    unfolding remembered_def cached_entry [OF assms] jwtSafetyMargin_def less_diff_eq [symmetric] by blast
qed

text \<open>After any interleaving of the writes of concurrent calls, \<open>Get\<close> answers from memory exactly when the
  last write under its key was an answer of the hub that has more than 30 seconds to live, and with that
  answer; otherwise it asks the hub and remembers what it says. Between organisations without a bar in
  their names the answer was for the organisation and scope asked for. But a key is organisation and
  scope joined by a bar, so an answer for an organisation with a bar in its name is handed out for the
  part before it.\<close>

theorem federation_cache:
  assumes "xc_HubURL c \<noteq> []" "xc_cache c = []" "target \<noteq> []" "scope \<noteq> []"
  shows "(remembered evs now target scope jws \<longrightarrow>
        jwt_Get J first badurl web now target scope (jwt_events evs c) = (Inr jws, jwt_events evs c))
     \<and> ((\<nexists>jws. remembered evs now target scope jws) \<longrightarrow>
        jwt_Get J first badurl web now target scope (jwt_events evs c) =
          (case fetch_jwt J first badurl web target scope (jwt_events evs c) of
             Inl e \<Rightarrow> (Inl e, jwt_events evs c)
           | Inr (jws, exp) \<Rightarrow> (Inr jws, jwt_events (evs @ [Answered target scope jws exp]) c)))
     \<and> (last_of (\<lambda>e. jwt_event_key e = keyOf target scope) evs (Answered target' scope' jws exp) \<longrightarrow>
        CHR ''|'' \<notin> set target \<longrightarrow> CHR ''|'' \<notin> set target' \<longrightarrow> target' = target \<and> scope' = scope)
     \<and> (now + 30 * second < of_unix exp \<longrightarrow>
        fst (jwt_Get J first badurl web now target (part @ ''|'' @ scope)
          (jwt_events (evs @ [Answered (target @ ''|'' @ part) scope jws exp]) c)) = Inr jws)"
proof -
  have hub: "xc_HubURL (jwt_events es c) = xc_HubURL c" for es
  proof (induction es rule: rev_induct)
    case (snoc e es)
    then show ?case by (cases e) (simp_all add: store_cached_def jwt_Invalidate_def)
  qed simp
  have get: "jwt_Get J first badurl web now target scope (jwt_events es c) =
    (case get_cached now target scope (jwt_events es c) of
       Some jws \<Rightarrow> (Inr jws, jwt_events es c)
     | None \<Rightarrow> (case fetch_jwt J first badurl web target scope (jwt_events es c) of
         Inl e \<Rightarrow> (Inl e, jwt_events es c)
       | Inr (jws, exp) \<Rightarrow> (Inr jws, store_cached target scope jws exp (jwt_events es c))))"
    if "target \<noteq> []" "scope \<noteq> []" for es target scope
    by (rule jwt_Get_cases) (simp_all add: hub assms(1) that)
  note memory = get_cached_remembered [OF assms(2)]
  have none: "get_cached now target scope (jwt_events evs c) = None \<longleftrightarrow> (\<nexists>jws. remembered evs now target scope jws)"
    unfolding memory [symmetric] by (cases "get_cached now target scope (jwt_events evs c)") auto
  have "remembered (evs @ [Answered (target @ ''|'' @ part) scope jws exp]) now target (part @ ''|'' @ scope) jws"
    if "now + 30 * second < of_unix exp"
    unfolding remembered_def using that
    by (intro exI [of _ "target @ ''|'' @ part"] exI [of _ scope] exI [of _ exp]) (simp add: keyOf_def)
  then have collision: "fst (jwt_Get J first badurl web now target (part @ ''|'' @ scope)
      (jwt_events (evs @ [Answered (target @ ''|'' @ part) scope jws exp]) c)) = Inr jws"
    if "now + 30 * second < of_unix exp"
    using that get [OF assms(3), where scope = "part @ ''|'' @ scope" and es = "evs @ [Answered (target @ ''|'' @ part) scope jws exp]"]
    unfolding memory [symmetric] by simp
  have "jwt_Get J first badurl web now target scope (jwt_events evs c) = (Inr jws, jwt_events evs c)"
    if "remembered evs now target scope jws"
    using that get [OF assms(3,4)] unfolding memory [symmetric] by simp
  moreover have "jwt_Get J first badurl web now target scope (jwt_events evs c) =
      (case fetch_jwt J first badurl web target scope (jwt_events evs c) of
         Inl e \<Rightarrow> (Inl e, jwt_events evs c)
       | Inr (jws, exp) \<Rightarrow> (Inr jws, jwt_events (evs @ [Answered target scope jws exp]) c))"
    if "\<nexists>jws. remembered evs now target scope jws"
    using that get [OF assms(3,4)] unfolding none [symmetric] by (simp split: sum.splits)
  ultimately show ?thesis
    using collision keyOf_inject [of target target' scope scope'] by (auto simp: last_of_def)
qed

text \<open>On an answer for organisation \<open>b\<close> with 50 seconds to live, asked for again.\<close>

definition demo_client :: jwt_client where
  "demo_client = \<lparr>xc_HubURL = ''hub'', xc_CallerOrg = ''x'', xc_cache = []\<rparr>"

lemma federation_cache_witness:
  "jwt_Get (demo_jose []) (\<lambda>_. RawEmpty) (\<lambda>_. None) (\<lambda>_. Inl ''down'') (of_unix 50) ''b'' ''s''
     (jwt_events [Answered ''b'' ''s'' ''j'' 100] demo_client)
   = (Inr ''j'', jwt_events [Answered ''b'' ''s'' ''j'' 100] demo_client)"
proof -
  have "last_of (\<lambda>e. jwt_event_key e = keyOf ''b'' ''s'') [Answered ''b'' ''s'' ''j'' 100] (Answered ''b'' ''s'' ''j'' 100)"
    unfolding last_of_def by (intro conjI exI [of _ "[]"]) simp_all
  moreover have "of_unix 50 + 30 * second < of_unix 100" by (simp add: of_unix_def second_def)
  ultimately have "remembered [Answered ''b'' ''s'' ''j'' 100] (of_unix 50) ''b'' ''s'' ''j''"
    unfolding remembered_def by blast
  then show ?thesis
    by (intro federation_cache [THEN conjunct1, rule_format]) (simp_all add: demo_client_def)
qed

section \<open>From one daemon to the other\<close>

lemma write_json_fst [simp]: "fst (write_json J code body) = code"
  by (simp add: write_json_def)

text \<open>The requests the mint endpoint accepts: nothing depends on what the grant store holds.\<close>

lemma mint_accepts:
  "(\<exists>body. mountCrossOrgFederationMint J first orgID (Some ks) check store now seed uuid rq = (200, body)) \<longleftrightarrow>
     orgID \<noteq> [] \<and> mq_meth rq = ''POST'' \<and> trim_space (mq_callerOrg rq) \<noteq> [] \<and> mq_attest rq = ''true''
     \<and> (\<exists>scope aud jws. decode_body ''federation.CrossOrgJWTRequest'' dec_mint_body (first (take (16 * 1024) (mq_body rq)))
            = Inr (scope, aud) \<and> scope \<noteq> []
          \<and> (case check of None \<Rightarrow> store \<noteq> None | Some f \<Rightarrow> f (trim_space (mq_callerOrg rq)) scope = None)
          \<and> ks_Sign J seed now (minted_claims orgID (trim_space (mq_callerOrg rq)) scope aud crossOrgJWTTTL now uuid) ks = Inr jws)"
proof (cases "decode_body ''federation.CrossOrgJWTRequest'' dec_mint_body (first (take (16 * 1024) (mq_body rq)))")
  case (Inl e)
  then show ?thesis
    by (simp add: mountCrossOrgFederationMint_def minter_ServeHTTP_def write_json_def Let_def)
next
  case (Inr sa)
  obtain scope aud where sa: "sa = (scope, aud)" by (cases sa)
  then show ?thesis
    using Inr
    by (simp add: mountCrossOrgFederationMint_def minter_ServeHTTP_def write_json_def crossOrgGrantAdapter_def Let_def
        split: option.splits sum.splits)
qed

text \<open>A value the reader at the other end gets back, within its limit.\<close>

definition conveyed :: "'k jose \<Rightarrow> (string \<Rightarrow> raw) \<Rightarrow> nat \<Rightarrow> string \<Rightarrow> json \<Rightarrow> bool" where
  "conveyed J first limit tail j \<longleftrightarrow>
     first (js_print J j @ tail) = RawJson j \<and> length (js_print J j @ tail) \<le> limit"

lemma conveyed_take [simp]:
  "conveyed J first limit tail j \<Longrightarrow> first (take limit (js_print J j @ tail)) = RawJson j"
  unfolding conveyed_def by (simp only: take_all)

text \<open>The client's request as the hub gets it: no certificate, the organisation in the header.\<close>

definition hub_receives :: "(string \<Rightarrow> raw) \<Rightarrow> fed_http \<Rightarrow> hub_request" where
  "hub_receives first q = \<lparr>hq_meth = ''POST'', hq_cert = None, hq_org = hr_org q, hq_query = (\<lambda>_. []),
     hq_body = first (take (32 * 1024) (hr_body q))\<rparr>"

definition client_body :: "string \<Rightarrow> string \<Rightarrow> json" where
  "client_body target scope = JObj [(''scope'', JStr scope), (''targetOrgId'', JStr target)]"

lemma decode_client_body [simp]:
  "decode_body ''main.federationAuthRequest'' dec_federation_auth (RawJson (client_body target scope)) = Inr (target, scope, [])"
  by (simp add: decode_body_def client_body_def dec_federation_auth_def get_str_def jget_def fold_eq_eval go_string)

lemma decode_relay_body [simp]:
  "decode_body ''federation.CrossOrgJWTRequest'' dec_mint_body (RawJson (relay_body target scope aud)) = Inr (scope, aud)"
  by (simp add: decode_body_def relay_body_def dec_mint_body_def get_str_def jget_def omit_str_def fold_eq_eval go_string)

lemma decode_mint_response:
  "- (2 ^ 63) \<le> nbf \<Longrightarrow> nbf < 2 ^ 63 \<Longrightarrow> - (2 ^ 63) \<le> exp \<Longrightarrow> exp < 2 ^ 63 \<Longrightarrow>
   decode_body ''federation.CrossOrgJWTResponse'' dec_jwt_response (RawJson (mint_response jws iss nbf exp)) = Inr (jws, exp)"
  by (simp add: decode_body_def mint_response_def dec_jwt_response_def get_str_def get_int64_def get_int_def jget_def
      fold_eq_eval go_string)

text \<open>The mint's answer to a vouched request.\<close>

lemma mint_answers:
  assumes "orgID \<noteq> []" "caller \<noteq> []" "trim_space caller = caller" "scope \<noteq> []"
    and "conveyed J first (16 * 1024) [] (relay_body target scope aud)"
    and "ks_Sign J seed now (minted_claims orgID caller scope aud crossOrgJWTTTL now uuid) ks = Inr jws"
  shows "mountCrossOrgFederationMint J first orgID (Some ks) None store now seed uuid
      \<lparr>mq_meth = ''POST'', mq_callerOrg = caller, mq_attest = ''true'', mq_body = js_print J (relay_body target scope aud)\<rparr> =
    (if store = None
     then write_json J 403 (error_json ''grant check: cross-org grant store not wired: deny all (fail-closed)'')
     else write_json J 200 (mint_response jws (orgToURL orgID) (unix_seconds now) (unix_seconds now + 60)))"
proof -
  have "unix_seconds (now + crossOrgJWTTTL) = unix_seconds now + 60"
    by (simp add: unix_seconds_def crossOrgJWTTTL_def second_def)
  moreover have "first (take (16 * 1024) (js_print J (relay_body target scope aud))) = RawJson (relay_body target scope aud)"
    using conveyed_take [OF assms(5)] by simp
  ultimately show ?thesis
    using assms(1-4,6)
    by (simp add: mountCrossOrgFederationMint_def minter_ServeHTTP_def crossOrgGrantAdapter_def Let_def)
qed

text \<open>C40: When a client asks for a token of an organisation whose daemon the hub knows, it gets one signed by that
  daemon's active key, in the name of whatever allowed organisation the client's header names, good for 60
  seconds and kept for 30, whatever grants the daemon's store holds: only a daemon without a store
  refuses.\<close>

theorem federation_end_to_end:
  assumes caller: "trim_space caller = caller" "caller \<noteq> []" "orgAllowed allowed caller"
    and target: "target \<noteq> []" "orgAllowed allowed target" "target_lookup r target = url" "url \<noteq> []"
    and daemon: "orgID \<noteq> []" "scope \<noteq> []" "jws \<noteq> []" "- (2 ^ 63) \<le> unix_seconds now" "unix_seconds now + 60 < 2 ^ 63"
      "ks_Sign J seed now (minted_claims orgID caller scope [] crossOrgJWTTTL now uuid) ks = Inr jws"
    and net: "\<And>rq. send (trim_right CHR ''/'' url @ ''/api/v1/federation/jwt'') rq =
        Inr (mountCrossOrgFederationMint J first orgID (Some ks) None store now seed uuid rq)"
    and texts: "conveyed J first (32 * 1024) [] (client_body target scope)"
      "conveyed J first (16 * 1024) [] (relay_body target scope [])"
      "conveyed J first (64 * 1024) newline (mint_response jws (orgToURL orgID) (unix_seconds now) (unix_seconds now + 60))"
    and client: "xc_HubURL c \<noteq> []" "xc_CallerOrg c = caller" "map_of (xc_cache c) (keyOf target scope) = None"
  defines "hub \<equiv> \<lambda>q. Inr (fst (handleFederationAuth J (\<lambda>_. None) send allowed (hub_receives first q) r))"
  shows "if store = None
     then \<exists>e. jwt_Get J first (\<lambda>_. None) hub now target scope c = (Inl (''hub returned '' @ show_int 403 @ '': '' @ e), c)
     else jwt_Get J first (\<lambda>_. None) hub now target scope c =
       (Inr jws, c\<lparr>xc_cache := AList.update (keyOf target scope) (jws, of_unix (unix_seconds now + 30)) (xc_cache c)\<rparr>)"
proof -
  let ?body = "client_body target scope"
  let ?q = "\<lparr>hr_url = trim_right CHR ''/'' (xc_HubURL c) @ ''/v1/federation/auth'', hr_org = caller,
       hr_body = js_print J ?body\<rparr>"
  let ?grant = "mint_response jws (orgToURL orgID) (unix_seconds now) (unix_seconds now + 60)"
  let ?deny = "error_json ''grant check: cross-org grant store not wired: deny all (fail-closed)''"
  have read: "first (take (32 * 1024) (js_print J ?body)) = RawJson ?body"
    using conveyed_take [OF texts(1)] unfolding append_Nil2 .
  have org: "authenticatedOrg (hub_receives first ?q) = caller"
    by (simp add: authenticatedOrg_def hub_receives_def caller(1))
  have relayed: "relayFederationToDaemon J (\<lambda>_. None) send url caller (target, scope, []) =
      (if store = None then Inr (403, take (64 * 1024) (js_print J ?deny @ newline))
       else Inr (200, js_print J ?grant @ newline))"
  proof -
    have "take (64 * 1024) (js_print J ?grant @ newline) = js_print J ?grant @ newline"
      using texts(3) unfolding conveyed_def by (simp only: take_all)
    then show ?thesis
      unfolding relayFederationToDaemon_def Let_def prod.case option.case net
        mint_answers [OF daemon(1) caller(2,1) daemon(2) texts(2) daemon(6)]
      by (simp add: write_json_def)
  qed
  have body: "hq_body (hub_receives first ?q) = RawJson ?body" "hq_meth (hub_receives first ?q) = ''POST''"
    using read by (simp_all add: hub_receives_def)
  have hub: "hub ?q = (if store = None then Inr (403, take (64 * 1024) (js_print J ?deny @ newline))
       else Inr (200, js_print J ?grant @ newline))"
    using target(4) daemon(2) target(1) caller(2)
    by (simp add: hub_def handleFederationAuth_def org body caller(3) target(2,3) relayed Let_def)
  have fetch: "fetch_jwt J first (\<lambda>_. None) hub target scope c =
     (if store = None then Inl (''hub returned '' @ show_int 403 @ '': '' @ take (64 * 1024) (js_print J ?deny @ newline))
      else Inr (jws, unix_seconds now + 60))"
  proof -
    have "decode_body ''federation.CrossOrgJWTResponse'' dec_jwt_response (first (js_print J ?grant @ newline)) =
        Inr (jws, unix_seconds now + 60)"
      using texts(3) daemon(4,5) by (simp add: conveyed_def decode_mint_response)
    then show ?thesis
      using hub daemon(3) by (simp add: fetch_jwt_def client(2) client_body_def [symmetric])
  qed
  have "of_unix (unix_seconds now + 60) - jwtSafetyMargin = of_unix (unix_seconds now + 30)"
    by (simp add: of_unix_def jwtSafetyMargin_def second_def)
  moreover have "get_cached now target scope c = None"
    by (simp add: get_cached_def client(3))
  ultimately have get: "jwt_Get J first (\<lambda>_. None) hub now target scope c =
     (if store = None then (Inl (''hub returned '' @ show_int 403 @ '': '' @ take (64 * 1024) (js_print J ?deny @ newline)), c)
      else (Inr jws, c\<lparr>xc_cache := AList.update (keyOf target scope) (jws, of_unix (unix_seconds now + 30)) (xc_cache c)\<rparr>))"
    unfolding jwt_Get_cases [OF client(1) target(1) daemon(2)] fetch by (simp add: store_cached_def)
  show ?thesis
  proof (cases "store = None")
    case True
    show ?thesis unfolding get if_P [OF True] by (intro exI, rule refl)
  next
    case False
    show ?thesis unfolding get if_not_P [OF False] by (rule refl)
  qed
qed

text \<open>C40 on a daemon of organisation y with an empty grant store.\<close>

definition demo_fed :: "nat jose" where
  "demo_fed = (demo_jose [])\<lparr>js_print := \<lambda>j. case jfields j of [] \<Rightarrow> [] | (k, _) # _ \<Rightarrow> k\<rparr>"

definition demo_first :: "string \<Rightarrow> string \<Rightarrow> raw" where
  "demo_first jws s =
     (if s = ''scope'' then RawJson (client_body ''y'' ''call'')
      else if s = ''targetOrgId'' then RawJson (relay_body ''y'' ''call'' [])
      else RawJson (mint_response jws (orgToURL ''y'') 100 160))"

definition demo_keys :: "nat keystore" where
  "demo_keys = \<lparr>ks_entries = [minted_entry 10 ''pem'' 7], ks_overlap = 5\<rparr>"

definition demo_registry :: federation_registry where
  "demo_registry = newFederationRegistry\<lparr>fg_targets := [(''y'', ''u'')]\<rparr>"

lemma demo_fed_facts:
  "js_print demo_fed (client_body t s) = ''scope''" "js_print demo_fed (relay_body t s a) = ''targetOrgId''"
  "js_print demo_fed (mint_response w i n x) = ''jwt''" "js_sign demo_fed 7 m seed = Inr (7, 1)"
  by (simp_all add: demo_fed_def client_body_def relay_body_def mint_response_def demo_jose_def)

lemma federation_end_to_end_witness:
  "\<exists>jws send. fst (jwt_Get demo_fed (demo_first jws) (\<lambda>_. None)
      (\<lambda>q. Inr (fst (handleFederationAuth demo_fed (\<lambda>_. None) send [] (hub_receives (demo_first jws) q) demo_registry)))
      (of_unix 100) ''y'' ''call'' demo_client) = Inr jws"
proof -
  let ?claims = "minted_claims ''y'' ''x'' ''call'' [] crossOrgJWTTTL (of_unix 100) ''id''"
  have "\<exists>jws. jws \<noteq> [] \<and> ks_Sign demo_fed [] (of_unix 100) ?claims demo_keys = Inr jws"
    by (simp add: ks_Sign_def ks_Active_def demo_keys_def key_Priv_def signJWSWithKID_def signJWSCommon_def
        demo_fed_facts signing_input_def Let_def) (simp add: minted_kid_def)
  then obtain jws where jws: "jws \<noteq> []" "ks_Sign demo_fed [] (of_unix 100) ?claims demo_keys = Inr jws" by blast
  let ?send = "\<lambda>endpoint rq. Inr (mountCrossOrgFederationMint demo_fed (demo_first jws) ''y'' (Some demo_keys) None (Some [])
      (of_unix 100) [] ''id'' rq)"
  have now: "unix_seconds (of_unix 100) = 100" by (simp add: unix_seconds_def of_unix_def second_def)
  have texts: "conveyed demo_fed (demo_first jws) (32 * 1024) [] (client_body ''y'' ''call'')"
    "conveyed demo_fed (demo_first jws) (16 * 1024) [] (relay_body ''y'' ''call'' [])"
    "conveyed demo_fed (demo_first jws) (64 * 1024) newline (mint_response jws (orgToURL ''y'') 100 160)"
    by (simp_all add: conveyed_def demo_fed_facts demo_first_def newline_def)
  let ?get = "jwt_Get demo_fed (demo_first jws) (\<lambda>_. None)
      (\<lambda>q. Inr (fst (handleFederationAuth demo_fed (\<lambda>_. None) ?send [] (hub_receives (demo_first jws) q) demo_registry)))
      (of_unix 100) ''y'' ''call'' demo_client"
  have "if Some ([] :: grant_rows) = None
    then \<exists>e. ?get = (Inl (''hub returned '' @ show_int 403 @ '': '' @ e), demo_client)
    else ?get = (Inr jws, demo_client\<lparr>xc_cache := AList.update (keyOf ''y'' ''call'')
        (jws, of_unix (unix_seconds (of_unix 100) + 30)) (xc_cache demo_client)\<rparr>)"
    by (rule federation_end_to_end [where url = "''u''" and caller = "''x''" and orgID = "''y''" and ks = demo_keys
          and seed = "[]" and uuid = "''id''"])
       (simp_all add: texts [simplified] jws now orgAllowed_def demo_client_def demo_registry_def newFederationRegistry_def
          target_lookup_def string_eval)
  then have "fst ?get = Inr jws" by simp
  then show ?thesis by blast
qed

end
