(* ===== verification/Peer_Views.thy ===== *)
theory Peer_Views
  imports Team_Registry
begin

text \<open>
  What a peer may see of a session: its card (\<open>internal/runtime/agent_card.go\<close>), its status
  (\<open>peer_status.go\<close>) and the activity tally behind it (\<open>sessionActivity\<close> and its sniffer in \<open>runtime.go\<close>).
  Idle times are in nanoseconds and an instant is not rendered; the ANSI stripper is an argument.
\<close>

section \<open>Cards and status\<close>

definition stateLabel :: "session_info \<Rightarrow> string" where
  "stateLabel info = (if si_Exited info then ''exited'' else if si_Paused info then ''paused'' else ''alive'')"

definition capabilitiesForRole :: "string \<Rightarrow> string list" where
  "capabilitiesForRole role0 =
     (let role = to_lower role0 in
      if role = ''shepherd'' then [''team-routing'', ''peer-pane-observation'', ''operator-escalation'']
      else if role \<in> {''architect'', ''lead''} then [''spec-design'', ''work-dispatch'', ''output-verification'']
      else if role = ''worker'' then [''code-changes'', ''test-execution'', ''pr-shipping'']
      else if role \<in> {''qa'', ''tester''} then [''surface-walk'', ''defect-filing'', ''verdict-retraction'']
      else if role \<in> {''reviewer'', ''reviewer-discipline'', ''reviewer-architect'', ''reviewer-economics''}
      then [''code-review'', ''gap-analysis'', ''verdict-render'']
      else if role \<in> {''scrum-master'', ''scrummaster''}
      then [''team-cadence'', ''verdict-attribution'', ''impediment-removal'']
      else if role \<in> {''product-owner'', ''po''}
      then [''backlog-prioritization'', ''acceptance-criteria'', ''stakeholder-translation'']
      else if role \<in> {''security'', ''security-reviewer''}
      then [''threat-modeling'', ''vuln-triage'', ''secret-hygiene'']
      else if role \<in> {''devops'', ''sre''} then [''deploy-pipeline'', ''observability'', ''incident-response'']
      else [''general-purpose''])"

definition skillsForRole :: "string \<Rightarrow> string list" where
  "skillsForRole role =
     (let r = to_lower role in
      [''team-orientation'', ''peer-message'', ''operator-escalation'',
       ''role-'' @ (if r = [] then ''worker'' else r)])"

text \<open>\<open>pc_CreatedAt\<close> and \<open>pc_PID\<close> are fields of the session the state authority's model leaves out.\<close>

record peer_card =
  pc_Name :: string
  pc_Role :: string
  pc_Team :: string
  pc_AgentSlug :: string
  pc_Capabilities :: "string list"
  pc_Skills :: "string list"
  pc_State :: string
  pc_Paused :: bool
  pc_Shepherding :: "string list"
  pc_CreatedAt :: string
  pc_PID :: int
  pc_Scorecard :: "(string \<times> rat) list"

definition BuildPeerAgentCard :: "string \<Rightarrow> int \<Rightarrow> session_info \<Rightarrow> peer_card" where
  "BuildPeerAgentCard created pid info = \<lparr>
     pc_Name = si_Name info, pc_Role = si_Role info, pc_Team = si_Team info, pc_AgentSlug = si_AgentSlug info,
     pc_Capabilities = capabilitiesForRole (si_Role info), pc_Skills = skillsForRole (si_Role info),
     pc_State = stateLabel info, pc_Paused = si_Paused info, pc_Shepherding = si_Shepherding info,
     pc_CreatedAt = created, pc_PID = pid,
     pc_Scorecard = (case si_Scorecard info of None \<Rightarrow> []
       | Some sc \<Rightarrow> [(''G'', sc_Goal sc), (''V'', sc_Velocity sc), (''F'', sc_Focus sc), (''E'', sc_EndState sc),
                    (''D'', sc_Discipline sc)])\<rparr>"

text \<open>The tallies of a session's output: \<open>ac_recent\<close> holds the instant and size of recent chunks, oldest first.\<close>

record activity =
  ac_total :: int
  ac_last :: time
  ac_created :: time
  ac_recent :: "(time \<times> nat) list"

definition trim_recent :: "time \<Rightarrow> (time \<times> nat) list \<Rightarrow> (time \<times> nat) list" where
  "trim_recent now recent = dropWhile (\<lambda>(t, _). t < now - 5 * minute) recent"

text \<open>The sniffer sees a chunk of output; \<open>now'\<close> is its second reading of the clock.\<close>

definition activity_chunk :: "time \<Rightarrow> time \<Rightarrow> nat \<Rightarrow> activity \<Rightarrow> activity" where
  "activity_chunk now now' n a =
     a\<lparr>ac_total := ac_total a + int n, ac_last := now, ac_recent := trim_recent now' (ac_recent a @ [(now, n)])\<rparr>"

text \<open>\<open>snapshot\<close>: total, bytes and chunks of the last five minutes, and the idle time in nanoseconds.\<close>

definition activity_snapshot :: "time \<Rightarrow> activity \<Rightarrow> (int \<times> nat \<times> nat \<times> int) \<times> activity" where
  "activity_snapshot now a =
     (let recent = trim_recent now (ac_recent a) in
      ((ac_total a, sum_list (map snd recent), length recent,
        now - (if ac_last a = time_zero then ac_created a else ac_last a)),
       a\<lparr>ac_recent := recent\<rparr>))"

record peer_status =
  ps_Name :: string
  ps_State :: string
  ps_LastActivityAt :: time
  ps_Idle :: int
  ps_TotalBytes :: int
  ps_Bytes5m :: nat
  ps_Chunks5m :: nat
  ps_RingExcerptTail :: string
  ps_Shepherding :: "string list"
  ps_Paused :: bool

definition maxExcerpt :: nat where "maxExcerpt = 2048"

definition BuildPeerStatus ::
    "(string \<Rightarrow> string) \<Rightarrow> time \<Rightarrow> activity option \<Rightarrow> string option \<Rightarrow> session_info \<Rightarrow> peer_status" where
  "BuildPeerStatus stripANSI now act ring info =
     (let st0 = \<lparr>ps_Name = si_Name info, ps_State = stateLabel info, ps_LastActivityAt = time_zero, ps_Idle = 0,
            ps_TotalBytes = 0, ps_Bytes5m = 0, ps_Chunks5m = 0, ps_RingExcerptTail = [],
            ps_Shepherding = si_Shepherding info, ps_Paused = si_Paused info\<rparr>;
          st1 = (case act of None \<Rightarrow> st0
            | Some a \<Rightarrow> let (total, bytes, chunks, idle) = fst (activity_snapshot now a) in
                st0\<lparr>ps_TotalBytes := total, ps_Bytes5m := bytes, ps_Chunks5m := chunks, ps_Idle := idle,
                    ps_LastActivityAt := ac_last a\<rparr>)
      in case ring of None \<Rightarrow> st1
         | Some snap \<Rightarrow> st1\<lparr>ps_RingExcerptTail :=
             stripANSI (if length snap > maxExcerpt then drop (length snap - maxExcerpt) snap else snap)\<rparr>)"


section \<open>The tally is the history\<close>

text \<open>A sniffed chunk: the two readings of the clock and the size.\<close>

type_synonym sniffed = "time \<times> time \<times> nat"

definition sniff :: "sniffed list \<Rightarrow> activity \<Rightarrow> activity" where
  "sniff cs a = fold (\<lambda>(now, now', n). activity_chunk now now' n) cs a"

definition fresh_activity :: "time \<Rightarrow> activity" where
  "fresh_activity created = \<lparr>ac_total = 0, ac_last = time_zero, ac_created = created, ac_recent = []\<rparr>"

fun clock_order :: "time \<Rightarrow> sniffed list \<Rightarrow> bool" where
  "clock_order t [] \<longleftrightarrow> True"
| "clock_order t ((now, now', n) # cs) \<longleftrightarrow> t \<le> now \<and> now \<le> now' \<and> clock_order now' cs"

definition chunks_since :: "time \<Rightarrow> sniffed list \<Rightarrow> (time \<times> nat) list" where
  "chunks_since t cs = filter (\<lambda>(u, _). t \<le> u) (map (\<lambda>(now, _, n). (now, n)) cs)"

definition latest_reading :: "time \<Rightarrow> sniffed list \<Rightarrow> time" where
  "latest_reading created cs = (if cs = [] then created else fst (snd (last cs)))"

lemma clock_order_snoc [simp]:
  "clock_order t (cs @ [(now, now', n)]) \<longleftrightarrow> clock_order t cs \<and> latest_reading t cs \<le> now \<and> now \<le> now'"
  by (induction t cs rule: clock_order.induct) (auto simp: latest_reading_def)

lemma sniff_snoc [simp]: "sniff (cs @ [(now, now', n)]) a = activity_chunk now now' n (sniff cs a)"
  by (simp add: sniff_def)

lemma latest_snoc [simp]: "latest_reading created (cs @ [(now, now', n)]) = now'"
  by (simp add: latest_reading_def)

lemma chunks_since_snoc [simp]:
  "chunks_since t (cs @ [(now, now', n)]) = chunks_since t cs @ (if t \<le> now then [(now, n)] else [])"
  by (simp add: chunks_since_def)

lemma latest_mono: "clock_order created cs \<Longrightarrow> created \<le> latest_reading created cs"
  by (induction cs rule: rev_induct) (auto simp: latest_reading_def)

lemma chunks_sorted:
  "clock_order created cs \<Longrightarrow>
     sorted (map fst (chunks_since t cs)) \<and> (\<forall>x \<in> set (chunks_since t cs). fst x \<le> latest_reading created cs)"
proof (induction cs rule: rev_induct)
  case (snoc x cs)
  then show ?case by (cases x) (force simp: sorted_append)
qed (simp add: chunks_since_def)

text \<open>On chunks in order of time, dropping the old ones at the front drops all old ones.\<close>

lemma trim_sorted:
  "sorted (map fst xs) \<Longrightarrow> trim_recent now xs = filter (\<lambda>(t, _). now - 5 * minute \<le> t) xs"
proof (induction xs)
  case (Cons x xs)
  show ?case
  proof (cases "fst x < now - 5 * minute")
    case True
    then show ?thesis using Cons by (cases x) (simp add: trim_recent_def)
  next
    case False
    have "filter (\<lambda>(t, _). now - 5 * minute \<le> t) (x # xs) = x # xs"
      using False Cons.prems by (intro filter_True) (auto intro: order_trans)
    then show ?thesis using False by (cases x) (simp add: trim_recent_def)
  qed
qed (simp add: trim_recent_def)

lemma trim_chunks:
  assumes "clock_order created cs" "t \<le> now - 5 * minute"
  shows "trim_recent now (chunks_since t cs) = chunks_since (now - 5 * minute) cs"
proof -
  have "filter (\<lambda>(u, _). now - 5 * minute \<le> u) (chunks_since t cs) = chunks_since (now - 5 * minute) cs"
    using assms(2) by (auto simp: chunks_since_def filter_filter intro!: filter_cong)
  then show ?thesis using chunks_sorted [OF assms(1)] by (simp add: trim_sorted)
qed

lemma sniffed_activity:
  assumes "clock_order created cs"
  shows "ac_recent (sniff cs (fresh_activity created)) = chunks_since (latest_reading created cs - 5 * minute) cs
    \<and> ac_total (sniff cs (fresh_activity created)) = (\<Sum>(_, _, n) \<leftarrow> cs. int n)
    \<and> ac_created (sniff cs (fresh_activity created)) = created
    \<and> ac_last (sniff cs (fresh_activity created)) = (if cs = [] then time_zero else fst (last cs))"
  using assms
proof (induction cs rule: rev_induct)
  case Nil
  show ?case by (simp add: sniff_def fresh_activity_def chunks_since_def)
next
  case (snoc x cs)
  obtain now now' n where x: "x = (now, now', n)" by (cases x)
  let ?old = "latest_reading created cs - 5 * minute"
  have le: "latest_reading created cs \<le> now" "now \<le> now'" and ok: "clock_order created cs" using snoc.prems x by auto
  have "chunks_since ?old (cs @ [x]) = chunks_since ?old cs @ [(now, n)]"
    using le(1) by (simp add: x minute_def)
  moreover have "trim_recent now' (chunks_since ?old (cs @ [x])) = chunks_since (now' - 5 * minute) (cs @ [x])"
    by (rule trim_chunks [OF snoc.prems]) (use le in simp)
  ultimately show ?case using snoc.IH [OF ok] by (simp add: x activity_chunk_def)
qed

text \<open>Whatever the sniffer saw of a session's output, a look at the tally gives the bytes ever seen, the bytes
  and the number of chunks of the last five minutes, and the time since the last chunk (since the start
  when there was none); looking changes none of these for any later look.\<close>

theorem activity_window:
  assumes "clock_order created cs" "latest_reading created cs \<le> now" "now \<le> later" "time_zero < created"
  defines "a \<equiv> sniff cs (fresh_activity created)"
  defines "seen \<equiv> \<lambda>t. ((\<Sum>(_, _, n) \<leftarrow> cs. int n), sum_list (map snd (chunks_since (t - 5 * minute) cs)),
      length (chunks_since (t - 5 * minute) cs), t - (if cs = [] then created else fst (last cs)))"
  shows "fst (activity_snapshot now a) = seen now
    \<and> fst (activity_snapshot later (snd (activity_snapshot now a))) = seen later"
proof -
  note act = sniffed_activity [OF assms(1)]
  have first: "trim_recent now (ac_recent a) = chunks_since (now - 5 * minute) cs"
    using act assms(2) trim_chunks [OF assms(1), of "latest_reading created cs - 5 * minute" now] by (simp add: a_def)
  have second: "trim_recent later (chunks_since (now - 5 * minute) cs) = chunks_since (later - 5 * minute) cs"
    by (rule trim_chunks [OF assms(1)]) (use assms(3) in simp)
  have "ac_last a \<noteq> time_zero" if "cs \<noteq> []"
  proof -
    have "fst (last cs) > time_zero"
      using that assms(1,4)
    proof (induction cs rule: rev_induct)
      case (snoc y ys)
      then show ?case using latest_mono [of created ys] by (cases y) auto
    qed simp
    then show ?thesis using act that by (simp add: a_def)
  qed
  then show ?thesis
    using act [folded a_def] first second by (simp add: activity_snapshot_def seen_def Let_def)
qed

text \<open>On two chunks six minutes apart, looked at a minute later.\<close>

lemma activity_window_witness:
  "fst (activity_snapshot (8 * minute) (sniff [(minute, minute, 5), (7 * minute, 7 * minute, 3)] (fresh_activity 1)))
     = (8, 3, 1, minute)"
proof -
  have "clock_order 1 [(minute, minute, 5), (7 * minute, 7 * minute, 3)]" by (simp add: minute_def)
  from activity_window [OF this, of "8 * minute" "8 * minute"] show ?thesis
    by (simp add: latest_reading_def chunks_since_def minute_def time_zero_def)
qed

end
