(* ===== verification/Mcp_Tools.thy ===== *)
theory Mcp_Tools
  imports Team_Directory Peer_Views Peer_Registry Task_Store "HOL-Library.Word"
begin

text \<open>
  The tools agents call (\<open>internal/mcpserver/server.go\<close>, \<open>list_peers.go\<close>) over the state authority of
  \<open>Team_Registry\<close>. One definition per tool, named \<open>tool_\<close> and the tool's name. What a call draws from
  outside is the record \<open>mcp_env\<close>: the clock and a fresh id, the outcome of starting a container, the
  terminals, the task store, the deliverer, the file system and the code-graph queries. A reply holds
  what the code puts in its result map.
\<close>

section \<open>Arguments\<close>

text \<open>
  Most tools ignore the error of \<open>json.Unmarshal\<close>: a value of the wrong type leaves its field empty and the
  others are still decoded, and without an object every field is empty.
\<close>

definition is_str :: "json \<Rightarrow> bool" where
  "is_str v = (case v of JStr _ \<Rightarrow> True | _ \<Rightarrow> False)"

definition raw_fields :: "raw \<Rightarrow> (string \<times> json) list" where
  "raw_fields r = (case r of RawJson j \<Rightarrow> jfields j | _ \<Rightarrow> [])"

definition last_field :: "(json \<Rightarrow> bool) \<Rightarrow> string \<Rightarrow> raw \<Rightarrow> json option" where
  "last_field P n r = map_option snd (find (\<lambda>(k, v). fold_eq n k \<and> P v) (rev (raw_fields r)))"

definition arg_str :: "string \<Rightarrow> raw \<Rightarrow> string" where
  "arg_str n r = (case last_field is_str n r of Some (JStr s) \<Rightarrow> s | _ \<Rightarrow> [])"

definition arg_bool :: "string \<Rightarrow> raw \<Rightarrow> bool" where
  "arg_bool n r = (case last_field (\<lambda>v. case v of JBool _ \<Rightarrow> True | _ \<Rightarrow> False) n r of Some (JBool b) \<Rightarrow> b | _ \<Rightarrow> False)"

definition arg_int :: "string \<Rightarrow> raw \<Rightarrow> int" where
  "arg_int n r = (case last_field (\<lambda>v. case v of JNum _ \<Rightarrow> True | _ \<Rightarrow> False) n r of Some (JNum i) \<Rightarrow> i | _ \<Rightarrow> 0)"

text \<open>The tools that report a decoding error.\<close>

definition get_float :: "string \<Rightarrow> json \<Rightarrow> rat result" where
  "get_float n j = (case jget n j of None \<Rightarrow> Inr 0 | Some (JNum i) \<Rightarrow> Inr (of_int i)
     | Some v \<Rightarrow> Inl (mismatch v ''float64''))"

definition strict :: "raw \<Rightarrow> (json \<Rightarrow> 'a result) \<Rightarrow> 'a result" where
  "strict args dec = unmarshal (\<lambda>v. res_bind (struct_ok ''struct'' v) dec) args"

section \<open>State, surroundings and replies\<close>

text \<open>\<open>mc_fetched\<close> lists the tasks the deliverer was told were fetched.\<close>

record mcp =
  mc_rt :: runtime
  mc_peers :: peer_registry
  mc_fetched :: "string list"
  mc_lastCaller :: string

text \<open>A terminal: what \<open>Subscribe\<close> replays, the ring's contents and when the operator last typed.\<close>

record pty =
  pt_replay :: "string result"
  pt_ring :: string
  pt_lastOperatorWrite :: time

text \<open>
  \<open>en_start\<close> is the middle of \<open>Spawn\<close>: a session id with the fields the container start fills in, or an
  error. \<open>en_deliver\<close> gives the task's id and state, if there is a task.
\<close>

record mcp_env =
  en_now :: time
  en_id :: string
  en_baseURL :: string
  en_start :: "(string \<times> session_info) result"
  en_pty :: "string \<Rightarrow> pty option"
  en_activity :: "string \<Rightarrow> activity option"
  en_strip :: "string \<Rightarrow> string"
  en_created :: "session_info \<Rightarrow> string \<times> int"
  en_task :: "(string \<Rightarrow> ptask result) option"
  en_deliver :: "(time \<Rightarrow> message \<Rightarrow> (string \<times> string) option result) option"
  en_file :: "string \<Rightarrow> string option"
  en_graphPath :: "session_info \<Rightarrow> string option"
  en_graphBuilt :: "string \<Rightarrow> bool"
  en_graph :: "string \<Rightarrow> string list \<Rightarrow> string result"

record listed_peer =
  lp_SID :: string
  lp_Name :: string
  lp_AgentCardURL :: string
  lp_External :: bool

datatype tool_res =
    TError int string
  | TOk
  | TOkIs bool
  | TSpawned string string
  | TSessions "session_info list" "peer_info list"
  | TPeers "listed_peer list" string
  | TTask raw raw
  | TCard peer_card
  | TStatus peer_status
  | TPane string string "string list"
  | TRouted string
  | TSent bool string
  | TTeam team bool
  | TMember membership
  | TTeams "team list"
  | TMembers "membership list"
  | TCanon string string
  | TWorker string string
  | TStopped string
  | TExplained string string
  | TPath string string string

type_synonym tool = "mcp_env \<Rightarrow> string \<Rightarrow> raw \<Rightarrow> mcp \<Rightarrow> tool_res rt_res \<times> mcp"

text \<open>A tool's reply from one operation of the state authority, or from a look at it under the mutex.\<close>

definition on_rt :: "(runtime \<Rightarrow> 'a rt_res \<times> runtime) \<Rightarrow> ('a \<Rightarrow> tool_res) \<Rightarrow> mcp \<Rightarrow> tool_res rt_res \<times> mcp" where
  "on_rt f k s = (case f (mc_rt s) of
     (Ret x, rt) \<Rightarrow> (Ret (k x), s\<lparr>mc_rt := rt\<rparr>)
   | (Panic, rt) \<Rightarrow> (Panic, s\<lparr>mc_rt := rt\<rparr>)
   | (Blocked, rt) \<Rightarrow> (Blocked, s\<lparr>mc_rt := rt\<rparr>))"

definition looking :: "('a \<Rightarrow> tool_res rt_res \<times> mcp) \<Rightarrow> (runtime \<Rightarrow> 'a) \<Rightarrow> mcp \<Rightarrow> tool_res rt_res \<times> mcp" where
  "looking k f s = (if rt_wedged (mc_rt s) then (Blocked, s) else k (f (mc_rt s)))"

definition reply :: "tool_res \<Rightarrow> mcp \<Rightarrow> tool_res rt_res \<times> mcp" where
  "reply r s = (Ret r, s)"

definition or_error :: "string \<Rightarrow> tool_res \<Rightarrow> go_error option \<Rightarrow> tool_res" where
  "or_error what r e = (case e of None \<Rightarrow> r | Some m \<Rightarrow> TError (- 32000) (what @ m))"

definition invalid_args :: "go_error \<Rightarrow> tool_res" where
  "invalid_args e = TError (- 32602) (''invalid args: '' @ e)"

text \<open>What \<open>Get\<close> finds under a name.\<close>

definition session_of :: "string \<Rightarrow> runtime \<Rightarrow> (string \<times> session_info) option" where
  "session_of nm rt = (case map_of (rt_byName rt) nm of None \<Rightarrow> None
     | Some i \<Rightarrow> map_option (\<lambda>info. (i, info)) (map_of (rt_info rt) i))"

definition pty_of :: "mcp_env \<Rightarrow> string \<Rightarrow> runtime \<Rightarrow> pty option" where
  "pty_of en nm rt = (case map_of (rt_byName rt) nm of None \<Rightarrow> None | Some i \<Rightarrow> en_pty en i)"

definition record_event :: "event \<Rightarrow> mcp \<Rightarrow> mcp" where
  "record_event e s = s\<lparr>mc_rt := RecordEvent e (mc_rt s)\<rparr>"

definition no_session :: "string \<Rightarrow> tool_res" where
  "no_session nm = TError (- 32000) (''no such session: '' @ nm)"

section \<open>Sessions\<close>

text \<open>\<open>Spawn\<close>, its two critical sections back to back.\<close>

definition rt_Spawn ::
    "mcp_env \<Rightarrow> string \<Rightarrow> string \<Rightarrow> string \<Rightarrow> string \<Rightarrow> runtime \<Rightarrow> (go_error + session_info) rt_res \<times> runtime" where
  "rt_Spawn en nm slug team0 role0 rt =
     (let team = (if team0 = [] then ''default'' else team0); role = (if role0 = [] then ''worker'' else role0) in
      case spawn_reserve nm slug rt of
        (Ret (Some e), rt1) \<Rightarrow> (Ret (Inl e), rt1)
      | (Ret None, rt1) \<Rightarrow>
          (case en_start en of
             Inl e \<Rightarrow> (Ret (Inl e), snd (spawn_abort nm rt1))
           | Inr (i, info0) \<Rightarrow>
               (let info = info0\<lparr>si_ID := i, si_Name := nm, si_AgentSlug := slug, si_Team := team, si_Role := role\<rparr>
                in (Ret (Inr info), snd (spawn_announce (en_id en) (en_now en) info (snd (spawn_register i info rt1))))))
      | (Panic, rt1) \<Rightarrow> (Panic, rt1)
      | (Blocked, rt1) \<Rightarrow> (Blocked, rt1))"

definition tool_spawn :: tool where
  "tool_spawn en caller args s =
     (case strict args (\<lambda>j. res_bind (get_str ''name'' j) (\<lambda>nm. res_bind (get_str ''agent'' j) (\<lambda>agent.
         res_bind (get_str ''team'' j) (\<lambda>tm. res_bind (get_str ''role'' j) (\<lambda>role.
         res_bind (get_str ''cwd'' j) (\<lambda>_. Inr (nm, agent, tm, role))))))) of
        Inl e \<Rightarrow> reply (invalid_args e) s
      | Inr (nm, agent, tm, role) \<Rightarrow>
          on_rt (rt_Spawn en nm agent tm role)
            (\<lambda>r. case r of Inl e \<Rightarrow> TError (- 32000) e | Inr info \<Rightarrow> TSpawned (si_ID info) (si_Name info)) s)"

definition tool_assign :: tool where
  "tool_assign en caller args =
     on_rt (Assign (arg_str ''name'' args) (arg_str ''team'' args) (arg_str ''role'' args)) (or_error [] TOk)"

definition tool_grant_channel :: tool where
  "tool_grant_channel en caller args =
     on_rt (GrantChannel (arg_str ''fromteam'' args) (arg_str ''toteam'' args) (arg_str ''scope'' args)) (\<lambda>_. TOk)"

definition tool_list :: tool where
  "tool_list en caller args s =
     looking (\<lambda>infos. let (ps, reg) = peer_List (en_now en) (mc_peers s) in reply (TSessions infos ps) (s\<lparr>mc_peers := reg\<rparr>))
       (\<lambda>rt. map snd (rt_info rt)) s"

text \<open>\<open>list_peers\<close>: the live sessions of a team but the caller's own, and its registered external peers.\<close>

definition agentCardURL :: "string \<Rightarrow> string \<Rightarrow> string" where
  "agentCardURL base sid =
     (if base = [] then [] else rev (dropWhile (\<lambda>c. c = CHR ''/'') (rev base)))
       @ ''/a2a/'' @ sid @ ''/.well-known/agent-card.json''"

definition buildListPeersEntries ::
    "time \<Rightarrow> string \<Rightarrow> string \<Rightarrow> string \<Rightarrow> runtime \<Rightarrow> peer_registry \<Rightarrow> listed_peer list \<times> peer_registry" where
  "buildListPeersEntries now caller team base rt reg =
     (let own = map (\<lambda>(_, info). \<lparr>lp_SID = si_ID info, lp_Name = si_Name info,
              lp_AgentCardURL = agentCardURL base (si_ID info), lp_External = False\<rparr>)
            (filter (\<lambda>(_, info). \<not> si_Exited info \<and> si_Name info \<noteq> caller \<and> team \<noteq> [] \<and> si_Team info = team) (rt_info rt));
          (ps, reg') = (if team = [] then ([], reg) else ListByTeam team now reg)
      in (own @ map (\<lambda>p. \<lparr>lp_SID = pi_Name p, lp_Name = pi_Name p, lp_AgentCardURL = pi_AgentCardURL p, lp_External = True\<rparr>)
            (filter (\<lambda>p. pi_Name p \<noteq> caller) ps), reg'))"

definition tool_list_peers :: tool where
  "tool_list_peers en caller args s =
     looking (\<lambda>rt.
       let team = (if arg_str ''team'' args \<noteq> [] then arg_str ''team'' args
             else case session_of caller rt of None \<Rightarrow> [] | Some (_, info) \<Rightarrow> si_Team info);
           (ps, reg) = buildListPeersEntries (en_now en) caller team (en_baseURL en) rt (mc_peers s)
       in reply (TPeers ps team) (s\<lparr>mc_peers := reg\<rparr>)) id s"

section \<open>Tasks\<close>

definition tool_get_task :: tool where
  "tool_get_task en caller args s =
     (let taskID = arg_str ''taskID'' args in
      if taskID = [] then reply (TError (- 32602) ''chepherd.get_task: taskID required'') s
      else case en_task en of
        None \<Rightarrow> reply (TError (- 32000) ''chepherd.get_task: task store not wired (runner SetTaskStore missing)'') s
      | Some get \<Rightarrow>
          (case get taskID of
             Inl _ \<Rightarrow> reply (TError (- 32603) (''chepherd.get_task: task '' @ quote taskID @ '' not found'')) s
           | Inr rec \<Rightarrow>
               (let recipient = arg_str ''contextId'' (InputBlob rec) in
                if caller \<noteq> [] \<and> recipient \<noteq> [] \<and> caller \<noteq> recipient
                then reply (TError (- 32004) (''chepherd.get_task: forbidden (caller '' @ quote caller @
                       '' is not task recipient '' @ quote recipient @ '')'')) s
                else reply (TTask (OutputBlob rec) (InputBlob rec))
                       (if en_deliver en = None then s else s\<lparr>mc_fetched := mc_fetched s @ [taskID]\<rparr>))))"

text \<open>\<open>strings.TrimRight(body, "\r\n")\<close> and the pause while the operator is typing.\<close>

definition trim_newlines :: "string \<Rightarrow> string" where
  "trim_newlines s = rev (dropWhile (\<lambda>c. (of_char c :: nat) = 10 \<or> (of_char c :: nat) = 13) (rev s))"

definition typing_delay :: "time \<Rightarrow> time \<Rightarrow> int" where
  "typing_delay now typed =
     (if typed \<noteq> time_zero \<and> now - typed < 15 * second then 15 * second - (now - typed) else 0)"

definition tool_send_to_session :: tool where
  "tool_send_to_session en caller args s =
     (let nm = arg_str ''name'' args; body = trim_newlines (arg_str ''body'' args);
          who = to_lower (trim_space nm) in
      if who = ''operator'' \<or> who = ''human''
      then looking (\<lambda>rt. reply (TRouted ''operator-inbox'')
              (s\<lparr>mc_rt := rt\<lparr>rt_inbox := HumanInbox (en_id en) (en_now en) caller body (rt_inbox rt)\<rparr>\<rparr>)) id s
      else case en_deliver en of
        None \<Rightarrow> reply (TError (- 32000)
            ''send_to_session shim unavailable: mcpserver constructed without a2a.Deliverer (use mcpserver.NewWithDeliverer)'') s
      | Some deliver \<Rightarrow>
          looking (\<lambda>rt. case pty_of en nm rt of
             None \<Rightarrow> reply (no_session nm) s
           | Some pt \<Rightarrow>
               (case deliver (en_now en + typing_delay (en_now en) (pt_lastOperatorWrite pt))
                    \<lparr>m_Role = ''user'', m_Parts = [\<lparr>p_Kind = ''text'', p_Text = body, p_File = None, p_Data = None\<rparr>],
                     m_MessageID = [], m_TaskID = [], m_ContextID = nm, m_Kind = ''message'', m_From = caller\<rparr> of
                  Inl e \<Rightarrow> reply (TError (- 32000) e) s
                | Inr None \<Rightarrow> reply (TSent False []) s
                | Inr (Some (i, st)) \<Rightarrow> reply (TSent (st = TaskStateWorking) i) s)) id s)"

section \<open>Judgements\<close>

definition tool_set_scorecard :: tool where
  "tool_set_scorecard en caller args s =
     (case strict args (\<lambda>j. res_bind (get_str ''name'' j) (\<lambda>nm. res_bind (get_float ''g'' j) (\<lambda>g.
         res_bind (get_float ''v'' j) (\<lambda>v. res_bind (get_float ''f'' j) (\<lambda>f. res_bind (get_float ''e'' j) (\<lambda>e.
         res_bind (get_float ''d'' j) (\<lambda>d. res_bind (get_str ''note'' j) (\<lambda>note.
         Inr (nm, \<lparr>sc_Goal = g, sc_Velocity = v, sc_Focus = f, sc_EndState = e, sc_Discipline = d,
                   sc_Note = note, sc_At = time_zero\<rparr>))))))))) of
        Inl e \<Rightarrow> reply (invalid_args e) s
      | Inr (nm, sc) \<Rightarrow> on_rt (SetScorecard (en_id en) (en_now en) caller nm sc) (or_error [] TOk) s)"

definition tool_record_verdict :: tool where
  "tool_record_verdict en caller args =
     on_rt (RecordVerdict (en_id en) (en_now en) caller (arg_str ''name'' args) (arg_str ''verdict'' args)
        (arg_str ''message'' args)) (or_error [] TOk)"

definition arg_rat :: "string \<Rightarrow> raw \<Rightarrow> rat" where
  "arg_rat n r = of_int (arg_int n r)"

definition tool_set_review_axis :: tool where
  "tool_set_review_axis en caller args =
     on_rt (SetReviewAxis (en_now en) (if arg_str ''reviewer'' args = [] then caller else arg_str ''reviewer'' args)
        (arg_str ''target'' args) (arg_str ''axis'' args) (arg_rat ''score'' args) (arg_str ''note'' args)) (or_error [] TOk)"

text \<open>A note is appended to the scorecard both maps share, without the mutex.\<close>

definition tool_note :: tool where
  "tool_note en caller args s =
     (let target = arg_str ''target'' args; body = arg_str ''body'' args in
      looking (\<lambda>rt.
        let rt1 = (case session_of target rt of
              Some (i, info) \<Rightarrow>
                (case si_Scorecard info of
                   Some sc \<Rightarrow> rt\<lparr>rt_info := AList.update i
                      (info\<lparr>si_Scorecard := Some (sc\<lparr>sc_Note := sc_Note sc @ [char_of (10::nat)] @ body\<rparr>)\<rparr>) (rt_info rt)\<rparr>
                 | None \<Rightarrow> rt)
            | None \<Rightarrow> rt)
        in reply TOk (record_event (new_event (en_id en) (en_now en) ''note'' ''shepherd'' (target @ '': '' @ body))
             (s\<lparr>mc_rt := rt1\<rparr>))) id s)"

definition tool_record_event :: tool where
  "tool_record_event en caller args s =
     reply TOk (record_event (new_event (en_id en) (en_now en) (arg_str ''kind'' args)
        (if arg_str ''actor'' args = [] then ''mcp'' else arg_str ''actor'' args) (arg_str ''body'' args)) s)"

definition tool_pause :: tool where
  "tool_pause en caller args = on_rt (Pause (arg_str ''name'' args) (arg_bool ''paused'' args)) (or_error [] TOk)"

definition tool_alert_human :: tool where
  "tool_alert_human en caller args s =
     (let from' = (if arg_str ''from'' args = [] then caller else arg_str ''from'' args);
          kind = arg_str ''kind'' args; text0 = arg_str ''body'' args;
          body = (if kind \<noteq> [] then ''['' @ kind @ ''] '' @ text0 else text0) in
      looking (\<lambda>rt. reply TOk (s\<lparr>mc_rt := rt\<lparr>rt_inbox := HumanInbox (en_id en) (en_now en) from' body (rt_inbox rt)\<rparr>\<rparr>)) id s)"

text \<open>\<open>BuildPeerAgentCard\<close> and \<open>BuildPeerStatus\<close> of a named session; the name is required.\<close>

definition named_tool :: "(mcp_env \<Rightarrow> string \<Rightarrow> runtime \<Rightarrow> tool_res) \<Rightarrow> tool" where
  "named_tool answer en caller args s =
     (case strict args (get_str ''name'') of
        Inl e \<Rightarrow> reply (invalid_args e) s
      | Inr nm \<Rightarrow>
          if nm = [] then reply (TError (- 32602) ''name is required'') s
          else looking (\<lambda>rt. reply (answer en nm rt) s) id s)"

definition tool_get_peer_card :: tool where
  "tool_get_peer_card = named_tool (\<lambda>en nm rt. case session_of nm rt of
     None \<Rightarrow> no_session nm
   | Some (i, info) \<Rightarrow> TCard (BuildPeerAgentCard (fst (en_created en info)) (snd (en_created en info)) info))"

definition tool_peer_status :: tool where
  "tool_peer_status = named_tool (\<lambda>en nm rt. case session_of nm rt of
     None \<Rightarrow> no_session nm
   | Some (i, info) \<Rightarrow> TStatus (BuildPeerStatus (en_strip en) (en_now en) (en_activity en i)
       (map_option pt_ring (en_pty en i)) info))"

text \<open>\<open>splitLines\<close>: a last line without a line break counts, an empty one does not.\<close>

fun splitLines :: "string \<Rightarrow> string \<Rightarrow> string list" where
  "splitLines cur [] = (if cur = [] then [] else [rev cur])"
| "splitLines cur (c # cs) =
     (if (of_char c :: nat) = 10 then rev cur # splitLines [] cs else splitLines (c # cur) cs)"

definition tool_read_pane :: tool where
  "tool_read_pane en caller args s =
     (let nm = arg_str ''name'' args; want = (if arg_int ''lines'' args \<le> 0 then 50 else nat (arg_int ''lines'' args)) in
      looking (\<lambda>rt. case (session_of nm rt, pty_of en nm rt) of
          (Some (i, info), Some pt) \<Rightarrow>
            (case pt_replay pt of
               Inl e \<Rightarrow> reply (TError (- 32000) e) s
             | Inr replay \<Rightarrow>
                 (let lines = splitLines [] replay in
                  reply (TPane (si_Name info) (si_AgentSlug info)
                    (if length lines > want then drop (length lines - want) lines else lines)) s))
        | _ \<Rightarrow> reply (no_session nm) s) id s)"

section \<open>Teams\<close>

definition tool_create_team :: tool where
  "tool_create_team en caller args s =
     (let nm = arg_str ''name'' args in
      if nm = [] then reply (TError (- 32602) ''name required'') s
      else on_rt (CreateTeam (en_now en) nm (arg_str ''canonpath'' args) (arg_str ''topology'' args))
             (\<lambda>(t, created). TTeam t created) s)"

definition tool_join_team :: tool where
  "tool_join_team en caller args =
     on_rt (JoinTeam (en_now en) (arg_str ''agent'' args) (arg_str ''team'' args) (arg_str ''role'' args)
         (arg_str ''briefoverride'' args))
       (\<lambda>r. case r of Inl e \<Rightarrow> TError (- 32000) e | Inr m \<Rightarrow> TMember m)"

definition tool_leave_team :: tool where
  "tool_leave_team en caller args =
     on_rt (LeaveTeam (en_now en) (arg_str ''agent'' args) (arg_str ''team'' args)) TOkIs"

definition tool_list_teams :: tool where
  "tool_list_teams en caller args s = looking (\<lambda>ts. reply (TTeams ts) s) ListTeams s"

definition tool_list_memberships :: tool where
  "tool_list_memberships en caller args s =
     looking (\<lambda>ms. reply (TMembers ms) s) (ListMemberships (arg_str ''agent'' args) (arg_str ''team'' args)) s"

definition tool_read_canon :: tool where
  "tool_read_canon en caller args s =
     (let tm = arg_str ''team'' args in
      looking (\<lambda>ts. reply (TCanon tm
          (case find (\<lambda>t. te_Name t = tm) ts of
             None \<Rightarrow> []
           | Some t \<Rightarrow> (case en_file en (te_CanonPath t) of None \<Rightarrow> [] | Some b \<Rightarrow> b))) s) ListTeams s)"

section \<open>The guarded tools\<close>

definition callerHasAuthority :: "string \<Rightarrow> runtime \<Rightarrow> bool" where
  "callerHasAuthority caller rt \<longleftrightarrow>
     caller \<noteq> [] \<and> caller \<noteq> ''anonymous'' \<and>
     (list_ex (\<lambda>m. ms_Role m = ''orchestrator'' \<or> ms_Role m = ''shepherd'') (ListMemberships caller [] rt) \<or>
      (case session_of caller rt of None \<Rightarrow> False
       | Some (_, info) \<Rightarrow> si_Role info = ''orchestrator'' \<or> si_Role info = ''shepherd''))"

definition denied :: "string \<Rightarrow> tool_res" where
  "denied what = TError (- 32000) (''authority denied: caller role must be orchestrator or shepherd to '' @ what)"

definition guarded :: "string \<Rightarrow> (mcp \<Rightarrow> tool_res rt_res \<times> mcp) \<Rightarrow> string \<Rightarrow> mcp \<Rightarrow> tool_res rt_res \<times> mcp" where
  "guarded what act caller s =
     (if caller = [] \<or> caller = ''anonymous'' then reply (denied what) s
      else looking (\<lambda>ok. if ok then act s else reply (denied what) s) (callerHasAuthority caller) s)"

definition tool_spawn_worker :: tool where
  "tool_spawn_worker en caller args = guarded ''spawn workers''
     (\<lambda>s. let nm = arg_str ''name'' args; agent = (if arg_str ''agent'' args = [] then ''claude-code'' else arg_str ''agent'' args) in
        if nm = [] then reply (TError (- 32602) ''name required'') s
        else looking (\<lambda>ms. let team = (case ms of [] \<Rightarrow> ''default'' | m # _ \<Rightarrow> ms_TeamName m) in
               on_rt (rt_Spawn en nm agent team ''worker'')
                 (\<lambda>r. case r of Inl e \<Rightarrow> TError (- 32000) (''spawn_worker: '' @ e) | Inr _ \<Rightarrow> TWorker nm team) s)
             (ListMemberships caller []) s) caller"

definition tool_stop_session :: tool where
  "tool_stop_session en caller args = guarded ''stop sessions''
     (\<lambda>s. let nm = arg_str ''name'' args in
        case on_rt (rt_Stop nm (en_now en)) (or_error ''stop_session: '' (TStopped nm)) s of
          (Ret (TStopped n), s1) \<Rightarrow>
            reply (TStopped n) (record_event (new_event (en_id en) (en_now en) ''session_stopped'' caller
              (''orchestrator '' @ quote caller @ '' stopped session '' @ quote nm)) s1)
        | r \<Rightarrow> r) caller"

section \<open>Code-graph queries\<close>

definition graphPathForCaller :: "mcp_env \<Rightarrow> string \<Rightarrow> runtime \<Rightarrow> string result" where
  "graphPathForCaller en caller rt =
     (if caller = [] then Inl ''graph query: no caller identity''
      else case (case session_of caller rt of None \<Rightarrow> None | Some (_, info) \<Rightarrow> en_graphPath en info) of
        None \<Rightarrow> Inl (''graph query: caller '' @ quote caller @ '' has no workspace'')
      | Some gp \<Rightarrow> if en_graphBuilt en gp then Inr gp
                  else Inl (''graph not built yet for '' @ quote caller @ '' (it builds on spawn)''))"

definition graph_tool :: "string list \<Rightarrow> (string \<Rightarrow> tool_res) \<Rightarrow> mcp_env \<Rightarrow> string \<Rightarrow> mcp \<Rightarrow> tool_res rt_res \<times> mcp" where
  "graph_tool query answer en caller s =
     looking (\<lambda>gp. reply (case res_bind gp (\<lambda>p. en_graph en p query) of
        Inl e \<Rightarrow> TError (- 32000) e | Inr out \<Rightarrow> answer out) s) (graphPathForCaller en caller) s"

definition tool_graph_explain :: tool where
  "tool_graph_explain en caller args s =
     (case strict args (get_str ''node'') of
        Inr (c # n) \<Rightarrow> graph_tool [c # n] (TExplained (c # n)) en caller s
      | _ \<Rightarrow> reply (TError (- 32602) (''graph_explain: 'node' required'')) s)"

definition tool_graph_path :: tool where
  "tool_graph_path en caller args s =
     (case strict args (\<lambda>j. res_bind (get_str ''from'' j) (\<lambda>f. res_bind (get_str ''to'' j) (\<lambda>t. Inr (f, t)))) of
        Inr (f, t) \<Rightarrow>
          if f = [] \<or> t = [] then reply (TError (- 32602) (''graph_path: 'from' and 'to' required'')) s
          else graph_tool [f, t] (TPath f t) en caller s
      | Inl _ \<Rightarrow> reply (TError (- 32602) (''graph_path: 'from' and 'to' required'')) s)"

section \<open>The tool switch\<close>

definition tools :: "(string \<times> tool) list" where
  "tools = [
     (''spawn'', tool_spawn), (''assign'', tool_assign), (''grant_channel'', tool_grant_channel), (''list'', tool_list),
     (''list_peers'', tool_list_peers), (''get_task'', tool_get_task), (''set_scorecard'', tool_set_scorecard),
     (''record_verdict'', tool_record_verdict), (''get_peer_card'', tool_get_peer_card),
     (''peer_status'', tool_peer_status), (''read_pane'', tool_read_pane),
     (''send_to_session'', tool_send_to_session), (''pause'', tool_pause), (''alert_human'', tool_alert_human),
     (''create_team'', tool_create_team), (''join_team'', tool_join_team), (''leave_team'', tool_leave_team),
     (''list_teams'', tool_list_teams), (''list_memberships'', tool_list_memberships),
     (''set_review_axis'', tool_set_review_axis), (''note'', tool_note), (''record_event'', tool_record_event),
     (''read_canon'', tool_read_canon), (''spawn_worker'', tool_spawn_worker), (''stop_session'', tool_stop_session),
     (''graph_explain'', tool_graph_explain), (''graph_path'', tool_graph_path)]"

definition toolCallDirect :: "string \<Rightarrow> tool" where
  "toolCallDirect nm en caller args s =
     (case map_of tools nm of
        Some t \<Rightarrow> t en caller args s
      | None \<Rightarrow> reply (TError (- 32601) (''unknown chepherd tool: '' @ nm)) s)"

text \<open>What \<open>tools/list\<close> advertises: the tools and the arguments their schemas name.\<close>

definition toolList :: "(string \<times> string list) list" where
  "toolList = [
     (''spawn'', [''name'', ''agent'', ''team'', ''role'', ''cwd'']), (''assign'', [''name'', ''team'', ''role'']),
     (''grant_channel'', [''from_team'', ''to_team'', ''scope'']), (''list'', [''team'']), (''list_peers'', [''team'']),
     (''get_task'', [''taskID'']), (''set_scorecard'', [''name'', ''G'', ''V'', ''F'', ''E'', ''D'', ''note'']),
     (''record_verdict'', [''name'', ''verdict'', ''message'']), (''read_pane'', [''name'', ''lines'']),
     (''get_peer_card'', [''name'']), (''peer_status'', [''name'']), (''send_to_session'', [''name'', ''body'']),
     (''pause'', [''name'', ''paused'']), (''alert_human'', [''body'', ''kind'', ''urgency'']),
     (''create_team'', [''name'', ''canon_path'', ''topology'']),
     (''join_team'', [''agent'', ''team'', ''role'', ''brief_override'']), (''leave_team'', [''agent'', ''team'']),
     (''list_teams'', []), (''list_memberships'', [''agent'', ''team'']),
     (''set_review_axis'', [''target'', ''axis'', ''score'', ''note'']), (''note'', [''target'', ''body'']),
     (''record_event'', [''kind'', ''body'', ''actor'']), (''read_canon'', [''team'']),
     (''spawn_worker'', [''name'', ''agent'', ''cwd'', ''brief_override'']), (''stop_session'', [''name'']),
     (''graph_explain'', [''node'']), (''graph_path'', [''from'', ''to''])]"

end
