(* ===== verification/Mcp_Server.thy ===== *)
theory Mcp_Server
  imports Mcp_Tools
begin

text \<open>
  The MCP server around the tools (\<open>internal/mcpserver/server.go\<close>, \<open>transport_http.go\<close>,
  \<open>streamable_http.go\<close>): dispatch of JSON-RPC requests, the token check and the three transports. The server
  keeps the caller's name in one field, written by \<open>dispatchWithAgent\<close> and read by the tools without a lock, so
  a dispatch is two steps, \<open>enter\<close> and \<open>dispatch\<close>. \<open>render\<close> is \<open>json.Marshal\<close> of a tool's result map, of
  \<open>{"error": message}\<close> for an error. The audit line on standard error is left out.
\<close>

section \<open>Dispatch\<close>

record rpc_req =
  rq_ID :: "json option"
  rq_Method :: string
  rq_Params :: raw

datatype mcp_result =
    RInitialize
  | RToolList "(string \<times> string list) list"
  | REmpty
  | REmptyList string
  | RTool tool_res
  | RContent string bool
  | RIdentified string

record rpc_resp =
  rr_ID :: "json option"
  rr_Out :: "(int \<times> string) + mcp_result"

definition CurrentCaller :: "mcp \<Rightarrow> string" where
  "CurrentCaller s = (if mc_lastCaller s = [] then ''shepherd'' else mc_lastCaller s)"

definition raw_of :: "json option \<Rightarrow> raw" where
  "raw_of v = (case v of None \<Rightarrow> RawEmpty | Some j \<Rightarrow> RawJson j)"

definition dec_tool_call :: "json \<Rightarrow> (string \<times> raw) result" where
  "dec_tool_call v = res_bind (struct_ok ''struct'' v) (\<lambda>j. res_bind (get_str ''name'' j) (\<lambda>nm.
     Inr (nm, raw_of (get_raw ''arguments'' j))))"

text \<open>A tool's reply as the result of a direct call, and as the content of \<open>tools/call\<close>.\<close>

definition direct_out :: "tool_res \<Rightarrow> (int \<times> string) + mcp_result" where
  "direct_out r = (case r of TError code msg \<Rightarrow> Inl (code, msg) | _ \<Rightarrow> Inr (RTool r))"

definition is_error :: "tool_res \<Rightarrow> bool" where
  "is_error r = (case r of TError _ _ \<Rightarrow> True | _ \<Rightarrow> False)"

definition map_res :: "('a \<Rightarrow> 'b) \<Rightarrow> 'a rt_res \<Rightarrow> 'b rt_res" where
  "map_res f r = (case r of Ret x \<Rightarrow> Ret (f x) | Panic \<Rightarrow> Panic | Blocked \<Rightarrow> Blocked)"

definition toolCall ::
    "(tool_res \<Rightarrow> string) \<Rightarrow> mcp_env \<Rightarrow> raw \<Rightarrow> mcp \<Rightarrow> ((int \<times> string) + mcp_result) rt_res \<times> mcp" where
  "toolCall render en params s =
     (case unmarshal dec_tool_call params of
        Inl e \<Rightarrow> (Ret (Inl (- 32602, ''invalid params: '' @ e)), s)
      | Inr (nm, args) \<Rightarrow>
          if \<not> has_prefix ''chepherd.'' nm then (Ret (Inl (- 32601, ''unknown tool: '' @ nm)), s)
          else map_prod (map_res (\<lambda>r. Inr (RContent (render r) (is_error r)))) id
                 (toolCallDirect (trim_prefix ''chepherd.'' nm) en (CurrentCaller s) args s))"

definition dispatch :: "(tool_res \<Rightarrow> string) \<Rightarrow> mcp_env \<Rightarrow> rpc_req \<Rightarrow> mcp \<Rightarrow> rpc_resp rt_res \<times> mcp" where
  "dispatch render en rq s =
     (let m = rq_Method rq; answer = (\<lambda>out. \<lparr>rr_ID = rq_ID rq, rr_Out = out\<rparr>) in
      if m = [] then (Ret (answer (Inl (- 32600, ''invalid request''))), s)
      else if m = ''initialize'' then (Ret (answer (Inr RInitialize)), s)
      else if m = ''tools/list'' then (Ret (answer (Inr (RToolList toolList))), s)
      else if m = ''tools/call'' then map_prod (map_res answer) id (toolCall render en (rq_Params rq) s)
      else if has_prefix ''chepherd.'' m
      then map_prod (map_res (\<lambda>r. answer (direct_out r))) id
             (toolCallDirect (trim_prefix ''chepherd.'' m) en (CurrentCaller s) (rq_Params rq) s)
      else if has_prefix ''notifications/'' m then (Ret (answer (Inr REmpty)), s)
      else if m = ''prompts/list'' then (Ret (answer (Inr (REmptyList ''prompts''))), s)
      else if m = ''resources/list'' then (Ret (answer (Inr (REmptyList ''resources''))), s)
      else if m = ''resources/templates/list'' then (Ret (answer (Inr (REmptyList ''resourceTemplates''))), s)
      else (Ret (answer (Inl (- 32601, ''method not found: '' @ m))), s))"

definition enter :: "string \<Rightarrow> mcp \<Rightarrow> mcp" where
  "enter agent s = s\<lparr>mc_lastCaller := (if agent = [] then ''anonymous'' else agent)\<rparr>"

definition dispatchWithAgent ::
    "(tool_res \<Rightarrow> string) \<Rightarrow> mcp_env \<Rightarrow> rpc_req \<Rightarrow> string \<Rightarrow> mcp \<Rightarrow> rpc_resp rt_res \<times> mcp" where
  "dispatchWithAgent render en rq agent s = dispatch render en rq (enter agent s)"

section \<open>The token\<close>

fun eq_diff :: "string \<Rightarrow> string \<Rightarrow> 8 word \<Rightarrow> 8 word" where
  "eq_diff (x # xs) (y # ys) diff = eq_diff xs ys (or diff (xor (of_char x) (of_char y)))"
| "eq_diff _ _ diff = diff"

definition constantTimeEq :: "string \<Rightarrow> string \<Rightarrow> bool" where
  "constantTimeEq a b \<longleftrightarrow> length a = length b \<and> eq_diff a b 0 = 0"

record mcp_http =
  mh_Method :: string
  mh_Authorization :: string
  mh_Token :: string
  mh_QueryToken :: string
  mh_Agent :: string
  mh_Session :: string
  mh_Body :: "raw result"

definition requireAuth :: "string \<Rightarrow> mcp_http \<Rightarrow> (int \<times> string) option" where
  "requireAuth authToken r =
     (if authToken = [] then None
      else
        let got0 = (if has_prefix ''Bearer '' (mh_Authorization r) then trim_prefix ''Bearer '' (mh_Authorization r) else []);
            got1 = (if got0 = [] then mh_Token r else got0);
            got = (if got1 = [] then mh_QueryToken r else got1)
        in if got = [] \<or> \<not> constantTimeEq got authToken
           then Some (401, ''missing or invalid Bearer token'') else None)"

section \<open>Transports\<close>

definition dec_rpc_req :: "json \<Rightarrow> rpc_req result" where
  "dec_rpc_req v = res_bind (struct_ok ''mcpserver.rpcReq'' v) (\<lambda>j.
     res_bind (get_str ''jsonrpc'' j) (\<lambda>_. res_bind (get_str ''method'' j) (\<lambda>m.
     Inr \<lparr>rq_ID = jget ''id'' j, rq_Method = m, rq_Params = raw_of (get_raw ''params'' j)\<rparr>)))"

datatype http_out = HtError int string | HtJson rpc_resp | HtStatus int

definition http_resp :: "rpc_resp rt_res \<times> mcp \<Rightarrow> http_out rt_res \<times> mcp" where
  "http_resp = map_prod (map_res HtJson) id"

definition handleRPC ::
    "(tool_res \<Rightarrow> string) \<Rightarrow> string \<Rightarrow> mcp_env \<Rightarrow> mcp_http \<Rightarrow> mcp \<Rightarrow> http_out rt_res \<times> mcp" where
  "handleRPC render authToken en r s =
     (if mh_Method r \<noteq> ''POST'' then (Ret (HtError 405 ''POST only''), s)
      else case requireAuth authToken r of
        Some (code, msg) \<Rightarrow> (Ret (HtError code msg), s)
      | None \<Rightarrow>
          (case mh_Body r of
             Inl e \<Rightarrow> (Ret (HtError 400 (''read body: '' @ e)), s)
           | Inr body \<Rightarrow>
               (case unmarshal dec_rpc_req body of
                  Inl e \<Rightarrow> (Ret (HtError 400 (''parse: '' @ e)), s)
                | Inr rq \<Rightarrow> http_resp (dispatchWithAgent render en rq (mh_Agent r) s))))"

text \<open>The session id the reply carries is the request's, or else a fresh one.\<close>

definition handleStreamablePOST ::
    "(tool_res \<Rightarrow> string) \<Rightarrow> string \<Rightarrow> mcp_env \<Rightarrow> mcp_http \<Rightarrow> mcp \<Rightarrow> (http_out \<times> string) rt_res \<times> mcp" where
  "handleStreamablePOST render authToken en r s =
     (case requireAuth authToken r of
        Some (code, msg) \<Rightarrow> (Ret (HtError code msg, []), s)
      | None \<Rightarrow>
          (case mh_Body r of
             Inl e \<Rightarrow> (Ret (HtError 400 (''read body: '' @ e), []), s)
           | Inr body \<Rightarrow>
               (case unmarshal dec_rpc_req body of
                  Inl e \<Rightarrow> (Ret (HtError 400 (''parse: '' @ e), []), s)
                | Inr rq \<Rightarrow>
                    (let sid = (if mh_Session r = [] then en_id en else mh_Session r) in
                     if rq_ID rq = None \<or> has_prefix ''notifications/'' (rq_Method rq)
                     then (Ret (HtStatus 202, sid), s)
                     else map_prod (map_res (\<lambda>out. (out, sid))) id
                            (http_resp (dispatchWithAgent render en rq (mh_Agent r) s))))))"

definition handleStreamableGET :: "string \<Rightarrow> string \<Rightarrow> mcp_http \<Rightarrow> http_out \<times> string" where
  "handleStreamableGET authToken freshID r =
     (case requireAuth authToken r of
        Some (code, msg) \<Rightarrow> (HtError code msg, [])
      | None \<Rightarrow> (HtStatus 200, if mh_Session r = [] then freshID else mh_Session r))"

definition handleStreamableHTTP ::
    "(tool_res \<Rightarrow> string) \<Rightarrow> string \<Rightarrow> mcp_env \<Rightarrow> mcp_http \<Rightarrow> mcp \<Rightarrow> (http_out \<times> string) rt_res \<times> mcp" where
  "handleStreamableHTTP render authToken en r s =
     (if mh_Method r = ''POST'' then handleStreamablePOST render authToken en r s
      else if mh_Method r = ''GET'' then (Ret (handleStreamableGET authToken (en_id en) r), s)
      else if mh_Method r = ''DELETE'' then (Ret (HtStatus 204, []), s)
      else (Ret (HtError 405 ''POST/GET/DELETE only'', []), s))"

text \<open>One frame of a WebSocket connection; \<open>agent\<close> is the name the connection goes by.\<close>

definition ws_frame ::
    "(tool_res \<Rightarrow> string) \<Rightarrow> mcp_env \<Rightarrow> raw \<Rightarrow> string \<Rightarrow> mcp \<Rightarrow> rpc_resp rt_res \<times> string \<times> mcp" where
  "ws_frame render en frame agent s =
     (case unmarshal dec_rpc_req frame of
        Inl e \<Rightarrow> (Ret \<lparr>rr_ID = None, rr_Out = Inl (- 32700, ''parse error: '' @ e)\<rparr>, agent, s)
      | Inr rq \<Rightarrow>
          if rq_Method rq = ''$/chepherd/identify''
          then let said = arg_str ''agent'' (rq_Params rq); agent' = (if said = [] then agent else said)
               in (Ret \<lparr>rr_ID = rq_ID rq, rr_Out = Inr (RIdentified agent')\<rparr>, agent', s)
          else case dispatchWithAgent render en rq agent s of (r, s') \<Rightarrow> (r, agent, s'))"

end
