(* ===== verification/Mcp_Guarantees.thy ===== *)
theory Mcp_Guarantees
  imports Mcp_Server
begin

text \<open>
  What the MCP surface guarantees and what it does not: who may stop and spawn sessions, under whose name a
  call runs, the shape of replies, the arguments that are lost, and that the views of the state authority
  the tools give agree with each other after any run.
\<close>

section \<open>The switch\<close>

lemmas tool_defs = tool_spawn_def tool_assign_def tool_grant_channel_def tool_list_def tool_list_peers_def
  tool_get_task_def tool_set_scorecard_def tool_record_verdict_def tool_get_peer_card_def tool_peer_status_def
  tool_read_pane_def tool_send_to_session_def tool_pause_def tool_alert_human_def tool_create_team_def
  tool_join_team_def tool_leave_team_def tool_list_teams_def tool_list_memberships_def tool_set_review_axis_def
  tool_note_def tool_record_event_def tool_read_canon_def tool_spawn_worker_def tool_stop_session_def
  tool_graph_explain_def tool_graph_path_def

lemma tool_lookup [simp]:
  "map_of tools ''spawn'' = Some tool_spawn" "map_of tools ''stop_session'' = Some tool_stop_session"
  "map_of tools ''spawn_worker'' = Some tool_spawn_worker" "map_of tools ''join_team'' = Some tool_join_team"
  "map_of tools ''list'' = Some tool_list" "map_of tools ''get_peer_card'' = Some tool_get_peer_card"
  "map_of tools ''list_teams'' = Some tool_list_teams"
  "map_of tools ''list_memberships'' = Some tool_list_memberships"
  "map_of tools ''grant_channel'' = Some tool_grant_channel" "map_of tools ''create_team'' = Some tool_create_team"
  "map_of tools ''get_task'' = Some tool_get_task" "map_of tools ''leave_team'' = Some tool_leave_team"
  by (simp_all add: tools_def)

lemma toolCallDirect_tool [simp]: "map_of tools nm = Some t \<Longrightarrow> toolCallDirect nm en caller args s = t en caller args s"
  by (simp add: toolCallDirect_def)

lemma on_rt_state [simp]: "snd (on_rt f k s) = s\<lparr>mc_rt := snd (f (mc_rt s))\<rparr>"
  by (simp add: on_rt_def split: prod.split rt_res.split)

lemma looking_state: "snd (looking k f s) = (if rt_wedged (mc_rt s) then s else snd (k (f (mc_rt s))))"
  by (simp add: looking_def)

lemma looking_free [simp]: "\<not> rt_wedged (mc_rt s) \<Longrightarrow> looking k f s = k (f (mc_rt s))"
  by (simp add: looking_def)

lemma reply_simps [simp]: "reply r s = (Ret r, s)"
  by (simp add: reply_def)

lemma record_event_fields [simp]:
  "mc_rt (record_event e s) = RecordEvent e (mc_rt s)" "mc_lastCaller (record_event e s) = mc_lastCaller s"
  by (simp_all add: record_event_def)

section \<open>Authority\<close>

lemma joined_is_listed:
  assumes "\<not> rt_wedged rt" "map_of (rt_byName rt) a \<noteq> None" "map_of (rt_members rt) (member_key a tm) = None"
  shows "\<exists>m. m \<in> set (ListMemberships a [] (snd (JoinTeam now a tm role brief rt))) \<and> ms_Role m = role"
    and "rt_wedged (snd (JoinTeam now a tm role brief rt)) = False"
    and "rt_byName (snd (JoinTeam now a tm role brief rt)) = rt_byName rt"
proof -
  define rt1 where "rt1 = (if map_of (rt_teams rt) tm = None
    then rt\<lparr>rt_teams := AList.update tm (new_team rt now tm [] []) (rt_teams rt)\<rparr> else rt)"
  have rt1: "rt_members rt1 = rt_members rt" "rt_wedged rt1 = rt_wedged rt" "rt_byName rt1 = rt_byName rt"
    by (simp_all add: rt1_def)
  define m where "m = \<lparr>ms_AgentName = a, ms_TeamName = tm, ms_Role = role, ms_BriefOverride = brief, ms_JoinedAt = now\<rparr>"
  define ev where "ev = \<lparr>tv_Kind = ''join'', tv_Agent = a, tv_Team = tm, tv_OldRole = [], tv_NewRole = role, tv_At = now\<rparr>"
  have e: "snd (JoinTeam now a tm role brief rt)
      = emitTeamEvent ev (rt1\<lparr>rt_members := AList.update (member_key a tm) m (rt_members rt)\<rparr>)"
  proof -
    obtain i where "map_of (rt_byName rt) a = Some i" using assms(2) by blast
    then show ?thesis using assms(1,3) by (simp add: JoinTeam_def m_def ev_def Let_def rt1_def)
  qed
  have "map_of (AList.update (member_key a tm) m (rt_members rt)) (member_key a tm) = Some m" by simp
  from map_of_SomeD [OF this] have "m \<in> snd ` set (AList.update (member_key a tm) m (rt_members rt))"
    by force
  then show "\<exists>m. m \<in> set (ListMemberships a [] (snd (JoinTeam now a tm role brief rt))) \<and> ms_Role m = role"
    by (intro exI [of _ m]) (simp add: e ListMemberships_def dir_fields m_def)
qed (use assms in \<open>auto simp: JoinTeam_def Let_def dir_fields split: option.split\<close>)

lemma stopped:
  assumes "\<not> rt_wedged (mc_rt s)" "callerHasAuthority c (mc_rt s)"
    and "map_of (rt_byName (mc_rt s)) (arg_str ''name'' args) \<noteq> None"
  shows "fst (tool_stop_session en c args s) = Ret (TStopped (arg_str ''name'' args))"
    and "map_of (rt_byName (mc_rt (snd (tool_stop_session en c args s)))) (arg_str ''name'' args) = None"
proof -
  define nm where "nm = arg_str ''name'' args"
  obtain i where i: "map_of (rt_byName (mc_rt s)) nm = Some i" using assms(3) nm_def by blast
  define rt where "rt = snd (rt_Stop nm (en_now en) (mc_rt s))"
  have stop: "rt_Stop nm (en_now en) (mc_rt s) = (Ret None, rt)"
    using assms(1) i by (auto simp: rt_Stop_def rt_def split: prod.splits)
  have gone: "map_of (rt_byName rt) nm = None"
    using assms(1) i by (auto simp: rt_Stop_def rt_def dir_fields split: prod.splits)
  have ran: "on_rt (rt_Stop nm (en_now en)) (or_error w (TStopped nm)) s = (Ret (TStopped nm), s\<lparr>mc_rt := rt\<rparr>)" for w
    by (simp add: on_rt_def stop or_error_def)
  show "fst (tool_stop_session en c args s) = Ret (TStopped (arg_str ''name'' args))"
    and "map_of (rt_byName (mc_rt (snd (tool_stop_session en c args s)))) (arg_str ''name'' args) = None"
    using assms(1,2) gone
    by (simp_all add: tool_stop_session_def guarded_def callerHasAuthority_def nm_def [symmetric] ran dir_fields)
qed

text \<open>C25: a caller without authority can neither stop nor spawn through the guarded tools and changes nothing by
  trying. But the authority is self-service: \<open>join_team\<close>, which anyone may call for anyone, makes a
  registered agent orchestrator of a team it was not in, and the agent may then stop any session.\<close>

theorem mcp_authority:
  assumes "\<not> rt_wedged (mc_rt s)"
  shows "(\<not> callerHasAuthority c (mc_rt s) \<longrightarrow>
      toolCallDirect ''stop_session'' en c args s = (Ret (denied ''stop sessions''), s) \<and>
      toolCallDirect ''spawn_worker'' en c args s = (Ret (denied ''spawn workers''), s))
    \<and> (map_of (rt_byName (mc_rt s)) a \<noteq> None \<and> a \<noteq> [] \<and> a \<noteq> ''anonymous'' \<and>
       arg_str ''agent'' ja = a \<and> arg_str ''role'' ja = ''orchestrator'' \<and>
       map_of (rt_members (mc_rt s)) (member_key a (arg_str ''team'' ja)) = None \<longrightarrow>
       (let s1 = snd (toolCallDirect ''join_team'' en c ja s) in
        callerHasAuthority a (mc_rt s1) \<and>
        (\<forall>sa v. arg_str ''name'' sa = v \<and> map_of (rt_byName (mc_rt s)) v \<noteq> None \<longrightarrow>
           fst (toolCallDirect ''stop_session'' en a sa s1) = Ret (TStopped v) \<and>
           map_of (rt_byName (mc_rt (snd (toolCallDirect ''stop_session'' en a sa s1)))) v = None)))"
proof (intro conjI impI)
  assume "\<not> callerHasAuthority c (mc_rt s)"
  then show "toolCallDirect ''stop_session'' en c args s = (Ret (denied ''stop sessions''), s)"
    and "toolCallDirect ''spawn_worker'' en c args s = (Ret (denied ''spawn workers''), s)"
    using assms by (simp_all add: tool_stop_session_def tool_spawn_worker_def guarded_def)
next
  assume j: "map_of (rt_byName (mc_rt s)) a \<noteq> None \<and> a \<noteq> [] \<and> a \<noteq> ''anonymous'' \<and>
       arg_str ''agent'' ja = a \<and> arg_str ''role'' ja = ''orchestrator'' \<and>
       map_of (rt_members (mc_rt s)) (member_key a (arg_str ''team'' ja)) = None"
  define s1 where "s1 = snd (toolCallDirect ''join_team'' en c ja s)"
  note l = joined_is_listed [OF assms conjunct1 [OF j], of "arg_str ''team'' ja" "en_now en" "''orchestrator''"
      "arg_str ''briefoverride'' ja"]
  have s1: "mc_rt s1 = snd (JoinTeam (en_now en) a (arg_str ''team'' ja) ''orchestrator'' (arg_str ''briefoverride'' ja) (mc_rt s))"
    using j by (simp add: s1_def tool_join_team_def)
  have auth: "callerHasAuthority a (mc_rt s1)"
    using l(1) j by (auto simp: s1 callerHasAuthority_def list_ex_iff)
  have f: "\<not> rt_wedged (mc_rt s1)" "rt_byName (mc_rt s1) = rt_byName (mc_rt s)"
    using l(2,3) j by (simp_all add: s1)
  note halt = stopped [OF f(1) auth, unfolded f(2)]
  show "let s1 = snd (toolCallDirect ''join_team'' en c ja s) in
        callerHasAuthority a (mc_rt s1) \<and>
        (\<forall>sa v. arg_str ''name'' sa = v \<and> map_of (rt_byName (mc_rt s)) v \<noteq> None \<longrightarrow>
           fst (toolCallDirect ''stop_session'' en a sa s1) = Ret (TStopped v) \<and>
           map_of (rt_byName (mc_rt (snd (toolCallDirect ''stop_session'' en a sa s1)))) v = None)"
    using auth halt by (simp add: s1_def)
qed

definition demo_env :: mcp_env where
  "demo_env = \<lparr>en_now = 5, en_id = ''ev-1'', en_baseURL = ''http://hub/'', en_start = Inl ''no engine'',
     en_pty = (\<lambda>_. None), en_activity = (\<lambda>_. None), en_strip = id, en_created = (\<lambda>_. ([], 0)),
     en_task = None, en_deliver = None, en_file = (\<lambda>_. None), en_graphPath = (\<lambda>_. None),
     en_graphBuilt = (\<lambda>_. False), en_graph = (\<lambda>_ _. Inl ''none'')\<rparr>"

definition demo_mcp :: mcp where
  "demo_mcp = \<lparr>mc_rt = (newRuntime ''d'')\<lparr>rt_byName := [(''ann'', ''ann-1''), (''bob'', ''bob-1'')],
       rt_info := [(''ann-1'', example_info ''ann-1'' ''ann''), (''bob-1'', example_info ''bob-1'' ''bob'')]\<rparr>,
     mc_peers = [], mc_fetched = [], mc_lastCaller = []\<rparr>"

definition obj :: "(string \<times> string) list \<Rightarrow> raw" where
  "obj fs = RawJson (JObj (map (\<lambda>(k, v). (k, JStr v)) fs))"

lemmas arg_defs = obj_def arg_str_def last_field_def raw_fields_def jfields_def is_str_def fold_eq_eval

lemma demo_simps [simp]:
  "rt_byName (mc_rt demo_mcp) = [(''ann'', ''ann-1''), (''bob'', ''bob-1'')]"
  "rt_info (mc_rt demo_mcp) = [(''ann-1'', example_info ''ann-1'' ''ann''), (''bob-1'', example_info ''bob-1'' ''bob'')]"
  "rt_members (mc_rt demo_mcp) = []" "rt_teams (mc_rt demo_mcp) = []" "rt_wedged (mc_rt demo_mcp) = False"
  by (simp_all add: demo_mcp_def newRuntime_def)

lemma demo_bob: "\<not> callerHasAuthority ''bob'' (mc_rt demo_mcp)"
  by (simp add: callerHasAuthority_def ListMemberships_def session_of_def example_info_def)

definition demo_join :: raw where
  "demo_join = obj [(''agent'', ''bob''), (''team'', ''web''), (''role'', ''orchestrator'')]"

lemma demo_join_args [simp]:
  "arg_str ''agent'' demo_join = ''bob''" "arg_str ''team'' demo_join = ''web''"
  "arg_str ''role'' demo_join = ''orchestrator''"
  by (simp_all add: demo_join_def arg_defs)

lemma demo_stop_args [simp]: "arg_str ''name'' (obj [(''name'', v)]) = v"
  by (simp add: arg_defs)

text \<open>C25 on bob, a worker, who may not stop ann until he has joined a team of his own as orchestrator.\<close>

lemma mcp_authority_witness:
  "fst (toolCallDirect ''stop_session'' demo_env ''bob'' (obj [(''name'', ''ann'')]) demo_mcp) = Ret (denied ''stop sessions'') \<and>
   fst (toolCallDirect ''stop_session'' demo_env ''bob'' (obj [(''name'', ''ann'')])
      (snd (toolCallDirect ''join_team'' demo_env ''bob'' demo_join demo_mcp))) = Ret (TStopped ''ann'')"
  using mcp_authority [of demo_mcp "''bob''" demo_env "obj [(''name'', ''ann'')]" "''bob''" demo_join] demo_bob
  by (simp add: Let_def del: toolCallDirect_tool)

section \<open>Whose name a call runs under\<close>

text \<open>Dispatches of concurrent connections: each first enters its caller's name.\<close>

datatype mcp_step = SEnter string | SDispatch mcp_env rpc_req

fun mcp_do :: "(tool_res \<Rightarrow> string) \<Rightarrow> mcp_step \<Rightarrow> mcp \<Rightarrow> mcp" where
  "mcp_do render (SEnter agent) s = enter agent s"
| "mcp_do render (SDispatch en rq) s = snd (dispatch render en rq s)"

definition mcp_run :: "(tool_res \<Rightarrow> string) \<Rightarrow> mcp_step list \<Rightarrow> mcp \<Rightarrow> mcp" where
  "mcp_run render = fold (mcp_do render)"

text \<open>The name entered last.\<close>

fun entered :: "mcp_step list \<Rightarrow> string \<Rightarrow> string" where
  "entered [] nm = nm"
| "entered (SEnter agent # xs) nm = entered xs (if agent = [] then ''anonymous'' else agent)"
| "entered (SDispatch en rq # xs) nm = entered xs nm"

lemma all_tools:
  assumes "\<And>t. t \<in> snd ` set tools \<Longrightarrow> P t" "map_of tools nm = Some t"
  shows "P t"
  using assms map_of_SomeD [OF assms(2)] by force

lemma stop_cases:
  assumes "P x" "\<And>n s1. x = (Ret (TStopped n), s1) \<Longrightarrow> P (g n s1)"
  shows "P (case x of (Ret (TStopped n), s1) \<Rightarrow> g n s1 | r \<Rightarrow> r)"
  using assms by (auto split: prod.split rt_res.split tool_res.split)

lemma keep_sessions:
  "mc_lastCaller (snd (tool_spawn en c args s)) = mc_lastCaller s"
  "mc_lastCaller (snd (tool_list en c args s)) = mc_lastCaller s"
  "mc_lastCaller (snd (tool_list_peers en c args s)) = mc_lastCaller s"
  "mc_lastCaller (snd (tool_send_to_session en c args s)) = mc_lastCaller s"
  "mc_lastCaller (snd (tool_get_task en c args s)) = mc_lastCaller s"
  "mc_lastCaller (snd (tool_read_pane en c args s)) = mc_lastCaller s"
  "mc_lastCaller (snd (named_tool f en c args s)) = mc_lastCaller s"
  "mc_lastCaller (snd (graph_tool q g en c s)) = mc_lastCaller s"
  by (simp_all add: tool_spawn_def tool_list_def tool_list_peers_def tool_send_to_session_def tool_get_task_def
      tool_read_pane_def named_tool_def graph_tool_def looking_def Let_def split: sum.split prod.split option.split)

lemma keep_guarded:
  assumes "\<And>s. mc_lastCaller (snd (act s)) = mc_lastCaller s"
  shows "mc_lastCaller (snd (guarded w act c s)) = mc_lastCaller s"
  using assms by (simp add: guarded_def looking_def)

lemma keep_stop: "mc_lastCaller (snd (tool_stop_session en c args s)) = mc_lastCaller s"
  unfolding tool_stop_session_def Let_def
  by (rule keep_guarded, rule stop_cases) (auto dest!: arg_cong [where f = snd] simp: on_rt_state)

lemma keep_spawn_worker: "mc_lastCaller (snd (tool_spawn_worker en c args s)) = mc_lastCaller s"
  unfolding tool_spawn_worker_def Let_def
  by (rule keep_guarded) (simp add: looking_def)

lemma tool_keeps_caller:
  assumes "t \<in> snd ` set tools"
  shows "mc_lastCaller (snd (t en c args s)) = mc_lastCaller s"
proof -
  have "list_all (\<lambda>(_, t). mc_lastCaller (snd (t en c args s)) = mc_lastCaller s) tools"
    by (simp add: tools_def keep_sessions keep_stop keep_spawn_worker)
      (simp add: tool_defs keep_sessions looking_def Let_def split: sum.split prod.split list.split option.split)
  then show ?thesis using assms by (auto simp: list_all_iff)
qed

lemma call_keeps_caller: "mc_lastCaller (snd (toolCallDirect nm en c args s)) = mc_lastCaller s"
  using all_tools [of "\<lambda>t. mc_lastCaller (snd (t en c args s)) = mc_lastCaller s" nm] tool_keeps_caller
  by (auto simp: toolCallDirect_def split: option.split)

lemma dispatch_keeps_caller: "mc_lastCaller (snd (dispatch render en rq s)) = mc_lastCaller s"
  by (simp add: dispatch_def Let_def toolCall_def call_keeps_caller split: sum.split prod.split)

lemma enter_simps [simp]:
  "mc_rt (enter a s) = mc_rt s" "CurrentCaller (enter a s) = (if a = [] then ''anonymous'' else a)"
  by (simp_all add: enter_def CurrentCaller_def)

lemma run_caller: "CurrentCaller (mcp_run render xs s) = entered xs (CurrentCaller s)"
proof (induction xs arbitrary: s)
  case (Cons x xs)
  have "CurrentCaller (snd (dispatch render en rq s)) = CurrentCaller s" for en rq
    by (simp add: CurrentCaller_def dispatch_keeps_caller)
  then show ?case using Cons.IH [of "mcp_do render x s"] by (cases x) (simp_all add: mcp_run_def)
qed (simp add: mcp_run_def)

lemma dispatch_direct:
  "dispatch render en \<lparr>rq_ID = i, rq_Method = ''chepherd.'' @ nm, rq_Params = args\<rparr> s
     = map_prod (map_res (\<lambda>r. \<lparr>rr_ID = i, rr_Out = direct_out r\<rparr>)) id
         (toolCallDirect nm en (CurrentCaller s) args s)"
  by (simp add: dispatch_def has_prefix_def trim_prefix_def Let_def)

text \<open>C17: a call runs under the name entered last, on whatever connection: alone, under its own caller's; but when
  another connection's request is entered between a request's two steps, under that one's. So an
  anonymous request to stop a session, refused on its own, is carried out while an orchestrator's
  request arrives.\<close>

theorem mcp_identity:
  assumes "\<not> rt_wedged (mc_rt s)" "callerHasAuthority a (mc_rt s)" "map_of (rt_byName (mc_rt s)) v \<noteq> None"
    and "arg_str ''name'' sa = v"
  defines "stop \<equiv> \<lparr>rq_ID = Some (JNum 7), rq_Method = ''chepherd.stop_session'', rq_Params = sa\<rparr>"
  shows "(\<forall>xs i nm args. dispatch render en \<lparr>rq_ID = i, rq_Method = ''chepherd.'' @ nm, rq_Params = args\<rparr> (mcp_run render xs s)
        = map_prod (map_res (\<lambda>r. \<lparr>rr_ID = i, rr_Out = direct_out r\<rparr>)) id
            (toolCallDirect nm en (entered xs (CurrentCaller s)) args (mcp_run render xs s)))
    \<and> (\<exists>code msg. fst (dispatchWithAgent render en stop [] s) = Ret \<lparr>rr_ID = Some (JNum 7), rr_Out = Inl (code, msg)\<rparr>
         \<and> mc_rt (snd (dispatchWithAgent render en stop [] s)) = mc_rt s)
    \<and> (let s1 = mcp_run render [SEnter [], SEnter a] s in
        fst (dispatch render en stop s1) = Ret \<lparr>rr_ID = Some (JNum 7), rr_Out = Inr (RTool (TStopped v))\<rparr>
        \<and> map_of (rt_byName (mc_rt (snd (dispatch render en stop s1)))) v = None)"
proof (intro conjI allI)
  show "dispatch render en \<lparr>rq_ID = i, rq_Method = ''chepherd.'' @ nm, rq_Params = args\<rparr> (mcp_run render xs s)
        = map_prod (map_res (\<lambda>r. \<lparr>rr_ID = i, rr_Out = direct_out r\<rparr>)) id
            (toolCallDirect nm en (entered xs (CurrentCaller s)) args (mcp_run render xs s))" for xs i nm args
    unfolding run_caller [of render, symmetric] by (rule dispatch_direct)
  have d: "dispatch render en stop s' = map_prod (map_res (\<lambda>r. \<lparr>rr_ID = Some (JNum 7), rr_Out = direct_out r\<rparr>)) id
      (tool_stop_session en (CurrentCaller s') sa s')" for s'
    using dispatch_direct [of render en "Some (JNum 7)" "''stop_session''" sa s'] by (simp add: stop_def)
  show "\<exists>code msg. fst (dispatchWithAgent render en stop [] s) = Ret \<lparr>rr_ID = Some (JNum 7), rr_Out = Inl (code, msg)\<rparr>
         \<and> mc_rt (snd (dispatchWithAgent render en stop [] s)) = mc_rt s"
    by (simp add: dispatchWithAgent_def d tool_stop_session_def guarded_def denied_def map_res_def direct_out_def)
  define s1 where "s1 = mcp_run render [SEnter [], SEnter a] s"
  have "a \<noteq> []" using assms(2) by (auto simp: callerHasAuthority_def)
  then have s1: "mc_rt s1 = mc_rt s" "CurrentCaller s1 = a"
    by (simp_all add: s1_def mcp_run_def)
  note halt = stopped [of s1 a sa en, unfolded s1, OF assms(1,2)]
  have "fst (dispatch render en stop s1) = Ret \<lparr>rr_ID = Some (JNum 7), rr_Out = Inr (RTool (TStopped v))\<rparr>"
    "map_of (rt_byName (mc_rt (snd (dispatch render en stop s1)))) v = None"
    using halt assms(3,4) by (simp_all add: d s1 map_res_def direct_out_def)
  then show "let s1 = mcp_run render [SEnter [], SEnter a] s in
        fst (dispatch render en stop s1) = Ret \<lparr>rr_ID = Some (JNum 7), rr_Out = Inr (RTool (TStopped v))\<rparr>
        \<and> map_of (rt_byName (mc_rt (snd (dispatch render en stop s1)))) v = None"
    by (simp add: s1_def)
qed

text \<open>C17 on an anonymous request that stops ann in the name of cat, an orchestrator.\<close>

definition cat_mcp :: mcp where
  "cat_mcp = demo_mcp\<lparr>mc_rt := (mc_rt demo_mcp)\<lparr>rt_members :=
     [(member_key ''cat'' ''web'', \<lparr>ms_AgentName = ''cat'', ms_TeamName = ''web'', ms_Role = ''orchestrator'',
        ms_BriefOverride = [], ms_JoinedAt = 3\<rparr>)]\<rparr>\<rparr>"

lemma cat_fields:
  "rt_byName (mc_rt cat_mcp) = [(''ann'', ''ann-1''), (''bob'', ''bob-1'')]" "\<not> rt_wedged (mc_rt cat_mcp)"
  by (simp_all add: cat_mcp_def)

lemma mcp_identity_witness:
  "fst (dispatch (\<lambda>_. []) demo_env \<lparr>rq_ID = Some (JNum 7), rq_Method = ''chepherd.stop_session'',
        rq_Params = obj [(''name'', ''ann'')]\<rparr> (mcp_run (\<lambda>_. []) [SEnter [], SEnter ''cat''] cat_mcp))
     = Ret \<lparr>rr_ID = Some (JNum 7), rr_Out = Inr (RTool (TStopped ''ann''))\<rparr>"
proof -
  have "callerHasAuthority ''cat'' (mc_rt cat_mcp)"
    by (simp add: cat_mcp_def callerHasAuthority_def ListMemberships_def)
  from mcp_identity [OF _ this, where v = "''ann''" and sa = "obj [(''name'', ''ann'')]" and en = demo_env
      and render = "\<lambda>_. []", THEN conjunct2, THEN conjunct2]
  show ?thesis by (simp add: Let_def cat_fields)
qed

section \<open>The shape of replies\<close>

fun reply_kind :: "tool_res \<Rightarrow> string" where
  "reply_kind (TError _ _) = ''error''" | "reply_kind TOk = ''ok''" | "reply_kind (TOkIs _) = ''ok-if''"
| "reply_kind (TSpawned _ _) = ''spawned''" | "reply_kind (TSessions _ _) = ''sessions''"
| "reply_kind (TPeers _ _) = ''peers''" | "reply_kind (TTask _ _) = ''task''" | "reply_kind (TCard _) = ''card''"
| "reply_kind (TStatus _) = ''status''" | "reply_kind (TPane _ _ _) = ''pane''" | "reply_kind (TRouted _) = ''sent''"
| "reply_kind (TSent _ _) = ''sent''" | "reply_kind (TTeam _ _) = ''team''" | "reply_kind (TMember _) = ''member''"
| "reply_kind (TTeams _) = ''teams''" | "reply_kind (TMembers _) = ''members''" | "reply_kind (TCanon _ _) = ''canon''"
| "reply_kind (TWorker _ _) = ''worker''" | "reply_kind (TStopped _) = ''stopped''"
| "reply_kind (TExplained _ _) = ''explained''" | "reply_kind (TPath _ _ _) = ''path''"

definition tool_types :: "(string \<times> string) list" where
  "tool_types = [
     (''spawn'', ''spawned''), (''assign'', ''ok''), (''grant_channel'', ''ok''), (''list'', ''sessions''),
     (''list_peers'', ''peers''), (''get_task'', ''task''), (''set_scorecard'', ''ok''), (''record_verdict'', ''ok''),
     (''get_peer_card'', ''card''), (''peer_status'', ''status''), (''read_pane'', ''pane''),
     (''send_to_session'', ''sent''), (''pause'', ''ok''), (''alert_human'', ''ok''), (''create_team'', ''team''),
     (''join_team'', ''member''), (''leave_team'', ''ok-if''), (''list_teams'', ''teams''),
     (''list_memberships'', ''members''), (''set_review_axis'', ''ok''), (''note'', ''ok''), (''record_event'', ''ok''),
     (''read_canon'', ''canon''), (''spawn_worker'', ''worker''), (''stop_session'', ''stopped''),
     (''graph_explain'', ''explained''), (''graph_path'', ''path'')]"

definition tool_codes :: "int set" where
  "tool_codes = {- 32602, - 32603, - 32000, - 32004}"

fun well_typed :: "string \<Rightarrow> tool_res rt_res \<Rightarrow> bool" where
  "well_typed k (Ret (TError code m)) \<longleftrightarrow> code \<in> tool_codes"
| "well_typed k (Ret r) \<longleftrightarrow> reply_kind r = k"
| "well_typed k _ \<longleftrightarrow> True"

lemma well_typed_on_rt: "(\<And>x. well_typed k (Ret (h x))) \<Longrightarrow> well_typed k (fst (on_rt f h s))"
  by (auto simp: on_rt_def split: prod.split rt_res.split)

lemma well_typed_looking: "(\<And>x. well_typed k (fst (h x))) \<Longrightarrow> well_typed k (fst (looking h f s))"
  by (simp add: looking_def)

lemma well_typed_reply: "well_typed k (Ret r) \<Longrightarrow> well_typed k (fst (reply r s))"
  by simp

lemma well_typed_error [simp]:
  "well_typed k (Ret (invalid_args e))" "well_typed k (Ret (no_session nm))" "well_typed k (Ret (denied w))"
  "well_typed k (Ret (or_error w r x)) = (x = None \<longrightarrow> well_typed k (Ret r))"
  by (auto simp: invalid_args_def no_session_def denied_def or_error_def tool_codes_def split: option.split)

lemmas well_typed_rules = well_typed_on_rt well_typed_looking well_typed_reply


lemma well_typed_guarded:
  "(\<And>s. well_typed k (fst (act s))) \<Longrightarrow> well_typed k (fst (guarded w act c s))"
  by (auto simp: guarded_def intro: well_typed_looking)

lemma well_typed_spawn_worker: "well_typed ''worker'' (fst (tool_spawn_worker en c args s))"
  unfolding tool_spawn_worker_def Let_def
  by (rule well_typed_guarded)
    (auto simp: tool_codes_def intro!: well_typed_on_rt well_typed_looking split: sum.split)

lemma well_typed_stop_session: "well_typed ''stopped'' (fst (tool_stop_session en c args s))"
  unfolding tool_stop_session_def Let_def
  by (rule well_typed_guarded, rule stop_cases) (auto intro: well_typed_on_rt)

lemma well_typed_tools:
  "well_typed ''spawned'' (fst (tool_spawn en c args s))"
  "well_typed ''ok'' (fst (tool_assign en c args s))"
  "well_typed ''ok'' (fst (tool_grant_channel en c args s))"
  "well_typed ''sessions'' (fst (tool_list en c args s))"
  "well_typed ''peers'' (fst (tool_list_peers en c args s))"
  "well_typed ''task'' (fst (tool_get_task en c args s))"
  "well_typed ''ok'' (fst (tool_set_scorecard en c args s))"
  "well_typed ''ok'' (fst (tool_record_verdict en c args s))"
  "well_typed ''card'' (fst (tool_get_peer_card en c args s))"
  "well_typed ''status'' (fst (tool_peer_status en c args s))"
  "well_typed ''pane'' (fst (tool_read_pane en c args s))"
  "well_typed ''sent'' (fst (tool_send_to_session en c args s))"
  "well_typed ''ok'' (fst (tool_pause en c args s))"
  "well_typed ''ok'' (fst (tool_alert_human en c args s))"
  "well_typed ''team'' (fst (tool_create_team en c args s))"
  "well_typed ''member'' (fst (tool_join_team en c args s))"
  "well_typed ''ok-if'' (fst (tool_leave_team en c args s))"
  "well_typed ''teams'' (fst (tool_list_teams en c args s))"
  "well_typed ''members'' (fst (tool_list_memberships en c args s))"
  "well_typed ''ok'' (fst (tool_set_review_axis en c args s))"
  "well_typed ''ok'' (fst (tool_note en c args s))"
  "well_typed ''ok'' (fst (tool_record_event en c args s))"
  "well_typed ''canon'' (fst (tool_read_canon en c args s))"
  "well_typed ''explained'' (fst (tool_graph_explain en c args s))"
  "well_typed ''path'' (fst (tool_graph_path en c args s))"
  by (auto simp: tool_defs named_tool_def graph_tool_def tool_codes_def Let_def
      intro!: well_typed_on_rt well_typed_looking split: sum.split prod.split option.split list.split)

lemma typed_tools:
  "list_all (\<lambda>(nm, t). well_typed (the (map_of tool_types nm)) (fst (t en c args s))) tools"
  by (simp add: tools_def tool_types_def well_typed_tools well_typed_spawn_worker well_typed_stop_session)

lemma tool_typed:
  assumes "map_of tools nm = Some t"
  shows "well_typed (the (map_of tool_types nm)) (fst (t en c args s))"
  using typed_tools [of en c args s] map_of_SomeD [OF assms] by (force simp: list_all_iff)

lemma well_typed_res:
  assumes "well_typed k (Ret r)"
  shows "(case r of TError code m \<Rightarrow> code \<in> tool_codes | _ \<Rightarrow> reply_kind r = k)"
  using assms by (cases r) simp_all

lemma advertised: "(map_of toolList nm \<noteq> None) = (map_of tools nm \<noteq> None)"
  by (simp add: toolList_def tools_def)

lemma types_cover: "(map_of tool_types nm = None) = (map_of tools nm = None)"
  by (simp add: tool_types_def tools_def)

lemma direct_typed:
  assumes "fst (toolCallDirect nm en c args s) = Ret t"
  shows "case t of TError code m \<Rightarrow> code \<in> insert (- 32601) tool_codes
    | _ \<Rightarrow> map_of tool_types nm = Some (reply_kind t)"
proof (cases "map_of tools nm")
  case None
  then show ?thesis using assms by (auto simp: toolCallDirect_def)
next
  case (Some f)
  moreover obtain k where "map_of tool_types nm = Some k" using Some types_cover [of nm] by auto
  ultimately show ?thesis
    using well_typed_res [of k t] tool_typed [OF Some, of en c args s] assms by (cases t) simp_all
qed

lemma map_res_Ret: "(map_res f r = Ret y) = (\<exists>x. r = Ret x \<and> y = f x)"
  by (auto simp: map_res_def split: rt_res.split)

text \<open>C3: whatever is asked, a reply carries the request's id; its error code is one of six; a direct call of a
  tool answers the kind of result the tool has or one of the tool codes; \<open>tools/call\<close> answers a content
  envelope even when the tool fails, and an error of its own only for malformed parameters or a name
  without the prefix; and the tools advertised are exactly the tools implemented.\<close>

theorem mcp_reply_shape:
  assumes "fst (dispatch render en rq s) = Ret resp"
  shows "rr_ID resp = rq_ID rq
    \<and> (\<forall>code m. rr_Out resp = Inl (code, m) \<longrightarrow> code \<in> {- 32600, - 32601} \<union> tool_codes)
    \<and> (\<forall>nm. rq_Method rq = ''chepherd.'' @ nm \<longrightarrow> (case rr_Out resp of
          Inl (code, m) \<Rightarrow> code \<in> insert (- 32601) tool_codes
        | Inr r \<Rightarrow> \<exists>t. r = RTool t \<and> map_of tool_types nm = Some (reply_kind t)))
    \<and> (rq_Method rq = ''tools/call'' \<longrightarrow> (case rr_Out resp of
          Inl (code, m) \<Rightarrow> code \<in> {- 32601, - 32602} | Inr r \<Rightarrow> \<exists>text failed. r = RContent text failed))
    \<and> (map_of toolList nm \<noteq> None) = (map_of tools nm \<noteq> None)"
proof -
  have out: "\<exists>t. fst (toolCallDirect nm en (CurrentCaller s) (rq_Params rq) s) = Ret t \<and>
      resp = \<lparr>rr_ID = rq_ID rq, rr_Out = direct_out t\<rparr>" if "rq_Method rq = ''chepherd.'' @ nm" for nm
    using assms dispatch_direct [of render en "rq_ID rq" nm "rq_Params rq" s] that
    by (cases rq) (auto simp: map_res_Ret)
  have direct: "case rr_Out resp of Inl (code, m) \<Rightarrow> code \<in> insert (- 32601) tool_codes
      | Inr r \<Rightarrow> \<exists>t. r = RTool t \<and> map_of tool_types nm = Some (reply_kind t)"
    if "rq_Method rq = ''chepherd.'' @ nm" for nm
  proof -
    from out [OF that] obtain t where t: "fst (toolCallDirect nm en (CurrentCaller s) (rq_Params rq) s) = Ret t"
      "resp = \<lparr>rr_ID = rq_ID rq, rr_Out = direct_out t\<rparr>" by blast
    show ?thesis using direct_typed [OF t(1)] by (cases t) (simp_all add: t(2) direct_out_def)
  qed
  have call: "rr_ID resp = rq_ID rq \<and> (case rr_Out resp of
      Inl (code, m) \<Rightarrow> code \<in> {- 32601, - 32602} | Inr r \<Rightarrow> \<exists>text failed. r = RContent text failed)"
    if "rq_Method rq = ''tools/call''"
    using assms that
    by (auto simp: dispatch_def toolCall_def map_res_Ret Let_def split: sum.splits prod.splits if_splits)
  have other: "rr_ID resp = rq_ID rq \<and>
      (\<forall>code m. rr_Out resp = Inl (code, m) \<longrightarrow> code \<in> {- 32600, - 32601})"
    if "rq_Method rq \<noteq> ''tools/call''" "\<not> has_prefix ''chepherd.'' (rq_Method rq)"
    using assms that by (auto simp: dispatch_def Let_def split: if_splits)
  have "rr_ID resp = rq_ID rq \<and> (\<forall>code m. rr_Out resp = Inl (code, m) \<longrightarrow> code \<in> {- 32600, - 32601} \<union> tool_codes)"
  proof (cases "has_prefix ''chepherd.'' (rq_Method rq)")
    case True
    then obtain nm where nm: "rq_Method rq = ''chepherd.'' @ nm" by (auto simp: has_prefix_iff)
    show ?thesis using out [OF nm] direct [OF nm] by auto
  next
    case False
    show ?thesis
      using call other [OF _ False] by (cases "rq_Method rq = ''tools/call''") (auto simp: tool_codes_def)
  qed
  then show ?thesis using direct call advertised [of nm] by blast
qed

text \<open>C3 on a call of an unknown tool.\<close>

lemma mcp_reply_shape_witness:
  "\<exists>resp. fst (dispatch (\<lambda>_. []) demo_env \<lparr>rq_ID = None, rq_Method = ''chepherd.fly'', rq_Params = RawEmpty\<rparr> demo_mcp) = Ret resp
     \<and> rr_ID resp = None"
proof -
  define resp where "resp = \<lparr>rr_ID = None, rr_Out = (Inl (- 32601, ''unknown chepherd tool: fly'') :: (int \<times> string) + mcp_result)\<rparr>"
  have "fst (dispatch (\<lambda>_. []) demo_env \<lparr>rq_ID = None, rq_Method = ''chepherd.fly'', rq_Params = RawEmpty\<rparr> demo_mcp) = Ret resp"
    using dispatch_direct [of "\<lambda>_. []" demo_env None "''fly''" RawEmpty demo_mcp]
    by (simp add: resp_def toolCallDirect_def tools_def map_res_def direct_out_def)
  from mcp_reply_shape [OF this] this show ?thesis by auto
qed

section \<open>The token\<close>

lemma byte_word_eq_iff: "(of_char c :: 8 word) = of_char d \<longleftrightarrow> c = d"
proof
  assume "(of_char c :: 8 word) = of_char d"
  then have "unat (word_of_nat (of_char c) :: 8 word) = unat (word_of_nat (of_char d) :: 8 word)"
    by (simp add: of_nat_of_char)
  then have "(of_char c :: nat) mod 256 = of_char d mod 256"
    by (simp add: unat_of_nat)
  then show "c = d" by (simp only: of_char_mod_256 of_char_eq_iff)
qed simp

lemma word_xor_zero: "(xor a b :: 8 word) = 0 \<longleftrightarrow> a = b"
proof
  assume "xor a b = 0"
  then have "xor (xor a b) b = b" by simp
  then show "a = b" by (simp add: xor.assoc)
qed simp

lemma eq_diff_zero: "length xs = length ys \<Longrightarrow> eq_diff xs ys d = 0 \<longleftrightarrow> d = 0 \<and> xs = ys"
  by (induction xs ys arbitrary: d rule: list_induct2)
    (auto simp: or_eq_0_iff byte_word_eq_iff word_xor_zero)

lemma constantTimeEq_iff: "constantTimeEq a b \<longleftrightarrow> a = b"
  by (auto simp: constantTimeEq_def eq_diff_zero)

text \<open>The token presented is the first one given of the bearer header, the token header and the query.\<close>

definition presented :: "mcp_http \<Rightarrow> string" where
  "presented r =
     (let b = trim_prefix ''Bearer '' (mh_Authorization r) in
      if has_prefix ''Bearer '' (mh_Authorization r) \<and> b \<noteq> [] then b
      else if mh_Token r \<noteq> [] then mh_Token r else mh_QueryToken r)"

lemma requireAuth_exact: "requireAuth tok r = None \<longleftrightarrow> tok = [] \<or> presented r = tok"
  by (auto simp: requireAuth_def presented_def constantTimeEq_iff Let_def)

text \<open>A request without the token changes nothing, whatever it asks.\<close>

lemma handleRPC_needs_token:
  "tok \<noteq> [] \<Longrightarrow> presented r \<noteq> tok \<Longrightarrow> snd (handleRPC render tok en r s) = s"
  "tok \<noteq> [] \<Longrightarrow> presented r \<noteq> tok \<Longrightarrow> snd (handleStreamableHTTP render tok en r s) = s"
  using requireAuth_exact [of tok r]
  by (auto simp: handleRPC_def handleStreamableHTTP_def handleStreamablePOST_def split: option.split)

section \<open>Tasks and their recipients\<close>

text \<open>C19: \<open>get_task\<close> hands a task to the caller whose name it carries as context id, to nobody else unless it
  carries none, and only then tells the watchdog the task was fetched. Delivery also accepts a session's
  id as context id: such a task is injected into the session's terminal and its agent may not fetch it.\<close>

theorem task_recipient:
  assumes "en_task en = Some get" "get t = Inr rec" "t \<noteq> []" "arg_str ''taskID'' args = t" "c \<noteq> []"
    and "arg_str ''contextId'' (InputBlob rec) = x"
  shows "(fst (tool_get_task en c args s) = Ret (TTask (OutputBlob rec) (InputBlob rec)) \<longleftrightarrow> x = [] \<or> x = c)
    \<and> snd (tool_get_task en c args s)
        = (if (x = [] \<or> x = c) \<and> en_deliver en \<noteq> None then s\<lparr>mc_fetched := mc_fetched s @ [t]\<rparr> else s)
    \<and> (\<forall>info. map_of (rt_info (mc_rt s)) x = Some info \<and> x \<noteq> [] \<and> \<not> rt_wedged (mc_rt s) \<and> si_Name info \<notin> {[], x} \<longrightarrow>
         GetByContextID x (mc_rt s) = Ret (Some info) \<and>
         (\<exists>msg. fst (tool_get_task en (si_Name info) args s) = Ret (TError (- 32004) msg)))"
  using assms by (auto simp: tool_get_task_def GetByContextID_def Let_def)

definition demo_rec :: ptask where
  "demo_rec = \<lparr>ID = ''t1'', RunnerSID = ''ann-1'', State = ''WORKING'', Method = [],
     InputBlob = obj [(''contextId'', ''ann-1'')], OutputBlob = RawEmpty, AuthChallenge = [], CreatedAt = 0, UpdatedAt = 0\<rparr>"

text \<open>C19 on a task sent to ann's session id.\<close>

lemma task_recipient_witness:
  "GetByContextID ''ann-1'' (mc_rt demo_mcp) = Ret (Some (example_info ''ann-1'' ''ann'')) \<and>
   (\<exists>msg. fst (tool_get_task (demo_env\<lparr>en_task := Some (\<lambda>_. Inr demo_rec)\<rparr>) ''ann'' (obj [(''taskID'', ''t1'')]) demo_mcp)
      = Ret (TError (- 32004) msg))"
proof -
  have "arg_str ''contextId'' (InputBlob demo_rec) = ''ann-1''" "arg_str ''taskID'' (obj [(''taskID'', ''t1'')]) = ''t1''"
    by (simp_all add: demo_rec_def arg_defs)
  from task_recipient [OF _ _ _ this(2) _ this(1), of "demo_env\<lparr>en_task := Some (\<lambda>_. Inr demo_rec)\<rparr>" "\<lambda>_. Inr demo_rec"
      "''ann''" demo_mcp, THEN conjunct2, THEN conjunct2, rule_format, of "example_info ''ann-1'' ''ann''"]
  show ?thesis by (simp add: example_info_def)
qed

section \<open>Arguments that are lost\<close>

text \<open>
  The schemas advertise names with underscores, the structures decode others: a channel granted as the
  schema says is granted between the empty team names, and a team's canon path and a member's brief
  are dropped.
\<close>

lemma schema_arguments_lost:
  "tool_grant_channel en c (obj [(''from_team'', f), (''to_team'', t), (''scope'', sc)])
     = on_rt (GrantChannel [] [] sc) (\<lambda>_. TOk)"
  "tool_join_team en c (obj [(''agent'', a), (''team'', t), (''role'', r), (''brief_override'', b)])
     = tool_join_team en c (obj [(''agent'', a), (''team'', t), (''role'', r)])"
  "tool_create_team en c (obj [(''name'', n), (''canon_path'', p), (''topology'', y)])
     = tool_create_team en c (obj [(''name'', n), (''topology'', y)])"
  by (simp_all add: tool_grant_channel_def tool_join_team_def tool_create_team_def fun_eq_iff arg_defs)

end
