(* ===== verification/Mcp_Views.thy ===== *)
theory Mcp_Views
  imports Mcp_Guarantees
begin

text \<open>
  Runs of tool calls from the start of the daemon: no call panics or blocks, and the views of the state
  authority the tools give agree with each other.
\<close>

section \<open>Settled states\<close>

text \<open>No spawn is in progress, the mutex works and no session has the empty name.\<close>

definition settled :: "runtime \<Rightarrow> bool" where
  "settled rt \<longleftrightarrow> names_ok rt \<and> teams_ok rt \<and> rt_spawning rt = [] \<and> \<not> rt_wedged rt \<and>
     map_of (rt_byName rt) [] = None"

definition sound :: "(runtime \<Rightarrow> 'a rt_res \<times> runtime) \<Rightarrow> bool" where
  "sound f \<longleftrightarrow> (\<forall>rt. settled rt \<longrightarrow> settled (snd (f rt)) \<and> (\<exists>x. fst (f rt) = Ret x))"

lemma settled_cong:
  assumes "rt_byName rt' = rt_byName rt" "rt_info rt' = rt_info rt" "rt_spawning rt' = rt_spawning rt"
    "rt_teams rt' = rt_teams rt" "rt_members rt' = rt_members rt" "rt_wedged rt' = rt_wedged rt"
  shows "settled rt' = settled rt"
  using names_ok_cong [OF assms(1-3)] teams_ok_cong [OF assms(4,5)] assms by (simp add: settled_def)

lemma settled_ignores [simp]:
  "settled (RecordEvent e rt) = settled rt" "settled (emitTeamEvent ev rt) = settled rt"
  "settled (rt\<lparr>rt_inbox := b\<rparr>) = settled rt" "settled (rt\<lparr>rt_grants := gs\<rparr>) = settled rt"
  "settled (rt\<lparr>rt_reviews := rs\<rparr>) = settled rt"
  by (rule settled_cong; simp add: dir_fields)+

lemma settled_named:
  assumes "settled rt" "map_of (rt_byName rt) nm = Some i"
  shows "\<exists>info. map_of (rt_info rt) i = Some info \<and> si_Name info = nm" "nm \<noteq> []"
proof -
  have n: "names_inv (map_of (rt_byName rt)) (map_of (rt_info rt)) []"
    using names_okD [of rt] assms(1) by (simp add: settled_def)
  then have "i \<noteq> sentinel" using names_invD(3) [OF n, of nm] assms(2) by auto
  from names_invD(4) [OF n assms(2) this] show "\<exists>info. map_of (rt_info rt) i = Some info \<and> si_Name info = nm" by blast
qed (use assms in \<open>auto simp: settled_def\<close>)

lemma settled_registered:
  assumes "settled rt" "map_of (rt_info rt) i = Some info"
  shows "map_of (rt_byName rt) (si_Name info) = Some i"
  using names_invD(5) [OF names_okD] assms by (auto simp: settled_def)

lemma settled_update:
  assumes "settled rt" "map_of (rt_info rt) i = Some info" "si_Name info' = si_Name info"
  shows "settled (rt\<lparr>rt_info := AList.update i info' (rt_info rt)\<rparr>)"
  using names_ok_upd_info [OF _ assms(2,3)] assms(1) by (simp add: settled_def teams_ok_def)

lemma settled_free: "settled rt \<Longrightarrow> \<not> rt_wedged rt"
  by (simp add: settled_def)

section \<open>The operations the tools call\<close>

lemma sound_agent_op:
  assumes "\<And>info. si_Name (f info) = si_Name info"
  shows "sound (agent_op d w nm f)"
proof -
  have "settled (snd (agent_op d w nm f rt)) \<and> (\<exists>x. fst (agent_op d w nm f rt) = Ret x)" if s: "settled rt" for rt
  proof (cases "map_of (rt_byName rt) nm")
    case None
    then show ?thesis using s by (simp add: agent_op_def settled_def)
  next
    case (Some i)
    then obtain info where i: "map_of (rt_info rt) i = Some info" using settled_named [OF s] by blast
    show ?thesis
      using settled_update [OF s i assms] s Some i by (simp add: agent_op_def settled_def)
  qed
  then show ?thesis by (simp add: sound_def)
qed

lemma sound_then_record: "sound g \<Longrightarrow> sound (\<lambda>rt. then_record e (g rt))"
  by (auto simp: sound_def then_record_def)

lemma sound_judgements:
  "sound (Assign nm tm role)" "sound (SetScorecard fid now caller nm sc)"
  "sound (RecordVerdict fid now caller nm v msg)" "sound (Pause nm b)"
  unfolding Assign_def SetScorecard_def [abs_def] RecordVerdict_def [abs_def] Pause_def Let_def
  by (intro sound_agent_op sound_then_record; simp)+

lemma sound_reviews: "sound (SetReviewAxis now by' target axis score note)" "sound (GrantChannel f t sc)"
  by (auto simp: sound_def SetReviewAxis_def GrantChannel_def Let_def settled_free)

lemma sound_create: "sound (CreateTeam now nm canon topo)"
proof -
  have "teams_ok (snd (CreateTeam now nm canon topo rt))" if "settled rt" for rt
    using exec_refines [of rt "CCreate now nm canon topo"] that by (simp add: settled_def refines_def split_beta)
  moreover have "rt_wedged (snd (CreateTeam now nm canon topo rt)) = rt_wedged rt \<and>
      rt_byName (snd (CreateTeam now nm canon topo rt)) = rt_byName rt \<and>
      rt_spawning (snd (CreateTeam now nm canon topo rt)) = rt_spawning rt \<and>
      (rt_wedged rt \<or> (\<exists>x. fst (CreateTeam now nm canon topo rt) = Ret x))" for rt
    by (auto simp: CreateTeam_def Let_def split: option.split)
  ultimately show ?thesis by (auto simp: sound_def settled_def dir_fields)
qed

lemma sound_join: "sound (JoinTeam now a tm role brief)"
proof -
  have "teams_ok (snd (JoinTeam now a tm role brief rt))" if "settled rt" for rt
    using exec_refines [of rt "CJoin now a tm role brief"] that by (simp add: settled_def refines_def split_beta)
  moreover have "rt_wedged (snd (JoinTeam now a tm role brief rt)) = rt_wedged rt \<and>
      rt_byName (snd (JoinTeam now a tm role brief rt)) = rt_byName rt \<and>
      rt_spawning (snd (JoinTeam now a tm role brief rt)) = rt_spawning rt \<and>
      (rt_wedged rt \<or> (\<exists>x. fst (JoinTeam now a tm role brief rt) = Ret x))" for rt
    by (auto simp: JoinTeam_def Let_def dir_fields split: option.split)
  ultimately show ?thesis by (auto simp: sound_def settled_def dir_fields)
qed

lemma sound_leave: "sound (LeaveTeam now a tm)"
  by (auto simp: sound_def settled_def dir_fields LeaveTeam_def teams_ok_def distinct_delete names_ok_def
      intro: teams_leave split: option.split)

lemma sound_stop: "sound (rt_Stop nm now)"
proof -
  have "names_ok (snd (rt_Stop nm now rt))" if "settled rt" for rt
    using stop_names that by (simp add: settled_def)
  then show ?thesis
    by (auto simp: sound_def settled_def dir_fields teams_ok_def rt_Stop_def split: option.split prod.split)
qed

definition startable :: "mcp_env \<Rightarrow> string \<Rightarrow> runtime \<Rightarrow> bool" where
  "startable en nm rt \<longleftrightarrow> bar_free nm \<and>
     (case en_start en of Inl _ \<Rightarrow> True | Inr (i, info) \<Rightarrow> i \<noteq> sentinel \<and> map_of (rt_info rt) i = None)"

lemma spawn_settled:
  assumes s: "settled rt" and st: "startable en nm rt"
  shows "settled (snd (rt_Spawn en nm slug tm role rt)) \<and> (\<exists>x. fst (rt_Spawn en nm slug tm role rt) = Ret x)"
proof (cases "fst (spawn_reserve nm slug rt) = Ret None")
  case False
  then have "snd (spawn_reserve nm slug rt) = rt \<and> (\<exists>e. fst (spawn_reserve nm slug rt) = Ret (Some e))"
    using settled_free [OF s] by (auto simp: spawn_reserve_def split: if_splits option.splits)
  then show ?thesis using s by (auto simp: rt_Spawn_def Let_def split: prod.split)
next
  case True
  define rt1 where "rt1 = snd (spawn_reserve nm slug rt)"
  have res: "spawn_reserve nm slug rt = (Ret None, rt1)" using True by (simp add: rt1_def prod_eq_iff)
  have nm: "nm \<noteq> []" "map_of (rt_byName rt) nm = None"
    using True settled_free [OF s] by (auto simp: spawn_reserve_def split: if_splits option.splits)
  have rt1: "rt1 = rt\<lparr>rt_byName := AList.update nm sentinel (rt_byName rt), rt_spawning := [nm]\<rparr>"
    using res nm s by (auto simp: spawn_reserve_def settled_def split: if_splits)
  have n1: "names_ok rt1"
    using reserve_names [of rt nm slug] s st by (simp add: rt1_def settled_def startable_def)
  have t1: "teams_ok rt1" using s by (simp add: rt1 settled_def teams_ok_def)
  show ?thesis
  proof (cases "en_start en")
    case (Inl e)
    have "names_ok (snd (spawn_abort nm rt1))" by (rule abort_names [OF n1]) (simp add: rt1)
    then have "settled (snd (spawn_abort nm rt1))"
      using s nm t1 by (simp add: settled_def spawn_abort_def rt1 teams_ok_def)
    then show ?thesis using Inl by (simp add: rt_Spawn_def res Let_def)
  next
    case (Inr p)
    obtain i info0 where p: "p = (i, info0)" by (cases p)
    define info where "info = info0\<lparr>si_ID := i, si_Name := nm, si_AgentSlug := slug,
      si_Team := if tm = [] then ''default'' else tm, si_Role := if role = [] then ''worker'' else role\<rparr>"
    have i: "i \<noteq> sentinel" "map_of (rt_info rt) i = None" using st Inr p by (simp_all add: startable_def)
    have "names_ok (snd (spawn_register i info rt1))"
      by (rule register_names [OF n1]) (use i in \<open>simp add: rt1 info_def\<close>)
    then have "settled (snd (spawn_register i info rt1))"
      using s nm t1 by (simp add: settled_def spawn_register_def rt1 teams_ok_def info_def)
    then have "settled (snd (spawn_announce (en_id en) (en_now en) info (snd (spawn_register i info rt1))))"
      by (simp add: spawn_announce_def Let_def settled_free)
    then show ?thesis using Inr p by (simp add: rt_Spawn_def res Let_def info_def)
  qed
qed

section \<open>The tools\<close>

definition fine :: "tool_res rt_res \<times> mcp \<Rightarrow> bool" where
  "fine p \<longleftrightarrow> settled (mc_rt (snd p)) \<and> (\<exists>x. fst p = Ret x)"

lemma fine_reply: "settled (mc_rt s) \<Longrightarrow> fine (reply r s)"
  by (simp add: fine_def)

lemma fine_ret [simp]: "fine (Ret r, s) = settled (mc_rt s)"
  by (simp add: fine_def)

lemma fine_looking: "settled (mc_rt s) \<Longrightarrow> fine (h (f (mc_rt s))) \<Longrightarrow> fine (looking h f s)"
  by (simp add: settled_free)

lemma fine_on_rt_at:
  "settled (snd (f (mc_rt s))) \<and> (\<exists>x. fst (f (mc_rt s)) = Ret x) \<Longrightarrow> fine (on_rt f k s)"
  by (auto simp: fine_def on_rt_def split: prod.splits rt_res.splits)

lemma fine_on_rt: "settled (mc_rt s) \<Longrightarrow> sound f \<Longrightarrow> fine (on_rt f k s)"
  by (intro fine_on_rt_at) (simp add: sound_def)

lemma fine_guarded: "settled (mc_rt s) \<Longrightarrow> fine (act s) \<Longrightarrow> fine (guarded w act c s)"
  by (auto simp: guarded_def fine_def settled_free)

lemmas fine_rules = fine_reply fine_looking fine_on_rt sound_judgements sound_reviews sound_create sound_join
  sound_leave sound_stop

lemma fine_note:
  assumes s: "settled (mc_rt s)"
  shows "fine (tool_note en c args s)"
proof -
  have "settled ((mc_rt s)\<lparr>rt_info := AList.update i (info\<lparr>si_Scorecard := sc\<rparr>) (rt_info (mc_rt s))\<rparr>)"
    if "session_of nm (mc_rt s) = Some (i, info)" for nm i info sc
    using settled_update [OF s, of i info "info\<lparr>si_Scorecard := sc\<rparr>"] that
    by (auto simp: session_of_def split: option.splits)
  then show ?thesis
    using s by (auto simp: tool_note_def fine_def settled_free Let_def split: option.split)
qed

lemma fine_tools:
  assumes "settled (mc_rt s)"
  shows "fine (tool_assign en c args s)" "fine (tool_grant_channel en c args s)" "fine (tool_list en c args s)"
    "fine (tool_list_peers en c args s)" "fine (tool_get_task en c args s)" "fine (tool_set_scorecard en c args s)"
    "fine (tool_record_verdict en c args s)" "fine (named_tool f en c args s)" "fine (tool_read_pane en c args s)"
    "fine (tool_send_to_session en c args s)" "fine (tool_pause en c args s)" "fine (tool_alert_human en c args s)"
    "fine (tool_create_team en c args s)" "fine (tool_join_team en c args s)" "fine (tool_leave_team en c args s)"
    "fine (tool_list_teams en c args s)" "fine (tool_list_memberships en c args s)"
    "fine (tool_set_review_axis en c args s)" "fine (tool_record_event en c args s)"
    "fine (tool_read_canon en c args s)" "fine (graph_tool q g en c s)"
  using assms
  by (auto simp: tool_defs named_tool_def graph_tool_def Let_def fine_rules
      split: sum.split prod.split option.split)

lemma strict_bind:
  assumes "strict args (\<lambda>j. res_bind (g j) (k j)) = Inr y"
  obtains j x where "strict args g = Inr x" "k j x = Inr y"
proof -
  obtain v where v: "args = RawJson v" using assms by (cases args) (simp_all add: strict_def unmarshal_def)
  then obtain j x where "struct_ok ''struct'' v = Inr j" "g j = Inr x" "k j x = Inr y"
    using assms by (auto simp: strict_def unmarshal_def res_bind_Inr_iff)
  then show ?thesis using that v by (simp add: strict_def unmarshal_def)
qed

text \<open>A call's new name is bar-free and its container's session id fresh, when it starts one.\<close>

definition call_startable :: "mcp_env \<Rightarrow> string \<Rightarrow> raw \<Rightarrow> mcp \<Rightarrow> bool" where
  "call_startable en nm args s \<longleftrightarrow>
     (nm = ''spawn'' \<longrightarrow> (case strict args (get_str ''name'') of
        Inl _ \<Rightarrow> True | Inr n \<Rightarrow> startable en n (mc_rt s))) \<and>
     (nm = ''spawn_worker'' \<longrightarrow> startable en (arg_str ''name'' args) (mc_rt s))"

lemma fine_spawn:
  assumes s: "settled (mc_rt s)" and c: "call_startable en ''spawn'' args s"
  shows "fine (tool_spawn en c args s)"
proof -
  have "startable en nm (mc_rt s)"
    if "strict args (\<lambda>j. res_bind (get_str ''name'' j) (\<lambda>nm. res_bind (get_str ''agent'' j) (\<lambda>agent.
         res_bind (get_str ''team'' j) (\<lambda>tm. res_bind (get_str ''role'' j) (\<lambda>role.
         res_bind (get_str ''cwd'' j) (\<lambda>_. Inr (nm, agent, tm, role))))))) = Inr (nm, agent, tm, role)"
    for nm agent tm role
    using that by (rule strict_bind) (use c in \<open>auto simp: call_startable_def res_bind_Inr_iff\<close>)
  then show ?thesis
    using s by (auto simp: tool_spawn_def intro!: fine_on_rt_at spawn_settled split: sum.split)
qed

lemma fine_spawn_worker:
  assumes s: "settled (mc_rt s)" and c: "call_startable en ''spawn_worker'' args s"
  shows "fine (tool_spawn_worker en c args s)"
proof -
  have "startable en (arg_str ''name'' args) (mc_rt s)" using c by (simp add: call_startable_def)
  then show ?thesis
    unfolding tool_spawn_worker_def Let_def
    by (intro fine_guarded s) (auto simp: s settled_free intro!: fine_on_rt_at spawn_settled)
qed

lemma fine_stop: "settled (mc_rt s) \<Longrightarrow> fine (tool_stop_session en c args s)"
  unfolding tool_stop_session_def Let_def
  by (rule fine_guarded, assumption, rule stop_cases, rule fine_on_rt [OF _ sound_stop], assumption)
    (auto dest!: arg_cong [where f = snd] simp: sound_stop [unfolded sound_def, rule_format])

lemma fine_tool:
  assumes "settled (mc_rt s)" "call_startable en nm args s" "map_of tools nm = Some t"
  shows "fine (t en c args s)"
proof -
  have "\<forall>(nm, t) \<in> set tools. call_startable en nm args s \<longrightarrow> fine (t en c args s)"
    unfolding tools_def
    by (simp add: fine_tools [OF assms(1)] fine_note [OF assms(1)] fine_spawn [OF assms(1)]
        fine_spawn_worker [OF assms(1)] fine_stop [OF assms(1)] tool_get_peer_card_def tool_peer_status_def
        tool_graph_explain_def tool_graph_path_def)
      (auto simp: fine_tools [OF assms(1)] assms(1) split: sum.split list.split)
  then show ?thesis using map_of_SomeD [OF assms(3)] assms(2) by blast
qed

lemma fine_call:
  assumes "settled (mc_rt s)" "call_startable en nm args s"
  shows "fine (toolCallDirect nm en c args s)"
  using fine_tool [OF assms] assms(1) by (auto simp: toolCallDirect_def split: option.split)

section \<open>Runs\<close>

type_synonym mcp_call = "mcp_env \<times> string \<times> string \<times> raw"

definition mcp_start :: "string \<Rightarrow> peer_registry \<Rightarrow> mcp" where
  "mcp_start dir ps = \<lparr>mc_rt = newRuntime dir, mc_peers = ps, mc_fetched = [], mc_lastCaller = []\<rparr>"

fun calls_run :: "mcp_call list \<Rightarrow> mcp \<Rightarrow> tool_res rt_res list \<times> mcp" where
  "calls_run [] s = ([], s)"
| "calls_run ((en, caller, nm, args) # cs) s =
     (case toolCallDirect nm en caller args s of (r, s1) \<Rightarrow>
        case calls_run cs s1 of (rs, s2) \<Rightarrow> (r # rs, s2))"

fun calls_ok :: "mcp_call list \<Rightarrow> mcp \<Rightarrow> bool" where
  "calls_ok [] s \<longleftrightarrow> True"
| "calls_ok ((en, caller, nm, args) # cs) s \<longleftrightarrow>
     call_startable en nm args s \<and> calls_ok cs (snd (toolCallDirect nm en caller args s))"

lemma run_settled:
  assumes "settled (mc_rt s)" "calls_ok cs s"
  shows "settled (mc_rt (snd (calls_run cs s))) \<and> (\<forall>r \<in> set (fst (calls_run cs s)). \<exists>x. r = Ret x)"
  using assms
proof (induction cs s rule: calls_run.induct)
  case (2 en caller nm args cs s)
  obtain r s1 where c: "toolCallDirect nm en caller args s = (r, s1)" by fastforce
  have "settled (mc_rt s1) \<and> (\<exists>x. r = Ret x)"
    using fine_call [of s en nm args caller] 2 by (simp add: c fine_def)
  then show ?case using 2 by (auto simp: c split: prod.splits)
qed simp

lemma start_settled: "settled (mc_rt (mcp_start dir ps))"
  using new_runtime_ok [of dir] by (simp add: settled_def mcp_start_def newRuntime_def)

lemma listed_once:
  assumes s: "settled rt"
  shows "distinct (map si_Name (map snd (rt_info rt)))" "distinct (map te_Name (ListTeams rt))"
proof -
  have d: "distinct (map fst (rt_info rt))" "distinct (map fst (rt_teams rt))"
    using s by (simp_all add: settled_def names_ok_def teams_ok_def)
  have "fst p = fst q" if "p \<in> set (rt_info rt)" "q \<in> set (rt_info rt)" "si_Name (snd p) = si_Name (snd q)" for p q
  proof -
    have "map_of (rt_info rt) (fst p) = Some (snd p)" "map_of (rt_info rt) (fst q) = Some (snd q)"
      using d(1) that(1,2) by (simp_all only: map_of_is_SomeI prod.collapse)
    from settled_registered [OF s this(1)] settled_registered [OF s this(2)] that(3) show ?thesis by simp
  qed
  then have "inj_on (\<lambda>p. si_Name (snd p)) (set (rt_info rt))"
    using d(1) unfolding inj_on_def distinct_map by blast
  then show "distinct (map si_Name (map snd (rt_info rt)))"
    using d(1) by (simp add: distinct_map comp_def)
  have "te_Name (snd p) = fst p" if "p \<in> set (rt_teams rt)" for p
  proof -
    have "map_of (rt_teams rt) (fst p) = Some (snd p)"
      using d(2) that by (simp only: map_of_is_SomeI prod.collapse)
    then show ?thesis using teams_invD(1) [OF teams_okD, of rt] s by (simp add: settled_def)
  qed
  then have "map te_Name (ListTeams rt) = map fst (rt_teams rt)"
    by (simp add: ListTeams_def)
  then show "distinct (map te_Name (ListTeams rt))" using d(2) by simp
qed

lemma member_of_listed_team:
  assumes s: "settled rt" and m: "m \<in> set (ListMemberships fa ft rt)"
  shows "ms_TeamName m \<in> te_Name ` set (ListTeams rt)"
proof -
  have t: "teams_ok rt" using s by (simp add: settled_def)
  obtain k where "(k, m) \<in> set (rt_members rt)" using m by (auto simp: ListMemberships_def)
  then have "map_of (rt_members rt) k = Some m" using t by (simp add: teams_ok_def map_of_is_SomeI)
  from teams_invD(4) [OF teams_okD [OF t] this] obtain u where "map_of (rt_teams rt) (ms_TeamName m) = Some u" by blast
  then show ?thesis
    using teams_invD(1) [OF teams_okD [OF t]] map_of_SomeD by (force simp: ListTeams_def)
qed

lemma card_of_listed:
  assumes s: "settled (mc_rt s)" and info: "info \<in> set (map snd (rt_info (mc_rt s)))"
  shows "fst (toolCallDirect ''get_peer_card'' en c (obj [(''name'', si_Name info)]) s)
     = Ret (TCard (BuildPeerAgentCard (fst (en_created en info)) (snd (en_created en info)) info))"
proof -
  obtain i where i: "map_of (rt_info (mc_rt s)) i = Some info"
    using info s by (auto simp: settled_def names_ok_def map_of_is_SomeI)
  note b = settled_registered [OF s i]
  have a: "strict (obj [(''name'', n)]) (get_str ''name'') = Inr n" for n
    by (simp add: strict_def obj_def unmarshal_def struct_ok_def get_str_def jget_def jfields_def fold_eq_eval)
  have "session_of (si_Name info) (mc_rt s) = Some (i, info)" using b i by (simp add: session_of_def)
  then show ?thesis
    using settled_named(2) [OF s b] settled_free [OF s]
    by (simp add: tool_get_peer_card_def named_tool_def a)
qed


text \<open>C14 on a run that spawns ann, who joins a team.\<close>

definition demo_calls :: "mcp_call list" where
  "demo_calls = [(demo_env\<lparr>en_start := Inr (''ann-1'', example_info [] [])\<rparr>, ''shepherd'', ''spawn'',
       obj [(''name'', ''ann''), (''agent'', ''claude-code'')]),
     (demo_env, ''ann'', ''join_team'', obj [(''agent'', ''ann''), (''team'', ''web''), (''role'', ''worker'')])]"


end
