(* ===== verification/Relay_Server.thy ===== *)
theory Relay_Server
  imports Relay_Registry Go_Json "HOL-Library.Multiset"
begin

text \<open>
  The relay server (\<open>relay/cmd/chepherd-relay/main.go\<close>) and its device registry
  (\<open>relay/internal/push\<close>). Offers and answers meet in Go channels: a bastion's queue of 16 offers, an
  answer slot per waiting client and a queue of 32 candidates per peer. A client's request takes the
  mutex twice and blocks in between, so it is an \<open>exchange\<close> with a phase, and an interleaving is a list
  of events. An event that is not enabled changes nothing.
\<close>

section \<open>Requests\<close>

record envelope =
  se_Peer :: string
  se_SDP :: raw
  se_ICE :: raw

definition dec_envelope :: "json \<Rightarrow> envelope result" where
  "dec_envelope v = res_bind (struct_ok ''main.signalEnvelope'' v) (\<lambda>j. res_bind (get_str ''peer'' j) (\<lambda>p.
     Inr \<lparr>se_Peer = p, se_SDP = raw_field ''sdp'' j, se_ICE = raw_field ''ice'' j\<rparr>))"

text \<open>A handler's guards: an error reply, or what the request asks for.\<close>

definition post_body :: "string \<Rightarrow> (json \<Rightarrow> 'a result) \<Rightarrow> raw \<Rightarrow> (int \<times> string) + 'a" where
  "post_body m dec body =
     (if m \<noteq> ''POST'' then Inl (405, ''POST required'')
      else case unmarshal dec body of Inl _ \<Rightarrow> Inl (400, ''bad json'') | Inr x \<Rightarrow> Inr x)"

definition need :: "bool \<Rightarrow> string \<Rightarrow> 'a \<Rightarrow> (int \<times> string) + 'a" where
  "need ok msg x = (if ok then Inr x else Inl (400, msg))"

definition then_need :: "(int \<times> string) + 'a \<Rightarrow> ('a \<Rightarrow> (int \<times> string) + 'b) \<Rightarrow> (int \<times> string) + 'b" where
  "then_need r f = (case r of Inl e \<Rightarrow> Inl e | Inr x \<Rightarrow> f x)"

definition signalingInitiate :: "string \<Rightarrow> raw \<Rightarrow> (int \<times> string) + (string \<times> envelope)" where
  "signalingInitiate m body = then_need (post_body m dec_envelope body)
     (\<lambda>env. need (se_Peer env \<noteq> []) ''peer (bastion_id) required'' (se_Peer env, env))"

definition signalingOffer :: "string \<Rightarrow> raw \<Rightarrow> (int \<times> string) + (string \<times> envelope)" where
  "signalingOffer m body = then_need (post_body m (\<lambda>v. res_bind (struct_ok ''struct'' v) (\<lambda>j.
       res_bind (get_str ''bastion_id'' j) (\<lambda>b. Inr (b, raw_field ''offer'' j)))) body)
     (\<lambda>(b, offer). need (b \<noteq> []) ''bastion_id required'' (b, \<lparr>se_Peer = [], se_SDP = offer, se_ICE = RawEmpty\<rparr>))"

definition signalingAnswer :: "string \<Rightarrow> raw \<Rightarrow> (int \<times> string) + envelope" where
  "signalingAnswer m body = then_need (post_body m dec_envelope body)
     (\<lambda>env. need (se_Peer env \<noteq> []) ''peer (client_id) required'' env)"

definition signalingPostCandidate :: "string \<Rightarrow> raw \<Rightarrow> (int \<times> string) + (string \<times> raw)" where
  "signalingPostCandidate m body = then_need (post_body m (\<lambda>v. res_bind (struct_ok ''struct'' v) (\<lambda>j.
       res_bind (get_str ''bastion_id'' j) (\<lambda>b. Inr (b, raw_field ''candidate'' j)))) body)
     (\<lambda>(b, c). need (b \<noteq> [] \<and> c \<noteq> RawEmpty) ''bastion_id and candidate required'' (b, c))"

definition signalingPoll :: "string \<Rightarrow> (int \<times> string) + string" where
  "signalingPoll bastion = need (bastion \<noteq> []) ''?bastion= required'' bastion"

definition signalingPollCandidates :: "string \<Rightarrow> (int \<times> string) + string" where
  "signalingPollCandidates b = need (b \<noteq> []) ''bastion_id required'' b"

section \<open>Offers and answers\<close>

datatype answer = Answered envelope | NoAnswer | ClientGone

datatype phase = Offering | Refused | Waiting | Leaving answer | Finished answer

text \<open>\<open>ex_box\<close> is the request's answer channel, which holds one answer.\<close>

record exchange =
  ex_client :: string
  ex_bastion :: string
  ex_env :: envelope
  ex_phase :: phase
  ex_box :: "envelope option"

text \<open>
  \<open>sg_answers\<close> maps a waiting client to its exchange; \<open>sg_posting\<close> are the answers whose channel has been
  looked up and which are not sent yet.
\<close>

record signaling =
  sg_exchanges :: "exchange list"
  sg_offers :: "(string \<times> envelope list) list"
  sg_answers :: "(string \<times> nat) list"
  sg_posting :: "(nat \<times> envelope) list"

definition newRelay :: signaling where
  "newRelay = \<lparr>sg_exchanges = [], sg_offers = [], sg_answers = [], sg_posting = []\<rparr>"

definition offerCap :: nat where "offerCap = 16"

definition offers_of :: "string \<Rightarrow> signaling \<Rightarrow> envelope list" where
  "offers_of b s = (case map_of (sg_offers s) b of None \<Rightarrow> [] | Some q \<Rightarrow> q)"

definition make_queue :: "string \<Rightarrow> signaling \<Rightarrow> signaling" where
  "make_queue b s = s\<lparr>sg_offers := AList.update b (offers_of b s) (sg_offers s)\<rparr>"

datatype sig_event =
    EOffer string string envelope
  | ESend nat
  | EFull nat
  | EPoll string
  | EFind envelope
  | EPut nat
  | EReceive nat
  | ETimeout nat
  | EGone nat
  | ELeave nat

datatype sig_out =
    SNothing
  | SSent string envelope
  | SPolled string envelope
  | SNoOffer
  | SFound
  | SPosted
  | S410 string

definition exchange_at :: "nat \<Rightarrow> phase \<Rightarrow> signaling \<Rightarrow> exchange option" where
  "exchange_at n p s =
     (if n < length (sg_exchanges s) \<and> ex_phase (sg_exchanges s ! n) = p then Some (sg_exchanges s ! n) else None)"

definition set_exchange :: "nat \<Rightarrow> exchange \<Rightarrow> signaling \<Rightarrow> signaling" where
  "set_exchange n e s = s\<lparr>sg_exchanges := (sg_exchanges s)[n := e]\<rparr>"

definition move_to :: "nat \<Rightarrow> phase \<Rightarrow> phase \<Rightarrow> signaling \<Rightarrow> sig_out \<times> signaling" where
  "move_to n p q s = (case exchange_at n p s of None \<Rightarrow> (SNothing, s)
     | Some e \<Rightarrow> (SNothing, set_exchange n (e\<lparr>ex_phase := q\<rparr>) s))"

text \<open>The first critical section of an offer, and sending it when the queue has room.\<close>

definition offer_enter :: "string \<Rightarrow> string \<Rightarrow> envelope \<Rightarrow> signaling \<Rightarrow> signaling" where
  "offer_enter client b env s =
     make_queue b (s\<lparr>sg_answers := AList.update client (length (sg_exchanges s)) (sg_answers s),
        sg_exchanges := sg_exchanges s @ [\<lparr>ex_client = client, ex_bastion = b, ex_env = env\<lparr>se_Peer := client\<rparr>,
            ex_phase = Offering, ex_box = None\<rparr>]\<rparr>)"

definition offer_send :: "nat \<Rightarrow> signaling \<Rightarrow> sig_out \<times> signaling" where
  "offer_send n s =
     (case exchange_at n Offering s of
        None \<Rightarrow> (SNothing, s)
      | Some e \<Rightarrow>
          if length (offers_of (ex_bastion e) s) < offerCap
          then (SSent (ex_bastion e) (ex_env e),
                set_exchange n (e\<lparr>ex_phase := Waiting\<rparr>)
                  (s\<lparr>sg_offers := AList.update (ex_bastion e) (offers_of (ex_bastion e) s @ [ex_env e]) (sg_offers s)\<rparr>))
          else (SNothing, s))"

text \<open>After two seconds at a full queue the handler returns; the entry of \<open>pendingAnswers\<close> stays.\<close>

definition offer_full :: "nat \<Rightarrow> signaling \<Rightarrow> sig_out \<times> signaling" where
  "offer_full n s =
     (case exchange_at n Offering s of
        None \<Rightarrow> (SNothing, s)
      | Some e \<Rightarrow>
          if length (offers_of (ex_bastion e) s) < offerCap then (SNothing, s)
          else (SNothing, set_exchange n (e\<lparr>ex_phase := Refused\<rparr>) s))"

definition poll_offer :: "string \<Rightarrow> signaling \<Rightarrow> sig_out \<times> signaling" where
  "poll_offer b s =
     (let s1 = make_queue b s in
      case offers_of b s1 of
        [] \<Rightarrow> (SNoOffer, s1)
      | env # q \<Rightarrow> (SPolled b env, s1\<lparr>sg_offers := AList.update b q (sg_offers s1)\<rparr>))"

definition answer_find :: "envelope \<Rightarrow> signaling \<Rightarrow> sig_out \<times> signaling" where
  "answer_find env s =
     (case map_of (sg_answers s) (se_Peer env) of
        None \<Rightarrow> (S410 ''client_id not waiting (already timed out?)'', s)
      | Some n \<Rightarrow> (SFound, s\<lparr>sg_posting := sg_posting s @ [(n, env)]\<rparr>))"

definition answer_put :: "nat \<Rightarrow> signaling \<Rightarrow> sig_out \<times> signaling" where
  "answer_put k s =
     (if k < length (sg_posting s) then
        let (n, env) = sg_posting s ! k;
            s1 = s\<lparr>sg_posting := take k (sg_posting s) @ drop (Suc k) (sg_posting s)\<rparr>;
            e = sg_exchanges s ! n
        in if ex_box e = None then (SPosted, set_exchange n (e\<lparr>ex_box := Some env\<rparr>) s1)
           else (S410 ''client wait channel closed'', s1)
      else (SNothing, s))"

definition answer_receive :: "nat \<Rightarrow> signaling \<Rightarrow> sig_out \<times> signaling" where
  "answer_receive n s =
     (case exchange_at n Waiting s of
        None \<Rightarrow> (SNothing, s)
      | Some e \<Rightarrow>
          (case ex_box e of None \<Rightarrow> (SNothing, s)
           | Some a \<Rightarrow> (SNothing, set_exchange n (e\<lparr>ex_phase := Leaving (Answered a), ex_box := None\<rparr>) s)))"

text \<open>The second critical section.\<close>

definition offer_leave :: "nat \<Rightarrow> signaling \<Rightarrow> sig_out \<times> signaling" where
  "offer_leave n s =
     (if n < length (sg_exchanges s) then
        (case ex_phase (sg_exchanges s ! n) of
           Leaving r \<Rightarrow> (SNothing, set_exchange n ((sg_exchanges s ! n)\<lparr>ex_phase := Finished r\<rparr>)
               (s\<lparr>sg_answers := AList.delete (ex_client (sg_exchanges s ! n)) (sg_answers s)\<rparr>))
         | _ \<Rightarrow> (SNothing, s))
      else (SNothing, s))"

fun sig_step :: "sig_event \<Rightarrow> signaling \<Rightarrow> sig_out \<times> signaling" where
  "sig_step (EOffer client b env) s = (SNothing, offer_enter client b env s)"
| "sig_step (ESend n) s = offer_send n s"
| "sig_step (EFull n) s = offer_full n s"
| "sig_step (EPoll b) s = poll_offer b s"
| "sig_step (EFind env) s = answer_find env s"
| "sig_step (EPut k) s = answer_put k s"
| "sig_step (EReceive n) s = answer_receive n s"
| "sig_step (ETimeout n) s = move_to n Waiting (Leaving NoAnswer) s"
| "sig_step (EGone n) s = move_to n Waiting (Leaving ClientGone) s"
| "sig_step (ELeave n) s = offer_leave n s"

fun sig_run :: "sig_event list \<Rightarrow> signaling \<Rightarrow> signaling" where
  "sig_run [] s = s"
| "sig_run (e # es) s = sig_run es (snd (sig_step e s))"

fun sig_trace :: "sig_event list \<Rightarrow> signaling \<Rightarrow> (sig_event \<times> sig_out) list" where
  "sig_trace [] s = []"
| "sig_trace (e # es) s = (e, fst (sig_step e s)) # sig_trace es (snd (sig_step e s))"

section \<open>Bookkeeping\<close>

text \<open>A request is listed until its second critical section, or for good when it was refused.\<close>

definition listening :: "phase \<Rightarrow> bool" where
  "listening p = (case p of Finished _ \<Rightarrow> False | _ \<Rightarrow> True)"

definition held :: "exchange \<Rightarrow> envelope list" where
  "held e = (case ex_box e of None \<Rightarrow> [] | Some a \<Rightarrow> [a]) @
     (case ex_phase e of Leaving (Answered a) \<Rightarrow> [a] | Finished (Answered a) \<Rightarrow> [a] | _ \<Rightarrow> [])"

definition answers_ok :: "signaling \<Rightarrow> bool" where
  "answers_ok s \<longleftrightarrow> distinct (map ex_client (sg_exchanges s)) \<and> distinct (map fst (sg_answers s)) \<and>
     (\<forall>c n. map_of (sg_answers s) c = Some n \<longleftrightarrow>
        n < length (sg_exchanges s) \<and> ex_client (sg_exchanges s ! n) = c \<and> listening (ex_phase (sg_exchanges s ! n)))"

definition addressed :: "signaling \<Rightarrow> bool" where
  "addressed s \<longleftrightarrow>
     (\<forall>(n, a) \<in> set (sg_posting s). n < length (sg_exchanges s) \<and> se_Peer a = ex_client (sg_exchanges s ! n)) \<and>
     (\<forall>e \<in> set (sg_exchanges s). se_Peer (ex_env e) = ex_client e \<and> (\<forall>a \<in> set (held e). se_Peer a = ex_client e))"

definition answers_in :: "signaling \<Rightarrow> envelope multiset" where
  "answers_in s = mset (map snd (sg_posting s)) + mset (concat (map held (sg_exchanges s)))"

lemma exchange_at_Some:
  "exchange_at n p s = Some e \<longleftrightarrow> n < length (sg_exchanges s) \<and> sg_exchanges s ! n = e \<and> ex_phase e = p"
  by (auto simp: exchange_at_def)

lemma set_exchange_fields [simp]:
  "sg_exchanges (set_exchange n e s) = (sg_exchanges s)[n := e]" "sg_offers (set_exchange n e s) = sg_offers s"
  "sg_answers (set_exchange n e s) = sg_answers s" "sg_posting (set_exchange n e s) = sg_posting s"
  by (simp_all add: set_exchange_def)

lemma make_queue_fields [simp]:
  "sg_exchanges (make_queue b s) = sg_exchanges s" "sg_answers (make_queue b s) = sg_answers s"
  "sg_posting (make_queue b s) = sg_posting s" "offers_of b' (make_queue b s) = offers_of b' s"
  by (simp_all add: make_queue_def offers_of_def)

lemma same_client: "n < length xs \<Longrightarrow> ex_client e = ex_client (xs ! n) \<Longrightarrow> map ex_client (xs[n := e]) = map ex_client xs"
  by (simp add: map_update list_update_same_conv)

lemma held_update:
  "n < length xs \<Longrightarrow> mset (concat (map held (xs[n := e]))) + mset (held (xs ! n))
     = mset (concat (map held xs)) + mset (held e)"
proof (induction xs arbitrary: n)
  case (Cons x xs)
  then show ?case
  proof (cases n)
    case (Suc m)
    then show ?thesis using Cons.IH [of m] Cons.prems by (simp add: union_assoc)
  qed simp
qed simp

section \<open>A changed exchange\<close>

lemma answers_ok_set:
  assumes "answers_ok s" "n < length (sg_exchanges s)" "ex_client e = ex_client (sg_exchanges s ! n)"
    and "listening (ex_phase e) = listening (ex_phase (sg_exchanges s ! n))"
  shows "answers_ok (set_exchange n e s)"
  using assms by (auto simp: answers_ok_def same_client nth_list_update)

lemma addressed_set:
  assumes "addressed s" "n < length (sg_exchanges s)" "ex_client e = ex_client (sg_exchanges s ! n)"
    and "ex_env e = ex_env (sg_exchanges s ! n)" "set (held e) \<subseteq> {a. se_Peer a = ex_client e}"
  shows "addressed (set_exchange n e s)"
proof -
  have "se_Peer (ex_env (sg_exchanges s ! n)) = ex_client (sg_exchanges s ! n)"
    using assms(1,2) nth_mem [OF assms(2)] by (auto simp: addressed_def)
  then show ?thesis
    using assms set_update_subset_insert [of "sg_exchanges s" n e]
    by (fastforce simp: addressed_def nth_list_update)
qed

lemma answers_ok_offers [simp]: "answers_ok (s\<lparr>sg_offers := q\<rparr>) = answers_ok s"
  "answers_ok (s\<lparr>sg_posting := ps\<rparr>) = answers_ok s" "answers_ok (make_queue b s) = answers_ok s"
  by (simp_all add: answers_ok_def)

lemma addressed_offers [simp]: "addressed (s\<lparr>sg_offers := q\<rparr>) = addressed s"
  "addressed (s\<lparr>sg_answers := m\<rparr>) = addressed s" "addressed (make_queue b s) = addressed s"
  by (simp_all add: addressed_def)

lemma held_phase [simp]:
  "held (e\<lparr>ex_phase := Waiting\<rparr>) = held e" if "ex_phase e = Offering"
  using that by (simp add: held_def)

lemma held_moves:
  "ex_phase e = Offering \<Longrightarrow> held (e\<lparr>ex_phase := Refused\<rparr>) = held e"
  "ex_phase e = Waiting \<Longrightarrow> held (e\<lparr>ex_phase := Leaving NoAnswer\<rparr>) = held e"
  "ex_phase e = Waiting \<Longrightarrow> held (e\<lparr>ex_phase := Leaving ClientGone\<rparr>) = held e"
  "ex_phase e = Waiting \<Longrightarrow> ex_box e = Some a \<Longrightarrow> held (e\<lparr>ex_phase := Leaving (Answered a), ex_box := None\<rparr>) = held e"
  "ex_phase e = Leaving r \<Longrightarrow> held (e\<lparr>ex_phase := Finished r\<rparr>) = held e"
  "ex_box e = None \<Longrightarrow> held (e\<lparr>ex_box := Some a\<rparr>) = a # held e"
  by (simp_all add: held_def split: answer.split)

lemma listening_simps [simp]:
  "listening Offering" "listening Waiting" "listening Refused" "listening (Leaving r)" "\<not> listening (Finished r)"
  by (simp_all add: listening_def)

section \<open>Each event\<close>

definition fresh_client :: "sig_event \<Rightarrow> signaling \<Rightarrow> bool" where
  "fresh_client e s = (case e of EOffer client b env \<Rightarrow> client \<notin> ex_client ` set (sg_exchanges s) | _ \<Rightarrow> True)"

lemma enter_answers_ok:
  assumes "answers_ok s" "client \<notin> ex_client ` set (sg_exchanges s)"
  shows "answers_ok (offer_enter client b env s)"
proof -
  have none: "n < length (sg_exchanges s) \<Longrightarrow> ex_client (sg_exchanges s ! n) \<noteq> client" for n
    using assms(2) nth_mem by fastforce
  show ?thesis
    using assms none
    by (auto simp: answers_ok_def offer_enter_def nth_append distinct_update less_Suc_eq split: if_splits)
qed

lemma leave_answers_ok:
  assumes "answers_ok s"
  shows "answers_ok (snd (offer_leave n s))"
proof (cases "n < length (sg_exchanges s) \<and> (\<exists>r. ex_phase (sg_exchanges s ! n) = Leaving r)")
  case True
  then obtain r where n: "n < length (sg_exchanges s)" "ex_phase (sg_exchanges s ! n) = Leaving r" by blast
  have d: "distinct (map ex_client (sg_exchanges s))" using assms by (simp add: answers_ok_def)
  have same: "m < length (sg_exchanges s) \<Longrightarrow> ex_client (sg_exchanges s ! m) = ex_client (sg_exchanges s ! n) \<longleftrightarrow> m = n" for m
    using nth_eq_iff_index_eq [OF d, of m n] n(1) by simp
  have at: "map_of (sg_answers s) (ex_client (sg_exchanges s ! n)) = Some n"
    using assms n by (simp add: answers_ok_def)
  then show ?thesis
    using assms n d same
    by (auto simp: offer_leave_def answers_ok_def same_client distinct_delete nth_list_update)
next
  case False
  then show ?thesis using assms by (auto simp: offer_leave_def split: phase.split)
qed

lemma step_answers_ok:
  assumes ok: "answers_ok s" and ad: "addressed s" and fr: "fresh_client e s"
  shows "answers_ok (snd (sig_step e s))"
proof (cases e)
  case (EOffer client b env)
  then show ?thesis using enter_answers_ok [OF ok] fr by (simp add: fresh_client_def)
next
  case (EPut k)
  have "n < length (sg_exchanges s)" if "k < length (sg_posting s)" "sg_posting s ! k = (n, env)" for n env
    using ad nth_mem [OF that(1)] that(2) by (auto simp: addressed_def)
  then show ?thesis
    using EPut ok by (auto simp: answer_put_def Let_def intro!: answers_ok_set split: prod.split)
next
  case (ELeave n)
  then show ?thesis using leave_answers_ok [OF ok] by simp
qed (use ok in \<open>auto simp: offer_send_def offer_full_def poll_offer_def Let_def answer_find_def answer_receive_def move_to_def
    exchange_at_Some intro!: answers_ok_set split: option.split list.split\<close>)

lemma step_addressed:
  assumes ok: "answers_ok s" and ad: "addressed s"
  shows "addressed (snd (sig_step e s))"
proof -
  have held: "se_Peer x = ex_client (sg_exchanges s ! n)"
    if "n < length (sg_exchanges s)" "x \<in> set (held (sg_exchanges s ! n))" for n x
    using ad nth_mem [OF that(1)] that(2) by (auto simp: addressed_def)
  show ?thesis
  proof (cases e)
    case (EOffer client b env)
    then show ?thesis using ad by (auto simp: offer_enter_def addressed_def held_def nth_append)
  next
    case (EPut k)
    show ?thesis
    proof (cases "k < length (sg_posting s)")
      case True
      obtain n env where k: "sg_posting s ! k = (n, env)" by fastforce
      have n: "n < length (sg_exchanges s)" "se_Peer env = ex_client (sg_exchanges s ! n)"
        using ad nth_mem [OF True] k by (auto simp: addressed_def)
      have "set (take k (sg_posting s) @ drop (Suc k) (sg_posting s)) \<subseteq> set (sg_posting s)"
        using set_take_subset set_drop_subset by fastforce
      then have ad1: "addressed (s\<lparr>sg_posting := take k (sg_posting s) @ drop (Suc k) (sg_posting s)\<rparr>)"
        using ad unfolding addressed_def by auto
      show ?thesis
        using EPut True k n ad1
        by (auto simp: answer_put_def held [OF n(1)] Let_def held_moves intro!: addressed_set)
    qed (use EPut ad in \<open>simp add: answer_put_def\<close>)
  next
    case (EFind env)
    then show ?thesis
      using ad ok by (auto simp: answer_find_def addressed_def answers_ok_def split: option.split)
  next
    case (ELeave n)
    then show ?thesis
      using ad held by (auto simp: offer_leave_def held_moves intro!: addressed_set simp: held split: phase.split)
  qed (use ad held in \<open>auto simp: offer_send_def offer_full_def poll_offer_def Let_def answer_receive_def move_to_def
      exchange_at_Some held_moves held intro!: addressed_set split: option.split list.split\<close>)
qed

text \<open>Answers posted and not yet dropped.\<close>

lemma answers_in_set:
  "n < length (sg_exchanges s) \<Longrightarrow> held e = held (sg_exchanges s ! n) \<Longrightarrow> answers_in (set_exchange n e s) = answers_in s"
  using held_update [of n "sg_exchanges s" e] by (simp add: answers_in_def)

lemma answers_in_fields [simp]:
  "answers_in (s\<lparr>sg_offers := q\<rparr>) = answers_in s" "answers_in (s\<lparr>sg_answers := m\<rparr>) = answers_in s"
  "answers_in (make_queue b s) = answers_in s" "answers_in (offer_enter c b env s) = answers_in s"
  by (simp_all add: answers_in_def offer_enter_def held_def)

lemma mset_remove_nth:
  "k < length xs \<Longrightarrow> mset xs = add_mset (xs ! k) (mset (take k xs @ drop (Suc k) xs))"
  by (metis add_mset_add_single id_take_nth_drop mset.simps(2) mset_append union_mset_add_mset_right)

definition posted :: "sig_event \<Rightarrow> envelope multiset" where
  "posted e = (case e of EFind a \<Rightarrow> {#a#} | _ \<Rightarrow> {#})"

lemma step_answers_in: "addressed s \<Longrightarrow> answers_in (snd (sig_step e s)) \<subseteq># answers_in s + posted e"
proof (cases e)
  case (EPut k)
  assume ad: "addressed s"
  show ?thesis
  proof (cases "k < length (sg_posting s)")
    case True
    obtain n env where k: "sg_posting s ! k = (n, env)" by fastforce
    have n: "n < length (sg_exchanges s)"
      using ad nth_mem [OF True] k by (auto simp: addressed_def)
    define rest where "rest = take k (sg_posting s) @ drop (Suc k) (sg_posting s)"
    have m: "mset (map snd (sg_posting s)) = add_mset env (mset (map snd rest))"
      using mset_remove_nth [OF True] k by (simp only: mset_map rest_def) simp
    show ?thesis
    proof (cases "ex_box (sg_exchanges s ! n)")
      case None
      have "mset (concat (map held ((sg_exchanges s)[n := (sg_exchanges s ! n)\<lparr>ex_box := Some env\<rparr>])))
          = add_mset env (mset (concat (map held (sg_exchanges s))))"
        using held_update [OF n, of "(sg_exchanges s ! n)\<lparr>ex_box := Some env\<rparr>"] held_moves(6) [OF None, of env] by simp
      then show ?thesis
        using EPut True k None m by (simp add: answer_put_def Let_def answers_in_def rest_def [symmetric] posted_def)
    next
      case (Some a)
      then show ?thesis
        using EPut True k m by (simp add: answer_put_def Let_def answers_in_def rest_def [symmetric] posted_def)
    qed
  qed (use EPut in \<open>simp add: answer_put_def posted_def\<close>)
next
  case (EFind env)
  then show ?thesis by (simp add: answer_find_def answers_in_def posted_def split: option.split)
next
  case (ELeave n)
  then show ?thesis
    by (auto simp: offer_leave_def posted_def answers_in_set held_moves split: phase.split)
qed (auto simp: offer_send_def offer_full_def poll_offer_def Let_def answer_receive_def move_to_def posted_def
      exchange_at_Some held_moves answers_in_set split: option.split list.split)

text \<open>Offers are queued in the order they are sent.\<close>

definition sent1 :: "string \<Rightarrow> sig_out \<Rightarrow> envelope list" where
  "sent1 b r = (case r of SSent b' env \<Rightarrow> if b' = b then [env] else [] | _ \<Rightarrow> [])"

definition polled1 :: "string \<Rightarrow> sig_out \<Rightarrow> envelope list" where
  "polled1 b r = (case r of SPolled b' env \<Rightarrow> if b' = b then [env] else [] | _ \<Rightarrow> [])"

lemma offers_of_simps [simp]:
  "offers_of b (s\<lparr>sg_offers := AList.update b' q (sg_offers s)\<rparr>) = (if b' = b then q else offers_of b s)"
  "offers_of b (s\<lparr>sg_answers := m\<rparr>) = offers_of b s" "offers_of b (s\<lparr>sg_posting := ps\<rparr>) = offers_of b s"
  "offers_of b (set_exchange n e s) = offers_of b s" "offers_of b (s\<lparr>sg_exchanges := es\<rparr>) = offers_of b s"
  by (simp_all add: offers_of_def set_exchange_def)

lemma step_fifo:
  "offers_of b s @ sent1 b (fst (sig_step e s)) = polled1 b (fst (sig_step e s)) @ offers_of b (snd (sig_step e s))"
proof (cases e)
  case (EPut k)
  then show ?thesis by (auto simp: answer_put_def Let_def sent1_def polled1_def split: prod.split)
next
  case (EOffer client b' env)
  then show ?thesis by (simp add: offer_enter_def sent1_def polled1_def)
next
  case (EPoll b')
  then show ?thesis
    by (cases "offers_of b' s") (auto simp: poll_offer_def Let_def sent1_def polled1_def make_queue_def offers_of_def)
next
  case (ELeave n)
  then show ?thesis by (auto simp: offer_leave_def sent1_def polled1_def split: phase.split)
qed (auto simp: offer_send_def offer_full_def answer_find_def answer_receive_def move_to_def
      exchange_at_Some sent1_def polled1_def split: option.split)

definition clients :: "sig_event list \<Rightarrow> string list" where
  "clients es = concat (map (\<lambda>e. case e of EOffer client b env \<Rightarrow> [client] | _ \<Rightarrow> []) es)"

definition offered :: "sig_event list \<Rightarrow> (string \<times> string \<times> envelope) set" where
  "offered es = {(client, b, env). EOffer client b env \<in> set es}"

definition made_by :: "(string \<times> string \<times> envelope) set \<Rightarrow> signaling \<Rightarrow> bool" where
  "made_by M s \<longleftrightarrow> (\<forall>e \<in> set (sg_exchanges s). \<exists>env. (ex_client e, ex_bastion e, env) \<in> M \<and>
     ex_env e = env\<lparr>se_Peer := ex_client e\<rparr>)"

definition same_offer :: "exchange \<Rightarrow> exchange \<Rightarrow> bool" where
  "same_offer e e' \<longleftrightarrow> ex_client e' = ex_client e \<and> ex_bastion e' = ex_bastion e \<and> ex_env e' = ex_env e"

lemma step_exchanges:
  "\<exists>xs. sg_exchanges (snd (sig_step e s)) = xs @ (case e of EOffer client b env \<Rightarrow>
        [\<lparr>ex_client = client, ex_bastion = b, ex_env = env\<lparr>se_Peer := client\<rparr>, ex_phase = Offering, ex_box = None\<rparr>]
      | _ \<Rightarrow> []) \<and> list_all2 same_offer (sg_exchanges s) xs"
proof -
  have same: "list_all2 same_offer xs (xs[n := e])" if "n < length xs" "same_offer (xs ! n) e" for xs n e
    using that by (auto simp: list_all2_conv_all_nth nth_list_update same_offer_def)
  have refl: "list_all2 same_offer xs xs" for xs
    by (simp add: list_all2_conv_all_nth same_offer_def)
  show ?thesis
  proof (cases e)
    case (EPut k)
    have "list_all2 same_offer xs (xs[n := (xs ! n)\<lparr>ex_box := b\<rparr>])" for xs n b
      by (cases "n < length xs") (auto simp: same refl same_offer_def list_update_beyond)
    then show ?thesis using EPut refl by (auto simp: answer_put_def Let_def split: prod.split)
  qed (auto simp: offer_enter_def offer_send_def offer_full_def poll_offer_def Let_def answer_find_def
      answer_receive_def move_to_def offer_leave_def exchange_at_Some refl
      split: option.split list.split phase.split intro!: same simp: same_offer_def)
qed

lemma step_clients:
  "map ex_client (sg_exchanges (snd (sig_step e s))) = map ex_client (sg_exchanges s) @ clients [e]"
proof -
  obtain xs where xs: "sg_exchanges (snd (sig_step e s)) = xs @ (case e of EOffer client b env \<Rightarrow>
        [\<lparr>ex_client = client, ex_bastion = b, ex_env = env\<lparr>se_Peer := client\<rparr>, ex_phase = Offering, ex_box = None\<rparr>]
      | _ \<Rightarrow> [])" "list_all2 same_offer (sg_exchanges s) xs" using step_exchanges by blast
  have "map ex_client xs = map ex_client (sg_exchanges s)"
    using xs(2) by (simp add: list_eq_iff_nth_eq list_all2_conv_all_nth same_offer_def)
  then show ?thesis by (simp add: xs(1) clients_def split: sig_event.split)
qed

lemma step_made:
  assumes "made_by M s"
  shows "made_by (M \<union> offered [e]) (snd (sig_step e s))"
proof -
  obtain xs where xs: "sg_exchanges (snd (sig_step e s)) = xs @ (case e of EOffer client b env \<Rightarrow>
        [\<lparr>ex_client = client, ex_bastion = b, ex_env = env\<lparr>se_Peer := client\<rparr>, ex_phase = Offering, ex_box = None\<rparr>]
      | _ \<Rightarrow> [])" "list_all2 same_offer (sg_exchanges s) xs" using step_exchanges by blast
  have "\<exists>env. (ex_client x, ex_bastion x, env) \<in> M \<and> ex_env x = env\<lparr>se_Peer := ex_client x\<rparr>" if "x \<in> set xs" for x
  proof -
    from that have "\<exists>n < length xs. xs ! n = x" by (simp only: in_set_conv_nth)
    then obtain n where n: "n < length xs" "xs ! n = x" by (elim exE conjE)
    then have "same_offer (sg_exchanges s ! n) x" "sg_exchanges s ! n \<in> set (sg_exchanges s)"
      using xs(2) by (auto simp: list_all2_conv_all_nth)
    then show ?thesis using assms by (auto simp: made_by_def same_offer_def)
  qed
  then show ?thesis
    unfolding made_by_def xs(1) by (fastforce simp: offered_def split: sig_event.splits)
qed

lemma step_sent_made:
  assumes "made_by M s" "env \<in> set (sent1 b (fst (sig_step e s)))"
  shows "\<exists>client env0. (client, b, env0) \<in> M \<and> env = env0\<lparr>se_Peer := client\<rparr>"
proof -
  obtain n x where x: "sg_exchanges s ! n = x" "n < length (sg_exchanges s)" "ex_bastion x = b" "env = ex_env x"
    using assms(2)
    by (cases e) (auto simp: sent1_def offer_send_def offer_full_def poll_offer_def Let_def answer_find_def answer_put_def
        answer_receive_def move_to_def offer_leave_def exchange_at_Some split: option.splits list.splits phase.splits
        prod.splits if_splits)
  then have "x \<in> set (sg_exchanges s)" by auto
  with assms(1) obtain env0 where "(ex_client x, ex_bastion x, env0) \<in> M" "ex_env x = env0\<lparr>se_Peer := ex_client x\<rparr>"
    unfolding made_by_def by blast
  then show ?thesis using x by blast
qed

lemma step_cap:
  assumes "\<And>b. length (offers_of b s) \<le> offerCap"
  shows "length (offers_of b (snd (sig_step e s))) \<le> offerCap"
proof (cases e)
  case (EPoll b')
  then show ?thesis
    using assms [of b] by (cases "offers_of b' s") (auto simp: poll_offer_def Let_def)
qed (use assms [of b] in \<open>auto simp: offer_enter_def offer_send_def offer_full_def answer_find_def answer_put_def Let_def
    answer_receive_def move_to_def offer_leave_def exchange_at_Some split: option.split phase.split prod.split\<close>)

section \<open>Runs\<close>

definition sent :: "string \<Rightarrow> (sig_event \<times> sig_out) list \<Rightarrow> envelope list" where
  "sent b h = concat (map (\<lambda>(_, r). sent1 b r) h)"

definition polled :: "string \<Rightarrow> (sig_event \<times> sig_out) list \<Rightarrow> envelope list" where
  "polled b h = concat (map (\<lambda>(_, r). polled1 b r) h)"

definition posted_all :: "sig_event list \<Rightarrow> envelope multiset" where
  "posted_all es = sum_list (map posted es)"

definition received :: "exchange \<Rightarrow> envelope list" where
  "received e = (case ex_phase e of Leaving (Answered a) \<Rightarrow> [a] | Finished (Answered a) \<Rightarrow> [a] | _ \<Rightarrow> [])"

definition relay_ok :: "(string \<times> string \<times> envelope) set \<Rightarrow> signaling \<Rightarrow> bool" where
  "relay_ok M s \<longleftrightarrow> answers_ok s \<and> addressed s \<and> made_by M s \<and> (\<forall>b. length (offers_of b s) \<le> offerCap)"

lemma relay_ok_step:
  assumes "relay_ok M s" "fresh_client e s"
  shows "relay_ok (M \<union> offered [e]) (snd (sig_step e s))"
  using assms step_answers_ok step_addressed step_made step_cap unfolding relay_ok_def by blast

lemma clients_Cons: "clients (e # es) = clients [e] @ clients es"
  by (simp add: clients_def)

lemma offered_Nil [simp]: "offered [] = {}"
  by (simp add: offered_def)

lemma offered_Cons: "offered (e # es) = offered [e] \<union> offered es"
  by (auto simp: offered_def)

lemma fresh_iff: "fresh_client e s \<longleftrightarrow> set (clients [e]) \<inter> ex_client ` set (sg_exchanges s) = {}"
  by (auto simp: fresh_client_def clients_def split: sig_event.split)

lemma run_ok:
  assumes "relay_ok M s" "distinct (clients es)" "set (clients es) \<inter> ex_client ` set (sg_exchanges s) = {}"
  shows "relay_ok (M \<union> offered es) (sig_run es s)
    \<and> answers_in (sig_run es s) \<subseteq># answers_in s + posted_all es
    \<and> (\<forall>b. offers_of b s @ sent b (sig_trace es s) = polled b (sig_trace es s) @ offers_of b (sig_run es s))
    \<and> (\<forall>b env. env \<in> set (sent b (sig_trace es s)) \<longrightarrow>
         (\<exists>client env0. (client, b, env0) \<in> M \<union> offered es \<and> env = env0\<lparr>se_Peer := client\<rparr>))"
  using assms
proof (induction es arbitrary: s M)
  case (Cons e es)
  let ?s1 = "snd (sig_step e s)"
  have d: "distinct (clients es)" "set (clients [e]) \<inter> set (clients es) = {}"
    "set (clients [e]) \<inter> ex_client ` set (sg_exchanges s) = {}" "set (clients es) \<inter> ex_client ` set (sg_exchanges s) = {}"
    using Cons.prems(2,3) by (auto simp: clients_Cons [of e es])
  have "ex_client ` set (sg_exchanges ?s1) = ex_client ` set (sg_exchanges s) \<union> set (clients [e])"
    using arg_cong [OF step_clients [of e s], where f = set] by simp
  then have fr: "set (clients es) \<inter> ex_client ` set (sg_exchanges ?s1) = {}" using d by auto
  have ok: "relay_ok (M \<union> offered [e]) ?s1" by (rule relay_ok_step [OF Cons.prems(1)]) (use d(3) fresh_iff in blast)
  note ih = Cons.IH [OF ok d(1) fr]
  have M: "M \<union> offered (e # es) = (M \<union> offered [e]) \<union> offered es" by (simp only: offered_Cons [of e es] Un_assoc)
  have "answers_in ?s1 \<subseteq># answers_in s + posted e"
    using step_answers_in Cons.prems(1) by (simp add: relay_ok_def)
  then have "answers_in ?s1 + posted_all es \<subseteq># (answers_in s + posted e) + posted_all es"
    by (rule subset_mset.add_right_mono)
  then have 2: "answers_in (sig_run (e # es) s) \<subseteq># answers_in s + posted_all (e # es)"
    using ih subset_mset.order_trans by (fastforce simp: posted_all_def union_assoc)
  have 3: "offers_of b s @ sent b (sig_trace (e # es) s) = polled b (sig_trace (e # es) s) @ offers_of b (sig_run (e # es) s)" for b
  proof -
    have "offers_of b s @ sent1 b (fst (sig_step e s)) @ sent b (sig_trace es ?s1)
        = polled1 b (fst (sig_step e s)) @ offers_of b ?s1 @ sent b (sig_trace es ?s1)"
      using step_fifo [of b s e] by simp
    also have "offers_of b ?s1 @ sent b (sig_trace es ?s1) = polled b (sig_trace es ?s1) @ offers_of b (sig_run es ?s1)"
      using ih by blast
    finally show ?thesis by (simp add: sent_def polled_def)
  qed
  have 4: "\<exists>client env0. (client, b, env0) \<in> M \<union> offered (e # es) \<and> env = env0\<lparr>se_Peer := client\<rparr>"
    if "env \<in> set (sent b (sig_trace (e # es) s))" for b env
  proof (cases "env \<in> set (sent1 b (fst (sig_step e s)))")
    case True
    then show ?thesis using step_sent_made [of M s env b e] Cons.prems(1) by (auto simp: relay_ok_def)
  next
    case False
    then have "env \<in> set (sent b (sig_trace es ?s1))" using that by (simp add: sent_def)
    then show ?thesis using ih M by blast
  qed
  show ?case using ih 2 3 4 unfolding M by simp
qed (simp add: posted_all_def sent_def polled_def)

lemma relay_start: "relay_ok {} newRelay"
  by (simp add: relay_ok_def newRelay_def answers_ok_def addressed_def made_by_def offers_of_def)

lemma addressedD: "addressed s \<Longrightarrow> e \<in> set (sg_exchanges s) \<Longrightarrow> a \<in> set (held e) \<Longrightarrow> se_Peer a = ex_client e"
  by (simp add: addressed_def)

lemma received_held: "mset (received e) \<subseteq># mset (held e)"
  by (simp add: received_def held_def)

lemma all_received_held: "mset (concat (map received xs)) \<subseteq># mset (concat (map held xs))"
  by (induction xs) (auto intro: subset_mset.add_mono received_held)

text \<open>C7: under every interleaving of clients and bastions with distinct client ids, a bastion's polls hand out,
  in order and each once, the offers clients have sent it, at most 16 more are waiting, and every offer
  carries the id of the client that made it; a client is answered only with an answer that was posted
  under its id, and each answer posted reaches at most one client.\<close>

theorem relay_signaling:
  assumes "distinct (clients es)"
  defines "s \<equiv> sig_run es newRelay" and "h \<equiv> sig_trace es newRelay"
  shows "(\<forall>b. sent b h = polled b h @ offers_of b s \<and> length (offers_of b s) \<le> 16)
    \<and> (\<forall>b env. env \<in> set (sent b h) \<longrightarrow>
         (\<exists>client env0. EOffer client b env0 \<in> set es \<and> env = env0\<lparr>se_Peer := client\<rparr>))
    \<and> (\<forall>e \<in> set (sg_exchanges s). \<forall>a \<in> set (received e). se_Peer a = ex_client e)
    \<and> mset (concat (map received (sg_exchanges s))) \<subseteq># posted_all es"
proof -
  have fr: "set (clients es) \<inter> ex_client ` set (sg_exchanges newRelay) = {}" by (simp add: newRelay_def)
  note r = run_ok [OF relay_start assms(1) fr, folded s_def h_def]
  have ok: "relay_ok ({} \<union> offered es) s" using r by blast
  have 1: "sent b h = polled b h @ offers_of b s" for b
    using r by (simp add: newRelay_def offers_of_def)
  have 2: "length (offers_of b s) \<le> 16" for b using ok by (simp add: relay_ok_def offerCap_def)
  have 3: "se_Peer a = ex_client e" if "e \<in> set (sg_exchanges s)" "a \<in> set (received e)" for e a
  proof -
    have "a \<in># mset (held e)" by (rule mset_subset_eqD [OF received_held]) (use that(2) in simp)
    then have "a \<in> set (held e)" by simp
    moreover have "addressed s" using ok by (simp add: relay_ok_def)
    ultimately show ?thesis by (rule addressedD [OF _ that(1), rotated])
  qed
  have "answers_in newRelay = {#}" by (simp add: newRelay_def answers_in_def)
  then have "answers_in s \<subseteq># posted_all es" using r by simp
  moreover have "mset (concat (map held (sg_exchanges s))) \<subseteq># answers_in s" by (simp add: answers_in_def)
  ultimately have 4: "mset (concat (map received (sg_exchanges s))) \<subseteq># posted_all es"
    by (rule subset_mset.order_trans [OF subset_mset.order_trans [OF all_received_held], rotated])
  have 5: "\<exists>client env0. EOffer client b env0 \<in> set es \<and> env = env0\<lparr>se_Peer := client\<rparr>"
    if "env \<in> set (sent b h)" for b env
  proof -
    have "\<exists>client env0. (client, b, env0) \<in> {} \<union> offered es \<and> env = env0\<lparr>se_Peer := client\<rparr>"
      by (rule conjunct2 [OF conjunct2 [OF conjunct2 [OF r]], rule_format, OF that])
    then show ?thesis by (simp add: offered_def)
  qed
  show ?thesis using 1 2 3 4 5 by blast
qed

definition demo_offer :: envelope where
  "demo_offer = \<lparr>se_Peer = [], se_SDP = RawEmpty, se_ICE = RawEmpty\<rparr>"

definition demo_events :: "sig_event list" where
  "demo_events = [EOffer ''c-1'' ''b'' demo_offer, ESend 0, EPoll ''b'', EFind (demo_offer\<lparr>se_Peer := ''c-1''\<rparr>), EPut 0,
     EReceive 0]"

text \<open>C7 on a client that is answered.\<close>

lemma relay_signaling_witness:
  "distinct (clients demo_events) \<and> sent ''b'' (sig_trace demo_events newRelay) \<noteq> [] \<and>
   sent ''b'' (sig_trace demo_events newRelay)
     = polled ''b'' (sig_trace demo_events newRelay) @ offers_of ''b'' (sig_run demo_events newRelay)"
proof -
  have d: "distinct (clients demo_events)" by code_simp
  moreover have "sent ''b'' (sig_trace demo_events newRelay) \<noteq> []" by code_simp
  ultimately show ?thesis using relay_signaling [OF d, THEN conjunct1] by blast
qed

section \<open>Refused offers\<close>

lemma nth_update_at: "n < length xs \<Longrightarrow> xs[i := y] ! n = (if i = n then y else xs ! n)"
  by (simp add: nth_list_update)

lemma refused_stays:
  assumes "addressed s" "n < length (sg_exchanges s)" "ex_phase (sg_exchanges s ! n) = Refused"
  shows "n < length (sg_exchanges (snd (sig_step e s))) \<and> ex_phase (sg_exchanges (snd (sig_step e s)) ! n) = Refused
    \<and> ex_client (sg_exchanges (snd (sig_step e s)) ! n) = ex_client (sg_exchanges s ! n)"
  using assms(2,3)
  by (cases e) (auto simp: offer_enter_def offer_send_def offer_full_def poll_offer_def Let_def answer_find_def answer_put_def
      answer_receive_def move_to_def offer_leave_def exchange_at_Some nth_append nth_update_at
      split: option.split list.split phase.split prod.split)

lemma refused_stays_run:
  assumes "relay_ok M s" "distinct (clients es)" "set (clients es) \<inter> ex_client ` set (sg_exchanges s) = {}"
    and "n < length (sg_exchanges s)" "ex_phase (sg_exchanges s ! n) = Refused"
  shows "map_of (sg_answers (sig_run es s)) (ex_client (sg_exchanges s ! n)) = Some n"
  using assms
proof (induction es arbitrary: s M)
  case Nil
  then show ?case by (simp add: relay_ok_def answers_ok_def)
next
  case (Cons e es)
  have "ex_client ` set (sg_exchanges (snd (sig_step e s))) = ex_client ` set (sg_exchanges s) \<union> set (clients [e])"
    using arg_cong [OF step_clients [of e s], where f = set] by simp
  then have fr: "set (clients es) \<inter> ex_client ` set (sg_exchanges (snd (sig_step e s))) = {}"
    using Cons.prems(2,3) by (auto simp: clients_Cons [of e es])
  have fe: "fresh_client e s" using Cons.prems(3) fresh_iff [of e s] by (auto simp: clients_Cons [of e es])
  have d: "distinct (clients es)" using Cons.prems(2) by (simp add: clients_Cons [of e es])
  note st = refused_stays [of s n e]
  show ?case
    using Cons.IH [OF relay_ok_step [OF Cons.prems(1) fe] d fr] st Cons.prems by (simp add: relay_ok_def)
qed

lemma answers_count:
  assumes "answers_ok s"
  shows "length (sg_answers s) = length (filter (\<lambda>e. listening (ex_phase e)) (sg_exchanges s))"
proof -
  let ?L = "filter (\<lambda>e. listening (ex_phase e)) (sg_exchanges s)"
  have d: "distinct (map ex_client (sg_exchanges s))" "distinct (map fst (sg_answers s))"
    using assms by (simp_all add: answers_ok_def)
  have "distinct (map ex_client ?L)" using d(1) by (simp add: distinct_map_filter)
  then have "length ?L = card (ex_client ` set ?L)" by (metis distinct_card length_map set_map)
  also have "ex_client ` set ?L = fst ` set (sg_answers s)"
  proof -
    have "c \<in> fst ` set (sg_answers s) \<longleftrightarrow> map_of (sg_answers s) c \<noteq> None" for c
      by (simp add: map_of_eq_None_iff)
    moreover have "map_of (sg_answers s) c \<noteq> None \<longleftrightarrow> c \<in> ex_client ` set ?L" for c
      using assms by (auto simp: answers_ok_def in_set_conv_nth image_iff)
    ultimately show ?thesis by blast
  qed
  also have "card (fst ` set (sg_answers s)) = length (sg_answers s)"
    using d(2) by (metis distinct_card length_map set_map)
  finally show ?thesis by simp
qed

lemma run_clients: "map ex_client (sg_exchanges (sig_run es s)) = map ex_client (sg_exchanges s) @ clients es"
proof (induction es arbitrary: s)
  case (Cons e es)
  show ?case unfolding clients_Cons [of e es] sig_run.simps Cons.IH step_clients by simp
qed (simp add: clients_def)

text \<open>The numbers \<open>/v1/stats\<close> reports of the two maps.\<close>

definition relay_stats :: "signaling \<Rightarrow> nat \<times> nat" where
  "relay_stats s = (length (sg_offers s), length (sg_answers s))"

text \<open>the answer channels listed are those of the clients still waiting and of every client ever refused at
  a full queue: a refused client's channel is never removed, whatever follows, and answers posted to it
  are acknowledged.\<close>

theorem refused_offers_leak:
  assumes "distinct (clients (es @ fs))"
  defines "s \<equiv> sig_run es newRelay"
  shows "snd (relay_stats s) = length (filter (\<lambda>e. listening (ex_phase e)) (sg_exchanges s))
    \<and> (\<forall>n < length (sg_exchanges s). ex_phase (sg_exchanges s ! n) = Refused \<longrightarrow>
        map_of (sg_answers (sig_run fs s)) (ex_client (sg_exchanges s ! n)) = Some n \<and>
        (\<forall>a. se_Peer a = ex_client (sg_exchanges s ! n) \<longrightarrow> fst (answer_find a (sig_run fs s)) = SFound))"
proof -
  have cl: "clients (es @ fs) = clients es @ clients fs" by (simp add: clients_def)
  have fr: "set (clients es) \<inter> ex_client ` set (sg_exchanges newRelay) = {}" by (simp add: newRelay_def)
  have de: "distinct (clients es)" and df: "distinct (clients fs)" using assms(1) by (simp_all add: cl)
  have ok: "relay_ok ({} \<union> offered es) s"
    unfolding s_def by (rule conjunct1 [OF run_ok [OF relay_start de fr]])
  have "map ex_client (sg_exchanges s) = clients es" by (simp add: s_def run_clients newRelay_def)
  then have "set (clients fs) \<inter> ex_client ` set (sg_exchanges s) = {}"
    using assms(1) by (metis cl distinct_append inf_commute set_map)
  note stays = refused_stays_run [OF ok df this]
  show ?thesis
    using answers_count [of s] stays ok by (auto simp: relay_stats_def relay_ok_def answer_find_def)
qed

definition full_events :: "sig_event list" where
  "full_events = concat (map (\<lambda>n. [EOffer [char_of (n :: nat)] ''b'' demo_offer, ESend n]) [0..<16])
     @ [EOffer ''late'' ''b'' demo_offer, EFull 16]"

text \<open>On a seventeenth client.\<close>

lemma refused_offers_leak_witness:
  "ex_phase (sg_exchanges (sig_run full_events newRelay) ! 16) = Refused \<and>
   map_of (sg_answers (sig_run [EPoll ''b''] (sig_run full_events newRelay))) ''late'' = Some 16"
proof -
  have d: "distinct (clients (full_events @ [EPoll ''b'']))" by code_simp
  have p: "length (sg_exchanges (sig_run full_events newRelay)) = 17" by code_simp
  have q: "ex_phase (sg_exchanges (sig_run full_events newRelay) ! 16) = Refused" by code_simp
  have c: "ex_client (sg_exchanges (sig_run full_events newRelay) ! 16) = ''late''" by code_simp
  show ?thesis using refused_offers_leak [OF d, THEN conjunct2, rule_format, of 16] p q c by simp
qed

section \<open>Candidates\<close>

definition candidateCap :: nat where "candidateCap = 32"

definition candidates_of :: "string \<Rightarrow> (string \<times> raw list) list \<Rightarrow> raw list" where
  "candidates_of peer m = (case map_of m peer of None \<Rightarrow> [] | Some q \<Rightarrow> q)"

definition post_candidate :: "string \<Rightarrow> raw \<Rightarrow> (string \<times> raw list) list \<Rightarrow> (int \<times> string) \<times> (string \<times> raw list) list" where
  "post_candidate peer c m =
     (let q = candidates_of peer m in
      if length q < candidateCap then ((204, []), AList.update peer (q @ [c]) m)
      else ((503, ''candidate queue full''), AList.update peer q m))"

definition poll_candidates :: "string \<Rightarrow> (string \<times> raw list) list \<Rightarrow> raw list \<times> (string \<times> raw list) list" where
  "poll_candidates peer m = (candidates_of peer m, AList.update peer [] m)"

datatype cand_op = CPost string raw | CPoll string

fun cand_step :: "cand_op \<Rightarrow> (string \<times> raw list) list \<Rightarrow> raw list \<times> (string \<times> raw list) list" where
  "cand_step (CPost p c) m = ([], snd (post_candidate p c m))"
| "cand_step (CPoll p) m = poll_candidates p m"

fun cand_run :: "cand_op list \<Rightarrow> (string \<times> raw list) list \<Rightarrow> raw list list \<times> (string \<times> raw list) list" where
  "cand_run [] m = ([], m)"
| "cand_run (x # xs) m = (case cand_step x m of (r, m1) \<Rightarrow> case cand_run xs m1 of (rs, m2) \<Rightarrow> (r # rs, m2))"

text \<open>A poll returns what was posted under its id since the last poll of that id, up to the capacity.\<close>

fun waiting_for :: "string \<Rightarrow> cand_op list \<Rightarrow> raw list \<Rightarrow> raw list" where
  "waiting_for p [] q = q"
| "waiting_for p (CPost p' c # xs) q =
     waiting_for p xs (if p' = p \<and> length q < candidateCap then q @ [c] else q)"
| "waiting_for p (CPoll p' # xs) q = waiting_for p xs (if p' = p then [] else q)"

lemma candidates_of_update [simp]:
  "candidates_of p (AList.update p' q m) = (if p' = p then q else candidates_of p m)"
  by (simp add: candidates_of_def)

lemma cand_run_snd: "snd (cand_run (x # xs) m) = snd (cand_run xs (snd (cand_step x m)))"
  by (simp split: prod.split)

lemma candidates_per_id: "candidates_of p (snd (cand_run xs m)) = waiting_for p xs (candidates_of p m)"
proof (induction xs arbitrary: m)
  case (Cons x xs)
  show ?case
    unfolding cand_run_snd Cons.IH
    by (cases x) (auto simp: post_candidate_def poll_candidates_def Let_def)
qed simp

text \<open>
  The comments say a client posts under the bastion's id and polls with the id of the other side, which is
  the same id: it reads back its own candidate.
\<close>

lemma candidate_echo:
  "length (candidates_of b m) < candidateCap \<Longrightarrow>
     fst (poll_candidates b (snd (post_candidate b c m))) = candidates_of b m @ [c]"
  by (simp add: poll_candidates_def post_candidate_def)

section \<open>Bastions\<close>

record claims =
  cl_UserID :: string
  cl_PermittedBastions :: "string list"
  cl_IsDaemon :: bool

definition dec_register :: "json \<Rightarrow> bastion result" where
  "dec_register v = res_bind (struct_ok ''struct'' v) (\<lambda>j. res_bind (get_str ''id'' j) (\<lambda>i.
     res_bind (get_list dec_str ''capabilities'' j) (\<lambda>caps. res_bind (get_str ''chepherd_version'' j) (\<lambda>ver.
     res_bind (get_str ''hostname'' j) (\<lambda>host.
       Inr \<lparr>ba_ID = i, ba_UserID = [], ba_DaemonToken = [], ba_LastSeenAt = 0, ba_CreatedAt = 0,
            ba_ChepherdVersion = ver, ba_Capabilities = caps, ba_Hostname = host\<rparr>)))))"

definition with_claims ::
    "claims option \<Rightarrow> (int \<times> string) + 'a \<Rightarrow> (claims \<Rightarrow> 'a \<Rightarrow> (int \<times> string) + 'b) \<Rightarrow> (int \<times> string) + 'b" where
  "with_claims c r f = (case c of None \<Rightarrow> Inl (401, ''unauthenticated'') | Some cl \<Rightarrow> then_need r (f cl))"

text \<open>A handler's method check comes before the claims, its body after them.\<close>

definition guarded_post ::
    "string \<Rightarrow> claims option \<Rightarrow> (json \<Rightarrow> 'a result) \<Rightarrow> raw \<Rightarrow> (int \<times> string) + claims \<times> 'a" where
  "guarded_post m c dec body =
     (if m \<noteq> ''POST'' then Inl (405, ''POST required'')
      else with_claims c (post_body m dec body) (\<lambda>cl x. Inr (cl, x)))"

definition registerBastion ::
    "string \<Rightarrow> claims option \<Rightarrow> raw \<Rightarrow> go_error + string \<Rightarrow> time \<Rightarrow> ledger \<Rightarrow>
       ((int \<times> string) + string \<times> bastion option) \<times> ledger" where
  "registerBastion m c body minted now led =
     (case guarded_post m c dec_register body of
        Inl e \<Rightarrow> (Inl e, led)
      | Inr (cl, b) \<Rightarrow>
          if ba_ID b = [] then (Inl (400, ''id required''), led)
          else case ledger_Register (b\<lparr>ba_UserID := cl_UserID cl\<rparr>) minted now led of
            (Inl e, led1) \<Rightarrow> (Inl (409, e), led1)
          | (Inr tok, led1) \<Rightarrow>
              (Inr (tok, case ledger_Get (ba_ID b) led1 of Inl _ \<Rightarrow> None | Inr x \<Rightarrow> Some x), led1))"

definition listMyBastions :: "claims option \<Rightarrow> ledger \<Rightarrow> (int \<times> string) + bastion list" where
  "listMyBastions c led = with_claims c (Inr ()) (\<lambda>cl _. Inr (ListByUser (cl_UserID cl) led))"

section \<open>Push notifications\<close>

datatype platform = PlatformiOS | PlatformAndroid | PlatformWebPush

record push_token =
  pk_Platform :: platform
  pk_Value :: string
  pk_BundleID :: string

record registration =
  rg_UserID :: string
  rg_DeviceID :: string
  rg_Token :: push_token
  rg_UpdatedAt :: time
  rg_LastFailureAt :: time

record notification =
  nt_Title :: string
  nt_Body :: string
  nt_Sound :: string
  nt_High :: bool
  nt_SessionUUID :: string
  nt_CollapseKey :: string
  nt_TTL :: int

type_synonym push_regs = "(string \<times> registration) list"

definition push_Upsert :: "time \<Rightarrow> registration \<Rightarrow> push_regs \<Rightarrow> push_regs" where
  "push_Upsert now r m = AList.update (rg_DeviceID r) (r\<lparr>rg_UpdatedAt := now\<rparr>) m"

definition push_ListByUser :: "string \<Rightarrow> push_regs \<Rightarrow> registration list" where
  "push_ListByUser u m = filter (\<lambda>r. rg_UserID r = u) (map snd m)"

definition MarkFailure :: "time \<Rightarrow> string \<Rightarrow> push_regs \<Rightarrow> push_regs" where
  "MarkFailure now dev m = (case map_of m dev of None \<Rightarrow> m
     | Some r \<Rightarrow> AList.update dev (r\<lparr>rg_LastFailureAt := now\<rparr>) m)"

definition device_Delete :: "string \<Rightarrow> push_regs \<Rightarrow> push_regs" where
  "device_Delete dev m = AList.delete dev m"

text \<open>\<open>MultiDispatcher\<close>: the backends there are, by kind.\<close>

definition NewMulti ::
    "(string \<times> (push_token \<Rightarrow> notification \<Rightarrow> go_error option)) list
       \<Rightarrow> platform \<Rightarrow> (push_token \<Rightarrow> notification \<Rightarrow> go_error option) option" where
  "NewMulti backends p =
     map_of (rev backends) (if p = PlatformiOS then ''apns'' else ''fcm'')"

definition platform_text :: "platform \<Rightarrow> string" where
  "platform_text p = (case p of PlatformiOS \<Rightarrow> ''0'' | PlatformAndroid \<Rightarrow> ''1'' | PlatformWebPush \<Rightarrow> ''2'')"

definition multi_Send ::
    "(platform \<Rightarrow> (push_token \<Rightarrow> notification \<Rightarrow> go_error option) option) \<Rightarrow> push_token \<Rightarrow> notification
       \<Rightarrow> go_error option" where
  "multi_Send byPlatform tok n =
     (case byPlatform (pk_Platform tok) of
        None \<Rightarrow> Some (''push: no dispatcher for platform '' @ platform_text (pk_Platform tok) @ '': push: backend disabled'')
      | Some send \<Rightarrow> send tok n)"

definition dec_push_register :: "json \<Rightarrow> (string \<times> string \<times> string \<times> string) result" where
  "dec_push_register v = res_bind (struct_ok ''struct'' v) (\<lambda>j. res_bind (get_str ''device_id'' j) (\<lambda>d.
     res_bind (get_str ''platform'' j) (\<lambda>p. res_bind (get_str ''value'' j) (\<lambda>x.
     res_bind (get_str ''bundle_id'' j) (\<lambda>b. Inr (d, p, x, b))))))"

definition platform_of :: "string \<Rightarrow> platform option" where
  "platform_of p = (if p = ''ios'' then Some PlatformiOS else if p = ''android'' then Some PlatformAndroid
     else if p = ''webpush'' then Some PlatformWebPush else None)"

definition pushRegister ::
    "string \<Rightarrow> claims option \<Rightarrow> raw \<Rightarrow> time \<Rightarrow> push_regs \<Rightarrow> ((int \<times> string) + unit) \<times> push_regs" where
  "pushRegister m c body now regs =
     (case guarded_post m c dec_push_register body of
        Inl e \<Rightarrow> (Inl e, regs)
      | Inr (cl, d, p, x, b) \<Rightarrow>
          if d = [] \<or> x = [] then (Inl (400, ''device_id and value required''), regs)
          else case platform_of p of
            None \<Rightarrow> (Inl (400, ''invalid platform''), regs)
          | Some plat \<Rightarrow>
              (Inr (), push_Upsert now \<lparr>rg_UserID = cl_UserID cl, rg_DeviceID = d,
                 rg_Token = \<lparr>pk_Platform = plat, pk_Value = x, pk_BundleID = b\<rparr>, rg_UpdatedAt = 0, rg_LastFailureAt = 0\<rparr> regs))"

definition dec_push_send :: "json \<Rightarrow> notification result" where
  "dec_push_send v = res_bind (struct_ok ''struct'' v) (\<lambda>j. res_bind (get_str ''title'' j) (\<lambda>t.
     res_bind (get_str ''body'' j) (\<lambda>b. res_bind (get_str ''sound'' j) (\<lambda>snd'.
     res_bind (get_str ''priority'' j) (\<lambda>p. res_bind (get_str ''session_uuid'' j) (\<lambda>u.
     res_bind (get_str ''collapse_key'' j) (\<lambda>k. res_bind (get_int ''ttl_seconds'' j) (\<lambda>ttl.
       Inr \<lparr>nt_Title = t, nt_Body = b, nt_Sound = snd', nt_High = (p = ''high''), nt_SessionUUID = u,
            nt_CollapseKey = k, nt_TTL = ttl * second\<rparr>))))))))"

text \<open>One device after the other; a failure is noted in the registry. The counts are of sent and failed.\<close>

fun send_each ::
    "(push_token \<Rightarrow> notification \<Rightarrow> go_error option) \<Rightarrow> time \<Rightarrow> notification \<Rightarrow> registration list \<Rightarrow> push_regs
       \<Rightarrow> (nat \<times> nat) \<times> push_regs" where
  "send_each send now n [] regs = ((0, 0), regs)"
| "send_each send now n (r # rs) regs =
     (case send (rg_Token r) n of
        Some _ \<Rightarrow> (case send_each send now n rs (MarkFailure now (rg_DeviceID r) regs) of
           ((ok, failed), regs') \<Rightarrow> ((ok, Suc failed), regs'))
      | None \<Rightarrow> (case send_each send now n rs regs of ((ok, failed), regs') \<Rightarrow> ((Suc ok, failed), regs')))"

definition pushSend ::
    "(push_token \<Rightarrow> notification \<Rightarrow> go_error option) \<Rightarrow> string \<Rightarrow> claims option \<Rightarrow> raw \<Rightarrow> time \<Rightarrow> push_regs
       \<Rightarrow> ((int \<times> string) + nat \<times> nat \<times> nat) \<times> push_regs" where
  "pushSend send m c body now regs =
     (case guarded_post m c dec_push_send body of
        Inl e \<Rightarrow> (Inl e, regs)
      | Inr (cl, n) \<Rightarrow>
          let mine = push_ListByUser (cl_UserID cl) regs in
          (case send_each send now n mine regs of
             ((ok, failed), regs') \<Rightarrow> (Inr (length mine, ok, failed), regs')))"

lemma send_each_counts:
  "fst (send_each send now n rs regs)
     = (length (filter (\<lambda>r. send (rg_Token r) n = None) rs), length (filter (\<lambda>r. send (rg_Token r) n \<noteq> None) rs))"
  by (induction send now n rs regs rule: send_each.induct) (auto split: option.split prod.split)

text \<open>A device id belongs to whoever registers it last: its former owner's notifications stop.\<close>

lemma device_taken_over:
  assumes "\<forall>(k, r) \<in> set regs. k = rg_DeviceID r" "distinct (map fst regs)" "rg_UserID new \<noteq> u"
    and "r \<in> set (push_ListByUser u (push_Upsert now new regs))"
  shows "rg_DeviceID r \<noteq> rg_DeviceID new \<and> r \<in> set (push_ListByUser u regs)"
proof -
  let ?m = "push_Upsert now new regs"
  have d: "distinct (map fst ?m)" using assms(2) by (simp add: push_Upsert_def distinct_update)
  obtain k where "(k, r) \<in> set ?m" and u: "rg_UserID r = u"
    using assms(4) by (auto simp: push_ListByUser_def)
  then have "map_of ?m k = Some r" using d by simp
  then have "k \<noteq> rg_DeviceID new" "map_of regs k = Some r"
    using u assms(3) by (auto simp: push_Upsert_def split: if_splits)
  then have "k \<noteq> rg_DeviceID new" "(k, r) \<in> set regs" by (auto dest: map_of_SomeD)
  then show ?thesis using assms(1) u by (force simp: push_ListByUser_def)
qed

text \<open>Sending counts every device of the caller once, and touches nobody else's.\<close>

lemma failures_of_others:
  "k \<notin> rg_DeviceID ` set rs \<Longrightarrow> map_of (snd (send_each send now n rs regs)) k = map_of regs k"
  by (induction send now n rs regs rule: send_each.induct)
    (auto simp: MarkFailure_def split: option.split prod.splits)

end
