(* ===== verification/Relay_Auth.thy ===== *)
theory Relay_Auth
  imports Keystore Relay_Server "HOL-Library.Word"
begin

text \<open>
  The relay's token check (\<open>relay/internal/auth/auth.go\<close>): padded base64, the key set of the identity service
  with its cache, \<open>Verify\<close> and the middleware. \<open>parse\<close> is the parser behind \<open>json.Unmarshal\<close> and \<open>rsa\<close> the
  signature check of \<open>rs256.go\<close>; what fetching the key set gives is an argument.
\<close>

section \<open>Padded base64\<close>

fun skip_newlines :: "nat \<Rightarrow> string \<Rightarrow> nat \<times> string" where
  "skip_newlines i [] = (i, [])"
| "skip_newlines i (c # cs) = (if is_newline c then skip_newlines (Suc i) cs else (i, c # cs))"

text \<open>After the padding only line breaks may follow.\<close>

definition pad_end :: "nat \<Rightarrow> string \<Rightarrow> string \<Rightarrow> string result" where
  "pad_end i rest out = (case skip_newlines i rest of (j, []) \<Rightarrow> Inr out | (j, _ # _) \<Rightarrow> corrupt j)"

text \<open>\<open>URLEncoding.DecodeString\<close>; \<open>n\<close> is the length of the whole input.\<close>

fun b64p_loop :: "nat \<Rightarrow> nat \<Rightarrow> nat list \<Rightarrow> string \<Rightarrow> string result" where
  "b64p_loop n i ds [] = (if ds = [] then Inr [] else corrupt (i - length ds))"
| "b64p_loop n i ds (c # cs) =
     (case b64_value c of
        Some s \<Rightarrow>
          (case ds of
             [p, q, r] \<Rightarrow>
               res_bind (b64p_loop n (Suc i) [] cs)
                 (\<lambda>bs. Inr (b64_first p q # b64_second q r # b64_third r s # bs))
           | _ \<Rightarrow> b64p_loop n (Suc i) (ds @ [s]) cs)
      | None \<Rightarrow>
          if is_newline c then b64p_loop n (Suc i) ds cs
          else if c \<noteq> CHR ''='' then corrupt i
          else case ds of
            [p, q] \<Rightarrow>
              (case skip_newlines (Suc i) cs of
                 (j, []) \<Rightarrow> corrupt n
               | (j, c' # cs') \<Rightarrow>
                   if c' = CHR ''='' then pad_end (Suc j) cs' [b64_first p q] else corrupt (j - 1))
          | [p, q, r] \<Rightarrow> pad_end (Suc i) cs [b64_first p q, b64_second q r]
          | _ \<Rightarrow> corrupt i)"

definition base64URLDecode :: "string \<Rightarrow> string result" where
  "base64URLDecode s0 =
     (let s = (if length s0 mod 4 = 2 then s0 @ ''=='' else if length s0 mod 4 = 3 then s0 @ ''='' else s0)
      in b64p_loop (length s) 0 [] s)"

text \<open>C31 on text of the alphabet it reads what the unpadded decoder reads.\<close>

definition alphabetic :: "string \<Rightarrow> bool" where
  "alphabetic s \<longleftrightarrow> list_all (\<lambda>c. b64_value c \<noteq> None) s"

lemma b64_value_other [simp]: "is_newline c \<Longrightarrow> b64_value c = None" "b64_value CHR ''='' = None"
  "\<not> is_newline CHR ''=''"
  by (auto simp: is_newline_def b64_value_def)

definition padding :: "nat \<Rightarrow> string" where
  "padding k = (if k mod 4 = 2 then ''=='' else if k mod 4 = 3 then ''='' else [])"

lemma padded_loop:
  assumes "alphabetic s" "length ds < 4"
  shows "b64p_loop n i ds (s @ padding (length ds + length s)) = b64_loop i ds s"
  using assms
proof (induction s arbitrary: i ds)
  case Nil
  consider "ds = []" | p where "ds = [p]" | p q where "ds = [p, q]" | p q r where "ds = [p, q, r]"
    using Nil(2) by (cases ds; cases "tl ds"; cases "tl (tl ds)"; cases "tl (tl (tl ds))") auto
  then show ?case by cases (simp_all add: padding_def pad_end_def)
next
  case (Cons c s)
  then obtain v where v: "b64_value c = Some v" by (auto simp: alphabetic_def)
  then have nl: "\<not> is_newline c" by auto
  have al: "alphabetic s" using Cons.prems(1) by (simp add: alphabetic_def)
  show ?case
  proof (cases "length ds = 3")
    case True
    then obtain p q r where ds: "ds = [p, q, r]" by (auto simp: length_Suc_conv numeral_3_eq_3)
    have "padding (length ds + length (c # s)) = padding (length s)" by (simp add: ds padding_def)
    then show ?thesis using Cons.IH [OF al, of "[]" "Suc i"] v nl by (simp add: ds)
  next
    case False
    then have l: "length (ds @ [v]) < 4" using Cons.prems(2) by simp
    have "(case ds of [p, q, r] \<Rightarrow> A p q r | _ \<Rightarrow> B) = B" for A :: "nat \<Rightarrow> nat \<Rightarrow> nat \<Rightarrow> string result" and B
      using False by (auto split: list.split)
    then show ?thesis using Cons.IH [OF al l, of "Suc i"] v nl by simp
  qed
qed

lemma base64URLDecode_plain:
  assumes "alphabetic s"
  shows "base64URLDecode s = b64_decode s"
proof -
  have "base64URLDecode s = b64p_loop (length (s @ padding (length s))) 0 [] (s @ padding (length s))"
    by (simp add: base64URLDecode_def padding_def)
  then show ?thesis using padded_loop [OF assms, of "[]"] by (simp add: b64_decode_def)
qed

lemma encode_alphabetic: "alphabetic (b64_encode s)"
proof (induction s rule: b64_encode.induct)
qed (simp_all add: alphabetic_def Let_def)

section \<open>The key set\<close>

type_synonym rsa_key = "nat \<times> 64 word"

record relay_jwk =
  rj_Kid :: string
  rj_Kty :: string
  rj_N :: string
  rj_E :: string

definition dec_relay_jwk :: "json \<Rightarrow> relay_jwk result" where
  "dec_relay_jwk v = res_bind (struct_ok ''struct'' v) (\<lambda>j. res_bind (get_str ''kid'' j) (\<lambda>kid.
     res_bind (get_str ''kty'' j) (\<lambda>kty. res_bind (get_str ''alg'' j) (\<lambda>_. res_bind (get_str ''use'' j) (\<lambda>_.
     res_bind (get_str ''n'' j) (\<lambda>n. res_bind (get_str ''e'' j) (\<lambda>e.
       Inr \<lparr>rj_Kid = kid, rj_Kty = kty, rj_N = n, rj_E = e\<rparr>)))))))"

definition dec_relay_jwks :: "json \<Rightarrow> relay_jwk list result" where
  "dec_relay_jwks v = res_bind (struct_ok ''struct'' v) (get_list dec_relay_jwk ''keys'')"

text \<open>\<open>eInt << 8 | b\<close> over the bytes, in 64 bits.\<close>

fun exponent :: "string \<Rightarrow> 64 word \<Rightarrow> 64 word" where
  "exponent [] e = e"
| "exponent (b # bs) e = exponent bs (or (push_bit 8 e) (word_of_nat (of_char b)))"

definition rsa_key_of :: "relay_jwk \<Rightarrow> rsa_key option" where
  "rsa_key_of k =
     (if rj_Kty k \<noteq> ''RSA'' then None
      else case (base64URLDecode (rj_N k), base64URLDecode (rj_E k)) of
        (Inr n, Inr e) \<Rightarrow> Some (be_nat n, exponent e 0) | _ \<Rightarrow> None)"

definition relay_keys :: "relay_jwk list \<Rightarrow> string \<Rightarrow> rsa_key option" where
  "relay_keys ks kid = map_of (rev (concat (map (\<lambda>k. case rsa_key_of k of None \<Rightarrow> [] | Some q \<Rightarrow> [(rj_Kid k, q)]) ks))) kid"

record verifier =
  ve_Endpoint :: string
  ve_Issuer :: string
  ve_Audience :: string
  ve_Refresh :: int
  ve_keys :: "string \<Rightarrow> rsa_key option"
  ve_keysAt :: time

definition new_verifier :: "string \<Rightarrow> string \<Rightarrow> string \<Rightarrow> verifier" where
  "new_verifier endpoint iss aud = \<lparr>ve_Endpoint = endpoint, ve_Issuer = iss, ve_Audience = aud,
     ve_Refresh = 60 * minute, ve_keys = (\<lambda>_. None), ve_keysAt = time_zero\<rparr>"

text \<open>What the identity service answers: a failed request, or a status and a body.\<close>

type_synonym fetch_result = "go_error + int \<times> raw"

definition refresh :: "fetch_result \<Rightarrow> time \<Rightarrow> verifier \<Rightarrow> go_error option \<times> verifier" where
  "refresh web now v =
     (if ve_Endpoint v = [] then (Some ''auth: JWKSEndpoint not configured'', v)
      else case web of
        Inl e \<Rightarrow> (Some (''fetch jwks: '' @ e), v)
      | Inr (status, body) \<Rightarrow>
          if status \<noteq> 200 then (Some (''jwks endpoint returned '' @ show_int status), v)
          else case unmarshal dec_relay_jwks body of
            Inl e \<Rightarrow> (Some (''parse jwks: '' @ e), v)
          | Inr ks \<Rightarrow> (None, v\<lparr>ve_keys := relay_keys ks, ve_keysAt := now\<rparr>))"

text \<open>\<open>now\<close> and \<open>now'\<close> are the clock before and after the fetch.\<close>

definition keyFor :: "fetch_result \<Rightarrow> time \<Rightarrow> time \<Rightarrow> string \<Rightarrow> verifier \<Rightarrow> rsa_key result \<times> verifier" where
  "keyFor web now now' kid v =
     (case (if now - ve_keysAt v < ve_Refresh v then ve_keys v kid else None) of
        Some k \<Rightarrow> (Inr k, v)
      | None \<Rightarrow>
          (case refresh web now' v of
             (Some e, v1) \<Rightarrow> (Inl e, v1)
           | (None, v1) \<Rightarrow>
               (case ve_keys v1 kid of
                  Some k \<Rightarrow> (Inr k, v1)
                | None \<Rightarrow> (Inl (''auth: kid '' @ quote kid @ '' not in JWKS''), v1))))"

section \<open>Tokens\<close>

record relay_claims = claims +
  rc_Subject :: string
  rc_Expiry :: int
  rc_Issuer :: string
  rc_Audience :: string

definition dec_claims :: "json \<Rightarrow> relay_claims result" where
  "dec_claims v = res_bind (struct_ok ''auth.Claims'' v) (\<lambda>j. res_bind (get_str ''sub'' j) (\<lambda>sub.
     res_bind (get_str ''chepherd:user_id'' j) (\<lambda>u. res_bind (get_list dec_str ''chepherd:permitted_bastions'' j) (\<lambda>bs.
     res_bind (get_int ''exp'' j) (\<lambda>ex. res_bind (get_int ''iat'' j) (\<lambda>_. res_bind (get_str ''iss'' j) (\<lambda>iss.
     res_bind (get_str ''aud'' j) (\<lambda>aud. res_bind (get_str ''client_id'' j) (\<lambda>_.
     res_bind (get_bool ''chepherd:is_daemon'' j) (\<lambda>d.
       Inr \<lparr>cl_UserID = u, cl_PermittedBastions = bs, cl_IsDaemon = d, rc_Subject = sub, rc_Expiry = ex,
            rc_Issuer = iss, rc_Audience = aud\<rparr>))))))))))"

definition dec_rs_header :: "json \<Rightarrow> (string \<times> string) result" where
  "dec_rs_header v = res_bind (struct_ok ''struct'' v) (\<lambda>j. res_bind (get_str ''alg'' j) (\<lambda>alg.
     res_bind (get_str ''kid'' j) (\<lambda>kid. res_bind (get_str ''typ'' j) (\<lambda>_. Inr (alg, kid)))))"

definition PermitsAnyBastion :: "string \<Rightarrow> ('a) claims_scheme \<Rightarrow> bool" where
  "PermitsAnyBastion b c \<longleftrightarrow> b \<in> set (cl_PermittedBastions c)"

definition PermitsBastion :: "string \<Rightarrow> ('a) claims_scheme \<Rightarrow> bool" where
  "PermitsBastion b c \<longleftrightarrow>
     (if cl_IsDaemon c then PermitsAnyBastion b c else b \<in> set (cl_PermittedBastions c) \<or> ''*'' \<in> set (cl_PermittedBastions c))"

text \<open>The claims checked, at \<open>unix\<close> seconds.\<close>

definition check_claims :: "verifier \<Rightarrow> int \<Rightarrow> relay_claims \<Rightarrow> relay_claims result" where
  "check_claims v unix c =
     (if 0 < rc_Expiry c \<and> rc_Expiry c \<le> unix then Inl ''auth: token expired''
      else if ve_Issuer v \<noteq> [] \<and> rc_Issuer c \<noteq> ve_Issuer v
      then Inl (''auth: bad issuer '' @ quote (rc_Issuer c) @ '' (want '' @ quote (ve_Issuer v) @ '')'')
      else if ve_Audience v \<noteq> [] \<and> rc_Audience c \<noteq> ve_Audience v
      then Inl (''auth: bad audience '' @ quote (rc_Audience c) @ '' (want '' @ quote (ve_Audience v) @ '')'')
      else Inr c)"

definition relay_Verify ::
    "(string \<Rightarrow> raw) \<Rightarrow> (rsa_key \<Rightarrow> string \<Rightarrow> string \<Rightarrow> go_error option) \<Rightarrow> fetch_result \<Rightarrow> time \<Rightarrow> time \<Rightarrow> int \<Rightarrow> string
       \<Rightarrow> verifier \<Rightarrow> relay_claims result \<times> verifier" where
  "relay_Verify parse rsa web now now' unix token v =
     (if token = [] then (Inl ''auth: empty token'', v)
      else case split_on CHR ''.'' token of
        [h, p, sg] \<Rightarrow>
          (case res_bind (res_wrap ''auth: decode header: '' (base64URLDecode h))
              (\<lambda>hb. res_wrap ''auth: parse header: '' (unmarshal dec_rs_header (parse hb))) of
             Inl e \<Rightarrow> (Inl e, v)
           | Inr (alg, kid) \<Rightarrow>
               if alg \<noteq> ''RS256'' then (Inl (''auth: unsupported alg '' @ quote alg @ '' (want RS256)''), v)
               else case keyFor web now now' kid v of
                 (Inl e, v1) \<Rightarrow> (Inl (''auth: key lookup: '' @ e), v1)
               | (Inr key, v1) \<Rightarrow>
                   (res_bind (res_wrap ''auth: decode signature: '' (base64URLDecode sg)) (\<lambda>sig.
                    case rsa key (h @ ''.'' @ p) sig of Some e \<Rightarrow> Inl (''auth: signature: '' @ e) | None \<Rightarrow>
                    res_bind (res_wrap ''auth: decode payload: '' (base64URLDecode p)) (\<lambda>pb.
                    res_bind (res_wrap ''auth: parse claims: '' (unmarshal dec_claims (parse pb)))
                      (check_claims v1 unix))), v1))
      | _ \<Rightarrow> (Inl ''auth: malformed JWT (want 3 segments)'', v))"

text \<open>The middleware: the claims the handler sees, or the message of the 401.\<close>

definition relay_Middleware ::
    "(string \<Rightarrow> raw) \<Rightarrow> (rsa_key \<Rightarrow> string \<Rightarrow> string \<Rightarrow> go_error option) \<Rightarrow> fetch_result \<Rightarrow> time \<Rightarrow> time \<Rightarrow> int \<Rightarrow> string
       \<Rightarrow> verifier \<Rightarrow> relay_claims result \<times> verifier" where
  "relay_Middleware parse rsa web now now' unix authorization v =
     (if \<not> has_prefix ''Bearer '' authorization then (Inl ''Authorization: Bearer <token> required'', v)
      else relay_Verify parse rsa web now now' unix (trim_prefix ''Bearer '' authorization) v)"

section \<open>Histories\<close>

record relay_request =
  rr_web :: fetch_result
  rr_now :: time
  rr_now' :: time
  rr_unix :: int
  rr_authorization :: string

definition relay_check ::
    "(string \<Rightarrow> raw) \<Rightarrow> (rsa_key \<Rightarrow> string \<Rightarrow> string \<Rightarrow> go_error option) \<Rightarrow> relay_request \<Rightarrow> verifier
       \<Rightarrow> relay_claims result \<times> verifier" where
  "relay_check parse rsa q = relay_Middleware parse rsa (rr_web q) (rr_now q) (rr_now' q) (rr_unix q) (rr_authorization q)"

definition relay_after ::
    "(string \<Rightarrow> raw) \<Rightarrow> (rsa_key \<Rightarrow> string \<Rightarrow> string \<Rightarrow> go_error option) \<Rightarrow> relay_request list \<Rightarrow> verifier \<Rightarrow> verifier" where
  "relay_after parse rsa qs v = foldl (\<lambda>v q. snd (relay_check parse rsa q v)) v qs"

definition serves :: "relay_request \<Rightarrow> relay_jwk list \<Rightarrow> bool" where
  "serves q ks \<longleftrightarrow> (\<exists>body. rr_web q = Inr (200, body) \<and> unmarshal dec_relay_jwks body = Inr ks)"

text \<open>The key set kept is a document some request fetched, or there is none.\<close>

definition kept :: "relay_request list \<Rightarrow> verifier \<Rightarrow> bool" where
  "kept qs v \<longleftrightarrow> (\<forall>kid k. ve_keys v kid = Some k \<longrightarrow>
     (\<exists>q \<in> set qs. \<exists>ks. serves q ks \<and> ve_keysAt v = rr_now' q \<and> ve_keys v = relay_keys ks))"

definition same_policy :: "verifier \<Rightarrow> verifier \<Rightarrow> bool" where
  "same_policy v v' \<longleftrightarrow> ve_Endpoint v' = ve_Endpoint v \<and> ve_Issuer v' = ve_Issuer v \<and>
     ve_Audience v' = ve_Audience v \<and> ve_Refresh v' = ve_Refresh v"

lemma refresh_cases:
  assumes "refresh web now v = (r, v')"
  obtains (kept) e where "r = Some e" "v' = v"
  | (fetched) body ks where "r = None" "web = Inr (200, body)" "unmarshal dec_relay_jwks body = Inr ks"
      "v' = v\<lparr>ve_keys := relay_keys ks, ve_keysAt := now\<rparr>"
  using assms by (auto simp: refresh_def split: if_splits sum.splits)

lemma keyFor_cases:
  assumes "keyFor web now now' kid v = (r, v')"
  obtains (cached) k where "r = Inr k" "v' = v" "ve_keys v kid = Some k" "now - ve_keysAt v < ve_Refresh v"
  | (failed) e where "r = Inl e" "v' = v"
  | (fetched) body ks where "web = Inr (200, body)" "unmarshal dec_relay_jwks body = Inr ks"
      "v' = v\<lparr>ve_keys := relay_keys ks, ve_keysAt := now'\<rparr>"
      "r = (case relay_keys ks kid of Some k \<Rightarrow> Inr k | None \<Rightarrow> Inl (''auth: kid '' @ quote kid @ '' not in JWKS''))"
proof (cases "if now - ve_keysAt v < ve_Refresh v then ve_keys v kid else None")
  case (Some k)
  then have "r = Inr k" "v' = v" "ve_keys v kid = Some k" "now - ve_keysAt v < ve_Refresh v"
    using assms by (auto simp: keyFor_def split: if_splits)
  then show ?thesis by (rule cached)
next
  case None
  obtain e v1 where r: "refresh web now' v = (e, v1)" by fastforce
  from r show ?thesis
  proof (cases rule: refresh_cases)
    case kept
    then show ?thesis using assms None r failed by (auto simp: keyFor_def)
  next
    case (fetched body ks)
    then show ?thesis
      using assms None r that(3) [of body ks] by (auto simp: keyFor_def split: option.splits)
  qed
qed

text \<open>What an accepted request had.\<close>

definition presents :: "string \<Rightarrow> string \<Rightarrow> string \<Rightarrow> string \<Rightarrow> bool" where
  "presents authorization h p sg \<longleftrightarrow> has_prefix ''Bearer '' authorization \<and>
     split_on CHR ''.'' (trim_prefix ''Bearer '' authorization) = [h, p, sg]"

definition signed_with ::
    "(string \<Rightarrow> raw) \<Rightarrow> (rsa_key \<Rightarrow> string \<Rightarrow> string \<Rightarrow> go_error option) \<Rightarrow> string \<Rightarrow> string \<Rightarrow> string \<Rightarrow> rsa_key \<Rightarrow> string
       \<Rightarrow> relay_claims \<Rightarrow> bool" where
  "signed_with parse rsa h p sg key kid c \<longleftrightarrow>
     (\<exists>hb sig pb. base64URLDecode h = Inr hb \<and> unmarshal dec_rs_header (parse hb) = Inr (''RS256'', kid) \<and>
        base64URLDecode sg = Inr sig \<and> rsa key (h @ ''.'' @ p) sig = None \<and>
        base64URLDecode p = Inr pb \<and> unmarshal dec_claims (parse pb) = Inr c)"

lemma check_accepts:
  assumes "relay_check parse rsa q v = (Inr c, v')"
  obtains h p sg key kid where "presents (rr_authorization q) h p sg" "signed_with parse rsa h p sg key kid c"
    "keyFor (rr_web q) (rr_now q) (rr_now' q) kid v = (Inr key, v')" "check_claims v' (rr_unix q) c = Inr c"
proof -
  have verify: "relay_Verify parse rsa (rr_web q) (rr_now q) (rr_now' q) (rr_unix q)
      (trim_prefix ''Bearer '' (rr_authorization q)) v = (Inr c, v')" "has_prefix ''Bearer '' (rr_authorization q)"
    using assms by (auto simp: relay_check_def relay_Middleware_def split: if_splits)
  obtain h p sg where parts: "split_on CHR ''.'' (trim_prefix ''Bearer '' (rr_authorization q)) = [h, p, sg]"
    using verify(1) by (auto simp: relay_Verify_def split: if_splits list.splits)
  have sub: "check_claims w u d = Inr c \<Longrightarrow> d = c" for w u d
    by (auto simp: check_claims_def split: if_splits)
  show ?thesis
    using verify(1) parts verify(2) that [of h p sg] sub
    by (auto simp: relay_Verify_def presents_def signed_with_def res_bind_Inr_iff res_wrap_def
        split: if_splits sum.splits prod.splits option.splits)
qed

lemma keyFor_state:
  "snd (keyFor (rr_web q) (rr_now q) (rr_now' q) kid v) = v \<or>
     (\<exists>ks. serves q ks \<and> snd (keyFor (rr_web q) (rr_now q) (rr_now' q) kid v)
        = v\<lparr>ve_keys := relay_keys ks, ve_keysAt := rr_now' q\<rparr>)"
proof -
  obtain r v' where k: "keyFor (rr_web q) (rr_now q) (rr_now' q) kid v = (r, v')" by fastforce
  from k have "v' = v \<or> (\<exists>ks. serves q ks \<and> v' = v\<lparr>ve_keys := relay_keys ks, ve_keysAt := rr_now' q\<rparr>)"
    by (cases rule: keyFor_cases) (auto simp: serves_def)
  then show ?thesis by (simp only: k snd_conv)
qed

lemma check_state:
  "snd (relay_check parse rsa q v) = v \<or>
     (\<exists>ks. serves q ks \<and> snd (relay_check parse rsa q v) = v\<lparr>ve_keys := relay_keys ks, ve_keysAt := rr_now' q\<rparr>)"
proof -
  have "snd (relay_check parse rsa q v) = v \<or>
      (\<exists>kid. snd (relay_check parse rsa q v) = snd (keyFor (rr_web q) (rr_now q) (rr_now' q) kid v))"
    by (auto simp: relay_check_def relay_Middleware_def relay_Verify_def
        split: list.split sum.split prod.split) (metis snd_conv)+
  then show ?thesis using keyFor_state by metis
qed

lemma after_snoc: "relay_after parse rsa (qs @ [q]) v = snd (relay_check parse rsa q (relay_after parse rsa qs v))"
  by (simp add: relay_after_def)

lemma kept_after:
  "kept qs (relay_after parse rsa qs (new_verifier ep iss aud))
   \<and> same_policy (new_verifier ep iss aud) (relay_after parse rsa qs (new_verifier ep iss aud))"
proof (induction qs rule: rev_induct)
  case Nil
  then show ?case by (simp add: kept_def relay_after_def new_verifier_def same_policy_def)
next
  case (snoc q qs)
  let ?v = "relay_after parse rsa qs (new_verifier ep iss aud)"
  from check_state [of parse rsa q ?v] show ?case
  proof (elim disjE exE conjE)
    assume "snd (relay_check parse rsa q ?v) = ?v"
    then show ?thesis using snoc.IH unfolding after_snoc kept_def by auto
  next
    fix ks assume "serves q ks" "snd (relay_check parse rsa q ?v) = ?v\<lparr>ve_keys := relay_keys ks, ve_keysAt := rr_now' q\<rparr>"
    then show ?thesis using snoc.IH unfolding after_snoc kept_def same_policy_def by auto
  qed
qed

text \<open>C31: after any history of requests, a request the relay lets in carries a bearer token of three parts, signed
  with RS256 by a key that the identity service published under the token's key id, in an answer to this
  request or to an earlier one less than an hour old; the token names the relay's issuer and audience
  when they are configured, and an expiry it has, in the future.\<close>

theorem relay_gate:
  assumes "relay_check parse rsa q (relay_after parse rsa qs (new_verifier ep iss aud)) = (Inr c, v)"
  shows "(\<exists>h p sg key kid. presents (rr_authorization q) h p sg \<and> signed_with parse rsa h p sg key kid c
       \<and> (\<exists>q' ks. serves q' ks \<and> relay_keys ks kid = Some key \<and>
            (q' = q \<or> (q' \<in> set qs \<and> rr_now q - rr_now' q' < 60 * minute))))
    \<and> (iss \<noteq> [] \<longrightarrow> rc_Issuer c = iss) \<and> (aud \<noteq> [] \<longrightarrow> rc_Audience c = aud)
    \<and> (0 < rc_Expiry c \<longrightarrow> rr_unix q < rc_Expiry c)"
proof -
  let ?w = "relay_after parse rsa qs (new_verifier ep iss aud)"
  note w = kept_after [of qs parse rsa ep iss aud]
  have pol: "ve_Issuer ?w = iss" "ve_Audience ?w = aud" "ve_Refresh ?w = 60 * minute"
    using w by (simp_all add: same_policy_def new_verifier_def)
  obtain h p sg key kid where t: "presents (rr_authorization q) h p sg" "signed_with parse rsa h p sg key kid c"
    and k: "keyFor (rr_web q) (rr_now q) (rr_now' q) kid ?w = (Inr key, v)"
    and cl: "check_claims v (rr_unix q) c = Inr c"
    using check_accepts [OF assms] by blast
  from k have key: "(\<exists>q' ks. serves q' ks \<and> relay_keys ks kid = Some key \<and>
      (q' = q \<or> (q' \<in> set qs \<and> rr_now q - rr_now' q' < 60 * minute))) \<and> ve_Issuer v = iss \<and> ve_Audience v = aud"
  proof (cases rule: keyFor_cases)
    case (cached k)
    then show ?thesis using w pol unfolding kept_def by (metis Inr_inject)
  next
    case (fetched body ks)
    then have "serves q ks" "relay_keys ks kid = Some key" by (auto simp: serves_def split: option.splits)
    then show ?thesis using fetched(3) pol by auto
  qed simp
  then have "(iss \<noteq> [] \<longrightarrow> rc_Issuer c = iss) \<and> (aud \<noteq> [] \<longrightarrow> rc_Audience c = aud)
      \<and> (0 < rc_Expiry c \<longrightarrow> rr_unix q < rc_Expiry c)"
    using cl by (auto simp: check_claims_def split: if_splits)
  then show ?thesis using t key by blast
qed

text \<open>C31 on a first request.\<close>

definition demo_parse :: "string \<Rightarrow> raw" where
  "demo_parse t = RawJson (JObj (if t = ''h'' then [(''alg'', JStr ''RS256''), (''kid'', JStr ''k'')]
     else [(''sub'', JStr ''ann''), (''aud'', JStr ''chepherd-rc''), (''exp'', JNum 90)]))"

definition demo_relay_request :: relay_request where
  "demo_relay_request = \<lparr>rr_web = Inr (200, RawJson (JObj [(''keys'', JArr [JObj [(''kid'', JStr ''k''),
       (''kty'', JStr ''RSA''), (''n'', JStr ''aA''), (''e'', JStr ''aA'')]])])),
     rr_now = 100 * minute, rr_now' = 100 * minute, rr_unix = 50, rr_authorization = ''Bearer aA.cA.cw''\<rparr>"

definition demo_relay_claims :: relay_claims where
  "demo_relay_claims = \<lparr>cl_UserID = [], cl_PermittedBastions = [], cl_IsDaemon = False, rc_Subject = ''ann'', rc_Expiry = 90,
     rc_Issuer = [], rc_Audience = ''chepherd-rc''\<rparr>"

lemma demo_decoded:
  "base64URLDecode ''aA'' = Inr ''h''" "base64URLDecode ''cA'' = Inr ''p''" "base64URLDecode ''cw'' = Inr ''s''"
  by code_simp+

lemma demo_token: "split_on CHR ''.'' (trim_prefix ''Bearer '' ''Bearer aA.cA.cw'') = [''aA'', ''cA'', ''cw'']"
  "has_prefix ''Bearer '' ''Bearer aA.cA.cw''" "trim_prefix ''Bearer '' ''Bearer aA.cA.cw'' \<noteq> []"
  by code_simp+

lemma demo_header: "unmarshal dec_rs_header (demo_parse ''h'') = Inr (''RS256'', ''k'')"
  by code_simp

lemma demo_payload: "unmarshal dec_claims (demo_parse ''p'') = Inr demo_relay_claims"
  by code_simp

lemma demo_jwks: "unmarshal dec_relay_jwks (RawJson (JObj [(''keys'', JArr [JObj [(''kid'', JStr ''k''),
    (''kty'', JStr ''RSA''), (''n'', JStr ''aA''), (''e'', JStr ''aA'')]])]))
    = Inr [\<lparr>rj_Kid = ''k'', rj_Kty = ''RSA'', rj_N = ''aA'', rj_E = ''aA''\<rparr>]"
  by code_simp

lemma demo_key: "\<exists>key. relay_keys [\<lparr>rj_Kid = ''k'', rj_Kty = ''RSA'', rj_N = ''aA'', rj_E = ''aA''\<rparr>] ''k'' = Some key"
  by (simp add: relay_keys_def rsa_key_of_def demo_decoded)

lemma relay_gate_witness:
  "fst (relay_check demo_parse (\<lambda>_ _ _. None) demo_relay_request
     (relay_after demo_parse (\<lambda>_ _ _. None) [] (new_verifier ''url'' [] ''chepherd-rc''))) = Inr demo_relay_claims
   \<and> rr_unix demo_relay_request < rc_Expiry demo_relay_claims"
proof -
  let ?v = "new_verifier ''url'' [] ''chepherd-rc''"
  obtain key where key: "relay_keys [\<lparr>rj_Kid = ''k'', rj_Kty = ''RSA'', rj_N = ''aA'', rj_E = ''aA''\<rparr>] ''k'' = Some key"
    using demo_key by blast
  have k: "fst (keyFor (rr_web demo_relay_request) n n' ''k'' ?v) = Inr key" for n n'
    using demo_jwks key by (simp add: keyFor_def refresh_def new_verifier_def demo_relay_request_def)
  obtain v where v: "keyFor (rr_web demo_relay_request) (rr_now demo_relay_request) (rr_now' demo_relay_request) ''k'' ?v
      = (Inr key, v)" using k by (metis prod.collapse)
  then have pol: "ve_Issuer v = []" "ve_Audience v = ''chepherd-rc''"
    by (cases rule: keyFor_cases; simp add: new_verifier_def)+
  have cl: "check_claims v 50 demo_relay_claims = Inr demo_relay_claims"
    using pol by (simp add: check_claims_def demo_relay_claims_def)
  have r: "relay_check demo_parse (\<lambda>_ _ _. None) demo_relay_request
     (relay_after demo_parse (\<lambda>_ _ _. None) [] ?v) = (Inr demo_relay_claims, v)"
    using v cl demo_token demo_header demo_payload
    by (simp add: relay_check_def relay_Middleware_def relay_Verify_def relay_after_def demo_decoded res_wrap_def
        demo_relay_request_def)
  from relay_gate [OF r, THEN conjunct2, THEN conjunct2, THEN conjunct2] r show ?thesis
    by (simp add: demo_relay_claims_def)
qed

section \<open>What the endpoints make of the claims\<close>

text \<open>The poll endpoint behind the middleware: a 401, or the offer handed out.\<close>

definition relay_poll ::
    "(string \<Rightarrow> raw) \<Rightarrow> (rsa_key \<Rightarrow> string \<Rightarrow> string \<Rightarrow> go_error option) \<Rightarrow> relay_request \<Rightarrow> string \<Rightarrow> verifier \<times> signaling
       \<Rightarrow> ((int \<times> string) + sig_out) \<times> verifier \<times> signaling" where
  "relay_poll parse rsa q bastion st =
     (case st of (v, s) \<Rightarrow>
      case relay_check parse rsa q v of
        (Inl e, v1) \<Rightarrow> (Inl (401, e), v1, s)
      | (Inr c, v1) \<Rightarrow>
          (case signalingPoll bastion of
             Inl e \<Rightarrow> (Inl e, v1, s)
           | Inr b \<Rightarrow> (case sig_step (EPoll b) s of (out, s1) \<Rightarrow> (Inr out, v1, s1))))"

text \<open>
  Nothing calls \<open>PermitsBastion\<close>: whoever holds an accepted token takes the offers of any bastion, which then
  does not see them.
\<close>

lemma poll_of_unpermitted_bastion:
  assumes "relay_check parse rsa q v = (Inr c, v1)" "\<not> PermitsBastion b c" "b \<noteq> []" "offers_of b s = env # rest"
  shows "fst (relay_poll parse rsa q b (v, s)) = Inr (SPolled b env)
    \<and> offers_of b (snd (snd (relay_poll parse rsa q b (v, s)))) = rest"
  using assms by (simp add: relay_poll_def signalingPoll_def need_def poll_offer_def make_queue_def Let_def)

end
