(* ===== verification/Scrum_Signals.thy ===== *)
theory Scrum_Signals
  imports Complex_Main Keystore
begin

text \<open>
  What the scrum master reads of a session (\<open>internal/scrummaster/signals.go\<close>, \<open>engagement.go\<close>): the tail
  of a transcript, its lines compressed to events, the signals computed from the events, and whether a
  human is at the keyboard.

  The parser behind \<open>json.Unmarshal\<close> (\<open>parse\<close>), \<open>time.Parse\<close> (\<open>parse_time\<close>), the \<open>%v\<close> rendering of a
  decoded value (\<open>sprint\<close>) and \<open>json.Marshal\<close> (\<open>marshal\<close>) are arguments, and so is what \<open>git\<close> and \<open>gh\<close> print.
  Time stamps are in UTC. Ages and ratios are kept as durations and fractions.
\<close>

section \<open>The tail of a file\<close>

definition chunk :: nat where "chunk = 65536"

definition countNewlines :: "string \<Rightarrow> nat" where
  "countNewlines b = length (filter (\<lambda>c. c = CHR 0x0A) b)"

text \<open>
  The loop reading backwards from \<open>pos\<close>: the positions read at, and the buffer. \<open>fails\<close> tells the positions
  where the read fails.
\<close>

function read_back :: "(nat \<Rightarrow> bool) \<Rightarrow> nat \<Rightarrow> string \<Rightarrow> nat \<Rightarrow> string \<Rightarrow> nat list \<times> string" where
  "read_back fails want file pos buf =
     (if pos = 0 then ([], buf)
      else let r = min chunk pos; p = pos - r in
        if fails p then ([p], buf)
        else let b = take r (drop p file) @ buf in
          if want \<le> countNewlines b then ([p], b)
          else case read_back fails want file p b of (ps, b') \<Rightarrow> (p # ps, b'))"
  by pat_completeness auto
termination
  by (relation "measure (\<lambda>(_, _, _, pos, _). pos)") (auto simp: chunk_def)

declare read_back.simps [simp del]

lemma read_back_0 [simp]: "read_back fails want file 0 buf = ([], buf)"
  by (simp add: read_back.simps)

lemma countNewlines_append [simp]: "countNewlines (a @ b) = countNewlines a + countNewlines b"
  by (simp add: countNewlines_def)

text \<open>One round from the suffix at \<open>pos\<close>.\<close>

lemma read_back_step:
  assumes "0 < pos" "pos \<le> length file"
  shows "take (min chunk pos) (drop (pos - min chunk pos) file) @ drop pos file = drop (pos - min chunk pos) file"
proof -
  have "drop pos file = drop (min chunk pos) (drop (pos - min chunk pos) file)" using assms by simp
  then show ?thesis by (simp only: append_take_drop_id)
qed

text \<open>
  Where reading stopped: at the start of the file, with enough lines, or before a failing read; and any
  suffix shorter by a chunk has too few lines.
\<close>

definition stops_at :: "(nat \<Rightarrow> bool) \<Rightarrow> nat \<Rightarrow> string \<Rightarrow> nat \<Rightarrow> string \<Rightarrow> bool" where
  "stops_at fails want file k b \<longleftrightarrow> b = drop k file \<and>
     (\<forall>j. k + chunk \<le> j \<longrightarrow> j \<le> length file \<longrightarrow> countNewlines (drop j file) < want) \<and>
     (k = 0 \<or> want \<le> countNewlines b \<or> fails (k - min chunk k))"

lemma fewer_lines: "i \<le> j \<Longrightarrow> countNewlines (drop j file) \<le> countNewlines (drop i file)"
  by (metis append_take_drop_id countNewlines_append drop_drop le_add2 le_add_diff_inverse2)

lemma read_back_spec:
  assumes "pos \<le> length file" "countNewlines (drop pos file) < want" "read_back fails want file pos (drop pos file) = (ps, b)"
  shows "length ps * chunk < pos + chunk \<and> sorted_wrt (>) ps \<and> (\<forall>p \<in> set ps. p < pos) \<and>
    (\<exists>k \<le> pos. stops_at fails want file k b)"
  using assms
proof (induction pos arbitrary: ps b rule: less_induct)
  case (less pos)
  have short: "\<forall>j. pos \<le> j \<longrightarrow> countNewlines (drop j file) < want" using fewer_lines less.prems(2) by (meson le_less_trans)
  let ?r = "min chunk pos" and ?p = "pos - min chunk pos"
  show ?case
  proof (cases "pos = 0")
    case True
    then have "ps = []" "b = drop pos file" using less.prems(3) by simp_all
    then show ?thesis using True short by (auto simp: chunk_def stops_at_def)
  next
    case False
    then have lt: "?p < pos" "pos \<le> ?p + chunk" "?p \<le> length file" using less.prems(1) by (auto simp: chunk_def)
    note st = read_back_step [OF _ less.prems(1), folded]
    have b: "take ?r (drop ?p file) @ drop pos file = drop ?p file" using st False by simp
    show ?thesis
    proof (cases "fails ?p")
      case True
      then have "ps = [?p]" "b = drop pos file"
        using less.prems(3) False by (simp_all add: read_back.simps [of _ _ _ pos] Let_def)
      then show ?thesis using lt short True False by (auto simp: chunk_def stops_at_def intro!: exI [of _ pos])
    next
      case ok: False
      show ?thesis
      proof (cases "want \<le> countNewlines (drop ?p file)")
        case True
        then have "ps = [?p]" "b = drop ?p file"
          using less.prems(3) False ok b by (simp_all add: read_back.simps [of _ _ _ pos] Let_def)
        then show ?thesis using lt short True False by (auto simp: chunk_def stops_at_def intro!: exI [of _ ?p])
      next
        case more: False
        obtain qs b' where r: "read_back fails want file ?p (drop ?p file) = (qs, b')" by fastforce
        then have ps: "ps = ?p # qs" and b': "b = b'"
          using less.prems(3) False ok b more by (simp_all add: read_back.simps [of _ _ _ pos] Let_def)
        have ih: "length qs * chunk < ?p + chunk \<and> sorted_wrt (>) qs \<and> (\<forall>p \<in> set qs. p < ?p) \<and>
            (\<exists>k \<le> ?p. stops_at fails want file k b')"
          by (rule less.IH [OF lt(1) lt(3) _ r]) (use more in simp)
        have "length (?p # qs) * chunk < pos + chunk"
          using ih False by (cases "chunk \<le> pos") (auto simp: chunk_def)
        moreover have "sorted_wrt (>) (?p # qs)" "\<forall>p \<in> set (?p # qs). p < pos"
          using ih lt(1) by auto
        moreover have "\<exists>k \<le> pos. stops_at fails want file k b'"
          using ih by (meson diff_le_self order.trans)
        ultimately show ?thesis unfolding ps b' by blast
      qed
    qed
  qed
qed

text \<open>C23: reading the tail of a transcript ends after at most one read per chunk of the file, at ever smaller
  positions, with a suffix of the file: the whole file, or a suffix with the lines wanted that is at most a
  chunk longer than needed, or what was read before a failure.\<close>

theorem transcript_tail:
  assumes "0 < want"
  shows "case read_back fails want file (length file) [] of (ps, b) \<Rightarrow>
    length ps * chunk < length file + chunk \<and> sorted_wrt (>) ps \<and> (\<forall>p \<in> set ps. p < length file) \<and>
    (\<exists>k \<le> length file. stops_at fails want file k b)"
proof -
  obtain ps b where r: "read_back fails want file (length file) (drop (length file) file) = (ps, b)" by fastforce
  have "countNewlines (drop (length file) file) < want" using assms by (simp add: countNewlines_def)
  from read_back_spec [OF order.refl this r] show ?thesis using r by simp
qed

text \<open>C23 on a file of two lines, asked for one.\<close>

lemma transcript_tail_witness:
  "\<exists>k \<le> length (''a'' @ [CHR 0x0A] @ ''b''). snd (read_back (\<lambda>_. False) 1 (''a'' @ [CHR 0x0A] @ ''b'')
     (length (''a'' @ [CHR 0x0A] @ ''b'')) []) = drop k (''a'' @ [CHR 0x0A] @ ''b'')"
  using transcript_tail [of 1 "''a'' @ [CHR 0x0A] @ ''b''" "\<lambda>_. False"]
  by (auto simp: stops_at_def split: prod.splits)

section \<open>Lines\<close>

text \<open>
  \<open>bufio.Scanner\<close> with \<open>ScanLines\<close>: a line that does not fit the buffer ends the scan, and the lines after it
  are not seen.
\<close>

definition drop_cr :: "string \<Rightarrow> string" where
  "drop_cr l = (if l \<noteq> [] \<and> last l = CHR 0x0D then butlast l else l)"

definition lines_of :: "string \<Rightarrow> string list" where
  "lines_of s = (let ws = split_on CHR 0x0A s in if last ws = [] then butlast ws else ws)"

definition scan_lines :: "nat \<Rightarrow> string \<Rightarrow> string list" where
  "scan_lines cap s = map drop_cr (takeWhile (\<lambda>l. length l < cap) (lines_of s))"

section \<open>Events\<close>

record compressed_event =
  ce_Ts :: time
  ce_Role :: string
  ce_Kind :: string
  ce_Summary :: string

definition firstN :: "string \<Rightarrow> nat \<Rightarrow> string" where
  "firstN s n = (if length s \<le> n then s else take n s)"

definition one_line :: "string \<Rightarrow> string" where
  "one_line s = map (\<lambda>c. if c = CHR 0x0A then CHR '' '' else c) s"

definition quoted :: "string \<Rightarrow> string" where
  "quoted s = [CHR 0x22] @ s @ [CHR 0x22]"

text \<open>\<open>strings.Split\<close> at two underscores.\<close>

function split_dunder :: "string \<Rightarrow> string list" where
  "split_dunder [] = [[]]"
| "split_dunder (c # cs) =
     (if c = CHR ''_'' \<and> has_prefix ''_'' cs then [] # split_dunder (drop 1 cs)
      else case split_dunder cs of [] \<Rightarrow> [[c]] | w # ws \<Rightarrow> (c # w) # ws)"
  by pat_completeness auto
termination by (relation "measure length") auto

definition compressToolUse ::
    "(json option \<Rightarrow> string) \<Rightarrow> (json option \<Rightarrow> string) \<Rightarrow> string \<Rightarrow> json option \<Rightarrow> string \<times> string" where
  "compressToolUse sprint marshal name inp =
     (let f = (\<lambda>k. as_str (mget k (as_obj inp))) in
      if name = ''Bash'' then
        (''bash'', ''BASH '' @ quoted (firstN (f ''description'') 60) @ '': '' @ firstN (f ''command'') 140)
      else if name = ''Edit'' then (''edit'', ''EDIT '' @ f ''file_path'')
      else if name = ''Write'' then (''write'', ''WRITE '' @ f ''file_path'')
      else if name = ''Read'' then (''read'', ''READ '' @ f ''file_path'')
      else if name = ''Agent'' then
        (''agent'', ''AGENT['' @ f ''subagent_type'' @ '']: '' @ firstN (f ''description'') 140)
      else if name = ''Monitor'' then (''monitor'', ''MONITOR start: '' @ firstN (f ''description'') 140)
      else if name = ''TaskStop'' then (''monitor'', ''MONITOR stop: '' @ f ''task_id'')
      else if name = ''ScheduleWakeup'' then
        (''monitor'', ''SCHEDULE_WAKEUP '' @ sprint (Some (JNum (as_num (mget ''delaySeconds'' (as_obj inp))))) @ ''s'')
      else if has_prefix ''mcp__plugin_playwright'' name then
        (''playwright'', ''PLAYWRIGHT '' @ last (split_dunder name))
      else (''other'', name @ '' '' @ firstN (marshal inp) 140))"

definition mk_event :: "time \<Rightarrow> string \<Rightarrow> string \<Rightarrow> string \<Rightarrow> compressed_event" where
  "mk_event ts role kind summary = \<lparr>ce_Ts = ts, ce_Role = role, ce_Kind = kind, ce_Summary = summary\<rparr>"

definition user_text :: "time \<Rightarrow> string \<Rightarrow> compressed_event list" where
  "user_text ts c =
     (if str_contains ''<task-notification>'' c
      then [mk_event ts ''user'' ''task-notification'' (''task-notif: '' @ firstN c 120)]
      else if \<not> str_contains ''<local-command-stdout>'' c \<and> \<not> str_contains ''<user-prompt-submit-hook>'' c
        \<and> \<not> (str_contains ''<system-reminder>'' c \<and> 500 < length c)
      then [mk_event ts ''user'' ''text'' (firstN (trim_space (one_line c)) 200)]
      else [])"

definition user_block :: "(json option \<Rightarrow> string) \<Rightarrow> time \<Rightarrow> json \<Rightarrow> compressed_event list" where
  "user_block sprint ts b =
     (case b of
        JObj m \<Rightarrow>
          if mget ''type'' m = Some (JStr ''tool_result'')
          then [mk_event ts ''user-tool-result'' ''tool-result'' (firstN (one_line (sprint (mget ''content'' m))) 140)]
          else if mget ''type'' m = Some (JStr ''text'')
          then [mk_event ts ''user'' ''text'' (firstN (one_line (trim_space (as_str (mget ''text'' m)))) 200)]
          else []
      | _ \<Rightarrow> [])"

definition assistant_block ::
    "(json option \<Rightarrow> string) \<Rightarrow> (json option \<Rightarrow> string) \<Rightarrow> time \<Rightarrow> json \<Rightarrow> compressed_event list" where
  "assistant_block sprint marshal ts b =
     (case b of
        JObj m \<Rightarrow>
          if mget ''type'' m = Some (JStr ''text'')
          then let t = one_line (trim_space (as_str (mget ''text'' m))) in
            if t \<noteq> [] then [mk_event ts ''assist'' ''text'' (firstN t 200)] else []
          else if mget ''type'' m = Some (JStr ''tool_use'')
          then case compressToolUse sprint marshal (as_str (mget ''name'' m))
              (case mget ''input'' m of Some (JObj fs) \<Rightarrow> Some (JObj fs) | _ \<Rightarrow> None) of
            (kind, summary) \<Rightarrow> [mk_event ts ''assist'' kind summary]
          else []
      | _ \<Rightarrow> [])"

definition compressMessage ::
    "(string \<Rightarrow> time option) \<Rightarrow> (json option \<Rightarrow> string) \<Rightarrow> (json option \<Rightarrow> string) \<Rightarrow> fields \<Rightarrow> compressed_event list" where
  "compressMessage parse_time sprint marshal d =
     (if as_str (mget ''timestamp'' d) = [] then []
      else case parse_time (as_str (mget ''timestamp'' d)) of
        None \<Rightarrow> []
      | Some ts \<Rightarrow>
          let ty = as_str (mget ''type'' d); content = mget ''content'' (as_obj (mget ''message'' d)) in
          if ty = ''user'' then
            (case content of Some (JStr c) \<Rightarrow> user_text ts c | Some (JArr bs) \<Rightarrow> concat (map (user_block sprint ts) bs) | _ \<Rightarrow> [])
          else if ty = ''assistant'' then concat (map (assistant_block sprint marshal ts) (as_arr content))
          else [])"

text \<open>Lines that are not objects are skipped; \<open>null\<close> gives an empty map.\<close>

definition line_events ::
    "(string \<Rightarrow> raw) \<Rightarrow> (string \<Rightarrow> time option) \<Rightarrow> (json option \<Rightarrow> string) \<Rightarrow> (json option \<Rightarrow> string) \<Rightarrow> string
       \<Rightarrow> compressed_event list" where
  "line_events parse parse_time sprint marshal l =
     (case parse l of RawJson (JObj fs) \<Rightarrow> compressMessage parse_time sprint marshal fs | _ \<Rightarrow> [])"

definition readRecentEvents ::
    "(string \<Rightarrow> raw) \<Rightarrow> (string \<Rightarrow> time option) \<Rightarrow> (json option \<Rightarrow> string) \<Rightarrow> (json option \<Rightarrow> string)
       \<Rightarrow> (nat \<Rightarrow> bool) \<Rightarrow> nat \<Rightarrow> string result \<Rightarrow> compressed_event list result" where
  "readRecentEvents parse parse_time sprint marshal fails n opened =
     res_bind opened (\<lambda>file.
       let buf = snd (read_back fails (3 * n) file (length file) []) in
       Inr (lastn n (concat (map (line_events parse parse_time sprint marshal) (scan_lines 1048576 buf)))))"

lemma readRecentEvents_length:
  "readRecentEvents parse parse_time sprint marshal fails n opened = Inr evs \<Longrightarrow> length evs \<le> n"
  by (auto simp: readRecentEvents_def res_bind_Inr_iff Let_def)

text \<open>A line of a mebibyte hides every later event of the tail.\<close>

lemma long_line_hides:
  assumes "lines_of s = us @ long # ws" "1048576 \<le> length long"
  shows "scan_lines 1048576 s = map drop_cr (takeWhile (\<lambda>l. length l < 1048576) us)"
proof -
  have "takeWhile (\<lambda>l. length l < 1048576) (us @ long # ws) = takeWhile (\<lambda>l. length l < 1048576) us"
    using assms(2) by (induction us) auto
  then show ?thesis by (simp only: scan_lines_def assms(1))
qed

section \<open>What the tools print\<close>

text \<open>The output of a command, and of one that prints JSON.\<close>

definition int64_ok :: "int \<Rightarrow> bool" where
  "int64_ok n \<longleftrightarrow> - (2 ^ 63) \<le> n \<and> n < 2 ^ 63"

definition digits_value :: "string \<Rightarrow> int" where
  "digits_value ds = foldl (\<lambda>v c. v * 10 + (of_char c - 48)) 0 ds"

definition dec_digit :: "char \<Rightarrow> bool" where
  "dec_digit c \<longleftrightarrow> 48 \<le> (of_char c :: nat) \<and> (of_char c :: nat) \<le> 57"

text \<open>\<open>fmt.Sscanf\<close> with \<open>%d\<close> into a zero variable, of trimmed text.\<close>

definition scan_d :: "string \<Rightarrow> int" where
  "scan_d s =
     (let neg = has_prefix ''-'' s;
          ds = takeWhile dec_digit (if neg \<or> has_prefix ''+'' s then drop 1 s else s);
          v = (if neg then - digits_value ds else digits_value ds)
      in if int64_ok v then v else 0)"

record issue =
  is_Number :: int
  is_Title :: string
  is_Labels :: "string list"
  is_State :: string

definition dec_label :: "json \<Rightarrow> string result" where
  "dec_label v = res_bind (struct_ok ''struct'' v) (get_str ''name'')"

definition dec_issue :: "json \<Rightarrow> issue result" where
  "dec_issue v = res_bind (struct_ok ''struct'' v) (\<lambda>j. res_bind (get_int ''number'' j) (\<lambda>n.
     res_bind (get_str ''title'' j) (\<lambda>t. res_bind (get_list dec_label ''labels'' j) (\<lambda>ls.
     res_bind (get_str ''state'' j) (\<lambda>st.
       Inr \<lparr>is_Number = n, is_Title = t, is_Labels = ls, is_State = st\<rparr>)))))"

definition dec_issues :: "json \<Rightarrow> issue list result" where
  "dec_issues v = (case v of JArr xs \<Rightarrow> res_mapM dec_issue xs | JNull \<Rightarrow> Inr [] | _ \<Rightarrow> Inl (mismatch v ''slice''))"

definition issues_of :: "raw result \<Rightarrow> issue list result" where
  "issues_of cmd = res_bind cmd (unmarshal dec_issues)"

definition ghIssueCounts :: "raw result \<Rightarrow> int \<times> int" where
  "ghIssueCounts cmd =
     (case issues_of cmd of
        Inl _ \<Rightarrow> (-1, -1)
      | Inr is \<Rightarrow> (int (length (filter (\<lambda>i. ''status/in-progress'' \<in> set (is_Labels i)) is)), int (length is)))"

definition issue_line :: "issue \<Rightarrow> string" where
  "issue_line i = ''#'' @ show_int (is_Number i) @ '' '' @ firstN (is_Title i) 90"

definition ghInProgressTitles :: "raw result \<Rightarrow> string list" where
  "ghInProgressTitles cmd = (case issues_of cmd of Inl _ \<Rightarrow> [] | Inr is \<Rightarrow> map issue_line is)"

definition ghUnclaimedBacklog :: "raw result \<Rightarrow> nat \<Rightarrow> int \<times> string list" where
  "ghUnclaimedBacklog cmd limit =
     (case issues_of cmd of
        Inl _ \<Rightarrow> (-1, [])
      | Inr is \<Rightarrow>
          let ts = map issue_line (filter (\<lambda>i. \<not> list_ex (has_prefix ''status/'') (is_Labels i)) is)
          in (int (length ts), take limit ts))"

definition ghRecentPRs :: "raw result \<Rightarrow> string list" where
  "ghRecentPRs cmd =
     (case issues_of cmd of
        Inl _ \<Rightarrow> []
      | Inr is \<Rightarrow> map (\<lambda>i. ''#'' @ show_int (is_Number i) @ '' ['' @ is_State i @ ''] '' @ firstN (is_Title i) 90) is)"

definition output_lines :: "string \<Rightarrow> string list" where
  "output_lines s = filter (\<lambda>l. l \<noteq> []) (map trim_space (split_on CHR 0x0A s))"

definition gitRecentCommits :: "string result \<Rightarrow> string list" where
  "gitRecentCommits cmd =
     (case cmd of Inl _ \<Rightarrow> [] | Inr s \<Rightarrow> take 8 (map (\<lambda>l. firstN l 120) (output_lines s)))"

definition gitCommitsSince :: "string result \<Rightarrow> string list" where
  "gitCommitsSince cmd = (case cmd of Inl _ \<Rightarrow> [] | Inr s \<Rightarrow> output_lines s)"

section \<open>Signals\<close>

definition isToolKind :: "string \<Rightarrow> bool" where
  "isToolKind k \<longleftrightarrow> k \<in> {''bash'', ''edit'', ''write'', ''read'', ''agent'', ''playwright'', ''monitor'', ''other''}"

definition BannedPhrases :: "string list" where
  "BannedPhrases = [''Want me to'', ''Should I '', ''Shall I '', ''Holding.'', ''Acknowledged.'',
     ''Awaiting completion'', ''Awaiting roll'', ''Awaiting Wave'', ''Status:'', ''Session totals:'']"

definition PauseKeywords :: "string list" where
  "PauseKeywords = [''stop'', ''pause'', ''park'', ''halt'', ''we'' @ [CHR 0x27] @ ''ll continue tomorrow'',
     ''that'' @ [CHR 0x27] @ ''s enough'']"

text \<open>The variables of the loop over the events.\<close>

record scan =
  sc_tool :: time
  sc_user :: time
  sc_directive :: time
  sc_assist :: string
  sc_monitor :: bool
  sc_banned :: "string list"
  sc_pause :: bool

definition scan_start :: scan where
  "scan_start = \<lparr>sc_tool = time_zero, sc_user = time_zero, sc_directive = time_zero, sc_assist = [],
     sc_monitor = False, sc_banned = [], sc_pause = False\<rparr>"

definition scan_tool :: "compressed_event \<Rightarrow> scan \<Rightarrow> scan" where
  "scan_tool e s =
     s\<lparr>sc_tool := ce_Ts e, sc_assist := ''tool'',
       sc_monitor := (if ce_Kind e = ''monitor'' \<and> has_prefix ''MONITOR stop'' (ce_Summary e) then False
                      else if ce_Kind e = ''monitor'' \<and> has_prefix ''MONITOR start'' (ce_Summary e) then True
                      else sc_monitor s)\<rparr>"

definition scan_text :: "compressed_event \<Rightarrow> scan \<Rightarrow> scan" where
  "scan_text e s =
     s\<lparr>sc_assist := ''text'',
       sc_banned := sc_banned s @ (case find (\<lambda>p. str_contains p (ce_Summary e)) BannedPhrases of
         None \<Rightarrow> [] | Some p \<Rightarrow> [p])\<rparr>"

definition is_directive :: "compressed_event \<Rightarrow> bool" where
  "is_directive e \<longleftrightarrow> ce_Role e = ''user'' \<and> \<not> has_prefix ''[SUPERVISOR'' (ce_Summary e) \<and> ce_Kind e \<noteq> ''task-notification''"

definition scan_user :: "compressed_event \<Rightarrow> scan \<Rightarrow> scan" where
  "scan_user e s =
     (let s1 = s\<lparr>sc_user := ce_Ts e\<rparr> in
      if has_prefix ''[SUPERVISOR'' (ce_Summary e) then s1
      else if ce_Kind e = ''task-notification'' then s1
      else s1\<lparr>sc_directive := ce_Ts e,
              sc_pause := sc_pause s \<or> list_ex (\<lambda>w. str_contains w (to_lower (ce_Summary e))) PauseKeywords\<rparr>)"

definition scan_event :: "compressed_event \<Rightarrow> scan \<Rightarrow> scan" where
  "scan_event e s =
     (if ce_Role e = ''assist'' then
        (if isToolKind (ce_Kind e) then scan_tool e s else if ce_Kind e = ''text'' then scan_text e s else s)
      else if ce_Role e = ''user'' then scan_user e s
      else s)"

definition age :: "time \<Rightarrow> time \<Rightarrow> int option" where
  "age t now = (if t = time_zero then None else Some (now - t))"

definition truncate_minute :: "time \<Rightarrow> time" where
  "truncate_minute t = t - t mod minute"

definition active_minutes :: "compressed_event list \<Rightarrow> time \<Rightarrow> nat \<Rightarrow> time list" where
  "active_minutes evs now window =
     remdups (map (\<lambda>e. truncate_minute (ce_Ts e))
       (filter (\<lambda>e. \<not> ce_Ts e < now - int window * minute \<and> ce_Role e = ''assist'' \<and> isToolKind (ce_Kind e)) evs))"

definition quietRatio :: "compressed_event list \<Rightarrow> time \<Rightarrow> nat \<Rightarrow> rat" where
  "quietRatio evs now window =
     (if window = 0 then 0 else of_nat (window - length (active_minutes evs now window)) / of_nat window)"

text \<open>A value of a Go \<open>map[string]any\<close>, with the slice and number types the sources put into one.\<close>

datatype goval =
    GNil
  | GBool bool
  | GInt int
  | GFloat int
  | GStr string
  | GAny "goval list"
  | GStrs "string list"
  | GMaps "(string \<times> goval) list list"
  | GMap "(string \<times> goval) list"

type_synonym gostate = "(string \<times> goval) list"

record watched =
  wt_Repo :: string
  wt_GHRepo :: string

text \<open>What the outside gives: commit time, tracker time, and the outputs of \<open>gh\<close> and \<open>git\<close>.\<close>

record probes =
  pr_commit :: "string result"
  pr_tracker :: "time result"
  pr_counts :: "raw result"
  pr_titles :: "raw result"
  pr_backlog :: "raw result"
  pr_prs :: "raw result"
  pr_recent :: "string result"
  pr_since :: "time \<Rightarrow> string result"

record signals =
  sig_Now :: time
  sig_Events :: "compressed_event list"
  sig_LastToolCallAge :: "int option"
  sig_LastUserMsgAge :: "int option"
  sig_LastFounderDirectiveAge :: "int option"
  sig_LastAssistantEndsWithTool :: bool
  sig_MonitorRunning :: bool
  sig_GitLastCommitAge :: "int option"
  sig_TrackerMtimeAge :: "int option"
  sig_InProgressCount :: int
  sig_BacklogCount :: int
  sig_UnclaimedBacklogCount :: int
  sig_UnclaimedBacklogTitles :: "string list"
  sig_BannedPhraseHits :: "string list"
  sig_PauseDetected :: bool
  sig_LastSupervisorMessage :: string
  sig_Repo :: string
  sig_CurrentInProgressTitles :: "string list"
  sig_CommitsLastHour :: "string list"
  sig_PRsLastHour :: "string list"
  sig_LastCoachTopic :: string
  sig_LastCoachAt :: string
  sig_AddressedLastCoach :: "bool option"
  sig_QuietRatioLast30Min :: rat

definition state_str :: "string \<Rightarrow> gostate \<Rightarrow> string option" where
  "state_str k st = (case map_of st k of Some (GStr s) \<Rightarrow> Some s | _ \<Rightarrow> None)"

text \<open>Seconds since 1970 as an instant.\<close>

definition unix_time :: "int \<Rightarrow> time" where
  "unix_time sec = (sec + 62135596800) * second"

definition addressed_coach :: "(string \<Rightarrow> time option) \<Rightarrow> time \<Rightarrow> probes \<Rightarrow> gostate \<Rightarrow> bool option" where
  "addressed_coach parse_time now pr st =
     (case state_str ''last_intervention_at'' st of
        None \<Rightarrow> None
      | Some lca \<Rightarrow>
          (case parse_time lca of
             None \<Rightarrow> None
           | Some t \<Rightarrow> if now - t < 90 * minute then Some (gitCommitsSince (pr_since pr t) \<noteq> []) else None))"

definition signals_of ::
    "(string \<Rightarrow> time option) \<Rightarrow> time \<Rightarrow> watched \<Rightarrow> probes \<Rightarrow> gostate \<Rightarrow> compressed_event list \<Rightarrow> signals" where
  "signals_of parse_time now w pr st evs =
     (let s = fold scan_event evs scan_start; gh = wt_GHRepo w \<noteq> [] in
      \<lparr>sig_Now = now, sig_Events = evs,
       sig_LastToolCallAge = age (sc_tool s) now, sig_LastUserMsgAge = age (sc_user s) now,
       sig_LastFounderDirectiveAge = age (sc_directive s) now,
       sig_LastAssistantEndsWithTool = (sc_assist s = ''tool''), sig_MonitorRunning = sc_monitor s,
       sig_GitLastCommitAge = (case pr_commit pr of Inl _ \<Rightarrow> None
         | Inr out \<Rightarrow> let ts = scan_d (trim_space out) in if 0 < ts then age (unix_time ts) now else None),
       sig_TrackerMtimeAge = (case pr_tracker pr of Inl _ \<Rightarrow> None | Inr t \<Rightarrow> age t now),
       sig_InProgressCount = (if gh then fst (ghIssueCounts (pr_counts pr)) else -1),
       sig_BacklogCount = (if gh then snd (ghIssueCounts (pr_counts pr)) else -1),
       sig_UnclaimedBacklogCount = (if gh then fst (ghUnclaimedBacklog (pr_backlog pr) 5) else -1),
       sig_UnclaimedBacklogTitles = (if gh then snd (ghUnclaimedBacklog (pr_backlog pr) 5) else []),
       sig_BannedPhraseHits = sc_banned s, sig_PauseDetected = sc_pause s,
       sig_LastSupervisorMessage = (case state_str ''last_message'' st of None \<Rightarrow> [] | Some m \<Rightarrow> m),
       sig_Repo = wt_Repo w,
       sig_CurrentInProgressTitles = (if gh then ghInProgressTitles (pr_titles pr) else []),
       sig_CommitsLastHour = gitRecentCommits (pr_recent pr),
       sig_PRsLastHour = (if gh then ghRecentPRs (pr_prs pr) else []),
       sig_LastCoachTopic = (case state_str ''last_coach_topic'' st of None \<Rightarrow> [] | Some m \<Rightarrow> m),
       sig_LastCoachAt = (case state_str ''last_intervention_at'' st of None \<Rightarrow> [] | Some m \<Rightarrow> m),
       sig_AddressedLastCoach = addressed_coach parse_time now pr st,
       sig_QuietRatioLast30Min = quietRatio evs now 30\<rparr>)"

definition BuildSignals ::
    "(string \<Rightarrow> raw) \<Rightarrow> (string \<Rightarrow> time option) \<Rightarrow> (json option \<Rightarrow> string) \<Rightarrow> (json option \<Rightarrow> string)
       \<Rightarrow> (nat \<Rightarrow> bool) \<Rightarrow> time \<Rightarrow> watched \<Rightarrow> probes \<Rightarrow> string result \<Rightarrow> gostate \<Rightarrow> signals result" where
  "BuildSignals parse parse_time sprint marshal fails now w pr opened st =
     res_bind (res_wrap ''read events: '' (readRecentEvents parse parse_time sprint marshal fails 20 opened))
       (\<lambda>evs. Inr (signals_of parse_time now w pr st evs))"

section \<open>What the signals say of the events\<close>

definition last_such :: "('a \<Rightarrow> bool) \<Rightarrow> 'a list \<Rightarrow> 'a option" where
  "last_such P xs = find P (rev xs)"

lemma last_such_simps [simp]:
  "last_such P [] = None" "last_such P (xs @ [x]) = (if P x then Some x else last_such P xs)"
  by (simp_all add: last_such_def)

definition tool_event :: "compressed_event \<Rightarrow> bool" where
  "tool_event e \<longleftrightarrow> ce_Role e = ''assist'' \<and> isToolKind (ce_Kind e)"

definition said_event :: "compressed_event \<Rightarrow> bool" where
  "said_event e \<longleftrightarrow> ce_Role e = ''assist'' \<and> (isToolKind (ce_Kind e) \<or> ce_Kind e = ''text'')"

definition monitor_event :: "compressed_event \<Rightarrow> bool" where
  "monitor_event e \<longleftrightarrow> ce_Role e = ''assist'' \<and> ce_Kind e = ''monitor'' \<and>
     (has_prefix ''MONITOR start'' (ce_Summary e) \<or> has_prefix ''MONITOR stop'' (ce_Summary e))"

definition pause_event :: "compressed_event \<Rightarrow> bool" where
  "pause_event e \<longleftrightarrow> is_directive e \<and> (\<exists>w \<in> set PauseKeywords. str_contains w (to_lower (ce_Summary e)))"

definition event_time :: "compressed_event option \<Rightarrow> time" where
  "event_time x = (case x of None \<Rightarrow> time_zero | Some e \<Rightarrow> ce_Ts e)"

lemma monitor_is_tool: "isToolKind ''monitor''" "\<not> isToolKind ''text''"
  by (simp_all add: isToolKind_def)

lemma start_not_stop: "has_prefix ''MONITOR start'' s \<Longrightarrow> \<not> has_prefix ''MONITOR stop'' s"
  by (auto simp: has_prefix_iff)

lemmas scan_defs = scan_event_def scan_tool_def scan_text_def scan_user_def tool_event_def said_event_def
  monitor_event_def is_directive_def pause_event_def

lemma scan_times:
  "sc_tool (fold scan_event evs scan_start) = event_time (last_such tool_event evs)
   \<and> sc_user (fold scan_event evs scan_start) = event_time (last_such (\<lambda>e. ce_Role e = ''user'') evs)
   \<and> sc_directive (fold scan_event evs scan_start) = event_time (last_such is_directive evs)"
proof (induction evs rule: rev_induct)
  case Nil
  then show ?case by (simp add: scan_start_def event_time_def)
next
  case (snoc e evs)
  then show ?case by (simp add: scan_defs event_time_def Let_def)
qed

lemma scan_assist:
  "(sc_assist (fold scan_event evs scan_start) = ''tool'') =
     (case last_such said_event evs of None \<Rightarrow> False | Some e \<Rightarrow> tool_event e)"
proof (induction evs rule: rev_induct)
  case Nil
  then show ?case by (simp add: scan_start_def)
next
  case (snoc e evs)
  then show ?case by (auto simp: scan_defs Let_def monitor_is_tool)
qed

lemma scan_monitor:
  "sc_monitor (fold scan_event evs scan_start) =
     (case last_such monitor_event evs of None \<Rightarrow> False | Some e \<Rightarrow> has_prefix ''MONITOR start'' (ce_Summary e))"
proof (induction evs rule: rev_induct)
  case Nil
  then show ?case by (simp add: scan_start_def)
next
  case (snoc e evs)
  then show ?case using start_not_stop [of "ce_Summary e"]
    by (cases "ce_Role e = ''assist'' \<and> ce_Kind e = ''monitor''") (auto simp: scan_defs Let_def monitor_is_tool)
qed

lemma scan_pause: "sc_pause (fold scan_event evs scan_start) = (\<exists>e \<in> set evs. pause_event e)"
proof (induction evs rule: rev_induct)
  case Nil
  then show ?case by (simp add: scan_start_def)
next
  case (snoc e evs)
  then show ?case by (auto simp: scan_defs Let_def list_ex_iff)
qed

text \<open>
  At most twenty events reach the ratio, so at most twenty of its thirty minutes are active: a third of
  the window always counts as quiet.
\<close>

lemma quietRatio_floor:
  assumes "length evs \<le> 20"
  shows "1 / 3 \<le> quietRatio evs now 30"
proof -
  have "length (active_minutes evs now 30) \<le> length evs"
    unfolding active_minutes_def by (rule order.trans [OF length_remdups_leq]) simp
  then have "10 \<le> 30 - length (active_minutes evs now 30)" using assms by simp
  then have "(10 :: rat) \<le> of_nat (30 - length (active_minutes evs now 30))" 
    using of_nat_mono [where 'a = rat] by fastforce
  then show ?thesis by (simp add: quietRatio_def)
qed

text \<open>each signal computed from the transcript is what the last, or some, event of its kind says, and a
  third of the last half hour always counts as quiet.\<close>

theorem signals_of_transcript:
  assumes "BuildSignals parse parse_time sprint marshal fails now w pr opened st = Inr sig"
  shows "let evs = sig_Events sig in length evs \<le> 20
    \<and> sig_LastToolCallAge sig = age (event_time (last_such tool_event evs)) now
    \<and> sig_LastFounderDirectiveAge sig = age (event_time (last_such is_directive evs)) now
    \<and> sig_LastAssistantEndsWithTool sig = (case last_such said_event evs of None \<Rightarrow> False | Some e \<Rightarrow> tool_event e)
    \<and> sig_MonitorRunning sig = (case last_such monitor_event evs of None \<Rightarrow> False
        | Some e \<Rightarrow> has_prefix ''MONITOR start'' (ce_Summary e))
    \<and> sig_PauseDetected sig = (\<exists>e \<in> set evs. pause_event e)
    \<and> 1 / 3 \<le> sig_QuietRatioLast30Min sig"
proof -
  obtain evs where evs: "readRecentEvents parse parse_time sprint marshal fails 20 opened = Inr evs"
    and sig: "sig = signals_of parse_time now w pr st evs"
    using assms by (auto simp: BuildSignals_def res_bind_Inr_iff res_wrap_def split: sum.splits)
  have "length evs \<le> 20" by (rule readRecentEvents_length [OF evs])
  then show ?thesis
    using quietRatio_floor [of evs now]
    by (simp add: sig signals_of_def Let_def scan_times scan_assist scan_monitor scan_pause)
qed

text \<open>On an empty transcript.\<close>

definition no_probes :: probes where
  "no_probes = \<lparr>pr_commit = Inl ''none'', pr_tracker = Inl ''none'', pr_counts = Inl ''none'', pr_titles = Inl ''none'',
     pr_backlog = Inl ''none'', pr_prs = Inl ''none'', pr_recent = Inl ''none'', pr_since = (\<lambda>_. Inl ''none'')\<rparr>"

lemma empty_transcript:
  "BuildSignals parse parse_time sprint marshal fails now w pr (Inr []) st = Inr (signals_of parse_time now w pr st [])"
  by (simp add: BuildSignals_def readRecentEvents_def res_wrap_def scan_lines_def lines_of_def)

lemma signals_of_transcript_witness:
  "1 / 3 \<le> sig_QuietRatioLast30Min (signals_of (\<lambda>_. None) (5 * minute) \<lparr>wt_Repo = ''r'', wt_GHRepo = []\<rparr> no_probes [] [])"
  using signals_of_transcript [OF empty_transcript [of "\<lambda>_. RawEmpty" "\<lambda>_. None" "\<lambda>_. []" "\<lambda>_. []" "\<lambda>_. False" "5 * minute"
      "\<lparr>wt_Repo = ''r'', wt_GHRepo = []\<rparr>" no_probes "[]"]]
  by (simp add: Let_def)

section \<open>Is a human there\<close>

text \<open>The file at the time of reading, or nothing when the path is empty or an operation on it fails.\<close>

definition last_bytes :: "nat \<Rightarrow> string \<Rightarrow> string" where
  "last_bytes n s = (if n < length s then drop (length s - n) s else s)"

definition bytesContains :: "string \<Rightarrow> string \<Rightarrow> bool" where
  "bytesContains hay needle = str_contains needle hay"

definition user_marker :: string where
  "user_marker = quoted ''type'' @ '':'' @ quoted ''user''"

definition em_dash :: string where
  "em_dash = [CHR 0xE2, CHR 0x80, CHR 0x94]"

record transcript_line =
  tl_Type :: string
  tl_Timestamp :: string
  tl_Message :: raw

definition dec_line :: "json \<Rightarrow> transcript_line result" where
  "dec_line v = res_bind (struct_ok ''struct'' v) (\<lambda>j. res_bind (get_str ''type'' j) (\<lambda>ty.
     res_bind (get_str ''timestamp'' j) (\<lambda>ts.
       Inr \<lparr>tl_Type = ty, tl_Timestamp = ts,
            tl_Message = (case get_raw ''message'' j of None \<Rightarrow> RawEmpty | Some m \<Rightarrow> RawJson m)\<rparr>)))"

definition InterruptionEvidenceWindow :: int where "InterruptionEvidenceWindow = 60 * minute"
definition EngagementWindow :: int where "EngagementWindow = 15 * minute"

definition evidence_line :: "(string \<Rightarrow> raw) \<Rightarrow> (string \<Rightarrow> time option) \<Rightarrow> time \<Rightarrow> string \<Rightarrow> bool" where
  "evidence_line parse parse_time now l \<longleftrightarrow>
     bytesContains l user_marker \<and>
     (bytesContains l ''[SUPERVISOR'' \<or> bytesContains l (''SUPERVISOR '' @ em_dash @ '' '')) \<and>
     (case unmarshal dec_line (parse l) of
        Inl _ \<Rightarrow> False
      | Inr e \<Rightarrow> tl_Type e = ''user'' \<and>
          (case parse_time (tl_Timestamp e) of None \<Rightarrow> False | Some t \<Rightarrow> now - InterruptionEvidenceWindow < t))"

definition HasRecentInterruptionEvidence ::
    "(string \<Rightarrow> raw) \<Rightarrow> (string \<Rightarrow> time option) \<Rightarrow> time \<Rightarrow> string option \<Rightarrow> bool" where
  "HasRecentInterruptionEvidence parse parse_time now file =
     (case file of None \<Rightarrow> False
      | Some s \<Rightarrow> list_ex (evidence_line parse parse_time now) (scan_lines 4194304 (last_bytes 1048576 s)))"

definition isUserTypedMessage :: "raw \<Rightarrow> bool" where
  "isUserTypedMessage m =
     (case unmarshal (\<lambda>v. res_bind (struct_ok ''struct'' v) (\<lambda>j. res_bind (get_str ''role'' j) (\<lambda>role.
          Inr (role, get_raw ''content'' j)))) m of
        Inl _ \<Rightarrow> False
      | Inr (role, content) \<Rightarrow>
          role = ''user'' \<and>
          (case content of
             Some (JStr _) \<Rightarrow> True
           | Some (JArr bs) \<Rightarrow>
               (case res_mapM (\<lambda>v. res_bind (struct_ok ''struct'' v) (get_str ''type'')) bs of
                  Inl _ \<Rightarrow> False | Inr tys \<Rightarrow> ''text'' \<in> set tys)
           | _ \<Rightarrow> False))"

definition typed_at :: "(string \<Rightarrow> raw) \<Rightarrow> (string \<Rightarrow> time option) \<Rightarrow> string \<Rightarrow> time option" where
  "typed_at parse parse_time l =
     (if length l < 8 \<or> \<not> bytesContains l user_marker then None
      else case unmarshal dec_line (parse l) of
        Inl _ \<Rightarrow> None
      | Inr e \<Rightarrow> if tl_Type e = ''user'' \<and> isUserTypedMessage (tl_Message e) then parse_time (tl_Timestamp e) else None)"

definition IsHumanEngaged ::
    "(string \<Rightarrow> raw) \<Rightarrow> (string \<Rightarrow> time option) \<Rightarrow> time \<Rightarrow> string option \<Rightarrow> bool" where
  "IsHumanEngaged parse parse_time now file =
     (case file of None \<Rightarrow> False
      | Some s \<Rightarrow>
          let latest = fold (\<lambda>l t. case typed_at parse parse_time l of None \<Rightarrow> t | Some u \<Rightarrow> if t < u then u else t)
                (scan_lines 4194304 (last_bytes 262144 s)) time_zero
          in latest \<noteq> time_zero \<and> now - EngagementWindow < latest)"

lemma latest_after:
  "c < fold (\<lambda>l t. case f l of None \<Rightarrow> t | Some u \<Rightarrow> if t < (u :: int) then u else t) ls t0 \<longleftrightarrow>
     c < t0 \<or> (\<exists>l \<in> set ls. \<exists>u. f l = Some u \<and> c < u)"
  by (induction ls arbitrary: t0) (auto split: option.split)

text \<open>A human is engaged when some line typed by a user is younger than a quarter of an hour.\<close>

lemma engaged_iff:
  assumes "EngagementWindow \<le> now"
  shows "IsHumanEngaged parse parse_time now (Some s) \<longleftrightarrow>
    (\<exists>l \<in> set (scan_lines 4194304 (last_bytes 262144 s)). \<exists>t. typed_at parse parse_time l = Some t
        \<and> now - EngagementWindow < t)"
proof -
  define latest where "latest = fold (\<lambda>l t. case typed_at parse parse_time l of None \<Rightarrow> t | Some u \<Rightarrow> if t < u then u else t)
    (scan_lines 4194304 (last_bytes 262144 s)) time_zero"
  have "IsHumanEngaged parse parse_time now (Some s) \<longleftrightarrow> latest \<noteq> time_zero \<and> now - EngagementWindow < latest"
    unfolding IsHumanEngaged_def latest_def by (simp only: option.case Let_def)
  also have "\<dots> \<longleftrightarrow> now - EngagementWindow < latest" using assms by (auto simp: time_zero_def)
  also have "\<dots> \<longleftrightarrow> now - EngagementWindow < time_zero \<or> (\<exists>l \<in> set (scan_lines 4194304 (last_bytes 262144 s)).
      \<exists>t. typed_at parse parse_time l = Some t \<and> now - EngagementWindow < t)"
    unfolding latest_def by (rule latest_after)
  finally show ?thesis using assms by (simp add: time_zero_def)
qed

end
