(* ===== verification/Scrum_Bands.thy ===== *)
theory Scrum_Bands
  imports Scrum_Signals "HOL-Library.List_Lexorder" "HOL-Library.Char_ord"
begin

text \<open>
  The scrum master's decisions (\<open>internal/scrummaster/band.go\<close>, \<open>judge.go\<close>, \<open>shepherd.go\<close>): the trust band of a
  session from its recorded verdicts, reading the judge's reply, and the tick over all sessions with the
  session table (\<open>persistence/sqlite/sessions.go\<close>).

  State is a \<open>map[string]any\<close> whose slices keep the Go type they were stored with until it is written out and
  read back as JSON. \<open>fmt_time\<close> is \<open>Format(time.RFC3339)\<close>.
\<close>

section \<open>State read back from JSON\<close>

fun go_json :: "goval \<Rightarrow> json" where
  "go_json GNil = JNull"
| "go_json (GBool b) = JBool b"
| "go_json (GInt n) = JNum n"
| "go_json (GFloat n) = JNum n"
| "go_json (GStr s) = JStr s"
| "go_json (GAny vs) = JArr (map go_json vs)"
| "go_json (GStrs ss) = JArr (map JStr ss)"
| "go_json (GMaps ms) = JArr (map (\<lambda>m. JObj (map (\<lambda>(k, v). (k, go_json v)) m)) ms)"
| "go_json (GMap m) = JObj (map (\<lambda>(k, v). (k, go_json v)) m)"

fun json_go :: "json \<Rightarrow> goval" where
  "json_go JNull = GNil"
| "json_go (JBool b) = GBool b"
| "json_go (JNum n) = GFloat n"
| "json_go (JStr s) = GStr s"
| "json_go (JArr vs) = GAny (map json_go vs)"
| "json_go (JObj m) = GMap (map (\<lambda>(k, v). (k, json_go v)) m)"

text \<open>The state saved and loaded again, by whatever store.\<close>

definition reload :: "gostate \<Rightarrow> gostate" where
  "reload st = map (\<lambda>(k, v). (k, json_go (go_json v))) st"

lemma reload_get: "map_of (reload st) k = map_option (\<lambda>v. json_go (go_json v)) (map_of st k)"
  by (induction st) (auto simp: reload_def)

section \<open>Bands\<close>

datatype band = BandTrusted | BandStandard | BandConcerned | BandCrisis

definition BandIntervalMin :: "band \<Rightarrow> int" where
  "BandIntervalMin b = (case b of BandTrusted \<Rightarrow> 30 | BandStandard \<Rightarrow> 10 | BandConcerned \<Rightarrow> 5 | BandCrisis \<Rightarrow> 2)"

record verdict =
  vd_Verdict :: string
  vd_Reason :: string
  vd_PrincipleRef :: string
  vd_Message :: string
  vd_Scorecard :: "(string \<times> int) list option"
  vd_ScorecardNote :: string

definition getStringList :: "gostate \<Rightarrow> string \<Rightarrow> string list" where
  "getStringList st key =
     (case map_of st key of
        Some (GAny xs) \<Rightarrow> concat (map (\<lambda>x. case x of GStr s \<Rightarrow> [s] | _ \<Rightarrow> []) xs)
      | _ \<Rightarrow> [])"

definition getMapList :: "gostate \<Rightarrow> string \<Rightarrow> (string \<times> goval) list list" where
  "getMapList st key =
     (case map_of st key of
        Some (GAny xs) \<Rightarrow> concat (map (\<lambda>x. case x of GMap m \<Rightarrow> [m] | _ \<Rightarrow> []) xs)
      | _ \<Rightarrow> [])"

text \<open>Go's integer division.\<close>

definition quot :: "int \<Rightarrow> int \<Rightarrow> int" where
  "quot a b = sgn a * sgn b * (\<bar>a\<bar> div \<bar>b\<bar>)"

definition history_scores :: "gostate \<Rightarrow> int list" where
  "history_scores st =
     (case map_of st ''scorecard_history'' of
        Some (GAny xs) \<Rightarrow>
          concat (map (\<lambda>x. case x of GMap m \<Rightarrow> (case map_of m ''V'' of Some (GFloat n) \<Rightarrow> [n] | _ \<Rightarrow> []) | _ \<Rightarrow> [])
            (lastn 5 xs))
      | _ \<Rightarrow> [])"

definition current_score :: "verdict \<Rightarrow> int list" where
  "current_score v = (case vd_Scorecard v of None \<Rightarrow> [] | Some sc \<Rightarrow> (case map_of sc ''V'' of None \<Rightarrow> [] | Some n \<Rightarrow> [n]))"

definition mean_score :: "int list \<Rightarrow> int" where
  "mean_score vs = (if vs = [] then 5 else quot (sum_list vs) (int (length vs)))"

definition is_theater :: "string \<Rightarrow> bool" where
  "is_theater pref \<longleftrightarrow> str_contains ''P9'' pref \<and> str_contains ''P14'' pref"

text \<open>The decision on the recent verdicts, the topic count and the recent scores.\<close>

definition band_of :: "string list \<Rightarrow> int \<Rightarrow> int list \<Rightarrow> signals \<Rightarrow> verdict \<Rightarrow> band" where
  "band_of recent same_topic scores sig v =
     (let interventions = count_list recent ''intervene'' in
      if is_theater (vd_PrincipleRef v) \<or> 2 \<le> interventions \<or> 3 \<le> same_topic then BandCrisis
      else if vd_Verdict v = ''intervene'' then BandConcerned
      else if mean_score scores < 4 \<or> sig_AddressedLastCoach sig = Some False \<or> 3 / 10 < sig_QuietRatioLast30Min sig
        then BandConcerned
      else if 7 \<le> mean_score scores \<and> interventions = 0 \<and>
          \<not> (case sig_LastFounderDirectiveAge sig of None \<Rightarrow> False | Some a \<Rightarrow> a < 10 * minute)
        then BandTrusted
      else BandStandard)"

definition ComputeBand :: "gostate \<Rightarrow> signals \<Rightarrow> verdict \<Rightarrow> band \<times> int" where
  "ComputeBand st sig v =
     (let vh = getStringList st ''verdict_history'' @ [vd_Verdict v];
          topic = (case map_of st ''same_topic_count'' of Some (GFloat n) \<Rightarrow> n | _ \<Rightarrow> 0);
          b = band_of (lastn 5 vh) topic (history_scores st @ current_score v) sig v
      in (b, BandIntervalMin b))"

definition mapStringInt :: "(string \<times> int) list \<Rightarrow> (string \<times> goval) list" where
  "mapStringInt m = map (\<lambda>(k, n). (k, GInt n)) m"

definition RecordVerdictToState :: "(time \<Rightarrow> string) \<Rightarrow> gostate \<Rightarrow> signals \<Rightarrow> verdict \<Rightarrow> gostate" where
  "RecordVerdictToState fmt_time st sig v =
     (let stamp = fmt_time (sig_Now sig);
          s1 = AList.update ''last_tick_at'' (GStr stamp) (AList.update ''last_verdict'' (GStr (vd_Verdict v)) st);
          vh = getStringList s1 ''verdict_history'' @ [vd_Verdict v];
          s2 = AList.update ''verdict_history'' (GStrs (lastn 20 vh)) s1
      in case vd_Scorecard v of
        None \<Rightarrow> s2
      | Some sc \<Rightarrow>
          let s3 = AList.update ''last_scorecard'' (GMap (mapStringInt sc)) s2;
              sch = getMapList s3 ''scorecard_history'' @ [mapStringInt sc @ [(''at'', GStr stamp)]]
          in AList.update ''scorecard_history'' (GMaps (lastn 20 sch)) s3)"

section \<open>Bands follow the history\<close>

type_synonym scrum_tick = "signals \<times> verdict"

text \<open>The bands of a run of ticks, the state stored and loaded between them.\<close>

fun bands_run :: "(time \<Rightarrow> string) \<Rightarrow> gostate \<Rightarrow> scrum_tick list \<Rightarrow> band list" where
  "bands_run fmt_time st [] = []"
| "bands_run fmt_time st ((sig, v) # ts) =
     fst (ComputeBand st sig v) # bands_run fmt_time (reload (RecordVerdictToState fmt_time st sig v)) ts"

definition cards :: "verdict list \<Rightarrow> (string \<times> int) list list" where
  "cards hist = concat (map (\<lambda>v. case vd_Scorecard v of None \<Rightarrow> [] | Some sc \<Rightarrow> [sc]) hist)"

definition v_score :: "(string \<times> int) list \<Rightarrow> int list" where
  "v_score sc = (case map_of sc ''V'' of None \<Rightarrow> [] | Some n \<Rightarrow> [n])"

text \<open>The band after the verdicts \<open>hist\<close>.\<close>

definition band_after :: "verdict list \<Rightarrow> signals \<Rightarrow> verdict \<Rightarrow> band" where
  "band_after hist sig v =
     band_of (lastn 5 (map vd_Verdict hist @ [vd_Verdict v])) 0
       (concat (map v_score (lastn 5 (cards hist))) @ current_score v) sig v"

fun bands_spec :: "verdict list \<Rightarrow> scrum_tick list \<Rightarrow> band list" where
  "bands_spec hist [] = []"
| "bands_spec hist ((sig, v) # ts) = band_after hist sig v # bands_spec (hist @ [v]) ts"

definition stored_card :: "goval \<Rightarrow> (string \<times> int) list \<Rightarrow> bool" where
  "stored_card x sc \<longleftrightarrow> (\<exists>m. x = GMap m \<and> map_of m ''V'' = map_option GFloat (map_of sc ''V''))"

definition records :: "gostate \<Rightarrow> verdict list \<Rightarrow> bool" where
  "records st hist \<longleftrightarrow>
     map_of st ''same_topic_count'' = None \<and>
     getStringList st ''verdict_history'' = lastn 20 (map vd_Verdict hist) \<and>
     (\<exists>xs. list_all2 stored_card xs (lastn 20 (cards hist)) \<and>
        (case map_of st ''scorecard_history'' of None \<Rightarrow> xs = [] | Some g \<Rightarrow> g = GAny xs))"

lemma lastn_weaken: "m \<le> n \<Longrightarrow> lastn m (lastn n xs @ ys) = lastn m (xs @ ys)"
proof (cases "length xs \<le> n")
  case False
  assume "m \<le> n"
  then show ?thesis using False by (simp add: lastn_def add.commute)
qed simp

lemma lastn_weaken_Nil: "m \<le> n \<Longrightarrow> lastn m (lastn n xs) = lastn m xs"
  using lastn_weaken [of m n xs "[]"] by simp

lemma list_all2_lastn: "list_all2 P xs ys \<Longrightarrow> list_all2 P (lastn n xs) (lastn n ys)"
  unfolding lastn_def by (metis list_all2_dropI list_all2_lengthD)

lemma stored_scores:
  "list_all2 stored_card xs scs \<Longrightarrow>
    concat (map (\<lambda>x. case x of GMap m \<Rightarrow> (case map_of m ''V'' of Some (GFloat n) \<Rightarrow> [n] | _ \<Rightarrow> []) | _ \<Rightarrow> []) xs)
      = concat (map v_score scs)"
  by (induction rule: list_all2_induct) (auto simp: stored_card_def v_score_def split: option.splits)

lemma stored_maps:
  "list_all2 stored_card xs scs \<Longrightarrow>
    list_all2 stored_card (map GMap (concat (map (\<lambda>x. case x of GMap m \<Rightarrow> [m] | _ \<Rightarrow> []) xs))) scs"
  by (induction rule: list_all2_induct) (auto simp: stored_card_def)

lemma band_recorded:
  assumes "records st hist"
  shows "fst (ComputeBand st sig v) = band_after hist sig v"
proof -
  obtain xs where xs: "list_all2 stored_card xs (lastn 20 (cards hist))"
    "case map_of st ''scorecard_history'' of None \<Rightarrow> xs = [] | Some g \<Rightarrow> g = GAny xs"
    using assms by (auto simp: records_def)
  have "list_all2 stored_card (lastn 5 xs) (lastn 5 (cards hist))"
    using list_all2_lastn [OF xs(1), of 5] by (simp add: lastn_weaken_Nil)
  then have "history_scores st = concat (map v_score (lastn 5 (cards hist)))"
  proof (cases "map_of st ''scorecard_history''")
    case None
    then have "length (lastn 20 (cards hist)) = 0" using xs by simp
    then have "cards hist = []" by (cases "cards hist") auto
    then show ?thesis using None by (simp add: history_scores_def lastn_def)
  next
    case (Some g)
    then have g: "g = GAny xs" using xs(2) by simp
    show ?thesis
      using stored_scores [OF \<open>list_all2 stored_card (lastn 5 xs) (lastn 5 (cards hist))\<close>] Some
      unfolding history_scores_def g by (simp only: option.case goval.case)
  qed
  then show ?thesis
    using assms lastn_weaken [of 5 20 "map vd_Verdict hist" "[vd_Verdict v]"]
    by (simp add: ComputeBand_def band_after_def records_def Let_def)
qed

lemma json_go_strs [simp]: "json_go (go_json (GStrs ss)) = GAny (map GStr ss)"
  by (simp add: comp_def)

lemma json_go_maps [simp]: "json_go (go_json (GMaps ms)) = GAny (map (\<lambda>m. GMap (reload m)) ms)"
  by (simp add: comp_def reload_def split_def)

lemma strs_back: "concat (map (\<lambda>x. case x of GStr s \<Rightarrow> [s] | _ \<Rightarrow> []) (map GStr ss)) = ss"
  by (induction ss) auto

lemma getStringList_reload_strs:
  "map_of st k = Some (GStrs ss) \<Longrightarrow> getStringList (reload st) k = ss"
  using strs_back [of ss] by (simp add: getStringList_def reload_get comp_def)

lemma reload_stored: "stored_card (GMap m) sc \<Longrightarrow> stored_card (GMap (reload m)) sc"
  by (auto simp: stored_card_def reload_get option.map_comp comp_def)

lemma map_of_ints: "map_of (mapStringInt m) k = map_option GInt (map_of m k)"
  by (induction m) (auto simp: mapStringInt_def)

lemma new_card_stored: "stored_card (GMap (reload (mapStringInt sc @ [(''at'', GStr stamp)]))) sc"
  by (auto simp: stored_card_def reload_get map_of_ints map_add_def split: option.splits)

text \<open>Recording a verdict, as far as the histories go.\<close>

lemma record_verdicts:
  "map_of (RecordVerdictToState fmt_time st sig v) ''verdict_history'' =
     Some (GStrs (lastn 20 (getStringList st ''verdict_history'' @ [vd_Verdict v])))"
  by (simp add: RecordVerdictToState_def Let_def getStringList_def split: option.split)

lemma record_cards:
  "map_of (RecordVerdictToState fmt_time st sig v) ''scorecard_history'' =
     (case vd_Scorecard v of
        None \<Rightarrow> map_of st ''scorecard_history''
      | Some sc \<Rightarrow> Some (GMaps (lastn 20 (getMapList st ''scorecard_history''
          @ [mapStringInt sc @ [(''at'', GStr (fmt_time (sig_Now sig)))]]))))"
  by (simp add: RecordVerdictToState_def Let_def getMapList_def split: option.split)

lemma record_topic:
  "map_of (RecordVerdictToState fmt_time st sig v) ''same_topic_count'' = map_of st ''same_topic_count''"
  by (simp add: RecordVerdictToState_def Let_def split: option.split)

lemma list_all2_snoc: "list_all2 P xs ys \<Longrightarrow> P x y \<Longrightarrow> list_all2 P (xs @ [x]) (ys @ [y])"
  by (simp add: list_all2_appendI)

lemma stored_again: "stored_card x sc \<Longrightarrow> stored_card (json_go (go_json x)) sc"
  using reload_stored by (auto simp: stored_card_def comp_def reload_def split_def)

lemma cards_snoc: "cards (hist @ [v]) = cards hist @ (case vd_Scorecard v of None \<Rightarrow> [] | Some sc \<Rightarrow> [sc])"
  by (simp add: cards_def)

lemma getMapList_stored:
  assumes "list_all2 stored_card xs scs" "case map_of st ''scorecard_history'' of None \<Rightarrow> xs = [] | Some g \<Rightarrow> g = GAny xs"
  shows "list_all2 stored_card (map GMap (getMapList st ''scorecard_history'')) scs"
proof (cases "map_of st ''scorecard_history''")
  case None
  then show ?thesis using assms by (simp add: getMapList_def)
next
  case (Some g)
  then have "g = GAny xs" using assms(2) by simp
  then show ?thesis using Some stored_maps [OF assms(1)] by (simp add: getMapList_def)
qed

lemma record_step:
  assumes "records st hist"
  shows "records (reload (RecordVerdictToState fmt_time st sig v)) (hist @ [v])"
proof -
  let ?st = "RecordVerdictToState fmt_time st sig v" and ?k = "''scorecard_history''"
  obtain xs where xs: "list_all2 stored_card xs (lastn 20 (cards hist))"
    "case map_of st ?k of None \<Rightarrow> xs = [] | Some g \<Rightarrow> g = GAny xs"
    using assms by (auto simp: records_def)
  have "getStringList (reload ?st) ''verdict_history'' = lastn 20 (map vd_Verdict (hist @ [v]))"
    using assms getStringList_reload_strs [OF record_verdicts] by (simp add: records_def)
  moreover have "map_of (reload ?st) ''same_topic_count'' = None"
    using assms by (simp add: records_def reload_get record_topic)
  moreover have "\<exists>ys. list_all2 stored_card ys (lastn 20 (cards (hist @ [v]))) \<and>
      (case map_of (reload ?st) ?k of None \<Rightarrow> ys = [] | Some g \<Rightarrow> g = GAny ys)"
  proof (cases "vd_Scorecard v")
    case None
    have "list_all2 stored_card (map (\<lambda>x. json_go (go_json x)) xs) (lastn 20 (cards hist))"
      using xs(1) stored_again by (simp add: list_all2_map1 list_all2_mono)
    moreover have "case map_of (reload ?st) ?k of None \<Rightarrow> map (\<lambda>x. json_go (go_json x)) xs = []
        | Some g \<Rightarrow> g = GAny (map (\<lambda>x. json_go (go_json x)) xs)"
      using xs(2) by (auto simp: reload_get record_cards None comp_def split: option.splits)
    ultimately show ?thesis by (auto simp: cards_snoc None)
  next
    case (Some sc)
    define ms where "ms = getMapList st ?k"
    define entry where "entry = mapStringInt sc @ [(''at'', GStr (fmt_time (sig_Now sig)))]"
    have old: "list_all2 stored_card (map GMap ms) (lastn 20 (cards hist))"
      unfolding ms_def by (rule getMapList_stored [OF xs])
    then have "list_all2 stored_card (map (\<lambda>m. GMap (reload m)) ms) (lastn 20 (cards hist))"
      using reload_stored by (simp add: list_all2_map1 list_all2_mono)
    then have "list_all2 stored_card (map (\<lambda>m. GMap (reload m)) (ms @ [entry])) (lastn 20 (cards hist) @ [sc])"
      using new_card_stored by (simp add: list_all2_snoc entry_def)
    then have "list_all2 stored_card (lastn 20 (map (\<lambda>m. GMap (reload m)) (ms @ [entry]))) (lastn 20 (lastn 20 (cards hist) @ [sc]))"
      by (rule list_all2_lastn)
    moreover have "map_of (reload ?st) ?k = Some (GAny (map (\<lambda>m. GMap (reload m)) (lastn 20 (ms @ [entry]))))"
      by (simp only: reload_get record_cards Some option.case option.map ms_def entry_def json_go_maps)
    ultimately show ?thesis by (simp add: cards_snoc Some map_lastn del: map_append list.map)
  qed
  ultimately show ?thesis by (simp add: records_def)
qed

text \<open>C27: when the state is stored and loaded between ticks, the band of every tick is a function of the signals and
  of the history of verdicts: the last five verdicts and the last five scorecards decide it.\<close>

theorem bands_follow_history: "bands_run fmt_time [] ts = bands_spec [] ts"
proof -
  have "records st hist \<Longrightarrow> bands_run fmt_time st ts = bands_spec hist ts" for st hist
  proof (induction ts arbitrary: st hist)
    case (Cons t ts)
    obtain sig v where t: "t = (sig, v)" by fastforce
    show ?case
      using band_recorded [OF Cons.prems] Cons.IH [OF record_step [OF Cons.prems]] by (simp add: t)
  qed simp
  moreover have "records [] []"
    by (simp add: records_def getStringList_def cards_def lastn_def)
  ultimately show ?thesis by blast
qed

text \<open>
  While the state stays in memory the slices keep their own types, which neither reader recognises: the
  history is the latest verdict alone, and no number of interventions is a crisis.
\<close>

lemma history_lost_in_memory:
  "getStringList (RecordVerdictToState fmt_time st sig v) ''verdict_history'' = []
   \<and> (vd_Scorecard v \<noteq> None \<longrightarrow> history_scores (RecordVerdictToState fmt_time st sig v) = [])"
  by (auto simp: getStringList_def record_verdicts history_scores_def record_cards)

lemma no_crisis_in_memory:
  assumes "\<not> is_theater (vd_PrincipleRef v')" "map_of st ''same_topic_count'' = None"
  shows "fst (ComputeBand (RecordVerdictToState fmt_time st sig v) sig' v') \<noteq> BandCrisis"
  using assms history_lost_in_memory [of fmt_time st sig v]
  by (simp add: ComputeBand_def band_of_def record_topic Let_def lastn_def)

text \<open>with the signals the scrum master builds no session is ever trusted or standard: the quiet ratio of the
  last twenty events is above its threshold, and the next tick is at most five minutes away.\<close>

theorem never_trusted:
  assumes "BuildSignals parse parse_time sprint marshal fails now w pr opened st = Inr sig"
  shows "fst (ComputeBand st' sig v) \<in> {BandConcerned, BandCrisis} \<and> snd (ComputeBand st' sig v) \<le> 5"
proof -
  obtain evs where "length evs \<le> 20" "sig = signals_of parse_time now w pr st evs"
    using assms readRecentEvents_length by (fastforce simp: BuildSignals_def res_bind_Inr_iff res_wrap_def split: sum.splits)
  then have "1 / 3 \<le> sig_QuietRatioLast30Min sig" using quietRatio_floor by (simp add: signals_of_def Let_def)
  then have "3 / 10 < sig_QuietRatioLast30Min sig" by linarith
  then have "fst (ComputeBand st' sig v) \<in> {BandConcerned, BandCrisis}"
    by (simp add: ComputeBand_def band_of_def Let_def)
  moreover have "snd (ComputeBand st' sig v) = BandIntervalMin (fst (ComputeBand st' sig v))"
    by (simp add: ComputeBand_def Let_def)
  ultimately show ?thesis by (auto simp: BandIntervalMin_def)
qed

text \<open>On an empty transcript.\<close>

lemma never_trusted_witness:
  "fst (ComputeBand [] (signals_of (\<lambda>_. None) (5 * minute) \<lparr>wt_Repo = ''r'', wt_GHRepo = []\<rparr> no_probes [] [])
     \<lparr>vd_Verdict = ''praise'', vd_Reason = [], vd_PrincipleRef = [], vd_Message = [], vd_Scorecard = Some [(''V'', 10)],
      vd_ScorecardNote = []\<rparr>) \<in> {BandConcerned, BandCrisis}"
  by (rule never_trusted [OF empty_transcript [of "\<lambda>_. RawEmpty" "\<lambda>_. None" "\<lambda>_. []" "\<lambda>_. []" "\<lambda>_. False" "5 * minute"
      "\<lparr>wt_Repo = ''r'', wt_GHRepo = []\<rparr>" no_probes "[]"], THEN conjunct1])

section \<open>The judge\<close>

definition has_suffix_trimmed :: "string \<Rightarrow> string \<Rightarrow> string" where
  "has_suffix_trimmed p s = (if has_suffix p s then take (length s - length p) s else s)"

definition fence :: string where "fence = replicate 3 (CHR 0x60)"

definition strip_fences :: "string \<Rightarrow> string" where
  "strip_fences reply =
     trim_space (has_suffix_trimmed fence (trim_prefix fence (trim_prefix (fence @ ''json'') (trim_space reply))))"

text \<open>The match of \<open>(?s)\{.*\}\<close>: from the first opening to the last closing brace.\<close>

definition outer_object :: "string \<Rightarrow> string" where
  "outer_object s = rev (dropWhile (\<lambda>c. c \<noteq> CHR ''}'') (rev (dropWhile (\<lambda>c. c \<noteq> CHR ''{'') s)))"

record judge_envelope =
  je_Result :: string
  je_IsError :: bool
  je_Subtype :: string

definition dec_judge_envelope :: "json \<Rightarrow> judge_envelope result" where
  "dec_judge_envelope v = res_bind (struct_ok ''struct'' v) (\<lambda>j. res_bind (get_str ''result'' j) (\<lambda>r.
     res_bind (get_int ''total_cost_usd'' j) (\<lambda>_. res_bind (get_bool ''is_error'' j) (\<lambda>e.
     res_bind (get_str ''subtype'' j) (\<lambda>sub. res_bind (get_str ''stop_reason'' j) (\<lambda>_.
       Inr \<lparr>je_Result = r, je_IsError = e, je_Subtype = sub\<rparr>))))))"

definition dec_any_map :: "json \<Rightarrow> fields result" where
  "dec_any_map v = (case v of JObj fs \<Rightarrow> Inr fs | JNull \<Rightarrow> Inr [] | _ \<Rightarrow> Inl (mismatch v ''map[string]interface {}''))"

definition getString :: "fields \<Rightarrow> string \<Rightarrow> string \<Rightarrow> string" where
  "getString m k fallback = (case mget k m of Some (JStr s) \<Rightarrow> s | _ \<Rightarrow> fallback)"

definition toInt :: "json \<Rightarrow> int \<Rightarrow> int" where
  "toInt v fallback = (case v of JNum n \<Rightarrow> n | _ \<Rightarrow> fallback)"

definition silent :: "string \<Rightarrow> verdict" where
  "silent reason = \<lparr>vd_Verdict = ''silent'', vd_Reason = reason, vd_PrincipleRef = [], vd_Message = [],
     vd_Scorecard = None, vd_ScorecardNote = []\<rparr>"

definition card_axes :: "string list" where
  "card_axes = [''G'', ''V'', ''F'', ''E'']"

definition read_card :: "fields \<Rightarrow> (string \<times> int) list" where
  "read_card sc = concat (map (\<lambda>k. case mget k sc of None \<Rightarrow> [] | Some raw \<Rightarrow> [(k, toInt raw 5)]) card_axes)"

definition read_verdict :: "fields \<Rightarrow> verdict" where
  "read_verdict data =
     \<lparr>vd_Verdict = getString data ''verdict'' ''silent'', vd_Reason = firstN (getString data ''reason'' []) 200,
      vd_PrincipleRef = getString data ''principle_ref'' [], vd_Message = getString data ''message'' [],
      vd_Scorecard = (case mget ''scorecard'' data of Some (JObj sc) \<Rightarrow> Some (read_card sc) | _ \<Rightarrow> None),
      vd_ScorecardNote = firstN (getString data ''scorecard_note'' []) 200\<rparr>"

text \<open>
  \<open>CallJudge\<close> on the prompt path, the prompt file, and the output of the subprocess. The cost and the duration
  are left out of the verdict.
\<close>

definition CallJudge :: "(string \<Rightarrow> raw) \<Rightarrow> string \<Rightarrow> string result \<Rightarrow> raw result \<Rightarrow> verdict result" where
  "CallJudge parse path prompt out =
     (if path = [] then Inl ''judge.md path not configured''
      else case prompt of
        Inl e \<Rightarrow> Inl (''read judge.md: '' @ e)
      | Inr _ \<Rightarrow>
          (case out of
             Inl e \<Rightarrow> Inr (silent (''subprocess error: '' @ e))
           | Inr body \<Rightarrow>
               (case unmarshal dec_judge_envelope body of
                  Inl e \<Rightarrow> Inr (silent (''envelope parse: '' @ e))
                | Inr env \<Rightarrow>
                    if je_IsError env then Inr (silent (''api-error: '' @ je_Subtype env))
                    else let m = outer_object (strip_fences (je_Result env)) in
                      if m = [] then Inr (silent ''non-json verdict'')
                      else case unmarshal dec_any_map (parse m) of
                        Inl e \<Rightarrow> Inr (silent (''json-parse: '' @ e))
                      | Inr data \<Rightarrow> Inr (read_verdict data))))"

lemma outer_object_shape:
  assumes "outer_object s \<noteq> []"
  obtains u w where "s = u @ outer_object s @ w" "hd (outer_object s) = CHR ''{''" "last (outer_object s) = CHR ''}''"
proof -
  let ?open = "\<lambda>c. c \<noteq> CHR ''{''" and ?close = "\<lambda>c. c \<noteq> CHR ''}''"
  let ?t = "dropWhile ?open s"
  have o: "outer_object s = rev (dropWhile ?close (rev ?t))" by (simp add: outer_object_def)
  have ne2: "dropWhile ?close (rev ?t) \<noteq> []" using assms unfolding o by (metis rev.simps(1))
  then have "rev ?t \<noteq> []" by (metis dropWhile.simps(1))
  then have ne: "?t \<noteq> []" "dropWhile ?close (rev ?t) \<noteq> []" using ne2 by (simp_all only: rev_is_Nil_conv not_False_eq_True)
  have t: "?t = outer_object s @ rev (takeWhile ?close (rev ?t))"
    unfolding o by (metis rev_append rev_rev_ident takeWhile_dropWhile_id)
  have s: "s = takeWhile ?open s @ outer_object s @ rev (takeWhile ?close (rev ?t))"
    using t by (metis takeWhile_dropWhile_id)
  have "hd ?t = CHR ''{''" using hd_dropWhile [OF ne(1)] by simp
  then have "hd (outer_object s) = CHR ''{''" using t assms by (metis hd_append2)
  moreover have "last (outer_object s) = CHR ''}''"
    using hd_dropWhile [OF ne(2)] ne(2) by (simp add: o last_rev)
  ultimately show ?thesis using s that by blast
qed

lemma trim_space_part: "\<exists>u w. s = u @ trim_space s @ w"
proof -
  have "s = takeWhile is_space s @ dropWhile is_space s" by simp
  moreover have "dropWhile is_space s = trim_space s @ rev (takeWhile is_space (rev (dropWhile is_space s)))"
    unfolding trim_space_def by (metis rev_append rev_rev_ident takeWhile_dropWhile_id)
  ultimately show ?thesis by metis
qed

lemma trim_prefix_part: "\<exists>u w. s = u @ trim_prefix p s @ w"
  unfolding trim_prefix_def by (metis append.right_neutral append_Nil append_take_drop_id)

lemma trim_suffix_part: "\<exists>u w. s = u @ has_suffix_trimmed p s @ w"
  unfolding has_suffix_trimmed_def by (metis append.right_neutral append_Nil append_take_drop_id)

definition part_of :: "string \<Rightarrow> string \<Rightarrow> bool" where
  "part_of m s \<longleftrightarrow> (\<exists>u w. s = u @ m @ w)"

lemma part_of_trans: "part_of a b \<Longrightarrow> part_of b c \<Longrightarrow> part_of a c"
  unfolding part_of_def by (metis append.assoc)

lemma strip_fences_part: "part_of (strip_fences s) s"
  unfolding strip_fences_def
  using trim_space_part trim_prefix_part trim_suffix_part part_of_trans
  unfolding part_of_def [symmetric] by meson

text \<open>C11: whatever the judge's subprocess prints or however it fails, there is a verdict, and it is silent unless the
  reply is an envelope without an error whose text has in it an object, in braces, with a \<open>verdict\<close> of that
  name; the only errors are those of the prompt.\<close>

theorem judge_failures_are_silent:
  "case CallJudge parse path prompt out of
      Inl e \<Rightarrow> path = [] \<or> (\<exists>e'. prompt = Inl e')
    | Inr v \<Rightarrow> vd_Verdict v = ''silent'' \<or>
        (\<exists>body env m data. out = Inr body \<and> unmarshal dec_judge_envelope body = Inr env \<and> \<not> je_IsError env \<and>
           part_of m (je_Result env) \<and> hd m = CHR ''{'' \<and> last m = CHR ''}'' \<and>
           unmarshal dec_any_map (parse m) = Inr data \<and> mget ''verdict'' data = Some (JStr (vd_Verdict v)))"
proof (cases "CallJudge parse path prompt out")
  case (Inl e)
  then show ?thesis by (auto simp: CallJudge_def Let_def split: if_splits sum.splits)
next
  case (Inr v)
  show ?thesis
  proof (cases "vd_Verdict v = ''silent''")
    case False
    have ns: "v \<noteq> silent r" for r using False by (auto simp: silent_def)
    obtain body env data where out: "out = Inr body" "unmarshal dec_judge_envelope body = Inr env" "\<not> je_IsError env"
      and m: "outer_object (strip_fences (je_Result env)) \<noteq> []"
      and data: "unmarshal dec_any_map (parse (outer_object (strip_fences (je_Result env)))) = Inr data" "v = read_verdict data"
      using Inr ns by (auto simp: CallJudge_def Let_def split: if_splits sum.splits)
    let ?m = "outer_object (strip_fences (je_Result env))"
    have "part_of ?m (strip_fences (je_Result env)) \<and> hd ?m = CHR ''{'' \<and> last ?m = CHR ''}''"
      using m by (rule outer_object_shape) (auto simp: part_of_def)
    then have "part_of ?m (je_Result env) \<and> hd ?m = CHR ''{'' \<and> last ?m = CHR ''}''"
      using strip_fences_part part_of_trans by blast
    moreover have "mget ''verdict'' data = Some (JStr (vd_Verdict v))"
      using False data(2) by (auto simp: read_verdict_def getString_def split: option.splits json.splits)
    ultimately show ?thesis using Inr out data by auto
  qed (simp add: Inr)
qed

section \<open>Stored sessions\<close>

text \<open>
  The session table. A stored text of \<open>null\<close> is read as a nil map, which an assignment panics on. \<open>drv\<close> is a
  failure of the driver.
\<close>

record session_row =
  sn_state :: raw
  sn_uuid :: string
  sn_updated :: time

type_synonym session_table = "(string \<times> session_row) list"

definition go_map :: "json \<Rightarrow> gostate option result" where
  "go_map v = (case v of
     JObj fs \<Rightarrow> Inr (Some (map (\<lambda>(k, v). (k, json_go v)) (rev fs)))
   | JNull \<Rightarrow> Inr None
   | _ \<Rightarrow> Inl (mismatch v ''map[string]interface {}''))"

definition read_state :: "raw \<Rightarrow> gostate option result" where
  "read_state b = (case b of RawEmpty \<Rightarrow> Inr (Some []) | _ \<Rightarrow> unmarshal go_map b)"

definition written :: "gostate \<Rightarrow> raw" where
  "written st = RawJson (go_json (GMap st))"

definition session_Get :: "go_error option \<Rightarrow> string \<Rightarrow> session_table \<Rightarrow> gostate option result" where
  "session_Get drv sid tbl =
     (if sid = [] then Inl ''sqlite SessionRepository: empty sessionID''
      else case drv of
        Some e \<Rightarrow> Inl (''sqlite sessions Get '' @ quote sid @ '': '' @ e)
      | None \<Rightarrow>
          (case map_of tbl sid of
             None \<Rightarrow> Inr (Some [])
           | Some row \<Rightarrow> res_wrap (''sqlite sessions Get '' @ quote sid @ '' unmarshal: '') (read_state (sn_state row))))"

definition session_Save ::
    "go_error option \<Rightarrow> time \<Rightarrow> string \<Rightarrow> gostate option \<Rightarrow> session_table \<Rightarrow> go_error option \<times> session_table" where
  "session_Save drv now sid state tbl =
     (if sid = [] then (Some ''sqlite SessionRepository: empty sessionID'', tbl)
      else let st = (case state of None \<Rightarrow> [] | Some st \<Rightarrow> st);
               uuid = (case map_of st ''claude_uuid'' of Some (GStr u) \<Rightarrow> u | _ \<Rightarrow> [])
        in case drv of
          Some e \<Rightarrow> (Some (''sqlite sessions Save '' @ quote sid @ '': '' @ e), tbl)
        | None \<Rightarrow> (None, AList.update sid \<lparr>sn_state = written st, sn_uuid = uuid, sn_updated = now\<rparr> tbl))"

definition session_Delete :: "go_error option \<Rightarrow> string \<Rightarrow> session_table \<Rightarrow> go_error option \<times> session_table" where
  "session_Delete drv sid tbl =
     (if sid = [] then (Some ''sqlite SessionRepository: empty sessionID'', tbl)
      else case drv of
        Some e \<Rightarrow> (Some (''sqlite sessions Delete '' @ quote sid @ '': '' @ e), tbl)
      | None \<Rightarrow> (None, AList.delete sid tbl))"

definition session_List :: "go_error option \<Rightarrow> session_table \<Rightarrow> string list result" where
  "session_List drv tbl = (case drv of Some e \<Rightarrow> Inl (''sqlite sessions List: '' @ e) | None \<Rightarrow> Inr (sort (map fst tbl)))"

text \<open>The file fallback (\<open>state.go\<close>): no file and an empty file are an empty map, a nil map is written as \<open>null\<close>.\<close>

definition LoadState :: "go_error + raw option \<Rightarrow> string \<Rightarrow> gostate option result" where
  "LoadState file path =
     (case file of
        Inl e \<Rightarrow> Inl e
      | Inr None \<Rightarrow> Inr (Some [])
      | Inr (Some b) \<Rightarrow> res_wrap (''unmarshal '' @ path @ '': '') (read_state b))"

definition SaveState :: "gostate option \<Rightarrow> raw" where
  "SaveState state = (case state of None \<Rightarrow> RawJson JNull | Some st \<Rightarrow> written st)"

lemma nil_state_roundtrip: "LoadState (Inr (Some (SaveState None))) path = Inr None"
  by (simp add: LoadState_def SaveState_def read_state_def unmarshal_def go_map_def res_wrap_def)

section \<open>A tick\<close>

definition due :: "(string \<Rightarrow> time option) \<Rightarrow> time \<Rightarrow> gostate \<Rightarrow> bool" where
  "due parse_time now st =
     (case state_str ''next_tick_at'' st of
        None \<Rightarrow> True
      | Some s \<Rightarrow> (case parse_time s of None \<Rightarrow> True | Some t \<Rightarrow> \<not> now < t))"

definition schedule :: "(time \<Rightarrow> string) \<Rightarrow> int \<Rightarrow> time \<Rightarrow> gostate \<Rightarrow> gostate" where
  "schedule fmt_time interval now st =
     AList.update ''next_tick_at'' (GStr (fmt_time (now + interval)))
       (AList.update ''last_tick_at'' (GStr (fmt_time now)) st)"

text \<open>
  One session: nothing when the assignment into a nil map panics. Failures to load and to save are logged.
\<close>

definition tick_session ::
    "(string \<Rightarrow> time option) \<Rightarrow> (time \<Rightarrow> string) \<Rightarrow> (string \<Rightarrow> go_error option) \<Rightarrow> int \<Rightarrow> time \<Rightarrow> string
       \<Rightarrow> session_table \<Rightarrow> session_table option" where
  "tick_session parse_time fmt_time drv interval now sid tbl =
     (case session_Get (drv sid) sid tbl of
        Inl _ \<Rightarrow> Some tbl
      | Inr None \<Rightarrow> None
      | Inr (Some st) \<Rightarrow>
          if due parse_time now st
          then Some (snd (session_Save (drv sid) now sid (Some (schedule fmt_time interval now st)) tbl))
          else Some tbl)"

fun tick_sessions ::
    "(string \<Rightarrow> time option) \<Rightarrow> (time \<Rightarrow> string) \<Rightarrow> (string \<Rightarrow> go_error option) \<Rightarrow> (string \<Rightarrow> bool) \<Rightarrow> int \<Rightarrow> time
       \<Rightarrow> string list \<Rightarrow> session_table \<Rightarrow> (go_error option \<times> session_table) option" where
  "tick_sessions parse_time fmt_time drv cancelled interval now [] tbl = Some (None, tbl)"
| "tick_sessions parse_time fmt_time drv cancelled interval now (sid # ids) tbl =
     (if cancelled sid then Some (Some ''context canceled'', tbl)
      else case tick_session parse_time fmt_time drv interval now sid tbl of
        None \<Rightarrow> None
      | Some tbl' \<Rightarrow> tick_sessions parse_time fmt_time drv cancelled interval now ids tbl')"

definition tickOnce ::
    "(string \<Rightarrow> time option) \<Rightarrow> (time \<Rightarrow> string) \<Rightarrow> go_error option \<Rightarrow> (string \<Rightarrow> go_error option) \<Rightarrow> (string \<Rightarrow> bool)
       \<Rightarrow> int \<Rightarrow> time \<Rightarrow> session_table \<Rightarrow> (go_error option \<times> session_table) option" where
  "tickOnce parse_time fmt_time listing drv cancelled interval now tbl =
     (case session_List listing tbl of
        Inl e \<Rightarrow> Some (Some (''discover: '' @ e), tbl)
      | Inr ids \<Rightarrow> tick_sessions parse_time fmt_time drv cancelled interval now ids tbl)"

text \<open>What a tick does to a row: it is scheduled anew when it was due and neither loading nor saving failed.\<close>

definition ticked ::
    "(string \<Rightarrow> time option) \<Rightarrow> (time \<Rightarrow> string) \<Rightarrow> int \<Rightarrow> time \<Rightarrow> session_row \<Rightarrow> session_row" where
  "ticked parse_time fmt_time interval now row =
     (case read_state (sn_state row) of
        Inr (Some st) \<Rightarrow>
          if due parse_time now st
          then \<lparr>sn_state = written (schedule fmt_time interval now st),
                sn_uuid = (case map_of st ''claude_uuid'' of Some (GStr u) \<Rightarrow> u | _ \<Rightarrow> []), sn_updated = now\<rparr>
          else row
      | _ \<Rightarrow> row)"

definition row_after ::
    "(string \<Rightarrow> time option) \<Rightarrow> (time \<Rightarrow> string) \<Rightarrow> (string \<Rightarrow> go_error option) \<Rightarrow> int \<Rightarrow> time \<Rightarrow> string
       \<Rightarrow> session_row \<Rightarrow> session_row" where
  "row_after parse_time fmt_time drv interval now sid row =
     (if sid \<noteq> [] \<and> drv sid = None then ticked parse_time fmt_time interval now row else row)"

lemma tick_session_row:
  assumes "tick_session parse_time fmt_time drv interval now sid tbl = Some tbl'" "map_of tbl sid = Some row"
  shows "map_of tbl' = (map_of tbl)(sid \<mapsto> row_after parse_time fmt_time drv interval now sid row)"
  using assms
  by (auto simp: tick_session_def session_Get_def session_Save_def ticked_def row_after_def res_wrap_def schedule_def Let_def
      fun_upd_triv split: if_splits option.splits sum.splits)

lemma tick_sessions_rows:
  assumes "tick_sessions parse_time fmt_time drv cancelled interval now ids tbl = Some (None, tbl')" "distinct ids"
    and "set ids \<subseteq> dom (map_of tbl)"
  shows "map_of tbl' sid = (if sid \<in> set ids
    then map_option (row_after parse_time fmt_time drv interval now sid) (map_of tbl sid) else map_of tbl sid)"
  using assms
proof (induction ids arbitrary: tbl)
  case (Cons i ids)
  obtain tbl1 where t1: "tick_session parse_time fmt_time drv interval now i tbl = Some tbl1"
    and rest: "tick_sessions parse_time fmt_time drv cancelled interval now ids tbl1 = Some (None, tbl')"
    using Cons.prems(1) by (auto split: if_splits option.splits)
  obtain row where row: "map_of tbl i = Some row" using Cons.prems(3) by auto
  note m = tick_session_row [OF t1 row]
  have "set ids \<subseteq> dom (map_of tbl1)" using Cons.prems(3) m by auto
  from Cons.IH [OF rest _ this] Cons.prems(2) show ?case using m row by auto
qed simp

text \<open>a tick that ends without an error schedules every stored session that was due one interval ahead, leaves
  the other sessions alone, and touches nothing else of a session's state: it neither builds signals nor
  judges.\<close>

theorem tick_only_schedules:
  assumes "tickOnce parse_time fmt_time listing drv cancelled interval now tbl = Some (None, tbl')"
    and "distinct (map fst tbl)"
  shows "map_of tbl' sid = map_option (row_after parse_time fmt_time drv interval now sid) (map_of tbl sid)
    \<and> (key \<notin> {''last_tick_at'', ''next_tick_at''} \<longrightarrow> map_of (schedule fmt_time interval now st) key = map_of st key)"
proof -
  have "tick_sessions parse_time fmt_time drv cancelled interval now (sort (map fst tbl)) tbl = Some (None, tbl')"
    using assms(1) by (auto simp: tickOnce_def session_List_def split: option.splits)
  moreover have "distinct (sort (map fst tbl))" using assms(2) by simp
  moreover have "set (sort (map fst tbl)) = dom (map_of tbl)" by (simp add: dom_map_of_conv_image_fst)
  ultimately have "map_of tbl' sid = map_option (row_after parse_time fmt_time drv interval now sid) (map_of tbl sid)"
    using tick_sessions_rows [of parse_time fmt_time drv cancelled interval now "sort (map fst tbl)" tbl tbl' sid]
    by (cases "map_of tbl sid") (auto simp: domIff)
  then show ?thesis by (simp add: schedule_def)
qed

text \<open>On one session that was never ticked.\<close>

lemma tick_only_schedules_witness:
  "\<exists>tbl'. tickOnce (\<lambda>_. None) (\<lambda>_. ''t'') None (\<lambda>_. None) (\<lambda>_. False) (60 * second) 5
      [(''s'', \<lparr>sn_state = RawJson (JObj []), sn_uuid = [], sn_updated = 0\<rparr>)] = Some (None, tbl')
    \<and> map_of tbl' ''s'' = Some (row_after (\<lambda>_. None) (\<lambda>_. ''t'') (\<lambda>_. None) (60 * second) 5 ''s''
        \<lparr>sn_state = RawJson (JObj []), sn_uuid = [], sn_updated = 0\<rparr>)"
proof -
  let ?tbl = "[(''s'', \<lparr>sn_state = RawJson (JObj []), sn_uuid = [], sn_updated = 0\<rparr>)]"
  have "session_Get None ''s'' ?tbl = Inr (Some [])"
    by (simp add: session_Get_def read_state_def unmarshal_def go_map_def res_wrap_def)
  then obtain tbl' where t: "tickOnce (\<lambda>_. None) (\<lambda>_. ''t'') None (\<lambda>_. None) (\<lambda>_. False) (60 * second) 5 ?tbl = Some (None, tbl')"
    by (auto simp: tickOnce_def session_List_def tick_session_def due_def state_str_def)
  from tick_only_schedules [OF t, of "''s''", THEN conjunct1] t show ?thesis by auto
qed

text \<open>One stored \<open>null\<close> among the sessions makes the tick panic.\<close>

lemma null_state_panics:
  assumes "map_of tbl sid = Some row" "sn_state row = RawJson JNull" "sid \<noteq> []" "drv sid = None"
  shows "tick_session parse_time fmt_time drv interval now sid tbl = None"
  using assms by (simp add: tick_session_def session_Get_def read_state_def unmarshal_def go_map_def res_wrap_def)

end
