(* ===== verification/Federation_Delivery.thy ===== *)
theory Federation_Delivery
  imports Rpc_Router Keystore
begin

text \<open>
  Delivery to other daemons (\<open>internal/federation\<close>): \<open>federated_deliverer.go\<close> posts a message to the peer its
  context id names, \<open>hub_deliverer.go\<close> sends it over a channel made through the hub, with up to three attempts,
  \<open>hub_answerer.go\<close> serves the other end of such a channel and \<open>b2b_deliverer.go\<close> is the explicit form.

  The network and the local deliverer act on a world of any type. \<open>parse\<close> is the parser behind
  \<open>json.Unmarshal\<close>, \<open>render\<close> the text of a value; an outbound body is the value marshalled.
\<close>

section \<open>Addresses\<close>

definition before_char :: "char \<Rightarrow> string \<Rightarrow> string" where
  "before_char c s = takeWhile (\<lambda>x. x \<noteq> c) s"

definition after_char :: "char \<Rightarrow> string \<Rightarrow> string" where
  "after_char c s = drop 1 (dropWhile (\<lambda>x. x \<noteq> c) s)"

text \<open>\<open>@sid/rest\<close>.\<close>

definition parsePeerContextID :: "string \<Rightarrow> (string \<times> string) option" where
  "parsePeerContextID ctxID =
     (if \<not> has_prefix ''@'' ctxID then None
      else if CHR ''/'' \<notin> set ctxID \<or> length (before_char CHR ''/'' ctxID) < 2 then None
      else let sid = drop 1 (before_char CHR ''/'' ctxID); rest = after_char CHR ''/'' ctxID in
        if sid = [] \<or> rest = [] then None else Some (sid, rest))"

record agent_card =
  cd_SID :: string
  cd_Name :: string
  cd_Body :: raw
  cd_PublicVisibility :: bool
  cd_SyncedAt :: time
  cd_UpdatedAt :: time

definition any_map :: "json \<Rightarrow> fields result" where
  "any_map v = (case v of JObj fs \<Rightarrow> Inr fs | JNull \<Rightarrow> Inr [] | _ \<Rightarrow> Inl (mismatch v ''map[string]interface {}''))"

definition extractPeerURL :: "agent_card option \<Rightarrow> string result" where
  "extractPeerURL found =
     (case found of
        None \<Rightarrow> Inl ''federation: AgentCard has empty body''
      | Some c \<Rightarrow>
          if cd_Body c = RawEmpty then Inl ''federation: AgentCard has empty body''
          else res_bind (res_wrap ''federation: AgentCard body not JSON: '' (unmarshal any_map (cd_Body c))) (\<lambda>m.
            let url = as_str (mget ''url'' m) in
            if url = [] then Inl (''federation: AgentCard '' @ quote (cd_SID c) @ '' missing `url` field'')
            else Inr (trim_right CHR ''/'' url)))"

section \<open>Tasks read from a peer\<close>

definition zero_status :: task_status where
  "zero_status = \<lparr>s_State = [], s_Message = None, s_Details = None\<rparr>"

definition dec_status :: "json \<Rightarrow> task_status result" where
  "dec_status j0 = res_bind (struct_ok ''a2a.TaskStatus'' j0) (\<lambda>j.
     res_bind (get_str ''state'' j) (\<lambda>st. res_bind (get_ptr dec_message ''message'' j) (\<lambda>m.
     res_bind (get_ptr dec_details ''details'' j) (\<lambda>d.
     Inr \<lparr>s_State = st, s_Message = m, s_Details = d\<rparr>))))"

definition dec_task :: "json \<Rightarrow> a2a_task result" where
  "dec_task j0 = res_bind (struct_ok ''a2a.Task'' j0) (\<lambda>j.
     res_bind (get_str ''id'' j) (\<lambda>i. res_bind (get_str ''contextId'' j) (\<lambda>c.
     res_bind (case jget ''status'' j of None \<Rightarrow> Inr zero_status | Some v \<Rightarrow> dec_status v) (\<lambda>st.
     res_bind (get_list dec_message ''history'' j) (\<lambda>h. res_bind (get_list dec_artifact ''artifacts'' j) (\<lambda>as.
     res_bind (get_str ''kind'' j) (\<lambda>k.
     Inr \<lparr>t_ID = i, t_ContextID = c, t_Status = st, t_History = h, t_Artifacts = as, t_Kind = k\<rparr>)))))))"

text \<open>The reply of a peer: a task, an error object, or neither.\<close>

definition dec_rpc_fault :: "json \<Rightarrow> (int \<times> string) result" where
  "dec_rpc_fault j0 = res_bind (struct_ok ''struct'' j0) (\<lambda>j.
     res_bind (get_int ''code'' j) (\<lambda>c. res_bind (get_str ''message'' j) (\<lambda>m. Inr (c, m))))"

definition dec_peer_reply :: "json \<Rightarrow> (a2a_task option \<times> (int \<times> string) option) result" where
  "dec_peer_reply j0 = res_bind (struct_ok ''struct'' j0) (\<lambda>j.
     res_bind (get_ptr (\<lambda>r. res_bind (struct_ok ''struct'' r) (get_ptr dec_task ''task'')) ''result'' j) (\<lambda>r.
     res_bind (get_ptr dec_rpc_fault ''error'' j) (\<lambda>e.
     Inr (case r of None \<Rightarrow> None | Some t \<Rightarrow> t, e))))"

definition peer_task :: "(a2a_task option \<times> (int \<times> string) option) \<Rightarrow> a2a_task result" where
  "peer_task r =
     (case r of
        (_, Some (code, m)) \<Rightarrow> Inl (''peer rpc error '' @ show_int code @ '': '' @ m)
      | (None, None) \<Rightarrow> Inl ''peer response missing result.task''
      | (Some t, None) \<Rightarrow> Inr t)"

definition send_envelope :: "string \<Rightarrow> message \<Rightarrow> json" where
  "send_envelope tag msg =
     JObj [(''jsonrpc'', JStr ''2.0''), (''id'', JStr (tag @ m_MessageID msg)), (''method'', JStr ''message/send''),
           (''params'', JObj [(''message'', enc_message msg)])]"

section \<open>Over HTTP\<close>

record peer_post =
  pp_URL :: string
  pp_Authorization :: string
  pp_Body :: json

type_synonym 'w poster = "peer_post \<Rightarrow> 'w \<Rightarrow> (go_error + int \<times> string) \<times> 'w"
type_synonym delivery = "a2a_task option \<times> go_error option"

record federated =
  fd_SelfSID :: string
  fd_OutboundBearer :: string

definition jsonrpc_endpoint :: "string \<Rightarrow> string" where
  "jsonrpc_endpoint url = (if has_suffix ''/jsonrpc'' url then url else trim_right CHR ''/'' url @ ''/jsonrpc'')"

definition bearer :: "string \<Rightarrow> string" where
  "bearer tok = (if tok = [] then [] else ''Bearer '' @ tok)"

definition forward ::
    "federated \<Rightarrow> (string \<Rightarrow> raw) \<Rightarrow> 'w poster \<Rightarrow> string \<Rightarrow> message \<Rightarrow> 'w \<Rightarrow> a2a_task result \<times> 'w" where
  "forward f parse post url msg w =
     (case post \<lparr>pp_URL = jsonrpc_endpoint url, pp_Authorization = bearer (fd_OutboundBearer f),
                pp_Body = send_envelope ''fed-'' msg\<rparr> w of
        (Inl e, w1) \<Rightarrow> (Inl e, w1)
      | (Inr (status, body), w1) \<Rightarrow>
          (if status \<noteq> 200 then Inl (''peer HTTP '' @ show_int status @ '': '' @ trim_space body)
           else case unmarshal dec_peer_reply (parse body) of
             Inl e \<Rightarrow> Inl (''decode peer response: '' @ e)
           | Inr r \<Rightarrow> peer_task r, w1))"

definition text_part :: "string \<Rightarrow> part" where
  "text_part s = \<lparr>p_Kind = ''text'', p_Text = s, p_File = None, p_Data = None\<rparr>"

definition failure_task :: "string \<Rightarrow> message \<Rightarrow> string \<Rightarrow> a2a_task" where
  "failure_task tag msg reason =
     \<lparr>t_ID = m_TaskID msg, t_ContextID = m_ContextID msg,
      t_Status = \<lparr>s_State = TaskStateFailed,
        s_Message = Some \<lparr>m_Role = ''agent'', m_Parts = [text_part reason], m_MessageID = tag @ m_MessageID msg,
                          m_TaskID = [], m_ContextID = [], m_Kind = ''message'', m_From = []\<rparr>,
        s_Details = None\<rparr>,
      t_History = [], t_Artifacts = [], t_Kind = ''task''\<rparr>"

text \<open>A peer's task keeps the peer's prefix.\<close>

definition with_prefix :: "string \<Rightarrow> a2a_task \<Rightarrow> a2a_task" where
  "with_prefix sid t = (if t_ContextID t = [] then t else t\<lparr>t_ContextID := ''@'' @ sid @ ''/'' @ t_ContextID t\<rparr>)"

definition federated_Deliver ::
    "federated \<Rightarrow> (string \<Rightarrow> raw) \<Rightarrow> 'w poster \<Rightarrow> (message \<Rightarrow> 'w \<Rightarrow> delivery \<times> 'w) \<Rightarrow> (string \<Rightarrow> agent_card result)
       \<Rightarrow> message \<Rightarrow> 'w \<Rightarrow> delivery \<times> 'w" where
  "federated_Deliver f parse post local cards msg w =
     (case parsePeerContextID (m_ContextID msg) of
        None \<Rightarrow> local msg w
      | Some (sid, rest) \<Rightarrow>
          if sid = fd_SelfSID f then local (msg\<lparr>m_ContextID := rest\<rparr>) w
          else case cards sid of
            Inl _ \<Rightarrow>
              ((Some (failure_task ''fed-failed-'' msg (''peer '' @ sid @ '' not in AgentCard cache'')),
                Some (''federation.Deliver: peer '' @ quote sid
                  @ '' unknown (cache miss); run `--federation-registry-url` to discover'')), w)
          | Inr c \<Rightarrow>
              (case extractPeerURL (Some c) of
                 Inl e \<Rightarrow> ((Some (failure_task ''fed-failed-'' msg e), Some e), w)
               | Inr url \<Rightarrow>
                   (case forward f parse post url (msg\<lparr>m_ContextID := rest\<rparr>) w of
                      (Inl e, w1) \<Rightarrow>
                        ((Some (failure_task ''fed-failed-'' msg (''forward to '' @ url @ '': '' @ e)), Some e), w1)
                    | (Inr t, w1) \<Rightarrow> ((Some (with_prefix sid t), None), w1))))"

section \<open>Over the hub\<close>

definition HubPeerScheme :: string where "HubPeerScheme = ''hub://''"
definition hubDialMaxAttempts :: nat where "hubDialMaxAttempts = 3"

definition trim_both :: "char \<Rightarrow> string \<Rightarrow> string" where
  "trim_both c s = trim_right c (dropWhile (\<lambda>x. x = c) s)"

text \<open>\<open>cards\<close> is nothing when the deliverer has no repository.\<close>

definition hubPeerOrg :: "(string \<Rightarrow> agent_card result) option \<Rightarrow> string \<Rightarrow> string option" where
  "hubPeerOrg cards sid =
     (case cards of
        None \<Rightarrow> None
      | Some get \<Rightarrow>
          (case get sid of
             Inl _ \<Rightarrow> None
           | Inr c \<Rightarrow>
               (case extractPeerURL (Some c) of
                  Inl _ \<Rightarrow> None
                | Inr url \<Rightarrow>
                    if \<not> has_prefix HubPeerScheme url then None
                    else let org = trim_both CHR ''/'' (trim_prefix HubPeerScheme url) in
                      if org = [] then None else Some org)))"

text \<open>
  The connection store and the channel: dialling, one request and its reply, closing, and the wait after an
  attempt, which tells whether the context ended meanwhile.
\<close>

record 'w hub_link =
  hl_dial :: "string \<Rightarrow> 'w \<Rightarrow> go_error option \<times> 'w"
  hl_send :: "string \<Rightarrow> json \<Rightarrow> 'w \<Rightarrow> string result \<times> 'w"
  hl_close :: "string \<Rightarrow> 'w \<Rightarrow> 'w"
  hl_wait :: "nat \<Rightarrow> 'w \<Rightarrow> go_error option \<times> 'w"

text \<open>An attempt: a task, or an error and whether to retry.\<close>

definition attemptOverHub ::
    "(string \<Rightarrow> raw) \<Rightarrow> 'w hub_link \<Rightarrow> string \<Rightarrow> message \<Rightarrow> 'w \<Rightarrow> (go_error \<times> bool + a2a_task) \<times> 'w" where
  "attemptOverHub parse hl peerURL msg w =
     (case hl_dial hl peerURL w of
        (Some e, w1) \<Rightarrow> (Inl (''dial: '' @ e, True), w1)
      | (None, w1) \<Rightarrow>
          (case hl_send hl peerURL (send_envelope ''hub-'' msg) w1 of
             (Inl e, w2) \<Rightarrow> (Inl (''SendRPC: '' @ e, True), w2)
           | (Inr reply, w2) \<Rightarrow>
               (case unmarshal dec_peer_reply (parse reply) of
                  Inl e \<Rightarrow> (Inl (''decode peer response: '' @ e, True), w2)
                | Inr r \<Rightarrow> (case peer_task r of Inl e \<Rightarrow> (Inl (e, False), w2) | Inr t \<Rightarrow> (Inr t, w2)))))"

text \<open>The loop: \<open>left\<close> attempts after number \<open>k\<close>.\<close>

fun over_hub ::
    "(string \<Rightarrow> raw) \<Rightarrow> 'w hub_link \<Rightarrow> string \<Rightarrow> message \<Rightarrow> nat \<Rightarrow> nat \<Rightarrow> go_error \<Rightarrow> 'w
       \<Rightarrow> a2a_task result \<times> 'w" where
  "over_hub parse hl org msg k 0 lastErr w =
     (Inl (''hub-relay to '' @ org @ '' failed after '' @ partIndex hubDialMaxAttempts @ '' attempts: '' @ lastErr), w)"
| "over_hub parse hl org msg k (Suc left) lastErr w =
     (case attemptOverHub parse hl (HubPeerScheme @ org) msg w of
        (Inr t, w1) \<Rightarrow> (Inr t, w1)
      | (Inl (e, False), w1) \<Rightarrow> (Inl e, w1)
      | (Inl (e, True), w1) \<Rightarrow>
          let w2 = hl_close hl (HubPeerScheme @ org) w1 in
          if left = 0 then over_hub parse hl org msg (Suc k) left e w2
          else case hl_wait hl (Suc k) w2 of
            (Some ce, w3) \<Rightarrow> (Inl ce, w3)
          | (None, w3) \<Rightarrow> over_hub parse hl org msg (Suc k) left e w3)"

definition deliverOverHub ::
    "(string \<Rightarrow> raw) \<Rightarrow> 'w hub_link option \<Rightarrow> string \<Rightarrow> message \<Rightarrow> 'w \<Rightarrow> a2a_task result \<times> 'w" where
  "deliverOverHub parse store org msg w =
     (case store of
        None \<Rightarrow> (Inl ''HubDeliverer: nil PCStore'', w)
      | Some hl \<Rightarrow> over_hub parse hl org msg 0 hubDialMaxAttempts [] w)"

definition hub_Deliver ::
    "(string \<Rightarrow> raw) \<Rightarrow> 'w hub_link option \<Rightarrow> string \<Rightarrow> (message \<Rightarrow> 'w \<Rightarrow> delivery \<times> 'w)
       \<Rightarrow> (string \<Rightarrow> agent_card result) option \<Rightarrow> message \<Rightarrow> 'w \<Rightarrow> delivery \<times> 'w" where
  "hub_Deliver parse store self fallback cards msg w =
     (case parsePeerContextID (m_ContextID msg) of
        None \<Rightarrow> fallback msg w
      | Some (sid, rest) \<Rightarrow>
          if sid = self then fallback msg w
          else case hubPeerOrg cards sid of
            None \<Rightarrow> fallback msg w
          | Some org \<Rightarrow>
              (case deliverOverHub parse store org (msg\<lparr>m_ContextID := rest\<rparr>) w of
                 (Inl e, w1) \<Rightarrow>
                   ((Some (failure_task ''hub-failed-'' msg (''hub-relay to '' @ org @ '': '' @ e)), Some e), w1)
               | (Inr t, w1) \<Rightarrow> ((Some (with_prefix sid t), None), w1)))"

section \<open>The answering side\<close>

definition rpc_fault :: "raw \<Rightarrow> int \<Rightarrow> string \<Rightarrow> json" where
  "rpc_fault i code m =
     JObj [(''jsonrpc'', JStr ''2.0''), (''id'', case i of RawJson v \<Rightarrow> v | _ \<Rightarrow> JNull),
           (''error'', JObj [(''code'', JNum code), (''message'', JStr m)])]"

definition task_reply :: "raw \<Rightarrow> a2a_task option \<Rightarrow> json" where
  "task_reply i t =
     JObj [(''jsonrpc'', JStr ''2.0''), (''id'', case i of RawJson v \<Rightarrow> v | _ \<Rightarrow> JNull),
           (''result'', JObj [(''task'', case t of None \<Rightarrow> JNull | Some x \<Rightarrow> enc_task x)])]"

definition dec_hub_params :: "json \<Rightarrow> message result" where
  "dec_hub_params j0 = res_bind (struct_ok ''a2a.SendMessageParams'' j0) (\<lambda>j.
     case jget ''message'' j of
       None \<Rightarrow> Inr \<lparr>m_Role = [], m_Parts = [], m_MessageID = [], m_TaskID = [], m_ContextID = [], m_Kind = [], m_From = []\<rparr>
     | Some v \<Rightarrow> dec_message v)"

definition dec_hub_request :: "json \<Rightarrow> rpc_request result" where
  "dec_hub_request j0 = res_bind (struct_ok ''struct'' j0) (\<lambda>j.
     res_bind (get_str ''jsonrpc'' j) (\<lambda>v. res_bind (get_str ''method'' j) (\<lambda>m.
     Inr \<lparr>rq_JSONRPC = v, rq_ID = raw_field ''id'' j, rq_Method = m,
          rq_Params = raw_field ''params'' j, rq_AuthSubject = []\<rparr>)))"

text \<open>One request on the channel; \<open>deliver\<close> is the answering daemon's deliverer.\<close>

definition makeRPCHandler ::
    "(message \<Rightarrow> 'w \<Rightarrow> delivery \<times> 'w) \<Rightarrow> raw \<Rightarrow> 'w \<Rightarrow> json \<times> 'w" where
  "makeRPCHandler deliver request w =
     (case unmarshal dec_hub_request request of
        Inl e \<Rightarrow> (rpc_fault (RawJson JNull) ErrCodeParseError (''parse JSON: '' @ e), w)
      | Inr rq \<Rightarrow>
          if canonicalizeMethod (rq_Method rq) \<noteq> ''SendMessage''
          then (rpc_fault (rq_ID rq) ErrCodeMethodNotFound
                  (''hub-relay DataChannel carries message/send only; got '' @ rq_Method rq), w)
          else case unmarshal dec_hub_params (rq_Params rq) of
            Inl e \<Rightarrow> (rpc_fault (rq_ID rq) ErrCodeInvalidParams (''decode SendMessageParams: '' @ e), w)
          | Inr msg \<Rightarrow>
              (case deliver msg w of
                 ((_, Some e), w1) \<Rightarrow> (rpc_fault (rq_ID rq) ErrCodeInternalError (''deliver: '' @ e), w1)
               | ((t, None), w1) \<Rightarrow> (task_reply (rq_ID rq) t, w1)))"

section \<open>Explicit delivery\<close>

record b2b =
  bd_PeerURL :: string
  bd_PeerSID :: string
  bd_OutboundBearer :: string

definition ellipsis :: string where "ellipsis = [CHR 0xE2, CHR 0x80, CHR 0xA6]"
definition arrow :: string where "arrow = [CHR 0xE2, CHR 0x86, CHR 0x92]"

definition b2b_truncate :: "string \<Rightarrow> nat \<Rightarrow> string" where
  "b2b_truncate s n = (if length s \<le> n then s else take n s @ ellipsis)"

definition b2b_peer_task :: "(a2a_task option \<times> (int \<times> string) option) \<Rightarrow> a2a_task result" where
  "b2b_peer_task r =
     (case r of
        (_, Some (code, m)) \<Rightarrow> Inl (''peer JSON-RPC '' @ show_int code @ '': '' @ m)
      | (None, None) \<Rightarrow> Inl ''peer response missing task''
      | (Some t, None) \<Rightarrow> Inr t)"

definition b2b_forward ::
    "b2b \<Rightarrow> (string \<Rightarrow> raw) \<Rightarrow> 'w poster \<Rightarrow> message \<Rightarrow> 'w \<Rightarrow> a2a_task result \<times> 'w" where
  "b2b_forward d parse post msg w =
     (case post \<lparr>pp_URL = trim_right CHR ''/'' (bd_PeerURL d) @ ''/jsonrpc'',
                pp_Authorization = bearer (bd_OutboundBearer d), pp_Body = send_envelope ''b2b-'' msg\<rparr> w of
        (Inl e, w1) \<Rightarrow> (Inl e, w1)
      | (Inr (status, body), w1) \<Rightarrow>
          (if status \<noteq> 200 then Inl (''peer HTTP '' @ show_int status @ '': '' @ trim_space body)
           else case unmarshal dec_peer_reply (parse body) of
             Inl e \<Rightarrow> Inl (''decode response: '' @ e)
           | Inr r \<Rightarrow> b2b_peer_task r, w1))"

text \<open>\<open>fresh\<close> is the clock reading in a made-up task id; \<open>record_event\<close> writes to the inbox, when there is one.\<close>

definition b2b_failed :: "string \<Rightarrow> message \<Rightarrow> string \<Rightarrow> a2a_task" where
  "b2b_failed fresh msg reason =
     \<lparr>t_ID = (if m_TaskID msg = [] then ''b2b-failed-'' @ fresh else m_TaskID msg), t_ContextID = m_ContextID msg,
      t_Status = \<lparr>s_State = TaskStateFailed,
        s_Message = Some \<lparr>m_Role = ''agent'', m_Parts = [text_part reason], m_MessageID = [],
                          m_TaskID = [], m_ContextID = [], m_Kind = ''message'', m_From = []\<rparr>,
        s_Details = None\<rparr>,
      t_History = [], t_Artifacts = [], t_Kind = ''task''\<rparr>"

definition b2b_Deliver ::
    "b2b \<Rightarrow> (string \<Rightarrow> raw) \<Rightarrow> 'w poster \<Rightarrow> (string \<Rightarrow> string \<Rightarrow> 'w \<Rightarrow> 'w) option \<Rightarrow> string \<Rightarrow> message \<Rightarrow> 'w
       \<Rightarrow> delivery \<times> 'w" where
  "b2b_Deliver d parse post inbox fresh msg w =
     (if bd_PeerURL d = [] then ((None, Some ''InteractiveB2BDeliverer: empty PeerURL''), w)
      else if bd_PeerSID d = [] then ((None, Some ''InteractiveB2BDeliverer: empty PeerSID''), w)
      else case ExtractText msg of
        Inl e \<Rightarrow> ((Some (b2b_failed fresh msg e), Some e), w)
      | Inr s \<Rightarrow>
          (case b2b_forward d parse post msg w of
             (Inl e, w1) \<Rightarrow> ((Some (b2b_failed fresh msg (''forward: '' @ e)), Some e), w1)
           | (Inr t, w1) \<Rightarrow>
               ((Some t, None),
                case inbox of
                  None \<Rightarrow> w1
                | Some rec \<Rightarrow> rec ''operator'' (arrow @ '' @'' @ bd_PeerSID d @ '': '' @ b2b_truncate s 80) w1)))"

section \<open>Addresses and tasks\<close>

lemma parsePeer_iff:
  "parsePeerContextID s = Some (sid, rest) \<longleftrightarrow>
     s = ''@'' @ sid @ ''/'' @ rest \<and> CHR ''/'' \<notin> set sid \<and> sid \<noteq> [] \<and> rest \<noteq> []"
proof
  assume l: "parsePeerContextID s = Some (sid, rest)"
  let ?b = "before_char CHR ''/'' s"
  have p: "has_prefix ''@'' s" and slash: "CHR ''/'' \<in> set s"
    and sid: "sid = drop 1 ?b" and rest: "rest = after_char CHR ''/'' s" and ne: "sid \<noteq> []" "rest \<noteq> []"
    using l by (auto simp: parsePeerContextID_def Let_def split: if_splits)
  obtain t where t: "s = CHR ''@'' # t" using p by (auto simp: has_prefix_iff)
  have "dropWhile (\<lambda>x. x \<noteq> CHR ''/'') s \<noteq> []" using slash by (simp add: dropWhile_eq_Nil_conv)
  then have d: "dropWhile (\<lambda>x. x \<noteq> CHR ''/'') s = CHR ''/'' # rest"
    using rest hd_dropWhile [of "\<lambda>x. x \<noteq> CHR ''/''" s] by (cases "dropWhile (\<lambda>x. x \<noteq> CHR ''/'') s") (auto simp: after_char_def)
  have b: "?b = CHR ''@'' # sid" using sid by (simp add: before_char_def t)
  have "s = ?b @ dropWhile (\<lambda>x. x \<noteq> CHR ''/'') s" by (simp add: before_char_def)
  then have "s = ''@'' @ sid @ ''/'' @ rest" using d b by simp
  moreover have "CHR ''/'' \<notin> set ?b" by (auto simp: before_char_def dest: set_takeWhileD)
  ultimately show "s = ''@'' @ sid @ ''/'' @ rest \<and> CHR ''/'' \<notin> set sid \<and> sid \<noteq> [] \<and> rest \<noteq> []" using ne b by auto
next
  assume r: "s = ''@'' @ sid @ ''/'' @ rest \<and> CHR ''/'' \<notin> set sid \<and> sid \<noteq> [] \<and> rest \<noteq> []"
  let ?P = "\<lambda>x. x \<noteq> CHR ''/''"
  have s: "s = (CHR ''@'' # sid) @ (CHR ''/'' # rest)" and P: "\<And>x. x \<in> set (CHR ''@'' # sid) \<Longrightarrow> ?P x"
    using r by auto
  have "takeWhile ?P s = CHR ''@'' # sid @ takeWhile ?P (CHR ''/'' # rest)"
    unfolding s using takeWhile_append2 [of "CHR ''@'' # sid" ?P "CHR ''/'' # rest"] P by simp
  moreover have "dropWhile ?P s = dropWhile ?P (CHR ''/'' # rest)"
    unfolding s by (rule dropWhile_append2) (rule P)
  ultimately have "before_char CHR ''/'' s = CHR ''@'' # sid" "after_char CHR ''/'' s = rest"
    by (simp_all add: before_char_def after_char_def)
  then show "parsePeerContextID s = Some (sid, rest)"
    using r by (cases sid) (auto simp: parsePeerContextID_def has_prefix_def)
qed

lemma dec_enc_status [simp]: "dec_status (enc_status s) = Inr s"
proof -
  let ?fs = "[(''state'', JStr (s_State s))] @ omit_opt enc_message ''message'' (s_Message s)
     @ omit_opt enc_details ''details'' (s_Details s)"
  have "get_str ''state'' (JObj ?fs) = Inr (s_State s)"
    by (rule get_str_always) (simp add: json_eval json_names)
  moreover have "get_ptr dec_message ''message'' (JObj ?fs) = Inr (s_Message s)"
    by (rule get_ptr_value [where enc = enc_message]) (simp_all add: json_eval json_names dec_enc_message split: option.split)
  moreover have "get_ptr dec_details ''details'' (JObj ?fs) = Inr (s_Details s)"
    by (rule get_ptr_value [where enc = enc_details]) (simp_all add: json_eval json_names dec_enc_details split: option.split)
  ultimately show ?thesis by (simp add: enc_status_def dec_status_def)
qed

lemma dec_enc_task [simp]: "dec_task (enc_task t) = Inr t"
proof -
  let ?fs = "[(''id'', JStr (t_ID t))] @ omit_str ''contextId'' (t_ContextID t)
     @ [(''status'', enc_status (t_Status t))] @ omit_list enc_message ''history'' (t_History t)
     @ omit_list enc_artifact ''artifacts'' (t_Artifacts t) @ omit_str ''kind'' (t_Kind t)"
  have "get_str ''id'' (JObj ?fs) = Inr (t_ID t)"
    by (rule get_str_always) (simp add: json_eval json_names)
  moreover have "get_str ''contextId'' (JObj ?fs) = Inr (t_ContextID t)" "get_str ''kind'' (JObj ?fs) = Inr (t_Kind t)"
    by (rule get_str_value, simp add: json_eval json_names)+
  moreover have "jget ''status'' (JObj ?fs) = Some (enc_status (t_Status t))"
    by (simp add: jget_def json_eval json_names enc_status_def split: json.split)
  moreover have "get_list dec_message ''history'' (JObj ?fs) = Inr (t_History t)"
    by (rule get_list_value [where enc = enc_message]) (simp_all add: json_eval json_names dec_enc_message)
  moreover have "get_list dec_artifact ''artifacts'' (JObj ?fs) = Inr (t_Artifacts t)"
    by (rule get_list_value [where enc = enc_artifact]) (simp_all add: json_eval json_names dec_enc_artifact)
  ultimately show ?thesis by (simp add: enc_task_def dec_task_def)
qed

lemma read_task_reply: "dec_peer_reply (task_reply i (Some t)) = Inr (Some t, None)"
proof -
  have "get_ptr dec_task ''task'' (JObj [(''task'', enc_task t)]) = Inr (Some t)"
    by (rule get_ptr_value [where enc = enc_task]) (simp_all add: json_names enc_task_def [of t])
  then show ?thesis
    by (simp add: dec_peer_reply_def task_reply_def get_ptr_def jget_def json_names split: raw.split)
qed

lemma read_rpc_fault: "dec_peer_reply (rpc_fault i code m) = Inr (None, Some (code, m))"
  by (simp add: dec_peer_reply_def rpc_fault_def dec_rpc_fault_def get_ptr_def jget_def get_int_def get_str_def json_names
      split: raw.split)

lemma read_send_envelope:
  "unmarshal dec_hub_request (RawJson (send_envelope tag msg)) =
     Inr \<lparr>rq_JSONRPC = ''2.0'', rq_ID = RawJson (JStr (tag @ m_MessageID msg)), rq_Method = ''message/send'',
          rq_Params = RawJson (JObj [(''message'', enc_message msg)]), rq_AuthSubject = []\<rparr>"
  by (simp add: unmarshal_def dec_hub_request_def send_envelope_def get_str_def jget_def raw_field_def get_raw_def json_names)

lemma read_send_params: "unmarshal dec_hub_params (RawJson (JObj [(''message'', enc_message msg)])) = Inr msg"
  using dec_enc_message [of msg] enc_not_null(3) [of msg]
  by (cases "enc_message msg") (simp_all add: unmarshal_def dec_hub_params_def jget_def json_names)

section \<open>What a sender sees\<close>

text \<open>A delivery that failed here, with the reason as its text.\<close>

definition reports_failure :: "message \<Rightarrow> delivery \<Rightarrow> bool" where
  "reports_failure msg d \<longleftrightarrow> (\<exists>tag reason e. d = (Some (failure_task tag msg reason), Some e))"

lemma federated_outcome:
  assumes "parsePeerContextID (m_ContextID msg) = Some (sid, rest)" "sid \<noteq> fd_SelfSID f"
  shows "reports_failure msg (fst (federated_Deliver f parse post local cards msg w)) \<or>
    (\<exists>c url t. cards sid = Inr c \<and> extractPeerURL (Some c) = Inr url \<and>
       forward f parse post url (msg\<lparr>m_ContextID := rest\<rparr>) w
         = (Inr t, snd (federated_Deliver f parse post local cards msg w)) \<and>
       fst (federated_Deliver f parse post local cards msg w) = (Some (with_prefix sid t), None))"
  using assms by (auto simp: federated_Deliver_def reports_failure_def split: sum.split prod.split)

lemma hub_outcome:
  assumes "parsePeerContextID (m_ContextID msg) = Some (sid, rest)" "sid \<noteq> self" "hubPeerOrg cards sid = Some org"
  shows "reports_failure msg (fst (hub_Deliver parse store self fallback cards msg w)) \<or>
    (\<exists>t. deliverOverHub parse store org (msg\<lparr>m_ContextID := rest\<rparr>) w
           = (Inr t, snd (hub_Deliver parse store self fallback cards msg w)) \<and>
       fst (hub_Deliver parse store self fallback cards msg w) = (Some (with_prefix sid t), None))"
  using assms by (auto simp: hub_Deliver_def reports_failure_def split: sum.split prod.split)


text \<open>C16 on a peer nobody announced.\<close>

definition demo_message :: message where
  "demo_message = \<lparr>m_Role = ''user'', m_Parts = [text_part ''hi''], m_MessageID = ''m'', m_TaskID = ''t'',
     m_ContextID = ''@peer/worker'', m_Kind = ''message'', m_From = []\<rparr>"

lemma demo_address: "parsePeerContextID (m_ContextID demo_message) = Some (''peer'', ''worker'')"
  by (simp add: parsePeer_iff demo_message_def)


section \<open>Stable handles\<close>

lemma with_prefix_address:
  "CHR ''/'' \<notin> set sid \<Longrightarrow> sid \<noteq> [] \<Longrightarrow> t_ContextID t \<noteq> [] \<Longrightarrow>
     parsePeerContextID (t_ContextID (with_prefix sid t)) = Some (sid, t_ContextID t)"
  by (simp add: with_prefix_def parsePeer_iff)

text \<open>C20: the context id of a task that came back from a peer is an address of that task: a later message with it is
  posted to the same URL and reaches the peer under the peer's own context id.\<close>

theorem peer_handle_roundtrip:
  assumes "parsePeerContextID (m_ContextID msg) = Some (sid, rest)" "sid \<noteq> fd_SelfSID f"
    and "federated_Deliver f parse post local cards msg w = ((Some t, None), w1)" "t_ContextID t \<noteq> []"
  shows "\<exists>url t0. forward f parse post url (msg\<lparr>m_ContextID := rest\<rparr>) w = (Inr t0, w1)
    \<and> t_ContextID t = ''@'' @ sid @ ''/'' @ t_ContextID t0
    \<and> (\<forall>m w2. m_ContextID m = t_ContextID t \<longrightarrow>
       snd (federated_Deliver f parse post local cards m w2)
         = snd (forward f parse post url (m\<lparr>m_ContextID := t_ContextID t0\<rparr>) w2))"
proof -
  have sid: "CHR ''/'' \<notin> set sid" "sid \<noteq> []" using assms(1) by (auto simp: parsePeer_iff)
  obtain c url t0 where c: "cards sid = Inr c" "extractPeerURL (Some c) = Inr url"
    and fw: "forward f parse post url (msg\<lparr>m_ContextID := rest\<rparr>) w = (Inr t0, w1)" and t: "t = with_prefix sid t0"
    using federated_outcome [OF assms(1,2), of parse post local cards w] assms(3)
    by (auto simp: reports_failure_def)
  have ne: "t_ContextID t0 \<noteq> []" using assms(4) by (auto simp: t with_prefix_def)
  have again: "snd (federated_Deliver f parse post local cards m w2)
      = snd (forward f parse post url (m\<lparr>m_ContextID := t_ContextID t0\<rparr>) w2)"
    if "m_ContextID m = t_ContextID t" for m :: message and w2
  proof -
    have "parsePeerContextID (m_ContextID m) = Some (sid, t_ContextID t0)"
      using that with_prefix_address [OF sid ne] by (simp add: t)
    then show ?thesis using c assms(2) by (simp add: federated_Deliver_def split: sum.split prod.split)
  qed
  have "t_ContextID t = ''@'' @ sid @ ''/'' @ t_ContextID t0" using ne by (simp add: t with_prefix_def)
  then show ?thesis using fw again by blast
qed

text \<open>C41 with a peer that answers every post with the task \<open>t\<close> in the session \<open>worker\<close>.\<close>

definition demo_task :: a2a_task where
  "demo_task = \<lparr>t_ID = ''t'', t_ContextID = ''worker'', t_Status = zero_status, t_History = [], t_Artifacts = [], t_Kind = ''task''\<rparr>"

definition demo_card :: agent_card where
  "demo_card = \<lparr>cd_SID = ''peer'', cd_Name = ''peer'', cd_Body = RawJson (JObj [(''url'', JStr ''https://p'')]),
     cd_PublicVisibility = True, cd_SyncedAt = 0, cd_UpdatedAt = 0\<rparr>"

lemma demo_url: "extractPeerURL (Some demo_card) = Inr ''https://p''"
  by (simp add: extractPeerURL_def demo_card_def unmarshal_def any_map_def mget_def as_str_def res_wrap_def trim_right_def)

abbreviation (input) demo_federated :: federated where
  "demo_federated \<equiv> \<lparr>fd_SelfSID = ''me'', fd_OutboundBearer = []\<rparr>"

lemma demo_forward:
  "forward f (\<lambda>_. RawJson (task_reply RawEmpty (Some demo_task))) (\<lambda>q w. (Inr (200, ''reply''), w @ [q])) url m w
     = (Inr demo_task, w @ [\<lparr>pp_URL = jsonrpc_endpoint url, pp_Authorization = bearer (fd_OutboundBearer f),
          pp_Body = send_envelope ''fed-'' m\<rparr>])"
  by (simp add: forward_def unmarshal_def read_task_reply peer_task_def)

lemma peer_handle_roundtrip_witness:
  "\<exists>t w1. federated_Deliver demo_federated (\<lambda>_. RawJson (task_reply RawEmpty (Some demo_task)))
      (\<lambda>q w. (Inr (200, ''reply''), w @ [q])) (\<lambda>_ w. ((None, None), w)) (\<lambda>_. Inr demo_card) demo_message [] = ((Some t, None), w1)
    \<and> t_ContextID t = ''@peer/worker''"
proof -
  let ?d = "federated_Deliver demo_federated (\<lambda>_. RawJson (task_reply RawEmpty (Some demo_task)))
      (\<lambda>q w. (Inr (200, ''reply''), w @ [q])) (\<lambda>_ w. ((None, None), w)) (\<lambda>_. Inr demo_card) demo_message []"
  have d: "\<exists>w1. ?d = ((Some (with_prefix ''peer'' demo_task), None), w1)"
    using demo_address demo_url by (simp add: federated_Deliver_def demo_forward)
  then obtain w1 where w1: "?d = ((Some (with_prefix ''peer'' demo_task), None), w1)" by blast
  have "t_ContextID (with_prefix ''peer'' demo_task) \<noteq> []" by (simp add: with_prefix_def demo_task_def)
  from peer_handle_roundtrip [OF demo_address _ w1 this] have
    "\<exists>c. t_ContextID (with_prefix ''peer'' demo_task) = ''@'' @ ''peer'' @ ''/'' @ c" by auto
  moreover have "t_ContextID (with_prefix ''peer'' demo_task) = ''@peer/worker''" by (simp add: with_prefix_def demo_task_def)
  ultimately show ?thesis using w1 by blast
qed

section \<open>Attempts over the hub\<close>

text \<open>\<open>sends\<close> counts the requests put on a channel; nothing else of the link changes it.\<close>

definition counts_sends :: "('w \<Rightarrow> nat) \<Rightarrow> 'w hub_link \<Rightarrow> bool" where
  "counts_sends sends hl \<longleftrightarrow>
     (\<forall>u w. sends (snd (hl_dial hl u w)) = sends w) \<and> (\<forall>u j w. sends (snd (hl_send hl u j w)) = Suc (sends w)) \<and>
     (\<forall>u w. sends (hl_close hl u w) = sends w) \<and> (\<forall>k w. sends (snd (hl_wait hl k w)) = sends w)"

lemma attempt_sends:
  assumes "counts_sends sends hl" "attemptOverHub parse hl u msg w = (r, w1)"
  shows "sends w1 \<le> Suc (sends w)" "sends w \<le> sends w1" "r = Inr t \<Longrightarrow> sends w1 = Suc (sends w)" "r = Inl (e, False) \<Longrightarrow> sends w1 = Suc (sends w)"
proof -
  obtain de w2 where d: "hl_dial hl u w = (de, w2)" by fastforce
  obtain sr w3 where sd: "hl_send hl u (send_envelope ''hub-'' msg) w2 = (sr, w3)" by fastforce
  have n: "sends w2 = sends w" "sends w3 = Suc (sends w2)"
    using assms(1) d sd unfolding counts_sends_def by (metis snd_conv)+
  show "sends w1 \<le> Suc (sends w)" "sends w \<le> sends w1" "r = Inr t \<Longrightarrow> sends w1 = Suc (sends w)" "r = Inl (e, False) \<Longrightarrow> sends w1 = Suc (sends w)"
    using assms(2) n by (auto simp: attemptOverHub_def d sd split: option.splits sum.splits)
qed

lemma over_hub_sends:
  assumes "counts_sends sends hl" "over_hub parse hl org msg k left e w = (r, w1)"
  shows "sends w1 \<le> sends w + left \<and> (\<forall>t. r = Inr t \<longrightarrow> sends w < sends w1)"
  using assms(2)
proof (induction left arbitrary: k e w)
  case (Suc left)
  let ?u = "HubPeerScheme @ org"
  obtain ar w2 where a: "attemptOverHub parse hl ?u msg w = (ar, w2)" by fastforce
  note n = attempt_sends [OF assms(1) a]
  consider (task) t where "ar = Inr t" | (final) e' where "ar = Inl (e', False)" | (retry) e' where "ar = Inl (e', True)"
  proof (cases ar)
    case (Inl a)
    then show ?thesis using that by (cases a) (metis (full_types))
  qed (use that in blast)
  then show ?case
  proof cases
    case task
    then show ?thesis using Suc.prems a n by auto
  next
    case final
    then show ?thesis using Suc.prems a n by auto
  next
    case retry
    let ?w3 = "hl_close hl ?u w2"
    have c: "sends ?w3 = sends w2" using assms(1) by (simp add: counts_sends_def)
    obtain we w4 where wt: "hl_wait hl (Suc k) ?w3 = (we, w4)" by fastforce
    then have w4: "sends w4 = sends ?w3" using assms(1) unfolding counts_sends_def by (metis snd_conv)
    show ?thesis
    proof (cases "left = 0")
      case True
      then show ?thesis using Suc.prems a retry c n(1) by auto
    next
      case False
      show ?thesis
      proof (cases we)
        case (Some ce)
        then show ?thesis using Suc.prems a retry False wt w4 c n(1) by auto
      next
        case None
        then have "over_hub parse hl org msg (Suc k) left e' w4 = (r, w1)"
          using Suc.prems a retry False wt by simp
        from Suc.IH [OF this] show ?thesis using w4 c n(1,2) by auto
      qed
    qed
  qed
qed auto

text \<open>C30: a delivery over the hub puts the message on a channel at most three times, and at least once when it
  succeeds.\<close>

theorem hub_attempts_bounded:
  assumes "counts_sends sends hl" "deliverOverHub parse (Some hl) org msg w = (r, w1)"
  shows "sends w1 \<le> sends w + 3 \<and> (\<forall>t. r = Inr t \<longrightarrow> sends w < sends w1)"
  using over_hub_sends [OF assms(1), of parse org msg 0 hubDialMaxAttempts "[]" w r w1] assms(2)
  by (simp add: deliverOverHub_def hubDialMaxAttempts_def)

text \<open>
  A reply that is lost, or cannot be read, is a reason to send again, although the peer has delivered: the
  session gets the message three times.
\<close>

definition deaf_link :: "message list hub_link" where
  "deaf_link = \<lparr>hl_dial = (\<lambda>_ w. (None, w)),
     hl_send = (\<lambda>_ j w. case makeRPCHandler (\<lambda>m w. ((Some demo_task, None), w @ [m])) (RawJson j) w of
        (_, w1) \<Rightarrow> (Inl ''timeout'', w1)),
     hl_close = (\<lambda>_ w. w), hl_wait = (\<lambda>_ w. (None, w))\<rparr>"

lemma handler_serves:
  "makeRPCHandler deliver (RawJson (send_envelope tag msg)) w =
     (case deliver msg w of
        ((_, Some e), w1) \<Rightarrow> (rpc_fault (RawJson (JStr (tag @ m_MessageID msg))) ErrCodeInternalError (''deliver: '' @ e), w1)
      | ((t, None), w1) \<Rightarrow> (task_reply (RawJson (JStr (tag @ m_MessageID msg))) t, w1))"
  by (simp add: makeRPCHandler_def read_send_envelope read_send_params canonicalizeMethod_def MethodAliases_def
      split: prod.split option.split)

lemma lost_replies_redeliver:
  "snd (deliverOverHub parse (Some deaf_link) org msg []) = [msg, msg, msg]"
  by (simp add: deliverOverHub_def hubDialMaxAttempts_def numeral_3_eq_3 attemptOverHub_def deaf_link_def handler_serves)

text \<open>C30 on a link that never gets a reply.\<close>

definition silent_link :: "nat hub_link" where
  "silent_link = \<lparr>hl_dial = (\<lambda>_ w. (None, w)), hl_send = (\<lambda>_ _ w. (Inl ''timeout'', Suc w)), hl_close = (\<lambda>_ w. w),
     hl_wait = (\<lambda>_ w. (None, w))\<rparr>"

lemma hub_attempts_bounded_witness:
  "snd (deliverOverHub (\<lambda>_. RawEmpty) (Some silent_link) ''org'' demo_message 0) \<le> 3"
proof -
  have "counts_sends id silent_link" by (simp add: counts_sends_def silent_link_def)
  from hub_attempts_bounded [OF this, of "\<lambda>_. RawEmpty" "''org''" demo_message 0] show ?thesis
    by (metis add_0 id_apply prod.collapse)
qed

section \<open>Both ends of the hub\<close>

text \<open>The value is marshalled to text the other side parses.\<close>

definition transmits :: "(string \<Rightarrow> raw) \<Rightarrow> (json \<Rightarrow> string) \<Rightarrow> json \<Rightarrow> bool" where
  "transmits parse render j \<longleftrightarrow> parse (render j) = RawJson j"

text \<open>C13: two daemons with the channel between them: what the answering daemon's deliverer gets is the message with the
  peer's prefix taken off, once; its task comes back with the prefix, and its error as an error.\<close>

theorem hub_end_to_end:
  assumes "parsePeerContextID (m_ContextID msg) = Some (sid, rest)" "sid \<noteq> self" "hubPeerOrg cards sid = Some org"
    and dial: "hl_dial hl (HubPeerScheme @ org) w = (None, w1)"
    and channel: "\<And>j v. hl_send hl (HubPeerScheme @ org) j v =
        (case makeRPCHandler peer (parse (render j)) v of (reply, v1) \<Rightarrow> (Inr (render reply), v1))"
    and request: "transmits parse render (send_envelope ''hub-'' (msg\<lparr>m_ContextID := rest\<rparr>))"
    and reply: "transmits parse render (fst (makeRPCHandler peer (RawJson (send_envelope ''hub-'' (msg\<lparr>m_ContextID := rest\<rparr>))) w1))"
    and peer: "peer (msg\<lparr>m_ContextID := rest\<rparr>) w1 = ((Some t, err), w2)"
  shows "hub_Deliver parse (Some hl) self fallback cards msg w =
    (case err of
       None \<Rightarrow> ((Some (with_prefix sid t), None), w2)
     | Some e \<Rightarrow>
         let fault = ''peer rpc error '' @ show_int ErrCodeInternalError @ '': deliver: '' @ e in
         ((Some (failure_task ''hub-failed-'' msg (''hub-relay to '' @ org @ '': '' @ fault)), Some fault), w2))"
proof -
  let ?m = "msg\<lparr>m_ContextID := rest\<rparr>" and ?u = "HubPeerScheme @ org"
  let ?i = "RawJson (JStr (''hub-'' @ m_MessageID ?m))"
  define out where "out = (case err of None \<Rightarrow> task_reply ?i (Some t)
    | Some e \<Rightarrow> rpc_fault ?i ErrCodeInternalError (''deliver: '' @ e))"
  have served: "makeRPCHandler peer (RawJson (send_envelope ''hub-'' ?m)) w1 = (out, w2)"
    unfolding handler_serves peer out_def by (simp split: option.split)
  have send: "hl_send hl ?u (send_envelope ''hub-'' ?m) w1 = (Inr (render out), w2)"
    using request served by (simp add: channel transmits_def)
  have "parse (render out) = RawJson out" using reply served by (simp add: transmits_def)
  then have "attemptOverHub parse hl ?u ?m w = (case err of
      None \<Rightarrow> (Inr t, w2)
    | Some e \<Rightarrow> (Inl (''peer rpc error '' @ show_int ErrCodeInternalError @ '': deliver: '' @ e, False), w2))"
    unfolding attemptOverHub_def dial
    by (cases err) (simp_all add: send unmarshal_def out_def read_task_reply read_rpc_fault peer_task_def)
  then show ?thesis
    using assms(1-3)
    by (simp add: hub_Deliver_def deliverOverHub_def hubDialMaxAttempts_def numeral_3_eq_3 Let_def split: option.split)
qed

text \<open>C41 with a peer that delivers.\<close>

definition demo_request :: json where
  "demo_request = send_envelope ''hub-'' (demo_message\<lparr>m_ContextID := ''worker''\<rparr>)"

definition demo_reply :: json where
  "demo_reply = task_reply (RawJson (JStr ''hub-m'')) (Some demo_task)"

definition demo_show :: "json \<Rightarrow> string" where
  "demo_show j = (if j = demo_request then ''request'' else ''reply'')"

definition demo_read :: "string \<Rightarrow> raw" where
  "demo_read s = RawJson (if s = ''request'' then demo_request else demo_reply)"

definition demo_peer :: "message \<Rightarrow> message list \<Rightarrow> delivery \<times> message list" where
  "demo_peer m w = ((Some demo_task, None), w @ [m])"

definition open_link :: "message list hub_link" where
  "open_link = \<lparr>hl_dial = (\<lambda>_ w. (None, w)),
     hl_send = (\<lambda>_ j w. case makeRPCHandler demo_peer (demo_read (demo_show j)) w of (reply, w1) \<Rightarrow> (Inr (demo_show reply), w1)),
     hl_close = (\<lambda>_ w. w), hl_wait = (\<lambda>_ w. (None, w))\<rparr>"

definition hub_card :: agent_card where
  "hub_card = demo_card\<lparr>cd_Body := RawJson (JObj [(''url'', JStr ''hub://org'')])\<rparr>"

lemma hub_card_org: "hubPeerOrg (Some (\<lambda>_. Inr hub_card)) sid = Some ''org''"
  by (simp add: hubPeerOrg_def hub_card_def extractPeerURL_def unmarshal_def any_map_def mget_def as_str_def res_wrap_def
      trim_right_def trim_both_def HubPeerScheme_def has_prefix_def trim_prefix_def)

lemma hub_end_to_end_witness:
  "hub_Deliver demo_read (Some open_link) ''me'' (\<lambda>_ w. ((None, None), w)) (Some (\<lambda>_. Inr hub_card)) demo_message []
     = ((Some (with_prefix ''peer'' demo_task), None), [demo_message\<lparr>m_ContextID := ''worker''\<rparr>])"
proof -
  let ?m = "demo_message\<lparr>m_ContextID := ''worker''\<rparr>"
  have ne: "demo_reply \<noteq> demo_request"
    by (simp add: demo_reply_def demo_request_def task_reply_def send_envelope_def)
  have r: "fst (makeRPCHandler demo_peer (RawJson (send_envelope ''hub-'' ?m)) []) = demo_reply"
    by (simp add: handler_serves demo_peer_def demo_reply_def demo_message_def)
  have "hub_Deliver demo_read (Some open_link) ''me'' (\<lambda>_ w. ((None, None), w)) (Some (\<lambda>_. Inr hub_card)) demo_message []
     = (case None of None \<Rightarrow> ((Some (with_prefix ''peer'' demo_task), None), [?m])
        | Some e \<Rightarrow> let fault = ''peer rpc error '' @ show_int ErrCodeInternalError @ '': deliver: '' @ e in
         ((Some (failure_task ''hub-failed-'' demo_message (''hub-relay to '' @ ''org'' @ '': '' @ fault)), Some fault), [?m]))"
  proof (rule hub_end_to_end [OF demo_address _ hub_card_org, where peer = demo_peer and parse = demo_read
        and render = demo_show and t = demo_task and err = None and ?w1.0 = "[]"])
    show "transmits demo_read demo_show (send_envelope ''hub-'' ?m)"
      by (simp add: transmits_def demo_read_def demo_show_def demo_request_def)
    show "transmits demo_read demo_show (fst (makeRPCHandler demo_peer (RawJson (send_envelope ''hub-'' ?m)) []))"
      using ne unfolding r by (simp add: transmits_def demo_read_def demo_show_def)
  qed (simp_all add: open_link_def demo_peer_def)
  then show ?thesis by simp
qed

end
