(* ===== verification/Federation_Discovery.thy ===== *)
theory Federation_Discovery
  imports Federation_Delivery Peer_Registry "HOL-Library.List_Lexorder" "HOL-Library.Char_ord"
begin

text \<open>
  How peers become known (\<open>internal/federation\<close>): the orchestrator of announcements (\<open>federation.go\<close>), the hosted
  registry (\<open>discoverer_registry.go\<close>), the hub directory (\<open>hub_discovery.go\<close>) and the card table they write
  (\<open>persistence/sqlite/agent_cards.go\<close>). What the network answers and the driver's failures are arguments.
\<close>

section \<open>The card table\<close>

type_synonym card_table = "(string \<times> agent_card) list"

definition card_Get :: "go_error option \<Rightarrow> card_table \<Rightarrow> string \<Rightarrow> agent_card result" where
  "card_Get drv tbl sid =
     (if sid = [] then Inl ''sqlite AgentCardRepository: empty SID''
      else case drv of
        Some e \<Rightarrow> Inl (''sqlite agent_cards Get '' @ quote sid @ '': '' @ e)
      | None \<Rightarrow> (case map_of tbl sid of
          None \<Rightarrow> Inl (''sqlite agent_cards Get '' @ quote sid @ '': not found'')
        | Some c \<Rightarrow> Inr c))"

definition card_Save :: "go_error option \<Rightarrow> time \<Rightarrow> agent_card option \<Rightarrow> card_table \<Rightarrow> go_error option \<times> card_table" where
  "card_Save drv now c0 tbl =
     (case c0 of
        None \<Rightarrow> (Some ''sqlite AgentCardRepository: nil card'', tbl)
      | Some c \<Rightarrow>
          if cd_SID c = [] then (Some ''sqlite AgentCardRepository: empty SID'', tbl)
          else if cd_Name c = [] then (Some ''sqlite AgentCardRepository: empty Name'', tbl)
          else if cd_Body c = RawEmpty then (Some ''sqlite AgentCardRepository: empty Body'', tbl)
          else case drv of
            Some e \<Rightarrow> (Some (''sqlite agent_cards Save '' @ quote (cd_SID c) @ '': '' @ e), tbl)
          | None \<Rightarrow> (None, AList.update (cd_SID c) (c\<lparr>cd_UpdatedAt := now\<rparr>) tbl))"

definition card_Delete :: "go_error option \<Rightarrow> string \<Rightarrow> card_table \<Rightarrow> go_error option \<times> card_table" where
  "card_Delete drv sid tbl =
     (if sid = [] then (Some ''sqlite AgentCardRepository: empty SID'', tbl)
      else case drv of
        Some e \<Rightarrow> (Some (''sqlite agent_cards Delete '' @ quote sid @ '': '' @ e), tbl)
      | None \<Rightarrow> (None, AList.delete sid tbl))"

text \<open>\<open>like\<close> is the database's pattern match of a word in a body.\<close>

definition card_List ::
    "(string \<Rightarrow> raw \<Rightarrow> bool) \<Rightarrow> go_error option \<Rightarrow> bool \<Rightarrow> string \<Rightarrow> string \<Rightarrow> card_table \<Rightarrow> agent_card list result" where
  "card_List like drv publicOnly capability tag tbl =
     (case drv of
        Some e \<Rightarrow> Inl (''sqlite agent_cards List: '' @ e)
      | None \<Rightarrow>
          res_mapM (card_Get None tbl)
            (sort (map fst (filter (\<lambda>(_, c). (publicOnly \<longrightarrow> cd_PublicVisibility c) \<and>
               (capability \<noteq> [] \<longrightarrow> like capability (cd_Body c)) \<and> (tag \<noteq> [] \<longrightarrow> like tag (cd_Body c))) tbl))))"

section \<open>Announcements\<close>

record announcement =
  pa_SID :: string
  pa_URL :: string
  pa_Source :: string

definition refreshAfter :: int where "refreshAfter = 5 * minute"

text \<open>One announcement read by the orchestrator at \<open>now\<close>: whether the card is fetched, and the map \<open>seen\<close>.\<close>

definition orchestrate :: "time \<Rightarrow> announcement \<Rightarrow> (string \<rightharpoonup> time) \<Rightarrow> bool \<times> (string \<rightharpoonup> time)" where
  "orchestrate now ann seen =
     (if pa_SID ann = [] \<or> pa_URL ann = [] then (False, seen)
      else case seen (pa_SID ann) of
        Some prev \<Rightarrow> if now - prev < refreshAfter then (False, seen) else (True, seen(pa_SID ann \<mapsto> now))
      | None \<Rightarrow> (True, seen(pa_SID ann \<mapsto> now)))"

fun fetches :: "(time \<times> announcement) list \<Rightarrow> (string \<rightharpoonup> time) \<Rightarrow> (time \<times> announcement) list" where
  "fetches [] seen = []"
| "fetches ((now, ann) # xs) seen =
     (case orchestrate now ann seen of (go, seen') \<Rightarrow> (if go then [(now, ann)] else []) @ fetches xs seen')"

text \<open>What the request gave: a transport error, or a status and a body.\<close>

type_synonym web_reply = "go_error + int \<times> raw"

definition card_url :: "announcement \<Rightarrow> string" where
  "card_url ann = trim_right CHR ''/'' (pa_URL ann) @ ''/.well-known/agent-card.json''"

definition fetchAndPersist ::
    "(string \<Rightarrow> web_reply) \<Rightarrow> go_error option \<Rightarrow> time \<Rightarrow> announcement \<Rightarrow> card_table \<Rightarrow> card_table" where
  "fetchAndPersist get drv now ann tbl =
     (case get (card_url ann) of
        Inl _ \<Rightarrow> tbl
      | Inr (status, body) \<Rightarrow>
          if status < 200 \<or> 300 \<le> status then tbl
          else case unmarshal any_map body of
            Inl _ \<Rightarrow> tbl
          | Inr m \<Rightarrow>
              let nm = as_str (mget ''name'' m) in
              snd (card_Save drv now (Some
                \<lparr>cd_SID = pa_SID ann, cd_Name = (if nm = [] then pa_SID ann else nm),
                 cd_Body = RawJson (if body = RawJson JNull then JNull else JObj m),
                 cd_PublicVisibility = (pa_Source ann = ''hosted-registry''), cd_SyncedAt = now, cd_UpdatedAt = 0\<rparr>) tbl))"

section \<open>The hosted registry\<close>

definition channelCap :: nat where "channelCap = 64"

definition dec_registry_peer :: "json \<Rightarrow> (string \<times> string) result" where
  "dec_registry_peer j0 = res_bind (struct_ok ''federation.registryPeer'' j0) (\<lambda>j.
     res_bind (get_str ''sid'' j) (\<lambda>s. res_bind (get_str ''url'' j) (\<lambda>u. Inr (s, u))))"

definition dec_registry :: "json \<Rightarrow> (string \<times> string) list result" where
  "dec_registry j0 = res_bind (struct_ok ''federation.registryPeersResponse'' j0) (get_list dec_registry_peer ''peers'')"

text \<open>A full channel drops the announcement.\<close>

definition offer_announcement :: "announcement \<Rightarrow> announcement list \<Rightarrow> announcement list" where
  "offer_announcement a q = (if length q < channelCap then q @ [a] else q)"

definition pollOnce :: "string \<Rightarrow> web_reply \<Rightarrow> announcement list \<Rightarrow> announcement list" where
  "pollOnce self web q =
     (case web of
        Inl _ \<Rightarrow> q
      | Inr (status, body) \<Rightarrow>
          if status \<noteq> 200 then q
          else case unmarshal dec_registry body of
            Inl _ \<Rightarrow> q
          | Inr ps \<Rightarrow>
              fold (\<lambda>(s, u) q. if s = [] \<or> u = [] \<or> s = self then q
                  else offer_announcement \<lparr>pa_SID = s, pa_URL = u, pa_Source = ''hosted-registry''\<rparr> q) ps q)"

text \<open>The announcement this daemon posts, when it has a name and an address.\<close>

definition announceOnce :: "string \<Rightarrow> string \<Rightarrow> string \<Rightarrow> (string \<times> json) option" where
  "announceOnce registryURL self url =
     (if self = [] \<or> url = [] then None
      else Some (trim_right CHR ''/'' registryURL @ ''/announce'', JObj [(''sid'', JStr self), (''url'', JStr url)]))"

section \<open>The hub directory\<close>

record hub_peer =
  hp_OrgID :: string
  hp_Card :: raw

definition dec_hub_peer :: "(string \<Rightarrow> time result) \<Rightarrow> json \<Rightarrow> hub_peer result" where
  "dec_hub_peer parse_time j0 = res_bind (struct_ok ''federation.hubPeer'' j0) (\<lambda>j.
     res_bind (get_str ''orgId'' j) (\<lambda>g.
     res_bind (case jget ''lastSeen'' j of None \<Rightarrow> Inr 0 | Some (JStr s) \<Rightarrow> parse_time s
        | Some _ \<Rightarrow> Inl ''Time.UnmarshalJSON: input is not a JSON string'') (\<lambda>_.
     Inr \<lparr>hp_OrgID = g, hp_Card = raw_field ''card'' j\<rparr>)))"

definition dec_hub_peers :: "(string \<Rightarrow> time result) \<Rightarrow> json \<Rightarrow> hub_peer list result" where
  "dec_hub_peers parse_time j0 =
     res_bind (struct_ok ''federation.hubPeersResponse'' j0) (get_list (dec_hub_peer parse_time) ''peers'')"

definition rewriteCardURL :: "raw \<Rightarrow> string \<Rightarrow> json" where
  "rewriteCardURL body newURL =
     (case body of
        RawJson (JObj fs) \<Rightarrow> JObj (filter (\<lambda>(k, _). k \<noteq> ''url'') fs @ [(''url'', JStr newURL)])
      | _ \<Rightarrow> JObj [(''url'', JStr newURL)])"

definition cardName :: "json \<Rightarrow> string \<Rightarrow> string" where
  "cardName j fallback =
     (case res_bind (struct_ok ''struct'' j) (get_str ''name'') of
        Inr nm \<Rightarrow> if nm = [] then fallback else nm | Inl _ \<Rightarrow> fallback)"

text \<open>Either sink may be missing.\<close>

definition upsertPeer ::
    "go_error option \<Rightarrow> time \<Rightarrow> string \<Rightarrow> hub_peer \<Rightarrow> card_table option \<times> peer_registry option
       \<Rightarrow> card_table option \<times> peer_registry option" where
  "upsertPeer drv now team p sinks =
     (let hubURL = HubPeerScheme @ hp_OrgID p; body = rewriteCardURL (hp_Card p) hubURL in
      (map_option (\<lambda>tbl. snd (card_Save drv now (Some
         \<lparr>cd_SID = hp_OrgID p, cd_Name = cardName body (hp_OrgID p), cd_Body = RawJson body,
          cd_PublicVisibility = False, cd_SyncedAt = now, cd_UpdatedAt = 0\<rparr>) tbl)) (fst sinks),
       map_option (\<lambda>r. snd (peer_Register (hp_OrgID p) team hubURL hubURL now r)) (snd sinks)))"

definition pollPeers ::
    "(string \<Rightarrow> time result) \<Rightarrow> go_error option \<Rightarrow> time \<Rightarrow> string \<Rightarrow> string \<Rightarrow> web_reply
       \<Rightarrow> card_table option \<times> peer_registry option \<Rightarrow> card_table option \<times> peer_registry option" where
  "pollPeers parse_time drv now self team web sinks =
     (case web of
        Inl _ \<Rightarrow> sinks
      | Inr (status, body) \<Rightarrow>
          if status < 200 \<or> 300 \<le> status then sinks
          else case unmarshal (dec_hub_peers parse_time) body of
            Inl _ \<Rightarrow> sinks
          | Inr ps \<Rightarrow>
              fold (upsertPeer drv now team) (filter (\<lambda>p. hp_OrgID p \<noteq> [] \<and> hp_OrgID p \<noteq> self) ps) sinks)"

section \<open>How often a card is fetched\<close>

lemma fetches_after:
  "(t, a) \<in> set (fetches xs seen) \<Longrightarrow> seen (pa_SID a) = Some l \<Longrightarrow> l + refreshAfter \<le> t"
proof (induction xs arbitrary: seen l)
  case (Cons x xs)
  obtain now ann where x: "x = (now, ann)" by fastforce
  obtain go seen' where o: "orchestrate now ann seen = (go, seen')" by fastforce
  show ?case
  proof (cases "go \<and> (t, a) = (now, ann)")
    case True
    then show ?thesis using o Cons.prems(2) by (auto simp: orchestrate_def split: if_splits option.splits)
  next
    case False
    then have rest: "(t, a) \<in> set (fetches xs seen')" using Cons.prems(1) o by (auto simp: x split: if_splits)
    show ?thesis
    proof (cases "go \<and> pa_SID ann = pa_SID a")
      case True
      then have "seen' (pa_SID a) = Some now" "l + refreshAfter \<le> now"
        using o Cons.prems(2) by (auto simp: orchestrate_def split: if_splits option.splits)
      then show ?thesis using Cons.IH [OF rest] by (fastforce simp: refreshAfter_def minute_def)
    next
      case False
      then have "seen' (pa_SID a) = Some l" using o Cons.prems(2) by (auto simp: orchestrate_def split: if_splits option.splits)
      then show ?thesis by (rule Cons.IH [OF rest])
    qed
  qed
qed simp

text \<open>whatever is announced, and whether the fetches succeed or not, the card of a peer is fetched at most once
  in five minutes, and never for an announcement without a name or an address.\<close>

theorem card_fetches_spaced:
  "sorted_wrt (\<lambda>(t, a) (t', a'). pa_SID a = pa_SID a' \<longrightarrow> t + refreshAfter \<le> t') (fetches xs seen)
   \<and> (\<forall>(t, a) \<in> set (fetches xs seen). pa_SID a \<noteq> [] \<and> pa_URL a \<noteq> [])"
proof (induction xs arbitrary: seen)
  case (Cons x xs)
  obtain now ann where x: "x = (now, ann)" by fastforce
  obtain go seen' where o: "orchestrate now ann seen = (go, seen')" by fastforce
  have "t + 0 = t" for t :: int by simp
  have later: "go \<Longrightarrow> (t, a) \<in> set (fetches xs seen') \<Longrightarrow> pa_SID ann = pa_SID a \<Longrightarrow> now + refreshAfter \<le> t" for t a
    using o by (intro fetches_after [of t a xs seen' now]) (auto simp: orchestrate_def split: if_splits option.splits)
  have "go \<Longrightarrow> pa_SID ann \<noteq> [] \<and> pa_URL ann \<noteq> []" using o by (auto simp: orchestrate_def split: if_splits)
  then show ?case using Cons.IH [of seen'] later by (auto simp: x o)
qed simp

text \<open>On two announcements a minute apart.\<close>

lemma card_fetches_spaced_witness:
  "length (fetches [(0, \<lparr>pa_SID = ''p'', pa_URL = ''u'', pa_Source = ''s''\<rparr>),
      (minute, \<lparr>pa_SID = ''p'', pa_URL = ''u'', pa_Source = ''s''\<rparr>)] (\<lambda>_. None)) = 1"
  using card_fetches_spaced [of "[(0, \<lparr>pa_SID = ''p'', pa_URL = ''u'', pa_Source = ''s''\<rparr>),
      (minute, \<lparr>pa_SID = ''p'', pa_URL = ''u'', pa_Source = ''s''\<rparr>)]" "\<lambda>_. None"]
  by (simp add: orchestrate_def refreshAfter_def minute_def)

section \<open>Routes to hub peers\<close>

text \<open>An organisation whose name is not changed by trimming slashes.\<close>

definition plain_org :: "string \<Rightarrow> bool" where
  "plain_org g \<longleftrightarrow> g \<noteq> [] \<and> hd g \<noteq> CHR ''/'' \<and> last g \<noteq> CHR ''/''"

definition hub_routed :: "string \<Rightarrow> card_table \<Rightarrow> bool" where
  "hub_routed g tbl \<longleftrightarrow> (\<exists>c. map_of tbl g = Some c \<and> extractPeerURL (Some c) = Inr (HubPeerScheme @ g))"

lemma trim_right_end: "last (x # xs) \<noteq> c \<Longrightarrow> trim_right c (x # xs) = x # xs"
proof -
  assume l: "last (x # xs) \<noteq> c"
  have "rev (x # xs) = last (x # xs) # rev (butlast (x # xs))" by (metis append_butlast_last_id list.distinct(1) rev.simps(2) rev_rev_ident)
  then have "dropWhile (\<lambda>y. y = c) (rev (x # xs)) = rev (x # xs)" using l by simp
  then show ?thesis by (simp only: trim_right_def rev_rev_ident)
qed

lemma trim_plain:
  assumes "plain_org g"
  shows "trim_right CHR ''/'' (HubPeerScheme @ g) = HubPeerScheme @ g" "trim_both CHR ''/'' g = g"
proof -
  have "last (HubPeerScheme @ g) \<noteq> CHR ''/''" using assms by (simp add: plain_org_def)
  then show "trim_right CHR ''/'' (HubPeerScheme @ g) = HubPeerScheme @ g"
    using trim_right_end by (simp add: HubPeerScheme_def)
  obtain x xs where g: "g = x # xs" using assms by (cases g) (auto simp: plain_org_def)
  then show "trim_both CHR ''/'' g = g"
    using assms trim_right_end [of x xs] by (simp add: trim_both_def plain_org_def)
qed

lemma hub_routed_org:
  assumes "hub_routed g tbl" "plain_org g"
  shows "hubPeerOrg (Some (card_Get None tbl)) g = Some g"
  using assms trim_plain(2) [OF assms(2)]
  by (auto simp: hub_routed_def hubPeerOrg_def card_Get_def plain_org_def)

lemma rewritten_url: "extractPeerURL (Some \<lparr>cd_SID = i, cd_Name = n, cd_Body = RawJson (rewriteCardURL b u),
    cd_PublicVisibility = v, cd_SyncedAt = t, cd_UpdatedAt = t'\<rparr>) =
  (if u = [] then Inl (''federation: AgentCard '' @ quote i @ '' missing `url` field'') else Inr (trim_right CHR ''/'' u))"
proof -
  have "\<exists>fs. rewriteCardURL b u = JObj (fs @ [(''url'', JStr u)])"
    by (cases b rule: raw.exhaust) (auto simp: rewriteCardURL_def split: json.split)
  then show ?thesis
    by (auto simp: extractPeerURL_def unmarshal_def any_map_def mget_def as_str_def res_wrap_def)
qed

lemma cardName_nonempty: "fallback \<noteq> [] \<Longrightarrow> cardName j fallback \<noteq> []"
  by (simp add: cardName_def split: sum.split)

lemma upsert_routes:
  assumes "fst sinks = Some tbl" "hp_OrgID p \<noteq> []"
  shows "\<exists>tbl'. fst (upsertPeer None now team p sinks) = Some tbl' \<and>
    (\<forall>g. hub_routed g tbl \<longrightarrow> plain_org g \<longrightarrow> hub_routed g tbl') \<and> (plain_org (hp_OrgID p) \<longrightarrow> hub_routed (hp_OrgID p) tbl')"
proof -
  let ?g = "hp_OrgID p"
  let ?b = "rewriteCardURL (hp_Card p) (HubPeerScheme @ ?g)"
  let ?c = "\<lparr>cd_SID = ?g, cd_Name = cardName ?b ?g, cd_Body = RawJson ?b, cd_PublicVisibility = False,
    cd_SyncedAt = now, cd_UpdatedAt = now\<rparr>"
  have tbl: "fst (upsertPeer None now team p sinks) = Some (AList.update ?g ?c tbl)"
    using assms cardName_nonempty [OF assms(2)] by (simp add: upsertPeer_def card_Save_def Let_def)
  have "plain_org ?g \<Longrightarrow> hub_routed ?g (AList.update ?g ?c tbl)"
    using trim_plain(1) [of ?g] by (simp add: hub_routed_def rewritten_url HubPeerScheme_def)
  then show ?thesis using tbl by (auto simp: hub_routed_def)
qed

lemma upserts_route:
  assumes "fst sinks = Some tbl" "\<forall>p \<in> set ps. hp_OrgID p \<noteq> []"
  shows "\<exists>tbl'. fst (fold (upsertPeer None now team) ps sinks) = Some tbl' \<and>
    (\<forall>g. hub_routed g tbl \<longrightarrow> plain_org g \<longrightarrow> hub_routed g tbl') \<and>
    (\<forall>p \<in> set ps. plain_org (hp_OrgID p) \<longrightarrow> hub_routed (hp_OrgID p) tbl')"
  using assms
proof (induction ps arbitrary: sinks tbl)
  case (Cons p ps)
  obtain tbl1 where t1: "fst (upsertPeer None now team p sinks) = Some tbl1"
    "\<And>g. hub_routed g tbl \<Longrightarrow> plain_org g \<Longrightarrow> hub_routed g tbl1" "plain_org (hp_OrgID p) \<Longrightarrow> hub_routed (hp_OrgID p) tbl1"
    using upsert_routes [OF Cons.prems(1), of p now team] Cons.prems(2) by auto
  obtain tbl' where t': "fst (fold (upsertPeer None now team) ps (upsertPeer None now team p sinks)) = Some tbl'"
    "\<And>g. hub_routed g tbl1 \<Longrightarrow> plain_org g \<Longrightarrow> hub_routed g tbl'"
    "\<forall>q \<in> set ps. plain_org (hp_OrgID q) \<longrightarrow> hub_routed (hp_OrgID q) tbl'"
    using Cons.IH [OF t1(1)] Cons.prems(2) by auto
  then show ?case using t1 by auto
qed simp

text \<open>after a poll of the hub directory every listed organisation is routed over the hub under its own name,
  whatever address its card gives, so a message to it is sent on a channel to that organisation.\<close>

theorem hub_peers_routed:
  assumes "unmarshal (dec_hub_peers parse_time) body = Inr ps" "p \<in> set ps" "hp_OrgID p \<noteq> self" "plain_org (hp_OrgID p)"
    and "200 \<le> status" "status < 300"
  shows "\<exists>tbl'. fst (pollPeers parse_time None now self team (Inr (status, body)) (Some tbl, peers)) = Some tbl'
    \<and> hubPeerOrg (Some (card_Get None tbl')) (hp_OrgID p) = Some (hp_OrgID p)"
proof -
  let ?ps = "filter (\<lambda>p. hp_OrgID p \<noteq> [] \<and> hp_OrgID p \<noteq> self) ps"
  have "p \<in> set ?ps" using assms(2-4) by (simp add: plain_org_def)
  moreover obtain tbl' where "fst (fold (upsertPeer None now team) ?ps (Some tbl, peers)) = Some tbl'"
    "\<forall>q \<in> set ?ps. plain_org (hp_OrgID q) \<longrightarrow> hub_routed (hp_OrgID q) tbl'"
    using upserts_route [of "(Some tbl, peers)" tbl ?ps now team] by auto
  ultimately have "fst (pollPeers parse_time None now self team (Inr (status, body)) (Some tbl, peers)) = Some tbl'"
    "hub_routed (hp_OrgID p) tbl'"
    using assms(1,4-6) by (simp_all add: pollPeers_def)
  then show ?thesis using hub_routed_org [OF _ assms(4)] by blast
qed

text \<open>C41 with one listed organisation that claims an HTTP address.\<close>

lemma hub_peers_routed_witness:
  "\<exists>tbl'. fst (pollPeers (\<lambda>_. Inr 0) None 5 ''me'' ''team'' (Inr (200, RawJson (JObj [(''peers'', JArr [JObj [(''orgId'', JStr ''org''),
      (''card'', JObj [(''url'', JStr ''https://elsewhere'')])]])]))) (Some [], None)) = Some tbl'
    \<and> hubPeerOrg (Some (card_Get None tbl')) ''org'' = Some ''org''"
proof -
  let ?p = "\<lparr>hp_OrgID = ''org'', hp_Card = RawJson (JObj [(''url'', JStr ''https://elsewhere'')])\<rparr>"
  have "unmarshal (dec_hub_peers (\<lambda>_. Inr 0)) (RawJson (JObj [(''peers'', JArr [JObj [(''orgId'', JStr ''org''),
      (''card'', JObj [(''url'', JStr ''https://elsewhere'')])]])])) = Inr [?p]"
    by (simp add: unmarshal_def dec_hub_peers_def dec_hub_peer_def get_list_def jget_def get_str_def raw_field_def
        get_raw_def fold_eq_eval struct_ok_def)
  from hub_peers_routed [OF this, of ?p "''me''" 200 5 "''team''" "[]" None] show ?thesis
    by (simp add: plain_org_def)
qed

text \<open>
  The hosted registry writes to the same table: whoever lists a card under the name of a hub peer takes its
  messages, until the next poll of the hub.
\<close>

lemma registry_takes_over:
  assumes "pa_SID ann = g" "g \<noteq> []" "get (card_url ann) = Inr (200, RawJson (JObj [(''url'', JStr ''https://other'')]))"
  shows "hubPeerOrg (Some (card_Get None (fetchAndPersist get None now ann tbl))) g = None"
  using assms
  by (simp add: fetchAndPersist_def unmarshal_def any_map_def card_Save_def card_Get_def hubPeerOrg_def extractPeerURL_def
      mget_def as_str_def res_wrap_def trim_right_def HubPeerScheme_def has_prefix_def)

end
