(* ===== verification/Channel_Store.thy ===== *)
theory Channel_Store
  imports Go_Json Go_Map "HOL-Library.List_Lexorder" "HOL-Library.Char_ord"
begin

text \<open>
  The repository of team channels, their members and their messages:
  \<open>internal/persistence/sqlite/channels.go\<close> and its mirror \<open>internal/persistence/postgres/channels.go\<close>, which
  run the same statements and differ in the backend's name in their errors. The tables are those of
  \<open>migrate/006_channels.sqlite.sql\<close>, with their primary keys, the unique channel name, the foreign keys
  and the cascading delete. A statement that fails is an argument; a violated constraint is reported with
  the driver's text. Mentions are a JSON column.
\<close>

section \<open>Tables\<close>

record channel =
  ch_ID :: string
  ch_Name :: string
  ch_Kind :: string
  ch_CreatedBy :: string
  ch_CreatedAt :: time
  ch_Visibility :: string

record channel_member =
  cm_ChannelID :: string
  cm_Member :: string
  cm_JoinedAt :: time

record channel_message =
  cg_ID :: string
  cg_ChannelID :: string
  cg_Author :: string
  cg_Body :: string
  cg_Mentions :: "string list"
  cg_TaskID :: string
  cg_CreatedAt :: time

text \<open>A stored message keeps its mentions as text.\<close>

record message_row =
  mr_ID :: string
  mr_ChannelID :: string
  mr_Author :: string
  mr_Body :: string
  mr_Mentions :: raw
  mr_TaskID :: string
  mr_CreatedAt :: time

record channel_db =
  cd_channels :: "channel list"
  cd_members :: "channel_member list"
  cd_messages :: "message_row list"

record driver =
  dr_name :: string
  dr_err :: "go_error option"
  dr_violation :: go_error

definition empty_db :: channel_db where
  "empty_db = \<lparr>cd_channels = [], cd_members = [], cd_messages = []\<rparr>"

section \<open>Operations\<close>

definition channel_Get :: "driver \<Rightarrow> channel_db \<Rightarrow> string \<Rightarrow> channel result" where
  "channel_Get d db i =
     (if i = [] then Inl (dr_name d @ '' ChannelRepository: empty id'')
      else case dr_err d of
        Some e \<Rightarrow> Inl (dr_name d @ '' channels Get '' @ quote i @ '': '' @ e)
      | None \<Rightarrow> (case row_get ch_ID i (cd_channels db) of
          None \<Rightarrow> Inl (dr_name d @ '' channels Get '' @ quote i @ '': not found'') | Some c \<Rightarrow> Inr c))"

definition channel_GetByName :: "driver \<Rightarrow> channel_db \<Rightarrow> string \<Rightarrow> channel result" where
  "channel_GetByName d db nm =
     (if nm = [] then Inl (dr_name d @ '' ChannelRepository: empty name'')
      else case dr_err d of
        Some e \<Rightarrow> Inl (dr_name d @ '' channels GetByName '' @ quote nm @ '': '' @ e)
      | None \<Rightarrow> (case row_get ch_Name nm (cd_channels db) of
          None \<Rightarrow> Inl (dr_name d @ '' channels GetByName '' @ quote nm @ '': not found'') | Some c \<Rightarrow> Inr c))"

definition channel_List :: "driver \<Rightarrow> channel_db \<Rightarrow> channel list result" where
  "channel_List d db =
     (case dr_err d of
        Some e \<Rightarrow> Inl (dr_name d @ '' channels List: '' @ e)
      | None \<Rightarrow> Inr (sort_key (\<lambda>c. - ch_CreatedAt c) (cd_channels db)))"

definition name_taken :: "channel \<Rightarrow> channel_db \<Rightarrow> bool" where
  "name_taken c db \<longleftrightarrow> (\<exists>x \<in> set (cd_channels db). ch_Name x = ch_Name c \<and> ch_ID x \<noteq> ch_ID c)"

definition channel_Save :: "driver \<Rightarrow> channel option \<Rightarrow> channel_db \<Rightarrow> go_error option \<times> channel_db" where
  "channel_Save d cp db =
     (case cp of
        None \<Rightarrow> (Some (dr_name d @ '' ChannelRepository.Save: id and name required''), db)
      | Some c \<Rightarrow>
          if ch_ID c = [] \<or> ch_Name c = []
          then (Some (dr_name d @ '' ChannelRepository.Save: id and name required''), db)
          else case dr_err d of
            Some e \<Rightarrow> (Some (dr_name d @ '' channels Save: '' @ e), db)
          | None \<Rightarrow>
              if name_taken c db then (Some (dr_name d @ '' channels Save: '' @ dr_violation d), db)
              else (None, db\<lparr>cd_channels := row_upsert ch_ID (\<lambda>old new. new) c (cd_channels db)\<rparr>))"

text \<open>The foreign keys delete the members and the messages with their channel.\<close>

definition channel_Delete :: "driver \<Rightarrow> string \<Rightarrow> channel_db \<Rightarrow> go_error option \<times> channel_db" where
  "channel_Delete d i db =
     (case dr_err d of
        Some e \<Rightarrow> (Some (dr_name d @ '' channels Delete '' @ quote i @ '': '' @ e), db)
      | None \<Rightarrow> (None, db\<lparr>cd_channels := row_delete ch_ID i (cd_channels db),
                       cd_members := row_delete cm_ChannelID i (cd_members db),
                       cd_messages := row_delete mr_ChannelID i (cd_messages db)\<rparr>))"

definition channel_Members :: "driver \<Rightarrow> channel_db \<Rightarrow> string \<Rightarrow> channel_member list result" where
  "channel_Members d db i =
     (case dr_err d of
        Some e \<Rightarrow> Inl (dr_name d @ '' channel_members list: '' @ e)
      | None \<Rightarrow> Inr (sort_key cm_JoinedAt (filter (\<lambda>m. cm_ChannelID m = i) (cd_members db))))"

definition has_channel :: "channel_db \<Rightarrow> string \<Rightarrow> bool" where
  "has_channel db i \<longleftrightarrow> row_get ch_ID i (cd_channels db) \<noteq> None"

definition member_id :: "channel_member \<Rightarrow> string \<times> string" where
  "member_id m = (cm_ChannelID m, cm_Member m)"

definition channel_AddMember :: "driver \<Rightarrow> channel_member option \<Rightarrow> channel_db \<Rightarrow> go_error option \<times> channel_db" where
  "channel_AddMember d mp db =
     (case mp of
        None \<Rightarrow> (Some (dr_name d @ '' ChannelRepository.AddMember: channel_id and member required''), db)
      | Some m \<Rightarrow>
          if cm_ChannelID m = [] \<or> cm_Member m = []
          then (Some (dr_name d @ '' ChannelRepository.AddMember: channel_id and member required''), db)
          else case dr_err d of
            Some e \<Rightarrow> (Some e, db)
          | None \<Rightarrow>
              if \<not> has_channel db (cm_ChannelID m) then (Some (dr_violation d), db)
              else if row_get member_id (member_id m) (cd_members db) \<noteq> None then (None, db)
              else (None, db\<lparr>cd_members := cd_members db @ [m]\<rparr>))"

definition channel_RemoveMember :: "driver \<Rightarrow> string \<Rightarrow> string \<Rightarrow> channel_db \<Rightarrow> go_error option \<times> channel_db" where
  "channel_RemoveMember d i m db =
     (case dr_err d of
        Some e \<Rightarrow> (Some (dr_name d @ '' channel_members RemoveMember: '' @ e), db)
      | None \<Rightarrow> (None, db\<lparr>cd_members := row_delete member_id (i, m) (cd_members db)\<rparr>))"

definition read_mentions :: "raw \<Rightarrow> string list result" where
  "read_mentions r =
     (if r = RawEmpty \<or> r = RawJson (JArr []) then Inr []
      else unmarshal (\<lambda>j. case j of JArr xs \<Rightarrow> res_mapM dec_str xs | JNull \<Rightarrow> Inr []
             | v \<Rightarrow> Inl (mismatch v ''[]string'')) r)"

definition read_message :: "driver \<Rightarrow> message_row \<Rightarrow> channel_message result" where
  "read_message d r =
     (case read_mentions (mr_Mentions r) of
        Inl e \<Rightarrow> Inl (dr_name d @ '' channel_messages: unmarshal mentions for '' @ mr_ID r @ '': '' @ e)
      | Inr ms \<Rightarrow> Inr \<lparr>cg_ID = mr_ID r, cg_ChannelID = mr_ChannelID r, cg_Author = mr_Author r,
                      cg_Body = mr_Body r, cg_Mentions = ms, cg_TaskID = mr_TaskID r, cg_CreatedAt = mr_CreatedAt r\<rparr>)"

definition message_limit :: "int \<Rightarrow> nat" where
  "message_limit limit = (let l = (if limit \<le> 0 then 50 else limit) in nat (if l > 500 then 500 else l))"

definition channel_Messages :: "driver \<Rightarrow> channel_db \<Rightarrow> string \<Rightarrow> int \<Rightarrow> channel_message list result" where
  "channel_Messages d db i limit =
     (case dr_err d of
        Some e \<Rightarrow> Inl (dr_name d @ '' channel_messages list: '' @ e)
      | None \<Rightarrow> res_mapM (read_message d)
          (take (message_limit limit)
            (sort_key (\<lambda>r. - mr_CreatedAt r) (filter (\<lambda>r. mr_ChannelID r = i) (cd_messages db)))))"

definition message_to_row :: "channel_message \<Rightarrow> message_row" where
  "message_to_row m = \<lparr>mr_ID = cg_ID m, mr_ChannelID = cg_ChannelID m, mr_Author = cg_Author m,
     mr_Body = cg_Body m, mr_Mentions = RawJson (JArr (map JStr (cg_Mentions m))), mr_TaskID = cg_TaskID m,
     mr_CreatedAt = cg_CreatedAt m\<rparr>"

definition channel_SaveMessage :: "driver \<Rightarrow> channel_message option \<Rightarrow> channel_db \<Rightarrow> go_error option \<times> channel_db" where
  "channel_SaveMessage d mp db =
     (case mp of
        None \<Rightarrow> (Some (dr_name d @ '' ChannelRepository.SaveMessage: id, channel_id, author required''), db)
      | Some m \<Rightarrow>
          if cg_ID m = [] \<or> cg_ChannelID m = [] \<or> cg_Author m = []
          then (Some (dr_name d @ '' ChannelRepository.SaveMessage: id, channel_id, author required''), db)
          else case dr_err d of
            Some e \<Rightarrow> (Some (dr_name d @ '' channel_messages save: '' @ e), db)
          | None \<Rightarrow>
              if \<not> has_channel db (cg_ChannelID m) \<or> row_get mr_ID (cg_ID m) (cd_messages db) \<noteq> None
              then (Some (dr_name d @ '' channel_messages save: '' @ dr_violation d), db)
              else (None, db\<lparr>cd_messages := cd_messages db @ [message_to_row m]\<rparr>))"

section \<open>The PostgreSQL mirror\<close>

definition pg :: "driver \<Rightarrow> driver" where "pg d = d\<lparr>dr_name := ''postgres''\<rparr>"

definition pg_channel_Get :: "driver \<Rightarrow> channel_db \<Rightarrow> string \<Rightarrow> channel result" where
  "pg_channel_Get d = channel_Get (pg d)"
definition pg_channel_GetByName :: "driver \<Rightarrow> channel_db \<Rightarrow> string \<Rightarrow> channel result" where
  "pg_channel_GetByName d = channel_GetByName (pg d)"
definition pg_channel_List :: "driver \<Rightarrow> channel_db \<Rightarrow> channel list result" where
  "pg_channel_List d = channel_List (pg d)"
definition pg_channel_Save :: "driver \<Rightarrow> channel option \<Rightarrow> channel_db \<Rightarrow> go_error option \<times> channel_db" where
  "pg_channel_Save d = channel_Save (pg d)"
definition pg_channel_Delete :: "driver \<Rightarrow> string \<Rightarrow> channel_db \<Rightarrow> go_error option \<times> channel_db" where
  "pg_channel_Delete d = channel_Delete (pg d)"
definition pg_channel_Members :: "driver \<Rightarrow> channel_db \<Rightarrow> string \<Rightarrow> channel_member list result" where
  "pg_channel_Members d = channel_Members (pg d)"
definition pg_channel_AddMember :: "driver \<Rightarrow> channel_member option \<Rightarrow> channel_db \<Rightarrow> go_error option \<times> channel_db" where
  "pg_channel_AddMember d = channel_AddMember (pg d)"
definition pg_channel_RemoveMember :: "driver \<Rightarrow> string \<Rightarrow> string \<Rightarrow> channel_db \<Rightarrow> go_error option \<times> channel_db" where
  "pg_channel_RemoveMember d = channel_RemoveMember (pg d)"
definition pg_channel_Messages :: "driver \<Rightarrow> channel_db \<Rightarrow> string \<Rightarrow> int \<Rightarrow> channel_message list result" where
  "pg_channel_Messages d = channel_Messages (pg d)"
definition pg_channel_SaveMessage :: "driver \<Rightarrow> channel_message option \<Rightarrow> channel_db \<Rightarrow> go_error option \<times> channel_db" where
  "pg_channel_SaveMessage d = channel_SaveMessage (pg d)"

lemmas pg_channel_defs = pg_channel_Get_def pg_channel_GetByName_def pg_channel_List_def pg_channel_Save_def
  pg_channel_Delete_def pg_channel_Members_def pg_channel_AddMember_def pg_channel_RemoveMember_def
  pg_channel_Messages_def pg_channel_SaveMessage_def pg_def

section \<open>Integrity\<close>

definition channel_keys :: "channel_db \<Rightarrow> bool" where
  "channel_keys db \<longleftrightarrow> keys_distinct ch_ID (cd_channels db) \<and> keys_distinct ch_Name (cd_channels db)
     \<and> keys_distinct member_id (cd_members db) \<and> keys_distinct mr_ID (cd_messages db)"

definition channel_refs :: "channel_db \<Rightarrow> bool" where
  "channel_refs db \<longleftrightarrow> cm_ChannelID ` set (cd_members db) \<subseteq> ch_ID ` set (cd_channels db)
     \<and> mr_ChannelID ` set (cd_messages db) \<subseteq> ch_ID ` set (cd_channels db) \<and> [] \<notin> ch_ID ` set (cd_channels db)"

definition channel_db_ok :: "channel_db \<Rightarrow> bool" where
  "channel_db_ok db \<longleftrightarrow> channel_keys db \<and> channel_refs db"

lemma has_channel_iff: "has_channel db i \<longleftrightarrow> i \<in> ch_ID ` set (cd_channels db)"
  unfolding has_channel_def using row_get_None_iff [of ch_ID i "cd_channels db"] by auto

lemma keys_distinct_snoc:
  "keys_distinct key (rows @ [r]) \<longleftrightarrow> keys_distinct key rows \<and> row_get key (key r) rows = None"
  by (auto simp: keys_distinct_def row_get_None_iff)


lemma upsert_names:
  assumes "keys_distinct ch_ID cs" "keys_distinct ch_Name cs"
    and "\<And>x. x \<in> set cs \<Longrightarrow> ch_Name x = ch_Name c \<Longrightarrow> ch_ID x = ch_ID c"
  shows "keys_distinct ch_Name (row_upsert ch_ID (\<lambda>old new. new) c cs)"
  using assms
proof (induction cs)
  case (Cons x xs)
  show ?case
  proof (cases "ch_ID x = ch_ID c")
    case True
    have "ch_Name c \<notin> ch_Name ` set xs"
    proof
      assume "ch_Name c \<in> ch_Name ` set xs"
      then obtain y where y: "y \<in> set xs" "ch_Name y = ch_Name c" by auto
      then have "ch_ID y = ch_ID x" using Cons.prems(3) [of y] True by simp
      then have "ch_ID x \<in> ch_ID ` set xs" using y(1) by (metis image_eqI)
      then show False using Cons.prems(1) by (simp add: keys_distinct_def)
    qed
    then show ?thesis using True Cons.prems(2) by (simp add: keys_distinct_def)
  next
    case False
    have sub: "set (row_upsert ch_ID (\<lambda>old new. new) c xs) \<subseteq> insert c (set xs)" by (induction xs) auto
    have "ch_Name x \<noteq> ch_Name c" using Cons.prems(3) [of x] False by auto
    then have "ch_Name x \<notin> ch_Name ` set (row_upsert ch_ID (\<lambda>old new. new) c xs)"
      using sub Cons.prems(2) by (auto simp: keys_distinct_def)
    moreover have "keys_distinct ch_Name (row_upsert ch_ID (\<lambda>old new. new) c xs)"
      using Cons by (auto simp: keys_distinct_def)
    ultimately show ?thesis using False by (simp add: keys_distinct_def)
  qed
qed (simp add: keys_distinct_def)

lemma channel_Save_ok: "channel_db_ok db \<Longrightarrow> channel_db_ok (snd (channel_Save d cp db))"
  using upsert_names [of "cd_channels db" "the cp"] upsert_keys [of ch_ID "the cp" "\<lambda>old new. new" "cd_channels db"]
    upsert_distinct [of ch_ID "the cp" "\<lambda>old new. new" "cd_channels db"]
  by (cases cp) (auto simp: channel_Save_def channel_db_ok_def channel_keys_def channel_refs_def name_taken_def
      split: option.splits)

lemma delete_keys: "key ` set (row_delete key k rows) = key ` set rows - {k}"
  by (auto simp: row_delete_def)

lemma delete_subset: "set (row_delete key k rows) \<subseteq> set rows"
  by (auto simp: row_delete_def)

lemma distinct_rows: "keys_distinct key rows \<Longrightarrow> keys_distinct key (filter P rows)"
  by (auto simp: keys_distinct_def distinct_map intro: inj_on_subset)

lemma channel_Delete_ok: "channel_db_ok db \<Longrightarrow> channel_db_ok (snd (channel_Delete d i db))"
  by (auto simp: channel_Delete_def channel_db_ok_def channel_keys_def channel_refs_def distinct_rows
      row_delete_def split: option.splits)

lemma channel_AddMember_ok: "channel_db_ok db \<Longrightarrow> channel_db_ok (snd (channel_AddMember d mp db))"
  by (cases mp) (auto simp: channel_AddMember_def channel_db_ok_def channel_keys_def channel_refs_def
      keys_distinct_snoc has_channel_iff split: option.splits)

lemma channel_RemoveMember_ok: "channel_db_ok db \<Longrightarrow> channel_db_ok (snd (channel_RemoveMember d i m db))"
  by (auto simp: channel_RemoveMember_def channel_db_ok_def channel_keys_def channel_refs_def distinct_rows
      row_delete_def split: option.splits)

lemma row_key [simp]: "mr_ID (message_to_row m) = cg_ID m" "mr_ChannelID (message_to_row m) = cg_ChannelID m"
  by (simp_all add: message_to_row_def)

lemma channel_SaveMessage_ok: "channel_db_ok db \<Longrightarrow> channel_db_ok (snd (channel_SaveMessage d mp db))"
  by (cases mp) (auto simp: channel_SaveMessage_def channel_db_ok_def channel_keys_def channel_refs_def
      keys_distinct_snoc has_channel_iff split: option.splits)

datatype channel_op =
    OSave "channel option"
  | ODelete string
  | OAdd "channel_member option"
  | ORemove string string
  | OMessage "channel_message option"

fun channel_step :: "driver \<times> channel_op \<Rightarrow> channel_db \<Rightarrow> channel_db" where
  "channel_step (d, OSave c) db = snd (channel_Save d c db)"
| "channel_step (d, ODelete i) db = snd (channel_Delete d i db)"
| "channel_step (d, OAdd m) db = snd (channel_AddMember d m db)"
| "channel_step (d, ORemove i m) db = snd (channel_RemoveMember d i m db)"
| "channel_step (d, OMessage m) db = snd (channel_SaveMessage d m db)"

definition channel_run :: "(driver \<times> channel_op) list \<Rightarrow> channel_db" where
  "channel_run ops = fold channel_step ops empty_db"

lemma channel_step_ok: "channel_db_ok db \<Longrightarrow> channel_db_ok (channel_step x db)"
  by (cases x; cases "snd x")
    (auto simp: channel_Save_ok channel_Delete_ok channel_AddMember_ok channel_RemoveMember_ok channel_SaveMessage_ok)

lemma channel_run_ok: "channel_db_ok (channel_run ops)"
proof -
  have "channel_db_ok db \<Longrightarrow> channel_db_ok (fold channel_step ops db)" for db
    by (induction ops arbitrary: db) (simp_all add: channel_step_ok)
  moreover have "channel_db_ok empty_db"
    by (simp add: channel_db_ok_def channel_keys_def channel_refs_def empty_db_def keys_distinct_def)
  ultimately show ?thesis by (simp add: channel_run_def)
qed

section \<open>Reading back\<close>

lemma mentions_roundtrip [simp]: "read_mentions (RawJson (JArr (map JStr ms))) = Inr ms"
proof (cases ms)
  case (Cons m ms')
  have "res_mapM dec_str (map JStr xs) = Inr xs" for xs by (rule res_mapM_map) (simp add: dec_str_def)
  from this [of ms] show ?thesis by (simp add: read_mentions_def unmarshal_def Cons)
qed (simp add: read_mentions_def)

lemma read_message_to_row [simp]: "read_message d (message_to_row m) = Inr m"
  by (simp add: read_message_def message_to_row_def)

text \<open>Every row was written by \<open>SaveMessage\<close>.\<close>

definition written :: "channel_db \<Rightarrow> channel_message list \<Rightarrow> bool" where
  "written db ms \<longleftrightarrow> cd_messages db = map message_to_row ms"

definition latest_first :: "channel_message list \<Rightarrow> channel_message list" where
  "latest_first ms = sort_key (\<lambda>m. - cg_CreatedAt m) ms"

lemma channel_Messages_written:
  assumes "written db ms" "dr_err d = None"
  shows "channel_Messages d db i limit =
    Inr (take (message_limit limit) (latest_first (filter (\<lambda>m. cg_ChannelID m = i) ms)))"
proof -
  have "res_mapM (read_message d) (map message_to_row xs) = Inr xs" for xs by (rule res_mapM_map) simp
  then show ?thesis
    using assms
    by (simp add: channel_Messages_def written_def filter_map sort_key_map comp_def latest_first_def take_map
        message_to_row_def [abs_def])
qed

text \<open>The two backends change the tables alike.\<close>

lemma pg_step: "channel_step (pg d, x) db = channel_step (d, x) db"
  by (cases x)
    (auto simp: pg_def channel_Save_def channel_Delete_def channel_AddMember_def channel_RemoveMember_def
      channel_SaveMessage_def split: option.splits)

section \<open>Membership\<close>

text \<open>What the roster synchronisation of a team channel relies on.\<close>

locale roster_store =
  fixes known :: "'s \<Rightarrow> string \<Rightarrow> bool"
    and enrolled :: "'s \<Rightarrow> string \<Rightarrow> string \<Rightarrow> bool"
    and enrol :: "string \<Rightarrow> string \<Rightarrow> 's \<Rightarrow> 's"
  assumes known_enrol [simp]: "known (enrol i m s) j = known s j"
    and enrolled_enrol: "known s i \<Longrightarrow> i \<noteq> [] \<Longrightarrow> m \<noteq> [] \<Longrightarrow>
      enrolled (enrol i m s) j x \<longleftrightarrow> (j = i \<and> x = m) \<or> enrolled s j x"
    and enrol_empty: "enrol i [] s = s"
begin

lemma enrol_all:
  assumes "known s i" "i \<noteq> []"
  shows "enrolled (fold (enrol i) ms s) j x \<longleftrightarrow> (j = i \<and> x \<in> set ms \<and> x \<noteq> []) \<or> enrolled s j x"
    and "known (fold (enrol i) ms s) j = known s j"
  using assms
proof (induction ms arbitrary: s)
  case (Cons m ms)
  case 1
  have k: "known (enrol i m s) i" using 1 by simp
  show ?case
    using Cons.IH(1) [OF k 1(2)] enrolled_enrol [OF 1, of m j x] by (cases "m = []") (auto simp: enrol_empty)
  case 2
  show ?case using Cons.IH(2) [of "enrol i m s"] 2 by simp
qed simp_all

end

definition enrolled :: "channel_db \<Rightarrow> string \<Rightarrow> string \<Rightarrow> bool" where
  "enrolled db i m \<longleftrightarrow> row_get member_id (i, m) (cd_members db) \<noteq> None"

definition enrol :: "driver \<Rightarrow> time \<Rightarrow> string \<Rightarrow> string \<Rightarrow> channel_db \<Rightarrow> channel_db" where
  "enrol d now i m db =
     snd (channel_AddMember d (Some \<lparr>cm_ChannelID = i, cm_Member = m, cm_JoinedAt = now\<rparr>) db)"

lemma row_get_snoc:
  "row_get key k (rows @ [r]) = (case row_get key k rows of Some x \<Rightarrow> Some x
     | None \<Rightarrow> if key r = k then Some r else None)"
  by (induction rows) auto

lemma enrol_channels [simp]: "cd_channels (enrol d now i m db) = cd_channels db" "cd_messages (enrol d now i m db) = cd_messages db"
  by (auto simp: enrol_def channel_AddMember_def split: option.splits)

lemma has_channel_enrol [simp]: "has_channel (enrol d now i m db) j = has_channel db j"
  by (simp add: has_channel_def)

lemma enrolled_after:
  assumes "dr_err d = None" "has_channel db i" "i \<noteq> []" "m \<noteq> []"
  shows "enrolled (enrol d now i m db) j x \<longleftrightarrow> (j = i \<and> x = m) \<or> enrolled db j x"
  using assms
  by (auto simp: enrolled_def enrol_def channel_AddMember_def member_id_def row_get_snoc split: option.splits)

lemma enrol_nobody: "enrol d now i [] db = db"
  by (simp add: enrol_def channel_AddMember_def)

interpretation roster: roster_store has_channel enrolled "enrol \<lparr>dr_name = b, dr_err = None, dr_violation = v\<rparr> now"
  for b v now
  by unfold_locales (simp_all add: enrolled_after enrol_nobody)

text \<open>Who is enrolled is what \<open>Members\<close> lists.\<close>

lemma listed_members:
  assumes "channel_Members d db i = Inr ms"
  shows "cm_Member ` set ms = {m. enrolled db i m}"
proof -
  have "set ms = {m \<in> set (cd_members db). cm_ChannelID m = i}"
    using assms by (auto simp: channel_Members_def split: option.splits)
  then show ?thesis by (auto simp: enrolled_def row_get_None_iff member_id_def image_iff)
qed

end
