(* ===== verification/Transcript_Text.thy ===== *)
theory Transcript_Text
  imports Prelude
begin

text \<open>
  The text scanners of the team transcript (\<open>internal/runtimehttp/team_transcript.go\<close>): mentions, ticket
  numbers and the kind prefix of an escalation. The three regular expressions are written out as scanners
  of bytes; a byte of a multi-byte character is in none of their classes.
\<close>

definition is_alpha :: "char \<Rightarrow> bool" where
  "is_alpha c \<longleftrightarrow> (let n = (of_char c :: nat) in 65 \<le> n \<and> n \<le> 90 \<or> 97 \<le> n \<and> n \<le> 122)"

definition is_digit :: "char \<Rightarrow> bool" where
  "is_digit c \<longleftrightarrow> (let n = (of_char c :: nat) in 48 \<le> n \<and> n \<le> 57)"

definition is_alnum :: "char \<Rightarrow> bool" where
  "is_alnum c \<longleftrightarrow> is_alpha c \<or> is_digit c"

definition handle_char :: "char \<Rightarrow> bool" where
  "handle_char c \<longleftrightarrow> is_alnum c \<or> c = CHR ''_'' \<or> c = CHR ''-''"

definition kind_char :: "char \<Rightarrow> bool" where
  "kind_char c \<longleftrightarrow> handle_char c \<or> c = CHR '':'' \<or> c = CHR ''.''"

lemmas char_classes = is_alpha_def is_digit_def is_alnum_def handle_char_def kind_char_def Let_def

text \<open>The first occurrence of each element, in order.\<close>

definition dedup :: "'a list \<Rightarrow> 'a list" where
  "dedup xs = foldl (\<lambda>out x. if x \<in> set out then out else out @ [x]) [] xs"

lemma dedup_foldl:
  "distinct out \<Longrightarrow> set (foldl (\<lambda>out x. if x \<in> set out then out else out @ [x]) out xs) = set out \<union> set xs \<and>
     distinct (foldl (\<lambda>out x. if x \<in> set out then out else out @ [x]) out xs)"
  by (induction xs arbitrary: out) auto

lemma dedup [simp]: "set (dedup xs) = set xs" "distinct (dedup xs)"
  using dedup_foldl [of "[]" xs] by (simp_all add: dedup_def)

lemma dedup_id: "distinct xs \<Longrightarrow> dedup xs = xs"
proof -
  have "distinct (out @ xs) \<Longrightarrow> foldl (\<lambda>out x. if x \<in> set out then out else out @ [x]) out xs = out @ xs" for out
    by (induction xs arbitrary: out) auto
  then show "distinct xs \<Longrightarrow> dedup xs = xs" by (simp add: dedup_def)
qed

section \<open>Mentions\<close>

text \<open>The matches of \<open>@([a-zA-Z][a-zA-Z0-9_-]*)\<close>: an at sign cannot be part of a match.\<close>

lemma dropWhile_shorter [termination_simp]: "length (dropWhile P cs) < Suc (length cs)"
  by (simp add: le_imp_less_Suc length_dropWhile_le)

fun mention_matches :: "string \<Rightarrow> string list" where
  "mention_matches [] = []"
| "mention_matches (c # cs) =
     (if c = CHR ''@'' \<and> cs \<noteq> [] \<and> is_alpha (hd cs)
      then takeWhile handle_char cs # mention_matches (dropWhile handle_char cs)
      else mention_matches cs)"

definition parseMentions :: "string \<Rightarrow> string list" where
  "parseMentions body = dedup (mention_matches body)"

text \<open>A handle stands after an at sign, starts with a letter and ends where the handle characters do.\<close>

definition mentioned :: "string \<Rightarrow> string \<Rightarrow> bool" where
  "mentioned h body \<longleftrightarrow> h \<noteq> [] \<and> is_alpha (hd h) \<and> list_all handle_char h \<and>
     (\<exists>u v. body = u @ CHR ''@'' # h @ v \<and> (v = [] \<or> \<not> handle_char (hd v)))"

lemma no_at [simp]: "\<not> handle_char CHR ''@''"
  by (simp add: char_classes)

lemma not_in_handles: "list_all handle_char h \<Longrightarrow> CHR ''@'' \<notin> set h"
  by (auto simp: list_all_iff)

lemma handle_run:
  assumes "list_all handle_char h" "v = [] \<or> \<not> handle_char (hd v)"
  shows "takeWhile handle_char (h @ v) = h" "dropWhile handle_char (h @ v) = v"
  using assms by (induction h) (cases v; simp)+

lemma run_end: "dropWhile P xs = [] \<or> \<not> P (hd (dropWhile P xs))"
  using hd_dropWhile by blast

lemma mentioned_iff:
  "mentioned h body \<longleftrightarrow> h \<noteq> [] \<and> is_alpha (hd h) \<and> list_all handle_char h \<and>
     (\<exists>u w. body = u @ CHR ''@'' # w \<and> takeWhile handle_char w = h)"
proof -
  have "(\<exists>v. w = h @ v \<and> (v = [] \<or> \<not> handle_char (hd v))) \<longleftrightarrow> takeWhile handle_char w = h"
    if "list_all handle_char h" for w
    using handle_run [OF that] run_end [of handle_char w] takeWhile_dropWhile_id [of handle_char w] by metis
  then show ?thesis unfolding mentioned_def by blast
qed

lemma takeWhile_all: "list_all P (takeWhile P xs)"
  by (auto simp: list_all_iff dest: set_takeWhileD)

lemma first_occurrence:
  "(\<exists>u w. c # cs = u @ d # w \<and> P u w) \<longleftrightarrow> (c = d \<and> P [] cs) \<or> (\<exists>u w. cs = u @ d # w \<and> P (c # u) w)"
  by (auto simp: Cons_eq_append_conv)

lemma mention_matches_iff: "h \<in> set (mention_matches body) \<longleftrightarrow> mentioned h body"
proof (induction body rule: mention_matches.induct)
  case 1
  then show ?case by (simp add: mentioned_def)
next
  case (2 c cs)
  note split = first_occurrence [where P = "\<lambda>u w. takeWhile handle_char w = h" and d = "CHR ''@''" and c = c and cs = cs]
  have shift: "(\<exists>u w. cs = u @ CHR ''@'' # w \<and> Q w) \<longleftrightarrow>
      (\<exists>u w. dropWhile handle_char cs = u @ CHR ''@'' # w \<and> Q w)" for Q
  proof (induction cs)
    case (Cons d ds)
    then show ?case by (cases "handle_char d") (auto simp: first_occurrence)
  qed simp
  have here: "takeWhile handle_char cs = h \<and> h \<noteq> [] \<and> is_alpha (hd h) \<and> list_all handle_char h \<longleftrightarrow>
      takeWhile handle_char cs = h \<and> cs \<noteq> [] \<and> is_alpha (hd cs)"
    using takeWhile_all [of handle_char cs] by (cases cs) (auto simp: handle_char_def is_alnum_def)
  show ?case
  proof (cases "c = CHR ''@'' \<and> cs \<noteq> [] \<and> is_alpha (hd cs)")
    case True
    have "h \<in> set (mention_matches (c # cs)) \<longleftrightarrow> takeWhile handle_char cs = h \<or> mentioned h (dropWhile handle_char cs)"
      using True "2.IH"(1) by auto
    also have "\<dots> \<longleftrightarrow> mentioned h (c # cs)"
      unfolding mentioned_iff split shift [of "\<lambda>w. takeWhile handle_char w = h"]
      using True here by blast
    finally show ?thesis .
  next
    case False
    then have "h \<in> set (mention_matches (c # cs)) \<longleftrightarrow> mentioned h cs" using "2.IH"(2) by auto
    also have "\<dots> \<longleftrightarrow> mentioned h (c # cs)"
      unfolding mentioned_iff split using False here by blast
    finally show ?thesis .
  qed
qed

lemma parseMentions_iff: "h \<in> set (parseMentions body) \<longleftrightarrow> mentioned h body"
  by (simp add: parseMentions_def mention_matches_iff)

section \<open>Ticket numbers\<close>

text \<open>
  The matches of \<open>(?:^|[^A-Za-z0-9_])#([0-9]+)\<close>. The first argument tells whether the byte before this
  position may stand before a ticket: it does not exist or is no letter, digit or underscore. A match ends
  with a digit, which is none.
\<close>

definition ticket_border :: "char \<Rightarrow> bool" where
  "ticket_border c \<longleftrightarrow> \<not> (is_alnum c \<or> c = CHR ''_'')"

fun ticket_matches :: "bool \<Rightarrow> string \<Rightarrow> string list" where
  "ticket_matches free [] = []"
| "ticket_matches free (c # cs) =
     (if free \<and> c = CHR ''#'' \<and> cs \<noteq> [] \<and> is_digit (hd cs)
      then takeWhile is_digit cs # ticket_matches False (dropWhile is_digit cs)
      else ticket_matches (ticket_border c) cs)"

definition parseTickets :: "string \<Rightarrow> string list" where
  "parseTickets body = dedup (ticket_matches True body)"

definition ticketed :: "string \<Rightarrow> string \<Rightarrow> bool" where
  "ticketed n body \<longleftrightarrow> n \<noteq> [] \<and>
     (\<exists>u w. body = u @ CHR ''#'' # w \<and> (u = [] \<or> ticket_border (last u)) \<and> takeWhile is_digit w = n)"

definition ticketed_after :: "bool \<Rightarrow> string \<Rightarrow> string \<Rightarrow> bool" where
  "ticketed_after free n body \<longleftrightarrow> n \<noteq> [] \<and>
     (\<exists>u w. body = u @ CHR ''#'' # w \<and> (if u = [] then free else ticket_border (last u)) \<and> takeWhile is_digit w = n)"

lemma digit_char [simp]: "\<not> is_digit CHR ''#''"
  by (simp add: char_classes)

lemma ticketed_after_Cons:
  "ticketed_after free n (c # cs) \<longleftrightarrow>
     (n \<noteq> [] \<and> free \<and> c = CHR ''#'' \<and> takeWhile is_digit cs = n) \<or> ticketed_after (ticket_border c) n cs"
  unfolding ticketed_after_def first_occurrence by auto

lemma ticketed_skip_digits:
  "ticketed_after False n (dropWhile is_digit cs) \<longleftrightarrow> ticketed_after False n cs"
proof (induction cs)
  case (Cons d ds)
  then show ?case
    by (cases "is_digit d") (auto simp: ticketed_after_Cons ticket_border_def is_alnum_def)
qed simp

lemma ticket_matches_iff: "n \<in> set (ticket_matches free body) \<longleftrightarrow> ticketed_after free n body"
proof (induction free body rule: ticket_matches.induct)
  case (2 free c cs)
  show ?case
  proof (cases "free \<and> c = CHR ''#'' \<and> cs \<noteq> [] \<and> is_digit (hd cs)")
    case True
    have b: "takeWhile is_digit cs \<noteq> []" using True by (cases cs) auto
    have "ticketed_after (ticket_border c) n cs \<longleftrightarrow> ticketed_after False n cs"
      using True by (cases cs) (auto simp: ticketed_after_Cons)
    then show ?thesis using True b "2.IH"(1) by (auto simp: ticketed_after_Cons ticketed_skip_digits)
  next
    case False
    have "takeWhile is_digit cs = n \<Longrightarrow> n \<noteq> [] \<Longrightarrow> cs \<noteq> [] \<and> is_digit (hd cs)" by (cases cs) (auto split: if_splits)
    then show ?thesis using False "2.IH"(2) by (auto simp: ticketed_after_Cons)
  qed
qed (simp add: ticketed_after_def)

lemma parseTickets_iff: "n \<in> set (parseTickets body) \<longleftrightarrow> ticketed n body"
proof -
  have "ticketed_after True n body \<longleftrightarrow> ticketed n body" by (auto simp: ticketed_after_def ticketed_def split: if_splits)
  then show ?thesis by (simp add: parseTickets_def ticket_matches_iff)
qed

section \<open>The kind of an escalation\<close>

text \<open>The match of \<open>^\[([a-zA-Z][a-zA-Z0-9_:.-]*)\]\s+\<close> and the text after it.\<close>

definition re_space :: "char \<Rightarrow> bool" where
  "re_space c \<longleftrightarrow> (of_char c :: nat) \<in> {9, 10, 12, 13, 32}"

definition alertKindPrefix :: "string \<Rightarrow> (string \<times> string) option" where
  "alertKindPrefix body =
     (case body of [] \<Rightarrow> None
      | c # cs \<Rightarrow>
          let kind = takeWhile kind_char cs; rest = dropWhile kind_char cs in
          if c = CHR ''['' \<and> kind \<noteq> [] \<and> is_alpha (hd kind) \<and> rest \<noteq> [] \<and> hd rest = CHR '']'' \<and>
             tl rest \<noteq> [] \<and> re_space (hd (tl rest))
          then Some (kind, dropWhile re_space (tl rest)) else None)"

definition alert_kind :: "string \<Rightarrow> string" where
  "alert_kind body = (case alertKindPrefix body of None \<Rightarrow> ''alert'' | Some (k, _) \<Rightarrow> ''alert:'' @ k)"

definition alert_body :: "string \<Rightarrow> string" where
  "alert_body body = (case alertKindPrefix body of None \<Rightarrow> body | Some (_, rest) \<Rightarrow> rest)"

text \<open>What the alert tool writes is read back.\<close>

lemma alert_written:
  assumes "kind \<noteq> []" "is_alpha (hd kind)" "list_all kind_char kind" "msg = [] \<or> \<not> re_space (hd msg)"
  shows "alert_kind (''['' @ kind @ ''] '' @ msg) = ''alert:'' @ kind \<and> alert_body (''['' @ kind @ ''] '' @ msg) = msg"
proof -
  have n: "\<not> kind_char CHR '']''" by (simp add: char_classes)
  have run: "takeWhile kind_char (kind @ CHR '']'' # s) = kind" "dropWhile kind_char (kind @ CHR '']'' # s) = CHR '']'' # s" for s
    using assms(3) n by (induction kind) auto
  obtain xs where xs: "xs = kind @ CHR '']'' # CHR '' '' # msg" by blast
  have "takeWhile kind_char xs = kind" "dropWhile kind_char xs = CHR '']'' # CHR '' '' # msg" by (simp_all only: xs run)
  moreover have "dropWhile re_space msg = msg" using assms(4) by (cases msg) auto
  ultimately have "alertKindPrefix (CHR ''['' # xs) = Some (kind, msg)"
    using assms(1,2) by (simp add: alertKindPrefix_def Let_def re_space_def del: dropWhile_eq_Nil_conv)
  then have "alertKindPrefix (''['' @ kind @ ''] '' @ msg) = Some (kind, msg)" by (simp add: xs)
  then show ?thesis by (simp add: alert_kind_def alert_body_def)
qed

end
