(* ===== verification/Transcript_Stream.thy ===== *)
theory Transcript_Stream
  imports Go_Map
begin

text \<open>
  The live transcript stream (\<open>internal/runtimehttp/channel_stream.go\<close>): the broadcaster that wakes the
  subscribers of a team, in its critical sections, and the frames the server-sent event handler writes. A
  tick channel holds at most one tick and is never closed, so the send after the lock is released cannot
  panic.
\<close>

section \<open>The broadcaster\<close>

text \<open>Subscribed channels by team; \<open>br_full\<close> lists the channels whose buffer holds a tick.\<close>

record broadcaster =
  br_subs :: "(string \<times> nat list) list"
  br_full :: "nat list"
  br_next :: nat

definition newTranscriptBroadcaster :: broadcaster where
  "newTranscriptBroadcaster = \<lparr>br_subs = [], br_full = [], br_next = 0\<rparr>"

definition tick_chans :: "string \<Rightarrow> broadcaster \<Rightarrow> nat list" where
  "tick_chans team b = (case map_of (br_subs b) team of None \<Rightarrow> [] | Some cs \<Rightarrow> cs)"

definition tick_subscribe :: "string \<Rightarrow> broadcaster \<Rightarrow> nat \<times> broadcaster" where
  "tick_subscribe team b =
     (br_next b, b\<lparr>br_subs := AList.update team (tick_chans team b @ [br_next b]) (br_subs b), br_next := Suc (br_next b)\<rparr>)"

definition tick_unsubscribe :: "string \<Rightarrow> nat \<Rightarrow> broadcaster \<Rightarrow> broadcaster" where
  "tick_unsubscribe team c b =
     (case map_of (br_subs b) team of
        None \<Rightarrow> b
      | Some cs \<Rightarrow>
          let rest = removeAll c cs in
          b\<lparr>br_subs := (if rest = [] then AList.delete team (br_subs b) else AList.update team rest (br_subs b))\<rparr>)"

text \<open>\<open>notify\<close>: the snapshot under the lock, and the sends after it; a full buffer drops the tick.\<close>

definition notify_snapshot :: "string \<Rightarrow> broadcaster \<Rightarrow> nat list" where
  "notify_snapshot team b = tick_chans team b"

definition notify_send :: "nat list \<Rightarrow> broadcaster \<Rightarrow> broadcaster" where
  "notify_send cs b = b\<lparr>br_full := br_full b @ filter (\<lambda>c. c \<notin> set (br_full b)) cs\<rparr>"

definition tick_notify :: "string \<Rightarrow> broadcaster \<Rightarrow> broadcaster" where
  "tick_notify team b = notify_send (notify_snapshot team b) b"

definition tick_receive :: "nat \<Rightarrow> broadcaster \<Rightarrow> bool \<times> broadcaster" where
  "tick_receive c b = (c \<in> set (br_full b), b\<lparr>br_full := removeAll c (br_full b)\<rparr>)"

section \<open>No tick is lost\<close>

text \<open>
  The steps of all goroutines: a notifier remembers its snapshot until it sends, and other steps may come in
  between. The second component lists the notifiers that have a snapshot.
\<close>

datatype tick_op =
    TSub string
  | TUnsub string nat
  | TSnap string
  | TSend nat
  | TRecv nat

fun tick_step :: "tick_op \<Rightarrow> broadcaster \<times> nat list list \<Rightarrow> broadcaster \<times> nat list list" where
  "tick_step (TSub team) (b, ns) = (snd (tick_subscribe team b), ns)"
| "tick_step (TUnsub team c) (b, ns) = (tick_unsubscribe team c b, ns)"
| "tick_step (TSnap team) (b, ns) = (b, ns @ [notify_snapshot team b])"
| "tick_step (TSend k) (b, ns) = (if k < length ns then (notify_send (ns ! k) b, ns) else (b, ns))"
| "tick_step (TRecv c) (b, ns) = (snd (tick_receive c b), ns)"

definition tick_run :: "tick_op list \<Rightarrow> broadcaster \<times> nat list list" where
  "tick_run ops = fold tick_step ops (newTranscriptBroadcaster, [])"

lemma fst_step:
  "fst (tick_step op s) = (case op of TSub team \<Rightarrow> snd (tick_subscribe team (fst s))
     | TUnsub team c \<Rightarrow> tick_unsubscribe team c (fst s) | TSnap team \<Rightarrow> fst s
     | TSend k \<Rightarrow> (if k < length (snd s) then notify_send (snd s ! k) (fst s) else fst s)
     | TRecv c \<Rightarrow> snd (tick_receive c (fst s)))"
  by (cases s; cases op) simp_all

lemma full_changes:
  "set (br_full (snd (tick_subscribe team b))) = set (br_full b)"
  "set (br_full (tick_unsubscribe team c b)) = set (br_full b)"
  "set (br_full (notify_send cs b)) = set cs \<union> set (br_full b)"
  "set (br_full (snd (tick_receive c b))) = set (br_full b) - {c}"
  by (auto simp: tick_subscribe_def tick_unsubscribe_def notify_send_def tick_receive_def Let_def split: option.splits)

text \<open>
  A channel holds a tick exactly when some notifier that had it in its snapshot sent after the last time its
  subscriber received.
\<close>

fun owed :: "nat \<Rightarrow> tick_op list \<Rightarrow> broadcaster \<times> nat list list \<Rightarrow> bool \<Rightarrow> bool" where
  "owed c [] s was = was"
| "owed c (op # ops) s was =
     owed c ops (tick_step op s)
       (case op of TRecv d \<Rightarrow> was \<and> d \<noteq> c | TSend k \<Rightarrow> was \<or> (k < length (snd s) \<and> c \<in> set (snd s ! k)) | _ \<Rightarrow> was)"

lemma full_iff_owed: "c \<in> set (br_full (fst (fold tick_step ops s))) \<longleftrightarrow> owed c ops s (c \<in> set (br_full (fst s)))"
proof (induction ops arbitrary: s)
  case (Cons op ops)
  have "c \<in> set (br_full (fst (tick_step op s))) \<longleftrightarrow>
      (case op of TRecv d \<Rightarrow> c \<in> set (br_full (fst s)) \<and> d \<noteq> c
         | TSend k \<Rightarrow> c \<in> set (br_full (fst s)) \<or> (k < length (snd s) \<and> c \<in> set (snd s ! k))
         | _ \<Rightarrow> c \<in> set (br_full (fst s)))"
    by (auto simp: fst_step full_changes split: tick_op.split)
  then show ?case using Cons.IH [of "tick_step op s"] by simp
qed simp

text \<open>A buffer never holds two ticks, and subscriptions are separate.\<close>

definition tick_inv :: "broadcaster \<times> nat list list \<Rightarrow> bool" where
  "tick_inv s \<longleftrightarrow> distinct (br_full (fst s)) \<and> (\<forall>cs \<in> set (snd s). distinct cs) \<and>
     (\<forall>x \<in> set (br_subs (fst s)). distinct (snd x) \<and> (\<forall>c \<in> set (snd x). c < br_next (fst s)))"

lemma tick_inv_step: "tick_inv s \<Longrightarrow> tick_inv (tick_step op s)"
proof -
  assume inv: "tick_inv s"
  then have full: "distinct (br_full (fst s))" and snaps: "\<forall>cs \<in> set (snd s). distinct cs"
    and subs: "\<forall>x \<in> set (br_subs (fst s)). distinct (snd x) \<and> (\<forall>c \<in> set (snd x). c < br_next (fst s))"
    by (simp_all add: tick_inv_def)
  obtain b ns where s: "s = (b, ns)" by (cases s)
  have chans: "distinct (tick_chans team b) \<and> (\<forall>c \<in> set (tick_chans team b). c < br_next b)" for team
  proof (cases "map_of (br_subs b) team")
    case (Some cs)
    then show ?thesis using subs map_of_SomeD [OF Some] by (auto simp: s tick_chans_def)
  qed (simp add: tick_chans_def)
  show ?thesis
  proof (cases op)
    case (TSub team)
    have "x = (team, tick_chans team b @ [br_next b]) \<or> x \<in> set (br_subs b)"
      if "x \<in> set (AList.update team (tick_chans team b @ [br_next b]) (br_subs b))" for x
      using that set_aupdate by fast
    moreover have "distinct (tick_chans team b @ [br_next b]) \<and> (\<forall>c \<in> set (tick_chans team b @ [br_next b]). c < Suc (br_next b))"
      using chans [of team] by (auto simp: less_Suc_eq)
    ultimately have "\<forall>x \<in> set (AList.update team (tick_chans team b @ [br_next b]) (br_subs b)).
        distinct (snd x) \<and> (\<forall>c \<in> set (snd x). c < Suc (br_next b))"
      using subs by (metis fst_conv s snd_conv less_SucI)
    then show ?thesis using full snaps by (simp add: tick_inv_def s TSub tick_subscribe_def)
  next
    case (TUnsub team c)
    show ?thesis
    proof (cases "map_of (br_subs b) team")
      case (Some cs)
      have "distinct (removeAll c cs) \<and> (\<forall>d \<in> set (removeAll c cs). d < br_next b)"
        using chans [of team] Some by (auto simp: tick_chans_def distinct_removeAll)
      moreover have "x = (team, removeAll c cs) \<or> x \<in> set (br_subs b)"
        if "x \<in> set (br_subs (tick_unsubscribe team c b))" for x
        using that set_aupdate [of team "removeAll c cs" "br_subs b"] set_adelete [of team "br_subs b"]
        by (auto simp: tick_unsubscribe_def Some Let_def split: if_splits)
      moreover have "br_full (tick_unsubscribe team c b) = br_full b" "br_next (tick_unsubscribe team c b) = br_next b"
        by (simp_all add: tick_unsubscribe_def Some Let_def)
      ultimately show ?thesis using full snaps subs by (fastforce simp: tick_inv_def s TUnsub)
    qed (use full snaps subs in \<open>simp add: tick_inv_def s TUnsub tick_unsubscribe_def\<close>)
  next
    case (TSnap team)
    then show ?thesis using full snaps subs chans [of team] by (auto simp: tick_inv_def s notify_snapshot_def)
  next
    case (TSend k)
    then show ?thesis using full snaps subs by (auto simp: tick_inv_def s notify_send_def)
  next
    case (TRecv c)
    then show ?thesis using full snaps subs by (auto simp: tick_inv_def s tick_receive_def distinct_removeAll)
  qed
qed

lemma tick_run_single: "distinct (br_full (fst (tick_run ops)))"
proof -
  have "tick_inv s \<Longrightarrow> tick_inv (fold tick_step ops s)" for s
    by (induction ops arbitrary: s) (simp_all add: tick_inv_step)
  from this [of "(newTranscriptBroadcaster, [])"] have "tick_inv (tick_run ops)"
    by (simp add: tick_run_def newTranscriptBroadcaster_def tick_inv_def)
  then show ?thesis by (simp add: tick_inv_def)
qed

section \<open>The stream\<close>

datatype stream_wake = TeamWake | EventWake | Heartbeat

definition tick_frame :: "string \<Rightarrow> string" where
  "tick_frame what = ''event: tick'' @ [CHR 0x0A] @ ''data: '' @ what @ [CHR 0x0A, CHR 0x0A]"

definition wake_frame :: "stream_wake \<Rightarrow> string" where
  "wake_frame w = (case w of TeamWake \<Rightarrow> tick_frame ''message'' | EventWake \<Rightarrow> tick_frame ''activity''
     | Heartbeat \<Rightarrow> '': keepalive'' @ [CHR 0x0A, CHR 0x0A])"

text \<open>The body of a stream that was woken as listed before its client left.\<close>

definition teamTranscriptStream :: "bool \<Rightarrow> string \<Rightarrow> stream_wake list \<Rightarrow> int \<times> string" where
  "teamTranscriptStream flusher team wakes =
     (if team = [] then (400, ''team required'')
      else if \<not> flusher then (500, ''streaming unsupported'')
      else (200, tick_frame ''connect'' @ concat (map wake_frame wakes)))"

end
