(* ===== verification/Team_Transcript.thy ===== *)
theory Team_Transcript
  imports Team_Registry Peer_Registry Task_Store Channel_Store Transcript_Text Transcript_Stream Federation_Delivery
begin

text \<open>
  The team transcript (\<open>internal/runtimehttp/team_transcript.go\<close>): who a message is for, who leads a team,
  the synchronisation of a team's channel with its roster, posting with its fan-out, the merged feed of
  channel messages, tasks and escalations, and the ticket counts. One reading of the clock per request; the
  sweep the peer registry does on every read is left to \<open>Peer_Registry\<close>, since a second sweep finds what
  the first one would have. The runtime's mutex works, as \<open>Mcp_Views\<close> shows of every run.
\<close>

section \<open>State\<close>

record feed =
  fd_rt :: "runtime option"
  fd_peers :: "peer_registry option"
  fd_channels :: "channel_db option"
  fd_tasks :: "task_rows option"
  fd_ticks :: "broadcaster option"

text \<open>The driver under each statement of a request, and the fresh identifiers.\<close>

record feed_env =
  fe_now :: time
  fe_channelID :: string
  fe_messageID :: string
  fe_find :: driver
  fe_save :: driver
  fe_enrol :: "string \<Rightarrow> driver"
  fe_messages :: driver
  fe_members :: driver
  fe_post :: driver
  fe_tasks :: "go_error option"

text \<open>\<open>lk_post\<close> is the HTTP client, \<open>lk_deliver\<close> the A2A deliverer, if one is wired.\<close>

record links =
  lk_post :: "string \<Rightarrow> json \<Rightarrow> feed \<Rightarrow> (go_error + int) \<times> feed"
  lk_deliver :: "(message \<Rightarrow> feed \<Rightarrow> go_error option \<times> feed) option"

record transcript_row =
  tr_ID :: string
  tr_Author :: string
  tr_Body :: string
  tr_Mentions :: "string list"
  tr_Recipients :: "string list"
  tr_CreatedAt :: time
  tr_Kind :: string
  tr_RoutedToDefault :: bool
  tr_DefaultTarget :: string
  tr_Team :: string
  tr_TeamGitHubURL :: string

definition operator :: string where "operator = ''operator''"

section \<open>Rosters\<close>

definition rt_List :: "runtime \<Rightarrow> session_info list" where
  "rt_List rt = map snd (rt_info rt)"

definition RegisteredPeers :: "time \<Rightarrow> string \<Rightarrow> peer_registry option \<Rightarrow> peer_info list" where
  "RegisteredPeers now team peers = (case peers of None \<Rightarrow> [] | Some r \<Rightarrow> fst (ListByTeam team now r))"

definition TeamMembers :: "time \<Rightarrow> string \<Rightarrow> peer_registry option \<Rightarrow> runtime \<Rightarrow> string list" where
  "TeamMembers now team peers rt =
     dedup (map si_Name (filter (\<lambda>i. si_Team i = team) (rt_List rt)) @
            map pi_Name (RegisteredPeers now team peers))"

definition teamMembersOf :: "time \<Rightarrow> feed \<Rightarrow> string \<Rightarrow> string list" where
  "teamMembersOf now fd team = (case fd_rt fd of None \<Rightarrow> [] | Some rt \<Rightarrow> TeamMembers now team (fd_peers fd) rt)"

definition registeredPeerByName :: "time \<Rightarrow> feed \<Rightarrow> string \<Rightarrow> peer_info option" where
  "registeredPeerByName now fd nm =
     (case (fd_rt fd, fd_peers fd) of (Some _, Some r) \<Rightarrow> fst (peer_Get nm now r) | _ \<Rightarrow> None)"

text \<open>Mentions to handles: the team, another team, or the handle itself.\<close>

definition expand_mention :: "string list \<Rightarrow> (string \<Rightarrow> string list) \<Rightarrow> string \<Rightarrow> string list" where
  "expand_mention members allTeams m =
     (if m = ''everyone'' then members
      else if has_prefix ''team-'' m then allTeams (trim_prefix ''team-'' m)
      else [m])"

definition resolveRecipients :: "string list \<Rightarrow> string list \<Rightarrow> (string \<Rightarrow> string list) \<Rightarrow> string list" where
  "resolveRecipients mentions members allTeams = dedup (concat (map (expand_mention members allTeams) mentions))"

section \<open>The team lead\<close>

definition leadRolePriority :: "string list" where
  "leadRolePriority = [''scrum-master'', ''tech-lead'', ''orchestrator'', ''architect'', ''shepherd'', ''worker'']"

definition rolePriorityIndex :: "string \<Rightarrow> nat" where
  "rolePriorityIndex role0 =
     (let role = to_lower (trim_space role0); i = length (takeWhile (\<lambda>r. r \<noteq> role) leadRolePriority) in
      if i < length leadRolePriority then i else length leadRolePriority + 1)"

definition lead_candidates :: "string \<Rightarrow> runtime \<Rightarrow> (string \<times> nat) list" where
  "lead_candidates team rt =
     (let cands = map (\<lambda>m. (ms_AgentName m, rolePriorityIndex (ms_Role m)))
                    (filter (\<lambda>m. ms_AgentName m \<noteq> []) (ListMemberships [] team rt))
      in cands @ map (\<lambda>i. (si_Name i, rolePriorityIndex (si_Role i)))
           (filter (\<lambda>i. si_Team i = team \<and> si_Name i \<notin> fst ` set cands) (rt_List rt)))"

definition resolveTeamLead :: "feed \<Rightarrow> string \<Rightarrow> string" where
  "resolveTeamLead fd team =
     (case fd_rt fd of None \<Rightarrow> operator
      | Some rt \<Rightarrow>
          (case sort_key (\<lambda>(nm, prio). (prio, nm)) (lead_candidates team rt) of
             [] \<Rightarrow> operator | (nm, _) # _ \<Rightarrow> nm))"

definition resolveTeamLeadRole :: "feed \<Rightarrow> string \<Rightarrow> string \<Rightarrow> string" where
  "resolveTeamLeadRole fd team lead =
     (case fd_rt fd of None \<Rightarrow> operator
      | Some rt \<Rightarrow>
          if lead = [] \<or> lead = operator then operator
          else case filter (\<lambda>m. ms_Role m \<noteq> []) (ListMemberships lead team rt) of
            m # _ \<Rightarrow> ms_Role m
          | [] \<Rightarrow> (case filter (\<lambda>i. si_Name i = lead \<and> si_Team i = team) (rt_List rt) of
                   i # _ \<Rightarrow> si_Role i | [] \<Rightarrow> operator))"

definition trim_suffix :: "string \<Rightarrow> string \<Rightarrow> string" where
  "trim_suffix p s = (if has_suffix p s then take (length s - length p) s else s)"

definition teamGitHubURL :: "feed \<Rightarrow> string \<Rightarrow> string" where
  "teamGitHubURL fd team =
     (case fd_rt fd of None \<Rightarrow> []
      | Some rt \<Rightarrow>
          (case filter (\<lambda>i. si_Team i = team \<and> trim_space (si_GitHubURL i) \<noteq> []) (rt_List rt) of
             [] \<Rightarrow> [] | i # _ \<Rightarrow> trim_suffix ''.git'' (trim_space (si_GitHubURL i))))"

section \<open>The channel of a team\<close>

definition sync_roster :: "feed_env \<Rightarrow> string list \<Rightarrow> channel \<Rightarrow> channel_db \<Rightarrow> channel_db" where
  "sync_roster en members ch db =
     fold (\<lambda>m. enrol (fe_enrol en m) (fe_now en) (ch_ID ch) m) (operator # members) db"

definition ensureTeamChannel :: "feed_env \<Rightarrow> string \<Rightarrow> feed \<Rightarrow> channel result \<times> feed" where
  "ensureTeamChannel en team fd =
     (case fd_channels fd of
        None \<Rightarrow> (Inl ''http: Server closed'', fd)
      | Some db \<Rightarrow>
          let synced = (\<lambda>ch db. (Inr ch, fd\<lparr>fd_channels :=
                Some (sync_roster en (teamMembersOf (fe_now en) fd team) ch db)\<rparr>)) in
          (case channel_GetByName (fe_find en) db (CHR ''#'' # team) of
             Inr ch \<Rightarrow> synced ch db
           | Inl _ \<Rightarrow>
               let ch = \<lparr>ch_ID = fe_channelID en, ch_Name = CHR ''#'' # team, ch_Kind = ''team'',
                     ch_CreatedBy = operator, ch_CreatedAt = fe_now en, ch_Visibility = ''irc''\<rparr> in
               (case channel_Save (fe_save en) (Some ch) db of
                  (Some e, db') \<Rightarrow> (Inl e, fd\<lparr>fd_channels := Some db'\<rparr>)
                | (None, db') \<Rightarrow> synced ch db')))"

section \<open>The merged feed\<close>

definition default_routed :: "string \<Rightarrow> string list \<Rightarrow> string \<Rightarrow> bool" where
  "default_routed author mentions lead \<longleftrightarrow>
     (author = operator \<or> author = []) \<and> mentions = [] \<and> lead \<noteq> [] \<and> lead \<noteq> operator"

definition message_feed_row :: "string \<Rightarrow> string \<Rightarrow> string \<Rightarrow> channel_message \<Rightarrow> transcript_row" where
  "message_feed_row team url lead m =
     (let routed = default_routed (cg_Author m) (cg_Mentions m) lead in
      \<lparr>tr_ID = cg_ID m, tr_Author = cg_Author m, tr_Body = cg_Body m, tr_Mentions = cg_Mentions m,
       tr_Recipients = (if routed then [lead] else cg_Mentions m), tr_CreatedAt = cg_CreatedAt m,
       tr_Kind = ''message'', tr_RoutedToDefault = routed, tr_DefaultTarget = (if routed then lead else []),
       tr_Team = team, tr_TeamGitHubURL = url\<rparr>)"

text \<open>What the feed reads of a stored message: role, context, sender and the first text part.\<close>

definition dec_feed_part :: "json \<Rightarrow> (string \<times> string) result" where
  "dec_feed_part v = res_bind (struct_ok ''struct'' v) (\<lambda>j. res_bind (get_str ''kind'' j) (\<lambda>k.
     res_bind (get_str ''text'' j) (\<lambda>t. Inr (k, t))))"

definition dec_feed_message :: "json \<Rightarrow> (string \<times> string \<times> string \<times> (string \<times> string) list) result" where
  "dec_feed_message v = res_bind (struct_ok ''struct'' v) (\<lambda>j. res_bind (get_str ''role'' j) (\<lambda>r.
     res_bind (get_str ''contextId'' j) (\<lambda>c. res_bind (get_str ''chepherd_from'' j) (\<lambda>f.
     res_bind (get_list dec_feed_part ''parts'' j) (\<lambda>ps. Inr (r, c, f, ps))))))"

definition taskRowBelongsToTeam :: "feed_env \<Rightarrow> feed \<Rightarrow> channel \<Rightarrow> string \<Rightarrow> string \<Rightarrow> string \<Rightarrow> bool" where
  "taskRowBelongsToTeam en fd ch team author recipient \<longleftrightarrow>
     (case fd_channels fd of None \<Rightarrow> False
      | Some db \<Rightarrow> (case channel_Members (fe_members en) db (ch_ID ch) of
          Inl _ \<Rightarrow> False | Inr ms \<Rightarrow> (\<exists>m \<in> set ms. cm_Member m = author \<or> cm_Member m = recipient))) \<or>
     (case fd_rt fd of None \<Rightarrow> True
      | Some rt \<Rightarrow> (\<exists>i \<in> set (rt_List rt). si_Team i = team \<and> (si_Name i = author \<or> si_Name i = recipient)))"

definition task_feed_row :: "feed_env \<Rightarrow> feed \<Rightarrow> channel \<Rightarrow> string \<Rightarrow> string \<Rightarrow> ptask \<Rightarrow> transcript_row list" where
  "task_feed_row en fd ch team url t =
     (case unmarshal dec_feed_message (InputBlob t) of
        Inl _ \<Rightarrow> []
      | Inr (role, context, sender, parts) \<Rightarrow>
          let body = (case filter (\<lambda>(k, _). k = ''text'') parts of [] \<Rightarrow> [] | (_, text) # _ \<Rightarrow> text);
              author = (if sender \<noteq> [] then sender else if role \<noteq> [] then role else ''?'');
              rcpt = (if context \<noteq> [] then context else RunnerSID t) in
          if body = [] then []
          else if \<not> taskRowBelongsToTeam en fd ch team author rcpt then []
          else [\<lparr>tr_ID = ''task:'' @ ID t, tr_Author = author, tr_Body = body, tr_Mentions = [],
                 tr_Recipients = [rcpt], tr_CreatedAt = CreatedAt t, tr_Kind = ''message'',
                 tr_RoutedToDefault = False, tr_DefaultTarget = [], tr_Team = team, tr_TeamGitHubURL = url\<rparr>])"

definition alertBelongsToTeam :: "feed \<Rightarrow> string \<Rightarrow> string \<Rightarrow> bool" where
  "alertBelongsToTeam fd team from' \<longleftrightarrow>
     (case fd_rt fd of None \<Rightarrow> True
      | Some rt \<Rightarrow> (case filter (\<lambda>i. si_Name i = from') (rt_List rt) of
          [] \<Rightarrow> True | i # _ \<Rightarrow> si_Team i = team))"

definition alert_feed_row :: "feed \<Rightarrow> string \<Rightarrow> string \<Rightarrow> inbox_entry \<Rightarrow> transcript_row list" where
  "alert_feed_row fd team url e =
     (if \<not> alertBelongsToTeam fd team (in_From e) then []
      else [\<lparr>tr_ID = ''alert:'' @ in_ID e, tr_Author = in_From e, tr_Body = alert_body (in_Body e),
             tr_Mentions = [], tr_Recipients = [operator], tr_CreatedAt = in_At e,
             tr_Kind = alert_kind (in_Body e), tr_RoutedToDefault = False, tr_DefaultTarget = [],
             tr_Team = team, tr_TeamGitHubURL = url\<rparr>])"

definition feed_tasks :: "feed_env \<Rightarrow> feed \<Rightarrow> task_rows" where
  "feed_tasks en fd = (case fd_tasks fd of None \<Rightarrow> []
     | Some rows \<Rightarrow> (case task_List (fe_tasks en) rows
           \<lparr>lo_RunnerSID = [], lo_State = [], lo_SinceID = [], lo_Limit = 200, lo_Newest = True\<rparr> of
         Inl _ \<Rightarrow> [] | Inr ts \<Rightarrow> ts))"

definition feed_messages :: "feed_env \<Rightarrow> feed \<Rightarrow> channel \<Rightarrow> channel_message list" where
  "feed_messages en fd ch = (case fd_channels fd of None \<Rightarrow> []
     | Some db \<Rightarrow> (case channel_Messages (fe_messages en) db (ch_ID ch) 100 of Inl _ \<Rightarrow> [] | Inr ms \<Rightarrow> ms))"

definition newest_first :: "transcript_row list \<Rightarrow> transcript_row list" where
  "newest_first rows = sort_key (\<lambda>r. - tr_CreatedAt r) rows"

definition collectTranscriptRows :: "feed_env \<Rightarrow> feed \<Rightarrow> channel \<Rightarrow> string \<Rightarrow> transcript_row list" where
  "collectTranscriptRows en fd ch team =
     (let url = teamGitHubURL fd team; lead = resolveTeamLead fd team in
      newest_first
        (map (message_feed_row team url lead) (feed_messages en fd ch) @
         concat (map (task_feed_row en fd ch team url) (feed_tasks en fd)) @
         concat (map (alert_feed_row fd team url) (case fd_rt fd of None \<Rightarrow> [] | Some rt \<Rightarrow> rt_inbox rt))))"

section \<open>Posting\<close>

definition deliverToRegisteredPeer ::
    "(string \<Rightarrow> go_error option) \<Rightarrow> links \<Rightarrow> string \<Rightarrow> peer_info \<Rightarrow> string \<Rightarrow> string \<Rightarrow> feed \<Rightarrow> go_error option \<times> feed" where
  "deliverToRegisteredPeer bad_url lk uuid p sender body fd =
     (if pi_JSONRPCURL p = [] then (Some ''peer JSONRPCURL empty'', fd)
      else case bad_url (pi_JSONRPCURL p) of
        Some e \<Rightarrow> (Some (''build request: '' @ e), fd)
      | None \<Rightarrow>
          (case lk_post lk (pi_JSONRPCURL p)
                (JObj [(''jsonrpc'', JStr ''2.0''), (''id'', JStr uuid), (''method'', JStr ''message/send''),
                   (''params'', JObj [(''role'', JStr ''user''), (''kind'', JStr ''message''),
                      (''contextId'', JStr (pi_Name p)),
                      (''parts'', JArr [JObj [(''kind'', JStr ''text''), (''text'', JStr body)]]),
                      (''chepherd_from'', JStr sender)])]) fd of
             (Inl e, fd') \<Rightarrow> (Some (''POST '' @ pi_JSONRPCURL p @ '': '' @ e), fd')
           | (Inr status, fd') \<Rightarrow>
               (if status \<ge> 400 then Some (''peer returned HTTP '' @ int_text status) else None, fd')))"

definition text_message :: "string \<Rightarrow> string \<Rightarrow> string \<Rightarrow> message" where
  "text_message context sender body =
     \<lparr>m_Role = ''user'', m_Parts = [\<lparr>p_Kind = ''text'', p_Text = body, p_File = None, p_Data = None\<rparr>],
      m_MessageID = [], m_TaskID = [], m_ContextID = context, m_Kind = ''message'', m_From = sender\<rparr>"

text \<open>One recipient: whether it counts as delivered.\<close>

definition deliver_one ::
    "(string \<Rightarrow> go_error option) \<Rightarrow> links \<Rightarrow> time \<Rightarrow> string \<Rightarrow> string \<Rightarrow> string \<Rightarrow> string \<Rightarrow> feed \<Rightarrow> bool \<times> feed" where
  "deliver_one bad_url lk now uuid author body rcpt fd =
     (let via = (\<lambda>context. case lk_deliver lk of None \<Rightarrow> (False, fd)
                  | Some deliver \<Rightarrow> (let (err, fd') = deliver (text_message context author body) fd in (err = None, fd')))
      in case registeredPeerByName now fd rcpt of
        Some p \<Rightarrow>
          if has_prefix HubPeerScheme (pi_JSONRPCURL p) then via (''@'' @ rcpt @ ''/inbox'')
          else (let (err, fd') = deliverToRegisteredPeer bad_url lk uuid p author body fd in (err = None, fd'))
      | None \<Rightarrow>
          (case fd_rt fd of
             None \<Rightarrow> (False, fd)
           | Some rt \<Rightarrow> (case rt_Get rcpt rt of Ret (Some _) \<Rightarrow> via rcpt | _ \<Rightarrow> (False, fd))))"

fun fan_out ::
    "(string \<Rightarrow> go_error option) \<Rightarrow> links \<Rightarrow> time \<Rightarrow> (nat \<Rightarrow> string) \<Rightarrow> string \<Rightarrow> string \<Rightarrow> string list \<Rightarrow> feed
       \<Rightarrow> (string list \<times> string list) \<times> feed" where
  "fan_out bad_url lk now uuid author body [] fd = (([], []), fd)"
| "fan_out bad_url lk now uuid author body (rcpt # rest) fd =
     (if rcpt = operator \<or> rcpt = author \<or> fd_rt fd = None
      then fan_out bad_url lk now uuid author body rest fd
      else
        let (ok, fd1) = deliver_one bad_url lk now (uuid (length rest)) author body rcpt fd;
            ((delivered, undelivered), fd2) = fan_out bad_url lk now uuid author body rest fd1
        in ((if ok then rcpt # delivered else delivered, if ok then undelivered else rcpt # undelivered), fd2))"

record posted =
  po_Message :: channel_message
  po_Recipients :: "string list"
  po_Delivered :: "string list"
  po_Undelivered :: "string list"
  po_Default :: "string option"

datatype feed_reply =
    FError int go_error
  | FNotFound
  | FFeed channel "string list" "transcript_row list" string string string
  | FPosted posted
  | FMerged "string list" "transcript_row list"
  | FCounts "(string \<times> nat) list"

definition dec_post :: "json \<Rightarrow> (string \<times> string) result" where
  "dec_post v = res_bind (struct_ok ''runtimehttp.postMessageRequest'' v) (\<lambda>j. res_bind (get_str ''author'' j) (\<lambda>a.
     res_bind (get_str ''body'' j) (\<lambda>b. Inr (a, b))))"

definition post_author :: "string \<Rightarrow> string" where
  "post_author a = (if trim_space a = [] then operator else trim_space a)"

text \<open>The recipients of a post, and the lead it was routed to for want of a mention.\<close>

definition post_recipients :: "time \<Rightarrow> feed \<Rightarrow> string \<Rightarrow> string \<Rightarrow> string \<Rightarrow> string list \<times> string option" where
  "post_recipients now fd team author body =
     (let mentions = parseMentions body; lead = resolveTeamLead fd team in
      if default_routed author mentions lead then ([lead], Some lead)
      else (resolveRecipients mentions (teamMembersOf now fd team) (teamMembersOf now fd), None))"

definition teamTranscriptPost ::
    "feed_env \<Rightarrow> (string \<Rightarrow> go_error option) \<Rightarrow> (nat \<Rightarrow> string) \<Rightarrow> links \<Rightarrow> raw \<Rightarrow> channel \<Rightarrow> string \<Rightarrow> feed
       \<Rightarrow> feed_reply \<times> feed" where
  "teamTranscriptPost en bad_url uuid lk req ch team fd =
     (case unmarshal dec_post req of
        Inl e \<Rightarrow> (FError 400 (''decode: '' @ e), fd)
      | Inr (author0, body0) \<Rightarrow>
          let body = trim_space body0; author = post_author author0 in
          if body = [] then (FError 400 ''body required'', fd)
          else
            let (recipients, routed) = post_recipients (fe_now en) fd team author body;
                msg = \<lparr>cg_ID = fe_messageID en, cg_ChannelID = ch_ID ch, cg_Author = author, cg_Body = body,
                       cg_Mentions = parseMentions body, cg_TaskID = [], cg_CreatedAt = fe_now en\<rparr>
            in (case fd_channels fd of
                  None \<Rightarrow> (FError 503 ''channel store not configured'', fd)
                | Some db \<Rightarrow>
                    (case channel_SaveMessage (fe_post en) (Some msg) db of
                       (Some e, db') \<Rightarrow> (FError 500 (''save message: '' @ e), fd\<lparr>fd_channels := Some db'\<rparr>)
                     | (None, db') \<Rightarrow>
                         let ((delivered, undelivered), fd') =
                               fan_out bad_url lk (fe_now en) uuid author body recipients
                                 (fd\<lparr>fd_channels := Some db', fd_ticks := map_option (tick_notify team) (fd_ticks fd)\<rparr>)
                         in (FPosted \<lparr>po_Message = msg, po_Recipients = recipients, po_Delivered = delivered,
                                po_Undelivered = undelivered, po_Default = routed\<rparr>, fd'))))"

definition teamTranscriptGet :: "feed_env \<Rightarrow> channel \<Rightarrow> string \<Rightarrow> feed \<Rightarrow> feed_reply" where
  "teamTranscriptGet en ch team fd =
     (let lead = resolveTeamLead fd team;
          names = (case fd_channels fd of None \<Rightarrow> []
            | Some db \<Rightarrow> (case channel_Members (fe_members en) db (ch_ID ch) of
                Inl _ \<Rightarrow> [] | Inr ms \<Rightarrow> map cm_Member ms))
      in FFeed ch names (collectTranscriptRows en fd ch team) (teamGitHubURL fd team) lead
           (resolveTeamLeadRole fd team lead))"

datatype http_method = GET | POST | PUT | PATCH | DELETE | OTHER

text \<open>The path after \<open>/api/v1/teams/\<close> is cut at its first slash.\<close>

definition cut_slash :: "string \<Rightarrow> string \<times> string option" where
  "cut_slash p = (takeWhile (\<lambda>c. c \<noteq> CHR ''/'') p,
     case dropWhile (\<lambda>c. c \<noteq> CHR ''/'') p of [] \<Rightarrow> None | _ # rest \<Rightarrow> Some rest)"

definition teamMessagesHandler ::
    "feed_env \<Rightarrow> (string \<Rightarrow> go_error option) \<Rightarrow> (nat \<Rightarrow> string) \<Rightarrow> links \<Rightarrow> http_method \<Rightarrow> string \<Rightarrow> raw \<Rightarrow> feed
       \<Rightarrow> feed_reply \<times> feed" where
  "teamMessagesHandler en bad_url uuid lk meth path req fd =
     (let (team, sub) = cut_slash (trim_prefix ''/api/v1/teams/'' path) in
      if sub \<noteq> Some ''messages'' then (FNotFound, fd)
      else if team = [] then (FError 400 ''team required'', fd)
      else if fd_channels fd = None then (FError 503 ''channel store not configured'', fd)
      else case ensureTeamChannel en team fd of
        (Inl e, fd1) \<Rightarrow> (FError 500 (''ensure channel: '' @ e), fd1)
      | (Inr ch, fd1) \<Rightarrow>
          (case meth of
             GET \<Rightarrow> (teamTranscriptGet en ch team fd1, fd1)
           | POST \<Rightarrow> teamTranscriptPost en bad_url uuid lk req ch team fd1
           | _ \<Rightarrow> (FError 405 ''method not allowed'', fd1)))"

section \<open>Several teams and ticket counts\<close>

fun merge_teams :: "feed_env \<Rightarrow> (nat \<Rightarrow> string) \<Rightarrow> string list \<Rightarrow> feed \<Rightarrow> transcript_row list \<times> feed" where
  "merge_teams en ids [] fd = ([], fd)"
| "merge_teams en ids (team # teams) fd =
     (case ensureTeamChannel (en\<lparr>fe_channelID := ids (length teams)\<rparr>) team fd of
        (Inl _, fd1) \<Rightarrow> merge_teams en ids teams fd1
      | (Inr ch, fd1) \<Rightarrow>
          let rows = collectTranscriptRows en fd1 ch team; (rest, fd2) = merge_teams en ids teams fd1
          in (rows @ rest, fd2))"

definition requested_teams :: "string \<Rightarrow> feed \<Rightarrow> string list" where
  "requested_teams query fd =
     (let requested = trim_space query in
      sort (if requested = [] \<or> requested = ''all''
            then (case fd_rt fd of None \<Rightarrow> [] | Some rt \<Rightarrow> filter (\<lambda>n. n \<noteq> []) (map te_Name (ListTeams rt)))
            else filter (\<lambda>n. n \<noteq> []) (map trim_space (split_on CHR '','' requested))))"

definition transcriptMultiTeamHandler ::
    "feed_env \<Rightarrow> (nat \<Rightarrow> string) \<Rightarrow> http_method \<Rightarrow> string \<Rightarrow> feed \<Rightarrow> feed_reply \<times> feed" where
  "transcriptMultiTeamHandler en ids meth query fd =
     (if meth \<noteq> GET then (FError 405 ''method not allowed'', fd)
      else if fd_channels fd = None then (FError 503 ''channel store not configured'', fd)
      else
        let teams = requested_teams query fd; (rows, fd') = merge_teams en ids teams fd
        in (FMerged teams (newest_first rows), fd'))"

definition count_ticket :: "string \<Rightarrow> (string \<times> nat) list \<Rightarrow> (string \<times> nat) list" where
  "count_ticket n counts =
     AList.update n (Suc (case map_of counts n of None \<Rightarrow> 0 | Some c \<Rightarrow> c)) counts"

definition ticket_counts :: "transcript_row list \<Rightarrow> (string \<times> nat) list" where
  "ticket_counts rows = fold (\<lambda>r. fold (\<lambda>n. count_ticket (CHR ''#'' # n)) (parseTickets (tr_Body r))) rows []"

definition ticketMentionsHandler :: "feed_env \<Rightarrow> http_method \<Rightarrow> string \<Rightarrow> feed \<Rightarrow> feed_reply \<times> feed" where
  "ticketMentionsHandler en meth team fd =
     (if meth \<noteq> GET then (FError 405 ''method not allowed'', fd)
      else if fd_channels fd = None then (FError 503 ''channel store not configured'', fd)
      else if team = [] then (FError 400 ''team required'', fd)
      else case ensureTeamChannel en team fd of
        (Inl e, fd1) \<Rightarrow> (FError 500 (''ensure channel: '' @ e), fd1)
      | (Inr ch, fd1) \<Rightarrow> (FCounts (ticket_counts (collectTranscriptRows en fd1 ch team)), fd1))"

end
