(* ===== verification/Transcript_Guarantees.thy ===== *)
theory Transcript_Guarantees
  imports Team_Transcript Team_Directory "HOL-Library.Multiset"
begin

text \<open>
  What the team transcript guarantees: every recipient of a post is accounted for, a posted message is in
  the next feed, the lead is the best-placed candidate, ticket counts are exact; and what it does not: an
  operator's message to one team is in the feed of every team.
\<close>

section \<open>Fan-out\<close>

text \<open>The HTTP client and the deliverer touch neither the runtime nor the channels.\<close>

definition same_feed :: "feed \<Rightarrow> feed \<Rightarrow> bool" where
  "same_feed fd fd' \<longleftrightarrow> fd_rt fd' = fd_rt fd \<and> fd_channels fd' = fd_channels fd \<and> fd_peers fd' = fd_peers fd"

definition links_ok :: "links \<Rightarrow> bool" where
  "links_ok lk \<longleftrightarrow> (\<forall>u j fd. same_feed fd (snd (lk_post lk u j fd))) \<and>
     (\<forall>d m fd. lk_deliver lk = Some d \<longrightarrow> same_feed fd (snd (d m fd)))"

lemma same_feed_refl [simp]: "same_feed fd fd"
  by (simp add: same_feed_def)

lemma to_peer_same:
  assumes "links_ok lk"
  shows "same_feed fd (snd (deliverToRegisteredPeer bad lk uuid p author body fd))"
proof -
  have "same_feed fd fd'" if "lk_post lk u j fd = (r, fd')" for u j r fd'
    using assms that unfolding links_ok_def by (metis snd_conv)
  then show ?thesis by (auto simp: deliverToRegisteredPeer_def split: option.split prod.split sum.split)
qed

lemma deliver_one_same:
  assumes "links_ok lk"
  shows "same_feed fd (snd (deliver_one bad lk now uuid author body rcpt fd))"
proof -
  have "same_feed fd fd'" if "lk_deliver lk = Some d" "d m fd = (r, fd')" for d m r fd'
    using assms that unfolding links_ok_def by (metis snd_conv)
  moreover have "same_feed fd fd'" if "deliverToRegisteredPeer bad lk uuid p author body fd = (r, fd')" for p r fd'
    using to_peer_same [OF assms, of fd bad uuid p author body] that by simp
  ultimately show ?thesis
    by (auto simp: deliver_one_def Let_def split: option.split prod.split rt_res.split)
qed

lemma fan_out_same:
  assumes "links_ok lk"
  shows "same_feed fd (snd (fan_out bad lk now uuid author body rs fd))"
proof (induction rs arbitrary: fd)
  case (Cons r rs)
  obtain ok fd1 where d: "deliver_one bad lk now (uuid (length rs)) author body r fd = (ok, fd1)" by fastforce
  then have "same_feed fd fd1" using deliver_one_same [OF assms] by (metis snd_conv)
  then show ?case using Cons.IH [of fd] Cons.IH [of fd1] by (auto simp: same_feed_def d split: prod.splits)
qed (simp add: same_feed_def)

lemma fan_out_parts:
  assumes "links_ok lk" "fd_rt fd \<noteq> None"
  shows "mset (fst (fst (fan_out bad lk now uuid author body rs fd))) + mset (snd (fst (fan_out bad lk now uuid author body rs fd)))
    = mset (filter (\<lambda>r. r \<noteq> operator \<and> r \<noteq> author) rs)"
  using assms(2)
proof (induction rs arbitrary: fd)
  case (Cons r rs)
  obtain ok fd1 where d: "deliver_one bad lk now (uuid (length rs)) author body r fd = (ok, fd1)" by fastforce
  then have "same_feed fd fd1" using deliver_one_same [OF assms(1)] by (metis snd_conv)
  then have "fd_rt fd1 \<noteq> None" using Cons.prems by (simp add: same_feed_def)
  then show ?case using Cons.IH [of fd] Cons.IH [of fd1] Cons.prems by (auto simp: d split: prod.splits)
qed simp

section \<open>Posting\<close>

lemma post_recipients_distinct: "distinct (fst (post_recipients now fd team author body))"
  by (simp add: post_recipients_def resolveRecipients_def Let_def)

text \<open>Everything a successful post did.\<close>

lemma post_done:
  assumes "teamTranscriptPost en bad uuid lk req ch team fd = (FPosted p, fd')"
  obtains db db' where "fd_channels fd = Some db" "channel_SaveMessage (fe_post en) (Some (po_Message p)) db = (None, db')"
    "((po_Delivered p, po_Undelivered p), fd') = fan_out bad lk (fe_now en) uuid (cg_Author (po_Message p))
       (cg_Body (po_Message p)) (po_Recipients p)
       (fd\<lparr>fd_channels := Some db', fd_ticks := map_option (tick_notify team) (fd_ticks fd)\<rparr>)"
    "(po_Recipients p, po_Default p) = post_recipients (fe_now en) fd team (cg_Author (po_Message p)) (cg_Body (po_Message p))"
    "cg_ID (po_Message p) = fe_messageID en" "cg_ChannelID (po_Message p) = ch_ID ch"
    "cg_CreatedAt (po_Message p) = fe_now en" "cg_Mentions (po_Message p) = parseMentions (cg_Body (po_Message p))"
proof -
  obtain author0 body0 where req: "unmarshal dec_post req = Inr (author0, body0)"
    using assms by (cases "unmarshal dec_post req") (auto simp: teamTranscriptPost_def)
  let ?body = "trim_space body0" and ?author = "post_author author0"
  obtain rs routed where rs: "post_recipients (fe_now en) fd team ?author ?body = (rs, routed)" by fastforce
  let ?msg = "\<lparr>cg_ID = fe_messageID en, cg_ChannelID = ch_ID ch, cg_Author = ?author, cg_Body = ?body,
     cg_Mentions = parseMentions ?body, cg_TaskID = [], cg_CreatedAt = fe_now en\<rparr>"
  have nonempty: "?body \<noteq> []" using assms by (auto simp: teamTranscriptPost_def req Let_def)
  obtain db where db: "fd_channels fd = Some db"
    using assms by (cases "fd_channels fd") (auto simp: teamTranscriptPost_def req nonempty rs Let_def)
  obtain db' where saved: "channel_SaveMessage (fe_post en) (Some ?msg) db = (None, db')"
    using assms by (cases "channel_SaveMessage (fe_post en) (Some ?msg) db"; cases "fst (channel_SaveMessage (fe_post en) (Some ?msg) db)")
      (auto simp: teamTranscriptPost_def req nonempty rs db Let_def)
  obtain d u fd2 where fan: "fan_out bad lk (fe_now en) uuid ?author ?body rs
      (fd\<lparr>fd_channels := Some db', fd_ticks := map_option (tick_notify team) (fd_ticks fd)\<rparr>) = ((d, u), fd2)"
    by (metis surj_pair)
  have "p = \<lparr>po_Message = ?msg, po_Recipients = rs, po_Delivered = d, po_Undelivered = u, po_Default = routed\<rparr> \<and> fd' = fd2"
    using assms by (simp add: teamTranscriptPost_def req nonempty rs db saved fan Let_def)
  then show thesis using that [of db db'] db saved fan rs by simp
qed


section \<open>The channel of a team\<close>

lemma sync_roster_channels [simp]:
  "cd_channels (sync_roster en ms ch db) = cd_channels db" "cd_messages (sync_roster en ms ch db) = cd_messages db"
proof -
  have "cd_channels (fold (\<lambda>m. enrol (f m) now i m) xs db) = cd_channels db \<and>
      cd_messages (fold (\<lambda>m. enrol (f m) now i m) xs db) = cd_messages db" for f now i xs
    by (induction xs arbitrary: db) simp_all
  then show "cd_channels (sync_roster en ms ch db) = cd_channels db"
    "cd_messages (sync_roster en ms ch db) = cd_messages db" unfolding sync_roster_def by blast+
qed

lemma enrol_ok: "channel_db_ok db \<Longrightarrow> channel_db_ok (enrol d now i m db)"
  by (simp add: enrol_def channel_AddMember_ok)

lemma sync_roster_ok: "channel_db_ok db \<Longrightarrow> channel_db_ok (sync_roster en ms ch db)"
proof -
  have "channel_db_ok db \<Longrightarrow> channel_db_ok (fold (\<lambda>m. enrol (f m) now i m) xs db)" for f now i xs
    by (induction xs arbitrary: db) (simp_all add: enrol_ok)
  then show "channel_db_ok db \<Longrightarrow> channel_db_ok (sync_roster en ms ch db)" unfolding sync_roster_def by blast
qed

text \<open>With a working driver the roster is enrolled.\<close>

lemma sync_roster_enrols:
  assumes "\<And>m. fe_enrol en m = d" "dr_err d = None" "has_channel db (ch_ID ch)" "ch_ID ch \<noteq> []"
  shows "enrolled (sync_roster en ms ch db) i m \<longleftrightarrow>
    (i = ch_ID ch \<and> m \<in> set (operator # ms) \<and> m \<noteq> []) \<or> enrolled db i m"
proof -
  have "d = \<lparr>dr_name = dr_name d, dr_err = None, dr_violation = dr_violation d\<rparr>" using assms(2) by simp
  from roster.enrol_all(1) [of db "ch_ID ch" "dr_name d" "dr_violation d" "fe_now en" "operator # ms" i m, folded this]
  show ?thesis using assms by (simp add: sync_roster_def)
qed

lemma find_channel:
  assumes "dr_err (fe_find en) = None" "row_get ch_Name (CHR ''#'' # team) (cd_channels db) = Some ch" "fd_channels fd = Some db"
  shows "ensureTeamChannel en team fd =
    (Inr ch, fd\<lparr>fd_channels := Some (sync_roster en (teamMembersOf (fe_now en) fd team) ch db)\<rparr>)"
  using assms by (simp add: ensureTeamChannel_def channel_GetByName_def)

text \<open>Whatever the drivers did: the channel returned is in the table under the team's name.\<close>

lemma ensured:
  assumes "ensureTeamChannel en team fd = (Inr ch, fd')" "fd_channels fd = Some db" "channel_db_ok db"
  obtains db' where "fd_channels fd' = Some (sync_roster en (teamMembersOf (fe_now en) fd team) ch db')"
    "channel_db_ok db'" "row_get ch_Name (CHR ''#'' # team) (cd_channels db') = Some ch"
    "cd_messages db' = cd_messages db" "cd_members db' = cd_members db"
    "fd_rt fd' = fd_rt fd" "fd_peers fd' = fd_peers fd" "fd_tasks fd' = fd_tasks fd"
proof (cases "channel_GetByName (fe_find en) db (CHR ''#'' # team)")
  case (Inr c)
  then have "row_get ch_Name (CHR ''#'' # team) (cd_channels db) = Some c"
    by (auto simp: channel_GetByName_def split: option.splits)
  moreover have "ch = c" "fd' = fd\<lparr>fd_channels := Some (sync_roster en (teamMembersOf (fe_now en) fd team) c db)\<rparr>"
    using assms(1) by (auto simp: ensureTeamChannel_def assms(2) Inr Let_def)
  ultimately show thesis using that [of db] assms(3) by simp
next
  case (Inl e)
  let ?ch = "\<lparr>ch_ID = fe_channelID en, ch_Name = CHR ''#'' # team, ch_Kind = ''team'', ch_CreatedBy = operator,
    ch_CreatedAt = fe_now en, ch_Visibility = ''irc''\<rparr>"
  obtain db' where saved: "channel_Save (fe_save en) (Some ?ch) db = (None, db')"
    using assms(1)
    by (cases "channel_Save (fe_save en) (Some ?ch) db"; cases "fst (channel_Save (fe_save en) (Some ?ch) db)")
      (auto simp: ensureTeamChannel_def assms(2) Inl Let_def)
  have ok: "channel_db_ok db'" using channel_Save_ok [OF assms(3), of "fe_save en" "Some ?ch"] saved by simp
  have db': "db' = db\<lparr>cd_channels := row_upsert ch_ID (\<lambda>old new. new) ?ch (cd_channels db)\<rparr>"
    using saved by (auto simp: channel_Save_def split: if_splits option.splits)
  have "?ch \<in> set (row_upsert ch_ID (\<lambda>old new. new) ?ch cs)" for cs by (induction cs) auto
  then have "row_get ch_Name (CHR ''#'' # team) (cd_channels db') = Some ?ch"
    using row_get_in_set [of ch_Name "cd_channels db'" ?ch] ok by (simp add: channel_db_ok_def channel_keys_def db')
  moreover have "ch = ?ch" "fd' = fd\<lparr>fd_channels := Some (sync_roster en (teamMembersOf (fe_now en) fd team) ?ch db')\<rparr>"
    using assms(1) by (auto simp: ensureTeamChannel_def assms(2) Inl saved Let_def)
  ultimately show thesis using that [of db'] ok by (simp add: db')
qed

lemma named_channel:
  assumes "channel_db_ok db" "row_get ch_Name n (cd_channels db) = Some ch"
  shows "has_channel db (ch_ID ch)" "ch_ID ch \<noteq> []"
proof -
  have "ch_ID ch \<in> ch_ID ` set (cd_channels db)" using row_get_key [OF assms(2)] by blast
  then show "has_channel db (ch_ID ch)" "ch_ID ch \<noteq> []"
    using assms(1) by (auto simp: has_channel_iff channel_db_ok_def channel_refs_def)
qed

section \<open>A posted message is in the next feed\<close>

lemma insort_min:
  "\<forall>x \<in> set xs. k y \<le> k x \<Longrightarrow> insort_key k y xs = y # xs"
  by (cases xs) auto

lemma newest_is_first:
  assumes "\<forall>m \<in> set ms. cg_CreatedAt m < cg_CreatedAt x"
  shows "latest_first (ms @ [x]) = x # latest_first ms"
  using assms
proof (induction ms)
  case (Cons m ms)
  have "insort_key (\<lambda>m. - cg_CreatedAt m) m (x # latest_first ms) = x # insort_key (\<lambda>m. - cg_CreatedAt m) m (latest_first ms)"
    using Cons.prems by simp
  then show ?case using Cons by (simp add: latest_first_def)
qed (simp add: latest_first_def)

lemma newest_first_sorted: "sorted_wrt (\<lambda>r r'. tr_CreatedAt r' \<le> tr_CreatedAt r) (newest_first rows)"
  using sorted_sort_key [of "\<lambda>r. - tr_CreatedAt r" rows] by (simp add: newest_first_def sorted_map)

lemma message_listed:
  assumes "written db ms" "m \<in> set (take 100 (latest_first (filter (\<lambda>m. cg_ChannelID m = ch_ID ch) ms)))"
    "dr_err (fe_messages en) = None" "fd_channels fd = Some db"
  shows "\<exists>row \<in> set (collectTranscriptRows en fd ch team).
    tr_ID row = cg_ID m \<and> tr_Author row = cg_Author m \<and> tr_Body row = cg_Body m \<and> tr_CreatedAt row = cg_CreatedAt m"
proof -
  have "m \<in> set (feed_messages en fd ch)"
    using assms(2) by (simp add: feed_messages_def assms(4) channel_Messages_written [OF assms(1,3)] message_limit_def)
  then have "message_feed_row team (teamGitHubURL fd team) (resolveTeamLead fd team) m \<in> set (collectTranscriptRows en fd ch team)"
    by (auto simp: collectTranscriptRows_def newest_first_def Let_def)
  then show ?thesis by (rule bexI [rotated]) (simp add: message_feed_row_def Let_def)
qed

text \<open>C9: a message accepted by the transcript endpoint is in the feed the next read returns, newest first,
  and the members listed with it include the operator and the whole roster.\<close>

theorem posted_message_visible:
  assumes "links_ok lk" "fd_channels fd = Some db" "channel_db_ok db" "written db ms"
    and "\<forall>m \<in> set ms. cg_CreatedAt m < fe_now en"
    and "teamMessagesHandler en bad uuid lk POST path req fd = (FPosted p, fd1)"
    and "dr_err (fe_find en') = None" "\<And>m. fe_enrol en' m = d" "dr_err d = None"
      "dr_err (fe_messages en') = None" "dr_err (fe_members en') = None"
  shows "\<exists>ch names rows url lead role fd2.
    teamMessagesHandler en' bad uuid' lk' GET path req' fd1 = (FFeed ch names rows url lead role, fd2) \<and>
    sorted_wrt (\<lambda>r r'. tr_CreatedAt r' \<le> tr_CreatedAt r) rows \<and>
    (\<exists>row \<in> set rows. tr_ID row = cg_ID (po_Message p) \<and> tr_Author row = cg_Author (po_Message p)
       \<and> tr_Body row = cg_Body (po_Message p)) \<and>
    operator \<in> set names \<and> 
    set (teamMembersOf (fe_now en') fd1 (fst (cut_slash (trim_prefix ''/api/v1/teams/'' path)))) - {[]} \<subseteq> set names"
proof -
  obtain team sub where cut: "cut_slash (trim_prefix ''/api/v1/teams/'' path) = (team, sub)" by fastforce
  have route: "sub = Some ''messages''" "team \<noteq> []"
    using assms(6) by (auto simp: teamMessagesHandler_def cut Let_def split: if_splits)
  obtain ch fdc where ens: "ensureTeamChannel en team fd = (Inr ch, fdc)"
    using assms(6) route assms(2)
    by (cases "ensureTeamChannel en team fd"; cases "fst (ensureTeamChannel en team fd)")
      (auto simp: teamMessagesHandler_def cut Let_def)
  have post: "teamTranscriptPost en bad uuid lk req ch team fdc = (FPosted p, fd1)"
    using assms(6) route assms(2) by (simp add: teamMessagesHandler_def cut ens Let_def)
  obtain db1 where db1: "fd_channels fdc = Some (sync_roster en (teamMembersOf (fe_now en) fd team) ch db1)"
    "channel_db_ok db1" "row_get ch_Name (CHR ''#'' # team) (cd_channels db1) = Some ch" "cd_messages db1 = cd_messages db"
    by (rule ensured [OF ens assms(2,3)])
  let ?db2 = "sync_roster en (teamMembersOf (fe_now en) fd team) ch db1"
  have ok2: "channel_db_ok ?db2" using sync_roster_ok [OF db1(2)] .
  obtain db3 where saved: "channel_SaveMessage (fe_post en) (Some (po_Message p)) ?db2 = (None, db3)"
    and fan: "((po_Delivered p, po_Undelivered p), fd1) = fan_out bad lk (fe_now en) uuid (cg_Author (po_Message p))
       (cg_Body (po_Message p)) (po_Recipients p)
       (fdc\<lparr>fd_channels := Some db3, fd_ticks := map_option (tick_notify team) (fd_ticks fdc)\<rparr>)"
    and msg: "cg_ChannelID (po_Message p) = ch_ID ch" "cg_CreatedAt (po_Message p) = fe_now en"
    using post_done [OF post] db1(1) by (metis option.inject)
  have db3: "db3 = ?db2\<lparr>cd_messages := cd_messages ?db2 @ [message_to_row (po_Message p)]\<rparr>"
    using saved by (auto simp: channel_SaveMessage_def split: if_splits option.splits)
  have fd1: "fd_channels fd1 = Some db3"
    using fan_out_same [OF assms(1)] fan unfolding same_feed_def by (metis feed.select_convs(3) feed.surjective feed.update_convs(3,5) snd_conv)
  let ?db4 = "sync_roster en' (teamMembersOf (fe_now en') fd1 team) ch db3"
  let ?fd2 = "fd1\<lparr>fd_channels := Some ?db4\<rparr>"
  have found: "ensureTeamChannel en' team fd1 = (Inr ch, ?fd2)"
    using find_channel [OF assms(7) _ fd1] db1(3) by (simp add: db3)
  obtain mems where mems: "channel_Members (fe_members en') ?db4 (ch_ID ch) = Inr mems"
    using assms(11) by (simp add: channel_Members_def)
  have known: "has_channel db3 (ch_ID ch)" "ch_ID ch \<noteq> []"
    using named_channel [OF db1(2,3)] by (simp_all add: has_channel_def db3)
  have names: "set (map cm_Member mems) \<supseteq> set (operator # teamMembersOf (fe_now en') fd1 team) - {[]}"
    using listed_members [OF mems] sync_roster_enrols [OF assms(8,9) known] by auto
  have wr: "written ?db4 (ms @ [po_Message p])"
    using assms(4) by (simp add: written_def db3 db1(4))
  have "po_Message p \<in> set (take 100 (latest_first (filter (\<lambda>m. cg_ChannelID m = ch_ID ch) (ms @ [po_Message p]))))"
    using newest_is_first [of "filter (\<lambda>m. cg_ChannelID m = ch_ID ch) ms" "po_Message p"] assms(5) msg by simp
  from message_listed [OF wr this assms(10), of ?fd2 team]
  have row: "\<exists>row \<in> set (collectTranscriptRows en' ?fd2 ch team). tr_ID row = cg_ID (po_Message p) \<and>
      tr_Author row = cg_Author (po_Message p) \<and> tr_Body row = cg_Body (po_Message p)" by auto
  have "teamMessagesHandler en' bad uuid' lk' GET path req' fd1 =
      (FFeed ch (map cm_Member mems) (collectTranscriptRows en' ?fd2 ch team) (teamGitHubURL ?fd2 team)
        (resolveTeamLead ?fd2 team) (resolveTeamLeadRole ?fd2 team (resolveTeamLead ?fd2 team)), ?fd2)"
    using route fd1 by (simp add: teamMessagesHandler_def cut found teamTranscriptGet_def mems Let_def)
  moreover have "sorted_wrt (\<lambda>r r'. tr_CreatedAt r' \<le> tr_CreatedAt r) (collectTranscriptRows en' ?fd2 ch team)"
    by (simp add: collectTranscriptRows_def Let_def newest_first_sorted)
  moreover have "operator \<in> set (map cm_Member mems)" using names by (auto simp: operator_def)
  moreover have "set (teamMembersOf (fe_now en') fd1 (fst (cut_slash (trim_prefix ''/api/v1/teams/'' path)))) - {[]}
      \<subseteq> set (map cm_Member mems)" using names by (auto simp: cut)
  ultimately show ?thesis using row by blast
qed

section \<open>The lead\<close>

text \<open>The roles an agent is a candidate with: those of its memberships, or else that of its session.\<close>

definition candidate :: "string \<Rightarrow> runtime \<Rightarrow> string \<Rightarrow> string \<Rightarrow> bool" where
  "candidate team rt nm role \<longleftrightarrow>
     (\<exists>m \<in> set (ListMemberships [] team rt). ms_AgentName m = nm \<and> nm \<noteq> [] \<and> ms_Role m = role) \<or>
     (\<exists>i \<in> set (rt_List rt). si_Team i = team \<and> si_Name i = nm \<and> si_Role i = role \<and>
        \<not> (nm \<noteq> [] \<and> (\<exists>m \<in> set (ListMemberships [] team rt). ms_AgentName m = nm)))"

lemma lead_candidates_iff:
  "(nm, prio) \<in> set (lead_candidates team rt) \<longleftrightarrow> (\<exists>role. candidate team rt nm role \<and> prio = rolePriorityIndex role)"
  by (auto simp: lead_candidates_def candidate_def Let_def image_iff) (metis | blast)+

lemma hd_sort_key:
  assumes "sort_key k xs = y # ys"
  shows "y \<in> set xs" "\<forall>x \<in> set xs. k y \<le> k x"
proof -
  have s: "set (y # ys) = set xs" using assms set_sort [of k xs] by metis
  then show "y \<in> set xs" by auto
  have "sorted (map k (y # ys))" using sorted_sort_key [of k xs] assms by simp
  then show "\<forall>x \<in> set xs. k y \<le> k x" using s by auto
qed

text \<open>C32: the lead of a team with candidates is one of them, and no candidate has a better role, or the same
  role and an earlier name; a team without candidates is led by the operator.\<close>

theorem lead_is_best:
  assumes "fd_rt fd = Some rt"
  shows "if (\<exists>nm role. candidate team rt nm role)
    then (\<exists>role. candidate team rt (resolveTeamLead fd team) role \<and>
      (\<forall>nm role'. candidate team rt nm role' \<longrightarrow>
         (rolePriorityIndex role, resolveTeamLead fd team) \<le> (rolePriorityIndex role', nm)))
    else resolveTeamLead fd team = operator"
proof (cases "sort_key (\<lambda>(nm, prio). (prio, nm)) (lead_candidates team rt)")
  case Nil
  then have "lead_candidates team rt = []" by (metis length_0_conv length_sort)
  then have "\<not> (\<exists>nm role. candidate team rt nm role)" 
    using lead_candidates_iff [of _ _ team rt] by (metis empty_iff list.set(1))
  moreover have "resolveTeamLead fd team = operator" using Nil by (simp add: resolveTeamLead_def assms)
  ultimately show ?thesis by simp
next
  case (Cons y ys)
  obtain nm prio where y: "y = (nm, prio)" by (cases y)
  note best = hd_sort_key [OF Cons]
  obtain role where role: "candidate team rt nm role" "prio = rolePriorityIndex role"
    using best(1) lead_candidates_iff y by blast
  have lead: "resolveTeamLead fd team = nm" using Cons y by (simp add: resolveTeamLead_def assms)
  have "(prio, nm) \<le> (rolePriorityIndex role', nm')" if "candidate team rt nm' role'" for nm' role'
  proof -
    have "(nm', rolePriorityIndex role') \<in> set (lead_candidates team rt)" using that lead_candidates_iff by blast
    then show ?thesis using best(2) y by fastforce
  qed
  then show ?thesis using role lead by auto
qed

section \<open>Ticket counts\<close>

lemma map_of_count [simp]:
  "map_of (count_ticket n counts) m =
     (if m = n then Some (Suc (case map_of counts n of None \<Rightarrow> 0 | Some c \<Rightarrow> c)) else map_of counts m)"
  by (simp add: count_ticket_def)

lemma count_row:
  assumes "distinct ns"
  shows "map_of (fold (\<lambda>n. count_ticket (CHR ''#'' # n)) ns counts) (CHR ''#'' # m) =
    (if m \<in> set ns then Some (Suc (case map_of counts (CHR ''#'' # m) of None \<Rightarrow> 0 | Some c \<Rightarrow> c))
     else map_of counts (CHR ''#'' # m))"
  using assms by (induction ns arbitrary: counts) auto

lemma ticket_counts_exact:
  "map_of (ticket_counts rows) (CHR ''#'' # n) =
     (let k = length (filter (\<lambda>r. ticketed n (tr_Body r)) rows) in if k = 0 then None else Some k)"
proof -
  have "map_of (fold (\<lambda>r. fold (\<lambda>n. count_ticket (CHR ''#'' # n)) (parseTickets (tr_Body r))) rows counts) (CHR ''#'' # n) =
      (let k = length (filter (\<lambda>r. ticketed n (tr_Body r)) rows) in
       if k = 0 then map_of counts (CHR ''#'' # n)
       else Some (k + (case map_of counts (CHR ''#'' # n) of None \<Rightarrow> 0 | Some c \<Rightarrow> c)))" for counts
  proof (induction rows arbitrary: counts)
    case (Cons r rows)
    have d: "distinct (parseTickets (tr_Body r))" by (simp add: parseTickets_def)
    show ?case by (simp add: Cons.IH count_row [OF d] parseTickets_iff Let_def)
  qed simp
  from this [of "[]"] show ?thesis by (simp add: ticket_counts_def Let_def)
qed

section \<open>The operator's messages\<close>

text \<open>
  C41: the operator is a member of every team's channel, so every listed task from or for the operator is in
  the feed of every team, whoever the other party is.
\<close>

theorem operator_tasks_everywhere:
  assumes "fd_channels fd = Some db" "channel_db_ok db" "\<And>m. fe_enrol en m = d" "dr_err d = None"
    "dr_err (fe_members en) = None"
    and "ensureTeamChannel en team fd = (Inr ch, fd')"
    and "t \<in> set (feed_tasks en fd')" "unmarshal dec_feed_message (InputBlob t) = Inr (role, context, sender, (''text'', body) # parts)"
    and "sender = operator \<or> context = operator" "body \<noteq> []"
  shows "\<exists>row \<in> set (collectTranscriptRows en fd' ch team). tr_ID row = ''task:'' @ ID t \<and> tr_Body row = body"
proof -
  obtain db' where db': "fd_channels fd' = Some (sync_roster en (teamMembersOf (fe_now en) fd team) ch db')"
    "channel_db_ok db'" "row_get ch_Name (CHR ''#'' # team) (cd_channels db') = Some ch"
    by (rule ensured [OF assms(6,1,2)])
  let ?db = "sync_roster en (teamMembersOf (fe_now en) fd team) ch db'"
  obtain mems where mems: "channel_Members (fe_members en) ?db (ch_ID ch) = Inr mems"
    using assms(5) by (simp add: channel_Members_def)
  have "enrolled ?db (ch_ID ch) operator"
    using sync_roster_enrols [OF assms(3,4) named_channel [OF db'(2,3)]] by (simp add: operator_def)
  then have "operator \<in> cm_Member ` set mems" using listed_members [OF mems] by blast
  then obtain m where "m \<in> set mems" "cm_Member m = operator" by auto
  then have "taskRowBelongsToTeam en fd' ch team a r" if "a = operator \<or> r = operator" for a r
    using that by (auto simp: taskRowBelongsToTeam_def db'(1) mems)
  moreover have "operator \<noteq> []" by (simp add: operator_def)
  ultimately have "\<exists>row \<in> set (task_feed_row en fd' ch team (teamGitHubURL fd' team) t). tr_ID row = ''task:'' @ ID t \<and> tr_Body row = body"
    using assms(9,10) by (auto simp: task_feed_row_def assms(8) Let_def)
  then show ?thesis using assms(7) by (auto simp: collectTranscriptRows_def newest_first_def Let_def)
qed

section \<open>A team of one\<close>

definition ok_driver :: driver where
  "ok_driver = \<lparr>dr_name = ''sqlite'', dr_err = None, dr_violation = ''constraint failed''\<rparr>"

definition demo_env :: "time \<Rightarrow> feed_env" where
  "demo_env now = \<lparr>fe_now = now, fe_channelID = ''c1'', fe_messageID = ''m1'', fe_find = ok_driver, fe_save = ok_driver,
     fe_enrol = (\<lambda>_. ok_driver), fe_messages = ok_driver, fe_members = ok_driver, fe_post = ok_driver, fe_tasks = None\<rparr>"

definition demo_links :: links where
  "demo_links = \<lparr>lk_post = (\<lambda>u j fd. (Inr 200, fd)), lk_deliver = Some (\<lambda>m fd. (None, fd))\<rparr>"

definition demo_rt :: runtime where
  "demo_rt = (newRuntime ''/s'')\<lparr>rt_info := [(''1'', (example_info ''1'' ''ann'')\<lparr>si_Team := ''t''\<rparr>)],
     rt_byName := [(''ann'', ''1'')]\<rparr>"

definition demo_row :: ptask where
  "demo_row = \<lparr>ID = ''t1'', RunnerSID = ''r'', State = ''TASK_STATE_WORKING'', Method = ''message/send'',
     InputBlob = RawJson (JObj [(''chepherd_from'', JStr operator),
       (''parts'', JArr [JObj [(''kind'', JStr ''text''), (''text'', JStr ''hi'')]])]),
     OutputBlob = RawEmpty, AuthChallenge = [], CreatedAt = 1, UpdatedAt = 1\<rparr>"

definition demo_feed :: feed where
  "demo_feed = \<lparr>fd_rt = Some demo_rt, fd_peers = Some [], fd_channels = Some empty_db,
     fd_tasks = Some [demo_row], fd_ticks = Some newTranscriptBroadcaster\<rparr>"

definition demo_body :: raw where
  "demo_body = RawJson (JObj [(''author'', JStr ''bob''), (''body'', JStr ''@x'')])"

lemma demo_links_ok: "links_ok demo_links"
  by (simp add: links_ok_def demo_links_def)

lemma demo_parse: "unmarshal dec_post demo_body = Inr (''bob'', ''@x'')"
  by (simp add: unmarshal_def dec_post_def demo_body_def get_str_def jget_def fold_eq_eval)

lemma demo_mentions: "parseMentions ''@x'' = [''x'']"
  by (simp add: parseMentions_def dedup_def char_classes)

lemma demo_trim: "trim_space ''bob'' = ''bob''" "trim_space ''@x'' = ''@x''"
  by (simp_all add: trim_space_def is_space_def)

lemma demo_recipients: "post_recipients now fd team ''bob'' ''@x'' = ([''x''], None)"
  by (simp add: post_recipients_def demo_mentions default_routed_def operator_def resolveRecipients_def expand_mention_def
      has_prefix_def dedup_def)

lemma demo_post:
  assumes "fd_channels fd = Some db" "has_channel db (ch_ID ch)" "cd_messages db = []" "ch_ID ch \<noteq> []"
  shows "\<exists>p fd'. teamTranscriptPost (demo_env now) bad uuid lk demo_body ch team fd = (FPosted p, fd')"
  using assms
  by (auto simp: teamTranscriptPost_def demo_parse demo_trim demo_recipients post_author_def Let_def
      channel_SaveMessage_def demo_env_def ok_driver_def split: prod.splits)

definition demo_chan :: "time \<Rightarrow> channel" where
  "demo_chan now = \<lparr>ch_ID = ''c1'', ch_Name = ''#t'', ch_Kind = ''team'', ch_CreatedBy = operator,
     ch_CreatedAt = now, ch_Visibility = ''irc''\<rparr>"

definition demo_ensured :: "time \<Rightarrow> feed" where
  "demo_ensured now = demo_feed\<lparr>fd_channels := Some (sync_roster (demo_env now) (teamMembersOf now demo_feed ''t'')
     (demo_chan now) (empty_db\<lparr>cd_channels := [demo_chan now]\<rparr>))\<rparr>"

lemma demo_save:
  "channel_Save ok_driver (Some (demo_chan now)) empty_db = (None, empty_db\<lparr>cd_channels := [demo_chan now]\<rparr>)"
  by (simp add: channel_Save_def name_taken_def ok_driver_def demo_chan_def empty_db_def)

lemma demo_absent: "\<exists>e. channel_GetByName ok_driver empty_db ''#t'' = Inl e"
  by (simp add: channel_GetByName_def ok_driver_def empty_db_def)

lemma demo_channel: "ensureTeamChannel (demo_env now) ''t'' demo_feed = (Inr (demo_chan now), demo_ensured now)"
proof -
  have env: "fe_find (demo_env now) = ok_driver" "fe_save (demo_env now) = ok_driver" "fe_now (demo_env now) = now"
    "fe_channelID (demo_env now) = ''c1''" by (simp_all add: demo_env_def)
  have db: "fd_channels demo_feed = Some empty_db" by (simp add: demo_feed_def)
  obtain e where e: "channel_GetByName ok_driver empty_db ''#t'' = Inl e" using demo_absent by blast
  show ?thesis
    unfolding ensureTeamChannel_def db env option.case e sum.case Let_def demo_chan_def [symmetric] demo_save prod.case
    by (simp add: demo_ensured_def)
qed

lemma demo_ensured_fields:
  "fd_tasks (demo_ensured now) = Some [demo_row]" "fd_rt (demo_ensured now) = Some demo_rt"
  by (simp_all add: demo_ensured_def demo_feed_def)

lemma demo_posted:
  "\<exists>p fd'. teamTranscriptPost (demo_env now) bad uuid lk demo_body (demo_chan now) ''t'' (demo_ensured now) = (FPosted p, fd')"
proof (rule demo_post)
  show "fd_channels (demo_ensured now) = Some (sync_roster (demo_env now) (teamMembersOf now demo_feed ''t'')
     (demo_chan now) (empty_db\<lparr>cd_channels := [demo_chan now]\<rparr>))" by (simp add: demo_ensured_def)
qed (simp_all add: has_channel_def empty_db_def demo_chan_def)

lemma demo_handled:
  "\<exists>p fd'. teamMessagesHandler (demo_env now) bad uuid lk POST ''/api/v1/teams/t/messages'' demo_body demo_feed = (FPosted p, fd')"
proof -
  have "cut_slash (trim_prefix ''/api/v1/teams/'' ''/api/v1/teams/t/messages'') = (''t'', Some ''messages'')"
    by (simp add: cut_slash_def trim_prefix_def has_prefix_def)
  moreover have "fd_channels demo_feed = Some empty_db" by (simp add: demo_feed_def)
  ultimately have "teamMessagesHandler (demo_env now) bad uuid lk POST ''/api/v1/teams/t/messages'' demo_body demo_feed =
      teamTranscriptPost (demo_env now) bad uuid lk demo_body (demo_chan now) ''t'' (demo_ensured now)"
    by (simp add: teamMessagesHandler_def demo_channel)
  then show ?thesis using demo_posted by metis
qed

lemma empty_db_ok: "channel_db_ok empty_db" "written empty_db []"
  using channel_run_ok [of "[]"] by (simp_all add: channel_run_def written_def empty_db_def)

text \<open>C41 for a message to a stranger.\<close>

lemma posted_message_visible_witness:
  "\<exists>(p::posted) fd1. \<exists>ch names rows url lead role fd2.
    teamMessagesHandler (demo_env 5) (\<lambda>_. None) (\<lambda>_. ''u'') demo_links GET ''/api/v1/teams/t/messages'' RawEmpty fd1 =
      (FFeed ch names rows url lead role, fd2) \<and>
    sorted_wrt (\<lambda>r r'. tr_CreatedAt r' \<le> tr_CreatedAt r) rows \<and>
    (\<exists>row \<in> set rows. tr_ID row = cg_ID (po_Message p) \<and> tr_Author row = cg_Author (po_Message p)
       \<and> tr_Body row = cg_Body (po_Message p)) \<and>
    operator \<in> set names \<and>
    set (teamMembersOf (fe_now (demo_env 5)) fd1
      (fst (cut_slash (trim_prefix ''/api/v1/teams/'' ''/api/v1/teams/t/messages'')))) - {[]} \<subseteq> set names"
proof -
  obtain p fd1 where post: "teamMessagesHandler (demo_env 3) (\<lambda>_. None) (\<lambda>_. ''u'') demo_links POST
      ''/api/v1/teams/t/messages'' demo_body demo_feed = (FPosted p, fd1)" using demo_handled by blast
  have env: "fe_find (demo_env 5) = ok_driver" "\<And>m. fe_enrol (demo_env 5) m = ok_driver"
      "fe_messages (demo_env 5) = ok_driver" "fe_members (demo_env 5) = ok_driver" "dr_err ok_driver = None"
    by (simp_all add: demo_env_def ok_driver_def)
  have db: "fd_channels demo_feed = Some empty_db" by (simp add: demo_feed_def)
  show ?thesis
    by (rule exI, rule exI, rule posted_message_visible [OF demo_links_ok db empty_db_ok _ post _ env(2)]) (simp_all add: env)
qed


text \<open>C41 for a team with one worker.\<close>

lemma lead_is_best_witness:
  "\<exists>role. candidate ''t'' demo_rt (resolveTeamLead demo_feed ''t'') role \<and>
      (\<forall>nm role'. candidate ''t'' demo_rt nm role' \<longrightarrow>
         (rolePriorityIndex role, resolveTeamLead demo_feed ''t'') \<le> (rolePriorityIndex role', nm))"
proof -
  have "candidate ''t'' demo_rt ''ann'' ''worker''"
    by (simp add: candidate_def demo_rt_def rt_List_def ListMemberships_def newRuntime_def example_info_def)
  moreover have "fd_rt demo_feed = Some demo_rt" by (simp add: demo_feed_def)
  ultimately show ?thesis using lead_is_best [of demo_feed demo_rt "''t''"] by meson
qed

text \<open>C41 for a task of the operator on a team it has nothing to do with.\<close>

lemma operator_tasks_everywhere_witness:
  "\<exists>row \<in> set (collectTranscriptRows (demo_env 3) (demo_ensured 3) (demo_chan 3) ''t'').
    tr_ID row = ''task:'' @ ID demo_row \<and> tr_Body row = ''hi''"
proof (rule operator_tasks_everywhere [OF _ empty_db_ok(1) _ _ _ demo_channel, where d = ok_driver])
  show "demo_row \<in> set (feed_tasks (demo_env 3) (demo_ensured 3))"
    by (simp add: feed_tasks_def demo_ensured_fields task_List_def task_matches_def task_order_def demo_env_def)
  show "unmarshal dec_feed_message (InputBlob demo_row) = Inr ([], [], operator, (''text'', ''hi'') # [])"
    by (simp add: unmarshal_def dec_feed_message_def dec_feed_part_def demo_row_def get_str_def get_list_def jget_def fold_eq_eval)
qed (simp_all add: demo_feed_def demo_env_def ok_driver_def)

end
