(* ===== verification/Daemon_Sessions.thy ===== *)
theory Daemon_Sessions
  imports Mcp_Views Scrum_Bands Hub_Directory Team_Transcript
begin

text \<open>
  The session surface of the daemon's HTTP server (\<open>internal/runtimehttp/server.go\<close>): the token check in
  front of it, the merged listing of live, external and stored sessions, the cleaning of stored rows, and the
  handler of one session with the operations of the state authority behind it. Handlers run over the runtime,
  the peer registry and the table of stored sessions (\<open>Scrum_Bands\<close>), whose keys are session ids. A panic
  in a handler is recovered by the HTTP server and is a value here.
\<close>

section \<open>The token check\<close>

record api_request =
  ar_path :: string
  ar_authorization :: string
  ar_chepherdToken :: string
  ar_cookie :: "string option"
  ar_queryToken :: string

definition byte_of :: "char \<Rightarrow> 8 word" where
  "byte_of c = of_nat (of_char c)"

definition constantTimeEqualString :: "string \<Rightarrow> string \<Rightarrow> bool" where
  "constantTimeEqualString a b \<longleftrightarrow>
     length a = length b \<and> fold (\<lambda>(x, y) diff. Bit_Operations.or diff (Bit_Operations.xor (byte_of x) (byte_of y))) (zip a b) 0 = 0"

definition first_nonempty :: "string list \<Rightarrow> string" where
  "first_nonempty xs = (case filter (\<lambda>x. x \<noteq> []) xs of [] \<Rightarrow> [] | x # _ \<Rightarrow> x)"

definition presented_token :: "api_request \<Rightarrow> string" where
  "presented_token r = first_nonempty
     [if has_prefix ''Bearer '' (ar_authorization r) then trim_prefix ''Bearer '' (ar_authorization r) else [],
      ar_chepherdToken r, case ar_cookie r of None \<Rightarrow> [] | Some v \<Rightarrow> v, ar_queryToken r]"

definition guarded_path :: "string \<Rightarrow> bool" where
  "guarded_path path \<longleftrightarrow> path \<noteq> ''/healthz'' \<and> (has_prefix ''/api/v1/'' path \<or> has_prefix ''/api-v08/v1/'' path)"

text \<open>\<open>Some\<close> is the refusal; \<open>None\<close> passes the request on.\<close>

definition authMiddleware :: "string \<Rightarrow> api_request \<Rightarrow> (int \<times> string) option" where
  "authMiddleware token r =
     (if token = [] then None
      else if \<not> guarded_path (ar_path r) then None
      else if presented_token r = [] then Some (401, ''missing Bearer token'')
      else if \<not> constantTimeEqualString (presented_token r) token then Some (401, ''invalid Bearer token'')
      else None)"

lemma byte_of_inj: "byte_of a = byte_of b \<longleftrightarrow> a = b"
proof -
  have "unat (of_nat (of_char c) :: 8 word) = of_char c" for c :: char
    using of_char_lt [of c] by (simp add: unat_of_nat take_bit_nat_eq_self)
  then show ?thesis unfolding byte_of_def by (metis char_of_char)
qed

lemma or_fold_zero:
  "fold (\<lambda>(x, y) diff. Bit_Operations.or diff (Bit_Operations.xor (byte_of x) (byte_of y))) ps d = 0 \<longleftrightarrow>
     d = 0 \<and> (\<forall>(x, y) \<in> set ps. x = y)"
proof (induction ps arbitrary: d)
  case (Cons p ps)
  obtain x y where p: "p = (x, y)" by (cases p)
  have xor_zero: "Bit_Operations.xor a b = 0 \<longleftrightarrow> a = b" for a b :: "8 word"
    by (auto simp: bit_eq_iff [of a b] bit_eq_iff [of "Bit_Operations.xor a b"] bit_xor_iff)
  show ?case by (simp add: p Cons.IH or_eq_0_iff xor_zero byte_of_inj)
qed simp

lemma constantTimeEqualString_iff [simp]: "constantTimeEqualString a b \<longleftrightarrow> a = b"
proof -
  have "length a = length b \<Longrightarrow> (\<forall>(x, y) \<in> set (zip a b). x = y) \<longleftrightarrow> a = b"
    by (induction a b rule: list_induct2) auto
  then show ?thesis unfolding constantTimeEqualString_def or_fold_zero by auto
qed

lemma token_gate:
  "token \<noteq> [] \<Longrightarrow> guarded_path (ar_path r) \<Longrightarrow> authMiddleware token r = None \<longleftrightarrow> presented_token r = token"
  by (auto simp: authMiddleware_def)

lemma open_paths: "authMiddleware token r = None" if "token = [] \<or> \<not> guarded_path (ar_path r)"
  using that by (auto simp: authMiddleware_def)

section \<open>The merged listing\<close>

record daemon =
  dm_rt :: "runtime option"
  dm_peers :: "peer_registry option"
  dm_sessions :: "session_table option"

text \<open>A server without a runtime locks nothing.\<close>

definition wedged :: "daemon \<Rightarrow> bool" where
  "wedged dm = (case dm_rt dm of None \<Rightarrow> False | Some rt \<Rightarrow> rt_wedged rt)"

datatype listed = LiveSession session_info | ExternalPeer peer_info | StoredSession string "gostate option"

definition stored_entry :: "(string \<Rightarrow> go_error option) \<Rightarrow> session_table \<Rightarrow> string \<Rightarrow> listed list" where
  "stored_entry drv tbl i = (case session_Get (drv i) i tbl of Inl _ \<Rightarrow> [] | Inr st \<Rightarrow> [StoredSession i st])"

definition listSessionsMerged ::
    "go_error option \<Rightarrow> (string \<Rightarrow> go_error option) \<Rightarrow> time \<Rightarrow> daemon \<Rightarrow> listed list rt_res" where
  "listSessionsMerged listing drv now dm =
     (if wedged dm then Blocked else Ret (let live = (case dm_rt dm of None \<Rightarrow> [] | Some rt \<Rightarrow> rt_List rt);
          peers = (case (dm_rt dm, dm_peers dm) of (Some _, Some reg) \<Rightarrow> fst (peer_List now reg) | _ \<Rightarrow> []);
          out = map LiveSession live @ map ExternalPeer peers
      in case dm_sessions dm of
           None \<Rightarrow> out
         | Some tbl \<Rightarrow> (case session_List listing tbl of
             Inl _ \<Rightarrow> out
           | Inr ids \<Rightarrow> out @ concat (map (stored_entry drv tbl) (filter (\<lambda>i. i \<notin> si_ID ` set live) ids)))))"

definition live_ids :: "daemon \<Rightarrow> string set" where
  "live_ids dm = (case dm_rt dm of None \<Rightarrow> {} | Some rt \<Rightarrow> si_ID ` set (rt_List rt))"

text \<open>With a working driver: the stored sessions listed are the readable rows that are not live, each once.\<close>

lemma stored_listed:
  assumes "dm_sessions dm = Some tbl" "listSessionsMerged None (\<lambda>_. None) now dm = Ret out"
  shows "StoredSession i st \<in> set out \<longleftrightarrow>
    i \<in> fst ` set tbl \<and> i \<notin> live_ids dm \<and> session_Get None i tbl = Inr st"
proof -
  have e: "StoredSession i st \<in> set (stored_entry (\<lambda>_. None) tbl j) \<longleftrightarrow> i = j \<and> session_Get None i tbl = Inr st" for j
    by (auto simp: stored_entry_def split: sum.splits)
  obtain xs where out: "out = xs @ concat (map (stored_entry (\<lambda>_. None) tbl) (filter (\<lambda>i. i \<notin> live_ids dm) (sort (map fst tbl))))"
    and "StoredSession i st \<notin> set xs"
  proof (cases "dm_rt dm")
    case None
    then show ?thesis using that [of "[]"] assms
      by (simp add: listSessionsMerged_def wedged_def live_ids_def session_List_def)
  next
    case (Some rt)
    let ?peers = "case dm_peers dm of None \<Rightarrow> [] | Some reg \<Rightarrow> fst (peer_List now reg)"
    show ?thesis
      using that [of "map LiveSession (rt_List rt) @ map ExternalPeer ?peers"] assms Some
      by (cases "dm_peers dm") (auto simp: listSessionsMerged_def live_ids_def session_List_def Let_def split: if_splits)
  qed
  then show ?thesis by (auto simp: e)
qed

section \<open>Sweeping the stored rows\<close>

text \<open>
  A session's terminal and its info are registered and removed together, so the runtime's infos stand for its
  terminals: \<open>Get\<close> finds both or neither. \<open>reapOnce\<close> is the runtime's own sweep and goes by ids;
  \<open>cleanupOrphans\<close> is the operator's, over HTTP, and goes by names. Both delete a row after the other and pass
  over the rows whose deletion fails.
\<close>

fun sweep_rows ::
    "(string \<Rightarrow> go_error option) \<Rightarrow> (string \<Rightarrow> bool) \<Rightarrow> string list \<Rightarrow> session_table \<Rightarrow> string list \<times> session_table" where
  "sweep_rows drv alive [] tbl = ([], tbl)"
| "sweep_rows drv alive (i # is) tbl =
     (if alive i then sweep_rows drv alive is tbl
      else case session_Delete (drv i) i tbl of
        (Some _, tbl1) \<Rightarrow> sweep_rows drv alive is tbl1
      | (None, tbl1) \<Rightarrow> (let (deleted, tbl2) = sweep_rows drv alive is tbl1 in (i # deleted, tbl2)))"

definition live_name :: "daemon \<Rightarrow> string \<Rightarrow> bool" where
  "live_name dm nm = (case dm_rt dm of None \<Rightarrow> False | Some rt \<Rightarrow> session_of nm rt \<noteq> None)"

definition live_id :: "daemon \<Rightarrow> string \<Rightarrow> bool" where
  "live_id dm i = (case dm_rt dm of None \<Rightarrow> False | Some rt \<Rightarrow> map_of (rt_info rt) i \<noteq> None)"

definition reapOnce :: "go_error option \<Rightarrow> (string \<Rightarrow> go_error option) \<Rightarrow> daemon \<Rightarrow> nat rt_res \<times> daemon" where
  "reapOnce listing drv dm =
     (case dm_sessions dm of
        None \<Rightarrow> (Ret 0, dm)
      | Some tbl \<Rightarrow>
          (case session_List listing tbl of
             Inl _ \<Rightarrow> (Ret 0, dm)
           | Inr ids \<Rightarrow>
               if wedged dm then (Blocked, dm)
               else let (deleted, tbl1) = sweep_rows drv (live_id dm) ids tbl
                    in (Ret (length deleted), dm\<lparr>dm_sessions := Some tbl1\<rparr>)))"

datatype cleanup_reply = Cleaned nat nat "string list" | NoStore | CleanupError go_error

definition cleanupOrphans ::
    "go_error option \<Rightarrow> (string \<Rightarrow> go_error option) \<Rightarrow> daemon \<Rightarrow> cleanup_reply rt_res \<times> daemon" where
  "cleanupOrphans listing drv dm =
     (case dm_sessions dm of
        None \<Rightarrow> (Ret NoStore, dm)
      | Some tbl \<Rightarrow>
          (case session_List listing tbl of
             Inl e \<Rightarrow> (Ret (CleanupError (''SessionStore.List: '' @ e)), dm)
           | Inr ids \<Rightarrow>
               if wedged dm \<and> ids \<noteq> [] then (Blocked, dm)
               else let (deleted, tbl1) = sweep_rows drv (live_name dm) ids tbl
                    in (Ret (Cleaned (length deleted) (length (filter (live_name dm) ids)) deleted),
                        dm\<lparr>dm_sessions := Some tbl1\<rparr>)))"

lemma sweep_rows_exact:
  assumes "distinct is" "[] \<notin> set is"
  shows "fst (sweep_rows (\<lambda>_. None) alive is tbl) = filter (\<lambda>i. \<not> alive i) is"
    and "map_of (snd (sweep_rows (\<lambda>_. None) alive is tbl)) =
      (\<lambda>i. if i \<in> set is \<and> \<not> alive i then None else map_of tbl i)"
proof -
  have "fst (sweep_rows (\<lambda>_. None) alive is tbl) = filter (\<lambda>i. \<not> alive i) is \<and>
      map_of (snd (sweep_rows (\<lambda>_. None) alive is tbl)) =
        (\<lambda>i. if i \<in> set is \<and> \<not> alive i then None else map_of tbl i)"
    using assms
  proof (induction "is" arbitrary: tbl)
    case (Cons i "is")
    have d: "session_Delete None i tbl = (None, AList.delete i tbl)"
      using Cons.prems(2) by (auto simp: session_Delete_def)
    have ok: "distinct is" "[] \<notin> set is" "i \<notin> set is" using Cons.prems by auto
    show ?case
    proof (cases "alive i")
      case True
      then show ?thesis using Cons.IH [OF ok(1,2)] by (auto simp: fun_eq_iff)
    next
      case False
      obtain deleted tbl2 where c: "sweep_rows (\<lambda>_. None) alive is (AList.delete i tbl) = (deleted, tbl2)"
        by (metis surj_pair)
      have "deleted = filter (\<lambda>i. \<not> alive i) is"
        "map_of tbl2 = (\<lambda>j. if j \<in> set is \<and> \<not> alive j then None else if j = i then None else map_of tbl j)"
        using Cons.IH [OF ok(1,2), of "AList.delete i tbl"] unfolding c fst_conv snd_conv by (auto simp: delete_conv fun_eq_iff)
      then show ?thesis using False ok(3) by (simp add: d c fun_eq_iff)
    qed
  qed simp
  then show "fst (sweep_rows (\<lambda>_. None) alive is tbl) = filter (\<lambda>i. \<not> alive i) is"
    "map_of (snd (sweep_rows (\<lambda>_. None) alive is tbl)) =
      (\<lambda>i. if i \<in> set is \<and> \<not> alive i then None else map_of tbl i)" by blast+
qed

definition rows :: "daemon \<Rightarrow> string \<Rightarrow> session_row option" where
  "rows dm i = (case dm_sessions dm of None \<Rightarrow> None | Some tbl \<Rightarrow> map_of tbl i)"

text \<open>A table as the driver keeps it: one row per key, and no empty key.\<close>

definition table_ok :: "daemon \<Rightarrow> bool" where
  "table_ok dm \<longleftrightarrow> (case dm_sessions dm of None \<Rightarrow> True | Some tbl \<Rightarrow> distinct (map fst tbl) \<and> [] \<notin> fst ` set tbl)"

lemma reaped:
  assumes "table_ok dm" "\<not> wedged dm"
  shows "fst (reapOnce None (\<lambda>_. None) dm) = Ret (card {i \<in> dom (rows dm). \<not> live_id dm i})"
    and "rows (snd (reapOnce None (\<lambda>_. None) dm)) i = (if live_id dm i then rows dm i else None)"
proof -
  have "fst (reapOnce None (\<lambda>_. None) dm) = Ret (card {i \<in> dom (rows dm). \<not> live_id dm i}) \<and>
      rows (snd (reapOnce None (\<lambda>_. None) dm)) i = (if live_id dm i then rows dm i else None)"
  proof (cases "dm_sessions dm")
    case None
    then show ?thesis by (simp add: reapOnce_def rows_def [abs_def])
  next
    case (Some tbl)
    let ?ids = "sort (map fst tbl)"
    have ids: "distinct ?ids" "[] \<notin> set ?ids" using assms(1) Some by (auto simp: table_ok_def)
    obtain deleted tbl1 where c: "sweep_rows (\<lambda>_. None) (live_id dm) ?ids tbl = (deleted, tbl1)" by (metis surj_pair)
    note sw = sweep_rows_exact [OF ids, of "live_id dm" tbl, unfolded c fst_conv snd_conv]
    have "{i \<in> dom (map_of tbl). \<not> live_id dm i} = set deleted" by (auto simp: sw(1) dom_map_of_conv_image_fst)
    moreover have "distinct deleted" using ids(1) by (simp add: sw(1))
    ultimately have "length deleted = card {i \<in> dom (map_of tbl). \<not> live_id dm i}" by (metis distinct_card)
    moreover have "map_of tbl1 i = (if live_id dm i then map_of tbl i else None)"
      unfolding sw(2) by (auto simp: map_of_eq_None_iff)
    ultimately show ?thesis
      using Some assms(2) by (simp add: reapOnce_def session_List_def c rows_def [abs_def])
  qed
  then show "fst (reapOnce None (\<lambda>_. None) dm) = Ret (card {i \<in> dom (rows dm). \<not> live_id dm i})"
    "rows (snd (reapOnce None (\<lambda>_. None) dm)) i = (if live_id dm i then rows dm i else None)" by blast+
qed

lemma cleaned:
  assumes "dm_sessions dm = Some tbl" "table_ok dm" "\<not> wedged dm"
  shows "fst (cleanupOrphans None (\<lambda>_. None) dm) = Ret (Cleaned (length (filter (\<lambda>i. \<not> live_name dm i) (sort (map fst tbl))))
      (length (filter (live_name dm) (sort (map fst tbl)))) (filter (\<lambda>i. \<not> live_name dm i) (sort (map fst tbl))))"
    and "rows (snd (cleanupOrphans None (\<lambda>_. None) dm)) i = (if live_name dm i then rows dm i else None)"
proof -
  let ?ids = "sort (map fst tbl)"
  have ids: "distinct ?ids" "[] \<notin> set ?ids" using assms(1,2) by (auto simp: table_ok_def)
  obtain deleted tbl1 where c: "sweep_rows (\<lambda>_. None) (live_name dm) ?ids tbl = (deleted, tbl1)" by (metis surj_pair)
  note sw = sweep_rows_exact [OF ids, of "live_name dm" tbl, unfolded c fst_conv snd_conv]
  have r: "cleanupOrphans None (\<lambda>_. None) dm =
      (Ret (Cleaned (length deleted) (length (filter (live_name dm) ?ids)) deleted), dm\<lparr>dm_sessions := Some tbl1\<rparr>)"
    using assms by (simp add: cleanupOrphans_def session_List_def c)
  have "map_of tbl1 i = (if live_name dm i then map_of tbl i else None)"
    unfolding sw(2) by (auto simp: map_of_eq_None_iff)
  then show "fst (cleanupOrphans None (\<lambda>_. None) dm) = Ret (Cleaned (length (filter (\<lambda>i. \<not> live_name dm i) ?ids))
      (length (filter (live_name dm) ?ids)) (filter (\<lambda>i. \<not> live_name dm i) ?ids))"
    "rows (snd (cleanupOrphans None (\<lambda>_. None) dm)) i = (if live_name dm i then rows dm i else None)"
    unfolding r sw(1) [symmetric] using assms(1) by (simp_all add: rows_def)
qed

text \<open>C10: of the two sweeps of stored rows, the runtime's keeps the rows of the live sessions and deletes every other row,
  and reports how many. The operator's keeps a row when a live session is \<^emph>\<open>named\<close> like its key; the keys are session ids, so a
  live session whose id is nobody's name loses its row.\<close>

theorem orphan_sweeps:
  assumes "table_ok dm" "\<not> wedged dm"
  shows "fst (reapOnce None (\<lambda>_. None) dm) = Ret (card {i \<in> dom (rows dm). \<not> live_id dm i})
    \<and> rows (snd (reapOnce None (\<lambda>_. None) dm)) = (\<lambda>i. if live_id dm i then rows dm i else None)
    \<and> rows (snd (cleanupOrphans None (\<lambda>_. None) dm)) = (\<lambda>i. if live_name dm i then rows dm i else None)
    \<and> (\<forall>i. live_id dm i \<and> \<not> live_name dm i \<longrightarrow> rows (snd (cleanupOrphans None (\<lambda>_. None) dm)) i = None)"
proof -
  have "rows (snd (cleanupOrphans None (\<lambda>_. None) dm)) i = (if live_name dm i then rows dm i else None)" for i
  proof (cases "dm_sessions dm")
    case None
    then show ?thesis by (simp add: cleanupOrphans_def rows_def)
  next
    case (Some tbl)
    then show ?thesis by (rule cleaned(2) [OF _ assms])
  qed
  then show ?thesis using reaped [OF assms] by (simp add: fun_eq_iff)
qed

section \<open>Starting a session anew\<close>

text \<open>
  The surroundings of the session handlers. \<open>sv_list\<close> to \<open>sv_save\<close> are the failures of the driver,
  \<open>sv_agent\<close> and \<open>sv_created\<close> the agent record and the formatted start of a new session; \<open>sv_home\<close> is what
  \<open>Handoff\<close> reads of an info beyond the record, the id of the Claude session and the home directory, and
  \<open>sv_copied\<close> the outcome of copying the transcript file between homes. The runtime and the server hold the same
  table of stored sessions.
\<close>

record claude_home =
  cl_UUID :: string
  cl_Home :: string

record session_env =
  sv_env :: mcp_env
  sv_list :: "go_error option"
  sv_get :: "string \<Rightarrow> go_error option"
  sv_delete :: "string \<Rightarrow> go_error option"
  sv_save :: "string \<Rightarrow> go_error option"
  sv_agent :: string
  sv_created :: string
  sv_home :: "string \<Rightarrow> claude_home"
  sv_copied :: "go_error option"

text \<open>What \<open>Spawn\<close> makes of the stat sheet it is given.\<close>

definition DefaultStatSheet :: "string \<Rightarrow> stat_sheet" where
  "DefaultStatSheet role =
     (if role = ''shepherd'' then
        \<lparr>ss_ContextBudget = 100000, ss_ModelTier = ''haiku'', ss_DisciplineWeight = 1, ss_VelocityExpect = ''low'',
         ss_TokenBudgetUSD = 0, ss_ToolAllowlist = None\<rparr>
      else if role \<in> {''reviewer'', ''reviewer-discipline'', ''reviewer-architect'', ''reviewer-economics''} then
        \<lparr>ss_ContextBudget = 50000, ss_ModelTier = ''haiku'', ss_DisciplineWeight = 6 / 5, ss_VelocityExpect = ''low'',
         ss_TokenBudgetUSD = 0, ss_ToolAllowlist = None\<rparr>
      else if role = ''tester'' then
        \<lparr>ss_ContextBudget = 100000, ss_ModelTier = ''sonnet'', ss_DisciplineWeight = 1, ss_VelocityExpect = ''medium'',
         ss_TokenBudgetUSD = 0, ss_ToolAllowlist = None\<rparr>
      else
        \<lparr>ss_ContextBudget = 200000, ss_ModelTier = ''sonnet'', ss_DisciplineWeight = 1, ss_VelocityExpect = ''medium'',
         ss_TokenBudgetUSD = 0, ss_ToolAllowlist = None\<rparr>)"

definition spawn_sheet :: "string \<Rightarrow> stat_sheet \<Rightarrow> stat_sheet" where
  "spawn_sheet role given =
     (let d = DefaultStatSheet role in
      \<lparr>ss_ContextBudget = (if ss_ContextBudget given \<noteq> 0 then ss_ContextBudget given else ss_ContextBudget d),
       ss_ModelTier = (if ss_ModelTier given \<noteq> [] then ss_ModelTier given else ss_ModelTier d),
       ss_DisciplineWeight = (if ss_DisciplineWeight given \<noteq> 0 then ss_DisciplineWeight given else ss_DisciplineWeight d),
       ss_VelocityExpect = (if ss_VelocityExpect given \<noteq> [] then ss_VelocityExpect given else ss_VelocityExpect d),
       ss_TokenBudgetUSD = (if ss_TokenBudgetUSD given \<noteq> 0 then ss_TokenBudgetUSD given else ss_TokenBudgetUSD d),
       ss_ToolAllowlist = (case ss_ToolAllowlist given of Some (t # ts) \<Rightarrow> Some (t # ts) | _ \<Rightarrow> ss_ToolAllowlist d)\<rparr>)"

text \<open>The sheet and the prompt of a spawn, in the info its start fills in.\<close>

definition carrying :: "session_info \<Rightarrow> mcp_env \<Rightarrow> mcp_env" where
  "carrying old en = en\<lparr>en_start := (case en_start en of Inl e \<Rightarrow> Inl e
     | Inr (i, info0) \<Rightarrow> Inr (i, info0\<lparr>si_SystemPrompt := si_SystemPrompt old,
         si_StatSheet := spawn_sheet (if si_Role old = [] then ''worker'' else si_Role old) (si_StatSheet old)\<rparr>))\<rparr>"

definition initial_state :: "string \<Rightarrow> string \<Rightarrow> session_info \<Rightarrow> gostate" where
  "initial_state agent created info =
     [(''agent_id'', GStr agent), (''name'', GStr (si_Name info)), (''role'', GStr (si_Role info)),
      (''team'', GStr (si_Team info)), (''created_at'', GStr created)]"

definition persistInitialSessionState :: "session_env \<Rightarrow> session_info \<Rightarrow> daemon \<Rightarrow> daemon" where
  "persistInitialSessionState sv info dm = dm\<lparr>dm_sessions := map_option (\<lambda>tbl.
     snd (session_Save (sv_save sv (si_ID info)) (en_now (sv_env sv)) (si_ID info)
       (Some (initial_state (sv_agent sv) (sv_created sv) info)) tbl)) (dm_sessions dm)\<rparr>"

text \<open>\<open>Spawn\<close> from an old info, with the row of the new session; the repository's URL and the directory are not modelled.\<close>

definition respawn :: "session_env \<Rightarrow> session_info \<Rightarrow> daemon \<Rightarrow> session_info result rt_res \<times> daemon" where
  "respawn sv old dm =
     (case dm_rt dm of None \<Rightarrow> (Panic, dm)
      | Some rt \<Rightarrow>
          let (r, rt1) = rt_Spawn (carrying old (sv_env sv)) (si_Name old) (si_AgentSlug old) (si_Team old) (si_Role old) rt;
              dm1 = dm\<lparr>dm_rt := Some rt1\<rparr>
          in (r, case r of Ret (Inr new) \<Rightarrow> persistInitialSessionState sv new dm1 | _ \<Rightarrow> dm1))"

definition record_on :: "event \<Rightarrow> daemon \<Rightarrow> daemon" where
  "record_on e dm = dm\<lparr>dm_rt := map_option (RecordEvent e) (dm_rt dm)\<rparr>"

definition delete_row :: "(string \<Rightarrow> go_error option) \<Rightarrow> string \<Rightarrow> daemon \<Rightarrow> daemon" where
  "delete_row drv i dm = dm\<lparr>dm_sessions := map_option (\<lambda>tbl. snd (session_Delete (drv i) i tbl)) (dm_sessions dm)\<rparr>"

text \<open>\<open>Stop\<close> with the stored row of the session's id.\<close>

definition stop_session ::
    "(string \<Rightarrow> go_error option) \<Rightarrow> time \<Rightarrow> string \<Rightarrow> daemon \<Rightarrow> go_error option rt_res \<times> daemon" where
  "stop_session drv now nm dm =
     (case dm_rt dm of
        None \<Rightarrow> (Panic, dm)
      | Some rt \<Rightarrow>
          let (r, rt1) = rt_Stop nm now rt; dm1 = dm\<lparr>dm_rt := Some rt1\<rparr> in
          (r, case (r, map_of (rt_byName rt) nm) of (Ret None, Some i) \<Rightarrow> delete_row drv i dm1 | _ \<Rightarrow> dm1))"

text \<open>
  \<open>Restart\<close> and \<open>Handoff\<close> read the infos in a critical section without a deferred unlock: a name whose spawn
  is in progress has no info, so the read panics and the mutex stays locked.
\<close>

definition Restart :: "session_env \<Rightarrow> string \<Rightarrow> daemon \<Rightarrow> session_info result rt_res \<times> daemon" where
  "Restart sv nm dm =
     (case dm_rt dm of
        None \<Rightarrow> (Panic, dm)
      | Some rt \<Rightarrow>
          if rt_wedged rt then (Blocked, dm)
          else (case map_of (rt_byName rt) nm of
            None \<Rightarrow> (Ret (Inl (''runtime.Restart: unknown session '' @ quote nm)), dm)
          | Some i \<Rightarrow>
              (case map_of (rt_info rt) i of
                 None \<Rightarrow> (Panic, dm\<lparr>dm_rt := Some (rt\<lparr>rt_wedged := True\<rparr>)\<rparr>)
               | Some info \<Rightarrow>
                   (case stop_session (sv_delete sv) (en_now (sv_env sv)) nm dm of
                      (Ret (Some e), dm1) \<Rightarrow> (Ret (Inl e), dm1)
                    | (Panic, dm1) \<Rightarrow> (Panic, dm1)
                    | (Blocked, dm1) \<Rightarrow> (Blocked, dm1)
                    | (Ret None, dm1) \<Rightarrow>
                        (case respawn sv info dm1 of
                           (Ret (Inr new), dm2) \<Rightarrow>
                             (Ret (Inr new), record_on (new_event (en_id (sv_env sv)) (en_now (sv_env sv)) ''agent_restart'' ''operator''
                                (''agent '' @ quote nm @ '' restarted (new id='' @ si_ID new @ '')'')) dm2)
                         | r \<Rightarrow> r)))))"

definition handoff_ready :: "claude_home \<Rightarrow> claude_home \<Rightarrow> go_error option \<Rightarrow> string \<Rightarrow> go_error option" where
  "handoff_ready src dst copied source =
     (if cl_UUID src = [] then Some (''runtime.Handoff: source '' @ quote source @ '' has no active Claude session UUID'')
      else if cl_Home src = [] \<or> cl_Home dst = []
      then Some ''runtime.Handoff: source or target has no agent home dir (bare exec?)''
      else copied)"

definition Handoff :: "session_env \<Rightarrow> string \<Rightarrow> string \<Rightarrow> daemon \<Rightarrow> session_info result rt_res \<times> daemon" where
  "Handoff sv source target dm =
     (case dm_rt dm of
        None \<Rightarrow> (Panic, dm)
      | Some rt \<Rightarrow>
          let wedge = (Panic, dm\<lparr>dm_rt := Some (rt\<lparr>rt_wedged := True\<rparr>)\<rparr>);
              refuse = (\<lambda>e. (Ret (Inl (''runtime.Handoff: '' @ e)), dm)) in
          if rt_wedged rt then (Blocked, dm)
          else (case map_of (rt_byName rt) source of
            None \<Rightarrow> refuse (''unknown source session '' @ quote source)
          | Some s \<Rightarrow>
              if map_of (rt_info rt) s = None then wedge
              else (case map_of (rt_byName rt) target of
                None \<Rightarrow> refuse (''unknown target session '' @ quote target)
              | Some t \<Rightarrow>
                  (case map_of (rt_info rt) t of
                     None \<Rightarrow> wedge
                   | Some tinfo \<Rightarrow>
                       (case handoff_ready (sv_home sv s) (sv_home sv t) (sv_copied sv) source of
                          Some e \<Rightarrow> (Ret (Inl e), dm)
                        | None \<Rightarrow>
                            let dm1 = snd (stop_session (sv_delete sv) (en_now (sv_env sv)) source dm);
                                dm2 = snd (stop_session (sv_delete sv) (en_now (sv_env sv)) target dm1)
                            in (case respawn sv tinfo dm2 of
                                  (Ret (Inr new), dm3) \<Rightarrow>
                                    (Ret (Inr new), record_on (new_event (en_id (sv_env sv)) (en_now (sv_env sv)) ''agent_handoff'' ''operator''
                                       (''session handed off from '' @ quote source @ '' to '' @ quote target @
                                        '' (uuid='' @ cl_UUID (sv_home sv s) @ '')'')) dm3)
                                | (Ret (Inl e), dm3) \<Rightarrow> (Ret (Inl (''runtime.Handoff: spawn target: '' @ e)), dm3)
                                | r \<Rightarrow> r))))))"

lemma handoff_to_spawning:
  assumes "dm_rt dm = Some rt" "\<not> rt_wedged rt" "session_of source rt \<noteq> None"
    and "map_of (rt_byName rt) target = Some i" "map_of (rt_info rt) i = None"
  shows "fst (Handoff sv source target dm) = Panic \<and> wedged (snd (Handoff sv source target dm))"
  using assms by (auto simp: Handoff_def session_of_def wedged_def split: option.splits)

section \<open>One session over HTTP\<close>

record session_request =
  sq_method :: string
  sq_path :: string
  sq_body :: raw

datatype answer =
    AInfo "session_info option"
  | ACard peer_card
  | AStatus peer_status
  | AAttached string
  | AOk
  | AIcon string
  | APaused bool
  | ARenamed string
  | ACleaned bool
  | ASwept cleanup_reply
  | AGone string gostate
  | AError int string

text \<open>The reply to an operation of the runtime; a server without a runtime dereferences nil.\<close>

definition with_rt ::
    "(runtime \<Rightarrow> 'a rt_res \<times> runtime) \<Rightarrow> ('a \<Rightarrow> answer) \<Rightarrow> daemon \<Rightarrow> answer rt_res \<times> daemon" where
  "with_rt f k dm = (case dm_rt dm of None \<Rightarrow> (Panic, dm)
     | Some rt \<Rightarrow> (case f rt of
         (Ret x, rt1) \<Rightarrow> (Ret (k x), dm\<lparr>dm_rt := Some rt1\<rparr>)
       | (Panic, rt1) \<Rightarrow> (Panic, dm\<lparr>dm_rt := Some rt1\<rparr>)
       | (Blocked, rt1) \<Rightarrow> (Blocked, dm\<lparr>dm_rt := Some rt1\<rparr>)))"

definition or_status :: "int \<Rightarrow> answer \<Rightarrow> go_error option \<Rightarrow> answer" where
  "or_status code r e = (case e of None \<Rightarrow> r | Some m \<Rightarrow> AError code m)"

definition spawned_or_400 :: "session_info result rt_res \<times> daemon \<Rightarrow> answer rt_res \<times> daemon" where
  "spawned_or_400 r = (case r of
     (Ret (Inl e), dm) \<Rightarrow> (Ret (AError 400 e), dm)
   | (Ret (Inr new), dm) \<Rightarrow> (Ret (AInfo (Some new)), dm)
   | (Panic, dm) \<Rightarrow> (Panic, dm)
   | (Blocked, dm) \<Rightarrow> (Blocked, dm))"

definition with_body :: "(json \<Rightarrow> 'a result) \<Rightarrow> raw \<Rightarrow> ('a \<Rightarrow> answer rt_res \<times> daemon) \<Rightarrow> daemon \<Rightarrow> answer rt_res \<times> daemon" where
  "with_body dec body k dm = (case decode_body ''struct'' dec body of Inl e \<Rightarrow> (Ret (AError 400 e), dm) | Inr x \<Rightarrow> k x)"

definition dec_stat_sheet :: "json \<Rightarrow> stat_sheet result" where
  "dec_stat_sheet j =
     res_bind (get_int ''context_budget'' j) (\<lambda>budget.
     res_bind (get_str ''model_tier'' j) (\<lambda>tier.
     res_bind (get_float ''discipline_weight'' j) (\<lambda>weight.
     res_bind (get_str ''velocity_expect'' j) (\<lambda>velocity.
     res_bind (get_float ''token_budget_usd'' j) (\<lambda>usd.
     res_bind (get_ptr dec_strings ''tool_allowlist'' j) (\<lambda>tools.
       Inr \<lparr>ss_ContextBudget = budget, ss_ModelTier = tier, ss_DisciplineWeight = weight, ss_VelocityExpect = velocity,
            ss_TokenBudgetUSD = usd, ss_ToolAllowlist = tools\<rparr>))))))"

text \<open>A session the runtime has, under the id \<open>i\<close>.\<close>

definition live_handler ::
    "session_env \<Rightarrow> string \<Rightarrow> string \<Rightarrow> string \<Rightarrow> session_info \<Rightarrow> string \<Rightarrow> raw \<Rightarrow> daemon \<Rightarrow> answer rt_res \<times> daemon" where
  "live_handler sv nm sub i info meth body dm =
     (let en = sv_env sv in
      if sub = [] \<and> meth = ''GET'' then (Ret (AInfo (Some info)), dm)
      else if sub = ''agent-card'' \<and> meth = ''GET''
      then (Ret (ACard (BuildPeerAgentCard (fst (en_created en info)) (snd (en_created en info)) info)), dm)
      else if sub = ''peer-status'' \<and> meth = ''GET''
      then (Ret (AStatus (BuildPeerStatus (en_strip en) (en_now en) (en_activity en i)
              (map_option pt_ring (en_pty en i)) info)), dm)
      else if sub = [] \<and> meth = ''DELETE'' then
        (case stop_session (sv_delete sv) (en_now en) nm dm of
           (Ret _, dm1) \<Rightarrow> (Ret (ACleaned True), delete_row (sv_delete sv) nm dm1)
         | (Panic, dm1) \<Rightarrow> (Panic, dm1)
         | (Blocked, dm1) \<Rightarrow> (Blocked, dm1))
      else if sub = ''pause'' \<and> meth = ''POST''
      then with_body (get_bool ''Paused'') body (\<lambda>p. with_rt (Pause nm p) (\<lambda>_. APaused p) dm) dm
      else if sub = ''attach'' \<and> meth = ''GET'' then (Ret (AAttached nm), dm)
      else if sub = ''stat-sheet'' \<and> meth = ''PATCH'' then
        with_body dec_stat_sheet body (\<lambda>patch.
          case with_rt (UpdateStatSheet nm patch) (or_status 400 (AInfo None)) dm of
            (Ret (AInfo _), dm1) \<Rightarrow> with_rt (\<lambda>rt. (rt_Get nm rt, rt)) AInfo dm1
          | r \<Rightarrow> r) dm
      else if sub = ''rename'' \<and> meth = ''POST'' then
        with_body (get_str ''new_name'') body (\<lambda>new.
          with_rt (Rename (en_id en) (en_now en) nm new) (or_status 400 (ARenamed new)) dm) dm
      else if sub = ''restart'' \<and> meth = ''POST'' then spawned_or_400 (Restart sv nm dm)
      else if sub = ''handoff'' \<and> meth = ''POST'' then
        with_body (get_str ''Target'') body (\<lambda>target.
          if target = [] then (Ret (AError 400 ''target required''), dm)
          else spawned_or_400 (Handoff sv nm target dm)) dm
      else if sub = ''poke-prompt'' \<and> meth = ''POST'' then
        with_body (get_str ''Prompt'') body (\<lambda>prompt.
          if prompt = [] then (Ret (AError 400 ''prompt required''), dm)
          else with_rt (PokePrompt (en_id en) (en_now en) True nm prompt) (or_status 400 AOk) dm) dm
      else (Ret (AError 405 (''method not allowed for '' @ sub)), dm))"

text \<open>A name the runtime does not have: a stored row can be deleted, and is reported as gone otherwise.\<close>

definition stored_handler ::
    "session_env \<Rightarrow> string \<Rightarrow> string \<Rightarrow> string \<Rightarrow> daemon \<Rightarrow> answer rt_res \<times> daemon" where
  "stored_handler sv nm sub meth dm =
     (case dm_sessions dm of
        None \<Rightarrow> (Ret (AError 404 (''no such session: '' @ nm)), dm)
      | Some tbl \<Rightarrow>
          (case session_Get (sv_get sv nm) nm tbl of
             Inr (Some st) \<Rightarrow>
               if st = [] then (Ret (AError 404 (''no such session: '' @ nm)), dm)
               else if sub = [] \<and> meth = ''DELETE'' then (Ret (ACleaned False), delete_row (sv_delete sv) nm dm)
               else (Ret (AGone nm st), dm)
           | _ \<Rightarrow> (Ret (AError 404 (''no such session: '' @ nm)), dm)))"

definition path_name :: "string \<Rightarrow> string" where
  "path_name path = takeWhile (\<lambda>c. c \<noteq> CHR ''/'') (trim_prefix ''/api/v1/sessions/'' path)"

definition path_sub :: "string \<Rightarrow> string" where
  "path_sub path = drop 1 (dropWhile (\<lambda>c. c \<noteq> CHR ''/'') (trim_prefix ''/api/v1/sessions/'' path))"

definition sessionByName :: "session_env \<Rightarrow> session_request \<Rightarrow> daemon \<Rightarrow> answer rt_res \<times> daemon" where
  "sessionByName sv rq dm =
     (let nm = path_name (sq_path rq); sub = path_sub (sq_path rq); meth = sq_method rq in
      if nm = ''_cleanup-orphans'' \<and> sub = [] \<and> meth = ''POST'' then
        (case cleanupOrphans (sv_list sv) (sv_delete sv) dm of
           (Ret r, dm1) \<Rightarrow> (Ret (ASwept r), dm1)
         | (Panic, dm1) \<Rightarrow> (Panic, dm1)
         | (Blocked, dm1) \<Rightarrow> (Blocked, dm1))
      else if sub = ''icon'' \<and> meth = ''PATCH'' then
        with_body (get_str ''icon'') (sq_body rq) (\<lambda>icon.
          if length icon > 16 then (Ret (AError 400 ''icon too long (max 16 bytes)''), dm)
          else with_rt (SetIcon nm icon) (or_status 404 (AIcon icon)) dm) dm
      else if wedged dm then (Blocked, dm)
      else case (case dm_rt dm of None \<Rightarrow> None | Some rt \<Rightarrow> session_of nm rt) of
        None \<Rightarrow> stored_handler sv nm sub meth dm
      | Some (i, info) \<Rightarrow> live_handler sv nm sub i info meth (sq_body rq) dm)"

section \<open>What a deletion leaves\<close>

lemma rows_record_on [simp]: "rows (record_on e dm) = rows dm"
  by (simp add: rows_def [abs_def] record_on_def)

lemma rows_dm_rt [simp]: "rows (dm\<lparr>dm_rt := r\<rparr>) = rows dm"
  by (simp add: rows_def [abs_def])

lemma dm_rt_delete_row [simp]: "dm_rt (delete_row drv i dm) = dm_rt dm"
  by (simp add: delete_row_def)

lemma rows_delete_row:
  assumes "table_ok dm"
  shows "rows (delete_row (\<lambda>_. None) nm dm) = (rows dm)(nm := None)"
proof (cases "dm_sessions dm")
  case (Some tbl)
  have "map_of tbl [] = None" using assms Some by (simp add: table_ok_def map_of_eq_None_iff)
  then show ?thesis using Some
    by (auto simp: rows_def [abs_def] delete_row_def session_Delete_def delete_conv fun_eq_iff)
qed (simp add: rows_def [abs_def] delete_row_def fun_eq_iff)

lemma table_ok_delete_row [simp]: "table_ok dm \<Longrightarrow> table_ok (delete_row (\<lambda>_. None) nm dm)"
proof -
  assume "table_ok dm"
  then show ?thesis using dom_delete_subset [of nm]
    by (cases "dm_sessions dm") (auto simp: table_ok_def delete_row_def session_Delete_def distinct_delete)
qed

lemma table_ok_dm_rt [simp]: "table_ok (dm\<lparr>dm_rt := r\<rparr>) = table_ok dm"
  by (simp add: table_ok_def)

lemma stop_live:
  assumes rt: "dm_rt dm = Some rt" "settled rt" and s: "session_of nm rt = Some (i, info)" and t: "table_ok dm"
  obtains rt1 dm1 where "stop_session (\<lambda>_. None) now nm dm = (Ret None, dm1)" "dm_rt dm1 = Some rt1" "settled rt1" "table_ok dm1"
    "\<And>n. session_of n rt1 = (if n = nm then None else session_of n rt)" "rows dm1 = (rows dm)(i := None)"
    "rt_byName rt1 = AList.delete nm (rt_byName rt)" "rt_info rt1 = AList.delete i (rt_info rt)"
proof -
  have b: "map_of (rt_byName rt) nm = Some i" "map_of (rt_info rt) i = Some info"
    using s by (auto simp: session_of_def split: option.splits)
  obtain rt1 where stop: "rt_Stop nm now rt = (Ret None, rt1)"
    and f: "rt_byName rt1 = AList.delete nm (rt_byName rt)" "rt_info rt1 = AList.delete i (rt_info rt)"
    using settled_free [OF rt(2)] b by (simp add: rt_Stop_def dir_fields)
  have ok: "settled rt1" using sound_stop [of nm now] rt(2) stop by (auto simp: sound_def dest!: spec [of _ rt])
  have "i \<noteq> j" if "map_of (rt_byName rt) n = Some j" "n \<noteq> nm" for n j
    using settled_named(1) [OF rt(2) that(1)] settled_named(1) [OF rt(2) b(1)] that(2) by auto
  then have look: "session_of n rt1 = (if n = nm then None else session_of n rt)" for n
    by (auto simp: session_of_def f delete_conv split: option.splits)
  let ?dm1 = "delete_row (\<lambda>_. None) i (dm\<lparr>dm_rt := Some rt1\<rparr>)"
  have "stop_session (\<lambda>_. None) now nm dm = (Ret None, ?dm1)"
    using rt b stop by (simp add: stop_session_def)
  then show ?thesis using that [of ?dm1 rt1] ok look f t by (simp add: rows_delete_row)
qed

definition stored :: "daemon \<Rightarrow> string \<Rightarrow> bool" where
  "stored dm nm \<longleftrightarrow> (case dm_sessions dm of None \<Rightarrow> False
     | Some tbl \<Rightarrow> (case session_Get None nm tbl of Inr (Some st) \<Rightarrow> st \<noteq> [] | _ \<Rightarrow> False))"

lemma stored_row: "stored dm nm \<Longrightarrow> rows dm nm \<noteq> None"
  by (auto simp: stored_def rows_def session_Get_def split: option.splits if_splits)

lemma not_stored:
  assumes "sv_get sv = (\<lambda>_. None)" "\<not> stored dm nm"
  shows "stored_handler sv nm sub meth dm = (Ret (AError 404 (''no such session: '' @ nm)), dm)"
  using assms by (auto simp: stored_handler_def stored_def split: option.splits sum.splits list.splits)

text \<open>C18: deleting a session over HTTP stops it when it is live and deletes the row under its name when one is stored; the reply says
  which. Asked for afterwards it is unknown, every other session is untouched, and of the stored rows only those under the name and
  under the stopped session's id are gone.\<close>

theorem deleted_is_gone:
  assumes rt: "dm_rt dm = Some rt" "settled rt" and t: "table_ok dm"
    and drv: "sv_get sv = (\<lambda>_. None)" "sv_delete sv = (\<lambda>_. None)"
    and rq: "sq_method rq = ''DELETE''" "path_sub (sq_path rq) = []" "path_name (sq_path rq) = nm"
    and run: "sessionByName sv rq dm = (r, dm1)"
  shows "r = Ret (if session_of nm rt \<noteq> None then ACleaned True
        else if stored dm nm then ACleaned False else AError 404 (''no such session: '' @ nm))
    \<and> fst (sessionByName sv (rq\<lparr>sq_method := ''GET''\<rparr>) dm1) = Ret (AError 404 (''no such session: '' @ nm))
    \<and> (\<exists>rt1. dm_rt dm1 = Some rt1 \<and> settled rt1 \<and> (\<forall>n. session_of n rt1 = (if n = nm then None else session_of n rt)))
    \<and> (\<forall>i. rows dm1 i = (if i = nm \<and> (session_of nm rt \<noteq> None \<or> stored dm nm) \<or> (\<exists>info. session_of nm rt = Some (i, info))
        then None else rows dm i))"
proof (cases "session_of nm rt")
  case None
  have "\<not> wedged dm" using rt settled_free by (simp add: wedged_def)
  note known = None rt drv rq this run
  show ?thesis
  proof (cases "stored dm nm")
    case False
    then show ?thesis using known not_stored [OF drv(1) False] by (auto simp: sessionByName_def Let_def)
  next
    case True
    have dm1: "dm1 = delete_row (\<lambda>_. None) nm dm \<and> r = Ret (ACleaned False)"
      using True known by (auto simp: sessionByName_def Let_def stored_handler_def stored_def split: option.splits sum.splits)
    have "rows dm1 = (rows dm)(nm := None)" using dm1 rows_delete_row [OF t] by simp
    moreover from this have "\<not> stored dm1 nm" using stored_row [of dm1 nm] by auto
    ultimately show ?thesis using True known dm1 not_stored [OF drv(1), of dm1 nm]
      by (auto simp: sessionByName_def Let_def wedged_def)
  qed
next
  case (Some s)
  obtain i info where s: "session_of nm rt = Some (i, info)" using Some by (cases s) auto
  obtain rt1 dm2 where st: "stop_session (\<lambda>_. None) (en_now (sv_env sv)) nm dm = (Ret None, dm2)" "dm_rt dm2 = Some rt1"
    "settled rt1" "table_ok dm2" "\<And>n. session_of n rt1 = (if n = nm then None else session_of n rt)"
    "rows dm2 = (rows dm)(i := None)"
    using stop_live [OF rt s t] by metis
  have w: "\<not> wedged dm" "\<not> wedged dm1" if "dm_rt dm1 = Some rt1" using rt st(3) settled_free that by (simp_all add: wedged_def)
  have dm1: "dm1 = delete_row (\<lambda>_. None) nm dm2 \<and> r = Ret (ACleaned True)"
    using run rt(1) s rq drv(2) st(1) settled_free [OF rt(2)] by (simp add: sessionByName_def Let_def wedged_def live_handler_def)
  have rows1: "rows dm1 = (rows dm)(i := None, nm := None)" using dm1 rows_delete_row [OF st(4)] st(6) by simp
  then have "\<not> stored dm1 nm" using stored_row [of dm1 nm] by auto
  moreover have "session_of nm rt1 = None" using st(5) by simp
  ultimately have "fst (sessionByName sv (rq\<lparr>sq_method := ''GET''\<rparr>) dm1) = Ret (AError 404 (''no such session: '' @ nm))"
    using not_stored [OF drv(1), of dm1 nm] dm1 st(2) rq w(2) by (simp add: sessionByName_def Let_def)
  then show ?thesis using dm1 rows1 st s by auto
qed

section \<open>What a restart leaves\<close>

lemma spawned:
  assumes "\<not> rt_wedged rt" "nm \<noteq> []" "slug \<noteq> []" "map_of (rt_byName rt) nm = None" "en_start en = Inr (j, info0)"
  obtains rt1 where "rt_Spawn en nm slug tm role rt = (Ret (Inr (info0\<lparr>si_ID := j, si_Name := nm, si_AgentSlug := slug,
      si_Team := (if tm = [] then ''default'' else tm), si_Role := (if role = [] then ''worker'' else role)\<rparr>)), rt1)"
    "map_of (rt_byName rt1) = (map_of (rt_byName rt))(nm \<mapsto> j)"
    "map_of (rt_info rt1) = (map_of (rt_info rt))(j \<mapsto> info0\<lparr>si_ID := j, si_Name := nm, si_AgentSlug := slug,
      si_Team := (if tm = [] then ''default'' else tm), si_Role := (if role = [] then ''worker'' else role)\<rparr>)"
proof -
  have "spawn_reserve nm slug rt = (Ret None, rt\<lparr>rt_byName := AList.update nm sentinel (rt_byName rt),
      rt_spawning := nm # rt_spawning rt\<rparr>)" using assms by (simp add: spawn_reserve_def)
  then show ?thesis
    using that assms by (simp add: rt_Spawn_def Let_def dir_fields spawn_register_def spawn_announce_def update_conv')
qed

lemma rows_persisted:
  "si_ID info \<noteq> [] \<Longrightarrow> sv_save sv = (\<lambda>_. None) \<Longrightarrow> dm_sessions dm \<noteq> None \<Longrightarrow>
    \<exists>row. rows (persistInitialSessionState sv info dm) = (rows dm)(si_ID info \<mapsto> row)"
  by (auto simp: rows_def [abs_def] persistInitialSessionState_def session_Save_def update_conv' Let_def fun_eq_iff)

text \<open>C21: a restart of a live session whose start succeeds replaces it: under the same name there is a session with the new id and the
  agent, prompt and settings of the old one, every other session is untouched, the old id's row is gone and the new id has a row.\<close>

theorem restart_replaces:
  assumes rt: "dm_rt dm = Some rt" "settled rt" and t: "table_ok dm" "dm_sessions dm \<noteq> None"
    and s: "session_of nm rt = Some (i, info)" "si_AgentSlug info \<noteq> []"
    and drv: "sv_delete sv = (\<lambda>_. None)" "sv_save sv = (\<lambda>_. None)"
    and start: "en_start (sv_env sv) = Inr (j, info0)" "j \<notin> {[], i, sentinel}" "map_of (rt_info rt) j = None"
    and run: "Restart sv nm dm = (r, dm1)"
  shows "\<exists>(new::session_info) rt1. r = Ret (Inr new) \<and> dm_rt dm1 = Some rt1
    \<and> settled rt1 \<and> (\<forall>n. session_of n rt1 = (if n = nm then Some (j, new) else session_of n rt))
    \<and> si_ID new = j \<and> si_Name new = nm \<and> si_AgentSlug new = si_AgentSlug info \<and> si_SystemPrompt new = si_SystemPrompt info
    \<and> si_Team new = (if si_Team info = [] then ''default'' else si_Team info)
    \<and> si_Role new = (if si_Role info = [] then ''worker'' else si_Role info)
    \<and> si_StatSheet new = spawn_sheet (si_Role new) (si_StatSheet info)
    \<and> rows dm1 i = None \<and> rows dm1 j \<noteq> None \<and> (\<forall>k. k \<notin> {i, j} \<longrightarrow> rows dm1 k = rows dm k)"
proof -
  let ?now = "en_now (sv_env sv)"
  have b: "map_of (rt_byName rt) nm = Some i" "map_of (rt_info rt) i = Some info"
    using s by (auto simp: session_of_def split: option.splits)
  have nm: "nm \<noteq> []" "si_Name info = nm" using settled_named [OF rt(2) b(1)] b(2) by auto
  obtain rt1 dm2 where st: "stop_session (\<lambda>_. None) ?now nm dm = (Ret None, dm2)" "dm_rt dm2 = Some rt1"
    "settled rt1" "table_ok dm2" "\<And>n. session_of n rt1 = (if n = nm then None else session_of n rt)"
    "rows dm2 = (rows dm)(i := None)"
    "rt_byName rt1 = AList.delete nm (rt_byName rt)" "rt_info rt1 = AList.delete i (rt_info rt)"
    using stop_live [OF rt s(1) t(1)] by metis
  define old where "old = carrying info (sv_env sv)"
  define base where "base = info0\<lparr>si_SystemPrompt := si_SystemPrompt info,
    si_StatSheet := spawn_sheet (if si_Role info = [] then ''worker'' else si_Role info) (si_StatSheet info)\<rparr>"
  have start': "en_start old = Inr (j, base)" using start(1) by (simp add: old_def carrying_def base_def)
  have free: "map_of (rt_byName rt1) nm = None" by (simp add: st(7))
  define new where "new = base\<lparr>si_ID := j, si_Name := nm, si_AgentSlug := si_AgentSlug info,
    si_Team := (if si_Team info = [] then ''default'' else si_Team info),
    si_Role := (if si_Role info = [] then ''worker'' else si_Role info)\<rparr>"
  obtain rt2 where sp: "rt_Spawn old nm (si_AgentSlug info) (si_Team info) (si_Role info) rt1 = (Ret (Inr new), rt2)"
    "map_of (rt_byName rt2) = (map_of (rt_byName rt1))(nm \<mapsto> j)" "map_of (rt_info rt2) = (map_of (rt_info rt1))(j \<mapsto> new)"
    using spawned [OF settled_free [OF st(3)] nm(1) s(2) free start'] unfolding new_def by metis
  have "map_of (rt_info rt1) j = None" using start(2,3) by (simp add: st(8))
  moreover have "bar_free nm" using names_invD(2) [OF names_okD b(1)] rt(2) by (simp add: settled_def)
  ultimately have "startable old nm rt1" using start(2) start' by (simp add: startable_def)
  then have ok: "settled rt2" using spawn_settled [OF st(3)] sp(1) by (metis snd_conv)
  have "map_of (rt_byName rt1) n \<noteq> Some j" for n
    using settled_named(1) [OF st(3), of n j] \<open>map_of (rt_info rt1) j = None\<close> by auto
  then have look: "session_of n rt2 = (if n = nm then Some (j, new) else session_of n rt)" for n
    using st(5) [of n] by (auto simp: session_of_def sp(2,3) split: option.splits if_splits)
  define dm3 where "dm3 = persistInitialSessionState sv new (dm2\<lparr>dm_rt := Some rt2\<rparr>)"
  have re: "respawn sv info dm2 = (Ret (Inr new), dm3)"
    using sp(1) st(2) nm(2) by (simp add: respawn_def dm3_def old_def)
  have "dm_sessions dm2 \<noteq> None" using st(1) t(2) rt(1)
    by (auto simp: stop_session_def delete_row_def Let_def split: prod.splits rt_res.splits option.splits)
  then obtain row where "rows dm3 = (rows dm)(i := None, j \<mapsto> row)"
    using rows_persisted [of new sv "dm2\<lparr>dm_rt := Some rt2\<rparr>"] start(2) drv(2) st(6) by (auto simp: dm3_def new_def)
  moreover have "\<exists>e. Ret (Inr new) = r \<and> record_on e dm3 = dm1"
    using run rt(1) b st(1) re settled_free [OF rt(2)] drv(1) by (auto simp: Restart_def)
  then obtain e where "r = Ret (Inr new)" "dm1 = record_on e dm3" by blast
  moreover have "dm_rt (record_on e dm3) = Some (RecordEvent e rt2)"
    by (simp add: dm3_def record_on_def persistInitialSessionState_def)
  moreover have "session_of n (RecordEvent e rt2) = session_of n rt2" for n by (simp add: session_of_def RecordEvent_def split: option.split)
  ultimately have "r = Ret (Inr new) \<and> dm_rt dm1 = Some (RecordEvent e rt2) \<and> settled (RecordEvent e rt2) \<and>
      (\<forall>n. session_of n (RecordEvent e rt2) = (if n = nm then Some (j, new) else session_of n rt)) \<and>
      rows dm1 = (rows dm)(i := None, j \<mapsto> row)" using ok look by simp
  moreover have "i \<noteq> j" using start(2) by auto
  ultimately show ?thesis by (intro exI [of _ new] exI [of _ "RecordEvent e rt2"]) (simp add: new_def base_def)
qed

section \<open>An example\<close>

text \<open>The runtime after two tool calls has a live session \<open>ann\<close>; its row and that of an old session are stored.\<close>

definition demo_runtime :: runtime where
  "demo_runtime = mc_rt (snd (calls_run demo_calls (mcp_start ''d'' [])))"

definition demo_row :: session_row where
  "demo_row = \<lparr>sn_state = Scrum_Bands.written [(''name'', GStr ''ann'')], sn_uuid = [], sn_updated = 0\<rparr>"

definition demo_daemon :: daemon where
  "demo_daemon = \<lparr>dm_rt = Some demo_runtime, dm_peers = None,
     dm_sessions = Some [(''ann-1'', demo_row), (''old-1'', demo_row)]\<rparr>"

definition demo_session_env :: session_env where
  "demo_session_env = \<lparr>sv_env = demo_env\<lparr>en_start := Inr (''ann-2'', example_info [] [])\<rparr>, sv_list = None,
     sv_get = (\<lambda>_. None), sv_delete = (\<lambda>_. None), sv_save = (\<lambda>_. None), sv_agent = ''agent-1'', sv_created = ''today'',
     sv_home = (\<lambda>_. \<lparr>cl_UUID = [], cl_Home = []\<rparr>), sv_copied = None\<rparr>"

lemma demo_settled: "settled demo_runtime"
proof -
  have "calls_ok demo_calls (mcp_start ''d'' [])" by code_simp
  then show ?thesis using run_settled [OF start_settled] by (simp add: demo_runtime_def)
qed

lemma demo_live:
  "map_of (rt_byName demo_runtime) = [''ann'' \<mapsto> ''ann-1'']" "dom (map_of (rt_info demo_runtime)) = {''ann-1''}"
  "map_option (si_AgentSlug \<circ> snd) (session_of ''ann'' demo_runtime) = Some ''claude-code''"
proof -
  have "rt_byName demo_runtime = [(''ann'', ''ann-1'')]" "map fst (rt_info demo_runtime) = [''ann-1'']" by code_simp+
  then show "map_of (rt_byName demo_runtime) = [''ann'' \<mapsto> ''ann-1'']" "dom (map_of (rt_info demo_runtime)) = {''ann-1''}"
    by (simp_all add: dom_map_of_conv_image_fst flip: set_map)
  show "map_option (si_AgentSlug \<circ> snd) (session_of ''ann'' demo_runtime) = Some ''claude-code''" by code_simp
qed

lemma demo_table: "table_ok demo_daemon" "\<not> wedged demo_daemon"
  using settled_free [OF demo_settled] by (simp_all add: table_ok_def wedged_def demo_daemon_def)

text \<open>The operator's sweep deletes the row of the live session \<open>ann-1\<close>, the runtime's keeps it.\<close>

lemma orphan_sweeps_witness:
  "rows (snd (reapOnce None (\<lambda>_. None) demo_daemon)) ''ann-1'' = Some demo_row \<and>
   rows (snd (cleanupOrphans None (\<lambda>_. None) demo_daemon)) ''ann-1'' = None"
proof -
  have "live_id demo_daemon ''ann-1''" "\<not> live_name demo_daemon ''ann-1''" "rows demo_daemon ''ann-1'' = Some demo_row"
    using demo_live by (auto simp: live_id_def live_name_def demo_daemon_def rows_def session_of_def split: option.splits)
  then show ?thesis using orphan_sweeps [OF demo_table] by simp
qed

definition demo_delete :: "string \<Rightarrow> session_request" where
  "demo_delete nm = \<lparr>sq_method = ''DELETE'', sq_path = ''/api/v1/sessions/'' @ nm, sq_body = RawEmpty\<rparr>"

lemma deleted_is_gone_witness:
  "fst (sessionByName demo_session_env (demo_delete ''ann'') demo_daemon) = Ret (ACleaned True) \<and>
   rows (snd (sessionByName demo_session_env (demo_delete ''ann'') demo_daemon)) ''ann-1'' = None"
proof -
  obtain i info where s: "session_of ''ann'' demo_runtime = Some (i, info)" "i = ''ann-1''"
    using demo_live(1,3) by (auto simp: session_of_def split: option.splits)
  have path: "path_sub (sq_path (demo_delete ''ann'')) = []" "path_name (sq_path (demo_delete ''ann'')) = ''ann''" by code_simp+
  obtain r dm1 where run: "sessionByName demo_session_env (demo_delete ''ann'') demo_daemon = (r, dm1)" by (metis surj_pair)
  show ?thesis
    using deleted_is_gone [OF _ demo_settled demo_table(1) _ _ _ path run] s run
    by (simp add: demo_daemon_def demo_session_env_def demo_delete_def)
qed

lemma restart_replaces_witness:
  "\<exists>new::session_info. fst (Restart demo_session_env ''ann'' demo_daemon) = Ret (Inr new) \<and> si_ID new = ''ann-2'' \<and>
     rows (snd (Restart demo_session_env ''ann'' demo_daemon)) ''ann-1'' = None"
proof -
  obtain i info where s: "session_of ''ann'' demo_runtime = Some (i, info)" "i = ''ann-1''" "si_AgentSlug info = ''claude-code''"
    using demo_live(1,3) by (auto simp: session_of_def split: option.splits)
  obtain r dm1 where run: "Restart demo_session_env ''ann'' demo_daemon = (r, dm1)" by (metis surj_pair)
  have "''ann-2'' \<notin> dom (map_of (rt_info demo_runtime))" unfolding demo_live(2) by simp
  then have fresh: "map_of (rt_info demo_runtime) ''ann-2'' = None" by (simp add: domIff)
  have ok: "dm_rt demo_daemon = Some demo_runtime" "dm_sessions demo_daemon \<noteq> None" "si_AgentSlug info \<noteq> []"
    "sv_delete demo_session_env = (\<lambda>_. None)" "sv_save demo_session_env = (\<lambda>_. None)"
    "en_start (sv_env demo_session_env) = Inr (''ann-2'', example_info [] [])" "''ann-2'' \<notin> {[], i, sentinel}"
    using s by (simp_all add: demo_daemon_def demo_session_env_def sentinel_def)
  show ?thesis
    using restart_replaces [OF ok(1) demo_settled demo_table(1) ok(2) s(1) ok(3-7) fresh run] unfolding run s(2) fst_conv snd_conv
    by blast
qed

end
