(* ===== verification/Spec2Isabelle.thy ===== *)
theory Spec2Isabelle
  imports Streaming Pump Pty_Session Completion_Detector Hub_Tunnel Peer_Registry Relay_Registry Team_Directory Postgres_Store Ws_Relay Validators Federation_Jwt Mcp_Views Relay_Auth Scrum_Bands Federation_Discovery Transcript_Guarantees Daemon_Sessions
begin

text \<open>
  \<^bold>\<open>Agenity (chepherd): a verification library.\<close> The program supervises coding agents that run in
  terminals. A daemon keeps sessions, teams and grants, speaks the A2A protocol (JSON-RPC tasks and
  server-sent events) on behalf of each agent, injects messages into terminals as \<^emph>\<open>knocks\<close> and reads the
  answers back from the terminal output. A hub lets organisations find each other and proxies calls
  through tunnels; a relay connects remote clients to daemons.

  \<^bold>\<open>Conventions.\<close> Strings are lists of bytes. An instant or duration is an \<open>int\<close> of nanoseconds and 0 is
  the zero \<open>time.Time\<close>. An error is its text; a Go function returning a value and an error returns
  \<open>string + 'a\<close>. A nil pointer is \<open>None\<close>. A Go map nobody iterates is a lookup function or an association
  list; an iterated one is an association list with distinct keys (\<open>Go_Map\<close>). A pointer shared by two
  maps is an index into a heap (\<open>Stream_Broker\<close>, \<open>Hub_Tunnel\<close>, \<open>Ws_Relay\<close>). What the code draws from
  outside (the clock, fresh identifiers, driver and transport errors, the output of other packages) is an
  argument. A function that holds a mutex throughout is one definition; one that takes it twice is one
  definition per critical section, and the interleavings are sequences of such steps. A panic is a value.

  \<^bold>\<open>Foundations.\<close> \<open>Prelude\<close>: byte strings, decimal and quoted rendering, keyed tables, the trailing
  window of a stream. \<open>Go_Json\<close>: JSON values, blobs and struct decoding as \<open>encoding/json\<close> does them,
  field names matched without case. \<open>Go_Map\<close>: association lists as Go maps.

  \<^bold>\<open>A2A\<close> (\<open>internal/a2a\<close>).
  \<^item> \<open>Task_State\<close> (\<open>state_machine.go\<close>): the states, the table and \<open>TransitionTask\<close>; terminal states are
    absorbing (C1) and an outcome needs WORKING (\<open>outcome_needs_working\<close>), by induction over runs.
  \<^item> \<open>Messages\<close> (\<open>messages.go\<close>): the wire types, their JSON forms (C2) and text extraction (\<open>ExtractText_correct\<close>).
  \<^item> \<open>Rpc_Router\<close> (\<open>jsonrpc.go\<close>) and \<open>Method_Bodies\<close> (\<open>method_bodies.go\<close>, \<open>extended_card.go\<close>): the
    envelope, aliases and dispatch, and every handler over the stores (C8, C12, \<open>streaming_resets_terminal_task\<close>, C15).
  \<^item> \<open>Stream_Broker\<close> (\<open>sse.go\<close>) and \<open>Webhook\<close> (\<open>webhook.go\<close>, \<open>push_webhook.go\<close>): subscriptions with
    bounded channels, \<open>Publish\<close> as its two critical sections under every interleaving (C5, C6, \<open>publish_race_orphans\<close>), filters,
    retries (three attempts at most) and signatures (\<open>state_filter_exact\<close>, \<open>webhook_attempts\<close>, C4).
  \<^item> \<open>Streaming\<close> (\<open>streaming.go\<close>): the two streaming methods (\<open>resubscribe_stream\<close>, \<open>stream_opens_submitted\<close>).

  \<^bold>\<open>Stores\<close> (\<open>internal/persistence\<close>). \<open>Task_Store\<close>: tasks and push configurations in SQLite (\<open>task_save_then_get\<close>, \<open>cursor_pagination\<close>, \<open>push_config_roundtrip\<close>),
  with the locale \<open>task_repo\<close>, the contract its clients use. \<open>Grants\<close>: grants in SQLite, their HTTP
  surface (\<open>runtimehttp/grants.go\<close>), the grant check the deliverer calls, the mint endpoint
  (\<open>jwt_mint.go\<close>) and the authenticated card (C36). \<open>Postgres_Store\<close>: the PostgreSQL repositories and
  their equivalence with the SQLite ones (C37).

  \<^bold>\<open>Runtime\<close> (\<open>internal/runtime\<close>, \<open>internal/ptyhost\<close>, \<open>internal/completion\<close>).
  \<^item> \<open>Knock\<close>, \<open>Deliverer\<close>, \<open>Pump\<close> (\<open>knock.go\<close>, \<open>a2a_deliverer.go\<close>, \<open>a2a_reknock.go\<close>,
    \<open>a2a_publisher.go\<close>): a message becomes a knock and a task row (\<open>knock_roundtrip\<close>, \<open>denied_delivery\<close>, C24, \<open>failed_injection_leaves_working\<close>, \<open>silence_completion\<close>), and terminal output becomes
    stream events and the final response (C26). The deliverer calls the grant check, the stores and the
    broker; the pump calls the broker and the completer.
  \<^item> \<open>Ring_Buffer\<close>, \<open>Pty_Session\<close> (\<open>buffer.go\<close>, \<open>session.go\<close>, \<open>manager.go\<close>): the replay ring refines
    \<open>the last bytes written\<close> (C28); what a subscriber receives and what the registry holds under every
    interleaving (C29, \<open>registry_exact\<close>).
  \<^item> \<open>Completion_Detector\<close> (\<open>detector.go\<close>): the 256-byte window refines the whole output (C33).
  \<^item> \<open>Event_Log\<close> (\<open>events.go\<close>): the bounded log and the human inbox.
  \<^item> \<open>Team_Registry\<close>, \<open>Team_Directory\<close> (\<open>runtime.go\<close>, \<open>team.go\<close>, \<open>membership.go\<close>): the state
    authority. Operations return \<open>Ret\<close>, \<open>Panic\<close> or \<open>Blocked\<close> (a mutex left locked by a panic is
    \<open>rt_wedged\<close>). The directory refines the history of successful operations (C35); an operation on a
    pending spawn blocks the runtime (\<open>judging_a_pending_spawn_wedges\<close>).
  \<^item> \<open>Ttl_Directory\<close>, \<open>Peer_Registry\<close> (\<open>peer_registry.go\<close>): external peers with heartbeats (\<open>peer_list_exact\<close>).

  \<^bold>\<open>Hub and relay\<close> (\<open>cmd/chepherd-hub\<close>, \<open>relay/internal\<close>). \<open>Hub_Directory\<close>: presence and signaling
  mailboxes (\<open>hub_directory_exact\<close>, \<open>signaling_mailbox\<close>). \<open>Hub_Tunnel\<close>: request and response correlation over one socket and the reverse
  proxy (C34, \<open>relay_forwarding\<close>). \<open>Relay_Registry\<close>: bastions and their tokens (\<open>daemon_tokens_exact\<close>). \<open>Ws_Relay\<close>: rooms (C38).
  \<open>Relay_Server\<close> (\<open>chepherd-relay/main.go\<close>, \<open>relay/internal/push\<close>): offers and answers under every
  interleaving of the handlers (C7, \<open>refused_offers_leak\<close>), candidates, push tokens. \<open>Relay_Auth\<close>
  (\<open>relay/internal/auth\<close>): the relay's token check over any history (C31).

  \<^bold>\<open>Authentication\<close> (\<open>internal/auth\<close>, \<open>a2a/routes.go\<close>). \<open>Jose\<close> (\<open>es256.go\<close>): compact tokens and key
  documents over the record \<open>jose\<close>, which holds the cryptographic and JSON primitives the code calls. Base64
  is modelled down to the bytes. \<open>Keystore\<close> (\<open>keystore.go\<close>): rotation with an overlap window refines the
  ledger of all keys ever minted (\<open>key_overlap\<close>). \<open>Runner_Auth\<close> (\<open>jwks_client.go\<close>,
  \<open>jwt_runner_middleware.go\<close>): the key cache and the replay cache of a runner over any history
  (C39) and what it admits of the daemon's own tokens (\<open>runner_follows_document\<close>).
  \<open>Validators\<close> (\<open>validators.go\<close>): the five validators, one after the other, under the middleware
  (\<open>hmac_expiry\<close>, \<open>api_key_staleness\<close>, \<open>rotation_locks_out_peers\<close>).

  \<^bold>\<open>Federation.\<close> \<open>Federation_Jwt\<close> (\<open>federation/cross_org_jwt.go\<close>, \<open>runtimehttp/federation_mint.go\<close>,
  \<open>cmd/chepherd-hub/federation.go\<close>): the caching client under any interleaving (\<open>federation_cache\<close>), and
  client, hub and mint endpoint composed (C40). \<open>Federation_Delivery\<close>
  (\<open>federated_deliverer.go\<close>, \<open>hub_deliverer.go\<close>, \<open>hub_answerer.go\<close>, \<open>b2b_deliverer.go\<close>): messages to other
  daemons over HTTP and over the hub (C16, C20, C30,
  C13). \<open>Federation_Discovery\<close> (\<open>federation.go\<close>, \<open>discoverer_registry.go\<close>, \<open>hub_discovery.go\<close>,
  \<open>agent_cards.go\<close>): how peers become known (\<open>card_fetches_spaced\<close>, \<open>hub_peers_routed\<close>).

  \<^bold>\<open>Tools.\<close> \<open>Peer_Views\<close> (\<open>agent_card.go\<close>, \<open>peer_status.go\<close>): the card and the status of a session, and
  the activity counters as a window over its output (\<open>activity_window\<close>). \<open>Mcp_Tools\<close>, \<open>Mcp_Server\<close>
  (\<open>internal/mcpserver\<close>): the 27 tools agents call, each over the state authority, the stores and the
  deliverer; dispatch, the token check and the transports. \<open>Mcp_Guarantees\<close>: who may stop and spawn
  (C25), whose name a call runs under when requests interleave (C17), the shape of
  replies (C3), who may fetch a task (C19). \<open>Mcp_Views\<close>: no run of tool calls
  panics or blocks, and the views the tools give agree (C14).

  \<^bold>\<open>Sessions over HTTP\<close> (\<open>runtimehttp/server.go\<close>, \<open>runtime.go\<close>). \<open>Daemon_Sessions\<close>: the token check
  (\<open>token_gate\<close>), the merged listing (\<open>stored_listed\<close>), the two sweeps of stored rows (C10), the
  handler of one session (C18), \<open>Restart\<close> (C21) and \<open>Handoff\<close>
  (\<open>handoff_to_spawning\<close>).

  \<^bold>\<open>Supervision\<close> (\<open>internal/scrummaster\<close>). \<open>Scrum_Signals\<close> (\<open>signals.go\<close>, \<open>engagement.go\<close>): the tail of a
  transcript (C23), its events, and the signals computed from them (\<open>signals_of_transcript\<close>).
  \<open>Scrum_Bands\<close> (\<open>band.go\<close>, \<open>judge.go\<close>, \<open>shepherd.go\<close>, \<open>sqlite/sessions.go\<close>): bands as a function of the
  history (C27, \<open>never_trusted\<close>), reading the judge (C11), the tick
  (\<open>tick_only_schedules\<close>).

  \<^bold>\<open>Team transcript\<close> (\<open>runtimehttp/team_transcript.go\<close>, \<open>channel_stream.go\<close>). \<open>Channel_Store\<close>
  (\<open>sqlite/channels.go\<close>, \<open>postgres/channels.go\<close>): channels, members and messages with their keys and
  references. \<open>Transcript_Text\<close>: the scanners for mentions, tickets and alert kinds. \<open>Transcript_Stream\<close>:
  the live ticks. \<open>Team_Transcript\<close>: recipients, leads, posting and the merged feeds.
  \<open>Transcript_Guarantees\<close>: a post is accounted for (C22) and seen by the next reader
  (C9); who leads a team (C32); what every team sees
  (\<open>operator_tasks_everywhere\<close>).

  \<^bold>\<open>Interfaces.\<close> \<open>suffix_buffer\<close> (bounded memory that shows the end of a stream) is interpreted by the
  ring, the detector's tail, the event log and the inbox. \<open>task_repo\<close> is interpreted by the SQLite task
  table, \<open>roster_store\<close> (who is enrolled after enrolling a roster) by the channel tables.
  \<open>ttl_directory\<close> and its extension \<open>ttl_registry\<close> (announce, refresh, withdraw, sweep, list) are
  interpreted by the hub's registry and the peer registry; their clients' lemma, that a listing is a
  function of the history and not of the sweeps, is proved once.

  \<^bold>\<open>Bounds.\<close> No definition uses fuel: the loops of the sources are structural (over lists, events or
  attempts) or have a termination measure. Numbers are unbounded where the source uses them as counters
  or instants far from the limits of \<open>int64\<close>.

  \<^bold>\<open>Not modelled.\<close> What runs external programs (containers, git, Kubernetes), the WebRTC and TLS
  stacks, the terminal user interface, file watching, and the parts of \<open>runtime.go\<close> and
  \<open>runtimehttp/server.go\<close> that read and write files or start processes. Cryptographic primitives are
  arguments.
\<close>

end
